(* ===== verification/Parallel_Prelude.thy ===== *)
theory Parallel_Prelude
  imports Main
begin

text \<open>
  Shared vocabulary of the development.

  The pallets are Rust code that returns \<open>Result\<close> values, propagates errors with \<open>?\<close>, reads and
  writes key-value storage, and computes on unsigned machine integers.  This theory holds:

  \<^item> the result type of a dispatchable and of its helpers, \<open>'m dispatch_error + 'a\<close>, with
    \<open>bindE\<close> for the question-mark operator, \<open>ok_or\<close>, \<open>ensure\<close> and \<open>foldE\<close> for a \<open>for\<close> loop whose
    body may return early with an error;
  \<^item> the checked and saturating integer operations of the Rust standard library at the widths the
    code uses, on \<open>nat\<close> with the bound written out.  The workspace is built with
    \<open>overflow-checks = true\<close>, so a plain subtraction that would wrap panics: \<open>sub_u128\<close> returns
    \<open>None\<close> there;
  \<^item> iteration over a storage map in the fixed order of its hashed keys (\<open>storage_iter\<close>);
  \<^item> sums of a quantity over the entries of a finite storage map (\<open>sum_entries\<close>), the tool of every
    conservation theorem.
\<close>

named_theorems arith_simps \<open>the laws of the fixed-point parameters, as rewrite rules\<close>
named_theorems frame_dest \<open>which storage items an operation can change\<close>

section \<open>Types\<close>

type_synonym balance = nat
type_synonym currency_id = nat
type_synonym account_id = nat
type_synonym rate = nat
type_synonym ratio = nat
type_synonym timestamp = nat
type_synonym block_number = nat

datatype arithmetic_error = Underflow | Overflow | DivisionByZero

datatype 'm dispatch_error =
    Module 'm
  | Arithmetic arithmetic_error
  | BadOrigin
  | CannotLookup
  | Other string
  | External nat
  | Panic

datatype origin = Root | Signed account_id | Unsigned | Collective nat

section \<open>Results\<close>

definition bindE :: "'e + 'a \<Rightarrow> ('a \<Rightarrow> 'e + 'b) \<Rightarrow> 'e + 'b" where
  "bindE m f = (case m of Inl e \<Rightarrow> Inl e | Inr x \<Rightarrow> f x)"

definition ok_or :: "'a option \<Rightarrow> 'e \<Rightarrow> 'e + 'a" where
  "ok_or x e = (case x of None \<Rightarrow> Inl e | Some v \<Rightarrow> Inr v)"

definition ensure :: "bool \<Rightarrow> 'e \<Rightarrow> 'e + unit" where
  "ensure b e = (if b then Inr () else Inl e)"

definition map_err :: "('e \<Rightarrow> 'f) \<Rightarrow> 'e + 'a \<Rightarrow> 'f + 'a" where
  "map_err f m = (case m of Inl e \<Rightarrow> Inl (f e) | Inr x \<Rightarrow> Inr x)"

definition is_ok :: "'e + 'a \<Rightarrow> bool" where
  "is_ok m = (case m of Inl e \<Rightarrow> False | Inr x \<Rightarrow> True)"

definition ok :: "'e + 'a \<Rightarrow> 'a option" where
  "ok m = (case m of Inl e \<Rightarrow> None | Inr x \<Rightarrow> Some x)"

fun foldE :: "('a \<Rightarrow> 'b \<Rightarrow> 'e + 'b) \<Rightarrow> 'a list \<Rightarrow> 'b \<Rightarrow> 'e + 'b" where
  "foldE f [] acc = Inr acc"
| "foldE f (x # xs) acc = bindE (f x acc) (foldE f xs)"

definition ensure_signed :: "origin \<Rightarrow> 'm dispatch_error + account_id" where
  "ensure_signed o' = (case o' of Signed who \<Rightarrow> Inr who | _ \<Rightarrow> Inl BadOrigin)"

definition ensure_origin :: "(origin \<Rightarrow> bool) \<Rightarrow> origin \<Rightarrow> 'm dispatch_error + unit" where
  "ensure_origin p o' = ensure (p o') BadOrigin"

section \<open>Machine integers\<close>

abbreviation u128_max :: nat where
  "u128_max \<equiv> 340282366920938463463374607431768211455"

abbreviation u64_max :: nat where
  "u64_max \<equiv> 18446744073709551615"

abbreviation u32_max :: nat where
  "u32_max \<equiv> 4294967295"

definition checked_add :: "nat \<Rightarrow> nat \<Rightarrow> nat option" where
  "checked_add a b = (if a + b \<le> u128_max then Some (a + b) else None)"

definition checked_sub :: "nat \<Rightarrow> nat \<Rightarrow> nat option" where
  "checked_sub a b = (if b \<le> a then Some (a - b) else None)"

definition checked_mul :: "nat \<Rightarrow> nat \<Rightarrow> nat option" where
  "checked_mul a b = (if a * b \<le> u128_max then Some (a * b) else None)"

definition checked_div :: "nat \<Rightarrow> nat \<Rightarrow> nat option" where
  "checked_div a b = (if b = 0 then None else Some (a div b))"

definition saturating_sub :: "nat \<Rightarrow> nat \<Rightarrow> nat" where
  "saturating_sub a b = (if b \<le> a then a - b else 0)"

definition sub_u128 :: "nat \<Rightarrow> nat \<Rightarrow> nat option" where
  "sub_u128 a b = (if b \<le> a then Some (a - b) else None)"

definition add_u128 :: "nat \<Rightarrow> nat \<Rightarrow> nat option" where
  "add_u128 a b = (if a + b \<le> u128_max then Some (a + b) else None)"

text \<open>
  \<open>num_bigint::BigUint\<close> is an unbounded natural number; the only step that can fail on the way
  back is \<open>to_u128\<close>.
\<close>

definition to_u128 :: "nat \<Rightarrow> nat option" where
  "to_u128 n = (if n \<le> u128_max then Some n else None)"

section \<open>Storage\<close>

definition storage_iter :: "'k list \<Rightarrow> ('k \<rightharpoonup> 'v) \<Rightarrow> ('k \<times> 'v) list" where
  "storage_iter ks m = List.map_filter (\<lambda>k. map_option (Pair k) (m k)) ks"

definition covers :: "'k list \<Rightarrow> ('k \<rightharpoonup> 'v) \<Rightarrow> bool" where
  "covers ks m \<longleftrightarrow> distinct ks \<and> dom m \<subseteq> set ks"

definition sum_entries :: "('v \<Rightarrow> nat) \<Rightarrow> ('k \<rightharpoonup> 'v) \<Rightarrow> nat" where
  "sum_entries f m = (\<Sum>k\<in>dom m. f (the (m k)))"

section \<open>Lemmas on results\<close>

lemma bindE_simps [simp]:
  "bindE (Inl e) f = Inl e"
  "bindE (Inr x) f = f x"
  by (simp_all add: bindE_def)

lemma bindE_Inr_iff: "bindE m f = Inr y \<longleftrightarrow> (\<exists>x. m = Inr x \<and> f x = Inr y)"
  by (cases m) auto

lemma bindE_Inl_iff:
  "bindE m f = Inl e \<longleftrightarrow> m = Inl e \<or> (\<exists>x. m = Inr x \<and> f x = Inl e)"
  by (cases m) auto

lemma bindE_InrE [elim!]:
  assumes "bindE m f = Inr y"
  obtains x where "m = Inr x" "f x = Inr y"
  using assms by (auto simp: bindE_Inr_iff)

lemma bindE_assoc: "bindE (bindE m f) g = bindE m (\<lambda>x. bindE (f x) g)"
  by (cases m) auto

lemma bindE_cong [fundef_cong]:
  "m = m' \<Longrightarrow> (\<And>x. m' = Inr x \<Longrightarrow> f x = g x) \<Longrightarrow> bindE m f = bindE m' g"
  by (cases m') auto

lemma ok_or_simps [simp]:
  "ok_or None e = Inl e"
  "ok_or (Some v) e = Inr v"
  by (simp_all add: ok_or_def)

lemma ok_or_Inr_iff [simp]: "ok_or x e = Inr v \<longleftrightarrow> x = Some v"
  by (cases x) auto

lemma ensure_Inr_iff [simp]: "ensure b e = Inr u \<longleftrightarrow> b"
  by (simp add: ensure_def)

lemma ensure_simps [simp]:
  "ensure True e = Inr ()"
  "ensure False e = Inl e"
  by (simp_all add: ensure_def)

lemma ensure_origin_Inr_iff [simp]: "ensure_origin p o' = Inr u \<longleftrightarrow> p o'"
  by (simp add: ensure_origin_def)

lemma ensure_signed_Inr_iff [simp]: "ensure_signed o' = Inr who \<longleftrightarrow> o' = Signed who"
  by (auto simp: ensure_signed_def split: origin.splits)

lemma map_err_Inr_iff [simp]: "map_err f m = Inr x \<longleftrightarrow> m = Inr x"
  by (cases m) (auto simp: map_err_def)

lemma map_err_simps [simp]:
  "map_err f (Inl e) = Inl (f e)"
  "map_err f (Inr x) = Inr x"
  by (simp_all add: map_err_def)

lemma foldE_append: "foldE f (xs @ ys) acc = bindE (foldE f xs acc) (foldE f ys)"
  by (induction xs arbitrary: acc) (simp_all add: bindE_assoc cong: bindE_cong)

lemma foldE_invariant:
  assumes "foldE f xs acc = Inr res"
    and "P acc"
    and "\<And>x a b. x \<in> set xs \<Longrightarrow> P a \<Longrightarrow> f x a = Inr b \<Longrightarrow> P b"
  shows "P res"
  using assms
proof (induction xs arbitrary: acc)
  case Nil
  then show ?case by simp
next
  case (Cons x xs)
  from Cons.prems(1) obtain b where b: "f x acc = Inr b" "foldE f xs b = Inr res" by auto
  have "P b" using Cons.prems(2,3) b(1) by auto
  with b(2) Cons.prems(3) show ?case by (intro Cons.IH) auto
qed

section \<open>Lemmas on machine integers\<close>

lemma checked_add_Some [simp]:
  "checked_add a b = Some c \<longleftrightarrow> c = a + b \<and> a + b \<le> u128_max"
  by (auto simp: checked_add_def)

lemma checked_sub_Some [simp]: "checked_sub a b = Some c \<longleftrightarrow> c = a - b \<and> b \<le> a"
  by (auto simp: checked_sub_def)

lemma checked_mul_Some [simp]:
  "checked_mul a b = Some c \<longleftrightarrow> c = a * b \<and> a * b \<le> u128_max"
  by (auto simp: checked_mul_def)

lemma checked_div_Some [simp]: "checked_div a b = Some c \<longleftrightarrow> c = a div b \<and> b \<noteq> 0"
  by (auto simp: checked_div_def)

lemma to_u128_Some [simp]: "to_u128 n = Some c \<longleftrightarrow> c = n \<and> n \<le> u128_max"
  by (auto simp: to_u128_def)

lemma sub_u128_Some [simp]: "sub_u128 a b = Some c \<longleftrightarrow> c = a - b \<and> b \<le> a"
  by (auto simp: sub_u128_def)

lemma add_u128_Some [simp]: "add_u128 a b = Some c \<longleftrightarrow> c = a + b \<and> a + b \<le> u128_max"
  by (auto simp: add_u128_def)

lemma saturating_sub_eq [simp]: "saturating_sub a b = a - b"
  by (simp add: saturating_sub_def)

lemma div_mult_le_nat: "(a::nat) div b * b \<le> a"
  by (simp add: div_mult_mod_eq [symmetric])

lemma less_div_Suc_mult: "0 < b \<Longrightarrow> (a::nat) < Suc (a div b) * b"
  by (metis dividend_less_div_times mult.commute mult_Suc)

lemma div_div_le_mono: "(a::nat) \<le> b \<Longrightarrow> a div c \<le> b div c"
  by (rule div_le_mono)

text \<open>
  Inversion of a successful chain of fallible steps: \<open>elim resultE\<close> takes the chain apart into its
  steps without touching anything else.
\<close>

lemma ensure_InrE: "ensure P e = Inr u \<Longrightarrow> (P \<Longrightarrow> R) \<Longrightarrow> R"
  by simp

lemma ok_or_InrE: "ok_or x e = Inr v \<Longrightarrow> (x = Some v \<Longrightarrow> R) \<Longrightarrow> R"
  by simp

lemma map_err_InrE: "map_err f m = Inr x \<Longrightarrow> (m = Inr x \<Longrightarrow> R) \<Longrightarrow> R"
  by simp

lemma checked_add_SomeE:
  "checked_add m n = Some v \<Longrightarrow> (v = m + n \<Longrightarrow> m + n \<le> u128_max \<Longrightarrow> R) \<Longrightarrow> R"
  by simp

lemma checked_sub_SomeE: "checked_sub m n = Some v \<Longrightarrow> (v = m - n \<Longrightarrow> n \<le> m \<Longrightarrow> R) \<Longrightarrow> R"
  by simp

lemma ensure_originE: "ensure_origin p o' = Inr u \<Longrightarrow> (p o' \<Longrightarrow> R) \<Longrightarrow> R"
  by simp

lemma ensure_signedE: "ensure_signed o' = Inr w \<Longrightarrow> (o' = Signed w \<Longrightarrow> R) \<Longrightarrow> R"
  by simp

lemma if_Inl_InrE: "(if P then Inl e else m) = Inr x \<Longrightarrow> (\<not> P \<Longrightarrow> m = Inr x \<Longrightarrow> R) \<Longrightarrow> R"
  by (simp split: if_splits)

lemma Inr_InrE: "Inr x = Inr y \<Longrightarrow> (y = x \<Longrightarrow> R) \<Longrightarrow> R"
  by simp

lemma Inr_pairE: "Inr (x, y) = Inr (u, v) \<Longrightarrow> (u = x \<Longrightarrow> v = y \<Longrightarrow> R) \<Longrightarrow> R"
  by simp

lemmas resultE = Inr_pairE bindE_InrE ensure_InrE ok_or_InrE map_err_InrE checked_add_SomeE checked_sub_SomeE
  ensure_originE ensure_signedE if_Inl_InrE Inr_InrE

section \<open>Lemmas on storage\<close>

lemma storage_iter_mem: "(k, v) \<in> set (storage_iter ks m) \<longleftrightarrow> k \<in> set ks \<and> m k = Some v"
  by (force simp: storage_iter_def List.map_filter_def)

lemma storage_iter_simps [simp]:
  "storage_iter [] m = []"
  "storage_iter (k # ks) m =
     (case m k of None \<Rightarrow> storage_iter ks m | Some v \<Rightarrow> (k, v) # storage_iter ks m)"
  by (simp_all add: storage_iter_def List.map_filter_def split: option.splits)

lemma storage_iter_distinct: "distinct ks \<Longrightarrow> distinct (map fst (storage_iter ks m))"
  by (induction ks) (auto simp: storage_iter_mem split: option.splits)

lemma storage_iter_mem_covers:
  "covers ks m \<Longrightarrow> (k, v) \<in> set (storage_iter ks m) \<longleftrightarrow> m k = Some v"
  by (auto simp: storage_iter_mem covers_def)

lemma sum_entries_empty [simp]: "sum_entries f Map.empty = 0"
  by (simp add: sum_entries_def)

lemma sum_entries_upd:
  assumes "finite (dom m)"
  shows "sum_entries f (m(k \<mapsto> v)) + (case m k of None \<Rightarrow> 0 | Some w \<Rightarrow> f w) = sum_entries f m + f v"
proof -
  have rest: "(\<Sum>x\<in>dom m - {k}. f (the ((m(k \<mapsto> v)) x))) = (\<Sum>x\<in>dom m - {k}. f (the (m x)))"
    by (rule sum.cong) auto
  have "sum_entries f (m(k \<mapsto> v)) = f v + (\<Sum>x\<in>dom m - {k}. f (the (m x)))"
    using assms by (simp add: sum_entries_def sum.insert_remove rest)
  moreover have "sum_entries f m = (case m k of None \<Rightarrow> 0 | Some w \<Rightarrow> f w) + (\<Sum>x\<in>dom m - {k}. f (the (m x)))"
  proof (cases "m k")
    case None
    then have "dom m - {k} = dom m" by auto
    with None show ?thesis by (simp add: sum_entries_def)
  next
    case (Some w)
    then have "k \<in> dom m" by auto
    with assms Some show ?thesis by (simp add: sum_entries_def sum.remove)
  qed
  ultimately show ?thesis by simp
qed

lemma sum_entries_del:
  assumes "finite (dom m)"
  shows "sum_entries f (m(k := None)) + (case m k of None \<Rightarrow> 0 | Some w \<Rightarrow> f w) = sum_entries f m"
proof (cases "m k")
  case None
  then have "m(k := None) = m" by auto
  with None show ?thesis by simp
next
  case (Some w)
  then have k: "k \<in> dom m" by auto
  have "sum_entries f (m(k := None)) = (\<Sum>x\<in>dom m - {k}. f (the (m x)))"
    unfolding sum_entries_def by (rule sum.cong) auto
  with assms k Some show ?thesis by (simp add: sum_entries_def sum.remove)
qed

lemma sum_entries_submap:
  assumes "m' \<subseteq>\<^sub>m m" and "finite (dom m)"
  shows "sum_entries f m' \<le> sum_entries f m"
proof -
  have "sum_entries f m' = (\<Sum>k\<in>dom m'. f (the (m k)))"
    unfolding sum_entries_def using assms(1) by (intro sum.cong) (auto simp: map_le_def)
  also have "\<dots> \<le> sum_entries f m"
    unfolding sum_entries_def by (rule sum_mono2 [OF assms(2) map_le_implies_dom_le [OF assms(1)]]) simp
  finally show ?thesis .
qed

lemma sum_entries_ge: "finite (dom m) \<Longrightarrow> m k = Some v \<Longrightarrow> f v \<le> sum_entries f m"
  unfolding sum_entries_def by (rule order_trans [OF _ member_le_sum [of k]]) auto

section \<open>Histories of transactional calls\<close>

text \<open>
  A call of a pallet either succeeds with a new state or fails and leaves the state as it was.
  \<open>run_calls\<close> executes a list of calls that way, \<open>history\<close> is reachability by calls that satisfy
  \<open>admitted\<close>, and the locale is the contract of an invariant: every accepted call keeps it.
\<close>

definition run_calls :: "('s \<Rightarrow> 'c \<Rightarrow> 'e + 's) \<Rightarrow> 'c list \<Rightarrow> 's \<Rightarrow> 's" where
  "run_calls exec cs s = fold (\<lambda>c s. case exec s c of Inr s' \<Rightarrow> s' | Inl _ \<Rightarrow> s) cs s"

inductive history :: "('s \<Rightarrow> 'c \<Rightarrow> 'e + 's) \<Rightarrow> ('c \<Rightarrow> bool) \<Rightarrow> 's \<Rightarrow> 's \<Rightarrow> bool"
  for exec admitted where
  start: "history exec admitted s s"
| call: "history exec admitted s t \<Longrightarrow> admitted c \<Longrightarrow> exec t c = Inr u \<Longrightarrow> history exec admitted s u"

lemma history_mono:
  assumes "history exec adm s s'" and "\<And>act. adm act \<Longrightarrow> adm' act"
  shows "history exec adm' s s'"
  using assms(1) by induction (auto intro: history.intros assms(2))

lemma run_calls_history:
  assumes "\<forall>c\<in>set cs. admitted c"
  shows "history exec admitted s (run_calls exec cs s)"
proof -
  have "history exec admitted s (fold (\<lambda>c s. case exec s c of Inr s' \<Rightarrow> s' | Inl _ \<Rightarrow> s) cs t)"
    if "history exec admitted s t" for t
    using that assms
  proof (induction cs arbitrary: t)
    case Nil
    then show ?case by simp
  next
    case (Cons c cs)
    have "history exec admitted s (case exec t c of Inr s' \<Rightarrow> s' | Inl _ \<Rightarrow> t)"
      using Cons.prems by (auto intro: history.call split: sum.split)
    with Cons show ?case by simp
  qed
  then show ?thesis by (simp add: run_calls_def history.start)
qed

locale kept_by_calls =
  fixes exec :: "'s \<Rightarrow> 'c \<Rightarrow> 'e + 's" and admitted :: "'c \<Rightarrow> bool" and inv :: "'s \<Rightarrow> bool"
  assumes exec_inv: "admitted c \<Longrightarrow> inv s \<Longrightarrow> exec s c = Inr s' \<Longrightarrow> inv s'"
begin

lemma history_inv: "history exec admitted s s' \<Longrightarrow> inv s \<Longrightarrow> inv s'"
  by (induction rule: history.induct) (auto intro: exec_inv)

lemma run_calls_inv: "\<forall>c\<in>set cs. admitted c \<Longrightarrow> inv s \<Longrightarrow> inv (run_calls exec cs s)"
  by (rule history_inv [OF run_calls_history])

end

text \<open>The contract of a relation between the states before and after.\<close>

locale ordered_by_calls =
  fixes exec :: "'s \<Rightarrow> 'c \<Rightarrow> 'e + 's" and admitted :: "'c \<Rightarrow> bool" and inv :: "'s \<Rightarrow> bool"
    and rel :: "'s \<Rightarrow> 's \<Rightarrow> bool"
  assumes keeps: "admitted c \<Longrightarrow> inv s \<Longrightarrow> exec s c = Inr s' \<Longrightarrow> inv s'"
    and advances: "admitted c \<Longrightarrow> inv s \<Longrightarrow> exec s c = Inr s' \<Longrightarrow> rel s s'"
    and rel_refl: "rel s s"
    and rel_trans: "rel s t \<Longrightarrow> rel t u \<Longrightarrow> rel s u"

sublocale ordered_by_calls \<subseteq> kept_by_calls exec admitted inv
  by unfold_locales (rule keeps)

context ordered_by_calls
begin

lemma history_rel: "history exec admitted s s' \<Longrightarrow> inv s \<Longrightarrow> rel s s'"
proof (induction rule: history.induct)
  case (start s)
  show ?case by (rule rel_refl)
next
  case (call s t c u)
  from call.hyps(1) call.prems have "inv t" by (rule history_inv)
  with call show ?case by (blast intro: rel_trans advances)
qed

end

end
