(* ===== verification/Sp_Arith.thy ===== *)
theory Sp_Arith
  imports Parallel_Prelude
begin

text \<open>
  The fixed-point arithmetic of the \<open>sp-arithmetic\<close> crate, as a parameter.

  The pallets compute with \<open>FixedU128\<close> (\<open>Rate\<close>, \<open>Price\<close>, \<open>Liquidity\<close>, \<open>Shortfall\<close> of
  src/primitives/src/lib.rs) and \<open>Permill\<close> (\<open>Ratio\<close>).  That crate is not part of this repository, so
  its operations are the fields of a record \<open>sp_arith\<close> that every definition using them takes as an
  argument.  A \<open>FixedU128\<close> is represented by its inner \<open>u128\<close> (the value times \<open>10^18\<close>), a
  \<open>Permill\<close> by its number of parts per million; \<open>from_inner\<close>, \<open>into_inner\<close> and the derived
  comparisons are therefore the identity and the order of \<open>nat\<close>.

  \<open>sp_arith_laws\<close> states the documented behaviour the code relies on: checked operations fail
  exactly when the exact result, rounded towards zero, does not fit the width; saturating ones clamp
  it.  The direction of rounding is the one the test \<open>interest_rate_model_works\<close> of
  src/pallets/loans/src/tests/interest_rate.rs observes.  \<open>sp_arith_ref\<close> is a concrete instance,
  used to show that the laws can hold and to evaluate the model on concrete inputs.
\<close>

abbreviation FX :: nat where
  "FX \<equiv> 1000000000000000000"

abbreviation PM :: nat where
  "PM \<equiv> 1000000"

record sp_arith =
  fx_checked_add :: "nat \<Rightarrow> nat \<Rightarrow> nat option"
  fx_checked_sub :: "nat \<Rightarrow> nat \<Rightarrow> nat option"
  fx_checked_mul :: "nat \<Rightarrow> nat \<Rightarrow> nat option"
  fx_checked_div :: "nat \<Rightarrow> nat \<Rightarrow> nat option"
  fx_checked_mul_int :: "nat \<Rightarrow> nat \<Rightarrow> nat option"
  fx_checked_from_rational :: "nat \<Rightarrow> nat \<Rightarrow> nat option"
  fx_saturating_mul :: "nat \<Rightarrow> nat \<Rightarrow> nat"
  fx_saturating_pow :: "nat \<Rightarrow> nat \<Rightarrow> nat"
  fx_reciprocal :: "nat \<Rightarrow> nat option"
  fx_saturating_from_integer :: "nat \<Rightarrow> nat"
  fx_saturating_from_rational :: "nat \<Rightarrow> nat \<Rightarrow> nat option"
  fx_add :: "nat \<Rightarrow> nat \<Rightarrow> nat option"
  fx_sub :: "nat \<Rightarrow> nat \<Rightarrow> nat option"
  fx_of_permill :: "nat \<Rightarrow> nat"
  pm_mul_ceil :: "nat \<Rightarrow> nat \<Rightarrow> nat"
  pm_mul_floor :: "nat \<Rightarrow> nat \<Rightarrow> nat"
  pm_from_rational :: "nat \<Rightarrow> nat \<Rightarrow> nat"
  pm_saturating_sub :: "nat \<Rightarrow> nat \<Rightarrow> nat"
  pm_checked_sub :: "nat \<Rightarrow> nat \<Rightarrow> nat option"
  pm_saturating_reciprocal_mul_ceil :: "nat \<Rightarrow> nat \<Rightarrow> nat"
  pm_saturating_reciprocal_mul_floor :: "nat \<Rightarrow> nat \<Rightarrow> nat"

definition fx_laws :: "sp_arith \<Rightarrow> bool" where
  "fx_laws A \<longleftrightarrow>
     (\<forall>a b. fx_checked_add A a b = checked_add a b) \<and>
     (\<forall>a b. fx_checked_sub A a b = checked_sub a b) \<and>
     (\<forall>a b. fx_checked_mul A a b = to_u128 (a * b div FX)) \<and>
     (\<forall>a b. fx_checked_div A a b = (if b = 0 then None else to_u128 (a * FX div b))) \<and>
     (\<forall>a n. fx_checked_mul_int A a n = to_u128 (a * n div FX)) \<and>
     (\<forall>n d. fx_checked_from_rational A n d = (if d = 0 then None else to_u128 (n * FX div d))) \<and>
     (\<forall>a b. fx_saturating_mul A a b = min (a * b div FX) u128_max) \<and>
     (\<forall>a b k. a \<le> b \<longrightarrow> fx_saturating_pow A a k \<le> fx_saturating_pow A b k) \<and>
     (\<forall>a k. a \<le> FX \<longrightarrow> fx_saturating_pow A a k \<le> FX) \<and>
     (\<forall>a. fx_reciprocal A a = (if a = 0 then None else to_u128 (FX * FX div a))) \<and>
     (\<forall>n. fx_saturating_from_integer A n = min (n * FX) u128_max) \<and>
     (\<forall>n d. fx_saturating_from_rational A n d =
        (if d = 0 then None else Some (min (n * FX div d) u128_max))) \<and>
     (\<forall>a b. fx_add A a b = checked_add a b) \<and>
     (\<forall>a b. fx_sub A a b = checked_sub a b) \<and>
     (\<forall>p. fx_of_permill A p = p * (FX div PM))"

definition pm_laws :: "sp_arith \<Rightarrow> bool" where
  "pm_laws A \<longleftrightarrow>
     (\<forall>p n. pm_mul_ceil A p n = (p * n + (PM - 1)) div PM) \<and>
     (\<forall>p n. pm_mul_floor A p n = p * n div PM) \<and>
     (\<forall>n d. pm_from_rational A n d = (if d = 0 then PM else min n d * PM div d)) \<and>
     (\<forall>p q. pm_saturating_sub A p q = p - q) \<and>
     (\<forall>p q. pm_checked_sub A p q = checked_sub p q) \<and>
     (\<forall>p n. 0 < p \<longrightarrow> pm_saturating_reciprocal_mul_ceil A p n = min ((n * PM + (p - 1)) div p) u128_max) \<and>
     (\<forall>p n. 0 < p \<longrightarrow> pm_saturating_reciprocal_mul_floor A p n = min (n * PM div p) u128_max)"

definition sp_arith_laws :: "sp_arith \<Rightarrow> bool" where
  "sp_arith_laws A \<longleftrightarrow> fx_laws A \<and> pm_laws A"

fun fx_pow_ref :: "nat \<Rightarrow> nat \<Rightarrow> nat" where
  "fx_pow_ref a 0 = FX"
| "fx_pow_ref a (Suc k) = min (a * fx_pow_ref a k div FX) u128_max"

definition sp_arith_ref :: sp_arith where
  "sp_arith_ref = \<lparr>
     fx_checked_add = checked_add,
     fx_checked_sub = checked_sub,
     fx_checked_mul = (\<lambda>a b. to_u128 (a * b div FX)),
     fx_checked_div = (\<lambda>a b. if b = 0 then None else to_u128 (a * FX div b)),
     fx_checked_mul_int = (\<lambda>a n. to_u128 (a * n div FX)),
     fx_checked_from_rational = (\<lambda>n d. if d = 0 then None else to_u128 (n * FX div d)),
     fx_saturating_mul = (\<lambda>a b. min (a * b div FX) u128_max),
     fx_saturating_pow = fx_pow_ref,
     fx_reciprocal = (\<lambda>a. if a = 0 then None else to_u128 (FX * FX div a)),
     fx_saturating_from_integer = (\<lambda>n. min (n * FX) u128_max),
     fx_saturating_from_rational =
       (\<lambda>n d. if d = 0 then None else Some (min (n * FX div d) u128_max)),
     fx_add = checked_add,
     fx_sub = checked_sub,
     fx_of_permill = (\<lambda>p. p * (FX div PM)),
     pm_mul_ceil = (\<lambda>p n. (p * n + (PM - 1)) div PM),
     pm_mul_floor = (\<lambda>p n. p * n div PM),
     pm_from_rational = (\<lambda>n d. if d = 0 then PM else min n d * PM div d),
     pm_saturating_sub = (\<lambda>p q. p - q),
     pm_checked_sub = checked_sub,
     pm_saturating_reciprocal_mul_ceil = (\<lambda>p n. min ((n * PM + (p - 1)) div p) u128_max),
     pm_saturating_reciprocal_mul_floor = (\<lambda>p n. min (n * PM div p) u128_max)\<rparr>"

section \<open>The laws as rewrite rules\<close>

lemma fx_simps [arith_simps]:
  assumes "sp_arith_laws A"
  shows "fx_checked_add A a b = checked_add a b"
    and "fx_checked_sub A a b = checked_sub a b"
    and "fx_checked_mul A a b = to_u128 (a * b div FX)"
    and "fx_checked_div A a b = (if b = 0 then None else to_u128 (a * FX div b))"
    and "fx_checked_mul_int A a n = to_u128 (a * n div FX)"
    and "fx_checked_from_rational A n d = (if d = 0 then None else to_u128 (n * FX div d))"
    and "fx_saturating_mul A a b = min (a * b div FX) u128_max"
    and "fx_reciprocal A a = (if a = 0 then None else to_u128 (FX * FX div a))"
    and "fx_saturating_from_integer A n = min (n * FX) u128_max"
    and "fx_saturating_from_rational A n d =
           (if d = 0 then None else Some (min (n * FX div d) u128_max))"
    and "fx_add A a b = checked_add a b"
    and "fx_sub A a b = checked_sub a b"
    and "fx_of_permill A p = p * 1000000000000"
  using assms by (simp_all add: sp_arith_laws_def fx_laws_def)

lemma pm_simps [arith_simps]:
  assumes "sp_arith_laws A"
  shows "pm_mul_ceil A p n = (p * n + 999999) div PM"
    and "pm_mul_floor A p n = p * n div PM"
    and "pm_from_rational A n d = (if d = 0 then PM else min n d * PM div d)"
    and "pm_saturating_sub A p q = p - q"
    and "pm_checked_sub A p q = checked_sub p q"
    and "0 < p \<Longrightarrow>
           pm_saturating_reciprocal_mul_ceil A p n = min ((n * PM + (p - 1)) div p) u128_max"
    and "0 < p \<Longrightarrow> pm_saturating_reciprocal_mul_floor A p n = min (n * PM div p) u128_max"
  using assms by (simp_all add: sp_arith_laws_def pm_laws_def)

lemma fx_pow_mono: "sp_arith_laws A \<Longrightarrow> a \<le> b \<Longrightarrow> fx_saturating_pow A a k \<le> fx_saturating_pow A b k"
  by (simp add: sp_arith_laws_def fx_laws_def)

lemma fx_pow_le_one: "sp_arith_laws A \<Longrightarrow> a \<le> FX \<Longrightarrow> fx_saturating_pow A a k \<le> FX"
  by (simp add: sp_arith_laws_def fx_laws_def)

lemma fx_pow_ref_mono: "a \<le> b \<Longrightarrow> fx_pow_ref a k \<le> fx_pow_ref b k"
proof (induction k)
  case 0
  then show ?case by simp
next
  case (Suc k)
  then have "a * fx_pow_ref a k \<le> b * fx_pow_ref b k" by (simp add: mult_le_mono)
  then have "a * fx_pow_ref a k div FX \<le> b * fx_pow_ref b k div FX" by (rule div_le_mono)
  then show ?case by (auto simp del: One_nat_def)
qed

lemma fx_pow_ref_le_one: "a \<le> FX \<Longrightarrow> fx_pow_ref a k \<le> FX"
proof (induction k)
  case 0
  then show ?case by simp
next
  case (Suc k)
  then have "a * fx_pow_ref a k \<le> FX * FX" by (intro mult_le_mono) auto
  then have "a * fx_pow_ref a k div FX \<le> FX" by simp
  then show ?case by simp
qed

lemma sp_arith_ref_laws [simp]: "sp_arith_laws sp_arith_ref"
  by (simp add: sp_arith_laws_def fx_laws_def pm_laws_def sp_arith_ref_def fx_pow_ref_mono
      fx_pow_ref_le_one)

section \<open>Bounds of the rounded operations\<close>

lemma pm_mul_ceil_le:
  assumes "sp_arith_laws A" and "p \<le> PM"
  shows "pm_mul_ceil A p n \<le> n"
proof -
  have "p * n \<le> PM * n" using assms(2) by (rule mult_le_mono1)
  then have "(p * n + 999999) div PM \<le> (PM * n + 999999) div PM" by (intro div_le_mono) simp
  also have "\<dots> = n" by simp
  finally show ?thesis by (simp add: pm_simps [OF assms(1)])
qed

lemma pm_mul_floor_le:
  assumes "sp_arith_laws A" and "p \<le> PM"
  shows "pm_mul_floor A p n \<le> n"
proof -
  have "p * n \<le> PM * n" using assms(2) by (rule mult_le_mono1)
  then have "p * n div PM \<le> PM * n div PM" by (rule div_le_mono)
  then show ?thesis by (simp add: pm_simps [OF assms(1)])
qed

lemma pm_mul_ceil_mono:
  assumes "sp_arith_laws A" and "p \<le> q" and "m \<le> n"
  shows "pm_mul_ceil A p m \<le> pm_mul_ceil A q n"
  using mult_le_mono [OF assms(2,3)] by (simp add: pm_simps [OF assms(1)] div_le_mono)

lemma pm_from_rational_le:
  assumes "sp_arith_laws A"
  shows "pm_from_rational A n d \<le> PM"
proof (cases "d = 0")
  case False
  have "min n d * PM \<le> d * PM" by (rule mult_le_mono1) simp
  then have "min n d * PM div d \<le> d * PM div d" by (rule div_le_mono)
  also have "\<dots> = PM" by (rule nonzero_mult_div_cancel_left) (use False in simp)
  finally show ?thesis using False by (simp add: pm_simps [OF assms])
qed (simp add: pm_simps [OF assms])

lemma fx_mul_div_le: "(n * FX div r) * r div FX \<le> n"
proof -
  have "(n * FX div r) * r \<le> n * FX" by (rule div_mult_le_nat)
  then have "(n * FX div r) * r div FX \<le> n * FX div FX" by (rule div_le_mono)
  then show ?thesis by simp
qed

end
