(* ===== verification/Rate_Model.thy ===== *)
theory Rate_Model
  imports Sp_Arith
begin

text \<open>
  The interest rate models of the loans pallet (src/pallets/loans/src/rate_model.rs).

  A market carries one of two models: the jump model, piecewise linear in the utilization with a
  kink, and the curve model, a ninth power plus a base rate.  Both provide the interface
  \<open>rate_model\<close> (a sanity check and the borrow rate at a utilization); the locale states what the
  rest of the pallet may rely on for a model that passed its check, and both models are
  interpretations of it.
\<close>

record jump_model =
  jm_base_rate :: rate
  jm_jump_rate :: rate
  jm_full_rate :: rate
  jm_jump_utilization :: ratio

record curve_model =
  cm_base_rate :: rate

datatype interest_rate_model = Jump jump_model | Curve curve_model

definition JUMP_MAX_BASE_RATE :: rate where "JUMP_MAX_BASE_RATE = 100000000000000000"
definition JUMP_MAX_JUMP_RATE :: rate where "JUMP_MAX_JUMP_RATE = 300000000000000000"
definition JUMP_MAX_FULL_RATE :: rate where "JUMP_MAX_FULL_RATE = 500000000000000000"

definition jump_new_model :: "rate \<Rightarrow> rate \<Rightarrow> rate \<Rightarrow> ratio \<Rightarrow> jump_model" where
  "jump_new_model base jump full ju = \<lparr>jm_base_rate = base, jm_jump_rate = jump,
     jm_full_rate = full, jm_jump_utilization = ju\<rparr>"

definition jump_check_model :: "jump_model \<Rightarrow> bool" where
  "jump_check_model m =
     (if jm_base_rate m > JUMP_MAX_BASE_RATE \<or> jm_jump_rate m > JUMP_MAX_JUMP_RATE
         \<or> jm_full_rate m > JUMP_MAX_FULL_RATE
      then False
      else if jm_base_rate m > jm_jump_rate m \<or> jm_jump_rate m > jm_full_rate m then False
      else True)"

definition jump_get_borrow_rate :: "sp_arith \<Rightarrow> jump_model \<Rightarrow> ratio \<Rightarrow> rate option" where
  "jump_get_borrow_rate A m utilization =
     (if utilization \<le> jm_jump_utilization m then
        Option.bind (fx_checked_sub A (jm_jump_rate m) (jm_base_rate m)) (\<lambda>d.
        Option.bind (fx_checked_div A (fx_saturating_mul A d (fx_of_permill A utilization))
                       (fx_of_permill A (jm_jump_utilization m))) (\<lambda>q.
        fx_checked_add A q (jm_base_rate m)))
      else
        let excess_util = pm_saturating_sub A utilization (jm_jump_utilization m) in
        Option.bind (fx_checked_sub A (jm_full_rate m) (jm_jump_rate m)) (\<lambda>d.
        Option.bind (fx_checked_div A (fx_saturating_mul A d (fx_of_permill A excess_util))
                       (fx_of_permill A (pm_saturating_sub A PM (jm_jump_utilization m)))) (\<lambda>q.
        fx_checked_add A q (jm_jump_rate m))))"

definition CURVE_MAX_BASE_RATE :: rate where "CURVE_MAX_BASE_RATE = FX div 100 * 10"

definition curve_new_model :: "rate \<Rightarrow> curve_model" where
  "curve_new_model base = \<lparr>cm_base_rate = base\<rparr>"

definition curve_check_model :: "curve_model \<Rightarrow> bool" where
  "curve_check_model m \<longleftrightarrow> cm_base_rate m \<le> CURVE_MAX_BASE_RATE"

definition curve_get_borrow_rate :: "sp_arith \<Rightarrow> curve_model \<Rightarrow> ratio \<Rightarrow> rate option" where
  "curve_get_borrow_rate A m utilization =
     fx_checked_add A (fx_saturating_pow A (fx_of_permill A utilization) 9) (cm_base_rate m)"

definition irm_new_jump_model :: "rate \<Rightarrow> rate \<Rightarrow> rate \<Rightarrow> ratio \<Rightarrow> interest_rate_model" where
  "irm_new_jump_model base jump full ju = Jump (jump_new_model base jump full ju)"

definition irm_new_curve_model :: "rate \<Rightarrow> interest_rate_model" where
  "irm_new_curve_model base = Curve (curve_new_model base)"

definition irm_default :: "sp_arith \<Rightarrow> interest_rate_model option" where
  "irm_default A =
     Option.bind (fx_saturating_from_rational A 2 100) (\<lambda>base.
     Option.bind (fx_saturating_from_rational A 10 100) (\<lambda>jump.
     Option.bind (fx_saturating_from_rational A 32 100) (\<lambda>full.
     Some (irm_new_jump_model base jump full 800000))))"

fun check_model :: "interest_rate_model \<Rightarrow> bool" where
  "check_model (Jump j) = jump_check_model j"
| "check_model (Curve c) = curve_check_model c"

fun get_borrow_rate :: "sp_arith \<Rightarrow> interest_rate_model \<Rightarrow> ratio \<Rightarrow> rate option" where
  "get_borrow_rate A (Jump j) utilization = jump_get_borrow_rate A j utilization"
| "get_borrow_rate A (Curve c) utilization = curve_get_borrow_rate A c utilization"

definition get_supply_rate :: "sp_arith \<Rightarrow> rate \<Rightarrow> ratio \<Rightarrow> ratio \<Rightarrow> rate" where
  "get_supply_rate A borrow_rate util reserve_factor =
     (let one_minus_reserve_factor = pm_saturating_sub A PM reserve_factor;
          rate_to_pool = fx_saturating_mul A borrow_rate (fx_of_permill A one_minus_reserve_factor)
      in fx_saturating_mul A rate_to_pool (fx_of_permill A util))"

text \<open>The least and the greatest rate a model can charge.\<close>

fun min_rate :: "interest_rate_model \<Rightarrow> rate" where
  "min_rate (Jump j) = jm_base_rate j"
| "min_rate (Curve c) = cm_base_rate c"

fun max_rate :: "interest_rate_model \<Rightarrow> rate" where
  "max_rate (Jump j) = jm_full_rate j"
| "max_rate (Curve c) = FX + cm_base_rate c"

section \<open>The interface of a rate model\<close>

locale rate_model =
  fixes check :: "'m \<Rightarrow> bool"
    and borrow_rate :: "sp_arith \<Rightarrow> 'm \<Rightarrow> ratio \<Rightarrow> rate option"
    and lo :: "'m \<Rightarrow> rate"
    and hi :: "'m \<Rightarrow> rate"
  assumes rate_bounds:
      "sp_arith_laws A \<Longrightarrow> check m \<Longrightarrow> u \<le> PM \<Longrightarrow> borrow_rate A m u = Some r \<Longrightarrow> lo m \<le> r \<and> r \<le> hi m"
    and rate_mono:
      "sp_arith_laws A \<Longrightarrow> check m \<Longrightarrow> u \<le> v \<Longrightarrow> v \<le> PM \<Longrightarrow>
         borrow_rate A m u = Some r \<Longrightarrow> borrow_rate A m v = Some t \<Longrightarrow> r \<le> t"
    and hi_cap: "check m \<Longrightarrow> hi m \<le> 1100000000000000000"
begin

lemma rate_cap:
  "sp_arith_laws A \<Longrightarrow> check m \<Longrightarrow> u \<le> PM \<Longrightarrow> borrow_rate A m u = Some r \<Longrightarrow>
     r \<le> 1100000000000000000"
  using rate_bounds hi_cap order_trans by blast

lemma supply_rate_le_hi:
  assumes "sp_arith_laws A" and "check m" and "u \<le> PM" and "borrow_rate A m u = Some r"
    and "\<And>b. b \<le> u128_max \<Longrightarrow> get_supply_rate A b u f \<le> b"
  shows "get_supply_rate A r u f \<le> hi m"
proof -
  have "r \<le> u128_max" using rate_cap [OF assms(1-4)] by simp
  then have "get_supply_rate A r u f \<le> r" by (rule assms(5))
  also have "r \<le> hi m" using rate_bounds [OF assms(1-4)] by simp
  finally show ?thesis .
qed

end

section \<open>The jump model\<close>

text \<open>
  Both branches of the jump model interpolate linearly: a part \<open>e\<close> out of \<open>z\<close> of the distance \<open>d\<close>
  between two rates, rounded down twice.
\<close>

definition linear_share :: "rate \<Rightarrow> ratio \<Rightarrow> ratio \<Rightarrow> rate" where
  "linear_share d e z = (d * (e * 1000000000000) div FX) * FX div (z * 1000000000000)"

lemma linear_share_le:
  assumes "e \<le> z" and "0 < z"
  shows "linear_share d e z \<le> d"
proof -
  have "(d * (e * 1000000000000) div FX) * FX \<le> d * (e * 1000000000000)"
    by (rule div_mult_le_nat)
  also have "\<dots> \<le> d * (z * 1000000000000)" using assms(1) by (simp add: mult_le_mono)
  finally have "linear_share d e z \<le> d * (z * 1000000000000) div (z * 1000000000000)"
    unfolding linear_share_def by (rule div_le_mono)
  also have "\<dots> = d" using assms(2) by simp
  finally show ?thesis .
qed

lemma linear_share_mono: "e \<le> e' \<Longrightarrow> linear_share d e z \<le> linear_share d e' z"
  unfolding linear_share_def by (intro div_le_mono mult_le_mono mult_le_mono1) auto

lemma linear_step:
  assumes "sp_arith_laws A" and "e \<le> z" and "0 < z" and "e \<le> PM" and "d \<le> FX" and "b \<le> FX"
  shows "Option.bind (fx_checked_div A (fx_saturating_mul A d (fx_of_permill A e))
           (fx_of_permill A z)) (\<lambda>q. fx_checked_add A q b) = Some (linear_share d e z + b)"
proof -
  have "d * (e * 1000000000000) \<le> FX * (PM * 1000000000000)"
    using assms by (intro mult_le_mono) auto
  then have "d * (e * 1000000000000) div FX \<le> FX * (PM * 1000000000000) div FX" by (rule div_le_mono)
  then have x: "fx_saturating_mul A d (fx_of_permill A e) = d * (e * 1000000000000) div FX"
    unfolding fx_simps [OF assms(1)] by (intro min_absorb1) simp
  have q: "linear_share d e z \<le> d" using assms(2,3) by (rule linear_share_le)
  have div: "fx_checked_div A (d * (e * 1000000000000) div FX) (fx_of_permill A z)
          = Some (linear_share d e z)"
    using q assms(3,5) unfolding fx_simps [OF assms(1)] linear_share_def to_u128_def by simp
  from q assms(5,6) have "linear_share d e z + b \<le> u128_max" by simp
  then show ?thesis unfolding x div by (simp add: fx_simps [OF assms(1)])
qed

lemma jump_check_modelD:
  assumes "jump_check_model m"
  shows "jm_base_rate m \<le> jm_jump_rate m" "jm_jump_rate m \<le> jm_full_rate m"
    "jm_full_rate m \<le> 500000000000000000"
  using assms by (auto simp: jump_check_model_def JUMP_MAX_FULL_RATE_def split: if_splits)

lemma jump_rate_low:
  assumes "sp_arith_laws A" and "jump_check_model m" and "u \<le> jm_jump_utilization m"
    and "u \<le> PM" and "0 < jm_jump_utilization m"
  shows "jump_get_borrow_rate A m u =
    Some (linear_share (jm_jump_rate m - jm_base_rate m) u (jm_jump_utilization m) + jm_base_rate m)"
  using assms(3) jump_check_modelD [OF assms(2)] linear_step [OF assms(1,3,5,4)]
  by (simp add: jump_get_borrow_rate_def fx_simps(2) [OF assms(1)] checked_sub_def)

lemma jump_rate_zero_kink:
  assumes "sp_arith_laws A" and "jump_check_model m" and "jm_jump_utilization m = 0"
  shows "jump_get_borrow_rate A m 0 = None"
  using assms jump_check_modelD [OF assms(2)]
  by (simp add: jump_get_borrow_rate_def fx_simps [OF assms(1)] checked_sub_def)

lemma jump_rate_high:
  assumes "sp_arith_laws A" and "jump_check_model m" and "jm_jump_utilization m < u" and "u \<le> PM"
  shows "jump_get_borrow_rate A m u =
    Some (linear_share (jm_full_rate m - jm_jump_rate m) (u - jm_jump_utilization m)
            (PM - jm_jump_utilization m) + jm_jump_rate m)"
proof -
  have "u - jm_jump_utilization m \<le> PM - jm_jump_utilization m" "0 < PM - jm_jump_utilization m"
    "u - jm_jump_utilization m \<le> PM" using assms(3,4) by auto
  note step = linear_step [OF assms(1) this]
  show ?thesis
    using assms(3) jump_check_modelD [OF assms(2)] step
    by (simp add: jump_get_borrow_rate_def fx_simps(2) [OF assms(1)] pm_simps(4) [OF assms(1)]
        checked_sub_def Let_def)
qed

lemma jump_rate_low_cases:
  assumes "sp_arith_laws A" and "jump_check_model m" and "u \<le> jm_jump_utilization m" and "u \<le> PM"
    and "jump_get_borrow_rate A m u = Some r"
  shows "0 < jm_jump_utilization m \<and>
    r = linear_share (jm_jump_rate m - jm_base_rate m) u (jm_jump_utilization m) + jm_base_rate m \<and>
    jm_base_rate m \<le> r \<and> r \<le> jm_jump_rate m"
proof -
  have pos: "0 < jm_jump_utilization m"
    using assms(3,5) jump_rate_zero_kink [OF assms(1,2)] by (cases "jm_jump_utilization m = 0") auto
  then have "linear_share (jm_jump_rate m - jm_base_rate m) u (jm_jump_utilization m)
      \<le> jm_jump_rate m - jm_base_rate m"
    using assms(3) by (intro linear_share_le)
  with pos assms jump_check_modelD [OF assms(2)] show ?thesis by (simp add: jump_rate_low)
qed

lemma jump_rate_high_cases:
  assumes "sp_arith_laws A" and "jump_check_model m" and "jm_jump_utilization m < u" and "u \<le> PM"
    and "jump_get_borrow_rate A m u = Some r"
  shows "r = linear_share (jm_full_rate m - jm_jump_rate m) (u - jm_jump_utilization m)
            (PM - jm_jump_utilization m) + jm_jump_rate m \<and>
    jm_jump_rate m \<le> r \<and> r \<le> jm_full_rate m"
proof -
  have "linear_share (jm_full_rate m - jm_jump_rate m) (u - jm_jump_utilization m)
      (PM - jm_jump_utilization m) \<le> jm_full_rate m - jm_jump_rate m"
    using assms(3,4) by (intro linear_share_le) auto
  with assms jump_check_modelD [OF assms(2)] show ?thesis by (simp add: jump_rate_high)
qed

lemma jump_rate_mono:
  assumes "sp_arith_laws A" and "jump_check_model m" and "u \<le> v" and "v \<le> PM"
    and "jump_get_borrow_rate A m u = Some r" and "jump_get_borrow_rate A m v = Some t"
  shows "r \<le> t"
proof (cases "v \<le> jm_jump_utilization m")
  case True
  with assms have "u \<le> jm_jump_utilization m" "u \<le> PM" by auto
  then show ?thesis
    using jump_rate_low_cases [OF assms(1,2) _ _ assms(5)]
      jump_rate_low_cases [OF assms(1,2) True assms(4,6)] linear_share_mono [OF assms(3)]
    by simp
next
  case high: False
  note t = jump_rate_high_cases [OF assms(1,2) _ assms(4,6)]
  show ?thesis
  proof (cases "u \<le> jm_jump_utilization m")
    case True
    with assms(3,4) jump_rate_low_cases [OF assms(1,2) True _ assms(5)] t high show ?thesis by simp
  next
    case False
    with high assms(3,4) jump_rate_high_cases [OF assms(1,2) _ _ assms(5)] t
      linear_share_mono [of "u - jm_jump_utilization m" "v - jm_jump_utilization m"]
    show ?thesis by simp
  qed
qed

interpretation jump: rate_model jump_check_model jump_get_borrow_rate jm_base_rate jm_full_rate
proof (unfold_locales, goal_cases)
  case (1 A m u r)
  show ?case
  proof (cases "u \<le> jm_jump_utilization m")
    case True
    with 1 jump_rate_low_cases [OF 1(1,2) True 1(3,4)] jump_check_modelD [OF 1(2)] show ?thesis
      by simp
  next
    case False
    with 1 jump_rate_high_cases [OF 1(1,2) _ 1(3,4)] jump_check_modelD [OF 1(2)] show ?thesis
      by simp
  qed
next
  case (2 A m u v r t)
  then show ?case by (rule jump_rate_mono)
next
  case (3 m)
  with jump_check_modelD(3) [OF 3] show ?case by simp
qed

section \<open>The curve model\<close>

lemma curve_rate:
  assumes "sp_arith_laws A" and "curve_check_model m" and "u \<le> PM"
  shows "curve_get_borrow_rate A m u =
    Some (fx_saturating_pow A (u * 1000000000000) 9 + cm_base_rate m)"
    and "fx_saturating_pow A (u * 1000000000000) 9 \<le> FX"
proof -
  show le: "fx_saturating_pow A (u * 1000000000000) 9 \<le> FX"
    using assms(3) by (intro fx_pow_le_one [OF assms(1)]) simp
  with assms(2) show "curve_get_borrow_rate A m u =
      Some (fx_saturating_pow A (u * 1000000000000) 9 + cm_base_rate m)"
    by (simp add: curve_get_borrow_rate_def fx_simps [OF assms(1)] curve_check_model_def
        CURVE_MAX_BASE_RATE_def)
qed

interpretation curve: rate_model curve_check_model curve_get_borrow_rate cm_base_rate
  "\<lambda>m. FX + cm_base_rate m"
proof (unfold_locales, goal_cases)
  case (1 A m u r)
  then show ?case using curve_rate [OF 1(1-3)] by simp
next
  case (2 A m u v r t)
  then show ?case
    using curve_rate(1) [OF 2(1,2), of u] curve_rate(1) [OF 2(1,2), of v]
      fx_pow_mono [OF 2(1), of "u * 1000000000000" "v * 1000000000000" 9] by simp
next
  case (3 m)
  then show ?case by (simp add: curve_check_model_def CURVE_MAX_BASE_RATE_def)
qed

section \<open>The model of a market\<close>

interpretation irm: rate_model check_model get_borrow_rate min_rate max_rate
proof (unfold_locales, goal_cases)
  case (1 A m u r)
  then show ?case using jump.rate_bounds [of A _ u r] curve.rate_bounds [of A _ u r]
    by (cases m) auto
next
  case (2 A m u v r t)
  then show ?case using jump.rate_mono [of A _ u v r t] curve.rate_mono [of A _ u v r t]
    by (cases m) auto
next
  case (3 m)
  then show ?case using jump.hi_cap curve.hi_cap by (cases m) auto
qed

lemma fx_scale_down:
  assumes "sp_arith_laws A" and "p \<le> PM" and "r \<le> u128_max"
  shows "fx_saturating_mul A r (fx_of_permill A p) \<le> r"
proof -
  have "r * (p * 1000000000000) \<le> r * FX" using assms(2) by (intro mult_le_mono2) simp
  then have "r * (p * 1000000000000) div FX \<le> r * FX div FX" by (rule div_le_mono)
  then show ?thesis by (simp add: fx_simps [OF assms(1)] min.coboundedI1)
qed

lemma supply_rate_le_borrow_rate:
  assumes "sp_arith_laws A" and "util \<le> PM" and "b \<le> u128_max"
  shows "get_supply_rate A b util rf \<le> b"
proof -
  have "fx_saturating_mul A b (fx_of_permill A (PM - rf)) \<le> b"
    using assms(3) by (intro fx_scale_down [OF assms(1)]) simp
  moreover from this assms(2,3) have
    "fx_saturating_mul A (fx_saturating_mul A b (fx_of_permill A (PM - rf))) (fx_of_permill A util)
       \<le> fx_saturating_mul A b (fx_of_permill A (PM - rf))"
    by (intro fx_scale_down [OF assms(1)]) auto
  ultimately show ?thesis
    by (simp add: get_supply_rate_def Let_def pm_simps(4) [OF assms(1)])
qed

end
