(* ===== verification/Fungibles.thy ===== *)
theory Fungibles
  imports Parallel_Prelude
begin

text \<open>
  The token interface every pallet is built on (\<open>fungibles::{Inspect, Mutate, Transfer}\<close> of
  \<open>frame_support\<close>; the configuration item \<open>T::Assets\<close>).

  The ledger behind the interface is \<open>pallet-balances\<close> and \<open>pallet-assets\<close>, which are not part of
  this repository: the record \<open>fungibles\<close> holds the operations the pallets call, on a ledger state
  \<open>'l\<close> that the pallets never look into, with errors \<open>'e\<close>.  The locale \<open>fungibles_ledger\<close> is the
  contract of \<open>Transfer::transfer\<close>.  Two parts of the repository provide the interface themselves
  and are proved to satisfy the contract: the currency adapter (theory \<open>Currency_Adapter\<close>) and the
  ptokens of the loans pallet (theory \<open>Loans_Ptoken\<close>).  Where a pallet is a client, the contract of
  its \<open>T::Assets\<close> is the named hypothesis \<open>fungibles_laws\<close>.
\<close>

datatype deposit_consequence =
    BelowMinimum | CannotCreate | UnknownAsset | DepositOverflow | DepositSuccess | DepositBlocked

datatype withdraw_consequence =
    NoFunds | WouldDie | WithdrawUnknownAsset | WithdrawUnderflow | WithdrawOverflow | Frozen
  | ReducedToZero balance | WithdrawSuccess

record ('e, 'l) fungibles =
  ft_total_issuance :: "'l \<Rightarrow> currency_id \<Rightarrow> balance"
  ft_minimum_balance :: "'l \<Rightarrow> currency_id \<Rightarrow> balance"
  ft_balance :: "'l \<Rightarrow> currency_id \<Rightarrow> account_id \<Rightarrow> balance"
  ft_reducible_balance :: "'l \<Rightarrow> currency_id \<Rightarrow> account_id \<Rightarrow> bool \<Rightarrow> balance"
  ft_can_deposit :: "'l \<Rightarrow> currency_id \<Rightarrow> account_id \<Rightarrow> balance \<Rightarrow> bool \<Rightarrow> deposit_consequence"
  ft_can_withdraw :: "'l \<Rightarrow> currency_id \<Rightarrow> account_id \<Rightarrow> balance \<Rightarrow> withdraw_consequence"
  ft_asset_exists :: "'l \<Rightarrow> currency_id \<Rightarrow> bool"
  ft_mint_into :: "'l \<Rightarrow> currency_id \<Rightarrow> account_id \<Rightarrow> balance \<Rightarrow> 'e + 'l"
  ft_burn_from :: "'l \<Rightarrow> currency_id \<Rightarrow> account_id \<Rightarrow> balance \<Rightarrow> 'e + 'l"
  ft_transfer :: "'l \<Rightarrow> currency_id \<Rightarrow> account_id \<Rightarrow> account_id \<Rightarrow> balance \<Rightarrow> bool \<Rightarrow> 'e + 'l"

text \<open>A request to the interface, and a sequence of requests that stops at the first error.\<close>

type_synonym transfer_request = "currency_id \<times> account_id \<times> account_id \<times> balance \<times> bool"

definition run_transfers ::
    "('l \<Rightarrow> currency_id \<Rightarrow> account_id \<Rightarrow> account_id \<Rightarrow> balance \<Rightarrow> bool \<Rightarrow> 'e + 'l)
     \<Rightarrow> transfer_request list \<Rightarrow> 'l \<Rightarrow> 'e + 'l" where
  "run_transfers tr = foldE (\<lambda>(a, x, y, n, k) l. tr l a x y n k)"

section \<open>The contract of a transfer\<close>

text \<open>
  A ledger may close an account that a withdrawal leaves with less than the minimum balance, and
  then burns or passes on the rest.  The exact accounting of a transfer is promised only when the
  withdrawal leaves nothing or at least the minimum.
\<close>

definition leaves_no_dust :: "balance \<Rightarrow> balance \<Rightarrow> balance \<Rightarrow> bool" where
  "leaves_no_dust minimum held n \<longleftrightarrow> held \<le> n \<or> minimum \<le> held - n"

locale fungibles_ledger =
  fixes balance :: "'l \<Rightarrow> currency_id \<Rightarrow> account_id \<Rightarrow> balance"
    and minimum_balance :: "'l \<Rightarrow> currency_id \<Rightarrow> balance"
    and total_issuance :: "'l \<Rightarrow> currency_id \<Rightarrow> balance"
    and transfer :: "'l \<Rightarrow> currency_id \<Rightarrow> account_id \<Rightarrow> account_id \<Rightarrow> balance \<Rightarrow> bool \<Rightarrow> 'e + 'l"
    and valid :: "'l \<Rightarrow> bool"
  assumes transfer_debit:
      "valid l \<Longrightarrow> transfer l a x y n k = Inr l' \<Longrightarrow> x \<noteq> y \<Longrightarrow> n \<le> balance l a x"
    and transfer_balance:
      "valid l \<Longrightarrow> transfer l a x y n k = Inr l' \<Longrightarrow>
         leaves_no_dust (minimum_balance l a) (balance l a x) n \<Longrightarrow>
         balance l' a z + (if z = x then n else 0) = balance l a z + (if z = y then n else 0)"
    and transfer_issuance:
      "valid l \<Longrightarrow> transfer l a x y n k = Inr l' \<Longrightarrow> total_issuance l' b \<le> total_issuance l b"
    and transfer_valid:
      "valid l \<Longrightarrow> transfer l a x y n k = Inr l' \<Longrightarrow> valid l'"
begin

lemma transfer_source:
  assumes "valid l" and "transfer l a x y n k = Inr l'" and "x \<noteq> y"
    and "leaves_no_dust (minimum_balance l a) (balance l a x) n"
  shows "balance l' a x = balance l a x - n"
  using transfer_balance [OF assms(1,2,4), of x] assms(3) by simp

lemma transfer_dest:
  assumes "valid l" and "transfer l a x y n k = Inr l'" and "x \<noteq> y"
    and "leaves_no_dust (minimum_balance l a) (balance l a x) n"
  shows "balance l' a y = balance l a y + n"
  using transfer_balance [OF assms(1,2,4), of y] assms(3) by simp

lemma transfer_bystander:
  assumes "valid l" and "transfer l a x y n k = Inr l'" and "z \<noteq> x" and "z \<noteq> y"
    and "leaves_no_dust (minimum_balance l a) (balance l a x) n"
  shows "balance l' a z = balance l a z"
  using transfer_balance [OF assms(1,2,5), of z] assms(3,4) by simp

lemma transfer_conserves:
  assumes "valid l" and "transfer l a x y n k = Inr l'" and "finite S" and "x \<in> S" and "y \<in> S"
    and "leaves_no_dust (minimum_balance l a) (balance l a x) n"
  shows "(\<Sum>z\<in>S. balance l' a z) = (\<Sum>z\<in>S. balance l a z)"
proof -
  have "(\<Sum>z\<in>S. balance l' a z) + n = (\<Sum>z\<in>S. balance l' a z + (if z = x then n else 0))"
    using assms(3,4) by (simp add: sum.distrib)
  also have "\<dots> = (\<Sum>z\<in>S. balance l a z + (if z = y then n else 0))"
    by (rule sum.cong) (simp_all add: transfer_balance [OF assms(1,2,6)])
  also have "\<dots> = (\<Sum>z\<in>S. balance l a z) + n"
    using assms(3,5) by (simp add: sum.distrib)
  finally show ?thesis by simp
qed

lemma run_transfers_issuance:
  assumes "valid l" and "run_transfers transfer rs l = Inr l'"
  shows "valid l' \<and> total_issuance l' b \<le> total_issuance l b"
  using assms(2) unfolding run_transfers_def
proof (rule foldE_invariant [where P = "\<lambda>m. valid m \<and> total_issuance m b \<le> total_issuance l b"])
  show "valid l \<and> total_issuance l b \<le> total_issuance l b" using assms(1) by simp
next
  fix r m m'
  assume "valid m \<and> total_issuance m b \<le> total_issuance l b"
    and "(case r of (a, x, y, n, k) \<Rightarrow> \<lambda>l. transfer l a x y n k) m = Inr m'"
  then show "valid m' \<and> total_issuance m' b \<le> total_issuance l b"
    by (cases r) (auto dest: transfer_valid transfer_issuance [of _ _ _ _ _ _ _ b])
qed

end

section \<open>The contract of the configuration item \<open>T::Assets\<close>\<close>

text \<open>
  Beyond the contract of the locale the pallets rely on three facts: a transfer of one asset does
  not touch the balances or the issuance of another; minting and burning change exactly one balance and the
  issuance; and (\<open>cash_law\<close>) the part of a balance that may leave an account moves with the balance.
  The last one holds of an account without locks, which the pallets' own accounts are.
\<close>

definition transfer_other_law :: "('e, 'l) fungibles \<Rightarrow> bool" where
  "transfer_other_law F \<longleftrightarrow>
     (\<forall>l a x y n k l' b z.
        ft_transfer F l a x y n k = Inr l' \<longrightarrow> b \<noteq> a \<longrightarrow>
        ft_balance F l' b z = ft_balance F l b z \<and> ft_total_issuance F l' b = ft_total_issuance F l b)"

definition cash_law :: "('e, 'l) fungibles \<Rightarrow> account_id \<Rightarrow> bool" where
  "cash_law F z \<longleftrightarrow>
     (\<forall>l a x y n k l'.
        ft_transfer F l a x y n k = Inr l' \<longrightarrow>
        leaves_no_dust (ft_minimum_balance F l a) (ft_balance F l a x) n \<longrightarrow>
        ft_reducible_balance F l' a z False + (if z = x then n else 0) =
        ft_reducible_balance F l a z False + (if z = y then n else 0))"

definition mint_law :: "('e, 'l) fungibles \<Rightarrow> bool" where
  "mint_law F \<longleftrightarrow>
     (\<forall>l a x n l' b z.
        ft_mint_into F l a x n = Inr l' \<longrightarrow>
        ft_balance F l' b z = ft_balance F l b z + (if b = a \<and> z = x then n else 0) \<and>
        ft_total_issuance F l' b = ft_total_issuance F l b + (if b = a then n else 0))"

definition burn_law :: "('e, 'l) fungibles \<Rightarrow> bool" where
  "burn_law F \<longleftrightarrow>
     (\<forall>l a x n l' b z.
        ft_burn_from F l a x n = Inr l' \<longrightarrow>
        leaves_no_dust (ft_minimum_balance F l a) (ft_balance F l a x) n \<longrightarrow>
        ft_balance F l' b z + (if b = a \<and> z = x then n else 0) = ft_balance F l b z \<and>
        ft_total_issuance F l' b + (if b = a then n else 0) = ft_total_issuance F l b)"

text \<open>
  Two further promises, on which the custody of deposits rests: an operation lowers no balance but the
  one it debits (a destination may receive more than the amount when an account is closed), and a
  transfer that keeps the source alive leaves it at least the minimum balance.
\<close>

definition credit_law :: "('e, 'l) fungibles \<Rightarrow> bool" where
  "credit_law F \<longleftrightarrow>
     (\<forall>l a x y n k l' z. ft_transfer F l a x y n k = Inr l' \<longrightarrow> z \<noteq> x \<longrightarrow>
        ft_balance F l a z + (if z = y then n else 0) \<le> ft_balance F l' a z) \<and>
     (\<forall>l a x n l' b z. ft_burn_from F l a x n = Inr l' \<longrightarrow> b \<noteq> a \<or> z \<noteq> x \<longrightarrow>
        ft_balance F l b z \<le> ft_balance F l' b z)"

definition keep_alive_law :: "('e, 'l) fungibles \<Rightarrow> bool" where
  "keep_alive_law F \<longleftrightarrow>
     (\<forall>l a x y n l'. ft_transfer F l a x y n True = Inr l' \<longrightarrow> x \<noteq> y \<longrightarrow>
        leaves_no_dust (ft_minimum_balance F l a) (ft_balance F l a x) n)"

text \<open>Burning units of one asset leaves the issuance of the others alone, dust or not.\<close>

definition burn_other_law :: "('e, 'l) fungibles \<Rightarrow> bool" where
  "burn_other_law F \<longleftrightarrow>
     (\<forall>l a x n l' b. ft_burn_from F l a x n = Inr l' \<longrightarrow> b \<noteq> a \<longrightarrow> ft_total_issuance F l' b = ft_total_issuance F l b)"

definition fungibles_laws :: "('e, 'l) fungibles \<Rightarrow> bool" where
  "fungibles_laws F \<longleftrightarrow>
     fungibles_ledger (ft_balance F) (ft_minimum_balance F) (ft_total_issuance F) (ft_transfer F)
       (\<lambda>_. True) \<and>
     transfer_other_law F \<and> mint_law F \<and> burn_law F"

text \<open>A concrete ledger: balances and issuance per asset, no locks and no existential deposit.\<close>

record ref_ledger =
  lg_balance :: "currency_id \<Rightarrow> account_id \<Rightarrow> balance"
  lg_issuance :: "currency_id \<Rightarrow> balance"

definition ref_transfer ::
    "ref_ledger \<Rightarrow> currency_id \<Rightarrow> account_id \<Rightarrow> account_id \<Rightarrow> balance \<Rightarrow> bool \<Rightarrow> nat + ref_ledger" where
  "ref_transfer l a x y n k =
     (if lg_balance l a x < n then Inl 0
      else let m = (lg_balance l a)(x := lg_balance l a x - n) in
           Inr (l\<lparr>lg_balance := (lg_balance l)(a := m(y := m y + n))\<rparr>))"

definition ref_mint ::
    "ref_ledger \<Rightarrow> currency_id \<Rightarrow> account_id \<Rightarrow> balance \<Rightarrow> nat + ref_ledger" where
  "ref_mint l a x n =
     Inr (l\<lparr>lg_balance := (lg_balance l)(a := (lg_balance l a)(x := lg_balance l a x + n)),
            lg_issuance := (lg_issuance l)(a := lg_issuance l a + n)\<rparr>)"

definition ref_burn ::
    "ref_ledger \<Rightarrow> currency_id \<Rightarrow> account_id \<Rightarrow> balance \<Rightarrow> nat + ref_ledger" where
  "ref_burn l a x n =
     (if lg_balance l a x < n \<or> lg_issuance l a < n then Inl 0
      else Inr (l\<lparr>lg_balance := (lg_balance l)(a := (lg_balance l a)(x := lg_balance l a x - n)),
                  lg_issuance := (lg_issuance l)(a := lg_issuance l a - n)\<rparr>))"

definition fungibles_ref :: "(nat, ref_ledger) fungibles" where
  "fungibles_ref = \<lparr>
     ft_total_issuance = lg_issuance,
     ft_minimum_balance = (\<lambda>l a. 0),
     ft_balance = lg_balance,
     ft_reducible_balance = (\<lambda>l a x k. lg_balance l a x),
     ft_can_deposit = (\<lambda>l a x n m. DepositSuccess),
     ft_can_withdraw = (\<lambda>l a x n. if lg_balance l a x < n then NoFunds else WithdrawSuccess),
     ft_asset_exists = (\<lambda>l a. True),
     ft_mint_into = ref_mint,
     ft_burn_from = ref_burn,
     ft_transfer = ref_transfer\<rparr>"

lemma fungibles_lawsD:
  assumes "fungibles_laws F" and "ft_transfer F l a x y n k = Inr l'"
  shows "x \<noteq> y \<Longrightarrow> n \<le> ft_balance F l a x"
    and "leaves_no_dust (ft_minimum_balance F l a) (ft_balance F l a x) n \<Longrightarrow>
      ft_balance F l' a z + (if z = x then n else 0) = ft_balance F l a z + (if z = y then n else 0)"
    and "ft_total_issuance F l' b \<le> ft_total_issuance F l b"
    and "b \<noteq> a \<Longrightarrow> ft_balance F l' b z = ft_balance F l b z"
    and "b \<noteq> a \<Longrightarrow> ft_total_issuance F l' b = ft_total_issuance F l b"
proof -
  have led: "fungibles_ledger (ft_balance F) (ft_minimum_balance F) (ft_total_issuance F)
      (ft_transfer F) (\<lambda>_. True)"
    using assms(1) by (simp add: fungibles_laws_def)
  show "x \<noteq> y \<Longrightarrow> n \<le> ft_balance F l a x"
    by (rule fungibles_ledger.transfer_debit [OF led TrueI assms(2)])
  show "leaves_no_dust (ft_minimum_balance F l a) (ft_balance F l a x) n \<Longrightarrow>
      ft_balance F l' a z + (if z = x then n else 0) = ft_balance F l a z + (if z = y then n else 0)"
    by (rule fungibles_ledger.transfer_balance [OF led TrueI assms(2)])
  show "ft_total_issuance F l' b \<le> ft_total_issuance F l b"
    by (rule fungibles_ledger.transfer_issuance [OF led TrueI assms(2)])
  show "b \<noteq> a \<Longrightarrow> ft_balance F l' b z = ft_balance F l b z"
    and "b \<noteq> a \<Longrightarrow> ft_total_issuance F l' b = ft_total_issuance F l b"
    using assms unfolding fungibles_laws_def transfer_other_law_def by metis+
qed

lemma cash_lawD:
  assumes "cash_law F z" and "ft_transfer F l a x y n k = Inr l'"
    and "leaves_no_dust (ft_minimum_balance F l a) (ft_balance F l a x) n"
  shows "ft_reducible_balance F l' a z False + (if z = x then n else 0) =
         ft_reducible_balance F l a z False + (if z = y then n else 0)"
  using assms unfolding cash_law_def by metis

lemma fungibles_laws_mintD:
  assumes "fungibles_laws F" and "ft_mint_into F l a x n = Inr l'"
  shows "ft_balance F l' b z = ft_balance F l b z + (if b = a \<and> z = x then n else 0)"
    and "ft_total_issuance F l' b = ft_total_issuance F l b + (if b = a then n else 0)"
  using assms unfolding fungibles_laws_def mint_law_def by metis+

lemma fungibles_laws_burnD:
  assumes "fungibles_laws F" and "ft_burn_from F l a x n = Inr l'"
    and "leaves_no_dust (ft_minimum_balance F l a) (ft_balance F l a x) n"
  shows "ft_balance F l' b z + (if b = a \<and> z = x then n else 0) = ft_balance F l b z"
    and "ft_total_issuance F l' b + (if b = a then n else 0) = ft_total_issuance F l b"
  using assms unfolding fungibles_laws_def burn_law_def by metis+

lemma fungibles_ref_laws [simp]: "fungibles_laws fungibles_ref"
  unfolding fungibles_laws_def fungibles_ref_def transfer_other_law_def mint_law_def burn_law_def
  by (auto simp: fungibles_ledger_def ref_transfer_def ref_mint_def ref_burn_def Let_def
      split: if_splits)

lemma cash_law_ref [simp]: "cash_law fungibles_ref z"
  unfolding cash_law_def fungibles_ref_def
  by (auto simp: ref_transfer_def Let_def split: if_splits)

lemma credit_lawD:
  assumes "credit_law F"
  shows "ft_transfer F l a x y n k = Inr l' \<Longrightarrow> z \<noteq> x \<Longrightarrow>
      ft_balance F l a z + (if z = y then n else 0) \<le> ft_balance F l' a z"
    and "ft_burn_from F l a x n = Inr l' \<Longrightarrow> b \<noteq> a \<or> z \<noteq> x \<Longrightarrow> ft_balance F l b z \<le> ft_balance F l' b z"
  using assms unfolding credit_law_def by metis+

lemma keep_alive_lawD:
  "keep_alive_law F \<Longrightarrow> ft_transfer F l a x y n True = Inr l' \<Longrightarrow> x \<noteq> y \<Longrightarrow>
    leaves_no_dust (ft_minimum_balance F l a) (ft_balance F l a x) n"
  unfolding keep_alive_law_def by metis

lemma small_minimum_no_dust: "minimum \<le> 1 \<Longrightarrow> leaves_no_dust minimum held n"
  by (auto simp: leaves_no_dust_def)

lemma credit_law_ref [simp]: "credit_law fungibles_ref"
  unfolding credit_law_def fungibles_ref_def
  by (auto simp: ref_transfer_def ref_burn_def Let_def split: if_splits)

lemma burn_other_law_ref [simp]: "burn_other_law fungibles_ref"
  unfolding burn_other_law_def fungibles_ref_def by (auto simp: ref_burn_def split: if_splits)

lemma keep_alive_law_ref [simp]: "keep_alive_law fungibles_ref"
  by (simp add: keep_alive_law_def fungibles_ref_def leaves_no_dust_def)

text \<open>The three laws in the form that custody arguments use.\<close>

lemma debit_at_most:
  assumes "fungibles_laws F" and "\<forall>l. ft_minimum_balance F l a \<le> 1" and "ft_transfer F l b x y n k = Inr l'"
  shows "ft_balance F l a x \<le> ft_balance F l' a x + (if b = a then n else 0)"
proof (cases "b = a")
  case True
  have "leaves_no_dust (ft_minimum_balance F l b) (ft_balance F l b x) n"
    using assms(2) True by (intro small_minimum_no_dust) simp
  from fungibles_lawsD(2) [OF assms(1,3) this, of x] True show ?thesis by (simp split: if_splits)
next
  case False
  then show ?thesis using fungibles_lawsD(4) [OF assms(1,3), of a x] by simp
qed

lemma credit_at_least:
  assumes "fungibles_laws F" and "credit_law F" and "ft_transfer F l b x z n k = Inr l'" and "x \<noteq> z"
  shows "ft_balance F l a z + (if b = a then n else 0) \<le> ft_balance F l' a z"
  using credit_lawD(1) [OF assms(2,3), of z] fungibles_lawsD(4) [OF assms(1,3), of a z] assms(4)
  by (cases "b = a") simp_all

lemma bystander_not_debited:
  assumes "fungibles_laws F" and "credit_law F" and "ft_transfer F l b x y n k = Inr l'" and "x \<noteq> z"
  shows "ft_balance F l a z \<le> ft_balance F l' a z"
  using credit_lawD(1) [OF assms(2,3), of z] fungibles_lawsD(4) [OF assms(1,3), of a z] assms(4)
  by (cases "b = a") (auto split: if_splits)

text \<open>The ledger laws under which the holding of asset \<open>a\<close> by a pallet's account is exact.\<close>

definition exact_custody :: "('e, 'l) fungibles \<Rightarrow> currency_id \<Rightarrow> bool" where
  "exact_custody F a \<longleftrightarrow> fungibles_laws F \<and> credit_law F \<and> (\<forall>l. ft_minimum_balance F l a \<le> 1)"

lemma exact_custody_ref [simp]: "exact_custody fungibles_ref a"
  by (simp add: exact_custody_def) (simp add: fungibles_ref_def)

lemma exact_custodyD:
  assumes "exact_custody F a" and "ft_transfer F l b x y n k = Inr l'"
  shows "ft_balance F l a x \<le> ft_balance F l' a x + (if b = a then n else 0)"
    and "x \<noteq> y \<Longrightarrow> ft_balance F l a y + (if b = a then n else 0) \<le> ft_balance F l' a y"
    and "x \<noteq> z \<Longrightarrow> ft_balance F l a z \<le> ft_balance F l' a z"
    and "b \<noteq> a \<Longrightarrow> ft_balance F l' a z = ft_balance F l a z"
  using assms debit_at_most [of F a l b x y n k l'] credit_at_least [of F l b x y n k l' a]
    bystander_not_debited [of F l b x y n k l' z a] fungibles_lawsD(4) [of F l b x y n k l' a z]
  by (simp_all add: exact_custody_def)

section \<open>Ledger activity of others\<close>

text \<open>What anybody else may do to the shared ledger between the calls of a pallet.\<close>

datatype ledger_action =
    LedgerTransfer currency_id account_id account_id balance bool
  | LedgerMint currency_id account_id balance
  | LedgerBurn currency_id account_id balance

fun ledger_exec :: "('e, 'l) fungibles \<Rightarrow> 'l \<Rightarrow> ledger_action \<Rightarrow> 'e + 'l" where
  "ledger_exec F l (LedgerTransfer a x y n k) = ft_transfer F l a x y n k"
| "ledger_exec F l (LedgerMint a x n) = ft_mint_into F l a x n"
| "ledger_exec F l (LedgerBurn a x n) = ft_burn_from F l a x n"

fun spares :: "account_id \<Rightarrow> ledger_action \<Rightarrow> bool" where
  "spares z (LedgerTransfer a x y n k) \<longleftrightarrow> x \<noteq> z"
| "spares z (LedgerMint a x n) \<longleftrightarrow> True"
| "spares z (LedgerBurn a x n) \<longleftrightarrow> x \<noteq> z"

lemma ledger_exec_spares:
  assumes "fungibles_laws F" and "credit_law F" and "ledger_exec F l act = Inr l'" and "spares z act"
  shows "ft_balance F l b z \<le> ft_balance F l' b z"
proof (cases act)
  case (LedgerTransfer a x y n k)
  with assms show ?thesis by (auto intro: bystander_not_debited)
next
  case (LedgerMint a x n)
  with assms show ?thesis by (simp add: fungibles_laws_mintD(1))
next
  case (LedgerBurn a x n)
  with assms show ?thesis by (auto intro: credit_lawD(2))
qed

end
