(* ===== verification/Primitives.thy ===== *)
theory Primitives
  imports Parallel_Prelude
begin

text \<open>
  Constants and token classes of src/primitives/src: the ranges of currency ids that the pricing and
  lending code treats specially.
\<close>

definition SECONDS_PER_YEAR :: timestamp where
  "SECONDS_PER_YEAR = 365 * 24 * 60 * 60"

definition SKSM :: currency_id where "SKSM = 1000"

definition SDOT :: currency_id where "SDOT = 1001"

definition is_vault_token :: "currency_id \<Rightarrow> bool" where
  "is_vault_token asset_id \<longleftrightarrow> asset_id > 100000000 \<and> asset_id < 300000000"

definition is_lf_lp_token :: "currency_id \<Rightarrow> bool" where
  "is_lf_lp_token asset_id \<longleftrightarrow>
     (asset_id > 5003 \<and> asset_id < 6000) \<or> (asset_id > 6003 \<and> asset_id < 7000)"

definition is_ls_token :: "currency_id \<Rightarrow> bool" where
  "is_ls_token asset_id \<longleftrightarrow> asset_id = SKSM \<or> asset_id = SDOT"

definition is_auxiliary_token :: "currency_id \<Rightarrow> bool" where
  "is_auxiliary_token asset_id \<longleftrightarrow> asset_id \<ge> u32_max - 10000"

text \<open>The four classes are disjoint, so the order in which code tests them does not matter.\<close>

lemma token_classes_disjoint:
  "\<not> (is_vault_token a \<and> is_lf_lp_token a)"
  "\<not> (is_vault_token a \<and> is_ls_token a)"
  "\<not> (is_vault_token a \<and> is_auxiliary_token a)"
  "\<not> (is_lf_lp_token a \<and> is_ls_token a)"
  "\<not> (is_lf_lp_token a \<and> is_auxiliary_token a)"
  "\<not> (is_ls_token a \<and> is_auxiliary_token a)"
  by (auto simp: is_vault_token_def is_lf_lp_token_def is_ls_token_def is_auxiliary_token_def
      SKSM_def SDOT_def)

lemma seconds_per_year [simp]: "SECONDS_PER_YEAR = 31536000"
  by (simp add: SECONDS_PER_YEAR_def)

end
