(* ===== verification/Loans_Types.thy ===== *)
theory Loans_Types
  imports Rate_Model Fungibles Primitives
begin

text \<open>
  Data, storage and configuration of the loans pallet (src/pallets/loans/src/types.rs and the
  \<open>pallet\<close> module of src/pallets/loans/src/lib.rs).

  \<open>'l loans_state\<close> has one field per storage item, the ledger of \<open>T::Assets\<close> and the events
  deposited so far.  A storage map with \<open>ValueQuery\<close> is a total function returning the default where
  nothing was written; \<open>AccountDeposits\<close>, whose presence the code tests, and the maps with
  \<open>OptionQuery\<close> are partial maps.  \<open>'l loans_config\<close> collects what the pallet is configured with:
  the arithmetic, the assets, the price feeder, the origins, the clock and the block number of the
  block being executed, derived accounts, and the order of the hashed market keys in storage.
\<close>

datatype loans_error =
    InsufficientLiquidity | InsufficientDeposit | TooMuchRepay | DuplicateOperation | NoDeposit
  | InsufficientCollateral | LiquidatorIsBorrower | DepositsAreNotCollateral | InsufficientShortfall
  | InsufficientReserves | InvalidRateModelParam | MarketNotActivated | PriceOracleNotReady
  | PriceIsZero | InvalidCurrencyId | InvalidPtokenId | MarketDoesNotExist | MarketAlreadyExists
  | NewMarketMustHavePendingState | SupplyCapacityExceeded | BorrowCapacityExceeded
  | InsufficientCash | InvalidFactor | InvalidSupplyCap | InvalidExchangeRate | InvalidAmount
  | PayerIsSigner | CodecError | CollateralReserved

type_synonym loans_dispatch_error = "loans_error dispatch_error"

definition MAX_EXCHANGE_RATE :: rate where "MAX_EXCHANGE_RATE = 1000000000000000000"

definition MIN_EXCHANGE_RATE :: rate where "MIN_EXCHANGE_RATE = 20000000000000000"

record borrow_snapshot =
  bs_principal :: balance
  bs_borrow_index :: rate

record earned_snapshot =
  es_total_earned_prior :: balance
  es_exchange_rate_prior :: rate

record deposits =
  voucher_balance :: balance
  is_collateral :: bool

datatype market_state = Active | Pending | Supervision

record market =
  collateral_factor :: ratio
  liquidation_threshold :: ratio
  reserve_factor :: ratio
  close_factor :: ratio
  liquidate_incentive :: rate
  liquidate_incentive_reserved_factor :: ratio
  rate_model_of :: interest_rate_model
  state_of :: market_state
  supply_cap :: balance
  borrow_cap :: balance
  ptoken_id_of :: currency_id

record reward_market_state =
  rm_index :: balance
  rm_block :: block_number

datatype loans_event =
    CollateralAssetAdded account_id currency_id
  | CollateralAssetRemoved account_id currency_id
  | Deposited account_id currency_id balance
  | Redeemed account_id currency_id balance
  | Borrowed account_id currency_id balance
  | RepaidBorrow account_id currency_id balance
  | LiquidatedBorrow account_id account_id currency_id currency_id balance balance
  | ReservesReduced account_id currency_id balance balance
  | ReservesAdded account_id currency_id balance balance
  | NewMarket currency_id market
  | ActivatedMarket currency_id
  | UpdatedMarket currency_id market
  | RewardAdded account_id balance
  | RewardWithdrawn account_id balance
  | MarketRewardSpeedUpdated currency_id balance balance
  | DistributedSupplierReward currency_id account_id balance balance
  | DistributedBorrowerReward currency_id account_id balance balance
  | RewardPaid account_id balance
  | IncentiveReservesReduced account_id currency_id balance
  | LiquidationFreeCollateralsUpdated "currency_id list"

record 'l loans_state =
  last_accrued_interest_time :: "currency_id \<Rightarrow> timestamp"
  liquidation_free_collaterals :: "currency_id list"
  total_supply :: "currency_id \<Rightarrow> balance"
  total_borrows :: "currency_id \<Rightarrow> balance"
  total_reserves :: "currency_id \<Rightarrow> balance"
  account_borrows :: "currency_id \<Rightarrow> account_id \<Rightarrow> borrow_snapshot"
  account_deposits :: "currency_id \<Rightarrow> account_id \<rightharpoonup> deposits"
  account_earned :: "currency_id \<Rightarrow> account_id \<Rightarrow> earned_snapshot"
  borrow_index :: "currency_id \<Rightarrow> rate"
  exchange_rate :: "currency_id \<Rightarrow> rate"
  borrow_rate :: "currency_id \<Rightarrow> rate"
  supply_rate :: "currency_id \<Rightarrow> rate"
  utilization_ratio :: "currency_id \<Rightarrow> ratio"
  markets :: "currency_id \<rightharpoonup> market"
  underlying_asset_id :: "currency_id \<rightharpoonup> currency_id"
  reward_supply_speed :: "currency_id \<Rightarrow> balance"
  reward_borrow_speed :: "currency_id \<Rightarrow> balance"
  reward_supply_state :: "currency_id \<Rightarrow> reward_market_state"
  reward_borrow_state :: "currency_id \<Rightarrow> reward_market_state"
  reward_supplier_index :: "currency_id \<Rightarrow> account_id \<Rightarrow> balance"
  reward_borrower_index :: "currency_id \<Rightarrow> account_id \<Rightarrow> balance"
  reward_accrued :: "account_id \<Rightarrow> balance"
  ledger :: 'l
  events :: "loans_event list"

record 'l loans_config =
  lc_arith :: sp_arith
  lc_assets :: "(nat, 'l) fungibles"
  lc_price_feeder :: "currency_id \<Rightarrow> (rate \<times> timestamp) option"
  lc_pallet_account :: account_id
  lc_derive_account :: "string \<Rightarrow> account_id \<Rightarrow> account_id option"
  lc_update_origin :: "origin \<Rightarrow> bool"
  lc_reserve_origin :: "origin \<Rightarrow> bool"
  lc_lookup :: "account_id \<Rightarrow> account_id option"
  lc_now :: timestamp
  lc_block :: block_number
  lc_reward_asset :: currency_id
  lc_lf_asset :: currency_id
  lc_market_keys :: "currency_id list"

section \<open>Storage accessors\<close>

definition deposit_event :: "loans_event \<Rightarrow> 'l loans_state \<Rightarrow> 'l loans_state" where
  "deposit_event e s = s\<lparr>events := events s @ [e]\<rparr>"

definition default_deposits :: deposits where
  "default_deposits = \<lparr>voucher_balance = 0, is_collateral = False\<rparr>"

definition get_deposits :: "'l loans_state \<Rightarrow> currency_id \<Rightarrow> account_id \<Rightarrow> deposits" where
  "get_deposits s asset_id who =
     (case account_deposits s asset_id who of None \<Rightarrow> default_deposits | Some d \<Rightarrow> d)"

definition put_deposits ::
    "currency_id \<Rightarrow> account_id \<Rightarrow> deposits option \<Rightarrow> 'l loans_state \<Rightarrow> 'l loans_state" where
  "put_deposits asset_id who d s =
     s\<lparr>account_deposits := (account_deposits s)(asset_id := (account_deposits s asset_id)(who := d))\<rparr>"

definition put_account_borrows ::
    "currency_id \<Rightarrow> account_id \<Rightarrow> borrow_snapshot \<Rightarrow> 'l loans_state \<Rightarrow> 'l loans_state" where
  "put_account_borrows asset_id who b s =
     s\<lparr>account_borrows := (account_borrows s)(asset_id := (account_borrows s asset_id)(who := b))\<rparr>"

definition account_id :: "'l loans_config \<Rightarrow> account_id" where
  "account_id C = lc_pallet_account C"

definition transfer_assets ::
    "'l loans_config \<Rightarrow> 'l loans_state \<Rightarrow> currency_id \<Rightarrow> account_id \<Rightarrow> account_id \<Rightarrow> balance \<Rightarrow> bool
     \<Rightarrow> loans_dispatch_error + 'l loans_state" where
  "transfer_assets C s asset_id from to amount keep_alive =
     bindE (map_err External (ft_transfer (lc_assets C) (ledger s) asset_id from to amount keep_alive))
       (\<lambda>l. Inr (s\<lparr>ledger := l\<rparr>))"

definition lookup_account :: "'l loans_config \<Rightarrow> account_id \<Rightarrow> loans_dispatch_error + account_id" where
  "lookup_account C source = ok_or (lc_lookup C source) CannotLookup"

definition market_of :: "'l loans_state \<Rightarrow> currency_id \<Rightarrow> loans_dispatch_error + market" where
  "market_of s asset_id = ok_or (markets s asset_id) (Module MarketDoesNotExist)"

definition active_markets :: "'l loans_config \<Rightarrow> 'l loans_state \<Rightarrow> (currency_id \<times> market) list" where
  "active_markets C s =
     filter (\<lambda>(_, m). state_of m = Active) (storage_iter (lc_market_keys C) (markets s))"

definition ensure_active_market ::
    "'l loans_config \<Rightarrow> 'l loans_state \<Rightarrow> currency_id \<Rightarrow> loans_dispatch_error + market" where
  "ensure_active_market C s asset_id =
     ok_or (map_option snd (find (\<lambda>(id, _). id = asset_id) (active_markets C s)))
       (Module MarketNotActivated)"

definition get_total_cash :: "'l loans_config \<Rightarrow> 'l loans_state \<Rightarrow> currency_id \<Rightarrow> balance" where
  "get_total_cash C s asset_id =
     ft_reducible_balance (lc_assets C) (ledger s) asset_id (account_id C) False"

section \<open>Lemmas\<close>

lemma get_deposits_put [simp]:
  "get_deposits (put_deposits a w d s) b v =
     (if b = a \<and> v = w then case d of None \<Rightarrow> default_deposits | Some x \<Rightarrow> x else get_deposits s b v)"
  by (simp add: get_deposits_def put_deposits_def)

lemma deposit_event_sel [simp]:
  "account_deposits (deposit_event e s) = account_deposits s"
  "account_borrows (deposit_event e s) = account_borrows s"
  "total_supply (deposit_event e s) = total_supply s"
  "total_borrows (deposit_event e s) = total_borrows s"
  "total_reserves (deposit_event e s) = total_reserves s"
  "borrow_index (deposit_event e s) = borrow_index s"
  "markets (deposit_event e s) = markets s"
  "underlying_asset_id (deposit_event e s) = underlying_asset_id s"
  "ledger (deposit_event e s) = ledger s"
  "liquidation_free_collaterals (deposit_event e s) = liquidation_free_collaterals s"
  "last_accrued_interest_time (deposit_event e s) = last_accrued_interest_time s"
  "reward_accrued (deposit_event e s) = reward_accrued s"
  "reward_supply_state (deposit_event e s) = reward_supply_state s"
  "reward_borrow_state (deposit_event e s) = reward_borrow_state s"
  "reward_supplier_index (deposit_event e s) = reward_supplier_index s"
  "reward_borrower_index (deposit_event e s) = reward_borrower_index s"
  "exchange_rate (deposit_event e s) = exchange_rate s"
  by (simp_all add: deposit_event_def)

lemma get_deposits_event [simp]: "get_deposits (deposit_event e s) = get_deposits s"
  by (intro ext) (simp add: get_deposits_def)

lemma market_of_Inr [simp]: "market_of s a = Inr m \<longleftrightarrow> markets s a = Some m"
  by (simp add: market_of_def)

lemma active_markets_mem:
  "(a, m) \<in> set (active_markets C s) \<longleftrightarrow>
     a \<in> set (lc_market_keys C) \<and> markets s a = Some m \<and> state_of m = Active"
  by (auto simp: active_markets_def storage_iter_mem)

lemma find_assoc_distinct:
  assumes "distinct (map fst xs)"
  shows "find (\<lambda>(k, _). k = a) xs = (case map_of xs a of None \<Rightarrow> None | Some v \<Rightarrow> Some (a, v))"
  using assms by (induction xs) (auto split: option.splits)

lemma ensure_active_marketD:
  assumes "ensure_active_market C s a = Inr m"
  shows "(a, m) \<in> set (active_markets C s)"
proof -
  from assms obtain x where x: "find (\<lambda>(id, _). id = a) (active_markets C s) = Some x" "snd x = m"
    by (auto simp: ensure_active_market_def)
  from x(1) have "x \<in> set (active_markets C s) \<and> fst x = a"
    by (auto simp: find_Some_iff case_prod_beta)
  with x(2) show ?thesis by (cases x) auto
qed

lemma ensure_active_market_iff:
  assumes "covers (lc_market_keys C) (markets s)"
  shows "ensure_active_market C s a = Inr m \<longleftrightarrow> markets s a = Some m \<and> state_of m = Active"
proof
  assume "ensure_active_market C s a = Inr m"
  then have "(a, m) \<in> set (active_markets C s)" by (rule ensure_active_marketD)
  then show "markets s a = Some m \<and> state_of m = Active" by (simp add: active_markets_mem)
next
  assume m: "markets s a = Some m \<and> state_of m = Active"
  have "distinct (map fst (storage_iter (lc_market_keys C) (markets s)))"
    using assms by (simp add: covers_def storage_iter_distinct)
  then have dist: "distinct (map fst (active_markets C s))"
    unfolding active_markets_def by (rule distinct_map_filter)
  have "(a, m) \<in> set (active_markets C s)"
    using m assms by (auto simp: active_markets_mem covers_def)
  with dist have "map_of (active_markets C s) a = Some m" by simp
  then show "ensure_active_market C s a = Inr m"
    using find_assoc_distinct [OF dist, of a] by (simp add: ensure_active_market_def)
qed

lemma transfer_assetsD [frame_dest]:
  assumes "transfer_assets C s a x y n k = Inr s'"
  shows "\<exists>l. s' = s\<lparr>ledger := l\<rparr> \<and> ft_transfer (lc_assets C) (ledger s) a x y n k = Inr l"
  using assms by (auto simp: transfer_assets_def)

end
