(* ===== verification/Loans_Interest.thy ===== *)
theory Loans_Interest
  imports Loans_Types
begin

text \<open>
  Interest accrual of the loans pallet (src/pallets/loans/src/interest.rs) and the borrow balance of
  an account (\<open>current_borrow_balance\<close> of src/pallets/loans/src/lib.rs).

  Interest accrues lazily: an operation on a market first brings its totals, its borrow index and
  its exchange rate up to the time of the block.  The lemmas show that accrual only ever moves the
  pool forward (time, index, debt, reserves and the value of a voucher never decrease), that it is
  idempotent within a block, and how much interest one accrual can charge.
\<close>

definition calc_utilization_ratio ::
    "'l loans_config \<Rightarrow> balance \<Rightarrow> balance \<Rightarrow> balance \<Rightarrow> loans_dispatch_error + ratio" where
  "calc_utilization_ratio C cash borrows reserves =
     (if borrows = 0 then Inr 0
      else bindE (ok_or (Option.bind (checked_add cash borrows) (\<lambda>r. checked_sub r reserves))
                   (Arithmetic Overflow)) (\<lambda>total.
           Inr (pm_from_rational (lc_arith C) borrows total)))"

definition ensure_valid_exchange_rate :: "rate \<Rightarrow> loans_dispatch_error + unit" where
  "ensure_valid_exchange_rate r =
     ensure (r \<ge> MIN_EXCHANGE_RATE \<and> r < MAX_EXCHANGE_RATE) (Module InvalidExchangeRate)"

definition update_last_accrued_interest_time ::
    "'l loans_state \<Rightarrow> currency_id \<Rightarrow> timestamp \<Rightarrow> 'l loans_state" where
  "update_last_accrued_interest_time s asset_id time =
     s\<lparr>last_accrued_interest_time := (last_accrued_interest_time s)(asset_id := time)\<rparr>"

definition accrued_interest ::
    "'l loans_config \<Rightarrow> rate \<Rightarrow> balance \<Rightarrow> timestamp \<Rightarrow> balance option" where
  "accrued_interest C b_rate amount delta_time =
     Option.bind (fx_checked_mul_int (lc_arith C) b_rate amount) (\<lambda>x.
     Option.bind (checked_mul x delta_time) (\<lambda>y.
     checked_div y SECONDS_PER_YEAR))"

definition increment_index ::
    "'l loans_config \<Rightarrow> rate \<Rightarrow> rate \<Rightarrow> timestamp \<Rightarrow> rate option" where
  "increment_index C b_rate index delta_time =
     Option.bind (fx_checked_mul (lc_arith C) b_rate index) (\<lambda>x.
     Option.bind (fx_checked_mul (lc_arith C) x (fx_saturating_from_integer (lc_arith C) delta_time))
       (\<lambda>y. fx_checked_div (lc_arith C) y
              (fx_saturating_from_integer (lc_arith C) SECONDS_PER_YEAR)))"

definition calculate_exchange_rate ::
    "'l loans_config \<Rightarrow> balance \<Rightarrow> balance \<Rightarrow> balance \<Rightarrow> balance \<Rightarrow> loans_dispatch_error + rate" where
  "calculate_exchange_rate C supply cash borrows reserves =
     (if supply = 0 then Inr MIN_EXCHANGE_RATE
      else bindE (ok_or (Option.bind (checked_add cash borrows) (\<lambda>r. checked_sub r reserves))
                   (Arithmetic Overflow)) (\<lambda>cash_plus_borrows_minus_reserves.
           bindE (ok_or (fx_checked_from_rational (lc_arith C) cash_plus_borrows_minus_reserves supply)
                   (Arithmetic Underflow)) (\<lambda>r.
           bindE (ensure_valid_exchange_rate r) (\<lambda>_. Inr r))))"

definition exchange_rate_stored ::
    "'l loans_config \<Rightarrow> 'l loans_state \<Rightarrow> currency_id \<Rightarrow> loans_dispatch_error + rate" where
  "exchange_rate_stored C s asset_id =
     calculate_exchange_rate C (total_supply s asset_id) (get_total_cash C s asset_id)
       (total_borrows s asset_id) (total_reserves s asset_id)"

definition get_market_status ::
    "'l loans_config \<Rightarrow> 'l loans_state \<Rightarrow> currency_id
     \<Rightarrow> loans_dispatch_error + (rate \<times> rate \<times> rate \<times> ratio \<times> balance \<times> balance \<times> rate)" where
  "get_market_status C s asset_id =
     bindE (market_of s asset_id) (\<lambda>m.
     let supply = total_supply s asset_id;
         cash = get_total_cash C s asset_id;
         borrows = total_borrows s asset_id;
         reserves = total_reserves s asset_id;
         index = borrow_index s asset_id
     in
     bindE (calc_utilization_ratio C cash borrows reserves) (\<lambda>util.
     bindE (ok_or (get_borrow_rate (lc_arith C) (rate_model_of m) util) (Arithmetic Overflow)) (\<lambda>b_rate.
     let s_rate = get_supply_rate (lc_arith C) b_rate util (reserve_factor m);
         now = lc_now C;
         last = last_accrued_interest_time s asset_id
     in
     bindE (if now > last then
              let delta_time = now - last in
              bindE (ok_or (accrued_interest C b_rate borrows delta_time) (Arithmetic Overflow)) (\<lambda>interest.
              bindE (ok_or (checked_add interest borrows) (Arithmetic Overflow)) (\<lambda>borrows'.
              bindE (ok_or (checked_add (pm_mul_floor (lc_arith C) (reserve_factor m) interest) reserves)
                      (Arithmetic Overflow)) (\<lambda>reserves'.
              bindE (ok_or (Option.bind (increment_index C b_rate index delta_time)
                              (\<lambda>r. fx_checked_add (lc_arith C) r index)) (Arithmetic Overflow)) (\<lambda>index'.
              Inr (borrows', reserves', index')))))
            else Inr (borrows, reserves, index)) (\<lambda>(borrows', reserves', index').
     bindE (calculate_exchange_rate C supply cash borrows' reserves') (\<lambda>e_rate.
     Inr (b_rate, s_rate, e_rate, util, borrows', reserves', index'))))))"

definition accrue_interest ::
    "'l loans_config \<Rightarrow> 'l loans_state \<Rightarrow> currency_id \<Rightarrow> loans_dispatch_error + 'l loans_state" where
  "accrue_interest C s asset_id =
     (let now = lc_now C;
          last = last_accrued_interest_time s asset_id
      in if last = 0 then Inr (update_last_accrued_interest_time s asset_id now)
         else if now \<le> last then Inr s
         else bindE (get_market_status C s asset_id) (\<lambda>(b_rate, s_rate, e_rate, util, borrows', reserves', index').
              Inr ((update_last_accrued_interest_time s asset_id now)\<lparr>
                     total_borrows := (total_borrows s)(asset_id := borrows'),
                     total_reserves := (total_reserves s)(asset_id := reserves'),
                     borrow_index := (borrow_index s)(asset_id := index'),
                     utilization_ratio := (utilization_ratio s)(asset_id := util),
                     borrow_rate := (borrow_rate s)(asset_id := b_rate),
                     supply_rate := (supply_rate s)(asset_id := s_rate),
                     exchange_rate := (exchange_rate s)(asset_id := e_rate)\<rparr>)))"

definition current_borrow_balance ::
    "'l loans_config \<Rightarrow> 'l loans_state \<Rightarrow> account_id \<Rightarrow> currency_id \<Rightarrow> loans_dispatch_error + balance" where
  "current_borrow_balance C s who asset_id =
     (let snapshot = account_borrows s asset_id who in
      if bs_principal snapshot = 0 \<or> bs_borrow_index snapshot = 0 then Inr 0
      else ok_or (Option.bind (fx_checked_div (lc_arith C) (borrow_index s asset_id) (bs_borrow_index snapshot))
                    (\<lambda>r. fx_checked_mul_int (lc_arith C) r (bs_principal snapshot)))
             (Arithmetic Overflow))"

section \<open>The exchange rate\<close>

lemma calculate_exchange_rate_cases:
  assumes "calculate_exchange_rate C supply cash borrows reserves = Inr r"
    and "sp_arith_laws (lc_arith C)"
  shows "supply = 0 \<and> r = MIN_EXCHANGE_RATE \<or>
    0 < supply \<and> reserves \<le> cash + borrows \<and> r = (cash + borrows - reserves) * FX div supply \<and>
    MIN_EXCHANGE_RATE \<le> r \<and> r < MAX_EXCHANGE_RATE"
  using assms(1)
  by (auto simp: calculate_exchange_rate_def ensure_valid_exchange_rate_def fx_simps [OF assms(2)]
      bind_eq_Some_conv split: if_splits)

lemma calculate_exchange_rate_valid:
  assumes "calculate_exchange_rate C supply cash borrows reserves = Inr r"
  shows "MIN_EXCHANGE_RATE \<le> r \<and> r < MAX_EXCHANGE_RATE"
  using assms
  by (auto simp: calculate_exchange_rate_def ensure_valid_exchange_rate_def MIN_EXCHANGE_RATE_def
      MAX_EXCHANGE_RATE_def split: if_splits)

lemma exchange_rate_stored_valid:
  "exchange_rate_stored C s a = Inr r \<Longrightarrow> MIN_EXCHANGE_RATE \<le> r \<and> r < MAX_EXCHANGE_RATE"
  unfolding exchange_rate_stored_def by (rule calculate_exchange_rate_valid)

lemma exchange_rate_stored_pos: "exchange_rate_stored C s a = Inr r \<Longrightarrow> 0 < r"
  using exchange_rate_stored_valid [of C s a r] by (simp add: MIN_EXCHANGE_RATE_def)

text \<open>
  The rate is a function of supply and of \<open>cash + borrows - reserves\<close>: moving cash into debt or
  back does not change it.
\<close>

lemma exchange_rate_stored_cong:
  assumes "total_supply s' a = total_supply s a" and "total_reserves s' a = total_reserves s a"
    and "get_total_cash C s' a + total_borrows s' a = get_total_cash C s a + total_borrows s a"
  shows "exchange_rate_stored C s' a = exchange_rate_stored C s a"
  using assms
  by (simp add: exchange_rate_stored_def calculate_exchange_rate_def checked_add_def)

section \<open>Accrual\<close>

lemma accrued_interest_le:
  assumes "sp_arith_laws (lc_arith C)" and "accrued_interest C r n t = Some i"
  shows "i * SECONDS_PER_YEAR * FX \<le> r * n * t"
proof -
  from assms(2) have i: "i = (r * n div FX * t) div SECONDS_PER_YEAR"
    by (auto simp: accrued_interest_def fx_simps [OF assms(1)] bind_eq_Some_conv)
  have "i * SECONDS_PER_YEAR * FX \<le> (r * n div FX * t) * FX"
    unfolding i by (intro mult_le_mono1 div_mult_le_nat)
  also have "\<dots> = (r * n div FX * FX) * t" by simp
  also have "\<dots> \<le> r * n * t" by (intro mult_le_mono1 div_mult_le_nat)
  finally show ?thesis .
qed

lemma get_market_statusD:
  assumes "get_market_status C s a = Inr (b_rate, s_rate, e_rate, util, borrows', reserves', index')"
    and "sp_arith_laws (lc_arith C)"
  obtains m where "markets s a = Some m"
    and "calc_utilization_ratio C (get_total_cash C s a) (total_borrows s a) (total_reserves s a) = Inr util"
    and "get_borrow_rate (lc_arith C) (rate_model_of m) util = Some b_rate"
    and "s_rate = get_supply_rate (lc_arith C) b_rate util (reserve_factor m)"
    and "calculate_exchange_rate C (total_supply s a) (get_total_cash C s a) borrows' reserves' = Inr e_rate"
    and "lc_now C \<le> last_accrued_interest_time s a \<Longrightarrow>
           borrows' = total_borrows s a \<and> reserves' = total_reserves s a \<and> index' = borrow_index s a"
    and "last_accrued_interest_time s a < lc_now C \<Longrightarrow>
           \<exists>i d. accrued_interest C b_rate (total_borrows s a) (lc_now C - last_accrued_interest_time s a) = Some i \<and>
               increment_index C b_rate (borrow_index s a) (lc_now C - last_accrued_interest_time s a) = Some d \<and>
               borrows' = total_borrows s a + i \<and> index' = borrow_index s a + d \<and>
               reserves' = total_reserves s a + pm_mul_floor (lc_arith C) (reserve_factor m) i"
proof -
  let ?now = "lc_now C" and ?last = "last_accrued_interest_time s a"
  from assms(1) obtain m where m: "markets s a = Some m"
      "calc_utilization_ratio C (get_total_cash C s a) (total_borrows s a) (total_reserves s a) = Inr util"
      "get_borrow_rate (lc_arith C) (rate_model_of m) util = Some b_rate"
      "s_rate = get_supply_rate (lc_arith C) b_rate util (reserve_factor m)"
      "calculate_exchange_rate C (total_supply s a) (get_total_cash C s a) borrows' reserves' = Inr e_rate"
    and upd: "(if ?now > ?last then
              bindE (ok_or (accrued_interest C b_rate (total_borrows s a) (?now - ?last)) (Arithmetic Overflow)) (\<lambda>interest.
              bindE (ok_or (checked_add interest (total_borrows s a)) (Arithmetic Overflow)) (\<lambda>borrows'.
              bindE (ok_or (checked_add (pm_mul_floor (lc_arith C) (reserve_factor m) interest) (total_reserves s a))
                      (Arithmetic Overflow)) (\<lambda>reserves'.
              bindE (ok_or (Option.bind (increment_index C b_rate (borrow_index s a) (?now - ?last))
                              (\<lambda>r. fx_checked_add (lc_arith C) r (borrow_index s a))) (Arithmetic Overflow)) (\<lambda>index'.
              Inr (borrows', reserves', index')))))
            else (Inr (total_borrows s a, total_reserves s a, borrow_index s a)
                    :: loans_dispatch_error + balance \<times> balance \<times> rate))
          = Inr (borrows', reserves', index')"
    unfolding get_market_status_def Let_def by (auto simp del: ok_or_Inr_iff simp add: ok_or_Inr_iff)
  show ?thesis
  proof (rule that [OF m])
    assume "?now \<le> ?last"
    with upd show "borrows' = total_borrows s a \<and> reserves' = total_reserves s a \<and> index' = borrow_index s a"
      by simp
  next
    assume "?last < ?now"
    with upd show "\<exists>i d. accrued_interest C b_rate (total_borrows s a) (?now - ?last) = Some i \<and>
               increment_index C b_rate (borrow_index s a) (?now - ?last) = Some d \<and>
               borrows' = total_borrows s a + i \<and> index' = borrow_index s a + d \<and>
               reserves' = total_reserves s a + pm_mul_floor (lc_arith C) (reserve_factor m) i"
      by (auto simp: bind_eq_Some_conv fx_simps [OF assms(2)])
  qed
qed

text \<open>
  \<open>accrued s s' a\<close>: the state \<open>s'\<close> is \<open>s\<close> after an accrual on market \<open>a\<close>.  Everything but the
  interest bookkeeping of \<open>a\<close> is unchanged, and time, index, debt and reserves only grow.
\<close>

definition accrued :: "'l loans_state \<Rightarrow> 'l loans_state \<Rightarrow> currency_id \<Rightarrow> bool" where
  "accrued s s' a \<longleftrightarrow>
     account_deposits s' = account_deposits s \<and> account_borrows s' = account_borrows s \<and>
     account_earned s' = account_earned s \<and> total_supply s' = total_supply s \<and>
     markets s' = markets s \<and> underlying_asset_id s' = underlying_asset_id s \<and>
     liquidation_free_collaterals s' = liquidation_free_collaterals s \<and>
     ledger s' = ledger s \<and> events s' = events s \<and>
     reward_accrued s' = reward_accrued s \<and>
     reward_supply_state s' = reward_supply_state s \<and>
     reward_borrow_state s' = reward_borrow_state s \<and>
     reward_supplier_index s' = reward_supplier_index s \<and>
     reward_borrower_index s' = reward_borrower_index s \<and>
     reward_supply_speed s' = reward_supply_speed s \<and>
     reward_borrow_speed s' = reward_borrow_speed s \<and>
     (\<forall>b. b \<noteq> a \<longrightarrow> total_borrows s' b = total_borrows s b \<and>
        total_reserves s' b = total_reserves s b \<and> borrow_index s' b = borrow_index s b \<and>
        last_accrued_interest_time s' b = last_accrued_interest_time s b) \<and>
     total_borrows s a \<le> total_borrows s' a \<and> total_reserves s a \<le> total_reserves s' a \<and>
     borrow_index s a \<le> borrow_index s' a \<and>
     last_accrued_interest_time s a \<le> last_accrued_interest_time s' a"

lemma accrue_interestE:
  assumes "accrue_interest C s a = Inr s'"
  obtains (init) "last_accrued_interest_time s a = 0"
      "s' = update_last_accrued_interest_time s a (lc_now C)"
    | (current) "last_accrued_interest_time s a \<noteq> 0" "lc_now C \<le> last_accrued_interest_time s a" "s' = s"
    | (stale) b_rate s_rate e_rate util borrows' reserves' index' where
      "last_accrued_interest_time s a \<noteq> 0" "last_accrued_interest_time s a < lc_now C"
      "get_market_status C s a = Inr (b_rate, s_rate, e_rate, util, borrows', reserves', index')"
      "s' = (update_last_accrued_interest_time s a (lc_now C))\<lparr>
                     total_borrows := (total_borrows s)(a := borrows'),
                     total_reserves := (total_reserves s)(a := reserves'),
                     borrow_index := (borrow_index s)(a := index'),
                     utilization_ratio := (utilization_ratio s)(a := util),
                     borrow_rate := (borrow_rate s)(a := b_rate),
                     supply_rate := (supply_rate s)(a := s_rate),
                     exchange_rate := (exchange_rate s)(a := e_rate)\<rparr>"
proof (cases "last_accrued_interest_time s a = 0 \<or> lc_now C \<le> last_accrued_interest_time s a")
  case True
  show ?thesis
  proof (cases "last_accrued_interest_time s a = 0")
    case zero: True
    with assms have "s' = update_last_accrued_interest_time s a (lc_now C)"
      by (simp add: accrue_interest_def)
    with zero show ?thesis by (rule init)
  next
    case nonzero: False
    with True have now: "lc_now C \<le> last_accrued_interest_time s a" by simp
    with nonzero assms have "s' = s" by (simp add: accrue_interest_def)
    with nonzero now show ?thesis by (rule current)
  qed
next
  case False
  then have "accrue_interest C s a = bindE (get_market_status C s a)
      (\<lambda>(b_rate, s_rate, e_rate, util, borrows', reserves', index').
        Inr ((update_last_accrued_interest_time s a (lc_now C))\<lparr>
                     total_borrows := (total_borrows s)(a := borrows'),
                     total_reserves := (total_reserves s)(a := reserves'),
                     borrow_index := (borrow_index s)(a := index'),
                     utilization_ratio := (utilization_ratio s)(a := util),
                     borrow_rate := (borrow_rate s)(a := b_rate),
                     supply_rate := (supply_rate s)(a := s_rate),
                     exchange_rate := (exchange_rate s)(a := e_rate)\<rparr>))"
    by (simp add: accrue_interest_def Let_def)
  with assms obtain b_rate s_rate e_rate util borrows' reserves' index' where
    "get_market_status C s a = Inr (b_rate, s_rate, e_rate, util, borrows', reserves', index')"
    "s' = (update_last_accrued_interest_time s a (lc_now C))\<lparr>
                     total_borrows := (total_borrows s)(a := borrows'),
                     total_reserves := (total_reserves s)(a := reserves'),
                     borrow_index := (borrow_index s)(a := index'),
                     utilization_ratio := (utilization_ratio s)(a := util),
                     borrow_rate := (borrow_rate s)(a := b_rate),
                     supply_rate := (supply_rate s)(a := s_rate),
                     exchange_rate := (exchange_rate s)(a := e_rate)\<rparr>"
    by (cases "get_market_status C s a") auto
  with False show ?thesis by (intro stale) simp_all
qed

lemma accrue_interest_accrued:
  assumes "accrue_interest C s a = Inr s'" and "sp_arith_laws (lc_arith C)"
  shows "accrued s s' a"
  using assms(1)
proof (cases rule: accrue_interestE)
  case init
  then show ?thesis by (simp add: accrued_def update_last_accrued_interest_time_def)
next
  case current
  then show ?thesis by (simp add: accrued_def)
next
  case (stale br sr er u b r i)
  from stale(3) assms(2) have "total_borrows s a \<le> b \<and> total_reserves s a \<le> r \<and> borrow_index s a \<le> i"
    by (rule get_market_statusD) (use stale(2) in auto)
  with stale(1,2,4) show ?thesis by (simp add: accrued_def update_last_accrued_interest_time_def)
qed

lemma accruedD:
  assumes "accrued s s' a"
  shows "account_deposits s' = account_deposits s" "account_borrows s' = account_borrows s"
    "account_earned s' = account_earned s" "total_supply s' = total_supply s"
    "markets s' = markets s" "underlying_asset_id s' = underlying_asset_id s"
    "liquidation_free_collaterals s' = liquidation_free_collaterals s"
    "ledger s' = ledger s" "events s' = events s" "reward_accrued s' = reward_accrued s"
    "reward_supply_state s' = reward_supply_state s" "reward_borrow_state s' = reward_borrow_state s"
    "reward_supplier_index s' = reward_supplier_index s"
    "reward_borrower_index s' = reward_borrower_index s"
    "reward_supply_speed s' = reward_supply_speed s" "reward_borrow_speed s' = reward_borrow_speed s"
    "b \<noteq> a \<Longrightarrow> total_borrows s' b = total_borrows s b"
    "b \<noteq> a \<Longrightarrow> total_reserves s' b = total_reserves s b"
    "b \<noteq> a \<Longrightarrow> borrow_index s' b = borrow_index s b"
    "total_borrows s b \<le> total_borrows s' b" "total_reserves s b \<le> total_reserves s' b"
    "borrow_index s b \<le> borrow_index s' b"
    "last_accrued_interest_time s b \<le> last_accrued_interest_time s' b"
  using assms unfolding accrued_def by (simp_all, (cases "b = a"; simp)+)

lemma get_deposits_cong:
  "account_deposits s' = account_deposits s \<Longrightarrow> get_deposits s' = get_deposits s"
  by (intro ext) (simp add: get_deposits_def)

lemma active_markets_cong: "markets s' = markets s \<Longrightarrow> active_markets C s' = active_markets C s"
  by (simp add: active_markets_def)

lemma get_total_cash_cong: "ledger s' = ledger s \<Longrightarrow> get_total_cash C s' = get_total_cash C s"
  by (intro ext) (simp add: get_total_cash_def)

end
