(* ===== verification/Loans_Farming.thy ===== *)
theory Loans_Farming
  imports Loans_Interest
begin

text \<open>
  Reward farming of the loans pallet (src/pallets/loans/src/farming.rs).

  Every market distributes a reward per block to its suppliers and to its borrowers.  A market keeps
  an index (accumulated reward per share, scaled by \<open>10^12\<close>) for each side; an account remembers the
  index at which it was last paid and is credited the difference times its share.
\<close>

definition reward_account_id :: "'l loans_config \<Rightarrow> loans_dispatch_error + account_id" where
  "reward_account_id C =
     ok_or (lc_derive_account C ''loans/farming'' (lc_pallet_account C)) (Module CodecError)"

definition reward_scale :: nat where
  "reward_scale = 10 ^ 12"

definition calculate_reward_delta_index ::
    "block_number \<Rightarrow> balance \<Rightarrow> balance \<Rightarrow> loans_dispatch_error + balance" where
  "calculate_reward_delta_index delta_block reward_speed total_share =
     (if total_share = 0 then Inr 0
      else ok_or (to_u128 (delta_block * reward_speed * reward_scale div total_share))
             (Arithmetic Overflow))"

definition calculate_reward_delta :: "balance \<Rightarrow> balance \<Rightarrow> loans_dispatch_error + balance" where
  "calculate_reward_delta share reward_delta_index =
     ok_or (to_u128 (share * reward_delta_index div reward_scale)) (Arithmetic Overflow)"

definition update_reward_supply_index ::
    "'l loans_config \<Rightarrow> 'l loans_state \<Rightarrow> currency_id \<Rightarrow> loans_dispatch_error + 'l loans_state" where
  "update_reward_supply_index C s asset_id =
     (let current_block_number = lc_block C;
          supply_state = reward_supply_state s asset_id;
          delta_block = saturating_sub current_block_number (rm_block supply_state)
      in if delta_block = 0 then Inr s
         else
           bindE (if reward_supply_speed s asset_id \<noteq> 0 then
                    bindE (calculate_reward_delta_index delta_block (reward_supply_speed s asset_id)
                             (total_supply s asset_id)) (\<lambda>delta_index.
                    ok_or (checked_add (rm_index supply_state) delta_index) (Arithmetic Overflow))
                  else Inr (rm_index supply_state)) (\<lambda>index.
           Inr (s\<lparr>reward_supply_state := (reward_supply_state s)(asset_id :=
                   \<lparr>rm_index = index, rm_block = current_block_number\<rparr>)\<rparr>)))"

definition base_borrow_amount ::
    "'l loans_config \<Rightarrow> 'l loans_state \<Rightarrow> currency_id \<Rightarrow> balance \<Rightarrow> loans_dispatch_error + balance" where
  "base_borrow_amount C s asset_id amount =
     ok_or (Option.bind (fx_reciprocal (lc_arith C) (borrow_index s asset_id))
              (\<lambda>r. fx_checked_mul_int (lc_arith C) r amount)) (Arithmetic Overflow)"

definition update_reward_borrow_index ::
    "'l loans_config \<Rightarrow> 'l loans_state \<Rightarrow> currency_id \<Rightarrow> loans_dispatch_error + 'l loans_state" where
  "update_reward_borrow_index C s asset_id =
     (let current_block_number = lc_block C;
          borrow_state = reward_borrow_state s asset_id;
          delta_block = saturating_sub current_block_number (rm_block borrow_state)
      in if delta_block = 0 then Inr s
         else
           bindE (if reward_borrow_speed s asset_id \<noteq> 0 then
                    bindE (base_borrow_amount C s asset_id (total_borrows s asset_id)) (\<lambda>base_amount.
                    bindE (calculate_reward_delta_index delta_block (reward_borrow_speed s asset_id)
                             base_amount) (\<lambda>delta_index.
                    ok_or (checked_add (rm_index borrow_state) delta_index) (Arithmetic Overflow)))
                  else Inr (rm_index borrow_state)) (\<lambda>index.
           Inr (s\<lparr>reward_borrow_state := (reward_borrow_state s)(asset_id :=
                   \<lparr>rm_index = index, rm_block = current_block_number\<rparr>)\<rparr>)))"

definition distribute_supplier_reward ::
    "'l loans_state \<Rightarrow> currency_id \<Rightarrow> account_id \<Rightarrow> loans_dispatch_error + 'l loans_state" where
  "distribute_supplier_reward s asset_id supplier =
     (let supply_state = reward_supply_state s asset_id in
      bindE (ok_or (checked_sub (rm_index supply_state) (reward_supplier_index s asset_id supplier))
              (Arithmetic Underflow)) (\<lambda>delta_index.
      let supplier_amount = voucher_balance (get_deposits s asset_id supplier) in
      bindE (calculate_reward_delta supplier_amount delta_index) (\<lambda>reward_delta.
      bindE (ok_or (checked_add (reward_accrued s supplier) reward_delta) (Arithmetic Overflow)) (\<lambda>total_reward.
      Inr (deposit_event
            (DistributedSupplierReward asset_id supplier reward_delta (rm_index supply_state))
            (s\<lparr>reward_supplier_index := (reward_supplier_index s)(asset_id :=
                 (reward_supplier_index s asset_id)(supplier := rm_index supply_state)),
               reward_accrued := (reward_accrued s)(supplier := total_reward)\<rparr>))))))"

definition distribute_borrower_reward ::
    "'l loans_config \<Rightarrow> 'l loans_state \<Rightarrow> currency_id \<Rightarrow> account_id
     \<Rightarrow> loans_dispatch_error + 'l loans_state" where
  "distribute_borrower_reward C s asset_id borrower =
     (let borrow_state = reward_borrow_state s asset_id in
      bindE (ok_or (checked_sub (rm_index borrow_state) (reward_borrower_index s asset_id borrower))
              (Arithmetic Underflow)) (\<lambda>delta_index.
      bindE (current_borrow_balance C s borrower asset_id) (\<lambda>current_borrow_amount.
      bindE (base_borrow_amount C s asset_id current_borrow_amount) (\<lambda>base_amount.
      bindE (calculate_reward_delta base_amount delta_index) (\<lambda>reward_delta.
      bindE (ok_or (checked_add (reward_accrued s borrower) reward_delta) (Arithmetic Overflow)) (\<lambda>total_reward.
      Inr (deposit_event
            (DistributedBorrowerReward asset_id borrower reward_delta (rm_index borrow_state))
            (s\<lparr>reward_borrower_index := (reward_borrower_index s)(asset_id :=
                 (reward_borrower_index s asset_id)(borrower := rm_index borrow_state)),
               reward_accrued := (reward_accrued s)(borrower := total_reward)\<rparr>))))))))"

definition collect_market_reward ::
    "'l loans_config \<Rightarrow> 'l loans_state \<Rightarrow> currency_id \<Rightarrow> account_id
     \<Rightarrow> loans_dispatch_error + 'l loans_state" where
  "collect_market_reward C s asset_id user =
     bindE (update_reward_supply_index C s asset_id) (\<lambda>s.
     bindE (distribute_supplier_reward s asset_id user) (\<lambda>s.
     bindE (update_reward_borrow_index C s asset_id) (\<lambda>s.
     distribute_borrower_reward C s asset_id user)))"

definition pay_reward ::
    "'l loans_config \<Rightarrow> 'l loans_state \<Rightarrow> account_id \<Rightarrow> loans_dispatch_error + 'l loans_state" where
  "pay_reward C s user =
     bindE (reward_account_id C) (\<lambda>pool_account.
     let reward_asset = lc_reward_asset C;
         total_reward = reward_accrued s user
     in
     bindE (if total_reward > 0 then
              bindE (transfer_assets C s reward_asset pool_account user total_reward True) (\<lambda>s.
              Inr (s\<lparr>reward_accrued := (reward_accrued s)(user := 0)\<rparr>))
            else Inr s) (\<lambda>s.
     Inr (deposit_event (RewardPaid user total_reward) s)))"

section \<open>What reward bookkeeping can change\<close>

definition rewards_only :: "'l loans_state \<Rightarrow> 'l loans_state \<Rightarrow> bool" where
  "rewards_only s s' \<longleftrightarrow>
     last_accrued_interest_time s' = last_accrued_interest_time s \<and>
     liquidation_free_collaterals s' = liquidation_free_collaterals s \<and>
     total_supply s' = total_supply s \<and> total_borrows s' = total_borrows s \<and>
     total_reserves s' = total_reserves s \<and> account_borrows s' = account_borrows s \<and>
     account_deposits s' = account_deposits s \<and> account_earned s' = account_earned s \<and>
     borrow_index s' = borrow_index s \<and> exchange_rate s' = exchange_rate s \<and>
     borrow_rate s' = borrow_rate s \<and> supply_rate s' = supply_rate s \<and>
     utilization_ratio s' = utilization_ratio s \<and> markets s' = markets s \<and>
     underlying_asset_id s' = underlying_asset_id s \<and>
     reward_supply_speed s' = reward_supply_speed s \<and>
     reward_borrow_speed s' = reward_borrow_speed s \<and> ledger s' = ledger s"

lemma rewards_only_refl [simp]: "rewards_only s s"
  by (simp add: rewards_only_def)

lemma rewards_only_trans: "rewards_only s t \<Longrightarrow> rewards_only t u \<Longrightarrow> rewards_only s u"
  by (simp add: rewards_only_def)

lemma rewards_only_event [simp]: "rewards_only s (deposit_event e s)"
  by (simp add: rewards_only_def deposit_event_def)

lemma rewards_onlyD:
  assumes "rewards_only s s'"
  shows "last_accrued_interest_time s' = last_accrued_interest_time s"
    "liquidation_free_collaterals s' = liquidation_free_collaterals s"
    "total_supply s' = total_supply s" "total_borrows s' = total_borrows s"
    "total_reserves s' = total_reserves s" "account_borrows s' = account_borrows s"
    "account_deposits s' = account_deposits s" "account_earned s' = account_earned s"
    "borrow_index s' = borrow_index s" "exchange_rate s' = exchange_rate s"
    "markets s' = markets s" "underlying_asset_id s' = underlying_asset_id s" "ledger s' = ledger s"
    "reward_supply_speed s' = reward_supply_speed s" "reward_borrow_speed s' = reward_borrow_speed s"
  using assms by (simp_all add: rewards_only_def)

lemma update_reward_supply_index_only [frame_dest]:
  "update_reward_supply_index C s a = Inr s' \<Longrightarrow> rewards_only s s'"
  by (auto simp: update_reward_supply_index_def Let_def rewards_only_def split: if_splits)

lemma update_reward_borrow_index_only [frame_dest]:
  "update_reward_borrow_index C s a = Inr s' \<Longrightarrow> rewards_only s s'"
  by (auto simp: update_reward_borrow_index_def Let_def rewards_only_def split: if_splits)

lemma distribute_supplier_reward_only [frame_dest]:
  "distribute_supplier_reward s a w = Inr s' \<Longrightarrow> rewards_only s s'"
  by (auto simp: distribute_supplier_reward_def Let_def rewards_only_def deposit_event_def)

lemma distribute_borrower_reward_only [frame_dest]:
  "distribute_borrower_reward C s a w = Inr s' \<Longrightarrow> rewards_only s s'"
  by (auto simp: distribute_borrower_reward_def Let_def rewards_only_def deposit_event_def)

lemma collect_market_reward_only [frame_dest]:
  assumes "collect_market_reward C s a w = Inr s'"
  shows "rewards_only s s'"
  using assms unfolding collect_market_reward_def
  by (elim bindE_InrE) (meson rewards_only_trans update_reward_supply_index_only
      update_reward_borrow_index_only distribute_supplier_reward_only distribute_borrower_reward_only)

lemma current_borrow_balance_cong:
  assumes "account_borrows s' = account_borrows s" and "borrow_index s' a = borrow_index s a"
  shows "current_borrow_balance C s' w a = current_borrow_balance C s w a"
  using assms by (simp add: current_borrow_balance_def Let_def)

section \<open>Indexes\<close>

lemma update_reward_supply_indexD:
  assumes "update_reward_supply_index C s a = Inr s'"
  shows "rm_index (reward_supply_state s a) \<le> rm_index (reward_supply_state s' a)"
    and "b \<noteq> a \<Longrightarrow> reward_supply_state s' b = reward_supply_state s b"
    and "reward_accrued s' = reward_accrued s"
    and "reward_supplier_index s' = reward_supplier_index s"
    and "lc_block C \<le> rm_block (reward_supply_state s' a)"
  using assms by (auto simp: update_reward_supply_index_def Let_def split: if_splits)

text \<open>A second update in the same block does nothing, so the order of operations inside a block
  cannot be used to count a block's reward twice.\<close>

lemma update_reward_supply_index_again:
  assumes "lc_block C \<le> rm_block (reward_supply_state s a)"
  shows "update_reward_supply_index C s a = Inr s"
  using assms by (simp add: update_reward_supply_index_def)

lemma distribute_supplier_rewardD:
  assumes "distribute_supplier_reward s a w = Inr s'"
  shows "reward_supplier_index s' a w = rm_index (reward_supply_state s a)"
    and "reward_supply_state s' = reward_supply_state s"
    and "reward_accrued s' w = reward_accrued s w +
           voucher_balance (get_deposits s a w) *
             (rm_index (reward_supply_state s a) - reward_supplier_index s a w) div reward_scale"
    and "v \<noteq> w \<Longrightarrow> reward_accrued s' v = reward_accrued s v"
  using assms by (auto simp: distribute_supplier_reward_def Let_def calculate_reward_delta_def)

lemma distribute_supplier_reward_again:
  assumes "reward_supplier_index s a w = rm_index (reward_supply_state s a)"
    and "distribute_supplier_reward s a w = Inr s'"
  shows "reward_accrued s' = reward_accrued s"
  using assms by (auto simp: distribute_supplier_reward_def Let_def calculate_reward_delta_def)

lemma reward_scale_pos [simp]: "0 < reward_scale"
  by (simp add: reward_scale_def)

text \<open>The sum of what the suppliers of a market are credited for an index step is at most what the
  market emits over the blocks of that step.\<close>

lemma share_sum_le:
  assumes "finite W" and "(\<Sum>w\<in>W. share w) \<le> tot"
  shows "(\<Sum>w\<in>W. share w * (n * reward_scale div tot) div reward_scale) \<le> (n::nat)"
proof (cases "tot = 0")
  case True
  then show ?thesis by simp
next
  case False
  let ?i = "n * reward_scale div tot"
  have "(\<Sum>w\<in>W. share w * ?i div reward_scale) * reward_scale
      = (\<Sum>w\<in>W. share w * ?i div reward_scale * reward_scale)" by (simp add: sum_distrib_right)
  also have "\<dots> \<le> (\<Sum>w\<in>W. share w * ?i)" by (intro sum_mono div_mult_le_nat)
  also have "\<dots> = (\<Sum>w\<in>W. share w) * ?i" by (simp add: sum_distrib_right)
  also have "\<dots> \<le> tot * ?i" using assms(2) by (rule mult_le_mono1)
  also have "\<dots> \<le> n * reward_scale" using div_mult_le_nat [of "n * reward_scale" tot]
    by (simp add: mult.commute)
  finally show ?thesis by simp
qed

end
