(* ===== verification/Loans_Position.thy ===== *)
theory Loans_Position
  imports Loans_Farming
begin

text \<open>
  Values and positions (the read-only half of \<open>impl Pallet\<close> of src/pallets/loans/src/lib.rs):
  prices and asset values, the collateral and the debt of an account over all active markets, its
  liquidity or shortfall, and the guards the operations call before they change anything.

  The iteration over active markets is a fold with early return; the lemmas show that it computes a
  sum, and that the two liquidity computations split the difference of two totals into a surplus and
  a deficit of which at most one is positive.
\<close>

definition get_price :: "'l loans_config \<Rightarrow> currency_id \<Rightarrow> loans_dispatch_error + rate" where
  "get_price C asset_id =
     bindE (ok_or (lc_price_feeder C asset_id) (Module PriceOracleNotReady)) (\<lambda>(price, _).
     if price = 0 then Inl (Module PriceIsZero) else Inr price)"

definition get_asset_value ::
    "'l loans_config \<Rightarrow> currency_id \<Rightarrow> balance \<Rightarrow> loans_dispatch_error + rate" where
  "get_asset_value C asset_id amount =
     bindE (get_price C asset_id) (\<lambda>price.
     ok_or (fx_checked_mul (lc_arith C) price amount) (Arithmetic Overflow))"

definition calc_underlying_amount ::
    "'l loans_config \<Rightarrow> balance \<Rightarrow> rate \<Rightarrow> loans_dispatch_error + balance" where
  "calc_underlying_amount C voucher_amount e_rate =
     ok_or (fx_checked_mul_int (lc_arith C) e_rate voucher_amount) (Arithmetic Overflow)"

definition calc_collateral_amount ::
    "'l loans_config \<Rightarrow> balance \<Rightarrow> rate \<Rightarrow> loans_dispatch_error + balance" where
  "calc_collateral_amount C underlying_amount e_rate =
     ok_or (fx_checked_div (lc_arith C) underlying_amount e_rate) (Arithmetic Underflow)"

definition current_collateral_balance ::
    "'l loans_config \<Rightarrow> 'l loans_state \<Rightarrow> account_id \<Rightarrow> currency_id \<Rightarrow> loans_dispatch_error + balance" where
  "current_collateral_balance C s supplier asset_id =
     (if account_deposits s asset_id supplier = None then Inr 0
      else let d = get_deposits s asset_id supplier in
        if \<not> is_collateral d then Inr 0
        else if voucher_balance d = 0 then Inr 0
        else
          bindE (exchange_rate_stored C s asset_id) (\<lambda>e_rate.
          bindE (calc_underlying_amount C (voucher_balance d) e_rate) (\<lambda>underlying_amount.
          bindE (market_of s asset_id) (\<lambda>m.
          Inr (pm_mul_ceil (lc_arith C) (collateral_factor m) underlying_amount)))))"

definition collateral_asset_value ::
    "'l loans_config \<Rightarrow> 'l loans_state \<Rightarrow> account_id \<Rightarrow> currency_id \<Rightarrow> loans_dispatch_error + rate" where
  "collateral_asset_value C s supplier asset_id =
     bindE (current_collateral_balance C s supplier asset_id) (\<lambda>effects_amount.
     get_asset_value C asset_id effects_amount)"

definition liquidation_threshold_asset_value ::
    "'l loans_config \<Rightarrow> 'l loans_state \<Rightarrow> account_id \<Rightarrow> currency_id \<Rightarrow> loans_dispatch_error + rate" where
  "liquidation_threshold_asset_value C s borrower asset_id =
     (if account_deposits s asset_id borrower = None then Inr 0
      else let d = get_deposits s asset_id borrower in
        if \<not> is_collateral d then Inr 0
        else if voucher_balance d = 0 then Inr 0
        else
          bindE (exchange_rate_stored C s asset_id) (\<lambda>e_rate.
          bindE (calc_underlying_amount C (voucher_balance d) e_rate) (\<lambda>underlying_amount.
          bindE (market_of s asset_id) (\<lambda>m.
          get_asset_value C asset_id
            (pm_mul_ceil (lc_arith C) (liquidation_threshold m) underlying_amount)))))"

definition add_value :: "'l loans_config \<Rightarrow> rate \<Rightarrow> rate \<Rightarrow> loans_dispatch_error + rate" where
  "add_value C acc v = ok_or (fx_checked_add (lc_arith C) acc v) (Arithmetic Overflow)"

definition get_lf_borrowed_value ::
    "'l loans_config \<Rightarrow> 'l loans_state \<Rightarrow> account_id \<Rightarrow> loans_dispatch_error + rate" where
  "get_lf_borrowed_value C s account =
     bindE (current_borrow_balance C s account (lc_lf_asset C)) (\<lambda>lf_borrowed_amount.
     get_asset_value C (lc_lf_asset C) lf_borrowed_amount)"

definition get_lf_base_position ::
    "'l loans_config \<Rightarrow> 'l loans_state \<Rightarrow> account_id \<Rightarrow> loans_dispatch_error + rate" where
  "get_lf_base_position C s account =
     foldE (\<lambda>(asset_id, _) acc.
         bindE (collateral_asset_value C s account asset_id) (\<lambda>v. add_value C acc v))
       (filter (\<lambda>(asset_id, _). asset_id \<in> set (liquidation_free_collaterals s)) (active_markets C s)) 0"

definition get_lf_liquidation_base_position ::
    "'l loans_config \<Rightarrow> 'l loans_state \<Rightarrow> account_id \<Rightarrow> loans_dispatch_error + rate" where
  "get_lf_liquidation_base_position C s account =
     foldE (\<lambda>(asset_id, _) acc.
         bindE (liquidation_threshold_asset_value C s account asset_id) (\<lambda>v. add_value C acc v))
       (filter (\<lambda>(asset_id, _). asset_id \<in> set (liquidation_free_collaterals s)) (active_markets C s)) 0"

definition total_borrowed_value ::
    "'l loans_config \<Rightarrow> 'l loans_state \<Rightarrow> account_id \<Rightarrow> loans_dispatch_error + rate" where
  "total_borrowed_value C s borrower =
     foldE (\<lambda>(asset_id, _) acc.
         bindE (current_borrow_balance C s borrower asset_id) (\<lambda>currency_borrow_amount.
         if currency_borrow_amount = 0 then Inr acc
         else bindE (get_asset_value C asset_id currency_borrow_amount) (\<lambda>v. add_value C v acc)))
       (active_markets C s) 0"

definition total_collateral_value ::
    "'l loans_config \<Rightarrow> 'l loans_state \<Rightarrow> account_id \<Rightarrow> loans_dispatch_error + rate" where
  "total_collateral_value C s supplier =
     foldE (\<lambda>(asset_id, _) acc.
         bindE (collateral_asset_value C s supplier asset_id) (\<lambda>v. add_value C acc v))
       (active_markets C s) 0"

definition total_liquidation_threshold_value ::
    "'l loans_config \<Rightarrow> 'l loans_state \<Rightarrow> account_id \<Rightarrow> loans_dispatch_error + rate" where
  "total_liquidation_threshold_value C s borrower =
     foldE (\<lambda>(asset_id, _) acc.
         bindE (liquidation_threshold_asset_value C s borrower asset_id) (\<lambda>v. add_value C acc v))
       (active_markets C s) 0"

text \<open>
  The \<open>match\<close> at the end of both liquidity computations.  The fixed-point subtraction panics when it
  would go below zero, so each arm carries its own possible panic.
\<close>

definition liquidity_match ::
    "'l loans_config \<Rightarrow> rate \<Rightarrow> rate \<Rightarrow> rate \<Rightarrow> rate \<Rightarrow> loans_dispatch_error + (rate \<times> rate \<times> rate \<times> rate)" where
  "liquidity_match C total_borrow_value collateral_value lf_borrowed_value lf_base_position =
     (let minus = (\<lambda>x y. ok_or (fx_sub (lc_arith C) x y) Panic) in
      case (collateral_value > total_borrow_value, lf_base_position > lf_borrowed_value) of
        (True, True) \<Rightarrow>
          bindE (minus collateral_value total_borrow_value) (\<lambda>x.
          bindE (minus lf_base_position lf_borrowed_value) (\<lambda>y. Inr (x, 0, y, 0)))
      | (True, False) \<Rightarrow>
          bindE (minus collateral_value total_borrow_value) (\<lambda>x.
          bindE (minus lf_borrowed_value lf_base_position) (\<lambda>y. Inr (x, 0, 0, y)))
      | (False, True) \<Rightarrow>
          bindE (minus total_borrow_value collateral_value) (\<lambda>x.
          bindE (minus lf_base_position lf_borrowed_value) (\<lambda>y. Inr (0, x, y, 0)))
      | (False, False) \<Rightarrow>
          bindE (minus total_borrow_value collateral_value) (\<lambda>x.
          bindE (minus lf_borrowed_value lf_base_position) (\<lambda>y. Inr (0, x, 0, y))))"

definition get_account_liquidity ::
    "'l loans_config \<Rightarrow> 'l loans_state \<Rightarrow> account_id \<Rightarrow> loans_dispatch_error + (rate \<times> rate \<times> rate \<times> rate)" where
  "get_account_liquidity C s account =
     bindE (total_borrowed_value C s account) (\<lambda>total_borrow_value.
     bindE (total_collateral_value C s account) (\<lambda>collateral_value.
     bindE (get_lf_borrowed_value C s account) (\<lambda>lf_borrowed_value.
     bindE (get_lf_base_position C s account) (\<lambda>lf_base_position.
     liquidity_match C total_borrow_value collateral_value lf_borrowed_value lf_base_position))))"

definition get_account_liquidation_threshold_liquidity ::
    "'l loans_config \<Rightarrow> 'l loans_state \<Rightarrow> account_id \<Rightarrow> loans_dispatch_error + (rate \<times> rate \<times> rate \<times> rate)" where
  "get_account_liquidation_threshold_liquidity C s account =
     bindE (total_borrowed_value C s account) (\<lambda>total_borrow_value.
     bindE (total_liquidation_threshold_value C s account) (\<lambda>collateral_value.
     bindE (get_lf_borrowed_value C s account) (\<lambda>lf_borrowed_value.
     bindE (get_lf_liquidation_base_position C s account) (\<lambda>lf_base_position.
     liquidity_match C total_borrow_value collateral_value lf_borrowed_value lf_base_position))))"

definition ensure_under_supply_cap ::
    "'l loans_config \<Rightarrow> 'l loans_state \<Rightarrow> currency_id \<Rightarrow> balance \<Rightarrow> loans_dispatch_error + unit" where
  "ensure_under_supply_cap C s asset_id amount =
     bindE (market_of s asset_id) (\<lambda>m.
     let current_cash = ft_balance (lc_assets C) (ledger s) asset_id (account_id C) in
     bindE (ok_or (checked_add current_cash amount) (Arithmetic Overflow)) (\<lambda>total_cash.
     ensure (total_cash \<le> supply_cap m) (Module SupplyCapacityExceeded)))"

definition ensure_under_borrow_cap ::
    "'l loans_state \<Rightarrow> currency_id \<Rightarrow> balance \<Rightarrow> loans_dispatch_error + unit" where
  "ensure_under_borrow_cap s asset_id amount =
     bindE (market_of s asset_id) (\<lambda>m.
     bindE (ok_or (checked_add (total_borrows s asset_id) amount) (Arithmetic Overflow)) (\<lambda>new_total_borrows.
     ensure (new_total_borrows \<le> borrow_cap m) (Module BorrowCapacityExceeded)))"

definition ensure_enough_cash ::
    "'l loans_config \<Rightarrow> 'l loans_state \<Rightarrow> currency_id \<Rightarrow> balance \<Rightarrow> loans_dispatch_error + unit" where
  "ensure_enough_cash C s asset_id amount =
     bindE (ok_or (checked_sub (get_total_cash C s asset_id) (total_reserves s asset_id))
             (Arithmetic Underflow)) (\<lambda>reducible_cash.
     if reducible_cash < amount then Inl (Module InsufficientCash) else Inr ())"

definition ensure_ptoken :: "'l loans_state \<Rightarrow> currency_id \<Rightarrow> loans_dispatch_error + unit" where
  "ensure_ptoken s ptoken_id =
     bindE (ensure (underlying_asset_id s ptoken_id = None) (Module InvalidPtokenId)) (\<lambda>_.
     bindE (ensure (markets s ptoken_id = None) (Module InvalidPtokenId)) (\<lambda>_. Inr ()))"

definition ensure_liquidity ::
    "'l loans_config \<Rightarrow> 'l loans_state \<Rightarrow> account_id \<Rightarrow> rate \<Rightarrow> bool \<Rightarrow> loans_dispatch_error + unit" where
  "ensure_liquidity C s account reduce_amount lf_enable =
     bindE (get_account_liquidity C s account) (\<lambda>(total_liquidity, _, lf_liquidity, _).
     if lf_enable \<and> max total_liquidity lf_liquidity \<ge> reduce_amount then Inr ()
     else if \<not> lf_enable then
       bindE (ok_or (fx_add (lc_arith C) lf_liquidity reduce_amount) Panic) (\<lambda>needed.
       if total_liquidity \<ge> needed then Inr () else Inl (Module InsufficientLiquidity))
     else Inl (Module InsufficientLiquidity))"

definition redeem_allowed ::
    "'l loans_config \<Rightarrow> 'l loans_state \<Rightarrow> currency_id \<Rightarrow> account_id \<Rightarrow> balance \<Rightarrow> loans_dispatch_error + unit" where
  "redeem_allowed C s asset_id redeemer voucher_amount =
     (let deposit = get_deposits s asset_id redeemer in
      if voucher_balance deposit < voucher_amount then Inl (Module InsufficientDeposit)
      else
        bindE (exchange_rate_stored C s asset_id) (\<lambda>e_rate.
        bindE (calc_underlying_amount C voucher_amount e_rate) (\<lambda>redeem_amount.
        bindE (ensure_enough_cash C s asset_id redeem_amount) (\<lambda>_.
        if \<not> is_collateral deposit then Inr ()
        else
          bindE (market_of s asset_id) (\<lambda>m.
          let effects_amount = pm_mul_ceil (lc_arith C) (collateral_factor m) redeem_amount in
          bindE (get_asset_value C asset_id effects_amount) (\<lambda>redeem_effects_value.
          ensure_liquidity C s redeemer redeem_effects_value
            (asset_id \<in> set (liquidation_free_collaterals s))))))))"

definition borrow_allowed ::
    "'l loans_config \<Rightarrow> 'l loans_state \<Rightarrow> currency_id \<Rightarrow> account_id \<Rightarrow> balance \<Rightarrow> loans_dispatch_error + unit" where
  "borrow_allowed C s asset_id borrower borrow_amount =
     bindE (ensure_under_borrow_cap s asset_id borrow_amount) (\<lambda>_.
     bindE (ensure_enough_cash C s asset_id borrow_amount) (\<lambda>_.
     bindE (get_asset_value C asset_id borrow_amount) (\<lambda>borrow_value.
     ensure_liquidity C s borrower borrow_value (asset_id = lc_lf_asset C))))"

definition liquidate_borrow_allowed ::
    "'l loans_config \<Rightarrow> 'l loans_state \<Rightarrow> account_id \<Rightarrow> currency_id \<Rightarrow> balance \<Rightarrow> market
     \<Rightarrow> loans_dispatch_error + unit" where
  "liquidate_borrow_allowed C s borrower liquidation_asset_id repay_amount m =
     bindE (get_account_liquidation_threshold_liquidity C s borrower)
       (\<lambda>(liquidity, shortfall, lf_liquidity, _).
     if shortfall = 0 \<and> liquidity \<ge> lf_liquidity then Inl (Module InsufficientShortfall)
     else
       bindE (current_borrow_balance C s borrower liquidation_asset_id) (\<lambda>borrows.
       bindE (get_asset_value C liquidation_asset_id borrows) (\<lambda>borrows_value.
       bindE (get_asset_value C liquidation_asset_id repay_amount) (\<lambda>repay_value.
       bindE (if liquidation_asset_id = lc_lf_asset C then
                bindE (get_lf_base_position C s borrower) (\<lambda>base_position.
                if borrows_value > base_position
                then ok_or (fx_sub (lc_arith C) borrows_value base_position) Panic
                else Inr 0)
              else Inr borrows_value) (\<lambda>effects_borrows_value.
       if pm_mul_ceil (lc_arith C) (close_factor m) effects_borrows_value < repay_value
       then Inl (Module TooMuchRepay) else Inr ())))))"

section \<open>Sums over the active markets\<close>

lemma foldE_add_value:
  assumes "sp_arith_laws (lc_arith C)"
    and "foldE (\<lambda>(a, m) acc. bindE (g a) (\<lambda>v. add_value C acc v)) xs acc = Inr t"
  shows "t = acc + (\<Sum>(a, m)\<leftarrow>xs. projr (g a)) \<and> (\<forall>(a, m)\<in>set xs. \<exists>v. g a = Inr v)"
  using assms(2)
proof (induction xs arbitrary: acc)
  case Nil
  then show ?case by simp
next
  case (Cons x xs)
  obtain a m where x: "x = (a, m)" by fastforce
  from Cons.prems obtain v where v: "g a = Inr v"
    "foldE (\<lambda>(a, m) acc. bindE (g a) (\<lambda>v. add_value C acc v)) xs (acc + v) = Inr t"
    by (auto simp: x add_value_def fx_simps [OF assms(1)])
  from Cons.IH [OF v(2)] v(1) show ?case by (simp add: x)
qed

text \<open>The debt of an account in one market, and its value, as the folds see them.\<close>

definition borrowed_value_in ::
    "'l loans_config \<Rightarrow> 'l loans_state \<Rightarrow> account_id \<Rightarrow> currency_id \<Rightarrow> loans_dispatch_error + rate" where
  "borrowed_value_in C s w a =
     bindE (current_borrow_balance C s w a) (\<lambda>b. if b = 0 then Inr 0 else get_asset_value C a b)"

lemma foldE_cong_set:
  assumes "\<And>x acc. x \<in> set xs \<Longrightarrow> f x acc = g x acc"
  shows "foldE f xs acc = foldE g xs acc"
  using assms by (induction xs arbitrary: acc) (simp_all cong: bindE_cong)

lemma total_borrowed_value_step:
  assumes "sp_arith_laws (lc_arith C)" and "acc \<le> u128_max"
  shows "bindE (current_borrow_balance C s w a) (\<lambda>b. if b = 0 then Inr acc
            else bindE (get_asset_value C a b) (\<lambda>v. add_value C v acc))
       = bindE (borrowed_value_in C s w a) (\<lambda>v. add_value C acc v)"
  using assms
  by (cases "current_borrow_balance C s w a")
    (auto simp: borrowed_value_in_def add_value_def fx_simps [OF assms(1)] checked_add_def add.commute
      intro!: bindE_cong)

lemma total_borrowed_value_fold:
  assumes "sp_arith_laws (lc_arith C)"
  shows "foldE (\<lambda>(a, m) acc. bindE (current_borrow_balance C s w a) (\<lambda>b. if b = 0 then Inr acc
            else bindE (get_asset_value C a b) (\<lambda>v. add_value C v acc))) xs acc = Inr t \<Longrightarrow>
    acc \<le> u128_max \<Longrightarrow>
    foldE (\<lambda>(a, m) acc. bindE (borrowed_value_in C s w a) (\<lambda>v. add_value C acc v)) xs acc = Inr t"
proof (induction xs arbitrary: acc)
  case Nil
  then show ?case by simp
next
  case (Cons x xs)
  obtain a m where x: "x = (a, m)" by fastforce
  from Cons.prems obtain acc' where
    acc': "bindE (borrowed_value_in C s w a) (\<lambda>v. add_value C acc v) = Inr acc'" and
    rest: "foldE (\<lambda>(a, m) acc. bindE (current_borrow_balance C s w a) (\<lambda>b. if b = 0 then Inr acc
            else bindE (get_asset_value C a b) (\<lambda>v. add_value C v acc))) xs acc' = Inr t"
    by (auto simp: x total_borrowed_value_step [OF assms] simp del: bindE_InrE elim!: bindE_InrE)
  from acc' have "acc' \<le> u128_max" by (auto simp: add_value_def fx_simps [OF assms])
  with Cons.IH [OF rest] acc' show ?case by (simp add: x)
qed

lemma total_borrowed_value_sum:
  assumes "sp_arith_laws (lc_arith C)" and "total_borrowed_value C s w = Inr t"
  shows "t = (\<Sum>(a, m)\<leftarrow>active_markets C s. projr (borrowed_value_in C s w a)) \<and>
    (\<forall>(a, m)\<in>set (active_markets C s). \<exists>v. borrowed_value_in C s w a = Inr v)"
proof -
  from assms(2) have "foldE (\<lambda>(a, m) acc. bindE (borrowed_value_in C s w a) (\<lambda>v. add_value C acc v))
      (active_markets C s) 0 = Inr t"
    unfolding total_borrowed_value_def by (intro total_borrowed_value_fold [OF assms(1)]) auto
  from foldE_add_value [OF assms(1) this] show ?thesis by simp
qed

lemma total_collateral_value_sum:
  assumes "sp_arith_laws (lc_arith C)" and "total_collateral_value C s w = Inr t"
  shows "t = (\<Sum>(a, m)\<leftarrow>active_markets C s. projr (collateral_asset_value C s w a)) \<and>
    (\<forall>(a, m)\<in>set (active_markets C s). \<exists>v. collateral_asset_value C s w a = Inr v)"
  using foldE_add_value [OF assms(1)] assms(2) unfolding total_collateral_value_def by fastforce

section \<open>Liquidity\<close>

lemma liquidity_match_eq:
  assumes "sp_arith_laws (lc_arith C)"
  shows "liquidity_match C b c lb lc = Inr (c - b, b - c, lc - lb, lb - lc)"
  by (auto simp: liquidity_match_def Let_def fx_simps [OF assms] checked_sub_def)

lemma get_account_liquidityD:
  assumes "sp_arith_laws (lc_arith C)" and "get_account_liquidity C s w = Inr (x, y, z, u)"
  obtains b c lb lc where "total_borrowed_value C s w = Inr b" "total_collateral_value C s w = Inr c"
    "get_lf_borrowed_value C s w = Inr lb" "get_lf_base_position C s w = Inr lc"
    "x = c - b" "y = b - c" "z = lc - lb" "u = lb - lc"
  using assms(2) that by (auto simp: get_account_liquidity_def liquidity_match_eq [OF assms(1)])

text \<open>What the liquidity check has compared: in the liquidation free mode the larger of the two liquidities
  of the account, otherwise the liquidity that is left beside the liquidation free one.  A positive amount that
  passes outside the liquidation free mode is therefore covered by collateral.\<close>

definition within_liquidity :: "bool \<Rightarrow> rate \<Rightarrow> rate \<Rightarrow> rate \<Rightarrow> rate \<Rightarrow> rate \<Rightarrow> bool" where
  "within_liquidity lf b c lb lp r \<longleftrightarrow> (if lf then r \<le> max (c - b) (lp - lb) else (lp - lb) + r \<le> c - b)"

lemma ensure_liquidity_within:
  assumes "sp_arith_laws (lc_arith C)" and "ensure_liquidity C s w r lf = Inr u"
  obtains b c lb lp where "total_borrowed_value C s w = Inr b" "total_collateral_value C s w = Inr c"
    "get_lf_borrowed_value C s w = Inr lb" "get_lf_base_position C s w = Inr lp" "within_liquidity lf b c lb lp r"
proof -
  from assms(2) obtain x y z v where l: "get_account_liquidity C s w = Inr (x, y, z, v)"
    and le: "if lf then r \<le> max x z else z + r \<le> x"
    by (auto simp: ensure_liquidity_def fx_simps [OF assms(1)] checked_add_def split: if_splits)
  from l show ?thesis
    by (rule get_account_liquidityD [OF assms(1)]) (use le in \<open>auto simp: within_liquidity_def intro: that\<close>)
qed

lemma within_liquidity_covers: "within_liquidity False b c lb lp r \<Longrightarrow> 0 < r \<Longrightarrow> b + r \<le> c"
  by (simp add: within_liquidity_def)

end
