(* ===== verification/Loans_Ops.thy ===== *)
theory Loans_Ops
  imports Loans_Position
begin

text \<open>
  The operations that change positions: the \<open>do_\<close> functions of src/pallets/loans/src/lib.rs (the
  \<open>LoansTrait\<close> implementation, redemption, repayment and liquidation).

  Each operation is the whole function: guards in the order of the code, the accrual and reward
  bookkeeping it triggers, every storage write and token transfer, the events.
\<close>

definition incentive_reward_account_id :: "'l loans_config \<Rightarrow> loans_dispatch_error + account_id" where
  "incentive_reward_account_id C =
     ok_or (lc_derive_account C ''loans/incentive'' (lc_pallet_account C)) (Module CodecError)"

definition update_earned_stored ::
    "'l loans_config \<Rightarrow> 'l loans_state \<Rightarrow> account_id \<Rightarrow> currency_id \<Rightarrow> rate
     \<Rightarrow> loans_dispatch_error + 'l loans_state" where
  "update_earned_stored C s who asset_id e_rate =
     (let d = get_deposits s asset_id who;
          earned = account_earned s asset_id who
      in
      bindE (ok_or (Option.bind (fx_checked_sub (lc_arith C) e_rate (es_exchange_rate_prior earned)) (\<lambda>r.
                    Option.bind (fx_checked_mul_int (lc_arith C) r (voucher_balance d)) (\<lambda>r.
                    checked_add r (es_total_earned_prior earned)))) (Arithmetic Overflow)) (\<lambda>total_earned_prior_new.
      Inr (s\<lparr>account_earned := (account_earned s)(asset_id := (account_earned s asset_id)(who :=
              \<lparr>es_total_earned_prior = total_earned_prior_new, es_exchange_rate_prior = e_rate\<rparr>))\<rparr>)))"

text \<open>\<open>AccountDeposits::try_mutate_exists\<close> as redemption and ptoken transfer use it: the entry is
  removed when its balance becomes zero.\<close>

definition withdraw_voucher ::
    "'l loans_state \<Rightarrow> currency_id \<Rightarrow> account_id \<Rightarrow> balance \<Rightarrow> loans_dispatch_error + 'l loans_state" where
  "withdraw_voucher s asset_id who amount =
     (let d = get_deposits s asset_id who in
      bindE (ok_or (checked_sub (voucher_balance d) amount) (Arithmetic Underflow)) (\<lambda>b.
      if b = 0 then Inr (put_deposits asset_id who None s)
      else Inr (put_deposits asset_id who (Some (d\<lparr>voucher_balance := b\<rparr>)) s)))"

definition add_voucher ::
    "'l loans_state \<Rightarrow> currency_id \<Rightarrow> account_id \<Rightarrow> balance \<Rightarrow> loans_dispatch_error + 'l loans_state" where
  "add_voucher s asset_id who amount =
     (let d = get_deposits s asset_id who in
      bindE (ok_or (checked_add (voucher_balance d) amount) (Arithmetic Overflow)) (\<lambda>b.
      Inr (put_deposits asset_id who (Some (d\<lparr>voucher_balance := b\<rparr>)) s)))"

definition sub_voucher ::
    "'l loans_state \<Rightarrow> currency_id \<Rightarrow> account_id \<Rightarrow> balance \<Rightarrow> loans_dispatch_error + 'l loans_state" where
  "sub_voucher s asset_id who amount =
     (let d = get_deposits s asset_id who in
      bindE (ok_or (checked_sub (voucher_balance d) amount) (Arithmetic Underflow)) (\<lambda>b.
      Inr (put_deposits asset_id who (Some (d\<lparr>voucher_balance := b\<rparr>)) s)))"

definition do_redeem_voucher ::
    "'l loans_config \<Rightarrow> 'l loans_state \<Rightarrow> account_id \<Rightarrow> currency_id \<Rightarrow> balance
     \<Rightarrow> loans_dispatch_error + (balance \<times> 'l loans_state)" where
  "do_redeem_voucher C s who asset_id voucher_amount =
     bindE (redeem_allowed C s asset_id who voucher_amount) (\<lambda>_.
     bindE (update_reward_supply_index C s asset_id) (\<lambda>s.
     bindE (distribute_supplier_reward s asset_id who) (\<lambda>s.
     bindE (exchange_rate_stored C s asset_id) (\<lambda>e_rate.
     bindE (calc_underlying_amount C voucher_amount e_rate) (\<lambda>redeem_amount.
     bindE (withdraw_voucher s asset_id who voucher_amount) (\<lambda>s.
     bindE (ok_or (checked_sub (total_supply s asset_id) voucher_amount) (Arithmetic Underflow)) (\<lambda>new_balance.
     let s = s\<lparr>total_supply := (total_supply s)(asset_id := new_balance)\<rparr> in
     bindE (map_err (\<lambda>_. Module InsufficientCash)
              (transfer_assets C s asset_id (account_id C) who redeem_amount False)) (\<lambda>s.
     Inr (redeem_amount, s)))))))))"

definition do_repay_borrow_with_amount ::
    "'l loans_config \<Rightarrow> 'l loans_state \<Rightarrow> account_id \<Rightarrow> currency_id \<Rightarrow> balance \<Rightarrow> balance
     \<Rightarrow> loans_dispatch_error + 'l loans_state" where
  "do_repay_borrow_with_amount C s borrower asset_id borrows repay_amount =
     (if borrows < repay_amount then Inl (Module TooMuchRepay)
      else
        bindE (update_reward_borrow_index C s asset_id) (\<lambda>s.
        bindE (distribute_borrower_reward C s asset_id borrower) (\<lambda>s.
        bindE (transfer_assets C s asset_id borrower (account_id C) repay_amount False) (\<lambda>s.
        bindE (ok_or (checked_sub borrows repay_amount) (Arithmetic Underflow)) (\<lambda>borrows_new.
        let total_borrows_new = saturating_sub (total_borrows s asset_id) repay_amount;
            s = put_account_borrows asset_id borrower
                  \<lparr>bs_principal = borrows_new, bs_borrow_index = borrow_index s asset_id\<rparr> s
        in Inr (s\<lparr>total_borrows := (total_borrows s)(asset_id := total_borrows_new)\<rparr>))))))"

definition do_mint ::
    "'l loans_config \<Rightarrow> 'l loans_state \<Rightarrow> account_id \<Rightarrow> currency_id \<Rightarrow> balance
     \<Rightarrow> loans_dispatch_error + 'l loans_state" where
  "do_mint C s supplier asset_id amount =
     bindE (ensure (amount \<noteq> 0) (Module InvalidAmount)) (\<lambda>_.
     bindE (ensure_active_market C s asset_id) (\<lambda>_.
     bindE (ensure_under_supply_cap C s asset_id amount) (\<lambda>_.
     bindE (accrue_interest C s asset_id) (\<lambda>s.
     bindE (update_reward_supply_index C s asset_id) (\<lambda>s.
     bindE (distribute_supplier_reward s asset_id supplier) (\<lambda>s.
     bindE (exchange_rate_stored C s asset_id) (\<lambda>e_rate.
     bindE (update_earned_stored C s supplier asset_id e_rate) (\<lambda>s.
     bindE (calc_collateral_amount C amount e_rate) (\<lambda>voucher_amount.
     bindE (ensure (voucher_amount \<noteq> 0) (Module InvalidExchangeRate)) (\<lambda>_.
     bindE (transfer_assets C s asset_id supplier (account_id C) amount False) (\<lambda>s.
     bindE (add_voucher s asset_id supplier voucher_amount) (\<lambda>s.
     bindE (ok_or (checked_add (total_supply s asset_id) voucher_amount) (Arithmetic Overflow)) (\<lambda>new_balance.
     let s = s\<lparr>total_supply := (total_supply s)(asset_id := new_balance)\<rparr> in
     Inr (deposit_event (Deposited supplier asset_id amount) s))))))))))))))"

definition do_borrow ::
    "'l loans_config \<Rightarrow> 'l loans_state \<Rightarrow> account_id \<Rightarrow> currency_id \<Rightarrow> balance
     \<Rightarrow> loans_dispatch_error + 'l loans_state" where
  "do_borrow C s borrower asset_id amount =
     bindE (ensure_active_market C s asset_id) (\<lambda>_.
     bindE (accrue_interest C s asset_id) (\<lambda>s.
     bindE (borrow_allowed C s asset_id borrower amount) (\<lambda>_.
     bindE (update_reward_borrow_index C s asset_id) (\<lambda>s.
     bindE (distribute_borrower_reward C s asset_id borrower) (\<lambda>s.
     bindE (current_borrow_balance C s borrower asset_id) (\<lambda>borrows.
     bindE (ok_or (checked_add borrows amount) (Arithmetic Overflow)) (\<lambda>borrows_new.
     bindE (ok_or (checked_add (total_borrows s asset_id) amount) (Arithmetic Overflow)) (\<lambda>total_borrows_new.
     let s = put_account_borrows asset_id borrower
               \<lparr>bs_principal = borrows_new, bs_borrow_index = borrow_index s asset_id\<rparr> s;
         s = s\<lparr>total_borrows := (total_borrows s)(asset_id := total_borrows_new)\<rparr>
     in
     bindE (transfer_assets C s asset_id (account_id C) borrower amount False) (\<lambda>s.
     Inr (deposit_event (Borrowed borrower asset_id amount) s))))))))))"

definition do_collateral_asset ::
    "'l loans_config \<Rightarrow> 'l loans_state \<Rightarrow> account_id \<Rightarrow> currency_id \<Rightarrow> bool
     \<Rightarrow> loans_dispatch_error + 'l loans_state" where
  "do_collateral_asset C s supplier asset_id enable =
     bindE (ensure_active_market C s asset_id) (\<lambda>_.
     bindE (ensure (account_deposits s asset_id supplier \<noteq> None) (Module NoDeposit)) (\<lambda>_.
     let d = get_deposits s asset_id supplier in
     if enable then
       Inr (deposit_event (CollateralAssetAdded supplier asset_id)
             (put_deposits asset_id supplier (Some (d\<lparr>is_collateral := True\<rparr>)) s))
     else
       bindE (total_collateral_value C s supplier) (\<lambda>collateral_value.
       bindE (collateral_asset_value C s supplier asset_id) (\<lambda>asset_value.
       bindE (total_borrowed_value C s supplier) (\<lambda>borrowed_value.
       bindE (ok_or (fx_checked_add (lc_arith C) borrowed_value asset_value) (Arithmetic Overflow)) (\<lambda>needed.
       if collateral_value < needed then Inl (Module InsufficientLiquidity)
       else Inr (deposit_event (CollateralAssetRemoved supplier asset_id)
              (put_deposits asset_id supplier (Some (d\<lparr>is_collateral := False\<rparr>)) s))))))))"

definition do_repay_borrow ::
    "'l loans_config \<Rightarrow> 'l loans_state \<Rightarrow> account_id \<Rightarrow> currency_id \<Rightarrow> balance
     \<Rightarrow> loans_dispatch_error + 'l loans_state" where
  "do_repay_borrow C s borrower asset_id amount =
     bindE (ensure_active_market C s asset_id) (\<lambda>_.
     bindE (accrue_interest C s asset_id) (\<lambda>s.
     bindE (current_borrow_balance C s borrower asset_id) (\<lambda>borrows.
     bindE (do_repay_borrow_with_amount C s borrower asset_id borrows amount) (\<lambda>s.
     Inr (deposit_event (RepaidBorrow borrower asset_id amount) s)))))"

definition do_redeem ::
    "'l loans_config \<Rightarrow> 'l loans_state \<Rightarrow> account_id \<Rightarrow> currency_id \<Rightarrow> balance
     \<Rightarrow> loans_dispatch_error + 'l loans_state" where
  "do_redeem C s supplier asset_id amount =
     bindE (ensure_active_market C s asset_id) (\<lambda>_.
     bindE (accrue_interest C s asset_id) (\<lambda>s.
     bindE (exchange_rate_stored C s asset_id) (\<lambda>e_rate.
     bindE (update_earned_stored C s supplier asset_id e_rate) (\<lambda>s.
     bindE (calc_collateral_amount C amount e_rate) (\<lambda>voucher_amount.
     bindE (do_redeem_voucher C s supplier asset_id voucher_amount) (\<lambda>(redeem_amount, s).
     Inr (deposit_event (Redeemed supplier asset_id redeem_amount) s)))))))"

definition liquidated_transfer ::
    "'l loans_config \<Rightarrow> 'l loans_state \<Rightarrow> account_id \<Rightarrow> account_id \<Rightarrow> currency_id \<Rightarrow> currency_id
     \<Rightarrow> balance \<Rightarrow> balance \<Rightarrow> market \<Rightarrow> loans_dispatch_error + 'l loans_state" where
  "liquidated_transfer C s liquidator borrower liquidation_asset_id collateral_asset_id
       repay_amount collateral_underlying_amount m =
     bindE (update_reward_borrow_index C s liquidation_asset_id) (\<lambda>s.
     bindE (distribute_borrower_reward C s liquidation_asset_id liquidator) (\<lambda>s.
     bindE (transfer_assets C s liquidation_asset_id liquidator (account_id C) repay_amount False) (\<lambda>s.
     bindE (current_borrow_balance C s borrower liquidation_asset_id) (\<lambda>borrows.
     bindE (ok_or (checked_sub borrows repay_amount) (Arithmetic Underflow)) (\<lambda>borrows_new.
     bindE (ok_or (checked_sub (total_borrows s liquidation_asset_id) repay_amount)
             (Arithmetic Underflow)) (\<lambda>total_borrows_new.
     let s = put_account_borrows liquidation_asset_id borrower
               \<lparr>bs_principal = borrows_new, bs_borrow_index = borrow_index s liquidation_asset_id\<rparr> s;
         s = s\<lparr>total_borrows := (total_borrows s)(liquidation_asset_id := total_borrows_new)\<rparr>
     in
     bindE (update_reward_supply_index C s collateral_asset_id) (\<lambda>s.
     bindE (distribute_supplier_reward s collateral_asset_id liquidator) (\<lambda>s.
     bindE (distribute_supplier_reward s collateral_asset_id borrower) (\<lambda>s.
     bindE (incentive_reward_account_id C) (\<lambda>incentive_account.
     bindE (distribute_supplier_reward s collateral_asset_id incentive_account) (\<lambda>s.
     bindE (exchange_rate_stored C s collateral_asset_id) (\<lambda>e_rate.
     bindE (calc_collateral_amount C collateral_underlying_amount e_rate) (\<lambda>collateral_amount.
     bindE (sub_voucher s collateral_asset_id borrower collateral_amount) (\<lambda>s.
     bindE (ok_or (fx_checked_div (lc_arith C) collateral_amount (liquidate_incentive m))
             (Arithmetic Underflow)) (\<lambda>seized_without_incentive.
     let incentive_reserved_amount =
           pm_mul_floor (lc_arith C) (liquidate_incentive_reserved_factor m) seized_without_incentive
     in
     bindE (ok_or (sub_u128 collateral_amount incentive_reserved_amount) Panic) (\<lambda>liquidator_amount.
     bindE (add_voucher s collateral_asset_id liquidator liquidator_amount) (\<lambda>s.
     bindE (incentive_reward_account_id C) (\<lambda>incentive_account.
     bindE (add_voucher s collateral_asset_id incentive_account incentive_reserved_amount) (\<lambda>s.
     Inr (deposit_event (LiquidatedBorrow liquidator borrower liquidation_asset_id
           collateral_asset_id repay_amount collateral_underlying_amount) s))))))))))))))))))))"

definition do_liquidate_borrow ::
    "'l loans_config \<Rightarrow> 'l loans_state \<Rightarrow> account_id \<Rightarrow> account_id \<Rightarrow> currency_id \<Rightarrow> balance
     \<Rightarrow> currency_id \<Rightarrow> loans_dispatch_error + 'l loans_state" where
  "do_liquidate_borrow C s liquidator borrower liquidation_asset_id repay_amount collateral_asset_id =
     bindE (ensure_active_market C s liquidation_asset_id) (\<lambda>_.
     bindE (ensure_active_market C s collateral_asset_id) (\<lambda>_.
     bindE (market_of s liquidation_asset_id) (\<lambda>m.
     if borrower = liquidator then Inl (Module LiquidatorIsBorrower)
     else
       bindE (liquidate_borrow_allowed C s borrower liquidation_asset_id repay_amount m) (\<lambda>_.
       let d = get_deposits s collateral_asset_id borrower in
       if \<not> is_collateral d then Inl (Module DepositsAreNotCollateral)
       else
         bindE (exchange_rate_stored C s collateral_asset_id) (\<lambda>e_rate.
         bindE (ok_or (fx_checked_mul_int (lc_arith C) e_rate (voucher_balance d))
                 (Arithmetic Overflow)) (\<lambda>borrower_deposit_amount.
         bindE (get_asset_value C collateral_asset_id borrower_deposit_amount) (\<lambda>collateral_value.
         bindE (get_asset_value C liquidation_asset_id repay_amount) (\<lambda>repay_value.
         bindE (ok_or (fx_checked_mul (lc_arith C) repay_value (liquidate_incentive m))
                 (Arithmetic Overflow)) (\<lambda>liquidate_value.
         if collateral_value < liquidate_value then Inl (Module InsufficientCollateral)
         else
           bindE (get_price C collateral_asset_id) (\<lambda>collateral_token_price.
           bindE (ok_or (fx_checked_div (lc_arith C) liquidate_value collateral_token_price)
                   (Arithmetic Underflow)) (\<lambda>real_collateral_underlying_amount.
           liquidated_transfer C s liquidator borrower liquidation_asset_id collateral_asset_id
             repay_amount real_collateral_underlying_amount m)))))))))))"


section \<open>Vouchers\<close>

text \<open>The vouchers of a market held by all accounts together, and the invariant that the recorded
  supply of every market is exactly that.\<close>

definition voucher_total :: "'l loans_state \<Rightarrow> currency_id \<Rightarrow> balance" where
  "voucher_total s a = sum_entries voucher_balance (account_deposits s a)"

definition vouchers_backed :: "'l loans_state \<Rightarrow> bool" where
  "vouchers_backed s \<longleftrightarrow>
     (\<forall>a. finite (dom (account_deposits s a)) \<and> total_supply s a = voucher_total s a)"

lemma vouchers_backed_cong:
  assumes "account_deposits s' = account_deposits s" and "total_supply s' = total_supply s"
  shows "vouchers_backed s' = vouchers_backed s"
  using assms by (simp add: vouchers_backed_def voucher_total_def)

lemma put_deposits_sel [simp]:
  "account_deposits (put_deposits a w d s) = (account_deposits s)(a := (account_deposits s a)(w := d))"
  "total_supply (put_deposits a w d s) = total_supply s"
  "account_borrows (put_deposits a w d s) = account_borrows s"
  "total_borrows (put_deposits a w d s) = total_borrows s"
  "total_reserves (put_deposits a w d s) = total_reserves s"
  "borrow_index (put_deposits a w d s) = borrow_index s"
  "markets (put_deposits a w d s) = markets s"
  "underlying_asset_id (put_deposits a w d s) = underlying_asset_id s"
  "liquidation_free_collaterals (put_deposits a w d s) = liquidation_free_collaterals s"
  "ledger (put_deposits a w d s) = ledger s"
  "reward_accrued (put_deposits a w d s) = reward_accrued s"
  "last_accrued_interest_time (put_deposits a w d s) = last_accrued_interest_time s"
  "exchange_rate (put_deposits a w d s) = exchange_rate s"
  by (simp_all add: put_deposits_def)

lemma put_account_borrows_sel [simp]:
  "account_borrows (put_account_borrows a w b s) = (account_borrows s)(a := (account_borrows s a)(w := b))"
  "account_deposits (put_account_borrows a w b s) = account_deposits s"
  "total_supply (put_account_borrows a w b s) = total_supply s"
  "total_borrows (put_account_borrows a w b s) = total_borrows s"
  "total_reserves (put_account_borrows a w b s) = total_reserves s"
  "borrow_index (put_account_borrows a w b s) = borrow_index s"
  "markets (put_account_borrows a w b s) = markets s"
  "underlying_asset_id (put_account_borrows a w b s) = underlying_asset_id s"
  "liquidation_free_collaterals (put_account_borrows a w b s) = liquidation_free_collaterals s"
  "ledger (put_account_borrows a w b s) = ledger s"
  "last_accrued_interest_time (put_account_borrows a w b s) = last_accrued_interest_time s"
  "exchange_rate (put_account_borrows a w b s) = exchange_rate s"
  by (simp_all add: put_account_borrows_def)

lemma voucher_total_put:
  assumes "finite (dom (account_deposits s a))"
  shows "voucher_total (put_deposits a w d s) a + voucher_balance (get_deposits s a w) =
         voucher_total s a + (case d of None \<Rightarrow> 0 | Some x \<Rightarrow> voucher_balance x)"
  using sum_entries_upd [OF assms, of voucher_balance w] sum_entries_del [OF assms, of voucher_balance w]
  by (cases d; cases "account_deposits s a w")
    (auto simp: voucher_total_def get_deposits_def default_deposits_def)

lemma withdraw_voucherD:
  assumes "withdraw_voucher s a w n = Inr s'"
  shows "n \<le> voucher_balance (get_deposits s a w)"
    and "s' = put_deposits a w (if voucher_balance (get_deposits s a w) = n then None
           else Some ((get_deposits s a w)\<lparr>voucher_balance := voucher_balance (get_deposits s a w) - n\<rparr>)) s"
  using assms by (auto simp: withdraw_voucher_def Let_def split: if_splits)

lemma add_voucherD:
  assumes "add_voucher s a w n = Inr s'"
  shows "s' = put_deposits a w
           (Some ((get_deposits s a w)\<lparr>voucher_balance := voucher_balance (get_deposits s a w) + n\<rparr>)) s"
    and "voucher_balance (get_deposits s a w) + n \<le> u128_max"
  using assms by (auto simp: add_voucher_def Let_def)

lemma sub_voucherD:
  assumes "sub_voucher s a w n = Inr s'"
  shows "n \<le> voucher_balance (get_deposits s a w)"
    and "s' = put_deposits a w
           (Some ((get_deposits s a w)\<lparr>voucher_balance := voucher_balance (get_deposits s a w) - n\<rparr>)) s"
  using assms by (auto simp: sub_voucher_def Let_def)

text \<open>One step on the vouchers of a market: a balance moves by a given amount, everything else of
  the pool stays.\<close>

definition voucher_step :: "'l loans_state \<Rightarrow> 'l loans_state \<Rightarrow> currency_id \<Rightarrow> balance \<Rightarrow> balance \<Rightarrow> bool" where
  "voucher_step s s' a add sub \<longleftrightarrow>
     total_supply s' = total_supply s \<and>
     (\<forall>b. finite (dom (account_deposits s b)) \<longrightarrow> finite (dom (account_deposits s' b))) \<and>
     (\<forall>b. b \<noteq> a \<longrightarrow> account_deposits s' b = account_deposits s b) \<and>
     (finite (dom (account_deposits s a)) \<longrightarrow> voucher_total s' a + sub = voucher_total s a + add)"

lemma voucher_step_trans:
  "voucher_step s t a m n \<Longrightarrow> voucher_step t u a p q \<Longrightarrow> voucher_step s u a (m + p) (n + q)"
  by (auto simp: voucher_step_def)

lemma put_deposits_step:
  assumes "(case d of None \<Rightarrow> 0 | Some x \<Rightarrow> voucher_balance x) + sub = voucher_balance (get_deposits s a w) + add"
  shows "voucher_step s (put_deposits a w d s) a add sub"
  using assms voucher_total_put [of s a w d] unfolding voucher_step_def
  by (cases d) (auto split: if_splits)

lemma withdraw_voucher_step: "withdraw_voucher s a w n = Inr s' \<Longrightarrow> voucher_step s s' a 0 n"
  by (frule withdraw_voucherD(1), drule withdraw_voucherD(2)) (auto intro!: put_deposits_step)

lemma add_voucher_step: "add_voucher s a w n = Inr s' \<Longrightarrow> voucher_step s s' a n 0"
  by (drule add_voucherD(1)) (auto intro!: put_deposits_step)

lemma sub_voucher_step: "sub_voucher s a w n = Inr s' \<Longrightarrow> voucher_step s s' a 0 n"
  by (frule sub_voucherD(1), drule sub_voucherD(2)) (auto intro!: put_deposits_step)

lemma voucher_step_cong:
  assumes "account_deposits t = account_deposits s" and "total_supply t = total_supply s"
  shows "voucher_step t u a m n = voucher_step s u a m n"
    and "voucher_step u t a m n = voucher_step u s a m n"
  using assms by (simp_all add: voucher_step_def voucher_total_def)

text \<open>Supply and vouchers moved by the same amount keep the invariant.\<close>

lemma vouchers_backed_move:
  assumes "vouchers_backed s" and "voucher_step s t a add sub"
    and "account_deposits s' = account_deposits t"
    and "total_supply s' = (total_supply s)(a := new)" and "new + sub = total_supply s a + add"
  shows "vouchers_backed s'"
proof -
  have "finite (dom (account_deposits s' b)) \<and> total_supply s' b = voucher_total s' b" for b
  proof (cases "b = a")
    case True
    with assms show ?thesis by (fastforce simp: vouchers_backed_def voucher_step_def voucher_total_def)
  next
    case False
    with assms show ?thesis by (auto simp: vouchers_backed_def voucher_step_def voucher_total_def)
  qed
  then show ?thesis by (simp add: vouchers_backed_def)
qed

lemma vouchers_backed_shift:
  assumes "vouchers_backed s" and "voucher_step s t a n n"
    and "account_deposits s' = account_deposits t" and "total_supply s' = total_supply s"
  shows "vouchers_backed s'"
  by (rule vouchers_backed_move [OF assms(1,2,3), where new = "total_supply s a"]) (simp_all add: assms(4))

end
