(* ===== verification/Loans_Effects.thy ===== *)
theory Loans_Effects
  imports Loans_Ops
begin

text \<open>
  What a successful operation of the loans pallet has done: for each \<open>do_\<close> function one rule that
  lists the checks that passed and the new value of every part of the pool, in terms of the state
  after the accrual it starts with.  Reward bookkeeping in between is covered by \<open>rewards_only\<close>.

  The rules carry all further proofs: voucher conservation, the exchange rate, solvency of a
  borrower, and the invariants over histories.
\<close>

lemma update_earned_storedD [frame_dest]:
  "update_earned_stored C s w a e = Inr s' \<Longrightarrow> s' = s\<lparr>account_earned := account_earned s'\<rparr>"
  by (auto simp: update_earned_stored_def Let_def)

lemma calc_collateral_amount_iff:
  assumes "sp_arith_laws (lc_arith C)"
  shows "calc_collateral_amount C n e = Inr v \<longleftrightarrow> e \<noteq> 0 \<and> v = n * FX div e \<and> v \<le> u128_max"
  by (auto simp: calc_collateral_amount_def fx_simps [OF assms])

lemma calc_underlying_amount_iff:
  assumes "sp_arith_laws (lc_arith C)"
  shows "calc_underlying_amount C n e = Inr v \<longleftrightarrow> v = e * n div FX \<and> v \<le> u128_max"
  by (auto simp: calc_underlying_amount_def fx_simps [OF assms])

lemma get_asset_value_iff:
  assumes "sp_arith_laws (lc_arith C)"
  shows "get_asset_value C a n = Inr v \<longleftrightarrow>
    (\<exists>p. get_price C a = Inr p \<and> v = p * n div FX \<and> v \<le> u128_max)"
  by (auto simp: get_asset_value_def fx_simps [OF assms])

lemma exchange_rate_stored_rewards:
  assumes "rewards_only s s'"
  shows "exchange_rate_stored C s' a = exchange_rate_stored C s a"
  by (rule exchange_rate_stored_cong)
    (simp_all add: rewards_onlyD [OF assms] get_total_cash_cong [OF rewards_onlyD(13) [OF assms]])

lemma current_borrow_balance_rewards:
  assumes "rewards_only s s'"
  shows "current_borrow_balance C s' w a = current_borrow_balance C s w a"
  by (rule current_borrow_balance_cong) (simp_all add: rewards_onlyD [OF assms])

text \<open>The part of the pool that the exchange rate, debts and positions are computed from.\<close>

definition same_pool :: "'l loans_state \<Rightarrow> 'l loans_state \<Rightarrow> bool" where
  "same_pool s s' \<longleftrightarrow>
     total_reserves s' = total_reserves s \<and> borrow_index s' = borrow_index s \<and>
     markets s' = markets s \<and> underlying_asset_id s' = underlying_asset_id s \<and>
     liquidation_free_collaterals s' = liquidation_free_collaterals s \<and>
     last_accrued_interest_time s' = last_accrued_interest_time s \<and>
     exchange_rate s' = exchange_rate s"

lemma do_mint_inv:
  assumes "do_mint C s w a n = Inr s'"
  obtains s1 s2 s3 e s4 v s5 s6 m u nb where
    "ensure_active_market C s a = Inr m" "ensure_under_supply_cap C s a n = Inr u"
    "accrue_interest C s a = Inr s1" "update_reward_supply_index C s1 a = Inr s2"
    "distribute_supplier_reward s2 a w = Inr s3" "exchange_rate_stored C s3 a = Inr e"
    "update_earned_stored C s3 w a e = Inr s4" "calc_collateral_amount C n e = Inr v"
    "n \<noteq> 0" "v \<noteq> 0" "transfer_assets C s4 a w (account_id C) n False = Inr s5"
    "add_voucher s5 a w v = Inr s6" "nb = total_supply s6 a + v"
    "s' = deposit_event (Deposited w a n) (s6\<lparr>total_supply := (total_supply s6)(a := nb)\<rparr>)"
  using assms unfolding do_mint_def Let_def by (elim resultE) (rule that)

lemma do_mintE:
  assumes "do_mint C s w a n = Inr s'" and laws: "sp_arith_laws (lc_arith C)"
  obtains s1 e m where "accrue_interest C s a = Inr s1" "exchange_rate_stored C s1 a = Inr e"
    "ensure_active_market C s a = Inr m" "ensure_under_supply_cap C s a n = Inr ()"
    "n \<noteq> 0" "n * FX div e \<noteq> 0"
    "ft_transfer (lc_assets C) (ledger s) a w (account_id C) n False = Inr (ledger s')"
    "account_deposits s' = (account_deposits s)(a := (account_deposits s a)(w \<mapsto>
       (get_deposits s a w)\<lparr>voucher_balance := voucher_balance (get_deposits s a w) + n * FX div e\<rparr>))"
    "total_supply s' = (total_supply s)(a := total_supply s a + n * FX div e)"
    "account_borrows s' = account_borrows s" "total_borrows s' = total_borrows s1"
    "same_pool s1 s'"
  using assms(1)
proof (rule do_mint_inv)
  fix s1 s2 s3 e s4 v s5 s6 m u nb
  assume act: "ensure_active_market C s a = Inr m" and cap: "ensure_under_supply_cap C s a n = Inr u"
    and acc: "accrue_interest C s a = Inr s1" and r: "update_reward_supply_index C s1 a = Inr s2"
    and d: "distribute_supplier_reward s2 a w = Inr s3" and e: "exchange_rate_stored C s3 a = Inr e"
    and ue: "update_earned_stored C s3 w a e = Inr s4" and v: "calc_collateral_amount C n e = Inr v"
    and nz: "n \<noteq> 0" "v \<noteq> 0" and t: "transfer_assets C s4 a w (account_id C) n False = Inr s5"
    and add: "add_voucher s5 a w v = Inr s6" and nb: "nb = total_supply s6 a + v"
    and s': "s' = deposit_event (Deposited w a n) (s6\<lparr>total_supply := (total_supply s6)(a := nb)\<rparr>)"
  note ac = accruedD [OF accrue_interest_accrued [OF acc laws]]
  have ro: "rewards_only s1 s3" using r d
    by (meson rewards_only_trans update_reward_supply_index_only distribute_supplier_reward_only)
  note ro' = rewards_onlyD [OF ro]
  have e1: "exchange_rate_stored C s1 a = Inr e" using e by (simp add: exchange_rate_stored_rewards [OF ro])
  obtain x where s4: "s4 = s3\<lparr>account_earned := x\<rparr>" using update_earned_storedD [OF ue] by blast
  obtain l where s5: "s5 = s4\<lparr>ledger := l\<rparr>"
    and l: "ft_transfer (lc_assets C) (ledger s4) a w (account_id C) n False = Inr l"
    using transfer_assetsD [OF t] by blast
  have dep: "get_deposits s5 a w = get_deposits s a w"
    by (simp add: get_deposits_def s5 s4 ro' ac(1))
  note s6 = add_voucherD(1) [OF add, unfolded dep]
  have v': "v = n * FX div e" using v by (simp add: calc_collateral_amount_iff [OF laws])
  show ?thesis
  proof (rule that [OF acc e1 act _ nz(1)])
    show "ensure_under_supply_cap C s a n = Inr ()" using cap by simp
    show "n * FX div e \<noteq> 0" using nz(2) v' by argo
    show "ft_transfer (lc_assets C) (ledger s) a w (account_id C) n False = Inr (ledger s')"
      using l by (simp add: s' s6 s5 s4 ro' ac(8))
    show "account_deposits s' = (account_deposits s)(a := (account_deposits s a)(w \<mapsto>
       (get_deposits s a w)\<lparr>voucher_balance := voucher_balance (get_deposits s a w) + n * FX div e\<rparr>))"
      by (simp add: s' s6 s5 s4 ro' ac(1) v' del: fun_upd_apply)
    show "total_supply s' = (total_supply s)(a := total_supply s a + n * FX div e)"
      by (simp add: s' s6 s5 s4 nb ro' ac(4) v' del: fun_upd_apply)
    show "account_borrows s' = account_borrows s" by (simp add: s' s6 s5 s4 ro' ac(2))
    show "total_borrows s' = total_borrows s1" by (simp add: s' s6 s5 s4 ro')
    show "same_pool s1 s'" by (simp add: s' s6 s5 s4 ro' same_pool_def)
  qed
qed

lemma do_redeem_voucher_inv:
  assumes "do_redeem_voucher C s w a v = Inr (n, s')"
  obtains s2 s3 e s4 u nb n1 s5 where
    "redeem_allowed C s a w v = Inr u" "update_reward_supply_index C s a = Inr s2"
    "distribute_supplier_reward s2 a w = Inr s3" "exchange_rate_stored C s3 a = Inr e"
    "calc_underlying_amount C v e = Inr n1" "withdraw_voucher s3 a w v = Inr s4"
    "v \<le> total_supply s4 a" "nb = total_supply s4 a - v"
    "transfer_assets C (s4\<lparr>total_supply := (total_supply s4)(a := nb)\<rparr>) a (account_id C) w n1 False = Inr s5"
    "n = n1" "s' = s5"
  using assms unfolding do_redeem_voucher_def Let_def by (elim resultE) (rule that)

lemma do_redeem_voucherE:
  assumes "do_redeem_voucher C s w a v = Inr (n, s')" and laws: "sp_arith_laws (lc_arith C)"
  obtains e where "exchange_rate_stored C s a = Inr e" "redeem_allowed C s a w v = Inr ()"
    "n = e * v div FX" "v \<le> voucher_balance (get_deposits s a w)" "v \<le> total_supply s a"
    "ft_transfer (lc_assets C) (ledger s) a (account_id C) w n False = Inr (ledger s')"
    "account_deposits s' = (account_deposits s)(a := (account_deposits s a)(w :=
       if voucher_balance (get_deposits s a w) = v then None
       else Some ((get_deposits s a w)\<lparr>voucher_balance := voucher_balance (get_deposits s a w) - v\<rparr>)))"
    "total_supply s' = (total_supply s)(a := total_supply s a - v)"
    "account_borrows s' = account_borrows s" "total_borrows s' = total_borrows s" "same_pool s s'"
  using assms(1)
proof (rule do_redeem_voucher_inv)
  fix s2 s3 e s4 u nb n1 s5
  assume ok: "redeem_allowed C s a w v = Inr u" and r: "update_reward_supply_index C s a = Inr s2"
    and d: "distribute_supplier_reward s2 a w = Inr s3" and e: "exchange_rate_stored C s3 a = Inr e"
    and n1: "calc_underlying_amount C v e = Inr n1" and wd: "withdraw_voucher s3 a w v = Inr s4"
    and le: "v \<le> total_supply s4 a" and nb: "nb = total_supply s4 a - v"
    and t: "transfer_assets C (s4\<lparr>total_supply := (total_supply s4)(a := nb)\<rparr>) a (account_id C) w n1 False = Inr s5"
    and s': "n = n1" "s' = s5"
  have ro: "rewards_only s s3" using r d
    by (meson rewards_only_trans update_reward_supply_index_only distribute_supplier_reward_only)
  note ro' = rewards_onlyD [OF ro]
  have dep: "get_deposits s3 = get_deposits s" by (rule get_deposits_cong) (simp add: ro')
  note s4 = withdraw_voucherD(2) [OF wd, unfolded dep]
  obtain l where s5: "s5 = s4\<lparr>total_supply := (total_supply s4)(a := nb)\<rparr>\<lparr>ledger := l\<rparr>"
    and l: "ft_transfer (lc_assets C) (ledger s4) a (account_id C) w n1 False = Inr l"
    using transfer_assetsD [OF t] by auto
  have led: "ledger s4 = ledger s" and sup: "total_supply s4 = total_supply s"
    by (simp_all add: s4 ro')
  show ?thesis
  proof (rule that)
    show "exchange_rate_stored C s a = Inr e" using e by (simp add: exchange_rate_stored_rewards [OF ro])
    show "redeem_allowed C s a w v = Inr ()" using ok by simp
    show "n = e * v div FX" using n1 s'(1) by (simp add: calc_underlying_amount_iff [OF laws])
    show "v \<le> voucher_balance (get_deposits s a w)" using withdraw_voucherD(1) [OF wd] by (simp add: dep)
    show "v \<le> total_supply s a" using le by (simp add: sup)
    show "ft_transfer (lc_assets C) (ledger s) a (account_id C) w n False = Inr (ledger s')"
      using l by (simp add: s' s5 led)
    show "account_deposits s' = (account_deposits s)(a := (account_deposits s a)(w :=
       if voucher_balance (get_deposits s a w) = v then None
       else Some ((get_deposits s a w)\<lparr>voucher_balance := voucher_balance (get_deposits s a w) - v\<rparr>)))"
      by (simp add: s' s5 s4 ro' del: fun_upd_apply)
    show "total_supply s' = (total_supply s)(a := total_supply s a - v)"
      by (simp add: s' s5 sup nb del: fun_upd_apply)
    show "account_borrows s' = account_borrows s" "total_borrows s' = total_borrows s" "same_pool s s'"
      by (simp_all add: s' s5 s4 ro' same_pool_def)
  qed
qed

lemma do_borrow_inv:
  assumes "do_borrow C s w a n = Inr s'"
  obtains m s1 u s2 s3 b b' t' s4 where
    "ensure_active_market C s a = Inr m" "accrue_interest C s a = Inr s1"
    "borrow_allowed C s1 a w n = Inr u" "update_reward_borrow_index C s1 a = Inr s2"
    "distribute_borrower_reward C s2 a w = Inr s3" "current_borrow_balance C s3 w a = Inr b"
    "b' = b + n" "b + n \<le> u128_max" "t' = total_borrows s3 a + n"
    "transfer_assets C ((put_account_borrows a w \<lparr>bs_principal = b', bs_borrow_index = borrow_index s3 a\<rparr> s3)
        \<lparr>total_borrows := (total_borrows (put_account_borrows a w
           \<lparr>bs_principal = b', bs_borrow_index = borrow_index s3 a\<rparr> s3))(a := t')\<rparr>)
        a (account_id C) w n False = Inr s4"
    "s' = deposit_event (Borrowed w a n) s4"
  using assms unfolding do_borrow_def Let_def by (elim resultE) (rule that)

lemma do_borrowE:
  assumes "do_borrow C s w a n = Inr s'" and laws: "sp_arith_laws (lc_arith C)"
  obtains m s1 b where "ensure_active_market C s a = Inr m" "accrue_interest C s a = Inr s1"
    "borrow_allowed C s1 a w n = Inr ()" "current_borrow_balance C s1 w a = Inr b"
    "b + n \<le> u128_max"
    "account_borrows s' = (account_borrows s)(a := (account_borrows s a)(w :=
       \<lparr>bs_principal = b + n, bs_borrow_index = borrow_index s1 a\<rparr>))"
    "total_borrows s' = (total_borrows s1)(a := total_borrows s1 a + n)"
    "ft_transfer (lc_assets C) (ledger s) a (account_id C) w n False = Inr (ledger s')"
    "account_deposits s' = account_deposits s" "total_supply s' = total_supply s" "same_pool s1 s'"
  using assms(1)
proof (rule do_borrow_inv)
  fix m s1 u s2 s3 b b' t' s4
  assume act: "ensure_active_market C s a = Inr m" and acc: "accrue_interest C s a = Inr s1"
    and ok: "borrow_allowed C s1 a w n = Inr u" and r: "update_reward_borrow_index C s1 a = Inr s2"
    and d: "distribute_borrower_reward C s2 a w = Inr s3" and b: "current_borrow_balance C s3 w a = Inr b"
    and b': "b' = b + n" "b + n \<le> u128_max" and t': "t' = total_borrows s3 a + n"
    and t: "transfer_assets C ((put_account_borrows a w \<lparr>bs_principal = b', bs_borrow_index = borrow_index s3 a\<rparr> s3)
        \<lparr>total_borrows := (total_borrows (put_account_borrows a w
           \<lparr>bs_principal = b', bs_borrow_index = borrow_index s3 a\<rparr> s3))(a := t')\<rparr>)
        a (account_id C) w n False = Inr s4"
    and s': "s' = deposit_event (Borrowed w a n) s4"
  note ac = accruedD [OF accrue_interest_accrued [OF acc laws]]
  have ro: "rewards_only s1 s3" using r d
    by (meson rewards_only_trans update_reward_borrow_index_only distribute_borrower_reward_only)
  note ro' = rewards_onlyD [OF ro]
  obtain l where s4: "s4 = ((put_account_borrows a w \<lparr>bs_principal = b', bs_borrow_index = borrow_index s3 a\<rparr> s3)
        \<lparr>total_borrows := (total_borrows (put_account_borrows a w
           \<lparr>bs_principal = b', bs_borrow_index = borrow_index s3 a\<rparr> s3))(a := t')\<rparr>)\<lparr>ledger := l\<rparr>"
    and l: "ft_transfer (lc_assets C) (ledger s) a (account_id C) w n False = Inr l"
    using transfer_assetsD [OF t] by (auto simp: ro' ac(8))
  show ?thesis
  proof (rule that [OF act acc _ _ b'(2)])
    show "borrow_allowed C s1 a w n = Inr ()" using ok by simp
    show "current_borrow_balance C s1 w a = Inr b" using b by (simp add: current_borrow_balance_rewards [OF ro])
    show "account_borrows s' = (account_borrows s)(a := (account_borrows s a)(w :=
       \<lparr>bs_principal = b + n, bs_borrow_index = borrow_index s1 a\<rparr>))"
      by (simp add: s' s4 ro' ac(2) b'(1) del: fun_upd_apply)
    show "total_borrows s' = (total_borrows s1)(a := total_borrows s1 a + n)"
      by (simp add: s' s4 ro' t' del: fun_upd_apply)
    show "ft_transfer (lc_assets C) (ledger s) a (account_id C) w n False = Inr (ledger s')"
      using l by (simp add: s' s4)
    show "account_deposits s' = account_deposits s" "total_supply s' = total_supply s" "same_pool s1 s'"
      by (simp_all add: s' s4 ro' ac(1,4) same_pool_def)
  qed
qed

lemma do_redeem_inv:
  assumes "do_redeem C s w a n = Inr s'"
  obtains m s1 e s2 v p where
    "ensure_active_market C s a = Inr m" "accrue_interest C s a = Inr s1"
    "exchange_rate_stored C s1 a = Inr e" "update_earned_stored C s1 w a e = Inr s2"
    "calc_collateral_amount C n e = Inr v" "do_redeem_voucher C s2 w a v = Inr p"
    "s' = deposit_event (Redeemed w a (fst p)) (snd p)"
  using assms unfolding do_redeem_def case_prod_beta by (elim resultE) (rule that)

lemma do_repay_borrow_with_amount_inv:
  assumes "do_repay_borrow_with_amount C s w a b n = Inr s'"
  obtains s2 s3 s4 b' where "\<not> b < n" "update_reward_borrow_index C s a = Inr s2"
    "distribute_borrower_reward C s2 a w = Inr s3"
    "transfer_assets C s3 a w (account_id C) n False = Inr s4" "b' = b - n" "n \<le> b"
    "s' = (put_account_borrows a w \<lparr>bs_principal = b', bs_borrow_index = borrow_index s4 a\<rparr> s4)
       \<lparr>total_borrows := (total_borrows (put_account_borrows a w
          \<lparr>bs_principal = b', bs_borrow_index = borrow_index s4 a\<rparr> s4))
          (a := saturating_sub (total_borrows s4 a) n)\<rparr>"
  using assms unfolding do_repay_borrow_with_amount_def Let_def by (elim resultE) (rule that)

lemma do_repay_borrow_with_amountE:
  assumes "do_repay_borrow_with_amount C s w a b n = Inr s'"
  obtains "n \<le> b"
    "ft_transfer (lc_assets C) (ledger s) a w (account_id C) n False = Inr (ledger s')"
    "account_borrows s' = (account_borrows s)(a := (account_borrows s a)(w :=
       \<lparr>bs_principal = b - n, bs_borrow_index = borrow_index s a\<rparr>))"
    "total_borrows s' = (total_borrows s)(a := total_borrows s a - n)"
    "account_deposits s' = account_deposits s" "total_supply s' = total_supply s" "same_pool s s'"
  using assms
proof (rule do_repay_borrow_with_amount_inv)
  fix s2 s3 s4 b'
  assume r: "update_reward_borrow_index C s a = Inr s2"
    and d: "distribute_borrower_reward C s2 a w = Inr s3"
    and t: "transfer_assets C s3 a w (account_id C) n False = Inr s4" and b': "b' = b - n" "n \<le> b"
    and s': "s' = (put_account_borrows a w \<lparr>bs_principal = b', bs_borrow_index = borrow_index s4 a\<rparr> s4)
       \<lparr>total_borrows := (total_borrows (put_account_borrows a w
          \<lparr>bs_principal = b', bs_borrow_index = borrow_index s4 a\<rparr> s4))
          (a := saturating_sub (total_borrows s4 a) n)\<rparr>"
  have ro: "rewards_only s s3" using r d
    by (meson rewards_only_trans update_reward_borrow_index_only distribute_borrower_reward_only)
  note ro' = rewards_onlyD [OF ro]
  obtain l where s4: "s4 = s3\<lparr>ledger := l\<rparr>"
    and l: "ft_transfer (lc_assets C) (ledger s) a w (account_id C) n False = Inr l"
    using transfer_assetsD [OF t] by (auto simp: ro')
  show ?thesis
  proof (rule that [OF b'(2)])
    show "ft_transfer (lc_assets C) (ledger s) a w (account_id C) n False = Inr (ledger s')"
      using l by (simp add: s' s4)
    show "account_borrows s' = (account_borrows s)(a := (account_borrows s a)(w :=
       \<lparr>bs_principal = b - n, bs_borrow_index = borrow_index s a\<rparr>))"
      by (simp add: s' s4 ro' b'(1) del: fun_upd_apply)
    show "total_borrows s' = (total_borrows s)(a := total_borrows s a - n)"
      by (simp add: s' s4 ro' del: fun_upd_apply)
    show "account_deposits s' = account_deposits s" "total_supply s' = total_supply s" "same_pool s s'"
      by (simp_all add: s' s4 ro' same_pool_def)
  qed
qed

lemma do_repay_borrow_inv:
  assumes "do_repay_borrow C s w a n = Inr s'"
  obtains m s1 b s2 where "ensure_active_market C s a = Inr m" "accrue_interest C s a = Inr s1"
    "current_borrow_balance C s1 w a = Inr b" "do_repay_borrow_with_amount C s1 w a b n = Inr s2"
    "s' = deposit_event (RepaidBorrow w a n) s2"
  using assms unfolding do_repay_borrow_def by (elim resultE) (rule that)

lemma do_collateral_assetE:
  assumes "do_collateral_asset C s w a en = Inr s'"
  obtains "account_deposits s a w \<noteq> None"
    "account_deposits s' = (account_deposits s)(a := (account_deposits s a)(w \<mapsto>
       (get_deposits s a w)\<lparr>is_collateral := en\<rparr>))"
    "total_supply s' = total_supply s" "account_borrows s' = account_borrows s"
    "total_borrows s' = total_borrows s" "ledger s' = ledger s" "same_pool s s'"
proof -
  from assms have ex: "account_deposits s a w \<noteq> None"
    unfolding do_collateral_asset_def Let_def by (elim bindE_InrE ensure_InrE)
  obtain ev where s': "s' = deposit_event ev
      (put_deposits a w (Some ((get_deposits s a w)\<lparr>is_collateral := en\<rparr>)) s)"
  proof (cases en)
    case True
    then have en: "en = True" by simp
    from assms show ?thesis
      unfolding do_collateral_asset_def Let_def en if_True by (elim resultE) (rule that [unfolded en])
  next
    case False
    then have en: "en = False" by simp
    from assms show ?thesis
      unfolding do_collateral_asset_def Let_def en if_False by (elim resultE) (rule that [unfolded en])
  qed
  show ?thesis
    by (rule that [OF ex]) (simp_all add: s' same_pool_def del: fun_upd_apply)
qed

lemma do_collateral_asset_off:
  assumes "do_collateral_asset C s w a False = Inr s'" and laws: "sp_arith_laws (lc_arith C)"
  obtains c v b where "total_collateral_value C s w = Inr c" "collateral_asset_value C s w a = Inr v"
    "total_borrowed_value C s w = Inr b" "b + v \<le> c"
proof -
  from assms(1) obtain c v b x where "total_collateral_value C s w = Inr c"
    "collateral_asset_value C s w a = Inr v" "total_borrowed_value C s w = Inr b"
    "fx_checked_add (lc_arith C) b v = Some x" "\<not> c < x"
    unfolding do_collateral_asset_def Let_def if_False by (elim resultE) (rule that)
  then show ?thesis by (intro that) (auto simp: fx_simps [OF laws] not_less)
qed

text \<open>Liquidation.  The debt shrinks by the amount repaid; the seized vouchers leave the borrower and
  arrive, in two parts, at the liquidator and at the incentive reserve.\<close>

lemma liquidated_transfer_inv:
  assumes "liquidated_transfer C s liq bor la ca n cu m = Inr s'"
  obtains s2 s3 s4 b b' t' s5 s6 s7 inc s8 e cam s9 sw la' s10 inc' s11 where
    "update_reward_borrow_index C s la = Inr s2" "distribute_borrower_reward C s2 la liq = Inr s3"
    "transfer_assets C s3 la liq (account_id C) n False = Inr s4"
    "current_borrow_balance C s4 bor la = Inr b" "b' = b - n" "n \<le> b"
    "t' = total_borrows s4 la - n" "n \<le> total_borrows s4 la"
    "update_reward_supply_index C ((put_account_borrows la bor
        \<lparr>bs_principal = b', bs_borrow_index = borrow_index s4 la\<rparr> s4)\<lparr>total_borrows :=
          (total_borrows (put_account_borrows la bor
             \<lparr>bs_principal = b', bs_borrow_index = borrow_index s4 la\<rparr> s4))(la := t')\<rparr>) ca = Inr s5"
    "distribute_supplier_reward s5 ca liq = Inr s6" "distribute_supplier_reward s6 ca bor = Inr s7"
    "incentive_reward_account_id C = Inr inc" "distribute_supplier_reward s7 ca inc = Inr s8"
    "exchange_rate_stored C s8 ca = Inr e" "calc_collateral_amount C cu e = Inr cam"
    "sub_voucher s8 ca bor cam = Inr s9"
    "fx_checked_div (lc_arith C) cam (liquidate_incentive m) = Some sw"
    "sub_u128 cam (pm_mul_floor (lc_arith C) (liquidate_incentive_reserved_factor m) sw) = Some la'"
    "add_voucher s9 ca liq la' = Inr s10" "incentive_reward_account_id C = Inr inc'"
    "add_voucher s10 ca inc' (pm_mul_floor (lc_arith C) (liquidate_incentive_reserved_factor m) sw) = Inr s11"
    "s' = deposit_event (LiquidatedBorrow liq bor la ca n cu) s11"
  using assms unfolding liquidated_transfer_def Let_def by (elim resultE) (rule that)

lemma get_deposits_rewards: "rewards_only s s' \<Longrightarrow> get_deposits s' = get_deposits s"
  by (rule get_deposits_cong) (rule rewards_onlyD(7))

text \<open>The seizure on its own: three moves of vouchers.\<close>

lemma seizureD:
  assumes sub: "sub_voucher s a bor cam = Inr s1" and add: "add_voucher s1 a liq x = Inr s2"
    and add': "add_voucher s2 a inc y = Inr s3" and sum: "x + y = cam"
  shows "voucher_step s s3 a cam cam"
    and "cam \<le> voucher_balance (get_deposits s a bor)"
    and "voucher_balance (get_deposits s3 a w) =
      voucher_balance (get_deposits s a w) - (if w = bor then cam else 0)
        + (if w = liq then x else 0) + (if w = inc then y else 0)"
    and "is_collateral (get_deposits s3 a w) = is_collateral (get_deposits s a w)"
    and "b \<noteq> a \<Longrightarrow> account_deposits s3 b = account_deposits s b"
    and "same_pool s s3" and "total_supply s3 = total_supply s" and "ledger s3 = ledger s"
    and "account_borrows s3 = account_borrows s" and "total_borrows s3 = total_borrows s"
proof -
  show "voucher_step s s3 a cam cam"
    using voucher_step_trans [OF voucher_step_trans [OF sub_voucher_step [OF sub] add_voucher_step [OF add]]
        add_voucher_step [OF add']] sum by simp
  show le: "cam \<le> voucher_balance (get_deposits s a bor)" by (rule sub_voucherD(1) [OF sub])
  note s1 = sub_voucherD(2) [OF sub] and s2 = add_voucherD(1) [OF add] and s3 = add_voucherD(1) [OF add']
  show "voucher_balance (get_deposits s3 a w) =
      voucher_balance (get_deposits s a w) - (if w = bor then cam else 0)
        + (if w = liq then x else 0) + (if w = inc then y else 0)"
    unfolding s3 by (auto simp: s2 s1)
  show "is_collateral (get_deposits s3 a w) = is_collateral (get_deposits s a w)"
    unfolding s3 by (auto simp: s2 s1)
  show "b \<noteq> a \<Longrightarrow> account_deposits s3 b = account_deposits s b"
    unfolding s3 by (auto simp: s2 s1)
  show "same_pool s s3" "total_supply s3 = total_supply s" "ledger s3 = ledger s"
    "account_borrows s3 = account_borrows s" "total_borrows s3 = total_borrows s"
    unfolding s3 by (simp_all add: s2 s1 same_pool_def)
qed

text \<open>What a liquidation did: the amounts, and the new debt and vouchers.\<close>

definition liquidated ::
    "'l loans_config \<Rightarrow> 'l loans_state \<Rightarrow> 'l loans_state \<Rightarrow> account_id \<Rightarrow> account_id \<Rightarrow> currency_id
     \<Rightarrow> currency_id \<Rightarrow> balance \<Rightarrow> balance \<Rightarrow> balance \<Rightarrow> balance \<Rightarrow> account_id \<Rightarrow> bool" where
  "liquidated C s s' liq bor la ca n b seized reserved inc \<longleftrightarrow>
     ft_transfer (lc_assets C) (ledger s) la liq (account_id C) n False = Inr (ledger s') \<and>
     account_borrows s' = (account_borrows s)(la := (account_borrows s la)(bor :=
       \<lparr>bs_principal = b - n, bs_borrow_index = borrow_index s la\<rparr>)) \<and>
     total_borrows s' = (total_borrows s)(la := total_borrows s la - n) \<and>
     total_supply s' = total_supply s \<and> same_pool s s' \<and> voucher_step s s' ca seized seized \<and>
     seized \<le> voucher_balance (get_deposits s ca bor) \<and> reserved \<le> seized \<and>
     (\<forall>w. voucher_balance (get_deposits s' ca w) =
        voucher_balance (get_deposits s ca w) - (if w = bor then seized else 0)
          + (if w = liq then seized - reserved else 0) + (if w = inc then reserved else 0)) \<and>
     (\<forall>w. is_collateral (get_deposits s' ca w) = is_collateral (get_deposits s ca w)) \<and>
     (\<forall>b. b \<noteq> ca \<longrightarrow> account_deposits s' b = account_deposits s b)"

lemma liquidated_transferE:
  assumes "liquidated_transfer C s liq bor la ca n cu m = Inr s'"
    and laws: "sp_arith_laws (lc_arith C)"
  obtains b e seized reserved inc where
    "current_borrow_balance C s bor la = Inr b" "n \<le> b" "n \<le> total_borrows s la"
    "incentive_reward_account_id C = Inr inc" "exchange_rate_stored C s' ca = Inr e"
    "seized = cu * FX div e" "liquidate_incentive m \<noteq> 0"
    "reserved = liquidate_incentive_reserved_factor m * (seized * FX div liquidate_incentive m) div PM"
    "liquidated C s s' liq bor la ca n b seized reserved inc"
  using assms(1)
proof (rule liquidated_transfer_inv)
  fix s2 s3 s4 s5 s6 s7 s8 s9 s10 s11 :: "'a loans_state" and b b' t' inc e cam sw la' inc'
  let ?p = "put_account_borrows la bor \<lparr>bs_principal = b', bs_borrow_index = borrow_index s4 la\<rparr> s4"
  let ?t = "?p\<lparr>total_borrows := (total_borrows ?p)(la := t')\<rparr>"
  let ?res = "pm_mul_floor (lc_arith C) (liquidate_incentive_reserved_factor m) sw"
  assume r: "update_reward_borrow_index C s la = Inr s2" "distribute_borrower_reward C s2 la liq = Inr s3"
    and t: "transfer_assets C s3 la liq (account_id C) n False = Inr s4"
    and b: "current_borrow_balance C s4 bor la = Inr b" "b' = b - n" "n \<le> b"
    and t': "t' = total_borrows s4 la - n" "n \<le> total_borrows s4 la"
    and f: "update_reward_supply_index C ?t ca = Inr s5" "distribute_supplier_reward s5 ca liq = Inr s6"
      "distribute_supplier_reward s6 ca bor = Inr s7" "distribute_supplier_reward s7 ca inc = Inr s8"
    and inc: "incentive_reward_account_id C = Inr inc" and e: "exchange_rate_stored C s8 ca = Inr e"
    and cam: "calc_collateral_amount C cu e = Inr cam" and sub: "sub_voucher s8 ca bor cam = Inr s9"
    and sw: "fx_checked_div (lc_arith C) cam (liquidate_incentive m) = Some sw"
    and la': "sub_u128 cam ?res = Some la'" and add: "add_voucher s9 ca liq la' = Inr s10"
    and inc': "incentive_reward_account_id C = Inr inc'" and add': "add_voucher s10 ca inc' ?res = Inr s11"
    and s': "s' = deposit_event (LiquidatedBorrow liq bor la ca n cu) s11"
  have ro: "rewards_only s s3" using r
    by (meson rewards_only_trans update_reward_borrow_index_only distribute_borrower_reward_only)
  note ro = rewards_onlyD [OF ro] current_borrow_balance_rewards [OF ro] get_deposits_rewards [OF ro]
  have rt: "rewards_only ?t s8" using f
    by (meson rewards_only_trans update_reward_supply_index_only distribute_supplier_reward_only)
  note rt' = rewards_onlyD [OF rt] get_deposits_rewards [OF rt]
  obtain l where s4: "s4 = s3\<lparr>ledger := l\<rparr>"
    and l: "ft_transfer (lc_assets C) (ledger s) la liq (account_id C) n False = Inr l"
    using transfer_assetsD [OF t] by (auto simp: ro)
  have ii: "inc' = inc" using inc inc' by simp
  have le: "?res \<le> cam" and x: "la' = cam - ?res" and sum: "la' + ?res = cam" using la' by simp_all
  note z = seizureD [OF sub add add' sum]
  have dep8: "account_deposits s8 = account_deposits s" "total_supply s8 = total_supply s"
    by (simp_all add: rt' s4 ro)
  have gd8: "get_deposits s8 = get_deposits s" by (rule get_deposits_cong) (rule dep8)
  have pool: "same_pool s s'" using z(6) by (simp add: s' same_pool_def rt' s4 ro)
  have bb: "current_borrow_balance C s bor la = Inr b"
    using b(1) current_borrow_balance_cong [of s4 s3 la C bor] by (simp add: s4 ro)
  have ee: "exchange_rate_stored C s' ca = Inr e"
    using e exchange_rate_stored_cong [of s' ca s8 C] z(6) get_total_cash_cong [of s' s8 C]
    by (simp add: s' z same_pool_def)
  have "liquidated C s s' liq bor la ca n b cam ?res inc"
    unfolding liquidated_def
  proof (intro conjI allI impI)
    show "ft_transfer (lc_assets C) (ledger s) la liq (account_id C) n False = Inr (ledger s')"
      using l by (simp add: s' z rt' s4)
    show "account_borrows s' = (account_borrows s)(la := (account_borrows s la)(bor :=
       \<lparr>bs_principal = b - n, bs_borrow_index = borrow_index s la\<rparr>))"
      by (simp add: s' z rt' s4 ro b(2) del: fun_upd_apply)
    show "total_borrows s' = (total_borrows s)(la := total_borrows s la - n)"
      by (simp add: s' z rt' s4 ro t'(1) del: fun_upd_apply)
    show "total_supply s' = total_supply s" by (simp add: s' z dep8)
    show "voucher_step s s' ca cam cam"
      using z(1) voucher_step_cong(1) [OF dep8] voucher_step_cong(2) [of s' s11] by (simp add: s')
    show "cam \<le> voucher_balance (get_deposits s ca bor)" using z(2) by (simp add: gd8)
    fix w show "voucher_balance (get_deposits s' ca w) =
        voucher_balance (get_deposits s ca w) - (if w = bor then cam else 0)
          + (if w = liq then cam - ?res else 0) + (if w = inc then ?res else 0)"
      using z(3) [of w] by (simp add: s' gd8 x ii)
    show "is_collateral (get_deposits s' ca w) = is_collateral (get_deposits s ca w)"
      using z(4) [of w] by (simp add: s' gd8)
  next
    fix c assume "c \<noteq> ca" then show "account_deposits s' c = account_deposits s c"
      using z(5) [of c] by (simp add: s' dep8)
  qed (use pool le in simp_all)
  moreover have "n \<le> total_borrows s la" using t'(2) by (simp add: s4 ro)
  moreover have "cam = cu * FX div e" using cam by (simp add: calc_collateral_amount_iff [OF laws])
  moreover have "liquidate_incentive m \<noteq> 0" and "sw = cam * FX div liquidate_incentive m"
    using sw by (simp_all add: fx_simps [OF laws] split: if_splits)
  then have "?res = liquidate_incentive_reserved_factor m * (cam * FX div liquidate_incentive m) div PM"
    by (simp only: pm_simps [OF laws])
  ultimately show ?thesis using \<open>liquidate_incentive m \<noteq> 0\<close> by (intro that [OF bb b(3) _ inc ee])
qed

lemma do_liquidate_borrow_inv:
  assumes "do_liquidate_borrow C s liq bor la n ca = Inr s'"
  obtains m1 m2 m u e dep cv rv lv p cu where
    "ensure_active_market C s la = Inr m1" "ensure_active_market C s ca = Inr m2"
    "market_of s la = Inr m" "\<not> bor = liq" "liquidate_borrow_allowed C s bor la n m = Inr u"
    "\<not> \<not> is_collateral (get_deposits s ca bor)" "exchange_rate_stored C s ca = Inr e"
    "fx_checked_mul_int (lc_arith C) e (voucher_balance (get_deposits s ca bor)) = Some dep"
    "get_asset_value C ca dep = Inr cv" "get_asset_value C la n = Inr rv"
    "fx_checked_mul (lc_arith C) rv (liquidate_incentive m) = Some lv" "\<not> cv < lv"
    "get_price C ca = Inr p" "fx_checked_div (lc_arith C) lv p = Some cu"
    "liquidated_transfer C s liq bor la ca n cu m = Inr s'"
  using assms unfolding do_liquidate_borrow_def Let_def by (elim resultE) (rule that)

section \<open>Every operation keeps the supply backed\<close>

lemma do_mint_backed:
  assumes "do_mint C s w a n = Inr s'" and "sp_arith_laws (lc_arith C)" and "vouchers_backed s"
  shows "vouchers_backed s'"
  using assms(1,2)
proof (rule do_mintE)
  fix e
  let ?d = "(get_deposits s a w)\<lparr>voucher_balance := voucher_balance (get_deposits s a w) + n * FX div e\<rparr>"
  assume "account_deposits s' = (account_deposits s)(a := (account_deposits s a)(w \<mapsto> ?d))"
    and sup: "total_supply s' = (total_supply s)(a := total_supply s a + n * FX div e)"
  then have dep: "account_deposits s' = account_deposits (put_deposits a w (Some ?d) s)" by simp
  show ?thesis
    by (rule vouchers_backed_move [OF assms(3) put_deposits_step dep sup, where add = "n * FX div e" and sub = 0])
      simp_all
qed

lemma do_redeem_voucher_backed:
  assumes "do_redeem_voucher C s w a v = Inr p" and "sp_arith_laws (lc_arith C)" and "vouchers_backed s"
  shows "vouchers_backed (snd p)"
proof -
  from assms(1) have "do_redeem_voucher C s w a v = Inr (fst p, snd p)" by simp
  then show ?thesis using assms(2)
  proof (rule do_redeem_voucherE)
    let ?d = "if voucher_balance (get_deposits s a w) = v then None
       else Some ((get_deposits s a w)\<lparr>voucher_balance := voucher_balance (get_deposits s a w) - v\<rparr>)"
    assume v: "v \<le> voucher_balance (get_deposits s a w)" "v \<le> total_supply s a"
      and "account_deposits (snd p) = (account_deposits s)(a := (account_deposits s a)(w := ?d))"
      and sup: "total_supply (snd p) = (total_supply s)(a := total_supply s a - v)"
    then have dep: "account_deposits (snd p) = account_deposits (put_deposits a w ?d s)" by simp
    show ?thesis
      by (rule vouchers_backed_move [OF assms(3) put_deposits_step dep sup, where add = 0 and sub = v])
        (use v in simp_all)
  qed
qed

lemma accrue_interest_backed:
  assumes "accrue_interest C s a = Inr s'" and "sp_arith_laws (lc_arith C)"
  shows "vouchers_backed s' = vouchers_backed s"
  by (rule vouchers_backed_cong) (rule accruedD [OF accrue_interest_accrued [OF assms]])+

lemma do_redeem_backed:
  assumes "do_redeem C s w a n = Inr s'" and laws: "sp_arith_laws (lc_arith C)" and "vouchers_backed s"
  shows "vouchers_backed s'"
  using assms(1)
proof (rule do_redeem_inv)
  fix s1 e s2 v p
  assume acc: "accrue_interest C s a = Inr s1" and ue: "update_earned_stored C s1 w a e = Inr s2"
    and red: "do_redeem_voucher C s2 w a v = Inr p" and s': "s' = deposit_event (Redeemed w a (fst p)) (snd p)"
  obtain x where s2: "s2 = s1\<lparr>account_earned := x\<rparr>" using update_earned_storedD [OF ue] by blast
  have "vouchers_backed s2"
    using accrue_interest_backed [OF acc laws] assms(3) vouchers_backed_cong [of s2 s1] by (simp add: s2)
  then have "vouchers_backed (snd p)" by (rule do_redeem_voucher_backed [OF red laws])
  then show ?thesis using vouchers_backed_cong [of s' "snd p"] by (simp add: s')
qed

lemma do_borrow_backed:
  assumes "do_borrow C s w a n = Inr s'" and "sp_arith_laws (lc_arith C)"
  shows "vouchers_backed s' = vouchers_backed s"
  using assms by (rule do_borrowE) (rule vouchers_backed_cong)

lemma do_repay_borrow_backed:
  assumes "do_repay_borrow C s w a n = Inr s'" and "sp_arith_laws (lc_arith C)"
  shows "vouchers_backed s' = vouchers_backed s"
  using assms(1)
proof (rule do_repay_borrow_inv)
  fix s1 b s2
  assume acc: "accrue_interest C s a = Inr s1" and s': "s' = deposit_event (RepaidBorrow w a n) s2"
    and "do_repay_borrow_with_amount C s1 w a b n = Inr s2"
  from this(3) have "vouchers_backed s2 = vouchers_backed s1"
    by (rule do_repay_borrow_with_amountE) (rule vouchers_backed_cong)
  then show ?thesis
    using accrue_interest_backed [OF acc assms(2)] vouchers_backed_cong [of s' s2] by (simp add: s')
qed

lemma do_collateral_asset_backed:
  assumes "do_collateral_asset C s w a en = Inr s'" and "vouchers_backed s"
  shows "vouchers_backed s'"
  using assms(1)
proof (rule do_collateral_assetE)
  let ?d = "(get_deposits s a w)\<lparr>is_collateral := en\<rparr>"
  assume "account_deposits s' = (account_deposits s)(a := (account_deposits s a)(w \<mapsto> ?d))"
    and sup: "total_supply s' = total_supply s"
  then have dep: "account_deposits s' = account_deposits (put_deposits a w (Some ?d) s)" by simp
  show ?thesis
    by (rule vouchers_backed_shift [OF assms(2) put_deposits_step dep sup, where n = 0]) simp
qed

lemma liquidated_transfer_backed:
  assumes "liquidated_transfer C s liq bor la ca n cu m = Inr s'" and "sp_arith_laws (lc_arith C)"
    and "vouchers_backed s"
  shows "vouchers_backed s'"
  using assms(1,2)
proof (rule liquidated_transferE)
  fix b seized reserved inc
  assume "liquidated C s s' liq bor la ca n b seized reserved inc"
  then have "voucher_step s s' ca seized seized" and "total_supply s' = total_supply s"
    by (simp_all add: liquidated_def)
  then show ?thesis by (intro vouchers_backed_shift [OF assms(3) _ refl])
qed

lemma do_liquidate_borrow_backed:
  assumes "do_liquidate_borrow C s liq bor la n ca = Inr s'" and "sp_arith_laws (lc_arith C)"
    and "vouchers_backed s"
  shows "vouchers_backed s'"
  using assms(1) by (rule do_liquidate_borrow_inv) (erule liquidated_transfer_backed [OF _ assms(2,3)])

end
