(* ===== verification/Loans_Calls.thy ===== *)
theory Loans_Calls
  imports Loans_Effects
begin

text \<open>
  The dispatchable calls of the loans pallet (the \<open>#[pallet::call]\<close> block of
  src/pallets/loans/src/lib.rs), its market lookups and the data provider traits.

  Every call is \<open>#[transactional]\<close>: an error discards all writes, which is why an error result
  carries no state.  \<open>loans_call\<close> enumerates the calls with their arguments and \<open>dispatch\<close> runs
  one, so that a history of the pallet is a list of calls (theory \<open>Loans_Invariants\<close>).
\<close>

definition mutate_market ::
    "'l loans_state \<Rightarrow> currency_id \<Rightarrow> (market \<Rightarrow> market) \<Rightarrow> loans_dispatch_error + (market \<times> 'l loans_state)" where
  "mutate_market s asset_id cb =
     (case markets s asset_id of
        Some m \<Rightarrow> Inr (cb m, s\<lparr>markets := (markets s)(asset_id \<mapsto> cb m)\<rparr>)
      | None \<Rightarrow> Inl (Module MarketDoesNotExist))"

definition underlying_id :: "'l loans_state \<Rightarrow> currency_id \<Rightarrow> loans_dispatch_error + currency_id" where
  "underlying_id s ptoken = ok_or (underlying_asset_id s ptoken) (Module InvalidPtokenId)"

definition ptoken_id :: "'l loans_state \<Rightarrow> currency_id \<Rightarrow> loans_dispatch_error + currency_id" where
  "ptoken_id s asset_id =
     (case market_of s asset_id of
        Inr m \<Rightarrow> Inr (ptoken_id_of m)
      | Inl e \<Rightarrow> Inl (Module MarketDoesNotExist))"

definition add_market ::
    "'l loans_config \<Rightarrow> 'l loans_state \<Rightarrow> origin \<Rightarrow> currency_id \<Rightarrow> market
     \<Rightarrow> loans_dispatch_error + 'l loans_state" where
  "add_market C s o' asset_id m =
     bindE (ensure_origin (lc_update_origin C) o') (\<lambda>_.
     bindE (ensure (markets s asset_id = None) (Module MarketAlreadyExists)) (\<lambda>_.
     bindE (ensure (state_of m = Pending) (Module NewMarketMustHavePendingState)) (\<lambda>_.
     bindE (ensure (check_model (rate_model_of m)) (Module InvalidRateModelParam)) (\<lambda>_.
     bindE (ensure (collateral_factor m \<ge> 0 \<and> collateral_factor m < PM) (Module InvalidFactor)) (\<lambda>_.
     bindE (ensure (liquidation_threshold m < PM \<and> liquidation_threshold m \<ge> collateral_factor m)
             (Module InvalidFactor)) (\<lambda>_.
     bindE (ensure (reserve_factor m > 0 \<and> reserve_factor m < PM) (Module InvalidFactor)) (\<lambda>_.
     bindE (ensure (liquidate_incentive_reserved_factor m > 0 \<and> liquidate_incentive_reserved_factor m < PM)
             (Module InvalidFactor)) (\<lambda>_.
     bindE (ensure (supply_cap m > 0) (Module InvalidSupplyCap)) (\<lambda>_.
     bindE (ensure_ptoken s (ptoken_id_of m)) (\<lambda>_.
     Inr (deposit_event (NewMarket asset_id m)
       (s\<lparr>markets := (markets s)(asset_id \<mapsto> m),
          underlying_asset_id := (underlying_asset_id s)(ptoken_id_of m \<mapsto> asset_id),
          exchange_rate := (exchange_rate s)(asset_id := MIN_EXCHANGE_RATE),
          borrow_index := (borrow_index s)(asset_id := FX)\<rparr>))))))))))))"

definition activate_market ::
    "'l loans_config \<Rightarrow> 'l loans_state \<Rightarrow> origin \<Rightarrow> currency_id \<Rightarrow> loans_dispatch_error + 'l loans_state" where
  "activate_market C s o' asset_id =
     bindE (ensure_origin (lc_update_origin C) o') (\<lambda>_.
     bindE (mutate_market s asset_id (\<lambda>stored.
              if state_of stored = Active then stored else stored\<lparr>state_of := Active\<rparr>)) (\<lambda>(_, s).
     Inr (deposit_event (ActivatedMarket asset_id) s)))"

definition update_rate_model ::
    "'l loans_config \<Rightarrow> 'l loans_state \<Rightarrow> origin \<Rightarrow> currency_id \<Rightarrow> interest_rate_model
     \<Rightarrow> loans_dispatch_error + 'l loans_state" where
  "update_rate_model C s o' asset_id model =
     bindE (ensure_origin (lc_update_origin C) o') (\<lambda>_.
     bindE (ensure (check_model model) (Module InvalidRateModelParam)) (\<lambda>_.
     bindE (mutate_market s asset_id (\<lambda>stored. stored\<lparr>rate_model_of := model\<rparr>)) (\<lambda>(m, s).
     Inr (deposit_event (UpdatedMarket asset_id m) s))))"

definition unwrap_or :: "'a option \<Rightarrow> 'a \<Rightarrow> 'a" where
  "unwrap_or x d = (case x of None \<Rightarrow> d | Some v \<Rightarrow> v)"

definition update_market ::
    "'l loans_config \<Rightarrow> 'l loans_state \<Rightarrow> origin \<Rightarrow> currency_id \<Rightarrow> ratio option \<Rightarrow> ratio option
     \<Rightarrow> ratio option \<Rightarrow> ratio option \<Rightarrow> ratio option \<Rightarrow> rate option \<Rightarrow> balance option \<Rightarrow> balance option
     \<Rightarrow> loans_dispatch_error + 'l loans_state" where
  "update_market C s o' asset_id cf lt rf clf lirf li sc bc =
     bindE (ensure_origin (lc_update_origin C) o') (\<lambda>_.
     bindE (market_of s asset_id) (\<lambda>m.
     let cf = unwrap_or cf (collateral_factor m);
         lt = unwrap_or lt (liquidation_threshold m);
         rf = unwrap_or rf (reserve_factor m);
         clf = unwrap_or clf (close_factor m);
         lirf = unwrap_or lirf (liquidate_incentive_reserved_factor m);
         li = unwrap_or li (liquidate_incentive m);
         sc = unwrap_or sc (supply_cap m);
         bc = unwrap_or bc (borrow_cap m)
     in
     bindE (ensure (cf \<ge> 0 \<and> cf < PM) (Module InvalidFactor)) (\<lambda>_.
     bindE (ensure (lt \<ge> cf \<and> lt < PM) (Module InvalidFactor)) (\<lambda>_.
     bindE (ensure (rf > 0 \<and> rf < PM) (Module InvalidFactor)) (\<lambda>_.
     bindE (ensure (sc > 0) (Module InvalidSupplyCap)) (\<lambda>_.
     bindE (mutate_market s asset_id (\<lambda>stored.
              \<lparr>collateral_factor = cf, liquidation_threshold = lt, reserve_factor = rf,
               close_factor = clf, liquidate_incentive = li,
               liquidate_incentive_reserved_factor = lirf,
               rate_model_of = rate_model_of stored, state_of = state_of stored,
               supply_cap = sc, borrow_cap = bc, ptoken_id_of = ptoken_id_of stored\<rparr>)) (\<lambda>(m, s).
     Inr (deposit_event (UpdatedMarket asset_id m) s))))))))"

definition force_update_market ::
    "'l loans_config \<Rightarrow> 'l loans_state \<Rightarrow> origin \<Rightarrow> currency_id \<Rightarrow> market
     \<Rightarrow> loans_dispatch_error + 'l loans_state" where
  "force_update_market C s o' asset_id m =
     bindE (ensure_origin (lc_update_origin C) o') (\<lambda>_.
     bindE (ensure (check_model (rate_model_of m)) (Module InvalidRateModelParam)) (\<lambda>_.
     bindE (if underlying_asset_id s (ptoken_id_of m) \<noteq> None then
              bindE (underlying_id s (ptoken_id_of m)) (\<lambda>u.
              ensure (u = asset_id) (Module InvalidPtokenId))
            else Inr ()) (\<lambda>_.
     let s = s\<lparr>underlying_asset_id := (underlying_asset_id s)(ptoken_id_of m \<mapsto> asset_id)\<rparr> in
     bindE (mutate_market s asset_id (\<lambda>_. m)) (\<lambda>(updated_market, s).
     Inr (deposit_event (UpdatedMarket asset_id updated_market) s)))))"

definition add_reward ::
    "'l loans_config \<Rightarrow> 'l loans_state \<Rightarrow> origin \<Rightarrow> balance \<Rightarrow> loans_dispatch_error + 'l loans_state" where
  "add_reward C s o' amount =
     bindE (ensure_signed o') (\<lambda>who.
     bindE (ensure (amount \<noteq> 0) (Module InvalidAmount)) (\<lambda>_.
     bindE (reward_account_id C) (\<lambda>pool_account.
     bindE (transfer_assets C s (lc_reward_asset C) who pool_account amount True) (\<lambda>s.
     Inr (deposit_event (RewardAdded who amount) s)))))"

definition withdraw_missing_reward ::
    "'l loans_config \<Rightarrow> 'l loans_state \<Rightarrow> origin \<Rightarrow> account_id \<Rightarrow> balance
     \<Rightarrow> loans_dispatch_error + 'l loans_state" where
  "withdraw_missing_reward C s o' target_account amount =
     bindE (ensure_origin (lc_update_origin C) o') (\<lambda>_.
     bindE (ensure (amount \<noteq> 0) (Module InvalidAmount)) (\<lambda>_.
     bindE (reward_account_id C) (\<lambda>pool_account.
     bindE (lookup_account C target_account) (\<lambda>target_account.
     bindE (transfer_assets C s (lc_reward_asset C) pool_account target_account amount True) (\<lambda>s.
     Inr (deposit_event (RewardWithdrawn target_account amount) s))))))"

definition update_market_reward_speed ::
    "'l loans_config \<Rightarrow> 'l loans_state \<Rightarrow> origin \<Rightarrow> currency_id \<Rightarrow> balance option \<Rightarrow> balance option
     \<Rightarrow> loans_dispatch_error + 'l loans_state" where
  "update_market_reward_speed C s o' asset_id supply_reward borrow_reward =
     bindE (ensure_origin (lc_update_origin C) o') (\<lambda>_.
     bindE (ensure_active_market C s asset_id) (\<lambda>_.
     let current_supply_speed = reward_supply_speed s asset_id;
         current_borrow_speed = reward_borrow_speed s asset_id;
         supply_reward_per_block = unwrap_or supply_reward current_supply_speed;
         borrow_reward_per_block = unwrap_or borrow_reward current_borrow_speed
     in
     bindE (if supply_reward_per_block \<noteq> current_supply_speed then
              bindE (update_reward_supply_index C s asset_id) (\<lambda>s.
              Inr (s\<lparr>reward_supply_speed := (reward_supply_speed s)(asset_id := supply_reward_per_block)\<rparr>))
            else Inr s) (\<lambda>s.
     bindE (if borrow_reward_per_block \<noteq> current_borrow_speed then
              bindE (update_reward_borrow_index C s asset_id) (\<lambda>s.
              Inr (s\<lparr>reward_borrow_speed := (reward_borrow_speed s)(asset_id := borrow_reward_per_block)\<rparr>))
            else Inr s) (\<lambda>s.
     Inr (deposit_event (MarketRewardSpeedUpdated asset_id supply_reward_per_block
            borrow_reward_per_block) s)))))"

definition claim_reward ::
    "'l loans_config \<Rightarrow> 'l loans_state \<Rightarrow> origin \<Rightarrow> loans_dispatch_error + 'l loans_state" where
  "claim_reward C s o' =
     bindE (ensure_signed o') (\<lambda>who.
     bindE (foldE (\<lambda>asset_id s. collect_market_reward C s asset_id who)
              (map fst (storage_iter (lc_market_keys C) (markets s))) s) (\<lambda>s.
     pay_reward C s who))"

definition claim_reward_for_market ::
    "'l loans_config \<Rightarrow> 'l loans_state \<Rightarrow> origin \<Rightarrow> currency_id \<Rightarrow> loans_dispatch_error + 'l loans_state" where
  "claim_reward_for_market C s o' asset_id =
     bindE (ensure_signed o') (\<lambda>who.
     bindE (collect_market_reward C s asset_id who) (\<lambda>s.
     pay_reward C s who))"

definition mint ::
    "'l loans_config \<Rightarrow> 'l loans_state \<Rightarrow> origin \<Rightarrow> currency_id \<Rightarrow> balance
     \<Rightarrow> loans_dispatch_error + 'l loans_state" where
  "mint C s o' asset_id mint_amount =
     bindE (ensure_signed o') (\<lambda>who. do_mint C s who asset_id mint_amount)"

definition redeem ::
    "'l loans_config \<Rightarrow> 'l loans_state \<Rightarrow> origin \<Rightarrow> currency_id \<Rightarrow> balance
     \<Rightarrow> loans_dispatch_error + 'l loans_state" where
  "redeem C s o' asset_id redeem_amount =
     bindE (ensure_signed o') (\<lambda>who.
     bindE (ensure (redeem_amount \<noteq> 0) (Module InvalidAmount)) (\<lambda>_.
     do_redeem C s who asset_id redeem_amount))"

definition redeem_all ::
    "'l loans_config \<Rightarrow> 'l loans_state \<Rightarrow> origin \<Rightarrow> currency_id \<Rightarrow> loans_dispatch_error + 'l loans_state" where
  "redeem_all C s o' asset_id =
     bindE (ensure_signed o') (\<lambda>who.
     bindE (ensure_active_market C s asset_id) (\<lambda>_.
     bindE (accrue_interest C s asset_id) (\<lambda>s.
     bindE (exchange_rate_stored C s asset_id) (\<lambda>e_rate.
     bindE (update_earned_stored C s who asset_id e_rate) (\<lambda>s.
     let d = get_deposits s asset_id who in
     bindE (do_redeem_voucher C s who asset_id (voucher_balance d)) (\<lambda>(redeem_amount, s).
     Inr (deposit_event (Redeemed who asset_id redeem_amount) s)))))))"

definition borrow ::
    "'l loans_config \<Rightarrow> 'l loans_state \<Rightarrow> origin \<Rightarrow> currency_id \<Rightarrow> balance
     \<Rightarrow> loans_dispatch_error + 'l loans_state" where
  "borrow C s o' asset_id borrow_amount =
     bindE (ensure_signed o') (\<lambda>who. do_borrow C s who asset_id borrow_amount)"

definition repay_borrow ::
    "'l loans_config \<Rightarrow> 'l loans_state \<Rightarrow> origin \<Rightarrow> currency_id \<Rightarrow> balance
     \<Rightarrow> loans_dispatch_error + 'l loans_state" where
  "repay_borrow C s o' asset_id repay_amount =
     bindE (ensure_signed o') (\<lambda>who. do_repay_borrow C s who asset_id repay_amount)"

definition repay_borrow_all ::
    "'l loans_config \<Rightarrow> 'l loans_state \<Rightarrow> origin \<Rightarrow> currency_id \<Rightarrow> loans_dispatch_error + 'l loans_state" where
  "repay_borrow_all C s o' asset_id =
     bindE (ensure_signed o') (\<lambda>who.
     bindE (ensure_active_market C s asset_id) (\<lambda>_.
     bindE (accrue_interest C s asset_id) (\<lambda>s.
     bindE (current_borrow_balance C s who asset_id) (\<lambda>borrows.
     do_repay_borrow C s who asset_id borrows))))"

definition collateral_asset ::
    "'l loans_config \<Rightarrow> 'l loans_state \<Rightarrow> origin \<Rightarrow> currency_id \<Rightarrow> bool
     \<Rightarrow> loans_dispatch_error + 'l loans_state" where
  "collateral_asset C s o' asset_id enable =
     bindE (ensure_signed o') (\<lambda>who.
     bindE (ensure_active_market C s asset_id) (\<lambda>_.
     bindE (ensure (account_deposits s asset_id who \<noteq> None) (Module NoDeposit)) (\<lambda>_.
     if is_collateral (get_deposits s asset_id who) = enable then Inl (Module DuplicateOperation)
     else do_collateral_asset C s who asset_id enable)))"

definition liquidate_borrow ::
    "'l loans_config \<Rightarrow> 'l loans_state \<Rightarrow> origin \<Rightarrow> account_id \<Rightarrow> currency_id \<Rightarrow> balance \<Rightarrow> currency_id
     \<Rightarrow> loans_dispatch_error + 'l loans_state" where
  "liquidate_borrow C s o' borrower liquidation_asset_id repay_amount collateral_asset_id =
     bindE (ensure_signed o') (\<lambda>who.
     bindE (ensure (collateral_asset_id \<notin> set (liquidation_free_collaterals s)
                    \<and> \<not> is_auxiliary_token collateral_asset_id) (Module CollateralReserved)) (\<lambda>_.
     bindE (accrue_interest C s liquidation_asset_id) (\<lambda>s.
     bindE (accrue_interest C s collateral_asset_id) (\<lambda>s.
     do_liquidate_borrow C s who borrower liquidation_asset_id repay_amount collateral_asset_id))))"

definition add_reserves ::
    "'l loans_config \<Rightarrow> 'l loans_state \<Rightarrow> origin \<Rightarrow> account_id \<Rightarrow> currency_id \<Rightarrow> balance
     \<Rightarrow> loans_dispatch_error + 'l loans_state" where
  "add_reserves C s o' payer asset_id add_amount =
     bindE (ensure_origin (lc_reserve_origin C) o') (\<lambda>_.
     bindE (lookup_account C payer) (\<lambda>payer.
     bindE (ensure_active_market C s asset_id) (\<lambda>_.
     bindE (transfer_assets C s asset_id payer (account_id C) add_amount False) (\<lambda>s.
     bindE (ok_or (checked_add (total_reserves s asset_id) add_amount) (Arithmetic Overflow)) (\<lambda>total_reserves_new.
     Inr (deposit_event (ReservesAdded payer asset_id add_amount total_reserves_new)
           (s\<lparr>total_reserves := (total_reserves s)(asset_id := total_reserves_new)\<rparr>)))))))"

definition reduce_reserves ::
    "'l loans_config \<Rightarrow> 'l loans_state \<Rightarrow> origin \<Rightarrow> account_id \<Rightarrow> currency_id \<Rightarrow> balance
     \<Rightarrow> loans_dispatch_error + 'l loans_state" where
  "reduce_reserves C s o' receiver asset_id reduce_amount =
     bindE (ensure_origin (lc_reserve_origin C) o') (\<lambda>_.
     bindE (lookup_account C receiver) (\<lambda>receiver.
     bindE (ensure_active_market C s asset_id) (\<lambda>_.
     if reduce_amount > total_reserves s asset_id then Inl (Module InsufficientReserves)
     else
       bindE (ok_or (checked_sub (total_reserves s asset_id) reduce_amount) (Arithmetic Underflow)) (\<lambda>total_reserves_new.
       let s = s\<lparr>total_reserves := (total_reserves s)(asset_id := total_reserves_new)\<rparr> in
       bindE (transfer_assets C s asset_id (account_id C) receiver reduce_amount False) (\<lambda>s.
       Inr (deposit_event (ReservesReduced receiver asset_id reduce_amount total_reserves_new) s))))))"

definition reduce_incentive_reserves ::
    "'l loans_config \<Rightarrow> 'l loans_state \<Rightarrow> origin \<Rightarrow> account_id \<Rightarrow> currency_id \<Rightarrow> balance
     \<Rightarrow> loans_dispatch_error + 'l loans_state" where
  "reduce_incentive_reserves C s o' receiver asset_id redeem_amount =
     bindE (ensure_origin (lc_reserve_origin C) o') (\<lambda>_.
     bindE (ensure (redeem_amount \<noteq> 0) (Module InvalidAmount)) (\<lambda>_.
     bindE (lookup_account C receiver) (\<lambda>receiver.
     bindE (incentive_reward_account_id C) (\<lambda>from.
     bindE (ensure_active_market C s asset_id) (\<lambda>_.
     bindE (exchange_rate_stored C s asset_id) (\<lambda>e_rate.
     bindE (calc_collateral_amount C redeem_amount e_rate) (\<lambda>voucher_amount.
     bindE (do_redeem_voucher C s from asset_id voucher_amount) (\<lambda>(redeem_amount, s).
     bindE (transfer_assets C s asset_id from receiver redeem_amount False) (\<lambda>s.
     Inr (deposit_event (IncentiveReservesReduced receiver asset_id redeem_amount) s))))))))))"

definition update_liquidation_free_collateral ::
    "'l loans_config \<Rightarrow> 'l loans_state \<Rightarrow> origin \<Rightarrow> currency_id list
     \<Rightarrow> loans_dispatch_error + 'l loans_state" where
  "update_liquidation_free_collateral C s o' collaterals =
     bindE (ensure_origin (lc_update_origin C) o') (\<lambda>_.
     Inr (deposit_event (LiquidationFreeCollateralsUpdated collaterals)
           (s\<lparr>liquidation_free_collaterals := collaterals\<rparr>)))"

section \<open>The data provider traits\<close>

record market_info =
  mi_collateral_factor :: ratio
  mi_liquidation_threshold :: ratio
  mi_reserve_factor :: ratio
  mi_close_factor :: ratio
  mi_full_rate :: rate

record market_status =
  ms_borrow_rate :: rate
  ms_supply_rate :: rate
  ms_exchange_rate :: rate
  ms_utilization :: ratio
  ms_total_borrows :: balance
  ms_total_reserves :: balance
  ms_borrow_index :: rate

definition get_full_interest_rate :: "'l loans_state \<Rightarrow> currency_id \<Rightarrow> rate option" where
  "get_full_interest_rate s asset_id =
     (case market_of s asset_id of
        Inr m \<Rightarrow> (case rate_model_of m of Jump jump \<Rightarrow> Some (jm_full_rate jump) | _ \<Rightarrow> None)
      | Inl e \<Rightarrow> None)"

definition get_market_info :: "'l loans_state \<Rightarrow> currency_id \<Rightarrow> loans_dispatch_error + market_info" where
  "get_market_info s asset_id =
     bindE (market_of s asset_id) (\<lambda>m.
     bindE (ok_or (get_full_interest_rate s asset_id) (Module InvalidRateModelParam)) (\<lambda>full_rate.
     Inr \<lparr>mi_collateral_factor = collateral_factor m,
          mi_liquidation_threshold = liquidation_threshold m,
          mi_reserve_factor = reserve_factor m, mi_close_factor = close_factor m,
          mi_full_rate = full_rate\<rparr>))"

definition provider_get_market_status ::
    "'l loans_config \<Rightarrow> 'l loans_state \<Rightarrow> currency_id \<Rightarrow> loans_dispatch_error + market_status" where
  "provider_get_market_status C s asset_id =
     bindE (get_market_status C s asset_id) (\<lambda>(b_rate, s_rate, e_rate, util, borrows, reserves, index).
     Inr \<lparr>ms_borrow_rate = b_rate, ms_supply_rate = s_rate, ms_exchange_rate = e_rate,
          ms_utilization = util, ms_total_borrows = borrows, ms_total_reserves = reserves,
          ms_borrow_index = index\<rparr>)"

definition get_current_borrow_balance ::
    "'l loans_config \<Rightarrow> 'l loans_state \<Rightarrow> account_id \<Rightarrow> currency_id
     \<Rightarrow> loans_dispatch_error + (balance \<times> 'l loans_state)" where
  "get_current_borrow_balance C s borrower asset_id =
     bindE (accrue_interest C s asset_id) (\<lambda>s.
     bindE (current_borrow_balance C s borrower asset_id) (\<lambda>b. Inr (b, s)))"

definition get_current_collateral_balance ::
    "'l loans_config \<Rightarrow> 'l loans_state \<Rightarrow> account_id \<Rightarrow> currency_id \<Rightarrow> loans_dispatch_error + balance" where
  "get_current_collateral_balance C s supplier asset_id = current_collateral_balance C s supplier asset_id"

section \<open>Dispatch\<close>

datatype loans_call =
    AddMarket currency_id market
  | ActivateMarket currency_id
  | UpdateRateModel currency_id interest_rate_model
  | UpdateMarket currency_id "ratio option" "ratio option" "ratio option" "ratio option"
      "ratio option" "rate option" "balance option" "balance option"
  | ForceUpdateMarket currency_id market
  | AddReward balance
  | WithdrawMissingReward account_id balance
  | UpdateMarketRewardSpeed currency_id "balance option" "balance option"
  | ClaimReward
  | ClaimRewardForMarket currency_id
  | Mint currency_id balance
  | Redeem currency_id balance
  | RedeemAll currency_id
  | Borrow currency_id balance
  | RepayBorrow currency_id balance
  | RepayBorrowAll currency_id
  | CollateralAsset currency_id bool
  | LiquidateBorrow account_id currency_id balance currency_id
  | AddReserves account_id currency_id balance
  | ReduceReserves account_id currency_id balance
  | ReduceIncentiveReserves account_id currency_id balance
  | UpdateLiquidationFreeCollateral "currency_id list"

fun dispatch ::
    "'l loans_config \<Rightarrow> 'l loans_state \<Rightarrow> origin \<Rightarrow> loans_call \<Rightarrow> loans_dispatch_error + 'l loans_state" where
  "dispatch C s o' (AddMarket a m) = add_market C s o' a m"
| "dispatch C s o' (ActivateMarket a) = activate_market C s o' a"
| "dispatch C s o' (UpdateRateModel a r) = update_rate_model C s o' a r"
| "dispatch C s o' (UpdateMarket a cf lt rf clf lirf li sc bc) =
     update_market C s o' a cf lt rf clf lirf li sc bc"
| "dispatch C s o' (ForceUpdateMarket a m) = force_update_market C s o' a m"
| "dispatch C s o' (AddReward n) = add_reward C s o' n"
| "dispatch C s o' (WithdrawMissingReward t n) = withdraw_missing_reward C s o' t n"
| "dispatch C s o' (UpdateMarketRewardSpeed a x y) = update_market_reward_speed C s o' a x y"
| "dispatch C s o' ClaimReward = claim_reward C s o'"
| "dispatch C s o' (ClaimRewardForMarket a) = claim_reward_for_market C s o' a"
| "dispatch C s o' (Mint a n) = mint C s o' a n"
| "dispatch C s o' (Redeem a n) = redeem C s o' a n"
| "dispatch C s o' (RedeemAll a) = redeem_all C s o' a"
| "dispatch C s o' (Borrow a n) = borrow C s o' a n"
| "dispatch C s o' (RepayBorrow a n) = repay_borrow C s o' a n"
| "dispatch C s o' (RepayBorrowAll a) = repay_borrow_all C s o' a"
| "dispatch C s o' (CollateralAsset a b) = collateral_asset C s o' a b"
| "dispatch C s o' (LiquidateBorrow w a n c) = liquidate_borrow C s o' w a n c"
| "dispatch C s o' (AddReserves p a n) = add_reserves C s o' p a n"
| "dispatch C s o' (ReduceReserves r a n) = reduce_reserves C s o' r a n"
| "dispatch C s o' (ReduceIncentiveReserves r a n) = reduce_incentive_reserves C s o' r a n"
| "dispatch C s o' (UpdateLiquidationFreeCollateral cs) = update_liquidation_free_collateral C s o' cs"

end
