(* ===== verification/Loans_Ptoken.thy ===== *)
theory Loans_Ptoken
  imports Loans_Calls
begin

text \<open>
  Ptokens (src/pallets/loans/src/ptoken.rs): the vouchers of a market seen as a token of its own.
  The pallet implements \<open>fungibles::{Inspect, Transfer}\<close> over its storage, so other pallets can move
  vouchers between accounts.

  \<open>pt_can_deposit\<close> adds two balances with a plain \<open>+\<close>, which would panic on overflow; its result is
  \<open>None\<close> there.  The ledger contract \<open>fungibles_ledger\<close> is proved for ptokens, with the backing
  invariant of the vouchers as the validity of a state.
\<close>

definition pt_total_issuance :: "'l loans_state \<Rightarrow> currency_id \<Rightarrow> balance" where
  "pt_total_issuance s ptoken =
     (case underlying_id s ptoken of Inr u \<Rightarrow> total_supply s u | Inl _ \<Rightarrow> 0)"

definition pt_minimum_balance :: "'l loans_state \<Rightarrow> currency_id \<Rightarrow> balance" where
  "pt_minimum_balance s ptoken = 0"

definition pt_balance :: "'l loans_state \<Rightarrow> currency_id \<Rightarrow> account_id \<Rightarrow> balance" where
  "pt_balance s ptoken who =
     (case underlying_id s ptoken of
        Inr u \<Rightarrow> voucher_balance (get_deposits s u who)
      | Inl _ \<Rightarrow> 0)"

definition reducible_asset ::
    "'l loans_config \<Rightarrow> 'l loans_state \<Rightarrow> currency_id \<Rightarrow> account_id \<Rightarrow> loans_dispatch_error + balance" where
  "reducible_asset C s ptoken who =
     bindE (underlying_id s ptoken) (\<lambda>u.
     let d = get_deposits s u who in
     if \<not> is_collateral d then Inr (voucher_balance d)
     else
       bindE (ensure_active_market C s u) (\<lambda>m.
       bindE (collateral_asset_value C s who u) (\<lambda>collateral_value.
       bindE (get_account_liquidity C s who) (\<lambda>(liquidity, _, _, _).
       if liquidity \<ge> collateral_value then Inr (voucher_balance d)
       else
         bindE (get_price C u) (\<lambda>price.
         bindE (ok_or (fx_checked_div (lc_arith C) liquidity (fx_of_permill (lc_arith C) (collateral_factor m)))
                 (Arithmetic Overflow)) (\<lambda>reducible_supply_value.
         bindE (ok_or (fx_checked_div (lc_arith C) reducible_supply_value price)
                 (Arithmetic Underflow)) (\<lambda>reducible_underlying_amount.
         calc_collateral_amount C reducible_underlying_amount (exchange_rate s u))))))))"

definition pt_reducible_balance ::
    "'l loans_config \<Rightarrow> 'l loans_state \<Rightarrow> currency_id \<Rightarrow> account_id \<Rightarrow> bool \<Rightarrow> balance" where
  "pt_reducible_balance C s ptoken who keep_alive =
     (case reducible_asset C s ptoken who of Inr n \<Rightarrow> n | Inl _ \<Rightarrow> 0)"

definition pt_can_deposit ::
    "'l loans_config \<Rightarrow> 'l loans_state \<Rightarrow> currency_id \<Rightarrow> account_id \<Rightarrow> balance \<Rightarrow> bool
     \<Rightarrow> deposit_consequence option" where
  "pt_can_deposit C s ptoken who amount is_mint =
     (case underlying_id s ptoken of
        Inl _ \<Rightarrow> Some UnknownAsset
      | Inr u \<Rightarrow>
          (case ensure_active_market C s u of
             Inl _ \<Rightarrow> Some UnknownAsset
           | Inr _ \<Rightarrow>
               if checked_add (total_supply s u) amount = None then Some DepositOverflow
               else Option.bind (add_u128 (pt_balance s ptoken who) amount) (\<lambda>b.
                    Some (if b < pt_minimum_balance s ptoken then BelowMinimum else DepositSuccess))))"

definition pt_can_withdraw ::
    "'l loans_config \<Rightarrow> 'l loans_state \<Rightarrow> currency_id \<Rightarrow> account_id \<Rightarrow> balance \<Rightarrow> withdraw_consequence" where
  "pt_can_withdraw C s ptoken who amount =
     (case underlying_id s ptoken of
        Inl _ \<Rightarrow> WithdrawUnknownAsset
      | Inr u \<Rightarrow>
          (case ensure_active_market C s u of
             Inl _ \<Rightarrow> WithdrawUnknownAsset
           | Inr _ \<Rightarrow>
               (case checked_sub (pt_balance s ptoken who) amount of
                  None \<Rightarrow> NoFunds
                | Some rest \<Rightarrow>
                    if rest < pt_minimum_balance s ptoken then ReducedToZero rest else WithdrawSuccess)))"

definition pt_asset_exists :: "'l loans_state \<Rightarrow> currency_id \<Rightarrow> bool" where
  "pt_asset_exists s ptoken = is_ok (underlying_id s ptoken)"

definition do_transfer_ptokens ::
    "'l loans_config \<Rightarrow> 'l loans_state \<Rightarrow> currency_id \<Rightarrow> account_id \<Rightarrow> account_id \<Rightarrow> balance
     \<Rightarrow> loans_dispatch_error + 'l loans_state" where
  "do_transfer_ptokens C s ptoken source dest amount =
     bindE (update_reward_supply_index C s ptoken) (\<lambda>s.
     bindE (distribute_supplier_reward s ptoken source) (\<lambda>s.
     bindE (distribute_supplier_reward s ptoken dest) (\<lambda>s.
     bindE (underlying_id s ptoken) (\<lambda>u.
     bindE (withdraw_voucher s u source amount) (\<lambda>s.
     add_voucher s u dest amount)))))"

definition pt_transfer ::
    "'l loans_config \<Rightarrow> 'l loans_state \<Rightarrow> currency_id \<Rightarrow> account_id \<Rightarrow> account_id \<Rightarrow> balance \<Rightarrow> bool
     \<Rightarrow> loans_dispatch_error + 'l loans_state" where
  "pt_transfer C s ptoken source dest amount keep_alive =
     bindE (ensure (amount \<le> pt_reducible_balance C s ptoken source False) (Module InsufficientCollateral)) (\<lambda>_.
     do_transfer_ptokens C s ptoken source dest amount)"

section \<open>Ptokens satisfy the ledger contract\<close>

lemma do_transfer_ptokens_inv:
  assumes "do_transfer_ptokens C s p x y n = Inr s'"
  obtains s1 s2 s3 u s4 where "update_reward_supply_index C s p = Inr s1"
    "distribute_supplier_reward s1 p x = Inr s2" "distribute_supplier_reward s2 p y = Inr s3"
    "underlying_id s3 p = Inr u" "withdraw_voucher s3 u x n = Inr s4" "add_voucher s4 u y n = Inr s'"
  using assms unfolding do_transfer_ptokens_def by (elim resultE) (rule that)

lemma do_transfer_ptokensE:
  assumes "do_transfer_ptokens C s p x y n = Inr s'"
  obtains u t t' where "underlying_asset_id s p = Some u" "rewards_only s t"
    "withdraw_voucher t u x n = Inr t'" "add_voucher t' u y n = Inr s'"
  using assms
proof (rule do_transfer_ptokens_inv)
  fix s1 s2 s3 u s4
  assume r: "update_reward_supply_index C s p = Inr s1" "distribute_supplier_reward s1 p x = Inr s2"
      "distribute_supplier_reward s2 p y = Inr s3"
    and u: "underlying_id s3 p = Inr u"
    and v: "withdraw_voucher s3 u x n = Inr s4" "add_voucher s4 u y n = Inr s'"
  have ro: "rewards_only s s3" using r
    by (meson rewards_only_trans update_reward_supply_index_only distribute_supplier_reward_only)
  have "underlying_asset_id s p = Some u" using u by (simp add: underlying_id_def rewards_onlyD [OF ro])
  from this ro v show ?thesis by (rule that)
qed

lemma pt_transfer_effect:
  assumes "do_transfer_ptokens C s p x y n = Inr s'"
  shows "n \<le> pt_balance s p x \<and>
    pt_balance s' p z + (if z = x then n else 0) = pt_balance s p z + (if z = y then n else 0) \<and>
    underlying_asset_id s' = underlying_asset_id s \<and> total_supply s' = total_supply s \<and>
    (vouchers_backed s \<longrightarrow> vouchers_backed s')"
  using assms
proof (rule do_transfer_ptokensE)
  fix u t t'
  assume u: "underlying_asset_id s p = Some u" and ro: "rewards_only s t"
    and w: "withdraw_voucher t u x n = Inr t'" and a: "add_voucher t' u y n = Inr s'"
  note ro' = rewards_onlyD [OF ro] get_deposits_rewards [OF ro]
  note t' = withdraw_voucherD [OF w] and s' = add_voucherD(1) [OF a]
  have n: "n \<le> voucher_balance (get_deposits s u x)" using t'(1) by (simp add: ro')
  have bal: "voucher_balance (get_deposits s' u z) + (if z = x then n else 0) =
      voucher_balance (get_deposits s u z) + (if z = y then n else 0)"
    unfolding s' using n by (auto simp: t'(2) ro' default_deposits_def)
  have und: "underlying_asset_id s' = underlying_asset_id s" and sup: "total_supply s' = total_supply s"
    by (simp_all add: s' t'(2) ro')
  have "voucher_step s s' u n n"
    using voucher_step_trans [OF withdraw_voucher_step [OF w] add_voucher_step [OF a]]
      voucher_step_cong(1) [OF ro'(7,3)] by simp
  then have "vouchers_backed s \<longrightarrow> vouchers_backed s'"
    by (auto intro: vouchers_backed_shift [OF _ _ refl sup])
  with n bal und sup u show ?thesis by (simp add: pt_balance_def underlying_id_def)
qed

lemma pt_transfer_moves:
  assumes "do_transfer_ptokens C s p x y n = Inr s'"
  shows "n \<le> pt_balance s p x"
    and "pt_balance s' p z + (if z = x then n else 0) = pt_balance s p z + (if z = y then n else 0)"
    and "underlying_asset_id s' = underlying_asset_id s" and "total_supply s' = total_supply s"
    and "vouchers_backed s \<Longrightarrow> vouchers_backed s'"
  using pt_transfer_effect [OF assms] by blast+

lemma pt_transferD: "pt_transfer C s p x y n k = Inr s' \<Longrightarrow> do_transfer_ptokens C s p x y n = Inr s'"
  by (auto simp: pt_transfer_def)

interpretation pt: fungibles_ledger pt_balance pt_minimum_balance pt_total_issuance "pt_transfer C"
  vouchers_backed for C
proof (unfold_locales, goal_cases)
  case (1 l a x y n k l')
  then show ?case by (blast dest: pt_transferD pt_transfer_moves(1))
next
  case (2 l a x y n k l' z)
  then show ?case using pt_transfer_moves(2) [OF pt_transferD] by blast
next
  case (3 l a x y n k l' b)
  from pt_transfer_moves(3,4) [OF pt_transferD [OF 3(2)]] show ?case
    by (simp add: pt_total_issuance_def underlying_id_def split: sum.split)
next
  case (4 l a x y n k l')
  then show ?case by (blast dest: pt_transferD pt_transfer_moves(5))
qed

end
