(* ===== verification/Loans_Invariants.thy ===== *)
theory Loans_Invariants
  imports Loans_Ptoken
begin

text \<open>
  The loans pallet over time.  An action is a dispatched call, a ptoken transfer asked for by another
  pallet, or a balance query of another pallet (which accrues interest); every action runs in the
  block environment of its own, so time, prices and block number change freely between actions.

  The invariant \<open>loans_inv\<close> holds at genesis and is kept by every action: the supply of vouchers is
  backed, ptokens map back to their markets, the stored rate models passed \<open>check_model\<close>, the
  stored exchange rates are in range, and no borrow snapshot is ahead of its market's index.
\<close>

datatype loans_action =
    Call origin loans_call
  | PtokenTransfer currency_id account_id account_id balance bool
  | BorrowBalanceQuery account_id currency_id

definition exec_action ::
    "'l loans_state \<Rightarrow> 'l loans_config \<times> loans_action \<Rightarrow> loans_dispatch_error + 'l loans_state" where
  "exec_action s act =
     (case act of
        (C, Call o' c) \<Rightarrow> dispatch C s o' c
      | (C, PtokenTransfer p x y n k) \<Rightarrow> pt_transfer C s p x y n k
      | (C, BorrowBalanceQuery w a) \<Rightarrow>
          bindE (get_current_borrow_balance C s w a) (\<lambda>(_, s). Inr s))"

definition lawful_env :: "'l loans_config \<times> loans_action \<Rightarrow> bool" where
  "lawful_env act \<longleftrightarrow> sp_arith_laws (lc_arith (fst act))"

definition genesis :: "'l \<Rightarrow> 'l loans_state" where
  "genesis l = \<lparr>
     last_accrued_interest_time = (\<lambda>_. 0), liquidation_free_collaterals = [],
     total_supply = (\<lambda>_. 0), total_borrows = (\<lambda>_. 0), total_reserves = (\<lambda>_. 0),
     account_borrows = (\<lambda>_ _. \<lparr>bs_principal = 0, bs_borrow_index = 0\<rparr>),
     account_deposits = (\<lambda>_. Map.empty),
     account_earned = (\<lambda>_ _. \<lparr>es_total_earned_prior = 0, es_exchange_rate_prior = 0\<rparr>),
     borrow_index = (\<lambda>_. 0), exchange_rate = (\<lambda>_. 0), borrow_rate = (\<lambda>_. 0),
     supply_rate = (\<lambda>_. 0), utilization_ratio = (\<lambda>_. 0), markets = Map.empty,
     underlying_asset_id = Map.empty, reward_supply_speed = (\<lambda>_. 0), reward_borrow_speed = (\<lambda>_. 0),
     reward_supply_state = (\<lambda>_. \<lparr>rm_index = 0, rm_block = 0\<rparr>),
     reward_borrow_state = (\<lambda>_. \<lparr>rm_index = 0, rm_block = 0\<rparr>),
     reward_supplier_index = (\<lambda>_ _. 0), reward_borrower_index = (\<lambda>_ _. 0),
     reward_accrued = (\<lambda>_. 0), ledger = l, events = []\<rparr>"

section \<open>The invariant\<close>

definition ptoken_registry :: "'l loans_state \<Rightarrow> bool" where
  "ptoken_registry s \<longleftrightarrow>
     (\<forall>a m. markets s a = Some m \<longrightarrow> underlying_asset_id s (ptoken_id_of m) = Some a)"

definition models_checked :: "'l loans_state \<Rightarrow> bool" where
  "models_checked s \<longleftrightarrow> (\<forall>a m. markets s a = Some m \<longrightarrow> check_model (rate_model_of m))"

definition rates_in_range :: "'l loans_state \<Rightarrow> bool" where
  "rates_in_range s \<longleftrightarrow>
     (\<forall>a m. markets s a = Some m \<longrightarrow>
        MIN_EXCHANGE_RATE \<le> exchange_rate s a \<and> exchange_rate s a < MAX_EXCHANGE_RATE)"

definition snapshots_behind :: "'l loans_state \<Rightarrow> bool" where
  "snapshots_behind s \<longleftrightarrow>
     (\<forall>a. markets s a \<noteq> None \<longrightarrow> FX \<le> borrow_index s a) \<and>
     (\<forall>a w. bs_borrow_index (account_borrows s a w) \<le> borrow_index s a \<and>
        (markets s a = None \<longrightarrow> bs_borrow_index (account_borrows s a w) = 0) \<and>
        (bs_principal (account_borrows s a w) \<noteq> 0 \<longrightarrow> FX \<le> bs_borrow_index (account_borrows s a w)))"

definition loans_inv :: "'l loans_state \<Rightarrow> bool" where
  "loans_inv s \<longleftrightarrow>
     vouchers_backed s \<and> ptoken_registry s \<and> models_checked s \<and> rates_in_range s \<and> snapshots_behind s"

section \<open>What operations on positions may change\<close>

text \<open>
  \<open>evolves s s'\<close>: markets and their registry are the same, time and borrow indexes have not gone
  back, a new exchange rate is in range, a new borrow snapshot is of an existing market and not ahead
  of its index, and backing is kept.
\<close>

definition evolves :: "'l loans_state \<Rightarrow> 'l loans_state \<Rightarrow> bool" where
  "evolves s s' \<longleftrightarrow>
     markets s' = markets s \<and> underlying_asset_id s' = underlying_asset_id s \<and>
     (\<forall>a. borrow_index s a \<le> borrow_index s' a) \<and>
     (\<forall>a. last_accrued_interest_time s a \<le> last_accrued_interest_time s' a) \<and>
     (\<forall>a. exchange_rate s' a = exchange_rate s a \<or>
        MIN_EXCHANGE_RATE \<le> exchange_rate s' a \<and> exchange_rate s' a < MAX_EXCHANGE_RATE) \<and>
     (\<forall>a w. account_borrows s' a w = account_borrows s a w \<or>
        markets s a \<noteq> None \<and> borrow_index s a \<le> bs_borrow_index (account_borrows s' a w) \<and>
        bs_borrow_index (account_borrows s' a w) \<le> borrow_index s' a) \<and>
     (vouchers_backed s \<longrightarrow> vouchers_backed s')"

lemma evolves_refl [simp]: "evolves s s"
  by (simp add: evolves_def)

lemma evolves_trans:
  assumes "evolves s t" and "evolves t u"
  shows "evolves s u"
proof -
  have snap: "account_borrows u a w = account_borrows s a w \<or>
      markets s a \<noteq> None \<and> borrow_index s a \<le> bs_borrow_index (account_borrows u a w) \<and>
      bs_borrow_index (account_borrows u a w) \<le> borrow_index u a" for a w
    using assms unfolding evolves_def by (metis order_trans)
  have rate: "exchange_rate u a = exchange_rate s a \<or>
      MIN_EXCHANGE_RATE \<le> exchange_rate u a \<and> exchange_rate u a < MAX_EXCHANGE_RATE" for a
    using assms unfolding evolves_def by metis
  have time: "borrow_index s a \<le> borrow_index u a"
      "last_accrued_interest_time s a \<le> last_accrued_interest_time u a" for a
    using assms unfolding evolves_def by (meson order_trans)+
  show ?thesis unfolding evolves_def using assms snap rate time by (simp add: evolves_def)
qed

lemma evolves_snapshots:
  assumes "evolves s s'" and "snapshots_behind s"
  shows "snapshots_behind s'"
proof -
  have mk: "markets s' = markets s" using assms(1) by (simp add: evolves_def)
  have idx: "borrow_index s a \<le> borrow_index s' a" for a using assms(1) by (simp add: evolves_def)
  have one: "FX \<le> borrow_index s a" if "markets s a \<noteq> None" for a
    using assms(2) that by (simp add: snapshots_behind_def)
  have snap: "bs_borrow_index (account_borrows s' a w) \<le> borrow_index s' a \<and>
      (markets s a = None \<longrightarrow> bs_borrow_index (account_borrows s' a w) = 0) \<and>
      (bs_principal (account_borrows s' a w) \<noteq> 0 \<longrightarrow> FX \<le> bs_borrow_index (account_borrows s' a w))" for a w
  proof (cases "account_borrows s' a w = account_borrows s a w")
    case True
    moreover have "bs_borrow_index (account_borrows s a w) \<le> borrow_index s' a"
      using assms(2) idx [of a] by (meson order_trans snapshots_behind_def)
    ultimately show ?thesis using assms(2) by (simp add: snapshots_behind_def)
  next
    case False
    then have "markets s a \<noteq> None" "borrow_index s a \<le> bs_borrow_index (account_borrows s' a w)"
      "bs_borrow_index (account_borrows s' a w) \<le> borrow_index s' a"
      using assms(1) unfolding evolves_def by blast+
    with one [of a] show ?thesis by simp
  qed
  have "FX \<le> borrow_index s' a" if "markets s a \<noteq> None" for a
    using one [OF that] idx [of a] by (rule order_trans)
  with snap show ?thesis by (simp add: snapshots_behind_def mk)
qed

lemma evolves_inv:
  assumes "evolves s s'" and "loans_inv s"
  shows "loans_inv s'"
proof -
  have "MIN_EXCHANGE_RATE \<le> exchange_rate s' a \<and> exchange_rate s' a < MAX_EXCHANGE_RATE"
    if "markets s a = Some m" for a m
  proof -
    have "MIN_EXCHANGE_RATE \<le> exchange_rate s a \<and> exchange_rate s a < MAX_EXCHANGE_RATE"
      using assms(2) that by (simp add: loans_inv_def rates_in_range_def)
    with assms(1) show ?thesis unfolding evolves_def by metis
  qed
  then have "rates_in_range s'" using assms(1) by (simp add: rates_in_range_def evolves_def)
  moreover have "snapshots_behind s'" using assms by (simp add: loans_inv_def evolves_snapshots)
  ultimately show ?thesis
    using assms by (simp add: loans_inv_def ptoken_registry_def models_checked_def evolves_def)
qed

lemma evolves_frame:
  assumes "same_pool s s'" and "account_borrows s' = account_borrows s"
    and "vouchers_backed s \<Longrightarrow> vouchers_backed s'"
  shows "evolves s s'"
  using assms by (simp add: evolves_def same_pool_def)

lemma evolves_same:
  assumes "same_pool s s'" and "account_borrows s' = account_borrows s"
    and "account_deposits s' = account_deposits s" and "total_supply s' = total_supply s"
  shows "evolves s s'"
  by (rule evolves_frame [OF assms(1,2)]) (simp add: vouchers_backed_cong [OF assms(3,4)])

lemma evolves_rewards: "rewards_only s s' \<Longrightarrow> evolves s s'"
  by (rule evolves_same) (simp_all add: rewards_only_def same_pool_def)

lemma evolves_event [simp]: "evolves s (deposit_event e s)"
  by (rule evolves_rewards) simp

lemma evolves_transfer: "transfer_assets C s a x y n k = Inr s' \<Longrightarrow> evolves s s'"
  by (drule transfer_assetsD, elim exE conjE) (auto intro!: evolves_same simp: same_pool_def)

lemma evolves_earned: "update_earned_stored C s w a e = Inr s' \<Longrightarrow> evolves s s'"
  by (auto simp: update_earned_stored_def Let_def same_pool_def intro!: evolves_same)

text \<open>A new snapshot taken at the current index.\<close>

lemma evolves_snapshot:
  assumes "same_pool s s'" and "markets s a \<noteq> None"
    and "account_borrows s' = (account_borrows s)(a := (account_borrows s a)(w :=
           \<lparr>bs_principal = n, bs_borrow_index = borrow_index s a\<rparr>))"
    and "vouchers_backed s \<Longrightarrow> vouchers_backed s'"
  shows "evolves s s'"
  using assms by (auto simp: evolves_def same_pool_def)

lemma accrue_interest_evolves:
  assumes "accrue_interest C s a = Inr s'" and laws: "sp_arith_laws (lc_arith C)"
  shows "evolves s s'"
proof -
  note ac = accruedD [OF accrue_interest_accrued [OF assms]]
  have rate: "exchange_rate s' b = exchange_rate s b \<or>
      MIN_EXCHANGE_RATE \<le> exchange_rate s' b \<and> exchange_rate s' b < MAX_EXCHANGE_RATE" for b
    using assms(1)
  proof (cases rule: accrue_interestE)
    case (stale br sr er u bo r i)
    from stale(3) laws have "MIN_EXCHANGE_RATE \<le> er \<and> er < MAX_EXCHANGE_RATE"
      by (rule get_market_statusD) (rule calculate_exchange_rate_valid)
    with stale(4) show ?thesis by simp
  qed (simp_all add: update_last_accrued_interest_time_def)
  show ?thesis
    unfolding evolves_def using rate vouchers_backed_cong [OF ac(1,4)]
    by (simp add: ac(2,5,6,22,23))
qed

section \<open>The operations evolve the state\<close>

lemma active_market_exists: "ensure_active_market C s a = Inr m \<Longrightarrow> markets s a \<noteq> None"
  by (drule ensure_active_marketD) (simp add: active_markets_mem)

lemma do_mint_evolves:
  assumes "do_mint C s w a n = Inr s'" and laws: "sp_arith_laws (lc_arith C)"
  shows "evolves s s'"
  using assms
proof (rule do_mintE)
  fix s1
  assume acc: "accrue_interest C s a = Inr s1" and b: "account_borrows s' = account_borrows s"
    and p: "same_pool s1 s'"
  note ac = accruedD [OF accrue_interest_accrued [OF acc laws]]
  have "evolves s1 s'"
    using p b do_mint_backed [OF assms] accrue_interest_backed [OF acc laws]
    by (intro evolves_frame) (simp_all add: ac(2))
  with accrue_interest_evolves [OF acc laws] show ?thesis by (rule evolves_trans)
qed

lemma do_redeem_voucher_evolves:
  assumes "do_redeem_voucher C s w a v = Inr p" and laws: "sp_arith_laws (lc_arith C)"
  shows "evolves s (snd p)"
proof -
  from assms(1) have "do_redeem_voucher C s w a v = Inr (fst p, snd p)" by simp
  then show ?thesis using laws
    by (rule do_redeem_voucherE) (rule evolves_frame, assumption+, rule do_redeem_voucher_backed [OF assms])
qed

lemma do_redeem_evolves:
  assumes "do_redeem C s w a n = Inr s'" and laws: "sp_arith_laws (lc_arith C)"
  shows "evolves s s'"
  using assms(1) by (rule do_redeem_inv)
    (metis evolves_trans evolves_event evolves_earned accrue_interest_evolves [OF _ laws]
      do_redeem_voucher_evolves [OF _ laws])

lemma do_borrow_evolves:
  assumes "do_borrow C s w a n = Inr s'" and laws: "sp_arith_laws (lc_arith C)"
  shows "evolves s s'"
  using assms
proof (rule do_borrowE)
  fix m s1 b
  assume acc: "accrue_interest C s a = Inr s1" and act: "ensure_active_market C s a = Inr m"
    and b: "account_borrows s' = (account_borrows s)(a := (account_borrows s a)(w :=
       \<lparr>bs_principal = b + n, bs_borrow_index = borrow_index s1 a\<rparr>))"
    and p: "same_pool s1 s'"
  note ac = accruedD [OF accrue_interest_accrued [OF acc laws]]
  have "markets s1 a \<noteq> None" using active_market_exists [OF act] by (simp add: ac(5))
  with p have "evolves s1 s'"
    by (rule evolves_snapshot)
      (use b do_borrow_backed [OF assms] accrue_interest_backed [OF acc laws] in \<open>simp_all add: ac(2)\<close>)
  with accrue_interest_evolves [OF acc laws] show ?thesis by (rule evolves_trans)
qed

lemma do_repay_borrow_evolves:
  assumes "do_repay_borrow C s w a n = Inr s'" and laws: "sp_arith_laws (lc_arith C)"
  shows "evolves s s'"
  using assms(1)
proof (rule do_repay_borrow_inv)
  fix m s1 b s2
  assume act: "ensure_active_market C s a = Inr m" and acc: "accrue_interest C s a = Inr s1"
    and s': "s' = deposit_event (RepaidBorrow w a n) s2"
    and rep: "do_repay_borrow_with_amount C s1 w a b n = Inr s2"
  have ex: "markets s1 a \<noteq> None"
    using active_market_exists [OF act] accruedD(5) [OF accrue_interest_accrued [OF acc laws]] by simp
  from rep have bk: "vouchers_backed s2 = vouchers_backed s1"
    by (rule do_repay_borrow_with_amountE) (rule vouchers_backed_cong)
  from rep have "evolves s1 s2"
    by (rule do_repay_borrow_with_amountE) (rule evolves_snapshot [OF _ ex], assumption+, simp only: bk)
  then show ?thesis unfolding s'
    by (meson evolves_trans evolves_event accrue_interest_evolves [OF acc laws])
qed

lemma do_collateral_asset_evolves:
  assumes "do_collateral_asset C s w a en = Inr s'"
  shows "evolves s s'"
  using assms by (rule do_collateral_assetE)
    (rule evolves_frame, assumption+, rule do_collateral_asset_backed [OF assms])

lemma do_liquidate_borrow_evolves:
  assumes "do_liquidate_borrow C s liq bor la n ca = Inr s'" and laws: "sp_arith_laws (lc_arith C)"
  shows "evolves s s'"
  using assms(1)
proof (rule do_liquidate_borrow_inv)
  fix m1 m cu
  assume act: "ensure_active_market C s la = Inr m1"
    and lt: "liquidated_transfer C s liq bor la ca n cu m = Inr s'"
  from lt laws show ?thesis
  proof (rule liquidated_transferE)
    fix b seized reserved inc
    assume "liquidated C s s' liq bor la ca n b seized reserved inc"
    then have "same_pool s s'" and "account_borrows s' = (account_borrows s)(la := (account_borrows s la)(bor :=
       \<lparr>bs_principal = b - n, bs_borrow_index = borrow_index s la\<rparr>))"
      by (simp_all only: liquidated_def)
    then show ?thesis
      by (intro evolves_snapshot [OF _ active_market_exists [OF act]] liquidated_transfer_backed [OF lt laws])
  qed
qed

lemma collect_market_reward_evolves: "collect_market_reward C s a w = Inr s' \<Longrightarrow> evolves s s'"
  by (intro evolves_rewards collect_market_reward_only)

lemma pay_reward_inv:
  assumes "pay_reward C s w = Inr s'"
  obtains "reward_accrued s w = 0" "s' = deposit_event (RewardPaid w 0) s"
  | l pool where "0 < reward_accrued s w" "reward_account_id C = Inr pool"
    "ft_transfer (lc_assets C) (ledger s) (lc_reward_asset C) pool w (reward_accrued s w) True = Inr l"
    "s' = deposit_event (RewardPaid w (reward_accrued s w))
       (s\<lparr>ledger := l, reward_accrued := (reward_accrued s)(w := 0)\<rparr>)"
proof (cases "reward_accrued s w = 0")
  case True
  with assms have "s' = deposit_event (RewardPaid w 0) s" by (auto simp: pay_reward_def)
  with True show ?thesis by (rule that(1))
next
  case False
  with assms obtain pool t where "reward_account_id C = Inr pool"
    and t: "transfer_assets C s (lc_reward_asset C) pool w (reward_accrued s w) True = Inr t"
    and s': "s' = deposit_event (RewardPaid w (reward_accrued s w)) (t\<lparr>reward_accrued := (reward_accrued t)(w := 0)\<rparr>)"
    unfolding pay_reward_def Let_def by (auto elim!: bindE_InrE)
  from transfer_assetsD [OF t] obtain l where t': "t = s\<lparr>ledger := l\<rparr>"
    and l: "ft_transfer (lc_assets C) (ledger s) (lc_reward_asset C) pool w (reward_accrued s w) True = Inr l"
    by blast
  show ?thesis by (rule that(2) [OF _ \<open>reward_account_id C = Inr pool\<close> l]) (use False in \<open>simp_all add: s' t'\<close>)
qed

lemma pay_reward_evolves: "pay_reward C s w = Inr s' \<Longrightarrow> evolves s s'"
  by (erule pay_reward_inv)
    (simp, rule evolves_same, simp_all add: same_pool_def)

lemma pt_transfer_evolves:
  assumes "pt_transfer C s p x y n k = Inr s'"
  shows "evolves s s'"
  using pt_transferD [OF assms]
proof (rule do_transfer_ptokensE)
  fix u t t'
  assume ro: "rewards_only s t" and w: "withdraw_voucher t u x n = Inr t'" and a: "add_voucher t' u y n = Inr s'"
  have "same_pool s s' \<and> account_borrows s' = account_borrows s"
    by (simp add: same_pool_def add_voucherD(1) [OF a] withdraw_voucherD(2) [OF w] rewards_onlyD [OF ro])
  then show ?thesis using pt_transfer_moves(5) [OF pt_transferD [OF assms]] by (intro evolves_frame) simp_all
qed

section \<open>Calls\<close>

lemma claim_reward_evolves: "claim_reward C s o' = Inr s' \<Longrightarrow> evolves s s'"
  unfolding claim_reward_def
proof (elim resultE)
  fix w t
  assume "foldE (\<lambda>asset_id s. collect_market_reward C s asset_id w)
      (map fst (storage_iter (lc_market_keys C) (markets s))) s = Inr t"
  then have "evolves s t"
    by (rule foldE_invariant) (auto intro: evolves_trans collect_market_reward_evolves)
  moreover assume "pay_reward C t w = Inr s'"
  ultimately show ?thesis by (blast intro: evolves_trans pay_reward_evolves)
qed

lemma redeem_all_evolves:
  assumes "redeem_all C s o' a = Inr s'" and laws: "sp_arith_laws (lc_arith C)"
  shows "evolves s s'"
  using assms(1) unfolding redeem_all_def Let_def case_prod_beta
  by (elim resultE) (metis evolves_trans evolves_event evolves_earned accrue_interest_evolves [OF _ laws]
      do_redeem_voucher_evolves [OF _ laws])

lemma reward_speed_evolves:
  assumes "update_market_reward_speed C s o' a x y = Inr s'"
  shows "evolves s s'"
proof -
  have sp: "evolves t (t\<lparr>reward_supply_speed := f\<rparr>)" "evolves t (t\<lparr>reward_borrow_speed := f\<rparr>)"
    for t :: "'a loans_state" and f
    by (rule evolves_same; simp add: same_pool_def)+
  have sup: "evolves t u" if "(if b then bindE (update_reward_supply_index C t a)
      (\<lambda>s. Inr (s\<lparr>reward_supply_speed := (reward_supply_speed s)(a := v)\<rparr>)) else Inr t) = Inr u" for b t u v
    using that by (auto split: if_splits
        intro: evolves_trans [OF evolves_rewards [OF update_reward_supply_index_only] sp(1)])
  have bor: "evolves t u" if "(if b then bindE (update_reward_borrow_index C t a)
      (\<lambda>s. Inr (s\<lparr>reward_borrow_speed := (reward_borrow_speed s)(a := v)\<rparr>)) else Inr t) = Inr u" for b t u v
    using that by (auto split: if_splits
        intro: evolves_trans [OF evolves_rewards [OF update_reward_borrow_index_only] sp(2)])
  from assms show ?thesis unfolding update_market_reward_speed_def Let_def
    by (elim bindE_InrE Inr_InrE, hypsubst, intro evolves_trans [OF evolves_trans [OF sup bor] evolves_event])
qed

lemma reserves_evolves [simp]: "evolves s (s\<lparr>liquidation_free_collaterals := cs\<rparr>)"
  by (simp add: evolves_def vouchers_backed_def voucher_total_def)

lemma total_reserves_evolves [simp]: "evolves s (s\<lparr>total_reserves := f\<rparr>)"
  by (simp add: evolves_def vouchers_backed_def voucher_total_def)

text \<open>Composition: \<open>evolves_step\<close> peels off the last step of a chain.\<close>

lemma evolves_step: "evolves t u \<Longrightarrow> evolves s t \<Longrightarrow> evolves s u"
  by (rule evolves_trans)

lemma reserve_calls_evolve:
  assumes laws: "sp_arith_laws (lc_arith C)"
  shows "add_reserves C s o' p a n = Inr s' \<Longrightarrow> evolves s s'"
    and "reduce_reserves C s o' r a n = Inr s' \<Longrightarrow> evolves s s'"
    and "reduce_incentive_reserves C s o' r a n = Inr s' \<Longrightarrow> evolves s s'"
proof -
  show "add_reserves C s o' p a n = Inr s' \<Longrightarrow> evolves s s'"
    unfolding add_reserves_def
    by (elim resultE, hypsubst, rule evolves_step [OF evolves_event], rule evolves_step [OF total_reserves_evolves],
        erule evolves_transfer)
  show "reduce_reserves C s o' r a n = Inr s' \<Longrightarrow> evolves s s'"
    unfolding reduce_reserves_def Let_def
    by (elim resultE, hypsubst, rule evolves_step [OF evolves_event], erule evolves_step [OF evolves_transfer],
        rule total_reserves_evolves)
  show "reduce_incentive_reserves C s o' r a n = Inr s' \<Longrightarrow> evolves s s'"
    unfolding reduce_incentive_reserves_def case_prod_beta
    by (elim resultE, hypsubst, rule evolves_step [OF evolves_event], erule evolves_step [OF evolves_transfer],
        erule do_redeem_voucher_evolves [OF _ laws])
qed

lemma reward_pool_calls_evolve:
  "add_reward C s o' n = Inr s' \<Longrightarrow> evolves s s'"
  "withdraw_missing_reward C s o' t n = Inr s' \<Longrightarrow> evolves s s'"
  unfolding add_reward_def withdraw_missing_reward_def
  by (elim resultE, hypsubst, rule evolves_step [OF evolves_event], erule evolves_transfer)+

lemma position_calls_evolve:
  assumes laws: "sp_arith_laws (lc_arith C)"
  shows "mint C s o' a n = Inr s' \<Longrightarrow> evolves s s'"
    and "redeem C s o' a n = Inr s' \<Longrightarrow> evolves s s'"
    and "borrow C s o' a n = Inr s' \<Longrightarrow> evolves s s'"
    and "repay_borrow C s o' a n = Inr s' \<Longrightarrow> evolves s s'"
    and "collateral_asset C s o' a en = Inr s' \<Longrightarrow> evolves s s'"
    and "update_liquidation_free_collateral C s o' cs = Inr s' \<Longrightarrow> evolves s s'"
  unfolding mint_def redeem_def borrow_def repay_borrow_def collateral_asset_def
    update_liquidation_free_collateral_def
  by (elim resultE; auto intro: evolves_step [OF evolves_event] do_mint_evolves [OF _ laws]
      do_redeem_evolves [OF _ laws] do_borrow_evolves [OF _ laws] do_repay_borrow_evolves [OF _ laws]
      do_collateral_asset_evolves)+

lemma accruing_calls_evolve:
  assumes laws: "sp_arith_laws (lc_arith C)"
  shows "repay_borrow_all C s o' a = Inr s' \<Longrightarrow> evolves s s'"
    and "liquidate_borrow C s o' w a n c = Inr s' \<Longrightarrow> evolves s s'"
    and "claim_reward_for_market C s o' a = Inr s' \<Longrightarrow> evolves s s'"
proof -
  show "repay_borrow_all C s o' a = Inr s' \<Longrightarrow> evolves s s'"
    unfolding repay_borrow_all_def
    by (elim resultE, erule evolves_step [OF do_repay_borrow_evolves [OF _ laws]],
        erule accrue_interest_evolves [OF _ laws])
  show "liquidate_borrow C s o' w a n c = Inr s' \<Longrightarrow> evolves s s'"
    unfolding liquidate_borrow_def
    by (elim resultE, erule evolves_step [OF do_liquidate_borrow_evolves [OF _ laws]],
        erule evolves_step [OF accrue_interest_evolves [OF _ laws]], erule accrue_interest_evolves [OF _ laws])
  show "claim_reward_for_market C s o' a = Inr s' \<Longrightarrow> evolves s s'"
    unfolding claim_reward_for_market_def
    by (elim resultE, erule evolves_step [OF pay_reward_evolves], erule collect_market_reward_evolves)
qed

section \<open>Market administration\<close>

text \<open>
  \<open>advances s s'\<close>: markets and ptoken bindings are permanent, and the borrow index of a market and
  the clock of every market never go back.
\<close>

definition advances :: "'l loans_state \<Rightarrow> 'l loans_state \<Rightarrow> bool" where
  "advances s s' \<longleftrightarrow>
     dom (markets s) \<subseteq> dom (markets s') \<and> underlying_asset_id s \<subseteq>\<^sub>m underlying_asset_id s' \<and>
     (\<forall>a\<in>dom (markets s). borrow_index s a \<le> borrow_index s' a) \<and>
     (\<forall>a. last_accrued_interest_time s a \<le> last_accrued_interest_time s' a)"

lemma advances_refl: "advances s s"
  by (simp add: advances_def)

lemma advances_trans:
  assumes "advances s t" and "advances t u"
  shows "advances s u"
proof -
  have "underlying_asset_id s \<subseteq>\<^sub>m underlying_asset_id u"
    using assms by (auto simp: advances_def intro: map_le_trans)
  moreover have "last_accrued_interest_time s a \<le> last_accrued_interest_time u a" for a
    using assms unfolding advances_def by (meson order_trans)
  moreover have "borrow_index s a \<le> borrow_index u a" if "a \<in> dom (markets s)" for a
    using assms that unfolding advances_def by (meson order_trans subsetD)
  moreover have "dom (markets s) \<subseteq> dom (markets u)"
    using assms unfolding advances_def by (meson order_trans)
  ultimately show ?thesis unfolding advances_def by simp
qed

lemma evolves_advances: "evolves s s' \<Longrightarrow> advances s s'"
  by (simp add: evolves_def advances_def)

lemma registry_put:
  assumes "ptoken_registry s" and "underlying_asset_id s (ptoken_id_of m) \<in> {None, Some a}"
    and "markets s' = (markets s)(a \<mapsto> m)"
    and "underlying_asset_id s' = (underlying_asset_id s)(ptoken_id_of m \<mapsto> a)"
  shows "ptoken_registry s'"
proof -
  have "underlying_asset_id s' (ptoken_id_of n) = Some b" if n: "markets s' b = Some n" for b n
  proof (cases "b = a")
    case True
    with n show ?thesis by (simp add: assms(3,4))
  next
    case False
    with n have "underlying_asset_id s (ptoken_id_of n) = Some b"
      using assms(1) by (simp add: assms(3) ptoken_registry_def)
    with False assms(2) show ?thesis by (auto simp: assms(4))
  qed
  then show ?thesis by (simp add: ptoken_registry_def)
qed

text \<open>Writing the entry of a market that exists, with a checked model and a ptoken bound to it.\<close>

lemma put_market_inv:
  assumes "loans_inv s" and "markets s a \<noteq> None" and "check_model (rate_model_of m)"
    and "markets s' = (markets s)(a \<mapsto> m)"
    and "underlying_asset_id s' = (underlying_asset_id s)(ptoken_id_of m \<mapsto> a)"
    and "underlying_asset_id s (ptoken_id_of m) \<in> {None, Some a}"
    and "exchange_rate s' = exchange_rate s" and "borrow_index s' = borrow_index s"
    and "account_borrows s' = account_borrows s" and "account_deposits s' = account_deposits s"
    and "total_supply s' = total_supply s"
    and "last_accrued_interest_time s' = last_accrued_interest_time s"
  shows "loans_inv s' \<and> advances s s'"
proof -
  have "ptoken_registry s'"
    by (rule registry_put [OF _ assms(6,4,5)]) (use assms(1) in \<open>simp add: loans_inv_def\<close>)
  moreover have "models_checked s'"
    using assms(1,3) by (auto simp: loans_inv_def models_checked_def assms(4))
  moreover have "rates_in_range s'"
    using assms(1,2) by (auto simp: loans_inv_def rates_in_range_def assms(4,7))
  moreover have "markets s' b = None \<longleftrightarrow> markets s b = None" for b using assms(2) by (simp add: assms(4))
  then have "snapshots_behind s'"
    using assms(1) by (simp add: loans_inv_def snapshots_behind_def assms(8,9))
  moreover have "vouchers_backed s'"
    using assms(1) vouchers_backed_cong [OF assms(10,11)] by (simp add: loans_inv_def)
  moreover have "underlying_asset_id s \<subseteq>\<^sub>m underlying_asset_id s'"
    using assms(6) by (auto simp: assms(5) map_le_def)
  ultimately show ?thesis
    by (auto simp: loans_inv_def advances_def assms(4,8,12))
qed

text \<open>A change of a market that keeps its ptoken and has a checked model.\<close>

lemma mutate_market_inv:
  assumes "loans_inv s" and mm: "mutate_market s a f = Inr p"
    and "\<And>m. check_model (rate_model_of m) \<Longrightarrow> check_model (rate_model_of (f m))"
    and "\<And>m. ptoken_id_of (f m) = ptoken_id_of m"
  shows "loans_inv (deposit_event e (snd p)) \<and> advances s (deposit_event e (snd p))"
proof -
  from mm obtain m where m: "markets s a = Some m"
    and p: "snd p = s\<lparr>markets := (markets s)(a \<mapsto> f m)\<rparr>"
    by (auto simp: mutate_market_def split: option.splits)
  have und: "underlying_asset_id s (ptoken_id_of (f m)) = Some a"
    using assms(1,4) m by (simp add: loans_inv_def ptoken_registry_def)
  then have "(underlying_asset_id s)(ptoken_id_of (f m) \<mapsto> a) = underlying_asset_id s" by auto
  moreover have "check_model (rate_model_of (f m))"
    using assms(1,3) m by (simp add: loans_inv_def models_checked_def)
  ultimately show ?thesis
    by (intro put_market_inv [OF assms(1), of a "f m"]) (use m und in \<open>simp_all add: p\<close>)
qed

lemma add_market_cases:
  assumes "add_market C s o' a m = Inr s'"
  obtains "lc_update_origin C o'" "markets s a = None" "state_of m = Pending"
    "check_model (rate_model_of m)" "0 \<le> collateral_factor m \<and> collateral_factor m < PM"
    "liquidation_threshold m < PM \<and> collateral_factor m \<le> liquidation_threshold m"
    "0 < reserve_factor m \<and> reserve_factor m < PM"
    "0 < liquidate_incentive_reserved_factor m \<and> liquidate_incentive_reserved_factor m < PM"
    "0 < supply_cap m" "underlying_asset_id s (ptoken_id_of m) = None" "markets s (ptoken_id_of m) = None"
    "s' = deposit_event (NewMarket a m)
       (s\<lparr>markets := (markets s)(a \<mapsto> m),
          underlying_asset_id := (underlying_asset_id s)(ptoken_id_of m \<mapsto> a),
          exchange_rate := (exchange_rate s)(a := MIN_EXCHANGE_RATE),
          borrow_index := (borrow_index s)(a := FX)\<rparr>)"
  using assms unfolding add_market_def ensure_ptoken_def by (elim resultE) (rule that)

lemma add_market_inv:
  assumes "add_market C s o' a m = Inr s'" and "loans_inv s"
  shows "loans_inv s' \<and> advances s s'"
  using assms(1)
proof (rule add_market_cases)
  assume new: "markets s a = None" and cm: "check_model (rate_model_of m)"
    and pt: "underlying_asset_id s (ptoken_id_of m) = None"
    and s': "s' = deposit_event (NewMarket a m)
       (s\<lparr>markets := (markets s)(a \<mapsto> m),
          underlying_asset_id := (underlying_asset_id s)(ptoken_id_of m \<mapsto> a),
          exchange_rate := (exchange_rate s)(a := MIN_EXCHANGE_RATE),
          borrow_index := (borrow_index s)(a := FX)\<rparr>)"
  have "ptoken_registry s'"
    by (rule registry_put [of s m a]) (use assms(2) pt in \<open>simp_all add: loans_inv_def s'\<close>)
  moreover have "models_checked s'"
    using assms(2) cm by (auto simp: loans_inv_def models_checked_def s')
  moreover have "rates_in_range s'"
    using assms(2) by (auto simp: loans_inv_def rates_in_range_def s' MIN_EXCHANGE_RATE_def MAX_EXCHANGE_RATE_def)
  moreover have "snapshots_behind s'"
    using assms(2) new by (auto simp: loans_inv_def snapshots_behind_def s')
  moreover have "vouchers_backed s'"
    using assms(2) vouchers_backed_cong [of s' s] by (simp add: loans_inv_def s')
  moreover have "advances s s'"
    using new pt by (auto simp: advances_def s' map_le_def)
  ultimately show ?thesis by (simp add: loans_inv_def)
qed

lemma force_update_market_inv:
  assumes "force_update_market C s o' a m = Inr s'" and "loans_inv s"
  shows "loans_inv s' \<and> advances s s'"
proof -
  from assms(1) have cm: "check_model (rate_model_of m)"
    and pt: "underlying_asset_id s (ptoken_id_of m) \<in> {None, Some a}"
    unfolding force_update_market_def underlying_id_def by (auto split: if_splits)
  from assms(1) obtain p where mm: "mutate_market (s\<lparr>underlying_asset_id :=
      (underlying_asset_id s)(ptoken_id_of m \<mapsto> a)\<rparr>) a (\<lambda>_. m) = Inr p"
    and s': "s' = deposit_event (UpdatedMarket a (fst p)) (snd p)"
    unfolding force_update_market_def Let_def case_prod_beta by (elim bindE_InrE Inr_InrE) (rule that)
  from mm have ex: "markets s a \<noteq> None" and p: "snd p = s\<lparr>underlying_asset_id :=
      (underlying_asset_id s)(ptoken_id_of m \<mapsto> a), markets := (markets s)(a \<mapsto> m)\<rparr>"
    by (auto simp: mutate_market_def split: option.splits)
  show ?thesis
    by (rule put_market_inv [OF assms(2) ex cm _ _ pt]) (simp_all add: s' p)
qed

lemma market_calls_inv:
  assumes "loans_inv s"
  shows "activate_market C s o' a = Inr s' \<Longrightarrow> loans_inv s' \<and> advances s s'"
    and "update_rate_model C s o' a r = Inr s' \<Longrightarrow> loans_inv s' \<and> advances s s'"
    and "update_market C s o' a cf lt rf clf lirf li sc bc = Inr s' \<Longrightarrow> loans_inv s' \<and> advances s s'"
  unfolding activate_market_def update_rate_model_def update_market_def Let_def case_prod_beta
  by (elim resultE, hypsubst, rule mutate_market_inv [OF assms], assumption, simp_all)+

section \<open>Every action keeps the invariant\<close>

lemma dispatch_inv:
  assumes "dispatch C s o' c = Inr s'" and laws: "sp_arith_laws (lc_arith C)" and inv: "loans_inv s"
  shows "loans_inv s' \<and> advances s s'"
proof -
  have ev: "evolves s s' \<Longrightarrow> loans_inv s' \<and> advances s s'"
    using inv evolves_inv evolves_advances by blast
  note calls = reserve_calls_evolve [OF laws] reward_pool_calls_evolve position_calls_evolve [OF laws]
    accruing_calls_evolve [OF laws] claim_reward_evolves redeem_all_evolves [OF _ laws] reward_speed_evolves
  show ?thesis using assms(1)
    by (cases c; simp only: dispatch.simps)
      (erule add_market_inv [OF _ inv] force_update_market_inv [OF _ inv] market_calls_inv [OF inv]
        | (rule ev, erule calls))+
qed

lemma genesis_inv: "loans_inv (genesis l)"
  by (simp add: loans_inv_def genesis_def vouchers_backed_def voucher_total_def ptoken_registry_def
      models_checked_def rates_in_range_def snapshots_behind_def)

lemma exec_action_inv:
  assumes "exec_action s act = Inr s'" and "lawful_env act" and inv: "loans_inv s"
  shows "loans_inv s' \<and> advances s s'"
proof -
  obtain C x where act: "act = (C, x)" by fastforce
  with assms(2) have laws: "sp_arith_laws (lc_arith C)" by (simp add: lawful_env_def)
  have ev: "evolves s s' \<Longrightarrow> loans_inv s' \<and> advances s s'"
    using inv evolves_inv evolves_advances by blast
  show ?thesis
  proof (cases x)
    case (Call o' c)
    with assms(1) act show ?thesis by (intro dispatch_inv [OF _ laws inv]) (simp add: exec_action_def)
  next
    case (PtokenTransfer p y z n k)
    with assms(1) act show ?thesis by (intro ev pt_transfer_evolves) (simp add: exec_action_def)
  next
    case (BorrowBalanceQuery w a)
    with assms(1) act have "accrue_interest C s a = Inr s'"
      by (auto simp: exec_action_def get_current_borrow_balance_def)
    then show ?thesis by (intro ev accrue_interest_evolves [OF _ laws])
  qed
qed

interpretation loans: ordered_by_calls exec_action lawful_env loans_inv advances
  by unfold_locales (blast dest: exec_action_inv intro: advances_refl advances_trans)+

end
