(* ===== verification/Loans_Safety.thy ===== *)
theory Loans_Safety
  imports Loans_Invariants
begin

text \<open>
  Lemmas behind the safety of the loans pallet: how the debt of an account moves with a borrow, what
  the exchange rate does when cash and debt move, and how much value rounding can leak when vouchers
  are minted and redeemed.
\<close>

section \<open>Debts\<close>

lemma sum_list_bump:
  fixes f g :: "'k \<Rightarrow> nat"
  assumes "distinct (map fst xs)" and "\<And>b m. (b, m) \<in> set xs \<Longrightarrow> b \<noteq> a \<Longrightarrow> f b \<le> g b"
    and "f a \<le> g a + d"
  shows "(\<Sum>(b, m)\<leftarrow>xs. f b) \<le> (\<Sum>(b, m)\<leftarrow>xs. g b) + d"
  using assms(1,2)
proof (induction xs)
  case Nil
  then show ?case by simp
next
  case (Cons x xs)
  obtain b m where x: "x = (b, m)" by fastforce
  show ?case
  proof (cases "b = a")
    case True
    have "(\<Sum>(b, m)\<leftarrow>xs. f b) \<le> (\<Sum>(b, m)\<leftarrow>xs. g b)"
      by (rule sum_list_mono) (use Cons.prems x True in \<open>force intro!: Cons.prems(2)\<close>)
    with assms(3) True show ?thesis by (simp add: x)
  next
    case False
    have "f b \<le> g b" by (rule Cons.prems(2) [of b m]) (simp_all add: x False)
    moreover have "(\<Sum>(b, m)\<leftarrow>xs. f b) \<le> (\<Sum>(b, m)\<leftarrow>xs. g b) + d"
      by (rule Cons.IH) (use Cons.prems in auto)
    ultimately show ?thesis by (simp add: x)
  qed
qed

lemma active_markets_distinct:
  assumes "covers (lc_market_keys C) (markets s)"
  shows "distinct (map fst (active_markets C s))"
  unfolding active_markets_def
  by (rule distinct_map_filter) (use assms in \<open>simp add: covers_def storage_iter_distinct\<close>)

lemma fresh_debt_le:
  assumes "sp_arith_laws (lc_arith C)" and "current_borrow_balance C s w a = Inr x"
    and "account_borrows s a w = \<lparr>bs_principal = p, bs_borrow_index = borrow_index s a\<rparr>"
  shows "x \<le> p"
proof (cases "p = 0 \<or> borrow_index s a = 0")
  case True
  with assms show ?thesis by (auto simp: current_borrow_balance_def)
next
  case False
  have "borrow_index s a * FX div borrow_index s a = FX" using False by simp
  with False assms show ?thesis
    by (auto simp: current_borrow_balance_def fx_simps [OF assms(1)] bind_eq_Some_conv split: if_splits)
qed

lemma fresh_debt:
  assumes "sp_arith_laws (lc_arith C)" and "p \<le> u128_max" and "borrow_index s a \<noteq> 0"
    and "account_borrows s a w = \<lparr>bs_principal = p, bs_borrow_index = borrow_index s a\<rparr>"
  shows "current_borrow_balance C s w a = Inr p"
proof -
  have "borrow_index s a * FX div borrow_index s a = FX" using assms(3) by simp
  with assms show ?thesis by (simp add: current_borrow_balance_def Let_def fx_simps [OF assms(1)] to_u128_def)
qed

lemma debt_at_least_principal_aux:
  assumes laws: "sp_arith_laws (lc_arith C)" and "snapshots_behind s"
    and "current_borrow_balance C s w a = Inr b"
  shows "bs_principal (account_borrows s a w) \<le> b"
proof (cases "bs_principal (account_borrows s a w) = 0")
  case False
  let ?p = "bs_principal (account_borrows s a w)" and ?i = "bs_borrow_index (account_borrows s a w)"
  have i: "FX \<le> ?i" "?i \<le> borrow_index s a"
    using assms(2) False unfolding snapshots_behind_def by blast+
  then have "?i * FX div ?i \<le> borrow_index s a * FX div ?i" by (intro div_le_mono mult_le_mono1)
  then have ge: "FX \<le> borrow_index s a * FX div ?i" using i(1) by simp
  from assms(3) False i(1) have "b = (borrow_index s a * FX div ?i) * ?p div FX"
    by (auto simp: current_borrow_balance_def Let_def fx_simps [OF laws] bind_eq_Some_conv split: if_splits)
  moreover have "FX * ?p div FX \<le> (borrow_index s a * FX div ?i) * ?p div FX"
    using ge by (intro div_le_mono mult_le_mono1)
  ultimately show ?thesis by simp
qed simp

lemma div_add_le: "(x + y) div k \<le> x div k + y div k + (1::nat)"
proof (cases "k = 0")
  case False
  have "x mod k + y mod k < 2 * k" using False by (metis add_strict_mono mod_less_divisor mult_2 neq0_conv)
  then have "(x mod k + y mod k) div k \<le> 1" using less_mult_imp_div_less [of "x mod k + y mod k" 2 k] by simp
  then show ?thesis using div_add1_eq [of x y k] by simp
qed simp

lemma borrow_value_step:
  assumes laws: "sp_arith_laws (lc_arith C)" and "do_borrow C s w a n = Inr s'"
    and acc: "accrue_interest C s a = Inr s1" and "covers (lc_market_keys C) (markets s)"
    and v: "get_asset_value C a n = Inr v"
    and t: "total_borrowed_value C s1 w = Inr t" and t': "total_borrowed_value C s' w = Inr t'"
  shows "t' \<le> t + (v + 1)"
  using assms(2) laws
proof (rule do_borrowE)
  fix s2 b
  assume "accrue_interest C s a = Inr s2" and b: "current_borrow_balance C s2 w a = Inr b"
    and ab: "account_borrows s' = (account_borrows s)(a := (account_borrows s a)(w :=
       \<lparr>bs_principal = b + n, bs_borrow_index = borrow_index s2 a\<rparr>))"
    and pool: "same_pool s2 s'"
  then have s2: "s2 = s1" using acc by simp
  note ac = accruedD [OF accrue_interest_accrued [OF acc laws]]
  have idx: "borrow_index s' = borrow_index s1" and mk: "markets s' = markets s1"
    using pool by (simp_all add: same_pool_def s2)
  have am: "active_markets C s' = active_markets C s1" by (rule active_markets_cong [OF mk])
  let ?f = "\<lambda>b. projr (borrowed_value_in C s' w b)" and ?g = "\<lambda>b. projr (borrowed_value_in C s1 w b)"
  have other: "?f c \<le> ?g c" if "c \<noteq> a" for c
    using that by (simp add: borrowed_value_in_def current_borrow_balance_def Let_def ab idx ac(2) cong: if_cong)
  from v obtain p where p: "get_price C a = Inr p" and vp: "v = p * n div FX"
    by (auto simp: get_asset_value_iff [OF laws])
  have bump: "?f a \<le> ?g a + (v + 1)" if am: "(a, m) \<in> set (active_markets C s1)" for m
  proof -
    from total_borrowed_value_sum [OF laws t'] am obtain z where z: "borrowed_value_in C s' w a = Inr z"
      by (fastforce simp: \<open>active_markets C s' = active_markets C s1\<close>)
    from total_borrowed_value_sum [OF laws t] am obtain y where y: "borrowed_value_in C s1 w a = Inr y" by fastforce
    from z obtain x where x: "current_borrow_balance C s' w a = Inr x" and zx: "z = p * x div FX"
      by (auto simp: borrowed_value_in_def get_asset_value_iff [OF laws] p split: if_splits)
    have "x \<le> b + n" using fresh_debt_le [OF laws x] by (simp add: ab s2 idx)
    then have "z \<le> (p * b + p * n) div FX" unfolding zx
      by (intro div_le_mono) (metis add_mult_distrib2 mult_le_mono2)
    also have "\<dots> \<le> p * b div FX + p * n div FX + 1" by (rule div_add_le)
    finally have "z \<le> p * b div FX + v + 1" by (simp only: vp)
    moreover have "y = p * b div FX"
      using y b by (auto simp: borrowed_value_in_def s2 get_asset_value_iff [OF laws] p split: if_splits)
    ultimately show ?thesis by (simp add: z y)
  qed
  have dist: "distinct (map fst (active_markets C s1))"
    by (rule active_markets_distinct) (use assms(4) in \<open>simp add: ac(5)\<close>)
  have "(\<Sum>(b, m)\<leftarrow>active_markets C s1. ?f b) \<le> (\<Sum>(b, m)\<leftarrow>active_markets C s1. ?g b) + (v + 1)"
  proof (cases "\<exists>m. (a, m) \<in> set (active_markets C s1)")
    case True
    then show ?thesis using bump other by (intro sum_list_bump [OF dist, where a = a]) blast+
  next
    case False
    then have "(\<Sum>(b, m)\<leftarrow>active_markets C s1. ?f b) \<le> (\<Sum>(b, m)\<leftarrow>active_markets C s1. ?g b)"
      by (intro sum_list_mono) (use other in fastforce)
    then show ?thesis by simp
  qed
  then show ?thesis
    using total_borrowed_value_sum [OF laws t] total_borrowed_value_sum [OF laws t'] by (simp add: am)
qed

section \<open>Collateral\<close>

lemma sum_list_drop:
  fixes f g :: "'k \<Rightarrow> nat"
  assumes "distinct (map fst xs)" and "(a, m) \<in> set xs"
    and "\<And>b m. (b, m) \<in> set xs \<Longrightarrow> b \<noteq> a \<Longrightarrow> f b = g b" and "g a = 0"
  shows "(\<Sum>(b, m)\<leftarrow>xs. f b) = (\<Sum>(b, m)\<leftarrow>xs. g b) + f a"
  using assms(1-3)
proof (induction xs)
  case (Cons x xs)
  obtain b k where x: "x = (b, k)" by fastforce
  show ?case
  proof (cases "b = a")
    case True
    have "(\<Sum>(b, m)\<leftarrow>xs. f b) = (\<Sum>(b, m)\<leftarrow>xs. g b)"
      by (rule arg_cong [where f = sum_list], rule map_cong)
        (use Cons.prems x True in \<open>force intro!: Cons.prems(3)\<close>)+
    with True assms(4) show ?thesis by (simp add: x)
  next
    case False
    have "f b = g b" by (rule Cons.prems(3) [of b k]) (simp_all add: x False)
    moreover have "(\<Sum>(b, m)\<leftarrow>xs. f b) = (\<Sum>(b, m)\<leftarrow>xs. g b) + f a"
      by (rule Cons.IH) (use Cons.prems x False in auto)
    ultimately show ?thesis by (simp add: x)
  qed
qed simp

lemma collateral_off_cover:
  assumes laws: "sp_arith_laws (lc_arith C)" and off: "do_collateral_asset C s w a False = Inr s'"
    and cov: "covers (lc_market_keys C) (markets s)"
    and b: "total_borrowed_value C s' w = Inr b" and c: "total_collateral_value C s' w = Inr c"
  shows "b \<le> c"
  using off laws
proof (rule do_collateral_asset_off)
  fix c0 v b0
  assume c0: "total_collateral_value C s w = Inr c0" and v: "collateral_asset_value C s w a = Inr v"
    and b0: "total_borrowed_value C s w = Inr b0" and le: "b0 + v \<le> c0"
  from off show ?thesis
  proof (rule do_collateral_assetE)
    assume dep: "account_deposits s' = (account_deposits s)(a := (account_deposits s a)(w \<mapsto>
       (get_deposits s a w)\<lparr>is_collateral := False\<rparr>))"
      and f: "total_supply s' = total_supply s" "account_borrows s' = account_borrows s"
      "total_borrows s' = total_borrows s" "ledger s' = ledger s" and pool: "same_pool s s'"
    have mk: "markets s' = markets s" and idx: "borrow_index s' = borrow_index s"
      using pool by (simp_all add: same_pool_def)
    have am: "active_markets C s' = active_markets C s" by (rule active_markets_cong [OF mk])
    have er: "exchange_rate_stored C s' k = exchange_rate_stored C s k" for k
      by (rule exchange_rate_stored_cong) (use f pool in \<open>simp_all add: same_pool_def get_total_cash_def\<close>)
    have "current_borrow_balance C s' w k = current_borrow_balance C s w k" for k
      by (rule current_borrow_balance_cong) (simp_all add: f idx)
    then have "total_borrowed_value C s' w = total_borrowed_value C s w"
      by (simp add: total_borrowed_value_def am)
    with b b0 have bb: "b = b0" by simp
    let ?f = "\<lambda>k. projr (collateral_asset_value C s w k)" and ?g = "\<lambda>k. projr (collateral_asset_value C s' w k)"
    have other: "?f k = ?g k" if "k \<noteq> a" for k
      using that by (simp add: collateral_asset_value_def current_collateral_balance_def Let_def
          get_deposits_def dep er market_of_def mk cong: if_cong)
    from v obtain p where p: "get_price C a = Inr p"
      unfolding collateral_asset_value_def by (auto simp: get_asset_value_iff [OF laws])
    have zero: "?g a = 0"
      by (simp add: collateral_asset_value_def current_collateral_balance_def Let_def get_deposits_def dep
          get_asset_value_def p fx_simps [OF laws] to_u128_def)
    from off obtain m where "ensure_active_market C s a = Inr m"
      unfolding do_collateral_asset_def by (elim bindE_InrE) (rule that)
    then have mem: "(a, m) \<in> set (active_markets C s)" by (rule ensure_active_marketD)
    have "(\<Sum>(k, m)\<leftarrow>active_markets C s. ?f k) = (\<Sum>(k, m)\<leftarrow>active_markets C s. ?g k) + ?f a"
      by (rule sum_list_drop [OF active_markets_distinct [OF cov] mem]) (use other zero in auto)
    then have "c0 = c + v"
      using total_collateral_value_sum [OF laws c0] total_collateral_value_sum [OF laws c] v by (simp add: am)
    with le bb show ?thesis by simp
  qed
qed

section \<open>The exchange rate\<close>

text \<open>The cash of the pallet after a transfer from or to another account.\<close>

lemma cash_after_withdrawal:
  assumes "cash_law (lc_assets C) (account_id C)" and "w \<noteq> account_id C"
    and "ft_transfer (lc_assets C) (ledger s) a (account_id C) w n k = Inr (ledger s')"
    and "leaves_no_dust (ft_minimum_balance (lc_assets C) (ledger s) a)
           (ft_balance (lc_assets C) (ledger s) a (account_id C)) n"
  shows "get_total_cash C s' a + n = get_total_cash C s a"
  using cash_lawD [OF assms(1,3,4)] assms(2) by (simp add: get_total_cash_def)

lemma cash_after_deposit:
  assumes "cash_law (lc_assets C) (account_id C)" and "w \<noteq> account_id C"
    and "ft_transfer (lc_assets C) (ledger s) a w (account_id C) n k = Inr (ledger s')"
    and "leaves_no_dust (ft_minimum_balance (lc_assets C) (ledger s) a)
           (ft_balance (lc_assets C) (ledger s) a w) n"
  shows "get_total_cash C s' a = get_total_cash C s a + n"
  using cash_lawD [OF assms(1,3,4)] assms(2) by (simp add: get_total_cash_def split: if_splits)

lemma accrual_rate_le:
  assumes laws: "sp_arith_laws (lc_arith C)" and acc: "accrue_interest C s a = Inr s'"
    and rf: "\<And>m. markets s a = Some m \<Longrightarrow> reserve_factor m \<le> PM"
    and e: "exchange_rate_stored C s a = Inr e" and e': "exchange_rate_stored C s' a = Inr e'"
  shows "e \<le> e'"
proof -
  note ac = accruedD [OF accrue_interest_accrued [OF acc laws]]
  have cash: "get_total_cash C s' a = get_total_cash C s a" by (simp add: get_total_cash_def ac(8))
  have gain: "total_reserves s' a + total_borrows s a \<le> total_reserves s a + total_borrows s' a"
    using acc
  proof (cases rule: accrue_interestE)
    case (stale br sr er u bo r i)
    from stale(3) laws have "r + total_borrows s a \<le> total_reserves s a + bo"
    proof (rule get_market_statusD)
      fix m assume m: "markets s a = Some m"
        and "last_accrued_interest_time s a < lc_now C \<Longrightarrow>
           \<exists>j d. accrued_interest C br (total_borrows s a) (lc_now C - last_accrued_interest_time s a) = Some j \<and>
               increment_index C br (borrow_index s a) (lc_now C - last_accrued_interest_time s a) = Some d \<and>
               bo = total_borrows s a + j \<and> i = borrow_index s a + d \<and>
               r = total_reserves s a + pm_mul_floor (lc_arith C) (reserve_factor m) j"
      with stale(2) obtain j where "bo = total_borrows s a + j"
        "r = total_reserves s a + pm_mul_floor (lc_arith C) (reserve_factor m) j" by blast
      with pm_mul_floor_le [OF laws rf [OF m], of j] show ?thesis by simp
    qed
    with stale(4) show ?thesis by simp
  qed (simp_all add: update_last_accrued_interest_time_def)
  from calculate_exchange_rate_cases [OF e [unfolded exchange_rate_stored_def] laws]
  show ?thesis
  proof
    assume "total_supply s a = 0 \<and> e = MIN_EXCHANGE_RATE"
    with exchange_rate_stored_valid [OF e'] show ?thesis by simp
  next
    assume l: "0 < total_supply s a \<and> total_reserves s a \<le> get_total_cash C s a + total_borrows s a \<and>
      e = (get_total_cash C s a + total_borrows s a - total_reserves s a) * FX div total_supply s a \<and>
      MIN_EXCHANGE_RATE \<le> e \<and> e < MAX_EXCHANGE_RATE"
    with calculate_exchange_rate_cases [OF e' [unfolded exchange_rate_stored_def] laws]
    have r: "e' = (get_total_cash C s a + total_borrows s' a - total_reserves s' a) * FX div total_supply s a"
      by (simp add: cash ac(4))
    have "get_total_cash C s a + total_borrows s a - total_reserves s a
        \<le> get_total_cash C s a + total_borrows s' a - total_reserves s' a" using gain by simp
    with l r show ?thesis by (simp only: div_le_mono mult_le_mono1)
  qed
qed

lemma accrue_interest_again:
  assumes "accrue_interest C s a = Inr s'"
  shows "accrue_interest C s' a = Inr s'"
  using assms
proof (cases rule: accrue_interestE)
  case init
  then show ?thesis
    by (cases "lc_now C = 0") (simp_all add: accrue_interest_def update_last_accrued_interest_time_def)
next
  case current
  with assms show ?thesis by simp
next
  case (stale br sr er u bo r i)
  then show ?thesis by (simp add: accrue_interest_def update_last_accrued_interest_time_def)
qed

section \<open>Rounding of vouchers\<close>

text \<open>
  Minting rounds the rate down and so may hand out slightly more vouchers than the exact rate would.
  Redeeming them at once returns at most the part \<open>1 / e\<close> more than was paid in, where the rate \<open>e\<close>
  is at least \<open>2 * 10^16\<close> units.
\<close>

lemma round_trip_bound:
  fixes n e v X S e2 r :: nat
  assumes S: "0 < S" and e: "e = X * FX div S" "0 < e" and v: "v = n * FX div e"
    and e2: "e2 = (X + n) * FX div (S + v)" and r: "r = e2 * v div FX"
  shows "r \<le> n + n div e"
proof -
  have r1: "r * FX \<le> e2 * v" unfolding r by (rule div_mult_le_nat)
  have e21: "e2 * (S + v) \<le> (X + n) * FX" unfolding e2 by (rule div_mult_le_nat)
  have v1: "v * e \<le> n * FX" unfolding v by (rule div_mult_le_nat)
  have X1: "X * FX \<le> (e + 1) * S"
    using dividend_less_times_div [OF S, of "X * FX"] by (simp add: e(1) algebra_simps)
  have "r * (S + v) * FX \<le> e2 * (S + v) * v"
    using mult_le_mono1 [OF r1, of "S + v"] by (simp only: ac_simps)
  also have "\<dots> \<le> (X + n) * FX * v" using e21 by (rule mult_le_mono1)
  finally have "r * (S + v) * FX \<le> ((X + n) * v) * FX" by (simp only: ac_simps)
  then have rv: "r * (S + v) \<le> (X + n) * v" by simp
  have "(e * (X * v)) * FX = (X * FX) * (v * e)" by (simp only: ac_simps)
  also have "\<dots> \<le> ((e + 1) * S) * (n * FX)" using X1 v1 by (rule mult_le_mono)
  also have "\<dots> = ((e + 1) * (n * S)) * FX" by (simp only: ac_simps)
  finally have Xv: "e * (X * v) \<le> (e + 1) * (n * S)" by simp
  have "e * r * (S + v) \<le> e * ((X + n) * v)"
    using mult_le_mono2 [OF rv, of e] by (simp only: ac_simps)
  also have "\<dots> = e * (X * v) + e * (n * v)" by (simp only: distrib_left distrib_right)
  also have "\<dots> \<le> (e + 1) * (n * S) + (e + 1) * (n * v)" using Xv by (intro add_le_mono) simp_all
  also have "\<dots> = ((e + 1) * n) * (S + v)" by (simp only: distrib_left mult.assoc)
  finally have "e * r \<le> (e + 1) * n" using S by simp
  then have "e * r div e \<le> (e + 1) * n div e" by (rule div_le_mono)
  then have "r \<le> (e + 1) * n div e" using e(2) by simp
  also have "\<dots> = n + n div e" using e(2) by simp
  finally show ?thesis .
qed

lemma mint_redeem_bound:
  assumes laws: "sp_arith_laws (lc_arith C)" and cash: "cash_law (lc_assets C) (account_id C)"
    and mint: "do_mint C s w a n = Inr s'" and w: "w \<noteq> account_id C" and sup: "0 < total_supply s a"
    and dust: "leaves_no_dust (ft_minimum_balance (lc_assets C) (ledger s) a)
           (ft_balance (lc_assets C) (ledger s) a w) n"
    and red: "do_redeem_voucher C s' w a
      (voucher_balance (get_deposits s' a w) - voucher_balance (get_deposits s a w)) = Inr (r, s'')"
  shows "r \<le> n + n div MIN_EXCHANGE_RATE"
  using mint laws
proof (rule do_mintE)
  fix s1 e
  let ?v = "n * FX div e"
  assume acc: "accrue_interest C s a = Inr s1" and e: "exchange_rate_stored C s1 a = Inr e"
    and tr: "ft_transfer (lc_assets C) (ledger s) a w (account_id C) n False = Inr (ledger s')"
    and dep: "account_deposits s' = (account_deposits s)(a := (account_deposits s a)(w \<mapsto>
       (get_deposits s a w)\<lparr>voucher_balance := voucher_balance (get_deposits s a w) + ?v\<rparr>))"
    and ts: "total_supply s' = (total_supply s)(a := total_supply s a + ?v)"
    and tb: "total_borrows s' = total_borrows s1" and pool: "same_pool s1 s'"
  note ac = accruedD [OF accrue_interest_accrued [OF acc laws]]
  let ?X = "get_total_cash C s1 a + total_borrows s1 a - total_reserves s1 a"
  have c1: "get_total_cash C s1 a = get_total_cash C s a" by (simp add: get_total_cash_def ac(8))
  have c': "get_total_cash C s' a = get_total_cash C s1 a + n"
    using cash_after_deposit [OF cash w tr dust] by (simp add: c1)
  from calculate_exchange_rate_cases [OF e [unfolded exchange_rate_stored_def] laws] sup
  have le: "total_reserves s1 a \<le> get_total_cash C s1 a + total_borrows s1 a"
    and e1: "e = ?X * FX div total_supply s a" by (simp_all add: ac(4))
  have "voucher_balance (get_deposits s' a w) - voucher_balance (get_deposits s a w) = ?v"
    by (simp add: get_deposits_def [of s'] dep)
  with red have "do_redeem_voucher C s' w a ?v = Inr (r, s'')" by simp
  then show ?thesis using laws
  proof (rule do_redeem_voucherE)
    fix e2
    assume e2: "exchange_rate_stored C s' a = Inr e2" and r: "r = e2 * ?v div FX"
    from calculate_exchange_rate_cases [OF e2 [unfolded exchange_rate_stored_def] laws] sup le pool
    have "e2 = (?X + n) * FX div (total_supply s a + ?v)"
      by (simp add: ts tb c' same_pool_def add.assoc add.commute [of n])
    from round_trip_bound [OF sup e1 exchange_rate_stored_pos [OF e] refl this r]
    have "r \<le> n + n div e" .
    also have "n div e \<le> n div MIN_EXCHANGE_RATE"
      using exchange_rate_stored_valid [OF e] by (intro div_le_mono2) (simp_all add: MIN_EXCHANGE_RATE_def)
    finally show ?thesis by simp
  qed
qed

lemma mint_redeem_empty:
  assumes laws: "sp_arith_laws (lc_arith C)" and mint: "do_mint C s w a n = Inr s'"
    and red: "do_redeem_voucher C s' w a
      (voucher_balance (get_deposits s' a w) - voucher_balance (get_deposits s a w)) = Inr (r, s'')"
    and sup: "total_supply s a = 0"
  shows "r \<le> get_total_cash C s' a + total_borrows s' a - total_reserves s' a"
  using mint laws
proof (rule do_mintE)
  fix e
  let ?v = "n * FX div e" and ?X = "get_total_cash C s' a + total_borrows s' a - total_reserves s' a"
  assume dep: "account_deposits s' = (account_deposits s)(a := (account_deposits s a)(w \<mapsto>
       (get_deposits s a w)\<lparr>voucher_balance := voucher_balance (get_deposits s a w) + ?v\<rparr>))"
    and ts: "total_supply s' = (total_supply s)(a := total_supply s a + ?v)"
  have "voucher_balance (get_deposits s' a w) - voucher_balance (get_deposits s a w) = ?v"
    by (simp add: get_deposits_def [of s'] dep)
  with red have "do_redeem_voucher C s' w a ?v = Inr (r, s'')" by simp
  then show ?thesis using laws
  proof (rule do_redeem_voucherE)
    fix e2
    assume e2: "exchange_rate_stored C s' a = Inr e2" and r: "r = e2 * ?v div FX"
    show ?thesis
    proof (cases "?v = 0")
      case False
      with calculate_exchange_rate_cases [OF e2 [unfolded exchange_rate_stored_def] laws] sup
      have "e2 = ?X * FX div ?v" by (simp add: ts)
      then have "e2 * ?v \<le> ?X * FX" by simp
      then have "e2 * ?v div FX \<le> ?X * FX div FX" by (rule div_le_mono)
      with r show ?thesis by simp
    qed (use r in simp)
  qed
qed

section \<open>Liquidation\<close>

lemma liquidation_value_bound:
  assumes laws: "sp_arith_laws (lc_arith C)" and p: "0 < p"
    and lv: "fx_checked_mul (lc_arith C) rv inc = Some lv"
    and cu: "fx_checked_div (lc_arith C) lv p = Some cu" and e: "0 < e"
  shows "e * (cu * FX div e) div FX * p \<le> rv * inc"
proof -
  have lv': "lv * FX \<le> rv * inc" using lv div_mult_le_nat [of "rv * inc" FX] by (auto simp: fx_simps [OF laws])
  have cu': "cu * p \<le> lv * FX"
    using cu p div_mult_le_nat [of "lv * FX" p] by (auto simp: fx_simps [OF laws])
  have "e * (cu * FX div e) \<le> cu * FX" using div_mult_le_nat [of "cu * FX" e] by (simp add: mult.commute)
  then have "e * (cu * FX div e) div FX \<le> cu * FX div FX" by (rule div_le_mono)
  then have "e * (cu * FX div e) div FX * p \<le> cu * p" by simp
  also have "\<dots> \<le> rv * inc" using cu' lv' by (rule order_trans)
  finally show ?thesis .
qed

end
