(* ===== verification/Loans_Example.thy ===== *)
theory Loans_Example
  imports Loans_Invariants
begin

text \<open>
  A concrete pallet: two markets with 50\% collateral factor and the reference arithmetic and ledger,
  all prices one.  It shows that the hypotheses of the theorems can be met: the witnesses evaluate
  the operations on these states by simplification (\<open>loans_eval\<close>).
\<close>

definition ex_market :: "currency_id \<Rightarrow> market" where
  "ex_market p = \<lparr>collateral_factor = 500000, liquidation_threshold = 600000, reserve_factor = 150000,
     close_factor = 500000, liquidate_incentive = 1100000000000000000,
     liquidate_incentive_reserved_factor = 30000,
     rate_model_of = irm_new_jump_model 20000000000000000 100000000000000000 320000000000000000 800000,
     state_of = Pending, supply_cap = 1000000000000000000000000000000,
     borrow_cap = 1000000000000000000000000000000, ptoken_id_of = p\<rparr>"

definition ex_ledger :: "balance \<Rightarrow> ref_ledger" where
  "ex_ledger cash2 = \<lparr>
     lg_balance = (\<lambda>a w. if w = 99 then (if a = 1 then 1000 else if a = 2 then cash2 else 0)
                         else if w = 97 then 50 else if w \<in> {1, 2, 3} then 1000000 else 0),
     lg_issuance = (\<lambda>a. 4000000)\<rparr>"

text \<open>The environment of a block at time and number \<open>t\<close>; the pallet account is 99, its reward account
  97 and its incentive account 98.\<close>

definition ex_env :: "nat \<Rightarrow> ref_ledger loans_config" where
  "ex_env t = \<lparr>lc_arith = sp_arith_ref, lc_assets = fungibles_ref,
     lc_price_feeder = (\<lambda>a. Some (1000000000000000000, 0)),
     lc_pallet_account = 99,
     lc_derive_account = (\<lambda>n x. if n = ''loans/farming'' then Some 97 else Some 98),
     lc_update_origin = (\<lambda>x. x = Root), lc_reserve_origin = (\<lambda>x. x = Root),
     lc_lookup = Some, lc_now = t, lc_block = t, lc_reward_asset = 0, lc_lf_asset = 5,
     lc_market_keys = [1, 2]\<rparr>"

text \<open>Account 1 has 1000 of asset 1 as collateral, account 3 has supplied 1000 of asset 2.\<close>

definition ex_state :: "ref_ledger loans_state" where
  "ex_state = (genesis (ex_ledger 1000))\<lparr>
     markets := [1 \<mapsto> (ex_market 101)\<lparr>state_of := Active\<rparr>, 2 \<mapsto> (ex_market 102)\<lparr>state_of := Active\<rparr>],
     underlying_asset_id := [101 \<mapsto> 1, 102 \<mapsto> 2],
     last_accrued_interest_time := (\<lambda>a. if a = 1 \<or> a = 2 then 1 else 0),
     exchange_rate := (\<lambda>a. if a = 1 \<or> a = 2 then MIN_EXCHANGE_RATE else 0),
     borrow_index := (\<lambda>a. if a = 1 \<or> a = 2 then FX else 0),
     total_supply := (\<lambda>a. if a = 1 \<or> a = 2 then 50000 else 0),
     account_deposits := (\<lambda>_. Map.empty)
       (1 := [1 \<mapsto> \<lparr>voucher_balance = 50000, is_collateral = True\<rparr>],
        2 := [3 \<mapsto> \<lparr>voucher_balance = 50000, is_collateral = False\<rparr>])\<rparr>"

text \<open>The same pallet after account 1 has come to owe 700 of asset 2, more than its threshold of 600.\<close>

definition ex_short :: "ref_ledger loans_state" where
  "ex_short = ex_state\<lparr>
     ledger := ex_ledger 300,
     total_borrows := (\<lambda>a. if a = 2 then 700 else 0),
     account_borrows := (account_borrows ex_state)(2 :=
       (account_borrows ex_state 2)(1 := \<lparr>bs_principal = 700, bs_borrow_index = FX\<rparr>))\<rparr>"

text \<open>Account 1 has collateral in both markets and owes 300 of asset 2.\<close>

definition ex_both :: "ref_ledger loans_state" where
  "ex_both = ex_state\<lparr>
     ledger := ex_ledger 700,
     total_borrows := (\<lambda>a. if a = 2 then 300 else 0),
     account_deposits := (\<lambda>_. Map.empty)
       (1 := [1 \<mapsto> \<lparr>voucher_balance = 50000, is_collateral = True\<rparr>],
        2 := [1 \<mapsto> \<lparr>voucher_balance = 50000, is_collateral = True\<rparr>]),
     account_borrows := (account_borrows ex_state)(2 :=
       (account_borrows ex_state 2)(1 := \<lparr>bs_principal = 300, bs_borrow_index = FX\<rparr>))\<rparr>"

lemmas loans_eval = Let_def is_ok_def ex_env_def ex_market_def ex_ledger_def ex_state_def ex_short_def ex_both_def
  genesis_def sp_arith_ref_def fungibles_ref_def ref_transfer_def
  checked_add_def checked_sub_def checked_mul_def checked_div_def to_u128_def saturating_sub_def sub_u128_def
  add_u128_def ensure_signed_def ensure_origin_def storage_iter_def
  account_id_def deposit_event_def default_deposits_def get_deposits_def put_deposits_def
  put_account_borrows_def transfer_assets_def lookup_account_def market_of_def active_markets_def
  ensure_active_market_def get_total_cash_def MIN_EXCHANGE_RATE_def MAX_EXCHANGE_RATE_def
  calc_utilization_ratio_def ensure_valid_exchange_rate_def update_last_accrued_interest_time_def
  accrued_interest_def increment_index_def calculate_exchange_rate_def exchange_rate_stored_def
  get_market_status_def accrue_interest_def current_borrow_balance_def
  irm_new_jump_model_def jump_new_model_def get_supply_rate_def jump_get_borrow_rate_def
  reward_account_id_def reward_scale_def calculate_reward_delta_index_def calculate_reward_delta_def
  update_reward_supply_index_def base_borrow_amount_def update_reward_borrow_index_def
  distribute_supplier_reward_def distribute_borrower_reward_def collect_market_reward_def pay_reward_def
  get_price_def get_asset_value_def calc_underlying_amount_def calc_collateral_amount_def
  current_collateral_balance_def collateral_asset_value_def liquidation_threshold_asset_value_def
  add_value_def get_lf_borrowed_value_def get_lf_base_position_def get_lf_liquidation_base_position_def
  total_borrowed_value_def total_collateral_value_def total_liquidation_threshold_value_def
  liquidity_match_def get_account_liquidity_def get_account_liquidation_threshold_liquidity_def
  ensure_under_supply_cap_def ensure_under_borrow_cap_def ensure_enough_cash_def ensure_ptoken_def
  ensure_liquidity_def redeem_allowed_def borrow_allowed_def liquidate_borrow_allowed_def
  incentive_reward_account_id_def update_earned_stored_def withdraw_voucher_def add_voucher_def
  sub_voucher_def do_redeem_voucher_def do_repay_borrow_with_amount_def do_mint_def do_borrow_def
  do_collateral_asset_def do_repay_borrow_def do_redeem_def liquidated_transfer_def
  do_liquidate_borrow_def

lemma ex_env_laws [simp]: "sp_arith_laws (lc_arith (ex_env t))" "fungibles_laws (lc_assets (ex_env t))"
  "cash_law (lc_assets (ex_env t)) z"
  by (simp_all add: ex_env_def)

lemma ex_state_inv: "loans_inv ex_state"
proof -
  have "sum_entries voucher_balance [k \<mapsto> d] = voucher_balance d" for k :: account_id and d :: deposits
    by (simp add: sum_entries_def)
  then have "vouchers_backed ex_state"
    by (simp add: vouchers_backed_def voucher_total_def ex_state_def genesis_def)
  moreover have "check_model (rate_model_of (ex_market p))" for p
    by (simp add: ex_market_def irm_new_jump_model_def jump_new_model_def jump_check_model_def
        JUMP_MAX_BASE_RATE_def JUMP_MAX_JUMP_RATE_def JUMP_MAX_FULL_RATE_def)
  moreover have "ptoken_id_of (ex_market p) = p" for p by (simp add: ex_market_def)
  ultimately show ?thesis
    by (simp add: loans_inv_def ptoken_registry_def models_checked_def rates_in_range_def
        snapshots_behind_def ex_state_def genesis_def MIN_EXCHANGE_RATE_def MAX_EXCHANGE_RATE_def)
qed

end
