(* ===== verification/Loans_Properties.thy ===== *)
theory Loans_Properties
  imports Loans_Safety Loans_Example
begin

text \<open>
  The properties of the loans pallet, each with a witness that evaluates it on the concrete pallet of
  theory \<open>Loans_Example\<close>.  Histories are lists of actions run from genesis; single operations are
  described by what their success implies.
\<close>

definition ex_history :: "(ref_ledger loans_config \<times> loans_action) list" where
  "ex_history = [
     (ex_env 1, Call Root (AddMarket 1 (ex_market 101))),
     (ex_env 1, Call Root (ActivateMarket 1)),
     (ex_env 1, Call Root (AddMarket 2 (ex_market 102))),
     (ex_env 1, Call Root (ActivateMarket 2)),
     (ex_env 2, Call (Signed 1) (Mint 1 1000)),
     (ex_env 2, Call (Signed 3) (Mint 2 1000)),
     (ex_env 2, Call (Signed 1) (CollateralAsset 1 True)),
     (ex_env 2, Call (Signed 1) (Borrow 2 400))]"

lemmas history_eval = ex_history_def run_calls_def exec_action_def add_market_def activate_market_def
  mutate_market_def mint_def borrow_def collateral_asset_def jump_check_model_def JUMP_MAX_BASE_RATE_def JUMP_MAX_JUMP_RATE_def
  JUMP_MAX_FULL_RATE_def loans_eval

lemma ex_history_lawful: "\<forall>c\<in>set ex_history. lawful_env c"
  by (simp add: ex_history_def lawful_env_def)

definition ex_final :: "ref_ledger loans_state" where
  "ex_final = run_calls exec_action ex_history (genesis (ex_ledger 0))"

lemma ex_final_reached: "history exec_action lawful_env (genesis (ex_ledger 0)) ex_final"
  unfolding ex_final_def by (rule run_calls_history [OF ex_history_lawful])

definition ex_view :: "'l loans_state \<Rightarrow> balance \<times> rate \<times> market option \<times> borrow_snapshot \<times> rate" where
  "ex_view s = (total_supply s 1, exchange_rate s 1, markets s 1, account_borrows s 2 1, borrow_index s 2)"

lemma ex_final_view: "ex_view ex_final = (50000, 20000000000000000,
    Some ((ex_market 101)\<lparr>state_of := Active\<rparr>), \<lparr>bs_principal = 400, bs_borrow_index = FX\<rparr>, FX)"
  by (simp add: ex_view_def ex_final_def history_eval)

lemma ex_final_eval:
  "total_supply ex_final 1 = 50000" "exchange_rate ex_final 1 = 20000000000000000"
  "markets ex_final 1 = Some ((ex_market 101)\<lparr>state_of := Active\<rparr>)"
  "account_borrows ex_final 2 1 = \<lparr>bs_principal = 400, bs_borrow_index = FX\<rparr>" "borrow_index ex_final 2 = FX"
  using ex_final_view by (simp_all add: ex_view_def)

section \<open>Over every history\<close>

text \<open>C1. Vouchers are conserved: in every state the pallet can reach by dispatched calls, ptoken
  transfers and queries, in whatever blocks, the recorded supply of each market is exactly the sum of
  the vouchers its holders have.\<close>

theorem vouchers_conserved:
  assumes "history exec_action lawful_env (genesis l) s"
  shows "finite (dom (account_deposits s a)) \<and>
    total_supply s a = sum_entries voucher_balance (account_deposits s a)"
  using loans.history_inv [OF assms genesis_inv]
  by (simp add: loans_inv_def vouchers_backed_def voucher_total_def)

theorem vouchers_conserved_witness:
  "total_supply ex_final 1 = sum_entries voucher_balance (account_deposits ex_final 1) \<and>
   total_supply ex_final 1 = 50000"
  using vouchers_conserved [OF ex_final_reached, of 1] ex_final_eval by simp

text \<open>A borrower always owes at least the recorded principal: in a reachable state the index at
  which a debt was recorded is never ahead of its market's index.\<close>

theorem debt_at_least_principal:
  assumes "history exec_action lawful_env (genesis l) s" and "sp_arith_laws (lc_arith C)"
    and "current_borrow_balance C s w a = Inr b"
  shows "bs_principal (account_borrows s a w) \<le> b"
  using loans.history_inv [OF assms(1) genesis_inv]
  by (intro debt_at_least_principal_aux [OF assms(2) _ assms(3)]) (simp add: loans_inv_def)

theorem debt_at_least_principal_witness:
  "current_borrow_balance (ex_env 3) ex_final 1 2 = Inr 400 \<and>
   bs_principal (account_borrows ex_final 2 1) \<le> 400"
proof -
  have "current_borrow_balance (ex_env 3) ex_final 1 2 = Inr 400"
    using ex_final_eval by (simp add: current_borrow_balance_def ex_env_def sp_arith_ref_def to_u128_def)
  with debt_at_least_principal [OF ex_final_reached ex_env_laws(1) this] show ?thesis by simp
qed

text \<open>Ptokens and markets are in one-to-one correspondence: in a reachable state the ptoken that
  \<open>ptoken_id\<close> reports for an asset leads back to that asset through \<open>underlying_id\<close>.\<close>

theorem ptoken_round_trip:
  assumes "history exec_action lawful_env (genesis l) s" and "ptoken_id s a = Inr p"
  shows "underlying_id s p = Inr a"
proof -
  from assms(2) obtain m where "markets s a = Some m" "p = ptoken_id_of m"
    by (auto simp: ptoken_id_def market_of_def split: sum.splits)
  with loans.history_inv [OF assms(1) genesis_inv] show ?thesis
    by (simp add: loans_inv_def ptoken_registry_def underlying_id_def)
qed

theorem ptoken_round_trip_witness: "ptoken_id ex_final 1 = Inr 101 \<and> underlying_id ex_final 101 = Inr 1"
proof -
  have "ptoken_id ex_final 1 = Inr 101"
    using ex_final_eval by (simp add: ptoken_id_def market_of_def ex_market_def)
  then show ?thesis using ptoken_round_trip [OF ex_final_reached, of 1 101] by simp
qed

text \<open>C20. The pallet only moves forward: along every history markets and ptoken bindings are never
  removed or rebound, and no market's clock or borrow index goes back.\<close>

theorem pallet_moves_forward:
  assumes "history exec_action lawful_env s s'" and "loans_inv s"
  shows "dom (markets s) \<subseteq> dom (markets s') \<and> underlying_asset_id s \<subseteq>\<^sub>m underlying_asset_id s' \<and>
    (\<forall>a\<in>dom (markets s). borrow_index s a \<le> borrow_index s' a) \<and>
    (\<forall>a. last_accrued_interest_time s a \<le> last_accrued_interest_time s' a)"
  using loans.history_rel [OF assms] by (simp add: advances_def)

theorem pallet_moves_forward_witness:
  "\<exists>s'. history exec_action lawful_env ex_state s' \<and> is_ok (exec_action ex_state (ex_env 9, BorrowBalanceQuery 1 1)) \<and>
     (\<forall>a. last_accrued_interest_time ex_state a \<le> last_accrued_interest_time s' a)"
proof -
  let ?c = "(ex_env 9, BorrowBalanceQuery 1 1)"
  have ok: "is_ok (exec_action ex_state ?c)"
    by (simp add: exec_action_def get_current_borrow_balance_def loans_eval)
  then obtain s' where s': "exec_action ex_state ?c = Inr s'" by (auto simp: is_ok_def split: sum.splits)
  have "history exec_action lawful_env ex_state s'"
    by (rule history.call [where t = ex_state and c = ?c], rule history.start, simp add: lawful_env_def, rule s')
  with pallet_moves_forward [OF this ex_state_inv] ok show ?thesis by blast
qed

text \<open>The stored exchange rate of a market lies in the valid range, at least 0.02 and below one, and
  its rate model passed \<open>check_model\<close>, in every reachable state.\<close>

theorem stored_rate_in_range:
  assumes "history exec_action lawful_env (genesis l) s" and "markets s a = Some m"
  shows "MIN_EXCHANGE_RATE \<le> exchange_rate s a \<and> exchange_rate s a < MAX_EXCHANGE_RATE \<and>
    check_model (rate_model_of m)"
  using loans.history_inv [OF assms(1) genesis_inv] assms(2)
  by (simp add: loans_inv_def rates_in_range_def models_checked_def)

theorem stored_rate_in_range_witness:
  "exchange_rate ex_final 1 = 20000000000000000 \<and> exchange_rate ex_final 1 < MAX_EXCHANGE_RATE"
  using stored_rate_in_range [OF ex_final_reached, of 1 "(ex_market 101)\<lparr>state_of := Active\<rparr>"] ex_final_eval
  by simp

section \<open>Solvency of borrowers\<close>

text \<open>C2. A borrow keeps the borrower within the liquidity of the account.  A successful borrow was checked
  after the interest of the market was accrued: its value is within the liquidity the account then has (outside the
  liquidation free asset what its collateral leaves beside the debt and the liquidation free position, for the
  liquidation free asset the larger of the two), and it raises the value of the debt by at most that value and one
  unit of rounding.  So after a borrow of positive value in an asset other than the liquidation free one, all that
  the account owes is worth at most its collateral and that unit; a borrow worth nothing is not bounded this way.\<close>

theorem borrow_keeps_covered:
  assumes laws: "sp_arith_laws (lc_arith C)" and bor: "do_borrow C s w a n = Inr s'"
    and cov: "covers (lc_market_keys C) (markets s)" and t': "total_borrowed_value C s' w = Inr t'"
  shows "\<exists>s1 v b c lb lp. accrue_interest C s a = Inr s1 \<and> get_asset_value C a n = Inr v \<and>
    total_borrowed_value C s1 w = Inr b \<and> total_collateral_value C s1 w = Inr c \<and>
    get_lf_borrowed_value C s1 w = Inr lb \<and> get_lf_base_position C s1 w = Inr lp \<and>
    within_liquidity (a = lc_lf_asset C) b c lb lp v \<and> t' \<le> b + v + 1 \<and>
    (a \<noteq> lc_lf_asset C \<and> 0 < v \<longrightarrow> t' \<le> c + 1)"
  using bor laws
proof (rule do_borrowE)
  fix s1
  assume acc: "accrue_interest C s a = Inr s1" and "borrow_allowed C s1 a w n = Inr ()"
  then obtain v where v: "get_asset_value C a n = Inr v" and "ensure_liquidity C s1 w v (a = lc_lf_asset C) = Inr ()"
    unfolding borrow_allowed_def by auto
  from ensure_liquidity_within [OF laws this(2)] obtain b c lb lp where
      vals: "total_borrowed_value C s1 w = Inr b" "total_collateral_value C s1 w = Inr c"
        "get_lf_borrowed_value C s1 w = Inr lb" "get_lf_base_position C s1 w = Inr lp"
      and ok: "within_liquidity (a = lc_lf_asset C) b c lb lp v" by blast
  have step: "t' \<le> b + v + 1" using borrow_value_step [OF laws bor acc cov v vals(1) t'] by simp
  moreover have "t' \<le> c + 1" if "a \<noteq> lc_lf_asset C" "0 < v"
    using within_liquidity_covers [of b c lb lp v] ok that step by simp
  ultimately show ?thesis using acc v vals ok by blast
qed

theorem borrow_keeps_covered_witness:
  "\<exists>s' c. do_borrow (ex_env 1) ex_state 1 2 400 = Inr s' \<and>
     total_collateral_value (ex_env 1) ex_state 1 = Inr c \<and> 400 \<le> c + 1"
proof -
  obtain s' where s': "do_borrow (ex_env 1) ex_state 1 2 400 = Inr s'" "total_borrowed_value (ex_env 1) s' 1 = Inr 400"
    by (simp add: loans_eval)
  have e: "accrue_interest (ex_env 1) ex_state 2 = Inr ex_state" "get_asset_value (ex_env 1) 2 400 = Inr 400"
    "lc_lf_asset (ex_env 1) \<noteq> 2" "covers (lc_market_keys (ex_env 1)) (markets ex_state)"
    by (auto simp: loans_eval covers_def)
  from borrow_keeps_covered [OF ex_env_laws(1) s'(1) e(4) s'(2)] e s'(1) show ?thesis by auto
qed

text \<open>Collateral can be switched off only if the rest still covers the debt: in the state after a
  successful switch, what the account owes is at most the value of its remaining collateral.\<close>

theorem collateral_off_keeps_covered:
  assumes laws: "sp_arith_laws (lc_arith C)" and off: "do_collateral_asset C s w a False = Inr s'"
    and cov: "covers (lc_market_keys C) (markets s)"
    and b: "total_borrowed_value C s' w = Inr b" and c: "total_collateral_value C s' w = Inr c"
  shows "b \<le> c"
  by (rule collateral_off_cover [OF laws off cov b c])

theorem collateral_off_keeps_covered_witness:
  "\<exists>s'. do_collateral_asset (ex_env 1) ex_both 1 1 False = Inr s' \<and>
     total_borrowed_value (ex_env 1) s' 1 = Inr 300 \<and> total_collateral_value (ex_env 1) s' 1 = Inr 500 \<and>
     (300::rate) \<le> 500"
proof -
  obtain s' where s': "do_collateral_asset (ex_env 1) ex_both 1 1 False = Inr s'"
    "total_borrowed_value (ex_env 1) s' 1 = Inr 300" "total_collateral_value (ex_env 1) s' 1 = Inr 500"
    by (simp add: loans_eval)
  have "(300::rate) \<le> 500"
    by (rule collateral_off_keeps_covered [OF ex_env_laws(1) s'(1) _ s'(2,3)]) (auto simp: loans_eval covers_def)
  with s' show ?thesis by blast
qed

section \<open>Liquidation\<close>

text \<open>C19. What a liquidation does.  The borrower's debt and the market's total fall by exactly the amount
  repaid; the seized vouchers leave the borrower and arrive, split in two, at the liquidator and at
  the incentive reserve; the supply of vouchers does not change.\<close>

theorem liquidation_effect:
  assumes "do_liquidate_borrow C s liq bor la n ca = Inr s'" and laws: "sp_arith_laws (lc_arith C)"
  shows "\<exists>b seized reserved inc.
    current_borrow_balance C s bor la = Inr b \<and> n \<le> b \<and>
    account_borrows s' la bor = \<lparr>bs_principal = b - n, bs_borrow_index = borrow_index s la\<rparr> \<and>
    total_borrows s' la + n = total_borrows s la \<and>
    incentive_reward_account_id C = Inr inc \<and> reserved \<le> seized \<and>
    seized \<le> voucher_balance (get_deposits s ca bor) \<and>
    (\<forall>w. voucher_balance (get_deposits s' ca w) =
       voucher_balance (get_deposits s ca w) - (if w = bor then seized else 0)
         + (if w = liq then seized - reserved else 0) + (if w = inc then reserved else 0)) \<and>
    total_supply s' = total_supply s"
  using assms(1)
proof (rule do_liquidate_borrow_inv)
  fix m cu
  assume "liquidated_transfer C s liq bor la ca n cu m = Inr s'"
  then show ?thesis using laws
  proof (rule liquidated_transferE)
    fix b seized reserved inc
    assume b: "current_borrow_balance C s bor la = Inr b" "n \<le> b" "n \<le> total_borrows s la"
      and i: "incentive_reward_account_id C = Inr inc"
      and l: "liquidated C s s' liq bor la ca n b seized reserved inc"
    have "total_borrows s' la + n = total_borrows s la"
      and "account_borrows s' la bor = \<lparr>bs_principal = b - n, bs_borrow_index = borrow_index s la\<rparr>"
      using b(3) l by (simp_all add: liquidated_def)
    moreover have "reserved \<le> seized" "seized \<le> voucher_balance (get_deposits s ca bor)"
      "total_supply s' = total_supply s"
      "\<forall>w. voucher_balance (get_deposits s' ca w) =
       voucher_balance (get_deposits s ca w) - (if w = bor then seized else 0)
         + (if w = liq then seized - reserved else 0) + (if w = inc then reserved else 0)"
      using l unfolding liquidated_def by blast+
    ultimately show ?thesis using b(1,2) i by blast
  qed
qed

theorem liquidation_effect_witness:
  "\<exists>s' b. do_liquidate_borrow (ex_env 1) ex_short 2 1 2 300 1 = Inr s' \<and>
     account_borrows s' 2 1 = \<lparr>bs_principal = b - 300, bs_borrow_index = borrow_index ex_short 2\<rparr> \<and> 300 \<le> b"
proof -
  obtain s' where s': "do_liquidate_borrow (ex_env 1) ex_short 2 1 2 300 1 = Inr s'" by (simp add: loans_eval)
  from liquidation_effect [OF this ex_env_laws(1)] s' show ?thesis by blast
qed

text \<open>C14. Only an account in shortfall is liquidated, never by itself, only out of a deposit marked as
  collateral, and never beyond the close factor: the repaid value is at most the close factor of the value of the
  debt, and when the debt is in the liquidation free asset, of what its value exceeds the liquidation free position of
  the account by.\<close>

theorem liquidation_only_when_short:
  assumes "do_liquidate_borrow C s liq bor la n ca = Inr s'" and laws: "sp_arith_laws (lc_arith C)"
  shows "liq \<noteq> bor \<and> is_collateral (get_deposits s ca bor) \<and>
    (\<exists>l sh lfl lfs. get_account_liquidation_threshold_liquidity C s bor = Inr (l, sh, lfl, lfs) \<and>
       (sh \<noteq> 0 \<or> l < lfl)) \<and>
    (\<exists>m b bv rv. markets s la = Some m \<and> current_borrow_balance C s bor la = Inr b \<and>
       get_asset_value C la b = Inr bv \<and> get_asset_value C la n = Inr rv \<and>
       (if la = lc_lf_asset C
        then \<exists>lp. get_lf_base_position C s bor = Inr lp \<and> rv \<le> pm_mul_ceil (lc_arith C) (close_factor m) (bv - lp)
        else rv \<le> pm_mul_ceil (lc_arith C) (close_factor m) bv))"
  using assms(1)
proof (rule do_liquidate_borrow_inv)
  fix m u
  assume m: "market_of s la = Inr m" "\<not> bor = liq" "\<not> \<not> is_collateral (get_deposits s ca bor)"
    and "liquidate_borrow_allowed C s bor la n m = Inr u"
  then obtain q b bv rv eff where
    q: "get_account_liquidation_threshold_liquidity C s bor = Inr q"
      "\<not> (fst (snd q) = 0 \<and> fst (snd (snd q)) \<le> fst q)"
    and b: "current_borrow_balance C s bor la = Inr b" "get_asset_value C la b = Inr bv"
      "get_asset_value C la n = Inr rv"
    and eff: "(if la = lc_lf_asset C then
                bindE (get_lf_base_position C s bor) (\<lambda>base_position.
                if bv > base_position then ok_or (fx_sub (lc_arith C) bv base_position) Panic else Inr 0)
              else Inr bv) = Inr eff"
    and le: "\<not> pm_mul_ceil (lc_arith C) (close_factor m) eff < rv"
    unfolding liquidate_borrow_allowed_def case_prod_beta by (elim bindE_InrE if_Inl_InrE) (rule that)
  have "if la = lc_lf_asset C then \<exists>lp. get_lf_base_position C s bor = Inr lp \<and> eff = bv - lp else eff = bv"
    using eff by (auto simp: fx_simps [OF laws] checked_sub_def split: if_splits)
  with le have "if la = lc_lf_asset C
      then \<exists>lp. get_lf_base_position C s bor = Inr lp \<and> rv \<le> pm_mul_ceil (lc_arith C) (close_factor m) (bv - lp)
      else rv \<le> pm_mul_ceil (lc_arith C) (close_factor m) bv" by (auto split: if_splits)
  moreover obtain l sh lfl lfs where "q = (l, sh, lfl, lfs)" by (metis prod.collapse)
  moreover have "markets s la = Some m" using m(1) by (auto split: option.splits)
  ultimately show ?thesis using m(2,3) q b by auto
qed

theorem liquidation_only_when_short_witness:
  "\<exists>s'. do_liquidate_borrow (ex_env 1) ex_short 2 1 2 300 1 = Inr s' \<and> (2::account_id) \<noteq> 1 \<and>
     (\<exists>l sh lfl lfs. get_account_liquidation_threshold_liquidity (ex_env 1) ex_short 1 = Inr (l, sh, lfl, lfs) \<and>
       (sh \<noteq> 0 \<or> l < lfl))"
proof -
  obtain s' where s': "do_liquidate_borrow (ex_env 1) ex_short 2 1 2 300 1 = Inr s'" by (simp add: loans_eval)
  from liquidation_only_when_short [OF this ex_env_laws(1)] s' show ?thesis by blast
qed

text \<open>The liquidator and the reserve together never receive more than the repaid value times the
  liquidation incentive: the seized vouchers, redeemed at the exchange rate and valued at the price of
  the collateral, are worth at most that.\<close>

theorem seizure_value_bounded:
  assumes "do_liquidate_borrow C s liq bor la n ca = Inr s'" and laws: "sp_arith_laws (lc_arith C)"
    and m: "markets s la = Some m" and p: "get_price C ca = Inr p" and rv: "get_asset_value C la n = Inr rv"
    and e: "exchange_rate_stored C s' ca = Inr e" and bor: "\<forall>inc. incentive_reward_account_id C = Inr inc \<longrightarrow> inc \<noteq> bor"
  shows "e * (voucher_balance (get_deposits s ca bor) - voucher_balance (get_deposits s' ca bor)) div FX * p
    \<le> rv * liquidate_incentive m"
  using assms(1)
proof (rule do_liquidate_borrow_inv)
  fix m' rv' lv p' cu
  assume "market_of s la = Inr m'" and nl: "\<not> bor = liq" and "get_asset_value C la n = Inr rv'"
    and lv: "fx_checked_mul (lc_arith C) rv' (liquidate_incentive m') = Some lv"
    and "get_price C ca = Inr p'" and cu: "fx_checked_div (lc_arith C) lv p' = Some cu"
    and lt: "liquidated_transfer C s liq bor la ca n cu m' = Inr s'"
  then have eq: "m' = m" "rv' = rv" "p' = p" using m p rv by simp_all
  from lt laws show ?thesis
  proof (rule liquidated_transferE)
    fix b e' seized reserved inc
    assume i: "incentive_reward_account_id C = Inr inc" and "exchange_rate_stored C s' ca = Inr e'"
      and sz: "seized = cu * FX div e'" and l: "liquidated C s s' liq bor la ca n b seized reserved inc"
    then have e': "e' = e" using e by simp
    have "voucher_balance (get_deposits s' ca bor) =
       voucher_balance (get_deposits s ca bor) - (if bor = bor then seized else 0)
         + (if bor = liq then seized - reserved else 0) + (if bor = inc then reserved else 0)"
      and "seized \<le> voucher_balance (get_deposits s ca bor)"
      using l unfolding liquidated_def by blast+
    then have "voucher_balance (get_deposits s ca bor) - voucher_balance (get_deposits s' ca bor) = seized"
      using nl i bor by auto
    moreover have "0 < p" using p by (auto simp: get_price_def split: if_splits)
    ultimately show ?thesis
      using liquidation_value_bound [OF laws _ lv cu exchange_rate_stored_pos [OF e]] by (simp add: eq sz e')
  qed
qed

theorem seizure_value_bounded_witness:
  "\<exists>s'. do_liquidate_borrow (ex_env 1) ex_short 2 1 2 300 1 = Inr s' \<and>
     20000000000000000 * (voucher_balance (get_deposits ex_short 1 1) - voucher_balance (get_deposits s' 1 1))
       div FX * FX \<le> 300 * 1100000000000000000"
proof -
  obtain s' where s': "do_liquidate_borrow (ex_env 1) ex_short 2 1 2 300 1 = Inr s'"
    "exchange_rate_stored (ex_env 1) s' 1 = Inr 20000000000000000" by (simp add: loans_eval)
  have li: "1100000000000000000 = liquidate_incentive ((ex_market 102)\<lparr>state_of := Active\<rparr>)"
    by (simp add: ex_market_def)
  show ?thesis unfolding li
    by (intro exI conjI, rule s'(1), rule seizure_value_bounded [OF s'(1) ex_env_laws(1) _ _ _ s'(2)])
      (simp_all add: loans_eval)
qed

section \<open>The value of vouchers\<close>

text \<open>C15. Minting and redeeming at once cannot be used to drain the pool of the other depositors: while vouchers are
  outstanding, what the new vouchers are redeemed for exceeds the amount paid in by at most its \<open>2 * 10^16\<close>-th part, the
  most that rounding the exchange rate can give away.  In a market without vouchers, where nobody else has a share, they are
  redeemed for at most all the market then holds: its cash and what it is owed, less the reserves.  The one who mints is
  not the pallet itself and is not removed as dust by paying.\<close>

theorem mint_redeem_no_free_value:
  assumes "sp_arith_laws (lc_arith C)" and "cash_law (lc_assets C) (account_id C)"
    and "do_mint C s w a n = Inr s'" and "w \<noteq> account_id C"
    and "leaves_no_dust (ft_minimum_balance (lc_assets C) (ledger s) a)
           (ft_balance (lc_assets C) (ledger s) a w) n"
    and "do_redeem_voucher C s' w a
      (voucher_balance (get_deposits s' a w) - voucher_balance (get_deposits s a w)) = Inr (r, s'')"
  shows "if total_supply s a = 0 then r \<le> get_total_cash C s' a + total_borrows s' a - total_reserves s' a
    else r \<le> n + n div MIN_EXCHANGE_RATE"
  using mint_redeem_bound [OF assms(1-4) _ assms(5,6)] mint_redeem_empty [OF assms(1,3,6)] by simp

theorem mint_redeem_no_free_value_witness:
  "\<exists>s' s''. do_mint (ex_env 1) ex_state 2 2 777 = Inr s' \<and>
     do_redeem_voucher (ex_env 1) s' 2 2
       (voucher_balance (get_deposits s' 2 2) - voucher_balance (get_deposits ex_state 2 2)) = Inr (777, s'') \<and>
     (777::balance) \<le> 777 + 777 div MIN_EXCHANGE_RATE"
proof -
  obtain s' s'' where s': "do_mint (ex_env 1) ex_state 2 2 777 = Inr s'"
    "do_redeem_voucher (ex_env 1) s' 2 2
       (voucher_balance (get_deposits s' 2 2) - voucher_balance (get_deposits ex_state 2 2)) = Inr (777, s'')"
    by (simp add: loans_eval)
  have "total_supply ex_state 2 \<noteq> 0" by (simp add: loans_eval)
  with mint_redeem_no_free_value [OF ex_env_laws(1,3) s'(1) _ _ s'(2)] have "(777::balance) \<le> 777 + 777 div MIN_EXCHANGE_RATE"
    by (simp add: loans_eval leaves_no_dust_def)
  with s' show ?thesis by blast
qed

text \<open>Accrual never lowers the value of a voucher: the share of the interest that goes to the
  reserves is at most the interest, as long as the reserve factor is a proper ratio.\<close>

theorem accrual_raises_voucher_value:
  assumes "sp_arith_laws (lc_arith C)" and "accrue_interest C s a = Inr s'"
    and "\<And>m. markets s a = Some m \<Longrightarrow> reserve_factor m \<le> PM"
    and "exchange_rate_stored C s a = Inr e" and "exchange_rate_stored C s' a = Inr e'"
  shows "e \<le> e'"
  by (rule accrual_rate_le [OF assms])

theorem accrual_raises_voucher_value_witness:
  "\<exists>s'. accrue_interest (ex_env 31536001) ex_short 2 = Inr s' \<and>
     exchange_rate_stored (ex_env 31536001) ex_short 2 = Inr 20000000000000000 \<and>
     exchange_rate_stored (ex_env 31536001) s' 2 = Inr 21080000000000000 \<and>
     (20000000000000000::rate) \<le> 21080000000000000"
proof -
  obtain s' where s': "accrue_interest (ex_env 31536001) ex_short 2 = Inr s'"
    "exchange_rate_stored (ex_env 31536001) ex_short 2 = Inr 20000000000000000"
    "exchange_rate_stored (ex_env 31536001) s' 2 = Inr 21080000000000000"
    by (simp add: loans_eval)
  have "(20000000000000000::rate) \<le> 21080000000000000"
    by (rule accrual_raises_voucher_value [OF ex_env_laws(1) s'(1) _ s'(2,3)])
      (auto simp: ex_short_def ex_state_def ex_market_def)
  with s' show ?thesis by blast
qed

text \<open>Borrowing does not move the exchange rate: cash leaves the pool and the same amount of debt
  enters it.\<close>

theorem borrow_keeps_exchange_rate:
  assumes laws: "sp_arith_laws (lc_arith C)" and cash: "cash_law (lc_assets C) (account_id C)"
    and "do_borrow C s w a n = Inr s'" and acc: "accrue_interest C s a = Inr s1"
    and w: "w \<noteq> account_id C"
    and dust: "leaves_no_dust (ft_minimum_balance (lc_assets C) (ledger s) a)
           (ft_balance (lc_assets C) (ledger s) a (account_id C)) n"
  shows "exchange_rate_stored C s' a = exchange_rate_stored C s1 a"
  using assms(3) laws
proof (rule do_borrowE)
  fix s2
  assume s2: "accrue_interest C s a = Inr s2"
    and tb: "total_borrows s' = (total_borrows s2)(a := total_borrows s2 a + n)"
    and tr: "ft_transfer (lc_assets C) (ledger s) a (account_id C) w n False = Inr (ledger s')"
    and ts: "total_supply s' = total_supply s" and pool: "same_pool s2 s'"
  have s1: "s2 = s1" using s2 acc by simp
  note ac = accruedD [OF accrue_interest_accrued [OF acc laws]]
  have "get_total_cash C s' a + n = get_total_cash C s1 a"
    using cash_after_withdrawal [OF cash w tr dust] by (simp add: get_total_cash_def [of C s1] get_total_cash_def [of C s] ac(8))
  then show ?thesis
    using pool by (intro exchange_rate_stored_cong) (simp_all add: ts tb s1 ac(4) same_pool_def)
qed

theorem borrow_keeps_exchange_rate_witness:
  "\<exists>s'. do_borrow (ex_env 1) ex_state 1 2 400 = Inr s' \<and>
     exchange_rate_stored (ex_env 1) s' 2 = exchange_rate_stored (ex_env 1) ex_state 2"
proof -
  obtain s' where s': "do_borrow (ex_env 1) ex_state 1 2 400 = Inr s'" by (simp add: loans_eval)
  have "exchange_rate_stored (ex_env 1) s' 2 = exchange_rate_stored (ex_env 1) ex_state 2"
    by (rule borrow_keeps_exchange_rate [OF ex_env_laws(1,3) s']) (simp_all add: loans_eval leaves_no_dust_def)
  with s' show ?thesis by blast
qed

section \<open>Interest\<close>

text \<open>One accrual charges at most simple interest at the model's greatest rate on the recorded debt
  for the time since the last accrual.\<close>

theorem accrual_interest_bounded:
  assumes laws: "sp_arith_laws (lc_arith C)" and acc: "accrue_interest C s a = Inr s'"
    and m: "markets s a = Some m" and cm: "check_model (rate_model_of m)"
  shows "(total_borrows s' a - total_borrows s a) * SECONDS_PER_YEAR * FX
    \<le> max_rate (rate_model_of m) * total_borrows s a * (lc_now C - last_accrued_interest_time s a)"
  using acc
proof (cases rule: accrue_interestE)
  case (stale br sr er u bo r i)
  from stale(3) laws show ?thesis
  proof (rule get_market_statusD)
    fix m'
    assume m': "markets s a = Some m'"
      and u: "calc_utilization_ratio C (get_total_cash C s a) (total_borrows s a) (total_reserves s a) = Inr u"
      and br: "get_borrow_rate (lc_arith C) (rate_model_of m') u = Some br"
      and "last_accrued_interest_time s a < lc_now C \<Longrightarrow>
           \<exists>j d. accrued_interest C br (total_borrows s a) (lc_now C - last_accrued_interest_time s a) = Some j \<and>
               increment_index C br (borrow_index s a) (lc_now C - last_accrued_interest_time s a) = Some d \<and>
               bo = total_borrows s a + j \<and> i = borrow_index s a + d \<and>
               r = total_reserves s a + pm_mul_floor (lc_arith C) (reserve_factor m') j"
    then obtain j where j: "accrued_interest C br (total_borrows s a) (lc_now C - last_accrued_interest_time s a) = Some j"
      "bo = total_borrows s a + j" using stale(2) by blast
    have "u \<le> PM" using u pm_from_rational_le [OF laws]
      by (auto simp: calc_utilization_ratio_def split: if_splits)
    then have "br \<le> max_rate (rate_model_of m)"
      using irm.rate_bounds [OF laws cm] br m m' by simp
    then have "br * total_borrows s a * (lc_now C - last_accrued_interest_time s a)
        \<le> max_rate (rate_model_of m) * total_borrows s a * (lc_now C - last_accrued_interest_time s a)"
      by (intro mult_le_mono1)
    moreover have "total_borrows s' a - total_borrows s a = j" using stale(4) j(2) by simp
    ultimately show ?thesis using accrued_interest_le [OF laws j(1)] by (simp only: order_trans)
  qed
qed (simp_all add: update_last_accrued_interest_time_def)

theorem accrual_interest_bounded_witness:
  "\<exists>s'. accrue_interest (ex_env 31536001) ex_short 2 = Inr s' \<and>
     (total_borrows s' 2 - total_borrows ex_short 2) * SECONDS_PER_YEAR * FX
       \<le> max_rate (rate_model_of ((ex_market 102)\<lparr>state_of := Active\<rparr>)) * total_borrows ex_short 2 * (31536001 - 1)"
proof -
  obtain s' where s': "accrue_interest (ex_env 31536001) ex_short 2 = Inr s'" by (simp add: loans_eval)
  have "(total_borrows s' 2 - total_borrows ex_short 2) * SECONDS_PER_YEAR * FX
       \<le> max_rate (rate_model_of ((ex_market 102)\<lparr>state_of := Active\<rparr>)) * total_borrows ex_short 2 *
         (lc_now (ex_env 31536001) - last_accrued_interest_time ex_short 2)"
    by (rule accrual_interest_bounded [OF ex_env_laws(1) s'])
      (simp_all add: ex_short_def ex_state_def ex_market_def irm_new_jump_model_def jump_new_model_def
        jump_check_model_def JUMP_MAX_BASE_RATE_def JUMP_MAX_JUMP_RATE_def JUMP_MAX_FULL_RATE_def)
  then have "(total_borrows s' 2 - total_borrows ex_short 2) * SECONDS_PER_YEAR * FX
       \<le> max_rate (rate_model_of ((ex_market 102)\<lparr>state_of := Active\<rparr>)) * total_borrows ex_short 2 * (31536001 - 1)"
    by (simp add: ex_env_def ex_short_def ex_state_def)
  with s' show ?thesis by blast
qed

text \<open>Accrual is idempotent within a block: the order and number of operations of a block do not
  change the interest charged.\<close>

theorem accrual_idempotent:
  assumes "accrue_interest C s a = Inr s'"
  shows "accrue_interest C s' a = Inr s'"
  by (rule accrue_interest_again [OF assms])

theorem accrual_idempotent_witness:
  "\<exists>s'. accrue_interest (ex_env 31536001) ex_short 2 = Inr s' \<and> accrue_interest (ex_env 31536001) s' 2 = Inr s'"
proof -
  obtain s' where s': "accrue_interest (ex_env 31536001) ex_short 2 = Inr s'" by (simp add: loans_eval)
  with accrual_idempotent [OF s'] show ?thesis by blast
qed

text \<open>Repaying everything clears the debt: after a successful \<open>repay_borrow_all\<close> the account owes
  nothing in that market.\<close>

theorem repay_all_clears_debt:
  assumes "repay_borrow_all C s (Signed w) a = Inr s'"
  shows "bs_principal (account_borrows s' a w) = 0 \<and> current_borrow_balance C s' w a = Inr 0"
proof -
  from assms obtain s1 b where acc: "accrue_interest C s a = Inr s1"
    and b: "current_borrow_balance C s1 w a = Inr b" and rep: "do_repay_borrow C s1 w a b = Inr s'"
    unfolding repay_borrow_all_def by (auto elim!: bindE_InrE)
  from rep show ?thesis
  proof (rule do_repay_borrow_inv)
    fix s2 b' s3
    assume "accrue_interest C s1 a = Inr s2" and "current_borrow_balance C s2 w a = Inr b'"
      and "do_repay_borrow_with_amount C s2 w a b' b = Inr s3"
      and s': "s' = deposit_event (RepaidBorrow w a b) s3"
    then have "do_repay_borrow_with_amount C s1 w a b b = Inr s3"
      using accrue_interest_again [OF acc] b by simp
    then have "bs_principal (account_borrows s3 a w) = 0" by (rule do_repay_borrow_with_amountE) simp
    then show ?thesis by (simp add: s' current_borrow_balance_def)
  qed
qed

theorem repay_all_clears_debt_witness:
  "\<exists>s'. repay_borrow_all (ex_env 31536001) ex_short (Signed 1) 2 = Inr s' \<and>
     current_borrow_balance (ex_env 31536001) s' 1 2 = Inr 0"
proof -
  obtain s' where s': "repay_borrow_all (ex_env 31536001) ex_short (Signed 1) 2 = Inr s'"
    by (simp add: repay_borrow_all_def loans_eval)
  with repay_all_clears_debt [OF s'] show ?thesis by blast
qed

section \<open>Limits\<close>

text \<open>A successful borrow respects the market's limits: the total debt stays within the borrow cap,
  and the cash that backs the reserves is not lent out.\<close>

theorem borrow_respects_limits:
  assumes "do_borrow C s w a n = Inr s'" and laws: "sp_arith_laws (lc_arith C)"
    and acc: "accrue_interest C s a = Inr s1" and m: "markets s a = Some m"
  shows "total_borrows s' a \<le> borrow_cap m \<and> n + total_reserves s1 a \<le> get_total_cash C s1 a"
  using assms(1) laws
proof (rule do_borrowE)
  fix s2
  assume "accrue_interest C s a = Inr s2" and ok: "borrow_allowed C s2 a w n = Inr ()"
    and tb: "total_borrows s' = (total_borrows s2)(a := total_borrows s2 a + n)"
  then have s2: "s2 = s1" using acc by simp
  have "markets s1 a = Some m"
    using m accruedD(5) [OF accrue_interest_accrued [OF acc laws]] by simp
  with ok tb show ?thesis
    unfolding borrow_allowed_def ensure_under_borrow_cap_def ensure_enough_cash_def s2
    by (auto split: if_splits)
qed

theorem borrow_respects_limits_witness:
  "\<exists>s'. do_borrow (ex_env 1) ex_state 1 2 400 = Inr s' \<and>
     total_borrows s' 2 \<le> 1000000000000000000000000000000 \<and>
     400 + total_reserves ex_state 2 \<le> get_total_cash (ex_env 1) ex_state 2"
proof -
  obtain s' where s': "do_borrow (ex_env 1) ex_state 1 2 400 = Inr s'" by (simp add: loans_eval)
  have "accrue_interest (ex_env 1) ex_state 2 = Inr ex_state"
    by (simp add: accrue_interest_def ex_env_def ex_state_def)
  from borrow_respects_limits [OF s' ex_env_laws(1) this, of "(ex_market 102)\<lparr>state_of := Active\<rparr>"] s'
  show ?thesis by (auto simp: ex_state_def ex_market_def)
qed

text \<open>A successful mint respects the supply cap: after the deposit the pallet holds at most the cap.\<close>

theorem mint_respects_cap:
  assumes "do_mint C s w a n = Inr s'" and laws: "sp_arith_laws (lc_arith C)"
    and ft: "fungibles_laws (lc_assets C)" and m: "markets s a = Some m" and w: "w \<noteq> account_id C"
    and dust: "leaves_no_dust (ft_minimum_balance (lc_assets C) (ledger s) a)
           (ft_balance (lc_assets C) (ledger s) a w) n"
  shows "ft_balance (lc_assets C) (ledger s') a (account_id C) \<le> supply_cap m"
  using assms(1) laws
proof (rule do_mintE)
  assume cap: "ensure_under_supply_cap C s a n = Inr ()"
    and tr: "ft_transfer (lc_assets C) (ledger s) a w (account_id C) n False = Inr (ledger s')"
  have "ft_balance (lc_assets C) (ledger s') a (account_id C)
      = ft_balance (lc_assets C) (ledger s) a (account_id C) + n"
    using fungibles_lawsD(2) [OF ft tr dust, of "account_id C"] w by (simp split: if_splits)
  with cap m show ?thesis by (auto simp: ensure_under_supply_cap_def market_of_def)
qed

theorem mint_respects_cap_witness:
  "\<exists>s'. do_mint (ex_env 1) ex_state 2 2 777 = Inr s' \<and>
     ft_balance (lc_assets (ex_env 1)) (ledger s') 2 99 \<le> 1000000000000000000000000000000"
proof -
  obtain s' where s': "do_mint (ex_env 1) ex_state 2 2 777 = Inr s'" by (simp add: loans_eval)
  have "ft_balance (lc_assets (ex_env 1)) (ledger s') 2 (account_id (ex_env 1))
      \<le> supply_cap ((ex_market 102)\<lparr>state_of := Active\<rparr>)"
    by (rule mint_respects_cap [OF s' ex_env_laws(1,2)])
      (simp_all add: ex_state_def ex_env_def ex_ledger_def genesis_def fungibles_ref_def account_id_def leaves_no_dust_def)
  with s' show ?thesis by (auto simp: account_id_def ex_env_def ex_market_def)
qed

text \<open>C21. Collateral can be redeemed only within the liquidity of the account: the value of the collateral given up,
  weighted by the collateral factor, is within what the collateral leaves beside the debt and the liquidation free
  position, or, for a liquidation free collateral, within the larger of the two liquidities.  So when this value is
  positive and the collateral is not a liquidation free one, the debt and the value given up together are at most the
  collateral before.\<close>

theorem redeem_keeps_covered:
  assumes "do_redeem_voucher C s w a v = Inr (n, s')" and laws: "sp_arith_laws (lc_arith C)"
    and col: "is_collateral (get_deposits s a w)"
  shows "\<exists>m x b c lb lp. markets s a = Some m \<and>
    get_asset_value C a (pm_mul_ceil (lc_arith C) (collateral_factor m) n) = Inr x \<and>
    total_borrowed_value C s w = Inr b \<and> total_collateral_value C s w = Inr c \<and>
    get_lf_borrowed_value C s w = Inr lb \<and> get_lf_base_position C s w = Inr lp \<and>
    within_liquidity (a \<in> set (liquidation_free_collaterals s)) b c lb lp x \<and>
    (a \<notin> set (liquidation_free_collaterals s) \<and> 0 < x \<longrightarrow> b + x \<le> c)"
  using assms(1) laws
proof (rule do_redeem_voucherE)
  fix e
  let ?lf = "a \<in> set (liquidation_free_collaterals s)"
  assume e: "exchange_rate_stored C s a = Inr e" and ok: "redeem_allowed C s a w v = Inr ()"
    and n: "n = e * v div FX"
  from ok e col obtain m x where m: "markets s a = Some m"
      and x: "get_asset_value C a (pm_mul_ceil (lc_arith C) (collateral_factor m) n) = Inr x"
      and "ensure_liquidity C s w x ?lf = Inr ()"
    unfolding redeem_allowed_def Let_def
    by (auto simp: calc_underlying_amount_iff [OF laws] n split: if_splits option.splits)
  from ensure_liquidity_within [OF laws this(3)] obtain b c lb lp where
      "total_borrowed_value C s w = Inr b" "total_collateral_value C s w = Inr c"
      "get_lf_borrowed_value C s w = Inr lb" "get_lf_base_position C s w = Inr lp"
      and "within_liquidity ?lf b c lb lp x" by blast
  moreover from this(5) have "\<not> ?lf \<and> 0 < x \<longrightarrow> b + x \<le> c" using within_liquidity_covers by auto
  ultimately show ?thesis using m x by blast
qed

theorem redeem_keeps_covered_witness:
  "\<exists>s' b c. do_redeem_voucher (ex_env 1) ex_both 1 1 10000 = Inr (200, s') \<and>
     total_borrowed_value (ex_env 1) ex_both 1 = Inr b \<and> total_collateral_value (ex_env 1) ex_both 1 = Inr c \<and>
     b + 100 \<le> c"
proof -
  obtain s' where s': "do_redeem_voucher (ex_env 1) ex_both 1 1 10000 = Inr (200, s')"
    by (simp add: loans_eval)
  have e: "is_collateral (get_deposits ex_both 1 1)" "markets ex_both 1 = Some ((ex_market 101)\<lparr>state_of := Active\<rparr>)"
    "get_asset_value (ex_env 1) 1 (pm_mul_ceil (lc_arith (ex_env 1)) (collateral_factor ((ex_market 101)\<lparr>state_of := Active\<rparr>)) 200) = Inr 100"
    "1 \<notin> set (liquidation_free_collaterals ex_both)"
    by (simp_all add: loans_eval)
  from redeem_keeps_covered [OF s' ex_env_laws(1) e(1)] e s' show ?thesis by auto
qed

text \<open>Operations on a market that does not exist or is not active are refused before anything
  changes.\<close>

theorem inactive_market_refuses:
  assumes "\<not> (\<exists>m. markets s a = Some m \<and> state_of m = Active)"
  shows "borrow C s (Signed w) a n = Inl (Module MarketNotActivated) \<and>
    repay_borrow C s (Signed w) a n = Inl (Module MarketNotActivated) \<and>
    repay_borrow_all C s (Signed w) a = Inl (Module MarketNotActivated) \<and>
    redeem_all C s (Signed w) a = Inl (Module MarketNotActivated) \<and>
    collateral_asset C s (Signed w) a en = Inl (Module MarketNotActivated) \<and>
    mint C s (Signed w) a n = Inl (Module (if n = 0 then InvalidAmount else MarketNotActivated)) \<and>
    redeem C s (Signed w) a n = Inl (Module (if n = 0 then InvalidAmount else MarketNotActivated))"
proof -
  have "ensure_active_market C s a = Inl (Module MarketNotActivated)"
  proof (cases "ensure_active_market C s a")
    case (Inl e)
    then show ?thesis by (auto simp: ensure_active_market_def ok_or_def split: option.splits)
  next
    case (Inr m)
    then have "markets s a = Some m \<and> state_of m = Active"
      by (auto dest!: ensure_active_marketD simp: active_markets_mem)
    with assms show ?thesis by blast
  qed
  then show ?thesis
    by (simp add: borrow_def do_borrow_def repay_borrow_def do_repay_borrow_def repay_borrow_all_def
        redeem_all_def collateral_asset_def mint_def do_mint_def redeem_def do_redeem_def ensure_signed_def)
qed

theorem inactive_market_refuses_witness:
  "mint (ex_env 1) (genesis (ex_ledger 0)) (Signed 1) 1 5 = Inl (Module MarketNotActivated)"
  using inactive_market_refuses [of "genesis (ex_ledger 0)" 1 "ex_env 1" 1 5] by (simp add: genesis_def)

end
