(* ===== verification/Loans_Service_Properties.thy ===== *)
theory Loans_Service_Properties
  imports Loans_Safety Loans_Example
begin

text \<open>
  Properties of the services around the loans pallet's positions: rewards, limits and refusals.
\<close>

section \<open>Lemmas on rewards\<close>

lemma update_reward_borrow_indexD:
  assumes "update_reward_borrow_index C s a = Inr s'"
  shows "reward_accrued s' = reward_accrued s" and "lc_block C \<le> rm_block (reward_borrow_state s' a)"
    and "reward_supply_state s' = reward_supply_state s"
    and "reward_supplier_index s' = reward_supplier_index s"
    and "reward_borrower_index s' = reward_borrower_index s"
  using assms by (auto simp: update_reward_borrow_index_def Let_def split: if_splits)

lemma update_reward_borrow_index_again:
  "lc_block C \<le> rm_block (reward_borrow_state s a) \<Longrightarrow> update_reward_borrow_index C s a = Inr s"
  by (simp add: update_reward_borrow_index_def)

lemma distribute_borrower_rewardD:
  assumes "distribute_borrower_reward C s a w = Inr s'"
  shows "reward_borrower_index s' a w = rm_index (reward_borrow_state s a)"
    and "reward_borrow_state s' = reward_borrow_state s"
    and "reward_supply_state s' = reward_supply_state s"
    and "reward_supplier_index s' = reward_supplier_index s"
  using assms by (auto simp: distribute_borrower_reward_def Let_def)

lemma distribute_borrower_reward_again:
  assumes "reward_borrower_index s a w = rm_index (reward_borrow_state s a)"
    and "distribute_borrower_reward C s a w = Inr s'"
  shows "reward_accrued s' = reward_accrued s"
  using assms by (auto simp: distribute_borrower_reward_def Let_def calculate_reward_delta_def)

lemma distribute_supplier_reward_borrow:
  assumes "distribute_supplier_reward s a w = Inr s'"
  shows "reward_borrow_state s' = reward_borrow_state s" and "reward_borrower_index s' = reward_borrower_index s"
  using assms by (auto simp: distribute_supplier_reward_def Let_def)

lemma collect_market_reward_inv:
  assumes "collect_market_reward C s a w = Inr s'"
  obtains t u v where "update_reward_supply_index C s a = Inr t" "distribute_supplier_reward t a w = Inr u"
    "update_reward_borrow_index C u a = Inr v" "distribute_borrower_reward C v a w = Inr s'"
  using assms unfolding collect_market_reward_def by (elim resultE) (rule that)

text \<open>After a collection in a block the market and the account are up to date on both sides.\<close>

lemma collected:
  assumes "collect_market_reward C s a w = Inr s'"
  shows "lc_block C \<le> rm_block (reward_supply_state s' a) \<and> lc_block C \<le> rm_block (reward_borrow_state s' a) \<and>
    reward_supplier_index s' a w = rm_index (reward_supply_state s' a) \<and>
    reward_borrower_index s' a w = rm_index (reward_borrow_state s' a)"
  using assms
proof (rule collect_market_reward_inv)
  fix t u v
  assume 1: "update_reward_supply_index C s a = Inr t" and 2: "distribute_supplier_reward t a w = Inr u"
    and 3: "update_reward_borrow_index C u a = Inr v" and 4: "distribute_borrower_reward C v a w = Inr s'"
  show ?thesis
    using update_reward_supply_indexD(5) [OF 1] distribute_supplier_rewardD(1,2) [OF 2]
      update_reward_borrow_indexD(2-5) [OF 3] distribute_borrower_rewardD [OF 4] by simp
qed

section \<open>Rewards\<close>

text \<open>Rewards are not counted twice: collecting a market's reward a second time in the same block
  credits nothing.\<close>

theorem reward_not_counted_twice:
  assumes "collect_market_reward C s a w = Inr s1" and "collect_market_reward C s1 a w = Inr s2"
  shows "reward_accrued s2 = reward_accrued s1"
  using assms(2)
proof (rule collect_market_reward_inv)
  fix t u v
  assume 1: "update_reward_supply_index C s1 a = Inr t" and 2: "distribute_supplier_reward t a w = Inr u"
    and 3: "update_reward_borrow_index C u a = Inr v" and 4: "distribute_borrower_reward C v a w = Inr s2"
  note c = collected [OF assms(1)]
  have t: "t = s1" using 1 c update_reward_supply_index_again [of C s1 a] by simp
  have u: "reward_accrued u = reward_accrued s1"
    using distribute_supplier_reward_again [OF _ 2] c by (simp add: t)
  note b = distribute_supplier_reward_borrow [OF 2]
  have v: "v = u" using 3 c update_reward_borrow_index_again [of C u a] by (simp add: b t)
  show ?thesis using distribute_borrower_reward_again [OF _ 4] c u by (simp add: v b t)
qed

theorem reward_not_counted_twice_witness:
  "\<exists>s1 s2. collect_market_reward (ex_env 5) (ex_state\<lparr>reward_supply_speed := (\<lambda>_. 10)\<rparr>) 1 1 = Inr s1 \<and>
     reward_accrued s1 1 = 50 \<and> collect_market_reward (ex_env 5) s1 1 1 = Inr s2 \<and>
     reward_accrued s2 = reward_accrued s1"
proof -
  obtain s1 s2 where s: "collect_market_reward (ex_env 5) (ex_state\<lparr>reward_supply_speed := (\<lambda>_. 10)\<rparr>) 1 1 = Inr s1"
    "reward_accrued s1 1 = 50" "collect_market_reward (ex_env 5) s1 1 1 = Inr s2"
    by (simp add: loans_eval)
  with reward_not_counted_twice [OF s(1,3)] show ?thesis by blast
qed

text \<open>No more supply reward is credited than emitted: over one update of a market's index, what all
  its suppliers together become entitled to is at most the reward of the elapsed blocks.\<close>

theorem supply_reward_bounded:
  assumes "vouchers_backed s" and "update_reward_supply_index C s a = Inr s'"
  shows "(\<Sum>w\<in>dom (account_deposits s a). voucher_balance (get_deposits s a w) *
      (rm_index (reward_supply_state s' a) - rm_index (reward_supply_state s a)) div reward_scale)
    \<le> (lc_block C - rm_block (reward_supply_state s a)) * reward_supply_speed s a"
proof -
  let ?n = "(lc_block C - rm_block (reward_supply_state s a)) * reward_supply_speed s a"
  let ?d = "rm_index (reward_supply_state s' a) - rm_index (reward_supply_state s a)"
  have d: "?d \<le> ?n * reward_scale div total_supply s a"
    using assms(2) by (auto simp: update_reward_supply_index_def Let_def calculate_reward_delta_index_def
        split: if_splits)
  have "(\<Sum>w\<in>dom (account_deposits s a). voucher_balance (get_deposits s a w))
      = (\<Sum>w\<in>dom (account_deposits s a). voucher_balance (the (account_deposits s a w)))"
    by (rule sum.cong) (auto simp: get_deposits_def)
  with assms(1) have W: "finite (dom (account_deposits s a))"
    "(\<Sum>w\<in>dom (account_deposits s a). voucher_balance (get_deposits s a w)) \<le> total_supply s a"
    by (simp_all add: vouchers_backed_def voucher_total_def sum_entries_def)
  have "(\<Sum>w\<in>dom (account_deposits s a). voucher_balance (get_deposits s a w) * ?d div reward_scale)
      \<le> (\<Sum>w\<in>dom (account_deposits s a).
          voucher_balance (get_deposits s a w) * (?n * reward_scale div total_supply s a) div reward_scale)"
    by (intro sum_mono div_le_mono mult_le_mono2 d)
  also have "\<dots> \<le> ?n" by (rule share_sum_le [OF W])
  finally show ?thesis .
qed

theorem supply_reward_bounded_witness:
  "\<exists>s'. update_reward_supply_index (ex_env 5) (ex_state\<lparr>reward_supply_speed := (\<lambda>_. 10)\<rparr>) 1 = Inr s' \<and>
     voucher_balance (get_deposits ex_state 1 1) *
       (rm_index (reward_supply_state s' 1) - rm_index (reward_supply_state ex_state 1)) div reward_scale \<le> 50"
proof -
  let ?s = "ex_state\<lparr>reward_supply_speed := (\<lambda>_. 10)\<rparr>"
  obtain s' where s': "update_reward_supply_index (ex_env 5) ?s 1 = Inr s'" by (simp add: loans_eval)
  have b: "vouchers_backed ?s"
    using ex_state_inv vouchers_backed_cong [of ?s ex_state] by (simp add: loans_inv_def)
  have "dom (account_deposits ?s 1) = {1}" by (simp add: ex_state_def)
  moreover have "get_deposits ?s = get_deposits ex_state" by (rule get_deposits_cong) simp
  ultimately show ?thesis
    using supply_reward_bounded [OF b s'] s' by (auto simp: ex_env_def ex_state_def genesis_def)
qed

text \<open>Claiming pays out everything that was accrued: after a successful \<open>claim_reward\<close> the account
  has no unpaid reward left.\<close>

theorem claim_pays_all:
  assumes "claim_reward C s (Signed w) = Inr s'"
  shows "reward_accrued s' w = 0"
proof -
  from assms obtain t where "pay_reward C t w = Inr s'"
    unfolding claim_reward_def by (auto elim!: bindE_InrE)
  then show ?thesis by (rule pay_reward_inv) simp_all
qed

theorem claim_pays_all_witness:
  "\<exists>s'. claim_reward (ex_env 5) (ex_state\<lparr>reward_supply_speed := (\<lambda>_. 10)\<rparr>) (Signed 1) = Inr s' \<and>
     reward_accrued s' 1 = 0"
proof -
  obtain s' where s': "claim_reward (ex_env 5) (ex_state\<lparr>reward_supply_speed := (\<lambda>_. 10)\<rparr>) (Signed 1) = Inr s'"
    by (simp add: claim_reward_def loans_eval)
  with claim_pays_all [OF s'] show ?thesis by blast
qed

end
