(* ===== verification/Currency_Adapter.thy ===== *)
theory Currency_Adapter
  imports Fungibles
begin

text \<open>
  The currency adapter (src/pallets/currency-adapter/src/lib.rs): one \<open>fungibles\<close> interface over
  the native currency held by \<open>T::Balances\<close> and every other asset held by \<open>T::Assets\<close>.

  Both ledgers are outside the repository and are parameters: \<open>B\<close> for the single-currency interface
  of \<open>pallet-balances\<close> (with its locks), \<open>A\<close> for \<open>pallet-assets\<close>.  The state of the adapter is the
  pair of their states.  The adapter is the \<open>T::Assets\<close> of the loans and amm pallets in the
  runtimes, so it is proved to satisfy the contract \<open>fungibles_ledger\<close> whenever both ledgers do.
\<close>

datatype currency_adapter_error = NotANativeToken

record ('e, 'b) fungible =
  fb_total_issuance :: "'b \<Rightarrow> balance"
  fb_minimum_balance :: "'b \<Rightarrow> balance"
  fb_balance :: "'b \<Rightarrow> account_id \<Rightarrow> balance"
  fb_reducible_balance :: "'b \<Rightarrow> account_id \<Rightarrow> bool \<Rightarrow> balance"
  fb_can_deposit :: "'b \<Rightarrow> account_id \<Rightarrow> balance \<Rightarrow> bool \<Rightarrow> deposit_consequence"
  fb_can_withdraw :: "'b \<Rightarrow> account_id \<Rightarrow> balance \<Rightarrow> withdraw_consequence"
  fb_mint_into :: "'b \<Rightarrow> account_id \<Rightarrow> balance \<Rightarrow> 'e + 'b"
  fb_burn_from :: "'b \<Rightarrow> account_id \<Rightarrow> balance \<Rightarrow> 'e + 'b"
  fb_transfer :: "'b \<Rightarrow> account_id \<Rightarrow> account_id \<Rightarrow> balance \<Rightarrow> bool \<Rightarrow> 'e + 'b"
  fb_set_lock :: "'b \<Rightarrow> string \<Rightarrow> account_id \<Rightarrow> balance \<Rightarrow> 'b"
  fb_remove_lock :: "'b \<Rightarrow> string \<Rightarrow> account_id \<Rightarrow> 'b"

definition CURRENCY_ADAPTER_ID :: string where
  "CURRENCY_ADAPTER_ID = ''cadapter''"

definition force_set_lock ::
    "(origin \<Rightarrow> bool) \<Rightarrow> currency_id \<Rightarrow> ('e, 'b) fungible \<Rightarrow> 'b \<times> 'a \<Rightarrow> origin
     \<Rightarrow> currency_id \<Rightarrow> account_id \<Rightarrow> balance \<Rightarrow> currency_adapter_error dispatch_error + 'b \<times> 'a" where
  "force_set_lock lock_origin native B s o' asset who amount =
     bindE (ensure_origin lock_origin o') (\<lambda>_.
     bindE (ensure (asset = native) (Module NotANativeToken)) (\<lambda>_.
     Inr (fb_set_lock B (fst s) CURRENCY_ADAPTER_ID who amount, snd s)))"

definition force_remove_lock ::
    "(origin \<Rightarrow> bool) \<Rightarrow> currency_id \<Rightarrow> ('e, 'b) fungible \<Rightarrow> 'b \<times> 'a \<Rightarrow> origin
     \<Rightarrow> currency_id \<Rightarrow> account_id \<Rightarrow> currency_adapter_error dispatch_error + 'b \<times> 'a" where
  "force_remove_lock lock_origin native B s o' asset who =
     bindE (ensure_origin lock_origin o') (\<lambda>_.
     bindE (ensure (asset = native) (Module NotANativeToken)) (\<lambda>_.
     Inr (fb_remove_lock B (fst s) CURRENCY_ADAPTER_ID who, snd s)))"

definition ca_total_issuance ::
    "currency_id \<Rightarrow> ('e, 'b) fungible \<Rightarrow> ('e, 'a) fungibles \<Rightarrow> 'b \<times> 'a \<Rightarrow> currency_id \<Rightarrow> balance" where
  "ca_total_issuance native B A s asset =
     (if asset = native then fb_total_issuance B (fst s) else ft_total_issuance A (snd s) asset)"

definition ca_minimum_balance ::
    "currency_id \<Rightarrow> ('e, 'b) fungible \<Rightarrow> ('e, 'a) fungibles \<Rightarrow> 'b \<times> 'a \<Rightarrow> currency_id \<Rightarrow> balance" where
  "ca_minimum_balance native B A s asset =
     (if asset = native then fb_minimum_balance B (fst s) else ft_minimum_balance A (snd s) asset)"

definition ca_balance ::
    "currency_id \<Rightarrow> ('e, 'b) fungible \<Rightarrow> ('e, 'a) fungibles \<Rightarrow> 'b \<times> 'a
     \<Rightarrow> currency_id \<Rightarrow> account_id \<Rightarrow> balance" where
  "ca_balance native B A s asset who =
     (if asset = native then fb_balance B (fst s) who else ft_balance A (snd s) asset who)"

definition ca_reducible_balance ::
    "currency_id \<Rightarrow> ('e, 'b) fungible \<Rightarrow> ('e, 'a) fungibles \<Rightarrow> 'b \<times> 'a
     \<Rightarrow> currency_id \<Rightarrow> account_id \<Rightarrow> bool \<Rightarrow> balance" where
  "ca_reducible_balance native B A s asset who keep_alive =
     (if asset = native then fb_reducible_balance B (fst s) who keep_alive
      else ft_reducible_balance A (snd s) asset who keep_alive)"

definition ca_can_deposit ::
    "currency_id \<Rightarrow> ('e, 'b) fungible \<Rightarrow> ('e, 'a) fungibles \<Rightarrow> 'b \<times> 'a
     \<Rightarrow> currency_id \<Rightarrow> account_id \<Rightarrow> balance \<Rightarrow> bool \<Rightarrow> deposit_consequence" where
  "ca_can_deposit native B A s asset who amount mint =
     (if asset = native then fb_can_deposit B (fst s) who amount mint
      else ft_can_deposit A (snd s) asset who amount mint)"

definition ca_can_withdraw ::
    "currency_id \<Rightarrow> ('e, 'b) fungible \<Rightarrow> ('e, 'a) fungibles \<Rightarrow> 'b \<times> 'a
     \<Rightarrow> currency_id \<Rightarrow> account_id \<Rightarrow> balance \<Rightarrow> withdraw_consequence" where
  "ca_can_withdraw native B A s asset who amount =
     (if asset = native then fb_can_withdraw B (fst s) who amount
      else ft_can_withdraw A (snd s) asset who amount)"

definition ca_asset_exists ::
    "currency_id \<Rightarrow> ('e, 'a) fungibles \<Rightarrow> 'b \<times> 'a \<Rightarrow> currency_id \<Rightarrow> bool" where
  "ca_asset_exists native A s asset =
     (if asset = native then True else ft_asset_exists A (snd s) asset)"

definition ca_mint_into ::
    "currency_id \<Rightarrow> ('e, 'b) fungible \<Rightarrow> ('e, 'a) fungibles \<Rightarrow> 'b \<times> 'a
     \<Rightarrow> currency_id \<Rightarrow> account_id \<Rightarrow> balance \<Rightarrow> 'e + 'b \<times> 'a" where
  "ca_mint_into native B A s asset who amount =
     (if asset = native then bindE (fb_mint_into B (fst s) who amount) (\<lambda>b. Inr (b, snd s))
      else bindE (ft_mint_into A (snd s) asset who amount) (\<lambda>a. Inr (fst s, a)))"

definition ca_burn_from ::
    "currency_id \<Rightarrow> ('e, 'b) fungible \<Rightarrow> ('e, 'a) fungibles \<Rightarrow> 'b \<times> 'a
     \<Rightarrow> currency_id \<Rightarrow> account_id \<Rightarrow> balance \<Rightarrow> 'e + 'b \<times> 'a" where
  "ca_burn_from native B A s asset who amount =
     (if asset = native then bindE (fb_burn_from B (fst s) who amount) (\<lambda>b. Inr (b, snd s))
      else bindE (ft_burn_from A (snd s) asset who amount) (\<lambda>a. Inr (fst s, a)))"

definition ca_transfer ::
    "currency_id \<Rightarrow> ('e, 'b) fungible \<Rightarrow> ('e, 'a) fungibles \<Rightarrow> 'b \<times> 'a
     \<Rightarrow> currency_id \<Rightarrow> account_id \<Rightarrow> account_id \<Rightarrow> balance \<Rightarrow> bool \<Rightarrow> 'e + 'b \<times> 'a" where
  "ca_transfer native B A s asset source dest amount keep_alive =
     (if asset = native
      then bindE (fb_transfer B (fst s) source dest amount keep_alive) (\<lambda>b. Inr (b, snd s))
      else bindE (ft_transfer A (snd s) asset source dest amount keep_alive) (\<lambda>a. Inr (fst s, a)))"

text \<open>The adapter as a provider of the whole interface.\<close>

definition currency_adapter ::
    "currency_id \<Rightarrow> ('e, 'b) fungible \<Rightarrow> ('e, 'a) fungibles \<Rightarrow> ('e, 'b \<times> 'a) fungibles" where
  "currency_adapter native B A = \<lparr>
     ft_total_issuance = ca_total_issuance native B A,
     ft_minimum_balance = ca_minimum_balance native B A,
     ft_balance = ca_balance native B A,
     ft_reducible_balance = ca_reducible_balance native B A,
     ft_can_deposit = ca_can_deposit native B A,
     ft_can_withdraw = ca_can_withdraw native B A,
     ft_asset_exists = ca_asset_exists native A,
     ft_mint_into = ca_mint_into native B A,
     ft_burn_from = ca_burn_from native B A,
     ft_transfer = ca_transfer native B A\<rparr>"

text \<open>The documented behaviour of the single-currency interface of \<open>T::Balances\<close>.\<close>

definition fb_transfer_law :: "('e, 'b) fungible \<Rightarrow> bool" where
  "fb_transfer_law B \<longleftrightarrow>
     (\<forall>b x y n k b'. fb_transfer B b x y n k = Inr b' \<longrightarrow>
        (x \<noteq> y \<longrightarrow> n \<le> fb_balance B b x) \<and> fb_total_issuance B b' \<le> fb_total_issuance B b \<and>
        (leaves_no_dust (fb_minimum_balance B b) (fb_balance B b x) n \<longrightarrow>
          (\<forall>z. fb_balance B b' z + (if z = x then n else 0) =
               fb_balance B b z + (if z = y then n else 0))))"

definition fb_supply_law :: "('e, 'b) fungible \<Rightarrow> bool" where
  "fb_supply_law B \<longleftrightarrow>
     (\<forall>b x n b'. fb_mint_into B b x n = Inr b' \<longrightarrow>
        fb_total_issuance B b' = fb_total_issuance B b + n \<and>
        (\<forall>z. fb_balance B b' z = fb_balance B b z + (if z = x then n else 0))) \<and>
     (\<forall>b x n b'. fb_burn_from B b x n = Inr b' \<longrightarrow>
        leaves_no_dust (fb_minimum_balance B b) (fb_balance B b x) n \<longrightarrow>
        fb_total_issuance B b' + n = fb_total_issuance B b \<and>
        (\<forall>z. fb_balance B b' z + (if z = x then n else 0) = fb_balance B b z))"

definition fungible_laws :: "('e, 'b) fungible \<Rightarrow> bool" where
  "fungible_laws B \<longleftrightarrow> fb_transfer_law B \<and> fb_supply_law B"

section \<open>The adapter satisfies the contract\<close>

lemma fungible_lawsD:
  assumes "fungible_laws B" and "fb_transfer B b x y n k = Inr b'"
  shows "x \<noteq> y \<Longrightarrow> n \<le> fb_balance B b x"
    and "fb_total_issuance B b' \<le> fb_total_issuance B b"
    and "leaves_no_dust (fb_minimum_balance B b) (fb_balance B b x) n \<Longrightarrow>
      fb_balance B b' z + (if z = x then n else 0) = fb_balance B b z + (if z = y then n else 0)"
  using assms unfolding fungible_laws_def fb_transfer_law_def by blast+

lemma fungible_laws_mintD:
  assumes "fungible_laws B" and "fb_mint_into B b x n = Inr b'"
  shows "fb_total_issuance B b' = fb_total_issuance B b + n"
    and "fb_balance B b' z = fb_balance B b z + (if z = x then n else 0)"
  using assms unfolding fungible_laws_def fb_supply_law_def by blast+

lemma fungible_laws_burnD:
  assumes "fungible_laws B" and "fb_burn_from B b x n = Inr b'"
    and "leaves_no_dust (fb_minimum_balance B b) (fb_balance B b x) n"
  shows "fb_total_issuance B b' + n = fb_total_issuance B b"
    and "fb_balance B b' z + (if z = x then n else 0) = fb_balance B b z"
  using assms unfolding fungible_laws_def fb_supply_law_def by blast+

lemma ca_transferE:
  assumes "ca_transfer native B A l a x y n k = Inr l'"
  obtains (native) b' where "a = native" "fb_transfer B (fst l) x y n k = Inr b'" "l' = (b', snd l)"
    | (other) a' where "a \<noteq> native" "ft_transfer A (snd l) a x y n k = Inr a'" "l' = (fst l, a')"
  using assms by (auto simp: ca_transfer_def split: if_splits)

interpretation ca: fungibles_ledger
  "ca_balance native B A" "ca_minimum_balance native B A" "ca_total_issuance native B A"
  "ca_transfer native B A" "\<lambda>_. fungible_laws B \<and> fungibles_laws A"
  for native B A
proof (unfold_locales, goal_cases)
  case (1 l a x y n k l')
  from 1(2) show ?case
    by (rule ca_transferE)
      (use 1(1,3) in \<open>auto simp: ca_balance_def dest: fungible_lawsD(1) fungibles_lawsD(1)\<close>)
next
  case (2 l a x y n k l' z)
  from 2(2) show ?case
  proof (rule ca_transferE)
    fix b'
    assume "a = native" "fb_transfer B (fst l) x y n k = Inr b'" "l' = (b', snd l)"
    with 2(1,3) show ?thesis using fungible_lawsD(3) [of B "fst l" x y n k b' z]
      by (simp add: ca_balance_def ca_minimum_balance_def)
  next
    fix a'
    assume "a \<noteq> native" "ft_transfer A (snd l) a x y n k = Inr a'" "l' = (fst l, a')"
    with 2(1,3) show ?thesis using fungibles_lawsD(2) [of A "snd l" a x y n k a' z]
      by (simp add: ca_balance_def ca_minimum_balance_def)
  qed
next
  case (3 l a x y n k l' b)
  from 3(2) show ?case
    by (rule ca_transferE)
      (use 3(1) in \<open>auto simp: ca_total_issuance_def fungible_lawsD(2) fungibles_lawsD(3)\<close>)
next
  case (4 l a x y n k l')
  then show ?case by simp
qed

lemma ca_burn_law:
  assumes "fungible_laws B" and "fungibles_laws A"
    and "ca_burn_from native B A l a x n = Inr l'"
    and "leaves_no_dust (ca_minimum_balance native B A l a) (ca_balance native B A l a x) n"
  shows "ca_balance native B A l' b z + (if b = a \<and> z = x then n else 0) = ca_balance native B A l b z \<and>
    ca_total_issuance native B A l' b + (if b = a then n else 0) = ca_total_issuance native B A l b"
proof (cases "a = native")
  case True
  with assms(3) obtain b' where "fb_burn_from B (fst l) x n = Inr b'" "l' = (b', snd l)"
    by (auto simp: ca_burn_from_def)
  with True assms(4) show ?thesis
    using fungible_laws_burnD(1) [OF assms(1), of "fst l" x n b']
      fungible_laws_burnD(2) [OF assms(1), of "fst l" x n b' z]
    by (auto simp: ca_balance_def ca_total_issuance_def ca_minimum_balance_def)
next
  case False
  with assms(3) obtain a' where "ft_burn_from A (snd l) a x n = Inr a'" "l' = (fst l, a')"
    by (auto simp: ca_burn_from_def)
  with False assms(4) show ?thesis
    using fungibles_laws_burnD(1) [OF assms(2), of "snd l" a x n a' b z]
      fungibles_laws_burnD(2) [OF assms(2), of "snd l" a x n a' b]
    by (auto simp: ca_balance_def ca_total_issuance_def ca_minimum_balance_def)
qed

text \<open>C28. The adapter built from two lawful ledgers is a lawful \<open>T::Assets\<close>: the native currency and the
  other assets do not disturb each other.
\<close>

theorem currency_adapter_lawful:
  assumes "fungible_laws B" and "fungibles_laws A"
  shows "fungibles_laws (currency_adapter native B A)"
proof -
  have "fungibles_ledger (ca_balance native B A) (ca_minimum_balance native B A)
          (ca_total_issuance native B A) (ca_transfer native B A) (\<lambda>_. True)"
    using ca.fungibles_ledger_axioms [of native B A] assms by simp
  moreover have "ca_balance native B A l' b z = ca_balance native B A l b z \<and>
      ca_total_issuance native B A l' b = ca_total_issuance native B A l b"
    if "ca_transfer native B A l a x y n k = Inr l'" "b \<noteq> a" for l a x y n k l' b z
    using that assms
    by (auto simp: ca_transfer_def ca_balance_def ca_total_issuance_def fungibles_lawsD(4,5) split: if_split_asm)
  moreover have "ca_balance native B A l' b z = ca_balance native B A l b z + (if b = a \<and> z = x then n else 0) \<and>
      ca_total_issuance native B A l' b = ca_total_issuance native B A l b + (if b = a then n else 0)"
    if "ca_mint_into native B A l a x n = Inr l'" for l a x n l' b z
    using that
    by (auto simp: ca_mint_into_def ca_balance_def ca_total_issuance_def
        fungible_laws_mintD [OF assms(1)] fungibles_laws_mintD [OF assms(2)] split: if_split_asm)
  moreover note ca_burn_law [OF assms]
  ultimately show ?thesis
    unfolding fungibles_laws_def currency_adapter_def transfer_other_law_def mint_law_def burn_law_def
    by simp
qed

text \<open>A concrete native currency: one asset of the reference ledger.\<close>

definition balances_ref :: "(nat, ref_ledger) fungible" where
  "balances_ref = \<lparr>fb_total_issuance = (\<lambda>l. lg_issuance l 0), fb_minimum_balance = (\<lambda>l. 0),
     fb_balance = (\<lambda>l. lg_balance l 0), fb_reducible_balance = (\<lambda>l x k. lg_balance l 0 x),
     fb_can_deposit = (\<lambda>l x n m. DepositSuccess),
     fb_can_withdraw = (\<lambda>l x n. if lg_balance l 0 x < n then NoFunds else WithdrawSuccess),
     fb_mint_into = (\<lambda>l. ref_mint l 0), fb_burn_from = (\<lambda>l. ref_burn l 0), fb_transfer = (\<lambda>l. ref_transfer l 0),
     fb_set_lock = (\<lambda>l i x n. l), fb_remove_lock = (\<lambda>l i x. l)\<rparr>"

lemma balances_ref_laws: "fungible_laws balances_ref"
  unfolding fungible_laws_def fb_transfer_law_def fb_supply_law_def balances_ref_def
  by (auto simp: ref_transfer_def ref_mint_def ref_burn_def Let_def split: if_splits)

theorem currency_adapter_lawful_witness:
  "fungibles_laws (currency_adapter 0 balances_ref fungibles_ref) \<and>
   is_ok (ca_transfer 0 balances_ref fungibles_ref
     (\<lparr>lg_balance = (\<lambda>a w. 50), lg_issuance = (\<lambda>a. 100)\<rparr>, \<lparr>lg_balance = (\<lambda>a w. 0), lg_issuance = (\<lambda>a. 0)\<rparr>) 0 1 2 30 True)"
  using currency_adapter_lawful [OF balances_ref_laws fungibles_ref_laws, of 0]
  by (simp add: ca_transfer_def balances_ref_def ref_transfer_def Let_def is_ok_def)

end
