(* ===== verification/Router.thy ===== *)
theory Router
  imports Fungibles
begin

text \<open>
  The router (src/pallets/router/src/lib.rs): trades along a route of assets and the search for the
  best route.

  The pallet is generic in the exchange it routes over.  \<open>('x, 's) amm_interface\<close> holds the operations of
  the trait \<open>AMM\<close> (src/pallets/traits/src/lib.rs) that it calls, with errors \<open>'x\<close> and the state \<open>'s\<close> of
  the chain; theory \<open>Router_Properties\<close> gives the instance over the constant-product exchange.  An error
  of the exchange is passed on unchanged.

  The \<open>BTreeMap\<close> of the route search is only updated and looked up by key, so it is an association list
  with one entry per key.  \<open>Vec::swap_remove(0)\<close> takes the first element and moves the last one into its
  place.
\<close>

datatype router_error =
    ZeroBalance | EmptyRoute | InsufficientBalance | ExceedMaxLengthRoute | DuplicatedRoute
  | MaximumAmountInViolated | MinimumAmountOutViolated | TokenDoesNotExists | NoPossibleRoute

type_synonym 'x router_dispatch_error = "(router_error + 'x) dispatch_error"

datatype router_event = RouterTraded account_id balance "currency_id list" balance

record ('x, 's) amm_interface =
  if_get_amounts_out :: "'s \<Rightarrow> balance \<Rightarrow> currency_id list \<Rightarrow> 'x + balance list"
  if_get_amounts_in :: "'s \<Rightarrow> balance \<Rightarrow> currency_id list \<Rightarrow> 'x + balance list"
  if_swap :: "'s \<Rightarrow> account_id \<Rightarrow> currency_id \<times> currency_id \<Rightarrow> balance \<Rightarrow> 'x + 's"
  if_get_pools :: "'s \<Rightarrow> 'x + (currency_id \<times> currency_id) list"

record ('x, 's) router_config =
  rt_amm :: "('x, 's) amm_interface"
  rt_reducible_balance :: "'s \<Rightarrow> currency_id \<Rightarrow> account_id \<Rightarrow> bool \<Rightarrow> balance"
  rt_max_length_route :: nat
  rt_native :: currency_id

record 's router_state =
  rt_chain :: 's
  rt_events :: "router_event list"

definition from_amm :: "'x + 'a \<Rightarrow> 'x router_dispatch_error + 'a" where
  "from_amm m = map_err (\<lambda>e. Module (Inr e)) m"

abbreviation router_err :: "router_error \<Rightarrow> 'x router_dispatch_error" where
  "router_err e \<equiv> Module (Inl e)"

section \<open>Checks on a route\<close>

fun has_duplicate :: "'a list \<Rightarrow> bool" where
  "has_duplicate [] = False"
| "has_duplicate (x # xs) = (x \<in> set xs \<or> has_duplicate xs)"

definition route_checks :: "('x, 's) router_config \<Rightarrow> currency_id list \<Rightarrow> 'x router_dispatch_error + unit" where
  "route_checks C route =
     bindE (ensure (route \<noteq> []) (router_err EmptyRoute)) (\<lambda>_.
     bindE (ensure (length route \<le> rt_max_length_route C) (router_err ExceedMaxLengthRoute)) (\<lambda>_.
     ensure (\<not> has_duplicate route) (router_err DuplicatedRoute)))"

section \<open>The graph of the pools\<close>

type_synonym route_graph = "(currency_id \<times> currency_id list) list"

fun push_adjacent :: "currency_id \<Rightarrow> currency_id \<Rightarrow> route_graph \<Rightarrow> route_graph" where
  "push_adjacent a b [] = [(a, [b])]"
| "push_adjacent a b ((c, xs) # g) = (if c = a then (c, xs @ [b]) # g else (c, xs) # push_adjacent a b g)"

definition build_graph :: "(currency_id \<times> currency_id) list \<Rightarrow> route_graph" where
  "build_graph pools = fold (\<lambda>(a, b) g. push_adjacent b a (push_adjacent a b g)) pools []"

definition swap_remove_rest :: "'a list \<Rightarrow> 'a list" where
  "swap_remove_rest xs = (if xs = [] then [] else last xs # butlast xs)"

text \<open>The size of a search: every entry of the queue leads to boundedly many longer paths.\<close>

definition graph_nodes :: "route_graph \<Rightarrow> currency_id set" where
  "graph_nodes g = (\<Union>(c, xs)\<in>set g. set xs)"

definition graph_degree :: "route_graph \<Rightarrow> nat" where
  "graph_degree g = sum_list (map (\<lambda>(c, xs). length xs) g)"

definition search_weight :: "route_graph \<Rightarrow> currency_id \<times> currency_id \<times> currency_id list \<Rightarrow> nat" where
  "search_weight g = (\<lambda>(start, end, path).
     (graph_degree g + 1) ^ Suc (card (graph_nodes g - set (path @ [start]))))"

lemma adjacent_bounds:
  assumes "map_of g v = Some adj"
  shows "set adj \<subseteq> graph_nodes g" and "length adj \<le> graph_degree g"
proof -
  have mem: "(v, adj) \<in> set g" using assms by (rule map_of_SomeD)
  then show "set adj \<subseteq> graph_nodes g" by (auto simp: graph_nodes_def)
  have "length adj \<in> set (map (\<lambda>(c, xs). length xs) g)" using mem by force
  then show "length adj \<le> graph_degree g" unfolding graph_degree_def by (rule member_le_sum_list) simp
qed

lemma finite_graph_nodes [simp]: "finite (graph_nodes g)"
  by (auto simp: graph_nodes_def)

lemma sum_list_swap_remove [simp]: "sum_list (map f (swap_remove_rest xs)) = (sum_list (map f xs) :: nat)"
proof (cases xs rule: rev_cases)
  case (snoc ys y)
  then show ?thesis by (simp add: swap_remove_rest_def)
qed (simp add: swap_remove_rest_def)

lemma sum_list_le_length:
  "(\<And>x. x \<in> set xs \<Longrightarrow> f x \<le> k) \<Longrightarrow> sum_list (map f xs) \<le> length xs * (k :: nat)"
  by (induction xs) (simp_all add: add_mono)

lemma search_weight_step:
  assumes "map_of g start = Some adj"
  shows "sum_list (map (search_weight g)
      (map (\<lambda>n. (n, end, path @ [start])) (filter (\<lambda>n. n \<notin> set (path @ [start])) adj))) < search_weight g (start, end, path)"
proof -
  let ?D = "graph_degree g" and ?V = "graph_nodes g" and ?p = "path @ [start]"
  let ?r = "card (?V - set ?p)"
  let ?ns = "filter (\<lambda>n. n \<notin> set ?p) adj"
  have le: "search_weight g (n, end, ?p) \<le> (?D + 1) ^ ?r" if "n \<in> set ?ns" for n
  proof -
    from that have "n \<in> ?V - set ?p" using adjacent_bounds(1) [OF assms] by auto
    then have "card (?V - set (?p @ [n])) < ?r" by (intro psubset_card_mono) auto
    then have "Suc (card (?V - set (?p @ [n]))) \<le> ?r" by simp
    then show ?thesis unfolding search_weight_def by (simp only: prod.case) (rule power_increasing, simp_all)
  qed
  have "sum_list (map (search_weight g) (map (\<lambda>n. (n, end, ?p)) ?ns)) \<le> length ?ns * (?D + 1) ^ ?r"
    using sum_list_le_length [of ?ns "\<lambda>n. search_weight g (n, end, ?p)", OF le] by (simp only: map_map comp_def)
  also have "\<dots> \<le> ?D * (?D + 1) ^ ?r"
    using adjacent_bounds(2) [OF assms] by (intro mult_le_mono1) (meson le_trans length_filter_le)
  also have "\<dots> < (?D + 1) * (?D + 1) ^ ?r" by simp
  finally show ?thesis by (simp add: search_weight_def)
qed

section \<open>The search for routes\<close>

function explore ::
    "route_graph \<Rightarrow> (currency_id \<times> currency_id \<times> currency_id list) list \<Rightarrow> currency_id list list
     \<Rightarrow> 'x router_dispatch_error + currency_id list list" where
  "explore g [] paths = Inr paths"
| "explore g ((start, end, path) # queue) paths =
     (let path' = path @ [start];
          paths' = (if start = end then paths @ [path'] else paths) in
      case map_of g start of
        None \<Rightarrow> Inl Panic
      | Some adjacents \<Rightarrow>
          explore g (swap_remove_rest queue @
            map (\<lambda>node. (node, end, path')) (filter (\<lambda>item. item \<notin> set path') adjacents)) paths')"
  by pat_completeness auto
termination
proof (relation "measure (\<lambda>(g, queue, paths). sum_list (map (search_weight g) queue))", goal_cases)
  case 1
  show ?case by simp
next
  case (2 g start "end" path queue paths path' paths' adjacents)
  then show ?case using search_weight_step [of g start adjacents "end" path] by simp
qed

declare explore.simps(2) [simp del]

definition get_output_routes ::
    "('x, 's) router_config \<Rightarrow> 's \<Rightarrow> balance \<Rightarrow> currency_id list list \<Rightarrow> bool
     \<Rightarrow> 'x router_dispatch_error + (currency_id list \<times> balance) list" where
  "get_output_routes C c amount routes reversed =
     foldE (\<lambda>route acc.
       if reversed
       then (case if_get_amounts_in (rt_amm C) c amount route of
               Inl _ \<Rightarrow> Inr acc
             | Inr amounts \<Rightarrow> if amounts = [] then Inl Panic else Inr (acc @ [(route, hd amounts)]))
       else (case if_get_amounts_out (rt_amm C) c amount route of
               Inl _ \<Rightarrow> Inr acc
             | Inr amounts \<Rightarrow> if amounts = [] then Inl Panic else Inr (acc @ [(route, last amounts)])))
       routes []"

definition get_all_routes ::
    "('x, 's) router_config \<Rightarrow> 's \<Rightarrow> balance \<Rightarrow> currency_id \<Rightarrow> currency_id \<Rightarrow> bool
     \<Rightarrow> 'x router_dispatch_error + (currency_id list \<times> balance) list" where
  "get_all_routes C c amount token_in token_out reversed =
     bindE (from_amm (if_get_pools (rt_amm C) c)) (\<lambda>pools.
     let graph = build_graph pools in
     bindE (ensure (token_in \<in> fst ` set graph) (router_err TokenDoesNotExists)) (\<lambda>_.
     bindE (ensure (token_out \<in> fst ` set graph) (router_err TokenDoesNotExists)) (\<lambda>_.
     bindE (explore graph [(token_in, token_out, [])] []) (\<lambda>paths.
     bindE (get_output_routes C c amount paths reversed) (\<lambda>output_routes.
     Inr (sort_key (\<lambda>k. - int (snd k)) output_routes))))))"

definition get_best_route ::
    "('x, 's) router_config \<Rightarrow> 's \<Rightarrow> balance \<Rightarrow> currency_id \<Rightarrow> currency_id \<Rightarrow> bool
     \<Rightarrow> 'x router_dispatch_error + currency_id list \<times> balance" where
  "get_best_route C c amount token_in token_out reversed =
     bindE (get_all_routes C c amount token_in token_out reversed) (\<lambda>all_routes.
     bindE (ensure (all_routes \<noteq> []) (router_err NoPossibleRoute)) (\<lambda>_.
     Inr (if reversed then last all_routes else hd all_routes)))"

section \<open>Calls\<close>

text \<open>The loop of swaps; a list of amounts shorter than the route is an index out of range.\<close>

fun swap_along ::
    "('x, 's) router_config \<Rightarrow> 's \<Rightarrow> account_id \<Rightarrow> currency_id list \<Rightarrow> balance list
     \<Rightarrow> 'x router_dispatch_error + 's" where
  "swap_along C c trader (a # b # route) (n # amounts) =
     bindE (from_amm (if_swap (rt_amm C) c trader (a, b) n)) (\<lambda>c'. swap_along C c' trader (b # route) amounts)"
| "swap_along C c trader (a # b # route) [] = Inl Panic"
| "swap_along C c trader [a] amounts = Inr c"
| "swap_along C c trader [] amounts = Inr c"

definition swap_exact_tokens_for_tokens ::
    "('x, 's) router_config \<Rightarrow> 's router_state \<Rightarrow> origin \<Rightarrow> currency_id list \<Rightarrow> balance \<Rightarrow> balance
     \<Rightarrow> 'x router_dispatch_error + 's router_state" where
  "swap_exact_tokens_for_tokens C s o' route amount_in min_amount_out =
     bindE (ensure_signed o') (\<lambda>trader.
     bindE (route_checks C route) (\<lambda>_.
     bindE (ensure (0 < amount_in \<and> 0 \<le> min_amount_out) (router_err ZeroBalance)) (\<lambda>_.
     bindE (ensure (amount_in \<le> rt_reducible_balance C (rt_chain s) (hd route) trader (hd route = rt_native C))
             (router_err InsufficientBalance)) (\<lambda>_.
     bindE (from_amm (if_get_amounts_out (rt_amm C) (rt_chain s) amount_in route)) (\<lambda>amounts.
     bindE (ensure (amounts \<noteq> []) Panic) (\<lambda>_.
     bindE (ensure (min_amount_out \<le> last amounts) (router_err MinimumAmountOutViolated)) (\<lambda>_.
     bindE (swap_along C (rt_chain s) trader route amounts) (\<lambda>c.
     Inr (s\<lparr>rt_chain := c, rt_events := rt_events s @ [RouterTraded trader (hd amounts) route (last amounts)]\<rparr>)))))))))"

definition swap_tokens_for_exact_tokens ::
    "('x, 's) router_config \<Rightarrow> 's router_state \<Rightarrow> origin \<Rightarrow> currency_id list \<Rightarrow> balance \<Rightarrow> balance
     \<Rightarrow> 'x router_dispatch_error + 's router_state" where
  "swap_tokens_for_exact_tokens C s o' route amount_out max_amount_in =
     bindE (ensure_signed o') (\<lambda>trader.
     bindE (route_checks C route) (\<lambda>_.
     bindE (ensure (0 < amount_out \<and> 0 \<le> max_amount_in) (router_err ZeroBalance)) (\<lambda>_.
     bindE (from_amm (if_get_amounts_in (rt_amm C) (rt_chain s) amount_out route)) (\<lambda>amounts.
     bindE (ensure (amounts \<noteq> []) Panic) (\<lambda>_.
     bindE (ensure (hd amounts < rt_reducible_balance C (rt_chain s) (hd route) trader (hd route = rt_native C))
             (router_err InsufficientBalance)) (\<lambda>_.
     bindE (ensure (hd amounts \<le> max_amount_in) (router_err MaximumAmountInViolated)) (\<lambda>_.
     bindE (swap_along C (rt_chain s) trader route amounts) (\<lambda>c.
     Inr (s\<lparr>rt_chain := c, rt_events := rt_events s @ [RouterTraded trader (hd amounts) route (last amounts)]\<rparr>)))))))))"

end
