(* ===== verification/Router_Routes.thy ===== *)
theory Router_Routes
  imports Router
begin

text \<open>
  Lemmas of the router: the search enumerates exactly the simple routes between two assets, the best
  route is the first of the sorted ones, and, for every exchange that satisfies the contract
  \<open>amm_exchange\<close>, executing the swaps of a route delivers the quoted amount.
\<close>

section \<open>The graph\<close>

definition adjacent :: "route_graph \<Rightarrow> currency_id \<Rightarrow> currency_id \<Rightarrow> bool" where
  "adjacent g v w \<longleftrightarrow> (\<exists>xs. map_of g v = Some xs \<and> w \<in> set xs)"

lemma map_of_push_adjacent:
  "map_of (push_adjacent a b g) v =
     (if v = a then Some (case map_of g a of None \<Rightarrow> [b] | Some xs \<Rightarrow> xs @ [b]) else map_of g v)"
  by (induction a b g rule: push_adjacent.induct) auto

lemma adjacent_push: "adjacent (push_adjacent a b g) v w \<longleftrightarrow> adjacent g v w \<or> (v = a \<and> w = b)"
  by (auto simp: adjacent_def map_of_push_adjacent split: option.splits)

lemma push_dom: "map_of (push_adjacent a b g) v \<noteq> None \<longleftrightarrow> v = a \<or> map_of g v \<noteq> None"
  by (simp add: map_of_push_adjacent)

lemma build_graph_snoc: "build_graph (ps @ [(a, b)]) = push_adjacent b a (push_adjacent a b (build_graph ps))"
  by (simp add: build_graph_def)

lemma adjacent_build: "adjacent (build_graph ps) v w \<longleftrightarrow> (v, w) \<in> set ps \<or> (w, v) \<in> set ps"
proof (induction ps rule: rev_induct)
  case Nil
  show ?case by (simp add: build_graph_def adjacent_def)
next
  case (snoc p ps)
  then show ?case by (cases p) (auto simp: build_graph_snoc adjacent_push)
qed

lemma build_graph_dom: "map_of (build_graph ps) v \<noteq> None \<longleftrightarrow> (\<exists>w. adjacent (build_graph ps) v w)"
proof (induction ps rule: rev_induct)
  case Nil
  show ?case by (simp add: build_graph_def adjacent_def)
next
  case (snoc p ps)
  obtain a b where p: "p = (a, b)" by (cases p)
  have "map_of (build_graph (ps @ [p])) v \<noteq> None \<longleftrightarrow> v = b \<or> v = a \<or> map_of (build_graph ps) v \<noteq> None"
    unfolding p build_graph_snoc push_dom ..
  then show ?case unfolding snoc.IH unfolding p build_graph_snoc adjacent_push by blast
qed

section \<open>Simple routes\<close>

fun chain :: "('a \<Rightarrow> 'a \<Rightarrow> bool) \<Rightarrow> 'a list \<Rightarrow> bool" where
  "chain R (x # y # xs) \<longleftrightarrow> R x y \<and> chain R (y # xs)"
| "chain R xs \<longleftrightarrow> True"

definition simple_route :: "(currency_id \<times> currency_id) list \<Rightarrow> currency_id \<Rightarrow> currency_id \<Rightarrow> currency_id list \<Rightarrow> bool" where
  "simple_route pools a b r \<longleftrightarrow>
     r \<noteq> [] \<and> hd r = a \<and> last r = b \<and> distinct r \<and> chain (\<lambda>x y. (x, y) \<in> set pools \<or> (y, x) \<in> set pools) r"

definition extensions :: "route_graph \<Rightarrow> currency_id \<times> currency_id \<times> currency_id list \<Rightarrow> currency_id list set" where
  "extensions g = (\<lambda>(start, end, path).
     {path @ ys | ys. ys \<noteq> [] \<and> hd ys = start \<and> last ys = end \<and> chain (adjacent g) ys \<and> distinct ys \<and>
        set ys \<inter> set path = {}})"

lemma chain_Cons: "ys \<noteq> [] \<Longrightarrow> chain R (x # ys) \<longleftrightarrow> R x (hd ys) \<and> chain R ys"
  by (cases ys) auto

lemma extensions_step:
  assumes "map_of g start = Some adj" and "start \<notin> set path"
  shows "extensions g (start, end, path) = (if start = end then {path @ [start]} else {}) \<union>
    (\<Union>n\<in>{n \<in> set adj. n \<notin> set (path @ [start])}. extensions g (n, end, path @ [start]))"
    (is "?L = ?R")
proof
  show "?L \<subseteq> ?R"
  proof
    fix r
    assume "r \<in> ?L"
    then obtain ys where r: "r = path @ ys" and ys: "ys \<noteq> []" "hd ys = start" "last ys = end"
      "chain (adjacent g) ys" "distinct ys" "set ys \<inter> set path = {}"
      by (auto simp: extensions_def)
    then obtain zs where y: "ys = start # zs" by (cases ys) auto
    show "r \<in> ?R"
    proof (cases "zs = []")
      case True
      with r y ys(3) show ?thesis by simp
    next
      case False
      with ys(4) y have a: "adjacent g start (hd zs)" "chain (adjacent g) zs" by (auto simp: chain_Cons)
      have "hd zs \<in> set zs" using False by simp
      with a(1) assms ys(5,6) y have "hd zs \<in> {n \<in> set adj. n \<notin> set (path @ [start])}"
        by (auto simp: adjacent_def)
      moreover have "r \<in> extensions g (hd zs, end, path @ [start])"
        using r y False a(2) ys by (auto simp: extensions_def intro!: exI [of _ zs])
      ultimately show ?thesis by blast
    qed
  qed
  show "?R \<subseteq> ?L"
  proof
    fix r
    assume "r \<in> ?R"
    then consider "start = end" "r = path @ [start]"
      | n where "n \<in> set adj" "n \<notin> set (path @ [start])" "r \<in> extensions g (n, end, path @ [start])"
      by (auto split: if_splits)
    then show "r \<in> ?L"
    proof cases
      case 1
      then show ?thesis using assms(2) by (auto simp: extensions_def intro!: exI [of _ "[start]"])
    next
      case 2
      then obtain zs where zs: "r = path @ start # zs" "zs \<noteq> []" "hd zs = n" "last zs = end"
        "chain (adjacent g) zs" "distinct zs" "set zs \<inter> set (path @ [start]) = {}"
        by (auto simp: extensions_def)
      moreover have "adjacent g start n" using assms(1) 2(1) by (auto simp: adjacent_def)
      ultimately show ?thesis
        using assms(2) by (auto simp: extensions_def chain_Cons intro!: exI [of _ "start # zs"])
    qed
  qed
qed

lemma set_swap_remove [simp]: "set (swap_remove_rest xs) = set xs"
  by (cases xs rule: rev_cases) (auto simp: swap_remove_rest_def)

text \<open>The search always ends without a panic and collects exactly the extensions of its queue.\<close>

lemma explore_correct:
  assumes "\<And>v w. adjacent g v w \<Longrightarrow> map_of g w \<noteq> None"
    and "\<And>s e p. (s, e, p) \<in> set queue \<Longrightarrow> map_of g s \<noteq> None \<and> s \<notin> set p"
  shows "\<exists>r. (explore g queue paths :: 'x router_dispatch_error + currency_id list list) = Inr r \<and> set r = set paths \<union> (\<Union>x\<in>set queue. extensions g x)"
  using assms
proof (induction g queue paths rule: explore.induct)
  case (1 g paths)
  then show ?case by simp
next
  case (2 g start "end" path queue paths)
  note closed = "2.prems"(1) and starts = "2.prems"(2)
  from starts [of start "end" path] obtain adj where adj: "map_of g start = Some adj" "start \<notin> set path" by auto
  let ?p = "path @ [start]"
  let ?q = "swap_remove_rest queue @ map (\<lambda>node. (node, end, ?p)) (filter (\<lambda>item. item \<notin> set ?p) adj)"
  let ?paths = "if start = end then paths @ [?p] else paths"
  have new: "map_of g s \<noteq> None \<and> s \<notin> set p" if "(s, e, p) \<in> set ?q" for s e p
    using that starts [of s e p] closed [of start s] adj(1) by (auto simp: adjacent_def)
  have "\<exists>r. (explore g ?q ?paths :: 'x router_dispatch_error + currency_id list list) = Inr r \<and> set r = set ?paths \<union> (\<Union>x\<in>set ?q. extensions g x)"
    using "2.IH" [OF refl refl adj(1)] closed new by blast
  then obtain r where r: "(explore g ?q ?paths :: 'x router_dispatch_error + currency_id list list) = Inr r" "set r = set ?paths \<union> (\<Union>x\<in>set ?q. extensions g x)"
    by blast
  have "(explore g ((start, end, path) # queue) paths :: 'x router_dispatch_error + currency_id list list) = Inr r"
    using adj(1) r(1) by (simp add: explore.simps(2) Let_def)
  moreover have "set r = set paths \<union> (\<Union>x\<in>set ((start, end, path) # queue). extensions g x)"
    using r(2) extensions_step [OF adj, of "end"] by auto
  ultimately show ?case by blast
qed

lemma explore_routes:
  assumes "map_of (build_graph pools) a \<noteq> None"
  shows "\<exists>r. (explore (build_graph pools) [(a, b, [])] [] :: 'x router_dispatch_error + currency_id list list) = Inr r \<and> set r = {p. simple_route pools a b p}"
proof -
  let ?g = "build_graph pools"
  have closed: "map_of ?g w \<noteq> None" if "adjacent ?g v w" for v w
    using that unfolding build_graph_dom unfolding adjacent_build by blast
  have "\<exists>r. (explore ?g [(a, b, [])] [] :: 'x router_dispatch_error + currency_id list list) = Inr r \<and> set r = set [] \<union> (\<Union>x\<in>set [(a, b, [])]. extensions ?g x)"
    by (rule explore_correct) (use closed assms in auto)
  moreover have "adjacent ?g = (\<lambda>x y. (x, y) \<in> set pools \<or> (y, x) \<in> set pools)"
    by (simp add: fun_eq_iff adjacent_build)
  then have "extensions ?g (a, b, []) = {p. simple_route pools a b p}"
    by (auto simp: extensions_def simple_route_def)
  ultimately show ?thesis by simp
qed

section \<open>The best route\<close>

definition quoted :: "('x, 's) router_config \<Rightarrow> 's \<Rightarrow> balance \<Rightarrow> bool \<Rightarrow> currency_id list \<Rightarrow> balance \<Rightarrow> bool" where
  "quoted C c amount reversed r x \<longleftrightarrow>
     (if reversed then \<exists>ms. if_get_amounts_in (rt_amm C) c amount r = Inr ms \<and> x = hd ms
      else \<exists>ms. if_get_amounts_out (rt_amm C) c amount r = Inr ms \<and> x = last ms)"

lemma output_routes_set:
  fixes C :: "('x, 's) router_config"
  assumes "get_output_routes C c amount routes reversed = Inr rs"
  shows "set rs = {(r, x). r \<in> set routes \<and> quoted C c amount reversed r x}"
proof -
  define step :: "currency_id list \<Rightarrow> (currency_id list \<times> balance) list
      \<Rightarrow> 'x router_dispatch_error + (currency_id list \<times> balance) list" where "step = (\<lambda>route acc.
       if reversed
       then (case if_get_amounts_in (rt_amm C) c amount route of
               Inl _ \<Rightarrow> Inr acc
             | Inr amounts \<Rightarrow> if amounts = [] then Inl Panic else Inr (acc @ [(route, hd amounts)]))
       else (case if_get_amounts_out (rt_amm C) c amount route of
               Inl _ \<Rightarrow> Inr acc
             | Inr amounts \<Rightarrow> if amounts = [] then Inl Panic else Inr (acc @ [(route, last amounts)])))"
  have step: "set acc' = set acc \<union> {(route, x) | x. quoted C c amount reversed route x}"
    if "step route acc = Inr acc'" for route acc acc'
    using that by (auto simp: step_def quoted_def split: if_splits sum.splits)
  have "set rs = set acc \<union> {(r, x). r \<in> set routes \<and> quoted C c amount reversed r x}"
    if "foldE step routes acc = Inr rs" for acc
    using that
  proof (induction routes arbitrary: acc)
    case Nil
    then show ?case by simp
  next
    case (Cons r routes)
    then obtain acc' where "step r acc = Inr acc'" "foldE step routes acc' = Inr rs" by auto
    with Cons.IH [of acc'] step [of r acc acc'] show ?case by auto
  qed
  from this [of "[]"] assms show ?thesis unfolding get_output_routes_def step_def [symmetric] by simp
qed

lemma get_all_routesE:
  fixes C :: "('x, 's) router_config"
  assumes "get_all_routes C c amount a b reversed = Inr rs"
  obtains pools out where "if_get_pools (rt_amm C) c = Inr pools" "a \<in> fst ` set (build_graph pools)"
    "set out = {(r, x). simple_route pools a b r \<and> quoted C c amount reversed r x}"
    "rs = sort_key (\<lambda>k. - int (snd k)) out"
proof -
  from assms obtain pools paths out where p: "if_get_pools (rt_amm C) c = Inr pools"
    "a \<in> fst ` set (build_graph pools)" and e: "(explore (build_graph pools) [(a, b, [])] [] :: 'x router_dispatch_error + currency_id list list) = Inr paths"
    and o: "get_output_routes C c amount paths reversed = Inr out" and rs: "rs = sort_key (\<lambda>k. - int (snd k)) out"
    by (auto simp: get_all_routes_def from_amm_def Let_def)
  have "map_of (build_graph pools) a \<noteq> None" using p(2) by (simp add: map_of_eq_None_iff)
  from explore_routes [OF this, of b, where 'x = 'x] e have "set paths = {p. simple_route pools a b p}" by auto
  with output_routes_set [OF o] p rs show thesis by (intro that) auto
qed

lemma sorted_desc_hd:
  assumes "xs \<noteq> []" and "y \<in> set xs"
  shows "f y \<le> (f (hd (sort_key (\<lambda>k. - int (f k)) xs)) :: nat)"
    and "(f (last (sort_key (\<lambda>k. - int (f k)) xs)) :: nat) \<le> f y"
proof -
  let ?s = "sort_key (\<lambda>k. - int (f k)) xs"
  have s: "sorted (map (\<lambda>k. - int (f k)) ?s)" "y \<in> set ?s" "?s \<noteq> []"
    using assms by (simp_all add: set_empty [symmetric] del: set_empty)
  from s(2) obtain i where i: "i < length ?s" "y = ?s ! i" unfolding in_set_conv_nth by blast
  have mono: "- int (f (?s ! j)) \<le> - int (f (?s ! k))" if "j \<le> k" "k < length ?s" for j k
    using sorted_nth_mono [OF s(1) that(1)] that by simp
  show "f y \<le> f (hd ?s)" using mono [of 0 i] i s(3) by (simp add: hd_conv_nth)
  show "f (last ?s) \<le> f y" using mono [of i "length ?s - 1"] i s(3) by (simp add: last_conv_nth)
qed

section \<open>The contract of an exchange\<close>

text \<open>
  What a router needs to know of the exchange: the amounts along a path are the quotes of its hops one
  after the other, a swap pays the trader at least its quote, and it affects neither the quotes of other
  pairs nor takes other assets from the trader.
\<close>

locale amm_exchange =
  fixes amm :: "('x, 's) amm_interface"
    and hop :: "'s \<Rightarrow> balance \<Rightarrow> currency_id \<Rightarrow> currency_id \<Rightarrow> 'x + balance"
    and holding :: "'s \<Rightarrow> currency_id \<Rightarrow> account_id \<Rightarrow> balance"
    and trader :: "account_id \<Rightarrow> bool"
  assumes amounts_one: "if_get_amounts_out amm c n [a] = Inr [n]"
    and amounts_step: "if_get_amounts_out amm c n (a # b # route) =
      bindE (hop c n a b) (\<lambda>m. bindE (if_get_amounts_out amm c m (b # route)) (\<lambda>ms. Inr (n # ms)))"
    and swap_pays: "trader w \<Longrightarrow> if_swap amm c w (a, b) n = Inr c' \<Longrightarrow> hop c n a b = Inr m \<Longrightarrow>
      holding c b w + m \<le> holding c' b w"
    and swap_other_pairs: "if_swap amm c w (a, b) n = Inr c' \<Longrightarrow> {d, e} \<noteq> {a, b} \<Longrightarrow> hop c' k d e = hop c k d e"
    and swap_other_assets: "trader w \<Longrightarrow> if_swap amm c w (a, b) n = Inr c' \<Longrightarrow> d \<noteq> a \<Longrightarrow>
      holding c d w \<le> holding c' d w"
begin

lemma amounts_unaffected:
  assumes "if_swap amm c w (a, b) n = Inr c'" and "a \<notin> set route"
  shows "if_get_amounts_out amm c' k (d # route) = if_get_amounts_out amm c k (d # route) \<or> d = a"
  using assms(2)
proof (induction route arbitrary: k d)
  case Nil
  then show ?case by (simp add: amounts_one)
next
  case (Cons e route)
  then have "d \<noteq> a \<Longrightarrow> hop c' k d e = hop c k d e"
    by (intro swap_other_pairs [OF assms(1)]) (auto simp: doubleton_eq_iff)
  moreover have "if_get_amounts_out amm c' m (e # route) = if_get_amounts_out amm c m (e # route)" for m
    using Cons by auto
  ultimately show ?case by (auto simp: amounts_step)
qed

lemma swap_along_delivers:
  assumes "swap_along C c w route ms = Inr c'" and "rt_amm C = amm" and "trader w" and "distinct route"
    and "2 \<le> length route" and "if_get_amounts_out amm c n route = Inr ms"
  shows "holding c (last route) w + last ms \<le> holding c' (last route) w"
  using assms(1,4,5,6)
proof (induction route arbitrary: c n ms)
  case Nil
  then show ?case by simp
next
  case (Cons a rest)
  then obtain b route where rest: "rest = b # route" by (cases rest) auto
  from Cons.prems(4) obtain m ms' where m: "hop c n a b = Inr m"
    and ms: "if_get_amounts_out amm c m (b # route) = Inr ms'" "ms = n # ms'"
    by (auto simp: rest amounts_step)
  with Cons.prems(1) obtain c1 where c1: "if_swap amm c w (a, b) n = Inr c1"
    and go: "swap_along C c1 w (b # route) ms' = Inr c'"
    by (auto simp: rest from_amm_def assms(2))
  have same: "if_get_amounts_out amm c1 m (b # route) = Inr ms'"
    using amounts_unaffected [OF c1, of route m b] Cons.prems(2) ms(1) by (auto simp: rest)
  show ?case
  proof (cases route)
    case Nil
    with ms go swap_pays [OF assms(3) c1 m] show ?thesis by (auto simp: rest amounts_one)
  next
    case (Cons d route')
    then have "2 \<le> length rest" by (simp add: rest)
    have "holding c1 (last rest) w + last ms' \<le> holding c' (last rest) w"
      using Cons.IH [of c1 ms' m] go same Cons.prems(2) \<open>2 \<le> length rest\<close> by (simp add: rest)
    moreover have "last rest \<in> set rest" by (simp add: rest)
    then have "last rest \<noteq> a" using Cons.prems(2) by auto
    then have "holding c (last rest) w \<le> holding c1 (last rest) w"
      by (rule swap_other_assets [OF assms(3) c1])
    moreover have "ms' \<noteq> []" using ms(1) Cons by (auto simp: amounts_step)
    ultimately show ?thesis using ms(2) by (simp add: rest)
  qed
qed

end

end
