(* ===== verification/Pallet_Traits.thy ===== *)
theory Pallet_Traits
  imports Sp_Arith
begin

text \<open>
  What the exchange pallets share: the pool of src/pallets/traits/src/lib.rs and the integer square
  root.

  The exchanges compute products of balances with \<open>num_bigint::BigUint\<close>, an unbounded natural
  number: it is \<open>nat\<close> here, and only the way back (\<open>to_u128\<close>) can fail.  Its square root is the
  truncated one; \<open>integer_sqrt\<close> computes it and \<open>integer_sqrt_unique\<close> shows that it is the only
  function with the documented property.
\<close>

record pool =
  base_amount :: balance
  quote_amount :: balance
  base_amount_last :: balance
  quote_amount_last :: balance
  lp_token_id :: currency_id
  block_timestamp_last :: block_number
  price_0_cumulative_last :: balance
  price_1_cumulative_last :: balance

definition pool_new :: "currency_id \<Rightarrow> pool" where
  "pool_new lp = \<lparr>base_amount = 0, quote_amount = 0, base_amount_last = 0, quote_amount_last = 0,
     lp_token_id = lp, block_timestamp_last = 0, price_0_cumulative_last = 0, price_1_cumulative_last = 0\<rparr>"

definition pool_is_empty :: "pool \<Rightarrow> bool" where
  "pool_is_empty p \<longleftrightarrow> base_amount p = 0 \<and> quote_amount p = 0"

fun integer_sqrt :: "nat \<Rightarrow> nat" where
  "integer_sqrt n =
     (if n = 0 then 0
      else let r = 2 * integer_sqrt (n div 4) in if (r + 1) * (r + 1) \<le> n then r + 1 else r)"

declare integer_sqrt.simps [simp del]

text \<open>\<open>BigUint::checked_mul\<close> followed by \<open>checked_div\<close> and \<open>to_u128\<close>, the shape of most computations.\<close>

definition mul_div :: "nat \<Rightarrow> nat \<Rightarrow> nat \<Rightarrow> nat option" where
  "mul_div a b c = checked_div (a * b) c"

section \<open>The integer square root\<close>

lemma integer_sqrt_bounds: "integer_sqrt n * integer_sqrt n \<le> n \<and> n < (integer_sqrt n + 1) * (integer_sqrt n + 1)"
proof (induction n rule: integer_sqrt.induct)
  case (1 n)
  show ?case
  proof (cases "n = 0")
    case True
    then show ?thesis by (simp add: integer_sqrt.simps [of 0])
  next
    case False
    define q where "q = integer_sqrt (n div 4)"
    have IH: "q * q \<le> n div 4" "n div 4 < (q + 1) * (q + 1)" using 1 [OF False] by (simp_all add: q_def)
    have lo: "(2 * q) * (2 * q) \<le> n" using IH(1) by linarith
    have "n div 4 + 1 \<le> (q + 1) * (q + 1)" using IH(2) by simp
    then have hi: "n < (2 * q + 2) * (2 * q + 2)" by (simp add: algebra_simps)
    have "integer_sqrt n = (if (2 * q + 1) * (2 * q + 1) \<le> n then 2 * q + 1 else 2 * q)"
      using False by (subst integer_sqrt.simps) (simp add: Let_def q_def)
    with lo hi show ?thesis by auto
  qed
qed

lemma integer_sqrt_le: "integer_sqrt n * integer_sqrt n \<le> n"
  using integer_sqrt_bounds by blast

lemma less_integer_sqrt_Suc: "n < (integer_sqrt n + 1) * (integer_sqrt n + 1)"
  using integer_sqrt_bounds by blast

lemma integer_sqrt_unique:
  assumes "r * r \<le> n" and "n < (r + 1) * (r + 1)"
  shows "integer_sqrt n = r"
proof -
  have "r < integer_sqrt n + 1"
    using le_less_trans [OF assms(1) less_integer_sqrt_Suc] by (metis linorder_not_less mult_le_mono)
  moreover have "integer_sqrt n < r + 1"
    using le_less_trans [OF integer_sqrt_le assms(2)] by (metis linorder_not_less mult_le_mono)
  ultimately show ?thesis by simp
qed

lemma integer_sqrt_mono: "m \<le> n \<Longrightarrow> integer_sqrt m \<le> integer_sqrt n"
proof (rule ccontr)
  assume "m \<le> n" and "\<not> integer_sqrt m \<le> integer_sqrt n"
  then have "(integer_sqrt n + 1) * (integer_sqrt n + 1) \<le> integer_sqrt m * integer_sqrt m"
    by (intro mult_le_mono) auto
  with integer_sqrt_le [of m] less_integer_sqrt_Suc [of n] \<open>m \<le> n\<close> show False by linarith
qed

lemma integer_sqrt_pos: "0 < n \<Longrightarrow> 0 < integer_sqrt n"
  using less_integer_sqrt_Suc [of n] by (cases "integer_sqrt n") auto

lemma mul_div_Some [simp]: "mul_div a b c = Some d \<longleftrightarrow> d = a * b div c \<and> c \<noteq> 0"
  by (auto simp: mul_div_def)

end
