(* ===== verification/Amm.thy ===== *)
theory Amm
  imports Pallet_Traits Fungibles
begin

text \<open>
  The constant-product exchange (src/pallets/amm/src/lib.rs): every call, every helper and the
  \<open>AMM\<close> interface it offers to the router and the price feed.

  \<open>'l amm_state\<close> has one field per storage item, the ledger of \<open>T::Assets\<close> and the events.  A pool is
  stored under the pair of its assets, the greater id first (\<open>sort_assets\<close>).  A Rust function that
  mutates a \<open>&mut Pool\<close> takes the pool and returns the new one; the caller writes it back to storage,
  as \<open>Pools::try_mutate\<close> does when its closure succeeds.  \<open>'l amm_config\<close> collects the configuration
  and what the executed block provides.
\<close>

datatype amm_error =
    PoolDoesNotExist | InsufficientLiquidity | NotAnIdealPrice | PoolAlreadyExists
  | InsufficientAmountOut | InsufficientAmountIn | InsufficientSupplyOut | IdenticalAssets
  | LpTokenAlreadyExists | ConversionToU128Failed | ProtocolFeeReceiverNotSet

type_synonym amm_dispatch_error = "amm_error dispatch_error"

datatype amm_event =
    LiquidityAdded account_id currency_id currency_id balance balance currency_id balance balance
  | LiquidityRemoved account_id currency_id currency_id balance balance balance currency_id balance balance
  | PoolCreated account_id currency_id currency_id currency_id
  | Traded account_id currency_id currency_id balance balance currency_id balance balance
  | ProtocolFeeUpdated ratio
  | ProtocolFeeReceiverUpdated account_id

record 'l amm_state =
  am_pools :: "currency_id \<times> currency_id \<rightharpoonup> pool"
  am_protocol_fee :: ratio
  am_protocol_fee_receiver :: "account_id option"
  am_ledger :: 'l
  am_events :: "amm_event list"

record 'l amm_config =
  am_arith :: sp_arith
  am_assets :: "(nat, 'l) fungibles"
  am_pallet_account :: account_id
  am_lock_account :: account_id
  am_create_pool_origin :: "origin \<Rightarrow> bool"
  am_protocol_fee_update_origin :: "origin \<Rightarrow> bool"
  am_lp_fee :: ratio
  am_minimum_liquidity :: balance
  am_native :: currency_id
  am_block :: block_number
  am_pool_keys :: "(currency_id \<times> currency_id) list"

section \<open>Storage and assets\<close>

definition amm_deposit_event :: "amm_event \<Rightarrow> 'l amm_state \<Rightarrow> 'l amm_state" where
  "amm_deposit_event e s = s\<lparr>am_events := am_events s @ [e]\<rparr>"

definition amm_put_pool :: "currency_id \<Rightarrow> currency_id \<Rightarrow> pool \<Rightarrow> 'l amm_state \<Rightarrow> 'l amm_state" where
  "amm_put_pool b q p s = s\<lparr>am_pools := (am_pools s)((b, q) \<mapsto> p)\<rparr>"

definition amm_issuance :: "'l amm_config \<Rightarrow> 'l amm_state \<Rightarrow> currency_id \<Rightarrow> balance" where
  "amm_issuance C s a = ft_total_issuance (am_assets C) (am_ledger s) a"

definition amm_transfer ::
    "'l amm_config \<Rightarrow> 'l amm_state \<Rightarrow> currency_id \<Rightarrow> account_id \<Rightarrow> account_id \<Rightarrow> balance
     \<Rightarrow> amm_dispatch_error + 'l amm_state" where
  "amm_transfer C s a from to n =
     bindE (map_err External (ft_transfer (am_assets C) (am_ledger s) a from to n (a = am_native C)))
       (\<lambda>l. Inr (s\<lparr>am_ledger := l\<rparr>))"

definition amm_mint_into ::
    "'l amm_config \<Rightarrow> 'l amm_state \<Rightarrow> currency_id \<Rightarrow> account_id \<Rightarrow> balance
     \<Rightarrow> amm_dispatch_error + 'l amm_state" where
  "amm_mint_into C s a who n =
     bindE (map_err External (ft_mint_into (am_assets C) (am_ledger s) a who n))
       (\<lambda>l. Inr (s\<lparr>am_ledger := l\<rparr>))"

definition amm_burn_from ::
    "'l amm_config \<Rightarrow> 'l amm_state \<Rightarrow> currency_id \<Rightarrow> account_id \<Rightarrow> balance
     \<Rightarrow> amm_dispatch_error + 'l amm_state" where
  "amm_burn_from C s a who n =
     bindE (map_err External (ft_burn_from (am_assets C) (am_ledger s) a who n))
       (\<lambda>l. Inr (s\<lparr>am_ledger := l\<rparr>))"

section \<open>Helpers\<close>

definition amm_account_id :: "'l amm_config \<Rightarrow> account_id" where
  "amm_account_id C = am_pallet_account C"

definition lock_account_id :: "'l amm_config \<Rightarrow> account_id" where
  "lock_account_id C = am_lock_account C"

definition protolcol_fee_receiver :: "'l amm_state \<Rightarrow> amm_dispatch_error + account_id" where
  "protolcol_fee_receiver s = ok_or (am_protocol_fee_receiver s) (Module ProtocolFeeReceiverNotSet)"

definition quote :: "balance \<Rightarrow> balance \<Rightarrow> balance \<Rightarrow> amm_dispatch_error + balance" where
  "quote base_amt base_pool quote_pool =
     ok_or (Option.bind (mul_div base_amt quote_pool base_pool) to_u128) (Arithmetic Overflow)"

definition sort_assets ::
    "currency_id \<times> currency_id \<Rightarrow> amm_dispatch_error + bool \<times> currency_id \<times> currency_id" where
  "sort_assets pair = (case pair of (curr_a, curr_b) \<Rightarrow>
     if curr_b < curr_a then Inr (False, curr_a, curr_b)
     else if curr_a < curr_b then Inr (True, curr_b, curr_a)
     else Inl (Module IdenticalAssets))"

definition get_ideal_amounts ::
    "pool \<Rightarrow> balance \<times> balance \<Rightarrow> amm_dispatch_error + balance \<times> balance" where
  "get_ideal_amounts p amounts = (case amounts of (base_amt, quote_amt) \<Rightarrow>
     if pool_is_empty p then Inr (base_amt, quote_amt)
     else bindE (quote base_amt (base_amount p) (quote_amount p)) (\<lambda>ideal_quote.
       if ideal_quote \<le> quote_amt then Inr (base_amt, ideal_quote)
       else bindE (quote quote_amt (quote_amount p) (base_amount p)) (\<lambda>ideal_base.
         Inr (ideal_base, quote_amt))))"

definition protocol_fee_on :: "'l amm_state \<Rightarrow> bool" where
  "protocol_fee_on s \<longleftrightarrow>
     am_protocol_fee s \<noteq> 0 \<and> is_ok (protolcol_fee_receiver s)"

definition get_protocol_fee_reciprocal_proportion :: "'l amm_config \<Rightarrow> 'l amm_state \<Rightarrow> balance" where
  "get_protocol_fee_reciprocal_proportion C s =
     pm_saturating_reciprocal_mul_floor (am_arith C) (am_protocol_fee s) 1"

definition get_reserves ::
    "'l amm_state \<Rightarrow> currency_id \<Rightarrow> currency_id \<Rightarrow> amm_dispatch_error + balance \<times> balance" where
  "get_reserves s asset_in asset_out =
     bindE (sort_assets (asset_in, asset_out)) (\<lambda>(is_inverted, base_asset, quote_asset).
     bindE (ok_or (am_pools s (base_asset, quote_asset)) (Module PoolDoesNotExist)) (\<lambda>p.
     if is_inverted then Inr (quote_amount p, base_amount p)
     else Inr (base_amount p, quote_amount p)))"

definition get_amount_out ::
    "'l amm_config \<Rightarrow> balance \<Rightarrow> balance \<Rightarrow> balance \<Rightarrow> amm_dispatch_error + balance" where
  "get_amount_out C amount_in reserve_in reserve_out =
     (let fees = pm_mul_ceil (am_arith C) (am_lp_fee C) amount_in in
      bindE (ok_or (checked_sub amount_in fees) (Arithmetic Underflow)) (\<lambda>net.
      bindE (ok_or (mul_div net reserve_out (reserve_in + net)) (Arithmetic Underflow)) (\<lambda>amount_out.
      ok_or (to_u128 amount_out) (Arithmetic Overflow))))"

definition get_amount_in ::
    "'l amm_config \<Rightarrow> balance \<Rightarrow> balance \<Rightarrow> balance \<Rightarrow> amm_dispatch_error + balance" where
  "get_amount_in C amount_out reserve_in reserve_out =
     bindE (ensure (amount_out < reserve_out) (Module InsufficientSupplyOut)) (\<lambda>_.
     bindE (ok_or (checked_sub reserve_out amount_out) (Arithmetic Underflow)) (\<lambda>denominator.
     bindE (ok_or (mul_div reserve_in amount_out denominator) (Arithmetic Underflow)) (\<lambda>big.
     bindE (ok_or (to_u128 big) (Arithmetic Overflow)) (\<lambda>amount_in.
     bindE (ok_or (pm_checked_sub (am_arith C) PM (am_lp_fee C)) (Arithmetic Underflow)) (\<lambda>fee_percent.
     ok_or (checked_add (pm_saturating_reciprocal_mul_ceil (am_arith C) fee_percent amount_in) 1)
       (Arithmetic Overflow))))))"

text \<open>The two loops over a path.  An empty path panics: it is indexed before the loop starts.\<close>

fun get_amounts_out ::
    "'l amm_config \<Rightarrow> 'l amm_state \<Rightarrow> balance \<Rightarrow> currency_id list \<Rightarrow> amm_dispatch_error + balance list" where
  "get_amounts_out C s amount_in [] = Inl Panic"
| "get_amounts_out C s amount_in [a] = Inr [amount_in]"
| "get_amounts_out C s amount_in (a # b # path) =
     bindE (get_reserves s a b) (\<lambda>(reserve_in, reserve_out).
     bindE (get_amount_out C amount_in reserve_in reserve_out) (\<lambda>amount_out.
     bindE (get_amounts_out C s amount_out (b # path)) (\<lambda>amounts. Inr (amount_in # amounts))))"

fun get_amounts_in ::
    "'l amm_config \<Rightarrow> 'l amm_state \<Rightarrow> balance \<Rightarrow> currency_id list \<Rightarrow> amm_dispatch_error + balance list" where
  "get_amounts_in C s amount_out [] = Inl Panic"
| "get_amounts_in C s amount_out [a] = Inr [amount_out]"
| "get_amounts_in C s amount_out (a # b # path) =
     bindE (get_amounts_in C s amount_out (b # path)) (\<lambda>amounts.
     bindE (get_reserves s a b) (\<lambda>(reserve_in, reserve_out).
     bindE (get_amount_in C (hd amounts) reserve_in reserve_out) (\<lambda>amount_in. Inr (amount_in # amounts))))"

section \<open>The price oracle of a pool\<close>

definition oracle_fraction ::
    "'l amm_config \<Rightarrow> nat \<Rightarrow> balance \<Rightarrow> balance \<Rightarrow> amm_dispatch_error + nat" where
  "oracle_fraction C time_elapsed numerator denominator =
     bindE (ok_or (to_u128 (time_elapsed * numerator)) (Arithmetic Overflow)) (\<lambda>n.
     ok_or (fx_saturating_from_rational (am_arith C) n denominator) Panic)"

definition do_update_oracle :: "'l amm_config \<Rightarrow> pool \<Rightarrow> amm_dispatch_error + pool" where
  "do_update_oracle C p =
     (if block_timestamp_last p = am_block C then Inr p
      else let time_elapsed = saturating_sub (am_block C) (block_timestamp_last p) in
        bindE (oracle_fraction C time_elapsed (quote_amount p) (base_amount p)) (\<lambda>price0_fraction.
        bindE (oracle_fraction C time_elapsed (base_amount p) (quote_amount p)) (\<lambda>price1_fraction.
        bindE (ok_or (fx_checked_add (am_arith C) (price_0_cumulative_last p) price0_fraction)
                (Arithmetic Overflow)) (\<lambda>price0.
        bindE (ok_or (fx_checked_add (am_arith C) (price_1_cumulative_last p) price1_fraction)
                (Arithmetic Overflow)) (\<lambda>price1.
        Inr (p\<lparr>price_0_cumulative_last := price0, price_1_cumulative_last := price1,
               block_timestamp_last := am_block C\<rparr>))))))"

section \<open>Liquidity\<close>

text \<open>The last reserves are remembered only while the protocol takes a fee.\<close>

definition remember_reserves :: "'l amm_state \<Rightarrow> pool \<Rightarrow> pool" where
  "remember_reserves s p =
     (if protocol_fee_on s
      then p\<lparr>base_amount_last := base_amount p, quote_amount_last := quote_amount p\<rparr> else p)"

text \<open>One side of the minimum in \<open>do_add_liquidity\<close>, and one side of \<open>calculate_reserves_to_remove\<close>.\<close>

definition share_of :: "nat \<Rightarrow> nat \<Rightarrow> nat \<Rightarrow> amm_dispatch_error + balance" where
  "share_of a b c =
     bindE (ok_or (mul_div a b c) (Module ConversionToU128Failed)) (\<lambda>r.
     ok_or (to_u128 r) (Arithmetic Underflow))"

definition liquidity_for ::
    "'l amm_config \<Rightarrow> 'l amm_state \<Rightarrow> pool \<Rightarrow> balance \<Rightarrow> balance
     \<Rightarrow> amm_dispatch_error + balance \<times> 'l amm_state" where
  "liquidity_for C s p ideal_base ideal_quote =
     (let total = amm_issuance C s (lp_token_id p) in
      if total = 0
      then bindE (amm_mint_into C s (lp_token_id p) (lock_account_id C) (am_minimum_liquidity C)) (\<lambda>s1.
           bindE (ok_or (checked_sub (integer_sqrt (ideal_base * ideal_quote)) (am_minimum_liquidity C))
                   (Module ConversionToU128Failed)) (\<lambda>r.
           bindE (ok_or (to_u128 r) (Arithmetic Underflow)) (\<lambda>liquidity. Inr (liquidity, s1))))
      else bindE (share_of ideal_base total (base_amount p)) (\<lambda>x.
           bindE (share_of ideal_quote total (quote_amount p)) (\<lambda>y. Inr (min x y, s))))"

definition do_add_liquidity ::
    "'l amm_config \<Rightarrow> 'l amm_state \<Rightarrow> account_id \<Rightarrow> pool \<Rightarrow> balance \<times> balance \<Rightarrow> currency_id \<times> currency_id
     \<Rightarrow> amm_dispatch_error + pool \<times> 'l amm_state" where
  "do_add_liquidity C s who p ideal assets =
     bindE (liquidity_for C s p (fst ideal) (snd ideal)) (\<lambda>(liquidity, s1).
     bindE (ok_or (checked_add (base_amount p) (fst ideal)) (Arithmetic Overflow)) (\<lambda>b.
     bindE (ok_or (checked_add (quote_amount p) (snd ideal)) (Arithmetic Overflow)) (\<lambda>q.
     bindE (amm_mint_into C s1 (lp_token_id p) who liquidity) (\<lambda>s2.
     bindE (amm_transfer C s2 (fst assets) who (amm_account_id C) (fst ideal)) (\<lambda>s3.
     bindE (amm_transfer C s3 (snd assets) who (amm_account_id C) (snd ideal)) (\<lambda>s4.
     Inr (remember_reserves s4 (p\<lparr>base_amount := b, quote_amount := q\<rparr>), s4)))))))"

definition calculate_reserves_to_remove ::
    "'l amm_config \<Rightarrow> 'l amm_state \<Rightarrow> pool \<Rightarrow> balance \<Rightarrow> amm_dispatch_error + balance \<times> balance" where
  "calculate_reserves_to_remove C s p liquidity =
     (let total = amm_issuance C s (lp_token_id p) in
      bindE (share_of liquidity (base_amount p) total) (\<lambda>base_amt.
      bindE (share_of liquidity (quote_amount p) total) (\<lambda>quote_amt.
      Inr (base_amt, quote_amt))))"

definition do_remove_liquidity ::
    "'l amm_config \<Rightarrow> 'l amm_state \<Rightarrow> account_id \<Rightarrow> pool \<Rightarrow> balance \<Rightarrow> currency_id \<times> currency_id
     \<Rightarrow> amm_dispatch_error + (balance \<times> balance) \<times> pool \<times> 'l amm_state" where
  "do_remove_liquidity C s who p liquidity assets =
     bindE (calculate_reserves_to_remove C s p liquidity) (\<lambda>(base_amt, quote_amt).
     bindE (ok_or (checked_sub (base_amount p) base_amt) (Module InsufficientLiquidity)) (\<lambda>b.
     bindE (ok_or (checked_sub (quote_amount p) quote_amt) (Module InsufficientLiquidity)) (\<lambda>q.
     bindE (amm_burn_from C s (lp_token_id p) who liquidity) (\<lambda>s1.
     bindE (amm_transfer C s1 (fst assets) (amm_account_id C) who base_amt) (\<lambda>s2.
     bindE (amm_transfer C s2 (snd assets) (amm_account_id C) who quote_amt) (\<lambda>s3.
     Inr ((base_amt, quote_amt), remember_reserves s3 (p\<lparr>base_amount := b, quote_amount := q\<rparr>), s3)))))))"

definition do_mint_protocol_fee ::
    "'l amm_config \<Rightarrow> 'l amm_state \<Rightarrow> pool \<Rightarrow> amm_dispatch_error + balance \<times> pool \<times> 'l amm_state" where
  "do_mint_protocol_fee C s p =
     (let k_last = base_amount_last p * quote_amount_last p in
      if \<not> protocol_fee_on s
      then Inr (0, if k_last \<noteq> 0 then p\<lparr>base_amount_last := 0, quote_amount_last := 0\<rparr> else p, s)
      else
        let root_k = integer_sqrt (base_amount p * quote_amount p);
            root_k_last = integer_sqrt k_last in
        if root_k \<le> root_k_last then Inr (0, p, s)
        else
          let numerator = (root_k - root_k_last) * amm_issuance C s (lp_token_id p) in
          bindE (ok_or (checked_sub (get_protocol_fee_reciprocal_proportion C s) 1) (Arithmetic Underflow)) (\<lambda>scalar.
          bindE (ok_or (checked_div numerator (root_k * scalar + root_k_last)) (Arithmetic Underflow)) (\<lambda>big.
          bindE (ok_or (to_u128 big) (Arithmetic Overflow)) (\<lambda>protocol_fees.
          bindE (protolcol_fee_receiver s) (\<lambda>receiver.
          bindE (amm_mint_into C s (lp_token_id p) receiver protocol_fees) (\<lambda>s1.
          Inr (protocol_fees, p, s1)))))))"

section \<open>Trading\<close>

definition do_swap ::
    "'l amm_config \<Rightarrow> 'l amm_state \<Rightarrow> account_id \<Rightarrow> currency_id \<times> currency_id \<Rightarrow> balance
     \<Rightarrow> amm_dispatch_error + balance \<times> 'l amm_state" where
  "do_swap C s who pair amount_in =
     bindE (sort_assets pair) (\<lambda>(is_inverted, base_asset, quote_asset).
     bindE (ok_or (am_pools s (base_asset, quote_asset)) (Module PoolDoesNotExist)) (\<lambda>p.
     let supply_in = (if is_inverted then quote_amount p else base_amount p);
         supply_out = (if is_inverted then base_amount p else quote_amount p) in
     bindE (ensure (amount_in \<ge> pm_saturating_reciprocal_mul_ceil (am_arith C) (am_lp_fee C) 1)
             (Module InsufficientAmountIn)) (\<lambda>_.
     bindE (ensure (supply_out \<noteq> 0) (Module InsufficientAmountOut)) (\<lambda>_.
     bindE (get_amount_out C amount_in supply_in supply_out) (\<lambda>amount_out.
     bindE (ok_or (checked_add supply_in amount_in) (Arithmetic Overflow)) (\<lambda>new_in.
     bindE (ok_or (checked_sub supply_out amount_out) (Arithmetic Underflow)) (\<lambda>new_out.
     bindE (do_update_oracle C
              (if is_inverted then p\<lparr>quote_amount := new_in, base_amount := new_out\<rparr>
               else p\<lparr>base_amount := new_in, quote_amount := new_out\<rparr>)) (\<lambda>p1.
     bindE (amm_transfer C s (fst pair) who (amm_account_id C) amount_in) (\<lambda>s1.
     bindE (amm_transfer C s1 (snd pair) (amm_account_id C) who amount_out) (\<lambda>s2.
     Inr (amount_out,
          amm_put_pool base_asset quote_asset p1
            (amm_deposit_event (Traded who (fst pair) (snd pair) amount_in amount_out (lp_token_id p1)
               (quote_amount p1) (base_amount p1)) s2))))))))))))"

section \<open>Calls\<close>

definition amm_add_liquidity ::
    "'l amm_config \<Rightarrow> 'l amm_state \<Rightarrow> origin \<Rightarrow> currency_id \<times> currency_id \<Rightarrow> balance \<times> balance \<Rightarrow> balance \<times> balance
     \<Rightarrow> amm_dispatch_error + 'l amm_state" where
  "amm_add_liquidity C s o' pair desired minimum =
     bindE (ensure_signed o') (\<lambda>who.
     bindE (sort_assets pair) (\<lambda>(is_inverted, base_asset, quote_asset).
     let amounts = (if is_inverted then (snd desired, fst desired) else (fst desired, snd desired));
         minimums = (if is_inverted then (snd minimum, fst minimum) else (fst minimum, snd minimum)) in
     bindE (ok_or (am_pools s (base_asset, quote_asset)) (Module PoolDoesNotExist)) (\<lambda>p.
     bindE (get_ideal_amounts p amounts) (\<lambda>ideal.
     bindE (ensure (fst ideal \<le> fst amounts \<and> snd ideal \<le> snd amounts) (Module InsufficientAmountIn)) (\<lambda>_.
     bindE (ensure (fst ideal \<ge> fst minimums \<and> snd ideal \<ge> snd minimums) (Module NotAnIdealPrice)) (\<lambda>_.
     bindE (do_mint_protocol_fee C s p) (\<lambda>(fees, p1, s1).
     bindE (do_add_liquidity C s1 who p1 ideal (base_asset, quote_asset)) (\<lambda>(p2, s2).
     Inr (amm_put_pool base_asset quote_asset p2
            (amm_deposit_event (LiquidityAdded who base_asset quote_asset (fst ideal) (snd ideal)
               (lp_token_id p2) (base_amount p2) (quote_amount p2)) s2))))))))))"

definition amm_remove_liquidity ::
    "'l amm_config \<Rightarrow> 'l amm_state \<Rightarrow> origin \<Rightarrow> currency_id \<times> currency_id \<Rightarrow> balance
     \<Rightarrow> amm_dispatch_error + 'l amm_state" where
  "amm_remove_liquidity C s o' pair liquidity =
     bindE (ensure_signed o') (\<lambda>who.
     bindE (sort_assets pair) (\<lambda>(is_inverted, base_asset, quote_asset).
     bindE (ok_or (am_pools s (base_asset, quote_asset)) (Module PoolDoesNotExist)) (\<lambda>p.
     bindE (do_mint_protocol_fee C s p) (\<lambda>(fees, p1, s1).
     bindE (do_remove_liquidity C s1 who p1 liquidity (base_asset, quote_asset)) (\<lambda>(removed, p2, s2).
     Inr (amm_put_pool base_asset quote_asset p2
            (amm_deposit_event (LiquidityRemoved who base_asset quote_asset liquidity (fst removed) (snd removed)
               (lp_token_id p2) (base_amount p2) (quote_amount p2)) s2)))))))"

definition create_pool ::
    "'l amm_config \<Rightarrow> 'l amm_state \<Rightarrow> origin \<Rightarrow> currency_id \<times> currency_id \<Rightarrow> balance \<times> balance \<Rightarrow> account_id
     \<Rightarrow> currency_id \<Rightarrow> amm_dispatch_error + 'l amm_state" where
  "create_pool C s o' pair amounts receiver lp =
     bindE (ensure_origin (am_create_pool_origin C) o') (\<lambda>_.
     bindE (sort_assets pair) (\<lambda>(is_inverted, base_asset, quote_asset).
     bindE (ensure (am_pools s (base_asset, quote_asset) = None) (Module PoolAlreadyExists)) (\<lambda>_.
     let given = (if is_inverted then (snd amounts, fst amounts) else (fst amounts, snd amounts)) in
     bindE (ensure (amm_issuance C s lp = 0) (Module LpTokenAlreadyExists)) (\<lambda>_.
     bindE (do_add_liquidity C (amm_deposit_event (PoolCreated receiver base_asset quote_asset lp) s)
              receiver (pool_new lp) given (base_asset, quote_asset)) (\<lambda>(p, s1).
     Inr (amm_deposit_event (LiquidityAdded receiver base_asset quote_asset (fst given) (snd given)
            (lp_token_id p) (base_amount p) (quote_amount p))
            (amm_put_pool base_asset quote_asset p s1)))))))"

definition update_protocol_fee ::
    "'l amm_config \<Rightarrow> 'l amm_state \<Rightarrow> origin \<Rightarrow> ratio \<Rightarrow> amm_dispatch_error + 'l amm_state" where
  "update_protocol_fee C s o' fee =
     bindE (ensure_origin (am_protocol_fee_update_origin C) o') (\<lambda>_.
     Inr (amm_deposit_event (ProtocolFeeUpdated fee) (s\<lparr>am_protocol_fee := fee\<rparr>)))"

definition update_protocol_fee_receiver ::
    "'l amm_config \<Rightarrow> 'l amm_state \<Rightarrow> origin \<Rightarrow> account_id \<Rightarrow> amm_dispatch_error + 'l amm_state" where
  "update_protocol_fee_receiver C s o' receiver =
     bindE (ensure_origin (am_protocol_fee_update_origin C) o') (\<lambda>_.
     Inr (amm_deposit_event (ProtocolFeeReceiverUpdated receiver)
            (s\<lparr>am_protocol_fee_receiver := Some receiver\<rparr>)))"

section \<open>The interface for other pallets\<close>

definition amm_swap ::
    "'l amm_config \<Rightarrow> 'l amm_state \<Rightarrow> account_id \<Rightarrow> currency_id \<times> currency_id \<Rightarrow> balance
     \<Rightarrow> amm_dispatch_error + 'l amm_state" where
  "amm_swap C s who pair amount_in = bindE (do_swap C s who pair amount_in) (\<lambda>(_, s1). Inr s1)"

definition get_pools :: "'l amm_config \<Rightarrow> 'l amm_state \<Rightarrow> (currency_id \<times> currency_id) list" where
  "get_pools C s = map fst (storage_iter (am_pool_keys C) (am_pools s))"

definition get_pool_by_lp_asset ::
    "'l amm_config \<Rightarrow> 'l amm_state \<Rightarrow> currency_id \<Rightarrow> (currency_id \<times> currency_id \<times> pool) option" where
  "get_pool_by_lp_asset C s asset_id =
     map_option (\<lambda>((b, q), p). (b, q, p))
       (find (\<lambda>(_, p). lp_token_id p = asset_id) (storage_iter (am_pool_keys C) (am_pools s)))"

definition get_pool_by_asset_pair ::
    "'l amm_state \<Rightarrow> currency_id \<times> currency_id \<Rightarrow> pool option" where
  "get_pool_by_asset_pair s pair =
     (case sort_assets pair of
        Inr (_, base_asset, quote_asset) \<Rightarrow> am_pools s (base_asset, quote_asset)
      | Inl _ \<Rightarrow> None)"

datatype amm_call =
    AddLiquidity "currency_id \<times> currency_id" "balance \<times> balance" "balance \<times> balance"
  | RemoveLiquidity "currency_id \<times> currency_id" balance
  | CreatePool "currency_id \<times> currency_id" "balance \<times> balance" account_id currency_id
  | UpdateProtocolFee ratio
  | UpdateProtocolFeeReceiver account_id

fun amm_dispatch ::
    "'l amm_config \<Rightarrow> 'l amm_state \<Rightarrow> origin \<Rightarrow> amm_call \<Rightarrow> amm_dispatch_error + 'l amm_state" where
  "amm_dispatch C s o' (AddLiquidity pair d m) = amm_add_liquidity C s o' pair d m"
| "amm_dispatch C s o' (RemoveLiquidity pair l) = amm_remove_liquidity C s o' pair l"
| "amm_dispatch C s o' (CreatePool pair x r lp) = create_pool C s o' pair x r lp"
| "amm_dispatch C s o' (UpdateProtocolFee f) = update_protocol_fee C s o' f"
| "amm_dispatch C s o' (UpdateProtocolFeeReceiver r) = update_protocol_fee_receiver C s o' r"

end
