(* ===== verification/Amm_Safety.thy ===== *)
theory Amm_Safety
  imports Amm
begin

text \<open>
  Lemmas of the constant-product exchange: the arithmetic of a trade, inversion of the operations, the
  custody of the pools' reserves by the pallet's account, and histories of the pallet.
\<close>

abbreviation pool_in :: "bool \<Rightarrow> pool \<Rightarrow> balance" where
  "pool_in iv p \<equiv> (if iv then quote_amount p else base_amount p)"

abbreviation pool_out :: "bool \<Rightarrow> pool \<Rightarrow> balance" where
  "pool_out iv p \<equiv> (if iv then base_amount p else quote_amount p)"

section \<open>Arithmetic\<close>

lemma constant_product:
  fixes x y n net out :: nat
  assumes "out * (x + net) \<le> net * y" and "net \<le> n"
  shows "x * y \<le> (x + n) * (y - out)"
proof -
  have "x * y + out * (x + net) \<le> (x + net) * y" using assms(1) by (simp only: add_mult_distrib nat_add_left_cancel_le)
  then have "x * y \<le> (x + net) * y - out * (x + net)" by simp
  also have "\<dots> = (x + net) * (y - out)" by (metis diff_mult_distrib2 mult.commute)
  also have "\<dots> \<le> (x + n) * (y - out)" using assms(2) by (intro mult_le_mono) auto
  finally show ?thesis .
qed

lemma get_amount_out_inv:
  assumes "get_amount_out C n x y = Inr out"
  obtains net big where "net = n - pm_mul_ceil (am_arith C) (am_lp_fee C) n"
    "pm_mul_ceil (am_arith C) (am_lp_fee C) n \<le> n" "mul_div net y (x + net) = Some big" "to_u128 big = Some out"
  using assms unfolding get_amount_out_def Let_def by (elim resultE) (rule that)

lemma get_amount_outE:
  assumes "get_amount_out C n x y = Inr out"
  obtains net where "net = n - pm_mul_ceil (am_arith C) (am_lp_fee C) n"
    "pm_mul_ceil (am_arith C) (am_lp_fee C) n \<le> n"
    "x + net \<noteq> 0" "out = net * y div (x + net)" "out \<le> u128_max"
  using assms by (rule get_amount_out_inv) (metis mul_div_Some to_u128_Some that)

lemma get_amount_out_product:
  assumes "get_amount_out C n x y = Inr out"
  shows "x * y \<le> (x + n) * (y - out)"
  using assms
proof (rule get_amount_outE)
  fix net
  assume "net = n - pm_mul_ceil (am_arith C) (am_lp_fee C) n" and out: "out = net * y div (x + net)"
  then have "net \<le> n" by simp
  moreover have "out * (x + net) \<le> net * y" unfolding out by (rule div_mult_le_nat)
  ultimately show ?thesis by (intro constant_product)
qed

lemma get_amount_out_le:
  assumes "get_amount_out C n x y = Inr out"
  shows "out \<le> y"
proof -
  obtain net where net: "x + net \<noteq> 0" "out = net * y div (x + net)" using assms by (rule get_amount_outE)
  have "net * y \<le> y * (x + net)" by (simp add: algebra_simps)
  then have "net * y div (x + net) \<le> y * (x + net) div (x + net)" by (rule div_le_mono)
  with net show ?thesis by simp
qed

lemma get_amount_out_less:
  assumes "get_amount_out C n x y = Inr out" and "0 < x" and "0 < y"
  shows "out < y"
proof -
  have "0 < x * y" using assms(2,3) by simp
  also have "\<dots> \<le> (x + n) * (y - out)" using assms(1) by (rule get_amount_out_product)
  finally show ?thesis by simp
qed

text \<open>What remains of an amount after the fee rounded up is the share without the fee, rounded down.\<close>

lemma complement_div:
  fixes u v n m :: nat
  assumes "u + v = m * n" and "0 < m"
  shows "n - (u + (m - 1)) div m = v div m"
proof -
  define a b where "a = v div m" and "b = v mod m"
  have v: "v = m * a + b" by (simp add: a_def b_def)
  have b: "b \<le> m - 1" using mod_less_divisor [OF assms(2), of v] by (simp add: b_def)
  have "m * a \<le> m * n" using assms(1) v by linarith
  then obtain c where n: "n = a + c" using assms(2) le_Suc_ex by auto
  have "u + b = m * c" using assms(1) v n by (simp add: add_mult_distrib2)
  then have "u + (m - 1) = (m - 1 - b) + m * c" using b by linarith
  then have "(u + (m - 1)) div m = (m - 1 - b) div m + c" using assms(2) by simp
  also have "(m - 1 - b) div m = 0" using assms(2) by simp
  finally show ?thesis using n by (simp add: a_def)
qed

lemma net_of_fee:
  assumes "p \<le> PM"
  shows "n - (p * n + 999999) div PM = (PM - p) * n div PM"
proof -
  have "p * n + (PM - p) * n = PM * n" using assms by (metis add_mult_distrib le_add_diff_inverse)
  from complement_div [OF this] show ?thesis by simp
qed

lemma get_amount_in_inv:
  assumes "get_amount_in C out x y = Inr n"
  obtains d big a f where "out < y" "d = y - out" "out \<le> y" "mul_div x out d = Some big" "to_u128 big = Some a"
    "pm_checked_sub (am_arith C) PM (am_lp_fee C) = Some f"
    "n = pm_saturating_reciprocal_mul_ceil (am_arith C) f a + 1"
    "pm_saturating_reciprocal_mul_ceil (am_arith C) f a + 1 \<le> u128_max"
  using assms unfolding get_amount_in_def by (elim resultE) (rule that)

lemma get_amount_inE:
  assumes "get_amount_in C out x y = Inr n" and "sp_arith_laws (am_arith C)" and "am_lp_fee C < PM"
  obtains "out < y" "x * out div (y - out) \<le> u128_max"
    "n = min ((x * out div (y - out) * PM + (PM - am_lp_fee C - 1)) div (PM - am_lp_fee C)) u128_max + 1"
    "n \<le> u128_max"
  using assms(1)
proof (rule get_amount_in_inv)
  fix d big a f
  assume 1: "out < y" "d = y - out" "mul_div x out d = Some big" "to_u128 big = Some a"
    "pm_checked_sub (am_arith C) PM (am_lp_fee C) = Some f"
    and n: "n = pm_saturating_reciprocal_mul_ceil (am_arith C) f a + 1"
      "pm_saturating_reciprocal_mul_ceil (am_arith C) f a + 1 \<le> u128_max"
  from 1 have a: "a = x * out div (y - out)" "a \<le> u128_max" by simp_all
  from 1(5) have f: "f = PM - am_lp_fee C" by (simp add: pm_simps(5) [OF assms(2)])
  have "pm_saturating_reciprocal_mul_ceil (am_arith C) f a = min ((a * PM + (f - 1)) div f) u128_max"
    using assms(3) f by (intro pm_simps(6) [OF assms(2)]) simp
  note r = this [unfolded f a(1)]
  show thesis
  proof (rule that)
    show "out < y" by (rule 1(1))
    show "x * out div (y - out) \<le> u128_max" using a(2) unfolding a(1) .
    show "n = min ((x * out div (y - out) * PM + (PM - am_lp_fee C - 1)) div (PM - am_lp_fee C)) u128_max + 1"
      using n(1) unfolding f a(1) r .
    show "n \<le> u128_max" using n by (simp only:)
  qed
qed

lemma ceil_div_mult_ge: "0 < q \<Longrightarrow> (m :: nat) \<le> (m + (q - 1)) div q * q"
proof -
  assume q: "0 < q"
  have "m + (q - 1) < Suc ((m + (q - 1)) div q) * q" using q by (rule less_div_Suc_mult)
  then show ?thesis using q by simp
qed

text \<open>The amount that \<open>get_amount_in\<close> asks for, less the fee, is the rounded-down exact requirement or more.\<close>

lemma amount_in_net:
  assumes "get_amount_in C out x y = Inr n" and "sp_arith_laws (am_arith C)" and "am_lp_fee C < PM"
  shows "x * out div (y - out) \<le> (PM - am_lp_fee C) * n div PM"
  using assms
proof (rule get_amount_inE)
  let ?A = "x * out div (y - out)" and ?q = "PM - am_lp_fee C"
  let ?c = "(?A * PM + (?q - 1)) div ?q"
  assume n: "n = min ?c u128_max + 1" "n \<le> u128_max"
  then have c: "n = ?c + 1" by (auto simp: min_def split: if_splits)
  have "?A * PM \<le> ?c * ?q" using assms(3) by (intro ceil_div_mult_ge) simp
  also have "\<dots> \<le> ?q * n" using c by simp
  finally have "?A * PM div PM \<le> ?q * n div PM" by (rule div_le_mono)
  then show ?thesis by simp
qed

section \<open>Inversion of the operations\<close>

lemma sort_assetsD:
  assumes "sort_assets pair = Inr (iv, b, q)"
  shows "q < b" and "fst pair = (if iv then q else b)" and "snd pair = (if iv then b else q)"
  using assms by (auto simp: sort_assets_def split: prod.splits if_splits)

lemma amm_transferE:
  assumes "amm_transfer C s a x y n = Inr s'"
  obtains l where "s' = s\<lparr>am_ledger := l\<rparr>" "ft_transfer (am_assets C) (am_ledger s) a x y n (a = am_native C) = Inr l"
  using assms unfolding amm_transfer_def by (elim resultE) (rule that)

lemma amm_mint_intoE:
  assumes "amm_mint_into C s a x n = Inr s'"
  obtains l where "s' = s\<lparr>am_ledger := l\<rparr>" "ft_mint_into (am_assets C) (am_ledger s) a x n = Inr l"
  using assms unfolding amm_mint_into_def by (elim resultE) (rule that)

lemma amm_burn_fromE:
  assumes "amm_burn_from C s a x n = Inr s'"
  obtains l where "s' = s\<lparr>am_ledger := l\<rparr>" "ft_burn_from (am_assets C) (am_ledger s) a x n = Inr l"
  using assms unfolding amm_burn_from_def by (elim resultE) (rule that)

lemma do_update_oracle_frame:
  assumes "do_update_oracle C p = Inr p'"
  shows "base_amount p' = base_amount p" and "quote_amount p' = quote_amount p"
    and "lp_token_id p' = lp_token_id p"
    and "base_amount_last p' = base_amount_last p" and "quote_amount_last p' = quote_amount_last p"
  using assms by (auto simp: do_update_oracle_def Let_def split: if_splits)

lemma do_swap_inv:
  assumes "do_swap C s who pair n = Inr (m, s')"
  obtains iv b q p p1 s1 s2 where
    "sort_assets pair = Inr (iv, b, q)" "am_pools s (b, q) = Some p"
    "pm_saturating_reciprocal_mul_ceil (am_arith C) (am_lp_fee C) 1 \<le> n" "pool_out iv p \<noteq> 0"
    "get_amount_out C n (pool_in iv p) (pool_out iv p) = Inr m" "m \<le> pool_out iv p"
    "do_update_oracle C
       (if iv then p\<lparr>quote_amount := pool_in iv p + n, base_amount := pool_out iv p - m\<rparr>
        else p\<lparr>base_amount := pool_in iv p + n, quote_amount := pool_out iv p - m\<rparr>) = Inr p1"
    "amm_transfer C s (fst pair) who (amm_account_id C) n = Inr s1"
    "amm_transfer C s1 (snd pair) (amm_account_id C) who m = Inr s2"
    "s' = amm_put_pool b q p1 (amm_deposit_event (Traded who (fst pair) (snd pair) n m (lp_token_id p1)
             (quote_amount p1) (base_amount p1)) s2)"
proof -
  obtain t where t: "sort_assets pair = Inr t" using assms by (auto simp: do_swap_def)
  obtain iv b q where "t = (iv, b, q)" by (cases t)
  with t have "sort_assets pair = Inr (iv, b, q)" by simp
  with assms show ?thesis
    unfolding do_swap_def Let_def by (auto intro: that)
qed

lemma liquidity_forE:
  assumes "liquidity_for C s p x y = Inr (l, s')"
  obtains (first) "amm_issuance C s (lp_token_id p) = 0"
      "amm_mint_into C s (lp_token_id p) (lock_account_id C) (am_minimum_liquidity C) = Inr s'"
      "l + am_minimum_liquidity C = integer_sqrt (x * y)"
    | (later) "amm_issuance C s (lp_token_id p) \<noteq> 0" "s' = s" "base_amount p \<noteq> 0" "quote_amount p \<noteq> 0"
      "l = min (x * amm_issuance C s (lp_token_id p) div base_amount p)
             (y * amm_issuance C s (lp_token_id p) div quote_amount p)"
  using assms by (auto simp: liquidity_for_def share_of_def Let_def split: if_splits)

lemma do_add_liquidity_inv:
  assumes "do_add_liquidity C s who p (x, y) (ba, qa) = Inr (p', s')"
  obtains l s1 s2 s3 where "liquidity_for C s p x y = Inr (l, s1)"
    "base_amount p + x \<le> u128_max" "quote_amount p + y \<le> u128_max"
    "amm_mint_into C s1 (lp_token_id p) who l = Inr s2"
    "amm_transfer C s2 ba who (amm_account_id C) x = Inr s3"
    "amm_transfer C s3 qa who (amm_account_id C) y = Inr s'"
    "p' = remember_reserves s' (p\<lparr>base_amount := base_amount p + x, quote_amount := quote_amount p + y\<rparr>)"
  using assms unfolding do_add_liquidity_def by (auto split: prod.splits intro: that)

lemma calculate_reserves_to_removeE:
  assumes "calculate_reserves_to_remove C s p l = Inr (x, y)"
  obtains "amm_issuance C s (lp_token_id p) \<noteq> 0"
    "x = l * base_amount p div amm_issuance C s (lp_token_id p)"
    "y = l * quote_amount p div amm_issuance C s (lp_token_id p)"
  using assms by (auto simp: calculate_reserves_to_remove_def share_of_def Let_def)

lemma do_remove_liquidity_inv:
  assumes "do_remove_liquidity C s who p l (ba, qa) = Inr ((x, y), p', s')"
  obtains s1 s2 where "calculate_reserves_to_remove C s p l = Inr (x, y)"
    "x \<le> base_amount p" "y \<le> quote_amount p"
    "amm_burn_from C s (lp_token_id p) who l = Inr s1"
    "amm_transfer C s1 ba (amm_account_id C) who x = Inr s2"
    "amm_transfer C s2 qa (amm_account_id C) who y = Inr s'"
    "p' = remember_reserves s' (p\<lparr>base_amount := base_amount p - x, quote_amount := quote_amount p - y\<rparr>)"
  using assms unfolding do_remove_liquidity_def by (auto split: prod.splits intro: that)

lemma remember_reserves_simps [simp]:
  "base_amount (remember_reserves s p) = base_amount p"
  "quote_amount (remember_reserves s p) = quote_amount p"
  "lp_token_id (remember_reserves s p) = lp_token_id p"
  by (simp_all add: remember_reserves_def)

text \<open>The protocol fee changes no reserve: it only mints liquidity tokens.\<close>

lemma do_mint_protocol_feeE:
  assumes "do_mint_protocol_fee C s p = Inr (f, p', s')"
  obtains (nothing) "s' = s" "base_amount p' = base_amount p" "quote_amount p' = quote_amount p"
      "lp_token_id p' = lp_token_id p" "f = 0"
    | (minted) r where "p' = p" "am_protocol_fee_receiver s = Some r" "protocol_fee_on s"
      "amm_mint_into C s (lp_token_id p) r f = Inr s'"
  using assms
  by (auto simp: do_mint_protocol_fee_def Let_def protolcol_fee_receiver_def split: if_splits)

section \<open>Custody of the reserves\<close>

text \<open>
  \<open>pooled P a\<close> is what the pools together record of asset \<open>a\<close>; the pools are funded when the pallet's
  account holds at least that much of every asset.
\<close>

definition pool_part :: "currency_id \<Rightarrow> (currency_id \<times> currency_id) \<times> pool \<Rightarrow> balance" where
  "pool_part a = (\<lambda>((b, q), p). (if a = b then base_amount p else 0) + (if a = q then quote_amount p else 0))"

definition tag_keys :: "('k \<rightharpoonup> 'v) \<Rightarrow> 'k \<rightharpoonup> 'k \<times> 'v" where
  "tag_keys m k = map_option (Pair k) (m k)"

definition pooled :: "(currency_id \<times> currency_id \<rightharpoonup> pool) \<Rightarrow> currency_id \<Rightarrow> balance" where
  "pooled P a = sum_entries (pool_part a) (tag_keys P)"

definition pools_funded :: "('e, 'l) fungibles \<Rightarrow> account_id \<Rightarrow> 'l amm_state \<Rightarrow> bool" where
  "pools_funded F acc s \<longleftrightarrow>
     finite (dom (am_pools s)) \<and> (\<forall>a. pooled (am_pools s) a \<le> ft_balance F (am_ledger s) a acc)"

text \<open>The ledger the exchange runs on: the documented laws, and no dust outside the native currency.\<close>

definition custody_laws :: "'l amm_config \<Rightarrow> bool" where
  "custody_laws C \<longleftrightarrow>
     fungibles_laws (am_assets C) \<and> credit_law (am_assets C) \<and> keep_alive_law (am_assets C) \<and>
     (\<forall>l a. a \<noteq> am_native C \<longrightarrow> ft_minimum_balance (am_assets C) l a \<le> 1)"

lemma tag_keys_simps [simp]:
  "dom (tag_keys m) = dom m"
  "tag_keys (m(k \<mapsto> v)) = (tag_keys m)(k \<mapsto> (k, v))"
  "tag_keys Map.empty = Map.empty"
  by (auto simp: tag_keys_def fun_eq_iff)

lemma pooled_put:
  assumes "finite (dom P)"
  shows "pooled (P(k \<mapsto> p)) a + (case P k of None \<Rightarrow> 0 | Some p0 \<Rightarrow> pool_part a (k, p0)) = pooled P a + pool_part a (k, p)"
  using sum_entries_upd [of "tag_keys P" "pool_part a" k "(k, p)"] assms
  by (cases "P k") (simp_all add: pooled_def tag_keys_def)

lemma custody_in:
  assumes "custody_laws C" and "amm_transfer C s a x (am_pallet_account C) n = Inr s'" and "x \<noteq> am_pallet_account C"
  shows "ft_balance (am_assets C) (am_ledger s) b (am_pallet_account C) + (if b = a then n else 0)
    \<le> ft_balance (am_assets C) (am_ledger s') b (am_pallet_account C)"
  using assms(2)
proof (rule amm_transferE)
  fix l
  assume s': "s' = s\<lparr>am_ledger := l\<rparr>"
    and tr: "ft_transfer (am_assets C) (am_ledger s) a x (am_pallet_account C) n (a = am_native C) = Inr l"
  from assms(1) have F: "fungibles_laws (am_assets C)" "credit_law (am_assets C)"
    by (simp_all add: custody_laws_def)
  show ?thesis
    using credit_lawD(1) [OF F(2) tr, of "am_pallet_account C"] fungibles_lawsD(4) [OF F(1) tr, of b] assms(3) s'
    by (cases "b = a") simp_all
qed

lemma custody_out:
  assumes "custody_laws C" and "amm_transfer C s a (am_pallet_account C) y n = Inr s'" and "y \<noteq> am_pallet_account C"
  shows "ft_balance (am_assets C) (am_ledger s') b (am_pallet_account C) + (if b = a then n else 0)
    = ft_balance (am_assets C) (am_ledger s) b (am_pallet_account C)"
  using assms(2)
proof (rule amm_transferE)
  fix l
  let ?F = "am_assets C" and ?P = "am_pallet_account C"
  assume s': "s' = s\<lparr>am_ledger := l\<rparr>"
    and tr: "ft_transfer ?F (am_ledger s) a ?P y n (a = am_native C) = Inr l"
  from assms(1) have F: "fungibles_laws ?F" "keep_alive_law ?F"
    and small: "a \<noteq> am_native C \<Longrightarrow> ft_minimum_balance ?F (am_ledger s) a \<le> 1"
    by (simp_all add: custody_laws_def)
  have dust: "leaves_no_dust (ft_minimum_balance ?F (am_ledger s) a) (ft_balance ?F (am_ledger s) a ?P) n"
  proof (cases "a = am_native C")
    case True
    with tr assms(3) show ?thesis by (intro keep_alive_lawD [OF F(2)]) auto
  next
    case False
    then show ?thesis by (rule small_minimum_no_dust [OF small])
  qed
  show ?thesis
    using fungibles_lawsD(2) [OF F(1) tr dust, of ?P] fungibles_lawsD(4) [OF F(1) tr, of b ?P] assms(3) s'
    by (cases "b = a") auto
qed

lemma custody_mint:
  assumes "custody_laws C" and "amm_mint_into C s a x n = Inr s'"
  shows "ft_balance (am_assets C) (am_ledger s) b z \<le> ft_balance (am_assets C) (am_ledger s') b z"
  using assms(2)
proof (rule amm_mint_intoE)
  fix l
  assume "s' = s\<lparr>am_ledger := l\<rparr>" and m: "ft_mint_into (am_assets C) (am_ledger s) a x n = Inr l"
  then show ?thesis
    using assms(1) fungibles_laws_mintD(1) [OF _ m, of b z] by (simp add: custody_laws_def)
qed

lemma custody_burn:
  assumes "custody_laws C" and "amm_burn_from C s a x n = Inr s'" and "x \<noteq> z"
  shows "ft_balance (am_assets C) (am_ledger s) b z \<le> ft_balance (am_assets C) (am_ledger s') b z"
  using assms(2)
proof (rule amm_burn_fromE)
  fix l
  assume "s' = s\<lparr>am_ledger := l\<rparr>" and m: "ft_burn_from (am_assets C) (am_ledger s) a x n = Inr l"
  then show ?thesis
    using assms(1,3) credit_lawD(2) [OF _ m, of b z] by (simp add: custody_laws_def)
qed

lemma funded_put:
  assumes "pools_funded F acc s" and "am_pools s' = (am_pools s)(k \<mapsto> p)"
    and "\<And>a. ft_balance F (am_ledger s) a acc + pool_part a (k, p)
           \<le> ft_balance F (am_ledger s') a acc + (case am_pools s k of None \<Rightarrow> 0 | Some p0 \<Rightarrow> pool_part a (k, p0))"
  shows "pools_funded F acc s'"
proof -
  have fin: "finite (dom (am_pools s))" and le: "pooled (am_pools s) a \<le> ft_balance F (am_ledger s) a acc" for a
    using assms(1) by (simp_all add: pools_funded_def)
  have "pooled (am_pools s') a \<le> ft_balance F (am_ledger s') a acc" for a
    using pooled_put [OF fin, of k p a] le [of a] assms(3) [of a] by (simp add: assms(2))
  with fin show ?thesis by (simp add: pools_funded_def assms(2))
qed

lemma funded_grow:
  assumes "pools_funded F acc s" and "am_pools s' = am_pools s"
    and "\<And>a. ft_balance F (am_ledger s) a acc \<le> ft_balance F (am_ledger s') a acc"
  shows "pools_funded F acc s'"
  using assms unfolding pools_funded_def by (metis le_trans)

lemma amm_frame [simp]:
  "am_pools (amm_deposit_event e s) = am_pools s"
  "am_ledger (amm_deposit_event e s) = am_ledger s"
  "am_ledger (amm_put_pool b q p s) = am_ledger s"
  "am_pools (amm_put_pool b q p s) = (am_pools s)((b, q) \<mapsto> p)"
  "am_protocol_fee (amm_deposit_event e s) = am_protocol_fee s"
  "am_protocol_fee_receiver (amm_deposit_event e s) = am_protocol_fee_receiver s"
  by (simp_all add: amm_deposit_event_def amm_put_pool_def)

lemma amm_transfer_pools: "amm_transfer C s a x y n = Inr s' \<Longrightarrow> am_pools s' = am_pools s"
  by (erule amm_transferE) simp

lemma amm_mint_into_pools: "amm_mint_into C s a x n = Inr s' \<Longrightarrow> am_pools s' = am_pools s"
  by (erule amm_mint_intoE) simp

lemma amm_burn_from_pools: "amm_burn_from C s a x n = Inr s' \<Longrightarrow> am_pools s' = am_pools s"
  by (erule amm_burn_fromE) simp

lemma do_swap_funded:
  assumes "custody_laws C" and "do_swap C s who pair n = Inr (m, s')" and "who \<noteq> am_pallet_account C"
    and "pools_funded (am_assets C) (am_pallet_account C) s"
  shows "pools_funded (am_assets C) (am_pallet_account C) s'"
  using assms(2)
proof (rule do_swap_inv)
  fix iv b q p p1 s1 s2
  let ?F = "am_assets C" and ?P = "am_pallet_account C"
  assume sort: "sort_assets pair = Inr (iv, b, q)" and p: "am_pools s (b, q) = Some p" and m: "m \<le> pool_out iv p"
    and o: "do_update_oracle C
       (if iv then p\<lparr>quote_amount := pool_in iv p + n, base_amount := pool_out iv p - m\<rparr>
        else p\<lparr>base_amount := pool_in iv p + n, quote_amount := pool_out iv p - m\<rparr>) = Inr p1"
    and t1: "amm_transfer C s (fst pair) who (amm_account_id C) n = Inr s1"
    and t2: "amm_transfer C s1 (snd pair) (amm_account_id C) who m = Inr s2"
    and s': "s' = amm_put_pool b q p1 (amm_deposit_event (Traded who (fst pair) (snd pair) n m (lp_token_id p1)
             (quote_amount p1) (base_amount p1)) s2)"
  note [simp] = amm_account_id_def
  note sd = sort_assetsD [OF sort]
  show ?thesis
  proof (rule funded_put [OF assms(4)])
    show "am_pools s' = (am_pools s)((b, q) \<mapsto> p1)"
      using amm_transfer_pools [OF t1] amm_transfer_pools [OF t2] s' by simp
    fix a
    have "ft_balance ?F (am_ledger s) a ?P + (if a = fst pair then n else 0)
        \<le> ft_balance ?F (am_ledger s') a ?P + (if a = snd pair then m else 0)"
      using custody_in [OF assms(1) t1 [simplified] assms(3), of a] custody_out [OF assms(1) t2 [simplified] assms(3), of a] s'
      by simp
    then show "ft_balance ?F (am_ledger s) a ?P + pool_part a ((b, q), p1)
       \<le> ft_balance ?F (am_ledger s') a ?P + (case am_pools s (b, q) of None \<Rightarrow> 0 | Some p0 \<Rightarrow> pool_part a ((b, q), p0))"
      using sd m p do_update_oracle_frame(1,2) [OF o]
      by (cases iv) (auto simp: pool_part_def split: if_splits)
  qed
qed

lemma liquidity_for_grow:
  assumes "custody_laws C" and "liquidity_for C s p x y = Inr (l, s')"
  shows "am_pools s' = am_pools s" and "ft_balance (am_assets C) (am_ledger s) b z \<le> ft_balance (am_assets C) (am_ledger s') b z"
  using assms(2) by (rule liquidity_forE; use amm_mint_into_pools custody_mint [OF assms(1)] in blast)+

lemma do_add_liquidity_custody:
  assumes "custody_laws C" and "do_add_liquidity C s who p (x, y) (ba, qa) = Inr (p', s')"
    and "who \<noteq> am_pallet_account C"
  shows "am_pools s' = am_pools s"
    and "ft_balance (am_assets C) (am_ledger s) a (am_pallet_account C) + (if a = ba then x else 0) + (if a = qa then y else 0)
      \<le> ft_balance (am_assets C) (am_ledger s') a (am_pallet_account C)"
    and "base_amount p' = base_amount p + x" and "quote_amount p' = quote_amount p + y"
proof -
  obtain l s1 s2 s3 where l: "liquidity_for C s p x y = Inr (l, s1)"
    and m: "amm_mint_into C s1 (lp_token_id p) who l = Inr s2"
    and t1: "amm_transfer C s2 ba who (am_pallet_account C) x = Inr s3"
    and t2: "amm_transfer C s3 qa who (am_pallet_account C) y = Inr s'"
    and p': "p' = remember_reserves s' (p\<lparr>base_amount := base_amount p + x, quote_amount := quote_amount p + y\<rparr>)"
    using assms(2) by (rule do_add_liquidity_inv) (simp add: amm_account_id_def)
  show "am_pools s' = am_pools s"
    using liquidity_for_grow(1) [OF assms(1) l] amm_mint_into_pools [OF m] amm_transfer_pools [OF t1]
      amm_transfer_pools [OF t2] by simp
  show "ft_balance (am_assets C) (am_ledger s) a (am_pallet_account C) + (if a = ba then x else 0) + (if a = qa then y else 0)
      \<le> ft_balance (am_assets C) (am_ledger s') a (am_pallet_account C)"
    using liquidity_for_grow(2) [OF assms(1) l, of a "am_pallet_account C"]
      custody_mint [OF assms(1) m, of a "am_pallet_account C"]
      custody_in [OF assms(1) t1 assms(3), of a] custody_in [OF assms(1) t2 assms(3), of a] by linarith
  show "base_amount p' = base_amount p + x" "quote_amount p' = quote_amount p + y" using p' by simp_all
qed

lemma do_remove_liquidity_custody:
  assumes "custody_laws C" and "do_remove_liquidity C s who p l (ba, qa) = Inr ((x, y), p', s')"
    and "who \<noteq> am_pallet_account C"
  shows "am_pools s' = am_pools s"
    and "ft_balance (am_assets C) (am_ledger s) a (am_pallet_account C)
      \<le> ft_balance (am_assets C) (am_ledger s') a (am_pallet_account C) + (if a = ba then x else 0) + (if a = qa then y else 0)"
    and "base_amount p' + x = base_amount p" and "quote_amount p' + y = quote_amount p"
proof -
  obtain s1 s2 where le: "x \<le> base_amount p" "y \<le> quote_amount p"
    and b: "amm_burn_from C s (lp_token_id p) who l = Inr s1"
    and t1: "amm_transfer C s1 ba (am_pallet_account C) who x = Inr s2"
    and t2: "amm_transfer C s2 qa (am_pallet_account C) who y = Inr s'"
    and p': "p' = remember_reserves s' (p\<lparr>base_amount := base_amount p - x, quote_amount := quote_amount p - y\<rparr>)"
    using assms(2) by (rule do_remove_liquidity_inv) (simp add: amm_account_id_def)
  show "am_pools s' = am_pools s"
    using amm_burn_from_pools [OF b] amm_transfer_pools [OF t1] amm_transfer_pools [OF t2] by simp
  show "ft_balance (am_assets C) (am_ledger s) a (am_pallet_account C)
      \<le> ft_balance (am_assets C) (am_ledger s') a (am_pallet_account C) + (if a = ba then x else 0) + (if a = qa then y else 0)"
    using custody_burn [OF assms(1) b assms(3), of a] custody_out [OF assms(1) t1 assms(3), of a]
      custody_out [OF assms(1) t2 assms(3), of a] by linarith
  show "base_amount p' + x = base_amount p" "quote_amount p' + y = quote_amount p" using p' le by simp_all
qed

lemma do_mint_protocol_fee_grow:
  assumes "custody_laws C" and "do_mint_protocol_fee C s p = Inr (f, p', s')"
  shows "am_pools s' = am_pools s" and "base_amount p' = base_amount p" and "quote_amount p' = quote_amount p"
    and "ft_balance (am_assets C) (am_ledger s) b z \<le> ft_balance (am_assets C) (am_ledger s') b z"
  using assms(2)
  by (rule do_mint_protocol_feeE; use amm_mint_into_pools custody_mint [OF assms(1)] in blast)+

end
