(* ===== verification/Amm_Histories.thy ===== *)
theory Amm_Histories
  imports Amm_Safety
begin

text \<open>
  Histories of the exchange.  An action is a dispatched call, a trade through the \<open>AMM\<close> interface, or
  something that happens to the shared ledger outside the pallet: a transfer, a mint or a burn by
  anybody else.  The invariant is custody: the pallet's account holds the recorded reserves of all
  pools.
\<close>

datatype amm_action =
    AmmCall origin amm_call
  | Trade account_id "currency_id \<times> currency_id" balance
  | AmmOther ledger_action

definition put_ledger :: "'l amm_state \<Rightarrow> 'l \<Rightarrow> amm_dispatch_error + 'l amm_state" where
  "put_ledger s l = Inr (s\<lparr>am_ledger := l\<rparr>)"

fun amm_exec ::
    "'l amm_state \<Rightarrow> 'l amm_config \<times> amm_action \<Rightarrow> amm_dispatch_error + 'l amm_state" where
  "amm_exec s (C, AmmCall o' c) = amm_dispatch C s o' c"
| "amm_exec s (C, Trade who pair n) = amm_swap C s who pair n"
| "amm_exec s (C, AmmOther x) = bindE (map_err External (ledger_exec (am_assets C) (am_ledger s) x)) (put_ledger s)"

text \<open>Nobody has a key of the pallet's account: it signs nothing and receives no liquidity tokens of a
  new pool.\<close>

fun outsider :: "account_id \<Rightarrow> amm_action \<Rightarrow> bool" where
  "outsider acc (AmmCall o' (CreatePool pair x r lp)) \<longleftrightarrow> r \<noteq> acc"
| "outsider acc (AmmCall o' c) \<longleftrightarrow> o' \<noteq> Signed acc"
| "outsider acc (Trade who pair n) \<longleftrightarrow> who \<noteq> acc"
| "outsider acc (AmmOther x) \<longleftrightarrow> spares acc x"

text \<open>The blocks of one chain share their ledger implementation and the pallet's account.\<close>

definition amm_admitted :: "'l amm_config \<Rightarrow> 'l amm_config \<times> amm_action \<Rightarrow> bool" where
  "amm_admitted C0 = (\<lambda>(C, x). custody_laws C \<and> am_assets C = am_assets C0 \<and>
     am_pallet_account C = am_pallet_account C0 \<and> outsider (am_pallet_account C0) x)"

definition amm_genesis :: "'l \<Rightarrow> 'l amm_state" where
  "amm_genesis l = \<lparr>am_pools = Map.empty, am_protocol_fee = 0, am_protocol_fee_receiver = None,
     am_ledger = l, am_events = []\<rparr>"

section \<open>Every action keeps the pools funded\<close>

lemma amm_add_liquidity_funded:
  assumes "custody_laws C" and "amm_add_liquidity C s o' pair d m = Inr s'" and "o' \<noteq> Signed (am_pallet_account C)"
    and "pools_funded (am_assets C) (am_pallet_account C) s"
  shows "pools_funded (am_assets C) (am_pallet_account C) s'"
proof -
  let ?P = "am_pallet_account C"
  from assms(2) obtain who iv b q p x y f p1 s1 p2 s2 where who: "o' = Signed who"
    and sort: "sort_assets pair = Inr (iv, b, q)" and p: "am_pools s (b, q) = Some p"
    and f: "do_mint_protocol_fee C s p = Inr (f, p1, s1)"
    and add: "do_add_liquidity C s1 who p1 (x, y) (b, q) = Inr (p2, s2)"
    and s': "s' = amm_put_pool b q p2 (amm_deposit_event (LiquidityAdded who b q x y
               (lp_token_id p2) (base_amount p2) (quote_amount p2)) s2)"
    by (auto simp: amm_add_liquidity_def Let_def split: prod.splits)
  have "who \<noteq> ?P" using who assms(3) by simp
  note c = do_add_liquidity_custody [OF assms(1) add this] and g = do_mint_protocol_fee_grow [OF assms(1) f]
  have "q < b" using sort by (rule sort_assetsD)
  show ?thesis
  proof (rule funded_put [OF assms(4)])
    show "am_pools s' = (am_pools s)((b, q) \<mapsto> p2)" using s' c(1) g(1) by simp
    fix a
    show "ft_balance (am_assets C) (am_ledger s) a ?P + pool_part a ((b, q), p2)
       \<le> ft_balance (am_assets C) (am_ledger s') a ?P + (case am_pools s (b, q) of None \<Rightarrow> 0 | Some p0 \<Rightarrow> pool_part a ((b, q), p0))"
      using c(2) [of a] c(3,4) g(2,3) g(4) [of a ?P] s' p \<open>q < b\<close> by (auto simp: pool_part_def)
  qed
qed

lemma amm_remove_liquidity_funded:
  assumes "custody_laws C" and "amm_remove_liquidity C s o' pair l = Inr s'" and "o' \<noteq> Signed (am_pallet_account C)"
    and "pools_funded (am_assets C) (am_pallet_account C) s"
  shows "pools_funded (am_assets C) (am_pallet_account C) s'"
proof -
  let ?P = "am_pallet_account C"
  from assms(2) obtain who iv b q p x y f p1 s1 p2 s2 where who: "o' = Signed who"
    and sort: "sort_assets pair = Inr (iv, b, q)" and p: "am_pools s (b, q) = Some p"
    and f: "do_mint_protocol_fee C s p = Inr (f, p1, s1)"
    and rem: "do_remove_liquidity C s1 who p1 l (b, q) = Inr ((x, y), p2, s2)"
    and s': "s' = amm_put_pool b q p2 (amm_deposit_event (LiquidityRemoved who b q l x y
               (lp_token_id p2) (base_amount p2) (quote_amount p2)) s2)"
    by (auto simp: amm_remove_liquidity_def Let_def split: prod.splits)
  have "who \<noteq> ?P" using who assms(3) by simp
  note c = do_remove_liquidity_custody [OF assms(1) rem this] and g = do_mint_protocol_fee_grow [OF assms(1) f]
  have "q < b" using sort by (rule sort_assetsD)
  show ?thesis
  proof (rule funded_put [OF assms(4)])
    show "am_pools s' = (am_pools s)((b, q) \<mapsto> p2)" using s' c(1) g(1) by simp
    fix a
    show "ft_balance (am_assets C) (am_ledger s) a ?P + pool_part a ((b, q), p2)
       \<le> ft_balance (am_assets C) (am_ledger s') a ?P + (case am_pools s (b, q) of None \<Rightarrow> 0 | Some p0 \<Rightarrow> pool_part a ((b, q), p0))"
      using c(2) [of a] c(3,4) g(2,3) g(4) [of a ?P] s' p \<open>q < b\<close> by (auto simp: pool_part_def)
  qed
qed

lemma create_pool_funded:
  assumes "custody_laws C" and "create_pool C s o' pair x r lp = Inr s'" and "r \<noteq> am_pallet_account C"
    and "pools_funded (am_assets C) (am_pallet_account C) s"
  shows "pools_funded (am_assets C) (am_pallet_account C) s'"
proof -
  let ?P = "am_pallet_account C"
  from assms(2) obtain iv b q u v p s1 where sort: "sort_assets pair = Inr (iv, b, q)"
    and new: "am_pools s (b, q) = None"
    and add: "do_add_liquidity C (amm_deposit_event (PoolCreated r b q lp) s) r (pool_new lp) (u, v) (b, q) = Inr (p, s1)"
    and s': "s' = amm_deposit_event (LiquidityAdded r b q u v (lp_token_id p) (base_amount p) (quote_amount p))
                    (amm_put_pool b q p s1)"
    by (cases x) (auto simp: create_pool_def Let_def split: prod.splits if_splits)
  note c = do_add_liquidity_custody [OF assms(1) add assms(3)]
  have "q < b" using sort by (rule sort_assetsD)
  show ?thesis
  proof (rule funded_put [OF assms(4)])
    show "am_pools s' = (am_pools s)((b, q) \<mapsto> p)" using s' c(1) by simp
    fix a
    show "ft_balance (am_assets C) (am_ledger s) a ?P + pool_part a ((b, q), p)
       \<le> ft_balance (am_assets C) (am_ledger s') a ?P + (case am_pools s (b, q) of None \<Rightarrow> 0 | Some p0 \<Rightarrow> pool_part a ((b, q), p0))"
      using c(2) [of a] c(3,4) s' new \<open>q < b\<close> by (auto simp: pool_part_def pool_new_def)
  qed
qed

lemma amm_dispatch_funded:
  assumes "custody_laws C" and "amm_dispatch C s o' c = Inr s'" and "outsider (am_pallet_account C) (AmmCall o' c)"
    and "pools_funded (am_assets C) (am_pallet_account C) s"
  shows "pools_funded (am_assets C) (am_pallet_account C) s'"
proof (cases c)
  case (AddLiquidity pair d m)
  with assms show ?thesis by (auto intro: amm_add_liquidity_funded)
next
  case (RemoveLiquidity pair l)
  with assms show ?thesis by (auto intro: amm_remove_liquidity_funded)
next
  case (CreatePool pair x r lp)
  with assms show ?thesis by (auto intro: create_pool_funded)
next
  case (UpdateProtocolFee f)
  with assms show ?thesis by (auto simp: update_protocol_fee_def pools_funded_def)
next
  case (UpdateProtocolFeeReceiver r)
  with assms show ?thesis by (auto simp: update_protocol_fee_receiver_def pools_funded_def)
qed

lemma amm_exec_funded:
  assumes "custody_laws C" and "amm_exec s (C, x) = Inr s'" and "outsider (am_pallet_account C) x"
    and "pools_funded (am_assets C) (am_pallet_account C) s"
  shows "pools_funded (am_assets C) (am_pallet_account C) s'"
proof (cases x)
  case (AmmCall o' c)
  with assms show ?thesis by (auto intro: amm_dispatch_funded)
next
  case (Trade who pair n)
  with assms(2) obtain m where "do_swap C s who pair n = Inr (m, s')" by (auto simp: amm_swap_def)
  with Trade assms show ?thesis by (auto intro: do_swap_funded)
next
  case (AmmOther y)
  with assms show ?thesis
    by (auto simp: put_ledger_def custody_laws_def intro!: funded_grow [OF assms(4)] ledger_exec_spares)
qed

interpretation amm: kept_by_calls amm_exec "amm_admitted C0" "pools_funded (am_assets C0) (am_pallet_account C0)"
  for C0 :: "'l amm_config"
proof (unfold_locales, goal_cases)
  case (1 c s s')
  obtain C x where c: "c = (C, x)" by (cases c)
  from 1 have "custody_laws C" "am_assets C = am_assets C0" "am_pallet_account C = am_pallet_account C0"
    "outsider (am_pallet_account C) x" by (auto simp: c amm_admitted_def)
  with 1 amm_exec_funded [of C s x s'] show ?case by (simp add: c)
qed

lemma amm_genesis_funded: "pools_funded F acc (amm_genesis l)"
  by (simp add: pools_funded_def amm_genesis_def pooled_def)

end
