(* ===== verification/Amm_Properties.thy ===== *)
theory Amm_Properties
  imports Amm_Histories
begin

text \<open>
  The properties of the constant-product exchange, with a concrete exchange on which they are
  evaluated: one pool of assets 2 and 1 with a fee of 0.3\% and liquidity token 100; the pallet's account
  is 99 and holds the reserves.
\<close>

definition amm_env :: "nat \<Rightarrow> ref_ledger amm_config" where
  "amm_env t = \<lparr>am_arith = sp_arith_ref, am_assets = fungibles_ref, am_pallet_account = 99, am_lock_account = 98,
     am_create_pool_origin = (\<lambda>x. x = Root), am_protocol_fee_update_origin = (\<lambda>x. x = Root),
     am_lp_fee = 3000, am_minimum_liquidity = 1000, am_native = 0, am_block = t, am_pool_keys = [(2, 1), (3, 2)]\<rparr>"

definition amm_ledger :: "balance \<Rightarrow> balance \<Rightarrow> ref_ledger" where
  "amm_ledger b q = \<lparr>
     lg_balance = (\<lambda>a w. if w = 99 then (if a = 1 then q else if a = 2 then b else 0)
                         else if a = 100 then (if w = 98 then 1000 else if w = 5 then 999000 else 0)
                         else if w \<in> {5, 6} then 10000000 else 0),
     lg_issuance = (\<lambda>a. if a = 100 then 1000000 else 30000000)\<rparr>"

definition amm_pool :: "balance \<Rightarrow> balance \<Rightarrow> pool" where
  "amm_pool b q = (pool_new 100)\<lparr>base_amount := b, quote_amount := q\<rparr>"

definition amm_ex :: "balance \<Rightarrow> balance \<Rightarrow> ref_ledger amm_state" where
  "amm_ex b q = (amm_genesis (amm_ledger b q))\<lparr>am_pools := [(2, 1) \<mapsto> amm_pool b q]\<rparr>"

lemmas amm_eval = Let_def is_ok_def amm_env_def amm_ledger_def amm_pool_def amm_ex_def amm_genesis_def pool_new_def
  pool_is_empty_def sp_arith_ref_def fungibles_ref_def ref_transfer_def ref_mint_def ref_burn_def
  checked_add_def checked_sub_def checked_mul_def checked_div_def to_u128_def mul_div_def
  ensure_signed_def ensure_origin_def amm_deposit_event_def amm_put_pool_def amm_issuance_def amm_transfer_def
  amm_mint_into_def amm_burn_from_def amm_account_id_def lock_account_id_def protolcol_fee_receiver_def
  quote_def sort_assets_def get_ideal_amounts_def protocol_fee_on_def get_protocol_fee_reciprocal_proportion_def
  get_reserves_def get_amount_out_def get_amount_in_def oracle_fraction_def do_update_oracle_def
  remember_reserves_def share_of_def liquidity_for_def do_add_liquidity_def calculate_reserves_to_remove_def
  do_remove_liquidity_def do_mint_protocol_fee_def do_swap_def amm_swap_def amm_add_liquidity_def
  amm_remove_liquidity_def create_pool_def integer_sqrt.simps

lemma amm_env_fields [simp]: "am_assets (amm_env t) = fungibles_ref" "am_pallet_account (amm_env t) = 99"
  by (simp_all add: amm_env_def)

lemma amm_env_laws [simp]: "custody_laws (amm_env t)" "sp_arith_laws (am_arith (amm_env t))"
  "fungibles_laws (am_assets (amm_env t))"
  by (simp_all add: custody_laws_def) (simp_all add: fungibles_ref_def amm_env_def)

section \<open>Custody\<close>

text \<open>C3. Custody: in every reachable state of the exchange, under any interleaving of calls, trades and
  ledger activity of others, the pallet's account holds at least the recorded reserves of all pools of
  every asset.\<close>

theorem amm_custody:
  assumes "history amm_exec (amm_admitted C) (amm_genesis l) s"
  shows "pooled (am_pools s) a \<le> ft_balance (am_assets C) (am_ledger s) a (am_pallet_account C)"
  using amm.history_inv [OF assms amm_genesis_funded] by (simp add: pools_funded_def)

definition amm_script :: "(ref_ledger amm_config \<times> amm_action) list" where
  "amm_script = [(amm_env 1, AmmOther (LedgerMint 1 5 1000000)), (amm_env 1, AmmOther (LedgerMint 2 5 1000000)),
     (amm_env 1, AmmCall Root (CreatePool (1, 2) (40000, 10000) 5 100)),
     (amm_env 2, Trade 5 (1, 2) 5000), (amm_env 3, AmmCall (Signed 5) (RemoveLiquidity (1, 2) 7000))]"

definition empty_ledger :: ref_ledger where
  "empty_ledger = \<lparr>lg_balance = (\<lambda>a w. 0), lg_issuance = (\<lambda>a. 0)\<rparr>"

definition amm_final :: "ref_ledger amm_state" where
  "amm_final = run_calls amm_exec amm_script (amm_genesis empty_ledger)"

theorem amm_custody_witness:
  "map_option base_amount (am_pools amm_final (2, 1)) = Some 5780 \<and>
   pooled (am_pools amm_final) 2 \<le> ft_balance fungibles_ref (am_ledger amm_final) 2 99"
proof
  show "map_option base_amount (am_pools amm_final (2, 1)) = Some 5780"
    by (simp add: amm_final_def run_calls_def amm_script_def empty_ledger_def amm_eval put_ledger_def)
  have "history amm_exec (amm_admitted (amm_env 1)) (amm_genesis empty_ledger) amm_final"
    unfolding amm_final_def by (rule run_calls_history) (simp add: amm_script_def amm_admitted_def)
  from amm_custody [OF this, of 2]
  show "pooled (am_pools amm_final) 2 \<le> ft_balance fungibles_ref (am_ledger amm_final) 2 99" by simp
qed

section \<open>Trading\<close>

text \<open>C22. A trade never lowers the product of a pool's reserves, and it touches no other pool.\<close>

theorem swap_product_grows:
  assumes "do_swap C s who pair n = Inr (m, s')"
  shows "\<exists>k p p'. am_pools s k = Some p \<and> am_pools s' = (am_pools s)(k \<mapsto> p') \<and>
     base_amount p * quote_amount p \<le> base_amount p' * quote_amount p' \<and> lp_token_id p' = lp_token_id p"
  using assms
proof (rule do_swap_inv)
  fix iv b q p p1 s1 s2
  assume p: "am_pools s (b, q) = Some p" and out: "get_amount_out C n (pool_in iv p) (pool_out iv p) = Inr m"
    and o: "do_update_oracle C
       (if iv then p\<lparr>quote_amount := pool_in iv p + n, base_amount := pool_out iv p - m\<rparr>
        else p\<lparr>base_amount := pool_in iv p + n, quote_amount := pool_out iv p - m\<rparr>) = Inr p1"
    and t: "amm_transfer C s (fst pair) who (amm_account_id C) n = Inr s1"
      "amm_transfer C s1 (snd pair) (amm_account_id C) who m = Inr s2"
    and s': "s' = amm_put_pool b q p1 (amm_deposit_event (Traded who (fst pair) (snd pair) n m (lp_token_id p1)
             (quote_amount p1) (base_amount p1)) s2)"
  have "am_pools s' = (am_pools s)((b, q) \<mapsto> p1)" using amm_transfer_pools [OF t(1)] amm_transfer_pools [OF t(2)] s' by simp
  moreover have "base_amount p * quote_amount p \<le> base_amount p1 * quote_amount p1 \<and> lp_token_id p1 = lp_token_id p"
    using get_amount_out_product [OF out] do_update_oracle_frame(1-3) [OF o]
    by (cases iv) (simp_all add: mult.commute)
  ultimately show ?thesis using p by blast
qed

theorem swap_product_grows_witness:
  "\<exists>m s' k p p'. do_swap (amm_env 2) (amm_ex 1000000 500000) 5 (1, 2) 5000 = Inr (m, s') \<and> m = 9871 \<and>
     am_pools (amm_ex 1000000 500000) k = Some p \<and> am_pools s' = (am_pools (amm_ex 1000000 500000))(k \<mapsto> p') \<and>
     base_amount p * quote_amount p \<le> base_amount p' * quote_amount p'"
proof -
  obtain m s' where s': "do_swap (amm_env 2) (amm_ex 1000000 500000) 5 (1, 2) 5000 = Inr (m, s')" "m = 9871"
    by (simp add: amm_eval)
  from swap_product_grows [OF s'(1)] s' show ?thesis by blast
qed

text \<open>Trading back and forth makes no profit: what a trade returns, traded back at once, gives at most
  the amount that was paid.\<close>

theorem trade_back_no_profit:
  assumes "do_swap C s who (a, b) n = Inr (m, s')" and "do_swap C s' who (b, a) m = Inr (r, s'')"
  shows "r \<le> n"
  using assms(1)
proof (rule do_swap_inv)
  fix iv x y p p1 s1 s2
  assume sort: "sort_assets (a, b) = Inr (iv, x, y)" and p: "am_pools s (x, y) = Some p" and pos: "pool_out iv p \<noteq> 0"
    and out: "get_amount_out C n (pool_in iv p) (pool_out iv p) = Inr m" "m \<le> pool_out iv p"
    and o: "do_update_oracle C
       (if iv then p\<lparr>quote_amount := pool_in iv p + n, base_amount := pool_out iv p - m\<rparr>
        else p\<lparr>base_amount := pool_in iv p + n, quote_amount := pool_out iv p - m\<rparr>) = Inr p1"
    and s': "s' = amm_put_pool x y p1 (amm_deposit_event (Traded who (fst (a, b)) (snd (a, b)) n m (lp_token_id p1)
             (quote_amount p1) (base_amount p1)) s2)"
  have flip: "sort_assets (b, a) = Inr (\<not> iv, x, y)" using sort by (auto simp: sort_assets_def split: if_splits)
  from assms(2) have "get_amount_out C m (pool_in (\<not> iv) p1) (pool_out (\<not> iv) p1) = Inr r"
    by (rule do_swap_inv) (use flip s' in \<open>cases iv; simp\<close>)
  then have "get_amount_out C m (pool_out iv p - m) (pool_in iv p + n) = Inr r"
    using do_update_oracle_frame(1,2) [OF o] by (cases iv) simp_all
  from get_amount_out_product [OF this] get_amount_out_le [OF this] out(2)
  have "(pool_out iv p - m) * (pool_in iv p + n) \<le> pool_out iv p * (pool_in iv p + n - r)" "r \<le> pool_in iv p + n"
    by simp_all
  moreover have "pool_in iv p * pool_out iv p \<le> (pool_in iv p + n) * (pool_out iv p - m)"
    by (rule get_amount_out_product [OF out(1)])
  ultimately have "pool_out iv p * pool_in iv p \<le> pool_out iv p * (pool_in iv p + n - r)"
    by (simp only: mult.commute)
  then have "pool_in iv p \<le> pool_in iv p + n - r" using pos by (simp only: nat_mult_le_cancel_disj)
  with \<open>r \<le> pool_in iv p + n\<close> show ?thesis by linarith
qed

theorem trade_back_no_profit_witness:
  "\<exists>s' s''. do_swap (amm_env 2) (amm_ex 1000000 500000) 5 (1, 2) 5000 = Inr (9871, s') \<and>
     do_swap (amm_env 2) s' 5 (2, 1) 9871 = Inr (4969, s'') \<and> (4969 :: nat) \<le> 5000"
proof -
  obtain s' s'' where s: "do_swap (amm_env 2) (amm_ex 1000000 500000) 5 (1, 2) 5000 = Inr (9871, s')"
    "do_swap (amm_env 2) s' 5 (2, 1) 9871 = Inr (4969, s'')"
    by (simp add: amm_eval)
  with trade_back_no_profit [OF s] show ?thesis by blast
qed

text \<open>The amount that \<open>get_amount_in\<close> asks for buys the requested output up to one unit and the
  price of one unit: the shortfall of the trade is at most \<open>1 + reserve_out div reserve_in\<close>.\<close>

theorem exact_output_shortfall_bounded:
  assumes "get_amount_in C out x y = Inr n" and "get_amount_out C n x y = Inr m"
    and laws: "sp_arith_laws (am_arith C)" and fee: "am_lp_fee C < PM" and "0 < x"
  shows "out \<le> m + 1 + y div x"
  using assms(2)
proof (rule get_amount_outE)
  fix net
  assume net: "net = n - pm_mul_ceil (am_arith C) (am_lp_fee C) n" and pos: "x + net \<noteq> 0"
    and m: "m = net * y div (x + net)"
  have lt: "out < y" using assms(1) laws fee by (rule get_amount_inE)
  have "net = (PM - am_lp_fee C) * n div PM" using net_of_fee [of "am_lp_fee C" n] fee net by (simp add: pm_simps(1) [OF laws])
  then have "x * out div (y - out) \<le> net" using amount_in_net [OF assms(1) laws fee] by simp
  then have "x * out < Suc net * (y - out)"
    using less_div_Suc_mult [of "y - out" "x * out"] lt by (meson Suc_le_mono le_less_trans linorder_not_le mult_le_mono1 zero_less_diff)
  then have "out * (x + net) < net * (y - out) + (y - out) + out * net" by (simp add: algebra_simps)
  also have "\<dots> = net * y + (y - out)"
  proof -
    obtain d where "y = out + d" using less_imp_add_positive [OF lt] by blast
    then show ?thesis by (simp add: algebra_simps)
  qed
  also have "net * y < Suc m * (x + net)" unfolding m using pos by (intro less_div_Suc_mult) simp
  finally have "out * (x + net) < Suc m * (x + net) + (y - out)" by simp
  then have "(out - Suc m) * (x + net) \<le> y" by (simp add: diff_mult_distrib)
  then have "(out - Suc m) * x \<le> y" by (meson le_add1 le_trans mult_le_mono2)
  then have "out - Suc m \<le> y div x" using assms(5) by (simp add: less_eq_div_iff_mult_less_eq)
  then show ?thesis by linarith
qed

theorem exact_output_shortfall_bounded_witness:
  "\<exists>n m. get_amount_in (amm_env 1) 1000 1000000 1000000 = Inr n \<and> get_amount_out (amm_env 1) n 1000000 1000000 = Inr m \<and>
     (1000 :: nat) \<le> m + 1 + 1000000 div 1000000"
proof -
  obtain n m where nm: "get_amount_in (amm_env 1) 1000 1000000 1000000 = Inr n" "get_amount_out (amm_env 1) n 1000000 1000000 = Inr m"
    by (simp add: amm_eval)
  have "am_lp_fee (amm_env 1) < PM" by (simp add: amm_env_def)
  with exact_output_shortfall_bounded [OF nm amm_env_laws(2)] nm show ?thesis by fastforce
qed

section \<open>Liquidity\<close>

text \<open>Adding liquidity and removing it makes no profit: taking out at most the liquidity tokens that an
  addition created returns at most what was put in, of both assets.\<close>

theorem add_remove_no_profit:
  assumes add: "do_add_liquidity C s who p (x, y) (a, b) = Inr (p', s')"
    and rem: "do_remove_liquidity C s' who p' l (a, b) = Inr ((x', y'), p'', s'')"
    and laws: "fungibles_laws (am_assets C)" and lp: "lp_token_id p \<notin> {a, b}"
    and old: "amm_issuance C s (lp_token_id p) \<noteq> 0"
    and l: "l \<le> amm_issuance C s' (lp_token_id p) - amm_issuance C s (lp_token_id p)"
  shows "x' \<le> x \<and> y' \<le> y"
  using add
proof (rule do_add_liquidity_inv)
  fix k s1 s2 s3
  let ?T = "amm_issuance C s (lp_token_id p)"
  assume liq: "liquidity_for C s p x y = Inr (k, s1)" and m: "amm_mint_into C s1 (lp_token_id p) who k = Inr s2"
    and t: "amm_transfer C s2 a who (amm_account_id C) x = Inr s3" "amm_transfer C s3 b who (amm_account_id C) y = Inr s'"
    and p': "p' = remember_reserves s' (p\<lparr>base_amount := base_amount p + x, quote_amount := quote_amount p + y\<rparr>)"
  have k: "s1 = s" "k \<le> x * ?T div base_amount p" "k \<le> y * ?T div quote_amount p"
    using liq by (rule liquidity_forE; use old in simp)+
  have "amm_issuance C s' (lp_token_id p) = amm_issuance C s2 (lp_token_id p)"
    using t lp by (auto elim!: amm_transferE simp: amm_issuance_def fungibles_lawsD(5) [OF laws])
  also have "\<dots> = ?T + k"
    using m k(1) by (auto elim!: amm_mint_intoE simp: amm_issuance_def fungibles_laws_mintD(2) [OF laws])
  finally have T': "amm_issuance C s' (lp_token_id p) = ?T + k" .
  with l have "l \<le> k" by simp
  have pays: "l * (r + z) div (?T + k) \<le> z" if "k \<le> z * ?T div r" for r z
  proof -
    have "k * r \<le> z * ?T" using that by (meson div_mult_le_nat le_trans mult_le_mono1)
    then have "k * (r + z) \<le> z * (?T + k)" by (simp add: algebra_simps)
    with \<open>l \<le> k\<close> have "l * (r + z) \<le> z * (?T + k)" by (meson le_trans mult_le_mono1)
    then have "l * (r + z) div (?T + k) \<le> z * (?T + k) div (?T + k)" by (rule div_le_mono)
    then show ?thesis using old by simp
  qed
  from rem have "calculate_reserves_to_remove C s' p' l = Inr (x', y')" by (rule do_remove_liquidity_inv)
  then show ?thesis
    using pays [OF k(2)] pays [OF k(3)] T' p' by (auto elim!: calculate_reserves_to_removeE)
qed

theorem add_remove_no_profit_witness:
  "\<exists>p' s' p'' s'' x' y'.
     do_add_liquidity (amm_env 1) (amm_ex 1000000 500000) 6 (amm_pool 1000000 500000) (1001, 501) (2, 1) = Inr (p', s') \<and>
     do_remove_liquidity (amm_env 1) s' 6 p' 1001 (2, 1) = Inr ((x', y'), p'', s'') \<and> x' \<le> 1001 \<and> y' \<le> 501"
proof -
  let ?s = "amm_ex 1000000 500000"
  obtain p' s' p'' s'' x' y' where
    s: "do_add_liquidity (amm_env 1) ?s 6 (amm_pool 1000000 500000) (1001, 501) (2, 1) = Inr (p', s')"
      "do_remove_liquidity (amm_env 1) s' 6 p' 1001 (2, 1) = Inr ((x', y'), p'', s'')"
    and T: "amm_issuance (amm_env 1) s' 100 = 1001001"
    by (simp add: amm_eval)
  have "x' \<le> 1001 \<and> y' \<le> 501"
    by (rule add_remove_no_profit [OF s amm_env_laws(3)])
      (use T in \<open>simp_all add: amm_pool_def pool_new_def amm_issuance_def amm_ex_def amm_genesis_def amm_ledger_def fungibles_ref_def\<close>)
  with s show ?thesis by blast
qed

text \<open>Removing liquidity pays a fair share: the remaining reserves per remaining liquidity token are
  not smaller than before, for both assets.\<close>

theorem removal_keeps_share_value:
  assumes rem: "do_remove_liquidity C s who p l (a, b) = Inr ((x, y), p', s')"
    and "l \<le> amm_issuance C s (lp_token_id p)"
  shows "base_amount p * (amm_issuance C s (lp_token_id p) - l) \<le> base_amount p' * amm_issuance C s (lp_token_id p) \<and>
    quote_amount p * (amm_issuance C s (lp_token_id p) - l) \<le> quote_amount p' * amm_issuance C s (lp_token_id p)"
  using rem
proof (rule do_remove_liquidity_inv)
  let ?T = "amm_issuance C s (lp_token_id p)"
  assume c: "calculate_reserves_to_remove C s p l = Inr (x, y)"
    and p': "p' = remember_reserves s' (p\<lparr>base_amount := base_amount p - x, quote_amount := quote_amount p - y\<rparr>)"
  have xy: "x = l * base_amount p div ?T" "y = l * quote_amount p div ?T"
    using c by (rule calculate_reserves_to_removeE; simp)+
  have "r * (?T - l) \<le> (r - l * r div ?T) * ?T" for r
  proof -
    have "l * r div ?T * ?T \<le> l * r" by (rule div_mult_le_nat)
    then have "r * ?T - r * l \<le> r * ?T - l * r div ?T * ?T" by (simp add: mult.commute diff_le_mono2)
    then show ?thesis by (simp add: diff_mult_distrib diff_mult_distrib2)
  qed
  then show ?thesis by (simp add: p' xy)
qed

theorem removal_keeps_share_value_witness:
  "\<exists>p' s' x y. do_remove_liquidity (amm_env 1) (amm_ex 1000000 500000) 5 (amm_pool 1000000 500000) 333333 (2, 1)
       = Inr ((x, y), p', s') \<and> 1000000 * (1000000 - 333333) \<le> base_amount p' * 1000000"
proof -
  obtain p' s' x y where s: "do_remove_liquidity (amm_env 1) (amm_ex 1000000 500000) 5 (amm_pool 1000000 500000) 333333 (2, 1)
      = Inr ((x, y), p', s')"
    by (simp add: amm_eval)
  have T: "amm_issuance (amm_env 1) (amm_ex 1000000 500000) 100 = 1000000"
    by (simp add: amm_issuance_def amm_ex_def amm_genesis_def amm_ledger_def fungibles_ref_def)
  from removal_keeps_share_value [OF s] T have "1000000 * (1000000 - 333333) \<le> base_amount p' * 1000000"
    by (simp add: amm_pool_def pool_new_def)
  with s show ?thesis by blast
qed

section \<open>The protocol fee\<close>

text \<open>When the protocol fee is switched on for a pool that has no remembered reserves, the next
  change of liquidity mints a fixed fraction of the whole supply of liquidity tokens to the protocol,
  whatever the pool has earned.  The note in \<open>do_mint_protocol_fee\<close> says that the remembered product is
  known not to be zero at this point.\<close>

theorem first_protocol_fee_ignores_growth:
  assumes "do_mint_protocol_fee C s p = Inr (f, p', s')" and "protocol_fee_on s"
    and "base_amount_last p = 0" and "quote_amount_last p = 0" and "base_amount p \<noteq> 0" and "quote_amount p \<noteq> 0"
  shows "f = amm_issuance C s (lp_token_id p) div (get_protocol_fee_reciprocal_proportion C s - 1)"
proof -
  have pos: "0 < integer_sqrt (base_amount p * quote_amount p)" using assms(5,6) by (intro integer_sqrt_pos) simp
  have "integer_sqrt 0 = 0" by (simp add: integer_sqrt.simps [of 0])
  with assms pos show ?thesis
    by (auto simp: do_mint_protocol_fee_def Let_def div_mult2_eq split: if_splits)
qed

theorem first_protocol_fee_ignores_growth_witness:
  "\<exists>p' s'. do_mint_protocol_fee (amm_env 1) ((amm_ex 1000000 500000)\<lparr>am_protocol_fee := 200000, am_protocol_fee_receiver := Some 7\<rparr>)
       (amm_pool 1000000 500000) = Inr (250000, p', s')"
proof -
  let ?s = "(amm_ex 1000000 500000)\<lparr>am_protocol_fee := 200000, am_protocol_fee_receiver := Some 7\<rparr>"
  obtain f p' s' where s: "do_mint_protocol_fee (amm_env 1) ?s (amm_pool 1000000 500000) = Inr (f, p', s')"
    by (simp add: amm_eval)
  have "f = amm_issuance (amm_env 1) ?s (lp_token_id (amm_pool 1000000 500000)) div
      (get_protocol_fee_reciprocal_proportion (amm_env 1) ?s - 1)"
    by (rule first_protocol_fee_ignores_growth [OF s]) (simp_all add: amm_eval)
  also have "\<dots> = 250000" by (simp add: amm_eval)
  finally show ?thesis using s by blast
qed

end
