(* ===== verification/Router_Properties.thy ===== *)
theory Router_Properties
  imports Router_Routes Amm_Properties
begin

text \<open>
  The router over the constant-product exchange, as the runtimes configure it: the exchange satisfies
  the contract \<open>amm_exchange\<close>, so the lemmas of the router hold for it.
\<close>

definition amm_provider :: "'l amm_config \<Rightarrow> (amm_dispatch_error, 'l amm_state) amm_interface" where
  "amm_provider C = \<lparr>if_get_amounts_out = get_amounts_out C, if_get_amounts_in = get_amounts_in C,
     if_swap = amm_swap C, if_get_pools = (\<lambda>s. Inr (get_pools C s))\<rparr>"

definition router_over :: "'l amm_config \<Rightarrow> nat \<Rightarrow> (amm_dispatch_error, 'l amm_state) router_config" where
  "router_over C max_length = \<lparr>rt_amm = amm_provider C,
     rt_reducible_balance = (\<lambda>s a w k. ft_reducible_balance (am_assets C) (am_ledger s) a w k),
     rt_max_length_route = max_length, rt_native = am_native C\<rparr>"

definition amm_hop ::
    "'l amm_config \<Rightarrow> 'l amm_state \<Rightarrow> balance \<Rightarrow> currency_id \<Rightarrow> currency_id \<Rightarrow> amm_dispatch_error + balance" where
  "amm_hop C s n a b = bindE (get_reserves s a b) (\<lambda>(x, y). get_amount_out C n x y)"

section \<open>The exchange satisfies the contract\<close>

lemma get_reserves_sorted:
  assumes "sort_assets (a, b) = Inr (iv, x, y)" and "am_pools s (x, y) = Some p"
  shows "get_reserves s a b = Inr (pool_in iv p, pool_out iv p)"
  using assms by (simp add: get_reserves_def)

lemma get_reserves_other:
  assumes "sort_assets (a, b) = Inr (iv, x, y)" and "{d, e} \<noteq> {a, b}" and "am_pools s' = (am_pools s)((x, y) \<mapsto> p)"
  shows "get_reserves s' d e = get_reserves s d e"
proof (cases "sort_assets (d, e)")
  case (Inl err)
  then show ?thesis by (simp add: get_reserves_def)
next
  case (Inr t)
  obtain i u v where t: "t = (i, u, v)" by (cases t)
  have "{d, e} = {u, v}" "{a, b} = {x, y}"
    using sort_assetsD(2,3) [OF Inr [unfolded t]] sort_assetsD(2,3) [OF assms(1)] by (auto split: if_splits)
  with assms(2) have "(u, v) \<noteq> (x, y)" by auto
  then have "am_pools s' (u, v) = am_pools s (u, v)" using assms(3) by auto
  with Inr show ?thesis by (simp add: get_reserves_def t)
qed

lemma do_swap_hop:
  assumes "do_swap C s w (a, b) n = Inr (m, s')"
  shows "amm_hop C s n a b = Inr m"
  using assms by (rule do_swap_inv) (simp add: amm_hop_def get_reserves_sorted)

lemma do_swap_holdings:
  assumes "do_swap C s w (a, b) n = Inr (m, s')" and F: "fungibles_laws (am_assets C)" "credit_law (am_assets C)"
    and "w \<noteq> am_pallet_account C" and "d \<noteq> a"
  shows "ft_balance (am_assets C) (am_ledger s) d w + (if d = b then m else 0) \<le> ft_balance (am_assets C) (am_ledger s') d w"
  using assms(1)
proof (rule do_swap_inv)
  fix iv x y p p1 s1 s2
  assume t: "amm_transfer C s (fst (a, b)) w (amm_account_id C) n = Inr s1"
    "amm_transfer C s1 (snd (a, b)) (amm_account_id C) w m = Inr s2"
    and s': "s' = amm_put_pool x y p1 (amm_deposit_event (Traded w (fst (a, b)) (snd (a, b)) n m (lp_token_id p1)
             (quote_amount p1) (base_amount p1)) s2)"
  have 1: "ft_balance (am_assets C) (am_ledger s1) d w = ft_balance (am_assets C) (am_ledger s) d w"
    using t(1) assms(5) by (auto elim!: amm_transferE simp: fungibles_lawsD(4) [OF F(1)])
  have "ft_balance (am_assets C) (am_ledger s1) d w + (if d = b then m else 0) \<le> ft_balance (am_assets C) (am_ledger s2) d w"
    using t(2)
  proof (rule amm_transferE)
    fix l
    assume l: "s2 = s1\<lparr>am_ledger := l\<rparr>"
      and tr: "ft_transfer (am_assets C) (am_ledger s1) (snd (a, b)) (amm_account_id C) w m (snd (a, b) = am_native C) = Inr l"
    show ?thesis
      using credit_lawD(1) [OF F(2) tr, of w] fungibles_lawsD(4) [OF F(1) tr, of d w] assms(4) l
      by (cases "d = b") (simp_all add: amm_account_id_def)
  qed
  with 1 s' show ?thesis by simp
qed

interpretation ax: amm_exchange "amm_provider C" "amm_hop C" "\<lambda>s a w. ft_balance (am_assets C) (am_ledger s) a w"
    "\<lambda>w. fungibles_laws (am_assets C) \<and> credit_law (am_assets C) \<and> w \<noteq> am_pallet_account C"
  for C :: "'l amm_config"
proof (unfold_locales, goal_cases)
  case (1 c n a)
  show ?case by (simp add: amm_provider_def)
next
  case (2 c n a b route)
  show ?case by (cases "get_reserves c a b") (auto simp: amm_provider_def amm_hop_def)
next
  case (3 w c a b n c' m)
  then obtain k where k: "do_swap C c w (a, b) n = Inr (k, c')" by (auto simp: amm_provider_def amm_swap_def)
  then have "a \<noteq> b" by (auto elim!: do_swap_inv simp: sort_assets_def)
  then show ?case using 3 do_swap_hop [OF k] do_swap_holdings [OF k, of b] by simp
next
  case (4 c w a b n c' d e k)
  then obtain m where m: "do_swap C c w (a, b) n = Inr (m, c')" by (auto simp: amm_provider_def amm_swap_def)
  then have "get_reserves c' d e = get_reserves c d e"
  proof (rule do_swap_inv)
    fix iv x y p p1 s1 s2
    assume sort: "sort_assets (a, b) = Inr (iv, x, y)"
      and t: "amm_transfer C c (fst (a, b)) w (amm_account_id C) n = Inr s1"
        "amm_transfer C s1 (snd (a, b)) (amm_account_id C) w m = Inr s2"
      and c': "c' = amm_put_pool x y p1 (amm_deposit_event (Traded w (fst (a, b)) (snd (a, b)) n m (lp_token_id p1)
             (quote_amount p1) (base_amount p1)) s2)"
    have "am_pools c' = (am_pools c)((x, y) \<mapsto> p1)"
      using amm_transfer_pools [OF t(1)] amm_transfer_pools [OF t(2)] c' by simp
    with sort 4(2) show ?thesis by (rule get_reserves_other)
  qed
  then show ?case by (simp add: amm_hop_def)
next
  case (5 w c a b n c' d)
  then obtain m where m: "do_swap C c w (a, b) n = Inr (m, c')" by (auto simp: amm_provider_def amm_swap_def)
  then show ?case using 5 do_swap_holdings [OF m, of d] by (simp split: if_splits)
qed

lemma has_duplicate_iff [simp]: "has_duplicate xs \<longleftrightarrow> \<not> distinct xs"
  by (induction xs) auto

section \<open>Properties\<close>

text \<open>C16. A trader who sells an exact amount along a route receives at least the minimum that they asked
  for: every hop of the route pays what was quoted for it.\<close>

theorem router_delivers_minimum:
  assumes "swap_exact_tokens_for_tokens (router_over C k) s (Signed w) route n least = Inr s'"
    and "2 \<le> length route" and "w \<noteq> am_pallet_account C"
    and laws: "fungibles_laws (am_assets C)" "credit_law (am_assets C)"
  shows "ft_balance (am_assets C) (am_ledger (rt_chain s)) (last route) w + least
    \<le> ft_balance (am_assets C) (am_ledger (rt_chain s')) (last route) w"
proof -
  from assms(1) obtain ms c where d: "distinct route"
    and ms: "if_get_amounts_out (rt_amm (router_over C k)) (rt_chain s) n route = Inr ms" "least \<le> last ms"
    and c: "swap_along (router_over C k) (rt_chain s) w route ms = Inr c" "rt_chain s' = c"
    by (auto simp: swap_exact_tokens_for_tokens_def route_checks_def from_amm_def)
  have "rt_amm (router_over C k) = amm_provider C" by (simp add: router_over_def)
  from ax.swap_along_delivers [OF c(1) this _ d assms(2) ms(1) [unfolded this]] assms(3) laws ms(2) c(2)
  show ?thesis by simp
qed

definition router_ex :: "ref_ledger amm_state" where
  "router_ex = (amm_ex 1000000 1000000)\<lparr>
     am_pools := [(2, 1) \<mapsto> amm_pool 1000000 1000000, (3, 2) \<mapsto> (amm_pool 400000 1000000)\<lparr>lp_token_id := 101\<rparr>],
     am_ledger := (amm_ledger 2000000 1000000)\<lparr>lg_balance := (\<lambda>a w. if a = 3 \<and> w = 99 then 400000
       else lg_balance (amm_ledger 2000000 1000000) a w)\<rparr>\<rparr>"

lemmas router_eval = swap_exact_tokens_for_tokens_def swap_tokens_for_exact_tokens_def route_checks_def from_amm_def
  router_over_def amm_provider_def router_ex_def amm_eval

theorem router_delivers_minimum_witness:
  "\<exists>s'. swap_exact_tokens_for_tokens (router_over (amm_env 2) 3) \<lparr>rt_chain = router_ex, rt_events = []\<rparr> (Signed 5) [1, 2, 3] 5000 1900
       = Inr s' \<and> 10000000 + 1900 \<le> ft_balance fungibles_ref (am_ledger (rt_chain s')) 3 5"
proof -
  let ?s = "\<lparr>rt_chain = router_ex, rt_events = []\<rparr>"
  obtain s' where s': "swap_exact_tokens_for_tokens (router_over (amm_env 2) 3) ?s (Signed 5) [1, 2, 3] 5000 1900 = Inr s'"
    by (simp add: router_eval)
  have "ft_balance fungibles_ref (am_ledger router_ex) 3 5 = 10000000"
    by (simp add: router_ex_def amm_ledger_def fungibles_ref_def)
  with router_delivers_minimum [OF s'] s' show ?thesis by simp
qed

text \<open>A trade for an exact output can deliver less: the call for 997 units succeeds and the trader
  receives 996.\<close>

theorem router_exact_output_short:
  "\<exists>s'. swap_tokens_for_exact_tokens (router_over (amm_env 2) 3) \<lparr>rt_chain = router_ex, rt_events = []\<rparr> (Signed 5) [1, 2] 997 2000
       = Inr s' \<and> ft_balance fungibles_ref (am_ledger (rt_chain s')) 2 5 = ft_balance fungibles_ref (am_ledger router_ex) 2 5 + 996"
  by (simp add: router_eval)

text \<open>C18. The route search ends without a panic and finds exactly the routes between two traded assets
  that visit no asset twice.\<close>

theorem search_finds_simple_routes:
  assumes "(a, x) \<in> set pools \<or> (x, a) \<in> set pools"
  shows "\<exists>routes. explore (build_graph pools) [(a, b, [])] [] = Inr routes \<and> set routes = {r. simple_route pools a b r}"
proof (rule explore_routes)
  show "map_of (build_graph pools) a \<noteq> None" unfolding build_graph_dom adjacent_build using assms by blast
qed

theorem search_finds_simple_routes_witness:
  "\<exists>routes. (explore (build_graph [(2, 1), (3, 2), (3, 1)]) [(1, 3, [])] [] :: unit router_dispatch_error + currency_id list list)
       = Inr routes \<and> routes = [[1, 3], [1, 2, 3]] \<and> set routes = {r. simple_route [(2, 1), (3, 2), (3, 1)] 1 3 r}"
proof -
  let ?e = "explore (build_graph [(2, 1), (3, 2), (3, 1)]) [(1, 3, [])] [] :: unit router_dispatch_error + currency_id list list"
  have e: "?e = Inr [[1, 3], [1, 2, 3]]" by (simp add: build_graph_def explore.simps swap_remove_rest_def)
  have "\<exists>routes. ?e = Inr routes \<and> set routes = {r. simple_route [(2, 1), (3, 2), (3, 1)] 1 3 r}"
    by (rule search_finds_simple_routes [of 1 2]) simp
  with e show ?thesis by auto
qed

text \<open>C23. The best route is optimal: no simple route that can be quoted gives more for the amount sold
  or, in the reversed search, asks less for the amount bought.\<close>

theorem best_route_optimal:
  assumes "get_best_route C c amount a b reversed = Inr (r, x)" and "if_get_pools (rt_amm C) c = Inr pools"
  shows "simple_route pools a b r \<and> quoted C c amount reversed r x \<and>
    (\<forall>r' x'. simple_route pools a b r' \<and> quoted C c amount reversed r' x' \<longrightarrow> (if reversed then x \<le> x' else x' \<le> x))"
proof -
  from assms(1) obtain rs where rs: "get_all_routes C c amount a b reversed = Inr rs" "rs \<noteq> []"
    "(r, x) = (if reversed then last rs else hd rs)"
    by (auto simp: get_best_route_def)
  from rs(1) show ?thesis
  proof (rule get_all_routesE)
    fix pools' out
    assume p: "if_get_pools (rt_amm C) c = Inr pools'"
      and out: "set out = {(r, x). simple_route pools' a b r \<and> quoted C c amount reversed r x}"
      and sort: "rs = sort_key (\<lambda>k. - int (snd k)) out"
    have eq: "pools' = pools" using p assms(2) by simp
    have "set rs = set out" using sort by simp
    moreover have "(r, x) \<in> set rs" using rs(2,3) by (auto split: if_splits)
    ultimately have "(r, x) \<in> set out" by simp
    moreover have "if reversed then x \<le> x' else x' \<le> x" if "(r', x') \<in> set out" for r' x'
    proof -
      have "x = snd (if reversed then last rs else hd rs)" using rs(3) by (metis snd_conv)
      moreover have "out \<noteq> []" using that by auto
      ultimately show ?thesis using sorted_desc_hd [of out "(r', x')" snd] that sort by simp
    qed
    ultimately show ?thesis using out eq by blast
  qed
qed

theorem best_route_optimal_witness:
  "\<exists>r x. get_best_route (router_over (amm_env 2) 3) router_ex 5000 1 3 False = Inr (r, x) \<and> r = [1, 2, 3] \<and>
     (\<forall>r' x'. simple_route [(2, 1), (3, 2)] 1 3 r' \<and> quoted (router_over (amm_env 2) 3) router_ex 5000 False r' x' \<longrightarrow> x' \<le> x)"
proof -
  obtain x where x: "get_best_route (router_over (amm_env 2) 3) router_ex 5000 1 3 False = Inr ([1, 2, 3], x)"
    by (simp add: get_best_route_def get_all_routes_def get_output_routes_def get_pools_def build_graph_def explore.simps
        swap_remove_rest_def storage_iter_def router_eval)
  have "if_get_pools (rt_amm (router_over (amm_env 2) 3)) router_ex = Inr [(2, 1), (3, 2)]"
    by (simp add: router_over_def amm_provider_def get_pools_def storage_iter_def router_ex_def amm_env_def amm_ex_def)
  from best_route_optimal [OF x this] x show ?thesis by auto
qed

end
