(* ===== verification/Prices.thy ===== *)
theory Prices
  imports Pallet_Traits Primitives Fungibles
begin

text \<open>
  The price feed (src/pallets/prices/src/lib.rs): emergency prices, the oracle, and the derived prices
  of staking tokens, vault tokens and their liquidity tokens.

  The oracle, the decimals, the providers of exchange rates, the exchange and the assets are
  configuration items of the pallet and are fields of \<open>prices_config\<close>.  A price query has three ways to
  not give a price: it answers \<open>None\<close>; it panics (\<open>saturating_from_rational\<close> with a zero
  denominator), \<open>Panicked\<close> here; or it does not return.  The last one is real: a foreign asset is priced
  as the asset it is mapped to, and nothing stops the mapping from having a cycle.  The recursion is
  therefore a \<open>partial_function\<close> in the option monad, where \<open>None\<close> stands for not returning.
\<close>

record timestamped_price =
  tp_value :: rate
  tp_timestamp :: timestamp

datatype 'a outcome = Returned 'a | Panicked

datatype prices_event = SetPrice currency_id rate | ResetPrice currency_id

record prices_state =
  emergency_price :: "currency_id \<rightharpoonup> rate"
  foreign_to_native_asset :: "currency_id \<rightharpoonup> currency_id"
  pr_events :: "prices_event list"

record prices_config =
  pr_arith :: sp_arith
  pr_source_get :: "currency_id \<Rightarrow> timestamped_price option"
  pr_source_get_no_op :: "currency_id \<Rightarrow> timestamped_price option"
  pr_source_all :: "(currency_id \<times> timestamped_price option) list"
  pr_feeder_origin :: "origin \<Rightarrow> bool"
  pr_update_origin :: "origin \<Rightarrow> bool"
  pr_liquid_currency :: "currency_id option"
  pr_staking_exchange_rate :: "currency_id \<Rightarrow> rate option"
  pr_is_vault_currency :: "currency_id \<Rightarrow> bool"
  pr_vault_exchange_rate :: "currency_id \<Rightarrow> rate \<Rightarrow> rate option"
  pr_full_interest_rate :: "currency_id \<Rightarrow> rate option"
  pr_pool_by_lp_asset :: "currency_id \<Rightarrow> (currency_id \<times> currency_id \<times> pool) option"
  pr_total_issuance :: "currency_id \<Rightarrow> balance"
  pr_relay_currency :: currency_id
  pr_decimal :: "currency_id \<Rightarrow> nat option"

section \<open>Options that may panic\<close>

definition and_then :: "'a option outcome \<Rightarrow> ('a \<Rightarrow> 'b option outcome) \<Rightarrow> 'b option outcome" where
  "and_then m f = (case m of
     Panicked \<Rightarrow> Panicked | Returned None \<Rightarrow> Returned None | Returned (Some x) \<Rightarrow> f x)"

lemma and_then_simps [simp]:
  "and_then Panicked f = Panicked"
  "and_then (Returned None) f = Returned None"
  "and_then (Returned (Some x)) f = f x"
  by (simp_all add: and_then_def)

section \<open>Helpers\<close>

definition get_asset_mantissa :: "prices_config \<Rightarrow> currency_id \<Rightarrow> nat option" where
  "get_asset_mantissa C a = Option.bind (pr_decimal C a) (\<lambda>d. to_u128 (10 ^ d))"

definition get_emergency_price ::
    "prices_config \<Rightarrow> prices_state \<Rightarrow> currency_id \<Rightarrow> (rate \<times> timestamp) option" where
  "get_emergency_price C s a =
     Option.bind (emergency_price s a) (\<lambda>p.
     Option.bind (get_asset_mantissa C a) (\<lambda>mantissa.
     map_option (\<lambda>price. (price, 0)) (fx_checked_div (pr_arith C) p mantissa)))"

definition normalize_detail_price ::
    "prices_config \<Rightarrow> timestamped_price \<Rightarrow> nat \<Rightarrow> (rate \<times> timestamp) option" where
  "normalize_detail_price C price mantissa =
     map_option (\<lambda>value. (value, tp_timestamp price)) (fx_checked_div (pr_arith C) (tp_value price) mantissa)"

definition scale_timestamped_price ::
    "prices_config \<Rightarrow> timestamped_price \<Rightarrow> rate \<Rightarrow> timestamped_price option" where
  "scale_timestamped_price C base_price r =
     map_option (\<lambda>price. \<lparr>tp_value = price, tp_timestamp = tp_timestamp base_price\<rparr>)
       (fx_checked_mul (pr_arith C) (tp_value base_price) r)"

definition get_staking_asset_price ::
    "prices_config \<Rightarrow> currency_id \<Rightarrow> timestamped_price \<Rightarrow> timestamped_price option" where
  "get_staking_asset_price C a base_price =
     Option.bind (case pr_liquid_currency C of Some l \<Rightarrow> if l = a then Some l else None | None \<Rightarrow> None) (\<lambda>liquid.
     Option.bind (pr_staking_exchange_rate C liquid) (\<lambda>r. scale_timestamped_price C base_price r))"

definition get_vault_asset_price ::
    "prices_config \<Rightarrow> currency_id \<Rightarrow> timestamped_price \<Rightarrow> timestamped_price option" where
  "get_vault_asset_price C a base_price =
     Option.bind (case pr_full_interest_rate C a of
        Some r \<Rightarrow> if pr_is_vault_currency C a then Some r else None | None \<Rightarrow> None) (\<lambda>implied_yield_rate.
     Option.bind (pr_vault_exchange_rate C a implied_yield_rate) (\<lambda>r. scale_timestamped_price C base_price r))"

abbreviation u256_max :: nat where
  "u256_max \<equiv> 115792089237316195423570985008687907853269984665640564039457584007913129639935"

definition get_lp_vault_asset_price ::
    "prices_config \<Rightarrow> currency_id \<Rightarrow> timestamped_price \<Rightarrow> timestamped_price option outcome" where
  "get_lp_vault_asset_price C a base_price =
     and_then (Returned (get_asset_mantissa C a)) (\<lambda>mantissa.
     and_then (Returned (case pr_pool_by_lp_asset C a of
        Some (b, q, p) \<Rightarrow> if q = pr_relay_currency C \<and> pr_is_vault_currency C b then Some (b, p) else None
      | None \<Rightarrow> None)) (\<lambda>(base_asset, p).
     and_then (Returned (get_asset_mantissa C base_asset)) (\<lambda>base_asset_mantissa.
     and_then (Returned (checked_div mantissa base_asset_mantissa)) (\<lambda>diff_mantissa.
     and_then (Returned (to_u128 (integer_sqrt (min (base_amount p * quote_amount p) u256_max) * 2))) (\<lambda>lp_asset_liquidity.
     case fx_saturating_from_rational (pr_arith C) lp_asset_liquidity (pr_total_issuance C a) of
       None \<Rightarrow> Panicked
     | Some lp_asset_rate \<Rightarrow>
         and_then (Returned (get_vault_asset_price C base_asset base_price)) (\<lambda>vault_asset_price.
         and_then (Returned (fx_checked_mul (pr_arith C) (tp_value vault_asset_price) lp_asset_rate)) (\<lambda>x.
         and_then (Returned (fx_checked_mul (pr_arith C) x (fx_saturating_from_integer (pr_arith C) diff_mantissa)))
           (\<lambda>price. Returned (Some \<lparr>tp_value = price, tp_timestamp = tp_timestamp vault_asset_price\<rparr>)))))))))"

partial_function (option) get_special_asset_price ::
    "prices_config \<Rightarrow> prices_state \<Rightarrow> currency_id \<Rightarrow> timestamped_price \<Rightarrow> timestamped_price option outcome option" where
  "get_special_asset_price C s a base_price =
     (if is_ls_token a then Some (Returned (get_staking_asset_price C a base_price))
      else if is_vault_token a then Some (Returned (get_vault_asset_price C a base_price))
      else if is_lf_lp_token a then Some (get_lp_vault_asset_price C a base_price)
      else if is_auxiliary_token a then Some (Returned (Some base_price))
      else case foreign_to_native_asset s a of
             Some native_asset_id \<Rightarrow> get_special_asset_price C s native_asset_id base_price
           | None \<Rightarrow> Some (Returned None))"

section \<open>The price feeder\<close>

text \<open>
  \<open>Source::get(relay).and_then(special).or_else(|| Source::get(asset))\<close>, for either of the two read
  functions of the oracle.
\<close>

definition source_price ::
    "prices_config \<Rightarrow> prices_state \<Rightarrow> (currency_id \<Rightarrow> timestamped_price option) \<Rightarrow> currency_id
     \<Rightarrow> timestamped_price option outcome option" where
  "source_price C s get_source a =
     Option.bind (case get_source (pr_relay_currency C) of
        Some base_price \<Rightarrow> get_special_asset_price C s a base_price | None \<Rightarrow> Some (Returned None)) (\<lambda>special.
     Some (case special of Returned None \<Rightarrow> Returned (get_source a) | _ \<Rightarrow> special))"

definition prices_get_price ::
    "prices_config \<Rightarrow> prices_state \<Rightarrow> currency_id \<Rightarrow> (rate \<times> timestamp) option outcome option" where
  "prices_get_price C s a =
     (case get_emergency_price C s a of
        Some p \<Rightarrow> Some (Returned (Some p))
      | None \<Rightarrow>
          (case get_asset_mantissa C a of
             None \<Rightarrow> Some (Returned None)
           | Some mantissa \<Rightarrow>
               Option.bind (source_price C s (pr_source_get C) a) (\<lambda>price.
               Some (and_then price (\<lambda>p. Returned (normalize_detail_price C p mantissa))))))"

definition get_no_op ::
    "prices_config \<Rightarrow> prices_state \<Rightarrow> currency_id \<Rightarrow> timestamped_price option outcome option" where
  "get_no_op C s a =
     (case get_asset_mantissa C a of
        None \<Rightarrow> Some (Returned None)
      | Some _ \<Rightarrow> source_price C s (pr_source_get_no_op C) a)"

definition get_all_values :: "prices_config \<Rightarrow> (currency_id \<times> timestamped_price option) list" where
  "get_all_values C = pr_source_all C"

section \<open>Emergency prices and calls\<close>

definition set_emergency_price :: "prices_state \<Rightarrow> currency_id \<Rightarrow> rate \<Rightarrow> prices_state" where
  "set_emergency_price s a p =
     s\<lparr>emergency_price := (emergency_price s)(a \<mapsto> p), pr_events := pr_events s @ [SetPrice a p]\<rparr>"

definition reset_emergency_price :: "prices_state \<Rightarrow> currency_id \<Rightarrow> prices_state" where
  "reset_emergency_price s a =
     s\<lparr>emergency_price := (emergency_price s)(a := None), pr_events := pr_events s @ [ResetPrice a]\<rparr>"

definition set_price :: "prices_config \<Rightarrow> prices_state \<Rightarrow> origin \<Rightarrow> currency_id \<Rightarrow> rate \<Rightarrow> unit dispatch_error + prices_state" where
  "set_price C s o' a p = bindE (ensure_origin (pr_feeder_origin C) o') (\<lambda>_. Inr (set_emergency_price s a p))"

definition reset_price :: "prices_config \<Rightarrow> prices_state \<Rightarrow> origin \<Rightarrow> currency_id \<Rightarrow> unit dispatch_error + prices_state" where
  "reset_price C s o' a = bindE (ensure_origin (pr_feeder_origin C) o') (\<lambda>_. Inr (reset_emergency_price s a))"

definition set_foreign_asset ::
    "prices_config \<Rightarrow> prices_state \<Rightarrow> origin \<Rightarrow> currency_id \<Rightarrow> currency_id \<Rightarrow> unit dispatch_error + prices_state" where
  "set_foreign_asset C s o' foreign_asset_id asset_id =
     bindE (ensure_origin (pr_update_origin C) o') (\<lambda>_.
     Inr (s\<lparr>foreign_to_native_asset := (foreign_to_native_asset s)(foreign_asset_id \<mapsto> asset_id)\<rparr>))"

section \<open>When a price query returns\<close>

definition classified :: "currency_id \<Rightarrow> bool" where
  "classified a \<longleftrightarrow> is_ls_token a \<or> is_vault_token a \<or> is_lf_lp_token a \<or> is_auxiliary_token a"

text \<open>A rank that falls along the mapping of unclassified assets: the mapping has no cycle.\<close>

definition acyclic_mapping :: "prices_state \<Rightarrow> (currency_id \<Rightarrow> nat) \<Rightarrow> bool" where
  "acyclic_mapping s rank \<longleftrightarrow>
     (\<forall>a b. \<not> classified a \<longrightarrow> foreign_to_native_asset s a = Some b \<longrightarrow> rank b < rank a)"

lemma special_returns:
  assumes "acyclic_mapping s rank"
  shows "\<exists>r. get_special_asset_price C s a base_price = Some r"
proof (induction "rank a" arbitrary: a rule: less_induct)
  case less
  show ?case
  proof (cases "classified a")
    case True
    then show ?thesis by (auto simp: get_special_asset_price.simps [of C s a] classified_def)
  next
    case False
    show ?thesis
    proof (cases "foreign_to_native_asset s a")
      case None
      with False show ?thesis by (simp add: get_special_asset_price.simps [of C s a] classified_def)
    next
      case (Some b)
      with False assms have "rank b < rank a" by (simp add: acyclic_mapping_def)
      from less [OF this] False Some show ?thesis
        by (simp add: get_special_asset_price.simps [of C s a] classified_def)
    qed
  qed
qed

text \<open>Along a cycle of unclassified assets the query never returns.\<close>

lemma special_cycle:
  assumes "get_special_asset_price C s a base_price = Some r" and "a \<in> S"
    and "\<forall>x\<in>S. \<not> classified x \<and> (\<exists>y\<in>S. foreign_to_native_asset s x = Some y)"
  shows False
proof -
  let ?cycle = "\<lambda>s. \<forall>x\<in>S. \<not> classified x \<and> (\<exists>y\<in>S. foreign_to_native_asset s x = Some y)"
  have "a \<in> S \<longrightarrow> ?cycle s \<longrightarrow> False"
  proof (rule get_special_asset_price.raw_induct [where P = "\<lambda>C s a base_price r. a \<in> S \<longrightarrow> ?cycle s \<longrightarrow> False",
        OF _ assms(1)], intro impI)
    fix f C s a base_price and r :: "timestamped_price option outcome"
    assume IH: "\<And>C s a base_price r. f C s a base_price = Some r \<Longrightarrow> a \<in> S \<longrightarrow> ?cycle s \<longrightarrow> False"
      and body: "(if is_ls_token a then Some (Returned (get_staking_asset_price C a base_price))
        else if is_vault_token a then Some (Returned (get_vault_asset_price C a base_price))
        else if is_lf_lp_token a then Some (get_lp_vault_asset_price C a base_price)
        else if is_auxiliary_token a then Some (Returned (Some base_price))
        else case foreign_to_native_asset s a of Some b \<Rightarrow> f C s b base_price | None \<Rightarrow> Some (Returned None)) = Some r"
      and a: "a \<in> S" "?cycle s"
    then obtain b where b: "\<not> classified a" "b \<in> S" "foreign_to_native_asset s a = Some b" by blast
    with body have "f C s b base_price = Some r" by (simp add: classified_def)
    with IH a(2) b(2) show False by blast
  qed
  with assms(2,3) show False by blast
qed

text \<open>The derived price depends on the state only through the mapping.\<close>

lemma special_mapping_le:
  assumes "get_special_asset_price C s a base_price = Some r" and "foreign_to_native_asset t = foreign_to_native_asset s"
  shows "get_special_asset_price C t a base_price = Some r"
proof -
  have "foreign_to_native_asset t = foreign_to_native_asset s \<longrightarrow> get_special_asset_price C t a base_price = Some r"
  proof (rule get_special_asset_price.raw_induct [where
        P = "\<lambda>C s a base_price r. foreign_to_native_asset t = foreign_to_native_asset s \<longrightarrow>
               get_special_asset_price C t a base_price = Some r", OF _ assms(1)], intro impI)
    fix f C s a base_price r
    assume "\<And>C s a base_price r. f C s a base_price = Some r \<Longrightarrow>
        foreign_to_native_asset t = foreign_to_native_asset s \<longrightarrow> get_special_asset_price C t a base_price = Some r"
      and "(if is_ls_token a then Some (Returned (get_staking_asset_price C a base_price))
        else if is_vault_token a then Some (Returned (get_vault_asset_price C a base_price))
        else if is_lf_lp_token a then Some (get_lp_vault_asset_price C a base_price)
        else if is_auxiliary_token a then Some (Returned (Some base_price))
        else case foreign_to_native_asset s a of Some b \<Rightarrow> f C s b base_price | None \<Rightarrow> Some (Returned None)) = Some r"
      and "foreign_to_native_asset t = foreign_to_native_asset s"
    then show "get_special_asset_price C t a base_price = Some r"
      by (subst get_special_asset_price.simps) (auto split: option.splits if_splits)
  qed
  with assms(2) show ?thesis by blast
qed

lemma special_mapping_cong:
  assumes "foreign_to_native_asset t = foreign_to_native_asset s"
  shows "get_special_asset_price C t a base_price = get_special_asset_price C s a base_price"
proof (cases "get_special_asset_price C s a base_price")
  case None
  then show ?thesis
    using special_mapping_le [of C t a base_price _ s] assms by (cases "get_special_asset_price C t a base_price") auto
next
  case (Some r)
  with special_mapping_le [OF Some assms] show ?thesis by simp
qed

end
