(* ===== verification/Prices_Properties.thy ===== *)
theory Prices_Properties
  imports Prices
begin

text \<open>The properties of the price feed, on a feed with 12 decimals whose oracle knows the relay currency 5
  and the assets 7 and 8.\<close>

definition prices_env :: prices_config where
  "prices_env = \<lparr>pr_arith = sp_arith_ref,
     pr_source_get = (\<lambda>a. if a \<in> {5, 7, 8} then Some \<lparr>tp_value = 3000000000000000000, tp_timestamp = 44\<rparr> else None),
     pr_source_get_no_op = (\<lambda>a. None), pr_source_all = [],
     pr_feeder_origin = (\<lambda>x. x = Root), pr_update_origin = (\<lambda>x. x = Root),
     pr_liquid_currency = Some SKSM, pr_staking_exchange_rate = (\<lambda>a. Some 1500000000000000000),
     pr_is_vault_currency = (\<lambda>a. True), pr_vault_exchange_rate = (\<lambda>a r. Some r),
     pr_full_interest_rate = (\<lambda>a. Some 900000000000000000), pr_pool_by_lp_asset = (\<lambda>a. None),
     pr_total_issuance = (\<lambda>a. 1), pr_relay_currency = 5, pr_decimal = (\<lambda>a. Some 12)\<rparr>"

definition prices_ex :: prices_state where
  "prices_ex = \<lparr>emergency_price = Map.empty, foreign_to_native_asset = [7 \<mapsto> SKSM], pr_events = []\<rparr>"

lemma prices_env_laws [simp]: "sp_arith_laws (pr_arith prices_env)"
  by (simp add: prices_env_def)

lemmas prices_eval = prices_env_def prices_ex_def sp_arith_ref_def get_asset_mantissa_def to_u128_def
  get_emergency_price_def normalize_detail_price_def scale_timestamped_price_def get_staking_asset_price_def
  source_price_def prices_get_price_def set_price_def reset_price_def set_emergency_price_def
  reset_emergency_price_def set_foreign_asset_def ensure_origin_def is_ls_token_def is_vault_token_def
  is_lf_lp_token_def is_auxiliary_token_def SKSM_def SDOT_def

text \<open>C24. A price query returns whenever the mapping of foreign assets has no cycle.\<close>

theorem price_query_returns:
  assumes "acyclic_mapping s rank"
  shows "\<exists>r. prices_get_price C s a = Some r"
proof -
  have "\<exists>r. source_price C s g a = Some r" for g
  proof (cases "g (pr_relay_currency C)")
    case None
    then show ?thesis by (simp add: source_price_def)
  next
    case (Some p)
    obtain r where "get_special_asset_price C s a p = Some r" using special_returns [OF assms] ..
    with Some show ?thesis by (simp add: source_price_def)
  qed
  then obtain r where "source_price C s (pr_source_get C) a = Some r" by blast
  then show ?thesis
    by (cases "get_emergency_price C s a"; cases "get_asset_mantissa C a") (simp_all add: prices_get_price_def)
qed

theorem price_query_returns_witness:
  "\<exists>r. prices_get_price prices_env prices_ex 7 = Some r \<and> r = Returned (Some (4500000000000000000000000, 44))"
proof -
  have "acyclic_mapping prices_ex (\<lambda>a. if a = 7 then 1 else 0)"
    by (auto simp: acyclic_mapping_def prices_ex_def SKSM_def)
  from price_query_returns [OF this, of prices_env 7] obtain r where r: "prices_get_price prices_env prices_ex 7 = Some r" ..
  have "prices_get_price prices_env prices_ex 7 = Some (Returned (Some (4500000000000000000000000, 44)))"
    by (simp add: prices_eval get_special_asset_price.simps)
  with r show ?thesis by simp
qed

text \<open>C25. A cycle in the mapping makes the price query of its assets run forever.  The call that maps an asset to itself is
  accepted; after it the price query of an asset of none of the special classes does not return exactly when the query gets as
  far as the mapping: when no emergency price answers for the asset, its decimals are known, and the oracle has a price of the
  relay currency.\<close>

theorem cyclic_mapping_never_returns:
  assumes "set_foreign_asset C s o' a a = Inr s'" and "\<not> classified a"
  shows "prices_get_price C s' a = None \<longleftrightarrow>
    get_emergency_price C s a = None \<and> get_asset_mantissa C a \<noteq> None \<and> pr_source_get C (pr_relay_currency C) \<noteq> None"
proof -
  from assms(1) have s': "foreign_to_native_asset s' a = Some a" "emergency_price s' = emergency_price s"
    by (auto simp: set_foreign_asset_def)
  have loop: "get_special_asset_price C s' a p = None" for p
    using special_cycle [where S = "{a}" and s = s' and a = a and C = C and base_price = p] s'(1) assms(2)
    by (cases "get_special_asset_price C s' a p") auto
  have "get_emergency_price C s' a = get_emergency_price C s a" by (simp add: get_emergency_price_def s'(2))
  with loop show ?thesis by (auto simp: prices_get_price_def source_price_def split: option.splits)
qed

theorem cyclic_mapping_never_returns_witness:
  "\<exists>s'. set_foreign_asset prices_env prices_ex Root 8 8 = Inr s' \<and> prices_get_price prices_env s' 8 = None"
proof -
  obtain s' where s': "set_foreign_asset prices_env prices_ex Root 8 8 = Inr s'" by (simp add: prices_eval)
  have "\<not> classified 8" "get_emergency_price prices_env prices_ex 8 = None" "get_asset_mantissa prices_env 8 \<noteq> None"
    "pr_source_get prices_env (pr_relay_currency prices_env) \<noteq> None"
    by (simp_all add: prices_eval classified_def)
  with cyclic_mapping_never_returns [OF s'] s' show ?thesis by blast
qed

text \<open>An emergency price is what the feed answers from the call that sets it until the call that
  resets it: scaled to 18 decimals with timestamp zero, whatever the oracle says.\<close>

theorem emergency_price_round_trip:
  assumes "set_price C s o' a p = Inr s1" and "pr_decimal C a = Some d" and "d \<le> 38" and "p * FX div 10 ^ d \<le> u128_max"
    and laws: "sp_arith_laws (pr_arith C)"
  shows "prices_get_price C s1 a = Some (Returned (Some (p * FX div 10 ^ d, 0))) \<and>
    (emergency_price s a = None \<longrightarrow>
      (\<exists>s2. reset_price C s1 o' a = Inr s2 \<and> prices_get_price C s2 a = prices_get_price C s a))"
proof -
  have "(10 :: nat) ^ d \<le> 10 ^ 38" using assms(3) by (rule power_increasing) simp
  then have m: "get_asset_mantissa C a = Some (10 ^ d)" using assms(2) by (simp add: get_asset_mantissa_def)
  have s1: "s1 = set_emergency_price s a p" and o: "pr_feeder_origin C o'" using assms(1) by (auto simp: set_price_def)
  have "prices_get_price C s1 a = Some (Returned (Some (p * FX div 10 ^ d, 0)))"
    using m assms(4)
    by (simp add: prices_get_price_def get_emergency_price_def s1 set_emergency_price_def fx_simps(4) [OF laws] to_u128_def)
  moreover have "\<exists>s2. reset_price C s1 o' a = Inr s2 \<and> prices_get_price C s2 a = prices_get_price C s a"
    if none: "emergency_price s a = None"
  proof (intro exI conjI)
    let ?s2 = "reset_emergency_price s1 a"
    show "reset_price C s1 o' a = Inr ?s2" using o by (simp add: reset_price_def ensure_origin_def)
    have "get_special_asset_price C ?s2 x bp = get_special_asset_price C s x bp" for x bp
      by (rule special_mapping_cong) (simp add: s1 set_emergency_price_def reset_emergency_price_def)
    then show "prices_get_price C ?s2 a = prices_get_price C s a"
      using none by (simp add: prices_get_price_def get_emergency_price_def source_price_def s1 set_emergency_price_def
          reset_emergency_price_def cong: option.case_cong)
  qed
  ultimately show ?thesis by blast
qed

theorem emergency_price_round_trip_witness:
  "\<exists>s1 s2. set_price prices_env prices_ex Root 8 2000000000000000000 = Inr s1 \<and>
     prices_get_price prices_env s1 8 = Some (Returned (Some (2000000000000000000000000, 0))) \<and>
     reset_price prices_env s1 Root 8 = Inr s2 \<and> prices_get_price prices_env s2 8 = prices_get_price prices_env prices_ex 8"
proof -
  obtain s1 where s1: "set_price prices_env prices_ex Root 8 2000000000000000000 = Inr s1" by (simp add: prices_eval)
  have "pr_decimal prices_env 8 = Some 12" "emergency_price prices_ex 8 = None" by (simp_all add: prices_eval)
  with emergency_price_round_trip [OF s1 this(1) _ _ prices_env_laws] s1 show ?thesis by auto
qed

end
