(* ===== verification/Streaming.thy ===== *)
theory Streaming
  imports Fungibles
begin

text \<open>
  Payment streams (src/pallets/streaming/src/lib.rs and types.rs).

  A stream pays its deposit to the recipient at a constant rate between two times.  \<open>'l streaming_state\<close>
  has one field per storage item, the ledger and the events.  The registries of stream ids per account
  and kind are bounded vectors, kept in descending order.  \<open>StreamLibrary::try_mutate\<close> reads the registry,
  runs its closure and writes the result back: where the closure itself changes the library
  (\<open>update_finished_stream_library\<close>), the write at the end comes last, as here.
\<close>

datatype stream_status = Ongoing bool | Completed bool

datatype stream_kind = Send | Receive | Finish

record stream =
  remaining_balance :: balance
  stream_deposit :: balance
  stream_asset :: currency_id
  rate_per_sec :: balance
  stream_sender :: account_id
  stream_recipient :: account_id
  start_time :: timestamp
  end_time :: timestamp
  stream_status :: stream_status
  cancellable :: bool

datatype streaming_error =
    RecipientIsAlsoSender | InvalidAssetId | DepositLowerThanMinimum | StartTimeBeforeCurrentTime
  | EndTimeBeforeStartTime | InvalidDuration | InvalidRatePerSecond | InvalidStreamId | NotTheSender
  | NotTheRecipient | CannotBeCancelled | InsufficientStreamBalance | ExcessMaxStreamsCount | NotStarted
  | HasFinished

type_synonym streaming_dispatch_error = "streaming_error dispatch_error"

datatype streaming_event =
    StreamCreated nat account_id account_id balance currency_id timestamp timestamp bool
  | StreamWithdrawn nat account_id currency_id balance
  | StreamCancelled nat account_id account_id currency_id balance balance
  | MinimumDepositSet currency_id balance

record 'l streaming_state =
  next_stream_id :: nat
  streams :: "nat \<rightharpoonup> stream"
  stream_library :: "account_id \<Rightarrow> stream_kind \<Rightarrow> nat list option"
  minimum_deposits :: "currency_id \<rightharpoonup> balance"
  st_ledger :: 'l
  st_events :: "streaming_event list"

record 'l streaming_config =
  st_assets :: "(nat, 'l) fungibles"
  st_pallet_account :: account_id
  st_max_streams_count :: nat
  st_max_finished_streams_count :: nat
  st_native :: currency_id
  st_existential_deposit :: balance
  st_now :: timestamp
  st_update_origin :: "origin \<Rightarrow> bool"

section \<open>A stream\<close>

definition stream_new ::
    "balance \<Rightarrow> currency_id \<Rightarrow> balance \<Rightarrow> account_id \<Rightarrow> account_id \<Rightarrow> timestamp \<Rightarrow> timestamp \<Rightarrow> bool \<Rightarrow> stream" where
  "stream_new dep a r sender recipient st en canc = \<lparr>remaining_balance = dep, stream_deposit = dep, stream_asset = a,
     rate_per_sec = r, stream_sender = sender, stream_recipient = recipient, start_time = st, end_time = en,
     stream_status = Ongoing False, cancellable = canc\<rparr>"

definition is_sender :: "stream \<Rightarrow> account_id \<Rightarrow> bool" where
  "is_sender x account \<longleftrightarrow> account = stream_sender x"

definition is_recipient :: "stream \<Rightarrow> account_id \<Rightarrow> bool" where
  "is_recipient x account \<longleftrightarrow> account = stream_recipient x"

definition has_finished :: "stream \<Rightarrow> bool" where
  "has_finished x = (case stream_status x of Ongoing _ \<Rightarrow> False | Completed _ \<Rightarrow> True)"

definition has_withdrawn :: "stream \<Rightarrow> bool" where
  "has_withdrawn x \<longleftrightarrow> remaining_balance x < stream_deposit x"

definition claimed_balance :: "stream \<Rightarrow> streaming_dispatch_error + balance" where
  "claimed_balance x = ok_or (checked_sub (stream_deposit x) (remaining_balance x)) (Arithmetic Underflow)"

definition stream_duration :: "stream \<Rightarrow> streaming_dispatch_error + nat" where
  "stream_duration x = ok_or (checked_sub (end_time x) (start_time x)) (Arithmetic Underflow)"

definition delta_of :: "timestamp \<Rightarrow> stream \<Rightarrow> streaming_dispatch_error + nat" where
  "delta_of now x =
     (if now \<le> start_time x then Inr 0
      else if now < end_time x then ok_or (checked_sub now (start_time x)) (Arithmetic Underflow)
      else ok_or (checked_sub (end_time x) (start_time x)) (Arithmetic Underflow))"

definition has_started :: "timestamp \<Rightarrow> stream \<Rightarrow> streaming_dispatch_error + bool" where
  "has_started now x = bindE (delta_of now x) (\<lambda>delta. Inr (delta \<noteq> 0))"

definition balance_of :: "timestamp \<Rightarrow> stream \<Rightarrow> account_id \<Rightarrow> streaming_dispatch_error + balance" where
  "balance_of now x who =
     bindE (delta_of now x) (\<lambda>delta.
     bindE (stream_duration x) (\<lambda>duration.
     bindE (if delta = duration then Inr (remaining_balance x)
            else if has_withdrawn x
            then bindE (ok_or (checked_mul delta (rate_per_sec x)) (Arithmetic Overflow)) (\<lambda>available.
                 bindE (claimed_balance x) (\<lambda>claimed.
                 ok_or (checked_sub available claimed) (Arithmetic Underflow)))
            else ok_or (checked_mul delta (rate_per_sec x)) (Arithmetic Overflow)) (\<lambda>recipient_bal.
     if is_recipient x who then Inr (if delta = duration then remaining_balance x else recipient_bal)
     else if is_sender x who
     then ok_or (checked_sub (remaining_balance x) recipient_bal) (Arithmetic Underflow)
     else Inr 0)))"

definition sender_balance :: "timestamp \<Rightarrow> stream \<Rightarrow> streaming_dispatch_error + balance" where
  "sender_balance now x = balance_of now x (stream_sender x)"

definition recipient_balance :: "timestamp \<Rightarrow> stream \<Rightarrow> streaming_dispatch_error + balance" where
  "recipient_balance now x = balance_of now x (stream_recipient x)"

definition try_deduct :: "stream \<Rightarrow> balance \<Rightarrow> streaming_dispatch_error + stream" where
  "try_deduct x amount =
     bindE (ok_or (checked_sub (remaining_balance x) amount) (Arithmetic Underflow)) (\<lambda>r.
     Inr (x\<lparr>remaining_balance := r\<rparr>))"

definition try_complete :: "stream \<Rightarrow> stream" where
  "try_complete x = (if remaining_balance x = 0 then x\<lparr>stream_status := Completed False\<rparr> else x)"

definition try_cancel :: "stream \<Rightarrow> balance \<Rightarrow> stream" where
  "try_cancel x r = x\<lparr>remaining_balance := r, stream_status := Completed True\<rparr>"

definition as_collateral :: "stream \<Rightarrow> stream" where
  "as_collateral x = x\<lparr>stream_status := Ongoing True, cancellable := False\<rparr>"

section \<open>Registries\<close>

definition st_deposit_event :: "streaming_event \<Rightarrow> 'l streaming_state \<Rightarrow> 'l streaming_state" where
  "st_deposit_event e s = s\<lparr>st_events := st_events s @ [e]\<rparr>"

definition st_account_id :: "'l streaming_config \<Rightarrow> account_id" where
  "st_account_id C = st_pallet_account C"

definition st_transfer ::
    "'l streaming_config \<Rightarrow> 'l streaming_state \<Rightarrow> currency_id \<Rightarrow> account_id \<Rightarrow> account_id \<Rightarrow> balance
     \<Rightarrow> streaming_dispatch_error + 'l streaming_state" where
  "st_transfer C s a from to n =
     bindE (map_err External (ft_transfer (st_assets C) (st_ledger s) a from to n False)) (\<lambda>l. Inr (s\<lparr>st_ledger := l\<rparr>))"

definition registry :: "'l streaming_state \<Rightarrow> account_id \<Rightarrow> stream_kind \<Rightarrow> nat list" where
  "registry s who kind = (case stream_library s who kind of None \<Rightarrow> [] | Some r \<Rightarrow> r)"

definition put_registry ::
    "account_id \<Rightarrow> stream_kind \<Rightarrow> nat list \<Rightarrow> 'l streaming_state \<Rightarrow> 'l streaming_state" where
  "put_registry who kind r s =
     s\<lparr>stream_library := (stream_library s)(who := (stream_library s who)(kind \<mapsto> r))\<rparr>"

definition put_stream :: "nat \<Rightarrow> stream option \<Rightarrow> 'l streaming_state \<Rightarrow> 'l streaming_state" where
  "put_stream i x s = s\<lparr>streams := (streams s)(i := x)\<rparr>"

definition try_push_stream_library ::
    "'l streaming_config \<Rightarrow> account_id \<Rightarrow> nat \<Rightarrow> stream_kind \<Rightarrow> 'l streaming_state
     \<Rightarrow> streaming_dispatch_error + 'l streaming_state" where
  "try_push_stream_library C account stream_id kind s =
     (let r = registry s account kind in
      bindE (if stream_id \<in> set r then Inr r
             else bindE (ensure (length r < st_max_streams_count C) (Module ExcessMaxStreamsCount)) (\<lambda>_. Inr (r @ [stream_id]))) (\<lambda>r.
      Inr (put_registry account kind (rev (sort r)) s)))"

definition checked_remove ::
    "account_id \<Rightarrow> nat \<Rightarrow> stream_kind \<Rightarrow> 'l streaming_state \<Rightarrow> 'l streaming_state" where
  "checked_remove account stream_id kind s =
     put_registry account kind (rev (sort (remove1 stream_id (registry s account kind)))) s"

definition try_remove_stream_library ::
    "account_id \<Rightarrow> nat \<Rightarrow> stream_kind option \<Rightarrow> 'l streaming_state \<Rightarrow> 'l streaming_state" where
  "try_remove_stream_library account stream_id kind s =
     (case kind of
        Some k \<Rightarrow> checked_remove account stream_id k s
      | None \<Rightarrow> checked_remove account stream_id Finish
                 (checked_remove account stream_id Receive (checked_remove account stream_id Send s)))"

definition checked_pop ::
    "'l streaming_config \<Rightarrow> account_id \<Rightarrow> 'l streaming_state \<Rightarrow> streaming_dispatch_error + 'l streaming_state" where
  "checked_pop C account s =
     (let r = registry s account Finish in
      if length r \<le> st_max_finished_streams_count C then Inr (put_registry account Finish r s)
      else
        let stream_id = last r in
        bindE (ok_or (streams s stream_id) (Module InvalidStreamId)) (\<lambda>x.
        Inr (put_registry account Finish (butlast r)
              (put_stream stream_id None
                (try_remove_stream_library (stream_recipient x) stream_id None
                  (try_remove_stream_library (stream_sender x) stream_id None s))))))"

definition update_finished_stream_library ::
    "'l streaming_config \<Rightarrow> account_id \<Rightarrow> account_id \<Rightarrow> 'l streaming_state
     \<Rightarrow> streaming_dispatch_error + 'l streaming_state" where
  "update_finished_stream_library C sender recipient s =
     bindE (checked_pop C sender s) (checked_pop C recipient)"

section \<open>Creating a stream\<close>

definition ensure_valid_duration ::
    "'l streaming_config \<Rightarrow> timestamp \<Rightarrow> timestamp \<Rightarrow> streaming_dispatch_error + unit" where
  "ensure_valid_duration C st en =
     bindE (ensure (st \<ge> st_now C) (Module StartTimeBeforeCurrentTime)) (\<lambda>_.
     ensure (en > st) (Module EndTimeBeforeStartTime))"

definition stream_do_create ::
    "'l streaming_config \<Rightarrow> 'l streaming_state \<Rightarrow> account_id \<Rightarrow> account_id \<Rightarrow> balance \<Rightarrow> currency_id \<Rightarrow> timestamp
     \<Rightarrow> timestamp \<Rightarrow> bool \<Rightarrow> streaming_dispatch_error + nat \<times> 'l streaming_state" where
  "stream_do_create C s sender recipient dep a st en canc =
     bindE (ensure (sender \<noteq> recipient) (Module RecipientIsAlsoSender)) (\<lambda>_.
     bindE (ok_or (checked_sub en st) (Module InvalidDuration)) (\<lambda>duration.
     bindE (ok_or (checked_div dep duration) (Module InvalidRatePerSecond)) (\<lambda>r.
     bindE (ensure (r \<noteq> 0) (Module InvalidRatePerSecond)) (\<lambda>_.
     bindE (st_transfer C s a sender (st_account_id C) dep) (\<lambda>s1.
     let stream_id = next_stream_id s1 in
     bindE (ok_or (checked_add stream_id 1) (Arithmetic Overflow)) (\<lambda>next_id.
     bindE (update_finished_stream_library C sender recipient
              (put_stream stream_id (Some (stream_new dep a r sender recipient st en canc))
                (s1\<lparr>next_stream_id := next_id\<rparr>))) (\<lambda>s2.
     Inr (stream_id, st_deposit_event (StreamCreated stream_id sender recipient dep a st en True) s2))))))))"

section \<open>Calls\<close>

definition stream_create ::
    "'l streaming_config \<Rightarrow> 'l streaming_state \<Rightarrow> origin \<Rightarrow> account_id \<Rightarrow> balance \<Rightarrow> currency_id \<Rightarrow> timestamp
     \<Rightarrow> timestamp \<Rightarrow> bool \<Rightarrow> streaming_dispatch_error + 'l streaming_state" where
  "stream_create C s o' recipient dep a st en canc =
     bindE (ensure_signed o') (\<lambda>sender.
     bindE (ok_or (minimum_deposits s a) (Module InvalidAssetId)) (\<lambda>minimum.
     bindE (ensure (dep \<ge> minimum) (Module DepositLowerThanMinimum)) (\<lambda>_.
     bindE (ensure_valid_duration C st en) (\<lambda>_.
     bindE (stream_do_create C s sender recipient dep a st en canc) (\<lambda>(stream_id, s1).
     bindE (try_push_stream_library C sender stream_id Send s1) (\<lambda>s2.
     try_push_stream_library C recipient stream_id Receive s2))))))"

definition stream_cancel ::
    "'l streaming_config \<Rightarrow> 'l streaming_state \<Rightarrow> origin \<Rightarrow> nat \<Rightarrow> streaming_dispatch_error + 'l streaming_state" where
  "stream_cancel C s o' stream_id =
     bindE (ensure_signed o') (\<lambda>sender.
     bindE (ok_or (streams s stream_id) (Module InvalidStreamId)) (\<lambda>x.
     bindE (ensure (is_sender x sender) (Module NotTheSender)) (\<lambda>_.
     bindE (ensure (\<not> has_finished x) (Module HasFinished)) (\<lambda>_.
     bindE (ensure (cancellable x) (Module CannotBeCancelled)) (\<lambda>_.
     bindE (sender_balance (st_now C) x) (\<lambda>sender_bal.
     bindE (recipient_balance (st_now C) x) (\<lambda>recipient_bal.
     bindE (st_transfer C s (stream_asset x) (st_account_id C) sender sender_bal) (\<lambda>s1.
     bindE (st_transfer C s1 (stream_asset x) (st_account_id C) (stream_recipient x) recipient_bal) (\<lambda>s2.
     bindE (try_push_stream_library C (stream_sender x) stream_id Finish
              (put_stream stream_id (Some (try_cancel x sender_bal)) s2)) (\<lambda>s3.
     bindE (try_push_stream_library C (stream_recipient x) stream_id Finish s3) (\<lambda>s4.
     bindE (update_finished_stream_library C (stream_sender x) (stream_recipient x) s4) (\<lambda>s5.
     Inr (st_deposit_event (StreamCancelled stream_id sender (stream_recipient x) (stream_asset x) sender_bal recipient_bal) s5)))))))))))))"

definition withdraw_amount :: "'l streaming_config \<Rightarrow> stream \<Rightarrow> balance \<Rightarrow> balance" where
  "withdraw_amount C x amount =
     (if stream_asset x = st_native C \<and> remaining_balance x \<le> min (amount + st_existential_deposit C) u128_max
      then remaining_balance x else amount)"

definition stream_withdraw ::
    "'l streaming_config \<Rightarrow> 'l streaming_state \<Rightarrow> origin \<Rightarrow> nat \<Rightarrow> balance \<Rightarrow> streaming_dispatch_error + 'l streaming_state" where
  "stream_withdraw C s o' stream_id asked =
     bindE (ensure_signed o') (\<lambda>recipient.
     bindE (ok_or (streams s stream_id) (Module InvalidStreamId)) (\<lambda>x.
     bindE (ensure (is_recipient x recipient) (Module NotTheRecipient)) (\<lambda>_.
     bindE (ensure (\<not> has_finished x) (Module HasFinished)) (\<lambda>_.
     bindE (has_started (st_now C) x) (\<lambda>started.
     bindE (ensure started (Module NotStarted)) (\<lambda>_.
     bindE (recipient_balance (st_now C) x) (\<lambda>recipient_bal.
     bindE (ensure (recipient_bal \<ge> asked) (Module InsufficientStreamBalance)) (\<lambda>_.
     let amount = withdraw_amount C x asked in
     bindE (try_deduct x amount) (\<lambda>x1.
     let x2 = try_complete x1; s1 = put_stream stream_id (Some x2) s in
     bindE (if has_finished x2
            then bindE (try_push_stream_library C (stream_sender x2) stream_id Finish s1) (\<lambda>s2.
                 bindE (try_push_stream_library C recipient stream_id Finish s2) (\<lambda>s3.
                 update_finished_stream_library C (stream_sender x2) recipient s3))
            else Inr s1) (\<lambda>s4.
     bindE (st_transfer C s4 (stream_asset x2) (st_account_id C) recipient amount) (\<lambda>s5.
     Inr (st_deposit_event (StreamWithdrawn stream_id (stream_recipient x2) (stream_asset x2) amount) s5))))))))))))"

definition set_minimum_deposit ::
    "'l streaming_config \<Rightarrow> 'l streaming_state \<Rightarrow> origin \<Rightarrow> currency_id \<Rightarrow> balance
     \<Rightarrow> streaming_dispatch_error + 'l streaming_state" where
  "set_minimum_deposit C s o' a minimum =
     bindE (ensure_origin (st_update_origin C) o') (\<lambda>_.
     Inr (st_deposit_event (MinimumDepositSet a minimum) (s\<lparr>minimum_deposits := (minimum_deposits s)(a \<mapsto> minimum)\<rparr>)))"

text \<open>The interface for other pallets (the trait \<open>Streaming\<close>).\<close>

definition streaming_trait_create ::
    "'l streaming_config \<Rightarrow> 'l streaming_state \<Rightarrow> account_id \<Rightarrow> account_id \<Rightarrow> balance \<Rightarrow> currency_id \<Rightarrow> timestamp
     \<Rightarrow> timestamp \<Rightarrow> bool \<Rightarrow> streaming_dispatch_error + 'l streaming_state" where
  "streaming_trait_create C s sender recipient dep a st en canc =
     bindE (ensure (minimum_deposits s a \<noteq> None) (Module InvalidAssetId)) (\<lambda>_.
     bindE (stream_do_create C s sender recipient dep a st en canc) (\<lambda>(stream_id, s1).
     try_push_stream_library C recipient stream_id Receive s1))"

section \<open>Dispatch\<close>

datatype streaming_call =
    StreamCreate account_id balance currency_id timestamp timestamp bool
  | StreamCancel nat
  | StreamWithdraw nat balance
  | SetMinimumDeposit currency_id balance

fun streaming_dispatch ::
    "'l streaming_config \<Rightarrow> 'l streaming_state \<Rightarrow> origin \<Rightarrow> streaming_call
     \<Rightarrow> streaming_dispatch_error + 'l streaming_state" where
  "streaming_dispatch C s o' (StreamCreate r dep a st en canc) = stream_create C s o' r dep a st en canc"
| "streaming_dispatch C s o' (StreamCancel i) = stream_cancel C s o' i"
| "streaming_dispatch C s o' (StreamWithdraw i n) = stream_withdraw C s o' i n"
| "streaming_dispatch C s o' (SetMinimumDeposit a n) = set_minimum_deposit C s o' a n"

end
