(* ===== verification/Streaming_Safety.thy ===== *)
theory Streaming_Safety
  imports Streaming
begin

text \<open>
  What a stream has paid and owes, and the effect of every call on it.  \<open>vested now x\<close> is the specification of
  the payment: nothing before the start, the rate times the elapsed seconds until the end, and the
  whole deposit from the end on.  The invariant \<open>streams_ok\<close> says that no stream has paid more than it
  vested, and that the pallet's account holds what the ongoing streams of an asset still owe.
\<close>

definition vested :: "timestamp \<Rightarrow> stream \<Rightarrow> balance" where
  "vested now x = (if now \<le> start_time x then 0
     else if now < end_time x then (now - start_time x) * rate_per_sec x else stream_deposit x)"

definition paid_out :: "stream \<Rightarrow> balance" where
  "paid_out x = stream_deposit x - remaining_balance x"

definition stream_wf :: "stream \<Rightarrow> bool" where
  "stream_wf x \<longleftrightarrow> start_time x < end_time x \<and> rate_per_sec x = stream_deposit x div (end_time x - start_time x) \<and>
     remaining_balance x \<le> stream_deposit x \<and> stream_deposit x \<le> u128_max \<and> stream_sender x \<noteq> stream_recipient x"

definition in_schedule :: "timestamp \<Rightarrow> stream \<Rightarrow> bool" where
  "in_schedule now x \<longleftrightarrow> has_finished x \<or> paid_out x \<le> vested now x"

definition due :: "currency_id \<Rightarrow> stream \<Rightarrow> balance" where
  "due a x = (if \<not> has_finished x \<and> stream_asset x = a then remaining_balance x else 0)"

definition streams_good :: "timestamp \<Rightarrow> 'l streaming_state \<Rightarrow> bool" where
  "streams_good now s \<longleftrightarrow>
     (\<forall>i x. streams s i = Some x \<longrightarrow> i < next_stream_id s \<and> stream_wf x \<and> in_schedule now x)"

definition owed :: "currency_id \<Rightarrow> 'l streaming_state \<Rightarrow> balance" where
  "owed a s = sum_entries (due a) (streams s)"

definition streams_ok :: "('e, 'l) fungibles \<Rightarrow> account_id \<Rightarrow> currency_id \<Rightarrow> timestamp \<Rightarrow> 'l streaming_state \<Rightarrow> bool" where
  "streams_ok F acc a now s \<longleftrightarrow> streams_good now s \<and> owed a s \<le> ft_balance F (st_ledger s) a acc"

section \<open>Vesting\<close>

lemma vested_le_deposit:
  assumes "stream_wf x"
  shows "vested now x \<le> stream_deposit x"
proof (cases "start_time x < now \<and> now < end_time x")
  case True
  then have "now - start_time x \<le> end_time x - start_time x" by (intro diff_le_mono) simp
  then have "(now - start_time x) * rate_per_sec x \<le> (end_time x - start_time x) * rate_per_sec x" by (rule mult_le_mono1)
  also have "\<dots> \<le> stream_deposit x" using assms by (simp add: stream_wf_def)
  finally show ?thesis using True by (simp add: vested_def)
qed (auto simp: vested_def)

lemma vested_mono:
  assumes "stream_wf x" and "t \<le> u"
  shows "vested t x \<le> vested u x"
proof (cases "u < end_time x")
  case True
  with assms(2) show ?thesis by (auto simp: vested_def intro!: mult_le_mono1)
next
  case False
  with assms(1) have "vested u x = stream_deposit x" by (auto simp: vested_def stream_wf_def)
  with vested_le_deposit [OF assms(1)] show ?thesis by simp
qed

lemma in_schedule_later: "stream_wf x \<Longrightarrow> in_schedule t x \<Longrightarrow> t \<le> u \<Longrightarrow> in_schedule u x"
  using vested_mono [of x t u] by (auto simp: in_schedule_def)

lemma delta_of_eq:
  "stream_wf x \<Longrightarrow> delta_of now x =
     Inr (if now \<le> start_time x then 0 else if now < end_time x then now - start_time x else end_time x - start_time x)"
  by (auto simp: delta_of_def stream_wf_def checked_sub_def)

text \<open>No arithmetic of a stream that is in its schedule can overflow or underflow.\<close>

lemma balance_of_eq:
  assumes "stream_wf x" and "paid_out x \<le> vested now x"
  shows "balance_of now x who =
     Inr (if who = stream_recipient x then vested now x - paid_out x
          else if who = stream_sender x then stream_deposit x - vested now x else 0)"
proof -
  have w: "start_time x < end_time x" "remaining_balance x \<le> stream_deposit x" "stream_deposit x \<le> u128_max"
    using assms(1) by (simp_all add: stream_wf_def)
  have v: "vested now x \<le> stream_deposit x" by (rule vested_le_deposit [OF assms(1)])
  have dur: "stream_duration x = Inr (end_time x - start_time x)" using w by (simp add: stream_duration_def checked_sub_def)
  show ?thesis
  proof (cases "now < end_time x")
    case True
    define d where "d = (if now \<le> start_time x then 0 else now - start_time x)"
    have d: "delta_of now x = Inr d" "d \<noteq> end_time x - start_time x" "vested now x = d * rate_per_sec x"
      using True w(1) delta_of_eq [OF assms(1), of now] by (auto simp: d_def vested_def)
    have "d * rate_per_sec x \<le> u128_max" using v d(3) w(3) by linarith
    with d dur w v assms(2) show ?thesis
      by (auto simp: balance_of_def has_withdrawn_def claimed_balance_def checked_mul_def checked_sub_def
          paid_out_def is_recipient_def is_sender_def)
  next
    case False
    then have "vested now x = stream_deposit x" "delta_of now x = Inr (end_time x - start_time x)"
      using w(1) delta_of_eq [OF assms(1), of now] by (auto simp: vested_def)
    with dur w show ?thesis
      by (auto simp: balance_of_def checked_sub_def paid_out_def is_recipient_def is_sender_def)
  qed
qed

lemma stream_balances:
  assumes "stream_wf x" and "paid_out x \<le> vested now x"
  shows "recipient_balance now x = Inr (vested now x - paid_out x)"
    and "sender_balance now x = Inr (stream_deposit x - vested now x)"
  using assms(1) by (simp_all add: recipient_balance_def sender_balance_def balance_of_eq [OF assms] stream_wf_def)

section \<open>What the registries can do to the streams\<close>

text \<open>The registry operations move no money and change no stream; they may drop finished ones.\<close>

definition prunes :: "'l streaming_state \<Rightarrow> 'l streaming_state \<Rightarrow> bool" where
  "prunes s s' \<longleftrightarrow> streams s' \<subseteq>\<^sub>m streams s \<and> next_stream_id s' = next_stream_id s \<and> st_ledger s' = st_ledger s"

lemma prunes_refl [simp]: "prunes s s"
  by (simp add: prunes_def)

lemma prunes_trans: "prunes s t \<Longrightarrow> prunes t u \<Longrightarrow> prunes s u"
  by (auto simp: prunes_def intro: map_le_trans)

lemma put_registry_frame [simp]:
  "streams (put_registry w k r s) = streams s" "next_stream_id (put_registry w k r s) = next_stream_id s"
  "st_ledger (put_registry w k r s) = st_ledger s"
  by (simp_all add: put_registry_def)

lemma put_stream_frame [simp]:
  "streams (put_stream i x s) = (streams s)(i := x)" "next_stream_id (put_stream i x s) = next_stream_id s"
  "st_ledger (put_stream i x s) = st_ledger s"
  by (simp_all add: put_stream_def)

lemma st_event_frame [simp]:
  "streams (st_deposit_event e s) = streams s" "next_stream_id (st_deposit_event e s) = next_stream_id s"
  "st_ledger (st_deposit_event e s) = st_ledger s"
  by (simp_all add: st_deposit_event_def)

lemma remove_library_frame [simp]:
  "streams (try_remove_stream_library w i k s) = streams s"
  "next_stream_id (try_remove_stream_library w i k s) = next_stream_id s"
  "st_ledger (try_remove_stream_library w i k s) = st_ledger s"
  by (simp_all add: try_remove_stream_library_def checked_remove_def split: option.split)

lemma try_push_prunes: "try_push_stream_library C w i k s = Inr s' \<Longrightarrow> prunes s s'"
  by (auto simp: try_push_stream_library_def prunes_def Let_def)

lemma checked_pop_prunes: "checked_pop C w s = Inr s' \<Longrightarrow> prunes s s'"
  by (auto simp: checked_pop_def prunes_def Let_def map_le_def split: if_splits)

lemma update_finished_prunes: "update_finished_stream_library C w v s = Inr s' \<Longrightarrow> prunes s s'"
  by (auto simp: update_finished_stream_library_def intro: prunes_trans checked_pop_prunes)

lemma st_transferE:
  assumes "st_transfer C s a x y n = Inr s'"
  obtains l where "s' = s\<lparr>st_ledger := l\<rparr>" and "ft_transfer (st_assets C) (st_ledger s) a x y n False = Inr l"
  using assms by (auto simp: st_transfer_def)

section \<open>Keeping the books\<close>

lemma streams_goodD:
  assumes "streams_good now s" and "streams s i = Some x"
  shows "i < next_stream_id s" and "stream_wf x" and "in_schedule now x"
  using assms by (auto simp: streams_good_def)

lemma streams_good_finite: "streams_good now s \<Longrightarrow> finite (dom (streams s))"
  by (rule finite_subset [of _ "{..<next_stream_id s}"]) (auto simp: streams_good_def)

lemma good_later: "streams_good t s \<Longrightarrow> t \<le> u \<Longrightarrow> streams_good u s"
  by (auto simp: streams_good_def intro: in_schedule_later)

lemma good_prunes: "streams_good now s \<Longrightarrow> prunes s s' \<Longrightarrow> streams_good now s'"
  by (auto simp: streams_good_def prunes_def map_le_def dom_def)

lemma owed_prunes: "streams_good now s \<Longrightarrow> prunes s s' \<Longrightarrow> owed a s' \<le> owed a s"
  by (auto simp: owed_def prunes_def intro: sum_entries_submap streams_good_finite)

lemma good_put:
  "streams_good now s \<Longrightarrow> i < next_stream_id s \<Longrightarrow> stream_wf x \<Longrightarrow> in_schedule now x \<Longrightarrow>
    streams_good now (put_stream i (Some x) s)"
  by (auto simp: streams_good_def)

lemma owed_put:
  assumes "finite (dom (streams s))"
  shows "owed a (put_stream i (Some x) s) + (case streams s i of None \<Rightarrow> 0 | Some y \<Rightarrow> due a y) = owed a s + due a x"
  using sum_entries_upd [OF assms] by (simp add: owed_def)

lemma books_frame [simp]:
  "streams_good now (s\<lparr>st_ledger := l\<rparr>) = streams_good now s" "owed a (s\<lparr>st_ledger := l\<rparr>) = owed a s"
  "streams_good now (st_deposit_event e s) = streams_good now s" "owed a (st_deposit_event e s) = owed a s"
  "streams_good now (s\<lparr>minimum_deposits := m\<rparr>) = streams_good now s" "owed a (s\<lparr>minimum_deposits := m\<rparr>) = owed a s"
  by (simp_all add: streams_good_def owed_def)

section \<open>The effect of the calls\<close>

lemma ok_prunes: "streams_ok F acc a now s \<Longrightarrow> prunes s s' \<Longrightarrow> streams_ok F acc a now s'"
  using good_prunes [of now s s'] owed_prunes [of now s s' a] by (simp add: streams_ok_def prunes_def)

lemma do_create_ok:
  assumes "stream_do_create C s w r dep b st en canc = Inr (i, s')" and "w \<noteq> st_pallet_account C" and "dep \<le> u128_max"
    and "exact_custody (st_assets C) a" and "streams_ok (st_assets C) (st_pallet_account C) a now s"
  shows "streams_ok (st_assets C) (st_pallet_account C) a now s'"
proof -
  let ?F = "st_assets C" and ?P = "st_pallet_account C"
  from assms(1) obtain s1 s2 where wr: "w \<noteq> r" "st \<le> en" "dep div (en - st) \<noteq> 0" "en - st \<noteq> 0"
    and t: "st_transfer C s b w ?P dep = Inr s1"
    and u: "update_finished_stream_library C w r
       (put_stream (next_stream_id s1) (Some (stream_new dep b (dep div (en - st)) w r st en canc))
         (s1\<lparr>next_stream_id := next_stream_id s1 + 1\<rparr>)) = Inr s2"
    and s': "s' = st_deposit_event (StreamCreated i w r dep b st en True) s2"
    unfolding stream_do_create_def Let_def st_account_id_def checked_div_def
    by (elim resultE) (auto split: if_splits)
  from t obtain l where s1: "s1 = s\<lparr>st_ledger := l\<rparr>" and l: "ft_transfer ?F (st_ledger s) b w ?P dep False = Inr l"
    by (rule st_transferE)
  let ?x = "stream_new dep b (dep div (en - st)) w r st en canc" and ?s1 = "s1\<lparr>next_stream_id := next_stream_id s1 + 1\<rparr>"
  have good: "streams_good now s" and le: "owed a s \<le> ft_balance ?F (st_ledger s) a ?P"
    using assms(5) by (simp_all add: streams_ok_def)
  have fresh: "streams s (next_stream_id s) = None" using streams_goodD(1) [OF good] by (cases "streams s (next_stream_id s)") auto
  have x: "stream_wf ?x" "in_schedule now ?x" "due a ?x = (if b = a then dep else 0)"
    using wr assms(3) by (auto simp: stream_new_def stream_wf_def in_schedule_def paid_out_def due_def has_finished_def)
  have g1: "streams_good now ?s1" and o1: "owed a ?s1 = owed a s" and f1: "finite (dom (streams ?s1))"
    using good streams_good_finite [OF good] by (auto simp: streams_good_def owed_def s1 less_Suc_eq)
  have "streams_ok ?F ?P a now (put_stream (next_stream_id s1) (Some ?x) ?s1)"
    using good_put [OF g1 _ x(1,2)] owed_put [OF f1, of a "next_stream_id s1" ?x] fresh x(3) o1 le
      credit_at_least [OF _ _ l assms(2), of a] assms(4)
    by (simp add: streams_ok_def s1 exact_custody_def)
  from ok_prunes [OF this update_finished_prunes [OF u]] show ?thesis by (simp add: s' streams_ok_def)
qed

lemma create_ok:
  assumes "stream_create C s o' r dep b st en canc = Inr s'" and "o' \<noteq> Signed (st_pallet_account C)" and "dep \<le> u128_max"
    and "exact_custody (st_assets C) a" and "streams_ok (st_assets C) (st_pallet_account C) a now s"
  shows "streams_ok (st_assets C) (st_pallet_account C) a now s'"
proof -
  from assms(1) obtain w i s1 s2 where w: "o' = Signed w"
    and s1: "stream_do_create C s w r dep b st en canc = Inr (i, s1)"
    and s2: "try_push_stream_library C w i Send s1 = Inr s2" "try_push_stream_library C r i Receive s2 = Inr s'"
    unfolding stream_create_def by (elim resultE) auto
  from w assms(2) have "w \<noteq> st_pallet_account C" by simp
  from do_create_ok [OF s1 this assms(3-5)] s2 show ?thesis by (blast intro: ok_prunes try_push_prunes)
qed

lemma trait_create_ok:
  assumes "streaming_trait_create C s w r dep b st en canc = Inr s'" and "w \<noteq> st_pallet_account C" and "dep \<le> u128_max"
    and "exact_custody (st_assets C) a" and "streams_ok (st_assets C) (st_pallet_account C) a now s"
  shows "streams_ok (st_assets C) (st_pallet_account C) a now s'"
proof -
  from assms(1) obtain i s1 where s1: "stream_do_create C s w r dep b st en canc = Inr (i, s1)"
    and s2: "try_push_stream_library C r i Receive s1 = Inr s'"
    unfolding streaming_trait_create_def by (elim resultE) auto
  from do_create_ok [OF s1 assms(2-5)] s2 show ?thesis by (blast intro: ok_prunes try_push_prunes)
qed

end
