(* ===== verification/Streaming_Histories.thy ===== *)
theory Streaming_Histories
  imports Streaming_Safety
begin

text \<open>
  Histories of the streaming pallet.  The state of a history is the clock with the pallet's state: an
  action is a dispatched call, a stream created by another pallet, ledger activity of others, or the
  passing of time.  Every call reads the clock of its moment.
\<close>

datatype streaming_action =
    StreamCall origin streaming_call
  | StreamFor account_id account_id balance currency_id timestamp timestamp bool
  | StreamOther ledger_action
  | StreamWait nat

fun streaming_exec ::
    "timestamp \<times> 'l streaming_state \<Rightarrow> 'l streaming_config \<times> streaming_action
     \<Rightarrow> streaming_dispatch_error + timestamp \<times> 'l streaming_state" where
  "streaming_exec (now, s) (C, StreamCall o' c) =
     bindE (streaming_dispatch (C\<lparr>st_now := now\<rparr>) s o' c) (\<lambda>s'. Inr (now, s'))"
| "streaming_exec (now, s) (C, StreamFor w r dep a st en canc) =
     bindE (streaming_trait_create (C\<lparr>st_now := now\<rparr>) s w r dep a st en canc) (\<lambda>s'. Inr (now, s'))"
| "streaming_exec (now, s) (C, StreamOther x) =
     bindE (map_err External (ledger_exec (st_assets C) (st_ledger s) x)) (\<lambda>l. Inr (now, s\<lparr>st_ledger := l\<rparr>))"
| "streaming_exec (now, s) (C, StreamWait d) = Inr (now + d, s)"

text \<open>Nobody has a key of the pallet's account, and a deposit is a \<open>u128\<close>.\<close>

fun stream_outsider :: "account_id \<Rightarrow> streaming_action \<Rightarrow> bool" where
  "stream_outsider acc (StreamCall o' (StreamCreate r dep a st en canc)) \<longleftrightarrow> o' \<noteq> Signed acc \<and> dep \<le> u128_max"
| "stream_outsider acc (StreamCall o' c) \<longleftrightarrow> o' \<noteq> Signed acc"
| "stream_outsider acc (StreamFor w r dep a st en canc) \<longleftrightarrow> w \<noteq> acc \<and> dep \<le> u128_max"
| "stream_outsider acc (StreamOther x) \<longleftrightarrow> spares acc x"
| "stream_outsider acc (StreamWait d) \<longleftrightarrow> True"

definition streaming_admitted :: "'l streaming_config \<Rightarrow> currency_id \<Rightarrow> 'l streaming_config \<times> streaming_action \<Rightarrow> bool" where
  "streaming_admitted C0 a = (\<lambda>(C, x). exact_custody (st_assets C) a \<and> st_assets C = st_assets C0 \<and>
     st_pallet_account C = st_pallet_account C0 \<and> stream_outsider (st_pallet_account C0) x)"

definition streaming_genesis :: "'l \<Rightarrow> 'l streaming_state" where
  "streaming_genesis l = \<lparr>next_stream_id = 0, streams = Map.empty, stream_library = (\<lambda>_ _. None),
     minimum_deposits = Map.empty, st_ledger = l, st_events = []\<rparr>"

section \<open>Cancelling and withdrawing\<close>

lemma stream_cancel_inv:
  assumes "stream_cancel C s o' i = Inr s'"
  obtains x p q s1 s2 s3 s4 s5 where "o' = Signed (stream_sender x)" and "streams s i = Some x" and "\<not> has_finished x"
    and "cancellable x" and "sender_balance (st_now C) x = Inr p" and "recipient_balance (st_now C) x = Inr q"
    and "st_transfer C s (stream_asset x) (st_pallet_account C) (stream_sender x) p = Inr s1"
    and "st_transfer C s1 (stream_asset x) (st_pallet_account C) (stream_recipient x) q = Inr s2"
    and "try_push_stream_library C (stream_sender x) i Finish (put_stream i (Some (try_cancel x p)) s2) = Inr s3"
    and "try_push_stream_library C (stream_recipient x) i Finish s3 = Inr s4"
    and "update_finished_stream_library C (stream_sender x) (stream_recipient x) s4 = Inr s5"
    and "s' = st_deposit_event (StreamCancelled i (stream_sender x) (stream_recipient x) (stream_asset x) p q) s5"
  using assms unfolding stream_cancel_def st_account_id_def is_sender_def
  by (elim resultE) (blast intro: that)

lemma stream_withdraw_inv:
  assumes "stream_withdraw C s o' i n = Inr s'"
  obtains x q x' s1 s2 where "o' = Signed (stream_recipient x)" and "streams s i = Some x" and "\<not> has_finished x"
    and "has_started (st_now C) x = Inr True"
    and "recipient_balance (st_now C) x = Inr q" and "n \<le> q" and "withdraw_amount C x n \<le> remaining_balance x"
    and "x' = try_complete (x\<lparr>remaining_balance := remaining_balance x - withdraw_amount C x n\<rparr>)"
    and "prunes (put_stream i (Some x') s) s1"
    and "st_transfer C s1 (stream_asset x) (st_pallet_account C) (stream_recipient x) (withdraw_amount C x n) = Inr s2"
    and "s' = st_deposit_event (StreamWithdrawn i (stream_recipient x) (stream_asset x) (withdraw_amount C x n)) s2"
proof -
  have frame: "stream_asset (try_complete y) = stream_asset y" "stream_recipient (try_complete y) = stream_recipient y" for y
    by (simp_all add: try_complete_def)
  from assms obtain x q y x' s1 s2 where a: "o' = Signed (stream_recipient x)" "streams s i = Some x" "\<not> has_finished x"
      "has_started (st_now C) x = Inr True" "recipient_balance (st_now C) x = Inr q" "n \<le> q"
      "try_deduct x (withdraw_amount C x n) = Inr y" "x' = try_complete y"
      "st_transfer C s1 (stream_asset x') (st_pallet_account C) (stream_recipient x) (withdraw_amount C x n) = Inr s2"
      "s' = st_deposit_event (StreamWithdrawn i (stream_recipient x') (stream_asset x') (withdraw_amount C x n)) s2"
    and p: "(if has_finished x'
            then bindE (try_push_stream_library C (stream_sender x') i Finish (put_stream i (Some x') s)) (\<lambda>s2.
                 bindE (try_push_stream_library C (stream_recipient x) i Finish s2) (\<lambda>s3.
                 update_finished_stream_library C (stream_sender x') (stream_recipient x) s3))
            else Inr (put_stream i (Some x') s)) = Inr s1"
    unfolding stream_withdraw_def Let_def st_account_id_def is_recipient_def
    by (elim resultE) (simp, blast)
  have "prunes (put_stream i (Some x') s) s1"
    using p by (auto split: if_splits dest!: try_push_prunes update_finished_prunes) (blast intro: prunes_trans)
  moreover have "withdraw_amount C x n \<le> remaining_balance x" "y = x\<lparr>remaining_balance := remaining_balance x - withdraw_amount C x n\<rparr>"
    using a(7) by (auto simp: try_deduct_def checked_sub_def split: if_splits)
  ultimately show thesis using a frame by (intro that) simp_all
qed

text \<open>A cancelled stream pays the whole rest: what has vested to the recipient, the remainder to the sender.\<close>

lemma cancel_shares:
  assumes "stream_wf x" and "in_schedule now x" and "\<not> has_finished x"
    and "sender_balance now x = Inr p" and "recipient_balance now x = Inr q"
  shows "p = stream_deposit x - vested now x" and "q = vested now x - paid_out x" and "p + q = remaining_balance x"
proof -
  have "paid_out x \<le> vested now x" using assms(2,3) by (simp add: in_schedule_def)
  note b = stream_balances [OF assms(1) this]
  show p: "p = stream_deposit x - vested now x" and q: "q = vested now x - paid_out x" using b assms(4,5) by simp_all
  show "p + q = remaining_balance x"
    using vested_le_deposit [OF assms(1), of now] \<open>paid_out x \<le> vested now x\<close> assms(1)
    by (simp add: p q paid_out_def stream_wf_def)
qed

lemma cancel_ok:
  assumes "stream_cancel C s o' i = Inr s'" and "exact_custody (st_assets C) a"
    and "streams_ok (st_assets C) (st_pallet_account C) a (st_now C) s"
  shows "streams_ok (st_assets C) (st_pallet_account C) a (st_now C) s'"
  using assms(1)
proof (rule stream_cancel_inv)
  let ?F = "st_assets C" and ?P = "st_pallet_account C" and ?t = "st_now C"
  fix x p q s1 s2 s3 s4 s5
  assume x: "streams s i = Some x" "\<not> has_finished x"
    and b: "sender_balance ?t x = Inr p" "recipient_balance ?t x = Inr q"
    and t: "st_transfer C s (stream_asset x) ?P (stream_sender x) p = Inr s1"
      "st_transfer C s1 (stream_asset x) ?P (stream_recipient x) q = Inr s2"
    and l: "try_push_stream_library C (stream_sender x) i Finish (put_stream i (Some (try_cancel x p)) s2) = Inr s3"
      "try_push_stream_library C (stream_recipient x) i Finish s3 = Inr s4"
      "update_finished_stream_library C (stream_sender x) (stream_recipient x) s4 = Inr s5"
    and s': "s' = st_deposit_event (StreamCancelled i (stream_sender x) (stream_recipient x) (stream_asset x) p q) s5"
  have good: "streams_good ?t s" and le: "owed a s \<le> ft_balance ?F (st_ledger s) a ?P"
    using assms(3) by (simp_all add: streams_ok_def)
  note d = streams_goodD [OF good x(1)]
  note pq = cancel_shares [OF d(2,3) x(2) b]
  from t obtain l1 l2 where s2: "s2 = s\<lparr>st_ledger := l2\<rparr>"
    and tr: "ft_transfer ?F (st_ledger s) (stream_asset x) ?P (stream_sender x) p False = Inr l1"
      "ft_transfer ?F l1 (stream_asset x) ?P (stream_recipient x) q False = Inr l2"
    by (auto elim!: st_transferE)
  have F: "fungibles_laws ?F" "\<forall>l. ft_minimum_balance ?F l a \<le> 1" using assms(2) by (simp_all add: exact_custody_def)
  have y: "stream_wf (try_cancel x p)" "in_schedule ?t (try_cancel x p)" "due a (try_cancel x p) = 0"
    using d(2) pq(1) by (auto simp: try_cancel_def stream_wf_def in_schedule_def due_def has_finished_def)
  have "streams_ok ?F ?P a ?t (put_stream i (Some (try_cancel x p)) s2)"
    using good_put [OF _ _ y(1,2), of s2 i] good d(1) owed_put [of s2 a i "try_cancel x p"] streams_good_finite [OF good]
      le x pq(3) y(3) debit_at_most [OF F tr(1)] debit_at_most [OF F tr(2)]
    by (auto simp: streams_ok_def s2 due_def split: if_splits)
  from ok_prunes [OF ok_prunes [OF ok_prunes [OF this try_push_prunes [OF l(1)]] try_push_prunes [OF l(2)]]
      update_finished_prunes [OF l(3)]]
  show ?thesis by (simp add: s' streams_ok_def)
qed

lemma withdrawn_stream:
  assumes "stream_wf x" and "in_schedule (st_now C) x" and "\<not> has_finished x" and "recipient_balance (st_now C) x = Inr q"
    and "n \<le> q" and "withdraw_amount C x n \<le> remaining_balance x"
    and "x' = try_complete (x\<lparr>remaining_balance := remaining_balance x - withdraw_amount C x n\<rparr>)"
  shows "stream_wf x'" and "in_schedule (st_now C) x'"
    and "due a x' + (if stream_asset x = a then withdraw_amount C x n else 0) = due a x"
proof -
  have "paid_out x \<le> vested (st_now C) x" using assms(2,3) by (simp add: in_schedule_def)
  then have q: "q = vested (st_now C) x - paid_out x" using stream_balances(1) [OF assms(1)] assms(4) by simp
  show "stream_wf x'" using assms(1) by (auto simp: assms(7) try_complete_def stream_wf_def)
  show "due a x' + (if stream_asset x = a then withdraw_amount C x n else 0) = due a x"
    using assms(3,6) by (auto simp: assms(7) try_complete_def due_def has_finished_def)
  show "in_schedule (st_now C) x'"
  proof (cases "has_finished x'")
    case False
    then have "withdraw_amount C x n = n" by (auto simp: assms(7) try_complete_def has_finished_def withdraw_amount_def split: if_splits)
    moreover have "vested (st_now C) x' = vested (st_now C) x" by (simp add: assms(7) try_complete_def vested_def)
    ultimately have "paid_out x' = paid_out x + n" "vested (st_now C) x' = vested (st_now C) x"
      using assms(1,6) by (auto simp: assms(7) try_complete_def paid_out_def stream_wf_def)
    with q assms(5) \<open>paid_out x \<le> vested (st_now C) x\<close> have "paid_out x' \<le> vested (st_now C) x'" by linarith
    then show ?thesis by (simp add: in_schedule_def)
  qed (simp add: in_schedule_def)
qed

lemma withdraw_ok:
  assumes "stream_withdraw C s o' i n = Inr s'" and "exact_custody (st_assets C) a"
    and "streams_ok (st_assets C) (st_pallet_account C) a (st_now C) s"
  shows "streams_ok (st_assets C) (st_pallet_account C) a (st_now C) s'"
  using assms(1)
proof (rule stream_withdraw_inv)
  let ?F = "st_assets C" and ?P = "st_pallet_account C" and ?t = "st_now C"
  fix x q x' s1 s2
  let ?w = "withdraw_amount C x n"
  assume x: "streams s i = Some x" "\<not> has_finished x" and q: "recipient_balance ?t x = Inr q" "n \<le> q"
    and w: "?w \<le> remaining_balance x" and x': "x' = try_complete (x\<lparr>remaining_balance := remaining_balance x - ?w\<rparr>)"
    and p: "prunes (put_stream i (Some x') s) s1" and t: "st_transfer C s1 (stream_asset x) ?P (stream_recipient x) ?w = Inr s2"
    and s': "s' = st_deposit_event (StreamWithdrawn i (stream_recipient x) (stream_asset x) ?w) s2"
  have good: "streams_good ?t s" and le: "owed a s \<le> ft_balance ?F (st_ledger s) a ?P"
    using assms(3) by (simp_all add: streams_ok_def)
  note d = streams_goodD [OF good x(1)]
  note y = withdrawn_stream [OF d(2,3) x(2) q w x']
  from t obtain l where s2: "s2 = s1\<lparr>st_ledger := l\<rparr>"
    and tr: "ft_transfer ?F (st_ledger s1) (stream_asset x) ?P (stream_recipient x) ?w False = Inr l" by (rule st_transferE)
  have g: "streams_good ?t (put_stream i (Some x') s)" by (rule good_put [OF good d(1) y(1,2)])
  have o: "owed a (put_stream i (Some x') s) + due a x = owed a s + due a x'"
    using owed_put [OF streams_good_finite [OF good], of a i x'] x(1) by simp
  have F: "fungibles_laws ?F" "\<forall>l. ft_minimum_balance ?F l a \<le> 1" using assms(2) by (simp_all add: exact_custody_def)
  have "st_ledger s1 = st_ledger s" using p by (simp add: prunes_def)
  then have "owed a s1 \<le> ft_balance ?F l a ?P"
    using owed_prunes [OF g p, of a] o y(3) [of a] le debit_at_most [OF F tr] by (simp split: if_splits)
  then show ?thesis using good_prunes [OF g p] by (simp add: s' s2 streams_ok_def)
qed

section \<open>Every action keeps the books\<close>

lemma streaming_exec_ok:
  assumes "streaming_exec (now, s) (C, x) = Inr (now', s')" and "stream_outsider (st_pallet_account C) x"
    and "exact_custody (st_assets C) a" and "streams_ok (st_assets C) (st_pallet_account C) a now s"
  shows "streams_ok (st_assets C) (st_pallet_account C) a now' s'"
proof (cases x)
  case (StreamCall o' c)
  let ?C = "C\<lparr>st_now := now\<rparr>"
  from StreamCall assms(1) have d: "streaming_dispatch ?C s o' c = Inr s'" and n: "now' = now" by auto
  have ok: "exact_custody (st_assets ?C) a" "streams_ok (st_assets ?C) (st_pallet_account ?C) a (st_now ?C) s"
    using assms(3,4) by simp_all
  show ?thesis
  proof (cases c)
    case (StreamCreate r dep b st en canc)
    with d StreamCall assms(2) create_ok [OF _ _ _ ok] n show ?thesis by simp
  next
    case (StreamCancel i)
    with d cancel_ok [OF _ ok] n show ?thesis by simp
  next
    case (StreamWithdraw i m)
    with d withdraw_ok [OF _ ok] n show ?thesis by simp
  next
    case (SetMinimumDeposit b m)
    with d n assms(4) show ?thesis by (auto simp: set_minimum_deposit_def streams_ok_def)
  qed
next
  case (StreamFor w r dep b st en canc)
  with assms trait_create_ok [of "C\<lparr>st_now := now\<rparr>" s w r dep b st en canc s' a now] show ?thesis by auto
next
  case (StreamOther y)
  with assms(1) obtain l where l: "ledger_exec (st_assets C) (st_ledger s) y = Inr l" "s' = s\<lparr>st_ledger := l\<rparr>" "now' = now"
    by auto
  have "ft_balance (st_assets C) (st_ledger s) a (st_pallet_account C) \<le> ft_balance (st_assets C) l a (st_pallet_account C)"
    using assms(2,3) StreamOther l(1) by (intro ledger_exec_spares) (auto simp: exact_custody_def)
  with l(2,3) assms(4) show ?thesis by (simp add: streams_ok_def)
next
  case (StreamWait d)
  with assms show ?thesis by (auto simp: streams_ok_def intro: good_later)
qed

interpretation streaming: kept_by_calls streaming_exec "streaming_admitted C0 a"
  "\<lambda>(now, s). streams_ok (st_assets C0) (st_pallet_account C0) a now s"
  for C0 :: "'l streaming_config" and a
proof (unfold_locales, goal_cases)
  case (1 c s s')
  obtain C x where c: "c = (C, x)" by (cases c)
  from 1 streaming_exec_ok [of "fst s" "snd s" C x "fst s'" "snd s'" a] show ?case
    by (auto simp: c streaming_admitted_def)
qed

lemma streaming_genesis_ok: "streams_ok F acc a now (streaming_genesis l)"
  by (simp add: streams_ok_def streams_good_def owed_def streaming_genesis_def)

end
