(* ===== verification/Streaming_Properties.thy ===== *)
theory Streaming_Properties
  imports Streaming_Histories
begin

text \<open>
  The properties of payment streams, with a concrete history on which they are evaluated: account 5
  streams 900 units of asset 1 to account 6 over 300 seconds, the recipient withdraws a part, and the
  sender cancels.  The pallet's account is 99, the native currency is 0 with an existential deposit
  of 10.
\<close>

definition stream_env :: "ref_ledger streaming_config" where
  "stream_env = \<lparr>st_assets = fungibles_ref, st_pallet_account = 99, st_max_streams_count = 5,
     st_max_finished_streams_count = 2, st_native = 0, st_existential_deposit = 10, st_now = 0,
     st_update_origin = (\<lambda>x. x = Root)\<rparr>"

definition stream_script :: "currency_id \<Rightarrow> (ref_ledger streaming_config \<times> streaming_action) list" where
  "stream_script a = map (Pair stream_env)
     [StreamOther (LedgerMint a 5 5000), StreamCall Root (SetMinimumDeposit a 100), StreamWait 50,
      StreamCall (Signed 5) (StreamCreate 6 900 a 60 360 True), StreamWait 110,
      StreamCall (Signed 6) (StreamWithdraw 0 200)]"

definition stream_final :: "currency_id \<Rightarrow> timestamp \<times> ref_ledger streaming_state" where
  "stream_final a = run_calls streaming_exec (stream_script a)
     (0, streaming_genesis \<lparr>lg_balance = (\<lambda>a w. 0), lg_issuance = (\<lambda>a. 0)\<rparr>)"

lemmas stream_eval = Let_def stream_env_def stream_script_def stream_final_def run_calls_def streaming_genesis_def
  fungibles_ref_def ref_transfer_def ref_mint_def ensure_signed_def ensure_origin_def
  checked_add_def checked_sub_def checked_mul_def checked_div_def
  stream_new_def is_sender_def is_recipient_def has_finished_def has_withdrawn_def claimed_balance_def
  stream_duration_def delta_of_def has_started_def balance_of_def sender_balance_def recipient_balance_def
  try_deduct_def try_complete_def try_cancel_def st_deposit_event_def st_account_id_def st_transfer_def
  registry_def put_registry_def put_stream_def try_push_stream_library_def checked_remove_def
  try_remove_stream_library_def checked_pop_def update_finished_stream_library_def ensure_valid_duration_def
  stream_do_create_def stream_create_def stream_cancel_def withdraw_amount_def stream_withdraw_def
  set_minimum_deposit_def

lemma stream_env_fields [simp]: "st_assets stream_env = fungibles_ref" "st_pallet_account stream_env = 99"
  "st_native stream_env = 0" "st_existential_deposit stream_env = 10"
  by (simp_all add: stream_env_def)

lemma stream_final_reached:
  "history streaming_exec (streaming_admitted stream_env a)
     (0, streaming_genesis \<lparr>lg_balance = (\<lambda>a w. 0), lg_issuance = (\<lambda>a. 0)\<rparr>) (stream_final a)"
  unfolding stream_final_def
  by (rule run_calls_history) (simp add: stream_script_def streaming_admitted_def)

lemma stream_final_clock: "stream_final a = (160, snd (stream_final a))"
  by (simp add: stream_eval)

lemma stream_final_stream: "streams (snd (stream_final a)) 0 =
  Some ((stream_new 900 a 3 5 6 60 360 True)\<lparr>remaining_balance := 700\<rparr>)"
  by (simp add: stream_eval)

lemma stream_final_ledger: "st_ledger (snd (stream_final a)) =
  \<lparr>lg_balance = (\<lambda>b w. 0)(a := ((\<lambda>w. 0)(5 := 4100, 99 := 700, 6 := 200))), lg_issuance = (\<lambda>b. 0)(a := 5000)\<rparr>"
  by (simp add: stream_eval fun_eq_iff)

section \<open>Custody\<close>

text \<open>C12. Custody: in every reachable state, under any interleaving of calls, streams created by other pallets,
  ledger activity and time, the pallet's account holds at least what the ongoing streams of an asset
  have not paid yet (an asset whose minimum balance is at most one unit).\<close>

theorem streams_custody:
  assumes "history streaming_exec (streaming_admitted C a) (t, streaming_genesis l) (now, s)"
  shows "owed a s \<le> ft_balance (st_assets C) (st_ledger s) a (st_pallet_account C)"
  using streaming.history_inv [OF assms] streaming_genesis_ok [of "st_assets C" "st_pallet_account C" a t l]
  by (simp add: streams_ok_def)

theorem streams_custody_witness:
  "due 1 (the (streams (snd (stream_final 1)) 0)) = 700 \<and>
   owed 1 (snd (stream_final 1)) \<le> ft_balance fungibles_ref (st_ledger (snd (stream_final 1))) 1 99"
proof
  show "due 1 (the (streams (snd (stream_final 1)) 0)) = 700"
    by (simp add: stream_final_stream due_def stream_new_def has_finished_def)
  have "history streaming_exec (streaming_admitted stream_env 1)
     (0, streaming_genesis \<lparr>lg_balance = (\<lambda>a w. 0), lg_issuance = (\<lambda>a. 0)\<rparr>) (160, snd (stream_final 1))"
    using stream_final_reached [of 1] stream_final_clock [of 1] by metis
  from streams_custody [OF this]
  show "owed 1 (snd (stream_final 1)) \<le> ft_balance fungibles_ref (st_ledger (snd (stream_final 1))) 1 99" by simp
qed

section \<open>The schedule\<close>

lemma reachable_stream:
  assumes "history streaming_exec (streaming_admitted C a) (t, streaming_genesis l) (now, s)" and "streams s i = Some x"
  shows "stream_wf x" and "in_schedule now x"
proof -
  have "streams_good now s"
    using streaming.history_inv [OF assms(1)] streaming_genesis_ok [of "st_assets C" "st_pallet_account C" a t l]
    by (simp add: streams_ok_def)
  from streams_goodD(2,3) [OF this assms(2)] show "stream_wf x" "in_schedule now x" .
qed

text \<open>C17. A stream follows its schedule: in every reachable state the balances of an ongoing stream are computed
  without any overflow or underflow, the recipient's is the vested amount less what was paid, the
  sender's is what has not vested, and no more than the vested amount was paid.\<close>

theorem stream_follows_schedule:
  assumes "history streaming_exec (streaming_admitted C a) (t, streaming_genesis l) (now, s)"
    and "streams s i = Some x" and "\<not> has_finished x"
  shows "recipient_balance now x = Inr (vested now x - paid_out x) \<and> sender_balance now x = Inr (stream_deposit x - vested now x) \<and>
    paid_out x \<le> vested now x \<and> vested now x \<le> stream_deposit x"
  using reachable_stream [OF assms(1,2)] assms(3) stream_balances [of x now] vested_le_deposit [of x now]
  by (auto simp: in_schedule_def)

theorem stream_follows_schedule_witness:
  "\<exists>x. streams (snd (stream_final 1)) 0 = Some x \<and> recipient_balance 160 x = Inr 100 \<and> sender_balance 160 x = Inr 600 \<and>
     vested 160 x = 300 \<and> paid_out x = 200"
proof -
  let ?x = "(stream_new 900 1 3 5 6 60 360 True)\<lparr>remaining_balance := 700\<rparr>"
  have "history streaming_exec (streaming_admitted stream_env 1)
     (0, streaming_genesis \<lparr>lg_balance = (\<lambda>a w. 0), lg_issuance = (\<lambda>a. 0)\<rparr>) (160, snd (stream_final 1))"
    using stream_final_reached [of 1] stream_final_clock [of 1] by metis
  from stream_follows_schedule [OF this stream_final_stream]
  have "recipient_balance 160 ?x = Inr (vested 160 ?x - paid_out ?x) \<and> sender_balance 160 ?x = Inr (900 - vested 160 ?x)"
    by (simp add: stream_new_def has_finished_def)
  then show ?thesis by (simp add: stream_final_stream vested_def paid_out_def stream_new_def)
qed

text \<open>Cancelling an ongoing stream pays out exactly its rest: the recipient is credited what has vested
  and was not paid, the sender what has not vested, and the two add up to the remaining balance.\<close>

theorem cancel_splits_rest:
  assumes "history streaming_exec (streaming_admitted C a) (t, streaming_genesis l) (st_now C, s)"
    and "stream_cancel C s o' i = Inr s'" and "streams s i = Some x"
    and "stream_sender x \<noteq> st_pallet_account C" and "stream_recipient x \<noteq> st_pallet_account C"
    and laws: "fungibles_laws (st_assets C)" "credit_law (st_assets C)"
  shows "let p = stream_deposit x - vested (st_now C) x; q = vested (st_now C) x - paid_out x;
             held = (\<lambda>s. ft_balance (st_assets C) (st_ledger s) (stream_asset x)) in
    p + q = remaining_balance x \<and> held s (stream_sender x) + p \<le> held s' (stream_sender x) \<and>
    held s (stream_recipient x) + q \<le> held s' (stream_recipient x)"
  using assms(2)
proof (rule stream_cancel_inv)
  fix y p q s1 s2 s3 s4 s5
  let ?b = "\<lambda>s. ft_balance (st_assets C) (st_ledger s) (stream_asset x)"
  assume y: "streams s i = Some y" "\<not> has_finished y"
    and b: "sender_balance (st_now C) y = Inr p" "recipient_balance (st_now C) y = Inr q"
    and t: "st_transfer C s (stream_asset y) (st_pallet_account C) (stream_sender y) p = Inr s1"
      "st_transfer C s1 (stream_asset y) (st_pallet_account C) (stream_recipient y) q = Inr s2"
    and r: "try_push_stream_library C (stream_sender y) i Finish (put_stream i (Some (try_cancel y p)) s2) = Inr s3"
      "try_push_stream_library C (stream_recipient y) i Finish s3 = Inr s4"
      "update_finished_stream_library C (stream_sender y) (stream_recipient y) s4 = Inr s5"
    and s': "s' = st_deposit_event (StreamCancelled i (stream_sender y) (stream_recipient y) (stream_asset y) p q) s5"
  have [simp]: "y = x" using y(1) assms(3) by simp
  have led: "st_ledger s' = st_ledger s2"
    using try_push_prunes [OF r(1)] try_push_prunes [OF r(2)] update_finished_prunes [OF r(3)] by (simp add: s' prunes_def)
  note pq = cancel_shares [OF reachable_stream [OF assms(1,3)] y(2) [simplified] b [simplified]]
  from t obtain l1 l2 where s2: "st_ledger s2 = l2"
    and tr: "ft_transfer (st_assets C) (st_ledger s) (stream_asset x) (st_pallet_account C) (stream_sender x) p False = Inr l1"
      "ft_transfer (st_assets C) l1 (stream_asset x) (st_pallet_account C) (stream_recipient x) q False = Inr l2"
    by (auto elim!: st_transferE)
  have "?b s (stream_sender x) + p \<le> ?b s' (stream_sender x)" "?b s (stream_recipient x) + q \<le> ?b s' (stream_recipient x)"
    using credit_at_least [OF laws tr(1), of "stream_asset x"] bystander_not_debited [OF laws tr(2), of "stream_sender x" "stream_asset x"]
      bystander_not_debited [OF laws tr(1), of "stream_recipient x" "stream_asset x"] credit_at_least [OF laws tr(2), of "stream_asset x"]
      assms(4,5) led s2 by simp_all
  then show ?thesis using pq by (simp add: Let_def)
qed

theorem cancel_splits_rest_witness:
  "\<exists>s'. stream_cancel (stream_env\<lparr>st_now := 160\<rparr>) (snd (stream_final 1)) (Signed 5) 0 = Inr s' \<and>
     4100 + 600 \<le> ft_balance fungibles_ref (st_ledger s') 1 5 \<and> 200 + 100 \<le> ft_balance fungibles_ref (st_ledger s') 1 6"
proof -
  let ?C = "stream_env\<lparr>st_now := 160\<rparr>"
  obtain s' where s': "stream_cancel ?C (snd (stream_final 1)) (Signed 5) 0 = Inr s'" by (simp add: stream_eval)
  have "streaming_admitted ?C 1 = streaming_admitted stream_env 1" by (simp add: streaming_admitted_def)
  then have h: "history streaming_exec (streaming_admitted ?C 1)
     (0, streaming_genesis \<lparr>lg_balance = (\<lambda>a w. 0), lg_issuance = (\<lambda>a. 0)\<rparr>) (st_now ?C, snd (stream_final 1))"
    using stream_final_reached [of 1] stream_final_clock [of 1] by (metis streaming_config.select_convs(7) streaming_config.update_convs(7) streaming_config.surjective)
  from cancel_splits_rest [OF h s' stream_final_stream] s' show ?thesis
    by (simp add: Let_def stream_new_def vested_def paid_out_def stream_final_ledger) (simp add: fungibles_ref_def)
qed

lemma push_events: "try_push_stream_library C w i k s = Inr s' \<Longrightarrow> st_events s' = st_events s"
  by (auto simp: try_push_stream_library_def put_registry_def Let_def)

lemma pop_events: "checked_pop C w s = Inr s' \<Longrightarrow> st_events s' = st_events s"
  by (auto simp: checked_pop_def put_registry_def put_stream_def try_remove_stream_library_def checked_remove_def Let_def
      split: if_splits)

lemma withdraw_event:
  assumes "stream_withdraw C s o' i n = Inr s'" and "streams s i = Some x"
  shows "st_events s' = st_events s @ [StreamWithdrawn i (stream_recipient x) (stream_asset x) (withdraw_amount C x n)]"
  using assms unfolding stream_withdraw_def Let_def
  by (elim resultE)
    (auto simp: st_deposit_event_def try_complete_def try_deduct_def put_stream_def update_finished_stream_library_def
      dest!: push_events pop_events elim!: st_transferE split: if_splits)

text \<open>A withdrawal stays within the schedule: everything paid to the recipient, this withdrawal included, is at
  most what has vested, for the native currency at most the existential deposit more; and that
  happens only with the withdrawal that finishes the stream.\<close>

theorem withdrawal_within_schedule:
  assumes "history streaming_exec (streaming_admitted C a) (t, streaming_genesis l) (st_now C, s)"
    and "stream_withdraw C s o' i n = Inr s'" and "streams s i = Some x"
  shows "paid_out x + withdraw_amount C x n
      \<le> vested (st_now C) x + (if stream_asset x = st_native C \<and> withdraw_amount C x n = remaining_balance x then st_existential_deposit C else 0) \<and>
    st_events s' = st_events s @ [StreamWithdrawn i (stream_recipient x) (stream_asset x) (withdraw_amount C x n)]"
proof (rule conjI)
  show "st_events s' = st_events s @ [StreamWithdrawn i (stream_recipient x) (stream_asset x) (withdraw_amount C x n)]"
    by (rule withdraw_event [OF assms(2,3)])
  have wf: "stream_wf x" and sched: "in_schedule (st_now C) x" by (rule reachable_stream [OF assms(1,3)])+
  from assms(2) show "paid_out x + withdraw_amount C x n
      \<le> vested (st_now C) x + (if stream_asset x = st_native C \<and> withdraw_amount C x n = remaining_balance x then st_existential_deposit C else 0)"
  proof (rule stream_withdraw_inv)
    fix y q
    assume y: "streams s i = Some y" "\<not> has_finished y" and q: "recipient_balance (st_now C) y = Inr q" "n \<le> q"
    have [simp]: "y = x" using y(1) assms(3) by simp
    have le: "paid_out x \<le> vested (st_now C) x" using sched y(2) by (simp add: in_schedule_def)
    then have "q = vested (st_now C) x - paid_out x" using stream_balances(1) [OF wf le] q(1) by simp
    with q(2) le show ?thesis by (auto simp: withdraw_amount_def)
  qed
qed

theorem withdrawal_within_schedule_witness:
  "\<exists>s'. stream_withdraw (stream_env\<lparr>st_now := 357\<rparr>) (snd (stream_final 0)) (Signed 6) 0 691 = Inr s' \<and>
     last (st_events s') = StreamWithdrawn 0 6 0 700 \<and> 200 + 700 \<le> 891 + (10 :: nat)"
proof -
  let ?C = "stream_env\<lparr>st_now := 357\<rparr>"
  obtain s' where s': "stream_withdraw ?C (snd (stream_final 0)) (Signed 6) 0 691 = Inr s'" by (simp add: stream_eval)
  have "streaming_exec (stream_final 0) (stream_env, StreamWait 197) = Inr (st_now ?C, snd (stream_final 0))"
    by (subst stream_final_clock) simp
  then have "history streaming_exec (streaming_admitted stream_env 0)
     (0, streaming_genesis \<lparr>lg_balance = (\<lambda>a w. 0), lg_issuance = (\<lambda>a. 0)\<rparr>) (st_now ?C, snd (stream_final 0))"
    by (rule history.call [OF stream_final_reached, rotated]) (simp add: streaming_admitted_def)
  moreover have "streaming_admitted ?C 0 = streaming_admitted stream_env 0" by (simp add: streaming_admitted_def)
  ultimately have h: "history streaming_exec (streaming_admitted ?C 0)
     (0, streaming_genesis \<lparr>lg_balance = (\<lambda>a w. 0), lg_issuance = (\<lambda>a. 0)\<rparr>) (st_now ?C, snd (stream_final 0))" by simp
  from withdrawal_within_schedule [OF h s' stream_final_stream] s' show ?thesis
    by (simp add: stream_new_def vested_def paid_out_def withdraw_amount_def)
qed

end
