(* ===== verification/Farming.thy ===== *)
theory Farming
  imports Pallet_Traits Fungibles
begin

text \<open>
  Staking pools with rewards (src/pallets/farming/src/lib.rs and types.rs).

  A pool is keyed by the staked asset, the reward asset and the lock duration.  The account that holds
  an asset of all pools is derived from the asset by a hash, which is the configuration item
  \<open>fm_pool_account\<close> (\<open>None\<close> stands for a hash that does not decode to an account), and so is the lookup
  of the payer's address.  \<open>BlockNumber\<close> is \<open>u32\<close>.  A position that is not stored is the default one.
\<close>

record pool_info =
  is_active :: bool
  total_deposited :: balance
  unlock_height :: block_number
  cool_down_duration :: block_number
  reward_duration :: block_number
  period_finish :: block_number
  last_update_block :: block_number
  reward_rate :: balance
  reward_per_share_stored :: balance

record user_position =
  deposit_balance :: balance
  lock_balance_items :: "(balance \<times> block_number) list"
  reward_amount :: balance
  reward_per_share_paid :: balance

type_synonym farm_key = "currency_id \<times> currency_id \<times> block_number"

datatype farming_error =
    PoolDoesNotExist | PoolAlreadyExists | PoolIsNotActive | PoolInStatus | NotAValidDuration
  | PoolIsInTargetCoolDownDuration | NotAValidAmount | PoolUnderLock | DepositBalanceLow | CodecError
  | ExcessMaxLockDuration | ExcessMaxCoolDownDuration | ExcessMaxUserLockItemsCount | RewardNotFinish

type_synonym farming_dispatch_error = "farming_error dispatch_error"

datatype farming_event =
    PoolAdded farm_key
  | PoolStatusChanged farm_key bool
  | PoolCoolDownDurationChanged farm_key block_number
  | PoolUnlockHeightReset farm_key block_number
  | AssetsDeposited account_id farm_key balance
  | AssetsWithdrew account_id farm_key balance
  | AssetsRedeem account_id farm_key balance
  | FarmRewardPaid account_id farm_key balance
  | FarmRewardAdded farm_key balance

record 'l farming_state =
  fm_pools :: "farm_key \<rightharpoonup> pool_info"
  fm_positions :: "farm_key \<Rightarrow> account_id \<rightharpoonup> user_position"
  fm_ledger :: 'l
  fm_events :: "farming_event list"

record 'l farming_config =
  fm_assets :: "(nat, 'l) fungibles"
  fm_pool_account :: "currency_id \<Rightarrow> account_id option"
  fm_lookup :: "nat \<Rightarrow> account_id option"
  fm_update_origin :: "origin \<Rightarrow> bool"
  fm_max_user_lock_items :: nat
  fm_lock_pool_max_duration :: block_number
  fm_cool_down_max_duration :: block_number
  fm_block :: block_number

section \<open>Pools and positions\<close>

definition pool_info_default :: pool_info where
  "pool_info_default = \<lparr>is_active = False, total_deposited = 0, unlock_height = 0, cool_down_duration = 0,
     reward_duration = 0, period_finish = 0, last_update_block = 0, reward_rate = 0, reward_per_share_stored = 0\<rparr>"

definition user_position_default :: user_position where
  "user_position_default = \<lparr>deposit_balance = 0, lock_balance_items = [], reward_amount = 0, reward_per_share_paid = 0\<rparr>"

definition last_reward_block_applicable :: "pool_info \<Rightarrow> block_number \<Rightarrow> block_number" where
  "last_reward_block_applicable p now = (if now > period_finish p then period_finish p else now)"

definition amount_per_share :: balance where
  "amount_per_share = 10 ^ 12"

definition reward_per_share :: "pool_info \<Rightarrow> block_number \<Rightarrow> farming_dispatch_error + balance" where
  "reward_per_share p now =
     (if total_deposited p = 0 then Inr (reward_per_share_stored p)
      else let block_diff = saturating_sub (last_reward_block_applicable p now) (last_update_block p) in
        bindE (ok_or (Option.bind (checked_div (block_diff * reward_rate p * amount_per_share) (total_deposited p)) to_u128)
                (Arithmetic Overflow)) (\<lambda>reward_per_share_add.
        ok_or (checked_add (reward_per_share_stored p) reward_per_share_add) (Arithmetic Overflow)))"

definition update_reward_per_share :: "pool_info \<Rightarrow> block_number \<Rightarrow> farming_dispatch_error + pool_info" where
  "update_reward_per_share p now =
     bindE (reward_per_share p now) (\<lambda>r.
     Inr (p\<lparr>reward_per_share_stored := r, last_update_block := last_reward_block_applicable p now\<rparr>))"

section \<open>Storage\<close>

definition fm_deposit_event :: "farming_event \<Rightarrow> 'l farming_state \<Rightarrow> 'l farming_state" where
  "fm_deposit_event e s = s\<lparr>fm_events := fm_events s @ [e]\<rparr>"

definition fm_put_pool :: "farm_key \<Rightarrow> pool_info \<Rightarrow> 'l farming_state \<Rightarrow> 'l farming_state" where
  "fm_put_pool k p s = s\<lparr>fm_pools := (fm_pools s)(k \<mapsto> p)\<rparr>"

definition position_of :: "'l farming_state \<Rightarrow> farm_key \<Rightarrow> account_id \<Rightarrow> user_position" where
  "position_of s k who = (case fm_positions s k who of None \<Rightarrow> user_position_default | Some u \<Rightarrow> u)"

definition fm_put_position :: "farm_key \<Rightarrow> account_id \<Rightarrow> user_position \<Rightarrow> 'l farming_state \<Rightarrow> 'l farming_state" where
  "fm_put_position k who u s = s\<lparr>fm_positions := (fm_positions s)(k := (fm_positions s k)(who \<mapsto> u))\<rparr>"

definition fm_transfer ::
    "'l farming_config \<Rightarrow> 'l farming_state \<Rightarrow> currency_id \<Rightarrow> account_id \<Rightarrow> account_id \<Rightarrow> balance
     \<Rightarrow> farming_dispatch_error + 'l farming_state" where
  "fm_transfer C s a from to n =
     bindE (map_err External (ft_transfer (fm_assets C) (fm_ledger s) a from to n False)) (\<lambda>l. Inr (s\<lparr>fm_ledger := l\<rparr>))"

definition pool_account_id :: "'l farming_config \<Rightarrow> currency_id \<Rightarrow> farming_dispatch_error + account_id" where
  "pool_account_id C a = ok_or (fm_pool_account C a) (Module CodecError)"

definition fm_pool :: "'l farming_state \<Rightarrow> farm_key \<Rightarrow> farming_dispatch_error + pool_info" where
  "fm_pool s k = ok_or (fm_pools s k) (Module PoolDoesNotExist)"

section \<open>Rewards\<close>

definition earned_reward :: "pool_info \<Rightarrow> block_number \<Rightarrow> user_position \<Rightarrow> farming_dispatch_error + user_position" where
  "earned_reward p now u =
     bindE (reward_per_share p now) (\<lambda>r.
     bindE (ok_or (checked_sub r (reward_per_share_paid u)) (Arithmetic Overflow)) (\<lambda>diff.
     bindE (ok_or (Option.bind (checked_div (deposit_balance u * diff) amount_per_share)
                     (\<lambda>e. to_u128 (e + reward_amount u))) (Arithmetic Overflow)) (\<lambda>earned.
     Inr (u\<lparr>reward_amount := earned, reward_per_share_paid := reward_per_share_stored p\<rparr>))))"

definition update_reward ::
    "'l farming_config \<Rightarrow> 'l farming_state \<Rightarrow> account_id option \<Rightarrow> farm_key \<Rightarrow> farming_dispatch_error + 'l farming_state" where
  "update_reward C s who k =
     bindE (fm_pool s k) (\<lambda>p0.
     bindE (update_reward_per_share p0 (fm_block C)) (\<lambda>p.
     bindE (case who of
        None \<Rightarrow> Inr s
      | Some w \<Rightarrow> bindE (earned_reward p (fm_block C) (position_of s k w)) (\<lambda>u. Inr (fm_put_position k w u s))) (\<lambda>s1.
     Inr (fm_put_pool k p s1))))"

section \<open>Calls\<close>

definition farming_create ::
    "'l farming_config \<Rightarrow> 'l farming_state \<Rightarrow> origin \<Rightarrow> farm_key \<Rightarrow> block_number
     \<Rightarrow> farming_dispatch_error + 'l farming_state" where
  "farming_create C s o' k cool_down =
     bindE (ensure_origin (fm_update_origin C) o') (\<lambda>_.
     bindE (ensure (fm_pools s k = None) (Module PoolAlreadyExists)) (\<lambda>_.
     bindE (ensure (snd (snd k) \<le> fm_lock_pool_max_duration C) (Module ExcessMaxLockDuration)) (\<lambda>_.
     bindE (ensure (cool_down \<le> fm_cool_down_max_duration C) (Module ExcessMaxCoolDownDuration)) (\<lambda>_.
     Inr (fm_deposit_event (PoolAdded k)
           (fm_put_pool k (pool_info_default\<lparr>cool_down_duration := cool_down\<rparr>) s))))))"

definition set_pool_status ::
    "'l farming_config \<Rightarrow> 'l farming_state \<Rightarrow> origin \<Rightarrow> farm_key \<Rightarrow> bool \<Rightarrow> farming_dispatch_error + 'l farming_state" where
  "set_pool_status C s o' k active =
     bindE (ensure_origin (fm_update_origin C) o') (\<lambda>_.
     bindE (fm_pool s k) (\<lambda>p.
     bindE (ensure (is_active p \<noteq> active) (Module PoolInStatus)) (\<lambda>_.
     Inr (fm_put_pool k (p\<lparr>is_active := active\<rparr>) (fm_deposit_event (PoolStatusChanged k active) s)))))"

definition set_pool_cool_down_duration ::
    "'l farming_config \<Rightarrow> 'l farming_state \<Rightarrow> origin \<Rightarrow> farm_key \<Rightarrow> block_number
     \<Rightarrow> farming_dispatch_error + 'l farming_state" where
  "set_pool_cool_down_duration C s o' k cool_down =
     bindE (ensure_origin (fm_update_origin C) o') (\<lambda>_.
     bindE (ensure (cool_down \<le> fm_cool_down_max_duration C) (Module ExcessMaxCoolDownDuration)) (\<lambda>_.
     bindE (fm_pool s k) (\<lambda>p.
     bindE (ensure (cool_down_duration p \<noteq> cool_down) (Module PoolIsInTargetCoolDownDuration)) (\<lambda>_.
     Inr (fm_put_pool k (p\<lparr>cool_down_duration := cool_down\<rparr>)
           (fm_deposit_event (PoolCoolDownDurationChanged k cool_down) s))))))"

definition reset_pool_unlock_height ::
    "'l farming_config \<Rightarrow> 'l farming_state \<Rightarrow> origin \<Rightarrow> farm_key \<Rightarrow> farming_dispatch_error + 'l farming_state" where
  "reset_pool_unlock_height C s o' k =
     bindE (ensure_origin (fm_update_origin C) o') (\<lambda>_.
     bindE (fm_pool s k) (\<lambda>p.
     bindE (ensure (unlock_height p < fm_block C) (Module PoolUnderLock)) (\<lambda>_.
     bindE (ensure (fm_block C + snd (snd k) \<le> u32_max) Panic) (\<lambda>_.
     let new_unlock_height = fm_block C + snd (snd k) in
     Inr (fm_put_pool k (p\<lparr>unlock_height := new_unlock_height\<rparr>)
           (fm_deposit_event (PoolUnlockHeightReset k new_unlock_height) s))))))"

definition farming_deposit ::
    "'l farming_config \<Rightarrow> 'l farming_state \<Rightarrow> origin \<Rightarrow> farm_key \<Rightarrow> balance \<Rightarrow> farming_dispatch_error + 'l farming_state" where
  "farming_deposit C s o' k amount =
     bindE (ensure_signed o') (\<lambda>who.
     bindE (ensure (fm_pools s k \<noteq> None) (Module PoolDoesNotExist)) (\<lambda>_.
     bindE (ensure (amount \<noteq> 0) (Module NotAValidAmount)) (\<lambda>_.
     bindE (update_reward C s (Some who) k) (\<lambda>s1.
     bindE (pool_account_id C (fst k)) (\<lambda>acc.
     bindE (fm_pool s1 k) (\<lambda>p.
     bindE (ensure (is_active p) (Module PoolIsNotActive)) (\<lambda>_.
     bindE (fm_transfer C s1 (fst k) who acc amount) (\<lambda>s2.
     bindE (ok_or (checked_add (total_deposited p) amount) (Arithmetic Overflow)) (\<lambda>total.
     let u = position_of s2 k who in
     bindE (ok_or (checked_add (deposit_balance u) amount) (Arithmetic Overflow)) (\<lambda>d.
     Inr (fm_put_pool k (p\<lparr>total_deposited := total\<rparr>)
           (fm_deposit_event (AssetsDeposited who k amount)
             (fm_put_position k who (u\<lparr>deposit_balance := d\<rparr>) s2)))))))))))))"

text \<open>A withdrawal without cool-down is paid at once; otherwise it is queued.\<close>

definition release_stake ::
    "'l farming_config \<Rightarrow> 'l farming_state \<Rightarrow> farm_key \<Rightarrow> pool_info \<Rightarrow> account_id \<Rightarrow> user_position \<Rightarrow> balance
     \<Rightarrow> farming_dispatch_error + user_position \<times> 'l farming_state" where
  "release_stake C s k p who u amount =
     (if cool_down_duration p = 0
      then bindE (pool_account_id C (fst k)) (\<lambda>acc.
           bindE (fm_transfer C s (fst k) acc who amount) (\<lambda>s1. Inr (u, s1)))
      else bindE (ensure (length (lock_balance_items u) < fm_max_user_lock_items C) (Module ExcessMaxUserLockItemsCount)) (\<lambda>_.
           Inr (u\<lparr>lock_balance_items := lock_balance_items u @ [(amount, fm_block C)]\<rparr>, s)))"

definition farming_withdraw ::
    "'l farming_config \<Rightarrow> 'l farming_state \<Rightarrow> origin \<Rightarrow> farm_key \<Rightarrow> balance \<Rightarrow> farming_dispatch_error + 'l farming_state" where
  "farming_withdraw C s o' k amount =
     bindE (ensure_signed o') (\<lambda>who.
     bindE (ensure (fm_pools s k \<noteq> None) (Module PoolDoesNotExist)) (\<lambda>_.
     bindE (ensure (amount \<noteq> 0) (Module NotAValidAmount)) (\<lambda>_.
     bindE (ensure (amount \<le> deposit_balance (position_of s k who)) (Module DepositBalanceLow)) (\<lambda>_.
     bindE (update_reward C s (Some who) k) (\<lambda>s1.
     bindE (fm_pool s1 k) (\<lambda>p.
     bindE (ensure (unlock_height p \<le> fm_block C) (Module PoolUnderLock)) (\<lambda>_.
     bindE (ok_or (checked_sub (total_deposited p) amount) (Arithmetic Overflow)) (\<lambda>total.
     let u = position_of s1 k who in
     bindE (ok_or (checked_sub (deposit_balance u) amount) (Arithmetic Overflow)) (\<lambda>d.
     bindE (release_stake C s1 k p who (u\<lparr>deposit_balance := d\<rparr>) amount) (\<lambda>(u', s2).
     Inr (fm_put_pool k (p\<lparr>total_deposited := total\<rparr>)
           (fm_deposit_event (AssetsWithdrew who k amount) (fm_put_position k who u' s2)))))))))))))"

definition unlocked :: "block_number \<Rightarrow> block_number \<Rightarrow> balance \<times> block_number \<Rightarrow> bool" where
  "unlocked cool_down now item \<longleftrightarrow> min (snd item + cool_down) u32_max \<le> now"

definition unlocked_total ::
    "block_number \<Rightarrow> block_number \<Rightarrow> (balance \<times> block_number) list \<Rightarrow> farming_dispatch_error + balance" where
  "unlocked_total cool_down now items =
     foldE (\<lambda>item total. if unlocked cool_down now item
              then ok_or (checked_add total (fst item)) (Arithmetic Overflow) else Inr total) items 0"

definition farming_redeem ::
    "'l farming_config \<Rightarrow> 'l farming_state \<Rightarrow> origin \<Rightarrow> farm_key \<Rightarrow> farming_dispatch_error + 'l farming_state" where
  "farming_redeem C s o' k =
     bindE (ensure_signed o') (\<lambda>who.
     bindE (fm_pool s k) (\<lambda>p.
     let u = position_of s k who in
     bindE (unlocked_total (cool_down_duration p) (fm_block C) (lock_balance_items u)) (\<lambda>total.
     bindE (if 0 < total
            then bindE (pool_account_id C (fst k)) (\<lambda>acc. fm_transfer C s (fst k) acc who total)
            else Inr s) (\<lambda>s1.
     Inr (fm_put_position k who
           (u\<lparr>lock_balance_items := filter (\<lambda>i. \<not> unlocked (cool_down_duration p) (fm_block C) i) (lock_balance_items u)\<rparr>)
           (fm_deposit_event (AssetsRedeem who k total) s1))))))"

definition farming_claim ::
    "'l farming_config \<Rightarrow> 'l farming_state \<Rightarrow> origin \<Rightarrow> farm_key \<Rightarrow> farming_dispatch_error + 'l farming_state" where
  "farming_claim C s o' k =
     bindE (ensure_signed o') (\<lambda>who.
     bindE (ensure (fm_pools s k \<noteq> None) (Module PoolDoesNotExist)) (\<lambda>_.
     bindE (update_reward C s (Some who) k) (\<lambda>s1.
     bindE (pool_account_id C (fst (snd k))) (\<lambda>acc.
     let u = position_of s1 k who in
     bindE (if 0 < reward_amount u
            then bindE (fm_transfer C s1 (fst (snd k)) acc who (reward_amount u)) (\<lambda>s2. Inr (u\<lparr>reward_amount := 0\<rparr>, s2))
            else Inr (u, s1)) (\<lambda>(u', s2).
     Inr (fm_put_position k who u' (fm_deposit_event (FarmRewardPaid who k (reward_amount u)) s2)))))))"

definition new_reward_rate :: "pool_info \<Rightarrow> block_number \<Rightarrow> balance \<Rightarrow> block_number \<Rightarrow> farming_dispatch_error + balance" where
  "new_reward_rate p now amount duration =
     (if period_finish p \<le> now then ok_or (checked_div amount duration) (Arithmetic Overflow)
      else bindE (ok_or (checked_sub (period_finish p) now) (Arithmetic Overflow)) (\<lambda>remaining.
           bindE (ok_or (checked_mul remaining (reward_rate p)) (Arithmetic Overflow)) (\<lambda>left_over.
           bindE (ok_or (checked_add left_over amount) (Arithmetic Overflow)) (\<lambda>total.
           ok_or (checked_div total duration) (Arithmetic Overflow)))))"

definition dispatch_reward ::
    "'l farming_config \<Rightarrow> 'l farming_state \<Rightarrow> origin \<Rightarrow> farm_key \<Rightarrow> nat \<Rightarrow> balance \<Rightarrow> block_number
     \<Rightarrow> farming_dispatch_error + 'l farming_state" where
  "dispatch_reward C s o' k payer amount duration =
     bindE (ensure_origin (fm_update_origin C) o') (\<lambda>_.
     bindE (ensure (fm_pools s k \<noteq> None) (Module PoolDoesNotExist)) (\<lambda>_.
     bindE (ensure (duration \<noteq> 0) (Module NotAValidDuration)) (\<lambda>_.
     bindE (update_reward C s None k) (\<lambda>s1.
     bindE (fm_pool s1 k) (\<lambda>p.
     bindE (new_reward_rate p (fm_block C) amount duration) (\<lambda>r.
     bindE (ensure (fm_block C + duration \<le> u32_max) (Arithmetic Overflow)) (\<lambda>_.
     bindE (if 0 < amount
            then bindE (pool_account_id C (fst (snd k))) (\<lambda>acc.
                 bindE (ok_or (fm_lookup C payer) CannotLookup) (\<lambda>from.
                 fm_transfer C s1 (fst (snd k)) from acc amount))
            else Inr s1) (\<lambda>s2.
     Inr (fm_put_pool k (p\<lparr>reward_duration := duration, period_finish := fm_block C + duration, reward_rate := r,
                           last_update_block := fm_block C\<rparr>)
           (fm_deposit_event (FarmRewardAdded k amount) s2))))))))))"

datatype farming_call =
    FarmCreate farm_key block_number
  | SetPoolStatus farm_key bool
  | SetPoolCoolDownDuration farm_key block_number
  | ResetPoolUnlockHeight farm_key
  | FarmDeposit farm_key balance
  | FarmWithdraw farm_key balance
  | FarmRedeem farm_key
  | FarmClaim farm_key
  | DispatchReward farm_key nat balance block_number

fun farming_dispatch ::
    "'l farming_config \<Rightarrow> 'l farming_state \<Rightarrow> origin \<Rightarrow> farming_call \<Rightarrow> farming_dispatch_error + 'l farming_state" where
  "farming_dispatch C s o' (FarmCreate k d) = farming_create C s o' k d"
| "farming_dispatch C s o' (SetPoolStatus k b) = set_pool_status C s o' k b"
| "farming_dispatch C s o' (SetPoolCoolDownDuration k d) = set_pool_cool_down_duration C s o' k d"
| "farming_dispatch C s o' (ResetPoolUnlockHeight k) = reset_pool_unlock_height C s o' k"
| "farming_dispatch C s o' (FarmDeposit k n) = farming_deposit C s o' k n"
| "farming_dispatch C s o' (FarmWithdraw k n) = farming_withdraw C s o' k n"
| "farming_dispatch C s o' (FarmRedeem k) = farming_redeem C s o' k"
| "farming_dispatch C s o' (FarmClaim k) = farming_claim C s o' k"
| "farming_dispatch C s o' (DispatchReward k w n d) = dispatch_reward C s o' k w n d"

end
