(* ===== verification/Farming_Safety.thy ===== *)
theory Farming_Safety
  imports Farming
begin

text \<open>
  What the staking pools owe.  A pool owes its stakers their deposits and the withdrawals that are
  cooling down, in the staked asset; and, in the reward asset, the credited rewards, what the index
  has accrued since each position was last updated, and the rewards of the rest of the reward period.  Rewards are counted in
  units of \<open>1 / amount_per_share\<close>, in which the index is kept, so that no rounding is lost.
\<close>

definition stake_of :: "user_position \<Rightarrow> balance" where
  "stake_of u = deposit_balance u + sum_list (map fst (lock_balance_items u))"

definition reward_due :: "pool_info \<Rightarrow> user_position \<Rightarrow> nat" where
  "reward_due p u = deposit_balance u * (reward_per_share_stored p - reward_per_share_paid u) + reward_amount u * amount_per_share"

definition key_liability ::
    "currency_id \<Rightarrow> farm_key \<Rightarrow> pool_info \<Rightarrow> (account_id \<rightharpoonup> user_position) \<Rightarrow> nat" where
  "key_liability a k p m =
     (if fst k = a then amount_per_share * sum_entries stake_of m else 0) +
     (if fst (snd k) = a
      then sum_entries (reward_due p) m + amount_per_share * (reward_rate p * (period_finish p - last_update_block p))
      else 0)"

definition farming_liability :: "currency_id \<Rightarrow> 'l farming_state \<Rightarrow> nat" where
  "farming_liability a s = (\<Sum>k\<in>dom (fm_pools s). key_liability a k (the (fm_pools s k)) (fm_positions s k))"

definition pool_ok :: "block_number \<Rightarrow> pool_info \<Rightarrow> (account_id \<rightharpoonup> user_position) \<Rightarrow> bool" where
  "pool_ok now p m \<longleftrightarrow> finite (dom m) \<and> total_deposited p = sum_entries deposit_balance m \<and>
     (\<forall>u\<in>ran m. reward_per_share_paid u \<le> reward_per_share_stored p) \<and>
     last_update_block p \<le> now \<and> last_update_block p \<le> period_finish p"

definition farming_good :: "block_number \<Rightarrow> 'l farming_state \<Rightarrow> bool" where
  "farming_good now s \<longleftrightarrow> finite (dom (fm_pools s)) \<and>
     (\<forall>k p. fm_pools s k = Some p \<longrightarrow> pool_ok now p (fm_positions s k)) \<and>
     (\<forall>k. fm_pools s k = None \<longrightarrow> fm_positions s k = Map.empty)"

definition farming_ok :: "('e, 'l) fungibles \<Rightarrow> account_id \<Rightarrow> currency_id \<Rightarrow> block_number \<Rightarrow> 'l farming_state \<Rightarrow> bool" where
  "farming_ok F acc a now s \<longleftrightarrow>
     farming_good now s \<and> farming_liability a s \<le> amount_per_share * ft_balance F (fm_ledger s) a acc"

lemma amount_per_share_pos: "0 < amount_per_share"
  by (simp add: amount_per_share_def)

lemma default_position [simp]: "deposit_balance user_position_default = 0" "stake_of user_position_default = 0"
  "reward_due p user_position_default = 0" "reward_per_share_paid user_position_default = 0"
  by (simp_all add: user_position_default_def stake_of_def reward_due_def)

section \<open>Storage\<close>

lemma fm_frame [simp]:
  "fm_pools (fm_deposit_event e s) = fm_pools s" "fm_positions (fm_deposit_event e s) = fm_positions s"
  "fm_ledger (fm_deposit_event e s) = fm_ledger s"
  "fm_pools (fm_put_pool k p s) = (fm_pools s)(k \<mapsto> p)" "fm_positions (fm_put_pool k p s) = fm_positions s"
  "fm_ledger (fm_put_pool k p s) = fm_ledger s"
  "fm_pools (fm_put_position k w u s) = fm_pools s"
  "fm_positions (fm_put_position k w u s) = (fm_positions s)(k := (fm_positions s k)(w \<mapsto> u))"
  "fm_ledger (fm_put_position k w u s) = fm_ledger s"
  by (simp_all add: fm_deposit_event_def fm_put_pool_def fm_put_position_def)

lemma position_of_put [simp]: "position_of (fm_put_position k w u s) k w = u" "position_of (fm_put_pool k p s) = position_of s"
  "position_of (s\<lparr>fm_ledger := l\<rparr>) = position_of s"
  by (simp_all add: position_of_def fun_eq_iff)

lemma fm_transferE:
  assumes "fm_transfer C s a x y n = Inr s'"
  obtains l where "s' = s\<lparr>fm_ledger := l\<rparr>" and "ft_transfer (fm_assets C) (fm_ledger s) a x y n False = Inr l"
  using assms by (auto simp: fm_transfer_def)

text \<open>A quantity that is zero for the default position adds up as if every position were stored.\<close>

lemma sum_positions_put:
  assumes "finite (dom (fm_positions s k))" and "f user_position_default = 0"
  shows "sum_entries f ((fm_positions s k)(w \<mapsto> u)) + f (position_of s k w) = sum_entries f (fm_positions s k) + f u"
  using sum_entries_upd [OF assms(1), of f w u] assms(2) by (simp add: position_of_def split: option.splits)

lemma sum_replace_one:
  fixes f g :: "'k \<Rightarrow> nat"
  assumes "finite D" and "k \<in> D" and "\<And>j. j \<in> D \<Longrightarrow> j \<noteq> k \<Longrightarrow> g j = f j"
  shows "sum g D + f k = sum f D + g k"
proof -
  have "sum g (D - {k}) = sum f (D - {k})" by (rule sum.cong) (auto simp: assms(3))
  then show ?thesis using assms(1,2) by (simp add: sum.remove)
qed

section \<open>One pool at a time\<close>

lemma farming_goodD:
  assumes "farming_good now s" and "fm_pools s k = Some p"
  shows "pool_ok now p (fm_positions s k)" and "finite (dom (fm_positions s k))"
  using assms unfolding farming_good_def pool_ok_def by blast+

lemma liability_put:
  assumes "finite (dom (fm_pools s))" and "fm_pools s k = Some p"
    and "fm_pools s' = (fm_pools s)(k \<mapsto> p')" and "fm_positions s' = (fm_positions s)(k := m')"
  shows "farming_liability a s' + key_liability a k p (fm_positions s k) = farming_liability a s + key_liability a k p' m'"
proof -
  have "dom (fm_pools s') = dom (fm_pools s)" using assms(2,3) by auto
  then show ?thesis
    using sum_replace_one [of "dom (fm_pools s)" k "\<lambda>k. key_liability a k (the (fm_pools s' k)) (fm_positions s' k)"
        "\<lambda>k. key_liability a k (the (fm_pools s k)) (fm_positions s k)"] assms
    by (auto simp: farming_liability_def)
qed

lemma farming_ok_step:
  assumes "farming_ok F acc a now s" and "fm_pools s k = Some p"
    and "fm_pools s' = (fm_pools s)(k \<mapsto> p')" and "fm_positions s' = (fm_positions s)(k := m')" and "pool_ok now p' m'"
    and "key_liability a k p' m' + amount_per_share * ft_balance F (fm_ledger s) a acc
      \<le> key_liability a k p (fm_positions s k) + amount_per_share * ft_balance F (fm_ledger s') a acc"
  shows "farming_ok F acc a now s'"
proof -
  have good: "farming_good now s" and le: "farming_liability a s \<le> amount_per_share * ft_balance F (fm_ledger s) a acc"
    using assms(1) by (simp_all add: farming_ok_def)
  then have fin: "finite (dom (fm_pools s))" by (simp add: farming_good_def)
  have "farming_good now s'" using good assms(3-5) unfolding farming_good_def by (auto simp del: split_paired_All)
  with liability_put [OF fin assms(2-4), of a] le assms(6) show ?thesis by (simp add: farming_ok_def)
qed

text \<open>The index of a pool: accruing it never raises what the pool owes.\<close>

lemma update_indexE:
  assumes "update_reward_per_share p now = Inr p'"
  obtains r where "p' = p\<lparr>reward_per_share_stored := r, last_update_block := last_reward_block_applicable p now\<rparr>"
    and "reward_per_share_stored p \<le> r"
    and "(r - reward_per_share_stored p) * total_deposited p
      \<le> saturating_sub (last_reward_block_applicable p now) (last_update_block p) * reward_rate p * amount_per_share"
    and "reward_per_share p' now = Inr r"
proof -
  let ?d = "saturating_sub (last_reward_block_applicable p now) (last_update_block p)"
  from assms obtain r where r: "reward_per_share p now = Inr r"
    and p': "p' = p\<lparr>reward_per_share_stored := r, last_update_block := last_reward_block_applicable p now\<rparr>"
    by (auto simp: update_reward_per_share_def)
  have same: "last_reward_block_applicable p' now = last_update_block p'" by (simp add: p' last_reward_block_applicable_def)
  show thesis
  proof (cases "total_deposited p = 0")
    case True
    with r p' show thesis by (intro that [of r]) (auto simp: reward_per_share_def)
  next
    case False
    with r have "r = reward_per_share_stored p + ?d * reward_rate p * amount_per_share div total_deposited p" "r \<le> u128_max"
      by (auto simp: reward_per_share_def Let_def checked_div_def checked_add_def to_u128_def split: if_splits)
    moreover have "reward_per_share p' now = Inr r"
      using False \<open>r \<le> u128_max\<close> same by (simp add: reward_per_share_def Let_def saturating_sub_def checked_div_def to_u128_def checked_add_def) (simp add: p')
    ultimately show thesis using p' by (intro that [of r]) simp_all
  qed
qed

lemma accrue_reward_due:
  assumes "finite (dom m)" and "\<forall>u\<in>ran m. reward_per_share_paid u \<le> reward_per_share_stored p"
    and "reward_per_share_stored p \<le> r" and "reward_per_share_stored p' = r"
  shows "sum_entries (reward_due p') m = sum_entries (reward_due p) m + (r - reward_per_share_stored p) * sum_entries deposit_balance m"
proof -
  have "reward_due p' u = reward_due p u + (r - reward_per_share_stored p) * deposit_balance u" if "u \<in> ran m" for u
  proof -
    have "r - reward_per_share_paid u = (reward_per_share_stored p - reward_per_share_paid u) + (r - reward_per_share_stored p)"
      using assms(2,3) that by simp
    then have "deposit_balance u * (r - reward_per_share_paid u) =
        deposit_balance u * (reward_per_share_stored p - reward_per_share_paid u) + (r - reward_per_share_stored p) * deposit_balance u"
      by (simp only: distrib_left mult.commute)
    then show ?thesis by (simp add: reward_due_def assms(4))
  qed
  then have "reward_due p' (the (m k)) = reward_due p (the (m k)) + (r - reward_per_share_stored p) * deposit_balance (the (m k))"
    if "k \<in> dom m" for k using that by (auto simp: ranI)
  then show ?thesis unfolding sum_entries_def by (simp add: sum.distrib sum_distrib_left)
qed

lemma accrue_pool:
  assumes "pool_ok now p m" and "update_reward_per_share p now = Inr p'"
  shows "pool_ok now p' m" and "key_liability a k p' m \<le> key_liability a k p m"
proof -
  have ok: "finite (dom m)" "total_deposited p = sum_entries deposit_balance m"
    "\<forall>u\<in>ran m. reward_per_share_paid u \<le> reward_per_share_stored p"
    "last_update_block p \<le> now" "last_update_block p \<le> period_finish p"
    using assms(1) by (auto simp: pool_ok_def)
  from assms(2) obtain r where p': "p' = p\<lparr>reward_per_share_stored := r, last_update_block := last_reward_block_applicable p now\<rparr>"
    and r: "reward_per_share_stored p \<le> r"
    and d: "(r - reward_per_share_stored p) * total_deposited p
      \<le> saturating_sub (last_reward_block_applicable p now) (last_update_block p) * reward_rate p * amount_per_share"
    by (rule update_indexE)
  show "pool_ok now p' m" using ok r by (auto simp: pool_ok_def p' last_reward_block_applicable_def)
  define e where "e = last_reward_block_applicable p now"
  have e: "last_update_block p \<le> e" "e \<le> period_finish p" using ok(4,5) by (auto simp: e_def last_reward_block_applicable_def)
  then have split: "period_finish p - last_update_block p = (period_finish p - e) + (e - last_update_block p)" by simp
  have "(r - reward_per_share_stored p) * sum_entries deposit_balance m \<le> amount_per_share * (reward_rate p * (e - last_update_block p))"
    using d e(1) by (simp add: ok(2) saturating_sub_def mult.commute mult.left_commute flip: e_def)
  moreover have "amount_per_share * (reward_rate p * (period_finish p - last_update_block p)) =
      amount_per_share * (reward_rate p * (period_finish p - e)) + amount_per_share * (reward_rate p * (e - last_update_block p))"
    unfolding split by (simp only: distrib_left)
  ultimately show "key_liability a k p' m \<le> key_liability a k p m"
    using accrue_reward_due [OF ok(1,3) r, of p'] by (simp add: key_liability_def p' flip: e_def)
qed

lemma settle_position:
  assumes "earned_reward p now u = Inr u'" and "reward_per_share p now = Inr (reward_per_share_stored p)"
  obtains e where "u' = u\<lparr>reward_amount := e, reward_per_share_paid := reward_per_share_stored p\<rparr>"
    and "reward_due p u' \<le> reward_due p u"
proof -
  let ?d = "deposit_balance u * (reward_per_share_stored p - reward_per_share_paid u)"
  have u': "u' = u\<lparr>reward_amount := ?d div amount_per_share + reward_amount u, reward_per_share_paid := reward_per_share_stored p\<rparr>"
    using assms amount_per_share_pos unfolding earned_reward_def
    by (auto simp: checked_sub_def checked_div_def to_u128_def split: if_splits)
  have "?d div amount_per_share * amount_per_share \<le> ?d" by simp
  then have "reward_due p u' \<le> reward_due p u" unfolding u' by (simp add: reward_due_def distrib_right)
  with u' show thesis by (rule that)
qed

text \<open>Replacing one position of a pool.\<close>

lemma put_position_pool:
  assumes "pool_ok now p (fm_positions s k)" and "reward_per_share_paid u \<le> reward_per_share_stored p"
    and "t + deposit_balance (position_of s k w) = total_deposited p + deposit_balance u"
  shows "pool_ok now (p\<lparr>total_deposited := t\<rparr>) ((fm_positions s k)(w \<mapsto> u))"
  using assms sum_positions_put [of s k deposit_balance w u]
  by (auto simp: pool_ok_def ran_def split: if_splits)

lemma put_position_liability:
  assumes "finite (dom (fm_positions s k))"
  shows "key_liability a k p ((fm_positions s k)(w \<mapsto> u)) +
      ((if fst k = a then amount_per_share * stake_of (position_of s k w) else 0) +
       (if fst (snd k) = a then reward_due p (position_of s k w) else 0)) =
    key_liability a k p (fm_positions s k) +
      ((if fst k = a then amount_per_share * stake_of u else 0) + (if fst (snd k) = a then reward_due p u else 0))"
proof -
  have "amount_per_share * sum_entries stake_of ((fm_positions s k)(w \<mapsto> u)) + amount_per_share * stake_of (position_of s k w)
      = amount_per_share * sum_entries stake_of (fm_positions s k) + amount_per_share * stake_of u"
    using sum_positions_put [OF assms, of stake_of w u] by (metis default_position(2) distrib_left)
  with sum_positions_put [OF assms, of "reward_due p" w u] show ?thesis by (simp add: key_liability_def)
qed

lemma reward_due_total [simp]: "reward_due (p\<lparr>total_deposited := t\<rparr>) = reward_due p"
  by (simp add: reward_due_def fun_eq_iff)

lemma liability_total [simp]: "key_liability a k (p\<lparr>total_deposited := t\<rparr>) m = key_liability a k p m"
  by (simp add: key_liability_def)

text \<open>The share of one position in what its pool owes in asset \<open>a\<close>, and the step that replaces a position.\<close>

definition position_liability :: "currency_id \<Rightarrow> farm_key \<Rightarrow> pool_info \<Rightarrow> user_position \<Rightarrow> nat" where
  "position_liability a k p u =
     (if fst k = a then amount_per_share * stake_of u else 0) + (if fst (snd k) = a then reward_due p u else 0)"

lemma position_step:
  assumes "farming_ok F acc a now s" and "fm_pools s k = Some p"
    and "fm_pools s' = (fm_pools s)(k \<mapsto> p\<lparr>total_deposited := t\<rparr>)"
    and "fm_positions s' = (fm_positions s)(k := (fm_positions s k)(w \<mapsto> u))"
    and "reward_per_share_paid u \<le> reward_per_share_stored p"
    and "t + deposit_balance (position_of s k w) = total_deposited p + deposit_balance u"
    and "position_liability a k p u + amount_per_share * ft_balance F (fm_ledger s) a acc
      \<le> position_liability a k p (position_of s k w) + amount_per_share * ft_balance F (fm_ledger s') a acc"
  shows "farming_ok F acc a now s'"
proof -
  have good: "farming_good now s" using assms(1) by (simp add: farming_ok_def)
  have pool: "pool_ok now (p\<lparr>total_deposited := t\<rparr>) ((fm_positions s k)(w \<mapsto> u))"
    by (rule put_position_pool [OF farming_goodD(1) [OF good assms(2)] assms(5,6)])
  show ?thesis
    using farming_ok_step [OF assms(1-4) pool] put_position_liability [OF farming_goodD(2) [OF good assms(2)], of a p w u] assms(7)
    by (simp add: position_liability_def)
qed

section \<open>Updating the rewards\<close>

lemma update_reward_ok:
  assumes "update_reward C s who k = Inr s'" and "farming_ok F acc a (fm_block C) s"
  obtains p p' where "fm_pools s k = Some p" and "fm_pools s' = (fm_pools s)(k \<mapsto> p')" and "farming_ok F acc a (fm_block C) s'"
    and "fm_ledger s' = fm_ledger s" and "update_reward_per_share p (fm_block C) = Inr p'"
    and "\<And>w. who = Some w \<Longrightarrow> \<exists>e. position_of s' k w =
        (position_of s k w)\<lparr>reward_amount := e, reward_per_share_paid := reward_per_share_stored p'\<rparr>"
proof -
  from assms(1) obtain p p' s1 where p: "fm_pools s k = Some p" and p': "update_reward_per_share p (fm_block C) = Inr p'"
    and s1: "(case who of None \<Rightarrow> Inr s
      | Some w \<Rightarrow> bindE (earned_reward p' (fm_block C) (position_of s k w)) (\<lambda>u. Inr (fm_put_position k w u s))) = Inr s1"
    and s': "s' = fm_put_pool k p' s1"
    unfolding update_reward_def fm_pool_def by (elim resultE) blast
  have good: "farming_good (fm_block C) s" using assms(2) by (simp add: farming_ok_def)
  note acc = accrue_pool [OF farming_goodD(1) [OF good p] p']
  from p' have st: "reward_per_share p' (fm_block C) = Inr (reward_per_share_stored p')" by (rule update_indexE) simp
  show thesis
  proof (cases who)
    case None
    with s1 have "s1 = s" by simp
    moreover have "farming_ok F acc a (fm_block C) s'"
      using farming_ok_step [OF assms(2) p _ _ acc(1), of s'] acc(2) [of a k] by (simp add: s' \<open>s1 = s\<close>)
    ultimately show thesis using p p' None s' by (intro that) auto
  next
    case (Some w)
    with s1 obtain u where u: "earned_reward p' (fm_block C) (position_of s k w) = Inr u" and s1': "s1 = fm_put_position k w u s"
      by (auto simp: bindE_Inr_iff)
    from u st obtain e where e: "u = (position_of s k w)\<lparr>reward_amount := e, reward_per_share_paid := reward_per_share_stored p'\<rparr>"
      and le: "reward_due p' u \<le> reward_due p' (position_of s k w)" by (rule settle_position)
    have stake: "stake_of u = stake_of (position_of s k w)" "deposit_balance u = deposit_balance (position_of s k w)"
      by (simp_all add: e stake_of_def)
    have "pool_ok (fm_block C) (p'\<lparr>total_deposited := total_deposited p'\<rparr>) ((fm_positions s k)(w \<mapsto> u))"
      by (rule put_position_pool [OF acc(1)]) (simp_all add: e)
    then have "farming_ok F acc a (fm_block C) s'"
      using farming_ok_step [OF assms(2) p, of s' p' "(fm_positions s k)(w \<mapsto> u)"] acc(2) [of a k] stake le
        put_position_liability [OF farming_goodD(2) [OF good p], of a p' w u]
      by (auto simp: s' s1' split: if_splits)
    then show thesis using p p' Some s' s1' e by (intro that) auto
  qed
qed

end
