(* ===== verification/Farming_Histories.thy ===== *)
theory Farming_Histories
  imports Farming_Safety
begin

text \<open>
  Histories of the staking pools: dispatched calls, ledger activity of others, and the passing of
  blocks.  The invariant is solvency: the account of an asset holds everything that the pools owe in it.
\<close>

datatype farming_action =
    FarmCall origin farming_call
  | FarmOther ledger_action
  | FarmBlocks nat

fun farming_exec ::
    "block_number \<times> 'l farming_state \<Rightarrow> 'l farming_config \<times> farming_action
     \<Rightarrow> farming_dispatch_error + block_number \<times> 'l farming_state" where
  "farming_exec (now, s) (C, FarmCall o' c) =
     bindE (farming_dispatch (C\<lparr>fm_block := now\<rparr>) s o' c) (\<lambda>s'. Inr (now, s'))"
| "farming_exec (now, s) (C, FarmOther x) =
     bindE (map_err External (ledger_exec (fm_assets C) (fm_ledger s) x)) (\<lambda>l. Inr (now, s\<lparr>fm_ledger := l\<rparr>))"
| "farming_exec (now, s) (C, FarmBlocks d) = Inr (now + d, s)"

text \<open>Nobody has a key of the account \<open>acc\<close>, and it is not named as the payer of a reward.\<close>

fun farm_outsider :: "'l farming_config \<Rightarrow> account_id \<Rightarrow> farming_action \<Rightarrow> bool" where
  "farm_outsider C acc (FarmCall o' (DispatchReward k payer n d)) \<longleftrightarrow> fm_lookup C payer \<noteq> Some acc"
| "farm_outsider C acc (FarmCall o' c) \<longleftrightarrow> o' \<noteq> Signed acc"
| "farm_outsider C acc (FarmOther x) \<longleftrightarrow> spares acc x"
| "farm_outsider C acc (FarmBlocks d) \<longleftrightarrow> True"

definition farming_admitted ::
    "(nat, 'l) fungibles \<Rightarrow> currency_id \<Rightarrow> account_id \<Rightarrow> 'l farming_config \<times> farming_action \<Rightarrow> bool" where
  "farming_admitted F a acc = (\<lambda>(C, x). exact_custody F a \<and> fm_assets C = F \<and> fm_pool_account C a = Some acc \<and>
     farm_outsider C acc x)"

definition farming_genesis :: "'l \<Rightarrow> 'l farming_state" where
  "farming_genesis l = \<lparr>fm_pools = Map.empty, fm_positions = (\<lambda>_. Map.empty), fm_ledger = l, fm_events = []\<rparr>"

text \<open>The common hypotheses of the effects of a call, for asset \<open>a\<close> with account \<open>acc\<close>.\<close>

definition farm_env :: "'l farming_config \<Rightarrow> currency_id \<Rightarrow> account_id \<Rightarrow> bool" where
  "farm_env C a acc \<longleftrightarrow> exact_custody (fm_assets C) a \<and> fm_pool_account C a = Some acc"

lemma pool_account_Inr [simp]: "pool_account_id C b = Inr x \<longleftrightarrow> fm_pool_account C b = Some x"
  by (auto simp: pool_account_id_def ok_or_def split: option.splits)

lemma fm_pool_Inr [simp]: "fm_pool s k = Inr p \<longleftrightarrow> fm_pools s k = Some p"
  by (auto simp: fm_pool_def ok_or_def split: option.splits)

text \<open>A transfer to or from the account of its asset, in units of \<open>1 / amount_per_share\<close>.\<close>

lemma scaled_in:
  assumes "farm_env C a acc" and "ft_transfer (fm_assets C) l b x y n k = Inr l'" and "fm_pool_account C b = Some y" and "x \<noteq> acc"
  shows "amount_per_share * ft_balance (fm_assets C) l a acc + (if b = a then amount_per_share * n else 0)
    \<le> amount_per_share * ft_balance (fm_assets C) l' a acc"
proof (cases "b = a")
  case True
  then have "ft_balance (fm_assets C) l a acc + n \<le> ft_balance (fm_assets C) l' a acc"
    using exact_custodyD(2) [OF _ assms(2), of a] assms(1,3,4) by (auto simp: farm_env_def)
  then have "amount_per_share * (ft_balance (fm_assets C) l a acc + n) \<le> amount_per_share * ft_balance (fm_assets C) l' a acc"
    by (rule mult_le_mono2)
  with True show ?thesis by (simp add: distrib_left)
next
  case False
  then show ?thesis using exact_custodyD(4) [OF _ assms(2), of a acc] assms(1) by (simp add: farm_env_def)
qed

lemma scaled_out:
  assumes "farm_env C a acc" and "ft_transfer (fm_assets C) l b x y n k = Inr l'" and "fm_pool_account C b = Some x"
  shows "amount_per_share * ft_balance (fm_assets C) l a acc
    \<le> amount_per_share * ft_balance (fm_assets C) l' a acc + (if b = a then amount_per_share * n else 0)"
proof (cases "b = a")
  case True
  then have "ft_balance (fm_assets C) l a acc \<le> ft_balance (fm_assets C) l' a acc + n"
    using exact_custodyD(1) [OF _ assms(2), of a] assms(1,3) by (auto simp: farm_env_def)
  then have "amount_per_share * ft_balance (fm_assets C) l a acc \<le> amount_per_share * (ft_balance (fm_assets C) l' a acc + n)"
    by (rule mult_le_mono2)
  with True show ?thesis by (simp add: distrib_left)
next
  case False
  then show ?thesis using exact_custodyD(4) [OF _ assms(2), of a acc] assms(1) by (simp add: farm_env_def)
qed

lemma position_paid:
  assumes "farming_ok F acc a now s" and "fm_pools s k = Some p"
  shows "reward_per_share_paid (position_of s k w) \<le> reward_per_share_stored p"
proof -
  have "pool_ok now p (fm_positions s k)" using assms by (auto simp: farming_ok_def intro: farming_goodD(1))
  then show ?thesis by (auto simp: pool_ok_def position_of_def ranI split: option.split)
qed

section \<open>Deposits and withdrawals\<close>

abbreviation solvent :: "'l farming_config \<Rightarrow> currency_id \<Rightarrow> account_id \<Rightarrow> 'l farming_state \<Rightarrow> bool" where
  "solvent C a acc s \<equiv> farming_ok (fm_assets C) acc a (fm_block C) s"

lemma deposit_ok:
  assumes "farming_deposit C s o' k n = Inr s'" and "farm_env C a acc" and "o' \<noteq> Signed acc" and "solvent C a acc s"
  shows "solvent C a acc s'"
proof -
  from assms(1) obtain w s1 y p s2 where w: "o' = Signed w" and s1: "update_reward C s (Some w) k = Inr s1"
    and y: "fm_pool_account C (fst k) = Some y" and p: "fm_pools s1 k = Some p"
    and s2: "fm_transfer C s1 (fst k) w y n = Inr s2"
    and s': "s' = fm_put_pool k (p\<lparr>total_deposited := total_deposited p + n\<rparr>)
        (fm_deposit_event (AssetsDeposited w k n) (fm_put_position k w
          ((position_of s2 k w)\<lparr>deposit_balance := deposit_balance (position_of s2 k w) + n\<rparr>) s2))"
    unfolding farming_deposit_def Let_def by (elim resultE) (auto elim: checked_add_SomeE)
  from s1 assms(4) obtain q p' where ok1: "solvent C a acc s1" and p': "fm_pools s1 = (fm_pools s)(k \<mapsto> p')"
    and u: "\<exists>e. position_of s1 k w = (position_of s k w)\<lparr>reward_amount := e, reward_per_share_paid := reward_per_share_stored p'\<rparr>"
    by (rule update_reward_ok) blast
  from s2 obtain l where l: "s2 = s1\<lparr>fm_ledger := l\<rparr>" "ft_transfer (fm_assets C) (fm_ledger s1) (fst k) w y n False = Inr l"
    by (rule fm_transferE)
  let ?u = "position_of s1 k w" and ?v = "(position_of s1 k w)\<lparr>deposit_balance := deposit_balance (position_of s1 k w) + n\<rparr>"
  have paid: "reward_per_share_paid ?u = reward_per_share_stored p" using u p p' by auto
  have v: "stake_of ?v = stake_of ?u + n" "reward_due p ?v = reward_due p ?u"
    using paid by (simp_all add: stake_of_def reward_due_def)
  show ?thesis
    by (rule position_step [OF ok1 p, of s' _ w ?v])
      (use v scaled_in [OF assms(2) l(2) y] w assms(3) paid
       in \<open>auto simp: s' l(1) position_liability_def distrib_left split: if_splits\<close>)
qed

lemma withdraw_farm_ok:
  assumes "farming_withdraw C s o' k n = Inr s'" and "farm_env C a acc" and "solvent C a acc s"
  shows "solvent C a acc s'"
proof -
  from assms(1) obtain w s1 p u' s2 where w: "o' = Signed w" and s1: "update_reward C s (Some w) k = Inr s1"
    and p: "fm_pools s1 k = Some p" and n: "n \<le> total_deposited p" "n \<le> deposit_balance (position_of s1 k w)"
    and br: "release_stake C s1 k p w ((position_of s1 k w)\<lparr>deposit_balance := deposit_balance (position_of s1 k w) - n\<rparr>) n
      = Inr (u', s2)"
    and s': "s' = fm_put_pool k (p\<lparr>total_deposited := total_deposited p - n\<rparr>)
        (fm_deposit_event (AssetsWithdrew w k n) (fm_put_position k w u' s2))"
    unfolding farming_withdraw_def Let_def by (elim resultE) (auto elim: checked_sub_SomeE)
  from s1 assms(3) obtain q p' where ok1: "solvent C a acc s1" and p': "fm_pools s1 = (fm_pools s)(k \<mapsto> p')"
    and u: "\<exists>e. position_of s1 k w = (position_of s k w)\<lparr>reward_amount := e, reward_per_share_paid := reward_per_share_stored p'\<rparr>"
    by (rule update_reward_ok) blast
  let ?u = "position_of s1 k w"
  have paid: "reward_per_share_paid ?u = reward_per_share_stored p" using u p p' by auto
  have fr: "fm_pools s2 = fm_pools s1 \<and> fm_positions s2 = fm_positions s1 \<and> deposit_balance u' = deposit_balance ?u - n \<and>
      reward_per_share_paid u' = reward_per_share_stored p \<and> reward_due p u' = reward_due p ?u"
    using br paid by (auto simp: release_stake_def bindE_Inr_iff reward_due_def elim!: fm_transferE split: if_splits)
  have pay: "(if fst k = a then amount_per_share * stake_of u' else 0) + amount_per_share * ft_balance (fm_assets C) (fm_ledger s1) a acc
      \<le> (if fst k = a then amount_per_share * stake_of ?u else 0) + amount_per_share * ft_balance (fm_assets C) (fm_ledger s2) a acc"
  proof (cases "cool_down_duration p = 0")
    case True
    with br obtain y l where y: "fm_pool_account C (fst k) = Some y" "ft_transfer (fm_assets C) (fm_ledger s1) (fst k) y w n False = Inr l"
      "fm_ledger s2 = l" "u' = ?u\<lparr>deposit_balance := deposit_balance ?u - n\<rparr>"
      by (auto simp: release_stake_def bindE_Inr_iff elim!: fm_transferE)
    have "stake_of u' + n = stake_of ?u" using n(2) by (simp add: y(4) stake_of_def)
    then have "amount_per_share * stake_of u' + amount_per_share * n = amount_per_share * stake_of ?u" by (metis distrib_left)
    with scaled_out [OF assms(2) y(2,1)] y(3) show ?thesis by (auto split: if_splits)
  next
    case False
    with br have "s2 = s1" "stake_of u' = stake_of ?u" using n(2) by (auto simp: release_stake_def bindE_Inr_iff stake_of_def)
    then show ?thesis by simp
  qed
  show ?thesis
    by (rule position_step [OF ok1 p, of s' _ w u'])
      (use fr pay n in \<open>auto simp: s' position_liability_def split: if_splits\<close>)
qed

section \<open>Redeeming and claiming\<close>

lemma unlocked_total_eq:
  assumes "unlocked_total c now items = Inr t"
  shows "t + sum_list (map fst (filter (\<lambda>i. \<not> unlocked c now i) items)) = sum_list (map fst items)"
proof -
  have "t' + sum_list (map fst (filter (\<lambda>i. \<not> unlocked c now i) items)) = x + sum_list (map fst items)"
    if "foldE (\<lambda>item total. if unlocked c now item
         then ok_or (checked_add total (fst item)) (Arithmetic Overflow) else Inr total) items x =
       (Inr t' :: farming_dispatch_error + balance)" for x t'
    using that
  proof (induction items arbitrary: x)
    case (Cons i items)
    from Cons.prems show ?case
      by (cases "unlocked c now i") (auto simp: bindE_Inr_iff checked_add_def split: if_splits dest!: Cons.IH)
  qed simp
  from this [of 0 t] assms show ?thesis by (simp add: unlocked_total_def)
qed

lemma redeem_farm_ok:
  assumes "farming_redeem C s o' k = Inr s'" and "farm_env C a acc" and "solvent C a acc s"
  shows "solvent C a acc s'"
proof -
  from assms(1) obtain w p t s1 where w: "o' = Signed w" and p: "fm_pools s k = Some p"
    and t: "unlocked_total (cool_down_duration p) (fm_block C) (lock_balance_items (position_of s k w)) = Inr t"
    and s1: "(if 0 < t then bindE (pool_account_id C (fst k)) (\<lambda>acc. fm_transfer C s (fst k) acc w t) else Inr s) = Inr s1"
    and s': "s' = fm_put_position k w ((position_of s k w)\<lparr>lock_balance_items :=
        filter (\<lambda>i. \<not> unlocked (cool_down_duration p) (fm_block C) i) (lock_balance_items (position_of s k w))\<rparr>)
        (fm_deposit_event (AssetsRedeem w k t) s1)"
    unfolding farming_redeem_def Let_def by (elim resultE) auto
  let ?u = "position_of s k w"
  let ?v = "?u\<lparr>lock_balance_items := filter (\<lambda>i. \<not> unlocked (cool_down_duration p) (fm_block C) i) (lock_balance_items ?u)\<rparr>"
  have v: "stake_of ?v + t = stake_of ?u" "reward_due p ?v = reward_due p ?u"
    using unlocked_total_eq [OF t] by (simp_all add: stake_of_def reward_due_def)
  then have v': "amount_per_share * stake_of ?v + amount_per_share * t = amount_per_share * stake_of ?u" by (metis distrib_left)
  have fr: "fm_pools s1 = fm_pools s" "fm_positions s1 = fm_positions s"
    using s1 by (auto simp: bindE_Inr_iff elim!: fm_transferE split: if_splits)
  have pay: "amount_per_share * ft_balance (fm_assets C) (fm_ledger s) a acc
      \<le> amount_per_share * ft_balance (fm_assets C) (fm_ledger s1) a acc + (if fst k = a then amount_per_share * t else 0)"
    using s1 by (auto simp: bindE_Inr_iff elim!: fm_transferE dest!: scaled_out [OF assms(2)] split: if_splits)
  have paid: "reward_per_share_paid ?u \<le> reward_per_share_stored p"
    by (rule position_paid [OF assms(3) p])
  have same: "(fm_pools s)(k \<mapsto> p\<lparr>total_deposited := total_deposited p\<rparr>) = fm_pools s" using p by auto
  show ?thesis
    by (rule position_step [OF assms(3) p, of s' "total_deposited p" w ?v])
      (use v v' fr pay paid same in \<open>auto simp: s' position_liability_def split: if_splits\<close>)
qed

lemma claim_farm_ok:
  assumes "farming_claim C s o' k = Inr s'" and "farm_env C a acc" and "solvent C a acc s"
  shows "solvent C a acc s'"
proof -
  from assms(1) obtain w s1 y u' s2 where w: "o' = Signed w" and s1: "update_reward C s (Some w) k = Inr s1"
    and y: "fm_pool_account C (fst (snd k)) = Some y"
    and br: "(if 0 < reward_amount (position_of s1 k w)
            then bindE (fm_transfer C s1 (fst (snd k)) y w (reward_amount (position_of s1 k w)))
              (\<lambda>s2. Inr ((position_of s1 k w)\<lparr>reward_amount := 0\<rparr>, s2))
            else Inr (position_of s1 k w, s1)) = Inr (u', s2)"
    and s': "s' = fm_put_position k w u' (fm_deposit_event (FarmRewardPaid w k (reward_amount (position_of s1 k w))) s2)"
    unfolding farming_claim_def Let_def by (elim resultE) auto
  from s1 assms(3) obtain q p where ok1: "solvent C a acc s1" and p: "fm_pools s1 = (fm_pools s)(k \<mapsto> p)"
    by (rule update_reward_ok) blast
  let ?u = "position_of s1 k w"
  have pk: "fm_pools s1 k = Some p" by (simp add: p)
  have u': "u' = ?u\<lparr>reward_amount := 0\<rparr>" "fm_pools s2 = fm_pools s1" "fm_positions s2 = fm_positions s1"
    using br by (auto simp: bindE_Inr_iff elim!: fm_transferE split: if_splits)
  have pay: "amount_per_share * ft_balance (fm_assets C) (fm_ledger s1) a acc
      \<le> amount_per_share * ft_balance (fm_assets C) (fm_ledger s2) a acc + (if fst (snd k) = a then amount_per_share * reward_amount ?u else 0)"
    using br y by (auto simp: bindE_Inr_iff elim!: fm_transferE dest!: scaled_out [OF assms(2)] split: if_splits)
  have v: "stake_of u' = stake_of ?u" "reward_due p u' + amount_per_share * reward_amount ?u = reward_due p ?u"
    by (simp_all add: u' stake_of_def reward_due_def)
  have paid: "reward_per_share_paid ?u \<le> reward_per_share_stored p" by (rule position_paid [OF ok1 pk])
  have same: "(fm_pools s1)(k \<mapsto> p\<lparr>total_deposited := total_deposited p\<rparr>) = fm_pools s1" using pk by auto
  show ?thesis
    by (rule position_step [OF ok1 pk, of s' "total_deposited p" w u'])
      (use v u' pay paid same in \<open>auto simp: s' position_liability_def split: if_splits\<close>)
qed

section \<open>Rewards and administration\<close>

text \<open>The new rate promises no more than the rest of the old period and the added amount.\<close>

lemma new_reward_rate_bound:
  assumes "new_reward_rate p now n d = Inr r"
  shows "r * d \<le> (period_finish p - now) * reward_rate p + n"
  using assms unfolding new_reward_rate_def
  by (auto simp: checked_div_def checked_mul_def checked_add_def checked_sub_def bindE_Inr_iff split: if_splits)

lemma dispatch_reward_ok:
  assumes "dispatch_reward C s o' k payer n d = Inr s'" and "farm_env C a acc" and "fm_lookup C payer \<noteq> Some acc"
    and "solvent C a acc s"
  shows "solvent C a acc s'"
proof -
  let ?B = "fm_block C" and ?P = amount_per_share
  from assms(1) obtain s1 p r s2 where s1: "update_reward C s None k = Inr s1" and p: "fm_pools s1 k = Some p"
    and r: "new_reward_rate p ?B n d = Inr r"
    and br: "(if 0 < n then bindE (pool_account_id C (fst (snd k))) (\<lambda>acc.
         bindE (ok_or (fm_lookup C payer) CannotLookup) (\<lambda>from. fm_transfer C s1 (fst (snd k)) from acc n)) else Inr s1) = Inr s2"
    and s': "s' = fm_put_pool k (p\<lparr>reward_duration := d, period_finish := ?B + d, reward_rate := r, last_update_block := ?B\<rparr>)
        (fm_deposit_event (FarmRewardAdded k n) s2)"
    unfolding dispatch_reward_def by (elim resultE) auto
  from s1 assms(4) obtain q p' where ok1: "solvent C a acc s1" and p': "fm_pools s1 = (fm_pools s)(k \<mapsto> p')"
    and q: "update_reward_per_share q ?B = Inr p'" by (rule update_reward_ok) blast
  from q p p' have last: "last_update_block p = min ?B (period_finish p)"
    by (auto simp: update_reward_per_share_def last_reward_block_applicable_def bindE_Inr_iff)
  let ?p = "p\<lparr>reward_duration := d, period_finish := ?B + d, reward_rate := r, last_update_block := ?B\<rparr>"
  have fr: "fm_pools s2 = fm_pools s1" "fm_positions s2 = fm_positions s1"
    using br by (auto simp: bindE_Inr_iff elim!: fm_transferE split: if_splits)
  have pay: "?P * ft_balance (fm_assets C) (fm_ledger s1) a acc + (if fst (snd k) = a then ?P * n else 0)
      \<le> ?P * ft_balance (fm_assets C) (fm_ledger s2) a acc"
    using br assms(3) by (auto simp: bindE_Inr_iff elim!: fm_transferE dest!: scaled_in [OF assms(2)] split: if_splits)
  have "r * d \<le> reward_rate p * (period_finish p - last_update_block p) + n"
    using new_reward_rate_bound [OF r] by (cases "?B \<le> period_finish p") (simp_all add: last mult.commute)
  then have "?P * (r * d) \<le> ?P * (reward_rate p * (period_finish p - last_update_block p) + n)" by (rule mult_le_mono2)
  moreover have "reward_due ?p = reward_due p" by (simp add: reward_due_def fun_eq_iff)
  ultimately have le: "key_liability a k ?p (fm_positions s1 k) \<le> key_liability a k p (fm_positions s1 k) + (if fst (snd k) = a then ?P * n else 0)"
    by (simp add: key_liability_def distrib_left)
  have pool: "pool_ok ?B ?p (fm_positions s1 k)"
    using farming_goodD(1) [OF _ p] ok1 by (auto simp: farming_ok_def pool_ok_def)
  show ?thesis by (rule farming_ok_step [OF ok1 p _ _ pool]) (use fr le pay in \<open>auto simp: s' split: if_splits\<close>)
qed

text \<open>Changes of a pool that do not touch what it owes.\<close>

lemma settings_ok:
  assumes "solvent C a acc s" and "fm_pools s k = Some p" and "fm_pools s' = (fm_pools s)(k \<mapsto> p')"
    and "fm_positions s' = fm_positions s" and "fm_ledger s' = fm_ledger s"
    and "\<And>m. key_liability a k p' m = key_liability a k p m" and "\<And>m. pool_ok (fm_block C) p' m = pool_ok (fm_block C) p m"
  shows "solvent C a acc s'"
proof (rule farming_ok_step [OF assms(1,2,3)])
  show "fm_positions s' = (fm_positions s)(k := fm_positions s k)" using assms(4) by simp
  show "pool_ok (fm_block C) p' (fm_positions s k)"
    using assms(1,2,7) by (auto simp: farming_ok_def intro: farming_goodD(1))
qed (simp add: assms(5,6))

lemma settings_neutral [simp]:
  "key_liability a k (p\<lparr>is_active := b\<rparr>) m = key_liability a k p m" "pool_ok t (p\<lparr>is_active := b\<rparr>) m = pool_ok t p m"
  "key_liability a k (p\<lparr>cool_down_duration := c\<rparr>) m = key_liability a k p m" "pool_ok t (p\<lparr>cool_down_duration := c\<rparr>) m = pool_ok t p m"
  "key_liability a k (p\<lparr>unlock_height := h\<rparr>) m = key_liability a k p m" "pool_ok t (p\<lparr>unlock_height := h\<rparr>) m = pool_ok t p m"
  by (simp_all add: key_liability_def pool_ok_def reward_due_def [abs_def])

lemma farming_create_ok:
  assumes "farming_create C s o' k c = Inr s'" and "solvent C a acc s"
  shows "solvent C a acc s'"
proof -
  let ?p = "pool_info_default\<lparr>cool_down_duration := c\<rparr>"
  from assms(1) have new: "fm_pools s k = None" and s': "s' = fm_deposit_event (PoolAdded k) (fm_put_pool k ?p s)"
    by (auto simp: farming_create_def)
  have good: "farming_good (fm_block C) s" using assms(2) by (simp add: farming_ok_def)
  then have pos: "fm_positions s k = Map.empty" "finite (dom (fm_pools s))" using new unfolding farming_good_def by blast+
  have zero: "key_liability a k ?p Map.empty = 0" "pool_ok (fm_block C) ?p Map.empty"
    by (simp_all add: key_liability_def pool_ok_def pool_info_default_def)
  have "farming_good (fm_block C) s'"
    using good pos zero(2) unfolding farming_good_def by (auto simp: s' simp del: split_paired_All)
  moreover have "farming_liability a s' = farming_liability a s"
  proof -
    have "farming_liability a s' = key_liability a k ?p (fm_positions s k) +
        (\<Sum>j\<in>dom (fm_pools s). key_liability a j (the (fm_pools s' j)) (fm_positions s' j))"
      using pos(2) new by (simp add: farming_liability_def s' domIff)
    also have "(\<Sum>j\<in>dom (fm_pools s). key_liability a j (the (fm_pools s' j)) (fm_positions s' j)) = farming_liability a s"
      unfolding farming_liability_def using new by (intro sum.cong) (auto simp: s')
    finally show ?thesis using zero(1) pos(1) by simp
  qed
  ultimately show ?thesis using assms(2) by (simp add: farming_ok_def s')
qed

section \<open>Every action keeps the pools solvent\<close>

lemma farming_dispatch_ok:
  assumes "farming_dispatch C s o' c = Inr s'" and "farm_env C a acc" and "farm_outsider C acc (FarmCall o' c)"
    and "solvent C a acc s"
  shows "solvent C a acc s'"
proof (cases c)
  case (FarmCreate k d)
  with assms show ?thesis by (auto intro: farming_create_ok)
next
  case (SetPoolStatus k b)
  with assms show ?thesis by (auto simp: set_pool_status_def intro: settings_ok [OF assms(4)])
next
  case (SetPoolCoolDownDuration k d)
  with assms show ?thesis by (auto simp: set_pool_cool_down_duration_def intro: settings_ok [OF assms(4)])
next
  case (ResetPoolUnlockHeight k)
  with assms show ?thesis by (auto simp: reset_pool_unlock_height_def Let_def intro: settings_ok [OF assms(4)])
next
  case (FarmDeposit k n)
  with assms show ?thesis by (auto intro: deposit_ok)
next
  case (FarmWithdraw k n)
  with assms show ?thesis by (auto intro: withdraw_farm_ok)
next
  case (FarmRedeem k)
  with assms show ?thesis by (auto intro: redeem_farm_ok)
next
  case (FarmClaim k)
  with assms show ?thesis by (auto intro: claim_farm_ok)
next
  case (DispatchReward k w n d)
  with assms show ?thesis by (auto intro: dispatch_reward_ok)
qed

lemma farming_good_later: "farming_good t s \<Longrightarrow> t \<le> u \<Longrightarrow> farming_good u s"
  unfolding farming_good_def pool_ok_def by (meson le_trans)

lemma farming_exec_ok:
  assumes "farming_exec (now, s) (C, x) = Inr (now', s')" and "farm_env C a acc" and "farm_outsider C acc x"
    and "farming_ok (fm_assets C) acc a now s"
  shows "farming_ok (fm_assets C) acc a now' s'"
proof (cases x)
  case (FarmCall o' c)
  have "farm_outsider (C\<lparr>fm_block := now\<rparr>) acc x = farm_outsider C acc x" for x
    by (cases "(C, acc, x)" rule: farm_outsider.cases) simp_all
  with FarmCall assms farming_dispatch_ok [of "C\<lparr>fm_block := now\<rparr>" s o' c s' a acc] show ?thesis
    by (auto simp: farm_env_def)
next
  case (FarmOther y)
  with assms(1) obtain l where l: "ledger_exec (fm_assets C) (fm_ledger s) y = Inr l" "s' = s\<lparr>fm_ledger := l\<rparr>" "now' = now"
    by auto
  have "ft_balance (fm_assets C) (fm_ledger s) a acc \<le> ft_balance (fm_assets C) l a acc"
    using assms(2,3) FarmOther l(1) by (intro ledger_exec_spares) (auto simp: farm_env_def exact_custody_def)
  then have "amount_per_share * ft_balance (fm_assets C) (fm_ledger s) a acc \<le> amount_per_share * ft_balance (fm_assets C) l a acc"
    by (rule mult_le_mono2)
  moreover have "farming_good now s' = farming_good now s" "farming_liability a s' = farming_liability a s"
    by (simp_all add: l(2) farming_good_def farming_liability_def)
  ultimately show ?thesis using assms(4) le_trans unfolding farming_ok_def l(3) by (fastforce simp: l(2))
next
  case (FarmBlocks d)
  with assms show ?thesis by (auto simp: farming_ok_def intro: farming_good_later)
qed

interpretation farming: kept_by_calls farming_exec "farming_admitted F a acc" "\<lambda>(now, s). farming_ok F acc a now s"
  for F :: "(nat, 'l) fungibles" and a acc
proof (unfold_locales, goal_cases)
  case (1 c s s')
  obtain C x where c: "c = (C, x)" by (cases c)
  from 1 farming_exec_ok [of "fst s" "snd s" C x "fst s'" "snd s'" a acc] show ?case
    by (auto simp: c farming_admitted_def farm_env_def)
qed

lemma farming_genesis_ok: "farming_ok F acc a now (farming_genesis l)"
  by (simp add: farming_ok_def farming_good_def farming_liability_def farming_genesis_def)

end
