(* ===== verification/Farming_Properties.thy ===== *)
theory Farming_Properties
  imports Farming_Histories
begin

text \<open>
  The properties of the staking pools, with a concrete history: accounts 5 and 6 stake asset 3 for rewards in
  asset 2, account 7 funds 3000 units of reward over 100 blocks, and after 20 blocks account 5
  withdraws a part, which cools down for 10 blocks, and account 6 claims.
\<close>

definition farm_config :: "ref_ledger farming_config" where
  "farm_config = \<lparr>fm_assets = fungibles_ref, fm_pool_account = (\<lambda>a. Some (100 + a)), fm_lookup = Some,
     fm_update_origin = (\<lambda>x. x = Root), fm_max_user_lock_items = 3, fm_lock_pool_max_duration = 1000,
     fm_cool_down_max_duration = 50, fm_block = 0\<rparr>"

definition farm_script :: "block_number \<Rightarrow> (ref_ledger farming_config \<times> farming_action) list" where
  "farm_script c = map (Pair farm_config)
     [FarmOther (LedgerMint 3 5 5000), FarmOther (LedgerMint 3 6 5000), FarmOther (LedgerMint 2 7 5000),
      FarmCall Root (FarmCreate (3, 2, 0) c), FarmCall Root (SetPoolStatus (3, 2, 0) True),
      FarmCall (Signed 5) (FarmDeposit (3, 2, 0) 1000), FarmCall (Signed 6) (FarmDeposit (3, 2, 0) 500),
      FarmCall Root (DispatchReward (3, 2, 0) 7 3000 100), FarmBlocks 20,
      FarmCall (Signed 5) (FarmWithdraw (3, 2, 0) 400), FarmCall (Signed 6) (FarmClaim (3, 2, 0))]"

definition farm_start :: "block_number \<times> ref_ledger farming_state" where
  "farm_start = (1, farming_genesis \<lparr>lg_balance = (\<lambda>a w. 0), lg_issuance = (\<lambda>a. 0)\<rparr>)"

definition farm_final :: "block_number \<Rightarrow> block_number \<times> ref_ledger farming_state" where
  "farm_final c = run_calls farming_exec (farm_script c) farm_start"

lemmas farm_eval = Let_def farm_config_def farm_script_def farm_start_def farm_final_def run_calls_def farming_genesis_def
  fungibles_ref_def ref_transfer_def ref_mint_def ensure_signed_def ensure_origin_def
  checked_add_def checked_sub_def checked_mul_def checked_div_def to_u128_def saturating_sub_def
  pool_info_default_def user_position_default_def last_reward_block_applicable_def amount_per_share_def
  reward_per_share_def update_reward_per_share_def fm_deposit_event_def fm_put_pool_def position_of_def
  fm_put_position_def fm_transfer_def pool_account_id_def fm_pool_def earned_reward_def update_reward_def
  farming_create_def set_pool_status_def farming_deposit_def release_stake_def farming_withdraw_def unlocked_def
  unlocked_total_def farming_redeem_def farming_claim_def new_reward_rate_def dispatch_reward_def

lemma farm_final_reached:
  "history farming_exec (farming_admitted fungibles_ref 2 102) farm_start (farm_final c)"
  "history farming_exec (farming_admitted fungibles_ref 3 103) farm_start (farm_final c)"
  unfolding farm_final_def
  by (rule run_calls_history; simp add: farm_script_def farming_admitted_def, simp add: farm_config_def)+

lemma farm_final_pool: "map_option total_deposited (fm_pools (snd (farm_final 10)) (3, 2, 0)) = Some 1100 \<and>
   lg_balance (fm_ledger (snd (farm_final 10))) 2 102 = 2800 \<and> lg_balance (fm_ledger (snd (farm_final 10))) 2 6 = 200 \<and>
   fst (farm_final 10) = 21"
  by (simp add: farm_eval)

section \<open>Solvency\<close>

text \<open>C11. Solvency: in every reachable state, under any interleaving of calls, ledger activity of others and
  blocks, the account of an asset holds everything the pools owe in it: all stakes and the
  withdrawals that cool down, all credited and accrued rewards, and the rewards of the rest of
  every reward period; and the recorded total of a pool is the sum of its stakers' deposits.\<close>

theorem farming_solvent:
  assumes "history farming_exec (farming_admitted F a acc) (t, farming_genesis l) (now, s)"
  shows "farming_liability a s \<le> amount_per_share * ft_balance F (fm_ledger s) a acc \<and>
    (\<forall>k p. fm_pools s k = Some p \<longrightarrow> total_deposited p = sum_entries deposit_balance (fm_positions s k))"
proof -
  have "farming_ok F acc a now s"
    using farming.history_inv [OF assms] farming_genesis_ok [of F acc a t l] by simp
  then show ?thesis unfolding farming_ok_def farming_good_def pool_ok_def by blast
qed

theorem farming_solvent_witness:
  "map_option total_deposited (fm_pools (snd (farm_final 10)) (3, 2, 0)) = Some 1100 \<and>
   farming_liability 2 (snd (farm_final 10)) \<le> amount_per_share * 2800"
proof
  have "history farming_exec (farming_admitted fungibles_ref 2 102)
      (1, farming_genesis \<lparr>lg_balance = (\<lambda>a w. 0), lg_issuance = (\<lambda>a. 0)\<rparr>) (21, snd (farm_final 10))"
    using farm_final_reached(1) [of 10] farm_final_pool unfolding farm_start_def by (metis prod.collapse)
  from farming_solvent [OF this] farm_final_pool
  show "farming_liability 2 (snd (farm_final 10)) \<le> amount_per_share * 2800" by (simp add: fungibles_ref_def)
qed (simp add: farm_final_pool)

section \<open>Leaving a pool\<close>

text \<open>A redemption respects the cool-down: it pays exactly the queued withdrawals whose cool-down has passed,
  credits them to the account, and keeps the others in the queue.\<close>

theorem redeem_respects_cool_down:
  assumes "farming_redeem C s (Signed w) k = Inr s'" and "fm_pools s k = Some p" and "fm_pool_account C (fst k) \<noteq> Some w"
    and laws: "fungibles_laws (fm_assets C)" "credit_law (fm_assets C)"
  shows "let items = lock_balance_items (position_of s k w);
             kept = filter (\<lambda>i. fm_block C < min (snd i + cool_down_duration p) u32_max) items;
             paid = sum_list (map fst items) - sum_list (map fst kept) in
    lock_balance_items (position_of s' k w) = kept \<and> sum_list (map fst kept) \<le> sum_list (map fst items) \<and>
    ft_balance (fm_assets C) (fm_ledger s) (fst k) w + paid \<le> ft_balance (fm_assets C) (fm_ledger s') (fst k) w"
proof -
  let ?I = "lock_balance_items (position_of s k w)" and ?c = "cool_down_duration p" and ?b = "fm_block C"
  let ?K = "filter (\<lambda>i. \<not> unlocked ?c ?b i) ?I"
  have K: "?K = filter (\<lambda>i. ?b < min (snd i + ?c) u32_max) ?I" by (rule filter_cong) (auto simp: unlocked_def)
  from assms(1,2) obtain t s1 where t: "unlocked_total ?c ?b ?I = Inr t"
    and s1: "(if 0 < t then bindE (pool_account_id C (fst k)) (\<lambda>acc. fm_transfer C s (fst k) acc w t) else Inr s) = Inr s1"
    and s': "s' = fm_put_position k w ((position_of s k w)\<lparr>lock_balance_items := ?K\<rparr>) (fm_deposit_event (AssetsRedeem w k t) s1)"
    unfolding farming_redeem_def Let_def by (elim resultE) auto
  have "ft_balance (fm_assets C) (fm_ledger s) (fst k) w + t \<le> ft_balance (fm_assets C) (fm_ledger s1) (fst k) w"
    using s1 assms(3) by (auto simp: bindE_Inr_iff elim!: fm_transferE dest!: credit_at_least [OF laws, of _ _ _ _ _ _ _ "fst k"] split: if_splits)
  moreover have "t + sum_list (map fst ?K) = sum_list (map fst ?I)" by (rule unlocked_total_eq [OF t])
  ultimately have "lock_balance_items (position_of s' k w) = ?K \<and> sum_list (map fst ?K) \<le> sum_list (map fst ?I) \<and>
    ft_balance (fm_assets C) (fm_ledger s) (fst k) w + (sum_list (map fst ?I) - sum_list (map fst ?K))
      \<le> ft_balance (fm_assets C) (fm_ledger s') (fst k) w"
    by (auto simp: s')
  then show ?thesis unfolding K Let_def .
qed

theorem redeem_respects_cool_down_witness:
  "\<exists>s'. farming_redeem (farm_config\<lparr>fm_block := 31\<rparr>) (snd (farm_final 10)) (Signed 5) (3, 2, 0) = Inr s' \<and>
     lock_balance_items (position_of s' (3, 2, 0) 5) = [] \<and> 4000 + 400 \<le> ft_balance fungibles_ref (fm_ledger s') 3 5 \<and>
   (\<exists>s'. farming_redeem (farm_config\<lparr>fm_block := 30\<rparr>) (snd (farm_final 10)) (Signed 5) (3, 2, 0) = Inr s' \<and>
     lock_balance_items (position_of s' (3, 2, 0) 5) = [(400, 21)])"
proof -
  let ?s = "snd (farm_final 10)" and ?k = "(3, 2, 0) :: farm_key"
  obtain p where p: "fm_pools ?s ?k = Some p" "cool_down_duration p = 10" by (simp add: farm_eval)
  have I: "lock_balance_items (position_of ?s ?k 5) = [(400, 21)]" "lg_balance (fm_ledger ?s) 3 5 = 4000" by (simp_all add: farm_eval)
  have C: "fm_assets (farm_config\<lparr>fm_block := b\<rparr>) = fungibles_ref" "fm_pool_account (farm_config\<lparr>fm_block := b\<rparr>) (fst ?k) \<noteq> Some 5" for b
    by (simp_all add: farm_config_def)
  obtain s1 s2 where s: "farming_redeem (farm_config\<lparr>fm_block := 31\<rparr>) ?s (Signed 5) ?k = Inr s1"
    "farming_redeem (farm_config\<lparr>fm_block := 30\<rparr>) ?s (Signed 5) ?k = Inr s2" by (simp add: farm_eval)
  have B: "ft_balance fungibles_ref l a w = lg_balance l a w" for l a w by (simp add: fungibles_ref_def)
  from redeem_respects_cool_down [OF s(1) p(1) C(2)] redeem_respects_cool_down [OF s(2) p(1) C(2)] s
  show ?thesis by (simp add: C(1) I p(2) Let_def B)
qed

lemma update_reward_frame:
  assumes "update_reward C s (Some w) k = Inr s'" and "fm_pools s k = Some p"
  obtains p' where "fm_pools s' k = Some p'" and "total_deposited p' = total_deposited p" and "cool_down_duration p' = cool_down_duration p"
    and "deposit_balance (position_of s' k w) = deposit_balance (position_of s k w)" and "fm_ledger s' = fm_ledger s"
  using assms unfolding update_reward_def
  by (elim resultE) (auto simp: bindE_Inr_iff update_reward_per_share_def earned_reward_def intro!: that)

lemma deposit_frame:
  assumes "farming_deposit C s (Signed w) k n = Inr s'" and "fm_pools s k = Some p"
  obtains p' y where "fm_pools s' k = Some p'" and "total_deposited p' = total_deposited p + n"
    and "cool_down_duration p' = cool_down_duration p"
    and "deposit_balance (position_of s' k w) = deposit_balance (position_of s k w) + n"
    and "fm_pool_account C (fst k) = Some y" and "ft_transfer (fm_assets C) (fm_ledger s) (fst k) w y n False = Inr (fm_ledger s')"
proof -
  from assms(1) obtain s1 where "update_reward C s (Some w) k = Inr s1" by (auto simp: farming_deposit_def bindE_Inr_iff)
  then obtain p1 where s1: "update_reward C s (Some w) k = Inr s1" "fm_pools s1 k = Some p1" "total_deposited p1 = total_deposited p"
      "cool_down_duration p1 = cool_down_duration p" "deposit_balance (position_of s1 k w) = deposit_balance (position_of s k w)"
      "fm_ledger s1 = fm_ledger s" using assms(2) by (auto elim: update_reward_frame)
  with assms(1) show thesis unfolding farming_deposit_def Let_def
    by (elim resultE) (auto elim!: fm_transferE checked_add_SomeE simp: position_of_def intro!: that)
qed

lemma withdraw_frame:
  assumes "farming_withdraw C s (Signed w) k n = Inr s'" and "fm_pools s k = Some p"
  obtains p' where "fm_pools s' k = Some p'" and "total_deposited p' = total_deposited p - n"
    and "deposit_balance (position_of s' k w) = deposit_balance (position_of s k w) - n"
    and "cool_down_duration p = 0 \<Longrightarrow> \<exists>y. fm_pool_account C (fst k) = Some y \<and>
           ft_transfer (fm_assets C) (fm_ledger s) (fst k) y w n False = Inr (fm_ledger s')"
proof -
  from assms(1) obtain s1 where "update_reward C s (Some w) k = Inr s1" by (auto simp: farming_withdraw_def bindE_Inr_iff)
  then obtain p1 where s1: "update_reward C s (Some w) k = Inr s1" "fm_pools s1 k = Some p1" "total_deposited p1 = total_deposited p"
      "cool_down_duration p1 = cool_down_duration p" "deposit_balance (position_of s1 k w) = deposit_balance (position_of s k w)"
      "fm_ledger s1 = fm_ledger s" using assms(2) by (auto elim: update_reward_frame)
  with assms(1) obtain u s2 where u: "release_stake C s1 k p1 w ((position_of s1 k w)\<lparr>deposit_balance := deposit_balance (position_of s1 k w) - n\<rparr>) n = Inr (u, s2)"
    and s': "s' = fm_put_pool k (p1\<lparr>total_deposited := total_deposited p1 - n\<rparr>) (fm_deposit_event (AssetsWithdrew w k n) (fm_put_position k w u s2))"
    unfolding farming_withdraw_def Let_def by (elim resultE) (auto elim: checked_sub_SomeE)
  have "deposit_balance u = deposit_balance (position_of s1 k w) - n"
    using u by (auto simp: release_stake_def bindE_Inr_iff split: if_splits)
  moreover have "\<exists>y. fm_pool_account C (fst k) = Some y \<and> ft_transfer (fm_assets C) (fm_ledger s) (fst k) y w n False = Inr (fm_ledger s')"
    if "cool_down_duration p = 0"
    using u that s1(4,6) by (auto simp: release_stake_def bindE_Inr_iff s' elim!: fm_transferE)
  ultimately show thesis using s1 by (intro that [of "p1\<lparr>total_deposited := total_deposited p1 - n\<rparr>"]) (simp_all add: s' position_of_def)
qed

text \<open>Staking is reversible: in a pool without cool-down, a deposit followed by a withdrawal of the same amount in
  the same block restores the deposit of the account and the total of the pool, and the account
  holds at least what it held before.\<close>

theorem stake_round_trip:
  assumes "farming_deposit C s (Signed w) k n = Inr s1" and "farming_withdraw C s1 (Signed w) k n = Inr s2"
    and "fm_pools s k = Some p" and "cool_down_duration p = 0" and "fm_pool_account C (fst k) \<noteq> Some w"
    and laws: "exact_custody (fm_assets C) (fst k)"
  shows "deposit_balance (position_of s2 k w) = deposit_balance (position_of s k w) \<and>
    map_option total_deposited (fm_pools s2 k) = Some (total_deposited p) \<and>
    ft_balance (fm_assets C) (fm_ledger s) (fst k) w \<le> ft_balance (fm_assets C) (fm_ledger s2) (fst k) w"
proof -
  from deposit_frame [OF assms(1,3)] obtain p1 y where d: "fm_pools s1 k = Some p1" "total_deposited p1 = total_deposited p + n"
      "cool_down_duration p1 = cool_down_duration p" "deposit_balance (position_of s1 k w) = deposit_balance (position_of s k w) + n"
      "fm_pool_account C (fst k) = Some y" "ft_transfer (fm_assets C) (fm_ledger s) (fst k) w y n False = Inr (fm_ledger s1)" .
  from withdraw_frame [OF assms(2) d(1)] obtain p2 where f: "fm_pools s2 k = Some p2"
      "total_deposited p2 = total_deposited p1 - n" "deposit_balance (position_of s2 k w) = deposit_balance (position_of s1 k w) - n"
      "cool_down_duration p1 = 0 \<Longrightarrow> \<exists>y. fm_pool_account C (fst k) = Some y \<and>
         ft_transfer (fm_assets C) (fm_ledger s1) (fst k) y w n False = Inr (fm_ledger s2)" by blast
  from f(4) d(3) assms(4) obtain x where x: "fm_pool_account C (fst k) = Some x"
      "ft_transfer (fm_assets C) (fm_ledger s1) (fst k) x w n False = Inr (fm_ledger s2)" by auto
  have "y \<noteq> w" "x \<noteq> w" using d(5) x(1) assms(5) by auto
  then have "ft_balance (fm_assets C) (fm_ledger s) (fst k) w \<le> ft_balance (fm_assets C) (fm_ledger s2) (fst k) w"
    using exact_custodyD(1) [OF laws d(6)] exact_custodyD(2) [OF laws x(2)] by simp
  with d f show ?thesis by simp
qed

theorem stake_round_trip_witness:
  "\<exists>s1 s2. farming_deposit (farm_config\<lparr>fm_block := 21\<rparr>) (snd (farm_final 0)) (Signed 6) (3, 2, 0) 70 = Inr s1 \<and>
     farming_withdraw (farm_config\<lparr>fm_block := 21\<rparr>) s1 (Signed 6) (3, 2, 0) 70 = Inr s2 \<and>
     deposit_balance (position_of s2 (3, 2, 0) 6) = 500"
proof -
  let ?s = "snd (farm_final 0)" and ?k = "(3, 2, 0) :: farm_key" and ?C = "farm_config\<lparr>fm_block := 21\<rparr>"
  obtain p where p: "fm_pools ?s ?k = Some p" "cool_down_duration p = 0" "deposit_balance (position_of ?s ?k 6) = 500"
    by (simp add: farm_eval)
  obtain s1 s2 where s: "farming_deposit ?C ?s (Signed 6) ?k 70 = Inr s1" "farming_withdraw ?C s1 (Signed 6) ?k 70 = Inr s2"
    by (simp add: farm_eval)
  have "fm_pool_account ?C (fst ?k) \<noteq> Some 6" "exact_custody (fm_assets ?C) (fst ?k)" by (simp_all add: farm_config_def)
  from stake_round_trip [OF s p(1,2) this] p(3) s show ?thesis by auto
qed

end
