(* ===== verification/Stableswap.thy ===== *)
theory Stableswap
  imports Pallet_Traits Fungibles
begin

text \<open>
  The exchange for assets of equal value (src/pallets/stableswap/src/lib.rs, helpers.rs and types.rs).

  The invariant \<open>D\<close> of a pool and the reserve that goes with it are computed by at most 255 steps of an
  iteration: \<open>compute_d_loop\<close> and \<open>compute_base_loop\<close> count the remaining steps.  The numbers of
  \<open>sp_runtime::biguint::BigUint\<close> are unbounded, so they are \<open>nat\<close>; their division goes through \<open>u128\<close> and
  takes a number that does not fit as zero (\<open>big_div\<close>).  An \<open>unwrap\<close> of an error and an
  unchecked operation that overflows are \<open>Panic\<close>.  The pool type of types.rs is the one of the traits
  crate (theory \<open>Pallet_Traits\<close>), field by field.  Sum and quotient of two \<open>Permill\<close> extend the
  arithmetic parameter.
\<close>

datatype stableswap_error =
    PoolDoesNotExist | ConversionToU128Failed | InsufficientSupplyOut | InsufficientLiquidity
  | InsufficientAmountOut | InsufficientAmountIn | InvalidInvariant | LpTokenAlreadyExists
  | PoolAlreadyExists | IdenticalAssets | NotAnIdealPrice

type_synonym ss_dispatch_error = "stableswap_error dispatch_error"

datatype stableswap_event =
    DeltaCalculated currency_id currency_id nat
  | Traded account_id currency_id currency_id balance balance currency_id balance balance
  | PoolCreated account_id currency_id currency_id currency_id
  | LiquidityAdded account_id currency_id currency_id balance balance currency_id balance balance
  | LiquidityRemoved account_id currency_id currency_id balance balance balance currency_id balance balance

record 'l stableswap_state =
  ss_pools :: "currency_id \<times> currency_id \<rightharpoonup> pool"
  ss_ledger :: 'l
  ss_events :: "stableswap_event list"

record stable_arith = sp_arith +
  pm_checked_add :: "nat \<Rightarrow> nat \<Rightarrow> nat option"
  pm_div :: "nat \<Rightarrow> nat \<Rightarrow> nat"

record 'l stableswap_config =
  ss_arith :: stable_arith
  ss_assets :: "(nat, 'l) fungibles"
  ss_pallet_account :: account_id
  ss_protocol_fee_receiver :: account_id
  ss_lp_fee :: ratio
  ss_lock_account :: account_id
  ss_protocol_fee :: ratio
  ss_minimum_liquidity :: balance
  ss_num_tokens :: nat
  ss_precision :: nat
  ss_amplification_coefficient :: nat
  ss_create_pool_origin :: "origin \<Rightarrow> bool"
  ss_block :: block_number
  ss_pool_keys :: "(currency_id \<times> currency_id) list"

section \<open>The invariant\<close>

definition big_div :: "nat \<Rightarrow> nat \<Rightarrow> nat" where
  "big_div a b =
     (let nu = (if a \<le> u128_max then a else 0); de = (if b \<le> u128_max then b else 0) in
      if de = 0 then 0 else nu div de)"

text \<open>Two consecutive values of an iteration that differ by at most one end it.\<close>

definition close_to :: "nat \<Rightarrow> nat \<Rightarrow> bool" where
  "close_to x x_prev = (if x > x_prev then x - x_prev \<le> 1 else x_prev - x \<le> 1)"

fun compute_d_loop :: "nat \<Rightarrow> nat \<Rightarrow> nat \<Rightarrow> nat \<Rightarrow> nat \<Rightarrow> nat \<Rightarrow> ss_dispatch_error + nat" where
  "compute_d_loop 0 ann sum_xy base_n quote_n d = Inl (Other ''could not compute d'')"
| "compute_d_loop (Suc k) ann sum_xy base_n quote_n d =
     (let d_p = big_div (big_div (d * d) base_n * d) quote_n;
          numerator = (ann * sum_xy + d_p * 2) * d in
      bindE (ok_or (checked_sub (ann * d + 3 * d_p) d) (Arithmetic Underflow)) (\<lambda>denominator.
      let d' = big_div numerator denominator in
      if close_to d' d then ok_or (to_u128 d') (Arithmetic Overflow)
      else compute_d_loop k ann sum_xy base_n quote_n d'))"

definition compute_d :: "nat \<Rightarrow> nat \<Rightarrow> nat \<Rightarrow> ss_dispatch_error + nat" where
  "compute_d base_asset_aum quote_asset_aum amp_coeff =
     (let sum_xy = base_asset_aum + quote_asset_aum in
      if sum_xy = 0 then Inr 0
      else compute_d_loop 255 (amp_coeff * 2 * 2) sum_xy (base_asset_aum * 2) (quote_asset_aum * 2) sum_xy)"

fun compute_base_loop :: "nat \<Rightarrow> nat \<Rightarrow> nat \<Rightarrow> nat \<Rightarrow> nat \<Rightarrow> nat \<Rightarrow> ss_dispatch_error + nat" where
  "compute_base_loop 0 ann s d term1 y = Inl (Other ''Error computing d'')"
| "compute_base_loop (Suc k) ann s d term1 y =
     bindE (ok_or (checked_sub (2 * y + s) d) (Arithmetic Underflow)) (\<lambda>term2.
     let y' = big_div (ann * y * y + term1) (ann * term2 + d) in
     if close_to y' y then ok_or (to_u128 y') (Arithmetic Overflow)
     else compute_base_loop k ann s d term1 y')"

definition compute_base :: "nat \<Rightarrow> nat \<Rightarrow> nat \<Rightarrow> ss_dispatch_error + nat" where
  "compute_base new_quote amp_coeff d =
     (let d_n = big_div d 2; term1 = big_div (d_n * d_n * d) new_quote in
      compute_base_loop 255 (amp_coeff * 2 * 2) new_quote d term1 d)"

definition delta_util :: "'l stableswap_config \<Rightarrow> balance \<Rightarrow> balance \<Rightarrow> ss_dispatch_error + balance" where
  "delta_util C x y = compute_d x y (ss_amplification_coefficient C)"

definition get_base :: "balance \<Rightarrow> balance \<Rightarrow> balance \<Rightarrow> ss_dispatch_error + balance" where
  "get_base new_quote amp_coeff d = compute_base new_quote amp_coeff d"

definition unwrap :: "ss_dispatch_error + 'a \<Rightarrow> ss_dispatch_error + 'a" where
  "unwrap m = map_err (\<lambda>_. Panic) m"

definition do_get_delta_on_the_fly :: "'l stableswap_config \<Rightarrow> balance \<times> balance \<Rightarrow> ss_dispatch_error + balance" where
  "do_get_delta_on_the_fly C totals = unwrap (delta_util C (fst totals) (snd totals))"

section \<open>Helpers\<close>

definition ss_deposit_event :: "stableswap_event \<Rightarrow> 'l stableswap_state \<Rightarrow> 'l stableswap_state" where
  "ss_deposit_event e s = s\<lparr>ss_events := ss_events s @ [e]\<rparr>"

definition ss_put_pool :: "currency_id \<Rightarrow> currency_id \<Rightarrow> pool \<Rightarrow> 'l stableswap_state \<Rightarrow> 'l stableswap_state" where
  "ss_put_pool b q p s = s\<lparr>ss_pools := (ss_pools s)((b, q) \<mapsto> p)\<rparr>"

definition ss_issuance :: "'l stableswap_config \<Rightarrow> 'l stableswap_state \<Rightarrow> currency_id \<Rightarrow> balance" where
  "ss_issuance C s a = ft_total_issuance (ss_assets C) (ss_ledger s) a"

definition ss_ledger_step :: "'l stableswap_state \<Rightarrow> nat + 'l \<Rightarrow> ss_dispatch_error + 'l stableswap_state" where
  "ss_ledger_step s m = bindE (map_err External m) (\<lambda>l. Inr (s\<lparr>ss_ledger := l\<rparr>))"

definition ss_transfer ::
    "'l stableswap_config \<Rightarrow> 'l stableswap_state \<Rightarrow> currency_id \<Rightarrow> account_id \<Rightarrow> account_id \<Rightarrow> balance \<Rightarrow> bool
     \<Rightarrow> ss_dispatch_error + 'l stableswap_state" where
  "ss_transfer C s a from to n keep_alive = ss_ledger_step s (ft_transfer (ss_assets C) (ss_ledger s) a from to n keep_alive)"

definition ss_mint_into ::
    "'l stableswap_config \<Rightarrow> 'l stableswap_state \<Rightarrow> currency_id \<Rightarrow> account_id \<Rightarrow> balance
     \<Rightarrow> ss_dispatch_error + 'l stableswap_state" where
  "ss_mint_into C s a who n = ss_ledger_step s (ft_mint_into (ss_assets C) (ss_ledger s) a who n)"

definition ss_burn_from ::
    "'l stableswap_config \<Rightarrow> 'l stableswap_state \<Rightarrow> currency_id \<Rightarrow> account_id \<Rightarrow> balance
     \<Rightarrow> ss_dispatch_error + 'l stableswap_state" where
  "ss_burn_from C s a who n = ss_ledger_step s (ft_burn_from (ss_assets C) (ss_ledger s) a who n)"

definition ss_account_id :: "'l stableswap_config \<Rightarrow> account_id" where
  "ss_account_id C = ss_pallet_account C"

definition ss_lock_account_id :: "'l stableswap_config \<Rightarrow> account_id" where
  "ss_lock_account_id C = ss_lock_account C"

definition ss_protocol_fee_on :: "'l stableswap_config \<Rightarrow> bool" where
  "ss_protocol_fee_on C \<longleftrightarrow> ss_protocol_fee C \<noteq> 0"

definition ss_quote :: "balance \<Rightarrow> balance \<Rightarrow> balance \<Rightarrow> ss_dispatch_error + balance" where
  "ss_quote base_amt base_pool quote_pool =
     ok_or (Option.bind (checked_mul base_amt quote_pool) (\<lambda>r. checked_div r base_pool)) (Arithmetic Underflow)"

definition ss_sort_assets ::
    "currency_id \<times> currency_id \<Rightarrow> ss_dispatch_error + bool \<times> currency_id \<times> currency_id" where
  "ss_sort_assets pair = (case pair of (curr_a, curr_b) \<Rightarrow>
     if curr_b < curr_a then Inr (False, curr_a, curr_b)
     else if curr_a < curr_b then Inr (True, curr_b, curr_a)
     else Inl (Module IdenticalAssets))"

definition ss_get_ideal_amounts :: "pool \<Rightarrow> balance \<times> balance \<Rightarrow> ss_dispatch_error + balance \<times> balance" where
  "ss_get_ideal_amounts p amounts = (case amounts of (base_amt, quote_amt) \<Rightarrow>
     if pool_is_empty p then Inr (base_amt, quote_amt)
     else bindE (ss_quote base_amt (base_amount p) (quote_amount p)) (\<lambda>ideal_quote.
       if ideal_quote \<le> quote_amt then Inr (base_amt, ideal_quote)
       else bindE (ss_quote quote_amt (quote_amount p) (base_amount p)) (\<lambda>ideal_base. Inr (ideal_base, quote_amt))))"

definition ss_get_protocol_fee_reciprocal_proportion :: "'l stableswap_config \<Rightarrow> ss_dispatch_error + balance" where
  "ss_get_protocol_fee_reciprocal_proportion C =
     ok_or (map_option (\<lambda>r. pm_saturating_reciprocal_mul_floor (ss_arith C) (pm_div (ss_arith C) (ss_protocol_fee C) r) 1)
             (pm_checked_add (ss_arith C) (ss_protocol_fee C) (ss_lp_fee C))) (Arithmetic Underflow)"

definition ss_get_reserves ::
    "'l stableswap_state \<Rightarrow> currency_id \<Rightarrow> currency_id \<Rightarrow> ss_dispatch_error + balance \<times> balance" where
  "ss_get_reserves s asset_in asset_out =
     bindE (ss_sort_assets (asset_in, asset_out)) (\<lambda>(is_inverted, base_asset, quote_asset).
     bindE (ok_or (ss_pools s (base_asset, quote_asset)) (Module PoolDoesNotExist)) (\<lambda>p.
     if is_inverted then Inr (quote_amount p, base_amount p) else Inr (base_amount p, quote_amount p)))"

section \<open>Quotes\<close>

definition fees_on :: "'l stableswap_config \<Rightarrow> balance \<Rightarrow> ss_dispatch_error + balance" where
  "fees_on C amount_in =
     ok_or (map_option (\<lambda>r. pm_mul_floor (ss_arith C) r amount_in)
             (pm_checked_add (ss_arith C) (ss_lp_fee C) (ss_protocol_fee C))) (Arithmetic Overflow)"

definition ss_get_amount_out ::
    "'l stableswap_config \<Rightarrow> balance \<Rightarrow> balance \<Rightarrow> balance \<Rightarrow> ss_dispatch_error + balance" where
  "ss_get_amount_out C amount_in pool_base_aum pool_quote_aum =
     bindE (fees_on C amount_in) (\<lambda>fees.
     bindE (ok_or (checked_sub amount_in fees) (Arithmetic Underflow)) (\<lambda>net.
     bindE (delta_util C pool_base_aum pool_quote_aum) (\<lambda>d.
     bindE (ok_or (checked_add pool_quote_aum net) (Arithmetic Overflow)) (\<lambda>new_quote_amount.
     bindE (get_base new_quote_amount (ss_amplification_coefficient C) d) (\<lambda>new_base_amount.
     ok_or (checked_sub pool_base_aum new_base_amount) (Arithmetic Underflow))))))"

definition get_amount_out_1 ::
    "'l stableswap_config \<Rightarrow> balance \<Rightarrow> balance \<Rightarrow> balance \<Rightarrow> ss_dispatch_error + balance" where
  "get_amount_out_1 C amount_in reserve_in reserve_out =
     bindE (fees_on C amount_in) (\<lambda>fees.
     bindE (ok_or (checked_sub amount_in fees) (Arithmetic Underflow)) (\<lambda>net.
     bindE (ok_or (checked_mul net reserve_out) (Arithmetic Overflow)) (\<lambda>numerator.
     bindE (ok_or (checked_add reserve_in net) (Arithmetic Overflow)) (\<lambda>denominator.
     ok_or (checked_div numerator denominator) (Arithmetic Underflow)))))"

definition ss_get_amount_in ::
    "'l stableswap_config \<Rightarrow> balance \<Rightarrow> balance \<Rightarrow> balance \<Rightarrow> ss_dispatch_error + balance" where
  "ss_get_amount_in C amount_out reserve_in reserve_out =
     bindE (ensure (amount_out < reserve_out) (Module InsufficientSupplyOut)) (\<lambda>_.
     bindE (ok_or (checked_mul reserve_in amount_out) (Arithmetic Overflow)) (\<lambda>numerator.
     bindE (ok_or (checked_sub reserve_out amount_out) (Arithmetic Underflow)) (\<lambda>denominator.
     bindE (ok_or (checked_div numerator denominator) (Arithmetic Underflow)) (\<lambda>amount_in.
     bindE (ok_or (Option.bind (pm_checked_add (ss_arith C) (ss_lp_fee C) (ss_protocol_fee C))
                     (\<lambda>r. pm_checked_sub (ss_arith C) PM r)) (Arithmetic Underflow)) (\<lambda>fee_percent.
     ok_or (checked_add (pm_saturating_reciprocal_mul_floor (ss_arith C) fee_percent amount_in) 1)
       (Arithmetic Overflow))))))"

fun ss_get_amounts_out ::
    "'l stableswap_config \<Rightarrow> 'l stableswap_state \<Rightarrow> balance \<Rightarrow> currency_id list \<Rightarrow> ss_dispatch_error + balance list" where
  "ss_get_amounts_out C s amount_in [] = Inl Panic"
| "ss_get_amounts_out C s amount_in [a] = Inr [amount_in]"
| "ss_get_amounts_out C s amount_in (a # b # path) =
     bindE (ss_get_reserves s a b) (\<lambda>(reserve_in, reserve_out).
     bindE (ss_get_amount_out C amount_in reserve_in reserve_out) (\<lambda>amount_out.
     bindE (ss_get_amounts_out C s amount_out (b # path)) (\<lambda>amounts. Inr (amount_in # amounts))))"

fun ss_get_amounts_in ::
    "'l stableswap_config \<Rightarrow> 'l stableswap_state \<Rightarrow> balance \<Rightarrow> currency_id list \<Rightarrow> ss_dispatch_error + balance list" where
  "ss_get_amounts_in C s amount_out [] = Inl Panic"
| "ss_get_amounts_in C s amount_out [a] = Inr [amount_out]"
| "ss_get_amounts_in C s amount_out (a # b # path) =
     bindE (ss_get_amounts_in C s amount_out (b # path)) (\<lambda>amounts.
     bindE (ss_get_reserves s a b) (\<lambda>(reserve_in, reserve_out).
     bindE (ss_get_amount_in C (hd amounts) reserve_in reserve_out) (\<lambda>amount_in. Inr (amount_in # amounts))))"

definition get_exchange_value ::
    "'l stableswap_config \<Rightarrow> 'l stableswap_state \<Rightarrow> currency_id \<times> currency_id \<Rightarrow> balance \<Rightarrow> ss_dispatch_error + balance" where
  "get_exchange_value C s pair amount =
     bindE (ss_sort_assets pair) (\<lambda>(_, base_asset, quote_asset).
     bindE (ok_or (ss_pools s (base_asset, quote_asset)) (Module PoolDoesNotExist)) (\<lambda>p.
     bindE (delta_util C (base_amount p) (quote_amount p)) (\<lambda>d.
     bindE (ok_or (checked_add (quote_amount p) amount) (Arithmetic Underflow)) (\<lambda>new_quote_amount.
     bindE (get_base new_quote_amount (ss_amplification_coefficient C) d) (\<lambda>new_base_amount.
     ok_or (checked_sub (base_amount p) new_base_amount) (Arithmetic Underflow))))))"

definition do_get_delta ::
    "'l stableswap_config \<Rightarrow> 'l stableswap_state \<Rightarrow> currency_id \<times> currency_id
     \<Rightarrow> ss_dispatch_error + balance \<times> 'l stableswap_state" where
  "do_get_delta C s pair =
     bindE (unwrap (ss_get_reserves s (fst pair) (snd pair))) (\<lambda>(x, y).
     bindE (unwrap (delta_util C x y)) (\<lambda>d.
     Inr (d, ss_deposit_event (DeltaCalculated (fst pair) (snd pair) d) s)))"

text \<open>
  \<open>do_get_alternative_var\<close>: an iteration that is left when it repeats a value; unlike the two above it
  also answers when the 255 steps are used up.
\<close>

definition big_u128 :: "nat option \<Rightarrow> ss_dispatch_error + nat" where
  "big_u128 x = bindE (ok_or x (Module ConversionToU128Failed)) (\<lambda>r. ok_or (to_u128 r) (Arithmetic Underflow))"

fun alternative_loop :: "nat \<Rightarrow> nat \<Rightarrow> nat \<Rightarrow> nat \<Rightarrow> nat \<Rightarrow> ss_dispatch_error + nat" where
  "alternative_loop 0 b c d y = Inr y"
| "alternative_loop (Suc k) b c d y =
     bindE (big_u128 (Some (y * y + c))) (\<lambda>numerator.
     bindE (big_u128 (checked_sub (y * 2 + b) d)) (\<lambda>denominator.
     bindE (big_u128 (checked_div numerator denominator)) (\<lambda>y'.
     if y' = y then Inr y' else alternative_loop k b c d y')))"

definition do_get_alternative_var ::
    "'l stableswap_config \<Rightarrow> 'l stableswap_state \<Rightarrow> balance \<Rightarrow> currency_id \<times> currency_id \<Rightarrow> ss_dispatch_error + balance" where
  "do_get_alternative_var C s autonomous_var pair =
     bindE (unwrap (ss_get_reserves s (fst pair) (snd pair))) (\<lambda>(resx, resy).
     bindE (ok_or (to_u128 (autonomous_var + resx)) (Arithmetic Overflow)) (\<lambda>var.
     bindE (unwrap (delta_util C resx resy)) (\<lambda>d.
     bindE (big_u128 (Some (ss_amplification_coefficient C * ss_precision C))) (\<lambda>a.
     bindE (big_u128 (Some (ss_num_tokens C * a))) (\<lambda>n_a.
     bindE (big_u128 (Some (0 + var))) (\<lambda>sm.
     bindE (big_u128 (Some (d * d))) (\<lambda>dd.
     bindE (big_u128 (Some (var * ss_num_tokens C))) (\<lambda>vn.
     bindE (big_u128 (checked_div dd vn)) (\<lambda>c1.
     bindE (big_u128 (Some (c1 * d * ss_precision C))) (\<lambda>cd.
     bindE (big_u128 (Some (n_a * ss_num_tokens C))) (\<lambda>nn.
     bindE (big_u128 (checked_div cd nn)) (\<lambda>c.
     bindE (ok_or (checked_div (d * ss_precision C) n_a) (Module ConversionToU128Failed)) (\<lambda>dp.
     bindE (big_u128 (Some (sm + dp))) (\<lambda>b.
     alternative_loop 255 b c d d))))))))))))))"

section \<open>The price oracle of a pool\<close>

definition ss_oracle_fraction ::
    "'l stableswap_config \<Rightarrow> nat \<Rightarrow> balance \<Rightarrow> balance \<Rightarrow> ss_dispatch_error + nat" where
  "ss_oracle_fraction C time_elapsed numerator denominator =
     bindE (ok_or (to_u128 (time_elapsed * numerator)) (Arithmetic Overflow)) (\<lambda>n.
     ok_or (fx_saturating_from_rational (ss_arith C) n denominator) Panic)"

definition ss_do_update_oracle :: "'l stableswap_config \<Rightarrow> pool \<Rightarrow> ss_dispatch_error + pool" where
  "ss_do_update_oracle C p =
     (if block_timestamp_last p = ss_block C then Inr p
      else let time_elapsed = saturating_sub (ss_block C) (block_timestamp_last p) in
        bindE (ss_oracle_fraction C time_elapsed (quote_amount p) (base_amount p)) (\<lambda>price0_fraction.
        bindE (ss_oracle_fraction C time_elapsed (base_amount p) (quote_amount p)) (\<lambda>price1_fraction.
        bindE (ok_or (fx_checked_add (ss_arith C) (price_0_cumulative_last p) price0_fraction) (Arithmetic Overflow)) (\<lambda>price0.
        bindE (ok_or (fx_checked_add (ss_arith C) (price_1_cumulative_last p) price1_fraction) (Arithmetic Overflow)) (\<lambda>price1.
        Inr (p\<lparr>price_0_cumulative_last := price0, price_1_cumulative_last := price1,
               block_timestamp_last := ss_block C\<rparr>))))))"

section \<open>Liquidity\<close>

definition ss_remember_reserves :: "'l stableswap_config \<Rightarrow> pool \<Rightarrow> pool" where
  "ss_remember_reserves C p =
     (if ss_protocol_fee_on C
      then p\<lparr>base_amount_last := base_amount p, quote_amount_last := quote_amount p\<rparr> else p)"

definition do_get_liquidity ::
    "'l stableswap_config \<Rightarrow> 'l stableswap_state \<Rightarrow> balance \<Rightarrow> pool \<Rightarrow> balance \<times> balance
     \<Rightarrow> ss_dispatch_error + balance \<times> 'l stableswap_state" where
  "do_get_liquidity C s total_supply p ideal =
     (if total_supply = 0
      then bindE (ss_mint_into C s (lp_token_id p) (ss_lock_account_id C) (ss_minimum_liquidity C)) (\<lambda>s1.
           bindE (big_u128 (checked_sub (integer_sqrt (fst ideal * snd ideal)) (ss_minimum_liquidity C))) (\<lambda>liquidity.
           Inr (liquidity, s1)))
      else bindE (big_u128 (mul_div (fst ideal) total_supply (base_amount p))) (\<lambda>x.
           bindE (big_u128 (mul_div (snd ideal) total_supply (quote_amount p))) (\<lambda>y.
           Inr (min x y, s))))"

text \<open>The bonus for raising the invariant; its arithmetic is unchecked.\<close>

definition with_bonus :: "balance \<Rightarrow> balance \<Rightarrow> nat \<Rightarrow> nat \<Rightarrow> ss_dispatch_error + balance" where
  "with_bonus total_supply liquidity d0 d1 =
     (if total_supply > 0
      then bindE (ok_or (checked_sub d1 d0) Panic) (\<lambda>diff.
           bindE (ok_or (checked_mul liquidity diff) Panic) (\<lambda>x.
           bindE (ok_or (checked_div x d0) Panic) (\<lambda>bonus.
           ok_or (checked_add liquidity bonus) Panic)))
      else ok_or (checked_add liquidity d1) Panic)"

definition ss_do_add_liquidity ::
    "'l stableswap_config \<Rightarrow> 'l stableswap_state \<Rightarrow> account_id \<Rightarrow> pool \<Rightarrow> balance \<times> balance \<Rightarrow> currency_id \<times> currency_id
     \<Rightarrow> ss_dispatch_error + pool \<times> 'l stableswap_state" where
  "ss_do_add_liquidity C s who p ideal assets =
     bindE (if ss_pools s assets \<noteq> None
            then bindE (unwrap (ss_get_reserves s (fst assets) (snd assets))) (\<lambda>(x, y). unwrap (delta_util C x y))
            else Inr 0) (\<lambda>d0.
     let total_supply = ss_issuance C s (lp_token_id p) in
     bindE (unwrap (do_get_liquidity C s total_supply p ideal)) (\<lambda>(liquidity, s1).
     bindE (ok_or (checked_add (base_amount p) (fst ideal)) (Arithmetic Overflow)) (\<lambda>b.
     bindE (ok_or (checked_add (quote_amount p) (snd ideal)) (Arithmetic Overflow)) (\<lambda>q.
     bindE (if ss_pools s assets \<noteq> None
            then bindE (unwrap (do_get_delta_on_the_fly C (b, q))) (\<lambda>d1.
                 bindE (ensure (d1 \<ge> d0) (Module InvalidInvariant)) (\<lambda>_. Inr d1))
            else Inr 0) (\<lambda>d1.
     bindE (with_bonus total_supply liquidity d0 d1) (\<lambda>minted.
     bindE (ss_mint_into C s1 (lp_token_id p) who minted) (\<lambda>s2.
     bindE (ss_transfer C s2 (fst assets) who (ss_account_id C) (fst ideal) True) (\<lambda>s3.
     bindE (ss_transfer C s3 (snd assets) who (ss_account_id C) (snd ideal) True) (\<lambda>s4.
     Inr (ss_remember_reserves C (p\<lparr>base_amount := b, quote_amount := q\<rparr>), s4))))))))))"

definition ss_calculate_reserves_to_remove ::
    "'l stableswap_config \<Rightarrow> 'l stableswap_state \<Rightarrow> pool \<Rightarrow> balance \<Rightarrow> ss_dispatch_error + balance \<times> balance" where
  "ss_calculate_reserves_to_remove C s p liquidity =
     (let total_supply = ss_issuance C s (lp_token_id p) in
      bindE (big_u128 (mul_div liquidity (base_amount p) total_supply)) (\<lambda>base_amt.
      bindE (big_u128 (mul_div liquidity (quote_amount p) total_supply)) (\<lambda>quote_amt.
      Inr (base_amt, quote_amt))))"

definition ss_do_remove_liquidity ::
    "'l stableswap_config \<Rightarrow> 'l stableswap_state \<Rightarrow> account_id \<Rightarrow> pool \<Rightarrow> balance \<Rightarrow> currency_id \<times> currency_id
     \<Rightarrow> ss_dispatch_error + (balance \<times> balance) \<times> pool \<times> 'l stableswap_state" where
  "ss_do_remove_liquidity C s who p liquidity assets =
     bindE (ss_calculate_reserves_to_remove C s p liquidity) (\<lambda>(base_amt, quote_amt).
     bindE (ok_or (checked_sub (base_amount p) base_amt) (Module InsufficientLiquidity)) (\<lambda>b.
     bindE (ok_or (checked_sub (quote_amount p) quote_amt) (Module InsufficientLiquidity)) (\<lambda>q.
     bindE (ss_burn_from C s (lp_token_id p) who liquidity) (\<lambda>s1.
     bindE (ss_transfer C s1 (fst assets) (ss_account_id C) who base_amt False) (\<lambda>s2.
     bindE (ss_transfer C s2 (snd assets) (ss_account_id C) who quote_amt False) (\<lambda>s3.
     Inr ((base_amt, quote_amt), ss_remember_reserves C (p\<lparr>base_amount := b, quote_amount := q\<rparr>), s3)))))))"

definition ss_do_mint_protocol_fee ::
    "'l stableswap_config \<Rightarrow> 'l stableswap_state \<Rightarrow> pool \<Rightarrow> ss_dispatch_error + balance \<times> pool \<times> 'l stableswap_state" where
  "ss_do_mint_protocol_fee C s p =
     (let k_last = base_amount_last p * quote_amount_last p in
      if \<not> ss_protocol_fee_on C
      then Inr (0, if k_last \<noteq> 0 then p\<lparr>base_amount_last := 0, quote_amount_last := 0\<rparr> else p, s)
      else
        bindE (unwrap (delta_util C (base_amount_last p) (quote_amount_last p))) (\<lambda>root_k_last.
        bindE (unwrap (delta_util C (base_amount p) (quote_amount p))) (\<lambda>root_k.
        if root_k \<le> root_k_last then Inr (0, p, s)
        else
          let numerator = (root_k - root_k_last) * ss_issuance C s (lp_token_id p) in
          bindE (ss_get_protocol_fee_reciprocal_proportion C) (\<lambda>proportion.
          bindE (ok_or (checked_sub proportion 1) (Arithmetic Underflow)) (\<lambda>scalar.
          bindE (ok_or (checked_div numerator (root_k * scalar + root_k_last)) (Arithmetic Underflow)) (\<lambda>big.
          bindE (ok_or (to_u128 big) (Arithmetic Overflow)) (\<lambda>protocol_fees.
          bindE (ss_mint_into C s (lp_token_id p) (ss_protocol_fee_receiver C) protocol_fees) (\<lambda>s1.
          Inr (protocol_fees, p, s1)))))))))"

section \<open>Trading\<close>

definition ss_do_swap ::
    "'l stableswap_config \<Rightarrow> 'l stableswap_state \<Rightarrow> account_id \<Rightarrow> currency_id \<times> currency_id \<Rightarrow> balance
     \<Rightarrow> ss_dispatch_error + balance \<times> 'l stableswap_state" where
  "ss_do_swap C s who pair amount_in =
     bindE (ss_sort_assets pair) (\<lambda>(is_inverted, base_asset, quote_asset).
     bindE (ok_or (ss_pools s (base_asset, quote_asset)) (Module PoolDoesNotExist)) (\<lambda>p.
     let supply_in = (if is_inverted then quote_amount p else base_amount p);
         supply_out = (if is_inverted then base_amount p else quote_amount p) in
     bindE (ensure (amount_in \<ge> pm_saturating_reciprocal_mul_floor (ss_arith C) (ss_lp_fee C) 1)
             (Module InsufficientAmountIn)) (\<lambda>_.
     bindE (ensure (supply_out \<noteq> 0) (Module InsufficientAmountOut)) (\<lambda>_.
     bindE (ss_get_amount_out C amount_in supply_in supply_out) (\<lambda>amount_out.
     bindE (ok_or (checked_add supply_in amount_in) (Arithmetic Overflow)) (\<lambda>new_in.
     bindE (ok_or (checked_sub supply_out amount_out) (Arithmetic Underflow)) (\<lambda>new_out.
     bindE (ss_do_update_oracle C
              (if is_inverted then p\<lparr>quote_amount := new_in, base_amount := new_out\<rparr>
               else p\<lparr>base_amount := new_in, quote_amount := new_out\<rparr>)) (\<lambda>p1.
     bindE (ss_transfer C s (fst pair) who (ss_account_id C) amount_in True) (\<lambda>s1.
     bindE (ss_transfer C s1 (snd pair) (ss_account_id C) who amount_out False) (\<lambda>s2.
     Inr (amount_out,
          ss_put_pool base_asset quote_asset p1
            (ss_deposit_event (Traded who (fst pair) (snd pair) amount_in amount_out (lp_token_id p1)
               (quote_amount p1) (base_amount p1)) s2))))))))))))"

definition ss_swap ::
    "'l stableswap_config \<Rightarrow> 'l stableswap_state \<Rightarrow> account_id \<Rightarrow> currency_id \<times> currency_id \<Rightarrow> balance
     \<Rightarrow> ss_dispatch_error + 'l stableswap_state" where
  "ss_swap C s who pair amount_in = bindE (ss_do_swap C s who pair amount_in) (\<lambda>(_, s'). Inr s')"

definition ss_get_pools :: "'l stableswap_config \<Rightarrow> 'l stableswap_state \<Rightarrow> (currency_id \<times> currency_id) list" where
  "ss_get_pools C s = map fst (storage_iter (ss_pool_keys C) (ss_pools s))"

section \<open>Calls\<close>

definition ss_add_liquidity ::
    "'l stableswap_config \<Rightarrow> 'l stableswap_state \<Rightarrow> origin \<Rightarrow> currency_id \<times> currency_id \<Rightarrow> balance \<times> balance
     \<Rightarrow> balance \<times> balance \<Rightarrow> ss_dispatch_error + 'l stableswap_state" where
  "ss_add_liquidity C s o' pair desired minimum =
     bindE (ensure_signed o') (\<lambda>who.
     bindE (ss_sort_assets pair) (\<lambda>(is_inverted, base_asset, quote_asset).
     let (base_amt, quote_amt) = (if is_inverted then (snd desired, fst desired) else desired);
         (minimum_base, minimum_quote) = (if is_inverted then (snd minimum, fst minimum) else minimum) in
     bindE (ok_or (ss_pools s (base_asset, quote_asset)) (Module PoolDoesNotExist)) (\<lambda>p.
     bindE (ss_get_ideal_amounts p (base_amt, quote_amt)) (\<lambda>(ideal_base, ideal_quote).
     bindE (ensure (ideal_base \<le> base_amt \<and> ideal_quote \<le> quote_amt) (Module InsufficientAmountIn)) (\<lambda>_.
     bindE (ensure (ideal_base \<ge> minimum_base \<and> ideal_quote \<ge> minimum_quote) (Module NotAnIdealPrice)) (\<lambda>_.
     bindE (ss_do_mint_protocol_fee C s p) (\<lambda>(_, p1, s1).
     bindE (ss_do_add_liquidity C s1 who p1 (ideal_base, ideal_quote) (base_asset, quote_asset)) (\<lambda>(p2, s2).
     Inr (ss_put_pool base_asset quote_asset p2
           (ss_deposit_event (LiquidityAdded who base_asset quote_asset ideal_base ideal_quote (lp_token_id p2)
              (base_amount p2) (quote_amount p2)) s2))))))))))"

definition ss_remove_liquidity ::
    "'l stableswap_config \<Rightarrow> 'l stableswap_state \<Rightarrow> origin \<Rightarrow> currency_id \<times> currency_id \<Rightarrow> balance
     \<Rightarrow> ss_dispatch_error + 'l stableswap_state" where
  "ss_remove_liquidity C s o' pair liquidity =
     bindE (ensure_signed o') (\<lambda>who.
     bindE (ss_sort_assets pair) (\<lambda>(_, base_asset, quote_asset).
     bindE (ok_or (ss_pools s (base_asset, quote_asset)) (Module PoolDoesNotExist)) (\<lambda>p.
     bindE (ss_do_mint_protocol_fee C s p) (\<lambda>(_, p1, s1).
     bindE (ss_do_remove_liquidity C s1 who p1 liquidity (base_asset, quote_asset)) (\<lambda>((base_amt, quote_amt), p2, s2).
     Inr (ss_put_pool base_asset quote_asset p2
           (ss_deposit_event (LiquidityRemoved who base_asset quote_asset liquidity base_amt quote_amt (lp_token_id p2)
              (base_amount p2) (quote_amount p2)) s2)))))))"

definition ss_create_pool ::
    "'l stableswap_config \<Rightarrow> 'l stableswap_state \<Rightarrow> origin \<Rightarrow> currency_id \<times> currency_id \<Rightarrow> balance \<times> balance
     \<Rightarrow> account_id \<Rightarrow> currency_id \<Rightarrow> ss_dispatch_error + 'l stableswap_state" where
  "ss_create_pool C s o' pair amounts receiver lp =
     bindE (ensure_origin (ss_create_pool_origin C) o') (\<lambda>_.
     bindE (ss_sort_assets pair) (\<lambda>(is_inverted, base_asset, quote_asset).
     bindE (ensure (ss_pools s (base_asset, quote_asset) = None) (Module PoolAlreadyExists)) (\<lambda>_.
     let (base_amt, quote_amt) = (if is_inverted then (snd amounts, fst amounts) else amounts) in
     bindE (ensure (ss_issuance C s lp = 0) (Module LpTokenAlreadyExists)) (\<lambda>_.
     bindE (ss_do_add_liquidity C (ss_deposit_event (PoolCreated receiver base_asset quote_asset lp) s) receiver
              (pool_new lp) (base_amt, quote_amt) (base_asset, quote_asset)) (\<lambda>(p, s1).
     Inr (ss_deposit_event (LiquidityAdded receiver base_asset quote_asset base_amt quote_amt (lp_token_id p)
            (base_amount p) (quote_amount p)) (ss_put_pool base_asset quote_asset p s1)))))))"

end
