(* ===== verification/Stableswap_Properties.thy ===== *)
theory Stableswap_Properties
  imports Stableswap
begin

text \<open>
  What the stable exchange computes, on every balanced pool and on pools that show where its numbers stop
  being right.  The concrete exchange has the fees and the amplification coefficient of the
  pallet's mock runtime (src/pallets/stableswap/src/mock.rs): 0.25\% and 0.05\%, and 85.
\<close>

definition stable_arith_ref :: stable_arith where
  "stable_arith_ref = sp_arith.extend sp_arith_ref
     \<lparr>pm_checked_add = (\<lambda>p q. if p + q \<le> PM then Some (p + q) else None), pm_div = (\<lambda>p q. min (p * PM div q) PM)\<rparr>"

definition stable_env :: "ref_ledger stableswap_config" where
  "stable_env = \<lparr>ss_arith = stable_arith_ref, ss_assets = fungibles_ref, ss_pallet_account = 99,
     ss_protocol_fee_receiver = 97, ss_lp_fee = 2500, ss_lock_account = 98, ss_protocol_fee = 500,
     ss_minimum_liquidity = 1000, ss_num_tokens = 2, ss_precision = 100, ss_amplification_coefficient = 85,
     ss_create_pool_origin = (\<lambda>x. x = Root), ss_block = 5, ss_pool_keys = [(3, 2)]\<rparr>"

definition stable_ex :: "balance \<Rightarrow> balance \<Rightarrow> ref_ledger stableswap_state" where
  "stable_ex b q = \<lparr>ss_pools = [(3, 2) \<mapsto> (pool_new 100)\<lparr>base_amount := b, quote_amount := q\<rparr>],
     ss_ledger = \<lparr>lg_balance = (\<lambda>a w. if w = 99 then (if a = 3 then b else if a = 2 then q else 0)
                              else if w = 5 then 1000000 else 0), lg_issuance = (\<lambda>a. b + q + 1000000)\<rparr>,
     ss_events = []\<rparr>"

lemma compute_d_loop_numeral:
  "compute_d_loop (numeral v) ann sum_xy base_n quote_n d =
     (let d_p = big_div (big_div (d * d) base_n * d) quote_n;
          numerator = (ann * sum_xy + d_p * 2) * d in
      bindE (ok_or (checked_sub (ann * d + 3 * d_p) d) (Arithmetic Underflow)) (\<lambda>denominator.
      let d' = big_div numerator denominator in
      if close_to d' d then ok_or (to_u128 d') (Arithmetic Overflow)
      else compute_d_loop (pred_numeral v) ann sum_xy base_n quote_n d'))"
  by (simp add: numeral_eq_Suc)

lemma compute_base_loop_numeral:
  "compute_base_loop (numeral v) ann s d term1 y =
     bindE (ok_or (checked_sub (2 * y + s) d) (Arithmetic Underflow)) (\<lambda>term2.
     let y' = big_div (ann * y * y + term1) (ann * term2 + d) in
     if close_to y' y then ok_or (to_u128 y') (Arithmetic Overflow)
     else compute_base_loop (pred_numeral v) ann s d term1 y')"
  by (simp add: numeral_eq_Suc)

lemmas stable_eval = Let_def stable_env_def stable_ex_def stable_arith_ref_def sp_arith.extend_def sp_arith_ref_def
  fungibles_ref_def ref_transfer_def pool_new_def checked_add_def checked_sub_def checked_mul_def checked_div_def
  to_u128_def saturating_sub_def big_div_def close_to_def compute_d_def compute_base_def compute_d_loop_numeral
  compute_base_loop_numeral delta_util_def get_base_def ss_deposit_event_def ss_put_pool_def ss_ledger_step_def
  ss_transfer_def ss_account_id_def ss_sort_assets_def fees_on_def ss_get_amount_out_def ss_oracle_fraction_def
  ss_do_update_oracle_def ss_do_swap_def

section \<open>The invariant of a balanced pool\<close>

lemma big_div_cancel:
  assumes "0 < n" and "n * d \<le> u128_max"
  shows "big_div (n * d) n = d"
proof (cases "d = 0")
  case True
  then show ?thesis by (simp add: big_div_def)
next
  case False
  then have "n \<le> n * d" by simp
  then have "n \<le> u128_max" using assms(2) by (rule order_trans)
  with assms show ?thesis unfolding big_div_def Let_def by (simp only: if_True if_False) simp
qed

lemma big_div_overflow: "u128_max < n \<Longrightarrow> big_div n m = 0"
  by (simp add: big_div_def Let_def)

lemma balanced_loop:
  assumes "0 < d" and "(ann + 2) * d * d \<le> u128_max"
  shows "compute_d_loop 255 ann d d d d = Inr d"
proof -
  have "d * d \<le> (ann + 2) * d * d" by simp
  then have fits: "d * d \<le> u128_max" using assms(2) by (rule order_trans)
  have "d \<le> d * d" by simp
  then have d: "d \<le> u128_max" using fits by (rule order_trans)
  have dp: "big_div (big_div (d * d) d * d) d = d" by (simp only: big_div_cancel [OF assms(1) fits])
  have num: "(ann * d + d * 2) * d = (ann + 2) * d * d" by (simp add: algebra_simps)
  have den: "checked_sub (ann * d + 3 * d) d = Some ((ann + 2) * d)" by (simp add: checked_sub_def algebra_simps)
  have quot: "big_div ((ann + 2) * d * d) ((ann + 2) * d) = d" by (rule big_div_cancel) (use assms in simp_all)
  show ?thesis
    unfolding compute_d_loop_numeral Let_def dp num den ok_or_simps bindE_simps quot
    using d by (simp add: close_to_def to_u128_def)
qed

lemma overflowing_loop:
  assumes "1 < d" and "0 < ann" and "u128_max < (ann + 2) * d * d"
  shows "compute_d_loop 255 ann d d d d = Inr 0"
proof -
  define dp where "dp = big_div (big_div (d * d) d * d) d"
  have "u128_max < (ann * d + dp * 2) * d"
  proof (cases "d * d \<le> u128_max")
    case True
    then have "dp = d" using assms(1) by (simp only: dp_def big_div_cancel)
    then show ?thesis using assms(3) by (simp add: algebra_simps)
  next
    case False
    have "d \<le> ann * d" using assms(2) by simp
    then have "d * d \<le> (ann * d + dp * 2) * d" by (intro mult_le_mono1) linarith
    with False show ?thesis by linarith
  qed
  then have zero: "big_div ((ann * d + dp * 2) * d) m = 0" for m by (rule big_div_overflow)
  have "d \<le> ann * d" using assms(2) by simp
  then have "d \<le> ann * d + 3 * dp" by linarith
  then have den: "checked_sub (ann * d + 3 * dp) d = Some (ann * d + 3 * dp - d)" by (simp add: checked_sub_def)
  have last: "compute_d_loop 254 ann d d d 0 = Inr 0"
    unfolding compute_d_loop_numeral by (simp add: Let_def big_div_def checked_sub_def close_to_def to_u128_def)
  have far: "\<not> close_to 0 d" using assms(1) by (simp add: close_to_def)
  have "compute_d_loop (Suc 254) ann d d d d = Inr 0"
    unfolding compute_d_loop.simps Let_def dp_def [symmetric] den ok_or_simps bindE_simps zero
    using far last by simp
  then show ?thesis by simp
qed

text \<open>C26. The invariant of a balanced pool with reserves \<open>x\<close>, \<open>x\<close> is the sum of the reserves as long as the iteration
  fits into \<open>u128\<close>; from the first reserve on for which it does not, the computed invariant is zero.
  (With the coefficient 85 that is at \<open>5 * 10^17\<close> units.)\<close>

theorem balanced_invariant:
  assumes "0 < x" and "0 < a"
  shows "compute_d x x a = Inr (if (4 * a + 2) * (2 * x) * (2 * x) \<le> u128_max then 2 * x else 0)"
proof -
  have "compute_d x x a = compute_d_loop 255 (4 * a) (2 * x) (2 * x) (2 * x) (2 * x)"
  proof -
    have "x + x = 2 * x" "x * 2 = 2 * x" "a * 2 * 2 = 4 * a" "2 * x \<noteq> 0" using assms(1) by simp_all
    then show ?thesis unfolding compute_d_def Let_def by (simp only: if_False)
  qed
  then show ?thesis
    using balanced_loop [of "2 * x" "4 * a"] overflowing_loop [of "2 * x" "4 * a"] assms by (auto simp only: not_le split: if_splits)
qed

theorem balanced_invariant_witness:
  "compute_d 1000000 1000000 85 = Inr 2000000 \<and> compute_d 1000000000000000000 1000000000000000000 85 = Inr 0"
  using balanced_invariant [of 1000000 85] balanced_invariant [of 1000000000000000000 85] by simp

section \<open>Trades at a wrong invariant\<close>

lemma compute_base_zero: "compute_base s a 0 = Inr 0"
  by (simp add: compute_base_def compute_base_loop_numeral Let_def big_div_def checked_sub_def close_to_def to_u128_def)

text \<open>C27. A pool whose computed invariant is zero can be emptied: a trade that is accepted pays the whole recorded
  reserve of the asset that comes in, whatever the amount that was paid.\<close>

theorem zero_invariant_drains_pool:
  assumes "ss_do_swap C s who (a, b) n = Inr (m, s')" and "ss_get_reserves s a b = Inr (x, y)" and "delta_util C x y = Inr 0"
  shows "m = x"
  using assms unfolding ss_do_swap_def ss_get_reserves_def Let_def
  by (elim resultE) (auto simp: ss_get_amount_out_def get_base_def compute_base_zero checked_sub_def bindE_Inr_iff split: if_splits)

theorem zero_invariant_drains_pool_witness:
  "\<exists>s'. ss_do_swap stable_env (stable_ex 1000000000000000001 1000000000000000000) 5 (2, 3) 400 = Inr (1000000000000000000, s')"
proof -
  let ?s = "stable_ex 1000000000000000001 1000000000000000000"
  obtain m s' where s': "ss_do_swap stable_env ?s 5 (2, 3) 400 = Inr (m, s')" by (simp add: stable_eval)
  have "ss_get_reserves ?s 2 3 = Inr (1000000000000000000, 1000000000000000001)"
    "delta_util stable_env 1000000000000000000 1000000000000000001 = Inr 0"
    by (simp_all add: stable_eval ss_get_reserves_def)
  from zero_invariant_drains_pool [OF s' this] s' show ?thesis by auto
qed

text \<open>A trade against an unbalanced pool prices the wrong side: paying 100000 units of the abundant asset into a pool
  of 5000000 and 500000 units returns 106820 units of the scarce one, and the invariant of the
  pool falls.\<close>

theorem trade_lowers_invariant:
  "\<exists>s'. ss_do_swap stable_env (stable_ex 5000000 500000) 5 (3, 2) 100000 = Inr (106820, s') \<and>
     map_option (\<lambda>p. (base_amount p, quote_amount p)) (ss_pools s' (3, 2)) = Some (5100000, 393180) \<and>
     delta_util stable_env 5000000 500000 = Inr 5467997 \<and> delta_util stable_env 5100000 393180 = Inr 5449854"
  by (simp add: stable_eval)

end
