(* ===== verification/Bridge.thy ===== *)
theory Bridge
  imports Sp_Arith Fungibles
begin

text \<open>
  The bridge to other chains (src/pallets/bridge/src/lib.rs and types.rs).

  A teleport takes tokens from an account and announces them to another chain with the next nonce of
  that chain.  Tokens arriving from another chain are materialized by the votes of relay members on a
  proposal, which is identified by the source chain, its nonce and the call.  The nonces that are done
  are kept per chain as a list of closed intervals.

  \<open>'l bridge_state\<close> has one field per storage item, the ledger and the events.  Storage maps with a default
  whose keys are also tested for presence are maps, with the default in the getter.  The relay
  members and the block number belong to the environment of a call and are fields of
  \<open>'l bridge_config\<close>, and so is the converter of the bonus, which the runtimes define.
\<close>

section \<open>Data\<close>

type_synonym chain_id = nat
type_synonym chain_nonce = nat
type_synonym bridge_interval = "chain_nonce \<times> chain_nonce"

record bridge_token =
  bt_id :: currency_id
  bt_external :: bool
  bt_fee :: balance
  bt_enable :: bool
  out_cap :: balance
  out_amount :: balance
  in_cap :: balance
  in_amount :: balance

datatype bridge_type = BridgeOut | BridgeIn

datatype proposal_status = Initiated | Approved | Rejected

record materialize_call =
  mc_bridge_token_id :: currency_id
  mc_to :: account_id
  mc_amount :: balance

record proposal =
  votes_for :: "account_id list"
  votes_against :: "account_id list"
  proposal_status :: proposal_status
  proposal_expiry :: block_number

datatype bridge_error =
    InvalidVoteThreshold | OriginNoPermission | ChainIdAlreadyRegistered | ChainIdNotRegistered
  | BridgeTokenAlreadyRegistered | BridgeTokenNotRegistered | BridgeTokenDisabled | MemberAlreadyVoted
  | BridgingAmountTooLow | BridgeOutCapExceeded | BridgeInCapExceeded | ProposalDoesNotExist
  | ProposalAlreadyComplete | ProposalExpired

type_synonym bridge_dispatch_error = "bridge_error dispatch_error"

datatype bridge_event =
    VoteThresholdUpdated nat
  | ChainRegistered chain_id
  | ChainRemoved chain_id
  | BridgeTokenRegistered currency_id currency_id bool balance bool balance balance balance balance
  | BridgeTokenRemoved currency_id currency_id
  | BridgeTokenFeeUpdated currency_id balance
  | BridgeTokenStatusUpdated currency_id bool
  | BridgeTokenCapUpdated currency_id bridge_type balance
  | BridgeTokenAccumulatedValueCleaned currency_id bridge_type
  | TeleportBurned account_id chain_id chain_nonce currency_id string balance balance
  | MaterializeInitialized account_id chain_id chain_nonce currency_id account_id balance
  | MaterializeMinted chain_id chain_nonce currency_id account_id balance
  | MaterializeVoteFor chain_id chain_nonce account_id currency_id account_id balance
  | MaterializeVoteAgainst chain_id chain_nonce account_id currency_id account_id balance
  | ProposalApproved chain_id chain_nonce
  | ProposalRejected chain_id chain_nonce

record 'l bridge_state =
  vote_threshold :: nat
  chain_nonces :: "chain_id \<rightharpoonup> chain_nonce"
  bridge_registry :: "chain_id \<rightharpoonup> bridge_interval list"
  bridge_tokens :: "currency_id \<rightharpoonup> bridge_token"
  asset_ids :: "currency_id \<rightharpoonup> currency_id"
  proposal_votes :: "chain_id \<Rightarrow> chain_nonce \<times> materialize_call \<Rightarrow> proposal option"
  br_ledger :: 'l
  br_events :: "bridge_event list"

text \<open>\<open>Permill::from_percent\<close>, which only this pallet uses.\<close>

record bridge_arith = sp_arith +
  pm_from_percent :: "nat \<Rightarrow> nat"

record 'l bridge_config =
  br_arith :: bridge_arith
  br_relay_members :: "account_id list"
  br_update_token_origin :: "origin \<Rightarrow> bool"
  br_update_chain_origin :: "origin \<Rightarrow> bool"
  br_cap_origin :: "origin \<Rightarrow> bool"
  br_root_operator :: account_id
  br_assets :: "(nat, 'l) fungibles"
  br_gift_account :: account_id
  br_gift_convert :: "balance \<Rightarrow> currency_id \<Rightarrow> balance option"
  br_native :: currency_id
  br_existential_deposit :: balance
  br_chain_id :: chain_id
  br_pallet_account :: account_id
  br_proposal_lifetime :: block_number
  br_threshold_percentage :: nat
  br_now :: block_number

definition default_bridge_token :: bridge_token where
  "default_bridge_token = \<lparr>bt_id = 0, bt_external = False, bt_fee = 0, bt_enable = False,
     out_cap = 0, out_amount = 0, in_cap = 0, in_amount = 0\<rparr>"

definition br_deposit_event :: "bridge_event \<Rightarrow> 'l bridge_state \<Rightarrow> 'l bridge_state" where
  "br_deposit_event e s = s\<lparr>br_events := br_events s @ [e]\<rparr>"

definition bridge_token_of :: "'l bridge_state \<Rightarrow> currency_id \<Rightarrow> bridge_token" where
  "bridge_token_of s a = (case bridge_tokens s a of None \<Rightarrow> default_bridge_token | Some t \<Rightarrow> t)"

definition bridge_asset_id :: "'l bridge_state \<Rightarrow> currency_id \<Rightarrow> currency_id" where
  "bridge_asset_id s i = (case asset_ids s i of None \<Rightarrow> 0 | Some a \<Rightarrow> a)"

definition chain_nonce_of :: "'l bridge_state \<Rightarrow> chain_id \<Rightarrow> chain_nonce" where
  "chain_nonce_of s c = (case chain_nonces s c of None \<Rightarrow> 0 | Some n \<Rightarrow> n)"

definition put_bridge_token :: "currency_id \<Rightarrow> bridge_token \<Rightarrow> 'l bridge_state \<Rightarrow> 'l bridge_state" where
  "put_bridge_token a t s = s\<lparr>bridge_tokens := (bridge_tokens s)(a \<mapsto> t)\<rparr>"

definition put_proposal ::
    "chain_id \<Rightarrow> chain_nonce \<times> materialize_call \<Rightarrow> proposal \<Rightarrow> 'l bridge_state \<Rightarrow> 'l bridge_state" where
  "put_proposal c k p s =
     s\<lparr>proposal_votes := (proposal_votes s)(c := (proposal_votes s c)(k \<mapsto> p))\<rparr>"

section \<open>Proposals\<close>

definition default_proposal :: proposal where
  "default_proposal = \<lparr>votes_for = [], votes_against = [], proposal_status = Initiated, proposal_expiry = 0\<rparr>"

definition try_to_complete ::
    "proposal \<Rightarrow> nat \<Rightarrow> nat \<Rightarrow> bridge_dispatch_error + proposal_status \<times> proposal" where
  "try_to_complete p threshold total_members =
     (if length (votes_for p) \<ge> threshold then Inr (Approved, p\<lparr>proposal_status := Approved\<rparr>)
      else if total_members \<ge> threshold
      then bindE (ensure (length (votes_against p) mod 2 ^ 32 + threshold \<le> u32_max) Panic) (\<lambda>_.
           if length (votes_against p) mod 2 ^ 32 + threshold > total_members
           then Inr (Rejected, p\<lparr>proposal_status := Rejected\<rparr>)
           else Inr (Initiated, p))
      else Inr (Initiated, p))"

definition is_complete :: "proposal \<Rightarrow> bool" where
  "is_complete p \<longleftrightarrow> proposal_status p \<noteq> Initiated"

definition is_expired :: "proposal \<Rightarrow> block_number \<Rightarrow> bool" where
  "is_expired p now \<longleftrightarrow> proposal_expiry p \<le> now"

definition can_be_cleaned_up :: "proposal \<Rightarrow> block_number \<Rightarrow> bool" where
  "can_be_cleaned_up p now \<longleftrightarrow> is_expired p now"

definition has_voted :: "proposal \<Rightarrow> account_id \<Rightarrow> bool" where
  "has_voted p who \<longleftrightarrow> who \<in> set (votes_for p) \<or> who \<in> set (votes_against p)"

section \<open>Checks\<close>

definition bridge_account_id :: "'l bridge_config \<Rightarrow> account_id" where
  "bridge_account_id C = br_pallet_account C"

definition ensure_relay_member :: "'l bridge_config \<Rightarrow> origin \<Rightarrow> bridge_dispatch_error + account_id" where
  "ensure_relay_member C o' =
     (case o' of
        Root \<Rightarrow> Inr (br_root_operator C)
      | Signed who \<Rightarrow> bindE (ensure (who \<in> set (br_relay_members C)) (Module OriginNoPermission)) (\<lambda>_. Inr who)
      | _ \<Rightarrow> Inl (Module OriginNoPermission))"

definition chain_registered :: "'l bridge_state \<Rightarrow> chain_id \<Rightarrow> bool" where
  "chain_registered s c \<longleftrightarrow> chain_nonces s c \<noteq> None"

definition ensure_chain_registered :: "'l bridge_state \<Rightarrow> chain_id \<Rightarrow> bridge_dispatch_error + unit" where
  "ensure_chain_registered s c = ensure (chain_registered s c) (Module ChainIdNotRegistered)"

definition in_registry :: "bridge_interval list \<Rightarrow> chain_nonce \<Rightarrow> bool" where
  "in_registry registry n \<longleftrightarrow> (\<exists>(lo, hi)\<in>set registry. lo \<le> n \<and> n \<le> hi)"

definition has_bridged :: "'l bridge_state \<Rightarrow> chain_id \<Rightarrow> chain_nonce \<Rightarrow> bool" where
  "has_bridged s c n = (case bridge_registry s c of None \<Rightarrow> False | Some registry \<Rightarrow> in_registry registry n)"

definition ensure_chain_nonce_valid ::
    "'l bridge_state \<Rightarrow> chain_id \<Rightarrow> chain_nonce \<Rightarrow> bridge_dispatch_error + unit" where
  "ensure_chain_nonce_valid s c n = ensure (\<not> has_bridged s c n) (Module ProposalAlreadyComplete)"

definition ensure_amount_valid :: "balance \<Rightarrow> bridge_dispatch_error + unit" where
  "ensure_amount_valid amount = ensure (amount > 0) (Module BridgingAmountTooLow)"

definition ensure_bridge_token_registered :: "'l bridge_state \<Rightarrow> currency_id \<Rightarrow> bridge_dispatch_error + unit" where
  "ensure_bridge_token_registered s i = ensure (asset_ids s i \<noteq> None) (Module BridgeTokenNotRegistered)"

definition get_members_count :: "'l bridge_config \<Rightarrow> nat" where
  "get_members_count C = length (br_relay_members C) mod 2 ^ 32"

definition ensure_valid_threshold :: "'l bridge_config \<Rightarrow> nat \<Rightarrow> nat \<Rightarrow> bridge_dispatch_error + unit" where
  "ensure_valid_threshold C threshold total_members =
     ensure (pm_from_rational (br_arith C) threshold total_members \<ge> pm_from_percent (br_arith C) (br_threshold_percentage C)
         \<and> threshold > 0 \<and> threshold \<le> total_members)
       (Module InvalidVoteThreshold)"

definition ensure_under_bridge_cap ::
    "bridge_token \<Rightarrow> balance \<Rightarrow> bridge_type \<Rightarrow> bridge_dispatch_error + balance" where
  "ensure_under_bridge_cap t amount ty =
     (case ty of
        BridgeOut \<Rightarrow>
          bindE (ok_or (checked_add (out_amount t) amount) (Arithmetic Overflow)) (\<lambda>new_out_amount.
          bindE (ensure (new_out_amount \<le> out_cap t) (Module BridgeOutCapExceeded)) (\<lambda>_.
          Inr new_out_amount))
      | BridgeIn \<Rightarrow>
          bindE (ok_or (checked_add (in_amount t) amount) (Arithmetic Overflow)) (\<lambda>new_in_amount.
          bindE (ensure (new_in_amount \<le> in_cap t) (Module BridgeInCapExceeded)) (\<lambda>_.
          Inr new_in_amount)))"

definition materialize_allowed :: "'l bridge_state \<Rightarrow> currency_id \<Rightarrow> balance \<Rightarrow> bridge_dispatch_error + unit" where
  "materialize_allowed s i amount =
     bindE (ensure_bridge_token_registered s i) (\<lambda>_.
     let t = bridge_token_of s (bridge_asset_id s i) in
     bindE (ensure (bt_enable t) (Module BridgeTokenDisabled)) (\<lambda>_.
     bindE (ensure_under_bridge_cap t amount BridgeIn) (\<lambda>_.
     ensure_amount_valid amount)))"

section \<open>The registry of nonces\<close>

text \<open>
  The code sorts with \<open>sort_unstable_by\<close> on the lower ends.  These are pairwise different in every
  registry it sorts (\<open>extend_starts_distinct\<close> of theory \<open>Bridge_Safety\<close>), so the order is determined and the
  stable sort of the library computes it.
\<close>

definition sort_registry :: "bridge_interval list \<Rightarrow> bridge_interval list" where
  "sort_registry registry = sort_key fst registry"

definition merge_interval :: "bridge_interval \<Rightarrow> bridge_interval list \<Rightarrow> bridge_interval list" where
  "merge_interval r merged =
     (if merged = [] then [r]
      else let last_merged = last merged in
           if fst r > snd last_merged then merged @ [r]
           else butlast merged @ [(fst last_merged, max (snd r) (snd last_merged))])"

definition merge_overlapping_intervals :: "bridge_interval list \<Rightarrow> bridge_interval list" where
  "merge_overlapping_intervals registry = fold merge_interval (sort_registry registry) []"

definition extend_interval :: "chain_nonce \<Rightarrow> bridge_interval \<Rightarrow> bridge_dispatch_error + bridge_interval" where
  "extend_interval n x =
     bindE (ensure (n + 1 \<le> u64_max) Panic) (\<lambda>_.
     if fst x = n + 1 then Inr (n, snd x)
     else bindE (ensure (1 \<le> n) Panic) (\<lambda>_.
          if snd x = n - 1 then Inr (fst x, n) else Inr x))"

definition extend_registry ::
    "chain_nonce \<Rightarrow> bridge_interval list \<Rightarrow> bridge_dispatch_error + bridge_interval list" where
  "extend_registry n registry =
     foldE (\<lambda>x xs. bindE (extend_interval n x) (\<lambda>y. Inr (xs @ [y]))) registry []"

definition register_nonce ::
    "bridge_interval list \<Rightarrow> chain_nonce \<Rightarrow> bridge_dispatch_error + bridge_interval list" where
  "register_nonce registry n =
     bindE (extend_registry n registry) (\<lambda>extended.
     let merged = merge_overlapping_intervals extended in
     Inr (sort_registry (if in_registry merged n then merged else merged @ [(n, n)])))"

definition update_bridge_registry ::
    "'l bridge_state \<Rightarrow> chain_id \<Rightarrow> chain_nonce \<Rightarrow> bridge_dispatch_error + 'l bridge_state" where
  "update_bridge_registry s c n =
     (case bridge_registry s c of
        None \<Rightarrow> Inr s
      | Some registry \<Rightarrow>
          bindE (register_nonce registry n) (\<lambda>registry'.
          Inr (s\<lparr>bridge_registry := (bridge_registry s)(c \<mapsto> registry')\<rparr>)))"

section \<open>Helpers that change state\<close>

definition change_vote_threshold :: "'l bridge_config \<Rightarrow> 'l bridge_state \<Rightarrow> bridge_dispatch_error + 'l bridge_state" where
  "change_vote_threshold C s =
     (let new_threshold = pm_mul_ceil (br_arith C) (pm_from_percent (br_arith C) (br_threshold_percentage C))
                            (get_members_count C) in
      bindE (ensure_valid_threshold C new_threshold (get_members_count C)) (\<lambda>_.
      Inr (br_deposit_event (VoteThresholdUpdated new_threshold) (s\<lparr>vote_threshold := new_threshold\<rparr>))))"

definition bump_nonce :: "'l bridge_state \<Rightarrow> chain_id \<Rightarrow> bridge_dispatch_error + chain_nonce \<times> 'l bridge_state" where
  "bump_nonce s c =
     bindE (ensure (chain_nonce_of s c + 1 \<le> u64_max) Panic) (\<lambda>_.
     let nonce = chain_nonce_of s c + 1 in
     Inr (nonce, s\<lparr>chain_nonces := (chain_nonces s)(c \<mapsto> nonce)\<rparr>))"

definition update_bridge_token_cap ::
    "'l bridge_state \<Rightarrow> currency_id \<Rightarrow> balance \<Rightarrow> bridge_type \<Rightarrow> bridge_dispatch_error + 'l bridge_state" where
  "update_bridge_token_cap s a amount ty =
     (let t = bridge_token_of s a in
      bindE (ensure_under_bridge_cap t amount ty) (\<lambda>new_amount.
      Inr (put_bridge_token a
             (case ty of BridgeOut \<Rightarrow> t\<lparr>out_amount := new_amount\<rparr> | BridgeIn \<Rightarrow> t\<lparr>in_amount := new_amount\<rparr>) s)))"

definition try_mutate_bridge_token ::
    "'l bridge_state \<Rightarrow> currency_id
     \<Rightarrow> (bridge_token \<Rightarrow> 'l bridge_state \<Rightarrow> bridge_dispatch_error + bridge_token \<times> 'l bridge_state)
     \<Rightarrow> bridge_dispatch_error + 'l bridge_state" where
  "try_mutate_bridge_token s i op =
     bindE (ensure_bridge_token_registered s i) (\<lambda>_.
     let a = bridge_asset_id s i in
     bindE (op (bridge_token_of s a) s) (\<lambda>(t, s').
     Inr (put_bridge_token a t s')))"

definition br_lift :: "'l bridge_state \<Rightarrow> nat + 'l \<Rightarrow> bridge_dispatch_error + 'l bridge_state" where
  "br_lift s r = bindE (map_err External r) (\<lambda>l. Inr (s\<lparr>br_ledger := l\<rparr>))"

definition teleport_internal ::
    "'l bridge_state \<Rightarrow> account_id \<Rightarrow> chain_id \<Rightarrow> currency_id \<Rightarrow> string \<Rightarrow> balance \<Rightarrow> balance
     \<Rightarrow> bridge_dispatch_error + 'l bridge_state" where
  "teleport_internal s ori dest_id i dst amount fee =
     bindE (bump_nonce s dest_id) (\<lambda>(nonce, s).
     Inr (br_deposit_event (TeleportBurned ori dest_id nonce i dst amount fee) s))"

definition grant_incentive_bonus ::
    "'l bridge_config \<Rightarrow> 'l bridge_state \<Rightarrow> account_id \<Rightarrow> currency_id \<Rightarrow> balance
     \<Rightarrow> bridge_dispatch_error + 'l bridge_state" where
  "grant_incentive_bonus C s who a amount =
     (let gift_amount = (case br_gift_convert C amount a of None \<Rightarrow> 0 | Some g \<Rightarrow> g);
          beneficiary = ft_reducible_balance (br_assets C) (br_ledger s) (br_native C) who True;
          reducible = ft_reducible_balance (br_assets C) (br_ledger s) (br_native C) (br_gift_account C) False in
      if gift_amount \<noteq> 0 \<and> reducible \<ge> gift_amount \<and> beneficiary < gift_amount
      then bindE (ok_or (add_u128 (br_existential_deposit C) gift_amount) Panic) (\<lambda>n.
           br_lift s (ft_transfer (br_assets C) (br_ledger s) (br_native C) (br_gift_account C) who (n - beneficiary) False))
      else Inr s)"

definition pay_out ::
    "'l bridge_config \<Rightarrow> 'l bridge_state \<Rightarrow> currency_id \<Rightarrow> account_id \<Rightarrow> balance
     \<Rightarrow> bridge_dispatch_error + 'l bridge_state" where
  "pay_out C s a to amount =
     br_lift s
       (if bt_external (bridge_token_of s a) then ft_mint_into (br_assets C) (br_ledger s) a to amount
        else ft_transfer (br_assets C) (br_ledger s) a (bridge_account_id C) to amount True)"

definition execute_materialize ::
    "'l bridge_config \<Rightarrow> 'l bridge_state \<Rightarrow> chain_id \<Rightarrow> chain_nonce \<Rightarrow> materialize_call
     \<Rightarrow> bridge_dispatch_error + 'l bridge_state" where
  "execute_materialize C s src_id src_nonce call =
     bindE (ensure_chain_registered s src_id) (\<lambda>_.
     bindE (ensure_bridge_token_registered s (mc_bridge_token_id call)) (\<lambda>_.
     let a = bridge_asset_id s (mc_bridge_token_id call) in
     bindE (update_bridge_token_cap s a (mc_amount call) BridgeIn) (\<lambda>s.
     let s = br_deposit_event (ProposalApproved src_id src_nonce) s in
     bindE (pay_out C s a (mc_to call) (mc_amount call)) (\<lambda>s.
     bindE (grant_incentive_bonus C s (mc_to call) a (mc_amount call)) (\<lambda>s.
     bindE (update_bridge_registry s src_id src_nonce) (\<lambda>s.
     Inr (br_deposit_event
            (MaterializeMinted src_id src_nonce (mc_bridge_token_id call) (mc_to call) (mc_amount call)) s)))))))"

definition cancel_materialize ::
    "'l bridge_state \<Rightarrow> chain_id \<Rightarrow> chain_nonce \<Rightarrow> bridge_dispatch_error + 'l bridge_state" where
  "cancel_materialize s src_id src_nonce =
     bindE (update_bridge_registry s src_id src_nonce) (\<lambda>s.
     Inr (br_deposit_event (ProposalRejected src_id src_nonce) s))"

definition resolve_proposal ::
    "'l bridge_config \<Rightarrow> 'l bridge_state \<Rightarrow> chain_id \<Rightarrow> chain_nonce \<Rightarrow> materialize_call
     \<Rightarrow> bridge_dispatch_error + 'l bridge_state" where
  "resolve_proposal C s src_id src_nonce call =
     (case proposal_votes s src_id (src_nonce, call) of
        None \<Rightarrow> Inl (Module ProposalDoesNotExist)
      | Some p \<Rightarrow>
          bindE (ensure (\<not> is_complete p) (Module ProposalAlreadyComplete)) (\<lambda>_.
          bindE (ensure (\<not> is_expired p (br_now C)) (Module ProposalExpired)) (\<lambda>_.
          bindE (try_to_complete p (vote_threshold s) (get_members_count C)) (\<lambda>(status, p').
          let s = put_proposal src_id (src_nonce, call) p' s in
          case status of
            Approved \<Rightarrow> execute_materialize C s src_id src_nonce call
          | Rejected \<Rightarrow> cancel_materialize s src_id src_nonce
          | Initiated \<Rightarrow> Inr s))))"

section \<open>Calls\<close>

definition register_chain ::
    "'l bridge_config \<Rightarrow> 'l bridge_state \<Rightarrow> origin \<Rightarrow> chain_id \<Rightarrow> bridge_dispatch_error + 'l bridge_state" where
  "register_chain C s o' c =
     bindE (ensure_origin (br_update_chain_origin C) o') (\<lambda>_.
     bindE (ensure (c \<noteq> br_chain_id C \<and> \<not> chain_registered s c) (Module ChainIdAlreadyRegistered)) (\<lambda>_.
     Inr (br_deposit_event (ChainRegistered c)
            (s\<lparr>chain_nonces := (chain_nonces s)(c \<mapsto> 0), bridge_registry := (bridge_registry s)(c \<mapsto> [])\<rparr>))))"

definition unregister_chain ::
    "'l bridge_config \<Rightarrow> 'l bridge_state \<Rightarrow> origin \<Rightarrow> chain_id \<Rightarrow> bridge_dispatch_error + 'l bridge_state" where
  "unregister_chain C s o' c =
     bindE (ensure_origin (br_update_chain_origin C) o') (\<lambda>_.
     bindE (ensure_chain_registered s c) (\<lambda>_.
     Inr (br_deposit_event (ChainRemoved c)
            (s\<lparr>chain_nonces := (chain_nonces s)(c := None), bridge_registry := (bridge_registry s)(c := None)\<rparr>))))"

definition register_bridge_token ::
    "'l bridge_config \<Rightarrow> 'l bridge_state \<Rightarrow> origin \<Rightarrow> currency_id \<Rightarrow> bridge_token
     \<Rightarrow> bridge_dispatch_error + 'l bridge_state" where
  "register_bridge_token C s o' a t =
     bindE (ensure_origin (br_update_token_origin C) o') (\<lambda>_.
     bindE (ensure (bridge_tokens s a = None \<and> asset_ids s (bt_id t) = None)
             (Module BridgeTokenAlreadyRegistered)) (\<lambda>_.
     Inr (br_deposit_event
            (BridgeTokenRegistered a (bt_id t) (bt_external t) (bt_fee t) (bt_enable t)
               (out_cap t) (out_amount t) (in_cap t) (in_amount t))
            ((put_bridge_token a t s)\<lparr>asset_ids := (asset_ids s)(bt_id t \<mapsto> a)\<rparr>))))"

definition unregister_bridge_token ::
    "'l bridge_config \<Rightarrow> 'l bridge_state \<Rightarrow> origin \<Rightarrow> currency_id \<Rightarrow> bridge_dispatch_error + 'l bridge_state" where
  "unregister_bridge_token C s o' i =
     bindE (ensure_origin (br_update_token_origin C) o') (\<lambda>_.
     bindE (ensure_bridge_token_registered s i) (\<lambda>_.
     let a = bridge_asset_id s i in
     Inr (br_deposit_event (BridgeTokenRemoved a i)
            (s\<lparr>bridge_tokens := (bridge_tokens s)(a := None), asset_ids := (asset_ids s)(i := None)\<rparr>))))"

definition set_bridge_token_fee ::
    "'l bridge_config \<Rightarrow> 'l bridge_state \<Rightarrow> origin \<Rightarrow> currency_id \<Rightarrow> balance
     \<Rightarrow> bridge_dispatch_error + 'l bridge_state" where
  "set_bridge_token_fee C s o' i new_fee =
     bindE (ensure_origin (br_update_token_origin C) o') (\<lambda>_.
     try_mutate_bridge_token s i (\<lambda>t s.
       Inr (t\<lparr>bt_fee := new_fee\<rparr>, br_deposit_event (BridgeTokenFeeUpdated i new_fee) s)))"

definition set_bridge_token_status ::
    "'l bridge_config \<Rightarrow> 'l bridge_state \<Rightarrow> origin \<Rightarrow> currency_id \<Rightarrow> bool
     \<Rightarrow> bridge_dispatch_error + 'l bridge_state" where
  "set_bridge_token_status C s o' i enable =
     bindE (ensure_origin (br_update_token_origin C) o') (\<lambda>_.
     try_mutate_bridge_token s i (\<lambda>t s.
       Inr (t\<lparr>bt_enable := enable\<rparr>, br_deposit_event (BridgeTokenStatusUpdated i enable) s)))"

definition set_bridge_token_cap ::
    "'l bridge_config \<Rightarrow> 'l bridge_state \<Rightarrow> origin \<Rightarrow> currency_id \<Rightarrow> bridge_type \<Rightarrow> balance
     \<Rightarrow> bridge_dispatch_error + 'l bridge_state" where
  "set_bridge_token_cap C s o' i ty new_cap =
     bindE (ensure_origin (br_update_token_origin C) o') (\<lambda>_.
     try_mutate_bridge_token s i (\<lambda>t s.
       Inr (case ty of BridgeOut \<Rightarrow> t\<lparr>out_cap := new_cap\<rparr> | BridgeIn \<Rightarrow> t\<lparr>in_cap := new_cap\<rparr>,
            br_deposit_event (BridgeTokenCapUpdated i ty new_cap) s)))"

definition clean_cap_accumulated_value ::
    "'l bridge_config \<Rightarrow> 'l bridge_state \<Rightarrow> origin \<Rightarrow> currency_id \<Rightarrow> bridge_type
     \<Rightarrow> bridge_dispatch_error + 'l bridge_state" where
  "clean_cap_accumulated_value C s o' i ty =
     bindE (ensure_origin (br_cap_origin C) o') (\<lambda>_.
     try_mutate_bridge_token s i (\<lambda>t s.
       Inr (case ty of BridgeIn \<Rightarrow> t\<lparr>in_amount := 0\<rparr> | BridgeOut \<Rightarrow> t\<lparr>out_amount := 0\<rparr>,
            br_deposit_event (BridgeTokenAccumulatedValueCleaned i ty) s)))"

definition collect ::
    "'l bridge_config \<Rightarrow> 'l bridge_state \<Rightarrow> bridge_token \<Rightarrow> currency_id \<Rightarrow> account_id \<Rightarrow> balance
     \<Rightarrow> bridge_dispatch_error + 'l bridge_state" where
  "collect C s t a who amount =
     (if bt_external t
      then bindE (br_lift s (ft_burn_from (br_assets C) (br_ledger s) a who amount)) (\<lambda>s.
           br_lift s (ft_mint_into (br_assets C) (br_ledger s) a (bridge_account_id C) (bt_fee t)))
      else br_lift s (ft_transfer (br_assets C) (br_ledger s) a who (bridge_account_id C) amount False))"

definition teleport ::
    "'l bridge_config \<Rightarrow> 'l bridge_state \<Rightarrow> origin \<Rightarrow> chain_id \<Rightarrow> currency_id \<Rightarrow> string \<Rightarrow> balance
     \<Rightarrow> bridge_dispatch_error + 'l bridge_state" where
  "teleport C s o' dest_id i to amount =
     bindE (ensure_signed o') (\<lambda>who.
     bindE (ensure_chain_registered s dest_id) (\<lambda>_.
     bindE (ensure_bridge_token_registered s i) (\<lambda>_.
     bindE (ensure_amount_valid amount) (\<lambda>_.
     let a = bridge_asset_id s i; t = bridge_token_of s a in
     bindE (ensure (bt_enable t) (Module BridgeTokenDisabled)) (\<lambda>_.
     bindE (update_bridge_token_cap s a amount BridgeOut) (\<lambda>s.
     bindE (collect C s t a who amount) (\<lambda>s.
     bindE (ok_or (checked_sub amount (bt_fee t)) (Module BridgingAmountTooLow)) (\<lambda>actual_amount.
     teleport_internal s who dest_id i to actual_amount (bt_fee t)))))))))"

definition open_proposal ::
    "'l bridge_config \<Rightarrow> 'l bridge_state \<Rightarrow> account_id \<Rightarrow> chain_id \<Rightarrow> chain_nonce \<Rightarrow> materialize_call
     \<Rightarrow> bridge_dispatch_error + proposal \<times> 'l bridge_state" where
  "open_proposal C s who src_id src_nonce call =
     (case proposal_votes s src_id (src_nonce, call) of
        Some p \<Rightarrow> Inr (p, s)
      | None \<Rightarrow>
          bindE (ensure (br_now C + br_proposal_lifetime C \<le> u32_max) Panic) (\<lambda>_.
          Inr (default_proposal\<lparr>proposal_expiry := br_now C + br_proposal_lifetime C\<rparr>,
               br_deposit_event (MaterializeInitialized who src_id src_nonce (mc_bridge_token_id call)
                 (mc_to call) (mc_amount call)) s)))"

definition cast_vote ::
    "account_id \<Rightarrow> bool \<Rightarrow> chain_id \<Rightarrow> chain_nonce \<Rightarrow> materialize_call \<Rightarrow> proposal \<Rightarrow> 'l bridge_state
     \<Rightarrow> proposal \<times> 'l bridge_state" where
  "cast_vote who favour src_id src_nonce call p s =
     (if favour
      then (p\<lparr>votes_for := votes_for p @ [who]\<rparr>,
            br_deposit_event (MaterializeVoteFor src_id src_nonce who (mc_bridge_token_id call)
              (mc_to call) (mc_amount call)) s)
      else (p\<lparr>votes_against := votes_against p @ [who]\<rparr>,
            br_deposit_event (MaterializeVoteAgainst src_id src_nonce who (mc_bridge_token_id call)
              (mc_to call) (mc_amount call)) s))"

definition materialize ::
    "'l bridge_config \<Rightarrow> 'l bridge_state \<Rightarrow> origin \<Rightarrow> chain_id \<Rightarrow> chain_nonce \<Rightarrow> currency_id \<Rightarrow> account_id
     \<Rightarrow> balance \<Rightarrow> bool \<Rightarrow> bridge_dispatch_error + 'l bridge_state" where
  "materialize C s o' src_id src_nonce i to amount favour =
     bindE (ensure_relay_member C o') (\<lambda>who.
     bindE (ensure_chain_registered s src_id) (\<lambda>_.
     bindE (ensure_chain_nonce_valid s src_id src_nonce) (\<lambda>_.
     bindE (materialize_allowed s i amount) (\<lambda>_.
     let call = \<lparr>mc_bridge_token_id = i, mc_to = to, mc_amount = amount\<rparr> in
     bindE (open_proposal C s who src_id src_nonce call) (\<lambda>(p, s).
     bindE (ensure (\<not> is_complete p) (Module ProposalAlreadyComplete)) (\<lambda>_.
     bindE (ensure (\<not> is_expired p (br_now C)) (Module ProposalExpired)) (\<lambda>_.
     bindE (ensure (\<not> has_voted p who) (Module MemberAlreadyVoted)) (\<lambda>_.
     let (p, s) = cast_vote who favour src_id src_nonce call p s in
     resolve_proposal C (put_proposal src_id (src_nonce, call) p s) src_id src_nonce call))))))))"

text \<open>The hook at the beginning of a block removes the proposals whose time is over.\<close>

definition bridge_on_initialize :: "block_number \<Rightarrow> 'l bridge_state \<Rightarrow> 'l bridge_state" where
  "bridge_on_initialize now s =
     s\<lparr>proposal_votes := (\<lambda>c k. case proposal_votes s c k of
         None \<Rightarrow> None | Some p \<Rightarrow> if can_be_cleaned_up p now then None else Some p)\<rparr>"

datatype bridge_call =
    RegisterChain chain_id
  | UnregisterChain chain_id
  | RegisterBridgeToken currency_id bridge_token
  | UnregisterBridgeToken currency_id
  | SetBridgeTokenFee currency_id balance
  | SetBridgeTokenStatus currency_id bool
  | SetBridgeTokenCap currency_id bridge_type balance
  | CleanCapAccumulatedValue currency_id bridge_type
  | Teleport chain_id currency_id string balance
  | Materialize chain_id chain_nonce currency_id account_id balance bool

fun bridge_dispatch ::
    "'l bridge_config \<Rightarrow> 'l bridge_state \<Rightarrow> origin \<Rightarrow> bridge_call \<Rightarrow> bridge_dispatch_error + 'l bridge_state" where
  "bridge_dispatch C s o' (RegisterChain c) = register_chain C s o' c"
| "bridge_dispatch C s o' (UnregisterChain c) = unregister_chain C s o' c"
| "bridge_dispatch C s o' (RegisterBridgeToken a t) = register_bridge_token C s o' a t"
| "bridge_dispatch C s o' (UnregisterBridgeToken i) = unregister_bridge_token C s o' i"
| "bridge_dispatch C s o' (SetBridgeTokenFee i n) = set_bridge_token_fee C s o' i n"
| "bridge_dispatch C s o' (SetBridgeTokenStatus i b) = set_bridge_token_status C s o' i b"
| "bridge_dispatch C s o' (SetBridgeTokenCap i ty n) = set_bridge_token_cap C s o' i ty n"
| "bridge_dispatch C s o' (CleanCapAccumulatedValue i ty) = clean_cap_accumulated_value C s o' i ty"
| "bridge_dispatch C s o' (Teleport d i to n) = teleport C s o' d i to n"
| "bridge_dispatch C s o' (Materialize c n i to m f) = materialize C s o' c n i to m f"

text \<open>A change of the members adjusts the threshold; where that fails, the old one stays.\<close>

definition change_members_sorted :: "'l bridge_config \<Rightarrow> 'l bridge_state \<Rightarrow> 'l bridge_state" where
  "change_members_sorted C s = (case change_vote_threshold C s of Inl _ \<Rightarrow> s | Inr s' \<Rightarrow> s')"

end
