(* ===== verification/Bridge_Safety.thy ===== *)
theory Bridge_Safety
  imports Bridge
begin

text \<open>
  Lemmas of the bridge: the registry of nonces represents a set, the votes on a proposal are cast by
  different members, and what each call does to the ledger, the registry and the events.
\<close>

section \<open>The registry represents a set of nonces\<close>

definition nonces_of :: "bridge_interval list \<Rightarrow> chain_nonce set" where
  "nonces_of registry = {n. in_registry registry n}"

definition valid_intervals :: "bridge_interval list \<Rightarrow> bool" where
  "valid_intervals registry \<longleftrightarrow> (\<forall>x\<in>set registry. fst x \<le> snd x)"

definition registry_wf :: "bridge_interval list \<Rightarrow> bool" where
  "registry_wf registry \<longleftrightarrow> valid_intervals registry \<and> sorted_wrt (\<lambda>x y. snd x < fst y) registry"

lemma in_registry_simps [simp]:
  "\<not> in_registry [] n"
  "in_registry (x # xs) n \<longleftrightarrow> fst x \<le> n \<and> n \<le> snd x \<or> in_registry xs n"
  "in_registry (xs @ ys) n \<longleftrightarrow> in_registry xs n \<or> in_registry ys n"
  by (auto simp: in_registry_def)

lemma valid_intervals_simps [simp]:
  "valid_intervals []"
  "valid_intervals (x # xs) \<longleftrightarrow> fst x \<le> snd x \<and> valid_intervals xs"
  "valid_intervals (xs @ ys) \<longleftrightarrow> valid_intervals xs \<and> valid_intervals ys"
  by (auto simp: valid_intervals_def)

lemma registry_set_cong:
  assumes "set xs = set ys"
  shows "in_registry xs n = in_registry ys n" and "valid_intervals xs = valid_intervals ys"
  using assms by (simp_all add: in_registry_def valid_intervals_def)

lemma merge_interval_simps [simp]:
  "merge_interval r [] = [r]"
  "merge_interval r (M @ [x]) =
     (if fst r > snd x then M @ [x] @ [r] else M @ [(fst x, max (snd r) (snd x))])"
  by (simp_all add: merge_interval_def)

lemmas merge_interval_single [simp] = merge_interval_simps(2) [of _ "[]", simplified]

lemma merge_fold:
  assumes "sorted (map fst (x # rest))" and "valid_intervals (M @ x # rest)"
    and "sorted_wrt (\<lambda>x y. snd x < fst y) (M @ [x])"
  shows "registry_wf (fold merge_interval rest (M @ [x])) \<and>
    (\<forall>n. in_registry (fold merge_interval rest (M @ [x])) n = in_registry (M @ x # rest) n)"
  using assms
proof (induction rest arbitrary: M x)
  case Nil
  then show ?case by (simp add: registry_wf_def)
next
  case (Cons r rest)
  show ?case
  proof (cases "fst r > snd x")
    case True
    have "sorted_wrt (\<lambda>x y. snd x < fst y) ((M @ [x]) @ [r])"
      using Cons.prems True by (fastforce simp: sorted_wrt_append)
    with Cons.IH [of r "M @ [x]"] Cons.prems True show ?thesis by simp
  next
    case False
    let ?x = "(fst x, max (snd r) (snd x))"
    have "sorted_wrt (\<lambda>x y. snd x < fst y) (M @ [?x])" using Cons.prems(3) by (simp add: sorted_wrt_append)
    moreover have "sorted (map fst (?x # rest))" "valid_intervals (M @ ?x # rest)" using Cons.prems by auto
    ultimately have IH: "registry_wf (fold merge_interval rest (M @ [?x])) \<and>
        (\<forall>n. in_registry (fold merge_interval rest (M @ [?x])) n = in_registry (M @ ?x # rest) n)"
      by (rule Cons.IH [rotated 2])
    have "fst x \<le> n \<and> n \<le> max (snd r) (snd x) \<longleftrightarrow> (fst x \<le> n \<and> n \<le> snd x) \<or> (fst r \<le> n \<and> n \<le> snd r)" for n
      using False Cons.prems(1) by auto
    with IH False show ?thesis by simp
  qed
qed

lemma merge_overlapping_set:
  assumes "valid_intervals registry"
  shows "registry_wf (merge_overlapping_intervals registry)"
    and "in_registry (merge_overlapping_intervals registry) n = in_registry registry n"
proof -
  have "registry_wf (merge_overlapping_intervals registry) \<and>
      in_registry (merge_overlapping_intervals registry) n = in_registry registry n"
  proof (cases "sort_registry registry")
    case Nil
    then have "registry = []" by (metis set_empty set_sort sort_registry_def)
    with Nil show ?thesis by (simp add: merge_overlapping_intervals_def registry_wf_def)
  next
    case (Cons x rest)
    have set: "set (x # rest) = set registry" using Cons by (metis set_sort sort_registry_def)
    have "sorted (map fst (x # rest))" using Cons by (metis sorted_sort_key sort_registry_def)
    moreover have "valid_intervals ([] @ x # rest)" using registry_set_cong(2) [OF set] assms by simp
    ultimately have "registry_wf (fold merge_interval rest ([] @ [x])) \<and>
        (\<forall>n. in_registry (fold merge_interval rest ([] @ [x])) n = in_registry ([] @ x # rest) n)"
      by (rule merge_fold) simp
    with Cons registry_set_cong(1) [OF set] show ?thesis
      by (simp add: merge_overlapping_intervals_def)
  qed
  then show "registry_wf (merge_overlapping_intervals registry)"
    and "in_registry (merge_overlapping_intervals registry) n = in_registry registry n" by simp_all
qed

lemma sort_registry_wf:
  assumes "valid_intervals xs" and "distinct xs"
    and "\<And>x y. x \<in> set xs \<Longrightarrow> y \<in> set xs \<Longrightarrow> x \<noteq> y \<Longrightarrow> snd x < fst y \<or> snd y < fst x"
  shows "registry_wf (sort_registry xs)"
proof -
  let ?ys = "sort_registry xs"
  have set: "set ?ys = set xs" and d: "distinct ?ys" and s: "sorted (map fst ?ys)"
    using assms(2) by (simp_all add: sort_registry_def)
  have "snd (?ys ! i) < fst (?ys ! j)" if "i < j" "j < length ?ys" for i j
  proof -
    have le: "fst (?ys ! i) \<le> fst (?ys ! j)" using s that by (simp add: sorted_iff_nth_mono)
    have mem: "?ys ! i \<in> set xs" "?ys ! j \<in> set xs" using that set nth_mem by (metis order.strict_trans)+
    then have "fst (?ys ! j) \<le> snd (?ys ! j)" using assms(1) by (simp add: valid_intervals_def)
    with assms(3) [OF mem] le d that show ?thesis by (auto simp: nth_eq_iff_index_eq)
  qed
  then show ?thesis using registry_set_cong(2) [OF set] assms(1)
    by (simp add: registry_wf_def sorted_wrt_iff_nth_less)
qed

lemma registry_wf_apart:
  assumes "registry_wf xs"
  shows "distinct xs" and "x \<in> set xs \<Longrightarrow> y \<in> set xs \<Longrightarrow> x \<noteq> y \<Longrightarrow> snd x < fst y \<or> snd y < fst x"
proof -
  have nth: "snd (xs ! i) < fst (xs ! j)" if "i < j" "j < length xs" for i j
    using assms that by (simp add: registry_wf_def sorted_wrt_iff_nth_less)
  have val: "fst (xs ! i) \<le> snd (xs ! i)" if "i < length xs" for i
    using assms that by (simp add: registry_wf_def valid_intervals_def)
  show "distinct xs" unfolding distinct_conv_nth
    using nth val by (metis leD linorder_neqE_nat)
  show "x \<in> set xs \<Longrightarrow> y \<in> set xs \<Longrightarrow> x \<noteq> y \<Longrightarrow> snd x < fst y \<or> snd y < fst x"
    by (metis in_set_conv_nth linorder_neqE_nat nth)
qed

subsection \<open>Registering a nonce\<close>

lemma extend_registry_list:
  assumes "extend_registry n registry = Inr ys"
  shows "list_all2 (\<lambda>x y. extend_interval n x = Inr y) registry ys"
proof -
  have "list_all2 (\<lambda>x y. extend_interval n x = Inr y) (xs0 @ xs) ys"
    if "foldE (\<lambda>x xs. bindE (extend_interval n x) (\<lambda>y. Inr (xs @ [y]))) xs acc = Inr ys"
      "list_all2 (\<lambda>x y. extend_interval n x = Inr y) xs0 acc" for xs xs0 acc
    using that
  proof (induction xs arbitrary: xs0 acc)
    case Nil
    then show ?case by simp
  next
    case (Cons x xs)
    then obtain y where y: "extend_interval n x = Inr y"
      and f: "foldE (\<lambda>x xs. bindE (extend_interval n x) (\<lambda>y. Inr (xs @ [y]))) xs (acc @ [y]) = Inr ys" by auto
    from y Cons.prems(2) have "list_all2 (\<lambda>x y. extend_interval n x = Inr y) (xs0 @ [x]) (acc @ [y])"
      by (simp add: list_all2_appendI)
    from Cons.IH [OF f this] show ?case by simp
  qed
  from this [of registry "[]" "[]"] assms show ?thesis by (simp add: extend_registry_def)
qed

lemma extend_interval_cases:
  assumes "extend_interval n x = Inr y"
  obtains "y = x" | "fst x = n + 1" "y = (n, snd x)" | "snd x + 1 = n" "y = (fst x, n)"
  using assms unfolding extend_interval_def by (elim bindE_InrE) (auto split: if_splits)

lemma extend_registry_set:
  assumes "extend_registry n registry = Inr ys" and "valid_intervals registry"
  shows "valid_intervals ys" and "in_registry registry m \<Longrightarrow> in_registry ys m"
    and "in_registry ys m \<Longrightarrow> in_registry registry m \<or> m = n"
proof -
  from extend_registry_list [OF assms(1)] assms(2)
  have "valid_intervals ys \<and> (in_registry registry m \<longrightarrow> in_registry ys m) \<and>
      (in_registry ys m \<longrightarrow> in_registry registry m \<or> m = n)"
  proof (induction rule: list_all2_induct)
    case Nil
    then show ?case by simp
  next
    case (Cons x xs y ys)
    from Cons.hyps(1) have "fst y \<le> snd y \<and> (fst x \<le> m \<and> m \<le> snd x \<longrightarrow> fst y \<le> m \<and> m \<le> snd y) \<and>
        (fst y \<le> m \<and> m \<le> snd y \<longrightarrow> fst x \<le> m \<and> m \<le> snd x \<or> m = n)"
      by (rule extend_interval_cases) (use Cons.prems in auto)
    with Cons show ?case by auto
  qed
  then show "valid_intervals ys" and "in_registry registry m \<Longrightarrow> in_registry ys m"
    and "in_registry ys m \<Longrightarrow> in_registry registry m \<or> m = n" by blast+
qed

lemma extend_starts_distinct:
  assumes "extend_registry n registry = Inr ys" and "registry_wf registry" and "\<not> in_registry registry n"
  shows "distinct (map fst ys)"
proof -
  have l: "list_all2 (\<lambda>x y. extend_interval n x = Inr y) registry ys" by (rule extend_registry_list [OF assms(1)])
  have len: "length registry = length ys" using l by (rule list_all2_lengthD)
  have "fst (ys ! i) \<noteq> fst (ys ! j)" if ij: "i < j" "j < length ys" for i j
  proof -
    have ei: "extend_interval n (registry ! i) = Inr (ys ! i)" and ej: "extend_interval n (registry ! j) = Inr (ys ! j)"
      using l ij len by (auto simp: list_all2_conv_all_nth)
    have apart: "snd (registry ! i) < fst (registry ! j)"
      using assms(2) ij len by (simp add: registry_wf_def sorted_wrt_iff_nth_less)
    have val: "fst (registry ! i) \<le> snd (registry ! i)" and out: "\<not> (fst (registry ! i) \<le> n \<and> n \<le> snd (registry ! i))"
      using assms(2,3) ij len by (auto simp: registry_wf_def valid_intervals_def in_registry_def)
    from ei ej show ?thesis
      by (elim extend_interval_cases) (use apart val out in auto)
  qed
  then show ?thesis by (auto simp: distinct_conv_nth) (metis linorder_neqE_nat)
qed

lemma register_nonce_set:
  assumes "register_nonce registry n = Inr registry'" and "valid_intervals registry"
  shows "registry_wf registry'" and "nonces_of registry' = insert n (nonces_of registry)"
proof -
  from assms(1) obtain ys where ys: "extend_registry n registry = Inr ys"
    and r: "registry' = sort_registry (if in_registry (merge_overlapping_intervals ys) n
        then merge_overlapping_intervals ys else merge_overlapping_intervals ys @ [(n, n)])"
    unfolding register_nonce_def Let_def by (elim resultE)
  let ?m = "merge_overlapping_intervals ys"
  let ?l = "if in_registry ?m n then ?m else ?m @ [(n, n)]"
  have wf: "registry_wf ?m" and mem: "\<And>k. in_registry ?m k = in_registry ys k"
    using merge_overlapping_set [OF extend_registry_set(1) [OF ys assms(2)]] by blast+
  have v: "valid_intervals ?l" using wf by (simp add: registry_wf_def)
  have d: "distinct ?l" using registry_wf_apart(1) [OF wf] by (auto simp: in_registry_def)
  have a: "snd x < fst y \<or> snd y < fst x" if "x \<in> set ?l" "y \<in> set ?l" "x \<noteq> y" for x y
    using that registry_wf_apart(2) [OF wf, of x y] by (auto simp: in_registry_def split: if_splits)
  show "registry_wf registry'" unfolding r by (rule sort_registry_wf [OF v d a])
  have "in_registry registry' k \<longleftrightarrow> in_registry ?l k" for k
    unfolding r by (rule registry_set_cong) (simp add: sort_registry_def)
  then have "in_registry registry' k \<longleftrightarrow> in_registry registry k \<or> k = n" for k
    using extend_registry_set(2,3) [OF ys assms(2), of k] mem by auto
  then show "nonces_of registry' = insert n (nonces_of registry)" by (auto simp: nonces_of_def)
qed

section \<open>What the calls do\<close>

text \<open>The events that say that tokens crossed the bridge, or that a nonce is done with.\<close>

fun neutral :: "bridge_event \<Rightarrow> bool" where
  "neutral (TeleportBurned w d n i to m fee) = False"
| "neutral (MaterializeMinted c n i to m) = False"
| "neutral (ProposalRejected c n) = False"
| "neutral _ = True"

lemma br_lift_InrE:
  assumes "br_lift s r = Inr s'"
  obtains l where "r = Inr l" and "s' = s\<lparr>br_ledger := l\<rparr>"
  using assms unfolding br_lift_def by (elim resultE) (rule that)

lemma registered_asset:
  assumes "ensure_bridge_token_registered s i = Inr u"
  obtains a where "asset_ids s i = Some a" and "bridge_asset_id s i = a"
  using assms by (auto simp: ensure_bridge_token_registered_def bridge_asset_id_def)

lemma ensure_under_bridge_cap_InrE:
  assumes "ensure_under_bridge_cap t amount ty = Inr m"
  obtains "ty = BridgeOut" "m = out_amount t + amount" "m \<le> out_cap t"
    | "ty = BridgeIn" "m = in_amount t + amount" "m \<le> in_cap t"
  using assms unfolding ensure_under_bridge_cap_def by (cases ty) auto

lemma update_bridge_token_cap_InrE:
  assumes "update_bridge_token_cap s a amount ty = Inr s'"
  obtains t where "s' = s\<lparr>bridge_tokens := (bridge_tokens s)(a \<mapsto> t)\<rparr>"
    and "t = (case ty of BridgeOut \<Rightarrow> (bridge_token_of s a)\<lparr>out_amount := out_amount (bridge_token_of s a) + amount\<rparr>
      | BridgeIn \<Rightarrow> (bridge_token_of s a)\<lparr>in_amount := in_amount (bridge_token_of s a) + amount\<rparr>)"
    and "(case ty of BridgeOut \<Rightarrow> out_amount t \<le> out_cap t | BridgeIn \<Rightarrow> in_amount t \<le> in_cap t)"
  using assms unfolding update_bridge_token_cap_def Let_def put_bridge_token_def
  by (elim resultE ensure_under_bridge_cap_InrE) (auto intro: that)

definition collects :: "'l bridge_config \<Rightarrow> bridge_token \<Rightarrow> currency_id \<Rightarrow> account_id \<Rightarrow> balance \<Rightarrow> 'l \<Rightarrow> 'l \<Rightarrow> bool" where
  "collects C t a who amount l l' \<longleftrightarrow>
     (if bt_external t
      then \<exists>k. ft_burn_from (br_assets C) l a who amount = Inr k \<and>
               ft_mint_into (br_assets C) k a (br_pallet_account C) (bt_fee t) = Inr l'
      else ft_transfer (br_assets C) l a who (br_pallet_account C) amount False = Inr l')"

lemma teleport_inv:
  assumes "teleport C s o' d i to amount = Inr s'"
  obtains who a l' where "o' = Signed who" and "chain_nonces s d \<noteq> None" and "asset_ids s i = Some a"
    and "bt_enable (bridge_token_of s a)" and "0 < amount" and "bt_fee (bridge_token_of s a) \<le> amount"
    and "out_amount (bridge_token_of s a) + amount \<le> out_cap (bridge_token_of s a)"
    and "collects C (bridge_token_of s a) a who amount (br_ledger s) l'" and "chain_nonce_of s d + 1 \<le> u64_max"
    and "s' = s\<lparr>bridge_tokens := (bridge_tokens s)(a \<mapsto> (bridge_token_of s a)\<lparr>out_amount := out_amount (bridge_token_of s a) + amount\<rparr>),
      br_ledger := l', chain_nonces := (chain_nonces s)(d \<mapsto> chain_nonce_of s d + 1),
      br_events := br_events s @ [TeleportBurned who d (chain_nonce_of s d + 1) i to
        (amount - bt_fee (bridge_token_of s a)) (bt_fee (bridge_token_of s a))]\<rparr>"
proof -
  let ?a = "bridge_asset_id s i"
  let ?t = "bridge_token_of s ?a"
  from assms obtain who s1 s2 u where o: "o' = Signed who" and ch: "ensure_chain_registered s d = Inr ()"
    and reg: "ensure_bridge_token_registered s i = Inr u" and am: "ensure_amount_valid amount = Inr ()"
    and en: "bt_enable ?t" and cap: "update_bridge_token_cap s ?a amount BridgeOut = Inr s1"
    and col: "collect C s1 ?t ?a who amount = Inr s2" and fee: "bt_fee ?t \<le> amount"
    and tel: "teleport_internal s2 who d i to (amount - bt_fee ?t) (bt_fee ?t) = Inr s'"
    unfolding teleport_def Let_def by (elim resultE) auto
  from reg obtain a where a: "asset_ids s i = Some a" "?a = a" by (rule registered_asset)
  from cap obtain t where s1: "s1 = s\<lparr>bridge_tokens := (bridge_tokens s)(?a \<mapsto> t)\<rparr>"
    and t: "t = ?t\<lparr>out_amount := out_amount ?t + amount\<rparr>" "out_amount t \<le> out_cap t"
    by (rule update_bridge_token_cap_InrE) auto
  from col obtain l' where l': "collects C ?t ?a who amount (br_ledger s) l'" and s2: "s2 = s1\<lparr>br_ledger := l'\<rparr>"
    unfolding collect_def collects_def bridge_account_id_def s1
    by (auto simp: br_lift_def split: if_splits)
  from tel have nonce: "chain_nonce_of s d + 1 \<le> u64_max" and s': "s' = s2\<lparr>chain_nonces := (chain_nonces s)(d \<mapsto> chain_nonce_of s d + 1),
      br_events := br_events s @ [TeleportBurned who d (chain_nonce_of s d + 1) i to (amount - bt_fee ?t) (bt_fee ?t)]\<rparr>"
    unfolding teleport_internal_def bump_nonce_def Let_def br_deposit_event_def
    by (auto simp: s1 s2 chain_nonce_of_def)
  show ?thesis
    by (rule that [of who a l']) (use o ch a am en fee t l' nonce s' in
      \<open>auto simp: s1 s2 ensure_chain_registered_def chain_registered_def ensure_amount_valid_def\<close>)
qed

definition pays :: "'l bridge_config \<Rightarrow> bridge_token \<Rightarrow> currency_id \<Rightarrow> account_id \<Rightarrow> balance \<Rightarrow> 'l \<Rightarrow> 'l \<Rightarrow> bool" where
  "pays C t a to amount l l' \<longleftrightarrow>
     (\<exists>k. (if bt_external t then ft_mint_into (br_assets C) l a to amount
           else ft_transfer (br_assets C) l a (br_pallet_account C) to amount True) = Inr k \<and>
          (l' = k \<or> (\<exists>m. ft_transfer (br_assets C) k (br_native C) (br_gift_account C) to m False = Inr l')))"

text \<open>\<open>nonce_done\<close> is the effect of \<open>update_bridge_registry\<close> on the registries.\<close>

definition nonce_done ::
    "chain_id \<Rightarrow> chain_nonce \<Rightarrow> (chain_id \<rightharpoonup> bridge_interval list) \<Rightarrow> (chain_id \<rightharpoonup> bridge_interval list) \<Rightarrow> bool" where
  "nonce_done c n R R' \<longleftrightarrow>
     (case R c of None \<Rightarrow> R' = R
      | Some registry \<Rightarrow> \<exists>registry'. register_nonce registry n = Inr registry' \<and> R' = R(c \<mapsto> registry'))"

lemma update_bridge_registry_InrE:
  assumes "update_bridge_registry s c n = Inr s'"
  obtains R' where "nonce_done c n (bridge_registry s) R'" and "s' = s\<lparr>bridge_registry := R'\<rparr>"
proof (cases "bridge_registry s c")
  case None
  with assms show ?thesis by (intro that [of "bridge_registry s"]) (auto simp: update_bridge_registry_def nonce_done_def)
next
  case (Some registry)
  with assms show ?thesis by (auto simp: update_bridge_registry_def nonce_done_def intro: that)
qed

lemma grant_incentive_bonus_InrE:
  assumes "grant_incentive_bonus C s who a amount = Inr s'"
  obtains l' where "s' = s\<lparr>br_ledger := l'\<rparr>" and "l' = br_ledger s \<or>
    (\<exists>m. ft_transfer (br_assets C) (br_ledger s) (br_native C) (br_gift_account C) who m False = Inr l')"
  using assms unfolding grant_incentive_bonus_def Let_def
  by (auto simp: br_lift_def split: if_splits intro: that [of "br_ledger s"] that)

lemma execute_materialize_inv:
  assumes "execute_materialize C s c n call = Inr s'"
  obtains a l' R' where "asset_ids s (mc_bridge_token_id call) = Some a"
    and "in_amount (bridge_token_of s a) + mc_amount call \<le> in_cap (bridge_token_of s a)"
    and "pays C (bridge_token_of s a) a (mc_to call) (mc_amount call) (br_ledger s) l'"
    and "nonce_done c n (bridge_registry s) R'"
    and "s' = s\<lparr>bridge_tokens := (bridge_tokens s)(a \<mapsto> (bridge_token_of s a)\<lparr>in_amount := in_amount (bridge_token_of s a) + mc_amount call\<rparr>),
      br_ledger := l', bridge_registry := R', br_events := br_events s @
        [ProposalApproved c n, MaterializeMinted c n (mc_bridge_token_id call) (mc_to call) (mc_amount call)]\<rparr>"
proof -
  let ?a = "bridge_asset_id s (mc_bridge_token_id call)"
  let ?t = "bridge_token_of s ?a"
  from assms obtain u s1 s2 s3 s4 where reg: "ensure_bridge_token_registered s (mc_bridge_token_id call) = Inr u"
    and cap: "update_bridge_token_cap s ?a (mc_amount call) BridgeIn = Inr s1"
    and pay: "pay_out C (br_deposit_event (ProposalApproved c n) s1) ?a (mc_to call) (mc_amount call) = Inr s2"
    and gift: "grant_incentive_bonus C s2 (mc_to call) ?a (mc_amount call) = Inr s3"
    and fin: "update_bridge_registry s3 c n = Inr s4"
    and s': "s' = br_deposit_event (MaterializeMinted c n (mc_bridge_token_id call) (mc_to call) (mc_amount call)) s4"
    unfolding execute_materialize_def Let_def by (elim resultE) auto
  from reg obtain a where a: "asset_ids s (mc_bridge_token_id call) = Some a" "?a = a" by (rule registered_asset)
  from cap obtain t where s1: "s1 = s\<lparr>bridge_tokens := (bridge_tokens s)(?a \<mapsto> t)\<rparr>"
    and t: "t = ?t\<lparr>in_amount := in_amount ?t + mc_amount call\<rparr>" "in_amount t \<le> in_cap t"
    by (rule update_bridge_token_cap_InrE) auto
  have same: "bridge_token_of (br_deposit_event e s1) ?a = t" "br_ledger (br_deposit_event e s1) = br_ledger s"
    "bt_external t = bt_external ?t" for e
    by (simp_all add: br_deposit_event_def s1 t(1)) (simp add: bridge_token_of_def)
  from pay obtain l where l: "(if bt_external ?t then ft_mint_into (br_assets C) (br_ledger s) ?a (mc_to call) (mc_amount call)
       else ft_transfer (br_assets C) (br_ledger s) ?a (br_pallet_account C) (mc_to call) (mc_amount call) True) = Inr l"
    and s2: "s2 = (br_deposit_event (ProposalApproved c n) s1)\<lparr>br_ledger := l\<rparr>"
    unfolding pay_out_def bridge_account_id_def same by (rule br_lift_InrE)
  from gift obtain l' where s3: "s3 = s2\<lparr>br_ledger := l'\<rparr>" and l': "l' = l \<or>
      (\<exists>m. ft_transfer (br_assets C) l (br_native C) (br_gift_account C) (mc_to call) m False = Inr l')"
    by (rule grant_incentive_bonus_InrE) (simp add: s2)
  from fin obtain R' where R': "nonce_done c n (bridge_registry s) R'" "s4 = s3\<lparr>bridge_registry := R'\<rparr>"
    by (rule update_bridge_registry_InrE) (simp add: s1 s2 s3 br_deposit_event_def)
  have "pays C ?t ?a (mc_to call) (mc_amount call) (br_ledger s) l'" unfolding pays_def using l l' by blast
  then show ?thesis
    by (rule that [OF a(1) _ _ R'(1), unfolded a(2) [symmetric], rotated])
      (use t in \<open>simp_all add: s' R'(2) s1 s2 s3 br_deposit_event_def\<close>)
qed

lemma cancel_materialize_inv:
  assumes "cancel_materialize s c n = Inr s'"
  obtains R' where "nonce_done c n (bridge_registry s) R'"
    and "s' = s\<lparr>bridge_registry := R', br_events := br_events s @ [ProposalRejected c n]\<rparr>"
  using assms unfolding cancel_materialize_def
  by (elim resultE update_bridge_registry_InrE) (auto simp: br_deposit_event_def intro: that)

subsection \<open>A vote\<close>

definition opened :: "'l bridge_config \<Rightarrow> 'l bridge_state \<Rightarrow> chain_id \<Rightarrow> chain_nonce \<times> materialize_call \<Rightarrow> proposal" where
  "opened C s c k = (case proposal_votes s c k of Some p \<Rightarrow> p
     | None \<Rightarrow> default_proposal\<lparr>proposal_expiry := br_now C + br_proposal_lifetime C\<rparr>)"

definition voted :: "account_id \<Rightarrow> bool \<Rightarrow> proposal \<Rightarrow> proposal" where
  "voted who favour p = (if favour then p\<lparr>votes_for := votes_for p @ [who]\<rparr>
     else p\<lparr>votes_against := votes_against p @ [who]\<rparr>)"

lemma voted_frame [simp]:
  "proposal_status (voted who f p) = proposal_status p" "proposal_expiry (voted who f p) = proposal_expiry p"
  "is_complete (voted who f p) = is_complete p" "is_expired (voted who f p) now = is_expired p now"
  by (simp_all add: voted_def is_complete_def is_expired_def)

lemma put_proposal_simps [simp]:
  "proposal_votes (put_proposal c k p s) c' = (if c' = c then (proposal_votes s c)(k \<mapsto> p) else proposal_votes s c')"
  "put_proposal c k p (put_proposal c k q s) = put_proposal c k p s"
  "chain_nonces (put_proposal c k p s) = chain_nonces s" "bridge_registry (put_proposal c k p s) = bridge_registry s"
  "bridge_tokens (put_proposal c k p s) = bridge_tokens s" "asset_ids (put_proposal c k p s) = asset_ids s"
  "vote_threshold (put_proposal c k p s) = vote_threshold s" "br_ledger (put_proposal c k p s) = br_ledger s"
  "br_events (put_proposal c k p s) = br_events s" "bridge_token_of (put_proposal c k p s) a = bridge_token_of s a"
  by (simp_all add: put_proposal_def bridge_token_of_def)

lemma bridge_token_of_events [simp]: "bridge_token_of (s\<lparr>br_events := e\<rparr>) a = bridge_token_of s a"
  by (simp add: bridge_token_of_def)

lemma open_proposal_inv:
  assumes "open_proposal C s who c n call = Inr (p, s1)"
  obtains evs where "p = opened C s c (n, call)" and "s1 = s\<lparr>br_events := br_events s @ evs\<rparr>" and "\<forall>e\<in>set evs. neutral e"
proof (cases "proposal_votes s c (n, call)")
  case None
  with assms show ?thesis by (auto simp: open_proposal_def opened_def br_deposit_event_def intro: that)
next
  case (Some q)
  with assms show ?thesis by (intro that [of "[]"]) (auto simp: open_proposal_def opened_def)
qed

lemma cast_vote_voted:
  "\<exists>evs. cast_vote who f c n call p s = (voted who f p, s\<lparr>br_events := br_events s @ evs\<rparr>) \<and> (\<forall>e\<in>set evs. neutral e)"
  by (cases f) (auto simp: cast_vote_def voted_def br_deposit_event_def intro: exI [of _ "[_]"])

lemma resolve_proposal_inv:
  assumes "resolve_proposal C s c n call = Inr s'" and "proposal_votes s c (n, call) = Some p"
  obtains st p' where "try_to_complete p (vote_threshold s) (get_members_count C) = Inr (st, p')"
    and "case st of Approved \<Rightarrow> execute_materialize C (put_proposal c (n, call) p' s) c n call = Inr s'
      | Rejected \<Rightarrow> cancel_materialize (put_proposal c (n, call) p' s) c n = Inr s'
      | Initiated \<Rightarrow> s' = put_proposal c (n, call) p' s"
proof -
  from assms obtain st p' where t: "try_to_complete p (vote_threshold s) (get_members_count C) = Inr (st, p')"
    and o: "(case st of Approved \<Rightarrow> execute_materialize C (put_proposal c (n, call) p' s) c n call
          | Rejected \<Rightarrow> cancel_materialize (put_proposal c (n, call) p' s) c n
          | Initiated \<Rightarrow> Inr (put_proposal c (n, call) p' s)) = Inr s'"
    unfolding resolve_proposal_def Let_def by auto
  show ?thesis by (rule that [OF t]) (use o in \<open>cases st; simp\<close>)
qed

lemma materialize_inv:
  fixes to amount i
  defines "call \<equiv> \<lparr>mc_bridge_token_id = i, mc_to = to, mc_amount = amount\<rparr>"
  assumes "materialize C s o' c n i to amount f = Inr s'"
  obtains who st p' evs s1 where "ensure_relay_member C o' = Inr who" and "chain_nonces s c \<noteq> None"
    and "\<not> has_bridged s c n" and "\<not> is_complete (opened C s c (n, call))"
    and "\<not> has_voted (opened C s c (n, call)) who" and "\<forall>e\<in>set evs. neutral e"
    and "try_to_complete (voted who f (opened C s c (n, call))) (vote_threshold s) (get_members_count C) = Inr (st, p')"
    and "s1 = put_proposal c (n, call) p' (s\<lparr>br_events := br_events s @ evs\<rparr>)"
    and "case st of Approved \<Rightarrow> execute_materialize C s1 c n call = Inr s'
      | Rejected \<Rightarrow> cancel_materialize s1 c n = Inr s' | Initiated \<Rightarrow> s' = s1"
proof -
  from assms(2) obtain who p s2 where g: "ensure_relay_member C o' = Inr who" "ensure_chain_registered s c = Inr ()"
      "ensure_chain_nonce_valid s c n = Inr ()"
    and op: "open_proposal C s who c n call = Inr (p, s2)"
    and p: "\<not> is_complete p" "\<not> has_voted p who"
    and res: "(let (p, s) = cast_vote who f c n call p s2 in resolve_proposal C (put_proposal c (n, call) p s) c n call) = Inr s'"
    unfolding materialize_def Let_def call_def [symmetric] by (elim resultE) (auto elim!: resultE)
  from op obtain e1 where e1: "p = opened C s c (n, call)" "s2 = s\<lparr>br_events := br_events s @ e1\<rparr>" "\<forall>e\<in>set e1. neutral e"
    by (rule open_proposal_inv)
  obtain e2 where e2: "cast_vote who f c n call p s2 = (voted who f p, s2\<lparr>br_events := br_events s2 @ e2\<rparr>)" "\<forall>e\<in>set e2. neutral e"
    using cast_vote_voted by blast
  let ?s = "put_proposal c (n, call) (voted who f p) (s\<lparr>br_events := br_events s @ e1 @ e2\<rparr>)"
  from res have "resolve_proposal C ?s c n call = Inr s'" unfolding e2(1) Let_def by (simp add: e1(2))
  then obtain st p' where t: "try_to_complete (voted who f p) (vote_threshold ?s) (get_members_count C) = Inr (st, p')"
    and o: "case st of Approved \<Rightarrow> execute_materialize C (put_proposal c (n, call) p' ?s) c n call = Inr s'
      | Rejected \<Rightarrow> cancel_materialize (put_proposal c (n, call) p' ?s) c n = Inr s'
      | Initiated \<Rightarrow> s' = put_proposal c (n, call) p' ?s"
    by (rule resolve_proposal_inv) simp
  show ?thesis
    by (rule that [of who "e1 @ e2" st p'])
      (use g p e1(1,3) e2(2) t o in \<open>auto simp: ensure_chain_registered_def chain_registered_def ensure_chain_nonce_valid_def\<close>)
qed

end
