(* ===== verification/Bridge_Histories.thy ===== *)
theory Bridge_Histories
  imports Bridge_Safety
begin

text \<open>
  Histories of the bridge.  An action is a dispatched call, ledger activity of others, the hook at the
  beginning of a block, or a change of the relay members; each runs in an environment of its own, so
  that the block number and the members change between them.

  Every action keeps the pairing of bridge tokens with assets; each nonce of a chain is closed at most once, as long
  as the chain stays registered; and the votes on a proposal are cast by different members.
\<close>

datatype bridge_action =
    BridgeCall origin bridge_call
  | BridgeOther ledger_action
  | BridgeBlock
  | BridgeMembers

fun bridge_exec ::
    "'l bridge_state \<Rightarrow> 'l bridge_config \<times> bridge_action \<Rightarrow> bridge_dispatch_error + 'l bridge_state" where
  "bridge_exec s (C, BridgeCall o' c) = bridge_dispatch C s o' c"
| "bridge_exec s (C, BridgeOther x) = br_lift s (ledger_exec (br_assets C) (br_ledger s) x)"
| "bridge_exec s (C, BridgeBlock) = Inr (bridge_on_initialize (br_now C) s)"
| "bridge_exec s (C, BridgeMembers) = Inr (change_members_sorted C s)"

definition bridge_genesis :: "'l \<Rightarrow> 'l bridge_state" where
  "bridge_genesis l = \<lparr>vote_threshold = 1, chain_nonces = Map.empty, bridge_registry = Map.empty,
     bridge_tokens = Map.empty, asset_ids = Map.empty, proposal_votes = (\<lambda>_ _. None), br_ledger = l, br_events = []\<rparr>"

section \<open>Administration\<close>

text \<open>Every call but a teleport and a vote leaves the ledger and the proposals alone and adds one event.\<close>

fun administrative :: "bridge_call \<Rightarrow> bool" where
  "administrative (Teleport d i to n) = False"
| "administrative (Materialize c n i to m f) = False"
| "administrative _ = True"

definition sets_token :: "currency_id \<Rightarrow> 'l bridge_state \<Rightarrow> 'l bridge_state \<Rightarrow> bool" where
  "sets_token i s s' \<longleftrightarrow>
     (\<exists>a t e. asset_ids s i = Some a \<and> neutral e \<and> bt_id t = bt_id (bridge_token_of s a) \<and>
        bt_external t = bt_external (bridge_token_of s a) \<and>
        s' = s\<lparr>bridge_tokens := (bridge_tokens s)(a \<mapsto> t), br_events := br_events s @ [e]\<rparr>)"

lemma try_mutate_sets_token:
  assumes "try_mutate_bridge_token s i (\<lambda>t s. Inr (f t, br_deposit_event e s)) = Inr s'"
    and "\<And>t. bt_id (f t) = bt_id t" and "\<And>t. bt_external (f t) = bt_external t" and "neutral e"
  shows "sets_token i s s'"
proof -
  from assms(1) obtain a where a: "asset_ids s i = Some a"
    and s': "s' = put_bridge_token a (f (bridge_token_of s a)) (br_deposit_event e s)"
    unfolding try_mutate_bridge_token_def Let_def by (elim resultE) (auto elim: registered_asset)
  have "s' = s\<lparr>bridge_tokens := (bridge_tokens s)(a \<mapsto> f (bridge_token_of s a)), br_events := br_events s @ [e]\<rparr>"
    by (simp add: s' put_bridge_token_def br_deposit_event_def)
  with a assms(2-4) show ?thesis unfolding sets_token_def by blast
qed

lemma token_setters:
  shows "set_bridge_token_fee C s o' i n = Inr s' \<Longrightarrow> sets_token i s s'"
    and "set_bridge_token_status C s o' i b = Inr s' \<Longrightarrow> sets_token i s s'"
    and "set_bridge_token_cap C s o' i ty n = Inr s' \<Longrightarrow> sets_token i s s'"
    and "clean_cap_accumulated_value C s o' i ty = Inr s' \<Longrightarrow> sets_token i s s'"
  unfolding set_bridge_token_fee_def set_bridge_token_status_def set_bridge_token_cap_def clean_cap_accumulated_value_def
  by (erule bindE_InrE, erule try_mutate_sets_token; simp split: bridge_type.split)+

lemma sets_token_frame:
  "sets_token i s s' \<Longrightarrow> br_ledger s' = br_ledger s \<and> proposal_votes s' = proposal_votes s \<and>
    vote_threshold s' = vote_threshold s \<and> (\<exists>e. neutral e \<and> br_events s' = br_events s @ [e])"
  by (auto simp: sets_token_def)

lemma administrative_frame:
  assumes "bridge_dispatch C s o' c = Inr s'" and "administrative c"
  shows "br_ledger s' = br_ledger s \<and> proposal_votes s' = proposal_votes s \<and> vote_threshold s' = vote_threshold s \<and>
    (\<exists>e. neutral e \<and> br_events s' = br_events s @ [e])"
proof (cases c)
  case (RegisterChain d)
  with assms show ?thesis by (auto simp: register_chain_def br_deposit_event_def)
next
  case (UnregisterChain d)
  with assms show ?thesis by (auto simp: unregister_chain_def br_deposit_event_def)
next
  case (RegisterBridgeToken a t)
  with assms show ?thesis by (auto simp: register_bridge_token_def br_deposit_event_def put_bridge_token_def)
next
  case (UnregisterBridgeToken i)
  with assms show ?thesis by (auto simp: unregister_bridge_token_def br_deposit_event_def Let_def)
next
  case (SetBridgeTokenFee i n)
  with assms show ?thesis by (intro sets_token_frame token_setters(1)) simp
next
  case (SetBridgeTokenStatus i b)
  with assms show ?thesis by (intro sets_token_frame token_setters(2)) simp
next
  case (SetBridgeTokenCap i ty n)
  with assms show ?thesis by (intro sets_token_frame token_setters(3)) simp
next
  case (CleanCapAccumulatedValue i ty)
  with assms show ?thesis by (intro sets_token_frame token_setters(4)) simp
qed (use assms in simp_all)

lemma change_members_cases:
  obtains "change_members_sorted C s = s"
    | t where "change_members_sorted C s = s\<lparr>vote_threshold := t, br_events := br_events s @ [VoteThresholdUpdated t]\<rparr>"
  unfolding change_members_sorted_def change_vote_threshold_def Let_def br_deposit_event_def
  by (cases "ensure_valid_threshold C (pm_mul_ceil (br_arith C) (pm_from_percent (br_arith C) (br_threshold_percentage C))
        (get_members_count C)) (get_members_count C)") auto

section \<open>Tokens and assets\<close>

text \<open>A registered bridge token belongs to an asset whose entry carries its id, so that different
  bridge tokens belong to different assets.\<close>

definition tokens_paired :: "'l bridge_state \<Rightarrow> bool" where
  "tokens_paired s \<longleftrightarrow> (\<forall>i a. asset_ids s i = Some a \<longrightarrow> (\<exists>t. bridge_tokens s a = Some t \<and> bt_id t = i))"

definition has_token :: "currency_id \<Rightarrow> currency_id \<Rightarrow> bool \<Rightarrow> 'l bridge_state \<Rightarrow> bool" where
  "has_token i a x s \<longleftrightarrow> tokens_paired s \<and> asset_ids s i = Some a \<and> bt_external (bridge_token_of s a) = x"

lemma tokens_paired_inj: "tokens_paired s \<Longrightarrow> asset_ids s i = Some a \<Longrightarrow> asset_ids s j = Some a \<Longrightarrow> i = j"
  unfolding tokens_paired_def by (metis option.inject)

lemma tokens_paired_put:
  assumes "tokens_paired s" and "asset_ids s i = Some a" and "bt_id t = bt_id (bridge_token_of s a)"
    and "asset_ids s' = asset_ids s" and "bridge_tokens s' = (bridge_tokens s)(a \<mapsto> t)"
  shows "tokens_paired s'"
  unfolding tokens_paired_def
proof (intro allI impI)
  fix j b
  assume "asset_ids s' j = Some b"
  with assms(1,4) obtain t0 where "bridge_tokens s b = Some t0" "bt_id t0 = j" unfolding tokens_paired_def by auto
  with assms(3,5) show "\<exists>t. bridge_tokens s' b = Some t \<and> bt_id t = j"
    by (cases "b = a") (simp_all add: bridge_token_of_def)
qed

lemma has_token_put:
  assumes "has_token i a x s" and "asset_ids s j = Some b" and "bt_id t = bt_id (bridge_token_of s b)"
    and "bt_external t = bt_external (bridge_token_of s b)"
    and "asset_ids s' = asset_ids s" and "bridge_tokens s' = (bridge_tokens s)(b \<mapsto> t)"
  shows "has_token i a x s'"
  using assms tokens_paired_put [of s j b t s'] unfolding has_token_def by (auto simp: bridge_token_of_def)

lemma has_token_frame:
  "has_token i a x s \<Longrightarrow> asset_ids s' = asset_ids s \<Longrightarrow> bridge_tokens s' = bridge_tokens s \<Longrightarrow> has_token i a x s'"
  by (simp add: has_token_def tokens_paired_def bridge_token_of_def)

lemma execute_materialize_tokens:
  assumes "execute_materialize C s c n call = Inr s'" and "has_token i a x s"
  shows "has_token i a x s'"
  using assms(1)
proof (rule execute_materialize_inv)
  fix b l' R'
  assume b: "asset_ids s (mc_bridge_token_id call) = Some b" and s': "s' = s\<lparr>bridge_tokens := (bridge_tokens s)(b \<mapsto> (bridge_token_of s b)\<lparr>in_amount := in_amount (bridge_token_of s b) + mc_amount call\<rparr>),
      br_ledger := l', bridge_registry := R', br_events := br_events s @
        [ProposalApproved c n, MaterializeMinted c n (mc_bridge_token_id call) (mc_to call) (mc_amount call)]\<rparr>"
  show ?thesis by (rule has_token_put [OF assms(2) b]) (simp_all add: s')
qed

lemma materialize_tokens:
  assumes "materialize C s o' c n j to amount f = Inr s'" and "has_token i a x s"
  shows "has_token i a x s'"
  using assms(1)
proof (rule materialize_inv)
  fix who st p' evs s1
  let ?k = "\<lparr>mc_bridge_token_id = j, mc_to = to, mc_amount = amount\<rparr>"
  assume s1: "s1 = put_proposal c (n, ?k) p' (s\<lparr>br_events := br_events s @ evs\<rparr>)"
    and o: "case st of Approved \<Rightarrow> execute_materialize C s1 c n ?k = Inr s'
      | Rejected \<Rightarrow> cancel_materialize s1 c n = Inr s' | Initiated \<Rightarrow> s' = s1"
  have t: "has_token i a x s1" by (rule has_token_frame [OF assms(2)]) (simp_all add: s1)
  show ?thesis
  proof (cases st)
    case Initiated
    with o t show ?thesis by simp
  next
    case Approved
    with o t show ?thesis by (auto intro: execute_materialize_tokens)
  next
    case Rejected
    with o have "cancel_materialize s1 c n = Inr s'" by simp
    then show ?thesis by (rule cancel_materialize_inv) (auto intro: has_token_frame [OF t])
  qed
qed

lemma register_bridge_token_tokens:
  assumes "register_bridge_token C s o' b t = Inr s'" and "has_token i a x s"
  shows "has_token i a x s'"
proof -
  from assms(1) have new: "bridge_tokens s b = None" "asset_ids s (bt_id t) = None"
    and s': "asset_ids s' = (asset_ids s)(bt_id t \<mapsto> b)" "bridge_tokens s' = (bridge_tokens s)(b \<mapsto> t)"
    by (auto simp: register_bridge_token_def br_deposit_event_def put_bridge_token_def)
  have un: "asset_ids s k \<noteq> Some b" for k
    using assms(2) new(1) unfolding has_token_def tokens_paired_def by (metis option.distinct(1))
  have "tokens_paired s'" using assms(2) un unfolding has_token_def tokens_paired_def s' by auto
  moreover have "a \<noteq> b" using assms(2) un by (auto simp: has_token_def)
  ultimately show ?thesis using assms(2) new by (auto simp: has_token_def s' bridge_token_of_def)
qed

lemma unregister_bridge_token_tokens:
  assumes "unregister_bridge_token C s o' j = Inr s'" and "has_token i a x s" and "i \<noteq> j"
  shows "has_token i a x s'"
proof -
  from assms(1) obtain b where b: "asset_ids s j = Some b"
    and s': "asset_ids s' = (asset_ids s)(j := None)" "bridge_tokens s' = (bridge_tokens s)(b := None)"
    unfolding unregister_bridge_token_def Let_def br_deposit_event_def by (auto elim!: registered_asset)
  have ne: "c \<noteq> b" if "asset_ids s k = Some c" "k \<noteq> j" for k c
    using tokens_paired_inj [of s k b j] assms(2) b that by (auto simp: has_token_def)
  have "tokens_paired s'" unfolding tokens_paired_def s'
    using assms(2) ne by (auto simp: has_token_def tokens_paired_def split: if_splits)
  with ne [of i a] assms(2,3) show ?thesis by (auto simp: has_token_def s' bridge_token_of_def)
qed

lemma has_token_exec:
  assumes "bridge_exec s (C, x) = Inr s'" and "has_token i a e s" and "\<And>o'. x \<noteq> BridgeCall o' (UnregisterBridgeToken i)"
  shows "has_token i a e s'"
proof (cases x)
  case (BridgeCall o' c)
  have sets: "has_token i a e s'" if "sets_token j s s'" for j
    using that unfolding sets_token_def by (auto intro: has_token_put [OF assms(2)])
  show ?thesis
  proof (cases c)
    case (RegisterChain d)
    with BridgeCall assms show ?thesis
      by (auto simp: register_chain_def br_deposit_event_def intro: has_token_frame)
  next
    case (UnregisterChain d)
    with BridgeCall assms show ?thesis
      by (auto simp: unregister_chain_def br_deposit_event_def intro: has_token_frame)
  next
    case (RegisterBridgeToken b t)
    with BridgeCall assms show ?thesis by (auto intro: register_bridge_token_tokens)
  next
    case (UnregisterBridgeToken j)
    with BridgeCall assms show ?thesis by (auto intro: unregister_bridge_token_tokens)
  next
    case (Teleport d j to n)
    with BridgeCall assms(1) have "teleport C s o' d j to n = Inr s'" by simp
    then show ?thesis by (rule teleport_inv) (rule has_token_put [OF assms(2)], assumption, simp_all)
  next
    case (Materialize d n j to m f)
    with BridgeCall assms show ?thesis by (auto intro: materialize_tokens)
  qed (use BridgeCall assms(1) in \<open>auto intro!: sets dest: token_setters\<close>)
next
  case (BridgeOther y)
  with assms(1) show ?thesis by (auto simp: br_lift_def intro: has_token_frame [OF assms(2)])
next
  case BridgeBlock
  with assms(1) show ?thesis by (auto simp: bridge_on_initialize_def intro: has_token_frame [OF assms(2)])
next
  case BridgeMembers
  with assms(1) show ?thesis
    by (cases rule: change_members_cases [of C s]) (auto intro: has_token_frame [OF assms(2)])
qed

section \<open>No nonce is closed twice\<close>

fun closes :: "chain_id \<Rightarrow> chain_nonce \<Rightarrow> bridge_event \<Rightarrow> bool" where
  "closes c n (MaterializeMinted c' n' i to m) \<longleftrightarrow> c' = c \<and> n' = n"
| "closes c n (ProposalRejected c' n') \<longleftrightarrow> c' = c \<and> n' = n"
| "closes c n _ \<longleftrightarrow> False"

definition closings :: "chain_id \<Rightarrow> chain_nonce \<Rightarrow> bridge_event list \<Rightarrow> nat" where
  "closings c n evs = length (filter (closes c n) evs)"

definition replay_safe :: "chain_id \<Rightarrow> 'l bridge_state \<Rightarrow> bool" where
  "replay_safe c s \<longleftrightarrow> (chain_nonces s c = None \<longleftrightarrow> bridge_registry s c = None) \<and>
     (\<forall>registry. bridge_registry s c = Some registry \<longrightarrow> registry_wf registry) \<and>
     (\<forall>n. closings c n (br_events s) \<le> (if has_bridged s c n then 1 else 0))"

lemma closings_simps [simp]:
  "closings c n [] = 0"
  "closings c n (evs @ evs') = closings c n evs + closings c n evs'"
  "closings c n (e # evs) = (if closes c n e then 1 else 0) + closings c n evs"
  by (simp_all add: closings_def)

lemma neutral_closes: "neutral e \<Longrightarrow> \<not> closes c n e"
  by (cases e) auto

lemma neutral_closings: "\<forall>e\<in>set evs. neutral e \<Longrightarrow> closings c n evs = 0"
  by (simp add: closings_def neutral_closes)

lemma replay_safe_frame:
  assumes "replay_safe c s" and "(chain_nonces s' c = None) = (chain_nonces s c = None)"
    and "bridge_registry s' c = bridge_registry s c" and "br_events s' = br_events s @ evs" and "\<And>n. closings c n evs = 0"
  shows "replay_safe c s'"
  using assms by (simp add: replay_safe_def has_bridged_def)

lemma replay_safe_close:
  assumes "replay_safe c s" and "chain_nonces s d \<noteq> None" and "\<not> has_bridged s d n"
    and "nonce_done d n (bridge_registry s) R'" and "chain_nonces s' = chain_nonces s" and "bridge_registry s' = R'"
    and "br_events s' = br_events s @ evs" and "\<And>m. closings c m evs = (if d = c \<and> m = n then 1 else 0)"
  shows "replay_safe c s'"
proof (cases "d = c")
  case False
  then have "bridge_registry s' c = bridge_registry s c"
    using assms(4,6) by (auto simp: nonce_done_def split: option.splits)
  with False assms show ?thesis by (intro replay_safe_frame [of c s s' evs]) simp_all
next
  case True
  with assms(1,2) obtain registry where reg: "bridge_registry s c = Some registry" and wf: "registry_wf registry"
    by (auto simp: replay_safe_def)
  with assms(4,6) True obtain registry' where reg': "register_nonce registry n = Inr registry'"
    and s': "bridge_registry s' c = Some registry'" by (auto simp: nonce_done_def)
  have wf': "registry_wf registry'" and set: "nonces_of registry' = insert n (nonces_of registry)"
    using register_nonce_set [OF reg'] wf by (simp_all add: registry_wf_def)
  have "has_bridged s' c m \<longleftrightarrow> has_bridged s c m \<or> m = n" for m
    using set reg s' by (auto simp: has_bridged_def nonces_of_def)
  moreover have old: "closings c m (br_events s) \<le> (if has_bridged s c m then 1 else 0)" for m
    using assms(1) by (simp add: replay_safe_def)
  then have "closings c m (br_events s) = 0" if "\<not> has_bridged s c m" for m
    using that by (metis le_zero_eq)
  ultimately have "closings c m (br_events s') \<le> (if has_bridged s' c m then 1 else 0)" for m
    using assms(3) old True unfolding assms(7) closings_simps(2) assms(8) by (cases "m = n") simp_all
  with wf' s' assms(2,5) True show ?thesis by (auto simp: replay_safe_def)
qed

lemma register_chain_replay_safe:
  assumes "register_chain C s o' d = Inr s'" and "replay_safe c s"
  shows "replay_safe c s'"
proof -
  from assms(1) have new: "chain_nonces s d = None"
    and s': "s' = s\<lparr>chain_nonces := (chain_nonces s)(d \<mapsto> 0), bridge_registry := (bridge_registry s)(d \<mapsto> []),
      br_events := br_events s @ [ChainRegistered d]\<rparr>"
    by (auto simp: register_chain_def br_deposit_event_def chain_registered_def)
  show ?thesis
  proof (cases "d = c")
    case True
    with assms(2) new have "bridge_registry s c = None" "\<And>n. closings c n (br_events s) = 0"
      by (auto simp: replay_safe_def has_bridged_def)
    with True s' show ?thesis by (simp add: replay_safe_def registry_wf_def)
  next
    case False
    with s' show ?thesis by (intro replay_safe_frame [OF assms(2), of s' "[ChainRegistered d]"]) simp_all
  qed
qed

lemma materialize_replay_safe:
  assumes "materialize C s o' d n i to amount f = Inr s'" and safe: "replay_safe c s"
  shows "replay_safe c s'"
  using assms(1)
proof (rule materialize_inv)
  fix who st p' evs s1
  let ?k = "\<lparr>mc_bridge_token_id = i, mc_to = to, mc_amount = amount\<rparr>"
  assume reg: "chain_nonces s d \<noteq> None" and new: "\<not> has_bridged s d n" and ev: "\<forall>e\<in>set evs. neutral e"
    and s1: "s1 = put_proposal d (n, ?k) p' (s\<lparr>br_events := br_events s @ evs\<rparr>)"
    and o: "case st of Approved \<Rightarrow> execute_materialize C s1 d n ?k = Inr s'
      | Rejected \<Rightarrow> cancel_materialize s1 d n = Inr s' | Initiated \<Rightarrow> s' = s1"
  have safe1: "replay_safe c s1"
    by (rule replay_safe_frame [OF safe _ _ _ neutral_closings [OF ev]]) (simp_all add: s1)
  have reg1: "chain_nonces s1 d \<noteq> None" and new1: "\<not> has_bridged s1 d n"
    using reg new by (simp_all add: s1 has_bridged_def)
  show ?thesis
  proof (cases st)
    case Initiated
    with o safe1 show ?thesis by simp
  next
    case Approved
    with o have "execute_materialize C s1 d n ?k = Inr s'" by simp
    then show ?thesis
      by (rule execute_materialize_inv) (rule replay_safe_close [OF safe1 reg1 new1], assumption, simp+)
  next
    case Rejected
    with o have "cancel_materialize s1 d n = Inr s'" by simp
    then show ?thesis
      by (rule cancel_materialize_inv) (rule replay_safe_close [OF safe1 reg1 new1], assumption, simp+)
  qed
qed

lemma replay_safe_exec:
  assumes "bridge_exec s (C, x) = Inr s'" and safe: "replay_safe c s" and "\<And>o'. x \<noteq> BridgeCall o' (UnregisterChain c)"
  shows "replay_safe c s'"
proof (cases x)
  case (BridgeCall o' k)
  have sets: "replay_safe c s'" if "sets_token j s s'" for j
  proof -
    from that obtain e where "neutral e" "br_events s' = br_events s @ [e]" "chain_nonces s' = chain_nonces s"
        "bridge_registry s' = bridge_registry s" unfolding sets_token_def by auto
    then show ?thesis by (intro replay_safe_frame [OF safe, of s' "[e]"]) (simp_all add: neutral_closes)
  qed
  show ?thesis
  proof (cases k)
    case (RegisterChain d)
    with BridgeCall assms(1) safe show ?thesis by (auto intro: register_chain_replay_safe)
  next
    case (UnregisterChain d)
    with BridgeCall assms(3) [of o'] have "d \<noteq> c" by simp
    with UnregisterChain BridgeCall assms(1) show ?thesis
      by (auto simp: unregister_chain_def br_deposit_event_def intro!: replay_safe_frame [OF safe, of _ "[ChainRemoved d]"])
  next
    case (RegisterBridgeToken b t)
    with BridgeCall assms(1) show ?thesis
      by (auto simp: register_bridge_token_def br_deposit_event_def put_bridge_token_def intro!: replay_safe_frame [OF safe])
  next
    case (UnregisterBridgeToken j)
    with BridgeCall assms(1) show ?thesis
      by (auto simp: unregister_bridge_token_def br_deposit_event_def Let_def intro!: replay_safe_frame [OF safe])
  next
    case (Teleport d j to n)
    with BridgeCall assms(1) have "teleport C s o' d j to n = Inr s'" by simp
    then show ?thesis
      by (rule teleport_inv) (rule replay_safe_frame [OF safe], simp+)
  next
    case (Materialize d n j to m f)
    with BridgeCall assms(1) safe show ?thesis by (auto intro: materialize_replay_safe)
  qed (use BridgeCall assms(1) in \<open>auto intro!: sets dest: token_setters\<close>)
next
  case (BridgeOther y)
  with assms(1) show ?thesis by (auto simp: br_lift_def intro!: replay_safe_frame [OF safe, of _ "[]"])
next
  case BridgeBlock
  with assms(1) show ?thesis by (auto simp: bridge_on_initialize_def intro!: replay_safe_frame [OF safe, of _ "[]"])
next
  case BridgeMembers
  with assms(1) safe show ?thesis
    by (cases rule: change_members_cases [of C s]) (auto intro!: replay_safe_frame [OF safe])
qed

definition keeps_chain :: "chain_id \<Rightarrow> 'l bridge_config \<times> bridge_action \<Rightarrow> bool" where
  "keeps_chain c = (\<lambda>(C, x). case x of BridgeCall o' (UnregisterChain d) \<Rightarrow> d \<noteq> c | _ \<Rightarrow> True)"

interpretation bridge_replay: kept_by_calls bridge_exec "keeps_chain c" "replay_safe c" for c
proof (unfold_locales, goal_cases)
  case (1 act s s')
  obtain C x where "act = (C, x)" by (cases act)
  with 1 show ?case by (intro replay_safe_exec [of s C x s' c]) (auto simp: keeps_chain_def)
qed

lemma bridge_genesis_replay_safe: "replay_safe c (bridge_genesis l)"
  by (simp add: bridge_genesis_def replay_safe_def)

section \<open>Votes\<close>

definition fair_votes :: "proposal \<Rightarrow> bool" where
  "fair_votes p \<longleftrightarrow> distinct (votes_for p @ votes_against p)"

definition votes_ok :: "'l bridge_state \<Rightarrow> bool" where
  "votes_ok s \<longleftrightarrow> (\<forall>c k p. proposal_votes s c k = Some p \<longrightarrow> fair_votes p)"

lemma try_to_complete_frame:
  assumes "try_to_complete p k t = Inr (st, p')"
  shows "votes_for p' = votes_for p" and "votes_against p' = votes_against p"
    and "st = Approved \<longleftrightarrow> k \<le> length (votes_for p)" and "proposal_status p' = (if st = Initiated then proposal_status p else st)"
  using assms by (auto simp: try_to_complete_def split: if_splits)

lemma opened_votes_ok:
  assumes "votes_ok s"
  shows "fair_votes (opened C s c k)"
proof (cases "proposal_votes s c k")
  case None
  then show ?thesis by (simp add: opened_def default_proposal_def fair_votes_def)
next
  case (Some p)
  with assms have "fair_votes p" unfolding votes_ok_def by blast
  with Some show ?thesis by (simp add: opened_def)
qed

lemma votes_ok_frame: "votes_ok s \<Longrightarrow> proposal_votes s' = proposal_votes s \<Longrightarrow> votes_ok s'"
  by (simp add: votes_ok_def)

lemma materialize_votes:
  fixes to amount i
  defines "call \<equiv> \<lparr>mc_bridge_token_id = i, mc_to = to, mc_amount = amount\<rparr>"
  assumes m: "materialize C s o' c n i to amount f = Inr s'" and ok: "votes_ok s"
  obtains st p who where "proposal_votes s' = (proposal_votes s)(c := (proposal_votes s c)((n, call) \<mapsto> p))"
    and "ensure_relay_member C o' = Inr who" and "votes_for p = votes_for (voted who f (opened C s c (n, call)))"
    and "fair_votes p" and "st = Approved \<longleftrightarrow> vote_threshold s \<le> length (votes_for p)"
    and "\<exists>evs. br_events s' = br_events s @ evs \<and> (\<forall>e\<in>set evs. neutral e \<or> st = Approved \<and> e = MaterializeMinted c n i to amount
      \<or> st = Rejected \<and> e = ProposalRejected c n)"
  using m
proof (rule materialize_inv)
  fix who st p' evs s1
  let ?k = "\<lparr>mc_bridge_token_id = i, mc_to = to, mc_amount = amount\<rparr>"
  let ?q = "voted who f (opened C s c (n, ?k))"
  assume w: "ensure_relay_member C o' = Inr who" "\<not> has_voted (opened C s c (n, ?k)) who" and ev: "\<forall>e\<in>set evs. neutral e"
    and t: "try_to_complete ?q (vote_threshold s) (get_members_count C) = Inr (st, p')"
    and s1: "s1 = put_proposal c (n, ?k) p' (s\<lparr>br_events := br_events s @ evs\<rparr>)"
    and o: "case st of Approved \<Rightarrow> execute_materialize C s1 c n ?k = Inr s'
      | Rejected \<Rightarrow> cancel_materialize s1 c n = Inr s' | Initiated \<Rightarrow> s' = s1"
  have "fair_votes ?q"
    using opened_votes_ok [OF ok, of C c "(n, ?k)"] w(2)
    by (auto simp: voted_def has_voted_def fair_votes_def)
  then have p': "fair_votes p'" using try_to_complete_frame(1,2) [OF t] by (simp add: fair_votes_def)
  have st: "st = Approved \<longleftrightarrow> vote_threshold s \<le> length (votes_for p')"
    using try_to_complete_frame(1,3) [OF t] by simp
  have "proposal_votes s' = proposal_votes s1 \<and> (\<exists>evs. br_events s' = br_events s1 @ evs \<and>
      (\<forall>e\<in>set evs. neutral e \<or> st = Approved \<and> e = MaterializeMinted c n i to amount \<or> st = Rejected \<and> e = ProposalRejected c n))"
  proof (cases st)
    case Initiated
    with o show ?thesis by (intro conjI exI [of _ "[]"]) simp_all
  next
    case Approved
    with o have "execute_materialize C s1 c n ?k = Inr s'" by simp
    then show ?thesis by (rule execute_materialize_inv) (simp add: Approved)
  next
    case Rejected
    with o have "cancel_materialize s1 c n = Inr s'" by simp
    then show ?thesis by (rule cancel_materialize_inv) (simp add: Rejected)
  qed
  then obtain evs' where "proposal_votes s' = proposal_votes s1" "br_events s' = br_events s1 @ evs'"
      "\<forall>e\<in>set evs'. neutral e \<or> st = Approved \<and> e = MaterializeMinted c n i to amount \<or> st = Rejected \<and> e = ProposalRejected c n" by blast
  then show thesis
    using ev try_to_complete_frame(1) [OF t]
    by (intro that [OF _ w(1) _ p' st]) (auto simp: s1 call_def put_proposal_def intro!: exI [of _ "evs @ evs'"])
qed

lemma votes_ok_exec:
  assumes "bridge_exec s (C, x) = Inr s'" and ok: "votes_ok s"
  shows "votes_ok s'"
proof (cases x)
  case (BridgeCall o' k)
  show ?thesis
  proof (cases "administrative k")
    case True
    with BridgeCall assms(1) show ?thesis using administrative_frame [of C s o' k s'] by (auto intro: votes_ok_frame [OF ok])
  next
    case False
    show ?thesis
    proof (cases k)
      case (Teleport d j to n)
      with BridgeCall assms(1) have "teleport C s o' d j to n = Inr s'" by simp
      then show ?thesis by (rule teleport_inv) (rule votes_ok_frame [OF ok], simp)
    next
      case (Materialize d n j to m f)
      with BridgeCall assms(1) have "materialize C s o' d n j to m f = Inr s'" by simp
      then show ?thesis using ok
        by (rule materialize_votes) (use ok in \<open>auto simp: votes_ok_def simp del: split_paired_All\<close>)
    qed (use False in simp_all)
  qed
next
  case (BridgeOther y)
  with assms(1) show ?thesis by (auto simp: br_lift_def intro: votes_ok_frame [OF ok])
next
  case BridgeBlock
  with assms(1) ok show ?thesis by (auto simp: bridge_on_initialize_def votes_ok_def simp del: split_paired_All split: option.splits if_splits)
next
  case BridgeMembers
  with assms(1) show ?thesis
    by (cases rule: change_members_cases [of C s]) (auto intro: votes_ok_frame [OF ok])
qed

interpretation bridge_votes: kept_by_calls bridge_exec admitted votes_ok for admitted
proof (unfold_locales, goal_cases)
  case (1 act s s')
  obtain C x where "act = (C, x)" by (cases act)
  with 1 show ?case by (intro votes_ok_exec [of s C x s']) auto
qed

lemma bridge_genesis_votes_ok: "votes_ok (bridge_genesis l)"
  by (simp add: bridge_genesis_def votes_ok_def)

section \<open>Where the votes come from\<close>

text \<open>
  Every vote that a proposal counts in favour was cast by an accepted call, earlier in the history, for exactly this
  call and nonce, by an account that was a relay member at that moment, or by the root origin on behalf of the
  root operator.
\<close>

definition entitled :: "'l bridge_config \<Rightarrow> origin \<Rightarrow> account_id \<Rightarrow> bool" where
  "entitled C o' w \<longleftrightarrow> o' = Signed w \<and> w \<in> set (br_relay_members C) \<or> o' = Root \<and> w = br_root_operator C"

lemma ensure_relay_member_entitled: "ensure_relay_member C o' = Inr w \<Longrightarrow> entitled C o' w"
  by (auto simp: ensure_relay_member_def entitled_def split: origin.splits)

definition vote_call :: "origin \<Rightarrow> chain_id \<Rightarrow> chain_nonce \<Rightarrow> materialize_call \<Rightarrow> bridge_action" where
  "vote_call o' c n call = BridgeCall o' (Materialize c n (mc_bridge_token_id call) (mc_to call) (mc_amount call) True)"

definition vote_cast ::
    "('l bridge_config \<times> bridge_action \<Rightarrow> bool) \<Rightarrow> 'l bridge_state \<Rightarrow> 'l bridge_state \<Rightarrow> chain_id \<Rightarrow> chain_nonce
     \<Rightarrow> materialize_call \<Rightarrow> account_id \<Rightarrow> bool" where
  "vote_cast admitted s0 s c n call w \<longleftrightarrow>
     (\<exists>C o' t t'. history bridge_exec admitted s0 t \<and> entitled C o' w \<and>
        admitted (C, vote_call o' c n call) \<and> bridge_exec t (C, vote_call o' c n call) = Inr t' \<and>
        history bridge_exec admitted t' s)"

lemma votes_from_calls:
  assumes "bridge_exec s (C, x) = Inr s'" and "proposal_votes s' c (n, call) = Some p'" and "w \<in> set (votes_for p')"
    and ok: "votes_ok s"
  shows "(\<exists>p. proposal_votes s c (n, call) = Some p \<and> w \<in> set (votes_for p)) \<or> 
    (\<exists>o'. entitled C o' w \<and> x = vote_call o' c n call)"
proof (cases "\<exists>o' d k i to m f. x = BridgeCall o' (Materialize d k i to m f)")
  case True
  then obtain o' d k i to m f where x: "x = BridgeCall o' (Materialize d k i to m f)" by blast
  with assms(1) have mat: "materialize C s o' d k i to m f = Inr s'" by simp
  let ?k = "\<lparr>mc_bridge_token_id = i, mc_to = to, mc_amount = m\<rparr>"
  from mat ok obtain p who where pv: "proposal_votes s' = (proposal_votes s)(d := (proposal_votes s d)((k, ?k) \<mapsto> p))"
      and who: "ensure_relay_member C o' = Inr who" and vf: "votes_for p = votes_for (voted who f (opened C s d (k, ?k)))" by (rule materialize_votes)
  show ?thesis
  proof (cases "(c, n, call) = (d, k, ?k)")
    case True
    with assms(2,3) pv vf have "w \<in> set (votes_for (voted who f (opened C s c (n, call))))" by simp
    with True x ensure_relay_member_entitled [OF who] show ?thesis
      by (auto simp: vote_call_def voted_def opened_def default_proposal_def split: if_splits option.splits)
  qed (use assms(2,3) pv in \<open>auto split: if_splits\<close>)
next
  case False
  from assms(1) have "proposal_votes s' = proposal_votes s \<or> x = BridgeBlock"
  proof (cases x)
    case (BridgeCall o' k)
    show ?thesis
    proof (cases k)
      case (Teleport d j to m)
      with BridgeCall assms(1) have "teleport C s o' d j to m = Inr s'" by simp
      then show ?thesis by (rule teleport_inv) simp
    qed (use BridgeCall False assms(1) administrative_frame [of C s o' k s'] in auto)
  next
    case BridgeMembers
    with assms(1) show ?thesis by (cases rule: change_members_cases [of C s]) auto
  qed (auto simp: br_lift_def)
  with assms show ?thesis by (auto simp: bridge_on_initialize_def split: option.splits if_splits)
qed

lemma votes_were_cast:
  assumes "history bridge_exec admitted s0 s" and "votes_ok s0" and "\<And>c k. proposal_votes s0 c k = None"
    and "proposal_votes s c (n, call) = Some p" and "w \<in> set (votes_for p)"
  shows "vote_cast admitted s0 s c n call w"
  using assms
proof (induction arbitrary: p rule: history.induct)
  case (call s0 t act u)
  obtain C x where act: "act = (C, x)" by (cases act)
  have ok: "votes_ok t" by (rule bridge_votes.history_inv [OF call.hyps(1) call.prems(1)])
  have later: "history bridge_exec admitted t' u" if "history bridge_exec admitted t' t" for t'
    using that call.hyps(2,3) by (rule history.call)
  from call.hyps(3) have "bridge_exec t (C, x) = Inr u" by (simp add: act)
  from votes_from_calls [OF this call.prems(3,4) ok] show ?case
  proof (elim disjE exE conjE)
    fix q
    assume "proposal_votes t c (n, call) = Some q" "w \<in> set (votes_for q)"
    with call.IH [OF call.prems(1,2)] later show ?thesis unfolding vote_cast_def by blast
  next
    fix o'
    assume "entitled C o' w" "x = vote_call o' c n call"
    with call.hyps act have "entitled C o' w" "admitted (C, vote_call o' c n call)" "bridge_exec t (C, vote_call o' c n call) = Inr u"
      by simp_all
    with call.hyps(1) show ?thesis unfolding vote_cast_def by (intro exI conjI) (assumption | rule history.start)+
  qed
qed simp

end
