(* ===== verification/Bridge_Backing.thy ===== *)
theory Bridge_Backing
  imports Bridge_Histories
begin

text \<open>
  What backs the tokens of the bridge.  An external token is burned when it leaves and minted when it
  arrives: its issuance, less what has arrived, never rises.  Any other token is locked by the
  pallet when it leaves: the pallet's holding, less the fees and what is still abroad, never falls.
\<close>

section \<open>Crossings\<close>

fun arrived :: "currency_id \<Rightarrow> bridge_event \<Rightarrow> int" where
  "arrived i (MaterializeMinted c n j to m) = (if j = i then int m else 0)"
| "arrived i (TeleportBurned w d n j to m fee) = (if j = i then - int m else 0)"
| "arrived i _ = 0"

fun charged :: "currency_id \<Rightarrow> bridge_event \<Rightarrow> int" where
  "charged i (TeleportBurned w d n j to m fee) = (if j = i then int fee else 0)"
| "charged i _ = 0"

text \<open>What has arrived on this chain, less what has left it; and the fees.\<close>

definition net_arrivals :: "currency_id \<Rightarrow> bridge_event list \<Rightarrow> int" where
  "net_arrivals i evs = sum_list (map (arrived i) evs)"

definition fees_charged :: "currency_id \<Rightarrow> bridge_event list \<Rightarrow> int" where
  "fees_charged i evs = sum_list (map (charged i) evs)"

definition unbacked :: "('e, 'l) fungibles \<Rightarrow> currency_id \<Rightarrow> currency_id \<Rightarrow> 'l bridge_state \<Rightarrow> int" where
  "unbacked F i a s = int (ft_total_issuance F (br_ledger s) a) - net_arrivals i (br_events s)"

definition uncommitted :: "('e, 'l) fungibles \<Rightarrow> account_id \<Rightarrow> currency_id \<Rightarrow> currency_id \<Rightarrow> 'l bridge_state \<Rightarrow> int" where
  "uncommitted F P i a s =
     int (ft_balance F (br_ledger s) a P) + net_arrivals i (br_events s) - fees_charged i (br_events s)"

lemma net_arrivals_simps [simp]:
  "net_arrivals i [] = 0" "net_arrivals i (evs @ evs') = net_arrivals i evs + net_arrivals i evs'"
  "net_arrivals i (e # evs) = arrived i e + net_arrivals i evs"
  by (simp_all add: net_arrivals_def)

lemma fees_charged_simps [simp]:
  "fees_charged i [] = 0" "fees_charged i (evs @ evs') = fees_charged i evs + fees_charged i evs'"
  "fees_charged i (e # evs) = charged i e + fees_charged i evs"
  by (simp_all add: fees_charged_def)

lemma neutral_crossing: "neutral e \<Longrightarrow> arrived i e = 0" "neutral e \<Longrightarrow> charged i e = 0"
  by (cases e; simp)+

lemma neutral_crossings:
  assumes "\<forall>e\<in>set evs. neutral e"
  shows "net_arrivals i evs = 0" and "fees_charged i evs = 0"
  using assms by (induction evs) (simp_all add: neutral_crossing)

text \<open>The crossings of a vote and of a teleport, and what they did to the ledger.\<close>

lemma materialize_crossing:
  assumes "materialize C s o' c n j to amount f = Inr s'"
  obtains "br_ledger s' = br_ledger s" and "net_arrivals i (br_events s') = net_arrivals i (br_events s)"
      and "fees_charged i (br_events s') = fees_charged i (br_events s)"
    | b where "asset_ids s j = Some b" and "pays C (bridge_token_of s b) b to amount (br_ledger s) (br_ledger s')"
      and "net_arrivals i (br_events s') = net_arrivals i (br_events s) + (if j = i then int amount else 0)"
      and "fees_charged i (br_events s') = fees_charged i (br_events s)"
  using assms
proof (rule materialize_inv)
  fix who st p' evs s1
  let ?k = "\<lparr>mc_bridge_token_id = j, mc_to = to, mc_amount = amount\<rparr>"
  assume ev: "\<forall>e\<in>set evs. neutral e"
    and s1: "s1 = put_proposal c (n, ?k) p' (s\<lparr>br_events := br_events s @ evs\<rparr>)"
    and o: "case st of Approved \<Rightarrow> execute_materialize C s1 c n ?k = Inr s'
      | Rejected \<Rightarrow> cancel_materialize s1 c n = Inr s' | Initiated \<Rightarrow> s' = s1"
  note n = neutral_crossings [OF ev, of i]
  show thesis
  proof (cases st)
    case Initiated
    with o n show ?thesis by (intro that(1)) (simp_all add: s1)
  next
    case Approved
    with o have "execute_materialize C s1 c n ?k = Inr s'" by simp
    then show ?thesis by (rule execute_materialize_inv) (use n in \<open>auto simp: s1 intro: that(2)\<close>)
  next
    case Rejected
    with o have "cancel_materialize s1 c n = Inr s'" by simp
    then show ?thesis by (rule cancel_materialize_inv) (use n in \<open>auto simp: s1 intro: that(1)\<close>)
  qed
qed

lemma teleport_crossing:
  assumes "teleport C s o' d j to amount = Inr s'"
  obtains who b fee where "o' = Signed who" and "asset_ids s j = Some b" and "fee = bt_fee (bridge_token_of s b)" and "fee \<le> amount"
    and "collects C (bridge_token_of s b) b who amount (br_ledger s) (br_ledger s')"
    and "net_arrivals i (br_events s') = net_arrivals i (br_events s) - (if j = i then int amount - int fee else 0)"
    and "fees_charged i (br_events s') = fees_charged i (br_events s) + (if j = i then int fee else 0)"
  using assms by (rule teleport_inv) (auto intro: that)

text \<open>Every other action leaves the crossings alone.\<close>

fun crosses :: "bridge_action \<Rightarrow> bool" where
  "crosses (BridgeCall o' k) \<longleftrightarrow> \<not> administrative k"
| "crosses (BridgeOther y) \<longleftrightarrow> True"
| "crosses x \<longleftrightarrow> False"

lemma quiet_exec:
  assumes "bridge_exec s (C, x) = Inr s'" and "\<not> crosses x"
  shows "br_ledger s' = br_ledger s \<and> net_arrivals i (br_events s') = net_arrivals i (br_events s) \<and>
    fees_charged i (br_events s') = fees_charged i (br_events s)"
proof (cases x)
  case (BridgeCall o' k)
  with assms administrative_frame [of C s o' k s'] obtain e where
    "br_ledger s' = br_ledger s" "neutral e" "br_events s' = br_events s @ [e]" by auto
  then show ?thesis by (simp add: neutral_crossing)
next
  case BridgeMembers
  with assms(1) show ?thesis by (cases rule: change_members_cases [of C s]) auto
qed (use assms in \<open>auto simp: bridge_on_initialize_def\<close>)

section \<open>The supply of an external token\<close>

definition supply_admitted ::
    "(nat, 'l) fungibles \<Rightarrow> currency_id \<Rightarrow> currency_id \<Rightarrow> 'l bridge_config \<times> bridge_action \<Rightarrow> bool" where
  "supply_admitted F i a = (\<lambda>(C, x). br_assets C = F \<and> exact_custody F a \<and> burn_other_law F \<and>
     (case x of BridgeCall o' (UnregisterBridgeToken j) \<Rightarrow> j \<noteq> i | BridgeOther (LedgerMint b w n) \<Rightarrow> b \<noteq> a | _ \<Rightarrow> True))"

lemma burn_issuance:
  assumes "exact_custody F a" and "burn_other_law F" and "ft_burn_from F l b x n = Inr l'"
  shows "ft_total_issuance F l' a + (if b = a then n else 0) = ft_total_issuance F l a"
proof (cases "b = a")
  case True
  have "leaves_no_dust (ft_minimum_balance F l b) (ft_balance F l b x) n"
    using assms(1) True by (intro small_minimum_no_dust) (simp add: exact_custody_def)
  with fungibles_laws_burnD(2) [OF _ assms(3), of a] assms(1) True show ?thesis by (simp add: exact_custody_def)
next
  case False
  with assms(2,3) show ?thesis unfolding burn_other_law_def by simp
qed

lemma collects_issuance:
  assumes "exact_custody (br_assets C) a" and "burn_other_law (br_assets C)" and "collects C t b who amount l l'"
    and "b = a \<Longrightarrow> bt_external t"
  shows "ft_total_issuance (br_assets C) l' a + (if b = a then amount else 0) \<le>
    ft_total_issuance (br_assets C) l a + (if b = a then bt_fee t else 0)"
proof (cases "bt_external t")
  case True
  with assms(3) obtain k where "ft_burn_from (br_assets C) l b who amount = Inr k"
    and "ft_mint_into (br_assets C) k b (br_pallet_account C) (bt_fee t) = Inr l'" by (auto simp: collects_def)
  with burn_issuance [OF assms(1,2)] fungibles_laws_mintD(2) [of "br_assets C" k b "br_pallet_account C" "bt_fee t" l' a] assms(1)
  show ?thesis by (fastforce simp: exact_custody_def)
next
  case False
  with assms show ?thesis
    using fungibles_lawsD(3) [of "br_assets C" l b who "br_pallet_account C" amount False l' a]
    by (auto simp: collects_def exact_custody_def)
qed

lemma pays_issuance:
  assumes "exact_custody (br_assets C) a" and "pays C t b to amount l l'"
  shows "ft_total_issuance (br_assets C) l' a \<le> ft_total_issuance (br_assets C) l a + (if b = a \<and> bt_external t then amount else 0)"
proof -
  from assms(2) obtain k where k: "(if bt_external t then ft_mint_into (br_assets C) l b to amount
      else ft_transfer (br_assets C) l b (br_pallet_account C) to amount True) = Inr k"
    and g: "l' = k \<or> (\<exists>m. ft_transfer (br_assets C) k (br_native C) (br_gift_account C) to m False = Inr l')"
    by (auto simp: pays_def)
  have F: "fungibles_laws (br_assets C)" using assms(1) by (simp add: exact_custody_def)
  have "ft_total_issuance (br_assets C) l' a \<le> ft_total_issuance (br_assets C) k a"
    using g fungibles_lawsD(3) [OF F] by blast
  moreover have "ft_total_issuance (br_assets C) k a \<le> ft_total_issuance (br_assets C) l a + (if b = a \<and> bt_external t then amount else 0)"
    using k fungibles_lawsD(3) [OF F, of l b "br_pallet_account C" to amount True k a] fungibles_laws_mintD(2) [OF F, of l b to amount k a]
    by (auto split: if_splits)
  ultimately show ?thesis by simp
qed

lemma other_token:
  assumes "has_token i a x s" and "asset_ids s j = Some b"
  shows "b = a \<longleftrightarrow> j = i"
  using assms tokens_paired_inj [of s i a j] by (auto simp: has_token_def)

lemma crosses_cases:
  assumes "crosses x"
  obtains o' d j to n where "x = BridgeCall o' (Teleport d j to n)"
    | o' c n j to m f where "x = BridgeCall o' (Materialize c n j to m f)" | y where "x = BridgeOther y"
  using assms by (cases x rule: crosses.cases) (auto elim: administrative.elims)

lemma unbacked_exec:
  assumes "bridge_exec s (C, x) = Inr s'" and "supply_admitted F i a (C, x)" and tok: "has_token i a True s"
  shows "unbacked F i a s' \<le> unbacked F i a s"
proof (cases "crosses x")
  case False
  with quiet_exec [OF assms(1), of i] show ?thesis by (simp add: unbacked_def)
next
  case True
  have F: "br_assets C = F" "exact_custody F a" "burn_other_law F" using assms(2) by (simp_all add: supply_admitted_def)
  have laws: "fungibles_laws F" using F(2) by (simp add: exact_custody_def)
  have ext: "bt_external (bridge_token_of s a)" using tok by (simp add: has_token_def)
  from True show ?thesis
  proof (cases rule: crosses_cases)
    case (1 o' d j to n)
    with assms(1) have "teleport C s o' d j to n = Inr s'" by simp
    then show ?thesis
    proof (rule teleport_crossing [where i = i])
      fix who b fee
      assume b: "asset_ids s j = Some b" and fee: "fee = bt_fee (bridge_token_of s b)" "fee \<le> n"
        and col: "collects C (bridge_token_of s b) b who n (br_ledger s) (br_ledger s')"
        and net: "net_arrivals i (br_events s') = net_arrivals i (br_events s) - (if j = i then int n - int fee else 0)"
      have "b = a \<Longrightarrow> bt_external (bridge_token_of s b)" using ext by simp
      from collects_issuance [OF _ _ col this, of a] F net fee other_token [OF tok b] show ?thesis
        by (auto simp: unbacked_def split: if_splits)
    qed
  next
    case (2 o' c n j to m f)
    with assms(1) have "materialize C s o' c n j to m f = Inr s'" by simp
    then show ?thesis
    proof (rule materialize_crossing [where i = i])
      fix b
      assume b: "asset_ids s j = Some b" and pay: "pays C (bridge_token_of s b) b to m (br_ledger s) (br_ledger s')"
        and net: "net_arrivals i (br_events s') = net_arrivals i (br_events s) + (if j = i then int m else 0)"
      from pays_issuance [OF _ pay, of a] F net other_token [OF tok b] ext show ?thesis
        by (auto simp: unbacked_def split: if_splits)
    qed (simp add: unbacked_def)
  next
    case (3 y)
    with assms(1) F(1) obtain l where l: "ledger_exec F (br_ledger s) y = Inr l" "s' = s\<lparr>br_ledger := l\<rparr>"
      by (auto elim: br_lift_InrE)
    have "ft_total_issuance F l a \<le> ft_total_issuance F (br_ledger s) a"
    proof (cases y)
      case (LedgerTransfer b w z n k)
      with l(1) show ?thesis by (auto intro: fungibles_lawsD(3) [OF laws])
    next
      case (LedgerMint b w n)
      with l(1) 3 assms(2) show ?thesis using fungibles_laws_mintD(2) [OF laws, of "br_ledger s" b w n l a]
        by (simp add: supply_admitted_def)
    next
      case (LedgerBurn b w n)
      with l(1) show ?thesis using burn_issuance [OF F(2,3), of "br_ledger s" b w n l] by simp
    qed
    with l(2) show ?thesis by (simp add: unbacked_def)
  qed
qed

interpretation bridge_supply: ordered_by_calls bridge_exec "supply_admitted F i a" "has_token i a True"
  "\<lambda>s s'. unbacked F i a s' \<le> unbacked F i a s" for F :: "(nat, 'l) fungibles" and i a
proof (unfold_locales, goal_cases)
  case (1 act s s')
  obtain C x where "act = (C, x)" by (cases act)
  with 1 show ?case by (intro has_token_exec [of s C x s' i a True]) (auto simp: supply_admitted_def)
next
  case (2 act s s')
  then show ?case by (cases act) (auto intro: unbacked_exec)
qed auto

section \<open>The custody of a locked token\<close>

definition custody_admitted ::
    "(nat, 'l) fungibles \<Rightarrow> account_id \<Rightarrow> currency_id \<Rightarrow> currency_id \<Rightarrow> 'l bridge_config \<times> bridge_action \<Rightarrow> bool" where
  "custody_admitted F P i a = (\<lambda>(C, x). br_assets C = F \<and> exact_custody F a \<and> br_pallet_account C = P \<and> br_gift_account C \<noteq> P \<and>
     (case x of BridgeCall o' c \<Rightarrow> o' \<noteq> Signed P \<and> c \<noteq> UnregisterBridgeToken i | BridgeOther y \<Rightarrow> spares P y | _ \<Rightarrow> True))"

lemma collects_balance:
  assumes F: "exact_custody (br_assets C) a" and "collects C t b who amount l l'" and "who \<noteq> br_pallet_account C"
  shows "ft_balance (br_assets C) l a (br_pallet_account C) + (if b = a \<and> \<not> bt_external t then amount else 0) \<le>
    ft_balance (br_assets C) l' a (br_pallet_account C)"
proof (cases "bt_external t")
  case True
  with assms(2) obtain k where k: "ft_burn_from (br_assets C) l b who amount = Inr k"
      "ft_mint_into (br_assets C) k b (br_pallet_account C) (bt_fee t) = Inr l'" by (auto simp: collects_def)
  from F have laws: "fungibles_laws (br_assets C)" "credit_law (br_assets C)" by (simp_all add: exact_custody_def)
  have "ft_balance (br_assets C) l a (br_pallet_account C) \<le> ft_balance (br_assets C) k a (br_pallet_account C)"
    using credit_lawD(2) [OF laws(2) k(1)] assms(3) by simp
  with True fungibles_laws_mintD(1) [OF laws(1) k(2)] show ?thesis by simp
next
  case False
  with assms exact_custodyD(2) [OF F, of l b who "br_pallet_account C" amount False l'] show ?thesis
    by (auto simp: collects_def)
qed

lemma pays_balance:
  assumes F: "exact_custody (br_assets C) a" and "pays C t b to amount l l'" and "br_gift_account C \<noteq> br_pallet_account C"
  shows "ft_balance (br_assets C) l a (br_pallet_account C) \<le>
    ft_balance (br_assets C) l' a (br_pallet_account C) + (if b = a \<and> \<not> bt_external t then amount else 0)"
proof -
  from assms(2) obtain k where k: "(if bt_external t then ft_mint_into (br_assets C) l b to amount
      else ft_transfer (br_assets C) l b (br_pallet_account C) to amount True) = Inr k"
    and g: "l' = k \<or> (\<exists>m. ft_transfer (br_assets C) k (br_native C) (br_gift_account C) to m False = Inr l')"
    by (auto simp: pays_def)
  have laws: "fungibles_laws (br_assets C)" using F by (simp add: exact_custody_def)
  have "ft_balance (br_assets C) k a (br_pallet_account C) \<le> ft_balance (br_assets C) l' a (br_pallet_account C)"
    using g exact_custodyD(3) [OF F _ assms(3)] by blast
  moreover have "ft_balance (br_assets C) l a (br_pallet_account C) \<le>
      ft_balance (br_assets C) k a (br_pallet_account C) + (if b = a \<and> \<not> bt_external t then amount else 0)"
  proof (cases "bt_external t")
    case True
    with k fungibles_laws_mintD(1) [OF laws, of l b to amount k a] show ?thesis by simp
  next
    case False
    with k exact_custodyD(1) [OF F, of l b "br_pallet_account C" to amount True k] show ?thesis by simp
  qed
  ultimately show ?thesis by simp
qed

lemma uncommitted_exec:
  assumes "bridge_exec s (C, x) = Inr s'" and adm: "custody_admitted F P i a (C, x)" and tok: "has_token i a False s"
  shows "uncommitted F P i a s \<le> uncommitted F P i a s'"
proof (cases "crosses x")
  case False
  with quiet_exec [OF assms(1), of i] show ?thesis by (simp add: uncommitted_def)
next
  case True
  have F: "br_assets C = F" "exact_custody F a" "br_pallet_account C = P" "br_gift_account C \<noteq> P"
    using adm by (simp_all add: custody_admitted_def)
  have loc: "\<not> bt_external (bridge_token_of s a)" using tok by (simp add: has_token_def)
  from True show ?thesis
  proof (cases rule: crosses_cases)
    case (1 o' d j to n)
    with assms(1) have "teleport C s o' d j to n = Inr s'" by simp
    then show ?thesis
    proof (rule teleport_crossing [where i = i])
      fix who b fee
      assume who: "o' = Signed who" and b: "asset_ids s j = Some b"
        and col: "collects C (bridge_token_of s b) b who n (br_ledger s) (br_ledger s')"
        and net: "net_arrivals i (br_events s') = net_arrivals i (br_events s) - (if j = i then int n - int fee else 0)"
          "fees_charged i (br_events s') = fees_charged i (br_events s) + (if j = i then int fee else 0)"
      have "who \<noteq> P" using adm who 1 by (auto simp: custody_admitted_def)
      with collects_balance [OF _ col, of a] F net other_token [OF tok b] loc show ?thesis
        by (auto simp: uncommitted_def split: if_splits)
    qed
  next
    case (2 o' c n j to m f)
    with assms(1) have "materialize C s o' c n j to m f = Inr s'" by simp
    then show ?thesis
    proof (rule materialize_crossing [where i = i])
      fix b
      assume b: "asset_ids s j = Some b" and pay: "pays C (bridge_token_of s b) b to m (br_ledger s) (br_ledger s')"
        and net: "net_arrivals i (br_events s') = net_arrivals i (br_events s) + (if j = i then int m else 0)"
          "fees_charged i (br_events s') = fees_charged i (br_events s)"
      from pays_balance [OF _ pay, of a] F net other_token [OF tok b] loc show ?thesis
        by (auto simp: uncommitted_def split: if_splits)
    qed (simp add: uncommitted_def)
  next
    case (3 y)
    with assms(1) F(1) obtain l where l: "ledger_exec F (br_ledger s) y = Inr l" "s' = s\<lparr>br_ledger := l\<rparr>"
      by (auto elim: br_lift_InrE)
    have "ft_balance F (br_ledger s) a P \<le> ft_balance F l a P"
      using adm F(2) 3 l(1) by (intro ledger_exec_spares) (auto simp: custody_admitted_def exact_custody_def)
    with l(2) show ?thesis by (simp add: uncommitted_def)
  qed
qed

interpretation bridge_custody: ordered_by_calls bridge_exec "custody_admitted F P i a" "has_token i a False"
  "\<lambda>s s'. uncommitted F P i a s \<le> uncommitted F P i a s'" for F :: "(nat, 'l) fungibles" and P i a
proof (unfold_locales, goal_cases)
  case (1 act s s')
  obtain C x where "act = (C, x)" by (cases act)
  with 1 show ?case by (intro has_token_exec [of s C x s' i a False]) (auto simp: custody_admitted_def)
next
  case (2 act s s')
  then show ?case by (cases act) (auto intro: uncommitted_exec)
qed auto

end
