(* ===== verification/Bridge_Progress.thy ===== *)
theory Bridge_Progress
  imports Bridge_Histories
begin

text \<open>
  The bridge makes progress: registering a nonce succeeds unless a neighbouring number does not exist, a vote below the
  threshold is counted, and the vote that reaches the threshold executes the call, provided that the ledger accepts the
  payment and the nonce can be registered.
\<close>

section \<open>Registering a nonce\<close>

text \<open>
  Recording a nonce looks at the numbers next to it in every interval: with an interval stored, the largest nonce has no
  successor, and zero no predecessor, unless the interval starts at one.
\<close>

definition can_register :: "bridge_interval list \<Rightarrow> chain_nonce \<Rightarrow> bool" where
  "can_register registry n \<longleftrightarrow> (\<forall>x\<in>set registry. n < u64_max \<and> (1 \<le> n \<or> fst x = n + 1))"

lemma can_register_iff:
  "can_register registry n \<longleftrightarrow> registry = [] \<or> n < u64_max \<and> (n = 0 \<longrightarrow> fst ` set registry \<subseteq> {1})"
  by (cases registry) (auto simp: can_register_def)

lemma extend_registry_cases:
  "if can_register registry n then \<exists>ys. extend_registry n registry = Inr ys else extend_registry n registry = Inl Panic"
proof -
  have "if can_register registry n
    then \<exists>ys. foldE (\<lambda>x xs. bindE (extend_interval n x) (\<lambda>y. Inr (xs @ [y]))) registry acc = Inr ys
    else foldE (\<lambda>x xs. bindE (extend_interval n x) (\<lambda>y. Inr (xs @ [y]))) registry acc = Inl Panic" for acc
  proof (induction registry arbitrary: acc)
    case (Cons x registry)
    show ?case
    proof (cases "n < u64_max \<and> (1 \<le> n \<or> fst x = n + 1)")
      case True
      then have "\<exists>y. extend_interval n x = Inr y" by (auto simp: extend_interval_def)
      then obtain y where "extend_interval n x = Inr y" ..
      moreover have "can_register (x # registry) n = can_register registry n" using True by (auto simp: can_register_def)
      ultimately show ?thesis using Cons.IH [of "acc @ [y]"] by simp
    next
      case False
      then have "extend_interval n x = Inl Panic" by (auto simp: extend_interval_def ensure_def)
      moreover have "\<not> can_register (x # registry) n" using False by (auto simp: can_register_def)
      ultimately show ?thesis by simp
    qed
  qed (simp add: can_register_def)
  then show ?thesis by (simp add: extend_registry_def)
qed

lemma register_nonce_cases:
  "if can_register registry n then \<exists>registry'. register_nonce registry n = Inr registry'
   else register_nonce registry n = Inl Panic"
  using extend_registry_cases [of registry n] by (auto simp: register_nonce_def Let_def split: if_splits)

section \<open>A vote is counted\<close>

lemma materialize_call_eta [simp]:
  "\<lparr>mc_bridge_token_id = mc_bridge_token_id call, mc_to = mc_to call, mc_amount = mc_amount call\<rparr> = call"
  by (cases call) simp

text \<open>\<open>pending C s c n call vs\<close>: the call can be voted on, and \<open>vs\<close> have voted for it.\<close>

definition pending ::
    "'l bridge_config \<Rightarrow> 'l bridge_state \<Rightarrow> chain_id \<Rightarrow> chain_nonce \<Rightarrow> materialize_call \<Rightarrow> account_id list \<Rightarrow> bool" where
  "pending C s c n call vs \<longleftrightarrow> chain_nonces s c \<noteq> None \<and> \<not> has_bridged s c n \<and>
     materialize_allowed s (mc_bridge_token_id call) (mc_amount call) = Inr () \<and>
     br_now C + br_proposal_lifetime C \<le> u32_max \<and> 
     (let p = opened C s c (n, call) in votes_for p = vs \<and> votes_against p = [] \<and> proposal_status p = Initiated \<and>
        br_now C < proposal_expiry p)"

lemma open_proposal_total:
  assumes "br_now C + br_proposal_lifetime C \<le> u32_max"
  shows "\<exists>evs. open_proposal C s who c n call = Inr (opened C s c (n, call), s\<lparr>br_events := br_events s @ evs\<rparr>)"
proof (cases "proposal_votes s c (n, call)")
  case None
  with assms show ?thesis by (auto simp: open_proposal_def opened_def br_deposit_event_def)
next
  case (Some p)
  then show ?thesis by (intro exI [of _ "[]"]) (simp add: open_proposal_def opened_def)
qed

lemma vote_resolves:
  assumes p: "pending C s c n call vs" and w: "w \<in> set (br_relay_members C)" "w \<notin> set vs"
  shows "\<exists>evs. materialize C s (Signed w) c n (mc_bridge_token_id call) (mc_to call) (mc_amount call) True =
    resolve_proposal C (put_proposal c (n, call) (voted w True (opened C s c (n, call))) (s\<lparr>br_events := br_events s @ evs\<rparr>)) c n call"
proof -
  let ?p = "opened C s c (n, call)"
  from p have q: "votes_for ?p = vs" "votes_against ?p = []" "\<not> is_complete ?p" "\<not> is_expired ?p (br_now C)"
    by (simp_all add: pending_def Let_def is_complete_def is_expired_def)
  from open_proposal_total [of C s w c n call] p obtain e1 where
    e1: "open_proposal C s w c n call = Inr (?p, s\<lparr>br_events := br_events s @ e1\<rparr>)" by (auto simp: pending_def)
  let ?s = "s\<lparr>br_events := br_events s @ e1\<rparr>"
  obtain e2 where e2: "cast_vote w True c n call ?p ?s = (voted w True ?p, ?s\<lparr>br_events := br_events ?s @ e2\<rparr>)"
    using cast_vote_voted by blast
  have "ensure_relay_member C (Signed w) = Inr w" "ensure_chain_registered s c = Inr ()"
      "ensure_chain_nonce_valid s c n = Inr ()" "materialize_allowed s (mc_bridge_token_id call) (mc_amount call) = Inr ()" "\<not> has_voted ?p w"
    using p w q by (simp_all add: ensure_relay_member_def ensure_chain_registered_def chain_registered_def
        ensure_chain_nonce_valid_def pending_def has_voted_def)
  then have "materialize C s (Signed w) c n (mc_bridge_token_id call) (mc_to call) (mc_amount call) True =
      resolve_proposal C (put_proposal c (n, call) (voted w True ?p) (?s\<lparr>br_events := br_events ?s @ e2\<rparr>)) c n call"
    using e1 e2 q by (simp add: materialize_def Let_def)
  then show ?thesis by (intro exI [of _ "e1 @ e2"]) simp
qed

lemma vote_below_threshold:
  assumes p: "pending C s c n call vs" and w: "w \<in> set (br_relay_members C)" "w \<notin> set vs"
    and k: "length vs + 1 < vote_threshold s" "vote_threshold s \<le> u32_max"
  shows "\<exists>evs q. materialize C s (Signed w) c n (mc_bridge_token_id call) (mc_to call) (mc_amount call) True =
      Inr (put_proposal c (n, call) q (s\<lparr>br_events := br_events s @ evs\<rparr>)) \<and>
    pending C (put_proposal c (n, call) q (s\<lparr>br_events := br_events s @ evs\<rparr>)) c n call (vs @ [w])"
proof -
  let ?q = "voted w True (opened C s c (n, call))"
  have q: "votes_for ?q = vs @ [w]" "votes_against ?q = []" "proposal_status ?q = Initiated" "br_now C < proposal_expiry ?q"
    using p by (simp_all add: pending_def Let_def voted_def)
  from vote_resolves [OF p w] obtain evs where
    m: "materialize C s (Signed w) c n (mc_bridge_token_id call) (mc_to call) (mc_amount call) True =
      resolve_proposal C (put_proposal c (n, call) ?q (s\<lparr>br_events := br_events s @ evs\<rparr>)) c n call"
    by blast
  have "try_to_complete ?q (vote_threshold s) (get_members_count C) = Inr (Initiated, ?q)"
    using q k by (simp add: try_to_complete_def)
  then have "materialize C s (Signed w) c n (mc_bridge_token_id call) (mc_to call) (mc_amount call) True =
      Inr (put_proposal c (n, call) ?q (s\<lparr>br_events := br_events s @ evs\<rparr>))"
    using q p unfolding m
    by (simp add: resolve_proposal_def is_complete_def is_expired_def)
  moreover have "pending C (put_proposal c (n, call) ?q (s\<lparr>br_events := br_events s @ evs\<rparr>)) c n call (vs @ [w])"
    using p q by (simp add: pending_def Let_def opened_def has_bridged_def materialize_allowed_def
        ensure_bridge_token_registered_def bridge_asset_id_def)
  ultimately show ?thesis by blast
qed

section \<open>The deciding vote\<close>

text \<open>\<open>payable C s call\<close>: the ledger accepts the payment of the call, and there is no bonus for it.\<close>

definition payable :: "'l bridge_config \<Rightarrow> 'l bridge_state \<Rightarrow> materialize_call \<Rightarrow> bool" where
  "payable C s call \<longleftrightarrow> (let a = bridge_asset_id s (mc_bridge_token_id call) in
     br_gift_convert C (mc_amount call) a = None \<and>
     is_ok (if bt_external (bridge_token_of s a) then ft_mint_into (br_assets C) (br_ledger s) a (mc_to call) (mc_amount call)
       else ft_transfer (br_assets C) (br_ledger s) a (br_pallet_account C) (mc_to call) (mc_amount call) True))"

lemma bookkeeping_frame [simp]:
  "bridge_asset_id (put_proposal c k q (s\<lparr>br_events := e\<rparr>)) i = bridge_asset_id s i"
  "payable C (put_proposal c k q (s\<lparr>br_events := e\<rparr>)) call = payable C s call"
  "materialize_allowed (put_proposal c k q (s\<lparr>br_events := e\<rparr>)) i m = materialize_allowed s i m"
  by (simp_all add: bridge_asset_id_def payable_def materialize_allowed_def ensure_bridge_token_registered_def)

text \<open>How the deciding vote ends: the call is executed and its nonce closed, or recording the nonce panics.\<close>

definition decided ::
    "bridge_interval list \<Rightarrow> chain_id \<Rightarrow> chain_nonce \<Rightarrow> materialize_call \<Rightarrow> bridge_dispatch_error + 'l bridge_state \<Rightarrow> bool" where
  "decided registry c n call r \<longleftrightarrow>
     (if can_register registry n
      then \<exists>s'. r = Inr s' \<and> has_bridged s' c n \<and>
        MaterializeMinted c n (mc_bridge_token_id call) (mc_to call) (mc_amount call) \<in> set (br_events s')
      else r = Inl Panic)"

lemma execute_materialize_decided:
  assumes "chain_nonces s c \<noteq> None" and reg: "bridge_registry s c = Some registry" "valid_intervals registry"
    and al: "materialize_allowed s (mc_bridge_token_id call) (mc_amount call) = Inr ()" and pay: "payable C s call"
  shows "decided registry c n call (execute_materialize C s c n call)"
proof -
  let ?a = "bridge_asset_id s (mc_bridge_token_id call)"
  let ?t = "bridge_token_of s ?a"
  from al have tok: "ensure_bridge_token_registered s (mc_bridge_token_id call) = Inr ()"
    and "in_amount ?t + mc_amount call \<le> in_cap ?t" "in_amount ?t + mc_amount call \<le> u128_max"
    unfolding materialize_allowed_def Let_def by (auto simp: ensure_under_bridge_cap_def)
  then have cap: "ensure_under_bridge_cap ?t (mc_amount call) BridgeIn = Inr (in_amount ?t + mc_amount call)"
    by (simp add: ensure_under_bridge_cap_def checked_add_def)
  let ?s1 = "br_deposit_event (ProposalApproved c n) (put_bridge_token ?a (?t\<lparr>in_amount := in_amount ?t + mc_amount call\<rparr>) s)"
  have same: "br_ledger ?s1 = br_ledger s" "bt_external (bridge_token_of ?s1 ?a) = bt_external ?t" "bridge_registry ?s1 = bridge_registry s"
    by (simp_all add: br_deposit_event_def put_bridge_token_def) (simp add: bridge_token_of_def)
  from pay obtain l where l: "pay_out C ?s1 ?a (mc_to call) (mc_amount call) = Inr (?s1\<lparr>br_ledger := l\<rparr>)"
    unfolding pay_out_def same bridge_account_id_def br_lift_def payable_def Let_def is_ok_def
    by (auto split: sum.splits)
  have bonus: "grant_incentive_bonus C (?s1\<lparr>br_ledger := l\<rparr>) (mc_to call) ?a (mc_amount call) = Inr (?s1\<lparr>br_ledger := l\<rparr>)"
    using pay by (simp add: grant_incentive_bonus_def payable_def Let_def)
  have exec: "execute_materialize C s c n call = bindE (update_bridge_registry (?s1\<lparr>br_ledger := l\<rparr>) c n)
      (\<lambda>s. Inr (br_deposit_event (MaterializeMinted c n (mc_bridge_token_id call) (mc_to call) (mc_amount call)) s))"
    using assms(1) tok cap l bonus
    by (simp add: execute_materialize_def Let_def update_bridge_token_cap_def ensure_chain_registered_def chain_registered_def)
  show ?thesis
  proof (cases "can_register registry n")
    case True
    then obtain registry' where r: "register_nonce registry n = Inr registry'" using register_nonce_cases [of registry n] by auto
    then have "update_bridge_registry (?s1\<lparr>br_ledger := l\<rparr>) c n =
        Inr (?s1\<lparr>br_ledger := l, bridge_registry := (bridge_registry s)(c \<mapsto> registry')\<rparr>)"
      using reg same by (simp add: update_bridge_registry_def)
    moreover have "in_registry registry' n" using register_nonce_set(2) [OF r reg(2)] by (auto simp: nonces_of_def)
    ultimately show ?thesis using True by (simp add: exec decided_def br_deposit_event_def has_bridged_def)
  next
    case False
    then have "register_nonce registry n = Inl Panic" using register_nonce_cases [of registry n] by auto
    then show ?thesis using False reg same by (simp add: exec decided_def update_bridge_registry_def)
  qed
qed

definition all_vote ::
    "'l bridge_config \<Rightarrow> chain_id \<Rightarrow> chain_nonce \<Rightarrow> materialize_call \<Rightarrow> account_id list \<Rightarrow> 'l bridge_state
     \<Rightarrow> bridge_dispatch_error + 'l bridge_state" where
  "all_vote C c n call ws =
     foldE (\<lambda>w s. materialize C s (Signed w) c n (mc_bridge_token_id call) (mc_to call) (mc_amount call) True) ws"

lemma all_vote_simps [simp]:
  "all_vote C c n call [] s = Inr s"
  "all_vote C c n call (w # ws) s =
     bindE (materialize C s (Signed w) c n (mc_bridge_token_id call) (mc_to call) (mc_amount call) True) (all_vote C c n call ws)"
  by (simp_all add: all_vote_def)

lemma all_vote_single:
  "all_vote C c n call [w] s = materialize C s (Signed w) c n (mc_bridge_token_id call) (mc_to call) (mc_amount call) True"
  by (cases "materialize C s (Signed w) c n (mc_bridge_token_id call) (mc_to call) (mc_amount call) True") simp_all

lemma deciding_vote:
  assumes p: "pending C s c n call vs" and w: "w \<in> set (br_relay_members C)" "w \<notin> set vs"
    and k: "vote_threshold s \<le> length vs + 1"
    and reg: "bridge_registry s c = Some registry" "valid_intervals registry" and pay: "payable C s call"
  shows "decided registry c n call
    (materialize C s (Signed w) c n (mc_bridge_token_id call) (mc_to call) (mc_amount call) True)"
proof -
  let ?q = "voted w True (opened C s c (n, call))"
  have q: "votes_for ?q = vs @ [w]" "\<not> is_complete ?q" "\<not> is_expired ?q (br_now C)"
    using p by (simp_all add: pending_def Let_def is_complete_def is_expired_def) (simp add: voted_def)
  from vote_resolves [OF p w] obtain evs where m: "materialize C s (Signed w) c n (mc_bridge_token_id call) (mc_to call) (mc_amount call) True =
      resolve_proposal C (put_proposal c (n, call) ?q (s\<lparr>br_events := br_events s @ evs\<rparr>)) c n call" by blast
  let ?s = "put_proposal c (n, call) (?q\<lparr>proposal_status := Approved\<rparr>) (s\<lparr>br_events := br_events s @ evs\<rparr>)"
  have "try_to_complete ?q (vote_threshold s) (get_members_count C) = Inr (Approved, ?q\<lparr>proposal_status := Approved\<rparr>)"
    using q k by (simp add: try_to_complete_def)
  then have "materialize C s (Signed w) c n (mc_bridge_token_id call) (mc_to call) (mc_amount call) True = execute_materialize C ?s c n call"
    using q unfolding m by (simp add: resolve_proposal_def)
  moreover have "payable C ?s call" "chain_nonces ?s c \<noteq> None" "bridge_registry ?s c = Some registry"
      "materialize_allowed ?s (mc_bridge_token_id call) (mc_amount call) = Inr ()"
    using pay p reg by (simp_all add: pending_def)
  ultimately show ?thesis using execute_materialize_decided [of ?s c registry call C n] reg(2) by simp
qed

lemma all_vote_completes:
  assumes "pending C s c n call vs" and "set ws \<subseteq> set (br_relay_members C)" and "distinct (vs @ ws)" and "ws \<noteq> []"
    and "length vs + length ws = vote_threshold s" and "vote_threshold s \<le> u32_max"
    and "bridge_registry s c = Some registry" and "valid_intervals registry" and "payable C s call"
  shows "decided registry c n call (all_vote C c n call ws s)"
  using assms
proof (induction ws arbitrary: s vs)
  case Nil
  then show ?case by simp
next
  case (Cons w ws)
  show ?case
  proof (cases "ws = []")
    case True
    with Cons.prems deciding_vote [OF Cons.prems(1), of w registry] show ?thesis by (simp add: all_vote_single del: all_vote_simps)
  next
    case False
    have "length vs + 1 < vote_threshold s" using Cons.prems(5) False by (cases ws) auto
    with vote_below_threshold [OF Cons.prems(1), of w] Cons.prems(2,3,6) obtain evs q where
      m: "materialize C s (Signed w) c n (mc_bridge_token_id call) (mc_to call) (mc_amount call) True =
        Inr (put_proposal c (n, call) q (s\<lparr>br_events := br_events s @ evs\<rparr>))"
      and p: "pending C (put_proposal c (n, call) q (s\<lparr>br_events := br_events s @ evs\<rparr>)) c n call (vs @ [w])" by auto
    let ?s = "put_proposal c (n, call) q (s\<lparr>br_events := br_events s @ evs\<rparr>)"
    have "payable C ?s call" using Cons.prems(9) by simp
    with Cons.IH [OF p _ _ False] Cons.prems m show ?thesis by simp
  qed
qed

end
