(* ===== verification/Bridge_Typing.thy ===== *)
theory Bridge_Typing
  imports Bridge_Histories
begin

text \<open>
  The stored values of the bridge stay within the widths of their Rust types, and the registries stay sorted and
  disjoint, when the arguments of the calls are within their widths.
\<close>

definition token_typed :: "bridge_token \<Rightarrow> bool" where
  "token_typed t \<longleftrightarrow> out_amount t \<le> u128_max \<and> in_amount t \<le> u128_max \<and> out_cap t \<le> u128_max \<and> in_cap t \<le> u128_max \<and>
     bt_fee t \<le> u128_max"

definition registry_typed :: "bridge_interval list \<Rightarrow> bool" where
  "registry_typed registry \<longleftrightarrow> registry_wf registry \<and> nonces_of registry \<subseteq> {..u64_max}"

definition bridge_typed :: "'l bridge_state \<Rightarrow> bool" where
  "bridge_typed s \<longleftrightarrow> vote_threshold s \<le> u32_max \<and> (\<forall>n\<in>ran (chain_nonces s). n \<le> u64_max) \<and>
     (\<forall>registry\<in>ran (bridge_registry s). registry_typed registry) \<and> (\<forall>t\<in>ran (bridge_tokens s). token_typed t)"

fun call_typed :: "bridge_call \<Rightarrow> bool" where
  "call_typed (RegisterBridgeToken a t) \<longleftrightarrow> token_typed t"
| "call_typed (SetBridgeTokenFee i n) \<longleftrightarrow> n \<le> u128_max"
| "call_typed (SetBridgeTokenCap i ty n) \<longleftrightarrow> n \<le> u128_max"
| "call_typed (Materialize c n i to m f) \<longleftrightarrow> n \<le> u64_max"
| "call_typed _ \<longleftrightarrow> True"

fun action_typed :: "'l bridge_config \<times> bridge_action \<Rightarrow> bool" where
  "action_typed (C, BridgeCall o' c) \<longleftrightarrow> call_typed c"
| "action_typed (C, x) \<longleftrightarrow> True"

lemma ran_updD: "y \<in> ran (m(k \<mapsto> v)) \<Longrightarrow> y = v \<or> y \<in> ran m"
  by (auto simp: ran_def split: if_splits)

lemma ran_removeD: "y \<in> ran (m(k := None)) \<Longrightarrow> y \<in> ran m"
  by (auto simp: ran_def split: if_splits)

lemma token_of_typed: "bridge_typed s \<Longrightarrow> token_typed (bridge_token_of s a)"
  unfolding bridge_typed_def bridge_token_of_def
  by (cases "bridge_tokens s a") (auto simp: default_bridge_token_def token_typed_def intro: ranI)

lemma bridge_typedI:
  assumes "bridge_typed s" and "vote_threshold s' \<le> u32_max" and "\<And>n. n \<in> ran (chain_nonces s') \<Longrightarrow> n \<in> ran (chain_nonces s) \<or> n \<le> u64_max"
    and "\<And>r. r \<in> ran (bridge_registry s') \<Longrightarrow> r \<in> ran (bridge_registry s) \<or> registry_typed r"
    and "\<And>t. t \<in> ran (bridge_tokens s') \<Longrightarrow> t \<in> ran (bridge_tokens s) \<or> token_typed t"
  shows "bridge_typed s'"
  using assms unfolding bridge_typed_def by blast

lemma nonce_done_typed:
  assumes "nonce_done c n (bridge_registry s) R'" and "bridge_typed s" and "n \<le> u64_max" and "r \<in> ran R'"
  shows "r \<in> ran (bridge_registry s) \<or> registry_typed r"
proof (cases "bridge_registry s c")
  case None
  with assms(1,4) show ?thesis by (simp add: nonce_done_def)
next
  case (Some registry)
  with assms(1) obtain registry' where r: "register_nonce registry n = Inr registry'" "R' = (bridge_registry s)(c \<mapsto> registry')"
    by (auto simp: nonce_done_def)
  have old: "registry_typed registry" using assms(2) Some by (auto simp: bridge_typed_def intro: ranI)
  then have "registry_typed registry'"
    using register_nonce_set [OF r(1)] assms(3) by (auto simp: registry_typed_def registry_wf_def)
  with r(2) assms(4) show ?thesis by (auto dest: ran_updD)
qed

lemma threshold_typed:
  assumes "bridge_typed s"
  shows "bridge_typed (change_members_sorted C s)"
proof -
  have "get_members_count C \<le> u32_max" by (simp add: get_members_count_def less_Suc_eq_le [symmetric])
  with assms show ?thesis
    unfolding change_members_sorted_def change_vote_threshold_def Let_def br_deposit_event_def ensure_valid_threshold_def
    by (auto simp: ensure_def bridge_typed_def)
qed

lemma try_mutate_typed:
  assumes "try_mutate_bridge_token s i (\<lambda>t s. Inr (f t, br_deposit_event e s)) = Inr s'" and "bridge_typed s"
    and "\<And>t. token_typed t \<Longrightarrow> token_typed (f t)"
  shows "bridge_typed s'"
proof -
  from assms(1) have s': "s' = put_bridge_token (bridge_asset_id s i) (f (bridge_token_of s (bridge_asset_id s i))) (br_deposit_event e s)"
    unfolding try_mutate_bridge_token_def Let_def by (elim resultE) auto
  show ?thesis
    by (rule bridge_typedI [OF assms(2)])
      (use assms(2,3) token_of_typed [OF assms(2)] in
        \<open>auto simp: s' put_bridge_token_def br_deposit_event_def bridge_typed_def dest!: ran_updD\<close>)
qed

lemma setters_typed:
  assumes "bridge_typed s"
  shows "set_bridge_token_fee C s o' i n = Inr s' \<Longrightarrow> n \<le> u128_max \<Longrightarrow> bridge_typed s'"
    and "set_bridge_token_status C s o' i b = Inr s' \<Longrightarrow> bridge_typed s'"
    and "set_bridge_token_cap C s o' i ty n = Inr s' \<Longrightarrow> n \<le> u128_max \<Longrightarrow> bridge_typed s'"
    and "clean_cap_accumulated_value C s o' i ty = Inr s' \<Longrightarrow> bridge_typed s'"
  unfolding set_bridge_token_fee_def set_bridge_token_status_def set_bridge_token_cap_def clean_cap_accumulated_value_def
  by (erule bindE_InrE, erule try_mutate_typed [OF _ assms], simp add: token_typed_def split: bridge_type.split)+

lemma teleport_typed:
  assumes "teleport C s o' d i to n = Inr s'" and ty: "bridge_typed s"
  shows "bridge_typed s'"
  using assms(1)
proof (rule teleport_inv)
  fix who a l'
  assume cap: "out_amount (bridge_token_of s a) + n \<le> out_cap (bridge_token_of s a)" and nonce: "chain_nonce_of s d + 1 \<le> u64_max"
    and s': "s' = s\<lparr>bridge_tokens := (bridge_tokens s)(a \<mapsto> (bridge_token_of s a)\<lparr>out_amount := out_amount (bridge_token_of s a) + n\<rparr>),
      br_ledger := l', chain_nonces := (chain_nonces s)(d \<mapsto> chain_nonce_of s d + 1),
      br_events := br_events s @ [TeleportBurned who d (chain_nonce_of s d + 1) i to
        (n - bt_fee (bridge_token_of s a)) (bt_fee (bridge_token_of s a))]\<rparr>"
  have "token_typed ((bridge_token_of s a)\<lparr>out_amount := out_amount (bridge_token_of s a) + n\<rparr>)"
    using token_of_typed [OF ty, of a] cap by (auto simp: token_typed_def)
  with nonce ty show ?thesis
    by (intro bridge_typedI [OF ty]) (auto simp: s' bridge_typed_def dest!: ran_updD)
qed

lemma materialize_typed:
  assumes "materialize C s o' c n i to m f = Inr s'" and ty: "bridge_typed s" and n: "n \<le> u64_max"
  shows "bridge_typed s'"
  using assms(1)
proof (rule materialize_inv)
  fix who st p' evs s1
  let ?k = "\<lparr>mc_bridge_token_id = i, mc_to = to, mc_amount = m\<rparr>"
  assume s1: "s1 = put_proposal c (n, ?k) p' (s\<lparr>br_events := br_events s @ evs\<rparr>)"
    and o: "case st of Approved \<Rightarrow> execute_materialize C s1 c n ?k = Inr s'
      | Rejected \<Rightarrow> cancel_materialize s1 c n = Inr s' | Initiated \<Rightarrow> s' = s1"
  have ty1: "bridge_typed s1" using ty by (simp add: s1 bridge_typed_def)
  show ?thesis
  proof (cases st)
    case Initiated
    with o ty1 show ?thesis by simp
  next
    case Approved
    with o have "execute_materialize C s1 c n ?k = Inr s'" by simp
    then show ?thesis
    proof (rule execute_materialize_inv)
      fix a l' R'
      assume cap: "in_amount (bridge_token_of s1 a) + mc_amount ?k \<le> in_cap (bridge_token_of s1 a)"
        and R': "nonce_done c n (bridge_registry s1) R'"
        and s': "s' = s1\<lparr>bridge_tokens := (bridge_tokens s1)(a \<mapsto> (bridge_token_of s1 a)\<lparr>in_amount := in_amount (bridge_token_of s1 a) + mc_amount ?k\<rparr>),
          br_ledger := l', bridge_registry := R', br_events := br_events s1 @
            [ProposalApproved c n, MaterializeMinted c n (mc_bridge_token_id ?k) (mc_to ?k) (mc_amount ?k)]\<rparr>"
      have "token_typed ((bridge_token_of s1 a)\<lparr>in_amount := in_amount (bridge_token_of s1 a) + mc_amount ?k\<rparr>)"
        using token_of_typed [OF ty1, of a] cap by (auto simp: token_typed_def)
      with ty1 nonce_done_typed [OF R' ty1 n] show ?thesis
        by (intro bridge_typedI [OF ty1]) (auto simp: s' bridge_typed_def dest!: ran_updD)
    qed
  next
    case Rejected
    with o have "cancel_materialize s1 c n = Inr s'" by simp
    then show ?thesis
    proof (rule cancel_materialize_inv)
      fix R'
      assume R': "nonce_done c n (bridge_registry s1) R'"
        and s': "s' = s1\<lparr>bridge_registry := R', br_events := br_events s1 @ [ProposalRejected c n]\<rparr>"
      from ty1 nonce_done_typed [OF R' ty1 n] show ?thesis
        by (intro bridge_typedI [OF ty1]) (auto simp: s' bridge_typed_def)
    qed
  qed
qed

lemma bridge_typed_exec:
  assumes "bridge_exec s (C, x) = Inr s'" and ty: "bridge_typed s" and "action_typed (C, x)"
  shows "bridge_typed s'"
proof (cases x)
  case (BridgeCall o' c)
  show ?thesis
  proof (cases c)
    case (RegisterChain d)
    have "registry_typed []" by (simp add: registry_typed_def registry_wf_def nonces_of_def)
    with RegisterChain BridgeCall assms(1) ty show ?thesis
      by (intro bridge_typedI [OF ty]) (auto simp: register_chain_def br_deposit_event_def bridge_typed_def dest!: ran_updD)
  next
    case (UnregisterChain d)
    with BridgeCall assms(1) ty show ?thesis
      by (intro bridge_typedI [OF ty]) (auto simp: unregister_chain_def br_deposit_event_def bridge_typed_def dest!: ran_removeD)
  next
    case (RegisterBridgeToken a t)
    with BridgeCall assms ty show ?thesis
      by (intro bridge_typedI [OF ty])
        (auto simp: register_bridge_token_def br_deposit_event_def put_bridge_token_def bridge_typed_def dest!: ran_updD)
  next
    case (UnregisterBridgeToken i)
    with BridgeCall assms(1) ty show ?thesis
      by (intro bridge_typedI [OF ty])
        (auto simp: unregister_bridge_token_def Let_def br_deposit_event_def bridge_typed_def dest!: ran_removeD)
  qed (use BridgeCall assms setters_typed [OF ty] teleport_typed [OF _ ty] materialize_typed [OF _ ty] in auto)
next
  case (BridgeOther y)
  with assms(1) ty show ?thesis by (auto simp: br_lift_def bridge_typed_def)
next
  case BridgeBlock
  with assms(1) ty show ?thesis by (auto simp: bridge_on_initialize_def bridge_typed_def)
next
  case BridgeMembers
  with assms(1) threshold_typed [OF ty] show ?thesis by auto
qed

interpretation bridge_typing: kept_by_calls bridge_exec action_typed bridge_typed
proof (unfold_locales, goal_cases)
  case (1 act s s')
  obtain C x where "act = (C, x)" by (cases act)
  with 1 show ?case by (auto intro: bridge_typed_exec)
qed

lemma bridge_genesis_typed: "bridge_typed (bridge_genesis l)"
  by (simp add: bridge_genesis_def bridge_typed_def)

end
