(* ===== verification/Bridge_Properties.thy ===== *)
theory Bridge_Properties
  imports Bridge_Backing Bridge_Progress Bridge_Typing
begin

text \<open>
  The properties of the bridge, with a concrete bridge on which they are evaluated: relay members 11, 12 and 13,
  a threshold of 80 percent, chain 7, the external token 21 of asset 3 and the locked token 22 of asset 2.  The pallet's
  account is 99, the gift account 88, the native currency 0.
\<close>

definition bridge_arith_laws :: "bridge_arith \<Rightarrow> bool" where
  "bridge_arith_laws A \<longleftrightarrow>
     (\<forall>p n. pm_mul_ceil A p n = (p * n + (PM - 1)) div PM) \<and>
     (\<forall>n d. pm_from_rational A n d = (if d = 0 then PM else min n d * PM div d)) \<and>
     (\<forall>p. pm_from_percent A p = min p 100 * 10000)"

definition bridge_arith_ref :: bridge_arith where
  "bridge_arith_ref = sp_arith.extend sp_arith_ref \<lparr>pm_from_percent = (\<lambda>p. min p 100 * 10000)\<rparr>"

definition bridge_env :: "block_number \<Rightarrow> ref_ledger bridge_config" where
  "bridge_env t = \<lparr>br_arith = bridge_arith_ref, br_relay_members = [11, 12, 13],
     br_update_token_origin = (\<lambda>x. x = Root), br_update_chain_origin = (\<lambda>x. x = Root), br_cap_origin = (\<lambda>x. x = Root),
     br_root_operator = 10, br_assets = fungibles_ref, br_gift_account = 88,
     br_gift_convert = (\<lambda>m a. if a = 3 \<and> 5000 \<le> m then Some 65 else None),
     br_native = 0, br_existential_deposit = 10, br_chain_id = 1, br_pallet_account = 99,
     br_proposal_lifetime = 50, br_threshold_percentage = 80, br_now = t\<rparr>"

definition bridge_coin :: "currency_id \<Rightarrow> bool \<Rightarrow> bridge_token" where
  "bridge_coin i x = \<lparr>bt_id = i, bt_external = x, bt_fee = 10, bt_enable = True, out_cap = 100000, out_amount = 0,
     in_cap = 100000, in_amount = 0\<rparr>"

definition bridge_setup :: "(ref_ledger bridge_config \<times> bridge_action) list" where
  "bridge_setup = map (Pair (bridge_env 1))
     [BridgeMembers, BridgeCall Root (RegisterChain 7), BridgeCall Root (RegisterBridgeToken 3 (bridge_coin 21 True)),
      BridgeCall Root (RegisterBridgeToken 2 (bridge_coin 22 False)), BridgeOther (LedgerMint 2 5 3000)]"

definition bridge_script :: "(ref_ledger bridge_config \<times> bridge_action) list" where
  "bridge_script =
     [(bridge_env 2, BridgeCall (Signed 5) (Teleport 7 22 ''x'' 1000)),
      (bridge_env 3, BridgeCall (Signed 11) (Materialize 7 4 21 6 700 True)),
      (bridge_env 3, BridgeCall (Signed 12) (Materialize 7 4 21 6 700 True)),
      (bridge_env 4, BridgeBlock), (bridge_env 4, BridgeCall (Signed 13) (Materialize 7 4 21 6 700 True)),
      (bridge_env 5, BridgeCall (Signed 6) (Teleport 7 21 ''y'' 300)),
      (bridge_env 5, BridgeCall (Signed 11) (Materialize 7 4 21 6 700 True))]"

definition bridge_ready :: "ref_ledger bridge_state" where
  "bridge_ready = run_calls bridge_exec bridge_setup (bridge_genesis \<lparr>lg_balance = (\<lambda>a w. 0), lg_issuance = (\<lambda>a. 0)\<rparr>)"

definition bridge_final :: "ref_ledger bridge_state" where
  "bridge_final = run_calls bridge_exec bridge_script bridge_ready"

lemmas bridge_eval = Let_def run_calls_def bridge_genesis_def fungibles_ref_def ref_transfer_def ref_mint_def ref_burn_def
  ensure_signed_def ensure_origin_def checked_add_def checked_sub_def add_u128_def br_lift_def
  bridge_arith_ref_def sp_arith.extend_def sp_arith_ref_def default_bridge_token_def br_deposit_event_def bridge_token_of_def
  bridge_asset_id_def chain_nonce_of_def put_bridge_token_def put_proposal_def default_proposal_def try_to_complete_def
  is_complete_def is_expired_def can_be_cleaned_up_def has_voted_def bridge_account_id_def ensure_relay_member_def
  chain_registered_def ensure_chain_registered_def has_bridged_def ensure_chain_nonce_valid_def ensure_amount_valid_def
  ensure_bridge_token_registered_def get_members_count_def ensure_valid_threshold_def ensure_under_bridge_cap_def
  materialize_allowed_def sort_registry_def merge_overlapping_intervals_def extend_interval_def extend_registry_def
  register_nonce_def update_bridge_registry_def change_vote_threshold_def bump_nonce_def update_bridge_token_cap_def
  try_mutate_bridge_token_def teleport_internal_def grant_incentive_bonus_def pay_out_def execute_materialize_def
  cancel_materialize_def resolve_proposal_def register_chain_def unregister_chain_def register_bridge_token_def
  unregister_bridge_token_def collect_def teleport_def open_proposal_def cast_vote_def materialize_def
  bridge_on_initialize_def change_members_sorted_def bridge_env_def bridge_coin_def

lemma bridge_ready_eval:
  "bridge_ready = \<lparr>vote_threshold = 3, chain_nonces = [7 \<mapsto> 0], bridge_registry = [7 \<mapsto> []],
     bridge_tokens = [3 \<mapsto> bridge_coin 21 True, 2 \<mapsto> bridge_coin 22 False], asset_ids = [21 \<mapsto> 3, 22 \<mapsto> 2],
     proposal_votes = (\<lambda>_ _. None),
     br_ledger = \<lparr>lg_balance = (\<lambda>a w. 0)(2 := (\<lambda>w. 0)(5 := 3000)), lg_issuance = (\<lambda>a. 0)(2 := 3000)\<rparr>,
     br_events = [VoteThresholdUpdated 3, ChainRegistered 7, BridgeTokenRegistered 3 21 True 10 True 100000 0 100000 0,
       BridgeTokenRegistered 2 22 False 10 True 100000 0 100000 0]\<rparr>"
  by (simp add: bridge_ready_def bridge_setup_def bridge_eval)

lemma bridge_final_eval:
  "br_events bridge_final = br_events bridge_ready @ [TeleportBurned 5 7 1 22 ''x'' 990 10,
     MaterializeInitialized 11 7 4 21 6 700, MaterializeVoteFor 7 4 11 21 6 700, MaterializeVoteFor 7 4 12 21 6 700,
     MaterializeVoteFor 7 4 13 21 6 700, ProposalApproved 7 4, MaterializeMinted 7 4 21 6 700, TeleportBurned 6 7 2 21 ''y'' 290 10]"
  "lg_issuance (br_ledger bridge_final) 3 = 410" "lg_balance (br_ledger bridge_final) 2 99 = 1000"
  "bridge_registry bridge_final 7 = Some [(4, 4)]"
  by (simp_all add: bridge_final_def bridge_script_def bridge_ready_eval bridge_eval)

lemma bridge_ready_token [simp]: "has_token 21 3 True bridge_ready" "has_token 22 2 False bridge_ready"
  by (simp_all add: bridge_ready_eval has_token_def tokens_paired_def bridge_token_of_def bridge_coin_def)

lemma bridge_final_reached:
  assumes "\<forall>x\<in>set bridge_script. admitted x"
  shows "history bridge_exec admitted bridge_ready bridge_final"
  unfolding bridge_final_def by (rule run_calls_history [OF assms])

lemma bridge_script_reached:
  assumes "\<forall>x\<in>set (bridge_setup @ bridge_script). admitted x"
  shows "history bridge_exec admitted (bridge_genesis \<lparr>lg_balance = (\<lambda>a w. 0), lg_issuance = (\<lambda>a. 0)\<rparr>) bridge_final"
proof -
  have eq: "bridge_final = run_calls bridge_exec (bridge_setup @ bridge_script)
      (bridge_genesis \<lparr>lg_balance = (\<lambda>a w. 0), lg_issuance = (\<lambda>a. 0)\<rparr>)"
    by (simp add: bridge_final_def bridge_ready_def run_calls_def)
  show ?thesis unfolding eq by (rule run_calls_history [OF assms])
qed

lemmas bridge_admission = bridge_script_def bridge_setup_def bridge_env_def keeps_chain_def
  supply_admitted_def custody_admitted_def bridge_coin_def token_typed_def

section \<open>Nonces\<close>

text \<open>C30. The registry of a chain implements a set of nonces.  Recording a nonce keeps the intervals sorted and disjoint,
  adds exactly that nonce to the represented set, and touches no other chain; it succeeds for every nonce from one up to, but not
  including, the largest number, and in an empty registry for every nonce.  In a registry with intervals the largest number
  panics, and so does zero unless every interval starts at one; nothing is recorded then.\<close>

theorem registry_implements_set:
  assumes "bridge_registry s c = Some registry" and "registry_wf registry"
  shows "if registry = [] \<or> n < u64_max \<and> (n = 0 \<longrightarrow> fst ` set registry \<subseteq> {1})
    then \<exists>registry'. update_bridge_registry s c n = Inr (s\<lparr>bridge_registry := (bridge_registry s)(c \<mapsto> registry')\<rparr>) \<and>
      registry_wf registry' \<and> nonces_of registry' = insert n (nonces_of registry)
    else update_bridge_registry s c n = Inl Panic"
proof -
  have eq: "(registry = [] \<or> n < u64_max \<and> (n = 0 \<longrightarrow> fst ` set registry \<subseteq> {1})) = can_register registry n"
    by (rule can_register_iff [symmetric])
  have "valid_intervals registry" using assms(2) by (simp add: registry_wf_def)
  then show ?thesis
    using register_nonce_cases [of registry n] register_nonce_set [of registry n] unfolding eq
    by (auto simp: update_bridge_registry_def assms(1) split: if_splits)
qed

theorem registry_implements_set_witness:
  "update_bridge_registry bridge_final 7 5 = Inr (bridge_final\<lparr>bridge_registry := (bridge_registry bridge_final)(7 \<mapsto> [(4, 5)])\<rparr>) \<and>
    nonces_of [(4, 5)] = insert 5 (nonces_of [(4, 4)])"
proof -
  have "registry_wf [(4, 4)]" by (simp add: registry_wf_def)
  from registry_implements_set [OF bridge_final_eval(4) this, of 5] obtain registry' where
    u: "update_bridge_registry bridge_final 7 5 = Inr (bridge_final\<lparr>bridge_registry := (bridge_registry bridge_final)(7 \<mapsto> registry')\<rparr>)"
    and n: "nonces_of registry' = insert 5 (nonces_of [(4, 4)])" by auto
  have "register_nonce [(4, 4)] 5 = Inr [(4, 5)]" by (simp add: bridge_eval)
  then have e: "update_bridge_registry bridge_final 7 5 = Inr (bridge_final\<lparr>bridge_registry := (bridge_registry bridge_final)(7 \<mapsto> [(4, 5)])\<rparr>)"
    by (simp add: update_bridge_registry_def bridge_final_eval)
  with u have "(bridge_registry bridge_final)(7 \<mapsto> registry') = (bridge_registry bridge_final)(7 \<mapsto> [(4, 5)])"
    by (metis bridge_state.select_convs(3) bridge_state.surjective bridge_state.update_convs(3) sum.inject(2))
  then have "registry' = [(4, 5)]" by (metis fun_upd_same option.inject)
  with e n show ?thesis by simp
qed

text \<open>C4. No replay: as long as a chain stays registered, each of its nonces is closed at most once, by one execution or one
  rejection, under any interleaving of calls, ledger activity, blocks and changes of the members; and once it is closed every further
  vote on it is refused.\<close>

theorem nonce_closed_once:
  assumes "history bridge_exec (keeps_chain c) (bridge_genesis l) s"
  shows "closings c n (br_events s) \<le> 1 \<and>
    (closings c n (br_events s) = 1 \<longrightarrow> (\<forall>C o' i to m f. \<exists>e. materialize C s o' c n i to m f = Inl e))"
proof -
  have "replay_safe c s" by (rule bridge_replay.history_inv [OF assms bridge_genesis_replay_safe])
  then have le: "closings c n (br_events s) \<le> (if has_bridged s c n then 1 else 0)" by (simp add: replay_safe_def)
  have "\<exists>e. materialize C s o' c n i to m f = Inl e" if "has_bridged s c n" for C o' i to m f
  proof (cases "materialize C s o' c n i to m f")
    case (Inr s')
    then show ?thesis by (rule materialize_inv) (use that in simp)
  qed simp
  with le show ?thesis by (auto split: if_splits)
qed

theorem nonce_closed_once_witness:
  "closings 7 4 (br_events bridge_final) = 1 \<and> (\<exists>e. materialize (bridge_env 6) bridge_final (Signed 12) 7 4 21 6 700 True = Inl e)"
proof -
  have "history bridge_exec (keeps_chain 7) (bridge_genesis \<lparr>lg_balance = (\<lambda>a w. 0), lg_issuance = (\<lambda>a. 0)\<rparr>) bridge_final"
    by (rule bridge_script_reached) (simp add: bridge_admission)
  from nonce_closed_once [OF this, of 4] show ?thesis by (simp add: bridge_final_eval bridge_ready_eval)
qed

section \<open>Votes\<close>

text \<open>C13. Tokens arrive only by votes: when a vote in any reachable state executes a call, the proposal counts at least as
  many different accounts in favour as the threshold asks for, and each of them is there by an accepted vote for exactly this
  call and nonce in this history, cast by an account that was a relay member at that moment, or by the root origin, which
  votes as the root operator and counts like a member.\<close>

theorem arrival_needs_votes:
  assumes "history bridge_exec admitted (bridge_genesis l) s"
    and "admitted (C, BridgeCall o' (Materialize c n i to m f))" and "materialize C s o' c n i to m f = Inr s'"
    and "br_events s' = br_events s @ evs" and "MaterializeMinted c n i to m \<in> set evs"
  shows "\<exists>p. proposal_votes s' c (n, \<lparr>mc_bridge_token_id = i, mc_to = to, mc_amount = m\<rparr>) = Some p \<and>
    vote_threshold s \<le> card (set (votes_for p)) \<and>
    (\<forall>w\<in>set (votes_for p).
       vote_cast admitted (bridge_genesis l) s' c n \<lparr>mc_bridge_token_id = i, mc_to = to, mc_amount = m\<rparr> w)"
  using assms(3) bridge_votes.history_inv [OF assms(1) bridge_genesis_votes_ok]
proof (rule materialize_votes)
  fix st p
  let ?call = "\<lparr>mc_bridge_token_id = i, mc_to = to, mc_amount = m\<rparr>"
  assume s': "proposal_votes s' = (proposal_votes s)(c := (proposal_votes s c)((n, ?call) \<mapsto> p))"
    and p: "fair_votes p" and st: "st = Approved \<longleftrightarrow> vote_threshold s \<le> length (votes_for p)"
    and ev: "\<exists>evs. br_events s' = br_events s @ evs \<and> (\<forall>e\<in>set evs. neutral e \<or> st = Approved \<and> e = MaterializeMinted c n i to m
      \<or> st = Rejected \<and> e = ProposalRejected c n)"
  from ev assms(4,5) have "st = Approved" by auto
  with st p have "vote_threshold s \<le> card (set (votes_for p))" by (auto simp: fair_votes_def distinct_card)
  moreover have "history bridge_exec admitted (bridge_genesis l) s'"
    by (rule history.call [OF assms(1,2)]) (simp add: assms(3))
  then have "vote_cast admitted (bridge_genesis l) s' c n ?call w" if "w \<in> set (votes_for p)" for w
    by (rule votes_were_cast [OF _ bridge_genesis_votes_ok _ _ that]) (simp_all add: bridge_genesis_def s')
  ultimately show ?thesis using s' by simp
qed

definition bridge_pending :: "ref_ledger bridge_state" where
  "bridge_pending = run_calls bridge_exec (bridge_setup @ take 4 bridge_script)
     (bridge_genesis \<lparr>lg_balance = (\<lambda>a w. 0), lg_issuance = (\<lambda>a. 0)\<rparr>)"

theorem arrival_needs_votes_witness:
  "\<exists>s' p. materialize (bridge_env 4) bridge_pending (Signed 13) 7 4 21 6 700 True = Inr s' \<and>
    proposal_votes s' 7 (4, \<lparr>mc_bridge_token_id = 21, mc_to = 6, mc_amount = 700\<rparr>) = Some p \<and> 3 \<le> card (set (votes_for p)) \<and>
    vote_cast (\<lambda>_. True) (bridge_genesis \<lparr>lg_balance = (\<lambda>a w. 0), lg_issuance = (\<lambda>a. 0)\<rparr>) s' 7 4
      \<lparr>mc_bridge_token_id = 21, mc_to = 6, mc_amount = 700\<rparr> 13"
proof -
  have h: "history bridge_exec (\<lambda>_. True) (bridge_genesis \<lparr>lg_balance = (\<lambda>a w. 0), lg_issuance = (\<lambda>a. 0)\<rparr>) bridge_pending"
    unfolding bridge_pending_def by (rule run_calls_history) simp
  have t: "vote_threshold bridge_pending = 3"
    by (simp add: bridge_pending_def bridge_setup_def bridge_script_def bridge_eval)
  have "\<exists>s' p. materialize (bridge_env 4) bridge_pending (Signed 13) 7 4 21 6 700 True = Inr s' \<and>
      br_events s' = br_events bridge_pending @ [MaterializeVoteFor 7 4 13 21 6 700, ProposalApproved 7 4, MaterializeMinted 7 4 21 6 700] \<and>
      proposal_votes s' 7 (4, \<lparr>mc_bridge_token_id = 21, mc_to = 6, mc_amount = 700\<rparr>) = Some p \<and> 13 \<in> set (votes_for p)"
    by (simp add: bridge_pending_def bridge_setup_def bridge_script_def bridge_eval)
  then obtain s' p where s': "materialize (bridge_env 4) bridge_pending (Signed 13) 7 4 21 6 700 True = Inr s'"
    "br_events s' = br_events bridge_pending @ [MaterializeVoteFor 7 4 13 21 6 700, ProposalApproved 7 4, MaterializeMinted 7 4 21 6 700]"
    and p: "proposal_votes s' 7 (4, \<lparr>mc_bridge_token_id = 21, mc_to = 6, mc_amount = 700\<rparr>) = Some p" "13 \<in> set (votes_for p)"
    by blast
  from arrival_needs_votes [OF h _ s'] t s'(1) p show ?thesis by auto
qed

text \<open>C29. A proposal that the members support goes through: when nobody has voted on a call yet, it can be voted on, and the
  ledger accepts its payment (of a call that earns no bonus), and as many different relay members as the positive threshold asks
  for vote for it, all their votes are accepted, the last one executes the call, and its nonce is closed.  This holds for every
  nonce that can be recorded: any in an empty registry, otherwise any from one up to, but not including, the largest number, and
  zero when every interval starts at one.  With any other nonce the last vote panics.\<close>

theorem supported_call_executes:
  assumes "pending C s c n call []" and "set ws \<subseteq> set (br_relay_members C)" and "distinct ws"
    and "length ws = vote_threshold s" and "0 < vote_threshold s" and "vote_threshold s \<le> u32_max"
    and "bridge_registry s c = Some registry" and "registry_wf registry" and "payable C s call"
  shows "if registry = [] \<or> n < u64_max \<and> (n = 0 \<longrightarrow> fst ` set registry \<subseteq> {1})
    then \<exists>s'. all_vote C c n call ws s = Inr s' \<and> has_bridged s' c n \<and>
      MaterializeMinted c n (mc_bridge_token_id call) (mc_to call) (mc_amount call) \<in> set (br_events s')
    else all_vote C c n call ws s = Inl Panic"
proof -
  have eq: "(registry = [] \<or> n < u64_max \<and> (n = 0 \<longrightarrow> fst ` set registry \<subseteq> {1})) = can_register registry n"
    by (rule can_register_iff [symmetric])
  have "decided registry c n call (all_vote C c n call ws s)"
  proof (rule all_vote_completes [OF assms(1,2)])
    show "ws \<noteq> []" using assms(4,5) by auto
    show "valid_intervals registry" using assms(8) by (simp add: registry_wf_def)
  qed (use assms in simp_all)
  then show ?thesis unfolding eq by (simp add: decided_def)
qed

theorem supported_call_executes_witness:
  "\<exists>s'. all_vote (bridge_env 3) 7 4 \<lparr>mc_bridge_token_id = 21, mc_to = 6, mc_amount = 700\<rparr> [13, 11, 12] bridge_ready = Inr s' \<and>
    has_bridged s' 7 4"
proof -
  let ?call = "\<lparr>mc_bridge_token_id = 21, mc_to = 6, mc_amount = 700\<rparr>"
  have p: "pending (bridge_env 3) bridge_ready 7 4 ?call []"
    by (simp add: pending_def opened_def bridge_ready_eval bridge_eval)
  have q: "payable (bridge_env 3) bridge_ready ?call"
    by (simp add: payable_def bridge_ready_eval bridge_eval is_ok_def)
  have "set [13, 11, 12] \<subseteq> set (br_relay_members (bridge_env 3))" by (simp add: bridge_env_def)
  from supported_call_executes [OF p this _ _ _ _ _ _ q, of "[]"] show ?thesis
    by (auto simp: bridge_ready_eval registry_wf_def)
qed

lemma percent_ceil:
  fixes x :: nat
  shows "x \<le> 100 * ((10000 * x + 999999) div PM)" and "x \<le> 100 * j \<Longrightarrow> (10000 * x + 999999) div PM \<le> j"
proof -
  define d r where "d = (10000 * x + 999999) div PM" and "r = (10000 * x + 999999) mod PM"
  have "10000 * x + 999999 = PM * d + r" "r < PM" unfolding d_def r_def by (simp_all del: div_mult_self3)
  then show "x \<le> 100 * ((10000 * x + 999999) div PM)" unfolding d_def [symmetric] by linarith
  assume "x \<le> 100 * j"
  then have "10000 * x \<le> PM * j" by linarith
  with \<open>10000 * x + 999999 = PM * d + r\<close> have "PM * d \<le> PM * j + 999999" by linarith
  then show "(10000 * x + 999999) div PM \<le> j" unfolding d_def [symmetric] by linarith
qed

text \<open>The threshold is the smallest number of members that is at least the configured percentage of all members; setting it never
  fails as long as there is a member and the percentage is positive, so the check that follows its computation is redundant.\<close>

theorem threshold_is_least:
  assumes "bridge_arith_laws (br_arith C)" and "0 < get_members_count C"
    and "0 < br_threshold_percentage C" and "br_threshold_percentage C \<le> 100"
  shows "\<exists>k. change_vote_threshold C s = Inr (s\<lparr>vote_threshold := k, br_events := br_events s @ [VoteThresholdUpdated k]\<rparr>) \<and>
    k \<le> get_members_count C \<and>
    br_threshold_percentage C * get_members_count C \<le> 100 * k \<and>
    (\<forall>j. br_threshold_percentage C * get_members_count C \<le> 100 * j \<longrightarrow> k \<le> j)"
proof -
  define q where "q = br_threshold_percentage C"
  define m where "m = get_members_count C"
  have qm: "0 < q" "q \<le> 100" "0 < m" using assms by (simp_all add: q_def m_def)
  define k where "k = (10000 * (q * m) + 999999) div PM"
  have eq: "pm_mul_ceil (br_arith C) (pm_from_percent (br_arith C) q) m = k"
    using assms(1) qm unfolding k_def by (simp add: bridge_arith_laws_def mult.assoc mult.left_commute)
  have up: "q * m \<le> 100 * k" unfolding k_def by (rule percent_ceil(1))
  have least: "k \<le> j" if "q * m \<le> 100 * j" for j using that unfolding k_def by (rule percent_ceil(2))
  have km: "k \<le> m" by (rule least) (use qm in simp)
  have "0 < q * m" using qm by simp
  with up have pos: "0 < k" by linarith
  have "q * 10000 * m \<le> k * PM" using mult_le_mono2 [OF up, of 10000] by (simp only: ac_simps)
  then have "q * 10000 \<le> k * PM div m" using qm by (simp add: less_eq_div_iff_mult_less_eq)
  then have "ensure_valid_threshold C k m = Inr ()"
    using assms(1) qm km pos by (simp add: ensure_valid_threshold_def bridge_arith_laws_def q_def [symmetric] max_def)
  then have "change_vote_threshold C s = Inr (s\<lparr>vote_threshold := k, br_events := br_events s @ [VoteThresholdUpdated k]\<rparr>)"
    by (simp add: change_vote_threshold_def eq q_def [symmetric] m_def [symmetric] br_deposit_event_def Let_def)
  with km up least show ?thesis unfolding q_def [symmetric] m_def [symmetric] by blast
qed

theorem threshold_is_least_witness:
  "\<exists>k. change_vote_threshold (bridge_env 1) bridge_final =
      Inr (bridge_final\<lparr>vote_threshold := k, br_events := br_events bridge_final @ [VoteThresholdUpdated k]\<rparr>) \<and> 80 * 3 \<le> 100 * k \<and> k \<le> 3"
proof -
  have "bridge_arith_laws (br_arith (bridge_env 1))"
    by (simp add: bridge_arith_laws_def bridge_env_def bridge_arith_ref_def sp_arith.extend_def sp_arith_ref_def)
  moreover have "get_members_count (bridge_env 1) = 3" "br_threshold_percentage (bridge_env 1) = 80"
    by (simp_all add: get_members_count_def bridge_env_def)
  ultimately show ?thesis using threshold_is_least [of "bridge_env 1" bridge_final] by auto
qed

section \<open>Backing\<close>

text \<open>C5. The supply of an external token is backed: whatever happens between two moments, its issuance on this chain grows by
  no more than what arrived less what left, as long as the token stays registered and nobody else mints it.  The fees are part of what
  stays on this chain.\<close>

theorem external_supply_backed:
  assumes "history bridge_exec (supply_admitted F i a) s s'" and "has_token i a True s"
  shows "int (ft_total_issuance F (br_ledger s') a) - int (ft_total_issuance F (br_ledger s) a) \<le>
    net_arrivals i (br_events s') - net_arrivals i (br_events s)"
  using bridge_supply.history_rel [OF assms] by (simp add: unbacked_def)

theorem external_supply_backed_witness:
  "int (ft_total_issuance fungibles_ref (br_ledger bridge_final) 3) - int (ft_total_issuance fungibles_ref (br_ledger bridge_ready) 3) \<le>
    net_arrivals 21 (br_events bridge_final) - net_arrivals 21 (br_events bridge_ready) \<and>
   net_arrivals 21 (br_events bridge_final) - net_arrivals 21 (br_events bridge_ready) = 410"
proof
  have "history bridge_exec (supply_admitted fungibles_ref 21 3) bridge_ready bridge_final"
    by (rule bridge_final_reached) (simp add: bridge_admission)
  from external_supply_backed [OF this bridge_ready_token(1)]
  show "int (ft_total_issuance fungibles_ref (br_ledger bridge_final) 3) - int (ft_total_issuance fungibles_ref (br_ledger bridge_ready) 3) \<le>
    net_arrivals 21 (br_events bridge_final) - net_arrivals 21 (br_events bridge_ready)" .
  show "net_arrivals 21 (br_events bridge_final) - net_arrivals 21 (br_events bridge_ready) = 410"
    by (simp add: bridge_final_eval bridge_ready_eval)
qed

text \<open>C6. The units of a locked token that are abroad are held by the pallet: between two moments the balance of the
  pallet's account grows at least by what left less what arrived, plus the fees (an asset whose minimum balance is at most one
  unit, while the token stays registered).\<close>

theorem locked_token_held:
  assumes "history bridge_exec (custody_admitted F P i a) s s'" and "has_token i a False s"
  shows "int (ft_balance F (br_ledger s) a P) + (net_arrivals i (br_events s) - net_arrivals i (br_events s')) +
      (fees_charged i (br_events s') - fees_charged i (br_events s)) \<le> int (ft_balance F (br_ledger s') a P)"
  using bridge_custody.history_rel [OF assms] by (simp add: uncommitted_def)

theorem locked_token_held_witness:
  "990 + 10 \<le> int (ft_balance fungibles_ref (br_ledger bridge_final) 2 99)"
proof -
  have "history bridge_exec (custody_admitted fungibles_ref 99 22 2) bridge_ready bridge_final"
    by (rule bridge_final_reached) (simp add: bridge_admission)
  from locked_token_held [OF this bridge_ready_token(2)] show ?thesis
    by (simp add: bridge_final_eval bridge_ready_eval fungibles_ref_def)
qed

section \<open>Values\<close>

text \<open>C31. Well-typed storage: when the arguments of calls are within the widths of their types, the threshold stays within
  32 bits, the nonces within 64 bits, amounts, caps and fees within 128 bits, and every registry is a sorted list of
  disjoint intervals of 64-bit nonces.\<close>

theorem bridge_storage_typed:
  assumes "history bridge_exec action_typed (bridge_genesis l) s"
  shows "vote_threshold s \<le> u32_max \<and> (\<forall>c n. chain_nonces s c = Some n \<longrightarrow> n \<le> u64_max) \<and>
    (\<forall>c registry. bridge_registry s c = Some registry \<longrightarrow> registry_wf registry \<and> nonces_of registry \<subseteq> {..u64_max}) \<and>
    (\<forall>a t. bridge_tokens s a = Some t \<longrightarrow> out_amount t \<le> u128_max \<and> in_amount t \<le> u128_max \<and> bt_fee t \<le> u128_max)"
  using bridge_typing.history_inv [OF assms bridge_genesis_typed]
  by (auto simp: bridge_typed_def registry_typed_def token_typed_def ran_def)

theorem bridge_storage_typed_witness:
  "vote_threshold bridge_final \<le> u32_max \<and> registry_wf [(4, 4)]"
proof -
  have "history bridge_exec action_typed (bridge_genesis \<lparr>lg_balance = (\<lambda>a w. 0), lg_issuance = (\<lambda>a. 0)\<rparr>) bridge_final"
    by (rule bridge_script_reached) (simp add: bridge_admission)
  from bridge_storage_typed [OF this] bridge_final_eval(4) show ?thesis by auto
qed

section \<open>The bonus\<close>

text \<open>A gift account that holds the bonus but not the existential deposit on top of it blocks arrivals: the code compares the
  reducible balance with the bonus alone and then transfers the bonus plus the existential deposit less what the beneficiary has,
  so the transfer fails and with it the execution of the call.\<close>

theorem short_gift_account_blocks:
  assumes "fungibles_laws (br_assets C)" and "br_gift_convert C amount a = Some g" and "0 < g"
    and "g \<le> ft_reducible_balance (br_assets C) (br_ledger s) (br_native C) (br_gift_account C) False"
    and "ft_reducible_balance (br_assets C) (br_ledger s) (br_native C) who True = b" and "b < g" and "who \<noteq> br_gift_account C"
    and "ft_balance (br_assets C) (br_ledger s) (br_native C) (br_gift_account C) < br_existential_deposit C + g - b"
  shows "\<exists>e. grant_incentive_bonus C s who a amount = Inl e"
proof (cases "grant_incentive_bonus C s who a amount")
  case (Inr s')
  with assms obtain l where "ft_transfer (br_assets C) (br_ledger s) (br_native C) (br_gift_account C) who
      (br_existential_deposit C + g - b) False = Inr l"
    by (auto simp: grant_incentive_bonus_def Let_def elim!: br_lift_InrE)
  with fungibles_lawsD(1) [OF assms(1) this] assms(7,8) show ?thesis by simp
qed simp

theorem short_gift_account_blocks_witness:
  "\<exists>e. grant_incentive_bonus (bridge_env 1)
    (bridge_final\<lparr>br_ledger := \<lparr>lg_balance = (\<lambda>a w. 0)(0 := (\<lambda>w. 0)(88 := 70)), lg_issuance = (\<lambda>a. 0)\<rparr>\<rparr>) 6 3 5000 = Inl e"
  by (rule short_gift_account_blocks [of "bridge_env 1" 5000 3 65 _ 6 0])
    (simp_all add: bridge_env_def, simp_all add: fungibles_ref_def)

end
