(* ===== verification/Relay_Calls.thy ===== *)
theory Relay_Calls
  imports Parallel_Prelude
begin

text \<open>
  The calls of the relay chain that the pallets send in messages (src/pallets/traits/src/ump.rs).

  The two enums \<open>KusamaCall\<close> and \<open>PolkadotCall\<close> have the same variants with different codec indices, and
  the macro \<open>switch_relay\<close> instantiates its code with the one or the other: here they are one datatype, and
  the encoding takes the network.  A struct of the source is a datatype with one constructor, since the
  calls nest.  The encodings of the field types belong to the codec library and are the fields of
  \<open>relay_codec\<close>; what the derive macro adds to them, the index bytes and the order of the fields, is
  written out from the annotations of the source.
\<close>

section \<open>Data\<close>

type_synonym lookup_source = nat
type_synonym para_id = nat

datatype reward_destination = Staked | Stash | Controller | RewardAccount account_id | RewardNone

datatype staking_bond_call = StakingBondCall lookup_source balance reward_destination
datatype staking_bond_extra_call = StakingBondExtraCall balance
datatype staking_unbond_call = StakingUnbondCall balance
datatype staking_rebond_call = StakingRebondCall balance
datatype staking_withdraw_unbonded_call = StakingWithdrawUnbondedCall nat
datatype staking_nominate_call = StakingNominateCall "lookup_source list"
datatype staking_payout_stakers_call = StakingPayoutStakersCall account_id nat

datatype staking_call =
    Bond staking_bond_call
  | BondExtra staking_bond_extra_call
  | Unbond staking_unbond_call
  | WithdrawUnbonded staking_withdraw_unbonded_call
  | Nominate staking_nominate_call
  | PayoutStakers staking_payout_stakers_call
  | Rebond staking_rebond_call

datatype balances_transfer_keep_alive_call = BalancesTransferKeepAliveCall lookup_source balance
datatype balances_transfer_all_call = BalancesTransferAllCall lookup_source bool

datatype balances_call =
    TransferKeepAlive balances_transfer_keep_alive_call
  | TransferAll balances_transfer_all_call

datatype crowdloans_contribute_call = CrowdloansContributeCall para_id balance "nat option"
datatype crowdloans_withdraw_call = CrowdloansWithdrawCall account_id para_id
datatype crowdloans_add_memo_call = CrowdloansAddMemoCall para_id "nat list"

datatype crowdloans_call =
    Contribute crowdloans_contribute_call
  | Withdraw crowdloans_withdraw_call
  | AddMemo crowdloans_add_memo_call

datatype system_remark_call = SystemRemarkCall "nat list"
datatype system_call = Remark system_remark_call

datatype proxy_type = ProxyAny | NonTransfer | Governance | ProxyStaking

datatype 'c proxy_proxy_call = ProxyProxyCall account_id "proxy_type option" 'c
datatype proxy_add_proxy_call = ProxyAddProxyCall account_id "proxy_type option" block_number
datatype proxy_remove_proxy_call = ProxyRemoveProxyCall account_id "proxy_type option" block_number

datatype 'c proxy_call =
    Proxy "'c proxy_proxy_call"
  | AddProxy proxy_add_proxy_call
  | RemoveProxy proxy_remove_proxy_call

datatype 'c utility_as_derivative_call = UtilityAsDerivativeCall nat 'c
datatype 'c utility_batch_all_call = UtilityBatchAllCall "'c list"

datatype 'c utility_call =
    AsDerivative "'c utility_as_derivative_call"
  | BatchAll "'c utility_batch_all_call"

datatype relaychain_call =
    SystemC system_call
  | BalancesC balances_call
  | StakingC staking_call
  | ProxyC "relaychain_call proxy_call"
  | UtilityC "relaychain_call utility_call"
  | CrowdloansC crowdloans_call

datatype network_id = Polkadot | Kusama | OtherNetwork nat

section \<open>Encoding\<close>

text \<open>Bytes are numbers; the field types are encoded by the codec library.\<close>

type_synonym bytes = "nat list"

record relay_codec =
  cd_account :: "account_id \<Rightarrow> bytes"
  cd_source :: "lookup_source \<Rightarrow> bytes"
  cd_compact :: "nat \<Rightarrow> bytes"
  cd_u16 :: "nat \<Rightarrow> bytes"
  cd_u32 :: "nat \<Rightarrow> bytes"
  cd_signature :: "nat \<Rightarrow> bytes"

definition encode_bool :: "bool \<Rightarrow> bytes" where
  "encode_bool b = [if b then 1 else 0]"

definition encode_option :: "('a \<Rightarrow> bytes) \<Rightarrow> 'a option \<Rightarrow> bytes" where
  "encode_option e x = (case x of None \<Rightarrow> [0] | Some v \<Rightarrow> 1 # e v)"

definition encode_vec :: "relay_codec \<Rightarrow> ('a \<Rightarrow> bytes) \<Rightarrow> 'a list \<Rightarrow> bytes" where
  "encode_vec K e xs = cd_compact K (length xs) @ concat (map e xs)"

definition encode_reward_destination :: "relay_codec \<Rightarrow> reward_destination \<Rightarrow> bytes" where
  "encode_reward_destination K d =
     (case d of Staked \<Rightarrow> [0] | Stash \<Rightarrow> [1] | Controller \<Rightarrow> [2] | RewardAccount a \<Rightarrow> 3 # cd_account K a | RewardNone \<Rightarrow> [4])"

definition encode_proxy_type :: "proxy_type \<Rightarrow> bytes" where
  "encode_proxy_type t = (case t of ProxyAny \<Rightarrow> [0] | NonTransfer \<Rightarrow> [1] | Governance \<Rightarrow> [2] | ProxyStaking \<Rightarrow> [3])"

fun encode_staking_call :: "relay_codec \<Rightarrow> staking_call \<Rightarrow> bytes" where
  "encode_staking_call K (Bond (StakingBondCall c v p)) =
     0 # cd_source K c @ cd_compact K v @ encode_reward_destination K p"
| "encode_staking_call K (BondExtra (StakingBondExtraCall v)) = 1 # cd_compact K v"
| "encode_staking_call K (Unbond (StakingUnbondCall v)) = 2 # cd_compact K v"
| "encode_staking_call K (WithdrawUnbonded (StakingWithdrawUnbondedCall n)) = 3 # cd_u32 K n"
| "encode_staking_call K (Nominate (StakingNominateCall ts)) = 5 # encode_vec K (cd_source K) ts"
| "encode_staking_call K (PayoutStakers (StakingPayoutStakersCall a era)) = 18 # cd_account K a @ cd_u32 K era"
| "encode_staking_call K (Rebond (StakingRebondCall v)) = 19 # cd_compact K v"

fun encode_balances_call :: "relay_codec \<Rightarrow> balances_call \<Rightarrow> bytes" where
  "encode_balances_call K (TransferKeepAlive (BalancesTransferKeepAliveCall d v)) = 3 # cd_source K d @ cd_compact K v"
| "encode_balances_call K (TransferAll (BalancesTransferAllCall d k)) = 4 # cd_source K d @ encode_bool k"

fun encode_crowdloans_call :: "relay_codec \<Rightarrow> crowdloans_call \<Rightarrow> bytes" where
  "encode_crowdloans_call K (Contribute (CrowdloansContributeCall i v sg)) =
     1 # cd_compact K i @ cd_compact K v @ encode_option (cd_signature K) sg"
| "encode_crowdloans_call K (Withdraw (CrowdloansWithdrawCall w i)) = 2 # cd_account K w @ cd_compact K i"
| "encode_crowdloans_call K (AddMemo (CrowdloansAddMemoCall i memo)) =
     6 # cd_u32 K i @ encode_vec K (\<lambda>b. [b]) memo"

fun encode_system_call :: "relay_codec \<Rightarrow> system_call \<Rightarrow> bytes" where
  "encode_system_call K (Remark (SystemRemarkCall r)) = 1 # encode_vec K (\<lambda>b. [b]) r"

text \<open>The nested calls are encoded already when these two are applied.\<close>

fun encode_proxy_call :: "relay_codec \<Rightarrow> bytes proxy_call \<Rightarrow> bytes" where
  "encode_proxy_call K (Proxy (ProxyProxyCall real force call)) =
     0 # cd_account K real @ encode_option encode_proxy_type force @ call"
| "encode_proxy_call K (AddProxy (ProxyAddProxyCall d t n)) =
     1 # cd_account K d @ encode_option encode_proxy_type t @ cd_u32 K n"
| "encode_proxy_call K (RemoveProxy (ProxyRemoveProxyCall d t n)) =
     2 # cd_account K d @ encode_option encode_proxy_type t @ cd_u32 K n"

fun encode_utility_call :: "relay_codec \<Rightarrow> bytes utility_call \<Rightarrow> bytes" where
  "encode_utility_call K (AsDerivative (UtilityAsDerivativeCall i call)) = 1 # cd_u16 K i @ call"
| "encode_utility_call K (BatchAll (UtilityBatchAllCall calls)) = 2 # encode_vec K id calls"

definition balances_index :: "network_id \<Rightarrow> nat" where
  "balances_index N = (if N = Polkadot then 5 else 4)"

definition staking_index :: "network_id \<Rightarrow> nat" where
  "staking_index N = (if N = Polkadot then 7 else 6)"

definition proxy_index :: "network_id \<Rightarrow> nat" where
  "proxy_index N = (if N = Polkadot then 29 else 22)"

definition utility_index :: "network_id \<Rightarrow> nat" where
  "utility_index N = (if N = Polkadot then 26 else 24)"

primrec encode_relaychain_call :: "relay_codec \<Rightarrow> network_id \<Rightarrow> relaychain_call \<Rightarrow> bytes" where
  "encode_relaychain_call K N (SystemC c) = 0 # encode_system_call K c"
| "encode_relaychain_call K N (BalancesC c) = balances_index N # encode_balances_call K c"
| "encode_relaychain_call K N (StakingC c) = staking_index N # encode_staking_call K c"
| "encode_relaychain_call K N (ProxyC c) =
     proxy_index N # encode_proxy_call K (map_proxy_call (encode_relaychain_call K N) c)"
| "encode_relaychain_call K N (UtilityC c) =
     utility_index N # encode_utility_call K (map_utility_call (encode_relaychain_call K N) c)"
| "encode_relaychain_call K N (CrowdloansC c) = 73 # encode_crowdloans_call K c"

end
