(* ===== verification/Xcm_Helper.thy ===== *)
theory Xcm_Helper
  imports Relay_Calls Fungibles
begin

text \<open>
  The helper that sends calls to the relay chain (src/pallets/xcm-helper/src/lib.rs).

  Every operation burns the fee of its kind of call from the pallet's account, builds the message that
  makes the relay chain execute the call, registers a query for the outcome and sends the message.

  The ledger, the query registry of \<open>pallet_xcm\<close> and the message sender are outside of the repository.
  The last two work on one state \<open>'q\<close>: \<open>xh_new_notify_query\<close> returns the identifier of a new query and
  \<open>xh_send\<close> delivers a message or fails.  A location is one of the two the code names or opaque, and the
  call to make when the outcome arrives is named by a string.
\<close>

section \<open>Data\<close>

type_synonym query_id = nat
type_synonym xcm_weight = "nat \<times> nat"
type_synonym notify_call = string

datatype multi_location = Here | Parent | OtherLocation nat

type_synonym multi_asset = "multi_location \<times> balance"

datatype xcm_call =
    XBond | XBondExtra | XUnbond | XRebond | XWithdrawUnbonded | XNominate | XContribute | XWithdraw | XAddMemo
  | XTransferToSiblingchain multi_location | XProxy | XAddProxy | XRemoveProxy

record xcm_weight_fee_misc =
  xw_weight :: xcm_weight
  xw_fee :: balance

definition default_xcm_weight_fee_misc :: xcm_weight_fee_misc where
  "default_xcm_weight_fee_misc = \<lparr>xw_weight = (20000000000, 64 * 1024), xw_fee = 15000000000\<rparr>"

datatype weight_limit = Unlimited | Limited xcm_weight

datatype origin_kind = SovereignAccount

datatype xcm_instruction =
    WithdrawAsset multi_asset
  | BuyExecution multi_asset weight_limit
  | Transact origin_kind xcm_weight bytes
  | RefundSurplus
  | DepositAsset multi_asset multi_location
  | ReportError multi_location query_id xcm_weight
  | SetAppendix "xcm_instruction list"

datatype xcm_error =
    MultiLocationNotInvertible | ZeroXcmWeightMisc | ZeroXcmFees | InsufficientXcmFees | SendFailure
  | ConvertAccountError

type_synonym xcm_dispatch_error = "xcm_error dispatch_error"

datatype xcm_event = XcmWeightFeeUpdated xcm_weight_fee_misc

record ('l, 'q) xcm_state =
  xcm_weight_fees :: "xcm_call \<rightharpoonup> xcm_weight_fee_misc"
  xh_ledger :: 'l
  xh_queries :: 'q
  xh_events :: "xcm_event list"

record ('l, 'q) xcm_config =
  xh_assets :: "(nat, 'l) fungibles"
  xh_network :: network_id
  xh_pallet_account :: account_id
  xh_refund_account :: account_id
  xh_account_location :: "account_id \<Rightarrow> multi_location"
  xh_notify_timeout :: block_number
  xh_update_origin :: "origin \<Rightarrow> bool"
  xh_relay_currency :: currency_id
  xh_codec :: relay_codec
  xh_unlookup :: "account_id \<Rightarrow> lookup_source"
  xh_account_of :: "account_id \<Rightarrow> account_id option"
  xh_invert_target :: "multi_location \<Rightarrow> multi_location option"
  xh_call_weight :: "notify_call \<Rightarrow> xcm_weight"
  xh_new_notify_query :: "'q \<Rightarrow> multi_location \<Rightarrow> notify_call \<Rightarrow> block_number \<Rightarrow> multi_location \<Rightarrow> query_id \<times> 'q"
  xh_send :: "'q \<Rightarrow> multi_location \<Rightarrow> xcm_instruction list \<Rightarrow> nat + 'q"

section \<open>The call\<close>

definition xcm_weight_fee :: "('l, 'q) xcm_state \<Rightarrow> xcm_call \<Rightarrow> xcm_weight_fee_misc" where
  "xcm_weight_fee s k = (case xcm_weight_fees s k of None \<Rightarrow> default_xcm_weight_fee_misc | Some m \<Rightarrow> m)"

definition update_xcm_weight_fee ::
    "('l, 'q) xcm_config \<Rightarrow> ('l, 'q) xcm_state \<Rightarrow> origin \<Rightarrow> xcm_call \<Rightarrow> xcm_weight_fee_misc
     \<Rightarrow> xcm_dispatch_error + ('l, 'q) xcm_state" where
  "update_xcm_weight_fee C s o' k m =
     bindE (ensure_origin (xh_update_origin C) o') (\<lambda>_.
     bindE (ensure (xw_fee m \<noteq> 0) (Module ZeroXcmFees)) (\<lambda>_.
     bindE (ensure (xw_weight m \<noteq> (0, 0)) (Module ZeroXcmWeightMisc)) (\<lambda>_.
     Inr (s\<lparr>xcm_weight_fees := (xcm_weight_fees s)(k \<mapsto> m),
            xh_events := xh_events s @ [XcmWeightFeeUpdated m]\<rparr>))))"

section \<open>Messages\<close>

definition xcm_account_id :: "('l, 'q) xcm_config \<Rightarrow> account_id" where
  "xcm_account_id C = xh_pallet_account C"

definition refund_location :: "('l, 'q) xcm_config \<Rightarrow> multi_location" where
  "refund_location C = xh_account_location C (xh_refund_account C)"

text \<open>\<open>Vec::insert\<close>, which panics past the end.\<close>

definition vec_insert :: "nat \<Rightarrow> 'a \<Rightarrow> 'a list \<Rightarrow> 'm dispatch_error + 'a list" where
  "vec_insert i x xs = bindE (ensure (i \<le> length xs) Panic) (\<lambda>_. Inr (take i xs @ x # drop i xs))"

definition report_outcome_notify ::
    "('l, 'q) xcm_config \<Rightarrow> ('l, 'q) xcm_state \<Rightarrow> xcm_instruction list \<Rightarrow> multi_location \<Rightarrow> notify_call \<Rightarrow> block_number
     \<Rightarrow> xcm_dispatch_error + query_id \<times> xcm_instruction list \<times> ('l, 'q) xcm_state" where
  "report_outcome_notify C s message responder notify timeout =
     bindE (ok_or (xh_invert_target C responder) (Module MultiLocationNotInvertible)) (\<lambda>destination.
     let max_weight = xh_call_weight C notify;
         (query_id, q) = xh_new_notify_query C (xh_queries s) responder notify timeout Here;
         report_error = [ReportError destination query_id max_weight] in
     bindE (vec_insert 2 (SetAppendix report_error) message) (\<lambda>message.
     Inr (query_id, message, s\<lparr>xh_queries := q\<rparr>)))"

definition get_xcm_weight_fee_to_sibling :: "('l, 'q) xcm_state \<Rightarrow> multi_location \<Rightarrow> xcm_weight_fee_misc" where
  "get_xcm_weight_fee_to_sibling s location = xcm_weight_fee s (XTransferToSiblingchain location)"

definition append_transact ::
    "xcm_instruction list \<Rightarrow> bytes \<Rightarrow> xcm_weight \<Rightarrow> xcm_dispatch_error + xcm_instruction list" where
  "append_transact message call weight = vec_insert 3 (Transact SovereignAccount weight call) message"

definition add_xcm_fees ::
    "('l, 'q) xcm_config \<Rightarrow> ('l, 'q) xcm_state \<Rightarrow> account_id \<Rightarrow> balance \<Rightarrow> xcm_dispatch_error + ('l, 'q) xcm_state" where
  "add_xcm_fees C s payer amount =
     bindE (map_err External (ft_transfer (xh_assets C) (xh_ledger s) (xh_relay_currency C) payer (xcm_account_id C) amount False)) (\<lambda>l.
     Inr (s\<lparr>xh_ledger := l\<rparr>))"

definition do_ump_transact ::
    "('l, 'q) xcm_config \<Rightarrow> ('l, 'q) xcm_state \<Rightarrow> bytes \<Rightarrow> xcm_weight \<Rightarrow> multi_location \<Rightarrow> balance
     \<Rightarrow> xcm_dispatch_error + xcm_instruction list \<times> ('l, 'q) xcm_state" where
  "do_ump_transact C s call weight beneficiary fees =
     (let asset = (Here, fees) in
      bindE (map_err (\<lambda>_. Module InsufficientXcmFees)
          (ft_burn_from (xh_assets C) (xh_ledger s) (xh_relay_currency C) (xcm_account_id C) fees)) (\<lambda>l.
      Inr ([WithdrawAsset asset, BuyExecution asset Unlimited, Transact SovereignAccount weight call,
            RefundSurplus, DepositAsset asset beneficiary],
           s\<lparr>xh_ledger := l\<rparr>)))"

section \<open>Calls to the relay chain\<close>

text \<open>
  \<open>switch_relay\<close> runs its code with the calls of the configured network and is unreachable on any other.
  Every operation ends with \<open>notify_and_send\<close>.
\<close>

definition switch_relay :: "('l, 'q) xcm_config \<Rightarrow> (network_id \<Rightarrow> xcm_dispatch_error + 'a) \<Rightarrow> xcm_dispatch_error + 'a" where
  "switch_relay C code =
     (if xh_network C = Polkadot then code Polkadot
      else if xh_network C = Kusama then code Kusama
      else Inl Panic)"

definition notify_and_send ::
    "('l, 'q) xcm_config \<Rightarrow> ('l, 'q) xcm_state \<Rightarrow> xcm_instruction list \<Rightarrow> notify_call
     \<Rightarrow> xcm_dispatch_error + query_id \<times> ('l, 'q) xcm_state" where
  "notify_and_send C s msg notify =
     bindE (report_outcome_notify C s msg Parent notify (xh_notify_timeout C)) (\<lambda>(query_id, msg, s).
     bindE (map_err (\<lambda>_. Module SendFailure) (xh_send C (xh_queries s) Parent msg)) (\<lambda>q.
     Inr (query_id, s\<lparr>xh_queries := q\<rparr>)))"

definition do_add_proxy ::
    "('l, 'q) xcm_config \<Rightarrow> ('l, 'q) xcm_state \<Rightarrow> account_id \<Rightarrow> proxy_type option \<Rightarrow> block_number \<Rightarrow> notify_call
     \<Rightarrow> xcm_dispatch_error + query_id \<times> ('l, 'q) xcm_state" where
  "do_add_proxy C s delegate proxy_type delay notify =
     (let m = xcm_weight_fee s XAddProxy in
      switch_relay C (\<lambda>N.
        let call = ProxyC (AddProxy (ProxyAddProxyCall delegate proxy_type delay)) in
        bindE (do_ump_transact C s (encode_relaychain_call (xh_codec C) N call) (xw_weight m) (refund_location C) (xw_fee m)) (\<lambda>(msg, s).
        notify_and_send C s msg notify)))"

definition do_remove_proxy ::
    "('l, 'q) xcm_config \<Rightarrow> ('l, 'q) xcm_state \<Rightarrow> account_id \<Rightarrow> proxy_type option \<Rightarrow> block_number \<Rightarrow> notify_call
     \<Rightarrow> xcm_dispatch_error + query_id \<times> ('l, 'q) xcm_state" where
  "do_remove_proxy C s delegate proxy_type delay notify =
     (let m = xcm_weight_fee s XRemoveProxy in
      switch_relay C (\<lambda>N.
        let call = ProxyC (RemoveProxy (ProxyRemoveProxyCall delegate proxy_type delay)) in
        bindE (do_ump_transact C s (encode_relaychain_call (xh_codec C) N call) (xw_weight m) (refund_location C) (xw_fee m)) (\<lambda>(msg, s).
        notify_and_send C s msg notify)))"

definition xcm_do_withdraw ::
    "('l, 'q) xcm_config \<Rightarrow> ('l, 'q) xcm_state \<Rightarrow> para_id \<Rightarrow> account_id \<Rightarrow> notify_call
     \<Rightarrow> xcm_dispatch_error + query_id \<times> ('l, 'q) xcm_state" where
  "xcm_do_withdraw C s para_id para_account_id notify =
     (let m = xcm_weight_fee s XWithdraw in
      switch_relay C (\<lambda>N.
        let call = CrowdloansC (Withdraw (CrowdloansWithdrawCall para_account_id para_id)) in
        bindE (do_ump_transact C s (encode_relaychain_call (xh_codec C) N call) (xw_weight m) (refund_location C) (xw_fee m)) (\<lambda>(msg, s).
        notify_and_send C s msg notify)))"

definition xcm_do_contribute ::
    "('l, 'q) xcm_config \<Rightarrow> ('l, 'q) xcm_state \<Rightarrow> para_id \<Rightarrow> balance \<Rightarrow> account_id \<Rightarrow> notify_call
     \<Rightarrow> xcm_dispatch_error + query_id \<times> ('l, 'q) xcm_state" where
  "xcm_do_contribute C s para_id amount who notify =
     (let m = xcm_weight_fee s XContribute in
      switch_relay C (\<lambda>N.
        let call = CrowdloansC (Contribute (CrowdloansContributeCall para_id amount None)) in
        bindE (do_ump_transact C s (encode_relaychain_call (xh_codec C) N call) (xw_weight m) (refund_location C) (xw_fee m)) (\<lambda>(msg, s).
        notify_and_send C s msg notify)))"

definition do_proxy_contribute ::
    "('l, 'q) xcm_config \<Rightarrow> ('l, 'q) xcm_state \<Rightarrow> para_id \<Rightarrow> balance \<Rightarrow> account_id \<Rightarrow> notify_call
     \<Rightarrow> xcm_dispatch_error + query_id \<times> ('l, 'q) xcm_state" where
  "do_proxy_contribute C s para_id amount who notify =
     (let m = xcm_weight_fee s XContribute in
      bindE (ok_or (xh_account_of C who) (Module ConvertAccountError)) (\<lambda>real.
      switch_relay C (\<lambda>N.
        let call = BalancesC (TransferKeepAlive (BalancesTransferKeepAliveCall (xh_unlookup C who) amount)) in
        bindE (do_ump_transact C s (encode_relaychain_call (xh_codec C) N call) (xw_weight m) (refund_location C) (xw_fee m)) (\<lambda>(msg, s).
        let call = ProxyC (Proxy (ProxyProxyCall real None
              (CrowdloansC (Contribute (CrowdloansContributeCall para_id amount None))))) in
        bindE (append_transact msg (encode_relaychain_call (xh_codec C) N call) (xw_weight m)) (\<lambda>msg.
        notify_and_send C s msg notify)))))"

definition do_bond ::
    "('l, 'q) xcm_config \<Rightarrow> ('l, 'q) xcm_state \<Rightarrow> balance \<Rightarrow> reward_destination \<Rightarrow> account_id \<Rightarrow> nat \<Rightarrow> notify_call
     \<Rightarrow> xcm_dispatch_error + query_id \<times> ('l, 'q) xcm_state" where
  "do_bond C s value payee stash index notify =
     (let controller = stash; m = xcm_weight_fee s XBond in
      switch_relay C (\<lambda>N.
        let call = BalancesC (TransferKeepAlive (BalancesTransferKeepAliveCall (xh_unlookup C stash) value)) in
        bindE (do_ump_transact C s (encode_relaychain_call (xh_codec C) N call) (xw_weight m) (refund_location C) (xw_fee m)) (\<lambda>(msg, s).
        let call = UtilityC (AsDerivative (UtilityAsDerivativeCall index
              (StakingC (Bond (StakingBondCall (xh_unlookup C controller) value payee))))) in
        bindE (append_transact msg (encode_relaychain_call (xh_codec C) N call) (xw_weight m)) (\<lambda>msg.
        notify_and_send C s msg notify))))"

definition do_bond_extra ::
    "('l, 'q) xcm_config \<Rightarrow> ('l, 'q) xcm_state \<Rightarrow> balance \<Rightarrow> account_id \<Rightarrow> nat \<Rightarrow> notify_call
     \<Rightarrow> xcm_dispatch_error + query_id \<times> ('l, 'q) xcm_state" where
  "do_bond_extra C s value stash index notify =
     (let m = xcm_weight_fee s XBondExtra in
      switch_relay C (\<lambda>N.
        let call = BalancesC (TransferKeepAlive (BalancesTransferKeepAliveCall (xh_unlookup C stash) value)) in
        bindE (do_ump_transact C s (encode_relaychain_call (xh_codec C) N call) (xw_weight m) (refund_location C) (xw_fee m)) (\<lambda>(msg, s).
        let call = UtilityC (AsDerivative (UtilityAsDerivativeCall index
              (StakingC (BondExtra (StakingBondExtraCall value))))) in
        bindE (append_transact msg (encode_relaychain_call (xh_codec C) N call) (xw_weight m)) (\<lambda>msg.
        notify_and_send C s msg notify))))"

definition do_unbond ::
    "('l, 'q) xcm_config \<Rightarrow> ('l, 'q) xcm_state \<Rightarrow> balance \<Rightarrow> nat \<Rightarrow> notify_call
     \<Rightarrow> xcm_dispatch_error + query_id \<times> ('l, 'q) xcm_state" where
  "do_unbond C s value index notify =
     (let m = xcm_weight_fee s XUnbond in
      switch_relay C (\<lambda>N.
        let call = UtilityC (AsDerivative (UtilityAsDerivativeCall index
              (StakingC (Unbond (StakingUnbondCall value))))) in
        bindE (do_ump_transact C s (encode_relaychain_call (xh_codec C) N call) (xw_weight m) (refund_location C) (xw_fee m)) (\<lambda>(msg, s).
        notify_and_send C s msg notify)))"

definition do_rebond ::
    "('l, 'q) xcm_config \<Rightarrow> ('l, 'q) xcm_state \<Rightarrow> balance \<Rightarrow> nat \<Rightarrow> notify_call
     \<Rightarrow> xcm_dispatch_error + query_id \<times> ('l, 'q) xcm_state" where
  "do_rebond C s value index notify =
     (let m = xcm_weight_fee s XRebond in
      switch_relay C (\<lambda>N.
        let call = UtilityC (AsDerivative (UtilityAsDerivativeCall index
              (StakingC (Rebond (StakingRebondCall value))))) in
        bindE (do_ump_transact C s (encode_relaychain_call (xh_codec C) N call) (xw_weight m) (refund_location C) (xw_fee m)) (\<lambda>(msg, s).
        notify_and_send C s msg notify)))"

definition do_withdraw_unbonded ::
    "('l, 'q) xcm_config \<Rightarrow> ('l, 'q) xcm_state \<Rightarrow> nat \<Rightarrow> account_id \<Rightarrow> nat \<Rightarrow> notify_call
     \<Rightarrow> xcm_dispatch_error + query_id \<times> ('l, 'q) xcm_state" where
  "do_withdraw_unbonded C s num_slashing_spans para_account_id index notify =
     (let m = xcm_weight_fee s XWithdrawUnbonded in
      switch_relay C (\<lambda>N.
        let call = UtilityC (AsDerivative (UtilityAsDerivativeCall index
              (StakingC (WithdrawUnbonded (StakingWithdrawUnbondedCall num_slashing_spans))))) in
        bindE (do_ump_transact C s (encode_relaychain_call (xh_codec C) N call) (xw_weight m) (refund_location C) (xw_fee m)) (\<lambda>(msg, s).
        let call = UtilityC (AsDerivative (UtilityAsDerivativeCall index
              (BalancesC (TransferAll (BalancesTransferAllCall (xh_unlookup C para_account_id) True))))) in
        bindE (append_transact msg (encode_relaychain_call (xh_codec C) N call) (xw_weight m)) (\<lambda>msg.
        notify_and_send C s msg notify))))"

definition do_nominate ::
    "('l, 'q) xcm_config \<Rightarrow> ('l, 'q) xcm_state \<Rightarrow> account_id list \<Rightarrow> nat \<Rightarrow> notify_call
     \<Rightarrow> xcm_dispatch_error + query_id \<times> ('l, 'q) xcm_state" where
  "do_nominate C s targets index notify =
     (let targets_source = map (xh_unlookup C) targets; m = xcm_weight_fee s XNominate in
      switch_relay C (\<lambda>N.
        let call = UtilityC (AsDerivative (UtilityAsDerivativeCall index
              (StakingC (Nominate (StakingNominateCall targets_source))))) in
        bindE (do_ump_transact C s (encode_relaychain_call (xh_codec C) N call) (xw_weight m) (refund_location C) (xw_fee m)) (\<lambda>(msg, s).
        notify_and_send C s msg notify)))"

end
