(* ===== verification/Crowdloans.thy ===== *)
theory Crowdloans
  imports Sp_Arith Xcm_Helper
begin

text \<open>
  The crowdloans pallet (src/pallets/crowdloans/src/lib.rs and types.rs).

  A vault collects contributions to the crowdloan of one parachain for one range of leases.  What an account
  has contributed is kept per vault in three child tries: pending (not yet sent to the relay chain),
  flying (sent, not confirmed) and contributed (confirmed).  The vault itself holds the three totals
  and moves through six phases.  After a won auction the contributors claim ctokens, and after the slot has
  expired the ctokens are redeemed; after a lost auction the contributions are paid back.

  The pallet works with four others, behind the configuration items \<open>T::Assets\<close>, \<open>T::XCM\<close>, \<open>T::Streaming\<close> and
  \<open>T::Loans\<close>.  They share one state \<open>'w\<close>, and \<open>'w crowdloans_config\<close> holds the operations the pallet calls
  on it.  Theory \<open>Crowdloans_Composition\<close> plugs in the models of those pallets.  The hash that derives the
  identifier of a child trie, the order of its keys, the block number of the relay chain and the members
  belong to the environment and are fields of the configuration too.
\<close>

section \<open>Data\<close>

type_synonym lease_period = nat
type_synonym vault_id = "lease_period \<times> lease_period"
type_synonym trie_index = nat
type_synonym referral_code = string

datatype vault_phase =
    VaultPending | VaultContributing | VaultClosed | VaultFailed | VaultSucceeded | VaultExpired

datatype contribution_strategy = StrategyXCM | StrategyXCMPROXY

record vault =
  v_ctoken :: currency_id
  v_phase :: vault_phase
  v_contributed :: balance
  v_pending :: balance
  v_flying :: balance
  v_strategy :: contribution_strategy
  v_cap :: balance
  v_end_block :: block_number
  v_trie_index :: trie_index
  v_lease_start :: lease_period
  v_lease_end :: lease_period

definition new_vault ::
    "lease_period \<Rightarrow> lease_period \<Rightarrow> currency_id \<Rightarrow> contribution_strategy \<Rightarrow> balance \<Rightarrow> block_number \<Rightarrow> trie_index \<Rightarrow> vault" where
  "new_vault lease_start lease_end ctoken strategy cap end_block trie_index =
     \<lparr>v_ctoken = ctoken, v_phase = VaultPending, v_contributed = 0, v_pending = 0, v_flying = 0,
      v_strategy = strategy, v_cap = cap, v_end_block = end_block, v_trie_index = trie_index,
      v_lease_start = lease_start, v_lease_end = lease_end\<rparr>"

datatype xcm_request =
    RequestContribute para_id vault_id account_id balance referral_code
  | RequestWithdraw para_id vault_id balance vault_phase

datatype child_storage_kind = KindPending | KindFlying | KindContributed

record bonus_config =
  bonus_per_token :: balance
  bonus_start_time :: timestamp
  bonus_end_time :: timestamp

definition default_bonus_config :: bonus_config where
  "default_bonus_config = \<lparr>bonus_per_token = 0, bonus_start_time = 0, bonus_end_time = 0\<rparr>"

definition bonus_check :: "bonus_config \<Rightarrow> bool" where
  "bonus_check b \<longleftrightarrow> bonus_end_time b > bonus_start_time b"

datatype arithmetic_kind = Addition | Subtraction

datatype xcm_response = ExecutionResult "(nat \<times> nat) option" | OtherResponse

datatype crowdloans_error =
    IncorrectVaultPhase | CrowdloanAlreadyExists | InsufficientContribution | NoContributions
  | InsufficientBalance | LastPeriodBeforeFirstPeriod | CTokenDoesNotExist | VaultAlreadyExists
  | VaultDoesNotExist | InvalidCToken | VaultNotEnded | VrfDelayInProgress | CapExceeded
  | EndBlockExceeded | InvalidCap | InvalidParams | NotReadyToDissolve | EmptyProxyAddress | WrongBonusConfig

type_synonym crowdloans_dispatch_error = "crowdloans_error dispatch_error"

datatype crowdloans_event =
    VaultCreated para_id vault_id currency_id vault_phase contribution_strategy balance block_number trie_index
  | VaultUpdated para_id vault_id contribution_strategy balance block_number
  | VaultPhaseUpdated para_id vault_id vault_phase vault_phase
  | VaultDoContributing para_id vault_id account_id balance referral_code
  | VaultDoWithdrawing para_id vault_id balance vault_phase
  | VaultContributed para_id vault_id account_id balance referral_code
  | VaultClaimed para_id vault_id currency_id account_id balance vault_phase
  | VaultWithdrew para_id vault_id account_id balance vault_phase
  | VaultRedeemed para_id vault_id currency_id account_id balance vault_phase
  | VrfUpdated bool
  | NotificationReceived multi_location query_id "(nat \<times> nat) option"
  | AllMigrated para_id vault_id
  | PartiallyMigrated para_id vault_id
  | VaultDissolved para_id vault_id
  | AllRefunded para_id vault_id
  | PartiallyRefunded para_id vault_id
  | UserRefunded para_id vault_id account_id child_storage_kind balance
  | ProxyUpdated account_id
  | LeasesBonusUpdated vault_id bonus_config

type_synonym contribution = "balance \<times> referral_code"

record 'w crowdloans_state =
  vaults :: "para_id \<times> vault_id \<rightharpoonup> vault"
  is_vrf :: bool
  ctokens_registry :: "vault_id \<rightharpoonup> currency_id"
  leases_registry :: "para_id \<rightharpoonup> vault_id"
  next_trie_index :: trie_index
  xcm_requests :: "query_id \<rightharpoonup> xcm_request"
  proxy_address :: "account_id option"
  leases_bonus :: "vault_id \<rightharpoonup> bonus_config"
  child_storage :: "nat \<Rightarrow> account_id \<rightharpoonup> contribution"
  cl_world :: 'w
  cl_events :: "crowdloans_event list"

record 'w crowdloans_config =
  cl_assets :: "(nat, 'w) fungibles"
  cl_xcm_contribute :: "'w \<Rightarrow> para_id \<Rightarrow> balance \<Rightarrow> account_id \<Rightarrow> notify_call \<Rightarrow> nat + query_id \<times> 'w"
  cl_xcm_proxy_contribute :: "'w \<Rightarrow> para_id \<Rightarrow> balance \<Rightarrow> account_id \<Rightarrow> notify_call \<Rightarrow> nat + query_id \<times> 'w"
  cl_xcm_withdraw :: "'w \<Rightarrow> para_id \<Rightarrow> account_id \<Rightarrow> notify_call \<Rightarrow> nat + query_id \<times> 'w"
  cl_streaming_create ::
    "'w \<Rightarrow> account_id \<Rightarrow> account_id \<Rightarrow> balance \<Rightarrow> currency_id \<Rightarrow> timestamp \<Rightarrow> timestamp \<Rightarrow> bool \<Rightarrow> nat + 'w"
  cl_loans_mint :: "'w \<Rightarrow> account_id \<Rightarrow> currency_id \<Rightarrow> balance \<Rightarrow> nat + 'w"
  cl_arith :: sp_arith
  cl_hash :: "string \<Rightarrow> nat"
  cl_index_bytes :: "trie_index \<Rightarrow> string"
  cl_accounts :: "account_id list"
  cl_leases :: "vault_id list"
  cl_lookup :: "nat \<Rightarrow> account_id option"
  cl_account_nonce :: "account_id \<Rightarrow> nat"
  cl_response_origin :: "origin \<Rightarrow> multi_location option"
  cl_decimal :: "currency_id \<Rightarrow> nat option"
  cl_members :: "account_id list"
  cl_proxy_origin :: "origin \<Rightarrow> bool"
  cl_migrate_origin :: "origin \<Rightarrow> bool"
  cl_vrf_origin :: "origin \<Rightarrow> bool"
  cl_create_origin :: "origin \<Rightarrow> bool"
  cl_refund_origin :: "origin \<Rightarrow> bool"
  cl_dissolve_origin :: "origin \<Rightarrow> bool"
  cl_update_origin :: "origin \<Rightarrow> bool"
  cl_open_close_origin :: "origin \<Rightarrow> bool"
  cl_auction_origin :: "origin \<Rightarrow> bool"
  cl_slot_expired_origin :: "origin \<Rightarrow> bool"
  cl_pallet_account :: account_id
  cl_para_account :: account_id
  cl_relay_currency :: currency_id
  cl_native_currency :: currency_id
  cl_min_contribution :: balance
  cl_migrate_keys_limit :: nat
  cl_remove_keys_limit :: nat
  cl_lease_period :: block_number
  cl_lease_offset :: block_number
  cl_lease_per_year :: block_number
  cl_relay_block :: block_number

definition cl_deposit_event :: "crowdloans_event \<Rightarrow> 'w crowdloans_state \<Rightarrow> 'w crowdloans_state" where
  "cl_deposit_event e s = s\<lparr>cl_events := cl_events s @ [e]\<rparr>"

definition put_vault :: "para_id \<times> vault_id \<Rightarrow> vault \<Rightarrow> 'w crowdloans_state \<Rightarrow> 'w crowdloans_state" where
  "put_vault k v s = s\<lparr>vaults := (vaults s)(k \<mapsto> v)\<rparr>"

definition vault_lease :: "vault \<Rightarrow> vault_id" where
  "vault_lease v = (v_lease_start v, v_lease_end v)"

text \<open>The macro \<open>ensure_origin\<close>: the configured origin, or a signed member.\<close>

definition ensure_origin_or_member ::
    "'w crowdloans_config \<Rightarrow> (origin \<Rightarrow> bool) \<Rightarrow> origin \<Rightarrow> crowdloans_dispatch_error + unit" where
  "ensure_origin_or_member C required o' =
     (if required o' then Inr ()
      else bindE (ensure_signed o') (\<lambda>who. ensure (who \<in> set (cl_members C)) BadOrigin))"

definition crowdloans_lookup :: "'w crowdloans_config \<Rightarrow> nat \<Rightarrow> crowdloans_dispatch_error + account_id" where
  "crowdloans_lookup C dest = ok_or (cl_lookup C dest) CannotLookup"

definition crowdloans_transfer ::
    "'w crowdloans_config \<Rightarrow> 'w crowdloans_state \<Rightarrow> currency_id \<Rightarrow> account_id \<Rightarrow> account_id \<Rightarrow> balance
     \<Rightarrow> crowdloans_dispatch_error + 'w crowdloans_state" where
  "crowdloans_transfer C s a x y n =
     bindE (map_err External (ft_transfer (cl_assets C) (cl_world s) a x y n False)) (\<lambda>w. Inr (s\<lparr>cl_world := w\<rparr>))"

definition crowdloans_mint_into ::
    "'w crowdloans_config \<Rightarrow> 'w crowdloans_state \<Rightarrow> currency_id \<Rightarrow> account_id \<Rightarrow> balance
     \<Rightarrow> crowdloans_dispatch_error + 'w crowdloans_state" where
  "crowdloans_mint_into C s a x n =
     bindE (map_err External (ft_mint_into (cl_assets C) (cl_world s) a x n)) (\<lambda>w. Inr (s\<lparr>cl_world := w\<rparr>))"

definition crowdloans_burn_from ::
    "'w crowdloans_config \<Rightarrow> 'w crowdloans_state \<Rightarrow> currency_id \<Rightarrow> account_id \<Rightarrow> balance
     \<Rightarrow> crowdloans_dispatch_error + 'w crowdloans_state" where
  "crowdloans_burn_from C s a x n =
     bindE (map_err External (ft_burn_from (cl_assets C) (cl_world s) a x n)) (\<lambda>w. Inr (s\<lparr>cl_world := w\<rparr>))"

section \<open>Vaults and child storage\<close>

definition crowdloans_account_id :: "'w crowdloans_config \<Rightarrow> account_id" where
  "crowdloans_account_id C = cl_pallet_account C"

definition para_account_id :: "'w crowdloans_config \<Rightarrow> account_id" where
  "para_account_id C = cl_para_account C"

definition current_vault :: "'w crowdloans_state \<Rightarrow> para_id \<Rightarrow> vault option" where
  "current_vault s crowdloan =
     (case leases_registry s crowdloan of None \<Rightarrow> None | Some lease \<Rightarrow> vaults s (crowdloan, lease))"

definition total_contribution :: "vault \<Rightarrow> crowdloans_dispatch_error + balance" where
  "total_contribution v =
     ok_or (case checked_add (v_contributed v) (v_flying v) of
              None \<Rightarrow> None | Some subtotal \<Rightarrow> checked_add subtotal (v_pending v))
       (Arithmetic Overflow)"

definition notify_placeholder :: notify_call where
  "notify_placeholder = ''notification_received''"

definition kind_label :: "child_storage_kind \<Rightarrow> string" where
  "kind_label kind =
     (case kind of KindPending \<Rightarrow> ''crowdloan:pending'' | KindFlying \<Rightarrow> ''crowdloan:flying''
      | KindContributed \<Rightarrow> ''crowdloan:contributed'')"

definition id_from_index :: "'w crowdloans_config \<Rightarrow> trie_index \<Rightarrow> child_storage_kind \<Rightarrow> nat" where
  "id_from_index C index kind = cl_hash C (kind_label kind @ cl_index_bytes C index)"

definition contributions :: "'w crowdloans_config \<Rightarrow> 'w crowdloans_state \<Rightarrow> trie_index \<Rightarrow> child_storage_kind \<Rightarrow> account_id \<rightharpoonup> contribution" where
  "contributions C s index kind = child_storage s (id_from_index C index kind)"

definition contribution_put ::
    "'w crowdloans_config \<Rightarrow> trie_index \<Rightarrow> account_id \<Rightarrow> balance \<Rightarrow> referral_code \<Rightarrow> child_storage_kind
     \<Rightarrow> 'w crowdloans_state \<Rightarrow> 'w crowdloans_state" where
  "contribution_put C index who n referral kind s =
     s\<lparr>child_storage := (child_storage s)(id_from_index C index kind :=
         (contributions C s index kind)(who \<mapsto> (n, referral)))\<rparr>"

definition contribution_get ::
    "'w crowdloans_config \<Rightarrow> 'w crowdloans_state \<Rightarrow> trie_index \<Rightarrow> account_id \<Rightarrow> child_storage_kind \<Rightarrow> contribution" where
  "contribution_get C s index who kind = (case contributions C s index kind who of None \<Rightarrow> (0, []) | Some c \<Rightarrow> c)"

definition contribution_kill ::
    "'w crowdloans_config \<Rightarrow> trie_index \<Rightarrow> account_id \<Rightarrow> child_storage_kind \<Rightarrow> 'w crowdloans_state \<Rightarrow> 'w crowdloans_state" where
  "contribution_kill C index who kind s =
     s\<lparr>child_storage := (child_storage s)(id_from_index C index kind :=
         (contributions C s index kind)(who := None))\<rparr>"

definition contribution_iterator ::
    "'w crowdloans_config \<Rightarrow> 'w crowdloans_state \<Rightarrow> trie_index \<Rightarrow> child_storage_kind \<Rightarrow> (account_id \<times> contribution) list" where
  "contribution_iterator C s index kind = storage_iter (cl_accounts C) (contributions C s index kind)"

definition has_childstorage :: "'w crowdloans_config \<Rightarrow> 'w crowdloans_state \<Rightarrow> vault \<Rightarrow> bool" where
  "has_childstorage C s v \<longleftrightarrow>
     list_ex (\<lambda>kind. length (contribution_iterator C s (v_trie_index v) kind) \<noteq> 0) [KindContributed, KindFlying, KindPending]"

definition do_update_contribution ::
    "'w crowdloans_config \<Rightarrow> 'w crowdloans_state \<Rightarrow> account_id \<Rightarrow> vault \<Rightarrow> balance \<Rightarrow> referral_code option
     \<Rightarrow> arithmetic_kind \<Rightarrow> child_storage_kind \<Rightarrow> crowdloans_dispatch_error + referral_code \<times> vault \<times> 'w crowdloans_state" where
  "do_update_contribution C s who v amount new_referral arithmetic kind =
     (let (held, old_referral) = contribution_get C s (v_trie_index v) who kind;
          referral = (case new_referral of None \<Rightarrow> old_referral | Some r \<Rightarrow> r) in
      bindE (case (kind, arithmetic) of
          (KindPending, Addition) \<Rightarrow>
            bindE (ok_or (checked_add (v_pending v) amount) (Arithmetic Overflow)) (\<lambda>total.
            bindE (ok_or (checked_add held amount) (Arithmetic Overflow)) (\<lambda>n. Inr (n, v\<lparr>v_pending := total\<rparr>)))
        | (KindPending, Subtraction) \<Rightarrow>
            bindE (ok_or (checked_sub (v_pending v) amount) (Arithmetic Underflow)) (\<lambda>total.
            bindE (ok_or (checked_sub held amount) (Arithmetic Underflow)) (\<lambda>n. Inr (n, v\<lparr>v_pending := total\<rparr>)))
        | (KindFlying, Addition) \<Rightarrow>
            bindE (ok_or (checked_add (v_flying v) amount) (Arithmetic Overflow)) (\<lambda>total.
            bindE (ok_or (checked_add held amount) (Arithmetic Overflow)) (\<lambda>n. Inr (n, v\<lparr>v_flying := total\<rparr>)))
        | (KindFlying, Subtraction) \<Rightarrow>
            bindE (ok_or (checked_sub (v_flying v) amount) (Arithmetic Underflow)) (\<lambda>total.
            bindE (ok_or (checked_sub held amount) (Arithmetic Underflow)) (\<lambda>n. Inr (n, v\<lparr>v_flying := total\<rparr>)))
        | (KindContributed, Addition) \<Rightarrow>
            bindE (ok_or (checked_add (v_contributed v) amount) (Arithmetic Overflow)) (\<lambda>total.
            bindE (ok_or (checked_add held amount) (Arithmetic Overflow)) (\<lambda>n. Inr (n, v\<lparr>v_contributed := total\<rparr>)))
        | (KindContributed, Subtraction) \<Rightarrow>
            bindE (ok_or (checked_sub (v_contributed v) amount) (Arithmetic Underflow)) (\<lambda>total.
            bindE (ok_or (checked_sub held amount) (Arithmetic Underflow)) (\<lambda>n. Inr (n, v\<lparr>v_contributed := total\<rparr>))))
        (\<lambda>(n, v).
      Inr (referral, v,
           if n = 0 then contribution_kill C (v_trie_index v) who kind s
           else contribution_put C (v_trie_index v) who n referral kind s)))"

definition do_migrate_contribution ::
    "'w crowdloans_config \<Rightarrow> 'w crowdloans_state \<Rightarrow> account_id \<Rightarrow> vault \<Rightarrow> balance \<Rightarrow> child_storage_kind
     \<Rightarrow> child_storage_kind \<Rightarrow> crowdloans_dispatch_error + vault \<times> 'w crowdloans_state" where
  "do_migrate_contribution C s who v amount src dst =
     bindE (do_update_contribution C s who v amount None Subtraction src) (\<lambda>(referral, v, s).
     bindE (do_update_contribution C s who v amount (Some referral) Addition dst) (\<lambda>(_, v, s).
     Inr (v, s)))"

definition try_mutate_vault ::
    "'w crowdloans_state \<Rightarrow> para_id \<Rightarrow> vault_phase \<Rightarrow> (vault \<Rightarrow> 'w crowdloans_state \<Rightarrow> crowdloans_dispatch_error + vault \<times> 'w crowdloans_state)
     \<Rightarrow> crowdloans_dispatch_error + 'w crowdloans_state" where
  "try_mutate_vault s crowdloan phase cb =
     bindE (ok_or (current_vault s crowdloan) (Module VaultDoesNotExist)) (\<lambda>v.
     bindE (ensure (v_phase v = phase) (Module IncorrectVaultPhase)) (\<lambda>_.
     bindE (cb v s) (\<lambda>(v, s).
     Inr (put_vault (crowdloan, vault_lease v) v s))))"

section \<open>Messages to the relay chain\<close>

definition crowdloans_do_contribute ::
    "'w crowdloans_config \<Rightarrow> 'w crowdloans_state \<Rightarrow> account_id \<Rightarrow> para_id \<Rightarrow> vault_id \<Rightarrow> contribution_strategy \<Rightarrow> balance
     \<Rightarrow> referral_code \<Rightarrow> crowdloans_dispatch_error + 'w crowdloans_state" where
  "crowdloans_do_contribute C s who crowdloan vault_id strategy amount referral =
     bindE (case strategy of
         StrategyXCM \<Rightarrow> map_err External (cl_xcm_contribute C (cl_world s) crowdloan amount who notify_placeholder)
       | StrategyXCMPROXY \<Rightarrow>
           bindE (ok_or (proxy_address s) (Module EmptyProxyAddress)) (\<lambda>proxy.
           map_err External (cl_xcm_proxy_contribute C (cl_world s) crowdloan amount proxy notify_placeholder)))
       (\<lambda>(query_id, w).
     Inr (cl_deposit_event (VaultDoContributing crowdloan vault_id who amount referral)
       (s\<lparr>cl_world := w,
          xcm_requests := (xcm_requests s)(query_id \<mapsto> RequestContribute crowdloan vault_id who amount referral)\<rparr>)))"

definition crowdloans_do_withdraw ::
    "'w crowdloans_config \<Rightarrow> 'w crowdloans_state \<Rightarrow> para_id \<Rightarrow> vault_id \<Rightarrow> balance \<Rightarrow> vault_phase
     \<Rightarrow> crowdloans_dispatch_error + 'w crowdloans_state" where
  "crowdloans_do_withdraw C s crowdloan vault_id amount target_phase =
     bindE (map_err External (cl_xcm_withdraw C (cl_world s) crowdloan (para_account_id C) notify_placeholder)) (\<lambda>(query_id, w).
     Inr (cl_deposit_event (VaultDoWithdrawing crowdloan vault_id amount target_phase)
       (s\<lparr>cl_world := w,
          xcm_requests := (xcm_requests s)(query_id \<mapsto> RequestWithdraw crowdloan vault_id amount target_phase)\<rparr>)))"

definition do_notification_received ::
    "'w crowdloans_config \<Rightarrow> 'w crowdloans_state \<Rightarrow> query_id \<Rightarrow> xcm_request \<Rightarrow> (nat \<times> nat) option
     \<Rightarrow> crowdloans_dispatch_error + 'w crowdloans_state" where
  "do_notification_received C s query_id request res =
     (let executed = (res = None) in
      bindE (case request of
          RequestContribute crowdloan lease who amount referral \<Rightarrow>
            if executed then
              bindE (ok_or (vaults s (crowdloan, lease)) (Module VaultDoesNotExist)) (\<lambda>v.
              bindE (crowdloans_burn_from C s (cl_relay_currency C) (crowdloans_account_id C) amount) (\<lambda>s.
              bindE (do_migrate_contribution C s who v amount KindFlying KindContributed) (\<lambda>(v, s).
              Inr (cl_deposit_event (VaultContributed crowdloan lease who amount referral)
                     (put_vault (crowdloan, lease) v s)))))
            else
              bindE (ok_or (vaults s (crowdloan, lease)) (Module VaultDoesNotExist)) (\<lambda>v.
              bindE (crowdloans_transfer C s (cl_relay_currency C) (crowdloans_account_id C) who amount) (\<lambda>s.
              bindE (do_update_contribution C s who v amount None Subtraction KindFlying) (\<lambda>(_, v, s).
              Inr (put_vault (crowdloan, lease) v s))))
        | RequestWithdraw crowdloan lease _ target_phase \<Rightarrow>
            if executed then
              bindE (ok_or (vaults s (crowdloan, lease)) (Module VaultDoesNotExist)) (\<lambda>v.
              let pre_phase = v_phase v in
              Inr (cl_deposit_event (VaultPhaseUpdated crowdloan lease pre_phase target_phase)
                     (put_vault (crowdloan, lease) (v\<lparr>v_phase := target_phase\<rparr>) s)))
            else Inr s) (\<lambda>s.
      Inr (if executed then s\<lparr>xcm_requests := (xcm_requests s)(query_id := None)\<rparr> else s)))"

section \<open>Payments\<close>

definition checked_pow10 :: "nat \<Rightarrow> nat option" where
  "checked_pow10 n = to_u128 (10 ^ n)"

definition normalized_amount :: "'w crowdloans_config \<Rightarrow> balance \<Rightarrow> balance option" where
  "normalized_amount C amount =
     Option.bind (cl_decimal C (cl_relay_currency C)) (\<lambda>relay_decimal.
     Option.bind (cl_decimal C (cl_native_currency C)) (\<lambda>native_decimal.
     if relay_decimal < native_decimal
     then Option.bind (checked_pow10 (native_decimal - relay_decimal)) (checked_mul amount)
     else if relay_decimal = native_decimal then Some amount
     else Option.bind (checked_pow10 (relay_decimal - native_decimal)) (checked_div amount)))"

definition leases_bonus_of :: "'w crowdloans_state \<Rightarrow> vault_id \<Rightarrow> bonus_config" where
  "leases_bonus_of s lease = (case leases_bonus s lease of None \<Rightarrow> default_bonus_config | Some b \<Rightarrow> b)"

text \<open>The bonus of a claim, paid as a stream of the native currency.\<close>

definition pay_bonus ::
    "'w crowdloans_config \<Rightarrow> 'w crowdloans_state \<Rightarrow> account_id \<Rightarrow> vault_id \<Rightarrow> balance
     \<Rightarrow> crowdloans_dispatch_error + 'w crowdloans_state" where
  "pay_bonus C s who lease amount =
     (let bonus = leases_bonus_of s lease;
          bonus_amount = min (amount * bonus_per_token bonus) u128_max;
          normalized = (case normalized_amount C bonus_amount of None \<Rightarrow> 0 | Some n \<Rightarrow> n) in
      if normalized \<noteq> 0
      then bindE (map_err External (cl_streaming_create C (cl_world s) (crowdloans_account_id C) who normalized
               (cl_native_currency C) (bonus_start_time bonus) (bonus_end_time bonus) False)) (\<lambda>w.
           Inr (s\<lparr>cl_world := w\<rparr>))
      else Inr s)"

definition do_claim_for ::
    "'w crowdloans_config \<Rightarrow> 'w crowdloans_state \<Rightarrow> account_id \<Rightarrow> para_id \<Rightarrow> vault_id \<Rightarrow> bool
     \<Rightarrow> crowdloans_dispatch_error + 'w crowdloans_state" where
  "do_claim_for C s who crowdloan lease force =
     bindE (ok_or (ctokens_registry s lease) (Module CTokenDoesNotExist)) (\<lambda>ctoken.
     bindE (ok_or (vaults s (crowdloan, lease)) (Module VaultDoesNotExist)) (\<lambda>v.
     bindE (if \<not> force then ensure (v_phase v = VaultSucceeded) (Module IncorrectVaultPhase) else Inr ()) (\<lambda>_.
     let (amount, _) = contribution_get C s (v_trie_index v) who KindContributed in
     bindE (ensure (amount \<noteq> 0) (Module NoContributions)) (\<lambda>_.
     bindE (crowdloans_mint_into C s ctoken who amount) (\<lambda>s.
     bindE (pay_bonus C (contribution_kill C (v_trie_index v) who KindContributed s) who lease amount) (\<lambda>s.
     Inr (cl_deposit_event (VaultClaimed crowdloan lease ctoken who amount VaultSucceeded) s)))))))"

definition do_withdraw_for ::
    "'w crowdloans_config \<Rightarrow> 'w crowdloans_state \<Rightarrow> account_id \<Rightarrow> para_id \<Rightarrow> vault_id
     \<Rightarrow> crowdloans_dispatch_error + 'w crowdloans_state" where
  "do_withdraw_for C s who crowdloan lease =
     bindE (ok_or (vaults s (crowdloan, lease)) (Module VaultDoesNotExist)) (\<lambda>v.
     bindE (ensure (v_phase v = VaultFailed) (Module IncorrectVaultPhase)) (\<lambda>_.
     let (amount, _) = contribution_get C s (v_trie_index v) who KindContributed in
     bindE (ensure (amount \<noteq> 0) (Module NoContributions)) (\<lambda>_.
     let s = contribution_kill C (v_trie_index v) who KindContributed s in
     bindE (ok_or (checked_sub (v_contributed v) amount) (Arithmetic Underflow)) (\<lambda>contributed.
     let v = v\<lparr>v_contributed := contributed\<rparr> in
     bindE (crowdloans_mint_into C s (cl_relay_currency C) who amount) (\<lambda>s.
     Inr (cl_deposit_event (VaultWithdrew crowdloan lease who amount VaultFailed) (put_vault (crowdloan, lease) v s)))))))"

definition do_refund_for ::
    "'w crowdloans_config \<Rightarrow> 'w crowdloans_state \<Rightarrow> account_id \<Rightarrow> vault \<Rightarrow> child_storage_kind \<Rightarrow> balance
     \<Rightarrow> crowdloans_dispatch_error + vault \<times> 'w crowdloans_state" where
  "do_refund_for C s who v kind amount =
     bindE (if kind = KindContributed then crowdloans_mint_into C s (cl_relay_currency C) who amount
            else crowdloans_transfer C s (cl_relay_currency C) (crowdloans_account_id C) who amount) (\<lambda>s.
     bindE (do_update_contribution C s who v amount None Subtraction kind) (\<lambda>(_, v, s).
     Inr (v, s)))"

definition crowdloans_do_redeem ::
    "'w crowdloans_config \<Rightarrow> 'w crowdloans_state \<Rightarrow> account_id \<Rightarrow> para_id \<Rightarrow> vault_id \<Rightarrow> balance
     \<Rightarrow> crowdloans_dispatch_error + 'w crowdloans_state" where
  "crowdloans_do_redeem C s who crowdloan lease amount =
     bindE (ok_or (ctokens_registry s lease) (Module CTokenDoesNotExist)) (\<lambda>ctoken.
     bindE (ok_or (vaults s (crowdloan, lease)) (Module VaultDoesNotExist)) (\<lambda>v.
     bindE (ensure (v_phase v = VaultExpired) (Module IncorrectVaultPhase)) (\<lambda>_.
     let ctoken_balance = ft_reducible_balance (cl_assets C) (cl_world s) ctoken who False in
     bindE (ensure (ctoken_balance \<ge> amount) (Module InsufficientBalance)) (\<lambda>_.
     bindE (ok_or (checked_sub (v_contributed v) amount) (Arithmetic Underflow)) (\<lambda>contributed.
     let v = v\<lparr>v_contributed := contributed\<rparr> in
     bindE (crowdloans_burn_from C s ctoken who amount) (\<lambda>s.
     bindE (crowdloans_mint_into C s (cl_relay_currency C) who amount) (\<lambda>s.
     Inr (cl_deposit_event (VaultRedeemed crowdloan lease ctoken who amount VaultExpired)
            (put_vault (crowdloan, lease) v s)))))))))"

section \<open>The term of a ctoken\<close>

definition find_vault_by_asset_id :: "'w crowdloans_config \<Rightarrow> 'w crowdloans_state \<Rightarrow> currency_id \<Rightarrow> vault_id option" where
  "find_vault_by_asset_id C s asset_id =
     map_option fst (find (\<lambda>(lease, ctoken). ctoken = asset_id) (storage_iter (cl_leases C) (ctokens_registry s)))"

definition vault_token_contains :: "'w crowdloans_config \<Rightarrow> 'w crowdloans_state \<Rightarrow> currency_id \<Rightarrow> bool" where
  "vault_token_contains C s asset_id \<longleftrightarrow> find_vault_by_asset_id C s asset_id \<noteq> None"

definition sat_u32 :: "nat \<Rightarrow> nat" where
  "sat_u32 n = min n u32_max"

definition get_vault_term_rate ::
    "'w crowdloans_config \<Rightarrow> vault_id \<Rightarrow> crowdloans_dispatch_error + (rate \<times> rate) option" where
  "get_vault_term_rate C lease =
     (let (start_lease, end_lease) = lease; current_block = cl_relay_block C in
      if current_block = 0 then Inr None
      else
        let lease_period = cl_lease_period C;
            start_block = sat_u32 (sat_u32 (lease_period * start_lease) + cl_lease_offset C) in
        bindE (ensure (end_lease + 1 \<le> u32_max) Panic) (\<lambda>_.
        let end_block = sat_u32 (sat_u32 (lease_period * (end_lease + 1)) + cl_lease_offset C) in
        bindE (ensure (start_lease \<le> end_lease) Panic) (\<lambda>_.
        let lease_length = sat_u32 (lease_period * (end_lease - start_lease + 1));
            blocks_per_year = sat_u32 (cl_lease_per_year C * lease_period) in
        bindE (ok_or (fx_saturating_from_rational (cl_arith C) lease_length blocks_per_year) Panic) (\<lambda>total_term_by_year.
        bindE (if current_block < start_block then Inr 0
               else if start_block \<le> current_block \<and> current_block < end_block
               then ok_or (fx_saturating_from_rational (cl_arith C) (current_block - start_block) lease_length) Panic
               else Inr FX) (\<lambda>term_rate.
        Inr (Some (term_rate, total_term_by_year)))))))"

section \<open>Calls\<close>

definition checked_add_u32 :: "nat \<Rightarrow> nat \<Rightarrow> nat option" where
  "checked_add_u32 a b = (if a + b \<le> u32_max then Some (a + b) else None)"

definition create_vault ::
    "'w crowdloans_config \<Rightarrow> 'w crowdloans_state \<Rightarrow> origin \<Rightarrow> para_id \<Rightarrow> currency_id \<Rightarrow> lease_period \<Rightarrow> lease_period
     \<Rightarrow> contribution_strategy \<Rightarrow> balance \<Rightarrow> block_number \<Rightarrow> crowdloans_dispatch_error + 'w crowdloans_state" where
  "create_vault C s o' crowdloan ctoken lease_start lease_end strategy cap end_block =
     bindE (ensure_origin_or_member C (cl_create_origin C) o') (\<lambda>_.
     bindE (ensure (cap \<noteq> 0) (Module InvalidCap)) (\<lambda>_.
     bindE (ensure (lease_start \<le> lease_end) (Module LastPeriodBeforeFirstPeriod)) (\<lambda>_.
     bindE (case ctokens_registry s (lease_start, lease_end) of
              None \<Rightarrow> Inr () | Some c \<Rightarrow> ensure (c = ctoken) (Module InvalidCToken)) (\<lambda>_.
     bindE (ensure (vaults s (crowdloan, lease_start, lease_end) = None) (Module VaultAlreadyExists)) (\<lambda>_.
     bindE (case current_vault s crowdloan of
              None \<Rightarrow> Inr ()
            | Some v \<Rightarrow> if v_phase v \<noteq> VaultFailed \<and> v_phase v \<noteq> VaultExpired then Inl (Module VaultNotEnded) else Inr ()) (\<lambda>_.
     bindE (ensure (cl_relay_block C \<le> end_block) (Module EndBlockExceeded)) (\<lambda>_.
     let trie_index = next_trie_index s in
     bindE (ok_or (checked_add_u32 trie_index 1) (Arithmetic Overflow)) (\<lambda>next.
     let v = new_vault lease_start lease_end ctoken strategy cap end_block trie_index;
         s = s\<lparr>next_trie_index := next\<rparr>;
         s = put_vault (crowdloan, lease_start, lease_end) v s;
         s = s\<lparr>ctokens_registry := (ctokens_registry s)((lease_start, lease_end) \<mapsto> ctoken)\<rparr>;
         s = s\<lparr>leases_registry := (leases_registry s)(crowdloan \<mapsto> (lease_start, lease_end))\<rparr> in
     Inr (cl_deposit_event (VaultCreated crowdloan (lease_start, lease_end) ctoken VaultPending strategy cap end_block trie_index) s)))))))))"

definition update_vault ::
    "'w crowdloans_config \<Rightarrow> 'w crowdloans_state \<Rightarrow> origin \<Rightarrow> para_id \<Rightarrow> balance option \<Rightarrow> block_number option
     \<Rightarrow> contribution_strategy option \<Rightarrow> crowdloans_dispatch_error + 'w crowdloans_state" where
  "update_vault C s o' crowdloan cap end_block strategy =
     bindE (ensure_origin_or_member C (cl_update_origin C) o') (\<lambda>_.
     bindE (ok_or (current_vault s crowdloan) (Module VaultDoesNotExist)) (\<lambda>v.
     bindE (case cap of None \<Rightarrow> Inr v
            | Some cap \<Rightarrow> bindE (ensure (cap \<noteq> 0) (Module InvalidCap)) (\<lambda>_. Inr (v\<lparr>v_cap := cap\<rparr>))) (\<lambda>v.
     bindE (case end_block of None \<Rightarrow> Inr v
            | Some end_block \<Rightarrow>
                bindE (ensure (cl_relay_block C \<le> end_block) (Module EndBlockExceeded)) (\<lambda>_. Inr (v\<lparr>v_end_block := end_block\<rparr>))) (\<lambda>v.
     let v = (case strategy of None \<Rightarrow> v | Some strategy \<Rightarrow> v\<lparr>v_strategy := strategy\<rparr>) in
     Inr (cl_deposit_event (VaultUpdated crowdloan (vault_lease v) (v_strategy v) (v_cap v) (v_end_block v))
            (put_vault (crowdloan, vault_lease v) v s))))))"

definition set_phase :: "para_id \<Rightarrow> vault_phase \<Rightarrow> vault_phase \<Rightarrow> vault \<Rightarrow> 'w crowdloans_state \<Rightarrow> crowdloans_dispatch_error + vault \<times> 'w crowdloans_state" where
  "set_phase crowdloan pre post v s =
     Inr (v\<lparr>v_phase := post\<rparr>, cl_deposit_event (VaultPhaseUpdated crowdloan (vault_lease v) pre post) s)"

definition crowdloan_open ::
    "'w crowdloans_config \<Rightarrow> 'w crowdloans_state \<Rightarrow> origin \<Rightarrow> para_id \<Rightarrow> crowdloans_dispatch_error + 'w crowdloans_state" where
  "crowdloan_open C s o' crowdloan =
     bindE (ensure_origin_or_member C (cl_open_close_origin C) o') (\<lambda>_.
     try_mutate_vault s crowdloan VaultPending (set_phase crowdloan VaultPending VaultContributing))"

definition contribute ::
    "'w crowdloans_config \<Rightarrow> 'w crowdloans_state \<Rightarrow> origin \<Rightarrow> para_id \<Rightarrow> balance \<Rightarrow> referral_code
     \<Rightarrow> crowdloans_dispatch_error + 'w crowdloans_state" where
  "contribute C s o' crowdloan amount referral =
     bindE (ensure_signed o') (\<lambda>who.
     bindE (ok_or (current_vault s crowdloan) (Module VaultDoesNotExist)) (\<lambda>v.
     bindE (ensure (amount \<noteq> 0) (Module InvalidParams)) (\<lambda>_.
     bindE (ensure (cl_relay_block C \<le> v_end_block v) (Module EndBlockExceeded)) (\<lambda>_.
     bindE (ensure (v_phase v = VaultContributing \<or> v_phase v = VaultPending) (Module IncorrectVaultPhase)) (\<lambda>_.
     bindE (ensure (amount \<ge> cl_min_contribution C) (Module InsufficientContribution)) (\<lambda>_.
     bindE (ensure (\<not> is_vrf s) (Module VrfDelayInProgress)) (\<lambda>_.
     bindE (total_contribution v) (\<lambda>total.
     bindE (ok_or (checked_add total amount) (Arithmetic Overflow)) (\<lambda>new_total.
     bindE (ensure (new_total \<le> v_cap v) (Module CapExceeded)) (\<lambda>_.
     bindE (crowdloans_transfer C s (cl_relay_currency C) who (crowdloans_account_id C) amount) (\<lambda>s.
     bindE (if v_phase v = VaultContributing then
              bindE (do_update_contribution C s who v amount (Some referral) Addition KindFlying) (\<lambda>(_, v, s).
              bindE (crowdloans_do_contribute C s who crowdloan (vault_lease v) (v_strategy v) amount referral) (\<lambda>s.
              Inr (v, s)))
            else
              bindE (do_update_contribution C s who v amount (Some referral) Addition KindPending) (\<lambda>(_, v, s).
              Inr (v, s))) (\<lambda>(v, s).
     Inr (put_vault (crowdloan, vault_lease v) v s)))))))))))))"

definition set_vrf ::
    "'w crowdloans_config \<Rightarrow> 'w crowdloans_state \<Rightarrow> origin \<Rightarrow> bool \<Rightarrow> crowdloans_dispatch_error + 'w crowdloans_state" where
  "set_vrf C s o' flag =
     bindE (ensure_origin_or_member C (cl_vrf_origin C) o') (\<lambda>_.
     Inr (cl_deposit_event (VrfUpdated flag) (s\<lparr>is_vrf := flag\<rparr>)))"

definition crowdloan_close ::
    "'w crowdloans_config \<Rightarrow> 'w crowdloans_state \<Rightarrow> origin \<Rightarrow> para_id \<Rightarrow> crowdloans_dispatch_error + 'w crowdloans_state" where
  "crowdloan_close C s o' crowdloan =
     bindE (ensure_origin_or_member C (cl_open_close_origin C) o') (\<lambda>_.
     try_mutate_vault s crowdloan VaultContributing (set_phase crowdloan VaultContributing VaultClosed))"

definition crowdloan_reopen ::
    "'w crowdloans_config \<Rightarrow> 'w crowdloans_state \<Rightarrow> origin \<Rightarrow> para_id \<Rightarrow> crowdloans_dispatch_error + 'w crowdloans_state" where
  "crowdloan_reopen C s o' crowdloan =
     bindE (ensure_origin_or_member C (cl_open_close_origin C) o') (\<lambda>_.
     try_mutate_vault s crowdloan VaultClosed (set_phase crowdloan VaultClosed VaultContributing))"

definition auction_succeeded ::
    "'w crowdloans_config \<Rightarrow> 'w crowdloans_state \<Rightarrow> origin \<Rightarrow> para_id \<Rightarrow> crowdloans_dispatch_error + 'w crowdloans_state" where
  "auction_succeeded C s o' crowdloan =
     bindE (ensure_origin_or_member C (cl_auction_origin C) o') (\<lambda>_.
     try_mutate_vault s crowdloan VaultClosed (set_phase crowdloan VaultClosed VaultSucceeded))"

definition auction_failed ::
    "'w crowdloans_config \<Rightarrow> 'w crowdloans_state \<Rightarrow> origin \<Rightarrow> para_id \<Rightarrow> crowdloans_dispatch_error + 'w crowdloans_state" where
  "auction_failed C s o' crowdloan =
     bindE (ensure_origin_or_member C (cl_auction_origin C) o') (\<lambda>_.
     try_mutate_vault s crowdloan VaultClosed (\<lambda>v s.
       bindE (crowdloans_do_withdraw C s crowdloan (vault_lease v) (v_contributed v) VaultFailed) (\<lambda>s. Inr (v, s))))"

definition crowdloan_claim ::
    "'w crowdloans_config \<Rightarrow> 'w crowdloans_state \<Rightarrow> origin \<Rightarrow> para_id \<Rightarrow> lease_period \<Rightarrow> lease_period
     \<Rightarrow> crowdloans_dispatch_error + 'w crowdloans_state" where
  "crowdloan_claim C s o' crowdloan lease_start lease_end =
     bindE (ensure_signed o') (\<lambda>who. do_claim_for C s who crowdloan (lease_start, lease_end) False)"

definition claim_for ::
    "'w crowdloans_config \<Rightarrow> 'w crowdloans_state \<Rightarrow> origin \<Rightarrow> nat \<Rightarrow> para_id \<Rightarrow> lease_period \<Rightarrow> lease_period
     \<Rightarrow> crowdloans_dispatch_error + 'w crowdloans_state" where
  "claim_for C s o' dest crowdloan lease_start lease_end =
     bindE (ensure_signed o') (\<lambda>_.
     bindE (crowdloans_lookup C dest) (\<lambda>who.
     do_claim_for C s who crowdloan (lease_start, lease_end) False))"

definition crowdloan_withdraw ::
    "'w crowdloans_config \<Rightarrow> 'w crowdloans_state \<Rightarrow> origin \<Rightarrow> para_id \<Rightarrow> lease_period \<Rightarrow> lease_period
     \<Rightarrow> crowdloans_dispatch_error + 'w crowdloans_state" where
  "crowdloan_withdraw C s o' crowdloan lease_start lease_end =
     bindE (ensure_signed o') (\<lambda>who. do_withdraw_for C s who crowdloan (lease_start, lease_end))"

definition withdraw_for ::
    "'w crowdloans_config \<Rightarrow> 'w crowdloans_state \<Rightarrow> origin \<Rightarrow> nat \<Rightarrow> para_id \<Rightarrow> lease_period \<Rightarrow> lease_period
     \<Rightarrow> crowdloans_dispatch_error + 'w crowdloans_state" where
  "withdraw_for C s o' dest crowdloan lease_start lease_end =
     bindE (ensure_signed o') (\<lambda>_.
     bindE (crowdloans_lookup C dest) (\<lambda>who.
     do_withdraw_for C s who crowdloan (lease_start, lease_end)))"

definition crowdloan_redeem ::
    "'w crowdloans_config \<Rightarrow> 'w crowdloans_state \<Rightarrow> origin \<Rightarrow> para_id \<Rightarrow> lease_period \<Rightarrow> lease_period \<Rightarrow> balance
     \<Rightarrow> crowdloans_dispatch_error + 'w crowdloans_state" where
  "crowdloan_redeem C s o' crowdloan lease_start lease_end amount =
     bindE (ensure_signed o') (\<lambda>who. crowdloans_do_redeem C s who crowdloan (lease_start, lease_end) amount)"

definition slot_expired ::
    "'w crowdloans_config \<Rightarrow> 'w crowdloans_state \<Rightarrow> origin \<Rightarrow> para_id \<Rightarrow> crowdloans_dispatch_error + 'w crowdloans_state" where
  "slot_expired C s o' crowdloan =
     bindE (ensure_origin_or_member C (cl_slot_expired_origin C) o') (\<lambda>_.
     try_mutate_vault s crowdloan VaultSucceeded (\<lambda>v s.
       bindE (crowdloans_do_withdraw C s crowdloan (vault_lease v) (v_contributed v) VaultExpired) (\<lambda>s. Inr (v, s))))"

text \<open>
  The loops over the entries of a child trie.  An iteration step only changes the entry it has just
  visited in that trie, so the entries are those at the start of the loop.
\<close>

fun migrate_entries ::
    "'w crowdloans_config \<Rightarrow> para_id \<Rightarrow> (account_id \<times> contribution) list \<Rightarrow> nat \<Rightarrow> vault \<Rightarrow> 'w crowdloans_state
     \<Rightarrow> crowdloans_dispatch_error + bool \<times> vault \<times> 'w crowdloans_state" where
  "migrate_entries C crowdloan [] migrated_count v s = Inr (True, v, s)"
| "migrate_entries C crowdloan ((who, amount, referral) # entries) migrated_count v s =
     (if migrated_count \<ge> cl_migrate_keys_limit C then Inr (False, v, s)
      else
        bindE (do_migrate_contribution C s who v amount KindPending KindFlying) (\<lambda>(v, s).
        bindE (crowdloans_do_contribute C s who crowdloan (vault_lease v) (v_strategy v) amount referral) (\<lambda>s.
        migrate_entries C crowdloan entries (migrated_count + 1) v s)))"

definition migrate_pending ::
    "'w crowdloans_config \<Rightarrow> 'w crowdloans_state \<Rightarrow> origin \<Rightarrow> para_id \<Rightarrow> crowdloans_dispatch_error + 'w crowdloans_state" where
  "migrate_pending C s o' crowdloan =
     bindE (ensure_origin_or_member C (cl_migrate_origin C) o') (\<lambda>_.
     bindE (ok_or (current_vault s crowdloan) (Module VaultDoesNotExist)) (\<lambda>v.
     bindE (ensure (v_phase v = VaultPending \<or> v_phase v = VaultContributing) (Module IncorrectVaultPhase)) (\<lambda>_.
     bindE (ensure (\<not> is_vrf s) (Module VrfDelayInProgress)) (\<lambda>_.
     bindE (migrate_entries C crowdloan (contribution_iterator C s (v_trie_index v) KindPending) 0 v s) (\<lambda>(all_migrated, v, s).
     let s = put_vault (crowdloan, vault_lease v) v s in
     Inr (cl_deposit_event (if all_migrated then AllMigrated crowdloan (vault_lease v)
                            else PartiallyMigrated crowdloan (vault_lease v)) s))))))"

definition notification_received ::
    "'w crowdloans_config \<Rightarrow> 'w crowdloans_state \<Rightarrow> origin \<Rightarrow> query_id \<Rightarrow> xcm_response
     \<Rightarrow> crowdloans_dispatch_error + 'w crowdloans_state" where
  "notification_received C s o' query_id response =
     bindE (case cl_response_origin C o' of
              Some responder \<Rightarrow> Inr responder
            | None \<Rightarrow> bindE (ensure_origin (cl_update_origin C) o') (\<lambda>_. Inr Here)) (\<lambda>responder.
     case response of
       ExecutionResult res \<Rightarrow>
         bindE (case xcm_requests s query_id of
                  None \<Rightarrow> Inr s
                | Some request \<Rightarrow> do_notification_received C s query_id request res) (\<lambda>s.
         Inr (cl_deposit_event (NotificationReceived responder query_id res) s))
     | OtherResponse \<Rightarrow> Inr s)"

fun refund_entries ::
    "'w crowdloans_config \<Rightarrow> child_storage_kind \<Rightarrow> (account_id \<times> contribution) list \<Rightarrow> nat \<Rightarrow> vault \<Rightarrow> 'w crowdloans_state
     \<Rightarrow> crowdloans_dispatch_error + bool \<times> nat \<times> vault \<times> 'w crowdloans_state" where
  "refund_entries C kind [] refund_count v s = Inr (True, refund_count, v, s)"
| "refund_entries C kind ((who, amount, _) # entries) refund_count v s =
     (if refund_count \<ge> cl_remove_keys_limit C then Inr (False, refund_count, v, s)
      else
        bindE (do_refund_for C s who v kind amount) (\<lambda>(v, s).
        refund_entries C kind entries (refund_count + 1) v s))"

fun refund_kinds ::
    "'w crowdloans_config \<Rightarrow> child_storage_kind list \<Rightarrow> nat \<Rightarrow> vault \<Rightarrow> 'w crowdloans_state
     \<Rightarrow> crowdloans_dispatch_error + bool \<times> vault \<times> 'w crowdloans_state" where
  "refund_kinds C [] refund_count v s = Inr (True, v, s)"
| "refund_kinds C (kind # kinds) refund_count v s =
     bindE (refund_entries C kind (contribution_iterator C s (v_trie_index v) kind) refund_count v s) (\<lambda>(finished, refund_count, v, s).
     if finished then refund_kinds C kinds refund_count v s else Inr (False, v, s))"

definition crowdloan_refund ::
    "'w crowdloans_config \<Rightarrow> 'w crowdloans_state \<Rightarrow> origin \<Rightarrow> para_id \<Rightarrow> lease_period \<Rightarrow> lease_period
     \<Rightarrow> crowdloans_dispatch_error + 'w crowdloans_state" where
  "crowdloan_refund C s o' crowdloan lease_start lease_end =
     bindE (ensure_origin_or_member C (cl_refund_origin C) o') (\<lambda>_.
     bindE (ok_or (vaults s (crowdloan, lease_start, lease_end)) (Module VaultDoesNotExist)) (\<lambda>v.
     bindE (ensure (v_phase v = VaultClosed \<or> v_phase v = VaultFailed) (Module IncorrectVaultPhase)) (\<lambda>_.
     bindE (refund_kinds C [KindContributed, KindFlying, KindPending] 0 v s) (\<lambda>(all_refunded, v, s).
     let s = put_vault (crowdloan, lease_start, lease_end) v s in
     Inr (cl_deposit_event (if all_refunded then AllRefunded crowdloan (lease_start, lease_end)
                            else PartiallyRefunded crowdloan (lease_start, lease_end)) s)))))"

definition dissolve_vault ::
    "'w crowdloans_config \<Rightarrow> 'w crowdloans_state \<Rightarrow> origin \<Rightarrow> para_id \<Rightarrow> lease_period \<Rightarrow> lease_period
     \<Rightarrow> crowdloans_dispatch_error + 'w crowdloans_state" where
  "dissolve_vault C s o' crowdloan lease_start lease_end =
     bindE (ensure_origin_or_member C (cl_dissolve_origin C) o') (\<lambda>_.
     bindE (ok_or (vaults s (crowdloan, lease_start, lease_end)) (Module VaultDoesNotExist)) (\<lambda>v.
     bindE (ensure (v_phase v = VaultClosed \<or> v_phase v = VaultFailed \<or> v_phase v = VaultExpired) (Module IncorrectVaultPhase)) (\<lambda>_.
     bindE (ensure (\<not> has_childstorage C s v) (Module NotReadyToDissolve)) (\<lambda>_.
     bindE (total_contribution v) (\<lambda>total.
     bindE (ensure (total = 0) (Module NotReadyToDissolve)) (\<lambda>_.
     let s = s\<lparr>vaults := (vaults s)((crowdloan, lease_start, lease_end) := None)\<rparr>;
         s = (case leases_registry s crowdloan of
                None \<Rightarrow> s
              | Some vault_id \<Rightarrow>
                  if vault_id = (lease_start, lease_end)
                  then s\<lparr>leases_registry := (leases_registry s)(crowdloan := None)\<rparr> else s) in
     Inr (cl_deposit_event (VaultDissolved crowdloan (lease_start, lease_end)) s)))))))"

definition refund_for ::
    "'w crowdloans_config \<Rightarrow> 'w crowdloans_state \<Rightarrow> origin \<Rightarrow> nat \<Rightarrow> para_id \<Rightarrow> child_storage_kind \<Rightarrow> balance
     \<Rightarrow> lease_period \<Rightarrow> lease_period \<Rightarrow> crowdloans_dispatch_error + 'w crowdloans_state" where
  "refund_for C s o' dest crowdloan kind amount lease_start lease_end =
     bindE (ensure_origin_or_member C (cl_refund_origin C) o') (\<lambda>_.
     bindE (crowdloans_lookup C dest) (\<lambda>who.
     bindE (ok_or (vaults s (crowdloan, lease_start, lease_end)) (Module VaultDoesNotExist)) (\<lambda>v.
     bindE (ensure (v_phase v = VaultClosed) (Module IncorrectVaultPhase)) (\<lambda>_.
     let (held, _) = contribution_get C s (v_trie_index v) who kind in
     bindE (ensure (held \<ge> amount) (Module InsufficientContribution)) (\<lambda>_.
     bindE (do_refund_for C s who v kind amount) (\<lambda>(v, s).
     Inr (cl_deposit_event (UserRefunded crowdloan (lease_start, lease_end) who kind amount)
            (put_vault (crowdloan, lease_start, lease_end) v s))))))))"

definition update_proxy ::
    "'w crowdloans_config \<Rightarrow> 'w crowdloans_state \<Rightarrow> origin \<Rightarrow> account_id \<Rightarrow> crowdloans_dispatch_error + 'w crowdloans_state" where
  "update_proxy C s o' proxy =
     bindE (ensure_origin (cl_proxy_origin C) o') (\<lambda>_.
     Inr (cl_deposit_event (ProxyUpdated proxy) (s\<lparr>proxy_address := Some proxy\<rparr>)))"

definition update_leases_bonus ::
    "'w crowdloans_config \<Rightarrow> 'w crowdloans_state \<Rightarrow> origin \<Rightarrow> lease_period \<Rightarrow> lease_period \<Rightarrow> bonus_config
     \<Rightarrow> crowdloans_dispatch_error + 'w crowdloans_state" where
  "update_leases_bonus C s o' lease_start lease_end bonus =
     bindE (ensure_origin_or_member C (cl_update_origin C) o') (\<lambda>_.
     bindE (ensure (lease_start \<le> lease_end) (Module LastPeriodBeforeFirstPeriod)) (\<lambda>_.
     bindE (ensure (bonus_check bonus) (Module WrongBonusConfig)) (\<lambda>_.
     Inr (cl_deposit_event (LeasesBonusUpdated (lease_start, lease_end) bonus)
            (s\<lparr>leases_bonus := (leases_bonus s)((lease_start, lease_end) \<mapsto> bonus)\<rparr>)))))"

definition force_claim_for ::
    "'w crowdloans_config \<Rightarrow> 'w crowdloans_state \<Rightarrow> origin \<Rightarrow> nat \<Rightarrow> para_id \<Rightarrow> lease_period \<Rightarrow> lease_period
     \<Rightarrow> crowdloans_dispatch_error + 'w crowdloans_state" where
  "force_claim_for C s o' dest crowdloan lease_start lease_end =
     bindE (ensure_origin_or_member C (cl_slot_expired_origin C) o') (\<lambda>_.
     bindE (crowdloans_lookup C dest) (\<lambda>who.
     do_claim_for C s who crowdloan (lease_start, lease_end) True))"

definition redeem_and_lend_for ::
    "'w crowdloans_config \<Rightarrow> 'w crowdloans_state \<Rightarrow> origin \<Rightarrow> nat \<Rightarrow> para_id \<Rightarrow> lease_period \<Rightarrow> lease_period \<Rightarrow> balance
     \<Rightarrow> crowdloans_dispatch_error + 'w crowdloans_state" where
  "redeem_and_lend_for C s o' dest crowdloan lease_start lease_end amount =
     bindE (ensure_origin_or_member C (cl_slot_expired_origin C) o') (\<lambda>_.
     bindE (crowdloans_lookup C dest) (\<lambda>who.
     bindE (ensure (cl_account_nonce C who > 0) (Module InvalidParams)) (\<lambda>_.
     bindE (crowdloans_do_redeem C s who crowdloan (lease_start, lease_end) amount) (\<lambda>s.
     bindE (map_err External (cl_loans_mint C (cl_world s) who (cl_relay_currency C) amount)) (\<lambda>w.
     Inr (s\<lparr>cl_world := w\<rparr>))))))"

section \<open>Dispatch\<close>

datatype crowdloans_call_kind =
    CreateVault para_id currency_id lease_period lease_period contribution_strategy balance block_number
  | UpdateVault para_id "balance option" "block_number option" "contribution_strategy option"
  | OpenVault para_id
  | ContributeTo para_id balance referral_code
  | SetVrf bool
  | CloseVault para_id
  | ReopenVault para_id
  | AuctionSucceeded para_id
  | AuctionFailed para_id
  | ClaimCtoken para_id lease_period lease_period
  | ClaimFor nat para_id lease_period lease_period
  | WithdrawFailed para_id lease_period lease_period
  | WithdrawFor nat para_id lease_period lease_period
  | RedeemCtoken para_id lease_period lease_period balance
  | SlotExpired para_id
  | MigratePending para_id
  | NotificationReceivedCall query_id xcm_response
  | RefundVault para_id lease_period lease_period
  | DissolveVault para_id lease_period lease_period
  | RefundFor nat para_id child_storage_kind balance lease_period lease_period
  | UpdateProxy account_id
  | UpdateLeasesBonus lease_period lease_period bonus_config
  | ForceClaimFor nat para_id lease_period lease_period
  | RedeemAndLendFor nat para_id lease_period lease_period balance

fun crowdloans_dispatch ::
    "'w crowdloans_config \<Rightarrow> 'w crowdloans_state \<Rightarrow> origin \<Rightarrow> crowdloans_call_kind
     \<Rightarrow> crowdloans_dispatch_error + 'w crowdloans_state" where
  "crowdloans_dispatch C s o' (CreateVault p c ls le st cap e) = create_vault C s o' p c ls le st cap e"
| "crowdloans_dispatch C s o' (UpdateVault p cap e st) = update_vault C s o' p cap e st"
| "crowdloans_dispatch C s o' (OpenVault p) = crowdloan_open C s o' p"
| "crowdloans_dispatch C s o' (ContributeTo p n r) = contribute C s o' p n r"
| "crowdloans_dispatch C s o' (SetVrf b) = set_vrf C s o' b"
| "crowdloans_dispatch C s o' (CloseVault p) = crowdloan_close C s o' p"
| "crowdloans_dispatch C s o' (ReopenVault p) = crowdloan_reopen C s o' p"
| "crowdloans_dispatch C s o' (AuctionSucceeded p) = auction_succeeded C s o' p"
| "crowdloans_dispatch C s o' (AuctionFailed p) = auction_failed C s o' p"
| "crowdloans_dispatch C s o' (ClaimCtoken p ls le) = crowdloan_claim C s o' p ls le"
| "crowdloans_dispatch C s o' (ClaimFor d p ls le) = claim_for C s o' d p ls le"
| "crowdloans_dispatch C s o' (WithdrawFailed p ls le) = crowdloan_withdraw C s o' p ls le"
| "crowdloans_dispatch C s o' (WithdrawFor d p ls le) = withdraw_for C s o' d p ls le"
| "crowdloans_dispatch C s o' (RedeemCtoken p ls le n) = crowdloan_redeem C s o' p ls le n"
| "crowdloans_dispatch C s o' (SlotExpired p) = slot_expired C s o' p"
| "crowdloans_dispatch C s o' (MigratePending p) = migrate_pending C s o' p"
| "crowdloans_dispatch C s o' (NotificationReceivedCall q r) = notification_received C s o' q r"
| "crowdloans_dispatch C s o' (RefundVault p ls le) = crowdloan_refund C s o' p ls le"
| "crowdloans_dispatch C s o' (DissolveVault p ls le) = dissolve_vault C s o' p ls le"
| "crowdloans_dispatch C s o' (RefundFor d p k n ls le) = refund_for C s o' d p k n ls le"
| "crowdloans_dispatch C s o' (UpdateProxy a) = update_proxy C s o' a"
| "crowdloans_dispatch C s o' (UpdateLeasesBonus ls le b) = update_leases_bonus C s o' ls le b"
| "crowdloans_dispatch C s o' (ForceClaimFor d p ls le) = force_claim_for C s o' d p ls le"
| "crowdloans_dispatch C s o' (RedeemAndLendFor d p ls le n) = redeem_and_lend_for C s o' d p ls le n"

end
