(* ===== verification/Crowdloans_Books.thy ===== *)
theory Crowdloans_Books
  imports Crowdloans
begin

text \<open>
  The books of the crowdloans pallet: the totals of a vault agree with the entries of its child tries.

  \<open>vault_books\<close> is the well-formedness of the storage: a vault is stored under its lease, has a trie index of its
  own and the registered ctoken, its pending and flying totals are the sums of the entries of these
  kinds, and tries that are not in use yet are empty.  An operation that works on a copy of a vault and
  stores it at the end is described by the state in which the copy is stored (\<open>put_vault k v s\<close>).

  \<open>vaults_owed\<close> is what the pallet's account has to hold, \<open>contributed_for\<close> what the relay chain owes for a ctoken and
  \<open>claimable_for\<close> the part of it for which no ctoken has been issued yet.
\<close>

section \<open>Child tries\<close>

text \<open>The hash has no collision on the identifiers in use, and the codec encodes an index in four bytes.\<close>

definition no_collisions :: "'w crowdloans_config \<Rightarrow> bool" where
  "no_collisions C \<longleftrightarrow> inj_on (cl_hash C) {kind_label kind @ cl_index_bytes C i | kind i. i \<le> u32_max}"

definition u32_codec :: "'w crowdloans_config \<Rightarrow> bool" where
  "u32_codec C \<longleftrightarrow> (\<forall>i\<le>u32_max. length (cl_index_bytes C i) = 4) \<and> inj_on (cl_index_bytes C) {..u32_max}"

definition tries_apart :: "'w crowdloans_config \<Rightarrow> bool" where
  "tries_apart C \<longleftrightarrow> no_collisions C \<and> u32_codec C"

lemma kind_label_inj: "kind_label kind = kind_label kind' \<longleftrightarrow> kind = kind'"
  by (cases kind; cases kind') (simp_all add: kind_label_def)

lemma id_from_index_eq:
  assumes "tries_apart C" and "i \<le> u32_max" and "j \<le> u32_max"
  shows "id_from_index C i kind = id_from_index C j kind' \<longleftrightarrow> i = j \<and> kind = kind'"
proof
  assume "id_from_index C i kind = id_from_index C j kind'"
  then have "kind_label kind @ cl_index_bytes C i = kind_label kind' @ cl_index_bytes C j"
    using assms unfolding tries_apart_def no_collisions_def id_from_index_def
    by (blast dest: inj_onD)
  moreover have "length (cl_index_bytes C i) = length (cl_index_bytes C j)"
    using assms by (simp add: tries_apart_def u32_codec_def)
  ultimately have "kind_label kind = kind_label kind'" "cl_index_bytes C i = cl_index_bytes C j"
    by simp_all
  then show "i = j \<and> kind = kind'"
    using assms by (auto simp: kind_label_inj tries_apart_def u32_codec_def dest: inj_onD)
qed simp

definition trie_sum :: "'w crowdloans_config \<Rightarrow> 'w crowdloans_state \<Rightarrow> trie_index \<Rightarrow> child_storage_kind \<Rightarrow> balance" where
  "trie_sum C s i kind = sum_entries fst (contributions C s i kind)"

lemma sum_entries_fst_update:
  assumes "finite (dom m)"
  shows "sum_entries fst (m(who := if n = 0 then None else Some (n, r))) + (case m who of None \<Rightarrow> 0 | Some c \<Rightarrow> fst c)
    = sum_entries fst m + (n::nat)"
  using sum_entries_upd [OF assms, of fst who "(n, r)"] sum_entries_del [OF assms, of fst who] by simp

section \<open>Changing a contribution\<close>

definition kind_total :: "child_storage_kind \<Rightarrow> vault \<Rightarrow> balance" where
  "kind_total kind v =
     (case kind of KindPending \<Rightarrow> v_pending v | KindFlying \<Rightarrow> v_flying v | KindContributed \<Rightarrow> v_contributed v)"

definition set_kind_total :: "child_storage_kind \<Rightarrow> balance \<Rightarrow> vault \<Rightarrow> vault" where
  "set_kind_total kind n v =
     (case kind of KindPending \<Rightarrow> v\<lparr>v_pending := n\<rparr> | KindFlying \<Rightarrow> v\<lparr>v_flying := n\<rparr> | KindContributed \<Rightarrow> v\<lparr>v_contributed := n\<rparr>)"

definition gains :: "arithmetic_kind \<Rightarrow> balance \<Rightarrow> balance" where
  "gains ar n = (case ar of Addition \<Rightarrow> n | Subtraction \<Rightarrow> 0)"

definition loses :: "arithmetic_kind \<Rightarrow> balance \<Rightarrow> balance" where
  "loses ar n = (case ar of Addition \<Rightarrow> 0 | Subtraction \<Rightarrow> n)"

definition put_entry ::
    "'w crowdloans_config \<Rightarrow> trie_index \<Rightarrow> child_storage_kind \<Rightarrow> account_id \<Rightarrow> contribution option \<Rightarrow> 'w crowdloans_state
     \<Rightarrow> 'w crowdloans_state" where
  "put_entry C i kind who e s =
     s\<lparr>child_storage := (child_storage s)(id_from_index C i kind := (contributions C s i kind)(who := e))\<rparr>"

lemma contribution_writes:
  "contribution_kill C i who kind s = put_entry C i kind who None s"
  "contribution_put C i who n r kind s = put_entry C i kind who (Some (n, r)) s"
  by (simp_all add: contribution_kill_def contribution_put_def put_entry_def)

lemma put_entry_fields [simp]:
  "vaults (put_entry C i kind who e s) = vaults s"
  "is_vrf (put_entry C i kind who e s) = is_vrf s"
  "ctokens_registry (put_entry C i kind who e s) = ctokens_registry s"
  "leases_registry (put_entry C i kind who e s) = leases_registry s"
  "next_trie_index (put_entry C i kind who e s) = next_trie_index s"
  "xcm_requests (put_entry C i kind who e s) = xcm_requests s"
  "cl_world (put_entry C i kind who e s) = cl_world s"
  by (simp_all add: put_entry_def)

lemma contributions_put_entry:
  assumes "tries_apart C" and "i \<le> u32_max" and "j \<le> u32_max"
  shows "contributions C (put_entry C i kind who e s) j kind' =
    (if i = j \<and> kind = kind' then (contributions C s i kind)(who := e) else contributions C s j kind')"
  using id_from_index_eq [OF assms, of kind kind'] id_from_index_eq [OF assms(1,3,2), of kind' kind]
  by (auto simp: contributions_def put_entry_def)

lemma set_kind_total_fields [simp]:
  "v_trie_index (set_kind_total kind n v) = v_trie_index v"
  "v_ctoken (set_kind_total kind n v) = v_ctoken v"
  "v_phase (set_kind_total kind n v) = v_phase v"
  "v_strategy (set_kind_total kind n v) = v_strategy v"
  "v_cap (set_kind_total kind n v) = v_cap v"
  "vault_lease (set_kind_total kind n v) = vault_lease v"
  "kind_total kind' (set_kind_total kind n v) = (if kind' = kind then n else kind_total kind' v)"
  by (cases kind; cases kind'; simp add: set_kind_total_def vault_lease_def kind_total_def)+

text \<open>One form for the six branches: the total and the entry gain or lose the amount.\<close>

lemma do_update_contribution_effect:
  assumes "do_update_contribution C s who v amount r ar kind = Inr (r', v', s')"
  obtains total n where
    "v' = set_kind_total kind total v"
    "total + loses ar amount = kind_total kind v + gains ar amount"
    "n + loses ar amount = fst (contribution_get C s (v_trie_index v) who kind) + gains ar amount"
    "s' = put_entry C (v_trie_index v) kind who (if n = 0 then None else Some (n, r')) s"
proof -
  obtain held old where h: "contribution_get C s (v_trie_index v) who kind = (held, old)" by (cases "contribution_get C s (v_trie_index v) who kind")
  define total n where "total = kind_total kind v + gains ar amount - loses ar amount" and "n = held + gains ar amount - loses ar amount"
  have "v' = set_kind_total kind total v \<and> loses ar amount \<le> kind_total kind v + gains ar amount \<and> loses ar amount \<le> held + gains ar amount \<and>
      s' = (if n = 0 then contribution_kill C (v_trie_index v) who kind s else contribution_put C (v_trie_index v) who n r' kind s)"
    using assms unfolding do_update_contribution_def Let_def h total_def n_def
    by (cases kind; cases ar) (auto simp: set_kind_total_def kind_total_def gains_def loses_def)
  then have 1: "v' = set_kind_total kind total v" and 2: "total + loses ar amount = kind_total kind v + gains ar amount"
      and 3: "n + loses ar amount = held + gains ar amount"
      and 4: "s' = (if n = 0 then contribution_kill C (v_trie_index v) who kind s
                   else contribution_put C (v_trie_index v) who n r' kind s)"
    by (auto simp: total_def n_def)
  show thesis
    by (rule that [OF 1 2]) (use 3 4 in \<open>auto simp: h contribution_writes\<close>)
qed

section \<open>Well-formed books\<close>

definition vault_ok :: "'w crowdloans_config \<Rightarrow> 'w crowdloans_state \<Rightarrow> para_id \<times> vault_id \<Rightarrow> vault \<Rightarrow> bool" where
  "vault_ok C s k v \<longleftrightarrow>
     snd k = vault_lease v \<and> v_trie_index v < next_trie_index s \<and> ctokens_registry s (snd k) = Some (v_ctoken v) \<and>
     v_pending v = trie_sum C s (v_trie_index v) KindPending \<and> v_flying v = trie_sum C s (v_trie_index v) KindFlying"

definition own_tries :: "'w crowdloans_state \<Rightarrow> bool" where
  "own_tries s \<longleftrightarrow>
     (\<forall>k k' v v'. vaults s k = Some v \<longrightarrow> vaults s k' = Some v' \<longrightarrow> v_trie_index v = v_trie_index v' \<longrightarrow> k = k')"

definition unused_tries_empty :: "'w crowdloans_config \<Rightarrow> 'w crowdloans_state \<Rightarrow> bool" where
  "unused_tries_empty C s \<longleftrightarrow>
     (\<forall>i kind. next_trie_index s \<le> i \<longrightarrow> i \<le> u32_max \<longrightarrow> contributions C s i kind = Map.empty)"

definition vault_books :: "'w crowdloans_config \<Rightarrow> 'w crowdloans_state \<Rightarrow> bool" where
  "vault_books C s \<longleftrightarrow>
     finite (dom (vaults s)) \<and> next_trie_index s \<le> u32_max \<and> (\<forall>i. covers (cl_accounts C) (child_storage s i)) \<and>
     own_tries s \<and> unused_tries_empty C s \<and> (\<forall>k v. vaults s k = Some v \<longrightarrow> vault_ok C s k v)"

definition vaults_owed :: "'w crowdloans_state \<Rightarrow> balance" where
  "vaults_owed s = sum_entries (\<lambda>v. v_pending v + v_flying v) (vaults s)"

definition ctoken_share :: "currency_id \<Rightarrow> vault \<Rightarrow> balance" where
  "ctoken_share c v = (if v_ctoken v = c then v_contributed v else 0)"

definition ctoken_claims :: "'w crowdloans_config \<Rightarrow> 'w crowdloans_state \<Rightarrow> currency_id \<Rightarrow> vault \<Rightarrow> balance" where
  "ctoken_claims C s c v = (if v_ctoken v = c then trie_sum C s (v_trie_index v) KindContributed else 0)"

definition contributed_for :: "currency_id \<Rightarrow> 'w crowdloans_state \<Rightarrow> balance" where
  "contributed_for c s = sum_entries (ctoken_share c) (vaults s)"

definition claimable_for :: "'w crowdloans_config \<Rightarrow> currency_id \<Rightarrow> 'w crowdloans_state \<Rightarrow> balance" where
  "claimable_for C c s = sum_entries (ctoken_claims C s c) (vaults s)"

lemma put_vault_fields [simp]:
  "vaults (put_vault k v s) = (vaults s)(k \<mapsto> v)"
  "child_storage (put_vault k v s) = child_storage s"
  "next_trie_index (put_vault k v s) = next_trie_index s"
  "ctokens_registry (put_vault k v s) = ctokens_registry s"
  "leases_registry (put_vault k v s) = leases_registry s"
  "xcm_requests (put_vault k v s) = xcm_requests s"
  "is_vrf (put_vault k v s) = is_vrf s"
  "cl_world (put_vault k v s) = cl_world s"
  by (simp_all add: put_vault_def)

lemma put_vault_same: "vaults s k = Some v \<Longrightarrow> put_vault k v s = s"
  by (simp add: put_vault_def fun_upd_idem)

text \<open>The books only look at five storage items.\<close>

definition same_books :: "'w crowdloans_state \<Rightarrow> 'w crowdloans_state \<Rightarrow> bool" where
  "same_books s s' \<longleftrightarrow> vaults s' = vaults s \<and> child_storage s' = child_storage s \<and>
     next_trie_index s' = next_trie_index s \<and> ctokens_registry s' = ctokens_registry s"

lemma same_books_contributions: "same_books s s' \<Longrightarrow> contributions C s' = contributions C s"
  by (rule ext)+ (simp add: contributions_def same_books_def)

lemma same_books_claims: "same_books s s' \<Longrightarrow> ctoken_claims C s' c = ctoken_claims C s c"
  by (rule ext) (simp add: ctoken_claims_def trie_sum_def same_books_contributions)

lemma same_booksD:
  assumes "same_books s s'"
  shows "vault_books C s' \<longleftrightarrow> vault_books C s" and "vaults_owed s' = vaults_owed s"
    and "contributed_for c s' = contributed_for c s" and "claimable_for C c s' = claimable_for C c s"
  using assms same_books_contributions [OF assms, of C] same_books_claims [OF assms]
  by (simp_all add: same_books_def vault_books_def vault_ok_def own_tries_def unused_tries_empty_def trie_sum_def
      vaults_owed_def contributed_for_def claimable_for_def)

text \<open>A vault that only changes in its phase, cap, end block or strategy.\<close>

definition same_money :: "vault \<Rightarrow> vault \<Rightarrow> bool" where
  "same_money v v' \<longleftrightarrow> v_ctoken v' = v_ctoken v \<and> v_contributed v' = v_contributed v \<and> v_pending v' = v_pending v \<and>
     v_flying v' = v_flying v \<and> v_trie_index v' = v_trie_index v \<and> vault_lease v' = vault_lease v"

lemma contributions_put_vault [simp]: "contributions C (put_vault k v s) = contributions C s"
  by (rule ext)+ (simp add: contributions_def)

lemma trie_sum_put_vault [simp]: "trie_sum C (put_vault k v s) = trie_sum C s"
  by (rule ext)+ (simp add: trie_sum_def)

lemma ctoken_claims_put_vault [simp]: "ctoken_claims C (put_vault k v s) c = ctoken_claims C s c"
  by (rule ext) (simp add: ctoken_claims_def)

lemma sum_entries_replace:
  assumes "finite (dom m)" and "m k = Some v"
  shows "sum_entries f (m(k \<mapsto> v')) + f v = sum_entries f m + f v'"
  using sum_entries_upd [OF assms(1), of f k v'] assms(2) by simp

lemma put_vault_same_money:
  assumes "vault_books C s" and "vaults s k = Some v" and "same_money v v'"
  shows "vault_books C (put_vault k v' s)" and "vaults_owed (put_vault k v' s) = vaults_owed s"
    and "contributed_for c (put_vault k v' s) = contributed_for c s"
    and "claimable_for C c (put_vault k v' s) = claimable_for C c s"
proof -
  have fin: "finite (dom (vaults s))" using assms(1) by (simp add: vault_books_def)
  show "vault_books C (put_vault k v' s)"
    using assms unfolding vault_books_def
    by (auto simp: vault_ok_def own_tries_def unused_tries_empty_def same_money_def)
  show "vaults_owed (put_vault k v' s) = vaults_owed s"
    using sum_entries_replace [OF fin assms(2), of "\<lambda>v. v_pending v + v_flying v" v'] assms(3)
    by (simp add: vaults_owed_def same_money_def)
  show "contributed_for c (put_vault k v' s) = contributed_for c s"
    using sum_entries_replace [OF fin assms(2), of "ctoken_share c" v'] assms(3)
    by (simp add: contributed_for_def same_money_def ctoken_share_def split: if_splits)
  show "claimable_for C c (put_vault k v' s) = claimable_for C c s"
    using sum_entries_replace [OF fin assms(2), of "ctoken_claims C s c" v'] assms(3)
    by (simp add: claimable_for_def same_money_def ctoken_claims_def split: if_splits)
qed

section \<open>The effect of a changed contribution on the books\<close>

lemma covers_update: "covers ks m \<Longrightarrow> (e \<noteq> None \<Longrightarrow> who \<in> set ks) \<Longrightarrow> covers ks (m(who := e))"
  by (auto simp: covers_def split: if_splits)

lemma covers_finite: "covers ks m \<Longrightarrow> finite (dom m)"
  by (auto simp: covers_def intro: finite_subset)

lemma vault_books_finite: "vault_books C s \<Longrightarrow> finite (dom (contributions C s i kind))"
  by (auto simp: vault_books_def contributions_def intro: covers_finite)

lemma vault_booksD:
  assumes "vault_books C s" and "vaults s k = Some v"
  shows "vault_ok C s k v" and "v_trie_index v \<le> u32_max"
proof -
  show "vault_ok C s k v" using assms unfolding vault_books_def by blast
  with assms(1) show "v_trie_index v \<le> u32_max" by (simp add: vault_books_def vault_ok_def)
qed

lemma own_tries_diff:
  "vault_books C s \<Longrightarrow> vaults s k = Some v \<Longrightarrow> vaults s k' = Some v' \<Longrightarrow> k \<noteq> k' \<Longrightarrow> v_trie_index v \<noteq> v_trie_index v'"
  unfolding vault_books_def own_tries_def by blast

lemma trie_sum_update:
  assumes "tries_apart C" and "vault_books C (put_vault k v s)"
    and "do_update_contribution C s who v amount r ar kind = Inr (r', v', s')" and "j \<le> u32_max"
  shows "trie_sum C s' j kind' + (if v_trie_index v = j \<and> kind' = kind then loses ar amount else 0)
    = trie_sum C s j kind' + (if v_trie_index v = j \<and> kind' = kind then gains ar amount else 0)"
proof -
  let ?i = "v_trie_index v"
  from assms(3) obtain total n where
      n: "n + loses ar amount = fst (contribution_get C s ?i who kind) + gains ar amount"
      and s': "s' = put_entry C ?i kind who (if n = 0 then None else Some (n, r')) s"
    by (rule do_update_contribution_effect)
  have i: "?i \<le> u32_max" using vault_booksD(2) [OF assms(2), of k v] by simp
  have fin: "finite (dom (contributions C s ?i kind))" using vault_books_finite [OF assms(2)] by simp
  have held: "fst (contribution_get C s ?i who kind) = (case contributions C s ?i kind who of None \<Rightarrow> 0 | Some c \<Rightarrow> fst c)"
    by (simp add: contribution_get_def split: option.split)
  show ?thesis
    using sum_entries_fst_update [OF fin, of who n r'] n contributions_put_entry [OF assms(1) i assms(4), of kind who _ s kind']
    unfolding s' trie_sum_def held by (auto simp del: fun_upd_apply)
qed

lemma update_keeps_covers:
  assumes "\<forall>i. covers (cl_accounts C) (child_storage s i)"
    and "do_update_contribution C s who v amount r ar kind = Inr (r', v', s')"
    and "ar = Addition \<Longrightarrow> amount \<noteq> 0 \<Longrightarrow> who \<in> set (cl_accounts C)"
  shows "\<forall>i. covers (cl_accounts C) (child_storage s' i)"
proof -
  let ?i = "v_trie_index v"
  from assms(2) obtain total n where
      n: "n + loses ar amount = fst (contribution_get C s ?i who kind) + gains ar amount"
      and s': "s' = put_entry C ?i kind who (if n = 0 then None else Some (n, r')) s"
    by (rule do_update_contribution_effect)
  have "who \<in> set (cl_accounts C)" if "n \<noteq> 0"
  proof (cases "contributions C s ?i kind who")
    case None
    then have "ar = Addition \<and> amount \<noteq> 0"
      using n that by (cases ar) (auto simp: contribution_get_def gains_def loses_def)
    then show ?thesis using assms(3) by simp
  next
    case (Some c)
    have "covers (cl_accounts C) (contributions C s ?i kind)" using assms(1) by (simp add: contributions_def)
    with Some show ?thesis by (auto simp: covers_def)
  qed
  then have "covers (cl_accounts C) ((contributions C s ?i kind)(who := if n = 0 then None else Some (n, r')))"
    using assms(1) by (intro covers_update) (auto simp: contributions_def split: if_splits)
  with assms(1) show ?thesis unfolding s' put_entry_def by auto
qed

lemma own_tries_put:
  assumes "own_tries (put_vault k v s)" and "v_trie_index v' = v_trie_index v" and "vaults s' = vaults s"
  shows "own_tries (put_vault k v' s')"
  unfolding own_tries_def
proof (intro allI impI)
  fix x y w w'
  assume x: "vaults (put_vault k v' s') x = Some w" and y: "vaults (put_vault k v' s') y = Some w'"
    and eq: "v_trie_index w = v_trie_index w'"
  let ?u = "\<lambda>z u. if z = k then v else u"
  have "vaults (put_vault k v s) x = Some (?u x w)" "vaults (put_vault k v s) y = Some (?u y w')"
    using x y assms(3) by (auto split: if_splits)
  moreover have "v_trie_index (?u x w) = v_trie_index (?u y w')"
    using x y eq assms(2) by (auto split: if_splits)
  ultimately show "x = y" using assms(1) unfolding own_tries_def by blast
qed

lemma vault_books_update:
  assumes "tries_apart C" and books: "vault_books C (put_vault k v s)"
    and upd: "do_update_contribution C s who v amount r ar kind = Inr (r', v', s')"
    and "ar = Addition \<Longrightarrow> amount \<noteq> 0 \<Longrightarrow> who \<in> set (cl_accounts C)"
  shows "vault_books C (put_vault k v' s')"
proof -
  from upd obtain total n where
      v': "v' = set_kind_total kind total v" and total: "total + loses ar amount = kind_total kind v + gains ar amount"
      and s': "s' = put_entry C (v_trie_index v) kind who (if n = 0 then None else Some (n, r')) s"
    by (rule do_update_contribution_effect)
  note sums = trie_sum_update [OF assms(1) books upd]
  have used: "v_trie_index w < next_trie_index s \<and> next_trie_index s \<le> u32_max"
    if "(vaults (put_vault k v s)) k' = Some w" for k' w
    using vault_booksD(1) [OF books that] books by (simp add: vault_ok_def vault_books_def)
  have vok: "vault_ok C (put_vault k v s) k v" using vault_booksD(1) [OF books, of k v] by simp
  have "vault_ok C (put_vault k v' s') k v'"
    using vok sums [of "v_trie_index v" KindPending] sums [of "v_trie_index v" KindFlying] used [of k v] total
    unfolding vault_ok_def v'
    by (cases kind) (auto simp: s' set_kind_total_def kind_total_def vault_lease_def)
  moreover have "vault_ok C (put_vault k v' s') k' w" if w: "vaults s k' = Some w" and "k' \<noteq> k" for k' w
  proof -
    have w': "vaults (put_vault k v s) k' = Some w" using that by simp
    have "v_trie_index v \<noteq> v_trie_index w"
      using own_tries_diff [OF books, of k v k' w] that by simp
    with vault_booksD(1) [OF books w'] sums [of "v_trie_index w"] used [OF w'] show ?thesis
      by (auto simp: vault_ok_def s')
  qed
  moreover have "own_tries (put_vault k v' s')"
    by (rule own_tries_put [of k v s]) (use books in \<open>simp_all add: vault_books_def v' s'\<close>)
  moreover have "unused_tries_empty C (put_vault k v' s')"
    using books used [of k v] contributions_put_entry [OF assms(1), of "v_trie_index v"]
    by (auto simp: vault_books_def unused_tries_empty_def s')
  moreover have "\<forall>i. covers (cl_accounts C) (child_storage s' i)"
    by (rule update_keeps_covers [OF _ upd assms(4)]) (use books in \<open>simp_all add: vault_books_def\<close>)
  moreover have "vaults s' = vaults s" "next_trie_index s' = next_trie_index s" by (simp_all add: s')
  ultimately show ?thesis
    using books by (auto simp: vault_books_def simp del: split_paired_All)
qed

lemma vaults_owed_update:
  assumes "vault_books C (put_vault k v s)" and "do_update_contribution C s who v amount r ar kind = Inr (r', v', s')"
  shows "vaults_owed (put_vault k v' s') + (if kind = KindContributed then 0 else loses ar amount)
    = vaults_owed (put_vault k v s) + (if kind = KindContributed then 0 else gains ar amount)"
proof -
  from assms(2) obtain total n where
      v': "v' = set_kind_total kind total v" and total: "total + loses ar amount = kind_total kind v + gains ar amount"
      and s': "s' = put_entry C (v_trie_index v) kind who (if n = 0 then None else Some (n, r')) s"
    by (rule do_update_contribution_effect)
  have "finite (dom (vaults (put_vault k v s)))" using assms(1) unfolding vault_books_def by blast
  from sum_entries_replace [OF this, of k v "\<lambda>v. v_pending v + v_flying v" v'] total show ?thesis
    by (cases kind) (auto simp: vaults_owed_def s' v' set_kind_total_def kind_total_def)
qed

lemma backing_update:
  assumes "tries_apart C" and books: "vault_books C (put_vault k v s)"
    and upd: "do_update_contribution C s who v amount r ar kind = Inr (r', v', s')"
  shows "contributed_for c (put_vault k v' s') + claimable_for C c (put_vault k v s)
    = contributed_for c (put_vault k v s) + claimable_for C c (put_vault k v' s')"
proof -
  from upd obtain total n where
      v': "v' = set_kind_total kind total v" and total: "total + loses ar amount = kind_total kind v + gains ar amount"
      and s': "s' = put_entry C (v_trie_index v) kind who (if n = 0 then None else Some (n, r')) s"
    by (rule do_update_contribution_effect)
  let ?m = "vaults (put_vault k v s)"
  let ?g = "\<lambda>t. ctoken_claims C t c"
  have fin: "finite (dom ?m)" using books unfolding vault_books_def by blast
  have "?g s' (the (?m x)) = ?g s (the (?m x))" if x: "x \<in> dom ?m - {k}" for x
  proof -
    from x obtain w where w: "?m x = Some w" by blast
    have "v_trie_index v \<noteq> v_trie_index w" using own_tries_diff [OF books _ w, of k v] x by auto
    with trie_sum_update [OF assms(1) books upd vault_booksD(2) [OF books w]] w show ?thesis
      by (simp add: ctoken_claims_def)
  qed
  then have "(\<Sum>x\<in>dom ?m - {k}. ?g s' (the (?m x))) = (\<Sum>x\<in>dom ?m - {k}. ?g s (the (?m x)))"
    by (rule sum.cong [OF refl])
  moreover have "sum_entries (?g t) ?m = ?g t v + (\<Sum>x\<in>dom ?m - {k}. ?g t (the (?m x)))" for t
    unfolding sum_entries_def using sum.remove [OF fin, of k "\<lambda>x. ?g t (the (?m x))"] by simp
  ultimately have claims: "sum_entries (?g s') ?m + ?g s v = sum_entries (?g s) ?m + ?g s' v"
    by simp
  have g: "?g s' v' = ?g s' v" by (simp add: ctoken_claims_def v')
  have "ctoken_share c v' + ?g s v = ctoken_share c v + ?g s' v"
    using trie_sum_update [OF assms(1) books upd vault_booksD(2) [OF books, of k v], of KindContributed] total
    by (cases kind) (auto simp: ctoken_share_def ctoken_claims_def v' set_kind_total_def kind_total_def)
  moreover have "claimable_for C c (put_vault k v' s') = sum_entries (?g s') ?m"
    using sum_entries_replace [OF fin, of k v "?g s'" v'] g by (simp add: claimable_for_def s')
  ultimately show ?thesis
    using claims sum_entries_replace [OF fin, of k v "ctoken_share c" v']
    by (simp add: contributed_for_def claimable_for_def s')
qed

text \<open>What the change of a contribution leaves alone.\<close>

definition entry_frame :: "'w crowdloans_state \<Rightarrow> 'w crowdloans_state \<Rightarrow> bool" where
  "entry_frame s s' \<longleftrightarrow> vaults s' = vaults s \<and> next_trie_index s' = next_trie_index s \<and>
     ctokens_registry s' = ctokens_registry s \<and> leases_registry s' = leases_registry s \<and>
     xcm_requests s' = xcm_requests s \<and> is_vrf s' = is_vrf s \<and> cl_world s' = cl_world s"

definition vault_frame :: "vault \<Rightarrow> vault \<Rightarrow> bool" where
  "vault_frame v v' \<longleftrightarrow> v_phase v' = v_phase v \<and> v_ctoken v' = v_ctoken v \<and> v_trie_index v' = v_trie_index v \<and>
     v_strategy v' = v_strategy v \<and> v_cap v' = v_cap v \<and> vault_lease v' = vault_lease v"

lemma update_frame:
  assumes "do_update_contribution C s who v amount r ar kind = Inr (r', v', s')"
  shows "entry_frame s s'" and "vault_frame v v'"
proof -
  from assms obtain total n where "v' = set_kind_total kind total v"
      and "s' = put_entry C (v_trie_index v) kind who (if n = 0 then None else Some (n, r')) s"
    by (rule do_update_contribution_effect)
  then show "entry_frame s s'" "vault_frame v v'" by (simp_all add: entry_frame_def vault_frame_def)
qed

lemma subtraction_known:
  assumes "vault_books C (put_vault k v s)"
    and "do_update_contribution C s who v amount r Subtraction kind = Inr (r', v', s')" and "amount \<noteq> 0"
  shows "who \<in> set (cl_accounts C)"
proof -
  from assms(2) obtain total n where
      n: "n + loses Subtraction amount = fst (contribution_get C s (v_trie_index v) who kind) + gains Subtraction amount"
    by (rule do_update_contribution_effect)
  then obtain c where "contributions C s (v_trie_index v) kind who = Some c"
    using assms(3) by (auto simp: contribution_get_def gains_def loses_def split: option.splits)
  moreover have "covers (cl_accounts C) (contributions C s (v_trie_index v) kind)"
    using assms(1) by (simp add: vault_books_def contributions_def)
  ultimately show ?thesis by (auto simp: covers_def)
qed

lemma migrate_effect:
  assumes "tries_apart C" and "vault_books C (put_vault k v s)"
    and "do_migrate_contribution C s who v amount src dst = Inr (v', s')"
  shows "vault_books C (put_vault k v' s')"
    and "src \<noteq> KindContributed \<Longrightarrow>
      vaults_owed (put_vault k v' s') + (if dst = KindContributed then amount else 0) = vaults_owed (put_vault k v s)"
    and "contributed_for c (put_vault k v' s') + claimable_for C c (put_vault k v s)
      = contributed_for c (put_vault k v s) + claimable_for C c (put_vault k v' s')"
    and "entry_frame s s'" and "vault_frame v v'"
proof -
  from assms(3) obtain r v1 s1 r' where
      1: "do_update_contribution C s who v amount None Subtraction src = Inr (r, v1, s1)"
      and 2: "do_update_contribution C s1 who v1 amount (Some r) Addition dst = Inr (r', v', s')"
    unfolding do_migrate_contribution_def by (elim resultE) auto
  have b1: "vault_books C (put_vault k v1 s1)"
    by (rule vault_books_update [OF assms(1,2) 1]) simp
  show "vault_books C (put_vault k v' s')"
    by (rule vault_books_update [OF assms(1) b1 2]) (rule subtraction_known [OF assms(2) 1])
  show "vaults_owed (put_vault k v' s') + (if dst = KindContributed then amount else 0) = vaults_owed (put_vault k v s)"
    if "src \<noteq> KindContributed"
    using vaults_owed_update [OF assms(2) 1] vaults_owed_update [OF b1 2] that by (auto simp: gains_def loses_def split: if_splits)
  show "contributed_for c (put_vault k v' s') + claimable_for C c (put_vault k v s)
      = contributed_for c (put_vault k v s) + claimable_for C c (put_vault k v' s')"
    using backing_update [OF assms(1,2) 1, of c] backing_update [OF assms(1) b1 2, of c] by linarith
  show "entry_frame s s'" "vault_frame v v'"
    using update_frame [OF 1] update_frame [OF 2] by (auto simp: entry_frame_def vault_frame_def)
qed

section \<open>The effect of payments on the books\<close>

lemma set_contributed_effect:
  assumes "vault_books C s" and "vaults s k = Some v"
  shows "vault_books C (put_vault k (v\<lparr>v_contributed := n\<rparr>) s)"
    and "vaults_owed (put_vault k (v\<lparr>v_contributed := n\<rparr>) s) = vaults_owed s"
    and "claimable_for C c (put_vault k (v\<lparr>v_contributed := n\<rparr>) s) = claimable_for C c s"
    and "contributed_for c (put_vault k (v\<lparr>v_contributed := n\<rparr>) s) + (if v_ctoken v = c then v_contributed v else 0)
      = contributed_for c s + (if v_ctoken v = c then n else 0)"
proof -
  let ?v = "v\<lparr>v_contributed := n\<rparr>"
  have fin: "finite (dom (vaults s))" using assms(1) by (simp add: vault_books_def)
  have "vault_ok C (put_vault k ?v s) x w" if "vaults (put_vault k ?v s) x = Some w" for x w
    using that vault_booksD(1) [OF assms(1), of x w] vault_booksD(1) [OF assms(1,2)]
    by (cases "x = k") (auto simp: vault_ok_def vault_lease_def)
  moreover have "own_tries (put_vault k ?v s)"
    by (rule own_tries_put [of k v s]) (use assms in \<open>simp_all add: put_vault_same vault_books_def\<close>)
  ultimately show "vault_books C (put_vault k ?v s)"
    using assms by (auto simp: vault_books_def unused_tries_empty_def simp del: split_paired_All)
  show "vaults_owed (put_vault k ?v s) = vaults_owed s"
    using sum_entries_replace [OF fin assms(2), of "\<lambda>v. v_pending v + v_flying v" ?v] by (simp add: vaults_owed_def)
  show "claimable_for C c (put_vault k ?v s) = claimable_for C c s"
    using sum_entries_replace [OF fin assms(2), of "ctoken_claims C s c" ?v]
    by (simp add: claimable_for_def ctoken_claims_def split: if_splits)
  show "contributed_for c (put_vault k ?v s) + (if v_ctoken v = c then v_contributed v else 0)
      = contributed_for c s + (if v_ctoken v = c then n else 0)"
    using sum_entries_replace [OF fin assms(2), of "ctoken_share c" ?v]
    by (simp add: contributed_for_def ctoken_share_def)
qed

lemma kill_is_update:
  assumes "contribution_get C s (v_trie_index v) who KindContributed = (amount, r)" and "amount \<le> v_contributed v"
  shows "do_update_contribution C s who v amount None Subtraction KindContributed =
    Inr (r, v\<lparr>v_contributed := v_contributed v - amount\<rparr>, contribution_kill C (v_trie_index v) who KindContributed s)"
  using assms by (simp add: do_update_contribution_def checked_sub_def)

lemma kill_effect:
  assumes "tries_apart C" and "vault_books C s" and "vaults s k = Some v"
    and "contribution_get C s (v_trie_index v) who KindContributed = (amount, r)"
  defines "s' \<equiv> contribution_kill C (v_trie_index v) who KindContributed s"
  shows "vault_books C s'" and "vaults_owed s' = vaults_owed s" and "contributed_for c s' = contributed_for c s"
    and "claimable_for C c s' + (if v_ctoken v = c then amount else 0) = claimable_for C c s"
    and "entry_frame s s'"
proof -
  define u where "u = v\<lparr>v_contributed := v_contributed v + amount\<rparr>"
  have b: "vault_books C (put_vault k u s)" unfolding u_def by (rule set_contributed_effect(1) [OF assms(2,3)])
  have upd: "do_update_contribution C s who u amount None Subtraction KindContributed = Inr (r, v, s')"
    using kill_is_update [of C s u who amount r] assms(4) by (simp add: u_def s'_def)
  have fr: "entry_frame s s'" by (rule update_frame(1) [OF upd])
  have same: "put_vault k v s' = s'" using assms(3) fr by (simp add: put_vault_same entry_frame_def)
  show "vault_books C s'" using vault_books_update [OF assms(1) b upd] same by simp
  show "vaults_owed s' = vaults_owed s"
    using vaults_owed_update [OF b upd] set_contributed_effect(2) [OF assms(2,3), of "v_contributed v + amount"] same
    by (simp add: u_def)
  show "contributed_for c s' = contributed_for c s" using fr by (simp add: contributed_for_def entry_frame_def)
  then show "claimable_for C c s' + (if v_ctoken v = c then amount else 0) = claimable_for C c s"
    using backing_update [OF assms(1) b upd, of c] same
      set_contributed_effect(3,4) [OF assms(2,3), where c = c and n = "v_contributed v + amount"]
    by (simp add: u_def split: if_splits)
  show "entry_frame s s'" by (rule fr)
qed

section \<open>New and dissolved vaults\<close>

lemma create_effect:
  assumes "vault_books C s" and "vaults s (p, lease) = None" and "next_trie_index s + 1 \<le> u32_max"
    and "ctokens_registry s lease = None \<or> ctokens_registry s lease = Some c'"
    and "vaults s' = (vaults s)((p, lease) \<mapsto> new_vault (fst lease) (snd lease) c' st cap e (next_trie_index s))"
    and "child_storage s' = child_storage s" and "next_trie_index s' = next_trie_index s + 1"
    and "ctokens_registry s' = (ctokens_registry s)(lease \<mapsto> c')"
  shows "vault_books C s'" and "vaults_owed s' = vaults_owed s" and "contributed_for c s' = contributed_for c s"
    and "claimable_for C c s' = claimable_for C c s"
proof -
  let ?i = "next_trie_index s"
  let ?v = "new_vault (fst lease) (snd lease) c' st cap e ?i"
  have fin: "finite (dom (vaults s))" using assms(1) by (simp add: vault_books_def)
  have cs: "contributions C s' = contributions C s" by (rule ext)+ (simp add: contributions_def assms(6))
  have ts: "trie_sum C s' = trie_sum C s" by (rule ext)+ (simp add: trie_sum_def cs)
  have "contributions C s ?i kind = Map.empty" for kind
    using assms(1,3) by (simp add: vault_books_def unused_tries_empty_def)
  then have empty: "trie_sum C s ?i kind = 0" for kind by (simp add: trie_sum_def)
  have used: "v_trie_index w < ?i" if "vaults s x = Some w" for x w
    using vault_booksD(1) [OF assms(1) that] by (simp add: vault_ok_def)
  have "vault_ok C s' x w" if "vaults s' x = Some w" for x w
  proof (cases "x = (p, lease)")
    case True
    with that have "w = ?v" by (simp add: assms(5))
    with True show ?thesis by (simp add: assms(5,7,8) vault_ok_def new_vault_def vault_lease_def ts empty)
  next
    case False
    with that have "vaults s x = Some w" by (simp add: assms(5))
    from vault_booksD(1) [OF assms(1) this] assms(4) show ?thesis
      by (auto simp: vault_ok_def assms(7,8) ts)
  qed
  moreover have "own_tries s'"
    using assms(1) used unfolding own_tries_def assms(5) vault_books_def
    by (auto simp: new_vault_def simp del: split_paired_All split: if_splits) (metis less_irrefl)+
  moreover have "unused_tries_empty C s'"
    using assms(1) by (simp add: vault_books_def unused_tries_empty_def assms(7) cs)
  ultimately show "vault_books C s'"
    using assms(1,3) fin by (auto simp: vault_books_def assms(5-7) simp del: split_paired_All)
  have "sum_entries f (vaults s') = sum_entries f (vaults s)" if "f ?v = 0" for f :: "vault \<Rightarrow> nat"
    using sum_entries_upd [OF fin, of f "(p, lease)" ?v] that assms(2) by (simp add: assms(5))
  moreover have "ctoken_claims C s' c = ctoken_claims C s c" by (rule ext) (simp add: ctoken_claims_def ts)
  ultimately show "vaults_owed s' = vaults_owed s" "contributed_for c s' = contributed_for c s" "claimable_for C c s' = claimable_for C c s"
    by (simp_all add: vaults_owed_def contributed_for_def claimable_for_def ctoken_share_def ctoken_claims_def new_vault_def empty)
qed

lemma no_childstorage:
  assumes "vault_books C s" and "\<not> has_childstorage C s v"
  shows "contributions C s (v_trie_index v) kind = Map.empty"
proof (rule ext, rule ccontr)
  fix who
  assume "contributions C s (v_trie_index v) kind who \<noteq> Map.empty who"
  then obtain c where c: "contributions C s (v_trie_index v) kind who = Some c" by auto
  have "covers (cl_accounts C) (contributions C s (v_trie_index v) kind)"
    using assms(1) by (simp add: vault_books_def contributions_def)
  from storage_iter_mem_covers [OF this] c have "contribution_iterator C s (v_trie_index v) kind \<noteq> []"
    unfolding contribution_iterator_def by (metis empty_iff list.set(1))
  with assms(2) show False by (cases kind) (auto simp: has_childstorage_def)
qed

lemma dissolve_effect:
  assumes "vault_books C s" and "vaults s k = Some v" and "\<not> has_childstorage C s v" and "total_contribution v = Inr 0"
    and "vaults s' = (vaults s)(k := None)" and "child_storage s' = child_storage s"
    and "next_trie_index s' = next_trie_index s" and "ctokens_registry s' = ctokens_registry s"
  shows "vault_books C s'" and "vaults_owed s' = vaults_owed s" and "contributed_for c s' = contributed_for c s"
    and "claimable_for C c s' = claimable_for C c s"
proof -
  have fin: "finite (dom (vaults s))" using assms(1) by (simp add: vault_books_def)
  have cs: "contributions C s' = contributions C s" by (rule ext)+ (simp add: contributions_def assms(6))
  have ts: "trie_sum C s' = trie_sum C s" by (rule ext)+ (simp add: trie_sum_def cs)
  have zero: "v_contributed v = 0" "v_flying v = 0" "v_pending v = 0"
    using assms(4) by (auto simp: total_contribution_def split: option.splits)
  have "vault_ok C s' x w" if "vaults s' x = Some w" for x w
    using vault_booksD(1) [OF assms(1), of x w] that by (auto simp: vault_ok_def assms(5,7,8) ts split: if_splits)
  then show "vault_books C s'"
    using assms(1) fin unfolding vault_books_def own_tries_def unused_tries_empty_def assms(5-7) cs
    by (auto simp del: split_paired_All split: if_splits)
  have "trie_sum C s (v_trie_index v) KindContributed = 0"
    by (simp add: trie_sum_def no_childstorage [OF assms(1,3)])
  moreover have "sum_entries f (vaults s') = sum_entries f (vaults s)" if "f v = 0" for f :: "vault \<Rightarrow> nat"
    using sum_entries_del [OF fin, of f k] that assms(2) by (simp add: assms(5))
  moreover have "ctoken_claims C s' c = ctoken_claims C s c" by (rule ext) (simp add: ctoken_claims_def ts)
  ultimately show "vaults_owed s' = vaults_owed s" "contributed_for c s' = contributed_for c s" "claimable_for C c s' = claimable_for C c s"
    by (simp_all add: vaults_owed_def contributed_for_def claimable_for_def ctoken_share_def ctoken_claims_def zero)
qed

end
