(* ===== verification/Crowdloans_Safety.thy ===== *)
theory Crowdloans_Safety
  imports Crowdloans_Books
begin

text \<open>
  The contract between the crowdloans pallet and the four pallets it calls, and what the pallet keeps under
  that contract.

  The pallet's own account holds at least what the vaults record as pending or flying, and the ctokens in
  circulation together with the contributions for which ctokens can still be claimed are at most what the vaults
  record as contributed.  \<open>crowdloan_safe\<close> joins the two with the well-formed books.
\<close>

section \<open>The contract of the services\<close>

text \<open>A change of the shared state that takes nothing from the pallet's account and issues no ctoken \<open>c\<close>.\<close>

definition spares_crowdloans :: "'w crowdloans_config \<Rightarrow> currency_id \<Rightarrow> 'w \<Rightarrow> 'w \<Rightarrow> bool" where
  "spares_crowdloans C c w w' \<longleftrightarrow>
     ft_balance (cl_assets C) w (cl_relay_currency C) (cl_pallet_account C)
       \<le> ft_balance (cl_assets C) w' (cl_relay_currency C) (cl_pallet_account C) \<and>
     ft_total_issuance (cl_assets C) w' c \<le> ft_total_issuance (cl_assets C) w c"

definition funds_held :: "'w crowdloans_config \<Rightarrow> 'w crowdloans_state \<Rightarrow> balance" where
  "funds_held C s = ft_balance (cl_assets C) (cl_world s) (cl_relay_currency C) (cl_pallet_account C)"

definition ctokens_issued :: "'w crowdloans_config \<Rightarrow> currency_id \<Rightarrow> 'w crowdloans_state \<Rightarrow> balance" where
  "ctokens_issued C c s = ft_total_issuance (cl_assets C) (cl_world s) c"

definition crowdloan_safe :: "'w crowdloans_config \<Rightarrow> currency_id \<Rightarrow> 'w crowdloans_state \<Rightarrow> bool" where
  "crowdloan_safe C c s \<longleftrightarrow> vault_books C s \<and> vaults_owed s \<le> funds_held C s \<and>
     ctokens_issued C c s + claimable_for C c s \<le> contributed_for c s"

text \<open>
  Whoever acts on the pallet: its own account neither signs calls nor lends, and a signer is one of the accounts in the
  order of the keys.  Whoever acts on the ledger takes nothing from the pallet's account and does not mint the ctoken.
\<close>

definition crowdloan_admitted :: "'w crowdloans_config \<Rightarrow> origin \<Rightarrow> crowdloans_call_kind \<Rightarrow> bool" where
  "crowdloan_admitted C o' call \<longleftrightarrow>
     (case o' of Signed who \<Rightarrow> who \<noteq> cl_pallet_account C \<and> who \<in> set (cl_accounts C) | _ \<Rightarrow> True) \<and>
     (case call of RedeemAndLendFor dest p ls le n \<Rightarrow> cl_lookup C dest \<noteq> Some (cl_pallet_account C) | _ \<Rightarrow> True)"

definition ledger_admitted :: "'w crowdloans_config \<Rightarrow> currency_id \<Rightarrow> ledger_action \<Rightarrow> bool" where
  "ledger_admitted C c act \<longleftrightarrow> spares (cl_pallet_account C) act \<and> (case act of LedgerMint a x n \<Rightarrow> a \<noteq> c | _ \<Rightarrow> True)"

locale crowdloan_services =
  fixes C :: "'w crowdloans_config" and c :: currency_id
  assumes tries: "tries_apart C"
    and relay_exact: "exact_custody (cl_assets C) (cl_relay_currency C)"
    and ctoken_exact: "exact_custody (cl_assets C) c"
    and burn_other: "burn_other_law (cl_assets C)"
    and ctoken_not_relay: "c \<noteq> cl_relay_currency C"
    and native_not_relay: "cl_native_currency C \<noteq> cl_relay_currency C"
    and contribute_spares: "cl_xcm_contribute C w p n x f = Inr (q, w') \<Longrightarrow> spares_crowdloans C c w w'"
    and proxy_contribute_spares: "cl_xcm_proxy_contribute C w p n x f = Inr (q, w') \<Longrightarrow> spares_crowdloans C c w w'"
    and withdraw_spares: "cl_xcm_withdraw C w p x f = Inr (q, w') \<Longrightarrow> spares_crowdloans C c w w'"
    and streaming_spares:
      "cl_streaming_create C w x y n a t t' b = Inr w' \<Longrightarrow> a \<noteq> cl_relay_currency C \<Longrightarrow> spares_crowdloans C c w w'"
    and loans_spares: "cl_loans_mint C w x a n = Inr w' \<Longrightarrow> x \<noteq> cl_pallet_account C \<Longrightarrow> spares_crowdloans C c w w'"
begin

lemma ledger: "fungibles_laws (cl_assets C)" "credit_law (cl_assets C)"
  using relay_exact by (simp_all add: exact_custody_def)

lemma no_dust:
  "leaves_no_dust (ft_minimum_balance (cl_assets C) w (cl_relay_currency C)) held n"
  "leaves_no_dust (ft_minimum_balance (cl_assets C) w c) held n"
  using relay_exact ctoken_exact by (auto simp: exact_custody_def intro: small_minimum_no_dust)

section \<open>Steps on the shared state\<close>

lemma transfer_in:
  assumes "crowdloans_transfer C s (cl_relay_currency C) who (crowdloans_account_id C) n = Inr s'"
    and "who \<noteq> cl_pallet_account C"
  shows "same_books s s'" and "funds_held C s + n \<le> funds_held C s'" and "ctokens_issued C c s' \<le> ctokens_issued C c s"
    and "entry_frame (s\<lparr>cl_world := cl_world s'\<rparr>) s'"
proof -
  from assms(1) obtain w where
      w: "ft_transfer (cl_assets C) (cl_world s) (cl_relay_currency C) who (cl_pallet_account C) n False = Inr w" and s': "s' = s\<lparr>cl_world := w\<rparr>"
    unfolding crowdloans_transfer_def crowdloans_account_id_def by (elim resultE) auto
  show "same_books s s'" "entry_frame (s\<lparr>cl_world := cl_world s'\<rparr>) s'"
    by (simp_all add: s' same_books_def entry_frame_def)
  show "funds_held C s + n \<le> funds_held C s'"
    using exact_custodyD(2) [OF relay_exact w assms(2)] by (simp add: s' funds_held_def)
  show "ctokens_issued C c s' \<le> ctokens_issued C c s"
    using fungibles_lawsD(3) [OF ledger(1) w, of c] by (simp add: s' ctokens_issued_def)
qed

lemma transfer_out:
  assumes "crowdloans_transfer C s (cl_relay_currency C) (crowdloans_account_id C) who n = Inr s'"
  shows "same_books s s'" and "funds_held C s \<le> funds_held C s' + n" and "ctokens_issued C c s' \<le> ctokens_issued C c s"
    and "entry_frame (s\<lparr>cl_world := cl_world s'\<rparr>) s'"
proof -
  from assms(1) obtain w where
      w: "ft_transfer (cl_assets C) (cl_world s) (cl_relay_currency C) (cl_pallet_account C) who n False = Inr w" and s': "s' = s\<lparr>cl_world := w\<rparr>"
    unfolding crowdloans_transfer_def crowdloans_account_id_def by (elim resultE) auto
  show "same_books s s'" "entry_frame (s\<lparr>cl_world := cl_world s'\<rparr>) s'"
    by (simp_all add: s' same_books_def entry_frame_def)
  show "funds_held C s \<le> funds_held C s' + n"
    using exact_custodyD(1) [OF relay_exact w] by (simp add: s' funds_held_def)
  show "ctokens_issued C c s' \<le> ctokens_issued C c s"
    using fungibles_lawsD(3) [OF ledger(1) w, of c] by (simp add: s' ctokens_issued_def)
qed

lemma burn_held:
  assumes "crowdloans_burn_from C s (cl_relay_currency C) (crowdloans_account_id C) n = Inr s'"
  shows "same_books s s'" and "funds_held C s \<le> funds_held C s' + n" and "ctokens_issued C c s' \<le> ctokens_issued C c s"
    and "entry_frame (s\<lparr>cl_world := cl_world s'\<rparr>) s'"
proof -
  from assms(1) obtain w where
      w: "ft_burn_from (cl_assets C) (cl_world s) (cl_relay_currency C) (cl_pallet_account C) n = Inr w" and s': "s' = s\<lparr>cl_world := w\<rparr>"
    unfolding crowdloans_burn_from_def crowdloans_account_id_def by (elim resultE) auto
  show "same_books s s'" "entry_frame (s\<lparr>cl_world := cl_world s'\<rparr>) s'"
    by (simp_all add: s' same_books_def entry_frame_def)
  show "funds_held C s \<le> funds_held C s' + n"
    using fungibles_laws_burnD(1) [OF ledger(1) w no_dust(1), of "cl_relay_currency C" "cl_pallet_account C"]
    by (simp add: s' funds_held_def)
  show "ctokens_issued C c s' \<le> ctokens_issued C c s"
    using fungibles_laws_burnD(2) [OF ledger(1) w no_dust(1), of c] by (simp add: s' ctokens_issued_def)
qed

lemma mint_to:
  assumes "crowdloans_mint_into C s a who n = Inr s'"
  shows "same_books s s'" and "funds_held C s \<le> funds_held C s'"
    and "ctokens_issued C c s' = ctokens_issued C c s + (if a = c then n else 0)"
    and "entry_frame (s\<lparr>cl_world := cl_world s'\<rparr>) s'"
proof -
  from assms(1) obtain w where
      w: "ft_mint_into (cl_assets C) (cl_world s) a who n = Inr w" and s': "s' = s\<lparr>cl_world := w\<rparr>"
    unfolding crowdloans_mint_into_def by (elim resultE) auto
  show "same_books s s'" "entry_frame (s\<lparr>cl_world := cl_world s'\<rparr>) s'"
    by (simp_all add: s' same_books_def entry_frame_def)
  show "funds_held C s \<le> funds_held C s'" "ctokens_issued C c s' = ctokens_issued C c s + (if a = c then n else 0)"
    using fungibles_laws_mintD [OF ledger(1) w] by (simp_all add: s' funds_held_def ctokens_issued_def)
qed

lemma burn_ctoken:
  assumes "crowdloans_burn_from C s a who n = Inr s'" and "who \<noteq> cl_pallet_account C"
  shows "same_books s s'" and "funds_held C s \<le> funds_held C s'"
    and "ctokens_issued C c s' + (if a = c then n else 0) = ctokens_issued C c s"
    and "entry_frame (s\<lparr>cl_world := cl_world s'\<rparr>) s'"
proof -
  from assms(1) obtain w where
      w: "ft_burn_from (cl_assets C) (cl_world s) a who n = Inr w" and s': "s' = s\<lparr>cl_world := w\<rparr>"
    unfolding crowdloans_burn_from_def by (elim resultE) auto
  show "same_books s s'" "entry_frame (s\<lparr>cl_world := cl_world s'\<rparr>) s'"
    by (simp_all add: s' same_books_def entry_frame_def)
  show "funds_held C s \<le> funds_held C s'"
    using credit_lawD(2) [OF ledger(2) w, of "cl_relay_currency C" "cl_pallet_account C"] assms(2)
    by (simp add: s' funds_held_def)
  show "ctokens_issued C c s' + (if a = c then n else 0) = ctokens_issued C c s"
  proof (cases "a = c")
    case True
    then show ?thesis
      using fungibles_laws_burnD(2) [OF ledger(1) w, of c] no_dust(2) by (simp add: s' ctokens_issued_def)
  next
    case False
    then show ?thesis using burn_other w by (simp add: s' ctokens_issued_def burn_other_law_def)
  qed
qed

lemma spares_refl: "spares_crowdloans C c w w"
  by (simp add: spares_crowdloans_def)

lemma spares_safe:
  assumes "crowdloan_safe C c s" and "same_books s s'" and "spares_crowdloans C c (cl_world s) (cl_world s')"
  shows "crowdloan_safe C c s'"
  using assms(1,3) same_booksD [OF assms(2)]
  by (auto simp: crowdloan_safe_def spares_crowdloans_def funds_held_def ctokens_issued_def)

section \<open>Messages and contributions\<close>

lemma do_contribute_spares:
  assumes "crowdloans_do_contribute C s who p lease st n r = Inr s'"
  shows "same_books s s'" and "spares_crowdloans C c (cl_world s) (cl_world s')"
  using assms unfolding crowdloans_do_contribute_def
  by (cases st; auto simp: same_books_def cl_deposit_event_def dest: contribute_spares proxy_contribute_spares)+

lemma do_withdraw_spares:
  assumes "crowdloans_do_withdraw C s p lease n target = Inr s'"
  shows "same_books s s'" and "spares_crowdloans C c (cl_world s) (cl_world s')"
  using assms unfolding crowdloans_do_withdraw_def
  by (auto simp: same_books_def cl_deposit_event_def dest: withdraw_spares)

text \<open>A step on a copy of the vault: the state in which the copy is stored stays safe.\<close>

lemma same_books_put: "same_books s s' \<Longrightarrow> same_books (put_vault k v s) (put_vault k v s')"
  by (simp add: same_books_def)

lemma put_vault_safe_iff:
  "crowdloan_safe C c (put_vault k v s) \<longleftrightarrow> vault_books C (put_vault k v s) \<and> vaults_owed (put_vault k v s) \<le> funds_held C s \<and>
     ctokens_issued C c s + claimable_for C c (put_vault k v s) \<le> contributed_for c (put_vault k v s)"
  by (simp add: crowdloan_safe_def funds_held_def ctokens_issued_def)

lemma migrate_safe:
  assumes "crowdloan_safe C c (put_vault k v s)" and "do_migrate_contribution C s who v amount KindPending KindFlying = Inr (v', s')"
  shows "crowdloan_safe C c (put_vault k v' s')" and "entry_frame s s'" and "vault_frame v v'"
proof -
  have b: "vault_books C (put_vault k v s)" using assms(1) by (simp add: put_vault_safe_iff)
  note eff = migrate_effect [OF tries b assms(2)]
  show "entry_frame s s'" "vault_frame v v'" by (rule eff(4) eff(5))+
  then have "funds_held C s' = funds_held C s" "ctokens_issued C c s' = ctokens_issued C c s"
    by (simp_all add: entry_frame_def funds_held_def ctokens_issued_def)
  then show "crowdloan_safe C c (put_vault k v' s')"
    using assms(1) eff(1) eff(2) eff(3) [of c] by (simp add: put_vault_safe_iff)
qed

lemma confirm_safe:
  assumes "crowdloan_safe C c (put_vault k v s)"
    and "crowdloans_burn_from C s (cl_relay_currency C) (crowdloans_account_id C) amount = Inr s1"
    and "do_migrate_contribution C s1 who v amount KindFlying KindContributed = Inr (v', s')"
  shows "crowdloan_safe C c (put_vault k v' s')"
proof -
  note burn = burn_held [OF assms(2)]
  have b: "vault_books C (put_vault k v s1)"
    using assms(1) same_booksD(1) [OF same_books_put [OF burn(1)]] by (simp add: put_vault_safe_iff)
  note eff = migrate_effect [OF tries b assms(3)]
  have "funds_held C s' = funds_held C s1" "ctokens_issued C c s' = ctokens_issued C c s1"
    using eff(4) by (simp_all add: entry_frame_def funds_held_def ctokens_issued_def)
  then show ?thesis
    using assms(1) eff(1) eff(2) eff(3) [of c] burn(2,3) same_booksD(2-4) [OF same_books_put [OF burn(1), of k v]]
    by (simp add: put_vault_safe_iff)
qed

lemma pay_back_safe:
  assumes "crowdloan_safe C c (put_vault k v s)" and "kind \<noteq> KindContributed"
    and "crowdloans_transfer C s (cl_relay_currency C) (crowdloans_account_id C) who amount = Inr s1"
    and "do_update_contribution C s1 who v amount r Subtraction kind = Inr (r', v', s')"
  shows "crowdloan_safe C c (put_vault k v' s')"
proof -
  note out = transfer_out [OF assms(3)]
  have b: "vault_books C (put_vault k v s1)"
    using assms(1) same_booksD(1) [OF same_books_put [OF out(1)]] by (simp add: put_vault_safe_iff)
  have b': "vault_books C (put_vault k v' s')" by (rule vault_books_update [OF tries b assms(4)]) simp
  have "funds_held C s' = funds_held C s1" "ctokens_issued C c s' = ctokens_issued C c s1"
    using update_frame(1) [OF assms(4)] by (simp_all add: entry_frame_def funds_held_def ctokens_issued_def)
  then show ?thesis
    using assms(1,2) b' vaults_owed_update [OF b assms(4)] backing_update [OF tries b assms(4), of c] out(2,3)
      same_booksD(2-4) [OF same_books_put [OF out(1), of k v]]
    by (simp add: put_vault_safe_iff gains_def loses_def)
qed

lemma refund_for_safe:
  assumes "crowdloan_safe C c (put_vault k v s)" and "do_refund_for C s who v kind amount = Inr (v', s')"
  shows "crowdloan_safe C c (put_vault k v' s')" and "vault_frame v v'"
proof -
  from assms(2) obtain s1 r where
      pay: "(if kind = KindContributed then crowdloans_mint_into C s (cl_relay_currency C) who amount
            else crowdloans_transfer C s (cl_relay_currency C) (crowdloans_account_id C) who amount) = Inr s1"
      and upd: "do_update_contribution C s1 who v amount None Subtraction kind = Inr (r, v', s')"
    unfolding do_refund_for_def by (elim resultE) auto
  show "vault_frame v v'" by (rule update_frame(2) [OF upd])
  show "crowdloan_safe C c (put_vault k v' s')"
  proof (cases "kind = KindContributed")
    case False
    with pay show ?thesis by (intro pay_back_safe [OF assms(1) False _ upd]) simp
  next
    case True
    with pay have mint: "crowdloans_mint_into C s (cl_relay_currency C) who amount = Inr s1" by simp
    note mi = mint_to [OF mint]
    have b: "vault_books C (put_vault k v s1)"
      using assms(1) same_booksD(1) [OF same_books_put [OF mi(1)]] by (simp add: put_vault_safe_iff)
    have b': "vault_books C (put_vault k v' s')" by (rule vault_books_update [OF tries b upd]) simp
    have "funds_held C s' = funds_held C s1" "ctokens_issued C c s' = ctokens_issued C c s1"
      using update_frame(1) [OF upd] by (simp_all add: entry_frame_def funds_held_def ctokens_issued_def)
    then show ?thesis
      using assms(1) True b' vaults_owed_update [OF b upd] backing_update [OF tries b upd, of c] mi(2,3) ctoken_not_relay
        same_booksD(2-4) [OF same_books_put [OF mi(1), of k v]]
      by (simp add: put_vault_safe_iff)
  qed
qed

lemma migrate_entries_safe:
  assumes "migrate_entries C p es m v s = Inr (b, v', s')" and "crowdloan_safe C c (put_vault k v s)"
  shows "crowdloan_safe C c (put_vault k v' s') \<and> vault_frame v v'"
  using assms
proof (induction es arbitrary: m v s)
  case Nil
  then show ?case by (simp add: vault_frame_def)
next
  case (Cons e es)
  obtain who amount r where e: "e = (who, amount, r)" by (cases e)
  show ?case
  proof (cases "m \<ge> cl_migrate_keys_limit C")
    case True
    with Cons.prems show ?thesis by (simp add: e vault_frame_def)
  next
    case False
    with Cons.prems(1) obtain v1 s1 s2 where
        1: "do_migrate_contribution C s who v amount KindPending KindFlying = Inr (v1, s1)"
        and 2: "crowdloans_do_contribute C s1 who p (vault_lease v1) (v_strategy v1) amount r = Inr s2"
        and 3: "migrate_entries C p es (m + 1) v1 s2 = Inr (b, v', s')"
      by (auto simp: e)
    note mig = migrate_safe [OF Cons.prems(2) 1]
    have "crowdloan_safe C c (put_vault k v1 s2)"
      using spares_safe [OF mig(1) same_books_put [OF do_contribute_spares(1) [OF 2]]] do_contribute_spares(2) [OF 2] by simp
    from Cons.IH [OF 3 this] mig(3) show ?thesis by (auto simp: vault_frame_def)
  qed
qed

lemma refund_entries_safe:
  assumes "refund_entries C kind es m v s = Inr (b, m', v', s')" and "crowdloan_safe C c (put_vault k v s)"
  shows "crowdloan_safe C c (put_vault k v' s') \<and> vault_frame v v'"
  using assms
proof (induction es arbitrary: m v s)
  case Nil
  then show ?case by (simp add: vault_frame_def)
next
  case (Cons e es)
  obtain who amount r where e: "e = (who, amount, r)" by (cases e)
  show ?case
  proof (cases "m \<ge> cl_remove_keys_limit C")
    case True
    with Cons.prems show ?thesis by (simp add: e vault_frame_def)
  next
    case False
    with Cons.prems(1) obtain v1 s1 where
        1: "do_refund_for C s who v kind amount = Inr (v1, s1)"
        and 2: "refund_entries C kind es (m + 1) v1 s1 = Inr (b, m', v', s')"
      by (auto simp: e)
    note ref = refund_for_safe [OF Cons.prems(2) 1]
    from Cons.IH [OF 2 ref(1)] ref(2) show ?thesis by (auto simp: vault_frame_def)
  qed
qed

lemma refund_kinds_safe:
  assumes "refund_kinds C kinds m v s = Inr (b, v', s')" and "crowdloan_safe C c (put_vault k v s)"
  shows "crowdloan_safe C c (put_vault k v' s')"
  using assms
proof (induction kinds arbitrary: m v s)
  case Nil
  then show ?case by simp
next
  case (Cons kind kinds)
  from Cons.prems(1) obtain f m1 v1 s1 where
      1: "refund_entries C kind (contribution_iterator C s (v_trie_index v) kind) m v s = Inr (f, m1, v1, s1)"
      and 2: "(if f then refund_kinds C kinds m1 v1 s1 else Inr (False, v1, s1)) = Inr (b, v', s')"
    by auto
  have "crowdloan_safe C c (put_vault k v1 s1)"
    using refund_entries_safe [OF 1 Cons.prems(2)] by blast
  with 2 Cons.IH show ?case by (auto split: if_splits)
qed

section \<open>Calls\<close>

lemma safe_books: "crowdloan_safe C c s \<Longrightarrow> vault_books C s"
  by (simp add: crowdloan_safe_def)

lemma event_fields [simp]:
  "vaults (cl_deposit_event e s) = vaults s"
  "cl_world (cl_deposit_event e s) = cl_world s"
  by (simp_all add: cl_deposit_event_def)

lemma event_safe [simp]: "crowdloan_safe C c (cl_deposit_event e s) \<longleftrightarrow> crowdloan_safe C c s"
proof -
  have "same_books s (cl_deposit_event e s)" by (simp add: same_books_def cl_deposit_event_def)
  from same_booksD [OF this] show ?thesis
    by (simp add: crowdloan_safe_def funds_held_def ctokens_issued_def)
qed

lemma same_money_safe:
  assumes "crowdloan_safe C c s" and "vaults s k = Some v" and "same_money v v'"
  shows "crowdloan_safe C c (put_vault k v' s)"
  using assms(1) put_vault_same_money(1,2) [OF safe_books [OF assms(1)] assms(2,3)]
    put_vault_same_money(3,4) [OF safe_books [OF assms(1)] assms(2,3), of c]
  by (simp add: crowdloan_safe_def funds_held_def ctokens_issued_def)

lemma current_vaultD:
  assumes "crowdloan_safe C c s" and "current_vault s p = Some v"
  shows "vaults s (p, vault_lease v) = Some v"
proof -
  from assms(2) obtain lease where l: "leases_registry s p = Some lease" and v: "vaults s (p, lease) = Some v"
    by (auto simp: current_vault_def split: option.splits)
  from vault_booksD(1) [OF safe_books [OF assms(1)] v] have "lease = vault_lease v" by (simp add: vault_ok_def)
  with v show ?thesis by simp
qed

lemma stored_safe: "crowdloan_safe C c s \<Longrightarrow> vaults s k = Some v \<Longrightarrow> crowdloan_safe C c (put_vault k v s)"
  by (simp add: put_vault_same)

lemma phase_call_safe:
  assumes "try_mutate_vault s p pre (set_phase p pre post) = Inr s'" and "crowdloan_safe C c s"
  shows "crowdloan_safe C c s'"
proof -
  from assms(1) obtain v where v: "current_vault s p = Some v"
      and s': "s' = put_vault (p, vault_lease (v\<lparr>v_phase := post\<rparr>)) (v\<lparr>v_phase := post\<rparr>)
        (cl_deposit_event (VaultPhaseUpdated p (vault_lease v) pre post) s)"
    unfolding try_mutate_vault_def set_phase_def by (elim resultE) auto
  have "crowdloan_safe C c (put_vault (p, vault_lease v) (v\<lparr>v_phase := post\<rparr>) (cl_deposit_event (VaultPhaseUpdated p (vault_lease v) pre post) s))"
    by (rule same_money_safe)
      (use assms(2) current_vaultD [OF assms(2) v] in \<open>simp_all add: same_money_def vault_lease_def\<close>)
  then show ?thesis by (simp add: s' vault_lease_def)
qed

lemma withdraw_request_safe:
  assumes "try_mutate_vault s p pre (\<lambda>v s. bindE (crowdloans_do_withdraw C s p (vault_lease v) (v_contributed v) post) (\<lambda>s. Inr (v, s))) = Inr s'"
    and "crowdloan_safe C c s"
  shows "crowdloan_safe C c s'"
proof -
  from assms(1) obtain v s1 where v: "current_vault s p = Some v"
      and 1: "crowdloans_do_withdraw C s p (vault_lease v) (v_contributed v) post = Inr s1"
      and s': "s' = put_vault (p, vault_lease v) v s1"
    unfolding try_mutate_vault_def by (elim resultE) auto
  note w = do_withdraw_spares [OF 1]
  have "crowdloan_safe C c s1" by (rule spares_safe [OF assms(2) w])
  moreover have "vaults s1 (p, vault_lease v) = Some v"
    using current_vaultD [OF assms(2) v] w(1) by (simp add: same_books_def)
  ultimately show ?thesis by (simp add: s' put_vault_same)
qed

lemma create_vault_safe:
  assumes "create_vault C s o' p ct ls le st cap e = Inr s'" and "crowdloan_safe C c s"
  shows "crowdloan_safe C c s'"
proof -
  let ?v = "new_vault (fst (ls, le)) (snd (ls, le)) ct st cap e (next_trie_index s)"
  from assms(1) obtain
      reg: "ctokens_registry s (ls, le) = None \<or> ctokens_registry s (ls, le) = Some ct"
      and fresh: "vaults s (p, ls, le) = None" and nx: "next_trie_index s + 1 \<le> u32_max"
      and fields: "vaults s' = (vaults s)((p, ls, le) \<mapsto> ?v)" "child_storage s' = child_storage s"
        "next_trie_index s' = next_trie_index s + 1" "ctokens_registry s' = (ctokens_registry s)((ls, le) \<mapsto> ct)"
        "cl_world s' = cl_world s"
    unfolding create_vault_def Let_def
    by (elim resultE) (auto simp: checked_add_u32_def cl_deposit_event_def put_vault_def split: option.splits if_splits)
  note eff = create_effect [OF safe_books [OF assms(2)] fresh nx reg fields(1-4)]
  show ?thesis using assms(2) eff(1,2) eff(3,4) [of c] by (simp add: crowdloan_safe_def funds_held_def ctokens_issued_def fields(5))
qed

lemma update_vault_safe:
  assumes "update_vault C s o' p cap e st = Inr s'" and "crowdloan_safe C c s"
  shows "crowdloan_safe C c s'"
proof -
  from assms(1) obtain v v1 v2 ev where v: "current_vault s p = Some v"
      and 1: "(case cap of None \<Rightarrow> Inr v
            | Some cap \<Rightarrow> bindE (ensure (cap \<noteq> 0) (Module InvalidCap)) (\<lambda>_. Inr (v\<lparr>v_cap := cap\<rparr>))) = Inr v1"
      and 2: "(case e of None \<Rightarrow> Inr v1
            | Some end_block \<Rightarrow>
                bindE (ensure (cl_relay_block C \<le> end_block) (Module EndBlockExceeded)) (\<lambda>_. Inr (v1\<lparr>v_end_block := end_block\<rparr>))) = Inr v2"
      and s'0: "s' = (let v = (case st of None \<Rightarrow> v2 | Some strategy \<Rightarrow> v2\<lparr>v_strategy := strategy\<rparr>) in
          cl_deposit_event (VaultUpdated p (vault_lease v) (v_strategy v) (v_cap v) (v_end_block v)) (put_vault (p, vault_lease v) v s))"
    unfolding update_vault_def Let_def by (elim resultE) auto
  define v' where "v' = (case st of None \<Rightarrow> v2 | Some strategy \<Rightarrow> v2\<lparr>v_strategy := strategy\<rparr>)"
  have "same_money v v1" "same_money v1 v2" "same_money v2 v'"
    using 1 2 by (auto simp: v'_def same_money_def vault_lease_def split: option.splits)
  then have m: "same_money v v'" by (simp add: same_money_def)
  obtain ev where s': "s' = cl_deposit_event ev (put_vault (p, vault_lease v') v' s)"
    using s'0 by (simp add: Let_def v'_def)
  from m have "vault_lease v' = vault_lease v" by (simp add: same_money_def)
  with same_money_safe [OF assms(2) current_vaultD [OF assms(2) v] m] show ?thesis by (simp add: s')
qed

lemma contribute_safe:
  assumes "contribute C s o' p amount r = Inr s'" and "crowdloan_safe C c s"
    and "\<And>who. o' = Signed who \<Longrightarrow> who \<noteq> cl_pallet_account C \<and> who \<in> set (cl_accounts C)"
  shows "crowdloan_safe C c s'"
proof -
  from assms(1) obtain who v s1 v1 s2 where o': "o' = Signed who" and v: "current_vault s p = Some v"
      and tr: "crowdloans_transfer C s (cl_relay_currency C) who (crowdloans_account_id C) amount = Inr s1"
      and go: "(if v_phase v = VaultContributing then
              bindE (do_update_contribution C s1 who v amount (Some r) Addition KindFlying) (\<lambda>(_, v, s).
              bindE (crowdloans_do_contribute C s who p (vault_lease v) (v_strategy v) amount r) (\<lambda>s.
              Inr (v, s)))
            else
              bindE (do_update_contribution C s1 who v amount (Some r) Addition KindPending) (\<lambda>(_, v, s).
              Inr (v, s))) = Inr (v1, s2)"
      and s': "s' = put_vault (p, vault_lease v1) v1 s2"
    unfolding contribute_def by (elim resultE) auto
  from go obtain kind r1 s3 where kind: "kind \<noteq> KindContributed"
      and upd: "do_update_contribution C s1 who v amount (Some r) Addition kind = Inr (r1, v1, s3)"
      and rest: "same_books s3 s2" "spares_crowdloans C c (cl_world s3) (cl_world s2)"
  proof (cases "v_phase v = VaultContributing")
    case True
    with go obtain r1 s3 where "do_update_contribution C s1 who v amount (Some r) Addition KindFlying = Inr (r1, v1, s3)"
        and "crowdloans_do_contribute C s3 who p (vault_lease v1) (v_strategy v1) amount r = Inr s2"
      by auto
    then show thesis using that [of KindFlying] do_contribute_spares by blast
  next
    case False
    with go obtain r1 where "do_update_contribution C s1 who v amount (Some r) Addition KindPending = Inr (r1, v1, s2)"
      by auto
    then show thesis using that [of KindPending] by (simp add: same_books_def spares_crowdloans_def)
  qed
  let ?k = "(p, vault_lease v)"
  note tin = transfer_in [OF tr] assms(3) [OF o']
  have st: "crowdloan_safe C c (put_vault ?k v s)" by (rule stored_safe [OF assms(2) current_vaultD [OF assms(2) v]])
  have b: "vault_books C (put_vault ?k v s1)"
    using st same_booksD(1) [OF same_books_put [OF tin(1)]] tin(5) by (simp add: put_vault_safe_iff)
  have b': "vault_books C (put_vault ?k v1 s3)" by (rule vault_books_update [OF tries b upd]) (use tin(5) in simp)
  have "funds_held C s3 = funds_held C s1" "ctokens_issued C c s3 = ctokens_issued C c s1"
    using update_frame(1) [OF upd] by (simp_all add: entry_frame_def funds_held_def ctokens_issued_def)
  then have "crowdloan_safe C c (put_vault ?k v1 s3)"
    using st kind b' vaults_owed_update [OF b upd] backing_update [OF tries b upd, of c] tin(2,3,5)
      same_booksD(2-4) [OF same_books_put [OF tin(1), of ?k v]]
    by (simp add: put_vault_safe_iff gains_def loses_def)
  then have "crowdloan_safe C c (put_vault ?k v1 s2)"
    by (rule spares_safe) (use rest in \<open>simp_all add: same_books_put\<close>)
  then show ?thesis using update_frame(2) [OF upd] by (simp add: s' vault_frame_def)
qed

lemma pay_bonus_spares:
  assumes "pay_bonus C s who lease amount = Inr s'"
  shows "same_books s s'" and "spares_crowdloans C c (cl_world s) (cl_world s')"
  using assms native_not_relay unfolding pay_bonus_def Let_def
  by (auto simp: same_books_def spares_refl split: if_splits dest: streaming_spares)

lemma claim_for_safe:
  assumes "do_claim_for C s who p lease f = Inr s'" and "crowdloan_safe C c s"
  shows "crowdloan_safe C c s'"
proof -
  from assms(1) obtain ct v s1 s2 where ct: "ctokens_registry s lease = Some ct"
      and v: "vaults s (p, lease) = Some v"
      and mint0: "crowdloans_mint_into C s ct who (fst (contribution_get C s (v_trie_index v) who KindContributed)) = Inr s1"
      and bonus0: "pay_bonus C (contribution_kill C (v_trie_index v) who KindContributed s1) who lease (fst (contribution_get C s (v_trie_index v) who KindContributed)) = Inr s2"
      and s': "s' = cl_deposit_event (VaultClaimed p lease ct who (fst (contribution_get C s (v_trie_index v) who KindContributed)) VaultSucceeded) s2"
    unfolding do_claim_for_def by (auto simp: split_beta elim!: resultE)
  obtain amount r where get: "contribution_get C s (v_trie_index v) who KindContributed = (amount, r)"
    by (cases "contribution_get C s (v_trie_index v) who KindContributed")
  note mint = mint0 [unfolded get fst_conv] and bonus = bonus0 [unfolded get fst_conv]
  note mi = mint_to [OF mint]
  have b1: "vault_books C s1" using safe_books [OF assms(2)] same_booksD(1) [OF mi(1)] by simp
  have v1: "vaults s1 (p, lease) = Some v" using v mi(1) by (simp add: same_books_def)
  have get1: "contribution_get C s1 (v_trie_index v) who KindContributed = (amount, r)"
    using get same_books_contributions [OF mi(1), of C] by (simp add: contribution_get_def)
  have "v_ctoken v = ct"
    using vault_booksD(1) [OF safe_books [OF assms(2)] v] ct by (simp add: vault_ok_def)
  note kill = kill_effect [OF tries b1 v1 get1]
  let ?s = "contribution_kill C (v_trie_index v) who KindContributed s1"
  have "funds_held C ?s = funds_held C s1" "ctokens_issued C c ?s = ctokens_issued C c s1"
    using kill(5) by (simp_all add: entry_frame_def funds_held_def ctokens_issued_def)
  then have "crowdloan_safe C c ?s"
    using assms(2) kill(1,2) kill(3,4) [of c] mi(2,3) \<open>v_ctoken v = ct\<close> same_booksD(2-4) [OF mi(1)]
    by (auto simp: crowdloan_safe_def split: if_splits)
  from spares_safe [OF this pay_bonus_spares [OF bonus]] show ?thesis by (simp add: s')
qed

lemma withdraw_for_safe:
  assumes "do_withdraw_for C s who p lease = Inr s'" and "crowdloan_safe C c s"
  shows "crowdloan_safe C c s'"
proof -
  from assms(1) obtain v s1 where v: "vaults s (p, lease) = Some v" and le0: "(fst (contribution_get C s (v_trie_index v) who KindContributed)) \<le> v_contributed v"
      and mint0: "crowdloans_mint_into C (contribution_kill C (v_trie_index v) who KindContributed s) (cl_relay_currency C) who (fst (contribution_get C s (v_trie_index v) who KindContributed)) = Inr s1"
      and s'0: "s' = cl_deposit_event (VaultWithdrew p lease who (fst (contribution_get C s (v_trie_index v) who KindContributed)) VaultFailed)
          (put_vault (p, lease) (v\<lparr>v_contributed := v_contributed v - (fst (contribution_get C s (v_trie_index v) who KindContributed))\<rparr>) s1)"
    unfolding do_withdraw_for_def Let_def by (auto simp: split_beta elim!: resultE)
  obtain amount r where get: "contribution_get C s (v_trie_index v) who KindContributed = (amount, r)"
    by (cases "contribution_get C s (v_trie_index v) who KindContributed")
  note le = le0 [unfolded get fst_conv] and mint = mint0 [unfolded get fst_conv] and s' = s'0 [unfolded get fst_conv]
  let ?v = "v\<lparr>v_contributed := v_contributed v - amount\<rparr>"
  let ?s = "contribution_kill C (v_trie_index v) who KindContributed s"
  note upd = kill_is_update [OF get le]
  note mi = mint_to [OF mint]
  have st: "crowdloan_safe C c (put_vault (p, lease) v s)" by (rule stored_safe [OF assms(2) v])
  then have b: "vault_books C (put_vault (p, lease) v s)" by (rule safe_books)
  have b': "vault_books C (put_vault (p, lease) ?v ?s)" by (rule vault_books_update [OF tries b upd]) simp
  have "funds_held C ?s = funds_held C s" "ctokens_issued C c ?s = ctokens_issued C c s"
    using update_frame(1) [OF upd] by (simp_all add: entry_frame_def funds_held_def ctokens_issued_def)
  then have "crowdloan_safe C c (put_vault (p, lease) ?v ?s)"
    using st b' vaults_owed_update [OF b upd] backing_update [OF tries b upd, of c] by (simp add: put_vault_safe_iff)
  moreover have "spares_crowdloans C c (cl_world ?s) (cl_world s1)"
    using mi(2,3) ctoken_not_relay by (simp add: spares_crowdloans_def funds_held_def ctokens_issued_def)
  ultimately have "crowdloan_safe C c (put_vault (p, lease) ?v s1)"
    using spares_safe [OF _ same_books_put [OF mi(1)]] by simp
  then show ?thesis by (simp add: s')
qed

lemma redeem_safe:
  assumes "crowdloans_do_redeem C s who p lease amount = Inr s'" and "crowdloan_safe C c s"
    and "who \<noteq> cl_pallet_account C"
  shows "crowdloan_safe C c s'"
proof -
  from assms(1) obtain ct v s1 s2 where ct: "ctokens_registry s lease = Some ct" and v: "vaults s (p, lease) = Some v"
      and le: "amount \<le> v_contributed v"
      and burn: "crowdloans_burn_from C s ct who amount = Inr s1"
      and mint: "crowdloans_mint_into C s1 (cl_relay_currency C) who amount = Inr s2"
      and s': "s' = cl_deposit_event (VaultRedeemed p lease ct who amount VaultExpired)
          (put_vault (p, lease) (v\<lparr>v_contributed := v_contributed v - amount\<rparr>) s2)"
    unfolding crowdloans_do_redeem_def Let_def by (elim resultE) auto
  let ?v = "v\<lparr>v_contributed := v_contributed v - amount\<rparr>"
  note bu = burn_ctoken [OF burn assms(3)] and mi = mint_to [OF mint]
  have same: "same_books s s2" using bu(1) mi(1) by (simp add: same_books_def)
  have "v_ctoken v = ct" using vault_booksD(1) [OF safe_books [OF assms(2)] v] ct by (simp add: vault_ok_def)
  note sb = same_booksD [OF same_books_put [OF same, of "(p, lease)" ?v]]
  note eff = set_contributed_effect [OF safe_books [OF assms(2)] v, where n = "v_contributed v - amount"]
  have "crowdloan_safe C c (put_vault (p, lease) ?v s2)"
    using assms(2) [unfolded crowdloan_safe_def] eff(1,2) eff(3,4) [of c] bu(2,3) mi(2,3) \<open>v_ctoken v = ct\<close>
      ctoken_not_relay le sb(1) [of C] sb(2) sb(3) [of c] sb(4) [of C c]
    unfolding put_vault_safe_iff by (simp split: if_splits)
  then show ?thesis by (simp add: s')
qed

lemma migrate_pending_safe:
  assumes "migrate_pending C s o' p = Inr s'" and "crowdloan_safe C c s"
  shows "crowdloan_safe C c s'"
proof -
  from assms(1) obtain v b v1 s1 ev where v: "current_vault s p = Some v"
      and 1: "migrate_entries C p (contribution_iterator C s (v_trie_index v) KindPending) 0 v s = Inr (b, v1, s1)"
      and s': "s' = cl_deposit_event ev (put_vault (p, vault_lease v1) v1 s1)"
    unfolding migrate_pending_def Let_def by (elim resultE) auto
  from migrate_entries_safe [OF 1 stored_safe [OF assms(2) current_vaultD [OF assms(2) v]]] show ?thesis
    by (simp add: s' vault_frame_def)
qed

lemma notification_safe:
  assumes "do_notification_received C s q req res = Inr s'" and "crowdloan_safe C c s"
  shows "crowdloan_safe C c s'"
proof -
  have drop: "crowdloan_safe C c (t\<lparr>xcm_requests := m\<rparr>) \<longleftrightarrow> crowdloan_safe C c t" for t m
  proof -
    have "same_books t (t\<lparr>xcm_requests := m\<rparr>)" by (simp add: same_books_def)
    from same_booksD [OF this] show ?thesis by (simp add: crowdloan_safe_def funds_held_def ctokens_issued_def)
  qed
  show ?thesis
  proof (cases req)
    case (RequestContribute p lease who amount r)
    show ?thesis
    proof (cases "res = None")
      case True
      with assms(1) RequestContribute obtain v s1 v1 s2 where v: "vaults s (p, lease) = Some v"
          and 1: "crowdloans_burn_from C s (cl_relay_currency C) (crowdloans_account_id C) amount = Inr s1"
          and 2: "do_migrate_contribution C s1 who v amount KindFlying KindContributed = Inr (v1, s2)"
          and s': "s' = (cl_deposit_event (VaultContributed p lease who amount r) (put_vault (p, lease) v1 s2))\<lparr>xcm_requests :=
            (xcm_requests (cl_deposit_event (VaultContributed p lease who amount r) (put_vault (p, lease) v1 s2)))(q := None)\<rparr>"
        unfolding do_notification_received_def Let_def by (auto simp: True)
      from confirm_safe [OF stored_safe [OF assms(2) v] 1 2] show ?thesis by (simp add: s' drop)
    next
      case False
      with assms(1) RequestContribute obtain v s1 r1 v1 s2 where v: "vaults s (p, lease) = Some v"
          and 1: "crowdloans_transfer C s (cl_relay_currency C) (crowdloans_account_id C) who amount = Inr s1"
          and 2: "do_update_contribution C s1 who v amount None Subtraction KindFlying = Inr (r1, v1, s2)"
          and s': "s' = put_vault (p, lease) v1 s2"
        unfolding do_notification_received_def Let_def by auto
      from pay_back_safe [OF stored_safe [OF assms(2) v] _ 1 2] show ?thesis by (simp add: s')
    qed
  next
    case (RequestWithdraw p lease n target)
    show ?thesis
    proof (cases "res = None")
      case True
      with assms(1) RequestWithdraw obtain v ev where v: "vaults s (p, lease) = Some v"
          and s': "s' = (cl_deposit_event ev (put_vault (p, lease) (v\<lparr>v_phase := target\<rparr>) s))\<lparr>xcm_requests :=
            (xcm_requests (cl_deposit_event ev (put_vault (p, lease) (v\<lparr>v_phase := target\<rparr>) s)))(q := None)\<rparr>"
        unfolding do_notification_received_def Let_def by (auto simp: True)
      have "same_money v (v\<lparr>v_phase := target\<rparr>)" by (simp add: same_money_def vault_lease_def)
      from same_money_safe [OF assms(2) v this] show ?thesis by (simp add: s' drop)
    next
      case False
      with assms RequestWithdraw show ?thesis by (simp add: do_notification_received_def)
    qed
  qed
qed

lemma notification_received_safe:
  assumes "notification_received C s o' q resp = Inr s'" and "crowdloan_safe C c s"
  shows "crowdloan_safe C c s'"
  using assms unfolding notification_received_def
  by (elim resultE) (auto split: xcm_response.splits option.splits intro: notification_safe)

lemma crowdloan_refund_safe:
  assumes "crowdloan_refund C s o' p ls le = Inr s'" and "crowdloan_safe C c s"
  shows "crowdloan_safe C c s'"
proof -
  from assms(1) obtain v b v1 s1 ev where v: "vaults s (p, ls, le) = Some v"
      and 1: "refund_kinds C [KindContributed, KindFlying, KindPending] 0 v s = Inr (b, v1, s1)"
      and s': "s' = cl_deposit_event ev (put_vault (p, ls, le) v1 s1)"
    unfolding crowdloan_refund_def Let_def by (elim resultE) auto
  from refund_kinds_safe [OF 1 stored_safe [OF assms(2) v]] show ?thesis by (simp add: s')
qed

lemma refund_for_call_safe:
  assumes "refund_for C s o' dest p kind amount ls le = Inr s'" and "crowdloan_safe C c s"
  shows "crowdloan_safe C c s'"
proof -
  from assms(1) obtain who v v1 s1 where v: "vaults s (p, ls, le) = Some v"
      and 1: "do_refund_for C s who v kind amount = Inr (v1, s1)"
      and s': "s' = cl_deposit_event (UserRefunded p (ls, le) who kind amount) (put_vault (p, ls, le) v1 s1)"
    unfolding refund_for_def Let_def by (auto simp: split_beta elim!: resultE)
  from refund_for_safe(1) [OF stored_safe [OF assms(2) v] 1] show ?thesis by (simp add: s')
qed

lemma dissolve_safe:
  assumes "dissolve_vault C s o' p ls le = Inr s'" and "crowdloan_safe C c s"
  shows "crowdloan_safe C c s'"
proof -
  from assms(1) obtain v where v: "vaults s (p, ls, le) = Some v" and "\<not> has_childstorage C s v"
      and "total_contribution v = Inr 0"
      and fields: "vaults s' = (vaults s)((p, ls, le) := None)" "child_storage s' = child_storage s"
        "next_trie_index s' = next_trie_index s" "ctokens_registry s' = ctokens_registry s" "cl_world s' = cl_world s"
    unfolding dissolve_vault_def Let_def
    by (elim resultE) (auto simp: cl_deposit_event_def split: option.splits if_splits)
  note eff = dissolve_effect [OF safe_books [OF assms(2)] this(1-7)]
  show ?thesis using assms(2) eff(1,2) eff(3,4) [of c] by (simp add: crowdloan_safe_def funds_held_def ctokens_issued_def fields(5))
qed

lemma redeem_and_lend_safe:
  assumes "redeem_and_lend_for C s o' dest p ls le amount = Inr s'" and "crowdloan_safe C c s"
    and "cl_lookup C dest \<noteq> Some (cl_pallet_account C)"
  shows "crowdloan_safe C c s'"
proof -
  from assms(1) obtain who s1 w where who: "cl_lookup C dest = Some who"
      and 1: "crowdloans_do_redeem C s who p (ls, le) amount = Inr s1"
      and 2: "cl_loans_mint C (cl_world s1) who (cl_relay_currency C) amount = Inr w"
      and s': "s' = s1\<lparr>cl_world := w\<rparr>"
    unfolding redeem_and_lend_for_def crowdloans_lookup_def by (elim resultE) auto
  have ne: "who \<noteq> cl_pallet_account C" using assms(3) who by auto
  have "same_books s1 s'" by (simp add: s' same_books_def)
  from spares_safe [OF redeem_safe [OF 1 assms(2) ne] this] loans_spares [OF 2 ne] show ?thesis by (simp add: s')
qed

lemma dispatch_safe:
  assumes "crowdloans_dispatch C s o' call = Inr s'" and "crowdloan_safe C c s" and "crowdloan_admitted C o' call"
  shows "crowdloan_safe C c s'"
proof (cases call)
  case (SetVrf b)
  have "same_books s s'" "cl_world s' = cl_world s"
    using assms(1) by (auto simp: SetVrf set_vrf_def same_books_def cl_deposit_event_def)
  then show ?thesis using spares_safe [OF assms(2)] spares_refl by simp
next
  case (UpdateProxy x)
  have "same_books s s'" "cl_world s' = cl_world s"
    using assms(1) by (auto simp: UpdateProxy update_proxy_def same_books_def cl_deposit_event_def)
  then show ?thesis using spares_safe [OF assms(2)] spares_refl by simp
next
  case (UpdateLeasesBonus ls le b)
  have "same_books s s'" "cl_world s' = cl_world s"
    using assms(1) by (auto simp: UpdateLeasesBonus update_leases_bonus_def same_books_def cl_deposit_event_def)
  then show ?thesis using spares_safe [OF assms(2)] spares_refl by simp
next
  case (ContributeTo p n r)
  have "who \<noteq> cl_pallet_account C \<and> who \<in> set (cl_accounts C)" if "o' = Signed who" for who
    using assms(3) that by (simp add: crowdloan_admitted_def)
  moreover from assms(1) ContributeTo have "contribute C s o' p n r = Inr s'" by simp
  ultimately show ?thesis using contribute_safe [OF _ assms(2)] by blast
next
  case (RedeemCtoken p ls le n)
  with assms(1) obtain who where who: "o' = Signed who" and 1: "crowdloans_do_redeem C s who p (ls, le) n = Inr s'"
    by (auto simp: crowdloan_redeem_def)
  from assms(3) who have "who \<noteq> cl_pallet_account C" by (simp add: crowdloan_admitted_def)
  with 1 show ?thesis by (rule redeem_safe [OF _ assms(2)])
next
  case (CreateVault p ct ls le st cap e)
  show ?thesis by (rule create_vault_safe [OF _ assms(2)]) (use assms(1) CreateVault in simp)
next
  case (UpdateVault p cap e st)
  show ?thesis by (rule update_vault_safe [OF _ assms(2)]) (use assms(1) UpdateVault in simp)
next
  case (OpenVault p)
  with assms(1) have "try_mutate_vault s p VaultPending (set_phase p VaultPending VaultContributing) = Inr s'" by (auto simp: crowdloan_open_def)
  then show ?thesis by (rule phase_call_safe [OF _ assms(2)])
next
  case (CloseVault p)
  with assms(1) have "try_mutate_vault s p VaultContributing (set_phase p VaultContributing VaultClosed) = Inr s'" by (auto simp: crowdloan_close_def)
  then show ?thesis by (rule phase_call_safe [OF _ assms(2)])
next
  case (ReopenVault p)
  with assms(1) have "try_mutate_vault s p VaultClosed (set_phase p VaultClosed VaultContributing) = Inr s'" by (auto simp: crowdloan_reopen_def)
  then show ?thesis by (rule phase_call_safe [OF _ assms(2)])
next
  case (AuctionSucceeded p)
  with assms(1) have "try_mutate_vault s p VaultClosed (set_phase p VaultClosed VaultSucceeded) = Inr s'" by (auto simp: auction_succeeded_def)
  then show ?thesis by (rule phase_call_safe [OF _ assms(2)])
next
  case (AuctionFailed p)
  with assms(1) have "try_mutate_vault s p VaultClosed (\<lambda>v s.
      bindE (crowdloans_do_withdraw C s p (vault_lease v) (v_contributed v) VaultFailed) (\<lambda>s. Inr (v, s))) = Inr s'"
    by (auto simp: auction_failed_def simp del: bindE_simps elim!: resultE)
  then show ?thesis by (rule withdraw_request_safe [OF _ assms(2)])
next
  case (SlotExpired p)
  with assms(1) have "try_mutate_vault s p VaultSucceeded (\<lambda>v s.
      bindE (crowdloans_do_withdraw C s p (vault_lease v) (v_contributed v) VaultExpired) (\<lambda>s. Inr (v, s))) = Inr s'"
    by (auto simp: slot_expired_def simp del: bindE_simps elim!: resultE)
  then show ?thesis by (rule withdraw_request_safe [OF _ assms(2)])
next
  case (ClaimCtoken p ls le)
  with assms(1) show ?thesis using claim_for_safe [OF _ assms(2)] by (auto simp: crowdloan_claim_def)
next
  case (ClaimFor d p ls le)
  with assms(1) show ?thesis using claim_for_safe [OF _ assms(2)] by (auto simp: claim_for_def)
next
  case (ForceClaimFor d p ls le)
  with assms(1) show ?thesis using claim_for_safe [OF _ assms(2)] by (auto simp: force_claim_for_def)
next
  case (WithdrawFailed p ls le)
  with assms(1) show ?thesis using withdraw_for_safe [OF _ assms(2)] by (auto simp: crowdloan_withdraw_def)
next
  case (WithdrawFor d p ls le)
  with assms(1) show ?thesis using withdraw_for_safe [OF _ assms(2)] by (auto simp: withdraw_for_def)
next
  case (MigratePending p)
  show ?thesis by (rule migrate_pending_safe [OF _ assms(2)]) (use assms(1) MigratePending in simp)
next
  case (NotificationReceivedCall q r)
  show ?thesis by (rule notification_received_safe [OF _ assms(2)]) (use assms(1) NotificationReceivedCall in simp)
next
  case (RefundVault p ls le)
  show ?thesis by (rule crowdloan_refund_safe [OF _ assms(2)]) (use assms(1) RefundVault in simp)
next
  case (DissolveVault p ls le)
  show ?thesis by (rule dissolve_safe [OF _ assms(2)]) (use assms(1) DissolveVault in simp)
next
  case (RefundFor d p k n ls le)
  show ?thesis by (rule refund_for_call_safe [OF _ assms(2)]) (use assms(1) RefundFor in simp)
next
  case (RedeemAndLendFor d p ls le n)
  with assms show ?thesis by (intro redeem_and_lend_safe [of s o' d p ls le n s']) (simp_all add: crowdloan_admitted_def)
qed

lemma ledger_safe:
  assumes "ledger_exec (cl_assets C) (cl_world s) act = Inr w" and "crowdloan_safe C c s" and "ledger_admitted C c act"
  shows "crowdloan_safe C c (s\<lparr>cl_world := w\<rparr>)"
proof (rule spares_safe [OF assms(2)])
  have "ft_balance (cl_assets C) (cl_world s) (cl_relay_currency C) (cl_pallet_account C)
      \<le> ft_balance (cl_assets C) w (cl_relay_currency C) (cl_pallet_account C)"
    using ledger_exec_spares [OF ledger assms(1)] assms(3) by (simp add: ledger_admitted_def)
  moreover have "ft_total_issuance (cl_assets C) w c \<le> ft_total_issuance (cl_assets C) (cl_world s) c"
  proof (cases act)
    case (LedgerTransfer a x y n k)
    with assms(1) have "ft_transfer (cl_assets C) (cl_world s) a x y n k = Inr w" by simp
    then show ?thesis by (rule fungibles_lawsD(3) [OF ledger(1)])
  next
    case (LedgerMint a x n)
    with assms(1) have "ft_mint_into (cl_assets C) (cl_world s) a x n = Inr w" by simp
    from fungibles_laws_mintD(2) [OF ledger(1) this, of c] assms(3) LedgerMint show ?thesis by (simp add: ledger_admitted_def)
  next
    case (LedgerBurn a x n)
    with assms(1) have burn: "ft_burn_from (cl_assets C) (cl_world s) a x n = Inr w" by simp
    have ?thesis if "a = c"
      using fungibles_laws_burnD(2) [OF ledger(1) burn [unfolded that] no_dust(2), of c] by linarith
    moreover have ?thesis if "a \<noteq> c"
      using burn_other burn that unfolding burn_other_law_def by (metis order_refl)
    ultimately show ?thesis by blast
  qed
  ultimately show "spares_crowdloans C c (cl_world s) (cl_world (s\<lparr>cl_world := w\<rparr>))" by (simp add: spares_crowdloans_def)
qed (simp add: same_books_def)

end

end
