(* ===== verification/Crowdloans_Histories.thy ===== *)
theory Crowdloans_Histories
  imports Crowdloans_Safety
begin

text \<open>
  Histories of the crowdloans pallet: dispatched calls and ledger activity of others, each in an environment of its own, so
  that the blocks, the clock and the members change between them.
  Every history from an empty pallet is safe.  The phases of a vault move along \<open>phase_move\<close> only, and a refund call
  pays back as many contributions as its limit allows.
\<close>

datatype crowdloans_action =
    CrowdloansCall origin crowdloans_call_kind
  | CrowdloansOther ledger_action

fun crowdloans_exec ::
    "'w crowdloans_state \<Rightarrow> 'w crowdloans_config \<times> crowdloans_action \<Rightarrow> crowdloans_dispatch_error + 'w crowdloans_state" where
  "crowdloans_exec s (C, CrowdloansCall o' call) = crowdloans_dispatch C s o' call"
| "crowdloans_exec s (C, CrowdloansOther act) =
     bindE (map_err External (ledger_exec (cl_assets C) (cl_world s) act)) (\<lambda>w. Inr (s\<lparr>cl_world := w\<rparr>))"

definition crowdloans_genesis :: "'w \<Rightarrow> 'w crowdloans_state" where
  "crowdloans_genesis w = \<lparr>vaults = Map.empty, is_vrf = False, ctokens_registry = Map.empty, leases_registry = Map.empty,
     next_trie_index = 0, xcm_requests = Map.empty, proxy_address = None, leases_bonus = Map.empty,
     child_storage = (\<lambda>_. Map.empty), cl_world = w, cl_events = []\<rparr>"

text \<open>The environments of a history agree on the ledger, the derived accounts and the child tries.\<close>

definition same_pallet :: "'w crowdloans_config \<Rightarrow> 'w crowdloans_config \<Rightarrow> bool" where
  "same_pallet C C' \<longleftrightarrow> cl_assets C' = cl_assets C \<and> cl_hash C' = cl_hash C \<and> cl_index_bytes C' = cl_index_bytes C \<and>
     cl_accounts C' = cl_accounts C \<and> cl_pallet_account C' = cl_pallet_account C \<and> cl_relay_currency C' = cl_relay_currency C"

fun action_admitted :: "currency_id \<Rightarrow> 'w crowdloans_config \<times> crowdloans_action \<Rightarrow> bool" where
  "action_admitted c (C, CrowdloansCall o' call) \<longleftrightarrow> crowdloan_admitted C o' call"
| "action_admitted c (C, CrowdloansOther act) \<longleftrightarrow> ledger_admitted C c act"

definition environment_admitted :: "'w crowdloans_config \<Rightarrow> currency_id \<Rightarrow> 'w crowdloans_config \<times> crowdloans_action \<Rightarrow> bool" where
  "environment_admitted C c act \<longleftrightarrow> same_pallet C (fst act) \<and> crowdloan_services (fst act) c \<and> action_admitted c act"

lemma same_pallet_safe:
  assumes "same_pallet C C'"
  shows "crowdloan_safe C' c s \<longleftrightarrow> crowdloan_safe C c s"
proof -
  have "contributions C' = contributions C"
    by (rule ext)+ (use assms in \<open>simp add: same_pallet_def contributions_def id_from_index_def\<close>)
  moreover from this have "trie_sum C' = trie_sum C" by (intro ext) (simp add: trie_sum_def)
  moreover from this have "ctoken_claims C' = ctoken_claims C" by (intro ext) (simp add: ctoken_claims_def)
  ultimately show ?thesis
    using assms by (simp add: same_pallet_def crowdloan_safe_def funds_held_def ctokens_issued_def claimable_for_def
        vault_books_def vault_ok_def unused_tries_empty_def)
qed

section \<open>Safety of histories\<close>

interpretation crowdloans: kept_by_calls crowdloans_exec "environment_admitted C c" "crowdloan_safe C c"
  for C :: "'w crowdloans_config" and c
proof
  fix act and s s' :: "'w crowdloans_state"
  assume adm: "environment_admitted C c act" and safe: "crowdloan_safe C c s" and ex: "crowdloans_exec s act = Inr s'"
  obtain C' a where act: "act = (C', a)" by (cases act)
  have env: "same_pallet C C'" and sv: "crowdloan_services C' c" and ok: "action_admitted c (C', a)"
    using adm by (simp_all add: environment_admitted_def act)
  have safe': "crowdloan_safe C' c s" using safe same_pallet_safe [OF env] by simp
  have "crowdloan_safe C' c s'"
  proof (cases a)
    case (CrowdloansCall o' call)
    show ?thesis
      by (rule crowdloan_services.dispatch_safe [OF sv _ safe']) (use ex ok in \<open>simp_all add: act CrowdloansCall\<close>)
  next
    case (CrowdloansOther x)
    with ex obtain w where "ledger_exec (cl_assets C') (cl_world s) x = Inr w" and "s' = s\<lparr>cl_world := w\<rparr>"
      by (auto simp: act)
    with ok safe' show ?thesis using crowdloan_services.ledger_safe [OF sv] by (simp add: CrowdloansOther)
  qed
  then show "crowdloan_safe C c s'" using same_pallet_safe [OF env] by simp
qed

lemma crowdloans_genesis_safe:
  assumes "distinct (cl_accounts C)" and "ft_total_issuance (cl_assets C) w c = 0"
  shows "crowdloan_safe C c (crowdloans_genesis w)"
  using assms
  by (simp add: crowdloan_safe_def crowdloans_genesis_def vault_books_def own_tries_def unused_tries_empty_def covers_def
      contributions_def vaults_owed_def ctokens_issued_def claimable_for_def contributed_for_def)

section \<open>Phases\<close>

text \<open>Which call asks for which phase, and in which phase the vault is then.\<close>

fun asks_withdrawal :: "para_id \<Rightarrow> crowdloans_call_kind \<Rightarrow> vault_phase option \<Rightarrow> vault_phase \<Rightarrow> bool" where
  "asks_withdrawal p (AuctionFailed p') now target \<longleftrightarrow> p' = p \<and> now = Some VaultClosed \<and> target = VaultFailed"
| "asks_withdrawal p (SlotExpired p') now target \<longleftrightarrow> p' = p \<and> now = Some VaultSucceeded \<and> target = VaultExpired"
| "asks_withdrawal p _ now target \<longleftrightarrow> False"

definition phase_of :: "'w crowdloans_state \<Rightarrow> para_id \<times> vault_id \<Rightarrow> vault_phase option" where
  "phase_of s k = map_option v_phase (vaults s k)"

text \<open>
  The moves a call makes.  The reply to a withdrawal sets the phase that was asked for when the message was sent, whatever the
  phase of the vault is by then; \<open>asked\<close> tells what was asked for with which query.
\<close>

inductive phase_move ::
    "(query_id \<Rightarrow> para_id \<times> vault_id \<Rightarrow> vault_phase \<Rightarrow> bool) \<Rightarrow> crowdloans_call_kind \<Rightarrow> para_id \<times> vault_id \<Rightarrow> vault_phase option \<Rightarrow> vault_phase option \<Rightarrow> bool"
  for asked where
  created: "phase_move asked (CreateVault p c ls le st cap e) (p, ls, le) None (Some VaultPending)"
| opened: "phase_move asked (OpenVault p) (p, lease) (Some VaultPending) (Some VaultContributing)"
| closed: "phase_move asked (CloseVault p) (p, lease) (Some VaultContributing) (Some VaultClosed)"
| reopened: "phase_move asked (ReopenVault p) (p, lease) (Some VaultClosed) (Some VaultContributing)"
| won: "phase_move asked (AuctionSucceeded p) (p, lease) (Some VaultClosed) (Some VaultSucceeded)"
| withdrawn: "asked q (p, lease) target \<Longrightarrow>
    phase_move asked (NotificationReceivedCall q (ExecutionResult None)) (p, lease) (Some x) (Some target)"
| dissolved: "x \<in> {VaultClosed, VaultFailed, VaultExpired} \<Longrightarrow>
    phase_move asked (DissolveVault p ls le) (p, ls, le) (Some x) None"

lemma phase_of_put:
  "vaults s k = Some v \<Longrightarrow> v_phase v' = v_phase v \<Longrightarrow> phase_of (put_vault k v' s) x = phase_of s x"
  by (simp add: phase_of_def)

lemma phase_of_vaults: "vaults s' = vaults s \<Longrightarrow> phase_of s' x = phase_of s x"
  by (simp add: phase_of_def)

lemma books_current_vault:
  assumes "vault_books C s" and "current_vault s p = Some v"
  shows "vaults s (p, vault_lease v) = Some v"
proof -
  from assms(2) obtain lease where v: "vaults s (p, lease) = Some v"
    by (auto simp: current_vault_def split: option.splits)
  from vault_booksD(1) [OF assms(1) v] v show ?thesis by (simp add: vault_ok_def)
qed

text \<open>The calls that work on a copy of a vault store it with the phase it had.\<close>

lemma ledger_steps_vaults:
  "crowdloans_transfer C s a x y n = Inr s' \<Longrightarrow> vaults s' = vaults s"
  "crowdloans_mint_into C s a x n = Inr s' \<Longrightarrow> vaults s' = vaults s"
  "crowdloans_burn_from C s a x n = Inr s' \<Longrightarrow> vaults s' = vaults s"
  "crowdloans_do_contribute C s who p lease st n r = Inr s' \<Longrightarrow> vaults s' = vaults s"
  "crowdloans_do_withdraw C s p lease n target = Inr s' \<Longrightarrow> vaults s' = vaults s"
  "pay_bonus C s who lease n = Inr s' \<Longrightarrow> vaults s' = vaults s"
  by (auto simp: crowdloans_transfer_def crowdloans_mint_into_def crowdloans_burn_from_def crowdloans_do_contribute_def
      crowdloans_do_withdraw_def pay_bonus_def cl_deposit_event_def Let_def split: if_splits)

lemma migrate_frame:
  assumes "do_migrate_contribution C s who v amount src dst = Inr (v', s')"
  shows "vaults s' = vaults s" and "v_phase v' = v_phase v" and "vault_lease v' = vault_lease v"
proof -
  from assms obtain r v1 s1 r' where
      1: "do_update_contribution C s who v amount None Subtraction src = Inr (r, v1, s1)"
      and 2: "do_update_contribution C s1 who v1 amount (Some r) Addition dst = Inr (r', v', s')"
    unfolding do_migrate_contribution_def by (elim resultE) auto
  show "vaults s' = vaults s" "v_phase v' = v_phase v" "vault_lease v' = vault_lease v"
    using update_frame [OF 1] update_frame [OF 2] by (simp_all add: entry_frame_def vault_frame_def)
qed

lemma refund_frame:
  assumes "do_refund_for C s who v kind amount = Inr (v', s')"
  shows "vaults s' = vaults s" and "v_phase v' = v_phase v"
proof -
  from assms obtain s1 r where
      pay: "(if kind = KindContributed then crowdloans_mint_into C s (cl_relay_currency C) who amount
            else crowdloans_transfer C s (cl_relay_currency C) (crowdloans_account_id C) who amount) = Inr s1"
      and upd: "do_update_contribution C s1 who v amount None Subtraction kind = Inr (r, v', s')"
    unfolding do_refund_for_def by (elim resultE) auto
  have "vaults s1 = vaults s" using pay ledger_steps_vaults(1,2) by (metis (full_types))
  with update_frame [OF upd] show "vaults s' = vaults s" "v_phase v' = v_phase v"
    by (simp_all add: entry_frame_def vault_frame_def)
qed

lemma migrate_entries_frame:
  "migrate_entries C p es m v s = Inr (b, v', s') \<Longrightarrow>
    vaults s' = vaults s \<and> v_phase v' = v_phase v \<and> vault_lease v' = vault_lease v"
proof (induction es arbitrary: m v s)
  case (Cons e es)
  obtain who amount r where e: "e = (who, amount, r)" by (cases e)
  show ?case
  proof (cases "m \<ge> cl_migrate_keys_limit C")
    case False
    with Cons.prems obtain v1 s1 s2 where
        1: "do_migrate_contribution C s who v amount KindPending KindFlying = Inr (v1, s1)"
        and 2: "crowdloans_do_contribute C s1 who p (vault_lease v1) (v_strategy v1) amount r = Inr s2"
        and 3: "migrate_entries C p es (m + 1) v1 s2 = Inr (b, v', s')"
      by (auto simp: e)
    from Cons.IH [OF 3] migrate_frame [OF 1] ledger_steps_vaults(4) [OF 2] show ?thesis by simp
  qed (use Cons.prems in \<open>simp add: e\<close>)
qed simp

lemma refund_entries_frame:
  "refund_entries C kind es m v s = Inr (b, m', v', s') \<Longrightarrow> vaults s' = vaults s \<and> v_phase v' = v_phase v"
proof (induction es arbitrary: m v s)
  case (Cons e es)
  obtain who amount r where e: "e = (who, amount, r)" by (cases e)
  show ?case
  proof (cases "m \<ge> cl_remove_keys_limit C")
    case False
    with Cons.prems obtain v1 s1 where
        1: "do_refund_for C s who v kind amount = Inr (v1, s1)"
        and 2: "refund_entries C kind es (m + 1) v1 s1 = Inr (b, m', v', s')"
      by (auto simp: e)
    from Cons.IH [OF 2] refund_frame [OF 1] show ?thesis by simp
  qed (use Cons.prems in \<open>simp add: e\<close>)
qed simp

lemma refund_kinds_frame:
  "refund_kinds C kinds m v s = Inr (b, v', s') \<Longrightarrow> vaults s' = vaults s \<and> v_phase v' = v_phase v"
proof (induction kinds arbitrary: m v s)
  case (Cons kind kinds)
  then obtain f m1 v1 s1 where
      1: "refund_entries C kind (contribution_iterator C s (v_trie_index v) kind) m v s = Inr (f, m1, v1, s1)"
      and 2: "(if f then refund_kinds C kinds m1 v1 s1 else Inr (False, v1, s1)) = Inr (b, v', s')"
    by auto
  from refund_entries_frame [OF 1] 2 Cons.IH show ?case by (auto split: if_splits)
qed simp

text \<open>Everything but the calls of \<open>phase_move\<close> keeps the phases.\<close>

definition keeps_phases :: "'w crowdloans_state \<Rightarrow> 'w crowdloans_state \<Rightarrow> bool" where
  "keeps_phases s s' \<longleftrightarrow> (\<forall>k. phase_of s' k = phase_of s k)"

lemma keeps_phases_vaults: "vaults s' = vaults s \<Longrightarrow> keeps_phases s s'"
  by (simp add: keeps_phases_def phase_of_def)

lemma keeps_phases_put:
  assumes "vaults s k = Some v" and "v_phase v' = v_phase v" and "vaults s' = (vaults s)(k \<mapsto> v')"
  shows "keeps_phases s s'"
  using assms by (simp add: keeps_phases_def phase_of_def)

lemma event_vaults [simp]: "vaults (cl_deposit_event e s) = vaults s"
  by (simp add: cl_deposit_event_def)

lemma update_vault_phases:
  assumes "update_vault C s o' p cap e st = Inr s'" and "vault_books C s"
  shows "keeps_phases s s'"
proof -
  from assms(1) obtain v v1 v2 where v: "current_vault s p = Some v"
      and 1: "(case cap of None \<Rightarrow> Inr v
            | Some cap \<Rightarrow> bindE (ensure (cap \<noteq> 0) (Module InvalidCap)) (\<lambda>_. Inr (v\<lparr>v_cap := cap\<rparr>))) = Inr v1"
      and 2: "(case e of None \<Rightarrow> Inr v1
            | Some end_block \<Rightarrow>
                bindE (ensure (cl_relay_block C \<le> end_block) (Module EndBlockExceeded)) (\<lambda>_. Inr (v1\<lparr>v_end_block := end_block\<rparr>))) = Inr v2"
      and s': "vaults s' = (let v = (case st of None \<Rightarrow> v2 | Some strategy \<Rightarrow> v2\<lparr>v_strategy := strategy\<rparr>) in
          (vaults s)((p, vault_lease v) \<mapsto> v))"
    unfolding update_vault_def Let_def by (elim resultE) auto
  define v' where "v' = (case st of None \<Rightarrow> v2 | Some strategy \<Rightarrow> v2\<lparr>v_strategy := strategy\<rparr>)"
  have "v_phase v' = v_phase v" "vault_lease v' = vault_lease v"
    using 1 2 by (auto simp: v'_def vault_lease_def split: option.splits)
  with books_current_vault [OF assms(2) v] s' show ?thesis
    by (intro keeps_phases_put [of s "(p, vault_lease v)" v v']) (simp_all add: Let_def v'_def)
qed

lemma contribute_phases:
  assumes "contribute C s o' p amount r = Inr s'" and "vault_books C s"
  shows "keeps_phases s s'"
proof -
  from assms(1) obtain who v s1 v1 s2 where v: "current_vault s p = Some v"
      and tr: "crowdloans_transfer C s (cl_relay_currency C) who (crowdloans_account_id C) amount = Inr s1"
      and go: "(if v_phase v = VaultContributing then
              bindE (do_update_contribution C s1 who v amount (Some r) Addition KindFlying) (\<lambda>(_, v, s).
              bindE (crowdloans_do_contribute C s who p (vault_lease v) (v_strategy v) amount r) (\<lambda>s.
              Inr (v, s)))
            else
              bindE (do_update_contribution C s1 who v amount (Some r) Addition KindPending) (\<lambda>(_, v, s).
              Inr (v, s))) = Inr (v1, s2)"
      and s': "s' = put_vault (p, vault_lease v1) v1 s2"
    unfolding contribute_def by (elim resultE) auto
  from go obtain kind r1 s3 where upd: "do_update_contribution C s1 who v amount (Some r) Addition kind = Inr (r1, v1, s3)"
      and "vaults s2 = vaults s3"
  proof (cases "v_phase v = VaultContributing")
    case True
    with go obtain r1 s3 where "do_update_contribution C s1 who v amount (Some r) Addition KindFlying = Inr (r1, v1, s3)"
        and "crowdloans_do_contribute C s3 who p (vault_lease v1) (v_strategy v1) amount r = Inr s2"
      by auto
    then show thesis using that ledger_steps_vaults(4) by blast
  qed (use that in auto)
  with update_frame [OF upd] ledger_steps_vaults(1) [OF tr] have "vaults s2 = vaults s" "v_phase v1 = v_phase v" "vault_lease v1 = vault_lease v"
    by (simp_all add: entry_frame_def vault_frame_def)
  with books_current_vault [OF assms(2) v] show ?thesis
    by (intro keeps_phases_put [of s "(p, vault_lease v)" v v1]) (simp_all add: s')
qed

lemma payment_phases:
  shows "do_claim_for C s who p lease f = Inr s' \<Longrightarrow> keeps_phases s s'"
    and "do_withdraw_for C s who p lease = Inr s' \<Longrightarrow> keeps_phases s s'"
    and "crowdloans_do_redeem C s who p lease n = Inr s' \<Longrightarrow> keeps_phases s s'"
proof -
  assume "do_claim_for C s who p lease f = Inr s'"
  then show "keeps_phases s s'"
    unfolding do_claim_for_def
    by (auto simp: split_beta contribution_kill_def elim!: resultE intro!: keeps_phases_vaults dest!: ledger_steps_vaults)
next
  assume "do_withdraw_for C s who p lease = Inr s'"
  then obtain v where v: "vaults s (p, lease) = Some v" and "vaults s' = (vaults s)((p, lease) \<mapsto>
        v\<lparr>v_contributed := v_contributed v - fst (contribution_get C s (v_trie_index v) who KindContributed)\<rparr>)"
    unfolding do_withdraw_for_def Let_def
    by (auto simp: split_beta contribution_kill_def elim!: resultE dest!: ledger_steps_vaults)
  then show "keeps_phases s s'" by (intro keeps_phases_put [of s "(p, lease)" v]) simp_all
next
  assume "crowdloans_do_redeem C s who p lease n = Inr s'"
  then obtain v where v: "vaults s (p, lease) = Some v"
      and "vaults s' = (vaults s)((p, lease) \<mapsto> v\<lparr>v_contributed := v_contributed v - n\<rparr>)"
    unfolding crowdloans_do_redeem_def Let_def by (auto elim!: resultE dest!: ledger_steps_vaults)
  then show "keeps_phases s s'" by (intro keeps_phases_put [of s "(p, lease)" v]) simp_all
qed

lemma loop_phases:
  shows "migrate_pending C s o' p = Inr s' \<Longrightarrow> vault_books C s \<Longrightarrow> keeps_phases s s'"
    and "crowdloan_refund C s o' p ls le = Inr s' \<Longrightarrow> keeps_phases s s'"
    and "refund_for C s o' dest p kind n ls le = Inr s' \<Longrightarrow> keeps_phases s s'"
proof -
  assume "migrate_pending C s o' p = Inr s'" and b: "vault_books C s"
  then obtain v f v1 s1 where v: "current_vault s p = Some v"
      and 1: "migrate_entries C p (contribution_iterator C s (v_trie_index v) KindPending) 0 v s = Inr (f, v1, s1)"
      and s': "vaults s' = (vaults s1)((p, vault_lease v1) \<mapsto> v1)"
    unfolding migrate_pending_def Let_def by (elim resultE) auto
  from migrate_entries_frame [OF 1] books_current_vault [OF b v] s' show "keeps_phases s s'"
    by (intro keeps_phases_put [of s "(p, vault_lease v)" v v1]) simp_all
next
  assume "crowdloan_refund C s o' p ls le = Inr s'"
  then obtain v f v1 s1 where v: "vaults s (p, ls, le) = Some v"
      and 1: "refund_kinds C [KindContributed, KindFlying, KindPending] 0 v s = Inr (f, v1, s1)"
      and s': "vaults s' = (vaults s1)((p, ls, le) \<mapsto> v1)"
    unfolding crowdloan_refund_def Let_def by (elim resultE) auto
  from refund_kinds_frame [OF 1] v s' show "keeps_phases s s'"
    by (intro keeps_phases_put [of s "(p, ls, le)" v v1]) simp_all
next
  assume "refund_for C s o' dest p kind n ls le = Inr s'"
  then obtain who v v1 s1 where v: "vaults s (p, ls, le) = Some v" and 1: "do_refund_for C s who v kind n = Inr (v1, s1)"
      and s': "vaults s' = (vaults s1)((p, ls, le) \<mapsto> v1)"
    unfolding refund_for_def Let_def by (auto simp: split_beta elim!: resultE)
  from refund_frame [OF 1] v s' show "keeps_phases s s'"
    by (intro keeps_phases_put [of s "(p, ls, le)" v v1]) simp_all
qed

lemma withdraw_request_phases:
  assumes "try_mutate_vault s p pre (\<lambda>v s. bindE (crowdloans_do_withdraw C s p (vault_lease v) (v_contributed v) post) (\<lambda>s. Inr (v, s))) = Inr s'"
    and "vault_books C s"
  shows "keeps_phases s s'"
proof -
  from assms(1) obtain v s1 where v: "current_vault s p = Some v"
      and 1: "crowdloans_do_withdraw C s p (vault_lease v) (v_contributed v) post = Inr s1"
      and s': "s' = put_vault (p, vault_lease v) v s1"
    unfolding try_mutate_vault_def by (elim resultE) auto
  from books_current_vault [OF assms(2) v] ledger_steps_vaults(5) [OF 1] show ?thesis
    by (intro keeps_phases_put [of s "(p, vault_lease v)" v v]) (simp_all add: s')
qed

lemma set_phase_moves:
  assumes "try_mutate_vault s p pre (set_phase p pre post) = Inr s'" and "vault_books C s"
  shows "phase_of s' k = phase_of s k \<or> fst k = p \<and> phase_of s k = Some pre \<and> phase_of s' k = Some post"
proof -
  from assms(1) obtain v where v: "current_vault s p = Some v" and "v_phase v = pre"
      and s': "vaults s' = (vaults s)((p, vault_lease v) \<mapsto> v\<lparr>v_phase := post\<rparr>)"
    unfolding try_mutate_vault_def set_phase_def by (elim resultE) (auto simp: vault_lease_def)
  with books_current_vault [OF assms(2) v] show ?thesis by (cases "k = (p, vault_lease v)") (simp_all add: phase_of_def)
qed

lemma notification_moves:
  assumes "do_notification_received C s q req res = Inr s'"
  shows "keeps_phases s s' \<or> (\<exists>p lease n target. req = RequestWithdraw p lease n target \<and> res = None \<and>
    (\<exists>x. phase_of s (p, lease) = Some x) \<and> phase_of s' (p, lease) = Some target \<and>
    (\<forall>k. k \<noteq> (p, lease) \<longrightarrow> phase_of s' k = phase_of s k))"
proof (cases req)
  case (RequestContribute p lease who amount r)
  have "\<exists>v v'. vaults s (p, lease) = Some v \<and> v_phase v' = v_phase v \<and> vaults s' = (vaults s)((p, lease) \<mapsto> v')"
  proof (cases "res = None")
    case True
    with assms RequestContribute obtain v s1 v1 s2 where v: "vaults s (p, lease) = Some v"
        and 1: "crowdloans_burn_from C s (cl_relay_currency C) (crowdloans_account_id C) amount = Inr s1"
        and 2: "do_migrate_contribution C s1 who v amount KindFlying KindContributed = Inr (v1, s2)"
        and s': "vaults s' = (vaults s2)((p, lease) \<mapsto> v1)"
      unfolding do_notification_received_def Let_def by auto
    with migrate_frame [OF 2] ledger_steps_vaults(3) [OF 1] show ?thesis by auto
  next
    case False
    with assms RequestContribute obtain v s1 r1 v1 s2 where v: "vaults s (p, lease) = Some v"
        and 1: "crowdloans_transfer C s (cl_relay_currency C) (crowdloans_account_id C) who amount = Inr s1"
        and 2: "do_update_contribution C s1 who v amount None Subtraction KindFlying = Inr (r1, v1, s2)"
        and s': "vaults s' = (vaults s2)((p, lease) \<mapsto> v1)"
      unfolding do_notification_received_def Let_def by auto
    with update_frame [OF 2] ledger_steps_vaults(1) [OF 1] show ?thesis by (auto simp: entry_frame_def vault_frame_def)
  qed
  then show ?thesis using keeps_phases_put by metis
next
  case (RequestWithdraw p lease n target)
  show ?thesis
  proof (cases "res = None")
    case True
    with assms RequestWithdraw obtain v where "vaults s (p, lease) = Some v"
        and "vaults s' = (vaults s)((p, lease) \<mapsto> v\<lparr>v_phase := target\<rparr>)"
      unfolding do_notification_received_def Let_def by auto
    with True RequestWithdraw show ?thesis by (auto simp: phase_of_def)
  next
    case False
    with assms RequestWithdraw have "s' = s" by (simp add: do_notification_received_def)
    then show ?thesis by (simp add: keeps_phases_def)
  qed
qed

lemma redeem_lend_phases:
  assumes "redeem_and_lend_for C s o' d p ls le n = Inr s'"
  shows "keeps_phases s s'"
proof -
  from assms obtain who s1 where 1: "crowdloans_do_redeem C s who p (ls, le) n = Inr s1" and "vaults s' = vaults s1"
    unfolding redeem_and_lend_for_def by (elim resultE) auto
  with payment_phases(3) [OF 1] show ?thesis by (simp add: keeps_phases_def phase_of_def)
qed

lemma create_phases:
  assumes "create_vault C s o' p c ls le st cap e = Inr s'"
  shows "phase_of s' k = phase_of s k \<or> k = (p, ls, le) \<and> phase_of s k = None \<and> phase_of s' k = Some VaultPending"
  using assms unfolding create_vault_def Let_def
  by (elim resultE) (auto simp: phase_of_def new_vault_def simp del: split_paired_All)

lemma dissolve_phases:
  assumes "dissolve_vault C s o' p ls le = Inr s'"
  shows "phase_of s' k = phase_of s k \<or> k = (p, ls, le) \<and> phase_of s' k = None \<and>
    (\<exists>x\<in>{VaultClosed, VaultFailed, VaultExpired}. phase_of s k = Some x)"
proof -
  from assms obtain v where v: "vaults s (p, ls, le) = Some v" and x: "v_phase v \<in> {VaultClosed, VaultFailed, VaultExpired}"
      and s': "vaults s' = (vaults s)((p, ls, le) := None)"
    unfolding dissolve_vault_def Let_def by (elim resultE) (auto split: option.splits)
  from x show ?thesis by (cases "k = (p, ls, le)") (simp_all add: phase_of_def v s')
qed

lemma notification_call_moves:
  assumes "notification_received C s o' q res = Inr s'"
    and asked: "\<And>p lease n target. xcm_requests s q = Some (RequestWithdraw p lease n target) \<Longrightarrow> asked q (p, lease) target"
  shows "phase_of s' k = phase_of s k \<or> phase_move asked (NotificationReceivedCall q res) k (phase_of s k) (phase_of s' k)"
proof (cases "\<exists>r req. res = ExecutionResult r \<and> xcm_requests s q = Some req")
  case True
  then obtain r req where res: "res = ExecutionResult r" and req: "xcm_requests s q = Some req" by blast
  from assms(1) res req obtain s1 where 1: "do_notification_received C s q req r = Inr s1" and s': "vaults s' = vaults s1"
    unfolding notification_received_def by (auto elim!: resultE)
  from notification_moves [OF 1] show ?thesis
  proof (elim disjE exE conjE)
    assume "keeps_phases s s1"
    with s' show ?thesis unfolding keeps_phases_def phase_of_def by metis
  next
    fix p lease n target x
    assume a: "req = RequestWithdraw p lease n target" "r = None" "phase_of s (p, lease) = Some x" "phase_of s1 (p, lease) = Some target"
      and o: "\<forall>k. k \<noteq> (p, lease) \<longrightarrow> phase_of s1 k = phase_of s k"
    have eq: "phase_of s' k = phase_of s1 k" by (simp add: phase_of_def s')
    show ?thesis
    proof (cases "k = (p, lease)")
      case True
      with a req res eq show ?thesis using phase_move.withdrawn [of asked q p lease target x] asked by simp
    next
      case False
      with o eq show ?thesis by metis
    qed
  qed
next
  case False
  with assms(1) have "vaults s' = vaults s" unfolding notification_received_def
    by (auto elim!: resultE split: xcm_response.splits option.splits)
  then show ?thesis by (simp add: phase_of_def)
qed

lemma set_phase_call_moves:
  assumes "vault_books C s"
  shows "crowdloan_open C s o' p = Inr s' \<Longrightarrow> phase_of s' k = phase_of s k \<or> phase_move asked (OpenVault p) k (phase_of s k) (phase_of s' k)"
    and "crowdloan_close C s o' p = Inr s' \<Longrightarrow> phase_of s' k = phase_of s k \<or> phase_move asked (CloseVault p) k (phase_of s k) (phase_of s' k)"
    and "crowdloan_reopen C s o' p = Inr s' \<Longrightarrow> phase_of s' k = phase_of s k \<or> phase_move asked (ReopenVault p) k (phase_of s k) (phase_of s' k)"
    and "auction_succeeded C s o' p = Inr s' \<Longrightarrow> phase_of s' k = phase_of s k \<or> phase_move asked (AuctionSucceeded p) k (phase_of s k) (phase_of s' k)"
  unfolding crowdloan_open_def crowdloan_close_def crowdloan_reopen_def auction_succeeded_def
  by (cases k; auto elim!: resultE dest!: set_phase_moves [OF _ assms, where k = k] intro: phase_move.intros)+

lemma dispatch_phases:
  assumes "crowdloans_dispatch C s o' call = Inr s'" and "vault_books C s"
    and asked: "\<And>q p lease n target. xcm_requests s q = Some (RequestWithdraw p lease n target) \<Longrightarrow> asked q (p, lease) target"
  shows "phase_of s' k = phase_of s k \<or> phase_move asked call k (phase_of s k) (phase_of s' k)"
proof (cases "keeps_phases s s'")
  case True
  then show ?thesis unfolding keeps_phases_def by blast
next
  case False
  note keep = update_vault_phases [OF _ assms(2)] contribute_phases [OF _ assms(2)] payment_phases loop_phases(1) [OF _ assms(2)] loop_phases(2,3)
    redeem_lend_phases withdraw_request_phases [OF _ assms(2)]
  note move = set_phase_call_moves [OF assms(2), where k = k and asked = asked] notification_call_moves [where k = k and asked = asked, OF _ asked]
  from False assms(1) show ?thesis
  proof (cases call)
    case (CreateVault q c ls le st cap e)
    with assms(1) create_phases [of C s o' q c ls le st cap e s' k] show ?thesis by (auto intro: phase_move.intros)
  next
    case (DissolveVault q ls le)
    with assms(1) dissolve_phases [of C s o' q ls le s' k] show ?thesis by (auto intro: phase_move.intros)
  qed (auto simp: set_vrf_def auction_failed_def slot_expired_def crowdloan_claim_def claim_for_def crowdloan_withdraw_def
        withdraw_for_def crowdloan_redeem_def update_proxy_def update_leases_bonus_def force_claim_for_def keeps_phases_vaults elim!: resultE dest: keep move)
qed

section \<open>Refunds\<close>

text \<open>The contributions of a vault that a refund has to pay back, in the order in which the code visits them.\<close>

definition open_of ::
    "'w crowdloans_config \<Rightarrow> 'w crowdloans_state \<Rightarrow> trie_index \<Rightarrow> child_storage_kind list
     \<Rightarrow> (child_storage_kind \<times> account_id \<times> balance) list" where
  "open_of C s i kinds =
     concat (map (\<lambda>kind. map (\<lambda>(who, amount, r). (kind, who, amount)) (contribution_iterator C s i kind)) kinds)"

abbreviation open_contributions ::
    "'w crowdloans_config \<Rightarrow> 'w crowdloans_state \<Rightarrow> trie_index \<Rightarrow> (child_storage_kind \<times> account_id \<times> balance) list" where
  "open_contributions C s i \<equiv> open_of C s i [KindContributed, KindFlying, KindPending]"

text \<open>
  What a list of contributions pays to an account, and what of it the pallet's account pays: contributions that the relay
  chain has taken are minted again, the others were kept by the pallet.
\<close>

definition paid_to :: "account_id \<Rightarrow> (child_storage_kind \<times> account_id \<times> balance) list \<Rightarrow> balance" where
  "paid_to z es = (\<Sum>(kind, who, n)\<leftarrow>es. if who = z then n else 0)"

definition paid_by_pallet :: "(child_storage_kind \<times> account_id \<times> balance) list \<Rightarrow> balance" where
  "paid_by_pallet es = (\<Sum>(kind, who, n)\<leftarrow>es. if kind = KindContributed then 0 else n)"

definition relay_balance :: "'w crowdloans_config \<Rightarrow> 'w crowdloans_state \<Rightarrow> account_id \<Rightarrow> balance" where
  "relay_balance C s z = ft_balance (cl_assets C) (cl_world s) (cl_relay_currency C) z"

definition pays_back ::
    "'w crowdloans_config \<Rightarrow> (child_storage_kind \<times> account_id \<times> balance) list \<Rightarrow> 'w crowdloans_state \<Rightarrow> 'w crowdloans_state \<Rightarrow> bool" where
  "pays_back C es s s' \<longleftrightarrow>
     (\<forall>z. relay_balance C s' z + (if z = cl_pallet_account C then paid_by_pallet es else 0) = relay_balance C s z + paid_to z es)"

lemma pays_back_nil [simp]: "pays_back C [] s s"
  by (simp add: pays_back_def paid_to_def paid_by_pallet_def)

lemma pays_back_append:
  assumes "pays_back C es s t" and "pays_back C es' t u"
  shows "pays_back C (es @ es') s u"
  unfolding pays_back_def
proof
  fix z
  from assms have "relay_balance C t z + (if z = cl_pallet_account C then paid_by_pallet es else 0) = relay_balance C s z + paid_to z es"
    "relay_balance C u z + (if z = cl_pallet_account C then paid_by_pallet es' else 0) = relay_balance C t z + paid_to z es'"
    by (simp_all add: pays_back_def)
  then show "relay_balance C u z + (if z = cl_pallet_account C then paid_by_pallet (es @ es') else 0) = relay_balance C s z + paid_to z (es @ es')"
    by (simp add: paid_to_def paid_by_pallet_def split: if_splits)
qed

lemma do_refund_pays:
  assumes "exact_custody (cl_assets C) (cl_relay_currency C)" and "do_refund_for C s who v kind amount = Inr (v', s')"
  shows "pays_back C [(kind, who, amount)] s s'"
proof -
  from assms(2) obtain s1 r1 where
      pay: "(if kind = KindContributed then crowdloans_mint_into C s (cl_relay_currency C) who amount
            else crowdloans_transfer C s (cl_relay_currency C) (crowdloans_account_id C) who amount) = Inr s1"
      and upd: "do_update_contribution C s1 who v amount None Subtraction kind = Inr (r1, v', s')"
    unfolding do_refund_for_def by (elim resultE) auto
  have w: "cl_world s' = cl_world s1" using update_frame [OF upd] by (simp add: entry_frame_def)
  have laws: "fungibles_laws (cl_assets C)" and dust: "leaves_no_dust (ft_minimum_balance (cl_assets C) l (cl_relay_currency C)) held n" for l held n
    using assms(1) by (auto simp: exact_custody_def intro: small_minimum_no_dust)
  show ?thesis
  proof (cases "kind = KindContributed")
    case True
    with pay have "ft_mint_into (cl_assets C) (cl_world s) (cl_relay_currency C) who amount = Inr (cl_world s1)"
      by (auto simp: crowdloans_mint_into_def elim!: resultE)
    from fungibles_laws_mintD(1) [OF laws this] True show ?thesis
      by (simp add: pays_back_def relay_balance_def w paid_to_def paid_by_pallet_def)
  next
    case False
    with pay have "ft_transfer (cl_assets C) (cl_world s) (cl_relay_currency C) (cl_pallet_account C) who amount False = Inr (cl_world s1)"
      by (auto simp: crowdloans_transfer_def crowdloans_account_id_def elim!: resultE)
    note moved = fungibles_lawsD(2) [OF laws this dust]
    show ?thesis unfolding pays_back_def relay_balance_def w paid_to_def paid_by_pallet_def
    proof
      fix z
      show "ft_balance (cl_assets C) (cl_world s1) (cl_relay_currency C) z + (if z = cl_pallet_account C
          then \<Sum>(kind, who, n)\<leftarrow>[(kind, who, amount)]. if kind = KindContributed then 0 else n else 0) =
        ft_balance (cl_assets C) (cl_world s) (cl_relay_currency C) z + (\<Sum>(kind, who, n)\<leftarrow>[(kind, who, amount)]. if who = z then n else 0)"
        using moved [of z] False by (auto split: if_splits)
    qed
  qed
qed

lemma storage_iter_tail:
  assumes "distinct ks" and "storage_iter ks m = (who, x) # es"
  shows "storage_iter ks (m(who := None)) = es"
  using assms
proof (induction ks)
  case (Cons k ks)
  show ?case
  proof (cases "m k")
    case None
    with Cons.prems have it: "storage_iter ks m = (who, x) # es" by simp
    then have "(who, x) \<in> set (storage_iter ks m)" by simp
    then have "who \<in> set ks" by (simp add: storage_iter_mem)
    with Cons.prems(1) have "k \<noteq> who" by auto
    with None Cons.IH it Cons.prems(1) show ?thesis by simp
  next
    case (Some y)
    with Cons.prems have k: "k = who" and es: "es = storage_iter ks m" by auto
    have "storage_iter ks (m(k := None)) = storage_iter ks m" if "k \<notin> set ks" for ks
      using that by (induction ks) (auto split: option.split)
    with k es Cons.prems(1) show ?thesis by (simp del: fun_upd_apply) simp
  qed
qed simp

lemma do_refund_iterator:
  assumes "tries_apart C" and "distinct (cl_accounts C)" and "v_trie_index v \<le> u32_max"
    and "do_refund_for C s who v kind amount = Inr (v', s')"
    and "contribution_iterator C s (v_trie_index v) kind = (who, amount, r) # es"
  shows "contribution_iterator C s' (v_trie_index v) kind = es" and "v_trie_index v' = v_trie_index v"
    and "kind' \<noteq> kind \<Longrightarrow> contribution_iterator C s' (v_trie_index v) kind' = contribution_iterator C s (v_trie_index v) kind'"
proof -
  let ?i = "v_trie_index v"
  from assms(4) obtain s1 r1 where
      pay: "(if kind = KindContributed then crowdloans_mint_into C s (cl_relay_currency C) who amount
            else crowdloans_transfer C s (cl_relay_currency C) (crowdloans_account_id C) who amount) = Inr s1"
      and upd: "do_update_contribution C s1 who v amount None Subtraction kind = Inr (r1, v', s')"
    unfolding do_refund_for_def by (elim resultE) auto
  have same: "contributions C s1 = contributions C s"
    using pay by (auto simp: crowdloans_mint_into_def crowdloans_transfer_def contributions_def fun_eq_iff split: if_splits)
  have "(who, amount, r) \<in> set (storage_iter (cl_accounts C) (contributions C s ?i kind))"
    using assms(5) by (simp add: contribution_iterator_def)
  then have held: "contributions C s ?i kind who = Some (amount, r)" by (simp add: storage_iter_mem)
  from upd obtain total n where v': "v' = set_kind_total kind total v"
      and n: "n + loses Subtraction amount = fst (contribution_get C s1 ?i who kind) + gains Subtraction amount"
      and s': "s' = put_entry C ?i kind who (if n = 0 then None else Some (n, r1)) s1"
    by (rule do_update_contribution_effect)
  from n held same have "n = 0" by (simp add: contribution_get_def loses_def gains_def)
  with s' same have c': "contributions C s' ?i k = (if kind = k then (contributions C s ?i kind)(who := None) else contributions C s ?i k)" for k
    using contributions_put_entry [OF assms(1,3,3)] by simp
  show "contribution_iterator C s' ?i kind = es"
    using storage_iter_tail [OF assms(2)] assms(5) by (simp add: contribution_iterator_def c')
  show "v_trie_index v' = ?i" by (simp add: v')
  show "contribution_iterator C s' ?i kind' = contribution_iterator C s ?i kind'" if "kind' \<noteq> kind"
    using that by (simp add: contribution_iterator_def c')
qed

lemma refund_entries_effect:
  assumes "tries_apart C" and "distinct (cl_accounts C)" and "exact_custody (cl_assets C) (cl_relay_currency C)"
    and "v_trie_index v \<le> u32_max"
    and "refund_entries C kind es m v s = Inr (b, m', v', s')"
    and "contribution_iterator C s (v_trie_index v) kind = es" and "m \<le> cl_remove_keys_limit C"
  shows "m' = m + min (length es) (cl_remove_keys_limit C - m) \<and> b = (length es \<le> cl_remove_keys_limit C - m) \<and>
    v_trie_index v' = v_trie_index v \<and>
    contribution_iterator C s' (v_trie_index v) kind = drop (cl_remove_keys_limit C - m) es \<and>
    (\<forall>kind'. kind' \<noteq> kind \<longrightarrow> contribution_iterator C s' (v_trie_index v) kind' = contribution_iterator C s (v_trie_index v) kind') \<and>
    pays_back C (map (\<lambda>(who, amount, r). (kind, who, amount)) (take (cl_remove_keys_limit C - m) es)) s s'"
  using assms(4-7)
proof (induction es arbitrary: m v s)
  case Nil
  then show ?case by auto
next
  case (Cons e es)
  obtain who amount r where e: "e = (who, amount, r)" by (cases e)
  show ?case
  proof (cases "m \<ge> cl_remove_keys_limit C")
    case True
    with Cons.prems show ?thesis by (auto simp: e)
  next
    case False
    with Cons.prems(2) obtain v1 s1 where
        1: "do_refund_for C s who v kind amount = Inr (v1, s1)"
        and 2: "refund_entries C kind es (m + 1) v1 s1 = Inr (b, m', v', s')"
      by (auto simp: e)
    note step = do_refund_iterator [OF assms(1,2) Cons.prems(1) 1 Cons.prems(3) [unfolded e]]
    obtain k where k: "cl_remove_keys_limit C - m = Suc k" "cl_remove_keys_limit C - (m + 1) = k" using False by (cases "cl_remove_keys_limit C - m") auto
    have "v_trie_index v1 \<le> u32_max" "contribution_iterator C s1 (v_trie_index v1) kind = es" "m + 1 \<le> cl_remove_keys_limit C"
      using step(1,2) Cons.prems(1) False by simp_all
    note IH = Cons.IH [OF this(1) 2 this(2,3), unfolded k step(2)]
    from pays_back_append [OF do_refund_pays [OF assms(3) 1]] IH
    have "pays_back C ((kind, who, amount) # map (\<lambda>(who, amount, r). (kind, who, amount)) (take k es)) s s'" by fastforce
    with IH step(3) show ?thesis unfolding k by (auto simp: e)
  qed
qed

lemma refund_kinds_effect:
  assumes "tries_apart C" and "distinct (cl_accounts C)" and "exact_custody (cl_assets C) (cl_relay_currency C)"
    and "v_trie_index v \<le> u32_max"
    and "refund_kinds C kinds m v s = Inr (b, v', s')" and "m \<le> cl_remove_keys_limit C" and "distinct kinds"
  shows "v_trie_index v' = v_trie_index v \<and> b = (length (open_of C s (v_trie_index v) kinds) \<le> cl_remove_keys_limit C - m) \<and>
    open_of C s' (v_trie_index v) kinds = drop (cl_remove_keys_limit C - m) (open_of C s (v_trie_index v) kinds) \<and>
    (\<forall>kind. kind \<notin> set kinds \<longrightarrow> contribution_iterator C s' (v_trie_index v) kind = contribution_iterator C s (v_trie_index v) kind) \<and>
    pays_back C (take (cl_remove_keys_limit C - m) (open_of C s (v_trie_index v) kinds)) s s'"
  using assms(4-7)
proof (induction kinds arbitrary: m v s)
  case Nil
  then show ?case by (simp add: open_of_def)
next
  case (Cons kind kinds)
  let ?i = "v_trie_index v" and ?n = "cl_remove_keys_limit C - m"
  let ?tag = "map (\<lambda>(who, amount, r). (kind, who, amount))"
  let ?es = "contribution_iterator C s ?i kind"
  have cons: "open_of C t ?i (kind # kinds) = ?tag (contribution_iterator C t ?i kind) @ open_of C t ?i kinds" for t
    by (simp add: open_of_def)
  from Cons.prems(2) obtain f m1 v1 s1 where 1: "refund_entries C kind ?es m v s = Inr (f, m1, v1, s1)"
      and 2: "(if f then refund_kinds C kinds m1 v1 s1 else Inr (False, v1, s1)) = Inr (b, v', s')"
    by auto
  note eff = refund_entries_effect [OF assms(1-3) Cons.prems(1) 1 refl Cons.prems(3)]
  have others: "open_of C s1 ?i kinds = open_of C s ?i kinds"
    unfolding open_of_def using eff Cons.prems(4) by (intro arg_cong [where f = concat] map_cong) auto
  show ?case
  proof (cases f)
    case False
    with 2 eff have "v' = v1" "s' = s1" "\<not> b" "?n < length ?es" by auto
    with eff others Cons.prems(4) show ?thesis by (simp add: cons take_map drop_map)
  next
    case True
    with 2 have r: "refund_kinds C kinds m1 v1 s1 = Inr (b, v', s')" by simp
    from True eff have len: "length ?es \<le> ?n" and m1: "m1 = m + length ?es" and v1: "v_trie_index v1 = ?i" by auto
    have rest: "cl_remove_keys_limit C - m1 = ?n - length ?es" by (simp add: m1)
    have "m1 \<le> cl_remove_keys_limit C" using len Cons.prems(3) m1 by linarith
    with Cons.IH [OF _ r this] v1 Cons.prems(1,4)
    have IH: "v_trie_index v' = ?i" "b = (length (open_of C s ?i kinds) \<le> ?n - length ?es)"
        "open_of C s' ?i kinds = drop (?n - length ?es) (open_of C s ?i kinds)"
        "\<And>k. k \<notin> set kinds \<Longrightarrow> contribution_iterator C s' ?i k = contribution_iterator C s1 ?i k"
        "pays_back C (take (?n - length ?es) (open_of C s ?i kinds)) s1 s'"
      by (simp_all add: rest others)
    have "pays_back C (?tag ?es @ take (?n - length ?es) (open_of C s ?i kinds)) s s'"
      using pays_back_append [OF _ IH(5)] eff len by simp
    moreover have "contribution_iterator C s' ?i kind = []" using IH(4) [of kind] eff len Cons.prems(4) by simp
    moreover have "contribution_iterator C s' ?i k = contribution_iterator C s ?i k" if "k \<notin> set (kind # kinds)" for k
      using that IH(4) [of k] eff by simp
    ultimately show ?thesis using IH(1-3) len by (auto simp: cons)
  qed
qed

lemma refund_effect:
  assumes "tries_apart C" and "exact_custody (cl_assets C) (cl_relay_currency C)" and "vault_books C s"
    and "vaults s (p, ls, le) = Some v" and "crowdloan_refund C s o' p ls le = Inr s'"
  obtains v' where "vaults s' (p, ls, le) = Some v'" "v_trie_index v' = v_trie_index v"
    "open_contributions C s' (v_trie_index v) = drop (cl_remove_keys_limit C) (open_contributions C s (v_trie_index v))"
    "pays_back C (take (cl_remove_keys_limit C) (open_contributions C s (v_trie_index v))) s s'"
    "last (cl_events s') = (if length (open_contributions C s (v_trie_index v)) \<le> cl_remove_keys_limit C
       then AllRefunded p (ls, le) else PartiallyRefunded p (ls, le))"
proof -
  from assms(4,5) obtain b v1 s1 where 1: "refund_kinds C [KindContributed, KindFlying, KindPending] 0 v s = Inr (b, v1, s1)"
      and s': "s' = cl_deposit_event (if b then AllRefunded p (ls, le) else PartiallyRefunded p (ls, le)) (put_vault (p, ls, le) v1 s1)"
    unfolding crowdloan_refund_def Let_def by (elim resultE) auto
  have d: "distinct (cl_accounts C)" using assms(3) by (simp add: vault_books_def covers_def)
  have "contribution_iterator C s' i kind = contribution_iterator C s1 i kind" for i kind
    by (simp add: s' contribution_iterator_def contributions_def cl_deposit_event_def)
  then have it: "open_of C s' i kinds = open_of C s1 i kinds" for i kinds by (simp add: open_of_def)
  have w: "pays_back C es s s' = pays_back C es s s1" for es
    by (simp add: pays_back_def relay_balance_def s' cl_deposit_event_def put_vault_def)
  note eff = refund_kinds_effect [OF assms(1) d assms(2) vault_booksD(2) [OF assms(3,4)] 1, simplified]
  show thesis
    by (rule that [of v1]) (use eff in \<open>simp_all add: it w\<close>, simp_all add: s' cl_deposit_event_def)
qed

text \<open>The same refund call, accepted \<open>m\<close> times in a row.\<close>

fun repeated_refund ::
    "'w crowdloans_config \<Rightarrow> origin \<Rightarrow> para_id \<Rightarrow> lease_period \<Rightarrow> lease_period \<Rightarrow> nat \<Rightarrow> 'w crowdloans_state
     \<Rightarrow> crowdloans_dispatch_error + 'w crowdloans_state" where
  "repeated_refund C o' p ls le 0 s = Inr s"
| "repeated_refund C o' p ls le (Suc m) s = bindE (crowdloan_refund C s o' p ls le) (repeated_refund C o' p ls le m)"

lemma repeated_refund_effect:
  assumes sv: "crowdloan_services C c" and adm: "crowdloan_admitted C o' (RefundVault p ls le)" and "crowdloan_safe C c s"
    and "vaults s (p, ls, le) = Some v" and "v_trie_index v = i" and "repeated_refund C o' p ls le m s = Inr s'"
  shows "open_contributions C s' i = drop (m * cl_remove_keys_limit C) (open_contributions C s i) \<and>
    pays_back C (take (m * cl_remove_keys_limit C) (open_contributions C s i)) s s' \<and>
    (0 < m \<longrightarrow> last (cl_events s') = (if length (open_contributions C s i) \<le> m * cl_remove_keys_limit C
       then AllRefunded p (ls, le) else PartiallyRefunded p (ls, le)))"
  using assms(3-6)
proof (induction m arbitrary: s v)
  case (Suc m)
  let ?L = "cl_remove_keys_limit C" and ?es = "open_contributions C s i"
  from Suc.prems(4) obtain s1 where 1: "crowdloan_refund C s o' p ls le = Inr s1" and 2: "repeated_refund C o' p ls le m s1 = Inr s'"
    by auto
  have safe: "crowdloan_safe C c s1"
    by (rule crowdloan_services.dispatch_safe [OF sv _ Suc.prems(1) adm]) (simp add: 1)
  obtain v1 where v1: "vaults s1 (p, ls, le) = Some v1" "v_trie_index v1 = i" and es1: "open_contributions C s1 i = drop ?L ?es"
      and p1: "pays_back C (take ?L ?es) s s1"
      and e1: "last (cl_events s1) = (if length ?es \<le> ?L then AllRefunded p (ls, le) else PartiallyRefunded p (ls, le))"
    using refund_effect [OF crowdloan_services.tries [OF sv] crowdloan_services.relay_exact [OF sv] _ Suc.prems(2) 1] Suc.prems(1,3)
    by (auto simp: crowdloan_safe_def)
  note IH = Suc.IH [OF safe v1 2, unfolded es1]
  have "pays_back C (take (?L + m * ?L) ?es) s s'" using pays_back_append [OF p1] IH by (simp add: take_add)
  moreover have "last (cl_events s') = (if length ?es \<le> ?L + m * ?L then AllRefunded p (ls, le) else PartiallyRefunded p (ls, le))"
    using IH e1 2 by (cases m) (simp_all add: le_diff_conv add.commute)
  ultimately show ?case using IH by (simp add: add.commute)
qed simp

end
