(* ===== verification/Crowdloans_Requests.thy ===== *)
theory Crowdloans_Requests
  imports Crowdloans_Histories
begin

text \<open>
  The withdrawals a vault waits for.  Only \<open>auction_failed\<close> on a closed vault and \<open>slot_expired\<close> on a succeeded one send a
  withdrawal to the relay chain, and each asks for its own phase; every other call leaves the stored withdrawals alone or
  drops one.  So along a history every stored withdrawal was asked for by one of the two, in the phase it demands.
\<close>

section \<open>Calls that send no withdrawal\<close>

definition no_new_withdrawals :: "'w crowdloans_state \<Rightarrow> 'w crowdloans_state \<Rightarrow> bool" where
  "no_new_withdrawals s s' \<longleftrightarrow> (\<forall>q p lease n target.
     xcm_requests s' q = Some (RequestWithdraw p lease n target) \<longrightarrow> xcm_requests s q = Some (RequestWithdraw p lease n target))"

lemma no_new_withdrawals_same: "xcm_requests s' = xcm_requests s \<Longrightarrow> no_new_withdrawals s s'"
  by (simp add: no_new_withdrawals_def)

lemma no_new_withdrawals_trans: "no_new_withdrawals s t \<Longrightarrow> no_new_withdrawals t u \<Longrightarrow> no_new_withdrawals s u"
  by (simp add: no_new_withdrawals_def)

abbreviation same_requests :: "'w crowdloans_state \<Rightarrow> 'w crowdloans_state \<Rightarrow> bool" where
  "same_requests s s' \<equiv> xcm_requests s' = xcm_requests s"

lemma event_requests [simp]: "same_requests s (cl_deposit_event e s)"
  by (simp add: cl_deposit_event_def)

lemma step_requests:
  "crowdloans_transfer C s a x y n = Inr s' \<Longrightarrow> same_requests s s'"
  "crowdloans_mint_into C s a x n = Inr s' \<Longrightarrow> same_requests s s'"
  "crowdloans_burn_from C s a x n = Inr s' \<Longrightarrow> same_requests s s'"
  "pay_bonus C s who lease n = Inr s' \<Longrightarrow> same_requests s s'"
  "do_update_contribution C s who v n r ar kind = Inr (r', v', s') \<Longrightarrow> same_requests s s'"
  by (auto simp: crowdloans_transfer_def crowdloans_mint_into_def crowdloans_burn_from_def pay_bonus_def Let_def entry_frame_def
      split: if_splits elim!: resultE dest: update_frame)

lemma kill_requests [simp]: "same_requests s (contribution_kill C i who kind s)"
  by (simp add: contribution_kill_def)

lemma migrate_requests: "do_migrate_contribution C s who v n src dst = Inr (v', s') \<Longrightarrow> same_requests s s'"
  unfolding do_migrate_contribution_def by (auto simp: split_beta elim!: resultE dest!: step_requests)

lemma refund_requests: "do_refund_for C s who v kind n = Inr (v', s') \<Longrightarrow> same_requests s s'"
  unfolding do_refund_for_def by (auto simp: split_beta split: if_splits elim!: resultE dest!: step_requests)

lemma contribute_request: "crowdloans_do_contribute C s who p lease st n r = Inr s' \<Longrightarrow> no_new_withdrawals s s'"
  unfolding crowdloans_do_contribute_def by (auto simp: no_new_withdrawals_def split: if_splits)

lemma migrate_entries_requests: "migrate_entries C p es m v s = Inr (b, v', s') \<Longrightarrow> no_new_withdrawals s s'"
proof (induction es arbitrary: m v s)
  case (Cons e es)
  obtain who amount r where e: "e = (who, amount, r)" by (cases e)
  show ?case
  proof (cases "m \<ge> cl_migrate_keys_limit C")
    case False
    with Cons.prems obtain v1 s1 s2 where 1: "do_migrate_contribution C s who v amount KindPending KindFlying = Inr (v1, s1)"
        and 2: "crowdloans_do_contribute C s1 who p (vault_lease v1) (v_strategy v1) amount r = Inr s2"
        and 3: "migrate_entries C p es (m + 1) v1 s2 = Inr (b, v', s')"
      by (auto simp: e)
    from no_new_withdrawals_trans [OF no_new_withdrawals_same [OF migrate_requests [OF 1]] contribute_request [OF 2]] Cons.IH [OF 3]
    show ?thesis by (rule no_new_withdrawals_trans)
  qed (use Cons.prems in \<open>simp add: e no_new_withdrawals_same\<close>)
qed (simp add: no_new_withdrawals_same)

lemma refund_entries_requests: "refund_entries C kind es m v s = Inr (b, m', v', s') \<Longrightarrow> same_requests s s'"
proof (induction es arbitrary: m v s)
  case (Cons e es)
  then show ?case by (cases e) (auto split: if_splits dest!: refund_requests)
qed simp

lemma refund_kinds_requests: "refund_kinds C kinds m v s = Inr (b, v', s') \<Longrightarrow> same_requests s s'"
proof (induction kinds arbitrary: m v s)
  case (Cons kind kinds)
  then show ?case by (fastforce split: if_splits dest!: refund_entries_requests)
qed simp

lemma payment_requests:
  "do_claim_for C s who p lease f = Inr s' \<Longrightarrow> same_requests s s'"
  "do_withdraw_for C s who p lease = Inr s' \<Longrightarrow> same_requests s s'"
  "crowdloans_do_redeem C s who p lease n = Inr s' \<Longrightarrow> same_requests s s'"
  unfolding do_claim_for_def do_withdraw_for_def crowdloans_do_redeem_def Let_def
  by (auto simp: split_beta split: if_splits elim!: resultE dest!: step_requests)

lemma vault_calls_requests:
  "create_vault C s o' p c ls le st cap e = Inr s' \<Longrightarrow> same_requests s s'"
  "update_vault C s o' p cap' e' st' = Inr s' \<Longrightarrow> same_requests s s'"
  "crowdloan_open C s o' p = Inr s' \<Longrightarrow> same_requests s s'"
  "crowdloan_close C s o' p = Inr s' \<Longrightarrow> same_requests s s'"
  "crowdloan_reopen C s o' p = Inr s' \<Longrightarrow> same_requests s s'"
  "auction_succeeded C s o' p = Inr s' \<Longrightarrow> same_requests s s'"
  "set_vrf C s o' b = Inr s' \<Longrightarrow> same_requests s s'"
  "dissolve_vault C s o' p ls le = Inr s' \<Longrightarrow> same_requests s s'"
  "update_proxy C s o' x = Inr s' \<Longrightarrow> same_requests s s'"
  "update_leases_bonus C s o' ls le bonus = Inr s' \<Longrightarrow> same_requests s s'"
  unfolding create_vault_def update_vault_def crowdloan_open_def crowdloan_close_def crowdloan_reopen_def auction_succeeded_def
    try_mutate_vault_def set_phase_def set_vrf_def dissolve_vault_def update_proxy_def update_leases_bonus_def Let_def
  by (auto split: option.splits if_splits elim!: resultE)

lemma money_calls_requests:
  "crowdloan_claim C s o' p ls le = Inr s' \<Longrightarrow> same_requests s s'"
  "claim_for C s o' d p ls le = Inr s' \<Longrightarrow> same_requests s s'"
  "force_claim_for C s o' d p ls le = Inr s' \<Longrightarrow> same_requests s s'"
  "crowdloan_withdraw C s o' p ls le = Inr s' \<Longrightarrow> same_requests s s'"
  "withdraw_for C s o' d p ls le = Inr s' \<Longrightarrow> same_requests s s'"
  "crowdloan_redeem C s o' p ls le n = Inr s' \<Longrightarrow> same_requests s s'"
  "redeem_and_lend_for C s o' d p ls le n = Inr s' \<Longrightarrow> same_requests s s'"
  "crowdloan_refund C s o' p ls le = Inr s' \<Longrightarrow> same_requests s s'"
  "refund_for C s o' d p kind n ls le = Inr s' \<Longrightarrow> same_requests s s'"
  unfolding crowdloan_claim_def claim_for_def force_claim_for_def crowdloan_withdraw_def withdraw_for_def crowdloan_redeem_def
    redeem_and_lend_for_def crowdloan_refund_def refund_for_def Let_def
  by (auto simp: split_beta simp del: refund_kinds.simps elim!: resultE dest!: payment_requests refund_kinds_requests refund_requests)

lemma contribution_calls_requests:
  "contribute C s o' p n r = Inr s' \<Longrightarrow> no_new_withdrawals s s'"
  "migrate_pending C s o' p = Inr s' \<Longrightarrow> no_new_withdrawals s s'"
proof -
  assume "contribute C s o' p n r = Inr s'"
  then show "no_new_withdrawals s s'" unfolding contribute_def
    by (auto simp: split_beta no_new_withdrawals_def split: if_splits elim!: resultE dest!: step_requests contribute_request)
next
  assume "migrate_pending C s o' p = Inr s'"
  then show "no_new_withdrawals s s'" unfolding migrate_pending_def Let_def
    by (auto simp: split_beta no_new_withdrawals_def elim!: resultE dest!: migrate_entries_requests)
qed

lemma notification_requests:
  "do_notification_received C s q req r = Inr s' \<Longrightarrow> no_new_withdrawals s s'"
  "notification_received C s o' q res = Inr s' \<Longrightarrow> no_new_withdrawals s s'"
proof -
  show received: "no_new_withdrawals s s'" if "do_notification_received C s q req r = Inr s'" for s' req r
    using that unfolding do_notification_received_def Let_def
    by (cases req) (auto simp: split_beta no_new_withdrawals_def split: if_splits elim!: resultE dest!: step_requests migrate_requests)
  assume "notification_received C s o' q res = Inr s'"
  then show "no_new_withdrawals s s'" unfolding notification_received_def
    by (auto simp: no_new_withdrawals_def split: xcm_response.splits option.splits elim!: resultE dest!: received)
qed

section \<open>Where a withdrawal comes from\<close>

lemma withdraw_request_new:
  assumes "try_mutate_vault s p pre (\<lambda>v s. bindE (crowdloans_do_withdraw C s p (vault_lease v) (v_contributed v) post) (\<lambda>s. Inr (v, s))) = Inr s'"
    and "vault_books C s" and "xcm_requests s' q = Some (RequestWithdraw p' lease n target)"
  shows "xcm_requests s q = Some (RequestWithdraw p' lease n target) \<or> p' = p \<and> phase_of s (p, lease) = Some pre \<and> target = post"
proof -
  from assms(1) obtain v s1 where v: "current_vault s p = Some v" and pre: "v_phase v = pre"
      and 1: "crowdloans_do_withdraw C s p (vault_lease v) (v_contributed v) post = Inr s1"
      and s': "s' = put_vault (p, vault_lease v) v s1"
    unfolding try_mutate_vault_def by (elim resultE) auto
  from 1 obtain q' where "xcm_requests s' = (xcm_requests s)(q' \<mapsto> RequestWithdraw p (vault_lease v) (v_contributed v) post)"
    unfolding crowdloans_do_withdraw_def s' by auto
  with assms(3) books_current_vault [OF assms(2) v] pre show ?thesis by (auto simp: phase_of_def split: if_splits)
qed

lemma dispatch_requests:
  assumes "crowdloans_dispatch C s o' call = Inr s'" and "vault_books C s"
    and "xcm_requests s' q = Some (RequestWithdraw p lease n target)"
  shows "xcm_requests s q = Some (RequestWithdraw p lease n target) \<or> asks_withdrawal p call (phase_of s (p, lease)) target"
proof -
  consider p' where "call = AuctionFailed p'" | p' where "call = SlotExpired p'" | "no_new_withdrawals s s'"
    using assms(1) by (cases call)
      (auto intro: no_new_withdrawals_same dest: vault_calls_requests money_calls_requests contribution_calls_requests notification_requests)
  then show ?thesis
  proof cases
    case 1
    with assms(1) show ?thesis using withdraw_request_new [OF _ assms(2,3)] by (auto simp: auction_failed_def elim!: resultE)
  next
    case 2
    with assms(1) show ?thesis using withdraw_request_new [OF _ assms(2,3)] by (auto simp: slot_expired_def elim!: resultE)
  next
    case 3
    with assms(3) show ?thesis unfolding no_new_withdrawals_def by blast
  qed
qed

text \<open>
  Some call between the states \<open>s0\<close> and \<open>s\<close> asked for the phase of the vault, and was accepted in the phase it demands.
\<close>

definition withdrawal_sent ::
    "('w crowdloans_config \<times> crowdloans_action \<Rightarrow> bool) \<Rightarrow> 'w crowdloans_state \<Rightarrow> 'w crowdloans_state
     \<Rightarrow> para_id \<times> vault_id \<Rightarrow> vault_phase \<Rightarrow> bool" where
  "withdrawal_sent admitted s0 s k target \<longleftrightarrow> (\<exists>C o' call t t'.
     history crowdloans_exec admitted s0 t \<and> admitted (C, CrowdloansCall o' call) \<and>
     crowdloans_exec t (C, CrowdloansCall o' call) = Inr t' \<and> asks_withdrawal (fst k) call (phase_of t k) target \<and>
     history crowdloans_exec admitted t' s)"

text \<open>The vault waits for the answer to a query that asks for a phase, and that was sent in this history.\<close>

definition withdrawal_pending ::
    "('w crowdloans_config \<times> crowdloans_action \<Rightarrow> bool) \<Rightarrow> 'w crowdloans_state \<Rightarrow> 'w crowdloans_state
     \<Rightarrow> query_id \<Rightarrow> para_id \<times> vault_id \<Rightarrow> vault_phase \<Rightarrow> bool" where
  "withdrawal_pending admitted s0 s q k target \<longleftrightarrow>
     (\<exists>n. xcm_requests s q = Some (RequestWithdraw (fst k) (snd k) n target)) \<and> withdrawal_sent admitted s0 s k target"

lemma withdrawals_were_sent:
  assumes "history crowdloans_exec admitted s0 s" and "crowdloan_safe C c s0"
    and "\<And>act. admitted act \<Longrightarrow> environment_admitted C c act" and "xcm_requests s0 = Map.empty"
    and "xcm_requests s q = Some (RequestWithdraw p lease n target)"
  shows "withdrawal_sent admitted s0 s (p, lease) target"
  using assms
proof (induction arbitrary: q n rule: history.induct)
  case (call s0 t act u)
  obtain C' x where act: "act = (C', x)" by (cases act)
  have "crowdloan_safe C c t" by (rule crowdloans.history_inv [OF history_mono [OF call.hyps(1) call.prems(2)] call.prems(1)])
  moreover have "same_pallet C C'" using call.prems(2) [OF call.hyps(2)] by (simp add: environment_admitted_def act)
  ultimately have books: "vault_books C' t" using same_pallet_safe by (metis crowdloan_safe_def)
  have later: "history crowdloans_exec admitted t' u" if "history crowdloans_exec admitted t' t" for t'
    using that call.hyps(2,3) by (rule history.call)
  consider (old) "xcm_requests t q = Some (RequestWithdraw p lease n target)"
    | (new) o' k where "x = CrowdloansCall o' k" "asks_withdrawal p k (phase_of t (p, lease)) target"
  proof (cases x)
    case (CrowdloansCall o' k)
    with call.hyps(3) act dispatch_requests [OF _ books call.prems(4)] that show thesis by auto
  next
    case (CrowdloansOther y)
    with call.hyps(3) call.prems(4) act that(1) show thesis by auto
  qed
  then show ?case
  proof cases
    case old
    with call.IH [OF call.prems(1-3)] later show ?thesis unfolding withdrawal_sent_def by blast
  next
    case new
    with call.hyps act have "admitted (C', CrowdloansCall o' k)" "crowdloans_exec t (C', CrowdloansCall o' k) = Inr u" by simp_all
    with call.hyps(1) new(2) show ?thesis unfolding withdrawal_sent_def by (intro exI conjI) (assumption | simp | rule history.start)+
  qed
qed simp

end
