(* ===== verification/Xcm_Messages.thy ===== *)
theory Xcm_Messages
  imports Xcm_Helper
begin

text \<open>
  What the operations of the XCM helper send.  Each succeeds exactly if the fee of its kind of call can be burned from the
  pallet's account, the outcome can be reported back and the message is accepted, and the message has one shape: the
  report of the outcome is set up after the fee is paid and before the calls, and the calls come in order.
\<close>

definition ump_message ::
    "('l, 'q) xcm_config \<Rightarrow> xcm_weight_fee_misc \<Rightarrow> relaychain_call list \<Rightarrow> multi_location \<Rightarrow> query_id \<Rightarrow> notify_call \<Rightarrow> xcm_instruction list" where
  "ump_message C m calls destination q notify =
     [WithdrawAsset (Here, xw_fee m), BuyExecution (Here, xw_fee m) Unlimited,
      SetAppendix [ReportError destination q (xh_call_weight C notify)]] @
     map (\<lambda>call. Transact SovereignAccount (xw_weight m) (encode_relaychain_call (xh_codec C) (xh_network C) call)) calls @
     [RefundSurplus, DepositAsset (Here, xw_fee m) (refund_location C)]"

definition ump_sent ::
    "('l, 'q) xcm_config \<Rightarrow> ('l, 'q) xcm_state \<Rightarrow> xcm_call \<Rightarrow> relaychain_call list \<Rightarrow> notify_call \<Rightarrow> query_id
     \<Rightarrow> ('l, 'q) xcm_state \<Rightarrow> bool" where
  "ump_sent C s k calls notify q s' \<longleftrightarrow>
     (xh_network C = Polkadot \<or> xh_network C = Kusama) \<and>
     (\<exists>l destination q1 q2.
        ft_burn_from (xh_assets C) (xh_ledger s) (xh_relay_currency C) (xh_pallet_account C) (xw_fee (xcm_weight_fee s k)) = Inr l \<and>
        xh_invert_target C Parent = Some destination \<and>
        xh_new_notify_query C (xh_queries s) Parent notify (xh_notify_timeout C) Here = (q, q1) \<and>
        xh_send C q1 Parent (ump_message C (xcm_weight_fee s k) calls destination q notify) = Inr q2 \<and>
        s' = s\<lparr>xh_ledger := l, xh_queries := q2\<rparr>)"

lemma switch_relay_iff:
  "switch_relay C code = Inr x \<longleftrightarrow> (xh_network C = Polkadot \<or> xh_network C = Kusama) \<and> code (xh_network C) = Inr x"
  by (auto simp: switch_relay_def)

lemma notify_and_send_iff:
  "notify_and_send C s msg notify = Inr (q, s') \<longleftrightarrow>
     2 \<le> length msg \<and> (\<exists>destination q1 q2.
        xh_invert_target C Parent = Some destination \<and>
        xh_new_notify_query C (xh_queries s) Parent notify (xh_notify_timeout C) Here = (q, q1) \<and>
        xh_send C q1 Parent (take 2 msg @ SetAppendix [ReportError destination q (xh_call_weight C notify)] # drop 2 msg) = Inr q2 \<and>
        s' = s\<lparr>xh_queries := q2\<rparr>)"
proof -
  obtain q0 q1 where "xh_new_notify_query C (xh_queries s) Parent notify (xh_notify_timeout C) Here = (q0, q1)"
    by (cases "xh_new_notify_query C (xh_queries s) Parent notify (xh_notify_timeout C) Here")
  then show ?thesis
    unfolding notify_and_send_def report_outcome_notify_def vec_insert_def by (auto simp: Let_def bindE_Inr_iff)
qed

lemma one_call_sent:
  "switch_relay C (\<lambda>N. bindE (do_ump_transact C s (encode_relaychain_call (xh_codec C) N call)
       (xw_weight (xcm_weight_fee s k)) (refund_location C) (xw_fee (xcm_weight_fee s k))) (\<lambda>(msg, s). notify_and_send C s msg notify)) = Inr (q, s')
   \<longleftrightarrow> ump_sent C s k [call] notify q s'"
  unfolding switch_relay_iff do_ump_transact_def ump_sent_def ump_message_def xcm_account_id_def
  by (auto simp: Let_def bindE_Inr_iff notify_and_send_iff numeral_2_eq_2)

lemma two_calls_sent:
  "switch_relay C (\<lambda>N. bindE (do_ump_transact C s (encode_relaychain_call (xh_codec C) N call)
       (xw_weight (xcm_weight_fee s k)) (refund_location C) (xw_fee (xcm_weight_fee s k))) (\<lambda>(msg, t).
     bindE (append_transact msg (encode_relaychain_call (xh_codec C) N call') (xw_weight (xcm_weight_fee s k))) (\<lambda>msg.
     notify_and_send C t msg notify))) = Inr (q, s')
   \<longleftrightarrow> ump_sent C s k [call, call'] notify q s'"
  unfolding switch_relay_iff do_ump_transact_def append_transact_def vec_insert_def ump_sent_def ump_message_def xcm_account_id_def
  by (auto simp: Let_def bindE_Inr_iff notify_and_send_iff numeral_2_eq_2 numeral_3_eq_3)

lemma relay_calls_sent:
  shows "do_add_proxy C s delegate ty delay notify = Inr (q, s') \<longleftrightarrow>
      ump_sent C s XAddProxy [ProxyC (AddProxy (ProxyAddProxyCall delegate ty delay))] notify q s'"
    and "do_remove_proxy C s delegate ty delay notify = Inr (q, s') \<longleftrightarrow>
      ump_sent C s XRemoveProxy [ProxyC (RemoveProxy (ProxyRemoveProxyCall delegate ty delay))] notify q s'"
    and "xcm_do_withdraw C s p x notify = Inr (q, s') \<longleftrightarrow>
      ump_sent C s XWithdraw [CrowdloansC (Withdraw (CrowdloansWithdrawCall x p))] notify q s'"
    and "xcm_do_contribute C s p n x notify = Inr (q, s') \<longleftrightarrow>
      ump_sent C s XContribute [CrowdloansC (Contribute (CrowdloansContributeCall p n None))] notify q s'"
    and "do_proxy_contribute C s p n x notify = Inr (q, s') \<longleftrightarrow>
      (\<exists>real. xh_account_of C x = Some real \<and> ump_sent C s XContribute
        [BalancesC (TransferKeepAlive (BalancesTransferKeepAliveCall (xh_unlookup C x) n)),
         ProxyC (Proxy (ProxyProxyCall real None (CrowdloansC (Contribute (CrowdloansContributeCall p n None)))))] notify q s')"
    and "do_bond C s n payee x i notify = Inr (q, s') \<longleftrightarrow>
      ump_sent C s XBond
        [BalancesC (TransferKeepAlive (BalancesTransferKeepAliveCall (xh_unlookup C x) n)),
         UtilityC (AsDerivative (UtilityAsDerivativeCall i (StakingC (Bond (StakingBondCall (xh_unlookup C x) n payee)))))] notify q s'"
    and "do_bond_extra C s n x i notify = Inr (q, s') \<longleftrightarrow>
      ump_sent C s XBondExtra
        [BalancesC (TransferKeepAlive (BalancesTransferKeepAliveCall (xh_unlookup C x) n)),
         UtilityC (AsDerivative (UtilityAsDerivativeCall i (StakingC (BondExtra (StakingBondExtraCall n)))))] notify q s'"
    and "do_unbond C s n i notify = Inr (q, s') \<longleftrightarrow>
      ump_sent C s XUnbond [UtilityC (AsDerivative (UtilityAsDerivativeCall i (StakingC (Unbond (StakingUnbondCall n)))))] notify q s'"
    and "do_rebond C s n i notify = Inr (q, s') \<longleftrightarrow>
      ump_sent C s XRebond [UtilityC (AsDerivative (UtilityAsDerivativeCall i (StakingC (Rebond (StakingRebondCall n)))))] notify q s'"
    and "do_withdraw_unbonded C s spans x i notify = Inr (q, s') \<longleftrightarrow>
      ump_sent C s XWithdrawUnbonded
        [UtilityC (AsDerivative (UtilityAsDerivativeCall i (StakingC (WithdrawUnbonded (StakingWithdrawUnbondedCall spans))))),
         UtilityC (AsDerivative (UtilityAsDerivativeCall i (BalancesC (TransferAll (BalancesTransferAllCall (xh_unlookup C x) True)))))] notify q s'"
    and "do_nominate C s targets i notify = Inr (q, s') \<longleftrightarrow>
      ump_sent C s XNominate
        [UtilityC (AsDerivative (UtilityAsDerivativeCall i (StakingC (Nominate (StakingNominateCall (map (xh_unlookup C) targets))))))] notify q s'"
  unfolding do_add_proxy_def do_remove_proxy_def xcm_do_withdraw_def xcm_do_contribute_def do_proxy_contribute_def do_bond_def
    do_bond_extra_def do_unbond_def do_rebond_def do_withdraw_unbonded_def do_nominate_def Let_def one_call_sent two_calls_sent bindE_Inr_iff ok_or_Inr_iff
  by (rule refl)+

text \<open>The only account debited is the helper's own, in the relay currency.\<close>

lemma ump_sent_spares:
  assumes "ump_sent C s k calls notify q s'" and "credit_law (xh_assets C)" and "burn_other_law (xh_assets C)"
  shows "z \<noteq> xh_pallet_account C \<Longrightarrow> ft_balance (xh_assets C) (xh_ledger s) a z \<le> ft_balance (xh_assets C) (xh_ledger s') a z"
    and "b \<noteq> xh_relay_currency C \<Longrightarrow> ft_total_issuance (xh_assets C) (xh_ledger s') b = ft_total_issuance (xh_assets C) (xh_ledger s) b"
proof -
  from assms(1) obtain n where
      burn: "ft_burn_from (xh_assets C) (xh_ledger s) (xh_relay_currency C) (xh_pallet_account C) n = Inr (xh_ledger s')"
    by (auto simp: ump_sent_def)
  show "z \<noteq> xh_pallet_account C \<Longrightarrow> ft_balance (xh_assets C) (xh_ledger s) a z \<le> ft_balance (xh_assets C) (xh_ledger s') a z"
    using credit_lawD(2) [OF assms(2) burn] by simp
  show "b \<noteq> xh_relay_currency C \<Longrightarrow> ft_total_issuance (xh_assets C) (xh_ledger s') b = ft_total_issuance (xh_assets C) (xh_ledger s) b"
    using assms(3) burn by (simp add: burn_other_law_def)
qed

end
