(* ===== verification/Crowdloans_Composition.thy ===== *)
theory Crowdloans_Composition
  imports Crowdloans_Requests Xcm_Messages Streaming_Safety Loans_Effects Currency_Adapter
begin

text \<open>
  The crowdloans pallet in the runtime (src/runtime/parallel/src/lib.rs): \<open>T::XCM\<close> is the XCM helper, \<open>T::Streaming\<close> the
  streaming pallet and \<open>T::Loans\<close> the loans pallet.  Crowdloans and the XCM helper hold their funds in \<open>pallet-assets\<close>;
  streaming and loans go through the currency adapter, which keeps the native currency in \<open>pallet-balances\<close> and
  everything else in the same \<open>pallet-assets\<close>.

  \<open>runtime\<close> is the state the pallets share.  The states of the callees carry a ledger field of their own, which is set before
  and read after a call.  The errors of the callees are not told apart.  The contract \<open>crowdloan_services\<close> holds of
  this wiring whenever the two ledgers outside of the repository keep their laws.
\<close>

record ('b, 'a, 'q) runtime =
  rt_balances :: 'b
  rt_assets :: 'a
  rt_xcm :: "('a, 'q) xcm_state"
  rt_streaming :: "('b \<times> 'a) streaming_state"
  rt_loans :: "('b \<times> 'a) loans_state"

definition with_assets :: "('b, 'a, 'q) runtime \<Rightarrow> nat + 'a \<Rightarrow> nat + ('b, 'a, 'q) runtime" where
  "with_assets w m = bindE m (\<lambda>l. Inr (w\<lparr>rt_assets := l\<rparr>))"

definition runtime_assets :: "(nat, 'a) fungibles \<Rightarrow> (nat, ('b, 'a, 'q) runtime) fungibles" where
  "runtime_assets A = \<lparr>
     ft_total_issuance = (\<lambda>w. ft_total_issuance A (rt_assets w)),
     ft_minimum_balance = (\<lambda>w. ft_minimum_balance A (rt_assets w)),
     ft_balance = (\<lambda>w. ft_balance A (rt_assets w)),
     ft_reducible_balance = (\<lambda>w. ft_reducible_balance A (rt_assets w)),
     ft_can_deposit = (\<lambda>w. ft_can_deposit A (rt_assets w)),
     ft_can_withdraw = (\<lambda>w. ft_can_withdraw A (rt_assets w)),
     ft_asset_exists = (\<lambda>w. ft_asset_exists A (rt_assets w)),
     ft_mint_into = (\<lambda>w a x n. with_assets w (ft_mint_into A (rt_assets w) a x n)),
     ft_burn_from = (\<lambda>w a x n. with_assets w (ft_burn_from A (rt_assets w) a x n)),
     ft_transfer = (\<lambda>w a x y n k. with_assets w (ft_transfer A (rt_assets w) a x y n k))\<rparr>"

definition runtime_xcm ::
    "(('a, 'q) xcm_state \<Rightarrow> xcm_dispatch_error + query_id \<times> ('a, 'q) xcm_state) \<Rightarrow> ('b, 'a, 'q) runtime
     \<Rightarrow> nat + query_id \<times> ('b, 'a, 'q) runtime" where
  "runtime_xcm operation w =
     bindE (map_err (\<lambda>_. 0) (operation ((rt_xcm w)\<lparr>xh_ledger := rt_assets w\<rparr>))) (\<lambda>(q, x).
     Inr (q, w\<lparr>rt_assets := xh_ledger x, rt_xcm := x\<rparr>))"

definition runtime_stream ::
    "('b \<times> 'a) streaming_config \<Rightarrow> ('b, 'a, 'q) runtime \<Rightarrow> account_id \<Rightarrow> account_id \<Rightarrow> balance \<Rightarrow> currency_id \<Rightarrow> timestamp
     \<Rightarrow> timestamp \<Rightarrow> bool \<Rightarrow> nat + ('b, 'a, 'q) runtime" where
  "runtime_stream S w sender recipient n a st en cb =
     bindE (map_err (\<lambda>_. 0) (streaming_trait_create S ((rt_streaming w)\<lparr>st_ledger := (rt_balances w, rt_assets w)\<rparr>)
       sender recipient n a st en cb)) (\<lambda>x.
     Inr (w\<lparr>rt_balances := fst (st_ledger x), rt_assets := snd (st_ledger x), rt_streaming := x\<rparr>))"

definition runtime_lend ::
    "('b \<times> 'a) loans_config \<Rightarrow> ('b, 'a, 'q) runtime \<Rightarrow> account_id \<Rightarrow> currency_id \<Rightarrow> balance \<Rightarrow> nat + ('b, 'a, 'q) runtime" where
  "runtime_lend L w who a n =
     bindE (map_err (\<lambda>_. 0) (do_mint L ((rt_loans w)\<lparr>ledger := (rt_balances w, rt_assets w)\<rparr>) who a n)) (\<lambda>x.
     Inr (w\<lparr>rt_balances := fst (ledger x), rt_assets := snd (ledger x), rt_loans := x\<rparr>))"

text \<open>
  The configurations as the runtime makes them: the helper on \<open>pallet-assets\<close> with the relay currency, streaming and loans on
  the currency adapter, and crowdloans on all of these.
\<close>

definition runtime_xcm_config :: "(nat, 'a) fungibles \<Rightarrow> currency_id \<Rightarrow> ('a, 'q) xcm_config \<Rightarrow> ('a, 'q) xcm_config" where
  "runtime_xcm_config A relay X = X\<lparr>xh_assets := A, xh_relay_currency := relay\<rparr>"

definition runtime_crowdloans ::
    "(nat, 'b) fungible \<Rightarrow> (nat, 'a) fungibles \<Rightarrow> ('a, 'q) xcm_config \<Rightarrow> ('b \<times> 'a) streaming_config \<Rightarrow> ('b \<times> 'a) loans_config
     \<Rightarrow> ('b, 'a, 'q) runtime crowdloans_config \<Rightarrow> ('b, 'a, 'q) runtime crowdloans_config" where
  "runtime_crowdloans B A X S L C =
     (let X' = runtime_xcm_config A (cl_relay_currency C) X; F = currency_adapter (cl_native_currency C) B A in
      C\<lparr>cl_assets := runtime_assets A,
        cl_xcm_contribute := (\<lambda>w p n who notify. runtime_xcm (\<lambda>s. xcm_do_contribute X' s p n who notify) w),
        cl_xcm_proxy_contribute := (\<lambda>w p n who notify. runtime_xcm (\<lambda>s. do_proxy_contribute X' s p n who notify) w),
        cl_xcm_withdraw := (\<lambda>w p who notify. runtime_xcm (\<lambda>s. xcm_do_withdraw X' s p who notify) w),
        cl_streaming_create := runtime_stream (S\<lparr>st_assets := F\<rparr>),
        cl_loans_mint := runtime_lend (L\<lparr>lc_assets := F\<rparr>)\<rparr>)"

text \<open>
  What the runtime has to provide: an arithmetic and ledgers that keep their laws, an account of its own for the helper, a
  relay currency that is neither the native one nor a ctoken, and child tries that do not collide.
\<close>

definition runtime_sound ::
    "(nat, 'a) fungibles \<Rightarrow> ('a, 'q) xcm_config \<Rightarrow> ('b \<times> 'a) loans_config \<Rightarrow> ('b, 'a, 'q) runtime crowdloans_config \<Rightarrow> currency_id \<Rightarrow> bool" where
  "runtime_sound A X L C c \<longleftrightarrow>
     tries_apart C \<and> sp_arith_laws (lc_arith L) \<and>
     exact_custody A (cl_relay_currency C) \<and> exact_custody A c \<and> burn_other_law A \<and>
     xh_pallet_account X \<noteq> cl_pallet_account C \<and> c \<noteq> cl_relay_currency C \<and> cl_native_currency C \<noteq> cl_relay_currency C"

section \<open>The shared ledger\<close>

lemma runtime_assets_simps [simp]:
  "ft_total_issuance (runtime_assets A) w = ft_total_issuance A (rt_assets w)"
  "ft_minimum_balance (runtime_assets A) w = ft_minimum_balance A (rt_assets w)"
  "ft_balance (runtime_assets A) w = ft_balance A (rt_assets w)"
  "ft_reducible_balance (runtime_assets A) w = ft_reducible_balance A (rt_assets w)"
  "ft_mint_into (runtime_assets A) w a x n = Inr w' \<longleftrightarrow> (\<exists>l. ft_mint_into A (rt_assets w) a x n = Inr l \<and> w' = w\<lparr>rt_assets := l\<rparr>)"
  "ft_burn_from (runtime_assets A) w a x n = Inr w' \<longleftrightarrow> (\<exists>l. ft_burn_from A (rt_assets w) a x n = Inr l \<and> w' = w\<lparr>rt_assets := l\<rparr>)"
  "ft_transfer (runtime_assets A) w a x y n k = Inr w' \<longleftrightarrow> (\<exists>l. ft_transfer A (rt_assets w) a x y n k = Inr l \<and> w' = w\<lparr>rt_assets := l\<rparr>)"
  by (auto simp: runtime_assets_def with_assets_def bindE_Inr_iff)

lemma runtime_fungibles_laws:
  assumes "fungibles_laws A"
  shows "fungibles_laws (runtime_assets A)"
proof -
  have "fungibles_ledger (ft_balance (runtime_assets A)) (ft_minimum_balance (runtime_assets A)) (ft_total_issuance (runtime_assets A))
      (ft_transfer (runtime_assets A)) (\<lambda>_. True)"
    by unfold_locales (auto split del: if_split simp: fungibles_lawsD(2) [OF assms] dest: fungibles_lawsD(1,3) [OF assms])
  moreover have "transfer_other_law (runtime_assets A)"
    by (auto simp: transfer_other_law_def fungibles_lawsD(4,5) [OF assms])
  moreover have "mint_law (runtime_assets A)"
    by (auto simp: mint_law_def fungibles_laws_mintD [OF assms] split del: if_split)
  moreover have "burn_law (runtime_assets A)"
    by (auto simp: burn_law_def fungibles_laws_burnD [OF assms] split del: if_split)
  ultimately show ?thesis by (simp add: fungibles_laws_def)
qed

lemma runtime_exact_custody: "exact_custody A a \<Longrightarrow> exact_custody (runtime_assets A) a"
  unfolding exact_custody_def using runtime_fungibles_laws [of A]
  by (auto simp: credit_law_def split del: if_split)

lemma runtime_burn_other: "burn_other_law A \<Longrightarrow> burn_other_law (runtime_assets A)"
  by (auto simp: burn_other_law_def)

section \<open>The calls of the other pallets\<close>

lemma runtime_crowdloans_simps [simp]:
  "cl_assets (runtime_crowdloans B A X S L C) = runtime_assets A"
  "cl_relay_currency (runtime_crowdloans B A X S L C) = cl_relay_currency C"
  "cl_native_currency (runtime_crowdloans B A X S L C) = cl_native_currency C"
  "cl_pallet_account (runtime_crowdloans B A X S L C) = cl_pallet_account C"
  "tries_apart (runtime_crowdloans B A X S L C) \<longleftrightarrow> tries_apart C"
  "cl_xcm_contribute (runtime_crowdloans B A X S L C) w p n x f =
     runtime_xcm (\<lambda>s. xcm_do_contribute (runtime_xcm_config A (cl_relay_currency C) X) s p n x f) w"
  "cl_xcm_proxy_contribute (runtime_crowdloans B A X S L C) w p n x f =
     runtime_xcm (\<lambda>s. do_proxy_contribute (runtime_xcm_config A (cl_relay_currency C) X) s p n x f) w"
  "cl_xcm_withdraw (runtime_crowdloans B A X S L C) w p x f =
     runtime_xcm (\<lambda>s. xcm_do_withdraw (runtime_xcm_config A (cl_relay_currency C) X) s p x f) w"
  "cl_streaming_create (runtime_crowdloans B A X S L C) = runtime_stream (S\<lparr>st_assets := currency_adapter (cl_native_currency C) B A\<rparr>)"
  "cl_loans_mint (runtime_crowdloans B A X S L C) = runtime_lend (L\<lparr>lc_assets := currency_adapter (cl_native_currency C) B A\<rparr>)"
  by (simp_all add: runtime_crowdloans_def Let_def tries_apart_def no_collisions_def u32_codec_def id_from_index_def kind_label_def)

lemma runtime_spares_iff:
  "spares_crowdloans (runtime_crowdloans B A X S L C) c w w' \<longleftrightarrow>
     ft_balance A (rt_assets w) (cl_relay_currency C) (cl_pallet_account C) \<le> ft_balance A (rt_assets w') (cl_relay_currency C) (cl_pallet_account C) \<and>
     ft_total_issuance A (rt_assets w') c \<le> ft_total_issuance A (rt_assets w) c"
  by (simp add: spares_crowdloans_def)

lemma runtime_xcm_spares:
  assumes "runtime_sound A X L C c" and "runtime_xcm operation w = Inr (q, w')"
    and "\<And>s q s'. operation s = Inr (q, s') \<Longrightarrow> \<exists>k calls f. ump_sent (runtime_xcm_config A (cl_relay_currency C) X) s k calls f q s'"
  shows "spares_crowdloans (runtime_crowdloans B A X S L C) c w w'"
proof -
  let ?X = "runtime_xcm_config A (cl_relay_currency C) X"
  from assms(2) obtain s' where "operation ((rt_xcm w)\<lparr>xh_ledger := rt_assets w\<rparr>) = Inr (q, s')" and w': "rt_assets w' = xh_ledger s'"
    by (auto simp: runtime_xcm_def)
  then obtain k calls f where sent: "ump_sent ?X ((rt_xcm w)\<lparr>xh_ledger := rt_assets w\<rparr>) k calls f q s'"
    using assms(3) by blast
  have X: "xh_assets ?X = A" "xh_pallet_account ?X = xh_pallet_account X" "xh_relay_currency ?X = cl_relay_currency C"
    by (simp_all add: runtime_xcm_config_def)
  show ?thesis
    using assms(1) w' ump_sent_spares(1) [OF sent, of "cl_pallet_account C" "cl_relay_currency C"] ump_sent_spares(2) [OF sent, of c]
    unfolding X runtime_spares_iff by (simp add: runtime_sound_def exact_custody_def)
qed

lemma adapter_transfer_spares:
  assumes "runtime_sound A X L C c" and "ft_transfer (currency_adapter native B A) (b, l) a x y n k = Inr l'"
    and "a \<noteq> cl_relay_currency C \<or> x \<noteq> cl_pallet_account C"
  shows "ft_balance A l (cl_relay_currency C) (cl_pallet_account C) \<le> ft_balance A (snd l') (cl_relay_currency C) (cl_pallet_account C)"
    and "ft_total_issuance A (snd l') c \<le> ft_total_issuance A l c"
proof -
  have A: "exact_custody A (cl_relay_currency C)" "fungibles_laws A" using assms(1) by (simp_all add: runtime_sound_def exact_custody_def)
  from assms(2) have "ca_transfer native B A (b, l) a x y n k = Inr l'" by (simp add: currency_adapter_def)
  then show "ft_balance A l (cl_relay_currency C) (cl_pallet_account C) \<le> ft_balance A (snd l') (cl_relay_currency C) (cl_pallet_account C)"
    and "ft_total_issuance A (snd l') c \<le> ft_total_issuance A l c"
    by (auto elim!: ca_transferE simp: fungibles_lawsD(3) [OF A(2)])
      (use assms(3) exact_custodyD(3,4) [OF A(1)] in \<open>metis order_refl\<close>)
qed

lemma streaming_trait_create_ledger:
  assumes "streaming_trait_create S s x y n a t t' b = Inr s'"
  shows "ft_transfer (st_assets S) (st_ledger s) a x (st_account_id S) n False = Inr (st_ledger s')"
proof -
  from assms obtain i s1 where "stream_do_create S s x y n a t t' b = Inr (i, s1)" and "st_ledger s' = st_ledger s1"
    by (auto simp: streaming_trait_create_def split_beta prunes_def dest: try_push_prunes)
  moreover from this(1) have "ft_transfer (st_assets S) (st_ledger s) a x (st_account_id S) n False = Inr (st_ledger s1)"
    by (auto simp: stream_do_create_def Let_def prunes_def elim!: st_transferE dest!: update_finished_prunes)
  ultimately show ?thesis by simp
qed

lemma runtime_stream_spares:
  assumes "runtime_sound A X L C c" and "runtime_stream (S\<lparr>st_assets := currency_adapter native B A\<rparr>) w x y n a t t' b = Inr w'"
    and "a \<noteq> cl_relay_currency C"
  shows "spares_crowdloans (runtime_crowdloans B A X S L C) c w w'"
proof -
  let ?S = "S\<lparr>st_assets := currency_adapter native B A\<rparr>"
  from assms(2) obtain s' where
      create: "streaming_trait_create ?S ((rt_streaming w)\<lparr>st_ledger := (rt_balances w, rt_assets w)\<rparr>) x y n a t t' b = Inr s'"
      and w': "rt_assets w' = snd (st_ledger s')"
    by (auto simp: runtime_stream_def)
  have "ft_transfer (currency_adapter native B A) (rt_balances w, rt_assets w) a x (st_account_id ?S) n False = Inr (st_ledger s')"
    using streaming_trait_create_ledger [OF create] by simp
  note t = adapter_transfer_spares [OF assms(1) this]
  show ?thesis using assms(3) w' unfolding runtime_spares_iff by (simp add: t)
qed

lemma runtime_lend_spares:
  assumes "runtime_sound A X L C c" and "runtime_lend (L\<lparr>lc_assets := currency_adapter native B A\<rparr>) w x a n = Inr w'"
    and "x \<noteq> cl_pallet_account C"
  shows "spares_crowdloans (runtime_crowdloans B A X S L C) c w w'"
proof -
  let ?L = "L\<lparr>lc_assets := currency_adapter native B A\<rparr>"
  from assms(2) obtain s' where mint: "do_mint ?L ((rt_loans w)\<lparr>ledger := (rt_balances w, rt_assets w)\<rparr>) x a n = Inr s'"
      and w': "rt_assets w' = snd (ledger s')"
    by (auto simp: runtime_lend_def)
  have "sp_arith_laws (lc_arith ?L)" using assms(1) by (simp add: runtime_sound_def)
  with mint have "ft_transfer (currency_adapter native B A) (rt_balances w, rt_assets w) a x (account_id ?L) n False = Inr (ledger s')"
    by (auto elim!: do_mintE)
  note t = adapter_transfer_spares [OF assms(1) this]
  show ?thesis using assms(3) w' unfolding runtime_spares_iff by (simp add: t)
qed

theorem runtime_crowdloan_services:
  assumes "runtime_sound A X L C c"
  shows "crowdloan_services (runtime_crowdloans B A X S L C) c"
proof
  show "tries_apart (runtime_crowdloans B A X S L C)" "exact_custody (cl_assets (runtime_crowdloans B A X S L C)) (cl_relay_currency (runtime_crowdloans B A X S L C))"
    "exact_custody (cl_assets (runtime_crowdloans B A X S L C)) c" "burn_other_law (cl_assets (runtime_crowdloans B A X S L C))"
    "c \<noteq> cl_relay_currency (runtime_crowdloans B A X S L C)"
    "cl_native_currency (runtime_crowdloans B A X S L C) \<noteq> cl_relay_currency (runtime_crowdloans B A X S L C)"
    using assms by (auto simp: runtime_sound_def intro: runtime_exact_custody runtime_burn_other)
next
  fix w p n x f q w'
  show "cl_xcm_contribute (runtime_crowdloans B A X S L C) w p n x f = Inr (q, w') \<Longrightarrow> spares_crowdloans (runtime_crowdloans B A X S L C) c w w'"
    "cl_xcm_proxy_contribute (runtime_crowdloans B A X S L C) w p n x f = Inr (q, w') \<Longrightarrow> spares_crowdloans (runtime_crowdloans B A X S L C) c w w'"
    "cl_xcm_withdraw (runtime_crowdloans B A X S L C) w p x f = Inr (q, w') \<Longrightarrow> spares_crowdloans (runtime_crowdloans B A X S L C) c w w'"
    unfolding runtime_crowdloans_simps by (erule runtime_xcm_spares [OF assms]; auto simp: relay_calls_sent)+
qed (use runtime_stream_spares [OF assms] runtime_lend_spares [OF assms] in simp_all)

locale sound_runtime =
  fixes B :: "(nat, 'b) fungible" and A :: "(nat, 'a) fungibles" and X :: "('a, 'q) xcm_config"
    and S :: "('b \<times> 'a) streaming_config" and L :: "('b \<times> 'a) loans_config"
    and C :: "('b, 'a, 'q) runtime crowdloans_config" and c :: currency_id
  assumes sound: "runtime_sound A X L C c"

sublocale sound_runtime \<subseteq> wired: crowdloan_services "runtime_crowdloans B A X S L C" c
  by (rule runtime_crowdloan_services [OF sound])

section \<open>Histories of the runtime\<close>

text \<open>
  Every call happens in an environment of its own (another block, clock or member list) in which the pallets are wired as
  above.
\<close>

definition runtime_admitted ::
    "(nat, 'b) fungible \<Rightarrow> (nat, 'a) fungibles \<Rightarrow> ('b, 'a, 'q) runtime crowdloans_config \<Rightarrow> currency_id
     \<Rightarrow> ('b, 'a, 'q) runtime crowdloans_config \<times> crowdloans_action \<Rightarrow> bool" where
  "runtime_admitted B A C c act \<longleftrightarrow>
     (\<exists>X S L C'. fst act = runtime_crowdloans B A X S L C' \<and> runtime_sound A X L C' c) \<and> same_pallet C (fst act) \<and> action_admitted c act"

lemma runtime_admitted_environment: "runtime_admitted B A C c act \<Longrightarrow> environment_admitted C c act"
  unfolding runtime_admitted_def environment_admitted_def using runtime_crowdloan_services by metis

lemma runtime_history_safe:
  assumes "distinct (cl_accounts C)" and "ft_total_issuance (cl_assets C) w c = 0"
    and "history crowdloans_exec (runtime_admitted B A C c) (crowdloans_genesis w) s"
  shows "crowdloan_safe C c s"
  by (rule crowdloans.history_inv [OF history_mono [OF assms(3) runtime_admitted_environment] crowdloans_genesis_safe [OF assms(1,2)]])

end
