(* ===== verification/Relay_Encoding.thy ===== *)
theory Relay_Encoding
  imports Relay_Calls
begin

text \<open>
  The encoding of a relay chain call is unambiguous: two calls whose encodings begin a common byte string are the
  same call.  The codec library promises this of the field types (\<open>codec_laws\<close>), on the values of their width;
  \<open>call_sized\<close> says that the fields of a call have those widths.
\<close>

definition unambiguous :: "('a \<Rightarrow> bool) \<Rightarrow> ('a \<Rightarrow> bytes) \<Rightarrow> bool" where
  "unambiguous P e \<longleftrightarrow> (\<forall>x y r r'. P x \<longrightarrow> P y \<longrightarrow> e x @ r = e y @ r' \<longrightarrow> x = y \<and> r = r')"

definition account_sized :: "account_id \<Rightarrow> bool" where
  "account_sized a \<longleftrightarrow> a < 2 ^ 256"

definition codec_laws :: "relay_codec \<Rightarrow> bool" where
  "codec_laws K \<longleftrightarrow> unambiguous account_sized (cd_account K) \<and> unambiguous (\<lambda>_. True) (cd_source K) \<and>
     unambiguous (\<lambda>n. n \<le> u128_max) (cd_compact K) \<and> unambiguous (\<lambda>n. n < 2 ^ 16) (cd_u16 K) \<and>
     unambiguous (\<lambda>n. n \<le> u32_max) (cd_u32 K) \<and> unambiguous (\<lambda>n. n < 2 ^ 520) (cd_signature K)"

fun staking_sized :: "staking_call \<Rightarrow> bool" where
  "staking_sized (Bond (StakingBondCall c v p)) \<longleftrightarrow> v \<le> u128_max \<and> (\<forall>a. p = RewardAccount a \<longrightarrow> account_sized a)"
| "staking_sized (BondExtra (StakingBondExtraCall v)) \<longleftrightarrow> v \<le> u128_max"
| "staking_sized (Unbond (StakingUnbondCall v)) \<longleftrightarrow> v \<le> u128_max"
| "staking_sized (WithdrawUnbonded (StakingWithdrawUnbondedCall n)) \<longleftrightarrow> n \<le> u32_max"
| "staking_sized (Nominate (StakingNominateCall ts)) \<longleftrightarrow> length ts \<le> u32_max"
| "staking_sized (PayoutStakers (StakingPayoutStakersCall a era)) \<longleftrightarrow> account_sized a \<and> era \<le> u32_max"
| "staking_sized (Rebond (StakingRebondCall v)) \<longleftrightarrow> v \<le> u128_max"

fun balances_sized :: "balances_call \<Rightarrow> bool" where
  "balances_sized (TransferKeepAlive (BalancesTransferKeepAliveCall d v)) \<longleftrightarrow> v \<le> u128_max"
| "balances_sized (TransferAll (BalancesTransferAllCall d k)) \<longleftrightarrow> True"

fun crowdloans_sized :: "crowdloans_call \<Rightarrow> bool" where
  "crowdloans_sized (Contribute (CrowdloansContributeCall i v sg)) \<longleftrightarrow>
     i \<le> u32_max \<and> v \<le> u128_max \<and> (\<forall>g. sg = Some g \<longrightarrow> g < 2 ^ 520)"
| "crowdloans_sized (Withdraw (CrowdloansWithdrawCall w i)) \<longleftrightarrow> account_sized w \<and> i \<le> u32_max"
| "crowdloans_sized (AddMemo (CrowdloansAddMemoCall i memo)) \<longleftrightarrow> i \<le> u32_max \<and> length memo \<le> u32_max"

fun system_sized :: "system_call \<Rightarrow> bool" where
  "system_sized (Remark (SystemRemarkCall r)) \<longleftrightarrow> length r \<le> u32_max"

fun proxy_sized :: "bool proxy_call \<Rightarrow> bool" where
  "proxy_sized (Proxy (ProxyProxyCall real force inner)) \<longleftrightarrow> account_sized real \<and> inner"
| "proxy_sized (AddProxy (ProxyAddProxyCall d t n)) \<longleftrightarrow> account_sized d \<and> n \<le> u32_max"
| "proxy_sized (RemoveProxy (ProxyRemoveProxyCall d t n)) \<longleftrightarrow> account_sized d \<and> n \<le> u32_max"

fun utility_sized :: "bool utility_call \<Rightarrow> bool" where
  "utility_sized (AsDerivative (UtilityAsDerivativeCall i inner)) \<longleftrightarrow> i < 2 ^ 16 \<and> inner"
| "utility_sized (BatchAll (UtilityBatchAllCall inner)) \<longleftrightarrow> length inner \<le> u32_max \<and> list_all id inner"

primrec call_sized :: "relaychain_call \<Rightarrow> bool" where
  "call_sized (SystemC c) = system_sized c"
| "call_sized (BalancesC c) = balances_sized c"
| "call_sized (StakingC c) = staking_sized c"
| "call_sized (ProxyC c) = proxy_sized (map_proxy_call call_sized c)"
| "call_sized (UtilityC c) = utility_sized (map_utility_call call_sized c)"
| "call_sized (CrowdloansC c) = crowdloans_sized c"

section \<open>Fields\<close>

lemma unambiguous_iff: "unambiguous P e \<Longrightarrow> P x \<Longrightarrow> P y \<Longrightarrow> e x @ r = e y @ r' \<longleftrightarrow> x = y \<and> r = r'"
  unfolding unambiguous_def by blast

lemma codec_simps:
  assumes "codec_laws K"
  shows "account_sized a \<Longrightarrow> account_sized b \<Longrightarrow> cd_account K a @ r = cd_account K b @ r' \<longleftrightarrow> a = b \<and> r = r'"
    and "cd_source K i @ r = cd_source K j @ r' \<longleftrightarrow> i = j \<and> r = r'"
    and "m \<le> u128_max \<Longrightarrow> n \<le> u128_max \<Longrightarrow> cd_compact K m @ r = cd_compact K n @ r' \<longleftrightarrow> m = n \<and> r = r'"
    and "m < 2 ^ 16 \<Longrightarrow> n < 2 ^ 16 \<Longrightarrow> cd_u16 K m @ r = cd_u16 K n @ r' \<longleftrightarrow> m = n \<and> r = r'"
    and "m \<le> u32_max \<Longrightarrow> n \<le> u32_max \<Longrightarrow> cd_u32 K m @ r = cd_u32 K n @ r' \<longleftrightarrow> m = n \<and> r = r'"
    and "m < 2 ^ 520 \<Longrightarrow> n < 2 ^ 520 \<Longrightarrow> cd_signature K m @ r = cd_signature K n @ r' \<longleftrightarrow> m = n \<and> r = r'"
    and "m \<le> u32_max \<Longrightarrow> n \<le> u32_max \<Longrightarrow> cd_compact K m @ r = cd_compact K n @ r' \<longleftrightarrow> m = n \<and> r = r'"
  using assms unfolding codec_laws_def by (auto simp: unambiguous_iff)

lemma option_iff:
  assumes "\<And>a b. x = Some a \<Longrightarrow> y = Some b \<Longrightarrow> e a @ r = e b @ r' \<longleftrightarrow> a = b \<and> r = r'"
  shows "encode_option e x @ r = encode_option e y @ r' \<longleftrightarrow> x = y \<and> r = r'"
  using assms by (cases x; cases y) (auto simp: encode_option_def)

lemma bool_iff: "encode_bool a @ r = encode_bool b @ r' \<longleftrightarrow> a = b \<and> r = r'"
  by (simp add: encode_bool_def)

lemma proxy_type_iff: "encode_proxy_type a @ r = encode_proxy_type b @ r' \<longleftrightarrow> a = b \<and> r = r'"
  by (cases a; cases b) (simp_all add: encode_proxy_type_def)

lemma proxy_type_option_iff:
  "encode_option encode_proxy_type a @ r = encode_option encode_proxy_type b @ r' \<longleftrightarrow> a = b \<and> r = r'"
  by (rule option_iff) (rule proxy_type_iff)

lemma reward_destination_iff:
  assumes "codec_laws K" and "\<forall>a. x = RewardAccount a \<longrightarrow> account_sized a" and "\<forall>a. y = RewardAccount a \<longrightarrow> account_sized a"
  shows "encode_reward_destination K x @ r = encode_reward_destination K y @ r' \<longleftrightarrow> x = y \<and> r = r'"
  using assms by (cases x; cases y) (simp_all add: encode_reward_destination_def codec_simps)

lemma concat_iff:
  assumes "length xs = length ys" and "\<And>x y r r'. x \<in> set xs \<Longrightarrow> y \<in> set ys \<Longrightarrow> e x @ r = e y @ r' \<longleftrightarrow> x = y \<and> r = r'"
  shows "concat (map e xs) @ r = concat (map e ys) @ r' \<longleftrightarrow> xs = ys \<and> r = r'"
  using assms by (induction xs ys rule: list_induct2) auto

lemma vec_iff:
  assumes "codec_laws K" and "length xs \<le> u32_max" and "length ys \<le> u32_max"
    and "\<And>x y r r'. x \<in> set xs \<Longrightarrow> y \<in> set ys \<Longrightarrow> e x @ r = e y @ r' \<longleftrightarrow> x = y \<and> r = r'"
  shows "encode_vec K e xs @ r = encode_vec K e ys @ r' \<longleftrightarrow> xs = ys \<and> r = r'"
proof -
  have "encode_vec K e xs @ r = encode_vec K e ys @ r' \<longleftrightarrow>
      length xs = length ys \<and> concat (map e xs) @ r = concat (map e ys) @ r'"
    using codec_simps(7) [OF assms(1-3)] by (simp add: encode_vec_def)
  then show ?thesis using concat_iff [of xs ys e r r'] assms(4) by auto
qed

section \<open>Calls\<close>

lemma staking_iff:
  assumes "codec_laws K" and "staking_sized x" and "staking_sized y"
  shows "encode_staking_call K x @ r = encode_staking_call K y @ r' \<longleftrightarrow> x = y \<and> r = r'"
  using assms
  by (cases x rule: staking_sized.cases; cases y rule: staking_sized.cases)
    (simp_all add: codec_simps reward_destination_iff vec_iff conj_ac)

lemma balances_iff:
  assumes "codec_laws K" and "balances_sized x" and "balances_sized y"
  shows "encode_balances_call K x @ r = encode_balances_call K y @ r' \<longleftrightarrow> x = y \<and> r = r'"
  using assms
  by (cases x rule: balances_sized.cases; cases y rule: balances_sized.cases) (simp_all add: codec_simps bool_iff)

lemma crowdloans_iff:
  assumes "codec_laws K" and "crowdloans_sized x" and "crowdloans_sized y"
  shows "encode_crowdloans_call K x @ r = encode_crowdloans_call K y @ r' \<longleftrightarrow> x = y \<and> r = r'"
  using assms
  by (cases x rule: crowdloans_sized.cases; cases y rule: crowdloans_sized.cases)
    (simp_all add: codec_simps vec_iff option_iff)

lemma system_iff:
  assumes "codec_laws K" and "system_sized x" and "system_sized y"
  shows "encode_system_call K x @ r = encode_system_call K y @ r' \<longleftrightarrow> x = y \<and> r = r'"
  using assms by (cases x rule: system_sized.cases; cases y rule: system_sized.cases) (simp add: vec_iff)

text \<open>The calls that carry calls, given the property of the inner ones.\<close>

lemma proxy_iff:
  assumes "codec_laws K" and "proxy_sized (map_proxy_call P x)" and "proxy_sized (map_proxy_call P y)"
    and "\<And>c d r r'. c \<in> set_proxy_call x \<Longrightarrow> P c \<Longrightarrow> P d \<Longrightarrow> E c @ r = E d @ r' \<longleftrightarrow> c = d \<and> r = r'"
  shows "encode_proxy_call K (map_proxy_call E x) @ r = encode_proxy_call K (map_proxy_call E y) @ r' \<longleftrightarrow> x = y \<and> r = r'"
proof -
  obtain a b c d e f g h i where x: "x = Proxy (ProxyProxyCall a b c) \<or> x = AddProxy (ProxyAddProxyCall d e f) \<or> x = RemoveProxy (ProxyRemoveProxyCall g h i)"
    by (metis proxy_call.exhaust proxy_proxy_call.exhaust proxy_add_proxy_call.exhaust proxy_remove_proxy_call.exhaust)
  obtain a' b' c' d' e' f' g' h' i' where y: "y = Proxy (ProxyProxyCall a' b' c') \<or> y = AddProxy (ProxyAddProxyCall d' e' f') \<or> y = RemoveProxy (ProxyRemoveProxyCall g' h' i')"
    by (metis proxy_call.exhaust proxy_proxy_call.exhaust proxy_add_proxy_call.exhaust proxy_remove_proxy_call.exhaust)
  show ?thesis
    using x y assms by (elim disjE) (simp_all add: codec_simps proxy_type_option_iff)
qed

lemma utility_iff:
  assumes "codec_laws K" and "utility_sized (map_utility_call P x)" and "utility_sized (map_utility_call P y)"
    and "\<And>c d r r'. c \<in> set_utility_call x \<Longrightarrow> P c \<Longrightarrow> P d \<Longrightarrow> E c @ r = E d @ r' \<longleftrightarrow> c = d \<and> r = r'"
  shows "encode_utility_call K (map_utility_call E x) @ r = encode_utility_call K (map_utility_call E y) @ r' \<longleftrightarrow> x = y \<and> r = r'"
proof -
  obtain i c cs where x: "x = AsDerivative (UtilityAsDerivativeCall i c) \<or> x = BatchAll (UtilityBatchAllCall cs)"
    by (metis utility_call.exhaust utility_as_derivative_call.exhaust utility_batch_all_call.exhaust)
  obtain i' c' cs' where y: "y = AsDerivative (UtilityAsDerivativeCall i' c') \<or> y = BatchAll (UtilityBatchAllCall cs')"
    by (metis utility_call.exhaust utility_as_derivative_call.exhaust utility_batch_all_call.exhaust)
  have vec: "encode_vec K id (map E cs) @ r = encode_vec K id (map E cs') @ r' \<longleftrightarrow> cs = cs' \<and> r = r'"
    if "length cs \<le> u32_max" "length cs' \<le> u32_max" "list_all P cs" "list_all P cs'" "x = BatchAll (UtilityBatchAllCall cs)"
    using vec_iff [OF assms(1) that(1,2), of E r r'] that(3-5) assms(4) by (simp add: encode_vec_def list_all_iff)
  show ?thesis
    using x y assms vec by (elim disjE) (simp_all add: codec_simps list.pred_map comp_def)
qed

lemma pallet_indices_distinct [simp]:
  "distinct [0, balances_index N, staking_index N, proxy_index N, utility_index N, 73]"
  by (simp add: balances_index_def staking_index_def proxy_index_def utility_index_def)

lemma relaychain_call_iff:
  assumes "codec_laws K"
  shows "call_sized x \<Longrightarrow> call_sized y \<Longrightarrow>
    encode_relaychain_call K N x @ r = encode_relaychain_call K N y @ r' \<longleftrightarrow> x = y \<and> r = r'"
proof (induction x arbitrary: y r r')
  case (ProxyC c)
  show ?case
    using ProxyC.prems pallet_indices_distinct [of N] proxy_iff [OF assms, of call_sized c _ "encode_relaychain_call K N"] ProxyC.IH
    by (cases y) auto
next
  case (UtilityC c)
  show ?case
    using UtilityC.prems pallet_indices_distinct [of N] utility_iff [OF assms, of call_sized c _ "encode_relaychain_call K N"] UtilityC.IH
    by (cases y) auto
next
  case (SystemC c)
  then show ?case using pallet_indices_distinct [of N] by (cases y) (auto simp: system_iff [OF assms])
next
  case (BalancesC c)
  then show ?case using pallet_indices_distinct [of N] by (cases y) (auto simp: balances_iff [OF assms])
next
  case (StakingC c)
  then show ?case using pallet_indices_distinct [of N] by (cases y) (auto simp: staking_iff [OF assms])
next
  case (CrowdloansC c)
  then show ?case using pallet_indices_distinct [of N] by (cases y) (auto simp: crowdloans_iff [OF assms])
qed

end
