(* ===== verification/Crowdloans_Example.thy ===== *)
theory Crowdloans_Example
  imports Crowdloans_Composition Relay_Encoding Loans_Invariants Streaming_Histories
begin

text \<open>
  A concrete runtime for the witnesses: the reference ledgers, a unary codec, and a hash that reads a string as a
  number.  Parachain 2000 has a vault for the leases 3 to 4 with ctoken 200; the relay currency is 7 and the native one 0.
  The account of crowdloans is 90, of the XCM helper 91, of streaming 92, and accounts 5 and 6 contribute.
\<close>

section \<open>The environment\<close>

definition unary :: "nat \<Rightarrow> bytes" where
  "unary n = replicate n 1 @ [0]"

definition unary_codec :: relay_codec where
  "unary_codec = \<lparr>cd_account = unary, cd_source = unary, cd_compact = unary, cd_u16 = unary, cd_u32 = unary, cd_signature = unary\<rparr>"

fun string_number :: "string \<Rightarrow> nat" where
  "string_number [] = 0"
| "string_number (c # cs) = of_char c + 1 + 257 * string_number cs"

definition le_bytes :: "nat \<Rightarrow> string" where
  "le_bytes i = [char_of (i mod 256), char_of (i div 256 mod 256), char_of (i div 65536 mod 256), char_of (i div 16777216)]"

lemma of_char_bound: "of_char c < (256 :: nat)"
  using of_char_mod_256 [of c, where ?'a = nat] mod_less_divisor [of 256 "of_char c :: nat"] by simp

lemma string_number_inj: "string_number cs = string_number ds \<Longrightarrow> cs = ds"
proof (induction cs arbitrary: ds)
  case Nil
  then show ?case by (cases ds) auto
next
  case (Cons c cs)
  from Cons.prems obtain d ds' where ds: "ds = d # ds'" by (cases ds) auto
  have b: "of_char c + 1 < (257 :: nat)" "of_char d + 1 < (257 :: nat)" using of_char_bound [of c] of_char_bound [of d] by simp_all
  from Cons.prems have eq: "(of_char c + 1) + 257 * string_number cs = (of_char d + 1) + 257 * string_number ds'" by (simp add: ds)
  from arg_cong [OF eq, of "\<lambda>n. n mod 257"] have "of_char c = (of_char d :: nat)" using b by simp
  moreover from this eq have "string_number cs = string_number ds'" by simp
  ultimately show ?case using Cons.IH by (simp add: ds)
qed

lemma digit_eq: "(i :: nat) mod 256 = j mod 256 \<Longrightarrow> i div 256 = j div 256 \<Longrightarrow> i = j"
  by (metis div_mult_mod_eq)

lemma le_bytes_inj:
  assumes "i \<le> u32_max" and "j \<le> u32_max" and "le_bytes i = le_bytes j"
  shows "i = j"
proof -
  have d: "k div 65536 = k div 256 div 256" "k div 16777216 = k div 256 div 256 div 256" for k :: nat
    by simp_all
  from assms have "i mod 256 = j mod 256 \<and> i div 256 mod 256 = j div 256 mod 256 \<and> i div 65536 mod 256 = j div 65536 mod 256 \<and>
      i div 16777216 = j div 16777216"
    by (simp add: le_bytes_def)
  then show ?thesis unfolding d by (elim conjE) (rule digit_eq, assumption, rule digit_eq, assumption, rule digit_eq, assumption+)
qed

lemma unary_unambiguous: "unambiguous P unary"
proof -
  have "m = n \<and> r = r'" if "replicate m 1 @ 0 # r = replicate n 1 @ (0 :: nat) # r'" for m n :: nat and r r'
    using that
  proof (induction m arbitrary: n)
    case 0
    then show ?case by (cases n) simp_all
  next
    case (Suc m)
    then show ?case by (cases n) simp_all
  qed
  then show ?thesis unfolding unambiguous_def unary_def append_assoc append.simps by blast
qed

lemma unary_codec_laws: "codec_laws unary_codec"
  unfolding codec_laws_def unary_codec_def relay_codec.simps by (intro conjI unary_unambiguous)

section \<open>The runtime\<close>

definition empty_ref :: ref_ledger where
  "empty_ref = \<lparr>lg_balance = (\<lambda>a x. 0), lg_issuance = (\<lambda>a. 0)\<rparr>"

definition xcm_env :: "(ref_ledger, nat) xcm_config" where
  "xcm_env = \<lparr>xh_assets = fungibles_ref, xh_network = Polkadot, xh_pallet_account = 91, xh_refund_account = 93,
     xh_account_location = OtherLocation, xh_notify_timeout = 100, xh_update_origin = (\<lambda>x. x = Root), xh_relay_currency = 7,
     xh_codec = unary_codec, xh_unlookup = id, xh_account_of = Some, xh_invert_target = Some, xh_call_weight = (\<lambda>_. (1, 1)),
     xh_new_notify_query = (\<lambda>q _ _ _ _. (q, q + 1)), xh_send = (\<lambda>q _ _. Inr q)\<rparr>"

lemma xcm_env_fields [simp]:
  "xh_assets xcm_env = fungibles_ref" "xh_network xcm_env = Polkadot" "xh_pallet_account xcm_env = 91" "xh_relay_currency xcm_env = 7"
  "xh_invert_target xcm_env = Some" "xh_new_notify_query xcm_env q a b d e = (q, q + 1)" "xh_send xcm_env q a m = Inr q"
  by (simp_all add: xcm_env_def)

definition pair_streaming :: "(ref_ledger \<times> ref_ledger) streaming_config" where
  "pair_streaming = \<lparr>st_assets = currency_adapter 0 balances_ref fungibles_ref, st_pallet_account = 92, st_max_streams_count = 5,
     st_max_finished_streams_count = 2, st_native = 0, st_existential_deposit = 0, st_now = 0, st_update_origin = (\<lambda>x. x = Root)\<rparr>"

definition pair_loans :: "(ref_ledger \<times> ref_ledger) loans_config" where
  "pair_loans = \<lparr>lc_arith = sp_arith_ref, lc_assets = currency_adapter 0 balances_ref fungibles_ref,
     lc_price_feeder = (\<lambda>a. None), lc_pallet_account = 99, lc_derive_account = (\<lambda>n x. Some 98),
     lc_update_origin = (\<lambda>x. x = Root), lc_reserve_origin = (\<lambda>x. x = Root), lc_lookup = Some, lc_now = 1, lc_block = 1,
     lc_reward_asset = 0, lc_lf_asset = 5, lc_market_keys = [7]\<rparr>"

type_synonym ref_runtime = "(ref_ledger, ref_ledger, nat) runtime"

definition crowdloans_env :: "ref_runtime crowdloans_config" where
  "crowdloans_env = \<lparr>
     cl_assets = runtime_assets fungibles_ref,
     cl_xcm_contribute = (\<lambda>_ _ _ _ _. Inl 0), cl_xcm_proxy_contribute = (\<lambda>_ _ _ _ _. Inl 0), cl_xcm_withdraw = (\<lambda>_ _ _ _. Inl 0),
     cl_streaming_create = (\<lambda>_ _ _ _ _ _ _ _. Inl 0), cl_loans_mint = (\<lambda>_ _ _ _. Inl 0),
     cl_arith = sp_arith_ref, cl_hash = string_number, cl_index_bytes = le_bytes, cl_accounts = [5, 6], cl_leases = [(3, 4)],
     cl_lookup = Some, cl_account_nonce = (\<lambda>_. 1), cl_response_origin = (\<lambda>_. None), cl_decimal = (\<lambda>_. Some 12), cl_members = [],
     cl_proxy_origin = (\<lambda>x. x = Root), cl_migrate_origin = (\<lambda>x. x = Root), cl_vrf_origin = (\<lambda>x. x = Root),
     cl_create_origin = (\<lambda>x. x = Root), cl_refund_origin = (\<lambda>x. x = Root), cl_dissolve_origin = (\<lambda>x. x = Root),
     cl_update_origin = (\<lambda>x. x = Root), cl_open_close_origin = (\<lambda>x. x = Root), cl_auction_origin = (\<lambda>x. x = Root),
     cl_slot_expired_origin = (\<lambda>x. x = Root), cl_pallet_account = 90, cl_para_account = 94, cl_relay_currency = 7,
     cl_native_currency = 0, cl_min_contribution = 10, cl_migrate_keys_limit = 1, cl_remove_keys_limit = 1,
     cl_lease_period = 100, cl_lease_offset = 0, cl_lease_per_year = 4, cl_relay_block = 350\<rparr>"

definition ref_crowdloans :: "ref_runtime crowdloans_config" where
  "ref_crowdloans = runtime_crowdloans balances_ref fungibles_ref xcm_env pair_streaming pair_loans crowdloans_env"

definition ref_world :: ref_runtime where
  "ref_world = \<lparr>rt_balances = empty_ref, rt_assets = empty_ref,
     rt_xcm = \<lparr>xcm_weight_fees = (\<lambda>_. Some \<lparr>xw_weight = (1, 1), xw_fee = 2\<rparr>), xh_ledger = empty_ref, xh_queries = 0, xh_events = []\<rparr>,
     rt_streaming = streaming_genesis (empty_ref, empty_ref), rt_loans = genesis (empty_ref, empty_ref)\<rparr>"

lemma crowdloans_env_tries: "tries_apart crowdloans_env"
  by (auto simp: tries_apart_def no_collisions_def u32_codec_def crowdloans_env_def le_bytes_def [symmetric] intro!: inj_onI
      dest: string_number_inj le_bytes_inj) (simp add: le_bytes_def)

lemma ref_runtime_sound: "runtime_sound fungibles_ref xcm_env pair_loans crowdloans_env 200"
  by (simp add: runtime_sound_def crowdloans_env_tries)
    (simp add: crowdloans_env_def xcm_env_def pair_loans_def)

interpretation ref_runtime: sound_runtime balances_ref fungibles_ref xcm_env pair_streaming pair_loans crowdloans_env 200
  by unfold_locales (rule ref_runtime_sound)

end
