(* ===== verification/Crowdloans_Properties.thy ===== *)
theory Crowdloans_Properties
  imports Crowdloans_Example
begin

text \<open>
  The properties of crowdloans in the runtime, with a concrete history on which they are evaluated: two accounts contribute,
  one before the vault is open, the pending contribution is migrated, the relay chain confirms, the auction is won
  and one account claims its ctokens.
\<close>

definition crowdloans_script :: "(ref_runtime crowdloans_config \<times> crowdloans_action) list" where
  "crowdloans_script = map (Pair ref_crowdloans)
     [CrowdloansOther (LedgerMint 7 5 1000), CrowdloansOther (LedgerMint 7 6 1000), CrowdloansOther (LedgerMint 7 91 100),
      CrowdloansCall Root (CreateVault 2000 200 3 4 StrategyXCM 10000 1000),
      CrowdloansCall (Signed 5) (ContributeTo 2000 300 []), CrowdloansCall Root (OpenVault 2000),
      CrowdloansCall (Signed 6) (ContributeTo 2000 200 []), CrowdloansCall Root (MigratePending 2000),
      CrowdloansCall Root (NotificationReceivedCall 0 (ExecutionResult None)),
      CrowdloansCall (Signed 5) (ContributeTo 2000 50 []),
      CrowdloansCall Root (CloseVault 2000), CrowdloansCall Root (AuctionSucceeded 2000),
      CrowdloansCall (Signed 6) (ClaimCtoken 2000 3 4)]"

definition ref_run :: "nat \<Rightarrow> ref_runtime crowdloans_state" where
  "ref_run n = run_calls crowdloans_exec (take n crowdloans_script) (crowdloans_genesis ref_world)"

lemma ref_id_eq [simp]:
  "id_from_index ref_crowdloans 0 kind = id_from_index ref_crowdloans 0 kind' \<longleftrightarrow> kind = kind'"
  using id_from_index_eq [of ref_crowdloans 0 0 kind kind'] crowdloans_env_tries by (simp add: ref_crowdloans_def)

lemma ref_crowdloans_fields [simp]:
  "cl_assets ref_crowdloans = runtime_assets fungibles_ref"
  "cl_relay_currency ref_crowdloans = 7" "cl_native_currency ref_crowdloans = 0" "cl_pallet_account ref_crowdloans = 90"
  "cl_accounts ref_crowdloans = [5, 6]" "cl_members ref_crowdloans = []" "cl_create_origin ref_crowdloans = (\<lambda>x. x = Root)"
  "cl_open_close_origin ref_crowdloans = (\<lambda>x. x = Root)" "cl_migrate_origin ref_crowdloans = (\<lambda>x. x = Root)"
  "cl_auction_origin ref_crowdloans = (\<lambda>x. x = Root)" "cl_update_origin ref_crowdloans = (\<lambda>x. x = Root)"
  "cl_refund_origin ref_crowdloans = (\<lambda>x. x = Root)" "cl_decimal ref_crowdloans = (\<lambda>_. Some 12)"
  "cl_response_origin ref_crowdloans = (\<lambda>_. None)" "cl_relay_block ref_crowdloans = 350" "cl_min_contribution ref_crowdloans = 10"
  "cl_migrate_keys_limit ref_crowdloans = 1" "cl_remove_keys_limit ref_crowdloans = 1"
  by (simp_all add: ref_crowdloans_def runtime_crowdloans_def crowdloans_env_def Let_def)

lemma ref_contribute [simp]:
  "cl_xcm_contribute ref_crowdloans w p n x f = runtime_xcm (\<lambda>s. xcm_do_contribute xcm_env s p n x f) w"
proof -
  have "runtime_xcm_config fungibles_ref 7 xcm_env = xcm_env" by (simp add: runtime_xcm_config_def xcm_env_def)
  moreover have "cl_relay_currency crowdloans_env = 7" by (simp add: crowdloans_env_def)
  ultimately show ?thesis by (simp add: ref_crowdloans_def)
qed

lemma xcm_env_contribute [simp]:
  "xcm_do_contribute xcm_env s p n x f =
     bindE (map_err (\<lambda>_. Module InsufficientXcmFees) (ref_burn (xh_ledger s) 7 91 (xw_fee (xcm_weight_fee s XContribute)))) (\<lambda>l.
     Inr (xh_queries s, s\<lparr>xh_ledger := l, xh_queries := xh_queries s + 1\<rparr>))"
  by (simp add: xcm_do_contribute_def switch_relay_def do_ump_transact_def notify_and_send_def
      report_outcome_notify_def vec_insert_def Let_def xcm_account_id_def bindE_assoc) (simp add: fungibles_ref_def)

lemmas crowdloans_eval = Let_def ref_world_def empty_ref_def crowdloans_genesis_def runtime_assets_def with_assets_def
  fungibles_ref_def ref_transfer_def ref_mint_def ref_burn_def ensure_origin_def ensure_signed_def ensure_origin_or_member_def
  checked_add_def checked_sub_def checked_add_u32_def to_u128_def runtime_xcm_def xcm_weight_fee_def
  crowdloans_transfer_def crowdloans_mint_into_def crowdloans_burn_from_def crowdloans_account_id_def current_vault_def
  total_contribution_def contributions_def contribution_put_def contribution_get_def contribution_kill_def contribution_iterator_def
  storage_iter_def do_update_contribution_def do_migrate_contribution_def try_mutate_vault_def crowdloans_do_contribute_def
  do_notification_received_def create_vault_def set_phase_def crowdloan_open_def contribute_def crowdloan_close_def
  auction_succeeded_def crowdloan_claim_def do_claim_for_def migrate_pending_def notification_received_def new_vault_def
  vault_lease_def put_vault_def cl_deposit_event_def pay_bonus_def leases_bonus_of_def default_bonus_config_def
  normalized_amount_def checked_pow10_def ref_run_def crowdloans_script_def run_calls_def

lemma ref_run_reached:
  "history crowdloans_exec (runtime_admitted balances_ref fungibles_ref ref_crowdloans 200) (crowdloans_genesis ref_world) (ref_run n)"
proof -
  have "runtime_admitted balances_ref fungibles_ref ref_crowdloans 200 act" if "act \<in> set crowdloans_script" for act
    using that ref_runtime_sound
    by (auto simp: runtime_admitted_def crowdloans_script_def same_pallet_def crowdloan_admitted_def ledger_admitted_def)
      (metis ref_crowdloans_def)+
  then show ?thesis unfolding ref_run_def by (intro run_calls_history) (auto dest: in_set_takeD)
qed

lemma ref_run_vault:
  "vaults (ref_run 10) = [(2000, 3, 4) \<mapsto> \<lparr>v_ctoken = 200, v_phase = VaultContributing, v_contributed = 200, v_pending = 0, v_flying = 350,
     v_strategy = StrategyXCM, v_cap = 10000, v_end_block = 1000, v_trie_index = 0, v_lease_start = 3, v_lease_end = 4\<rparr>]"
  by (simp add: crowdloans_eval)

lemma ref_run_final:
  "vaults (ref_run 13) = [(2000, 3, 4) \<mapsto> \<lparr>v_ctoken = 200, v_phase = VaultSucceeded, v_contributed = 200, v_pending = 0, v_flying = 350,
     v_strategy = StrategyXCM, v_cap = 10000, v_end_block = 1000, v_trie_index = 0, v_lease_start = 3, v_lease_end = 4\<rparr>]"
  by (simp add: crowdloans_eval)

lemma ref_run_money:
  "funds_held ref_crowdloans (ref_run 13) = 350" "ctokens_issued ref_crowdloans 200 (ref_run 13) = 200"
  by (simp_all add: funds_held_def ctokens_issued_def crowdloans_eval)

section \<open>Custody and backing\<close>

text \<open>C7. In every reachable state of the crowdloans pallet, wired to the XCM helper, streaming and loans as in the runtime and under any
  interleaving of calls and ledger activity of others, the pallet's account holds at least the contributions of all
  vaults that are pending or in flight, and the two totals of a vault are the sums of the entries in its child tries.\<close>

theorem crowdloans_custody:
  assumes "distinct (cl_accounts C)" and "ft_total_issuance (cl_assets C) w c = 0"
    and "history crowdloans_exec (runtime_admitted B A C c) (crowdloans_genesis w) s"
  shows "vaults_owed s \<le> funds_held C s \<and>
    (\<forall>k v. vaults s k = Some v \<longrightarrow>
       v_pending v = trie_sum C s (v_trie_index v) KindPending \<and> v_flying v = trie_sum C s (v_trie_index v) KindFlying)"
  using runtime_history_safe [OF assms] by (auto simp: crowdloan_safe_def vault_books_def vault_ok_def simp del: split_paired_All)

theorem crowdloans_custody_witness:
  "vaults_owed (ref_run 13) = 350 \<and> vaults_owed (ref_run 13) \<le> funds_held ref_crowdloans (ref_run 13) \<and>
   trie_sum ref_crowdloans (ref_run 13) 0 KindFlying = 350"
proof -
  note c = crowdloans_custody [OF _ _ ref_run_reached [of 13]]
  have "vaults_owed (ref_run 13) \<le> funds_held ref_crowdloans (ref_run 13) \<and>
      trie_sum ref_crowdloans (ref_run 13) 0 KindFlying = 350"
    using c [THEN conjunct2, rule_format, of "(2000, 3, 4)"] c [THEN conjunct1]
    by (simp add: ref_run_final) (simp add: ref_world_def empty_ref_def fungibles_ref_def)
  then show ?thesis by (simp add: vaults_owed_def ref_run_final sum_entries_def)
qed

text \<open>C8. In every reachable state the ctokens of a kind that exist, together with those that can still be claimed, are at most
  what the vaults of this ctoken have contributed on the relay chain.\<close>

theorem ctokens_backed:
  assumes "distinct (cl_accounts C)" and "ft_total_issuance (cl_assets C) w c = 0"
    and "history crowdloans_exec (runtime_admitted B A C c) (crowdloans_genesis w) s"
  shows "ctokens_issued C c s + claimable_for C c s \<le> contributed_for c s"
  using runtime_history_safe [OF assms] by (simp add: crowdloan_safe_def)

theorem ctokens_backed_witness:
  "ctokens_issued ref_crowdloans 200 (ref_run 13) = 200 \<and> contributed_for 200 (ref_run 13) = 200 \<and>
   ctokens_issued ref_crowdloans 200 (ref_run 13) + claimable_for ref_crowdloans 200 (ref_run 13) \<le> contributed_for 200 (ref_run 13)"
  using ctokens_backed [OF _ _ ref_run_reached [of 13]] ref_run_money
  by (auto simp: ref_world_def empty_ref_def fungibles_ref_def contributed_for_def ref_run_final sum_entries_def ctoken_share_def)

section \<open>Phases\<close>

text \<open>C32. In every reachable state an accepted call changes the phase of a vault only along the life cycle: created as pending,
  opened, closed, reopened, won, dissolved only when closed, failed or expired, and otherwise only by the success reply to
  a stored withdrawal.  Every such withdrawal was sent in this history for this vault: for failed by an accepted auction_failed
  when the vault was closed, or for expired by an accepted slot_expired when it had succeeded.  The phase the vault has when
  the reply comes is not checked and can be any.\<close>

theorem vault_phases_follow_life_cycle:
  assumes "distinct (cl_accounts C)" and "ft_total_issuance (cl_assets C) w c = 0"
    and "history crowdloans_exec (runtime_admitted B A C c) (crowdloans_genesis w) s"
    and "crowdloans_dispatch C s o' call = Inr s'"
  shows "phase_of s' k = phase_of s k \<or>
    phase_move (withdrawal_pending (runtime_admitted B A C c) (crowdloans_genesis w) s) call k (phase_of s k) (phase_of s' k)"
proof -
  have "vault_books C s" using runtime_history_safe [OF assms(1-3)] by (simp add: crowdloan_safe_def)
  from assms(4) this show ?thesis
  proof (rule dispatch_phases)
    fix q p lease n target
    assume "xcm_requests s q = Some (RequestWithdraw p lease n target)"
    with withdrawals_were_sent [OF assms(3) crowdloans_genesis_safe [OF assms(1,2)] runtime_admitted_environment]
    show "withdrawal_pending (runtime_admitted B A C c) (crowdloans_genesis w) s q (p, lease) target"
      unfolding withdrawal_pending_def by (simp add: crowdloans_genesis_def)
  qed
qed

theorem vault_phases_follow_life_cycle_witness:
  "\<exists>s'. crowdloans_dispatch ref_crowdloans (ref_run 10) Root (CloseVault 2000) = Inr s' \<and>
     phase_of s' (2000, 3, 4) = Some VaultClosed \<and>
     phase_move (withdrawal_pending (runtime_admitted balances_ref fungibles_ref ref_crowdloans 200) (crowdloans_genesis ref_world) (ref_run 10))
       (CloseVault 2000) (2000, 3, 4) (Some VaultContributing) (Some VaultClosed)"
proof -
  have "leases_registry (ref_run 10) 2000 = Some (3, 4)" by (simp add: crowdloans_eval)
  then obtain s' where s': "crowdloans_dispatch ref_crowdloans (ref_run 10) Root (CloseVault 2000) = Inr s'"
      and ph: "phase_of s' (2000, 3, 4) = Some VaultClosed"
    by (simp add: crowdloan_close_def ensure_origin_or_member_def try_mutate_vault_def current_vault_def ref_run_vault set_phase_def phase_of_def
        vault_lease_def)
  have "phase_of (ref_run 10) (2000, 3, 4) = Some VaultContributing" by (simp add: phase_of_def ref_run_vault)
  with s' ph vault_phases_follow_life_cycle [OF _ _ ref_run_reached s', of "(2000, 3, 4)"] show ?thesis
    by (auto simp: ref_world_def empty_ref_def fungibles_ref_def)
qed

section \<open>Refunds\<close>

text \<open>C33. In every reachable state, m accepted refund calls of a vault in a row pay back the first m times limit of its open
  contributions, in the order of the child tries, and leave the others open, so that enough calls pay back all of them.  Every
  account receives exactly what the paid entries hold for it in the relay currency; what is pending or in flight comes from the
  pallet's account, and what the relay chain took is minted.  The last event says whether any contribution is left.\<close>

theorem refund_makes_progress:
  assumes "distinct (cl_accounts C)" and "ft_total_issuance (cl_assets C) w c = 0"
    and "history crowdloans_exec (runtime_admitted B A C c) (crowdloans_genesis w) s"
    and "runtime_admitted B A C c (C, CrowdloansCall o' (RefundVault p ls le))"
    and "vaults s (p, ls, le) = Some v" and "0 < m" and "repeated_refund C o' p ls le m s = Inr s'"
  defines "es \<equiv> open_contributions C s (v_trie_index v)" and "n \<equiv> m * cl_remove_keys_limit C"
  shows "open_contributions C s' (v_trie_index v) = drop n es \<and>
    relay_balance C s' z + (if z = cl_pallet_account C then paid_by_pallet (take n es) else 0) = relay_balance C s z + paid_to z (take n es) \<and>
    last (cl_events s') = (if length es \<le> n then AllRefunded p (ls, le) else PartiallyRefunded p (ls, le))"
proof -
  have "crowdloan_services C c" "crowdloan_admitted C o' (RefundVault p ls le)"
    using runtime_admitted_environment [OF assms(4)] by (simp_all add: environment_admitted_def)
  from repeated_refund_effect [OF this runtime_history_safe [OF assms(1-3)] assms(5) refl assms(7)] assms(6) show ?thesis
    unfolding es_def n_def pays_back_def by blast
qed

lemma ref_closed:
  "vaults (ref_run 11) = [(2000, 3, 4) \<mapsto> \<lparr>v_ctoken = 200, v_phase = VaultClosed, v_contributed = 200, v_pending = 0, v_flying = 350,
     v_strategy = StrategyXCM, v_cap = 10000, v_end_block = 1000, v_trie_index = 0, v_lease_start = 3, v_lease_end = 4\<rparr>]"
  "is_ok (repeated_refund ref_crowdloans Root 2000 3 4 2 (ref_run 11))"
  "open_contributions ref_crowdloans (ref_run 11) 0 = [(KindContributed, 6, 200), (KindFlying, 5, 350)]"
  "relay_balance ref_crowdloans (ref_run 11) 6 = 800"
  by (simp_all add: crowdloans_eval crowdloan_refund_def do_refund_for_def is_ok_def open_of_def relay_balance_def numeral_2_eq_2)

theorem refund_makes_progress_witness:
  "\<exists>s'. repeated_refund ref_crowdloans Root 2000 3 4 2 (ref_run 11) = Inr s' \<and>
     open_contributions ref_crowdloans s' 0 = [] \<and> relay_balance ref_crowdloans s' 6 = 1000 \<and>
     last (cl_events s') = AllRefunded 2000 (3, 4)"
proof -
  from ref_closed(2) obtain s' where s': "repeated_refund ref_crowdloans Root 2000 3 4 2 (ref_run 11) = Inr s'"
    by (auto simp: is_ok_def split: sum.splits)
  have "runtime_admitted balances_ref fungibles_ref ref_crowdloans 200 (ref_crowdloans, CrowdloansCall Root (RefundVault 2000 3 4))"
    using ref_runtime_sound by (auto simp: runtime_admitted_def same_pallet_def crowdloan_admitted_def ref_crowdloans_def)
  from refund_makes_progress [OF _ _ ref_run_reached this _ _ s', of _ 6] s' show ?thesis
    by (auto simp: ref_world_def empty_ref_def fungibles_ref_def ref_closed paid_to_def)
qed

section \<open>The term of a ctoken\<close>

definition elapsed_rate :: "nat \<Rightarrow> nat \<Rightarrow> nat \<Rightarrow> nat \<Rightarrow> nat" where
  "elapsed_rate st en len b = (if b < st then 0 else if b < en then min ((b - st) * FX div len) u128_max else FX)"

lemma lease_blocks:
  assumes "s \<le> e"
  shows "sat_u32 (sat_u32 (lp * (e + 1)) + off) \<le> sat_u32 (sat_u32 (lp * s) + off) + sat_u32 (lp * (e - s + 1))"
proof -
  have "lp * (e + 1) = lp * s + lp * (e - s + 1)" using assms by (simp add: distrib_left [symmetric])
  moreover have "min (min (a + l) M + off) M \<le> min (min a M + off) M + min l M" for a l M :: nat by (simp add: min_def)
  ultimately show ?thesis unfolding sat_u32_def by metis
qed

lemma elapsed_rate_le:
  assumes "en \<le> st + len"
  shows "elapsed_rate st en len b \<le> FX"
proof -
  have "(b - st) * FX div len \<le> FX" if "b < en" "\<not> b < st"
  proof -
    have "b - st \<le> len" using that assms by linarith
    then have "(b - st) * FX \<le> len * FX" by (rule mult_le_mono1)
    then have "(b - st) * FX div len \<le> len * FX div len" by (rule div_le_mono)
    also have "\<dots> \<le> FX" by (cases "len = 0") simp_all
    finally show ?thesis .
  qed
  then show ?thesis by (auto simp: elapsed_rate_def intro: min.coboundedI1)
qed

lemma elapsed_rate_mono:
  assumes "en \<le> st + len" and "b \<le> b'"
  shows "elapsed_rate st en len b \<le> elapsed_rate st en len b'"
proof (cases "b' < en \<and> \<not> b < st")
  case True
  have "(b - st) * FX div len \<le> (b' - st) * FX div len" by (intro div_le_mono mult_le_mono1 diff_le_mono assms(2))
  with True assms(2) show ?thesis by (auto simp: elapsed_rate_def min_def)
next
  case False
  then show ?thesis using assms(2) elapsed_rate_le [OF assms(1), of b] by (auto simp: elapsed_rate_def)
qed

lemma get_vault_term_rateD:
  assumes "sp_arith_laws (cl_arith C)" and "get_vault_term_rate C (s, e) = Inr (Some (r, y))"
  shows "s \<le> e" and "r = elapsed_rate (sat_u32 (sat_u32 (cl_lease_period C * s) + cl_lease_offset C))
      (sat_u32 (sat_u32 (cl_lease_period C * (e + 1)) + cl_lease_offset C)) (sat_u32 (cl_lease_period C * (e - s + 1))) (cl_relay_block C)"
    and "fx_saturating_from_rational (cl_arith C) (sat_u32 (cl_lease_period C * (e - s + 1))) (sat_u32 (cl_lease_per_year C * cl_lease_period C)) = Some y"
  using assms(2) unfolding get_vault_term_rate_def Let_def elapsed_rate_def
  by (auto simp: fx_simps(10) [OF assms(1)] elim!: resultE split: if_splits)
text \<open>The elapsed part of the lease of a ctoken, from which its price is computed, is at most one and never goes back as the relay chain
  produces blocks, saturating arithmetic on block numbers included.\<close>

theorem term_rate_bounded:
  assumes "sp_arith_laws (cl_arith C)" and "get_vault_term_rate C lease = Inr (Some (rate, years))"
    and "cl_relay_block C \<le> b"
    and "get_vault_term_rate (C\<lparr>cl_relay_block := b\<rparr>) lease = Inr (Some (rate', years'))"
  shows "rate \<le> FX \<and> rate \<le> rate' \<and> years = years'"
proof -
  obtain ls le where lease: "lease = (ls, le)" by (cases lease)
  note 1 = get_vault_term_rateD [OF assms(1,2) [unfolded lease]]
  note 2 = get_vault_term_rateD [of "C\<lparr>cl_relay_block := b\<rparr>", simplified, OF assms(1) assms(4) [unfolded lease]]
  show ?thesis
    using 1(3) 2(3) elapsed_rate_le [OF lease_blocks [OF 1(1)]] elapsed_rate_mono [OF lease_blocks [OF 1(1)] assms(3)]
    by (simp add: 1(2) 2(2))
qed

theorem term_rate_bounded_witness:
  "get_vault_term_rate ref_crowdloans (3, 4) = Inr (Some (FX div 4, FX div 2)) \<and>
   get_vault_term_rate (ref_crowdloans\<lparr>cl_relay_block := 400\<rparr>) (3, 4) = Inr (Some (FX div 2, FX div 2)) \<and>
   FX div 4 \<le> FX \<and> FX div 4 \<le> FX div 2"
proof -
  have C: "cl_arith ref_crowdloans = sp_arith_ref" "cl_lease_period ref_crowdloans = 100" "cl_lease_offset ref_crowdloans = 0"
    "cl_lease_per_year ref_crowdloans = 4"
    by (simp_all add: ref_crowdloans_def runtime_crowdloans_def crowdloans_env_def Let_def)
  have r: "get_vault_term_rate ref_crowdloans (3, 4) = Inr (Some (FX div 4, FX div 2))"
    "get_vault_term_rate (ref_crowdloans\<lparr>cl_relay_block := 400\<rparr>) (3, 4) = Inr (Some (FX div 2, FX div 2))"
    by (simp_all add: get_vault_term_rate_def C sat_u32_def sp_arith_ref_def)
  with term_rate_bounded [OF _ r(1) _ r(2)] show ?thesis by (simp add: C)
qed

end
