(* ===== verification/Staking_Ledgers.thy ===== *)
theory Staking_Ledgers
  imports Parallel_Prelude
begin

text \<open>
  The types of the liquid-staking pallet (src/pallets/liquid-staking/src/types.rs): the matching pool, which nets what was
  staked against what was unstaked before anything is sent to the relay chain, and the copies of the ledgers that the
  relay chain keeps for the accounts of the pallet.  A plain addition or subtraction that leaves the range of \<open>u128\<close>
  panics.
\<close>

section \<open>The matching pool\<close>

record reservable_amount =
  ra_total :: balance
  ra_reserved :: balance

definition ra_free :: "reservable_amount \<Rightarrow> 'm dispatch_error + balance" where
  "ra_free r = ok_or (checked_sub (ra_total r) (ra_reserved r)) (Arithmetic Underflow)"

record matching_ledger =
  total_stake_amount :: reservable_amount
  total_unstake_amount :: reservable_amount

definition default_matching_ledger :: matching_ledger where
  "default_matching_ledger = \<lparr>total_stake_amount = \<lparr>ra_total = 0, ra_reserved = 0\<rparr>,
     total_unstake_amount = \<lparr>ra_total = 0, ra_reserved = 0\<rparr>\<rparr>"

definition matching :: "matching_ledger \<Rightarrow> balance \<Rightarrow> 'm dispatch_error + balance \<times> balance \<times> balance" where
  "matching p unbonding_amount =
     bindE (ra_free (total_stake_amount p)) (\<lambda>total_free_stake_amount.
     bindE (ra_free (total_unstake_amount p)) (\<lambda>total_free_unstake_amount.
     Inr (if total_free_stake_amount \<le> total_free_unstake_amount
          then (0, 0, total_free_unstake_amount - total_free_stake_amount)
          else
            let amount = total_free_stake_amount - total_free_unstake_amount in
            if amount < unbonding_amount then (0, amount, 0)
            else (amount - unbonding_amount, unbonding_amount, 0))))"

definition set_stake_total :: "balance \<Rightarrow> matching_ledger \<Rightarrow> matching_ledger" where
  "set_stake_total n p = p\<lparr>total_stake_amount := (total_stake_amount p)\<lparr>ra_total := n\<rparr>\<rparr>"

definition set_stake_reserved :: "balance \<Rightarrow> matching_ledger \<Rightarrow> matching_ledger" where
  "set_stake_reserved n p = p\<lparr>total_stake_amount := (total_stake_amount p)\<lparr>ra_reserved := n\<rparr>\<rparr>"

definition set_unstake_total :: "balance \<Rightarrow> matching_ledger \<Rightarrow> matching_ledger" where
  "set_unstake_total n p = p\<lparr>total_unstake_amount := (total_unstake_amount p)\<lparr>ra_total := n\<rparr>\<rparr>"

definition set_unstake_reserved :: "balance \<Rightarrow> matching_ledger \<Rightarrow> matching_ledger" where
  "set_unstake_reserved n p = p\<lparr>total_unstake_amount := (total_unstake_amount p)\<lparr>ra_reserved := n\<rparr>\<rparr>"

definition add_stake_amount :: "balance \<Rightarrow> matching_ledger \<Rightarrow> 'm dispatch_error + matching_ledger" where
  "add_stake_amount amount p =
     bindE (ok_or (checked_add (ra_total (total_stake_amount p)) amount) (Arithmetic Overflow)) (\<lambda>n. Inr (set_stake_total n p))"

definition add_unstake_amount :: "balance \<Rightarrow> matching_ledger \<Rightarrow> 'm dispatch_error + matching_ledger" where
  "add_unstake_amount amount p =
     bindE (ok_or (checked_add (ra_total (total_unstake_amount p)) amount) (Arithmetic Overflow)) (\<lambda>n. Inr (set_unstake_total n p))"

definition sub_stake_amount :: "balance \<Rightarrow> matching_ledger \<Rightarrow> 'm dispatch_error + matching_ledger" where
  "sub_stake_amount amount p =
     bindE (ra_free (total_stake_amount p)) (\<lambda>free.
     bindE (ensure (\<not> free < amount) (Arithmetic Underflow)) (\<lambda>_.
     bindE (ok_or (checked_sub (ra_total (total_stake_amount p)) amount) (Arithmetic Underflow)) (\<lambda>n. Inr (set_stake_total n p))))"

definition sub_unstake_amount :: "balance \<Rightarrow> matching_ledger \<Rightarrow> 'm dispatch_error + matching_ledger" where
  "sub_unstake_amount amount p =
     bindE (ra_free (total_unstake_amount p)) (\<lambda>free.
     bindE (ensure (\<not> free < amount) (Arithmetic Underflow)) (\<lambda>_.
     bindE (ok_or (checked_sub (ra_total (total_unstake_amount p)) amount) (Arithmetic Underflow)) (\<lambda>n. Inr (set_unstake_total n p))))"

definition set_stake_amount_lock :: "balance \<Rightarrow> matching_ledger \<Rightarrow> 'm dispatch_error + matching_ledger" where
  "set_stake_amount_lock amount p =
     bindE (ok_or (checked_add (ra_reserved (total_stake_amount p)) amount) (Arithmetic Overflow)) (\<lambda>reserved.
     bindE (ensure (\<not> reserved > ra_total (total_stake_amount p)) (Arithmetic Overflow)) (\<lambda>_.
     Inr (set_stake_reserved reserved p)))"

definition remove_stake_amount_lock :: "balance \<Rightarrow> matching_ledger \<Rightarrow> 'm dispatch_error + matching_ledger" where
  "remove_stake_amount_lock amount p =
     bindE (ok_or (checked_sub (ra_reserved (total_stake_amount p)) amount) (Arithmetic Underflow)) (\<lambda>n. Inr (set_stake_reserved n p))"

definition set_unstake_amount_lock :: "balance \<Rightarrow> matching_ledger \<Rightarrow> 'm dispatch_error + matching_ledger" where
  "set_unstake_amount_lock amount p =
     bindE (ok_or (checked_add (ra_reserved (total_unstake_amount p)) amount) (Arithmetic Overflow)) (\<lambda>reserved.
     bindE (ensure (\<not> reserved > ra_total (total_unstake_amount p)) (Arithmetic Overflow)) (\<lambda>_.
     Inr (set_unstake_reserved reserved p)))"

definition remove_unstake_amount_lock :: "balance \<Rightarrow> matching_ledger \<Rightarrow> 'm dispatch_error + matching_ledger" where
  "remove_unstake_amount_lock amount p =
     bindE (ok_or (checked_sub (ra_reserved (total_unstake_amount p)) amount) (Arithmetic Underflow)) (\<lambda>n. Inr (set_unstake_reserved n p))"

definition clear_matched :: "matching_ledger \<Rightarrow> 'm dispatch_error + matching_ledger" where
  "clear_matched p =
     bindE (ra_free (total_stake_amount p)) (\<lambda>free_stake.
     bindE (ra_free (total_unstake_amount p)) (\<lambda>free_unstake.
     if free_stake \<noteq> free_unstake then Inr p
     else
       bindE (ok_or (checked_sub (ra_total (total_stake_amount p)) free_stake) (Arithmetic Underflow)) (\<lambda>n.
       let p = set_stake_total n p in
       bindE (ok_or (checked_sub (ra_total (total_unstake_amount p)) free_stake) (Arithmetic Underflow)) (\<lambda>n.
       Inr (set_unstake_total n p)))))"

definition consolidate_stake :: "balance \<Rightarrow> matching_ledger \<Rightarrow> 'm dispatch_error + matching_ledger" where
  "consolidate_stake amount p =
     bindE (remove_stake_amount_lock amount p) (\<lambda>p.
     bindE (sub_stake_amount amount p) clear_matched)"

definition consolidate_unstake :: "balance \<Rightarrow> matching_ledger \<Rightarrow> 'm dispatch_error + matching_ledger" where
  "consolidate_unstake amount p =
     bindE (remove_unstake_amount_lock amount p) (\<lambda>p.
     bindE (sub_unstake_amount amount p) clear_matched)"

section \<open>Staking ledgers\<close>

type_synonym era_index = nat
type_synonym derivative_index = nat

record unlock_chunk =
  chunk_value :: balance
  chunk_era :: era_index

record staking_ledger =
  sl_stash :: account_id
  sl_total :: balance
  sl_active :: balance
  sl_unlocking :: "unlock_chunk list"
  sl_claimed_rewards :: "era_index list"

definition new_staking_ledger :: "account_id \<Rightarrow> balance \<Rightarrow> staking_ledger" where
  "new_staking_ledger stash value =
     \<lparr>sl_stash = stash, sl_total = value, sl_active = value, sl_unlocking = [], sl_claimed_rewards = []\<rparr>"

definition consolidate_unlocked :: "era_index \<Rightarrow> staking_ledger \<Rightarrow> staking_ledger" where
  "consolidate_unlocked current_era l =
     l\<lparr>sl_total := fold (\<lambda>chunk total. if chunk_era chunk > current_era then total else saturating_sub total (chunk_value chunk))
         (sl_unlocking l) (sl_total l),
       sl_unlocking := filter (\<lambda>chunk. chunk_era chunk > current_era) (sl_unlocking l)\<rparr>"

text \<open>
  The loop of \<open>rebond\<close> takes chunks from the end of the list; here they come in reverse.  It returns the active
  balance and the chunks that are left, in reverse too.
\<close>

fun rebond_loop ::
    "balance \<Rightarrow> unlock_chunk list \<Rightarrow> balance \<Rightarrow> balance \<Rightarrow> 'm dispatch_error + balance \<times> unlock_chunk list" where
  "rebond_loop value [] unlocking_balance active = Inr (active, [])"
| "rebond_loop value (last_chunk # chunks) unlocking_balance active =
     bindE (ok_or (add_u128 unlocking_balance (chunk_value last_chunk)) Panic) (\<lambda>next_balance.
     if next_balance \<le> value then
       bindE (ok_or (add_u128 active (chunk_value last_chunk)) Panic) (\<lambda>active.
       if next_balance \<ge> value then Inr (active, chunks) else rebond_loop value chunks next_balance active)
     else
       bindE (ok_or (sub_u128 value unlocking_balance) Panic) (\<lambda>diff.
       bindE (ok_or (add_u128 active diff) Panic) (\<lambda>active.
       bindE (ok_or (sub_u128 (chunk_value last_chunk) diff) Panic) (\<lambda>rest.
       Inr (active, last_chunk\<lparr>chunk_value := rest\<rparr> # chunks)))))"

definition rebond_ledger :: "balance \<Rightarrow> staking_ledger \<Rightarrow> 'm dispatch_error + staking_ledger" where
  "rebond_ledger value l =
     bindE (rebond_loop value (rev (sl_unlocking l)) 0 (sl_active l)) (\<lambda>(active, chunks).
     Inr (l\<lparr>sl_active := active, sl_unlocking := rev chunks\<rparr>))"

definition bond_extra_ledger :: "balance \<Rightarrow> staking_ledger \<Rightarrow> 'm dispatch_error + staking_ledger" where
  "bond_extra_ledger value l =
     bindE (ok_or (add_u128 (sl_total l) value) Panic) (\<lambda>total_balance.
     bindE (ok_or (add_u128 (sl_active l) value) Panic) (\<lambda>active.
     Inr (l\<lparr>sl_total := total_balance, sl_active := active\<rparr>)))"

text \<open>The chunk of an era: the last one is raised if it has that era, and a new one is appended otherwise.\<close>

definition push_chunk :: "balance \<Rightarrow> era_index \<Rightarrow> unlock_chunk list \<Rightarrow> unlock_chunk list" where
  "push_chunk value target_era chunks =
     (if chunks \<noteq> [] \<and> chunk_era (last chunks) = target_era
      then butlast chunks @ [(last chunks)\<lparr>chunk_value := min (chunk_value (last chunks) + value) u128_max\<rparr>]
      else chunks @ [\<lparr>chunk_value = value, chunk_era = target_era\<rparr>])"

definition unbond_ledger :: "balance \<Rightarrow> era_index \<Rightarrow> staking_ledger \<Rightarrow> 'm dispatch_error + staking_ledger" where
  "unbond_ledger value target_era l =
     bindE (ok_or (sub_u128 (sl_active l) value) Panic) (\<lambda>active.
     Inr (l\<lparr>sl_unlocking := push_chunk value target_era (sl_unlocking l), sl_active := active\<rparr>))"

datatype unstake_provider = RelayChainProvider | LoansProvider | MatchingPoolProvider

section \<open>The pool\<close>

lemma pool_set_simps [simp]:
  "ra_total (total_stake_amount (set_stake_total n p)) = n"
  "ra_reserved (total_stake_amount (set_stake_total n p)) = ra_reserved (total_stake_amount p)"
  "total_unstake_amount (set_stake_total n p) = total_unstake_amount p"
  "ra_total (total_stake_amount (set_stake_reserved n p)) = ra_total (total_stake_amount p)"
  "ra_reserved (total_stake_amount (set_stake_reserved n p)) = n"
  "total_unstake_amount (set_stake_reserved n p) = total_unstake_amount p"
  "ra_total (total_unstake_amount (set_unstake_total n p)) = n"
  "ra_reserved (total_unstake_amount (set_unstake_total n p)) = ra_reserved (total_unstake_amount p)"
  "total_stake_amount (set_unstake_total n p) = total_stake_amount p"
  "ra_total (total_unstake_amount (set_unstake_reserved n p)) = ra_total (total_unstake_amount p)"
  "ra_reserved (total_unstake_amount (set_unstake_reserved n p)) = n"
  "total_stake_amount (set_unstake_reserved n p) = total_stake_amount p"
  by (simp_all add: set_stake_total_def set_stake_reserved_def set_unstake_total_def set_unstake_reserved_def)

text \<open>What is locked is part of what is there.\<close>

definition matching_ok :: "matching_ledger \<Rightarrow> bool" where
  "matching_ok p \<longleftrightarrow> ra_reserved (total_stake_amount p) \<le> ra_total (total_stake_amount p) \<and>
     ra_reserved (total_unstake_amount p) \<le> ra_total (total_unstake_amount p) \<and> ra_total (total_stake_amount p) \<le> u128_max"

abbreviation staked :: "matching_ledger \<Rightarrow> balance" where
  "staked p \<equiv> ra_total (total_stake_amount p)"

abbreviation unstaked :: "matching_ledger \<Rightarrow> balance" where
  "unstaked p \<equiv> ra_total (total_unstake_amount p)"

lemma ra_free_Inr: "ra_free r = Inr n \<longleftrightarrow> ra_reserved r \<le> ra_total r \<and> n = ra_total r - ra_reserved r"
  by (auto simp: ra_free_def checked_sub_def ok_or_def)

lemma pool_add:
  "add_stake_amount n p = Inr p' \<Longrightarrow> matching_ok p \<Longrightarrow> matching_ok p' \<and> staked p' = staked p + n \<and> unstaked p' = unstaked p"
  "add_unstake_amount n p = Inr p' \<Longrightarrow> matching_ok p \<Longrightarrow> matching_ok p' \<and> staked p' = staked p \<and> unstaked p' = unstaked p + n"
  unfolding add_stake_amount_def add_unstake_amount_def matching_ok_def by (auto elim!: resultE)

lemma pool_sub:
  "sub_stake_amount n p = Inr p' \<Longrightarrow> matching_ok p \<Longrightarrow> matching_ok p' \<and> staked p' + n = staked p \<and> unstaked p' = unstaked p"
  "sub_unstake_amount n p = Inr p' \<Longrightarrow> matching_ok p \<Longrightarrow> matching_ok p' \<and> staked p' = staked p \<and> unstaked p' + n = unstaked p"
  unfolding sub_stake_amount_def sub_unstake_amount_def matching_ok_def by (auto simp: ra_free_Inr elim!: resultE)

lemma pool_lock:
  "set_stake_amount_lock n p = Inr p' \<Longrightarrow> matching_ok p \<Longrightarrow> matching_ok p' \<and> staked p' = staked p \<and> unstaked p' = unstaked p"
  "set_unstake_amount_lock n p = Inr p' \<Longrightarrow> matching_ok p \<Longrightarrow> matching_ok p' \<and> staked p' = staked p \<and> unstaked p' = unstaked p"
  unfolding set_stake_amount_lock_def set_unstake_amount_lock_def matching_ok_def by (auto elim!: resultE)

lemma clear_effect:
  assumes "clear_matched p = Inr p'" and "matching_ok p"
  obtains f where "matching_ok p'" "staked p' + f = staked p" "unstaked p' + f = unstaked p"
proof (cases "staked p - ra_reserved (total_stake_amount p) = unstaked p - ra_reserved (total_unstake_amount p)")
  case True
  show thesis
    by (rule that [of "staked p - ra_reserved (total_stake_amount p)"])
      (use assms True in \<open>auto simp: clear_matched_def Let_def ra_free_Inr matching_ok_def elim!: resultE\<close>)
next
  case False
  show thesis by (rule that [of 0]) (use assms False in \<open>auto simp: clear_matched_def ra_free_Inr elim!: resultE\<close>)
qed

lemma consolidate_stake_effect:
  assumes "consolidate_stake n p = (Inr p' :: 'm dispatch_error + matching_ledger)" and "matching_ok p"
  obtains f where "matching_ok p'" "staked p' + n + f = staked p" "unstaked p' + f = unstaked p"
proof -
  from assms(1) obtain p1 p2 where 1: "remove_stake_amount_lock n p = (Inr p1 :: 'm dispatch_error + matching_ledger)"
      and 2: "sub_stake_amount n p1 = (Inr p2 :: 'm dispatch_error + matching_ledger)"
      and 3: "clear_matched p2 = (Inr p' :: 'm dispatch_error + matching_ledger)"
    unfolding consolidate_stake_def by (elim resultE)
  have "matching_ok p1 \<and> staked p1 = staked p \<and> unstaked p1 = unstaked p"
    using 1 assms(2) unfolding remove_stake_amount_lock_def matching_ok_def by (auto elim!: resultE)
  moreover from this have "matching_ok p2 \<and> staked p2 + n = staked p1 \<and> unstaked p2 = unstaked p1" using pool_sub(1) [OF 2] by blast
  ultimately show thesis using clear_effect [OF 3] that by (metis add.assoc add.commute)
qed

lemma consolidate_unstake_effect:
  assumes "consolidate_unstake n p = (Inr p' :: 'm dispatch_error + matching_ledger)" and "matching_ok p"
  obtains f where "matching_ok p'" "staked p' + f = staked p" "unstaked p' + n + f = unstaked p"
proof -
  from assms(1) obtain p1 p2 where 1: "remove_unstake_amount_lock n p = (Inr p1 :: 'm dispatch_error + matching_ledger)"
      and 2: "sub_unstake_amount n p1 = (Inr p2 :: 'm dispatch_error + matching_ledger)"
      and 3: "clear_matched p2 = (Inr p' :: 'm dispatch_error + matching_ledger)"
    unfolding consolidate_unstake_def by (elim resultE)
  have "matching_ok p1 \<and> staked p1 = staked p \<and> unstaked p1 = unstaked p"
    using 1 assms(2) unfolding remove_unstake_amount_lock_def matching_ok_def by (auto elim!: resultE)
  moreover from this have "matching_ok p2 \<and> staked p2 = staked p1 \<and> unstaked p2 + n = unstaked p1" using pool_sub(2) [OF 2] by blast
  ultimately show thesis using clear_effect [OF 3] that by (metis add.assoc add.commute)
qed

lemma matching_effect:
  assumes "matching p unbonding = Inr (bond, rebond, unbond)"
  shows "bond + rebond + (unstaked p - ra_reserved (total_unstake_amount p)) = unbond + (staked p - ra_reserved (total_stake_amount p))"
    and "unbond = 0 \<or> bond = 0 \<and> rebond = 0" and "rebond \<le> unbonding" and "bond = 0 \<or> rebond = unbonding"
  using assms unfolding matching_def by (auto simp: ra_free_Inr Let_def split: if_splits elim!: resultE)

section \<open>The ledgers\<close>

definition chunk_sum :: "unlock_chunk list \<Rightarrow> balance" where
  "chunk_sum chunks = sum_list (map chunk_value chunks)"

lemma chunk_sum_simps [simp]:
  "chunk_sum [] = 0" "chunk_sum (c # cs) = chunk_value c + chunk_sum cs" "chunk_sum (cs @ ds) = chunk_sum cs + chunk_sum ds"
  "chunk_sum (rev cs) = chunk_sum cs"
  by (simp_all add: chunk_sum_def rev_map [symmetric])

text \<open>The documented contract of a ledger: the total is the active balance plus what is unlocking.\<close>

definition ledger_ok :: "staking_ledger \<Rightarrow> bool" where
  "ledger_ok l \<longleftrightarrow> sl_total l = sl_active l + chunk_sum (sl_unlocking l) \<and> sl_total l \<le> u128_max"

lemma new_ledger_ok [simp]: "n \<le> u128_max \<Longrightarrow> ledger_ok (new_staking_ledger x n)" "sl_unlocking (new_staking_ledger x n) = []"
  by (simp_all add: ledger_ok_def new_staking_ledger_def)

lemma bond_extra_ledger_effect:
  assumes "bond_extra_ledger n l = Inr l'" and "ledger_ok l"
  shows "ledger_ok l'" and "sl_unlocking l' = sl_unlocking l" and "sl_active l' = sl_active l + n"
  using assms unfolding bond_extra_ledger_def ledger_ok_def by (auto simp: add_u128_def ok_or_def split: if_splits)

lemma push_chunk_sum:
  assumes "chunk_sum cs + n \<le> u128_max"
  shows "chunk_sum (push_chunk n era cs) = chunk_sum cs + n"
proof (cases cs rule: rev_exhaust)
  case Nil
  then show ?thesis by (simp add: push_chunk_def)
next
  case (snoc ds d)
  with assms have "chunk_value d + n \<le> u128_max" by simp
  then show ?thesis by (simp add: push_chunk_def snoc)
qed

lemma unbond_ledger_effect:
  assumes "unbond_ledger n era l = Inr l'" and "ledger_ok l"
  shows "ledger_ok l'" and "chunk_sum (sl_unlocking l') = chunk_sum (sl_unlocking l) + n" and "sl_active l' + n = sl_active l"
proof -
  from assms(1) have l': "n \<le> sl_active l" "l' = l\<lparr>sl_unlocking := push_chunk n era (sl_unlocking l), sl_active := sl_active l - n\<rparr>"
    unfolding unbond_ledger_def by (auto simp: sub_u128_def ok_or_def split: if_splits)
  have sum: "chunk_sum (push_chunk n era (sl_unlocking l)) = chunk_sum (sl_unlocking l) + n"
    by (rule push_chunk_sum) (use l'(1) assms(2) in \<open>simp add: ledger_ok_def\<close>)
  show "ledger_ok l'" "chunk_sum (sl_unlocking l') = chunk_sum (sl_unlocking l) + n" "sl_active l' + n = sl_active l"
    using l' assms(2) sum by (simp_all add: ledger_ok_def)
qed

lemma consolidate_fold:
  "chunk_sum cs \<le> t \<Longrightarrow>
    fold (\<lambda>chunk total. if chunk_era chunk > e then total else saturating_sub total (chunk_value chunk)) cs t
      + chunk_sum cs = t + chunk_sum (filter (\<lambda>chunk. chunk_era chunk > e) cs)"
proof (induction cs arbitrary: t)
  case (Cons c cs)
  show ?case
  proof (cases "chunk_era c > e")
    case True
    then show ?thesis using Cons.IH [of t] Cons.prems by simp
  next
    case False
    have "chunk_sum cs \<le> t - chunk_value c" "chunk_value c \<le> t" using Cons.prems by simp_all
    then show ?thesis using Cons.IH [of "t - chunk_value c"] False by (simp add: saturating_sub_def)
  qed
qed simp

lemma consolidate_unlocked_effect:
  assumes "ledger_ok l"
  shows "ledger_ok (consolidate_unlocked e l)" and "sl_active (consolidate_unlocked e l) = sl_active l"
    and "sl_total l - sl_total (consolidate_unlocked e l) + chunk_sum (sl_unlocking (consolidate_unlocked e l)) = chunk_sum (sl_unlocking l)"
    and "sl_total (consolidate_unlocked e l) \<le> sl_total l"
proof -
  let ?l = "consolidate_unlocked e l"
  have eq: "sl_total ?l + chunk_sum (sl_unlocking l) = sl_total l + chunk_sum (sl_unlocking ?l)"
    using consolidate_fold [of "sl_unlocking l" "sl_total l" e] assms by (simp add: consolidate_unlocked_def ledger_ok_def)
  have le: "chunk_sum (filter P cs) \<le> chunk_sum cs" for P cs by (induction cs) auto
  have le': "chunk_sum (sl_unlocking ?l) \<le> chunk_sum (sl_unlocking l)" by (simp add: consolidate_unlocked_def le)
  show act: "sl_active ?l = sl_active l" by (simp add: consolidate_unlocked_def)
  show "ledger_ok ?l" "sl_total l - sl_total ?l + chunk_sum (sl_unlocking ?l) = chunk_sum (sl_unlocking l)" "sl_total ?l \<le> sl_total l"
    using eq le' assms act by (auto simp: ledger_ok_def)
qed

lemma rebond_loop_effect:
  assumes "rebond_loop n cs b a = (Inr (a', cs') :: 'm dispatch_error + balance \<times> unlock_chunk list)" and "b \<le> n"
  shows "a' + chunk_sum cs' = a + chunk_sum cs \<and> chunk_sum cs \<le> chunk_sum cs' + (n - b)"
  using assms
proof (induction cs arbitrary: b a)
  case (Cons c cs)
  define b1 where "b1 = b + chunk_value c"
  show ?case
  proof (cases "b1 < n")
    case True
    with Cons.prems(1) have loop: "rebond_loop n cs b1 (a + chunk_value c) = (Inr (a', cs') :: 'm dispatch_error + balance \<times> unlock_chunk list)"
      by (auto simp: b1_def add_u128_def ok_or_def split: if_splits)
    from Cons.IH [OF loop] True show ?thesis unfolding b1_def chunk_sum_simps by (intro conjI) linarith+
  next
    case False
    with Cons.prems show ?thesis by (auto simp: b1_def add_u128_def sub_u128_def ok_or_def split: if_splits)
  qed
qed simp

lemma rebond_ledger_effect:
  assumes "rebond_ledger n l = (Inr l' :: 'm dispatch_error + staking_ledger)" and "ledger_ok l"
  shows "ledger_ok l'" and "chunk_sum (sl_unlocking l) \<le> chunk_sum (sl_unlocking l') + n" and "sl_total l' = sl_total l"
proof -
  from assms(1) obtain a cs where loop: "rebond_loop n (rev (sl_unlocking l)) 0 (sl_active l) = (Inr (a, cs) :: 'm dispatch_error + balance \<times> unlock_chunk list)"
      and l': "l' = l\<lparr>sl_active := a, sl_unlocking := rev cs\<rparr>"
    unfolding rebond_ledger_def by (elim resultE) auto
  show "ledger_ok l'" "chunk_sum (sl_unlocking l) \<le> chunk_sum (sl_unlocking l') + n" "sl_total l' = sl_total l"
    using rebond_loop_effect [OF loop] assms(2) by (simp_all add: l' ledger_ok_def)
qed

end
