(* ===== verification/Staking_Distribution.thy ===== *)
theory Staking_Distribution
  imports Parallel_Prelude
begin

text \<open>
  How an amount is split over the relay-chain accounts of the liquid-staking pallet
  (src/pallets/liquid-staking/src/distribution.rs): the interface \<open>DistributionStrategy\<close> and its two implementations.
  \<open>sort_by\<close> of Rust is stable, as \<open>sort_key\<close> is; a descending order is the reverse of sorting the reversed list.
\<close>

record distribution_strategy =
  bond_distributions :: "(nat \<times> balance \<times> balance) list \<Rightarrow> balance \<Rightarrow> balance \<Rightarrow> balance \<Rightarrow> (nat \<times> balance) list"
  unbond_distributions :: "(nat \<times> balance) list \<Rightarrow> balance \<Rightarrow> balance \<Rightarrow> (nat \<times> balance) list"
  rebond_distributions :: "(nat \<times> balance) list \<Rightarrow> balance \<Rightarrow> (nat \<times> balance) list"

definition sat_add :: "nat \<Rightarrow> nat \<Rightarrow> nat" where
  "sat_add a b = min (a + b) u128_max"

definition sort_descending :: "('a \<Rightarrow> nat) \<Rightarrow> 'a list \<Rightarrow> 'a list" where
  "sort_descending f xs = rev (sort_key f (rev xs))"

section \<open>AverageDistribution\<close>

definition average_bond :: "(nat \<times> balance \<times> balance) list \<Rightarrow> balance \<Rightarrow> balance \<Rightarrow> balance \<Rightarrow> (nat \<times> balance) list" where
  "average_bond bonded_amounts input cap min_nominator_bond =
     (if length bonded_amounts = 0 then []
      else
        let amount = input div length bonded_amounts in
        List.map_filter (\<lambda>(index, active_bonded, total_bonded).
            if sat_add amount active_bonded < min_nominator_bond then None
            else
              let amount = min (saturating_sub cap total_bonded) amount in
              if amount = 0 then None else Some (index, amount))
          bonded_amounts)"

definition average_unbond :: "(nat \<times> balance) list \<Rightarrow> balance \<Rightarrow> balance \<Rightarrow> (nat \<times> balance) list" where
  "average_unbond active_bonded_amounts input min_nominator_bond =
     (if length active_bonded_amounts = 0 then []
      else
        let amount = input div length active_bonded_amounts in
        List.map_filter (\<lambda>(index, bonded).
            if saturating_sub bonded amount < min_nominator_bond then None
            else if amount = 0 then None else Some (index, amount))
          active_bonded_amounts)"

fun average_rebond_loop :: "balance \<Rightarrow> (nat \<times> balance) list \<Rightarrow> (nat \<times> balance) list" where
  "average_rebond_loop amount [] = []"
| "average_rebond_loop amount ((index, unbonding) # rest) =
     (let amount = min amount unbonding in
      if amount = 0 then average_rebond_loop amount rest
      else (index, amount) # average_rebond_loop amount rest)"

definition average_rebond :: "(nat \<times> balance) list \<Rightarrow> balance \<Rightarrow> (nat \<times> balance) list" where
  "average_rebond unbonding_amounts input =
     (if length unbonding_amounts = 0 then []
      else average_rebond_loop (input div length unbonding_amounts) unbonding_amounts)"

definition AverageDistribution :: distribution_strategy where
  "AverageDistribution = \<lparr>bond_distributions = average_bond, unbond_distributions = average_unbond,
     rebond_distributions = average_rebond\<rparr>"

section \<open>MaxMinDistribution\<close>

fun max_min_bond_loop :: "balance \<Rightarrow> balance \<Rightarrow> balance \<Rightarrow> (nat \<times> balance \<times> balance) list \<Rightarrow> (nat \<times> balance) list" where
  "max_min_bond_loop cap min_nominator_bond remain [] = []"
| "max_min_bond_loop cap min_nominator_bond remain ((index, active_bonded, total_bonded) # rest) =
     (if remain = 0 then []
      else
        let amount = min (saturating_sub cap total_bonded) remain in
        if amount = 0 then []
        else if sat_add amount active_bonded < min_nominator_bond then max_min_bond_loop cap min_nominator_bond remain rest
        else (index, amount) # max_min_bond_loop cap min_nominator_bond (saturating_sub remain amount) rest)"

definition max_min_bond :: "(nat \<times> balance \<times> balance) list \<Rightarrow> balance \<Rightarrow> balance \<Rightarrow> balance \<Rightarrow> (nat \<times> balance) list" where
  "max_min_bond bonded_amounts input cap min_nominator_bond =
     max_min_bond_loop cap min_nominator_bond input (sort_key (\<lambda>(index, active_bonded, total_bonded). active_bonded) bonded_amounts)"

fun max_min_unbond_loop :: "balance \<Rightarrow> balance \<Rightarrow> (nat \<times> balance) list \<Rightarrow> (nat \<times> balance) list" where
  "max_min_unbond_loop min_nominator_bond remain [] = []"
| "max_min_unbond_loop min_nominator_bond remain ((index, bonded) # rest) =
     (if remain = 0 then []
      else
        let amount = min remain (saturating_sub bonded min_nominator_bond) in
        if amount = 0 then max_min_unbond_loop min_nominator_bond remain rest
        else (index, amount) # max_min_unbond_loop min_nominator_bond (saturating_sub remain amount) rest)"

definition max_min_unbond :: "(nat \<times> balance) list \<Rightarrow> balance \<Rightarrow> balance \<Rightarrow> (nat \<times> balance) list" where
  "max_min_unbond active_bonded_amounts input min_nominator_bond =
     max_min_unbond_loop min_nominator_bond input (sort_descending snd active_bonded_amounts)"

fun max_min_rebond_loop :: "balance \<Rightarrow> (nat \<times> balance) list \<Rightarrow> (nat \<times> balance) list" where
  "max_min_rebond_loop remain [] = []"
| "max_min_rebond_loop remain ((index, unbonding) # rest) =
     (if remain = 0 then []
      else
        let amount = min remain unbonding in
        if amount = 0 then max_min_rebond_loop remain rest
        else (index, amount) # max_min_rebond_loop (saturating_sub remain amount) rest)"

definition max_min_rebond :: "(nat \<times> balance) list \<Rightarrow> balance \<Rightarrow> (nat \<times> balance) list" where
  "max_min_rebond unbonding_amounts input = max_min_rebond_loop input (sort_descending snd unbonding_amounts)"

definition MaxMinDistribution :: distribution_strategy where
  "MaxMinDistribution = \<lparr>bond_distributions = max_min_bond, unbond_distributions = max_min_unbond,
     rebond_distributions = max_min_rebond\<rparr>"

section \<open>The contract\<close>

text \<open>
  What the pallet relies on: nothing more than the input is distributed, every part goes to one of the given accounts and
  is not zero, an account stays below its cap and keeps the minimum bond when it unbonds, and no more is bonded again
  than is unbonding.  That an account reaches the minimum bond when it bonds is promised by \<open>MaxMinDistribution\<close> only:
  \<open>AverageDistribution\<close> compares with the minimum before it applies the cap.
\<close>

definition parts_total :: "(nat \<times> balance) list \<Rightarrow> balance" where
  "parts_total ds = sum_list (map snd ds)"

lemma parts_total_simps [simp]: "parts_total [] = 0" "parts_total (d # ds) = snd d + parts_total ds"
  by (simp_all add: parts_total_def)

definition bond_part_ok :: "(nat \<times> balance \<times> balance) list \<Rightarrow> balance \<Rightarrow> balance \<Rightarrow> nat \<times> balance \<Rightarrow> bool" where
  "bond_part_ok given cap least d \<longleftrightarrow> snd d \<noteq> 0 \<and>
     (\<exists>active bonded. (fst d, active, bonded) \<in> set given \<and> bonded + snd d \<le> cap \<and> least \<le> snd d + active)"

definition unbond_part_ok :: "(nat \<times> balance) list \<Rightarrow> balance \<Rightarrow> nat \<times> balance \<Rightarrow> bool" where
  "unbond_part_ok given least d \<longleftrightarrow> snd d \<noteq> 0 \<and> (\<exists>active. (fst d, active) \<in> set given \<and> least + snd d \<le> active)"

definition rebond_part_ok :: "(nat \<times> balance) list \<Rightarrow> nat \<times> balance \<Rightarrow> bool" where
  "rebond_part_ok given d \<longleftrightarrow> snd d \<noteq> 0 \<and> (\<exists>unbonding. (fst d, unbonding) \<in> set given \<and> snd d \<le> unbonding)"

locale distribution =
  fixes S :: distribution_strategy
  assumes bond_total: "parts_total (bond_distributions S bs n cap least) \<le> n"
    and bond_parts: "d \<in> set (bond_distributions S bs n cap least) \<Longrightarrow> bond_part_ok bs cap 0 d"
    and unbond_total: "parts_total (unbond_distributions S us n least) \<le> n"
    and unbond_parts: "0 < least \<Longrightarrow> d \<in> set (unbond_distributions S us n least) \<Longrightarrow> unbond_part_ok us least d"
    and rebond_total: "parts_total (rebond_distributions S us n) \<le> n"
    and rebond_parts: "d \<in> set (rebond_distributions S us n) \<Longrightarrow> rebond_part_ok us d"

locale distribution_with_minimum = distribution +
  assumes bond_minimum: "d \<in> set (bond_distributions S bs n cap least) \<Longrightarrow> bond_part_ok bs cap least d"

lemma set_sort_descending [simp]: "set (sort_descending f xs) = set xs"
  by (simp add: sort_descending_def)

lemma part_ok_mono:
  "bond_part_ok bs cap least d \<Longrightarrow> set bs \<subseteq> set bs' \<Longrightarrow> bond_part_ok bs' cap least d"
  "unbond_part_ok us least d \<Longrightarrow> set us \<subseteq> set us' \<Longrightarrow> unbond_part_ok us' least d"
  "rebond_part_ok us d \<Longrightarrow> set us \<subseteq> set us' \<Longrightarrow> rebond_part_ok us' d"
  unfolding bond_part_ok_def unbond_part_ok_def rebond_part_ok_def by blast+

lemma bond_part_okI:
  assumes "(i, a, t) \<in> set given" and "k \<noteq> 0" and "k \<le> saturating_sub cap t" and "\<not> sat_add k a < least"
  shows "bond_part_ok given cap least (i, k)"
proof -
  have "t + k \<le> cap" "least \<le> k + a" using assms(2-4) by (auto simp: saturating_sub_def sat_add_def split: if_splits)
  with assms(1,2) show ?thesis unfolding bond_part_ok_def fst_conv snd_conv by blast
qed

lemma max_min_bond_loop_ok:
  "parts_total (max_min_bond_loop cap least n bs) \<le> n \<and> (\<forall>d\<in>set (max_min_bond_loop cap least n bs). bond_part_ok bs cap least d)"
proof (induction bs arbitrary: n)
  case (Cons b bs)
  obtain i a t where b: "b = (i, a, t)" by (cases b)
  define k where "k = min (saturating_sub cap t) n"
  have mono: "bond_part_ok bs cap least d \<Longrightarrow> bond_part_ok (b # bs) cap least d" for d by (erule part_ok_mono(1)) auto
  show ?case
  proof (cases "n = 0 \<or> k = 0 \<or> sat_add k a < least")
    case True
    then show ?thesis using Cons.IH [of n] mono by (auto simp: b k_def Let_def)
  next
    case False
    then have "bond_part_ok (b # bs) cap least (i, k)"
      by (intro bond_part_okI [of i a t]) (simp_all add: b k_def)
    moreover have "k \<le> n" by (simp add: k_def)
    moreover have "max_min_bond_loop cap least n (b # bs) = (i, k) # max_min_bond_loop cap least (n - k) bs"
      using False \<open>k \<le> n\<close> unfolding k_def by (simp add: b Let_def saturating_sub_def)
    ultimately show ?thesis using Cons.IH [of "n - k"] mono by auto
  qed
qed simp

lemma max_min_unbond_loop_ok:
  "parts_total (max_min_unbond_loop least n us) \<le> n \<and> (\<forall>d\<in>set (max_min_unbond_loop least n us). unbond_part_ok us least d)"
proof (induction us arbitrary: n)
  case (Cons u us)
  obtain i a where u: "u = (i, a)" by (cases u)
  define k where "k = min n (saturating_sub a least)"
  have mono: "unbond_part_ok us least d \<Longrightarrow> unbond_part_ok (u # us) least d" for d by (erule part_ok_mono(2)) auto
  show ?case
  proof (cases "n = 0 \<or> k = 0")
    case True
    then show ?thesis using Cons.IH [of n] mono by (auto simp: u k_def Let_def)
  next
    case False
    then have "unbond_part_ok (u # us) least (i, k)"
      unfolding unbond_part_ok_def by (auto simp: u k_def saturating_sub_def min_def split: if_splits)
    moreover have "k \<le> n" by (simp add: k_def)
    moreover have "max_min_unbond_loop least n (u # us) = (i, k) # max_min_unbond_loop least (n - k) us"
      using False \<open>k \<le> n\<close> unfolding k_def by (simp add: u Let_def saturating_sub_def)
    ultimately show ?thesis using Cons.IH [of "n - k"] mono by auto
  qed
qed simp

lemma max_min_rebond_loop_ok:
  "parts_total (max_min_rebond_loop n us) \<le> n \<and> (\<forall>d\<in>set (max_min_rebond_loop n us). rebond_part_ok us d)"
proof (induction us arbitrary: n)
  case (Cons u us)
  obtain i a where u: "u = (i, a)" by (cases u)
  have mono: "rebond_part_ok us d \<Longrightarrow> rebond_part_ok (u # us) d" for d by (erule part_ok_mono(3)) auto
  show ?case
  proof (cases "n = 0 \<or> a = 0")
    case True
    then show ?thesis using Cons.IH [of n] mono by (auto simp: u)
  next
    case False
    then have "rebond_part_ok (u # us) (i, min n a)" unfolding rebond_part_ok_def by (auto simp: u min_def)
    moreover have "max_min_rebond_loop n (u # us) = (i, min n a) # max_min_rebond_loop (n - min n a) us"
      using False by (simp add: u Let_def saturating_sub_def min_def)
    ultimately show ?thesis using Cons.IH [of "n - min n a"] mono by auto
  qed
qed simp

lemma bond_part_ok_zero: "bond_part_ok bs cap least d \<Longrightarrow> bond_part_ok bs cap 0 d"
  unfolding bond_part_ok_def by blast

lemma max_min_bond_parts:
  assumes "d \<in> set (bond_distributions MaxMinDistribution bs n cap least)"
  shows "bond_part_ok bs cap least d"
  using assms max_min_bond_loop_ok [of cap least n "sort_key (\<lambda>(index, active_bonded, total_bonded). active_bonded) bs"]
  by (auto simp: MaxMinDistribution_def max_min_bond_def intro: part_ok_mono(1))

lemma max_min_unbond_parts:
  assumes "d \<in> set (unbond_distributions MaxMinDistribution us n least)"
  shows "unbond_part_ok us least d"
  using assms max_min_unbond_loop_ok [of least n "sort_descending snd us"]
  by (auto simp: MaxMinDistribution_def max_min_unbond_def intro: part_ok_mono(2))

interpretation max_min: distribution_with_minimum MaxMinDistribution
proof (unfold_locales, goal_cases)
  case (1 bs n cap least)
  then show ?case by (simp add: MaxMinDistribution_def max_min_bond_def max_min_bond_loop_ok)
next
  case (2 d bs n cap least)
  then show ?case by (rule bond_part_ok_zero [OF max_min_bond_parts])
next
  case (3 us n least)
  then show ?case by (simp add: MaxMinDistribution_def max_min_unbond_def max_min_unbond_loop_ok)
next
  case (4 least d us n)
  then show ?case by (intro max_min_unbond_parts)
next
  case (5 us n)
  then show ?case by (simp add: MaxMinDistribution_def max_min_rebond_def max_min_rebond_loop_ok)
next
  case (6 d us n)
  then show ?case using max_min_rebond_loop_ok [of n "sort_descending snd us"]
    by (auto simp: MaxMinDistribution_def max_min_rebond_def intro: part_ok_mono(3))
next
  case (7 d bs n cap least)
  then show ?case by (rule max_min_bond_parts)
qed

text \<open>Parts of at most the average add up to at most the input.\<close>

lemma parts_total_average:
  assumes "length ds \<le> k" and "\<forall>d\<in>set ds. snd d \<le> n div k"
  shows "parts_total ds \<le> n"
proof -
  have "parts_total ds \<le> length ds * (n div k)"
    using assms(2) unfolding parts_total_def by (induction ds) auto
  also have "\<dots> \<le> k * (n div k)" using assms(1) by (rule mult_le_mono1)
  also have "\<dots> \<le> n" by simp
  finally show ?thesis .
qed

lemma map_filter_length: "length (List.map_filter f xs) \<le> length xs"
  by (simp add: List.map_filter_def)

lemma map_filter_mem: "d \<in> set (List.map_filter f xs) \<longleftrightarrow> (\<exists>x\<in>set xs. f x = Some d)"
  by (auto simp: List.map_filter_def image_iff)

lemma average_rebond_loop_ok:
  "length (average_rebond_loop n us) \<le> length us \<and> (\<forall>d\<in>set (average_rebond_loop n us). snd d \<le> n \<and> rebond_part_ok us d)"
proof (induction us arbitrary: n)
  case (Cons u us)
  obtain i a where u: "u = (i, a)" by (cases u)
  have "rebond_part_ok us d \<Longrightarrow> rebond_part_ok (u # us) d" for d by (erule part_ok_mono(3)) auto
  with Cons.IH [of "min n a"] show ?case by (auto simp: u Let_def rebond_part_ok_def)
qed simp

interpretation average: distribution AverageDistribution
proof (unfold_locales, goal_cases)
  case (1 bs n cap least)
  then show ?case
    by (auto simp: AverageDistribution_def average_bond_def Let_def map_filter_mem split: if_splits
        intro!: parts_total_average [OF map_filter_length])
next
  case (2 d bs n cap least)
  then show ?case
    by (auto simp: AverageDistribution_def average_bond_def Let_def map_filter_mem saturating_sub_def split: if_splits intro!: bond_part_okI)
next
  case (3 us n least)
  then show ?case
    by (auto simp: AverageDistribution_def average_unbond_def Let_def map_filter_mem split: if_splits
        intro!: parts_total_average [OF map_filter_length])
next
  case (4 least d us n)
  then show ?case
    by (fastforce simp: AverageDistribution_def average_unbond_def Let_def map_filter_mem unbond_part_ok_def saturating_sub_def
        not_less split: if_splits)
next
  case (5 us n)
  then show ?case using average_rebond_loop_ok [of "n div length us" us]
    by (auto simp: AverageDistribution_def average_rebond_def intro: parts_total_average)
next
  case (6 d us n)
  then show ?case using average_rebond_loop_ok [of "n div length us" us]
    by (auto simp: AverageDistribution_def average_rebond_def split: if_splits)
qed

end
