(* ===== verification/Liquid_Staking.thy ===== *)
theory Liquid_Staking
  imports Staking_Ledgers Staking_Distribution Sp_Arith Xcm_Helper
begin

text \<open>
  The liquid-staking pallet (src/pallets/liquid-staking/src/lib.rs).

  Users stake the relay currency and get a liquid token at the exchange rate.  Per era the pallet nets stakes against
  unstakes and bonds, rebonds or unbonds the difference on the relay chain, split over several accounts.  Messages go through
  the XCM helper; a reply updates the pallet's copy of the relay-chain ledger, and anybody may replace a copy by a ledger
  that is proved against the storage root of the relay chain.  Unstaked funds are claimed after the bonding period, or at
  once through a loan or against new stakes.

  As in \<open>Crowdloans\<close>, the pallets behind \<open>T::Assets\<close>, \<open>T::XCM\<close> and \<open>T::Loans\<close> share one state \<open>'w\<close>.  The trie that
  verifies proofs, the encodings of the proved values, their keys and the derived accounts are outside of the repository and
  are fields of the configuration.
\<close>

section \<open>Data\<close>

record liquid_arith = sp_arith +
  fx_saturating_mul_int :: "nat \<Rightarrow> nat \<Rightarrow> nat"

definition liquid_arith_laws :: "liquid_arith \<Rightarrow> bool" where
  "liquid_arith_laws A \<longleftrightarrow> sp_arith_laws (sp_arith.truncate A) \<and> (\<forall>a n. fx_saturating_mul_int A a n = min (a * n div FX) u128_max)"

datatype staking_request =
    RequestBond derivative_index balance
  | RequestBondExtra derivative_index balance
  | RequestUnbond derivative_index balance
  | RequestRebond derivative_index balance
  | RequestWithdrawUnbonded derivative_index nat
  | RequestNominate derivative_index "account_id list"

datatype liquid_error =
    InvalidExchangeRate | StakeTooSmall | UnstakeTooSmall | InvalidLiquidCurrency | InvalidStakingCurrency
  | InvalidDerivativeIndex | InvalidStakingLedger | LiquidCapExceeded | InvalidStakingCap | InvalidFactor | NothingToClaim
  | NotBonded | AlreadyBonded | NoMoreChunks | StakingLedgerLocked | NotWithdrawn | InsufficientBond | InvalidProof
  | NoUnlockings | InvalidCommissionRate

type_synonym liquid_dispatch_error = "liquid_error dispatch_error"

datatype staking_response = StakingExecutionResult "(nat \<times> nat) option" | OtherStakingResponse

datatype liquid_event =
    StakedEvent account_id balance
  | UnstakedEvent account_id balance balance
  | StakingLedgerUpdated derivative_index staking_ledger
  | Bonding derivative_index account_id balance reward_destination
  | BondingExtra derivative_index balance
  | Unbonding derivative_index balance
  | Rebonding derivative_index balance
  | WithdrawingUnbonded derivative_index nat
  | Nominating derivative_index "account_id list"
  | StakingLedgerCapUpdated balance
  | ReserveFactorUpdated ratio
  | ExchangeRateUpdated rate
  | StakingNotificationReceived multi_location query_id "(nat \<times> nat) option"
  | ClaimedFor account_id balance
  | NewEra era_index
  | Matching balance balance balance
  | ReservesReduced account_id balance
  | UnstakeCancelled account_id balance balance
  | CommissionRateUpdated rate
  | FastUnstakeMatched account_id balance balance balance
  | IncentiveUpdated balance
  | NonIdealStakingLedger derivative_index

record 'w liquid_state =
  ls_exchange_rate :: rate
  commission_rate :: rate
  validation_data :: "nat option"
  ls_reserve_factor :: ratio
  ls_total_reserves :: balance
  matching_pool :: matching_ledger
  staking_ledger_cap :: balance
  staking_requests :: "query_id \<rightharpoonup> staking_request"
  fast_unstake_requests :: "account_id \<rightharpoonup> balance"
  current_era :: era_index
  era_start_block :: block_number
  unlockings :: "account_id \<rightharpoonup> unlock_chunk list"
  staking_ledgers :: "derivative_index \<rightharpoonup> staking_ledger"
  is_updated :: "derivative_index \<Rightarrow> bool"
  is_matched :: bool
  incentive :: balance
  ls_world :: 'w
  ls_events :: "liquid_event list"

record 'w liquid_config =
  lk_assets :: "(nat, 'w) fungibles"
  lk_add_xcm_fees :: "'w \<Rightarrow> account_id \<Rightarrow> balance \<Rightarrow> nat + 'w"
  lk_xcm_bond :: "'w \<Rightarrow> balance \<Rightarrow> reward_destination \<Rightarrow> account_id \<Rightarrow> derivative_index \<Rightarrow> notify_call \<Rightarrow> nat + query_id \<times> 'w"
  lk_xcm_bond_extra :: "'w \<Rightarrow> balance \<Rightarrow> account_id \<Rightarrow> derivative_index \<Rightarrow> notify_call \<Rightarrow> nat + query_id \<times> 'w"
  lk_xcm_unbond :: "'w \<Rightarrow> balance \<Rightarrow> derivative_index \<Rightarrow> notify_call \<Rightarrow> nat + query_id \<times> 'w"
  lk_xcm_rebond :: "'w \<Rightarrow> balance \<Rightarrow> derivative_index \<Rightarrow> notify_call \<Rightarrow> nat + query_id \<times> 'w"
  lk_xcm_withdraw_unbonded :: "'w \<Rightarrow> nat \<Rightarrow> account_id \<Rightarrow> derivative_index \<Rightarrow> notify_call \<Rightarrow> nat + query_id \<times> 'w"
  lk_xcm_nominate :: "'w \<Rightarrow> account_id list \<Rightarrow> derivative_index \<Rightarrow> notify_call \<Rightarrow> nat + query_id \<times> 'w"
  lk_loans_mint :: "'w \<Rightarrow> account_id \<Rightarrow> currency_id \<Rightarrow> balance \<Rightarrow> nat + 'w"
  lk_loans_collateral :: "'w \<Rightarrow> account_id \<Rightarrow> currency_id \<Rightarrow> bool \<Rightarrow> nat + 'w"
  lk_loans_borrow :: "'w \<Rightarrow> account_id \<Rightarrow> currency_id \<Rightarrow> balance \<Rightarrow> nat + 'w"
  lk_loans_repay :: "'w \<Rightarrow> account_id \<Rightarrow> currency_id \<Rightarrow> balance \<Rightarrow> nat + 'w"
  lk_loans_redeem :: "'w \<Rightarrow> account_id \<Rightarrow> currency_id \<Rightarrow> balance \<Rightarrow> nat + 'w"
  lk_loans_borrow_balance :: "'w \<Rightarrow> account_id \<Rightarrow> currency_id \<Rightarrow> nat + balance \<times> 'w"
  lk_loans_collateral_factor :: "'w \<Rightarrow> currency_id \<Rightarrow> nat + ratio"
  lk_arith :: liquid_arith
  lk_distribution :: distribution_strategy
  lk_relay_origin :: "origin \<Rightarrow> bool"
  lk_update_origin :: "origin \<Rightarrow> bool"
  lk_members :: "account_id list"
  lk_response_origin :: "origin \<Rightarrow> multi_location option"
  lk_lookup :: "nat \<Rightarrow> account_id option"
  lk_decimal :: "currency_id \<Rightarrow> nat option"
  lk_pallet_account :: account_id
  lk_loans_account :: account_id
  lk_sovereign_account :: account_id
  lk_derivative_account :: "derivative_index \<Rightarrow> account_id"
  lk_derivative_indexes :: "derivative_index list"
  lk_xcm_fees :: balance
  lk_loans_instant_unstake_fee :: rate
  lk_fast_unstake_fee :: rate
  lk_staking_currency :: currency_id
  lk_liquid_currency :: currency_id
  lk_collateral_currency :: currency_id
  lk_native_currency :: currency_id
  lk_min_stake :: balance
  lk_min_unstake :: balance
  lk_bonding_duration :: era_index
  lk_min_nominator_bond :: balance
  lk_era_length :: block_number
  lk_num_slashing_spans :: nat
  lk_election_offset :: block_number
  lk_protocol_fee_receiver :: account_id
  lk_relay_block :: block_number
  lk_validation_data :: "nat option"
  lk_read_trie :: "nat \<Rightarrow> bytes \<Rightarrow> bytes list \<Rightarrow> bytes option"
  lk_encode_era :: "era_index \<Rightarrow> bytes"
  lk_encode_ledger :: "staking_ledger \<Rightarrow> bytes"
  lk_era_key :: bytes
  lk_ledger_key :: "account_id \<Rightarrow> bytes"
  lk_ledger_keys :: "derivative_index list"
  lk_query_keys :: "query_id list"

definition max_unlocking_chunks :: nat where
  "max_unlocking_chunks = 32"

definition ls_deposit_event :: "liquid_event \<Rightarrow> 'w liquid_state \<Rightarrow> 'w liquid_state" where
  "ls_deposit_event e s = s\<lparr>ls_events := ls_events s @ [e]\<rparr>"

definition add_u32 :: "nat \<Rightarrow> nat \<Rightarrow> 'm dispatch_error + nat" where
  "add_u32 a b = bindE (ensure (a + b \<le> u32_max) Panic) (\<lambda>_. Inr (a + b))"

definition ls_transfer ::
    "'w liquid_config \<Rightarrow> 'w liquid_state \<Rightarrow> currency_id \<Rightarrow> account_id \<Rightarrow> account_id \<Rightarrow> balance \<Rightarrow> liquid_dispatch_error + 'w liquid_state" where
  "ls_transfer C s a x y n =
     bindE (map_err External (ft_transfer (lk_assets C) (ls_world s) a x y n False)) (\<lambda>w. Inr (s\<lparr>ls_world := w\<rparr>))"

definition ls_mint_into ::
    "'w liquid_config \<Rightarrow> 'w liquid_state \<Rightarrow> currency_id \<Rightarrow> account_id \<Rightarrow> balance \<Rightarrow> liquid_dispatch_error + 'w liquid_state" where
  "ls_mint_into C s a x n =
     bindE (map_err External (ft_mint_into (lk_assets C) (ls_world s) a x n)) (\<lambda>w. Inr (s\<lparr>ls_world := w\<rparr>))"

definition ls_burn_from ::
    "'w liquid_config \<Rightarrow> 'w liquid_state \<Rightarrow> currency_id \<Rightarrow> account_id \<Rightarrow> balance \<Rightarrow> liquid_dispatch_error + 'w liquid_state" where
  "ls_burn_from C s a x n =
     bindE (map_err External (ft_burn_from (lk_assets C) (ls_world s) a x n)) (\<lambda>w. Inr (s\<lparr>ls_world := w\<rparr>))"

text \<open>An operation of another pallet on the shared state, with its error, and one whose error is dropped.\<close>

definition ls_call :: "'w liquid_state \<Rightarrow> (nat + 'w) \<Rightarrow> liquid_dispatch_error + 'w liquid_state" where
  "ls_call s m = bindE (map_err External m) (\<lambda>w. Inr (s\<lparr>ls_world := w\<rparr>))"

definition ls_try :: "'w liquid_state \<Rightarrow> (nat + 'w) \<Rightarrow> 'w liquid_state" where
  "ls_try s m = (case m of Inl _ \<Rightarrow> s | Inr w \<Rightarrow> s\<lparr>ls_world := w\<rparr>)"

definition mutate_pool ::
    "(matching_ledger \<Rightarrow> liquid_dispatch_error + matching_ledger) \<Rightarrow> 'w liquid_state \<Rightarrow> liquid_dispatch_error + 'w liquid_state" where
  "mutate_pool f s = bindE (f (matching_pool s)) (\<lambda>p. Inr (s\<lparr>matching_pool := p\<rparr>))"

section \<open>Accounts, currencies and totals\<close>

definition ls_account_id :: "'w liquid_config \<Rightarrow> account_id" where
  "ls_account_id C = lk_pallet_account C"

definition loans_account_id :: "'w liquid_config \<Rightarrow> account_id" where
  "loans_account_id C = lk_loans_account C"

definition sovereign_account_id :: "'w liquid_config \<Rightarrow> account_id" where
  "sovereign_account_id C = lk_sovereign_account C"

definition derivative_sovereign_account_id :: "'w liquid_config \<Rightarrow> derivative_index \<Rightarrow> account_id" where
  "derivative_sovereign_account_id C index = lk_derivative_account C index"

definition target_era :: "'w liquid_config \<Rightarrow> 'w liquid_state \<Rightarrow> liquid_dispatch_error + era_index" where
  "target_era C s = bindE (add_u32 (current_era s) (lk_bonding_duration C)) (\<lambda>e. add_u32 e 1)"

definition get_staking_currency :: "'w liquid_config \<Rightarrow> currency_id option" where
  "get_staking_currency C =
     (let asset_id = lk_staking_currency C in if lk_decimal C asset_id \<noteq> None then Some asset_id else None)"

definition get_liquid_currency :: "'w liquid_config \<Rightarrow> currency_id option" where
  "get_liquid_currency C =
     (let asset_id = lk_liquid_currency C in if lk_decimal C asset_id \<noteq> None then Some asset_id else None)"

definition staking_currency :: "'w liquid_config \<Rightarrow> liquid_dispatch_error + currency_id" where
  "staking_currency C = ok_or (get_staking_currency C) (Module InvalidStakingCurrency)"

definition liquid_currency :: "'w liquid_config \<Rightarrow> liquid_dispatch_error + currency_id" where
  "liquid_currency C = ok_or (get_liquid_currency C) (Module InvalidLiquidCurrency)"

definition get_total_unclaimed :: "'w liquid_config \<Rightarrow> 'w liquid_state \<Rightarrow> currency_id \<Rightarrow> balance" where
  "get_total_unclaimed C s a =
     saturating_sub (saturating_sub (ft_reducible_balance (lk_assets C) (ls_world s) a (ls_account_id C) False) (ls_total_reserves s))
       (ra_total (total_stake_amount (matching_pool s)))"

definition era_offset :: "'w liquid_config \<Rightarrow> 'w liquid_state \<Rightarrow> block_number \<Rightarrow> era_index" where
  "era_offset C s relaychain_block_number =
     (case Option.bind (checked_sub relaychain_block_number (era_start_block s)) (\<lambda>r. checked_div r (lk_era_length C)) of
        None \<Rightarrow> 0 | Some e \<Rightarrow> if e \<le> u32_max then e else 0)"

definition total_bonded_of :: "'w liquid_state \<Rightarrow> derivative_index \<Rightarrow> balance" where
  "total_bonded_of s index = (case staking_ledgers s index of None \<Rightarrow> 0 | Some l \<Rightarrow> sl_total l)"

definition active_bonded_of :: "'w liquid_state \<Rightarrow> derivative_index \<Rightarrow> balance" where
  "active_bonded_of s index = (case staking_ledgers s index of None \<Rightarrow> 0 | Some l \<Rightarrow> sl_active l)"

definition unbonding_of :: "'w liquid_state \<Rightarrow> derivative_index \<Rightarrow> balance" where
  "unbonding_of s index = (case staking_ledgers s index of None \<Rightarrow> 0 | Some l \<Rightarrow> saturating_sub (sl_total l) (sl_active l))"

definition unbonded_of :: "'w liquid_state \<Rightarrow> derivative_index \<Rightarrow> balance" where
  "unbonded_of s index = (case staking_ledgers s index of None \<Rightarrow> 0 | Some l \<Rightarrow>
     fold (\<lambda>chunk acc. if chunk_era chunk \<le> current_era s then sat_add acc (chunk_value chunk) else acc) (sl_unlocking l) 0)"

definition ledger_values :: "'w liquid_config \<Rightarrow> 'w liquid_state \<Rightarrow> staking_ledger list" where
  "ledger_values C s = map snd (storage_iter (lk_ledger_keys C) (staking_ledgers s))"

definition get_total_unbonding :: "'w liquid_config \<Rightarrow> 'w liquid_state \<Rightarrow> balance" where
  "get_total_unbonding C s = fold (\<lambda>l acc. sat_add acc (saturating_sub (sl_total l) (sl_active l))) (ledger_values C s) 0"

definition get_total_bonded :: "'w liquid_config \<Rightarrow> 'w liquid_state \<Rightarrow> balance" where
  "get_total_bonded C s = fold (\<lambda>l acc. sat_add acc (sl_total l)) (ledger_values C s) 0"

definition get_total_active_bonded :: "'w liquid_config \<Rightarrow> 'w liquid_state \<Rightarrow> balance" where
  "get_total_active_bonded C s = fold (\<lambda>l acc. sat_add acc (sl_active l)) (ledger_values C s) 0"

definition get_market_cap :: "'w liquid_config \<Rightarrow> 'w liquid_state \<Rightarrow> balance" where
  "get_market_cap C s = min (staking_ledger_cap s * length (lk_derivative_indexes C)) u128_max"

definition ensure_agent :: "'w liquid_config \<Rightarrow> origin \<Rightarrow> liquid_dispatch_error + unit" where
  "ensure_agent C o' =
     (if lk_relay_origin C o' then Inr ()
      else bindE (ensure_signed o') (\<lambda>who. if who \<notin> set (lk_members C) then Inl BadOrigin else Inr ()))"

definition ensure_market_cap :: "'w liquid_config \<Rightarrow> 'w liquid_state \<Rightarrow> balance \<Rightarrow> liquid_dispatch_error + unit" where
  "ensure_market_cap C s amount = ensure (sat_add (get_total_bonded C s) amount \<le> get_market_cap C s) (Module LiquidCapExceeded)"

definition ensure_staking_ledger_cap :: "'w liquid_state \<Rightarrow> derivative_index \<Rightarrow> balance \<Rightarrow> liquid_dispatch_error + unit" where
  "ensure_staking_ledger_cap s index amount = ensure (sat_add (total_bonded_of s index) amount \<le> staking_ledger_cap s) (Module LiquidCapExceeded)"

definition staking_notify_placeholder :: notify_call where
  "staking_notify_placeholder = ''notification_received''"

definition staking_to_liquid :: "'w liquid_config \<Rightarrow> 'w liquid_state \<Rightarrow> balance \<Rightarrow> balance option" where
  "staking_to_liquid C s amount = Option.bind (fx_reciprocal (lk_arith C) (ls_exchange_rate s)) (\<lambda>r. fx_checked_mul_int (lk_arith C) r amount)"

definition liquid_to_staking :: "'w liquid_config \<Rightarrow> 'w liquid_state \<Rightarrow> balance \<Rightarrow> balance option" where
  "liquid_to_staking C s liquid_amount = fx_checked_mul_int (lk_arith C) (ls_exchange_rate s) liquid_amount"

definition ls_get_exchange_rate :: "'w liquid_state \<Rightarrow> rate option" where
  "ls_get_exchange_rate s = Some (ls_exchange_rate s)"

section \<open>Messages to the relay chain\<close>

definition put_request :: "query_id \<Rightarrow> staking_request \<Rightarrow> 'w liquid_state \<Rightarrow> 'w liquid_state" where
  "put_request q r s = s\<lparr>staking_requests := (staking_requests s)(q \<mapsto> r)\<rparr>"

text \<open>A message through the helper: its identifier is remembered with the request.\<close>

definition send_request ::
    "'w liquid_state \<Rightarrow> (nat + query_id \<times> 'w) \<Rightarrow> staking_request \<Rightarrow> liquid_event \<Rightarrow> liquid_dispatch_error + 'w liquid_state" where
  "send_request s m request event =
     bindE (map_err External m) (\<lambda>(query_id, w).
     Inr (ls_deposit_event event (put_request query_id request (s\<lparr>ls_world := w\<rparr>))))"

definition ls_do_bond_extra ::
    "'w liquid_config \<Rightarrow> 'w liquid_state \<Rightarrow> derivative_index \<Rightarrow> balance \<Rightarrow> liquid_dispatch_error + 'w liquid_state" where
  "ls_do_bond_extra C s index amount =
     (if amount = 0 then Inr s
      else
        bindE (ensure (index \<in> set (lk_derivative_indexes C)) (Module InvalidDerivativeIndex)) (\<lambda>_.
        bindE (ensure (staking_ledgers s index \<noteq> None) (Module NotBonded)) (\<lambda>_.
        bindE (ensure_staking_ledger_cap s index amount) (\<lambda>_.
        bindE (mutate_pool (set_stake_amount_lock amount) s) (\<lambda>s.
        send_request s (lk_xcm_bond_extra C (ls_world s) amount (derivative_sovereign_account_id C index) index staking_notify_placeholder)
          (RequestBondExtra index amount) (BondingExtra index amount))))))"

definition ls_do_bond ::
    "'w liquid_config \<Rightarrow> 'w liquid_state \<Rightarrow> derivative_index \<Rightarrow> balance \<Rightarrow> reward_destination \<Rightarrow> liquid_dispatch_error + 'w liquid_state" where
  "ls_do_bond C s index amount payee =
     (if amount = 0 then Inr s
      else if staking_ledgers s index \<noteq> None then ls_do_bond_extra C s index amount
      else
        bindE (ensure (index \<in> set (lk_derivative_indexes C)) (Module InvalidDerivativeIndex)) (\<lambda>_.
        bindE (ensure (amount \<ge> lk_min_nominator_bond C) (Module InsufficientBond)) (\<lambda>_.
        bindE (ensure_staking_ledger_cap s index amount) (\<lambda>_.
        bindE (mutate_pool (set_stake_amount_lock amount) s) (\<lambda>s.
        let derivative_account_id = derivative_sovereign_account_id C index in
        send_request s (lk_xcm_bond C (ls_world s) amount payee derivative_account_id index staking_notify_placeholder)
          (RequestBond index amount) (Bonding index derivative_account_id amount payee))))))"

definition ls_do_unbond ::
    "'w liquid_config \<Rightarrow> 'w liquid_state \<Rightarrow> derivative_index \<Rightarrow> balance \<Rightarrow> liquid_dispatch_error + 'w liquid_state" where
  "ls_do_unbond C s index amount =
     (if amount = 0 then Inr s
      else
        bindE (ensure (index \<in> set (lk_derivative_indexes C)) (Module InvalidDerivativeIndex)) (\<lambda>_.
        bindE (ok_or (staking_ledgers s index) (Module NotBonded)) (\<lambda>l.
        bindE (ensure (length (sl_unlocking l) < max_unlocking_chunks) (Module NoMoreChunks)) (\<lambda>_.
        bindE (ensure (saturating_sub (sl_active l) amount \<ge> lk_min_nominator_bond C) (Module InsufficientBond)) (\<lambda>_.
        bindE (mutate_pool (set_unstake_amount_lock amount) s) (\<lambda>s.
        send_request s (lk_xcm_unbond C (ls_world s) amount index staking_notify_placeholder)
          (RequestUnbond index amount) (Unbonding index amount)))))))"

definition ls_do_rebond ::
    "'w liquid_config \<Rightarrow> 'w liquid_state \<Rightarrow> derivative_index \<Rightarrow> balance \<Rightarrow> liquid_dispatch_error + 'w liquid_state" where
  "ls_do_rebond C s index amount =
     (if amount = 0 then Inr s
      else
        bindE (ensure (index \<in> set (lk_derivative_indexes C)) (Module InvalidDerivativeIndex)) (\<lambda>_.
        bindE (ensure (staking_ledgers s index \<noteq> None) (Module NotBonded)) (\<lambda>_.
        bindE (mutate_pool (set_stake_amount_lock amount) s) (\<lambda>s.
        send_request s (lk_xcm_rebond C (ls_world s) amount index staking_notify_placeholder)
          (RequestRebond index amount) (Rebonding index amount)))))"

definition ls_do_withdraw_unbonded ::
    "'w liquid_config \<Rightarrow> 'w liquid_state \<Rightarrow> derivative_index \<Rightarrow> nat \<Rightarrow> liquid_dispatch_error + 'w liquid_state" where
  "ls_do_withdraw_unbonded C s index num_slashing_spans =
     (if unbonded_of s index = 0 then Inr s
      else
        bindE (ensure (index \<in> set (lk_derivative_indexes C)) (Module InvalidDerivativeIndex)) (\<lambda>_.
        bindE (ensure (staking_ledgers s index \<noteq> None) (Module NotBonded)) (\<lambda>_.
        send_request s (lk_xcm_withdraw_unbonded C (ls_world s) num_slashing_spans (sovereign_account_id C) index staking_notify_placeholder)
          (RequestWithdrawUnbonded index num_slashing_spans) (WithdrawingUnbonded index num_slashing_spans))))"

definition ls_do_nominate ::
    "'w liquid_config \<Rightarrow> 'w liquid_state \<Rightarrow> derivative_index \<Rightarrow> account_id list \<Rightarrow> liquid_dispatch_error + 'w liquid_state" where
  "ls_do_nominate C s index targets =
     bindE (ensure (index \<in> set (lk_derivative_indexes C)) (Module InvalidDerivativeIndex)) (\<lambda>_.
     bindE (ensure (staking_ledgers s index \<noteq> None) (Module NotBonded)) (\<lambda>_.
     send_request s (lk_xcm_nominate C (ls_world s) targets index staking_notify_placeholder)
       (RequestNominate index targets) (Nominating index targets)))"

definition do_multi_bond ::
    "'w liquid_config \<Rightarrow> balance \<Rightarrow> reward_destination \<Rightarrow> 'w liquid_state \<Rightarrow> liquid_dispatch_error + 'w liquid_state" where
  "do_multi_bond C total_amount payee s =
     (if total_amount = 0 then Inr s
      else
        let amounts = map (\<lambda>index. (index, active_bonded_of s index, total_bonded_of s index)) (lk_derivative_indexes C);
            distributions = bond_distributions (lk_distribution C) amounts total_amount (staking_ledger_cap s) (lk_min_nominator_bond C) in
        foldE (\<lambda>(index, amount) s. ls_do_bond C s index amount payee) distributions s)"

definition do_multi_unbond :: "'w liquid_config \<Rightarrow> balance \<Rightarrow> 'w liquid_state \<Rightarrow> liquid_dispatch_error + 'w liquid_state" where
  "do_multi_unbond C total_amount s =
     (if total_amount = 0 then Inr s
      else
        let amounts = map (\<lambda>index. (index, active_bonded_of s index)) (lk_derivative_indexes C);
            distributions = unbond_distributions (lk_distribution C) amounts total_amount (lk_min_nominator_bond C) in
        foldE (\<lambda>(index, amount) s. ls_do_unbond C s index amount) distributions s)"

definition do_multi_rebond :: "'w liquid_config \<Rightarrow> balance \<Rightarrow> 'w liquid_state \<Rightarrow> liquid_dispatch_error + 'w liquid_state" where
  "do_multi_rebond C total_amount s =
     (if total_amount = 0 then Inr s
      else
        let amounts = map (\<lambda>index. (index, unbonding_of s index)) (lk_derivative_indexes C);
            distributions = rebond_distributions (lk_distribution C) amounts total_amount in
        foldE (\<lambda>(index, amount) s. ls_do_rebond C s index amount) distributions s)"

definition do_multi_withdraw_unbonded :: "'w liquid_config \<Rightarrow> nat \<Rightarrow> 'w liquid_state \<Rightarrow> liquid_dispatch_error + 'w liquid_state" where
  "do_multi_withdraw_unbonded C num_slashing_spans s =
     foldE (\<lambda>index s. ls_do_withdraw_unbonded C s index num_slashing_spans)
       (map fst (storage_iter (lk_ledger_keys C) (staking_ledgers s))) s"

section \<open>Ledgers, replies and eras\<close>

definition do_update_ledger ::
    "derivative_index \<Rightarrow> (staking_ledger \<Rightarrow> 'w liquid_state \<Rightarrow> liquid_dispatch_error + staking_ledger \<times> 'w liquid_state)
     \<Rightarrow> 'w liquid_state \<Rightarrow> liquid_dispatch_error + 'w liquid_state" where
  "do_update_ledger index cb s =
     bindE (ok_or (staking_ledgers s index) (Module NotBonded)) (\<lambda>l.
     bindE (cb l s) (\<lambda>(l, s).
     Inr (ls_deposit_event (StakingLedgerUpdated index l)
       (s\<lparr>is_updated := (is_updated s)(index := True), staking_ledgers := (staking_ledgers s)(index \<mapsto> l)\<rparr>))))"

definition burn_staked :: "'w liquid_config \<Rightarrow> balance \<Rightarrow> 'w liquid_state \<Rightarrow> liquid_dispatch_error + 'w liquid_state" where
  "burn_staked C amount s =
     bindE (mutate_pool (consolidate_stake amount) s) (\<lambda>s.
     bindE (staking_currency C) (\<lambda>a. ls_burn_from C s a (ls_account_id C) amount))"

definition ls_do_notification_received ::
    "'w liquid_config \<Rightarrow> 'w liquid_state \<Rightarrow> query_id \<Rightarrow> staking_request \<Rightarrow> (nat \<times> nat) option \<Rightarrow> liquid_dispatch_error + 'w liquid_state" where
  "ls_do_notification_received C s query_id request res =
     (if res \<noteq> None then Inr s
      else
        bindE (case request of
            RequestBond index amount \<Rightarrow>
              bindE (ensure (staking_ledgers s index = None) (Module AlreadyBonded)) (\<lambda>_.
              burn_staked C amount (s\<lparr>staking_ledgers := (staking_ledgers s)(index \<mapsto>
                new_staking_ledger (derivative_sovereign_account_id C index) amount)\<rparr>))
          | RequestBondExtra index amount \<Rightarrow>
              bindE (do_update_ledger index (\<lambda>l s. bindE (bond_extra_ledger amount l) (\<lambda>l. Inr (l, s))) s) (burn_staked C amount)
          | RequestUnbond index amount \<Rightarrow>
              bindE (add_u32 (current_era s) (lk_bonding_duration C)) (\<lambda>target_era.
              bindE (do_update_ledger index (\<lambda>l s. bindE (unbond_ledger amount target_era l) (\<lambda>l. Inr (l, s))) s)
                (mutate_pool (consolidate_unstake amount)))
          | RequestRebond index amount \<Rightarrow>
              bindE (do_update_ledger index (\<lambda>l s. bindE (rebond_ledger amount l) (\<lambda>l. Inr (l, s))) s)
                (mutate_pool (consolidate_stake amount))
          | RequestWithdrawUnbonded index _ \<Rightarrow>
              do_update_ledger index (\<lambda>l s.
                bindE (staking_currency C) (\<lambda>a.
                let l' = consolidate_unlocked (current_era s) l; amount = saturating_sub (sl_total l) (sl_total l') in
                bindE (ls_mint_into C s a (ls_account_id C) amount) (\<lambda>s. Inr (l', s)))) s
          | RequestNominate _ _ \<Rightarrow> Inr s) (\<lambda>s.
        Inr (s\<lparr>staking_requests := (staking_requests s)(query_id := None)\<rparr>)))"

definition do_update_exchange_rate :: "'w liquid_config \<Rightarrow> 'w liquid_state \<Rightarrow> liquid_dispatch_error + 'w liquid_state" where
  "do_update_exchange_rate C s =
     (let pool = matching_pool s; total_active_bonded = get_total_active_bonded C s in
      bindE (liquid_currency C) (\<lambda>a.
      let issuance = ft_total_issuance (lk_assets C) (ls_world s) a in
      if issuance = 0 then Inr s
      else
        bindE (ok_or (Option.bind (checked_add total_active_bonded (ra_total (total_stake_amount pool)))
            (\<lambda>r. checked_sub r (ra_total (total_unstake_amount pool)))) (Arithmetic Overflow)) (\<lambda>backing.
        bindE (ok_or (fx_checked_from_rational (lk_arith C) backing issuance) (Module InvalidExchangeRate)) (\<lambda>new_exchange_rate.
        Inr (if new_exchange_rate > ls_exchange_rate s
             then ls_deposit_event (ExchangeRateUpdated new_exchange_rate) (s\<lparr>ls_exchange_rate := new_exchange_rate\<rparr>)
             else s)))))"

definition do_matching :: "'w liquid_config \<Rightarrow> 'w liquid_state \<Rightarrow> liquid_dispatch_error + 'w liquid_state" where
  "do_matching C s =
     bindE (matching (matching_pool s) (get_total_unbonding C s)) (\<lambda>(bond_amount, rebond_amount, unbond_amount).
     let s = s\<lparr>is_matched := True\<rparr> in
     bindE (do_multi_bond C bond_amount Staked s) (\<lambda>s.
     bindE (do_multi_rebond C rebond_amount s) (\<lambda>s.
     bindE (do_multi_unbond C unbond_amount s) (\<lambda>s.
     bindE (do_multi_withdraw_unbonded C (lk_num_slashing_spans C) s) (\<lambda>s.
     Inr (ls_deposit_event (Matching bond_amount rebond_amount unbond_amount) s))))))"

definition do_advance_era :: "'w liquid_config \<Rightarrow> era_index \<Rightarrow> 'w liquid_state \<Rightarrow> liquid_dispatch_error + 'w liquid_state" where
  "do_advance_era C offset s =
     (if offset = 0 then Inr s
      else
        let s = s\<lparr>era_start_block := lk_relay_block C, current_era := min (current_era s + offset) u32_max\<rparr>;
            s = (case do_update_exchange_rate C s of Inl _ \<Rightarrow> s | Inr s \<Rightarrow> s);
            s = s\<lparr>is_matched := False\<rparr> in
        Inr (ls_deposit_event (NewEra (current_era s)) s))"

section \<open>Claims and fast unstaking\<close>

definition ls_do_claim_for ::
    "'w liquid_config \<Rightarrow> 'w liquid_state \<Rightarrow> account_id \<Rightarrow> balance \<Rightarrow> liquid_dispatch_error + 'w liquid_state" where
  "ls_do_claim_for C s who amount =
     (let module_id = ls_account_id C; collateral_currency = lk_collateral_currency C in
      bindE (staking_currency C) (\<lambda>a.
      if who = loans_account_id C then
        bindE (map_err External (lk_loans_borrow_balance C (ls_world s) module_id a)) (\<lambda>(account_borrows, w).
        let s = s\<lparr>ls_world := w\<rparr> in
        bindE (ls_call s (lk_loans_repay C (ls_world s) module_id a (min account_borrows amount))) (\<lambda>s.
        bindE (map_err External (lk_loans_collateral_factor C (ls_world s) collateral_currency)) (\<lambda>factor.
        let redeem_amount = pm_saturating_reciprocal_mul_ceil (lk_arith C) factor amount in
        bindE (ls_call s (lk_loans_redeem C (ls_world s) module_id collateral_currency redeem_amount)) (\<lambda>s.
        ls_burn_from C s collateral_currency module_id redeem_amount))))
      else ls_transfer C s a module_id who amount))"

definition do_loans_instant_unstake ::
    "'w liquid_config \<Rightarrow> 'w liquid_state \<Rightarrow> account_id \<Rightarrow> balance \<Rightarrow> liquid_dispatch_error + 'w liquid_state" where
  "do_loans_instant_unstake C s who amount =
     bindE (ok_or (fx_checked_mul_int (lk_arith C) (lk_loans_instant_unstake_fee C) amount) (Arithmetic Overflow)) (\<lambda>fee.
     bindE (ok_or (checked_sub amount fee) (Arithmetic Underflow)) (\<lambda>borrow_amount.
     let collateral_currency = lk_collateral_currency C in
     bindE (map_err External (lk_loans_collateral_factor C (ls_world s) collateral_currency)) (\<lambda>factor.
     let mint_amount = pm_saturating_reciprocal_mul_ceil (lk_arith C) factor amount; module_id = ls_account_id C in
     bindE (staking_currency C) (\<lambda>a.
     bindE (ls_mint_into C s collateral_currency module_id mint_amount) (\<lambda>s.
     bindE (ls_call s (lk_loans_mint C (ls_world s) module_id collateral_currency mint_amount)) (\<lambda>s.
     let s = ls_try s (lk_loans_collateral C (ls_world s) module_id collateral_currency True) in
     bindE (ls_call s (lk_loans_borrow C (ls_world s) module_id a borrow_amount)) (\<lambda>s.
     ls_transfer C s a module_id who borrow_amount)))))))"

definition get_inflate_liquid_amount :: "'w liquid_config \<Rightarrow> 'w liquid_state \<Rightarrow> balance \<Rightarrow> liquid_dispatch_error + balance" where
  "get_inflate_liquid_amount C s rewards =
     bindE (liquid_currency C) (\<lambda>a.
     let issuance = ft_total_issuance (lk_assets C) (ls_world s) a in
     if issuance = 0 \<or> commission_rate s = 0 \<or> rewards = 0 then Inr 0
     else
       let pool = matching_pool s; total_active_bonded = get_total_active_bonded C s in
       bindE (ok_or (Option.bind (checked_add total_active_bonded (ra_total (total_stake_amount pool)))
           (\<lambda>r. checked_sub r (ra_total (total_unstake_amount pool)))) (Arithmetic Overflow)) (\<lambda>stake_total.
       let commission = fx_saturating_mul_int (lk_arith C) (commission_rate s) rewards;
           inflate_rate = (case fx_checked_from_rational (lk_arith C) commission (saturating_sub (sat_add stake_total rewards) commission) of
              None \<Rightarrow> 0 | Some r \<Rightarrow> r) in
       Inr (fx_saturating_mul_int (lk_arith C) inflate_rate issuance)))"

definition do_fast_match_unstake ::
    "'w liquid_config \<Rightarrow> account_id \<Rightarrow> 'w liquid_state \<Rightarrow> liquid_dispatch_error + 'w liquid_state" where
  "do_fast_match_unstake C unstaker s =
     (case fast_unstake_requests s unstaker of
        None \<Rightarrow> Inr s
      | Some requested \<Rightarrow>
          bindE (liquid_currency C) (\<lambda>a.
          let current_liquid_amount = ft_reducible_balance (lk_assets C) (ls_world s) a unstaker False;
              request_liquid_amount = min requested current_liquid_amount in
          bindE (ra_free (total_stake_amount (matching_pool s))) (\<lambda>free.
          bindE (ok_or (staking_to_liquid C s free) (Module InvalidExchangeRate)) (\<lambda>available_liquid_amount.
          let matched_liquid_amount = min request_liquid_amount available_liquid_amount in
          bindE (if matched_liquid_amount \<noteq> 0 then
              let matched_fee = fx_saturating_mul_int (lk_arith C) (lk_fast_unstake_fee C) matched_liquid_amount;
                  liquid_to_burn = saturating_sub matched_liquid_amount matched_fee in
              bindE (ls_burn_from C s a unstaker liquid_to_burn) (\<lambda>s.
              bindE (ls_transfer C s a unstaker (lk_protocol_fee_receiver C) matched_fee) (\<lambda>s.
              bindE (ok_or (liquid_to_staking C s liquid_to_burn) (Module InvalidExchangeRate)) (\<lambda>staking_to_receive.
              bindE (mutate_pool (sub_stake_amount staking_to_receive) s) (\<lambda>s.
              bindE (staking_currency C) (\<lambda>b.
              bindE (ls_transfer C s b (ls_account_id C) unstaker staking_to_receive) (\<lambda>s.
              Inr (ls_deposit_event (FastUnstakeMatched unstaker staking_to_receive matched_liquid_amount matched_fee) s)))))))
            else Inr s) (\<lambda>s.
          let unmatched_amount = saturating_sub request_liquid_amount matched_liquid_amount in
          Inr (s\<lparr>fast_unstake_requests := (fast_unstake_requests s)(unstaker :=
                 if unmatched_amount \<noteq> 0 then Some unmatched_amount else None)\<rparr>))))))"

definition verify_merkle_proof :: "'w liquid_config \<Rightarrow> 'w liquid_state \<Rightarrow> bytes \<Rightarrow> bytes \<Rightarrow> bytes list \<Rightarrow> bool" where
  "verify_merkle_proof C s key value prf =
     (case validation_data s of
        None \<Rightarrow> False
      | Some relay_parent_storage_root \<Rightarrow>
          (case lk_read_trie C relay_parent_storage_root key prf of None \<Rightarrow> False | Some result \<Rightarrow> result = value))"

section \<open>Calls\<close>

definition stake ::
    "'w liquid_config \<Rightarrow> 'w liquid_state \<Rightarrow> origin \<Rightarrow> balance \<Rightarrow> liquid_dispatch_error + 'w liquid_state" where
  "stake C s o' amount =
     bindE (ensure_signed o') (\<lambda>who.
     bindE (ensure (amount \<ge> lk_min_stake C) (Module StakeTooSmall)) (\<lambda>_.
     let reserves = pm_mul_floor (lk_arith C) (ls_reserve_factor s) amount; xcm_fees = lk_xcm_fees C in
     bindE (ok_or (checked_sub amount xcm_fees) (Arithmetic Underflow)) (\<lambda>amount.
     bindE (staking_currency C) (\<lambda>a.
     bindE (ls_transfer C s a who (ls_account_id C) amount) (\<lambda>s.
     bindE (ls_call s (lk_add_xcm_fees C (ls_world s) who xcm_fees)) (\<lambda>s.
     bindE (ok_or (checked_sub amount reserves) (Arithmetic Underflow)) (\<lambda>amount.
     bindE (ok_or (staking_to_liquid C s amount) (Module InvalidExchangeRate)) (\<lambda>liquid_amount.
     bindE (liquid_currency C) (\<lambda>b.
     bindE (ensure_market_cap C s amount) (\<lambda>_.
     bindE (ls_mint_into C s b who liquid_amount) (\<lambda>s.
     bindE (mutate_pool (add_stake_amount amount) s) (\<lambda>s.
     bindE (ok_or (checked_add (ls_total_reserves s) reserves) (Arithmetic Overflow)) (\<lambda>total_reserves.
     Inr (ls_deposit_event (StakedEvent who amount) (s\<lparr>ls_total_reserves := total_reserves\<rparr>)))))))))))))))"

definition unstake ::
    "'w liquid_config \<Rightarrow> 'w liquid_state \<Rightarrow> origin \<Rightarrow> balance \<Rightarrow> unstake_provider \<Rightarrow> liquid_dispatch_error + 'w liquid_state" where
  "unstake C s o' liquid_amount provider =
     bindE (ensure_signed o') (\<lambda>who.
     bindE (ensure (liquid_amount \<ge> lk_min_unstake C) (Module UnstakeTooSmall)) (\<lambda>_.
     if provider = MatchingPoolProvider then
       bindE (liquid_currency C) (\<lambda>a.
       let held = ft_reducible_balance (lk_assets C) (ls_world s) a who False;
           requested = (case fast_unstake_requests s who of None \<Rightarrow> 0 | Some n \<Rightarrow> n) in
       Inr (s\<lparr>fast_unstake_requests := (fast_unstake_requests s)(who \<mapsto> min (sat_add requested liquid_amount) held)\<rparr>))
     else
       bindE (ok_or (liquid_to_staking C s liquid_amount) (Module InvalidExchangeRate)) (\<lambda>amount.
       let unlockings_key = (if provider = LoansProvider then loans_account_id C else who);
           chunks = (case unlockings s unlockings_key of None \<Rightarrow> [] | Some chunks \<Rightarrow> chunks) in
       bindE (target_era C s) (\<lambda>era.
       let chunks = push_chunk amount era chunks in
       bindE (ensure (length chunks \<le> max_unlocking_chunks) (Module NoMoreChunks)) (\<lambda>_.
       let s = s\<lparr>unlockings := (unlockings s)(unlockings_key \<mapsto> chunks)\<rparr> in
       bindE (liquid_currency C) (\<lambda>a.
       bindE (ls_burn_from C s a who liquid_amount) (\<lambda>s.
       bindE (if provider = LoansProvider then do_loans_instant_unstake C s who amount else Inr s) (\<lambda>s.
       bindE (mutate_pool (add_unstake_amount amount) s) (\<lambda>s.
       Inr (ls_deposit_event (UnstakedEvent who liquid_amount amount) s))))))))))"

definition update_reserve_factor ::
    "'w liquid_config \<Rightarrow> 'w liquid_state \<Rightarrow> origin \<Rightarrow> ratio \<Rightarrow> liquid_dispatch_error + 'w liquid_state" where
  "update_reserve_factor C s o' factor =
     bindE (ensure_origin (lk_update_origin C) o') (\<lambda>_.
     bindE (ensure (factor > 0 \<and> factor < PM) (Module InvalidFactor)) (\<lambda>_.
     Inr (ls_deposit_event (ReserveFactorUpdated factor) (s\<lparr>ls_reserve_factor := factor\<rparr>))))"

definition update_staking_ledger_cap ::
    "'w liquid_config \<Rightarrow> 'w liquid_state \<Rightarrow> origin \<Rightarrow> balance \<Rightarrow> liquid_dispatch_error + 'w liquid_state" where
  "update_staking_ledger_cap C s o' cap =
     bindE (ensure_origin (lk_update_origin C) o') (\<lambda>_.
     bindE (ensure (cap \<noteq> 0) (Module InvalidStakingCap)) (\<lambda>_.
     Inr (ls_deposit_event (StakingLedgerCapUpdated cap) (s\<lparr>staking_ledger_cap := cap\<rparr>))))"

definition bond ::
    "'w liquid_config \<Rightarrow> 'w liquid_state \<Rightarrow> origin \<Rightarrow> derivative_index \<Rightarrow> balance \<Rightarrow> reward_destination \<Rightarrow> liquid_dispatch_error + 'w liquid_state" where
  "bond C s o' index amount payee = bindE (ensure_origin (lk_relay_origin C) o') (\<lambda>_. ls_do_bond C s index amount payee)"

definition bond_extra ::
    "'w liquid_config \<Rightarrow> 'w liquid_state \<Rightarrow> origin \<Rightarrow> derivative_index \<Rightarrow> balance \<Rightarrow> liquid_dispatch_error + 'w liquid_state" where
  "bond_extra C s o' index amount = bindE (ensure_origin (lk_relay_origin C) o') (\<lambda>_. ls_do_bond_extra C s index amount)"

definition unbond ::
    "'w liquid_config \<Rightarrow> 'w liquid_state \<Rightarrow> origin \<Rightarrow> derivative_index \<Rightarrow> balance \<Rightarrow> liquid_dispatch_error + 'w liquid_state" where
  "unbond C s o' index amount = bindE (ensure_origin (lk_relay_origin C) o') (\<lambda>_. ls_do_unbond C s index amount)"

definition rebond ::
    "'w liquid_config \<Rightarrow> 'w liquid_state \<Rightarrow> origin \<Rightarrow> derivative_index \<Rightarrow> balance \<Rightarrow> liquid_dispatch_error + 'w liquid_state" where
  "rebond C s o' index amount = bindE (ensure_origin (lk_relay_origin C) o') (\<lambda>_. ls_do_rebond C s index amount)"

definition withdraw_unbonded ::
    "'w liquid_config \<Rightarrow> 'w liquid_state \<Rightarrow> origin \<Rightarrow> derivative_index \<Rightarrow> nat \<Rightarrow> liquid_dispatch_error + 'w liquid_state" where
  "withdraw_unbonded C s o' index num_slashing_spans =
     bindE (ensure_agent C o') (\<lambda>_. ls_do_withdraw_unbonded C s index num_slashing_spans)"

definition nominate ::
    "'w liquid_config \<Rightarrow> 'w liquid_state \<Rightarrow> origin \<Rightarrow> derivative_index \<Rightarrow> account_id list \<Rightarrow> liquid_dispatch_error + 'w liquid_state" where
  "nominate C s o' index targets = bindE (ensure_agent C o') (\<lambda>_. ls_do_nominate C s index targets)"

definition ls_notification_received ::
    "'w liquid_config \<Rightarrow> 'w liquid_state \<Rightarrow> origin \<Rightarrow> query_id \<Rightarrow> staking_response \<Rightarrow> liquid_dispatch_error + 'w liquid_state" where
  "ls_notification_received C s o' query_id response =
     bindE (case lk_response_origin C o' of
              Some responder \<Rightarrow> Inr responder
            | None \<Rightarrow> bindE (ensure_origin (lk_update_origin C) o') (\<lambda>_. Inr Here)) (\<lambda>responder.
     case response of
       StakingExecutionResult res \<Rightarrow>
         bindE (case staking_requests s query_id of
                  None \<Rightarrow> Inr s
                | Some request \<Rightarrow> ls_do_notification_received C s query_id request res) (\<lambda>s.
         Inr (ls_deposit_event (StakingNotificationReceived responder query_id res) s))
     | OtherStakingResponse \<Rightarrow> Inr s)"

text \<open>What \<open>claim_for\<close> adds up while it drops the chunks whose era has come.\<close>

definition unlocked_amount :: "era_index \<Rightarrow> unlock_chunk list \<Rightarrow> liquid_dispatch_error + balance" where
  "unlocked_amount era chunks =
     foldE (\<lambda>chunk amount. if chunk_era chunk > era then Inr amount else ok_or (add_u128 amount (chunk_value chunk)) Panic) chunks 0"

definition ls_claim_for ::
    "'w liquid_config \<Rightarrow> 'w liquid_state \<Rightarrow> origin \<Rightarrow> nat \<Rightarrow> liquid_dispatch_error + 'w liquid_state" where
  "ls_claim_for C s o' dest =
     bindE (ensure_agent C o') (\<lambda>_.
     bindE (ok_or (lk_lookup C dest) CannotLookup) (\<lambda>who.
     bindE (ok_or (unlockings s who) (Module NoUnlockings)) (\<lambda>chunks.
     bindE (unlocked_amount (current_era s) chunks) (\<lambda>amount.
     let chunks = filter (\<lambda>chunk. chunk_era chunk > current_era s) chunks in
     bindE (staking_currency C) (\<lambda>a.
     let total_unclaimed = get_total_unclaimed C s a in
     bindE (ensure (amount \<noteq> 0) (Module NothingToClaim)) (\<lambda>_.
     bindE (ensure (\<not> total_unclaimed < amount) (Module NotWithdrawn)) (\<lambda>_.
     bindE (ls_do_claim_for C s who amount) (\<lambda>s.
     Inr (ls_deposit_event (ClaimedFor who amount)
       (s\<lparr>unlockings := (unlockings s)(who := if chunks = [] then None else Some chunks)\<rparr>))))))))))"

definition force_set_era_start_block ::
    "'w liquid_config \<Rightarrow> 'w liquid_state \<Rightarrow> origin \<Rightarrow> block_number \<Rightarrow> liquid_dispatch_error + 'w liquid_state" where
  "force_set_era_start_block C s o' b =
     bindE (ensure_origin (lk_update_origin C) o') (\<lambda>_. Inr (s\<lparr>era_start_block := b\<rparr>))"

definition force_set_current_era ::
    "'w liquid_config \<Rightarrow> 'w liquid_state \<Rightarrow> origin \<Rightarrow> era_index \<Rightarrow> liquid_dispatch_error + 'w liquid_state" where
  "force_set_current_era C s o' era =
     bindE (ensure_origin (lk_update_origin C) o') (\<lambda>_. Inr (s\<lparr>is_matched := False, current_era := era\<rparr>))"

definition force_advance_era ::
    "'w liquid_config \<Rightarrow> 'w liquid_state \<Rightarrow> origin \<Rightarrow> era_index \<Rightarrow> liquid_dispatch_error + 'w liquid_state" where
  "force_advance_era C s o' offset = bindE (ensure_origin (lk_update_origin C) o') (\<lambda>_. do_advance_era C offset s)"

definition force_matching :: "'w liquid_config \<Rightarrow> 'w liquid_state \<Rightarrow> origin \<Rightarrow> liquid_dispatch_error + 'w liquid_state" where
  "force_matching C s o' = bindE (ensure_origin (lk_update_origin C) o') (\<lambda>_. do_matching C s)"

definition no_requests :: "'w liquid_config \<Rightarrow> 'w liquid_state \<Rightarrow> bool" where
  "no_requests C s \<longleftrightarrow> length (storage_iter (lk_query_keys C) (staking_requests s)) = 0"

definition force_set_staking_ledger ::
    "'w liquid_config \<Rightarrow> 'w liquid_state \<Rightarrow> origin \<Rightarrow> derivative_index \<Rightarrow> staking_ledger \<Rightarrow> liquid_dispatch_error + 'w liquid_state" where
  "force_set_staking_ledger C s o' index new =
     bindE (ensure_origin (lk_update_origin C) o') (\<lambda>_.
     do_update_ledger index (\<lambda>l s.
       bindE (ensure (\<not> is_updated s index \<and> no_requests C s) (Module StakingLedgerLocked)) (\<lambda>_. Inr (new, s))) s)"

definition set_current_era ::
    "'w liquid_config \<Rightarrow> 'w liquid_state \<Rightarrow> origin \<Rightarrow> era_index \<Rightarrow> bytes list \<Rightarrow> liquid_dispatch_error + 'w liquid_state" where
  "set_current_era C s o' era prf =
     bindE (ensure_signed o') (\<lambda>who.
     let offset = saturating_sub era (current_era s) in
     bindE (ensure (verify_merkle_proof C s (lk_era_key C) (lk_encode_era C era) prf) (Module InvalidProof)) (\<lambda>_.
     bindE (do_advance_era C offset s) (\<lambda>s.
     Inr (if offset \<noteq> 0
          then ls_try s (ft_transfer (lk_assets C) (ls_world s) (lk_native_currency C) (ls_account_id C) who (incentive s) False)
          else s))))"

definition get_staking_ledger_key :: "'w liquid_config \<Rightarrow> derivative_index \<Rightarrow> bytes" where
  "get_staking_ledger_key C index = lk_ledger_key C (derivative_sovereign_account_id C index)"

definition set_staking_ledger ::
    "'w liquid_config \<Rightarrow> 'w liquid_state \<Rightarrow> origin \<Rightarrow> derivative_index \<Rightarrow> staking_ledger \<Rightarrow> bytes list
     \<Rightarrow> liquid_dispatch_error + 'w liquid_state" where
  "set_staking_ledger C s o' index new prf =
     bindE (ensure_signed o') (\<lambda>who.
     do_update_ledger index (\<lambda>l s.
       bindE (ensure (\<not> is_updated s index) (Module StakingLedgerLocked)) (\<lambda>_.
       let s = (if sl_total new < sl_total l \<or> sl_active new < sl_active l \<or> sl_unlocking new \<noteq> sl_unlocking l \<or> \<not> no_requests C s
                then ls_deposit_event (NonIdealStakingLedger index) s else s) in
       bindE (ensure (verify_merkle_proof C s (get_staking_ledger_key C index) (lk_encode_ledger C new) prf) (Module InvalidProof)) (\<lambda>_.
       let rewards = saturating_sub (sl_total new) (sl_total l) in
       bindE (get_inflate_liquid_amount C s rewards) (\<lambda>inflate_liquid_amount.
       bindE (if inflate_liquid_amount \<noteq> 0
              then bindE (liquid_currency C) (\<lambda>a. ls_mint_into C s a (lk_protocol_fee_receiver C) inflate_liquid_amount)
              else Inr s) (\<lambda>s.
       let s = ls_try s (ft_transfer (lk_assets C) (ls_world s) (lk_native_currency C) (ls_account_id C) who (incentive s) False) in
       Inr (new, s)))))) s)"

definition ls_reduce_reserves ::
    "'w liquid_config \<Rightarrow> 'w liquid_state \<Rightarrow> origin \<Rightarrow> nat \<Rightarrow> balance \<Rightarrow> liquid_dispatch_error + 'w liquid_state" where
  "ls_reduce_reserves C s o' receiver reduce_amount =
     bindE (ensure_origin (lk_update_origin C) o') (\<lambda>_.
     bindE (ok_or (lk_lookup C receiver) CannotLookup) (\<lambda>receiver.
     bindE (ok_or (checked_sub (ls_total_reserves s) reduce_amount) (Arithmetic Underflow)) (\<lambda>total_reserves.
     let s = s\<lparr>ls_total_reserves := total_reserves\<rparr> in
     bindE (staking_currency C) (\<lambda>a.
     bindE (ls_transfer C s a (ls_account_id C) receiver reduce_amount) (\<lambda>s.
     Inr (ls_deposit_event (ReservesReduced receiver reduce_amount) s))))))"

definition cancel_unstake ::
    "'w liquid_config \<Rightarrow> 'w liquid_state \<Rightarrow> origin \<Rightarrow> balance \<Rightarrow> liquid_dispatch_error + 'w liquid_state" where
  "cancel_unstake C s o' amount =
     bindE (ensure_signed o') (\<lambda>who.
     bindE (liquid_currency C) (\<lambda>a.
     let held = ft_reducible_balance (lk_assets C) (ls_world s) a who False;
         requested = (case fast_unstake_requests s who of None \<Rightarrow> 0 | Some n \<Rightarrow> n) in
     Inr (ls_deposit_event (UnstakeCancelled who amount amount)
       (s\<lparr>fast_unstake_requests := (fast_unstake_requests s)(who \<mapsto> saturating_sub (min requested held) amount)\<rparr>))))"

definition update_commission_rate ::
    "'w liquid_config \<Rightarrow> 'w liquid_state \<Rightarrow> origin \<Rightarrow> rate \<Rightarrow> liquid_dispatch_error + 'w liquid_state" where
  "update_commission_rate C s o' r =
     bindE (ensure_origin (lk_update_origin C) o') (\<lambda>_.
     bindE (ensure (r > 0 \<and> r < FX) (Module InvalidCommissionRate)) (\<lambda>_.
     Inr (ls_deposit_event (CommissionRateUpdated r) (s\<lparr>commission_rate := r\<rparr>))))"

definition fast_match_unstake ::
    "'w liquid_config \<Rightarrow> 'w liquid_state \<Rightarrow> origin \<Rightarrow> account_id list \<Rightarrow> liquid_dispatch_error + 'w liquid_state" where
  "fast_match_unstake C s o' unstaker_list =
     bindE (ensure_agent C o') (\<lambda>_. foldE (do_fast_match_unstake C) unstaker_list s)"

definition update_incentive ::
    "'w liquid_config \<Rightarrow> 'w liquid_state \<Rightarrow> origin \<Rightarrow> balance \<Rightarrow> liquid_dispatch_error + 'w liquid_state" where
  "update_incentive C s o' amount =
     bindE (ensure_origin (lk_update_origin C) o') (\<lambda>_.
     Inr (ls_deposit_event (IncentiveUpdated amount) (s\<lparr>incentive := amount\<rparr>)))"

section \<open>Hooks and dispatch\<close>

text \<open>The hook at the beginning of a block takes back what it did when it fails; a panic in it aborts the block.\<close>

definition ls_on_initialize :: "'w liquid_config \<Rightarrow> 'w liquid_state \<Rightarrow> liquid_dispatch_error + 'w liquid_state" where
  "ls_on_initialize C s =
     (let relaychain_block_number = lk_relay_block C in
      case
        (bindE (if \<not> is_matched s \<and> min (lk_election_offset C + era_start_block s) u32_max \<le> relaychain_block_number
                then do_matching C s else Inr s) (\<lambda>s.
         let offset = era_offset C s relaychain_block_number in
         if offset = 0 then Inr s else do_advance_era C offset s))
      of Inl Panic \<Rightarrow> Inl Panic | Inl _ \<Rightarrow> Inr s | Inr s \<Rightarrow> Inr s)"

definition ls_on_finalize :: "'w liquid_config \<Rightarrow> 'w liquid_state \<Rightarrow> 'w liquid_state" where
  "ls_on_finalize C s =
     (let s = s\<lparr>is_updated := (\<lambda>_. False)\<rparr> in
      case lk_validation_data C of None \<Rightarrow> s | Some data \<Rightarrow> s\<lparr>validation_data := Some data\<rparr>)"

datatype liquid_call =
    CallStake balance
  | CallUnstake balance unstake_provider
  | UpdateReserveFactor ratio
  | UpdateStakingLedgerCap balance
  | CallBond derivative_index balance reward_destination
  | CallBondExtra derivative_index balance
  | CallUnbond derivative_index balance
  | CallRebond derivative_index balance
  | CallWithdrawUnbonded derivative_index nat
  | CallNominate derivative_index "account_id list"
  | StakingNotification query_id staking_response
  | StakingClaimFor nat
  | ForceSetEraStartBlock block_number
  | ForceSetCurrentEra era_index
  | ForceAdvanceEra era_index
  | ForceMatching
  | ForceSetStakingLedger derivative_index staking_ledger
  | SetCurrentEra era_index "bytes list"
  | SetStakingLedger derivative_index staking_ledger "bytes list"
  | ReduceStakingReserves nat balance
  | CancelUnstake balance
  | UpdateCommissionRate rate
  | FastMatchUnstake "account_id list"
  | UpdateIncentive balance

fun liquid_dispatch ::
    "'w liquid_config \<Rightarrow> 'w liquid_state \<Rightarrow> origin \<Rightarrow> liquid_call \<Rightarrow> liquid_dispatch_error + 'w liquid_state" where
  "liquid_dispatch C s o' (CallStake n) = stake C s o' n"
| "liquid_dispatch C s o' (CallUnstake n p) = unstake C s o' n p"
| "liquid_dispatch C s o' (UpdateReserveFactor f) = update_reserve_factor C s o' f"
| "liquid_dispatch C s o' (UpdateStakingLedgerCap n) = update_staking_ledger_cap C s o' n"
| "liquid_dispatch C s o' (CallBond i n p) = bond C s o' i n p"
| "liquid_dispatch C s o' (CallBondExtra i n) = bond_extra C s o' i n"
| "liquid_dispatch C s o' (CallUnbond i n) = unbond C s o' i n"
| "liquid_dispatch C s o' (CallRebond i n) = rebond C s o' i n"
| "liquid_dispatch C s o' (CallWithdrawUnbonded i k) = withdraw_unbonded C s o' i k"
| "liquid_dispatch C s o' (CallNominate i ts) = nominate C s o' i ts"
| "liquid_dispatch C s o' (StakingNotification q r) = ls_notification_received C s o' q r"
| "liquid_dispatch C s o' (StakingClaimFor d) = ls_claim_for C s o' d"
| "liquid_dispatch C s o' (ForceSetEraStartBlock b) = force_set_era_start_block C s o' b"
| "liquid_dispatch C s o' (ForceSetCurrentEra e) = force_set_current_era C s o' e"
| "liquid_dispatch C s o' (ForceAdvanceEra e) = force_advance_era C s o' e"
| "liquid_dispatch C s o' ForceMatching = force_matching C s o'"
| "liquid_dispatch C s o' (ForceSetStakingLedger i l) = force_set_staking_ledger C s o' i l"
| "liquid_dispatch C s o' (SetCurrentEra e prf) = set_current_era C s o' e prf"
| "liquid_dispatch C s o' (SetStakingLedger i l prf) = set_staking_ledger C s o' i l prf"
| "liquid_dispatch C s o' (ReduceStakingReserves r n) = ls_reduce_reserves C s o' r n"
| "liquid_dispatch C s o' (CancelUnstake n) = cancel_unstake C s o' n"
| "liquid_dispatch C s o' (UpdateCommissionRate r) = update_commission_rate C s o' r"
| "liquid_dispatch C s o' (FastMatchUnstake us) = fast_match_unstake C s o' us"
| "liquid_dispatch C s o' (UpdateIncentive n) = update_incentive C s o' n"

end
