(* ===== verification/Liquid_Books.thy ===== *)
theory Liquid_Books
  imports Liquid_Staking
begin

text \<open>
  The books of liquid staking.  The pallet's account has to hold the reserves and what is in the matching pool.  What users
  may claim, now or after the bonding period, has to be covered by what the account holds beyond that, by what is
  unlocking on the relay chain and by what still waits in the pool for being unbonded.

  A ledger that is replaced by a proved one may be unlocking less than the pallet's copy, because of a slash or because it is
  ahead of a reply: \<open>lost\<close> adds up these differences.  The contract of the other pallets is the locale
  \<open>liquid_services\<close>.
\<close>

definition staking_held :: "'w liquid_config \<Rightarrow> 'w \<Rightarrow> balance" where
  "staking_held C w = ft_balance (lk_assets C) w (lk_staking_currency C) (lk_pallet_account C)"

definition claims_total :: "'w liquid_state \<Rightarrow> balance" where
  "claims_total s = sum_entries chunk_sum (unlockings s)"

definition unlocking_total :: "'w liquid_state \<Rightarrow> balance" where
  "unlocking_total s = sum_entries (\<lambda>l. chunk_sum (sl_unlocking l)) (staking_ledgers s)"

definition liquid_safe :: "'w liquid_config \<Rightarrow> balance \<Rightarrow> 'w liquid_state \<Rightarrow> bool" where
  "liquid_safe C lost s \<longleftrightarrow>
     finite (dom (unlockings s)) \<and> finite (dom (staking_ledgers s)) \<and>
     matching_ok (matching_pool s) \<and> (\<forall>l\<in>ran (staking_ledgers s). ledger_ok l) \<and>
     ls_total_reserves s + staked (matching_pool s) \<le> staking_held C (ls_world s) \<and>
     claims_total s + ls_total_reserves s + staked (matching_pool s)
       \<le> staking_held C (ls_world s) + unlocking_total s + unstaked (matching_pool s) + lost"

text \<open>An operation that leaves the books alone and takes nothing from the pallet's account.\<close>

definition keeps_books :: "'w liquid_config \<Rightarrow> 'w liquid_state \<Rightarrow> 'w liquid_state \<Rightarrow> bool" where
  "keeps_books C s s' \<longleftrightarrow>
     ls_total_reserves s' = ls_total_reserves s \<and> unlockings s' = unlockings s \<and> staking_ledgers s' = staking_ledgers s \<and>
     (matching_ok (matching_pool s) \<longrightarrow> matching_ok (matching_pool s') \<and> staked (matching_pool s') = staked (matching_pool s) \<and>
       unstaked (matching_pool s') = unstaked (matching_pool s)) \<and>
     staking_held C (ls_world s) \<le> staking_held C (ls_world s')"

lemma keeps_books_refl [simp]: "keeps_books C s s"
  by (simp add: keeps_books_def)

lemma keeps_books_trans [trans]: "keeps_books C s t \<Longrightarrow> keeps_books C t u \<Longrightarrow> keeps_books C s u"
  by (auto simp: keeps_books_def)

lemma keeps_books_safe: "keeps_books C s s' \<Longrightarrow> liquid_safe C lost s \<Longrightarrow> liquid_safe C lost s'"
  by (auto simp: keeps_books_def liquid_safe_def claims_total_def unlocking_total_def)

lemma foldE_keeps_books:
  assumes "foldE f xs s = Inr s'" and "\<And>x s s'. f x s = Inr s' \<Longrightarrow> keeps_books C s s'"
  shows "keeps_books C s s'"
  using assms(1)
proof (induction xs arbitrary: s)
  case (Cons x xs)
  then obtain t where "f x s = Inr t" and "foldE f xs t = Inr s'" by auto
  with assms(2) Cons.IH show ?case by (blast intro: keeps_books_trans)
qed simp

lemma mutate_pool_Inr: "mutate_pool f s = Inr s' \<longleftrightarrow> (\<exists>p. f (matching_pool s) = Inr p \<and> s' = s\<lparr>matching_pool := p\<rparr>)"
  by (auto simp: mutate_pool_def bindE_Inr_iff)

lemma lock_keeps_books:
  "mutate_pool (set_stake_amount_lock n) s = Inr s' \<Longrightarrow> keeps_books C s s'"
  "mutate_pool (set_unstake_amount_lock n) s = Inr s' \<Longrightarrow> keeps_books C s s'"
  by (auto simp: mutate_pool_Inr keeps_books_def dest: pool_lock)

lemma staking_currency_Inr: "staking_currency C = Inr a \<Longrightarrow> a = lk_staking_currency C"
  by (auto simp: staking_currency_def get_staking_currency_def Let_def ok_or_def split: if_splits)

lemma liquid_currency_Inr: "liquid_currency C = Inr a \<Longrightarrow> a = lk_liquid_currency C"
  by (auto simp: liquid_currency_def get_liquid_currency_def Let_def ok_or_def split: if_splits)

text \<open>A step on the shared state only, which pays out at most one amount and takes in at least another.\<close>

definition moved :: "'w liquid_config \<Rightarrow> 'w liquid_state \<Rightarrow> 'w liquid_state \<Rightarrow> balance \<Rightarrow> balance \<Rightarrow> bool" where
  "moved C s s' out into \<longleftrightarrow>
     s' = s\<lparr>ls_world := ls_world s'\<rparr> \<and> staking_held C (ls_world s) + into \<le> staking_held C (ls_world s') + out"

lemma movedI: "staking_held C (ls_world s) + into \<le> staking_held C w + out \<Longrightarrow> moved C s (s\<lparr>ls_world := w\<rparr>) out into"
  by (simp add: moved_def)

lemma moved_trans: "moved C s t a b \<Longrightarrow> moved C t u c d \<Longrightarrow> moved C s u (a + c) (b + d)"
proof -
  assume 1: "moved C s t a b" and 2: "moved C t u c d"
  define w v where "w = ls_world t" and "v = ls_world u"
  from 1 2 have "t = s\<lparr>ls_world := w\<rparr>" "u = t\<lparr>ls_world := v\<rparr>" unfolding moved_def w_def v_def by simp_all
  with 1 2 show ?thesis by (simp add: moved_def)
qed

lemma movedE:
  assumes "moved C s s' out into"
  obtains w where "s' = s\<lparr>ls_world := w\<rparr>" and "staking_held C (ls_world s) + into \<le> staking_held C w + out"
  using assms unfolding moved_def by blast

lemma moved_keeps_books: "moved C s s' 0 n \<Longrightarrow> keeps_books C s s'"
proof -
  assume m: "moved C s s' 0 n"
  define w where "w = ls_world s'"
  from m have "s' = s\<lparr>ls_world := w\<rparr>" unfolding moved_def w_def by simp
  with m show ?thesis by (simp add: moved_def keeps_books_def)
qed

locale liquid_services =
  fixes C :: "'w liquid_config"
  assumes staking_exact: "exact_custody (lk_assets C) (lk_staking_currency C)"
    and reducible: "ft_reducible_balance (lk_assets C) w (lk_staking_currency C) (lk_pallet_account C) False
      \<le> ft_balance (lk_assets C) w (lk_staking_currency C) (lk_pallet_account C)"
    and currencies: "lk_liquid_currency C \<noteq> lk_staking_currency C" "lk_native_currency C \<noteq> lk_staking_currency C"
      "lk_collateral_currency C \<noteq> lk_staking_currency C"
    and fees_spare: "lk_add_xcm_fees C w x n = Inr w' \<Longrightarrow> x \<noteq> lk_pallet_account C \<Longrightarrow> staking_held C w \<le> staking_held C w'"
    and bond_spares: "lk_xcm_bond C w n payee x i f = Inr (q, w') \<Longrightarrow> staking_held C w \<le> staking_held C w'"
    and bond_extra_spares: "lk_xcm_bond_extra C w n x i f = Inr (q, w') \<Longrightarrow> staking_held C w \<le> staking_held C w'"
    and unbond_spares: "lk_xcm_unbond C w n i f = Inr (q, w') \<Longrightarrow> staking_held C w \<le> staking_held C w'"
    and rebond_spares: "lk_xcm_rebond C w n i f = Inr (q, w') \<Longrightarrow> staking_held C w \<le> staking_held C w'"
    and withdraw_spares: "lk_xcm_withdraw_unbonded C w k x i f = Inr (q, w') \<Longrightarrow> staking_held C w \<le> staking_held C w'"
    and nominate_spares: "lk_xcm_nominate C w ts i f = Inr (q, w') \<Longrightarrow> staking_held C w \<le> staking_held C w'"
    and mint_spares: "lk_loans_mint C w x (lk_collateral_currency C) n = Inr w' \<Longrightarrow> staking_held C w \<le> staking_held C w'"
    and collateral_spares: "lk_loans_collateral C w x a b = Inr w' \<Longrightarrow> staking_held C w \<le> staking_held C w'"
    and borrow_balance_spares: "lk_loans_borrow_balance C w x a = Inr (n, w') \<Longrightarrow> staking_held C w \<le> staking_held C w'"
    and redeem_spares: "lk_loans_redeem C w x (lk_collateral_currency C) n = Inr w' \<Longrightarrow> staking_held C w \<le> staking_held C w'"
    and borrow_pays: "lk_loans_borrow C w (lk_pallet_account C) (lk_staking_currency C) n = Inr w' \<Longrightarrow> staking_held C w + n \<le> staking_held C w'"
    and repay_takes: "lk_loans_repay C w (lk_pallet_account C) (lk_staking_currency C) n = Inr w' \<Longrightarrow> staking_held C w \<le> staking_held C w' + n"
begin

lemma ledger: "fungibles_laws (lk_assets C)" "credit_law (lk_assets C)"
  using staking_exact by (simp_all add: exact_custody_def)

section \<open>Steps on the shared state\<close>

lemma transfer_moves:
  assumes "ls_transfer C s a x y n = Inr s'"
  shows "x = lk_pallet_account C \<Longrightarrow> moved C s s' (if a = lk_staking_currency C then n else 0) 0"
    and "x \<noteq> lk_pallet_account C \<Longrightarrow> moved C s s' 0 (if a = lk_staking_currency C \<and> y = lk_pallet_account C then n else 0)"
proof -
  from assms obtain w where w: "ft_transfer (lk_assets C) (ls_world s) a x y n False = Inr w" and s': "s' = s\<lparr>ls_world := w\<rparr>"
    unfolding ls_transfer_def by (elim resultE) auto
  note t = exact_custodyD [OF staking_exact w]
  show "x = lk_pallet_account C \<Longrightarrow> moved C s s' (if a = lk_staking_currency C then n else 0) 0"
    unfolding s' by (rule movedI) (use t(1) in \<open>simp add: staking_held_def\<close>)
  show "x \<noteq> lk_pallet_account C \<Longrightarrow> moved C s s' 0 (if a = lk_staking_currency C \<and> y = lk_pallet_account C then n else 0)"
    unfolding s' by (rule movedI) (use t(2) t(3) [of "lk_pallet_account C"] in \<open>auto simp: staking_held_def\<close>)
qed

lemma mint_moves:
  assumes "ls_mint_into C s a x n = Inr s'"
  shows "moved C s s' 0 (if a = lk_staking_currency C \<and> x = lk_pallet_account C then n else 0)"
proof -
  from assms obtain w where w: "ft_mint_into (lk_assets C) (ls_world s) a x n = Inr w" and s': "s' = s\<lparr>ls_world := w\<rparr>"
    unfolding ls_mint_into_def by (elim resultE) auto
  show ?thesis unfolding s' by (rule movedI) (use fungibles_laws_mintD(1) [OF ledger(1) w] in \<open>auto simp: staking_held_def\<close>)
qed

lemma burn_moves:
  assumes "ls_burn_from C s a x n = Inr s'"
  shows "moved C s s' (if a = lk_staking_currency C \<and> x = lk_pallet_account C then n else 0) 0"
proof -
  from assms obtain w where w: "ft_burn_from (lk_assets C) (ls_world s) a x n = Inr w" and s': "s' = s\<lparr>ls_world := w\<rparr>"
    unfolding ls_burn_from_def by (elim resultE) auto
  have dust: "leaves_no_dust (ft_minimum_balance (lk_assets C) (ls_world s) (lk_staking_currency C)) held n" for held
    using staking_exact by (auto simp: exact_custody_def intro: small_minimum_no_dust)
  show ?thesis unfolding s'
    by (rule movedI)
      (use fungibles_laws_burnD(1) [OF ledger(1) w, of "lk_staking_currency C" "lk_pallet_account C"]
        credit_lawD(2) [OF ledger(2) w, of "lk_staking_currency C" "lk_pallet_account C"] dust
       in \<open>auto simp: staking_held_def split: if_splits\<close>)
qed

lemma call_moves:
  assumes "ls_call s m = Inr s'" and "\<And>w. m = Inr w \<Longrightarrow> staking_held C (ls_world s) + into \<le> staking_held C w + out"
  shows "moved C s s' out into"
  using assms unfolding ls_call_def by (auto elim!: resultE intro!: movedI)

lemma incentive_keeps_books:
  "keeps_books C s (ls_try s (ft_transfer (lk_assets C) (ls_world s) (lk_native_currency C) x y n False))"
  using exact_custodyD(4) [OF staking_exact _ currencies(2)]
  by (auto simp: ls_try_def keeps_books_def staking_held_def split: sum.split)

lemma request_keeps_books:
  assumes "send_request s m r e = Inr s'" and "\<And>q w. m = Inr (q, w) \<Longrightarrow> staking_held C (ls_world s) \<le> staking_held C w"
  shows "keeps_books C s s'"
  using assms unfolding send_request_def by (auto simp: keeps_books_def put_request_def ls_deposit_event_def elim!: resultE)

section \<open>Matching and eras\<close>

lemma bond_extra_keeps_books: "ls_do_bond_extra C s i n = Inr s' \<Longrightarrow> keeps_books C s s'"
  unfolding ls_do_bond_extra_def
  by (auto split: if_splits elim!: resultE intro: keeps_books_trans [OF lock_keeps_books(1)] request_keeps_books bond_extra_spares)

lemma bond_keeps_books: "ls_do_bond C s i n payee = Inr s' \<Longrightarrow> keeps_books C s s'"
  unfolding ls_do_bond_def Let_def
  by (auto split: if_splits elim!: resultE intro: bond_extra_keeps_books keeps_books_trans [OF lock_keeps_books(1)] request_keeps_books bond_spares)

lemma unbond_keeps_books: "ls_do_unbond C s i n = Inr s' \<Longrightarrow> keeps_books C s s'"
  unfolding ls_do_unbond_def
  by (auto split: if_splits elim!: resultE intro: keeps_books_trans [OF lock_keeps_books(2)] request_keeps_books unbond_spares)

lemma rebond_keeps_books: "ls_do_rebond C s i n = Inr s' \<Longrightarrow> keeps_books C s s'"
  unfolding ls_do_rebond_def
  by (auto split: if_splits elim!: resultE intro: keeps_books_trans [OF lock_keeps_books(1)] request_keeps_books rebond_spares)

lemma withdraw_keeps_books: "ls_do_withdraw_unbonded C s i k = Inr s' \<Longrightarrow> keeps_books C s s'"
  unfolding ls_do_withdraw_unbonded_def by (auto split: if_splits elim!: resultE intro: request_keeps_books withdraw_spares)

lemma nominate_keeps_books: "ls_do_nominate C s i ts = Inr s' \<Longrightarrow> keeps_books C s s'"
  unfolding ls_do_nominate_def by (auto elim!: resultE intro: request_keeps_books nominate_spares)

lemma multi_keeps_books:
  "do_multi_bond C n payee s = Inr s' \<Longrightarrow> keeps_books C s s'"
  "do_multi_unbond C n s = Inr s' \<Longrightarrow> keeps_books C s s'"
  "do_multi_rebond C n s = Inr s' \<Longrightarrow> keeps_books C s s'"
  "do_multi_withdraw_unbonded C k s = Inr s' \<Longrightarrow> keeps_books C s s'"
  unfolding do_multi_bond_def do_multi_unbond_def do_multi_rebond_def do_multi_withdraw_unbonded_def Let_def
  by (auto split: if_splits elim!: foldE_keeps_books
      intro: bond_keeps_books unbond_keeps_books rebond_keeps_books withdraw_keeps_books)

lemma matching_keeps_books:
  assumes "do_matching C s = Inr s'"
  shows "keeps_books C s s'"
proof -
  from assms obtain b r u s1 s2 s3 s4 where
      1: "do_multi_bond C b Staked (s\<lparr>is_matched := True\<rparr>) = Inr s1" and 2: "do_multi_rebond C r s1 = Inr s2"
      and 3: "do_multi_unbond C u s2 = Inr s3" and 4: "do_multi_withdraw_unbonded C (lk_num_slashing_spans C) s3 = Inr s4"
      and s': "s' = ls_deposit_event (Matching b r u) s4"
    unfolding do_matching_def Let_def by (elim resultE) auto
  have "keeps_books C s (s\<lparr>is_matched := True\<rparr>)" by (simp add: keeps_books_def)
  also note multi_keeps_books(1) [OF 1]
  also note multi_keeps_books(3) [OF 2]
  also note multi_keeps_books(2) [OF 3]
  also note multi_keeps_books(4) [OF 4]
  also have "keeps_books C s4 s'" by (simp add: s' keeps_books_def ls_deposit_event_def)
  finally show ?thesis .
qed

lemma advance_keeps_books:
  assumes "do_advance_era C offset s = Inr s'"
  shows "keeps_books C s s'"
proof -
  define t where "t = s\<lparr>era_start_block := lk_relay_block C, current_era := min (current_era s + offset) u32_max\<rparr>"
  have t: "keeps_books C s t" by (simp add: t_def keeps_books_def)
  have rate: "keeps_books C t u" if "do_update_exchange_rate C t = Inr u" for u
    using that unfolding do_update_exchange_rate_def Let_def
    by (auto simp: keeps_books_def ls_deposit_event_def split: if_splits elim!: resultE)
  have new_era: "keeps_books C u (ls_deposit_event (NewEra e) (u\<lparr>is_matched := False\<rparr>))" for u e
    by (simp add: keeps_books_def ls_deposit_event_def)
  from assms show ?thesis
    unfolding do_advance_era_def Let_def t_def [symmetric]
    by (auto split: if_splits sum.splits elim!: resultE
        intro: keeps_books_refl keeps_books_trans [OF t] keeps_books_trans [OF keeps_books_trans [OF t rate] new_era] new_era)
qed

lemma on_initialize_keeps_books: "ls_on_initialize C s = Inr s' \<Longrightarrow> keeps_books C s s'"
  unfolding ls_on_initialize_def Let_def
  by (auto split: sum.splits if_splits dispatch_error.splits elim!: resultE
      intro: matching_keeps_books advance_keeps_books keeps_books_trans [OF matching_keeps_books advance_keeps_books] keeps_books_refl)

lemma on_finalize_keeps_books: "keeps_books C s (ls_on_finalize C s)"
  by (simp add: ls_on_finalize_def Let_def keeps_books_def split: option.split)

end

end
