(* ===== verification/Liquid_Safety.thy ===== *)
theory Liquid_Safety
  imports Liquid_Books
begin

text \<open>
  Every call of liquid staking keeps \<open>liquid_safe\<close>.  The calls that move value are taken one by one: stake, unstake, the reply of
  the relay chain, claim, fast match, the reserves, and the replacement of a ledger, which adds to \<open>lost\<close> what the new
  ledger is unlocking less than the old one.
\<close>

section \<open>Arithmetic of the books\<close>

definition optional :: "('v \<Rightarrow> nat) \<Rightarrow> 'v option \<Rightarrow> nat" where
  "optional f v = (case v of None \<Rightarrow> 0 | Some x \<Rightarrow> f x)"

lemma optional_simps [simp]: "optional f None = 0" "optional f (Some x) = f x"
  by (simp_all add: optional_def)

lemma sum_entries_put: "finite (dom m) \<Longrightarrow> sum_entries f (m(k := v)) + optional f (m k) = sum_entries f m + optional f v"
  using sum_entries_upd [of m f k] sum_entries_del [of m f k] by (cases v) (simp_all add: optional_def)

lemma safe_ledger_update:
  assumes "liquid_safe C lost s" and "staking_ledgers s' = (staking_ledgers s)(i \<mapsto> l)" and "ledger_ok l"
    and "unlockings s' = unlockings s" and "matching_ok (matching_pool s')"
    and "ls_total_reserves s' + staked (matching_pool s') \<le> staking_held C (ls_world s')"
    and "ls_total_reserves s' + staked (matching_pool s') + staking_held C (ls_world s) + unstaked (matching_pool s) + lost
           + optional (\<lambda>l. chunk_sum (sl_unlocking l)) (staking_ledgers s i)
         \<le> ls_total_reserves s + staked (matching_pool s) + staking_held C (ls_world s') + unstaked (matching_pool s') + lost'
           + chunk_sum (sl_unlocking l)"
  shows "liquid_safe C lost' s'"
proof -
  have "unlocking_total s' + optional (\<lambda>l. chunk_sum (sl_unlocking l)) (staking_ledgers s i) = unlocking_total s + chunk_sum (sl_unlocking l)"
    using sum_entries_put [of "staking_ledgers s" "\<lambda>l. chunk_sum (sl_unlocking l)" i "Some l"] assms(1,2)
    by (simp add: unlocking_total_def liquid_safe_def)
  moreover have "\<forall>l\<in>ran (staking_ledgers s'). ledger_ok l"
    using assms(1-3) by (auto simp: liquid_safe_def ran_def split: if_splits)
  ultimately show ?thesis using assms by (simp add: liquid_safe_def claims_total_def)
qed

lemma safe_claims_update:
  assumes "liquid_safe C lost s" and "unlockings s' = (unlockings s)(k := v)" and "staking_ledgers s' = staking_ledgers s"
    and "matching_ok (matching_pool s')" and "ls_total_reserves s' + staked (matching_pool s') \<le> staking_held C (ls_world s')"
    and "optional chunk_sum v + ls_total_reserves s' + staked (matching_pool s') + staking_held C (ls_world s) + unstaked (matching_pool s)
         \<le> optional chunk_sum (unlockings s k) + ls_total_reserves s + staked (matching_pool s) + staking_held C (ls_world s')
           + unstaked (matching_pool s')"
  shows "liquid_safe C lost s'"
proof -
  have "claims_total s' + optional chunk_sum (unlockings s k) = claims_total s + optional chunk_sum v"
    using sum_entries_put [of "unlockings s" chunk_sum k v] assms(1,2) by (simp add: claims_total_def liquid_safe_def)
  moreover have "unlocking_total s' = unlocking_total s" by (simp add: unlocking_total_def assms(3))
  ultimately show ?thesis using assms by (cases v) (simp_all add: liquid_safe_def)
qed

lemma push_chunk_le: "chunk_sum (push_chunk n era cs) \<le> chunk_sum cs + n"
  by (cases cs rule: rev_exhaust) (auto simp: push_chunk_def)

lemma unlocked_amount_sum:
  assumes "unlocked_amount era chunks = Inr n"
  shows "n + chunk_sum (filter (\<lambda>chunk. chunk_era chunk > era) chunks) = chunk_sum chunks"
proof -
  have "r + chunk_sum (filter (\<lambda>chunk. chunk_era chunk > era) cs) = a + chunk_sum cs"
    if "foldE (\<lambda>chunk amount. if chunk_era chunk > era then Inr amount else ok_or (add_u128 amount (chunk_value chunk)) Panic) cs a
          = (Inr r :: liquid_dispatch_error + balance)" for cs a r
    using that
  proof (induction cs arbitrary: a)
    case (Cons c cs)
    then show ?case by (fastforce simp: add_u128_def ok_or_def split: if_splits elim!: resultE)
  qed simp
  from this [OF assms [unfolded unlocked_amount_def]] show ?thesis by simp
qed

text \<open>What a call that replaces a ledger gives up.\<close>

definition ledger_loss :: "'w liquid_state \<Rightarrow> liquid_call \<Rightarrow> balance" where
  "ledger_loss s c =
     (let loss = (\<lambda>i l. optional (\<lambda>l. chunk_sum (sl_unlocking l)) (staking_ledgers s i) - chunk_sum (sl_unlocking l)) in
      case c of ForceSetStakingLedger i l \<Rightarrow> loss i l | SetStakingLedger i l _ \<Rightarrow> loss i l | _ \<Rightarrow> 0)"

text \<open>The assumptions on a call: it is not signed by the pallet's account, and a ledger it installs is well formed.\<close>

definition liquid_admitted :: "'w liquid_config \<Rightarrow> origin \<Rightarrow> liquid_call \<Rightarrow> bool" where
  "liquid_admitted C o' c \<longleftrightarrow> o' \<noteq> Signed (lk_pallet_account C) \<and>
     (case c of ForceSetStakingLedger _ l \<Rightarrow> ledger_ok l | SetStakingLedger _ l _ \<Rightarrow> ledger_ok l | _ \<Rightarrow> True)"

section \<open>The calls\<close>

context liquid_services
begin

lemma stake_safe:
  assumes "stake C s o' n = Inr s'" and "liquid_safe C lost s" and "o' \<noteq> Signed (lk_pallet_account C)"
  shows "liquid_safe C lost s'"
proof -
  define r where "r = pm_mul_floor (lk_arith C) (ls_reserve_factor s) n"
  from assms(1) obtain who where o': "o' = Signed who" unfolding stake_def by (auto elim!: resultE)
  with assms(3) have who: "who \<noteq> lk_pallet_account C" by simp
  from assms(1) obtain m liquid s1 s2 s3 p where
      1: "ls_transfer C s (lk_staking_currency C) who (lk_pallet_account C) m = Inr s1"
      and 2: "ls_call s1 (lk_add_xcm_fees C (ls_world s1) who (lk_xcm_fees C)) = Inr s2" and r: "r \<le> m"
      and 3: "ls_mint_into C s2 (lk_liquid_currency C) who liquid = Inr s3"
      and 4: "add_stake_amount (m - r) (matching_pool s3) = (Inr p :: liquid_dispatch_error + matching_ledger)"
      and s': "s' = ls_deposit_event (StakedEvent who (m - r)) (s3\<lparr>matching_pool := p, ls_total_reserves := ls_total_reserves s3 + r\<rparr>)"
    unfolding stake_def Let_def r_def [symmetric] ls_account_id_def o'
    by (auto simp: mutate_pool_Inr simp del: diff_diff_left dest!: staking_currency_Inr liquid_currency_Inr elim!: resultE)
  have 1: "moved C s s1 0 m" using transfer_moves(2) [OF 1 who] by simp
  have 2: "moved C s1 s2 0 0" by (rule call_moves [OF 2]) (simp add: fees_spare who)
  have 3: "moved C s2 s3 0 0" using mint_moves [OF 3] currencies(1) by simp
  from moved_trans [OF moved_trans [OF 1 2] 3] have "moved C s s3 0 m" by simp
  then obtain w where s3: "s3 = s\<lparr>ls_world := w\<rparr>" and w: "staking_held C (ls_world s) + m \<le> staking_held C w" by (auto elim: movedE)
  with 4 assms(2) have "matching_ok p \<and> staked p = staked (matching_pool s) + (m - r) \<and> unstaked p = unstaked (matching_pool s)"
    using pool_add(1) [OF 4] by (simp add: liquid_safe_def)
  with assms(2) w r show ?thesis
    unfolding s' s3 by (simp add: liquid_safe_def ls_deposit_event_def claims_total_def unlocking_total_def)
qed

lemma instant_unstake_moves:
  assumes "do_loans_instant_unstake C s who n = Inr s'"
  shows "moved C s s' 0 0"
proof -
  let ?z = "lk_pallet_account C" and ?c = "lk_collateral_currency C" and ?a = "lk_staking_currency C"
  from assms obtain b m s1 s2 s3 where 1: "ls_mint_into C s ?c ?z m = Inr s1"
      and 2: "ls_call s1 (lk_loans_mint C (ls_world s1) ?z ?c m) = Inr s2"
      and 3: "ls_call (ls_try s2 (lk_loans_collateral C (ls_world s2) ?z ?c True))
        (lk_loans_borrow C (ls_world (ls_try s2 (lk_loans_collateral C (ls_world s2) ?z ?c True))) ?z ?a b) = Inr s3"
      and 4: "ls_transfer C s3 ?a ?z who b = Inr s'"
    unfolding do_loans_instant_unstake_def Let_def ls_account_id_def by (auto dest!: staking_currency_Inr elim!: resultE)
  define t where "t = ls_try s2 (lk_loans_collateral C (ls_world s2) ?z ?c True)"
  have 1: "moved C s s1 0 0" using mint_moves [OF 1] currencies(3) by simp
  have 2: "moved C s1 s2 0 0" by (rule call_moves [OF 2]) (simp add: mint_spares)
  have coll: "moved C s2 t 0 0"
    using collateral_spares by (auto simp: t_def ls_try_def moved_def split: sum.split)
  have 3: "moved C t s3 0 b" by (rule call_moves [OF 3 [folded t_def]]) (simp add: borrow_pays)
  have 4: "moved C s3 s' b 0" using transfer_moves(1) [OF 4] by simp
  from moved_trans [OF moved_trans [OF moved_trans [OF moved_trans [OF 1 2] coll] 3] 4] have "moved C s s' b b" by simp
  then show ?thesis by (simp add: moved_def)
qed

lemma unstake_safe:
  assumes "unstake C s o' n provider = Inr s'" and "liquid_safe C lost s"
  shows "liquid_safe C lost s'"
proof (cases "provider = MatchingPoolProvider")
  case True
  with assms(1) have "keeps_books C s s'" unfolding unstake_def Let_def by (auto simp: keeps_books_def elim!: resultE)
  with assms(2) show ?thesis by (rule keeps_books_safe [rotated])
next
  case False
  from assms(1) False obtain who k m era t s1 s2 p where
      t: "t = s\<lparr>unlockings := (unlockings s)(k \<mapsto> push_chunk m era (case unlockings s k of None \<Rightarrow> [] | Some chunks \<Rightarrow> chunks))\<rparr>"
      and 1: "ls_burn_from C t (lk_liquid_currency C) who n = Inr s1"
      and 2: "(if provider = LoansProvider then do_loans_instant_unstake C s1 who m else Inr s1) = Inr s2"
      and 3: "add_unstake_amount m (matching_pool s2) = (Inr p :: liquid_dispatch_error + matching_ledger)"
      and s': "s' = ls_deposit_event (UnstakedEvent who n m) (s2\<lparr>matching_pool := p\<rparr>)"
    unfolding unstake_def Let_def by (auto simp: mutate_pool_Inr dest!: liquid_currency_Inr elim!: resultE)
  have 1: "moved C t s1 0 0" using burn_moves [OF 1] currencies(1) by simp
  have 2: "moved C s1 s2 0 0" using 2 instant_unstake_moves by (cases "provider = LoansProvider") (auto simp: moved_def)
  from moved_trans [OF 1 2] have "moved C t s2 0 0" by simp
  then obtain w where s2: "s2 = t\<lparr>ls_world := w\<rparr>" and w: "staking_held C (ls_world t) \<le> staking_held C w" by (auto elim: movedE)
  from 3 have p: "matching_ok p \<and> staked p = staked (matching_pool s) \<and> unstaked p = unstaked (matching_pool s) + m"
    using pool_add(2) [OF 3] assms(2) by (simp add: s2 t liquid_safe_def)
  define chunks where "chunks = (case unlockings s k of None \<Rightarrow> [] | Some chunks \<Rightarrow> chunks)"
  have chunks: "chunk_sum (push_chunk m era chunks) \<le> optional chunk_sum (unlockings s k) + m"
    using push_chunk_le [of m era chunks] by (simp add: chunks_def optional_def split: option.splits)
  show ?thesis
    by (rule safe_claims_update [OF assms(2), where k = k and v = "Some (push_chunk m era chunks)"])
      (use p w chunks assms(2) in \<open>simp_all add: s' s2 t ls_deposit_event_def chunks_def liquid_safe_def\<close>)
qed

lemma burn_staked_effect:
  assumes "burn_staked C n s = Inr s'" and "matching_ok (matching_pool s)"
  obtains w p f where "s' = s\<lparr>matching_pool := p, ls_world := w\<rparr>" "matching_ok p" "staked p + n + f = staked (matching_pool s)"
    "unstaked p + f = unstaked (matching_pool s)" "staking_held C (ls_world s) \<le> staking_held C w + n"
proof -
  from assms(1) obtain p where p: "consolidate_stake n (matching_pool s) = (Inr p :: liquid_dispatch_error + matching_ledger)"
      and burn: "ls_burn_from C (s\<lparr>matching_pool := p\<rparr>) (lk_staking_currency C) (lk_pallet_account C) n = Inr s'"
    unfolding burn_staked_def ls_account_id_def by (auto simp: mutate_pool_Inr dest!: staking_currency_Inr elim!: resultE)
  from consolidate_stake_effect [OF p assms(2)] obtain f where f: "matching_ok p" "staked p + n + f = staked (matching_pool s)"
    "unstaked p + f = unstaked (matching_pool s)" by blast
  from burn_moves [OF burn] have "moved C (s\<lparr>matching_pool := p\<rparr>) s' n 0" by simp
  then obtain w where "s' = s\<lparr>matching_pool := p, ls_world := w\<rparr>" "staking_held C (ls_world s) \<le> staking_held C w + n"
    by (rule movedE) simp
  with f show thesis by (intro that)
qed

lemma do_update_ledgerE:
  assumes "do_update_ledger i cb s = Inr s'"
  obtains l l' t where "staking_ledgers s i = Some l" and "cb l s = Inr (l', t)"
    and "s' = ls_deposit_event (StakingLedgerUpdated i l')
      (t\<lparr>is_updated := (is_updated t)(i := True), staking_ledgers := (staking_ledgers t)(i \<mapsto> l')\<rparr>)"
  using assms unfolding do_update_ledger_def by (auto elim!: resultE)

lemma safe_ledger: "liquid_safe C lost s \<Longrightarrow> staking_ledgers s i = Some l \<Longrightarrow> ledger_ok l"
  by (auto simp: liquid_safe_def ran_def)

lemma bonded_safe:
  assumes "burn_staked C n t = Inr u" and "liquid_safe C lost s"
    and "ledger_ok l" and "chunk_sum (sl_unlocking l) = optional (\<lambda>l. chunk_sum (sl_unlocking l)) (staking_ledgers s i)"
    and "staking_ledgers t = (staking_ledgers s)(i \<mapsto> l)" "unlockings t = unlockings s" "matching_pool t = matching_pool s"
      "ls_total_reserves t = ls_total_reserves s" "ls_world t = ls_world s"
  shows "liquid_safe C lost u"
proof -
  from burn_staked_effect [OF assms(1)] assms(2,7) obtain w p f where u: "u = t\<lparr>matching_pool := p, ls_world := w\<rparr>" "matching_ok p"
      "staked p + n + f = staked (matching_pool s)" "unstaked p + f = unstaked (matching_pool s)"
      "staking_held C (ls_world t) \<le> staking_held C w + n" by (auto simp: liquid_safe_def)
  show ?thesis
    by (rule safe_ledger_update [OF assms(2), where i = i and l = l])
      (use u assms(2-) in \<open>simp_all add: liquid_safe_def\<close>)
qed

lemma bond_amount_bounded:
  assumes "burn_staked C n t = Inr u" and "matching_ok (matching_pool t)"
  shows "n \<le> u128_max"
  by (rule burn_staked_effect [OF assms]) (use assms(2) in \<open>simp add: matching_ok_def\<close>)

lemma notified_bond_safe:
  assumes "burn_staked C n (s\<lparr>staking_ledgers := (staking_ledgers s)(i \<mapsto> new_staking_ledger x n)\<rparr>) = Inr s'"
    and "liquid_safe C lost s" and "staking_ledgers s i = None"
  shows "liquid_safe C lost s'"
  by (rule bonded_safe [OF assms(1,2), where i = i and l = "new_staking_ledger x n"])
    (use bond_amount_bounded [OF assms(1)] assms(2,3) in \<open>simp_all add: liquid_safe_def\<close>)

lemma notified_bond_extra_safe:
  assumes "do_update_ledger i (\<lambda>l s. bindE (bond_extra_ledger n l) (\<lambda>l. Inr (l, s))) s = Inr t" and "burn_staked C n t = Inr s'"
    and "liquid_safe C lost s"
  shows "liquid_safe C lost s'"
proof -
  from assms(1) obtain l l' where l: "staking_ledgers s i = Some l" and l': "bond_extra_ledger n l = (Inr l' :: liquid_dispatch_error + staking_ledger)"
      and t: "t = ls_deposit_event (StakingLedgerUpdated i l')
        (s\<lparr>is_updated := (is_updated s)(i := True), staking_ledgers := (staking_ledgers s)(i \<mapsto> l')\<rparr>)"
    by (auto elim!: do_update_ledgerE resultE)
  show ?thesis
    by (rule bonded_safe [OF assms(2,3), where i = i and l = l'])
      (use bond_extra_ledger_effect [OF l' safe_ledger [OF assms(3) l]] in \<open>simp_all add: l t ls_deposit_event_def\<close>)
qed

lemma notified_unbond_safe:
  assumes "do_update_ledger i (\<lambda>l s. bindE (unbond_ledger n era l) (\<lambda>l. Inr (l, s))) s = Inr t"
    and "mutate_pool (consolidate_unstake n) t = Inr s'" and "liquid_safe C lost s"
  shows "liquid_safe C lost s'"
proof -
  from assms(1) obtain l l' where l: "staking_ledgers s i = Some l" and l': "unbond_ledger n era l = (Inr l' :: liquid_dispatch_error + staking_ledger)"
      and t: "t = ls_deposit_event (StakingLedgerUpdated i l')
        (s\<lparr>is_updated := (is_updated s)(i := True), staking_ledgers := (staking_ledgers s)(i \<mapsto> l')\<rparr>)"
    by (auto elim!: do_update_ledgerE resultE)
  from assms(2) obtain p where p: "consolidate_unstake n (matching_pool s) = (Inr p :: liquid_dispatch_error + matching_ledger)"
      and s': "s' = t\<lparr>matching_pool := p\<rparr>" by (auto simp: mutate_pool_Inr t ls_deposit_event_def)
  from consolidate_unstake_effect [OF p] assms(3) obtain f where f: "matching_ok p" "staked p + f = staked (matching_pool s)"
      "unstaked p + n + f = unstaked (matching_pool s)" by (auto simp: liquid_safe_def)
  show ?thesis
    by (rule safe_ledger_update [OF assms(3), where i = i and l = l'])
      (use unbond_ledger_effect [OF l' safe_ledger [OF assms(3) l]] f assms(3) in \<open>simp_all add: l s' t ls_deposit_event_def liquid_safe_def\<close>)
qed

lemma notified_rebond_safe:
  assumes "do_update_ledger i (\<lambda>l s. bindE (rebond_ledger n l) (\<lambda>l. Inr (l, s))) s = Inr t"
    and "mutate_pool (consolidate_stake n) t = Inr s'" and "liquid_safe C lost s"
  shows "liquid_safe C lost s'"
proof -
  from assms(1) obtain l l' where l: "staking_ledgers s i = Some l" and l': "rebond_ledger n l = (Inr l' :: liquid_dispatch_error + staking_ledger)"
      and t: "t = ls_deposit_event (StakingLedgerUpdated i l')
        (s\<lparr>is_updated := (is_updated s)(i := True), staking_ledgers := (staking_ledgers s)(i \<mapsto> l')\<rparr>)"
    by (auto elim!: do_update_ledgerE resultE)
  from assms(2) obtain p where p: "consolidate_stake n (matching_pool s) = (Inr p :: liquid_dispatch_error + matching_ledger)"
      and s': "s' = t\<lparr>matching_pool := p\<rparr>" by (auto simp: mutate_pool_Inr t ls_deposit_event_def)
  from consolidate_stake_effect [OF p] assms(3) obtain f where f: "matching_ok p" "staked p + n + f = staked (matching_pool s)"
      "unstaked p + f = unstaked (matching_pool s)" by (auto simp: liquid_safe_def)
  show ?thesis
    by (rule safe_ledger_update [OF assms(3), where i = i and l = l'])
      (use rebond_ledger_effect [OF l' safe_ledger [OF assms(3) l]] f assms(3) in \<open>simp_all add: l s' t ls_deposit_event_def liquid_safe_def\<close>)
qed

lemma notified_withdraw_safe:
  assumes "do_update_ledger i (\<lambda>l s. bindE (staking_currency C) (\<lambda>a.
      let l' = consolidate_unlocked (current_era s) l; amount = saturating_sub (sl_total l) (sl_total l') in
      bindE (ls_mint_into C s a (ls_account_id C) amount) (\<lambda>s. Inr (l', s)))) s = Inr s'" and "liquid_safe C lost s"
  shows "liquid_safe C lost s'"
proof -
  from assms(1) obtain l t where l: "staking_ledgers s i = Some l"
      and m: "ls_mint_into C s (lk_staking_currency C) (lk_pallet_account C)
        (sl_total l - sl_total (consolidate_unlocked (current_era s) l)) = Inr t"
      and s': "s' = ls_deposit_event (StakingLedgerUpdated i (consolidate_unlocked (current_era s) l))
        (t\<lparr>is_updated := (is_updated t)(i := True), staking_ledgers := (staking_ledgers t)(i \<mapsto> consolidate_unlocked (current_era s) l)\<rparr>)"
    by (auto simp: Let_def ls_account_id_def dest!: staking_currency_Inr elim!: do_update_ledgerE resultE)
  let ?l = "consolidate_unlocked (current_era s) l"
  define n where "n = sl_total l - sl_total ?l"
  from mint_moves [OF m] obtain w where t: "t = s\<lparr>ls_world := w\<rparr>" and w: "staking_held C (ls_world s) + n \<le> staking_held C w"
    by (auto simp: n_def elim: movedE)
  have l': "ledger_ok ?l" "n + chunk_sum (sl_unlocking ?l) = chunk_sum (sl_unlocking l)"
    using consolidate_unlocked_effect [OF safe_ledger [OF assms(2) l], of "current_era s"] unfolding n_def by blast+
  show ?thesis
    by (rule safe_ledger_update [OF assms(2), where i = i and l = ?l])
      (use l' w assms(2) in \<open>simp_all add: l s' t ls_deposit_event_def liquid_safe_def\<close>)
qed

lemma request_dropped_safe:
  assumes "bindE m (\<lambda>s. Inr (s\<lparr>staking_requests := (staking_requests s)(q := None)\<rparr>)) = Inr s'" and "\<And>t. m = Inr t \<Longrightarrow> liquid_safe C lost t"
  shows "liquid_safe C lost s'"
  using assms by (auto simp: liquid_safe_def claims_total_def unlocking_total_def elim!: bindE_InrE)

lemma notification_safe:
  assumes "ls_do_notification_received C s q r res = Inr s'" and safe: "liquid_safe C lost s"
  shows "liquid_safe C lost s'"
proof (cases "res = None")
  case True
  note received = assms(1) [unfolded ls_do_notification_received_def True, simplified not_True_eq_False simp_thms if_False]
  show ?thesis
  proof (rule request_dropped_safe [OF received], goal_cases)
    case (1 t)
    then show ?case
      by (cases r; simp only: staking_request.case; elim bindE_InrE ensure_InrE Inr_InrE)
        (blast intro: safe notified_bond_safe [OF _ safe] notified_bond_extra_safe [OF _ _ safe] notified_unbond_safe [OF _ _ safe]
          notified_rebond_safe [OF _ _ safe] notified_withdraw_safe [OF _ safe])+
  qed
qed (use assms in \<open>simp add: ls_do_notification_received_def\<close>)

lemma notification_received_safe:
  assumes "ls_notification_received C s o' q r = Inr s'" and "liquid_safe C lost s"
  shows "liquid_safe C lost s'"
proof -
  have event: "liquid_safe C lost t \<Longrightarrow> liquid_safe C lost (ls_deposit_event e t)" for t e
    by (simp add: liquid_safe_def ls_deposit_event_def claims_total_def unlocking_total_def)
  show ?thesis
    using assms unfolding ls_notification_received_def
    by (cases r) (auto split: option.splits elim!: bindE_InrE intro: event notification_safe)
qed

lemma claim_moves:
  assumes "ls_do_claim_for C s who n = Inr s'"
  shows "moved C s s' n 0"
proof (cases "who = loans_account_id C")
  case True
  let ?z = "lk_pallet_account C" and ?c = "lk_collateral_currency C" and ?a = "lk_staking_currency C"
  from assms True obtain b w m s1 s2 where 0: "lk_loans_borrow_balance C (ls_world s) ?z ?a = Inr (b, w)"
      and 1: "ls_call (s\<lparr>ls_world := w\<rparr>) (lk_loans_repay C w ?z ?a (min b n)) = Inr s1"
      and 2: "ls_call s1 (lk_loans_redeem C (ls_world s1) ?z ?c m) = Inr s2" and 3: "ls_burn_from C s2 ?c ?z m = Inr s'"
    unfolding ls_do_claim_for_def Let_def ls_account_id_def by (auto dest!: staking_currency_Inr elim!: resultE)
  have 0: "moved C s (s\<lparr>ls_world := w\<rparr>) 0 0" using borrow_balance_spares [OF 0] by (simp add: moved_def)
  have 1: "moved C (s\<lparr>ls_world := w\<rparr>) s1 n 0" by (rule call_moves [OF 1]) (drule repay_takes, simp)
  have 2: "moved C s1 s2 0 0" by (rule call_moves [OF 2]) (simp add: redeem_spares)
  have 3: "moved C s2 s' 0 0" using burn_moves [OF 3] currencies(3) by simp
  from moved_trans [OF moved_trans [OF moved_trans [OF 0 1] 2] 3] show ?thesis by simp
next
  case False
  with assms have "ls_transfer C s (lk_staking_currency C) (lk_pallet_account C) who n = Inr s'"
    unfolding ls_do_claim_for_def Let_def ls_account_id_def by (auto dest!: staking_currency_Inr elim!: resultE)
  from transfer_moves(1) [OF this] show ?thesis by simp
qed

lemma liquid_claim_safe:
  assumes "ls_claim_for C s o' dest = Inr s'" and "liquid_safe C lost s"
  shows "liquid_safe C lost s'"
proof -
  from assms(1) obtain who chunks n t where chunks: "unlockings s who = Some chunks"
      and n: "unlocked_amount (current_era s) chunks = Inr n" "n \<noteq> 0" "n \<le> get_total_unclaimed C s (lk_staking_currency C)"
      and claim: "ls_do_claim_for C s who n = Inr t"
      and s': "s' = ls_deposit_event (ClaimedFor who n) (t\<lparr>unlockings := (unlockings t)(who :=
        if filter (\<lambda>chunk. chunk_era chunk > current_era s) chunks = [] then None else Some (filter (\<lambda>chunk. chunk_era chunk > current_era s) chunks))\<rparr>)"
    unfolding ls_claim_for_def Let_def by (auto simp del: filter_empty_conv dest!: staking_currency_Inr elim!: resultE)
  define rest where "rest = filter (\<lambda>chunk. chunk_era chunk > current_era s) chunks"
  from claim_moves [OF claim] obtain w where t: "t = s\<lparr>ls_world := w\<rparr>" and w: "staking_held C (ls_world s) \<le> staking_held C w + n"
    by (auto elim: movedE)
  have free: "n + ls_total_reserves s + staked (matching_pool s) \<le> staking_held C (ls_world s)"
    using n(2,3) reducible [of "ls_world s"] by (simp add: get_total_unclaimed_def ls_account_id_def staking_held_def)
  have left: "optional chunk_sum (if rest = [] then None else Some rest) + n = chunk_sum chunks"
    using unlocked_amount_sum [OF n(1)] by (auto simp: rest_def [symmetric])
  show ?thesis
    by (rule safe_claims_update [OF assms(2), where k = who and v = "if rest = [] then None else Some rest"])
      (use w free left assms(2) in \<open>simp_all add: s' t rest_def ls_deposit_event_def chunks liquid_safe_def\<close>)
qed

lemma fast_match_one_safe:
  assumes "do_fast_match_unstake C x s = Inr s'" and "liquid_safe C lost s"
  shows "liquid_safe C lost s'"
proof (cases "fast_unstake_requests s x")
  case None
  with assms show ?thesis by (simp add: do_fast_match_unstake_def)
next
  case (Some n)
  let ?z = "lk_pallet_account C" and ?a = "lk_staking_currency C" and ?l = "lk_liquid_currency C"
  have request: "liquid_safe C lost (t\<lparr>fast_unstake_requests := m\<rparr>)" if "liquid_safe C lost t" for t m
    using that by (simp add: liquid_safe_def claims_total_def unlocking_total_def)
  have matched: "liquid_safe C lost (ls_deposit_event e s4)"
    if 1: "ls_burn_from C s ?l x b = Inr s1" and 2: "ls_transfer C s1 ?l x y fee = Inr s2"
      and 3: "mutate_pool (sub_stake_amount k) s2 = Inr s3" and 4: "ls_transfer C s3 ?a ?z x k = Inr s4" for b s1 y fee s2 k s3 s4 e
  proof -
    have 1: "moved C s s1 0 0" using burn_moves [OF 1] currencies(1) by simp
    have 2: "moved C s1 s2 0 0" using transfer_moves [OF 2] currencies(1) by (cases "x = ?z") simp_all
    from moved_trans [OF 1 2] obtain w where s2: "s2 = s\<lparr>ls_world := w\<rparr>" "staking_held C (ls_world s) \<le> staking_held C w"
      by (auto elim: movedE)
    from 3 obtain p where p: "sub_stake_amount k (matching_pool s) = (Inr p :: liquid_dispatch_error + matching_ledger)"
      and s3: "s3 = s2\<lparr>matching_pool := p\<rparr>" by (auto simp: mutate_pool_Inr s2)
    from transfer_moves(1) [OF 4] obtain v where s4: "s4 = s3\<lparr>ls_world := v\<rparr>" "staking_held C w \<le> staking_held C v + k"
      by (auto simp: s3 s2 elim: movedE)
    show ?thesis
      using pool_sub(1) [OF p] assms(2) s2(2) s4(2)
      by (simp add: liquid_safe_def ls_deposit_event_def s4(1) s3 s2(1) claims_total_def unlocking_total_def)
  qed
  from assms(1) Some show ?thesis
    unfolding do_fast_match_unstake_def Let_def option.case ls_account_id_def
    by (auto dest!: liquid_currency_Inr staking_currency_Inr split: if_splits elim!: resultE intro!: request intro: matched assms(2))
qed

lemma fast_match_safe:
  assumes "foldE (do_fast_match_unstake C) xs s = Inr s'" and "liquid_safe C lost s"
  shows "liquid_safe C lost s'"
  using assms by (induction xs arbitrary: s) (auto elim!: bindE_InrE dest: fast_match_one_safe)

lemma reduce_reserves_safe:
  assumes "ls_reduce_reserves C s o' dest n = Inr s'" and "liquid_safe C lost s"
  shows "liquid_safe C lost s'"
proof -
  from assms(1) obtain x t where n: "n \<le> ls_total_reserves s" and s': "s' = ls_deposit_event (ReservesReduced x n) t"
      and 1: "ls_transfer C (s\<lparr>ls_total_reserves := ls_total_reserves s - n\<rparr>) (lk_staking_currency C) (lk_pallet_account C) x n = Inr t"
    unfolding ls_reduce_reserves_def Let_def ls_account_id_def by (auto dest!: staking_currency_Inr elim!: resultE)
  from transfer_moves(1) [OF 1] obtain w where "t = s\<lparr>ls_total_reserves := ls_total_reserves s - n, ls_world := w\<rparr>"
      "staking_held C (ls_world s) \<le> staking_held C w + n" by (auto elim: movedE)
  with n assms(2) show ?thesis
    by (simp add: s' liquid_safe_def ls_deposit_event_def claims_total_def unlocking_total_def, linarith)
qed

text \<open>Replacing a ledger after steps that only take in value.\<close>

lemma replaced_safe:
  assumes "keeps_books C s t" and "liquid_safe C lost s" and "ledger_ok l"
    and "optional (\<lambda>l. chunk_sum (sl_unlocking l)) (staking_ledgers s i) \<le> lost' + chunk_sum (sl_unlocking l)"
  shows "liquid_safe C (lost + lost') (ls_deposit_event (StakingLedgerUpdated i l)
    (t\<lparr>is_updated := (is_updated t)(i := True), staking_ledgers := (staking_ledgers t)(i \<mapsto> l)\<rparr>))"
  by (rule safe_ledger_update [OF assms(2), where i = i and l = l])
    (use assms in \<open>simp_all add: keeps_books_def liquid_safe_def ls_deposit_event_def\<close>)

lemma force_set_ledger_safe:
  assumes "force_set_staking_ledger C s o' i l = Inr s'" and "liquid_safe C lost s" and "ledger_ok l"
  shows "liquid_safe C (lost + ledger_loss s (ForceSetStakingLedger i l)) s'"
proof -
  from assms(1) have "s' = ls_deposit_event (StakingLedgerUpdated i l)
      (s\<lparr>is_updated := (is_updated s)(i := True), staking_ledgers := (staking_ledgers s)(i \<mapsto> l)\<rparr>)"
    unfolding force_set_staking_ledger_def by (auto elim!: do_update_ledgerE resultE)
  with replaced_safe [OF keeps_books_refl assms(2,3), of i "ledger_loss s (ForceSetStakingLedger i l)"] show ?thesis
    by (simp add: ledger_loss_def)
qed

lemma set_ledger_safe:
  assumes "set_staking_ledger C s o' i l prf = Inr s'" and "liquid_safe C lost s" and "ledger_ok l"
  shows "liquid_safe C (lost + ledger_loss s (SetStakingLedger i l prf)) s'"
proof -
  have mint: "keeps_books C t u"
    if "(if n \<noteq> 0 then bindE (liquid_currency C) (\<lambda>a. ls_mint_into C t a x n) else Inr t) = Inr u" for n x t u
    using that currencies(1) by (auto split: if_splits elim!: resultE dest!: liquid_currency_Inr mint_moves intro: moved_keeps_books)
  have event: "keeps_books C s (if b then ls_deposit_event e s else s)" for b e
    by (simp add: keeps_books_def ls_deposit_event_def)
  from assms(1) obtain l' t where s': "s' = ls_deposit_event (StakingLedgerUpdated i l')
      (t\<lparr>is_updated := (is_updated t)(i := True), staking_ledgers := (staking_ledgers t)(i \<mapsto> l')\<rparr>)"
      and "l' = l \<and> keeps_books C s t"
    unfolding set_staking_ledger_def Let_def
    apply (elim bindE_InrE do_update_ledgerE)
    apply (erule that)
    apply (elim bindE_InrE Inr_pairE)
    apply hypsubst
    apply (rule conjI [OF refl])
    apply (rule keeps_books_trans [OF keeps_books_trans [OF event mint] incentive_keeps_books])
    apply assumption
    done
  then have t: "keeps_books C s t" and "s' = ls_deposit_event (StakingLedgerUpdated i l)
      (t\<lparr>is_updated := (is_updated t)(i := True), staking_ledgers := (staking_ledgers t)(i \<mapsto> l)\<rparr>)" by simp_all
  with replaced_safe [OF t assms(2,3), of i "ledger_loss s (SetStakingLedger i l prf)"] show ?thesis
    by (simp add: ledger_loss_def)
qed

lemma set_current_era_keeps_books:
  assumes "set_current_era C s o' era prf = Inr s'"
  shows "keeps_books C s s'"
  using assms unfolding set_current_era_def Let_def
  by (auto split: if_splits elim!: resultE intro: keeps_books_trans [OF advance_keeps_books incentive_keeps_books] advance_keeps_books)

lemma settings_keep_books:
  "update_reserve_factor C s o' f = Inr s' \<Longrightarrow> keeps_books C s s'"
  "update_staking_ledger_cap C s o' n = Inr s' \<Longrightarrow> keeps_books C s s'"
  "force_set_era_start_block C s o' b = Inr s' \<Longrightarrow> keeps_books C s s'"
  "force_set_current_era C s o' e = Inr s' \<Longrightarrow> keeps_books C s s'"
  "cancel_unstake C s o' n = Inr s' \<Longrightarrow> keeps_books C s s'"
  "update_commission_rate C s o' r = Inr s' \<Longrightarrow> keeps_books C s s'"
  "update_incentive C s o' n = Inr s' \<Longrightarrow> keeps_books C s s'"
  unfolding update_reserve_factor_def update_staking_ledger_cap_def force_set_era_start_block_def force_set_current_era_def
    cancel_unstake_def update_commission_rate_def update_incentive_def Let_def
  by (auto simp: keeps_books_def ls_deposit_event_def elim!: resultE)

lemma messages_keep_books:
  "bond C s o' i n payee = Inr s' \<Longrightarrow> keeps_books C s s'"
  "bond_extra C s o' i n = Inr s' \<Longrightarrow> keeps_books C s s'"
  "unbond C s o' i n = Inr s' \<Longrightarrow> keeps_books C s s'"
  "rebond C s o' i n = Inr s' \<Longrightarrow> keeps_books C s s'"
  "withdraw_unbonded C s o' i k = Inr s' \<Longrightarrow> keeps_books C s s'"
  "nominate C s o' i ts = Inr s' \<Longrightarrow> keeps_books C s s'"
  "force_advance_era C s o' e = Inr s' \<Longrightarrow> keeps_books C s s'"
  "force_matching C s o' = Inr s' \<Longrightarrow> keeps_books C s s'"
  unfolding bond_def bond_extra_def unbond_def rebond_def withdraw_unbonded_def nominate_def force_advance_era_def force_matching_def
  by (auto elim!: bindE_InrE intro: bond_keeps_books bond_extra_keeps_books unbond_keeps_books rebond_keeps_books withdraw_keeps_books
      nominate_keeps_books advance_keeps_books matching_keeps_books)

lemma dispatch_safe:
  assumes "liquid_dispatch C s o' c = Inr s'" and safe: "liquid_safe C lost s" and "liquid_admitted C o' c"
  shows "liquid_safe C (lost + ledger_loss s c) s'"
proof -
  have books: "liquid_safe C (lost + ledger_loss s c) s'" if "keeps_books C s s'" "ledger_loss s c = 0"
    using that keeps_books_safe [OF that(1) safe] by simp
  show ?thesis
  proof (cases c)
    case (CallStake n)
    with assms show ?thesis using stake_safe by (simp add: liquid_admitted_def ledger_loss_def)
  next
    case (CallUnstake n p)
    with assms show ?thesis using unstake_safe by (simp add: ledger_loss_def)
  next
    case (StakingNotification q r)
    with assms show ?thesis using notification_received_safe by (simp add: ledger_loss_def)
  next
    case (StakingClaimFor d)
    with assms show ?thesis using liquid_claim_safe by (simp add: ledger_loss_def)
  next
    case (ForceSetStakingLedger i l)
    with assms show ?thesis using force_set_ledger_safe by (simp add: liquid_admitted_def)
  next
    case (SetStakingLedger i l evidence)
    with assms show ?thesis using set_ledger_safe by (simp add: liquid_admitted_def)
  next
    case (ReduceStakingReserves r n)
    with assms show ?thesis using reduce_reserves_safe by (simp add: ledger_loss_def)
  next
    case (FastMatchUnstake us)
    with assms show ?thesis using fast_match_safe by (auto simp: ledger_loss_def fast_match_unstake_def elim!: bindE_InrE)
  next
    case (SetCurrentEra e evidence)
    with assms(1) show ?thesis by (intro books) (simp_all add: ledger_loss_def set_current_era_keeps_books)
  qed (use assms(1) in \<open>auto simp: ledger_loss_def intro: keeps_books_safe [OF _ safe] settings_keep_books messages_keep_books\<close>)
qed

text \<open>What others do on the ledger of the assets, as long as it spares the pallet's account.\<close>

lemma others_keep_books:
  assumes "ledger_exec (lk_assets C) (ls_world s) act = Inr w" and "spares (lk_pallet_account C) act"
  shows "keeps_books C s (s\<lparr>ls_world := w\<rparr>)"
  using ledger_exec_spares [OF ledger assms(1)] assms(2) by (simp add: keeps_books_def staking_held_def)

end

end
