(* ===== verification/Liquid_Histories.thy ===== *)
theory Liquid_Histories
  imports Liquid_Safety
begin

text \<open>
  Histories of liquid staking: calls, the two block hooks and ledger activity of others, each in an environment of its own,
  so that the relay block, the members and the proofs change between them.  Next to the state a history carries what the
  replaced ledgers gave up.

  Every history from an empty pallet keeps the books, and the exchange rate never falls.
\<close>

datatype liquid_action =
    LiquidCall origin liquid_call
  | LiquidInitialize
  | LiquidFinalize
  | LiquidOther ledger_action

fun liquid_exec ::
    "'w liquid_state \<times> balance \<Rightarrow> 'w liquid_config \<times> liquid_action \<Rightarrow> liquid_dispatch_error + 'w liquid_state \<times> balance" where
  "liquid_exec (s, lost) (C, LiquidCall o' call) =
     bindE (liquid_dispatch C s o' call) (\<lambda>s'. Inr (s', lost + ledger_loss s call))"
| "liquid_exec (s, lost) (C, LiquidInitialize) = bindE (ls_on_initialize C s) (\<lambda>s'. Inr (s', lost))"
| "liquid_exec (s, lost) (C, LiquidFinalize) = Inr (ls_on_finalize C s, lost)"
| "liquid_exec (s, lost) (C, LiquidOther act) =
     bindE (map_err External (ledger_exec (lk_assets C) (ls_world s) act)) (\<lambda>w. Inr (s\<lparr>ls_world := w\<rparr>, lost))"

definition liquid_genesis :: "rate \<Rightarrow> ratio \<Rightarrow> 'w \<Rightarrow> 'w liquid_state" where
  "liquid_genesis r f w = \<lparr>ls_exchange_rate = r, commission_rate = 0, validation_data = None, ls_reserve_factor = f,
     ls_total_reserves = 0, matching_pool = default_matching_ledger, staking_ledger_cap = 0, staking_requests = Map.empty,
     fast_unstake_requests = Map.empty, current_era = 0, era_start_block = 0, unlockings = Map.empty, staking_ledgers = Map.empty,
     is_updated = (\<lambda>_. False), is_matched = False, incentive = 0, ls_world = w, ls_events = []\<rparr>"

text \<open>The environments of a history agree on the ledger, the pallet's account and the staking currency.\<close>

definition same_staking :: "'w liquid_config \<Rightarrow> 'w liquid_config \<Rightarrow> bool" where
  "same_staking C C' \<longleftrightarrow> lk_assets C' = lk_assets C \<and> lk_pallet_account C' = lk_pallet_account C \<and>
     lk_staking_currency C' = lk_staking_currency C"

fun liquid_action_admitted :: "'w liquid_config \<times> liquid_action \<Rightarrow> bool" where
  "liquid_action_admitted (C, LiquidCall o' call) \<longleftrightarrow> liquid_admitted C o' call"
| "liquid_action_admitted (C, LiquidOther act) \<longleftrightarrow> spares (lk_pallet_account C) act"
| "liquid_action_admitted (C, _) \<longleftrightarrow> True"

definition staking_environment :: "'w liquid_config \<Rightarrow> 'w liquid_config \<times> liquid_action \<Rightarrow> bool" where
  "staking_environment C act \<longleftrightarrow> same_staking C (fst act) \<and> liquid_services (fst act) \<and> liquid_action_admitted act"

lemma same_staking_safe: "same_staking C C' \<Longrightarrow> liquid_safe C' lost s \<longleftrightarrow> liquid_safe C lost s"
  by (simp add: same_staking_def liquid_safe_def staking_held_def)

section \<open>The books of histories\<close>

interpretation staking: kept_by_calls liquid_exec "staking_environment C" "\<lambda>(s, lost). liquid_safe C lost s"
  for C :: "'w liquid_config"
proof
  fix act and x x' :: "'w liquid_state \<times> balance"
  assume adm: "staking_environment C act" and safe: "case x of (s, lost) \<Rightarrow> liquid_safe C lost s" and ex: "liquid_exec x act = Inr x'"
  obtain C' a s lost s' lost' where eq: "act = (C', a)" "x = (s, lost)" "x' = (s', lost')" by (cases act, cases x, cases x')
  have env: "same_staking C C'" and sv: "liquid_services C'" and ok: "liquid_action_admitted (C', a)"
    using adm by (simp_all add: staking_environment_def eq)
  have safe': "liquid_safe C' lost s" using safe same_staking_safe [OF env] by (simp add: eq)
  have "liquid_safe C' lost' s'"
  proof (cases a)
    case (LiquidCall o' call)
    with ex ok show ?thesis using liquid_services.dispatch_safe [OF sv _ safe'] by (auto simp: eq elim!: resultE)
  next
    case LiquidInitialize
    with ex keeps_books_safe [OF liquid_services.on_initialize_keeps_books [OF sv] safe'] show ?thesis by (auto simp: eq)
  next
    case LiquidFinalize
    with ex keeps_books_safe [OF liquid_services.on_finalize_keeps_books [OF sv] safe'] show ?thesis by (simp add: eq)
  next
    case (LiquidOther l)
    with ex ok keeps_books_safe [OF liquid_services.others_keep_books [OF sv] safe'] show ?thesis by (auto simp: eq elim!: resultE)
  qed
  then show "case x' of (s, lost) \<Rightarrow> liquid_safe C lost s" using same_staking_safe [OF env] by (simp add: eq)
qed

lemma liquid_genesis_safe: "liquid_safe C 0 (liquid_genesis r f w)"
  by (simp add: liquid_safe_def liquid_genesis_def matching_ok_def default_matching_ledger_def claims_total_def)

section \<open>The exchange rate\<close>

abbreviation same_rate :: "'w liquid_state \<Rightarrow> 'w liquid_state \<Rightarrow> bool" where
  "same_rate s s' \<equiv> ls_exchange_rate s' = ls_exchange_rate s"

lemma step_rate:
  "ls_transfer C s a x y n = Inr s' \<Longrightarrow> same_rate s s'" "ls_mint_into C s a x n = Inr s' \<Longrightarrow> same_rate s s'"
  "ls_burn_from C s a x n = Inr s' \<Longrightarrow> same_rate s s'" "ls_call s m = Inr s' \<Longrightarrow> same_rate s s'"
  "mutate_pool f s = Inr s' \<Longrightarrow> same_rate s s'" "send_request s q r e = Inr s' \<Longrightarrow> same_rate s s'"
  by (auto simp: ls_transfer_def ls_mint_into_def ls_burn_from_def ls_call_def mutate_pool_def send_request_def put_request_def
      ls_deposit_event_def elim!: resultE)

lemma state_rate [simp]: "same_rate s (ls_try s m)" "same_rate s (ls_deposit_event e s)"
  by (simp_all add: ls_try_def ls_deposit_event_def split: sum.split)

lemma bond_rate: "ls_do_bond_extra C s i n = Inr s' \<Longrightarrow> same_rate s s'" "ls_do_bond C s i n payee = Inr s' \<Longrightarrow> same_rate s s'"
proof -
  show extra: "same_rate s s'" if "ls_do_bond_extra C s i n = Inr s'" for s s'
    using that unfolding ls_do_bond_extra_def by (auto split: if_splits elim!: resultE dest!: step_rate)
  show "ls_do_bond C s i n payee = Inr s' \<Longrightarrow> same_rate s s'"
    unfolding ls_do_bond_def Let_def by (auto split: if_splits elim!: resultE dest!: step_rate extra)
qed

lemma message_rate:
  "ls_do_unbond C s i n = Inr s' \<Longrightarrow> same_rate s s'" "ls_do_rebond C s i n = Inr s' \<Longrightarrow> same_rate s s'"
  "ls_do_withdraw_unbonded C s i k = Inr s' \<Longrightarrow> same_rate s s'" "ls_do_nominate C s i ts = Inr s' \<Longrightarrow> same_rate s s'"
  unfolding ls_do_unbond_def ls_do_rebond_def ls_do_withdraw_unbonded_def ls_do_nominate_def
  by (auto split: if_splits elim!: resultE dest!: step_rate)

lemma foldE_rate:
  assumes "foldE f xs s = Inr s'" and "\<And>x s s'. f x s = Inr s' \<Longrightarrow> same_rate s s'"
  shows "same_rate s s'"
  using assms(1)
proof (induction xs arbitrary: s)
  case (Cons x xs)
  then obtain t where "f x s = Inr t" and "foldE f xs t = Inr s'" by auto
  with assms(2) Cons.IH show ?case by metis
qed simp

lemma multi_rate:
  "do_multi_bond C n payee s = Inr s' \<Longrightarrow> same_rate s s'" "do_multi_unbond C n s = Inr s' \<Longrightarrow> same_rate s s'"
  "do_multi_rebond C n s = Inr s' \<Longrightarrow> same_rate s s'" "do_multi_withdraw_unbonded C k s = Inr s' \<Longrightarrow> same_rate s s'"
  unfolding do_multi_bond_def do_multi_unbond_def do_multi_rebond_def do_multi_withdraw_unbonded_def Let_def
  by (auto split: if_splits elim!: foldE_rate intro: bond_rate message_rate)

lemma matching_rate: "do_matching C s = Inr s' \<Longrightarrow> same_rate s s'"
  unfolding do_matching_def Let_def by (auto elim!: resultE dest!: multi_rate)

lemma advance_rate: "do_advance_era C offset s = Inr s' \<Longrightarrow> ls_exchange_rate s \<le> ls_exchange_rate s'"
  unfolding do_advance_era_def do_update_exchange_rate_def Let_def
  by (auto split: if_splits sum.splits elim!: resultE)

lemma on_initialize_rate: "ls_on_initialize C s = Inr s' \<Longrightarrow> ls_exchange_rate s \<le> ls_exchange_rate s'"
  unfolding ls_on_initialize_def Let_def
  by (auto split: sum.splits if_splits dispatch_error.splits elim!: resultE dest!: matching_rate advance_rate)

lemma ledger_update_rate:
  assumes "do_update_ledger i cb s = Inr s'" and "\<And>l l' t. cb l s = Inr (l', t) \<Longrightarrow> same_rate s t"
  shows "same_rate s s'"
  using assms unfolding do_update_ledger_def by (auto elim!: resultE)

lemma burn_staked_rate: "burn_staked C n s = Inr s' \<Longrightarrow> same_rate s s'"
  unfolding burn_staked_def by (auto elim!: resultE dest!: step_rate)

lemma notification_rate:
  assumes "ls_do_notification_received C s q r res = Inr s'"
  shows "same_rate s s'"
proof (cases "res = None")
  case True
  have same: "same_rate s t" if "do_update_ledger i (\<lambda>l s. bindE (f l) (\<lambda>l. Inr (l, s))) s = Inr t" for i t
      and f :: "staking_ledger \<Rightarrow> liquid_dispatch_error + staking_ledger"
    by (rule ledger_update_rate [OF that]) (auto elim!: resultE)
  have withdrawn: "same_rate s t" if "do_update_ledger i (\<lambda>l s. bindE (staking_currency C) (\<lambda>a.
      let l' = consolidate_unlocked (current_era s) l; amount = saturating_sub (sl_total l) (sl_total l') in
      bindE (ls_mint_into C s a (ls_account_id C) amount) (\<lambda>s. Inr (l', s)))) s = Inr t" for i t
    by (rule ledger_update_rate [OF that]) (auto simp: Let_def elim!: resultE dest: step_rate)
  from assms obtain t where t: "same_rate t s'" and "same_rate s t"
    unfolding ls_do_notification_received_def True
    by (cases r; simp only: staking_request.case not_True_eq_False simp_thms if_False; elim bindE_InrE ensure_InrE Inr_InrE)
      (force dest!: burn_staked_rate same withdrawn step_rate)+
  then show ?thesis by simp
qed (use assms in \<open>simp add: ls_do_notification_received_def\<close>)

lemma claim_rate: "ls_do_claim_for C s who n = Inr s' \<Longrightarrow> same_rate s s'"
  unfolding ls_do_claim_for_def Let_def by (auto split: if_splits elim!: resultE dest!: step_rate)

lemma instant_unstake_rate: "do_loans_instant_unstake C s who n = Inr s' \<Longrightarrow> same_rate s s'"
  unfolding do_loans_instant_unstake_def Let_def by (auto elim!: resultE dest!: step_rate)

lemma fast_match_rate: "do_fast_match_unstake C x s = Inr s' \<Longrightarrow> same_rate s s'"
  unfolding do_fast_match_unstake_def Let_def by (auto split: option.splits if_splits elim!: resultE dest!: step_rate)

lemma set_ledger_rate:
  assumes "set_staking_ledger C s o' i l evidence = Inr s'"
  shows "same_rate s s'"
proof -
  have mint: "same_rate t u" if "(if n \<noteq> 0 then bindE (liquid_currency C) (\<lambda>a. ls_mint_into C t a x n) else Inr t) = Inr u" for n x t u
    using that by (auto split: if_splits elim!: resultE dest!: step_rate)
  have event: "same_rate s (if b then ls_deposit_event e s else s)" for b e
    by simp
  show ?thesis
    using assms unfolding set_staking_ledger_def Let_def
    apply (elim bindE_InrE)
    apply (erule ledger_update_rate)
    apply (elim bindE_InrE Inr_pairE)
    apply hypsubst
    apply (rule trans [OF state_rate(1) trans [OF mint event]])
    apply assumption
    done
qed

lemma value_calls_rate:
  "stake C s o' n = Inr s' \<Longrightarrow> same_rate s s'"
  "unstake C s o' n provider = Inr s' \<Longrightarrow> same_rate s s'"
  "ls_notification_received C s o' q r = Inr s' \<Longrightarrow> same_rate s s'"
  "ls_claim_for C s o' d = Inr s' \<Longrightarrow> same_rate s s'"
  "force_set_staking_ledger C s o' i l = Inr s' \<Longrightarrow> same_rate s s'"
  "ls_reduce_reserves C s o' d n = Inr s' \<Longrightarrow> same_rate s s'"
  "fast_match_unstake C s o' us = Inr s' \<Longrightarrow> same_rate s s'"
  subgoal unfolding stake_def Let_def by (auto elim!: resultE dest!: step_rate)
  subgoal unfolding unstake_def Let_def by (auto split: if_splits elim!: resultE dest!: step_rate instant_unstake_rate)
  subgoal unfolding ls_notification_received_def
    by (auto split: staking_response.splits option.splits elim!: bindE_InrE dest!: notification_rate)
  subgoal unfolding ls_claim_for_def Let_def by (auto elim!: resultE dest!: claim_rate)
  subgoal unfolding force_set_staking_ledger_def by (auto elim!: resultE dest!: ledger_update_rate)
  subgoal unfolding ls_reduce_reserves_def Let_def by (auto elim!: resultE dest!: step_rate)
  subgoal unfolding fast_match_unstake_def by (auto elim!: bindE_InrE foldE_rate intro: fast_match_rate)
  done

lemma settings_rate:
  "update_reserve_factor C s o' f = Inr s' \<Longrightarrow> same_rate s s'"
  "update_staking_ledger_cap C s o' n = Inr s' \<Longrightarrow> same_rate s s'"
  "force_set_era_start_block C s o' b = Inr s' \<Longrightarrow> same_rate s s'"
  "force_set_current_era C s o' e = Inr s' \<Longrightarrow> same_rate s s'"
  "cancel_unstake C s o' n = Inr s' \<Longrightarrow> same_rate s s'"
  "update_commission_rate C s o' r = Inr s' \<Longrightarrow> same_rate s s'"
  "update_incentive C s o' n = Inr s' \<Longrightarrow> same_rate s s'"
  "bond C s o' i n payee = Inr s' \<Longrightarrow> same_rate s s'"
  "bond_extra C s o' i n = Inr s' \<Longrightarrow> same_rate s s'"
  "unbond C s o' i n = Inr s' \<Longrightarrow> same_rate s s'"
  "rebond C s o' i n = Inr s' \<Longrightarrow> same_rate s s'"
  "withdraw_unbonded C s o' i k = Inr s' \<Longrightarrow> same_rate s s'"
  "nominate C s o' i ts = Inr s' \<Longrightarrow> same_rate s s'"
  "force_matching C s o' = Inr s' \<Longrightarrow> same_rate s s'"
  unfolding update_reserve_factor_def update_staking_ledger_cap_def force_set_era_start_block_def force_set_current_era_def
    cancel_unstake_def update_commission_rate_def update_incentive_def bond_def bond_extra_def unbond_def rebond_def
    withdraw_unbonded_def nominate_def force_matching_def Let_def
  by (auto elim!: resultE dest!: bond_rate message_rate matching_rate)

lemma dispatch_rate:
  assumes "liquid_dispatch C s o' c = Inr s'"
  shows "ls_exchange_rate s \<le> ls_exchange_rate s'"
proof (cases c)
  case (ForceAdvanceEra e)
  with assms show ?thesis by (auto simp: force_advance_era_def elim!: bindE_InrE dest: advance_rate)
next
  case (SetCurrentEra e evidence)
  with assms show ?thesis by (auto simp: set_current_era_def Let_def split: if_splits elim!: resultE dest: advance_rate)
next
  case (SetStakingLedger i l evidence)
  with assms show ?thesis by (simp add: set_ledger_rate)
qed (use assms in \<open>auto dest!: value_calls_rate settings_rate\<close>)

interpretation staking_rate: ordered_by_calls liquid_exec "\<lambda>_. True" "\<lambda>_. True"
  "\<lambda>x x' :: 'w liquid_state \<times> balance. ls_exchange_rate (fst x) \<le> ls_exchange_rate (fst x')"
proof
  fix act and x x' :: "'w liquid_state \<times> balance"
  assume ex: "liquid_exec x act = Inr x'"
  show "ls_exchange_rate (fst x) \<le> ls_exchange_rate (fst x')"
    using ex by (cases "(x, act)" rule: liquid_exec.cases)
      (auto elim!: resultE dest: dispatch_rate on_initialize_rate simp: ls_on_finalize_def Let_def split: option.split)
qed auto

section \<open>Ledgers that are not replaced\<close>

text \<open>
  Apart from the two calls that install a ledger from outside, only a reply of the relay chain changes a ledger.  The ledger
  of one account therefore adds up along every history in which no call replaces it, whatever happens to the others.
\<close>

definition ledger_sound :: "derivative_index \<Rightarrow> 'w liquid_state \<Rightarrow> bool" where
  "ledger_sound i s \<longleftrightarrow> matching_ok (matching_pool s) \<and> (\<forall>l. staking_ledgers s i = Some l \<longrightarrow> ledger_ok l)"

abbreviation same_books :: "'w liquid_state \<Rightarrow> 'w liquid_state \<Rightarrow> bool" where
  "same_books s s' \<equiv> staking_ledgers s' = staking_ledgers s \<and> matching_pool s' = matching_pool s"

abbreviation keeps_ledgers :: "'w liquid_state \<Rightarrow> 'w liquid_state \<Rightarrow> bool" where
  "keeps_ledgers s s' \<equiv> staking_ledgers s' = staking_ledgers s \<and> (matching_ok (matching_pool s) \<longrightarrow> matching_ok (matching_pool s'))"

lemma step_ledgers:
  "ls_transfer C s a x y n = Inr s' \<Longrightarrow> same_books s s'" "ls_mint_into C s a x n = Inr s' \<Longrightarrow> same_books s s'"
  "ls_burn_from C s a x n = Inr s' \<Longrightarrow> same_books s s'" "ls_call s m = Inr s' \<Longrightarrow> same_books s s'"
  "send_request s q r e = Inr s' \<Longrightarrow> same_books s s'"
  by (auto simp: ls_transfer_def ls_mint_into_def ls_burn_from_def ls_call_def send_request_def put_request_def
      ls_deposit_event_def elim!: resultE)

lemma state_ledgers [simp]: "staking_ledgers (ls_try s m) = staking_ledgers s" "matching_pool (ls_try s m) = matching_pool s"
  "staking_ledgers (ls_deposit_event e s) = staking_ledgers s" "matching_pool (ls_deposit_event e s) = matching_pool s"
  by (simp_all add: ls_try_def ls_deposit_event_def split: sum.split)

lemma pool_ledgers:
  "mutate_pool (set_stake_amount_lock n) s = Inr s' \<Longrightarrow> keeps_ledgers s s'"
  "mutate_pool (set_unstake_amount_lock n) s = Inr s' \<Longrightarrow> keeps_ledgers s s'"
  "mutate_pool (add_stake_amount n) s = Inr s' \<Longrightarrow> keeps_ledgers s s'"
  "mutate_pool (add_unstake_amount n) s = Inr s' \<Longrightarrow> keeps_ledgers s s'"
  "mutate_pool (sub_stake_amount n) s = Inr s' \<Longrightarrow> keeps_ledgers s s'"
  "mutate_pool (consolidate_stake n) s = Inr s' \<Longrightarrow> keeps_ledgers s s'"
  "mutate_pool (consolidate_unstake n) s = Inr s' \<Longrightarrow> keeps_ledgers s s'"
  by (auto simp: mutate_pool_Inr dest: pool_add pool_sub pool_lock elim: consolidate_stake_effect consolidate_unstake_effect)

lemma bond_ledgers: "ls_do_bond_extra C s i n = Inr s' \<Longrightarrow> keeps_ledgers s s'" "ls_do_bond C s i n payee = Inr s' \<Longrightarrow> keeps_ledgers s s'"
proof -
  show extra: "keeps_ledgers s s'" if "ls_do_bond_extra C s i n = Inr s'" for s s'
    using that unfolding ls_do_bond_extra_def by (auto split: if_splits elim!: resultE dest!: step_ledgers pool_ledgers)
  show "ls_do_bond C s i n payee = Inr s' \<Longrightarrow> keeps_ledgers s s'"
    unfolding ls_do_bond_def Let_def by (auto split: if_splits elim!: resultE dest!: step_ledgers pool_ledgers extra)
qed

lemma message_ledgers:
  "ls_do_unbond C s i n = Inr s' \<Longrightarrow> keeps_ledgers s s'" "ls_do_rebond C s i n = Inr s' \<Longrightarrow> keeps_ledgers s s'"
  "ls_do_withdraw_unbonded C s i k = Inr s' \<Longrightarrow> keeps_ledgers s s'" "ls_do_nominate C s i ts = Inr s' \<Longrightarrow> keeps_ledgers s s'"
  unfolding ls_do_unbond_def ls_do_rebond_def ls_do_withdraw_unbonded_def ls_do_nominate_def
  by (auto split: if_splits elim!: resultE dest!: step_ledgers pool_ledgers)

lemma foldE_ledgers:
  assumes "foldE f xs s = Inr s'" and "\<And>x s s'. f x s = Inr s' \<Longrightarrow> keeps_ledgers s s'"
  shows "keeps_ledgers s s'"
  using assms(1)
proof (induction xs arbitrary: s)
  case (Cons x xs)
  then obtain t where "f x s = Inr t" and "foldE f xs t = Inr s'" by auto
  with assms(2) Cons.IH show ?case by metis
qed simp

lemma multi_ledgers:
  "do_multi_bond C n payee s = Inr s' \<Longrightarrow> keeps_ledgers s s'" "do_multi_unbond C n s = Inr s' \<Longrightarrow> keeps_ledgers s s'"
  "do_multi_rebond C n s = Inr s' \<Longrightarrow> keeps_ledgers s s'" "do_multi_withdraw_unbonded C k s = Inr s' \<Longrightarrow> keeps_ledgers s s'"
  unfolding do_multi_bond_def do_multi_unbond_def do_multi_rebond_def do_multi_withdraw_unbonded_def Let_def
  by (auto split: if_splits elim!: foldE_ledgers [THEN conjunct1] foldE_ledgers [THEN conjunct2, THEN mp] dest: bond_ledgers message_ledgers)

lemma matching_ledgers: "do_matching C s = Inr s' \<Longrightarrow> keeps_ledgers s s'"
  unfolding do_matching_def Let_def by (auto elim!: resultE dest!: multi_ledgers)

lemma advance_ledgers: "do_advance_era C offset s = Inr s' \<Longrightarrow> same_books s s'"
  unfolding do_advance_era_def do_update_exchange_rate_def Let_def
  by (auto split: if_splits sum.splits elim!: resultE)

lemma on_initialize_ledgers: "ls_on_initialize C s = Inr s' \<Longrightarrow> keeps_ledgers s s'"
  unfolding ls_on_initialize_def Let_def
  by (auto split: sum.splits if_splits dispatch_error.splits elim!: resultE dest!: matching_ledgers advance_ledgers)

lemma burn_staked_ledgers:
  assumes "burn_staked C n s = Inr s'"
  shows "keeps_ledgers s s'" and "matching_ok (matching_pool s) \<Longrightarrow> n \<le> u128_max"
proof -
  from assms obtain t a where t: "mutate_pool (consolidate_stake n) s = Inr t" and b: "ls_burn_from C t a (ls_account_id C) n = Inr s'"
    unfolding burn_staked_def by (auto elim!: resultE)
  from pool_ledgers(6) [OF t] step_ledgers(3) [OF b] show "keeps_ledgers s s'" by simp
  assume ok: "matching_ok (matching_pool s)"
  from t obtain p where "consolidate_stake n (matching_pool s) = (Inr p :: liquid_dispatch_error + matching_ledger)" by (auto simp: mutate_pool_Inr)
  then show "n \<le> u128_max" by (rule consolidate_stake_effect [OF _ ok]) (use ok in \<open>simp add: matching_ok_def\<close>)
qed

lemma ledger_sound_frame: "ledger_sound i s \<Longrightarrow> keeps_ledgers s s' \<Longrightarrow> ledger_sound i s'"
  by (simp add: ledger_sound_def)

lemma ledger_sound_event [simp]: "ledger_sound i (ls_deposit_event e s) = ledger_sound i s"
  by (simp add: ledger_sound_def)

lemma ledger_update_sound:
  assumes "do_update_ledger j cb s = Inr s'" and "ledger_sound i s"
    and "\<And>l l' t. cb l s = Inr (l', t) \<Longrightarrow> keeps_ledgers s t \<and> (j = i \<longrightarrow> ledger_ok l \<longrightarrow> ledger_ok l')"
  shows "ledger_sound i s'"
proof -
  from assms(1) obtain l l' t where "staking_ledgers s j = Some l" and "cb l s = Inr (l', t)"
    and "s' = ls_deposit_event (StakingLedgerUpdated j l')
      (t\<lparr>is_updated := (is_updated t)(j := True), staking_ledgers := (staking_ledgers t)(j \<mapsto> l')\<rparr>)"
    unfolding do_update_ledger_def by (auto elim!: resultE)
  with assms(2) assms(3) [of l l' t] show ?thesis by (auto simp: ledger_sound_def)
qed

lemma pure_update_sound:
  assumes "do_update_ledger j (\<lambda>l s. bindE (f l) (\<lambda>l. Inr (l, s))) s = Inr t" and "ledger_sound i s"
    and "\<And>l l'. f l = Inr l' \<Longrightarrow> ledger_ok l \<Longrightarrow> ledger_ok l'"
  shows "ledger_sound i t"
  by (rule ledger_update_sound [OF assms(1,2)]) (auto elim!: resultE intro: assms(3))

lemma withdrawn_sound:
  assumes "do_update_ledger j (\<lambda>l s. bindE (staking_currency C) (\<lambda>a.
      let l' = consolidate_unlocked (current_era s) l in
      bindE (ls_mint_into C s a (ls_account_id C) (sl_total l - sl_total l')) (\<lambda>s. Inr (l', s)))) s = Inr t" and "ledger_sound i s"
  shows "ledger_sound i t"
  by (rule ledger_update_sound [OF assms])
    (auto simp: Let_def elim!: resultE dest!: step_ledgers intro: consolidate_unlocked_effect(1))

lemma bonded_sound:
  assumes "burn_staked C n (s\<lparr>staking_ledgers := (staking_ledgers s)(j \<mapsto> new_staking_ledger x n)\<rparr>) = Inr s'" and "ledger_sound i s"
  shows "ledger_sound i s'"
  using burn_staked_ledgers [OF assms(1)] assms(2) by (auto simp: ledger_sound_def)

lemma notification_sound:
  assumes "ls_do_notification_received C s q r res = Inr s'" and ok: "ledger_sound i s"
  shows "ledger_sound i s'"
proof (cases "res = None")
  case True
  note updated = pure_update_sound [OF _ ok] and burned = burn_staked_ledgers(1)
  from assms(1) have "\<exists>t. ledger_sound i t \<and> s' = t\<lparr>staking_requests := (staking_requests t)(q := None)\<rparr>"
  proof (cases r)
    case (RequestBond j n)
    with assms(1) True show ?thesis
      by (auto simp: ls_do_notification_received_def elim!: bindE_InrE ensure_InrE dest: bonded_sound [OF _ ok])
  next
    case (RequestBondExtra j n)
    with assms(1) True obtain t u where 1: "do_update_ledger j (\<lambda>l s. bindE (bond_extra_ledger n l) (\<lambda>l. Inr (l, s))) s = Inr t"
        and 2: "burn_staked C n t = Inr u" and "s' = u\<lparr>staking_requests := (staking_requests u)(q := None)\<rparr>"
      by (auto simp: ls_do_notification_received_def elim!: bindE_InrE)
    with ledger_sound_frame [OF updated [OF 1] burned [OF 2]] bond_extra_ledger_effect(1) show ?thesis by blast
  next
    case (RequestUnbond j n)
    with assms(1) True obtain e t u where 1: "do_update_ledger j (\<lambda>l s. bindE (unbond_ledger n e l) (\<lambda>l. Inr (l, s))) s = Inr t"
        and 2: "mutate_pool (consolidate_unstake n) t = Inr u" and "s' = u\<lparr>staking_requests := (staking_requests u)(q := None)\<rparr>"
      by (auto simp: ls_do_notification_received_def elim!: bindE_InrE)
    with ledger_sound_frame [OF updated [OF 1] pool_ledgers(7) [OF 2]] unbond_ledger_effect(1) show ?thesis by blast
  next
    case (RequestRebond j n)
    with assms(1) True obtain t u where 1: "do_update_ledger j (\<lambda>l s. bindE (rebond_ledger n l) (\<lambda>l. Inr (l, s))) s = Inr t"
        and 2: "mutate_pool (consolidate_stake n) t = Inr u" and "s' = u\<lparr>staking_requests := (staking_requests u)(q := None)\<rparr>"
      by (auto simp: ls_do_notification_received_def elim!: bindE_InrE)
    with ledger_sound_frame [OF updated [OF 1] pool_ledgers(6) [OF 2]] rebond_ledger_effect(1) show ?thesis by blast
  next
    case (RequestWithdrawUnbonded j k)
    with assms(1) True show ?thesis
      by (auto simp: ls_do_notification_received_def elim!: bindE_InrE dest: withdrawn_sound [OF _ ok])
  qed (use True ok in \<open>auto simp: ls_do_notification_received_def\<close>)
  then show ?thesis by (auto simp: ledger_sound_def)
qed (use assms in \<open>simp add: ls_do_notification_received_def\<close>)

lemma claim_ledgers: "ls_do_claim_for C s who n = Inr s' \<Longrightarrow> keeps_ledgers s s'"
  unfolding ls_do_claim_for_def Let_def by (auto split: if_splits elim!: resultE dest!: step_ledgers)

lemma instant_unstake_ledgers: "do_loans_instant_unstake C s who n = Inr s' \<Longrightarrow> keeps_ledgers s s'"
  unfolding do_loans_instant_unstake_def Let_def by (auto elim!: resultE dest!: step_ledgers)

lemma fast_match_ledgers: "do_fast_match_unstake C x s = Inr s' \<Longrightarrow> keeps_ledgers s s'"
  unfolding do_fast_match_unstake_def Let_def
  by (auto split: option.splits if_splits elim!: resultE dest!: step_ledgers pool_ledgers)

lemma value_calls_ledgers:
  "stake C s o' n = Inr s' \<Longrightarrow> keeps_ledgers s s'"
  "unstake C s o' n provider = Inr s' \<Longrightarrow> keeps_ledgers s s'"
  "ls_claim_for C s o' d = Inr s' \<Longrightarrow> keeps_ledgers s s'"
  "ls_reduce_reserves C s o' d n = Inr s' \<Longrightarrow> keeps_ledgers s s'"
  "fast_match_unstake C s o' us = Inr s' \<Longrightarrow> keeps_ledgers s s'"
  subgoal unfolding stake_def Let_def by (auto elim!: resultE dest!: step_ledgers pool_ledgers)
  subgoal unfolding unstake_def Let_def by (auto split: if_splits elim!: resultE dest!: step_ledgers pool_ledgers instant_unstake_ledgers)
  subgoal unfolding ls_claim_for_def Let_def by (auto elim!: resultE dest!: claim_ledgers)
  subgoal unfolding ls_reduce_reserves_def Let_def by (auto elim!: resultE dest!: step_ledgers)
  subgoal unfolding fast_match_unstake_def by (elim bindE_InrE) (rule foldE_ledgers, assumption, rule fast_match_ledgers)
  done

lemma settings_ledgers:
  "update_reserve_factor C s o' f = Inr s' \<Longrightarrow> keeps_ledgers s s'"
  "update_staking_ledger_cap C s o' n = Inr s' \<Longrightarrow> keeps_ledgers s s'"
  "force_set_era_start_block C s o' b = Inr s' \<Longrightarrow> keeps_ledgers s s'"
  "force_set_current_era C s o' e = Inr s' \<Longrightarrow> keeps_ledgers s s'"
  "cancel_unstake C s o' n = Inr s' \<Longrightarrow> keeps_ledgers s s'"
  "update_commission_rate C s o' r = Inr s' \<Longrightarrow> keeps_ledgers s s'"
  "update_incentive C s o' n = Inr s' \<Longrightarrow> keeps_ledgers s s'"
  "bond C s o' i n payee = Inr s' \<Longrightarrow> keeps_ledgers s s'"
  "bond_extra C s o' i n = Inr s' \<Longrightarrow> keeps_ledgers s s'"
  "unbond C s o' i n = Inr s' \<Longrightarrow> keeps_ledgers s s'"
  "rebond C s o' i n = Inr s' \<Longrightarrow> keeps_ledgers s s'"
  "withdraw_unbonded C s o' i k = Inr s' \<Longrightarrow> keeps_ledgers s s'"
  "nominate C s o' i ts = Inr s' \<Longrightarrow> keeps_ledgers s s'"
  "force_matching C s o' = Inr s' \<Longrightarrow> keeps_ledgers s s'"
  "force_advance_era C s o' k = Inr s' \<Longrightarrow> keeps_ledgers s s'"
  "set_current_era C s o' e evidence = Inr s' \<Longrightarrow> keeps_ledgers s s'"
  unfolding update_reserve_factor_def update_staking_ledger_cap_def force_set_era_start_block_def force_set_current_era_def
    cancel_unstake_def update_commission_rate_def update_incentive_def bond_def bond_extra_def unbond_def rebond_def
    withdraw_unbonded_def nominate_def force_matching_def force_advance_era_def set_current_era_def Let_def
  by (auto split: if_splits elim!: resultE dest!: bond_ledgers message_ledgers matching_ledgers advance_ledgers)

lemma install_sound:
  "force_set_staking_ledger C s o' j l = Inr s' \<Longrightarrow> j \<noteq> i \<Longrightarrow> ledger_sound i s \<Longrightarrow> ledger_sound i s'"
  "set_staking_ledger C s o' j l evidence = Inr s' \<Longrightarrow> j \<noteq> i \<Longrightarrow> ledger_sound i s \<Longrightarrow> ledger_sound i s'"
proof -
  show "force_set_staking_ledger C s o' j l = Inr s' \<Longrightarrow> j \<noteq> i \<Longrightarrow> ledger_sound i s \<Longrightarrow> ledger_sound i s'"
    unfolding force_set_staking_ledger_def by (elim bindE_InrE) (erule ledger_update_sound, auto elim!: resultE)
  have "keeps_ledgers s (ls_try t m)"
    if "(if n \<noteq> 0 then bindE (liquid_currency C) (\<lambda>a. ls_mint_into C (if b then ls_deposit_event e s else s) a x n)
      else Inr (if b then ls_deposit_event e s else s)) = Inr t" for t m n x b e
    using that by (auto split: if_splits elim!: resultE dest!: step_ledgers)
  then show "set_staking_ledger C s o' j l evidence = Inr s' \<Longrightarrow> j \<noteq> i \<Longrightarrow> ledger_sound i s \<Longrightarrow> ledger_sound i s'"
    unfolding set_staking_ledger_def Let_def
    by (elim bindE_InrE) (erule ledger_update_sound, assumption, elim bindE_InrE Inr_pairE, simp)
qed

text \<open>The calls that install a ledger for the account with a given index.\<close>

fun installs :: "derivative_index \<Rightarrow> liquid_action \<Rightarrow> bool" where
  "installs i (LiquidCall o' (ForceSetStakingLedger j l)) \<longleftrightarrow> j = i"
| "installs i (LiquidCall o' (SetStakingLedger j l evidence)) \<longleftrightarrow> j = i"
| "installs i _ \<longleftrightarrow> False"

lemma dispatch_sound:
  assumes "liquid_dispatch C s o' c = Inr s'" and ok: "ledger_sound i s" and "\<not> installs i (LiquidCall o' c)"
  shows "ledger_sound i s'"
proof (cases c)
  case (StakingNotification q r)
  with assms(1) have "ls_notification_received C s o' q r = Inr s'" by simp
  then consider "s' = s" | e where "s' = ls_deposit_event e s"
    | e req res t where "ls_do_notification_received C s q req res = Inr t" "s' = ls_deposit_event e t"
    unfolding ls_notification_received_def by (auto split: staking_response.splits option.splits elim!: bindE_InrE)
  then show ?thesis by cases (use ok notification_sound [OF _ ok] in simp_all)
next
  case (ForceSetStakingLedger j l)
  with assms show ?thesis using install_sound(1) by auto
next
  case (SetStakingLedger j l evidence)
  with assms show ?thesis using install_sound(2) by auto
qed (use assms(1) in \<open>auto intro!: ledger_sound_frame [OF ok] dest!: value_calls_ledgers settings_ledgers\<close>)

interpretation own_ledger: kept_by_calls liquid_exec "\<lambda>act. \<not> installs i (snd act)"
  "\<lambda>x :: 'w liquid_state \<times> balance. ledger_sound i (fst x)" for i
proof
  fix act and x x' :: "'w liquid_state \<times> balance"
  assume own: "\<not> installs i (snd act)" and ok: "ledger_sound i (fst x)" and ex: "liquid_exec x act = Inr x'"
  show "ledger_sound i (fst x')"
    using ex own ok by (cases "(x, act)" rule: liquid_exec.cases)
      (auto elim!: resultE dest: dispatch_sound on_initialize_ledgers simp: ledger_sound_def ls_on_finalize_def Let_def split: option.splits)
qed

lemma liquid_genesis_sound: "ledger_sound i (liquid_genesis r f w)"
  by (simp add: ledger_sound_def liquid_genesis_def matching_ok_def default_matching_ledger_def)

end
