(* ===== verification/Liquid_Composition.thy ===== *)
theory Liquid_Composition
  imports Liquid_Histories Crowdloans_Composition Loans_Calls
begin

text \<open>
  Liquid staking in the runtime (src/runtime/parallel/src/lib.rs): \<open>T::Assets\<close> is the currency adapter over
  \<open>pallet-balances\<close> and \<open>pallet-assets\<close>, \<open>T::XCM\<close> the XCM helper, \<open>T::Loans\<close> the loans pallet and the distribution strategy
  \<open>MaxMinDistribution\<close>.  The shared state is \<open>runtime\<close>, as for crowdloans.  The contract \<open>liquid_services\<close> holds of this wiring
  whenever the two ledgers outside of the repository keep their laws.
\<close>

section \<open>The wiring\<close>

definition with_currencies :: "('b, 'a, 'q) runtime \<Rightarrow> nat + 'b \<times> 'a \<Rightarrow> nat + ('b, 'a, 'q) runtime" where
  "with_currencies w m = bindE m (\<lambda>l. Inr (w\<lparr>rt_balances := fst l, rt_assets := snd l\<rparr>))"

abbreviation currencies_of :: "('b, 'a, 'q) runtime \<Rightarrow> 'b \<times> 'a" where
  "currencies_of w \<equiv> (rt_balances w, rt_assets w)"

definition runtime_currencies :: "(nat, 'b \<times> 'a) fungibles \<Rightarrow> (nat, ('b, 'a, 'q) runtime) fungibles" where
  "runtime_currencies F = \<lparr>
     ft_total_issuance = (\<lambda>w. ft_total_issuance F (currencies_of w)),
     ft_minimum_balance = (\<lambda>w. ft_minimum_balance F (currencies_of w)),
     ft_balance = (\<lambda>w. ft_balance F (currencies_of w)),
     ft_reducible_balance = (\<lambda>w. ft_reducible_balance F (currencies_of w)),
     ft_can_deposit = (\<lambda>w. ft_can_deposit F (currencies_of w)),
     ft_can_withdraw = (\<lambda>w. ft_can_withdraw F (currencies_of w)),
     ft_asset_exists = (\<lambda>w. ft_asset_exists F (currencies_of w)),
     ft_mint_into = (\<lambda>w a x n. with_currencies w (ft_mint_into F (currencies_of w) a x n)),
     ft_burn_from = (\<lambda>w a x n. with_currencies w (ft_burn_from F (currencies_of w) a x n)),
     ft_transfer = (\<lambda>w a x y n k. with_currencies w (ft_transfer F (currencies_of w) a x y n k))\<rparr>"

definition runtime_fees :: "('a, 'q) xcm_config \<Rightarrow> ('b, 'a, 'q) runtime \<Rightarrow> account_id \<Rightarrow> balance \<Rightarrow> nat + ('b, 'a, 'q) runtime" where
  "runtime_fees X w payer n =
     bindE (map_err (\<lambda>_. 0) (add_xcm_fees X ((rt_xcm w)\<lparr>xh_ledger := rt_assets w\<rparr>) payer n)) (\<lambda>x.
     Inr (w\<lparr>rt_assets := xh_ledger x, rt_xcm := x\<rparr>))"

definition put_loans :: "('b \<times> 'a) loans_state \<Rightarrow> ('b, 'a, 'q) runtime \<Rightarrow> ('b, 'a, 'q) runtime" where
  "put_loans x w = w\<lparr>rt_balances := fst (ledger x), rt_assets := snd (ledger x), rt_loans := x\<rparr>"

definition runtime_loans ::
    "(('b \<times> 'a) loans_state \<Rightarrow> loans_dispatch_error + ('b \<times> 'a) loans_state) \<Rightarrow> ('b, 'a, 'q) runtime \<Rightarrow> nat + ('b, 'a, 'q) runtime" where
  "runtime_loans operation w =
     bindE (map_err (\<lambda>_. 0) (operation ((rt_loans w)\<lparr>ledger := currencies_of w\<rparr>))) (\<lambda>x. Inr (put_loans x w))"

definition runtime_borrow_balance ::
    "('b \<times> 'a) loans_config \<Rightarrow> ('b, 'a, 'q) runtime \<Rightarrow> account_id \<Rightarrow> currency_id \<Rightarrow> nat + balance \<times> ('b, 'a, 'q) runtime" where
  "runtime_borrow_balance L w who a =
     bindE (map_err (\<lambda>_. 0) (get_current_borrow_balance L ((rt_loans w)\<lparr>ledger := currencies_of w\<rparr>) who a)) (\<lambda>(n, x).
     Inr (n, put_loans x w))"

definition runtime_collateral_factor :: "('b, 'a, 'q) runtime \<Rightarrow> currency_id \<Rightarrow> nat + ratio" where
  "runtime_collateral_factor w a =
     bindE (map_err (\<lambda>_. 0) (get_market_info (rt_loans w) a)) (\<lambda>m. Inr (mi_collateral_factor m))"

definition runtime_staking ::
    "(nat, 'b) fungible \<Rightarrow> (nat, 'a) fungibles \<Rightarrow> ('a, 'q) xcm_config \<Rightarrow> ('b \<times> 'a) loans_config
     \<Rightarrow> ('b, 'a, 'q) runtime liquid_config \<Rightarrow> ('b, 'a, 'q) runtime liquid_config" where
  "runtime_staking B A X L C =
     (let X' = runtime_xcm_config A (lk_staking_currency C) X; F = currency_adapter (lk_native_currency C) B A; L' = L\<lparr>lc_assets := F\<rparr> in
      C\<lparr>lk_assets := runtime_currencies F,
        lk_add_xcm_fees := runtime_fees X',
        lk_xcm_bond := (\<lambda>w n payee who i notify. runtime_xcm (\<lambda>s. do_bond X' s n payee who i notify) w),
        lk_xcm_bond_extra := (\<lambda>w n who i notify. runtime_xcm (\<lambda>s. do_bond_extra X' s n who i notify) w),
        lk_xcm_unbond := (\<lambda>w n i notify. runtime_xcm (\<lambda>s. do_unbond X' s n i notify) w),
        lk_xcm_rebond := (\<lambda>w n i notify. runtime_xcm (\<lambda>s. do_rebond X' s n i notify) w),
        lk_xcm_withdraw_unbonded := (\<lambda>w k who i notify. runtime_xcm (\<lambda>s. do_withdraw_unbonded X' s k who i notify) w),
        lk_xcm_nominate := (\<lambda>w ts i notify. runtime_xcm (\<lambda>s. do_nominate X' s ts i notify) w),
        lk_loans_mint := (\<lambda>w who a n. runtime_loans (\<lambda>s. do_mint L' s who a n) w),
        lk_loans_collateral := (\<lambda>w who a b. runtime_loans (\<lambda>s. do_collateral_asset L' s who a b) w),
        lk_loans_borrow := (\<lambda>w who a n. runtime_loans (\<lambda>s. do_borrow L' s who a n) w),
        lk_loans_repay := (\<lambda>w who a n. runtime_loans (\<lambda>s. do_repay_borrow L' s who a n) w),
        lk_loans_redeem := (\<lambda>w who a n. runtime_loans (\<lambda>s. do_redeem L' s who a n) w),
        lk_loans_borrow_balance := runtime_borrow_balance L',
        lk_loans_collateral_factor := runtime_collateral_factor,
        lk_distribution := MaxMinDistribution,
        lk_loans_account := account_id L'\<rparr>)"

text \<open>Next to the laws of a ledger: who does not pay loses nothing, in the native currency too, and only held balance is reducible.\<close>

definition fb_credit_law :: "('e, 'b) fungible \<Rightarrow> bool" where
  "fb_credit_law B \<longleftrightarrow>
     (\<forall>b x y n k b' z. fb_transfer B b x y n k = Inr b' \<longrightarrow> z \<noteq> x \<longrightarrow> fb_balance B b z + (if z = y then n else 0) \<le> fb_balance B b' z) \<and>
     (\<forall>b x n b' z. fb_burn_from B b x n = Inr b' \<longrightarrow> z \<noteq> x \<longrightarrow> fb_balance B b z \<le> fb_balance B b' z)"

definition reducible_law :: "('e, 'l) fungibles \<Rightarrow> bool" where
  "reducible_law F \<longleftrightarrow> (\<forall>l a x. ft_reducible_balance F l a x False \<le> ft_balance F l a x)"

definition staking_sound ::
    "(nat, 'b) fungible \<Rightarrow> (nat, 'a) fungibles \<Rightarrow> ('a, 'q) xcm_config \<Rightarrow> ('b \<times> 'a) loans_config
     \<Rightarrow> ('b, 'a, 'q) runtime liquid_config \<Rightarrow> bool" where
  "staking_sound B A X L C \<longleftrightarrow>
     sp_arith_laws (lc_arith L) \<and> fungible_laws B \<and> fb_credit_law B \<and>
     exact_custody A (lk_staking_currency C) \<and> burn_other_law A \<and> reducible_law A \<and>
     xh_pallet_account X \<noteq> lk_pallet_account C \<and> lc_pallet_account L \<noteq> lk_pallet_account C \<and>
     lk_liquid_currency C \<noteq> lk_staking_currency C \<and> lk_native_currency C \<noteq> lk_staking_currency C \<and>
     lk_collateral_currency C \<noteq> lk_staking_currency C"

section \<open>The currencies\<close>

lemma adapter_exact_custody:
  assumes "fungible_laws B" and "fb_credit_law B" and "exact_custody A a" and "a \<noteq> native"
  shows "exact_custody (currency_adapter native B A) a"
proof -
  have A: "fungibles_laws A" "credit_law A" using assms(3) by (simp_all add: exact_custody_def)
  have "credit_law (currency_adapter native B A)"
    unfolding credit_law_def currency_adapter_def ca_transfer_def ca_burn_from_def ca_balance_def
    using assms(2) credit_lawD [OF A(2)] by (auto simp: fb_credit_law_def bindE_Inr_iff split: if_splits)
  moreover have "ft_minimum_balance (currency_adapter native B A) l a \<le> 1" for l
    using assms(3,4) by (simp add: currency_adapter_def ca_minimum_balance_def exact_custody_def)
  ultimately show ?thesis using currency_adapter_lawful [OF assms(1) A(1)] by (simp add: exact_custody_def)
qed

lemma runtime_currencies_simps [simp]:
  "ft_total_issuance (runtime_currencies F) w = ft_total_issuance F (currencies_of w)"
  "ft_minimum_balance (runtime_currencies F) w = ft_minimum_balance F (currencies_of w)"
  "ft_balance (runtime_currencies F) w = ft_balance F (currencies_of w)"
  "ft_reducible_balance (runtime_currencies F) w = ft_reducible_balance F (currencies_of w)"
  "ft_mint_into (runtime_currencies F) w a x n = Inr w' \<longleftrightarrow>
     (\<exists>b l. ft_mint_into F (currencies_of w) a x n = Inr (b, l) \<and> w' = w\<lparr>rt_balances := b, rt_assets := l\<rparr>)"
  "ft_burn_from (runtime_currencies F) w a x n = Inr w' \<longleftrightarrow>
     (\<exists>b l. ft_burn_from F (currencies_of w) a x n = Inr (b, l) \<and> w' = w\<lparr>rt_balances := b, rt_assets := l\<rparr>)"
  "ft_transfer (runtime_currencies F) w a x y n k = Inr w' \<longleftrightarrow>
     (\<exists>b l. ft_transfer F (currencies_of w) a x y n k = Inr (b, l) \<and> w' = w\<lparr>rt_balances := b, rt_assets := l\<rparr>)"
  by (auto simp: runtime_currencies_def with_currencies_def bindE_Inr_iff)

lemma runtime_currencies_laws:
  assumes "fungibles_laws F"
  shows "fungibles_laws (runtime_currencies F)"
proof -
  have "fungibles_ledger (ft_balance (runtime_currencies F)) (ft_minimum_balance (runtime_currencies F)) (ft_total_issuance (runtime_currencies F))
      (ft_transfer (runtime_currencies F)) (\<lambda>_. True)"
    by unfold_locales (auto split del: if_split simp: fungibles_lawsD(2) [OF assms] dest: fungibles_lawsD(1,3) [OF assms])
  moreover have "transfer_other_law (runtime_currencies F)"
    by (auto simp: transfer_other_law_def fungibles_lawsD(4,5) [OF assms])
  moreover have "mint_law (runtime_currencies F)"
    by (auto simp: mint_law_def fungibles_laws_mintD [OF assms] split del: if_split)
  moreover have "burn_law (runtime_currencies F)"
    by (auto simp: burn_law_def fungibles_laws_burnD [OF assms] split del: if_split)
  ultimately show ?thesis by (simp add: fungibles_laws_def)
qed

lemma runtime_currencies_exact:
  assumes "exact_custody F a"
  shows "exact_custody (runtime_currencies F) a"
proof -
  have F: "fungibles_laws F" "credit_law F" using assms by (simp_all add: exact_custody_def)
  have "credit_law (runtime_currencies F)"
    unfolding credit_law_def by (auto split del: if_split dest: credit_lawD [OF F(2)])
  then show ?thesis using assms runtime_currencies_laws [OF F(1)] by (simp add: exact_custody_def)
qed

section \<open>The calls of the other pallets\<close>

lemma runtime_staking_simps [simp]:
  "lk_assets (runtime_staking B A X L C) = runtime_currencies (currency_adapter (lk_native_currency C) B A)"
  "lk_staking_currency (runtime_staking B A X L C) = lk_staking_currency C"
  "lk_liquid_currency (runtime_staking B A X L C) = lk_liquid_currency C"
  "lk_native_currency (runtime_staking B A X L C) = lk_native_currency C"
  "lk_collateral_currency (runtime_staking B A X L C) = lk_collateral_currency C"
  "lk_pallet_account (runtime_staking B A X L C) = lk_pallet_account C"
  by (simp_all add: runtime_staking_def Let_def)

lemma loans_ledger:
  assumes "sp_arith_laws (lc_arith L)"
  shows "do_mint L s x a n = Inr s' \<Longrightarrow> ft_transfer (lc_assets L) (ledger s) a x (account_id L) n False = Inr (ledger s')"
    and "do_borrow L s x a n = Inr s' \<Longrightarrow> ft_transfer (lc_assets L) (ledger s) a (account_id L) x n False = Inr (ledger s')"
    and "do_repay_borrow L s x a n = Inr s' \<Longrightarrow> ft_transfer (lc_assets L) (ledger s) a x (account_id L) n False = Inr (ledger s')"
    and "do_redeem L s x a n = Inr s' \<Longrightarrow> \<exists>m. ft_transfer (lc_assets L) (ledger s) a (account_id L) x m False = Inr (ledger s')"
    and "do_collateral_asset L s x a b = Inr s' \<Longrightarrow> ledger s' = ledger s"
    and "get_current_borrow_balance L s x a = Inr (n, s') \<Longrightarrow> ledger s' = ledger s"
proof -
  have accrued: "ledger t = ledger s" if "accrue_interest L s a = Inr t" for t
    using accruedD [OF accrue_interest_accrued [OF that assms]] by simp
  show "do_mint L s x a n = Inr s' \<Longrightarrow> ft_transfer (lc_assets L) (ledger s) a x (account_id L) n False = Inr (ledger s')"
    by (erule do_mintE [OF _ assms])
  show "do_borrow L s x a n = Inr s' \<Longrightarrow> ft_transfer (lc_assets L) (ledger s) a (account_id L) x n False = Inr (ledger s')"
    by (erule do_borrowE [OF _ assms])
  show "do_repay_borrow L s x a n = Inr s' \<Longrightarrow> ft_transfer (lc_assets L) (ledger s) a x (account_id L) n False = Inr (ledger s')"
  proof (erule do_repay_borrow_inv)
    fix m s1 b s2
    assume 1: "accrue_interest L s a = Inr s1" and 2: "do_repay_borrow_with_amount L s1 x a b n = Inr s2"
      and s': "s' = deposit_event (RepaidBorrow x a n) s2"
    from 2 show "ft_transfer (lc_assets L) (ledger s) a x (account_id L) n False = Inr (ledger s')"
      by (rule do_repay_borrow_with_amountE) (simp add: accrued [OF 1] s' deposit_event_def)
  qed
  show "do_redeem L s x a n = Inr s' \<Longrightarrow> \<exists>m. ft_transfer (lc_assets L) (ledger s) a (account_id L) x m False = Inr (ledger s')"
  proof (erule do_redeem_inv)
    fix m s1 e s2 v p
    assume 1: "accrue_interest L s a = Inr s1" and 2: "update_earned_stored L s1 x a e = Inr s2"
      and 3: "do_redeem_voucher L s2 x a v = Inr p" and s': "s' = deposit_event (Redeemed x a (fst p)) (snd p)"
    obtain r t where p: "p = (r, t)" by (cases p)
    obtain y where "s2 = s1\<lparr>account_earned := y\<rparr>" using update_earned_storedD [OF 2] by blast
    then have "ledger s2 = ledger s1" by simp
    with accrued [OF 1] 3 show "\<exists>m. ft_transfer (lc_assets L) (ledger s) a (account_id L) x m False = Inr (ledger s')"
      by (auto simp: p s' deposit_event_def elim!: do_redeem_voucherE [OF _ assms])
  qed
  show "do_collateral_asset L s x a b = Inr s' \<Longrightarrow> ledger s' = ledger s" by (erule do_collateral_assetE)
  show "get_current_borrow_balance L s x a = Inr (n, s') \<Longrightarrow> ledger s' = ledger s"
    by (auto simp: get_current_borrow_balance_def accrued elim!: resultE)
qed

lemma runtime_loans_ledger:
  assumes "runtime_loans operation w = Inr w'" and "\<And>s s'. operation s = Inr s' \<Longrightarrow> P (ledger s) (ledger s')"
  shows "P (currencies_of w) (currencies_of w')"
proof -
  from assms(1) obtain x where "operation ((rt_loans w)\<lparr>ledger := currencies_of w\<rparr>) = Inr x" and "currencies_of w' = ledger x"
    by (auto simp: runtime_loans_def put_loans_def elim!: resultE)
  with assms(2) [of "(rt_loans w)\<lparr>ledger := currencies_of w\<rparr>" x] show ?thesis by simp
qed

lemma runtime_held: "staking_held (runtime_staking B A X L C) w =
    ft_balance (currency_adapter (lk_native_currency C) B A) (currencies_of w) (lk_staking_currency C) (lk_pallet_account C)"
  by (simp add: staking_held_def)

lemma runtime_held_assets: "staking_sound B A X L C \<Longrightarrow>
    staking_held (runtime_staking B A X L C) w = ft_balance A (rt_assets w) (lk_staking_currency C) (lk_pallet_account C)"
  by (simp add: runtime_held staking_sound_def currency_adapter_def ca_balance_def)

lemma runtime_xcm_keeps:
  assumes "staking_sound B A X L C" and "runtime_xcm operation w = Inr (q, w')"
    and "\<And>s q s'. operation s = Inr (q, s') \<Longrightarrow> \<exists>k calls f. ump_sent (runtime_xcm_config A (lk_staking_currency C) X) s k calls f q s'"
  shows "staking_held (runtime_staking B A X L C) w \<le> staking_held (runtime_staking B A X L C) w'"
proof -
  let ?X = "runtime_xcm_config A (lk_staking_currency C) X"
  from assms(2) obtain s' where "operation ((rt_xcm w)\<lparr>xh_ledger := rt_assets w\<rparr>) = Inr (q, s')" and w': "rt_assets w' = xh_ledger s'"
    by (auto simp: runtime_xcm_def)
  then obtain k calls f where sent: "ump_sent ?X ((rt_xcm w)\<lparr>xh_ledger := rt_assets w\<rparr>) k calls f q s'"
    using assms(3) by blast
  have X: "xh_assets ?X = A" "xh_pallet_account ?X = xh_pallet_account X" by (simp_all add: runtime_xcm_config_def)
  show ?thesis
    using assms(1) w' ump_sent_spares(1) [OF sent, of "lk_pallet_account C" "lk_staking_currency C"]
    unfolding X runtime_held_assets [OF assms(1)] by (simp add: staking_sound_def exact_custody_def)
qed

lemma runtime_fees_keep:
  assumes "staking_sound B A X L C" and "runtime_fees (runtime_xcm_config A (lk_staking_currency C) X) w x n = Inr w'"
    and "x \<noteq> lk_pallet_account C"
  shows "staking_held (runtime_staking B A X L C) w \<le> staking_held (runtime_staking B A X L C) w'"
proof -
  from assms(2) obtain y where t: "ft_transfer A (rt_assets w) (lk_staking_currency C) x y n False = Inr (rt_assets w')"
    by (auto simp: runtime_fees_def add_xcm_fees_def runtime_xcm_config_def elim!: resultE)
  have "exact_custody A (lk_staking_currency C)" using assms(1) by (simp add: staking_sound_def)
  from exact_custodyD(3) [OF this t assms(3)] show ?thesis unfolding runtime_held_assets [OF assms(1)] .
qed

text \<open>The fees are paid in the staking currency: balances and issuance of every other currency stay as they are.\<close>

lemma runtime_fees_other:
  assumes "fungibles_laws A" and "runtime_fees (runtime_xcm_config A a X) w x n = Inr w'" and "b \<noteq> a"
  shows "ft_balance (currency_adapter c B A) (currencies_of w') b z = ft_balance (currency_adapter c B A) (currencies_of w) b z"
    and "ft_total_issuance (currency_adapter c B A) (currencies_of w') b = ft_total_issuance (currency_adapter c B A) (currencies_of w) b"
proof -
  from assms(2) obtain y where t: "ft_transfer A (rt_assets w) a x y n False = Inr (rt_assets w')" and B: "rt_balances w' = rt_balances w"
    by (auto simp: runtime_fees_def add_xcm_fees_def runtime_xcm_config_def elim!: resultE)
  from fungibles_lawsD(4,5) [OF assms(1) t assms(3)] B
  show "ft_balance (currency_adapter c B A) (currencies_of w') b z = ft_balance (currency_adapter c B A) (currencies_of w) b z"
    and "ft_total_issuance (currency_adapter c B A) (currencies_of w') b = ft_total_issuance (currency_adapter c B A) (currencies_of w) b"
    by (simp_all add: currency_adapter_def ca_balance_def ca_total_issuance_def)
qed

text \<open>The transfers the loans pallet makes, seen from the account of liquid staking.\<close>

lemma runtime_loans_transfer:
  assumes "staking_sound B A X L C"
    and "ft_transfer (currency_adapter (lk_native_currency C) B A) (currencies_of w) a x y n k = Inr (currencies_of w')"
  shows "staking_held (runtime_staking B A X L C) w \<le> staking_held (runtime_staking B A X L C) w' + (if a = lk_staking_currency C then n else 0)"
    and "x \<noteq> lk_pallet_account C \<Longrightarrow> staking_held (runtime_staking B A X L C) w
      + (if a = lk_staking_currency C \<and> y = lk_pallet_account C then n else 0) \<le> staking_held (runtime_staking B A X L C) w'"
proof -
  have F: "exact_custody (currency_adapter (lk_native_currency C) B A) (lk_staking_currency C)"
    using assms(1) by (intro adapter_exact_custody) (auto simp: staking_sound_def)
  note t = exact_custodyD [OF F assms(2)]
  show second: "x \<noteq> lk_pallet_account C \<Longrightarrow> staking_held (runtime_staking B A X L C) w
      + (if a = lk_staking_currency C \<and> y = lk_pallet_account C then n else 0) \<le> staking_held (runtime_staking B A X L C) w'"
    unfolding runtime_held using t(2,3) by (cases "y = lk_pallet_account C") auto
  show "staking_held (runtime_staking B A X L C) w \<le> staking_held (runtime_staking B A X L C) w' + (if a = lk_staking_currency C then n else 0)"
  proof (cases "x = lk_pallet_account C")
    case True
    with t(1) show ?thesis unfolding runtime_held by simp
  next
    case False
    with second show ?thesis by simp
  qed
qed

lemma runtime_staking_calls:
  "lk_add_xcm_fees (runtime_staking B A X L C) = runtime_fees (runtime_xcm_config A (lk_staking_currency C) X)"
  "lk_xcm_bond (runtime_staking B A X L C) w n payee x i f = runtime_xcm (\<lambda>s. do_bond (runtime_xcm_config A (lk_staking_currency C) X) s n payee x i f) w"
  "lk_xcm_bond_extra (runtime_staking B A X L C) w n x i f = runtime_xcm (\<lambda>s. do_bond_extra (runtime_xcm_config A (lk_staking_currency C) X) s n x i f) w"
  "lk_xcm_unbond (runtime_staking B A X L C) w n i f = runtime_xcm (\<lambda>s. do_unbond (runtime_xcm_config A (lk_staking_currency C) X) s n i f) w"
  "lk_xcm_rebond (runtime_staking B A X L C) w n i f = runtime_xcm (\<lambda>s. do_rebond (runtime_xcm_config A (lk_staking_currency C) X) s n i f) w"
  "lk_xcm_withdraw_unbonded (runtime_staking B A X L C) w k x i f =
     runtime_xcm (\<lambda>s. do_withdraw_unbonded (runtime_xcm_config A (lk_staking_currency C) X) s k x i f) w"
  "lk_xcm_nominate (runtime_staking B A X L C) w ts i f = runtime_xcm (\<lambda>s. do_nominate (runtime_xcm_config A (lk_staking_currency C) X) s ts i f) w"
  "lk_loans_mint (runtime_staking B A X L C) w x a n = runtime_loans (\<lambda>s. do_mint (L\<lparr>lc_assets := currency_adapter (lk_native_currency C) B A\<rparr>) s x a n) w"
  "lk_loans_collateral (runtime_staking B A X L C) w x a b =
     runtime_loans (\<lambda>s. do_collateral_asset (L\<lparr>lc_assets := currency_adapter (lk_native_currency C) B A\<rparr>) s x a b) w"
  "lk_loans_borrow (runtime_staking B A X L C) w x a n = runtime_loans (\<lambda>s. do_borrow (L\<lparr>lc_assets := currency_adapter (lk_native_currency C) B A\<rparr>) s x a n) w"
  "lk_loans_repay (runtime_staking B A X L C) w x a n =
     runtime_loans (\<lambda>s. do_repay_borrow (L\<lparr>lc_assets := currency_adapter (lk_native_currency C) B A\<rparr>) s x a n) w"
  "lk_loans_redeem (runtime_staking B A X L C) w x a n = runtime_loans (\<lambda>s. do_redeem (L\<lparr>lc_assets := currency_adapter (lk_native_currency C) B A\<rparr>) s x a n) w"
  "lk_loans_borrow_balance (runtime_staking B A X L C) = runtime_borrow_balance (L\<lparr>lc_assets := currency_adapter (lk_native_currency C) B A\<rparr>)"
  by (simp_all add: runtime_staking_def Let_def)

lemma runtime_loans_keep:
  assumes "staking_sound B A X L C"
  defines "R \<equiv> runtime_staking B A X L C"
  shows "lk_loans_mint R w x (lk_collateral_currency C) n = Inr w' \<Longrightarrow> staking_held R w \<le> staking_held R w'"
    and "lk_loans_collateral R w x a b = Inr w' \<Longrightarrow> staking_held R w \<le> staking_held R w'"
    and "lk_loans_redeem R w x (lk_collateral_currency C) n = Inr w' \<Longrightarrow> staking_held R w \<le> staking_held R w'"
    and "lk_loans_borrow_balance R w x a = Inr (n, w') \<Longrightarrow> staking_held R w \<le> staking_held R w'"
    and "lk_loans_borrow R w (lk_pallet_account C) (lk_staking_currency C) n = Inr w' \<Longrightarrow> staking_held R w + n \<le> staking_held R w'"
    and "lk_loans_repay R w (lk_pallet_account C) (lk_staking_currency C) n = Inr w' \<Longrightarrow> staking_held R w \<le> staking_held R w' + n"
proof -
  let ?F = "currency_adapter (lk_native_currency C) B A" and ?c = "lk_collateral_currency C"
  let ?L = "L\<lparr>lc_assets := ?F\<rparr>"
  have F: "lc_assets ?L = ?F" by simp
  have "sp_arith_laws (lc_arith ?L)" using assms(1) by (simp add: staking_sound_def)
  note led = loans_ledger [OF this, unfolded F]
  have apart: "account_id ?L \<noteq> lk_pallet_account C" and collateral: "?c \<noteq> lk_staking_currency C"
    using assms(1) by (simp_all add: staking_sound_def account_id_def)
  note moves = runtime_loans_transfer [OF assms(1), folded R_def]
  note calls = runtime_staking_calls [of B A X L C, folded R_def]
  {
    assume "lk_loans_mint R w x ?c n = Inr w'"
    from runtime_loans_ledger [OF this [unfolded calls], where P = "\<lambda>l l'. ft_transfer ?F l ?c x (account_id ?L) n False = Inr l'", OF led(1)]
    show "staking_held R w \<le> staking_held R w'" using moves(1) [of w ?c] collateral by auto
  next
    assume "lk_loans_redeem R w x ?c n = Inr w'"
    from runtime_loans_ledger [OF this [unfolded calls], where P = "\<lambda>l l'. \<exists>m. ft_transfer ?F l ?c (account_id ?L) x m False = Inr l'", OF led(4) [where n = n]]
    show "staking_held R w \<le> staking_held R w'" using moves(1) [of w ?c] collateral by auto
  next
    assume "lk_loans_collateral R w x a b = Inr w'"
    from runtime_loans_ledger [OF this [unfolded calls], where P = "\<lambda>l l'. l' = l", OF led(5) [where b = b]]
    show "staking_held R w \<le> staking_held R w'" by (simp add: R_def runtime_held)
  next
    assume "lk_loans_borrow_balance R w x a = Inr (n, w')"
    then show "staking_held R w \<le> staking_held R w'"
      unfolding calls runtime_borrow_balance_def by (auto simp: R_def runtime_held put_loans_def elim!: resultE dest: led(6))
  next
    assume "lk_loans_borrow R w (lk_pallet_account C) (lk_staking_currency C) n = Inr w'"
    note t = runtime_loans_ledger [OF this [unfolded calls], where
        P = "\<lambda>l l'. ft_transfer ?F l (lk_staking_currency C) (account_id ?L) (lk_pallet_account C) n False = Inr l'", OF led(2)]
    from moves(2) [OF t apart] show "staking_held R w + n \<le> staking_held R w'" by simp
  next
    assume "lk_loans_repay R w (lk_pallet_account C) (lk_staking_currency C) n = Inr w'"
    note t = runtime_loans_ledger [OF this [unfolded calls], where
        P = "\<lambda>l l'. ft_transfer ?F l (lk_staking_currency C) (lk_pallet_account C) (account_id ?L) n False = Inr l'", OF led(3)]
    from moves(1) [OF t] show "staking_held R w \<le> staking_held R w' + n" by simp
  }
qed

lemma runtime_messages_keep:
  assumes "staking_sound B A X L C"
  defines "R \<equiv> runtime_staking B A X L C"
  shows "lk_xcm_bond R w n payee x i f = Inr (q, w') \<Longrightarrow> staking_held R w \<le> staking_held R w'"
    and "lk_xcm_bond_extra R w n x i f = Inr (q, w') \<Longrightarrow> staking_held R w \<le> staking_held R w'"
    and "lk_xcm_unbond R w n i f = Inr (q, w') \<Longrightarrow> staking_held R w \<le> staking_held R w'"
    and "lk_xcm_rebond R w n i f = Inr (q, w') \<Longrightarrow> staking_held R w \<le> staking_held R w'"
    and "lk_xcm_withdraw_unbonded R w k x i f = Inr (q, w') \<Longrightarrow> staking_held R w \<le> staking_held R w'"
    and "lk_xcm_nominate R w ts i f = Inr (q, w') \<Longrightarrow> staking_held R w \<le> staking_held R w'"
  unfolding R_def runtime_staking_calls by (erule runtime_xcm_keeps [OF assms(1)]; auto simp: relay_calls_sent)+

theorem runtime_liquid_services:
  assumes "staking_sound B A X L C"
  shows "liquid_services (runtime_staking B A X L C)"
proof
  have "exact_custody (currency_adapter (lk_native_currency C) B A) (lk_staking_currency C)"
    using assms by (intro adapter_exact_custody) (auto simp: staking_sound_def)
  then show "exact_custody (lk_assets (runtime_staking B A X L C)) (lk_staking_currency (runtime_staking B A X L C))"
    by (simp add: runtime_currencies_exact)
  show "ft_reducible_balance (lk_assets (runtime_staking B A X L C)) w (lk_staking_currency (runtime_staking B A X L C))
      (lk_pallet_account (runtime_staking B A X L C)) False
      \<le> ft_balance (lk_assets (runtime_staking B A X L C)) w (lk_staking_currency (runtime_staking B A X L C))
          (lk_pallet_account (runtime_staking B A X L C))" for w
    using assms by (simp add: staking_sound_def reducible_law_def currency_adapter_def ca_reducible_balance_def ca_balance_def)
  show "lk_liquid_currency (runtime_staking B A X L C) \<noteq> lk_staking_currency (runtime_staking B A X L C)"
    "lk_native_currency (runtime_staking B A X L C) \<noteq> lk_staking_currency (runtime_staking B A X L C)"
    "lk_collateral_currency (runtime_staking B A X L C) \<noteq> lk_staking_currency (runtime_staking B A X L C)"
    using assms by (simp_all add: staking_sound_def)
qed (auto simp: runtime_staking_calls(1) intro: runtime_messages_keep [OF assms] runtime_loans_keep [OF assms] runtime_fees_keep [OF assms])

locale sound_staking =
  fixes B :: "(nat, 'b) fungible" and A :: "(nat, 'a) fungibles" and X :: "('a, 'q) xcm_config"
    and L :: "('b \<times> 'a) loans_config" and C :: "('b, 'a, 'q) runtime liquid_config"
  assumes sound: "staking_sound B A X L C"

sublocale sound_staking \<subseteq> staked: liquid_services "runtime_staking B A X L C"
  by (rule runtime_liquid_services [OF sound])

section \<open>Histories of the runtime\<close>

definition staking_runtime_admitted ::
    "(nat, 'b) fungible \<Rightarrow> (nat, 'a) fungibles \<Rightarrow> ('b, 'a, 'q) runtime liquid_config
     \<Rightarrow> ('b, 'a, 'q) runtime liquid_config \<times> liquid_action \<Rightarrow> bool" where
  "staking_runtime_admitted B A C act \<longleftrightarrow>
     (\<exists>X L C'. fst act = runtime_staking B A X L C' \<and> staking_sound B A X L C') \<and> same_staking C (fst act) \<and> liquid_action_admitted act"

lemma staking_runtime_environment: "staking_runtime_admitted B A C act \<Longrightarrow> staking_environment C act"
  unfolding staking_runtime_admitted_def staking_environment_def using runtime_liquid_services by metis

lemma staking_history_safe:
  assumes "history liquid_exec (staking_runtime_admitted B A C) (liquid_genesis r f w, 0) (s, lost)"
  shows "liquid_safe C lost s"
  using staking.history_inv [OF history_mono [OF assms staking_runtime_environment]] liquid_genesis_safe by fastforce

end
