(* ===== verification/Liquid_Example.thy ===== *)
theory Liquid_Example
  imports Liquid_Composition Crowdloans_Example
begin

text \<open>
  A concrete runtime for the witnesses of liquid staking, on the reference ledgers of the crowdloans example.  The staking
  currency is 7, the liquid one 8, the collateral one 9 and the native one 0.  The account of liquid staking is 95, of the XCM
  helper 91 and of loans 99; account 5 stakes.

  The history: account 5 stakes 1000 and unstakes 200 of it, the pool is matched and the net is bonded, the relay chain
  confirms.
\<close>

definition liquid_arith_ref :: liquid_arith where
  "liquid_arith_ref = sp_arith.extend sp_arith_ref (liquid_arith.fields (\<lambda>a n. min (a * n div FX) u128_max))"

lemma sp_arith_truncate_extend [simp]: "sp_arith.truncate (sp_arith.extend r m) = r"
  by (cases r) (simp add: sp_arith.defs)

lemma liquid_arith_ref_laws [simp]: "liquid_arith_laws liquid_arith_ref"
proof -
  have "fx_saturating_mul_int liquid_arith_ref a n = min (a * n div FX) u128_max" for a n
    by (simp add: liquid_arith_ref_def sp_arith.defs liquid_arith.defs)
  then show ?thesis by (simp add: liquid_arith_laws_def liquid_arith_ref_def)
qed

definition liquid_env :: "ref_runtime liquid_config" where
  "liquid_env = \<lparr>
     lk_assets = runtime_currencies (currency_adapter 0 balances_ref fungibles_ref),
     lk_add_xcm_fees = (\<lambda>_ _ _. Inl 0), lk_xcm_bond = (\<lambda>_ _ _ _ _ _. Inl 0), lk_xcm_bond_extra = (\<lambda>_ _ _ _ _. Inl 0),
     lk_xcm_unbond = (\<lambda>_ _ _ _. Inl 0), lk_xcm_rebond = (\<lambda>_ _ _ _. Inl 0), lk_xcm_withdraw_unbonded = (\<lambda>_ _ _ _ _. Inl 0),
     lk_xcm_nominate = (\<lambda>_ _ _ _. Inl 0), lk_loans_mint = (\<lambda>_ _ _ _. Inl 0), lk_loans_collateral = (\<lambda>_ _ _ _. Inl 0),
     lk_loans_borrow = (\<lambda>_ _ _ _. Inl 0), lk_loans_repay = (\<lambda>_ _ _ _. Inl 0), lk_loans_redeem = (\<lambda>_ _ _ _. Inl 0),
     lk_loans_borrow_balance = (\<lambda>_ _ _. Inl 0), lk_loans_collateral_factor = (\<lambda>_ _. Inl 0),
     lk_arith = liquid_arith_ref, lk_distribution = AverageDistribution,
     lk_relay_origin = (\<lambda>x. x = Root), lk_update_origin = (\<lambda>x. x = Root), lk_members = [], lk_response_origin = (\<lambda>_. None),
     lk_lookup = Some, lk_decimal = (\<lambda>_. Some 12), lk_pallet_account = 95, lk_loans_account = 99, lk_sovereign_account = 96,
     lk_derivative_account = (\<lambda>i. 1000 + i), lk_derivative_indexes = [0, 3], lk_xcm_fees = 10,
     lk_loans_instant_unstake_fee = 0, lk_fast_unstake_fee = 0, lk_staking_currency = 7, lk_liquid_currency = 8,
     lk_collateral_currency = 9, lk_native_currency = 0, lk_min_stake = 100, lk_min_unstake = 50, lk_bonding_duration = 28,
     lk_min_nominator_bond = 100, lk_era_length = 14400, lk_num_slashing_spans = 0, lk_election_offset = 12600,
     lk_protocol_fee_receiver = 97, lk_relay_block = 350, lk_validation_data = None, lk_read_trie = (\<lambda>_ _ _. None),
     lk_encode_era = (\<lambda>_. []), lk_encode_ledger = (\<lambda>_. []), lk_era_key = [], lk_ledger_key = (\<lambda>_. []),
     lk_ledger_keys = [0, 3], lk_query_keys = [0, 2, 3]\<rparr>"

definition ref_staking :: "ref_runtime liquid_config" where
  "ref_staking = runtime_staking balances_ref fungibles_ref xcm_env pair_loans liquid_env"

lemma ref_staking_sound: "staking_sound balances_ref fungibles_ref xcm_env pair_loans liquid_env"
proof -
  have "fb_credit_law balances_ref"
    by (auto simp: fb_credit_law_def balances_ref_def ref_transfer_def ref_burn_def Let_def split: if_splits)
  moreover have "reducible_law fungibles_ref" by (simp add: reducible_law_def fungibles_ref_def)
  ultimately show ?thesis
    by (simp add: staking_sound_def balances_ref_laws) (simp add: liquid_env_def xcm_env_def pair_loans_def)
qed

interpretation ref_staked: sound_staking balances_ref fungibles_ref xcm_env pair_loans liquid_env
  by unfold_locales (rule ref_staking_sound)

lemma ref_staking_fields [simp]:
  "lk_assets ref_staking = runtime_currencies (currency_adapter 0 balances_ref fungibles_ref)"
  "lk_staking_currency ref_staking = 7" "lk_liquid_currency ref_staking = 8" "lk_collateral_currency ref_staking = 9"
  "lk_native_currency ref_staking = 0" "lk_pallet_account ref_staking = 95" "lk_arith ref_staking = liquid_arith_ref"
  "lk_distribution ref_staking = MaxMinDistribution" "lk_relay_origin ref_staking = (\<lambda>x. x = Root)"
  "lk_update_origin ref_staking = (\<lambda>x. x = Root)" "lk_response_origin ref_staking = (\<lambda>_. None)"
  "lk_decimal ref_staking = (\<lambda>_. Some 12)" "lk_derivative_account ref_staking = (\<lambda>i. 1000 + i)"
  "lk_derivative_indexes ref_staking = [0, 3]" "lk_xcm_fees ref_staking = 10" "lk_min_stake ref_staking = 100"
  "lk_min_unstake ref_staking = 50" "lk_bonding_duration ref_staking = 28" "lk_min_nominator_bond ref_staking = 100"
  "lk_era_length ref_staking = 14400" "lk_num_slashing_spans ref_staking = 0" "lk_election_offset ref_staking = 12600"
  "lk_relay_block ref_staking = 350" "lk_validation_data ref_staking = None" "lk_ledger_keys ref_staking = [0, 3]"
  by (simp_all add: ref_staking_def runtime_staking_def liquid_env_def Let_def)

section \<open>A history\<close>

definition staking_script :: "(ref_runtime liquid_config \<times> liquid_action) list" where
  "staking_script = map (Pair ref_staking)
     [LiquidOther (LedgerMint 7 5 10000), LiquidOther (LedgerMint 7 91 100), LiquidInitialize,
      LiquidCall Root (UpdateStakingLedgerCap 5000), LiquidCall (Signed 5) (CallStake 1000),
      LiquidCall (Signed 5) (CallUnstake 200 RelayChainProvider), LiquidCall Root ForceMatching, LiquidFinalize,
      LiquidCall Root (StakingNotification 0 (StakingExecutionResult None))]"

definition staking_run :: "nat \<Rightarrow> ref_runtime liquid_state \<times> balance" where
  "staking_run n = run_calls liquid_exec (take n staking_script) (liquid_genesis FX 5000 ref_world, 0)"

lemma staking_run_reached:
  "history liquid_exec (staking_runtime_admitted balances_ref fungibles_ref ref_staking)
     (liquid_genesis FX 5000 ref_world, 0) (staking_run n)"
proof -
  have "staking_runtime_admitted balances_ref fungibles_ref ref_staking act" if "act \<in> set staking_script" for act
    using that ref_staking_sound
    by (auto simp: staking_runtime_admitted_def staking_script_def same_staking_def liquid_admitted_def) (metis ref_staking_def)+
  then show ?thesis unfolding staking_run_def by (intro run_calls_history) (auto dest: in_set_takeD)
qed

lemma ref_staking_calls [simp]:
  "lk_add_xcm_fees ref_staking = runtime_fees xcm_env"
  "lk_xcm_bond ref_staking w n payee x i f = runtime_xcm (\<lambda>s. do_bond xcm_env s n payee x i f) w"
proof -
  have "runtime_xcm_config fungibles_ref 7 xcm_env = xcm_env" by (simp add: runtime_xcm_config_def xcm_env_def)
  moreover have "lk_staking_currency liquid_env = 7" by (simp add: liquid_env_def)
  ultimately show "lk_add_xcm_fees ref_staking = runtime_fees xcm_env"
    "lk_xcm_bond ref_staking w n payee x i f = runtime_xcm (\<lambda>s. do_bond xcm_env s n payee x i f) w"
    by (simp_all add: ref_staking_def runtime_staking_calls)
qed

lemma xcm_env_bond [simp]:
  "do_bond xcm_env s n payee x i f =
     bindE (map_err (\<lambda>_. Module InsufficientXcmFees) (ref_burn (xh_ledger s) 7 91 (xw_fee (xcm_weight_fee s XBond)))) (\<lambda>l.
     Inr (xh_queries s, s\<lparr>xh_ledger := l, xh_queries := xh_queries s + 1\<rparr>))"
  by (simp add: do_bond_def switch_relay_def do_ump_transact_def notify_and_send_def append_transact_def
      report_outcome_notify_def vec_insert_def Let_def xcm_account_id_def bindE_assoc)
    (simp add: fungibles_ref_def)

lemma liquid_ref_simps [simp]:
  "fx_reciprocal liquid_arith_ref = fx_reciprocal sp_arith_ref" "fx_checked_mul_int liquid_arith_ref = fx_checked_mul_int sp_arith_ref"
  "pm_mul_floor liquid_arith_ref = pm_mul_floor sp_arith_ref" "fx_checked_from_rational liquid_arith_ref = fx_checked_from_rational sp_arith_ref"
  by (simp_all add: liquid_arith_ref_def sp_arith.defs)

lemmas staking_eval = Let_def ref_world_def empty_ref_def liquid_genesis_def runtime_currencies_def with_currencies_def
  currency_adapter_def ca_transfer_def ca_mint_into_def ca_burn_from_def ca_balance_def ca_reducible_balance_def
  fungibles_ref_def ref_transfer_def ref_mint_def ref_burn_def ensure_origin_def ensure_signed_def
  checked_add_def checked_sub_def runtime_xcm_def runtime_fees_def xcm_weight_fee_def add_xcm_fees_def xcm_account_id_def
  ls_transfer_def ls_mint_into_def ls_burn_from_def ls_call_def mutate_pool_def ls_account_id_def
  staking_currency_def get_staking_currency_def liquid_currency_def get_liquid_currency_def
  ensure_market_cap_def get_market_cap_def get_total_bonded_def ledger_values_def sat_add_def ensure_staking_ledger_cap_def
  total_bonded_of_def active_bonded_of_def staking_to_liquid_def liquid_to_staking_def target_era_def add_u32_def push_chunk_def
  max_unlocking_chunks_def stake_def unstake_def update_staking_ledger_cap_def ls_on_initialize_def ls_on_finalize_def era_offset_def
  checked_div_def ls_deposit_event_def put_request_def send_request_def do_matching_def get_total_unbonding_def
  do_multi_bond_def do_multi_rebond_def do_multi_unbond_def do_multi_withdraw_unbonded_def MaxMinDistribution_def max_min_bond_def
  ls_do_bond_def derivative_sovereign_account_id_def force_matching_def
  ls_notification_received_def ls_do_notification_received_def burn_staked_def new_staking_ledger_def
  default_matching_ledger_def matching_def ra_free_def set_stake_total_def set_stake_reserved_def set_unstake_total_def set_unstake_reserved_def
  add_stake_amount_def add_unstake_amount_def sub_stake_amount_def set_stake_amount_lock_def remove_stake_amount_lock_def
  clear_matched_def consolidate_stake_def ledger_loss_def staking_run_def staking_script_def run_calls_def sp_arith_ref_def to_u128_def

lemma staking_run_books:
  "ls_total_reserves (fst (staking_run 9)) = 5"
  "unlockings (fst (staking_run 9)) = [5 \<mapsto> [\<lparr>chunk_value = 200, chunk_era = 29\<rparr>]]"
  "staking_ledgers (fst (staking_run 9)) = [0 \<mapsto> new_staking_ledger 1000 785]"
  "matching_pool (fst (staking_run 9)) = default_matching_ledger"
  "staking_held ref_staking (ls_world (fst (staking_run 9))) = 205"
  "snd (staking_run 9) = 0"
  by (simp_all add: staking_held_def staking_eval)

end
