(* ===== verification/Liquid_Properties.thy ===== *)
theory Liquid_Properties
  imports Liquid_Example
begin

text \<open>
  The properties of liquid staking in the runtime, with the history of \<open>Liquid_Example\<close> as their witness: after account 5 staked
  1000 and unstaked 200, and the net was bonded on the relay chain, the pallet holds exactly its reserves of 5 and the 200 to
  be claimed.
\<close>

section \<open>Custody and claims\<close>

text \<open>C9. In every reachable state of liquid staking, wired to the currency adapter, the XCM helper and loans as in the runtime and
  under any interleaving of calls, block hooks and ledger activity of others, the pallet's account holds at least its
  reserves plus all that is staked and not yet bonded.\<close>

theorem staking_pool_in_custody:
  assumes "history liquid_exec (staking_runtime_admitted B A C) (liquid_genesis r f w, 0) (s, lost)"
  shows "ls_total_reserves s + staked (matching_pool s) \<le> staking_held C (ls_world s)"
  using staking_history_safe [OF assms] by (simp add: liquid_safe_def)

theorem staking_pool_in_custody_witness:
  "ls_total_reserves (fst (staking_run 9)) = 5 \<and> staking_held ref_staking (ls_world (fst (staking_run 9))) = 205 \<and>
   ls_total_reserves (fst (staking_run 9)) + staked (matching_pool (fst (staking_run 9))) \<le> staking_held ref_staking (ls_world (fst (staking_run 9)))"
proof -
  have "history liquid_exec (staking_runtime_admitted balances_ref fungibles_ref ref_staking) (liquid_genesis FX 5000 ref_world, 0)
      (fst (staking_run 9), snd (staking_run 9))"
    using staking_run_reached [of 9] by simp
  from staking_pool_in_custody [OF this] show ?thesis by (simp add: staking_run_books(1,5))
qed

text \<open>C10. In every reachable state all that users have unstaked and not yet claimed, with the reserves and the staked pool, is at most
  what the pallet's account holds, plus what is unlocking in the ledgers, plus what waits in the pool for being unbonded,
  plus what ledgers gave up when they were replaced by the ledgers of the relay chain.\<close>

theorem unstake_claims_covered:
  assumes "history liquid_exec (staking_runtime_admitted B A C) (liquid_genesis r f w, 0) (s, lost)"
  shows "claims_total s + ls_total_reserves s + staked (matching_pool s)
    \<le> staking_held C (ls_world s) + unlocking_total s + unstaked (matching_pool s) + lost"
  using staking_history_safe [OF assms] by (simp add: liquid_safe_def)

theorem unstake_claims_covered_witness:
  "claims_total (fst (staking_run 9)) = 200 \<and>
   claims_total (fst (staking_run 9)) + ls_total_reserves (fst (staking_run 9)) + staked (matching_pool (fst (staking_run 9)))
     \<le> staking_held ref_staking (ls_world (fst (staking_run 9))) + unlocking_total (fst (staking_run 9))
       + unstaked (matching_pool (fst (staking_run 9))) + snd (staking_run 9)"
proof -
  have "history liquid_exec (staking_runtime_admitted balances_ref fungibles_ref ref_staking) (liquid_genesis FX 5000 ref_world, 0)
      (fst (staking_run 9), snd (staking_run 9))"
    using staking_run_reached [of 9] by simp
  from unstake_claims_covered [OF this] show ?thesis by (simp add: claims_total_def staking_run_books(2) sum_entries_def)
qed

text \<open>C36. A staking ledger that no call has installed from outside adds up: in every state reached by any calls, block hooks and
  ledger activity of others, except the two calls that set the ledger of the account with index \<open>i\<close> (\<open>set_staking_ledger\<close> and
  \<open>force_set_staking_ledger\<close>, which store what they are given), the total of that ledger is its active balance plus the
  chunks that are unlocking, and fits its 128 bits.\<close>

theorem staking_ledgers_consistent:
  assumes "history liquid_exec (\<lambda>act. \<not> installs i (snd act)) (liquid_genesis r f w, 0) (s, lost)"
    and "staking_ledgers s i = Some l"
  shows "sl_total l = sl_active l + chunk_sum (sl_unlocking l) \<and> sl_total l \<le> u128_max"
proof -
  have "ledger_sound i s" using own_ledger.history_inv [OF assms(1)] by (simp add: liquid_genesis_sound)
  with assms(2) show ?thesis by (simp add: ledger_sound_def ledger_ok_def)
qed

theorem staking_ledgers_consistent_witness:
  "staking_ledgers (fst (staking_run 9)) 0 = Some (new_staking_ledger 1000 785) \<and>
   sl_total (new_staking_ledger 1000 785) = sl_active (new_staking_ledger 1000 785) + chunk_sum (sl_unlocking (new_staking_ledger 1000 785))"
proof -
  have "history liquid_exec (\<lambda>act. \<not> installs 0 (snd act)) (liquid_genesis FX 5000 ref_world, 0) (fst (staking_run 9), snd (staking_run 9))"
    unfolding staking_run_def prod.collapse
    by (rule run_calls_history) (auto simp: staking_script_def dest: in_set_takeD)
  from staking_ledgers_consistent [OF this, of "new_staking_ledger 1000 785"] show ?thesis by (simp add: staking_run_books(3))
qed

section \<open>The exchange rate\<close>

text \<open>C37. No call, hook or activity of others lowers the exchange rate: along any history what one unit of the liquid currency is
  worth never falls.\<close>

theorem exchange_rate_never_falls:
  assumes "history liquid_exec admitted (s, lost) (s', lost')"
  shows "ls_exchange_rate s \<le> ls_exchange_rate s'"
  using staking_rate.history_rel [OF history_mono [OF assms]] by simp

theorem exchange_rate_never_falls_witness:
  "ls_exchange_rate (liquid_genesis FX 5000 ref_world) \<le> ls_exchange_rate (fst (staking_run 9)) \<and>
   unlockings (fst (staking_run 9)) 5 \<noteq> None"
proof -
  have "history liquid_exec (staking_runtime_admitted balances_ref fungibles_ref ref_staking) (liquid_genesis FX 5000 ref_world, 0)
      (fst (staking_run 9), snd (staking_run 9))"
    using staking_run_reached [of 9] by simp
  from exchange_rate_never_falls [OF this] show ?thesis by (simp add: staking_run_books(2))
qed

lemma liquid_rate_simps:
  assumes "liquid_arith_laws A"
  shows "fx_reciprocal A r = (if r = 0 then None else to_u128 (FX * FX div r))"
    and "fx_checked_mul_int A r n = to_u128 (r * n div FX)"
proof -
  have laws: "sp_arith_laws (sp_arith.truncate A)" using assms by (simp add: liquid_arith_laws_def)
  have t: "fx_reciprocal (sp_arith.truncate A) = fx_reciprocal A" "fx_checked_mul_int (sp_arith.truncate A) = fx_checked_mul_int A"
    by (simp_all add: sp_arith.defs)
  show "fx_reciprocal A r = (if r = 0 then None else to_u128 (FX * FX div r))"
    using fx_simps(8) [OF laws, of r] unfolding t .
  show "fx_checked_mul_int A r n = to_u128 (r * n div FX)"
    using fx_simps(5) [OF laws, of r n] unfolding t .
qed

lemma round_trip_le:
  fixes F r n :: nat
  assumes "0 < F"
  shows "r * (F * F div r * n div F) div F \<le> n"
proof -
  define k where "k = F * F div r * n div F"
  have "r * k * F = r * (k * F)" by simp
  also have "\<dots> \<le> r * (F * F div r * n)" unfolding k_def by (intro mult_le_mono2) simp
  also have "\<dots> = r * (F * F div r) * n" by simp
  also have "\<dots> \<le> F * F * n" by (intro mult_le_mono1) simp
  finally have "r * k * F \<le> F * n * F" by (simp add: mult.commute mult.left_commute)
  then have "r * k \<le> F * n" using assms by simp
  then have "r * k div F \<le> F * n div F" by (rule div_le_mono)
  with assms show ?thesis by (simp add: k_def)
qed

lemma conversion_no_profit:
  assumes "liquid_arith_laws (lk_arith C)" and "staking_to_liquid C s n = Some l" and "liquid_to_staking C s' l = Some m"
    and "ls_exchange_rate s' = ls_exchange_rate s"
  shows "m \<le> n"
proof -
  let ?r = "ls_exchange_rate s"
  have to_Some: "x = y" if "to_u128 y = Some x" for x y using that by (auto simp: to_u128_def split: if_splits)
  from assms(2) obtain k where "fx_reciprocal (lk_arith C) ?r = Some k" and l: "fx_checked_mul_int (lk_arith C) k n = Some l"
    unfolding staking_to_liquid_def by (auto simp: bind_eq_Some_conv)
  then have k: "k = FX * FX div ?r" by (auto simp only: liquid_rate_simps [OF assms(1)] split: if_splits dest: to_Some)
  have l: "l = k * n div FX" by (rule to_Some) (use l in \<open>simp only: liquid_rate_simps [OF assms(1)]\<close>)
  have "m = ?r * l div FX"
    by (rule to_Some) (use assms(3,4) in \<open>simp only: liquid_to_staking_def liquid_rate_simps [OF assms(1)]\<close>)
  then show ?thesis unfolding l k using round_trip_le [of FX ?r n] by (simp only: zero_less_numeral simp_thms)
qed

text \<open>The steps of a stake: what the staker pays is split into the fees, the reserves and what joins the pool, and the
  liquid currency for the latter is minted.\<close>

lemma stake_steps:
  assumes "stake C s (Signed x) n = Inr s'"
  obtains k r l s1 s2 s3 where "k + lk_xcm_fees C = n" "r \<le> k"
    "ls_transfer C s (lk_staking_currency C) x (ls_account_id C) k = Inr s1"
    "ls_call s1 (lk_add_xcm_fees C (ls_world s1) x (lk_xcm_fees C)) = Inr s2"
    "staking_to_liquid C s (k - r) = Some l" "ls_mint_into C s2 (lk_liquid_currency C) x l = Inr s3" "ls_world s' = ls_world s3"
    "staked (matching_pool s') = staked (matching_pool s) + (k - r)" "ls_total_reserves s' = ls_total_reserves s + r"
proof -
  define r where "r = pm_mul_floor (lk_arith C) (ls_reserve_factor s) n"
  from assms obtain k l s1 s2 s3 p where k: "lk_xcm_fees C \<le> n" "k = n - lk_xcm_fees C" "r \<le> k"
      and 1: "ls_transfer C s (lk_staking_currency C) x (ls_account_id C) k = Inr s1"
      and 2: "ls_call s1 (lk_add_xcm_fees C (ls_world s1) x (lk_xcm_fees C)) = Inr s2"
      and l: "staking_to_liquid C s2 (k - r) = Some l" and 3: "ls_mint_into C s2 (lk_liquid_currency C) x l = Inr s3"
      and 4: "add_stake_amount (k - r) (matching_pool s3) = (Inr p :: liquid_dispatch_error + matching_ledger)"
      and s': "s' = ls_deposit_event (StakedEvent x (k - r)) (s3\<lparr>matching_pool := p, ls_total_reserves := ls_total_reserves s3 + r\<rparr>)"
    unfolding stake_def Let_def r_def [symmetric]
    by (auto simp: mutate_pool_Inr simp del: diff_diff_left dest!: staking_currency_Inr liquid_currency_Inr elim!: resultE)
  have same: "matching_pool s3 = matching_pool s" "ls_exchange_rate s2 = ls_exchange_rate s" "ls_total_reserves s3 = ls_total_reserves s"
    using 1 2 3 by (auto simp: ls_transfer_def ls_call_def ls_mint_into_def elim!: resultE)
  from 4 same(1) have "staked p = staked (matching_pool s) + (k - r)"
    unfolding add_stake_amount_def by (auto elim!: resultE)
  moreover have "staking_to_liquid C s (k - r) = Some l" using l by (simp add: staking_to_liquid_def same(2))
  ultimately show ?thesis using k same 1 2 3 by (intro that [of k r s1 s2 l s3]) (simp_all add: s' ls_deposit_event_def)
qed

text \<open>C38. Staking and unstaking makes no profit from rounding.  Of what is staked, the fees and the reserves are taken off and the
  rest joins the pool; the staker's balance and the issuance of the liquid currency both grow by the same amount, the value of what
  joined the pool at the exchange rate; and unstaking exactly this amount right after would promise at most what joined the
  pool.  (In the runtime's wiring, whose ledgers keep their laws.)\<close>

theorem stake_unstake_no_profit:
  assumes eq: "S = runtime_staking B A X L C" and "staking_sound B A X L C" and "liquid_arith_laws (lk_arith C)"
    and stk: "stake S s (Signed x) n = Inr s'"
  shows "\<exists>l joined. staked (matching_pool s') = staked (matching_pool s) + joined \<and>
    joined + (ls_total_reserves s' - ls_total_reserves s) + lk_xcm_fees S = n \<and>
    ft_balance (lk_assets S) (ls_world s') (lk_liquid_currency S) x = ft_balance (lk_assets S) (ls_world s) (lk_liquid_currency S) x + l \<and>
    ft_total_issuance (lk_assets S) (ls_world s') (lk_liquid_currency S) = ft_total_issuance (lk_assets S) (ls_world s) (lk_liquid_currency S) + l \<and>
    staking_to_liquid S s joined = Some l \<and> (\<forall>m. liquid_to_staking S s' l = Some m \<longrightarrow> m \<le> joined)"
  using stk
proof (rule stake_steps)
  fix k r l s1 s2 s3
  let ?q = "lk_liquid_currency C"
  define F where "F = currency_adapter (lk_native_currency C) B A"
  assume k: "k + lk_xcm_fees S = n" "r \<le> k" and 1: "ls_transfer S s (lk_staking_currency S) x (ls_account_id S) k = Inr s1"
    and 2: "ls_call s1 (lk_add_xcm_fees S (ls_world s1) x (lk_xcm_fees S)) = Inr s2" and l: "staking_to_liquid S s (k - r) = Some l"
    and 3: "ls_mint_into S s2 (lk_liquid_currency S) x l = Inr s3" and w: "ls_world s' = ls_world s3"
    and pool: "staked (matching_pool s') = staked (matching_pool s) + (k - r)" "ls_total_reserves s' = ls_total_reserves s + r"
  have laws: "fungibles_laws A" "fungibles_laws F" and q: "?q \<noteq> lk_staking_currency C"
    using assms(2) currency_adapter_lawful by (auto simp: staking_sound_def exact_custody_def F_def)
  have S: "lk_arith S = lk_arith C" "lk_xcm_fees S = lk_xcm_fees C" "lk_assets S = runtime_currencies F"
      "lk_add_xcm_fees S = runtime_fees (runtime_xcm_config A (lk_staking_currency C) X)"
      "lk_staking_currency S = lk_staking_currency C" "lk_liquid_currency S = ?q"
    by (simp_all add: eq F_def runtime_staking_def Let_def)
  from 1 have t: "ft_transfer F (currencies_of (ls_world s)) (lk_staking_currency C) x (ls_account_id S) k False = Inr (currencies_of (ls_world s1))"
    by (auto simp: ls_transfer_def S elim!: resultE)
  from 2 have fees: "runtime_fees (runtime_xcm_config A (lk_staking_currency C) X) (ls_world s1) x (lk_xcm_fees C) = Inr (ls_world s2)"
    by (auto simp: ls_call_def S elim!: resultE)
  from 3 have m: "ft_mint_into F (currencies_of (ls_world s2)) ?q x l = Inr (currencies_of (ls_world s3))"
    by (auto simp: ls_mint_into_def S elim!: resultE)
  note steps = fungibles_lawsD(4,5) [OF laws(2) t q] runtime_fees_other [OF laws(1) fees q, where B = B and c = "lk_native_currency C", folded F_def]
    fungibles_laws_mintD [OF laws(2) m]
  have "m \<le> k - r" if "liquid_to_staking S s' l = Some m" for m
    by (rule conversion_no_profit [OF _ l that]) (use assms(3) value_calls_rate(1) [OF stk] in \<open>simp_all add: S\<close>)
  with k pool steps show ?thesis
    by - (rule exI [of _ l], rule exI [of _ "k - r"], simp add: w l S)
qed

theorem stake_unstake_no_profit_witness:
  "\<exists>l m. ft_total_issuance (lk_assets ref_staking) (ls_world (fst (staking_run 5))) 8 =
       ft_total_issuance (lk_assets ref_staking) (ls_world (fst (staking_run 4))) 8 + l \<and>
     staking_to_liquid ref_staking (fst (staking_run 4)) 985 = Some l \<and>
     liquid_to_staking ref_staking (fst (staking_run 5)) l = Some m \<and> m \<le> 985"
proof -
  have "stake ref_staking (fst (staking_run 4)) (Signed 5) 1000 = Inr (fst (staking_run 5))"
    and joined: "staked (matching_pool (fst (staking_run 4))) = 0" "staked (matching_pool (fst (staking_run 5))) = 985"
      "staking_to_liquid ref_staking (fst (staking_run 4)) 985 = Some 985" "liquid_to_staking ref_staking (fst (staking_run 5)) 985 = Some 985"
    by (simp_all add: staking_eval)
  with stake_unstake_no_profit [OF ref_staking_def ref_staking_sound _ this(1)] show ?thesis by (auto simp: liquid_env_def)
qed

section \<open>Matching, distribution and replies\<close>

text \<open>Matching settles the difference of the two pools exactly: what is bonded and rebonded with the free unstaked amount equals what is
  unbonded with the free staked amount, never both sides at once, never more is rebonded than is unbonding, and new
  stake is bonded only after everything that is unbonding was rebonded.\<close>

theorem matching_settles_difference:
  assumes "matching p unbonding = Inr (b, r, u)"
  shows "b + r + (unstaked p - ra_reserved (total_unstake_amount p)) = u + (staked p - ra_reserved (total_stake_amount p)) \<and>
    (u = 0 \<or> b = 0 \<and> r = 0) \<and> r \<le> unbonding \<and> (b = 0 \<or> r = unbonding)"
  using matching_effect [OF assms] by blast

theorem matching_settles_difference_witness:
  "matching (matching_pool (fst (staking_run 6))) 100 = (Inr (685, 100, 0) :: liquid_dispatch_error + balance \<times> balance \<times> balance) \<and>
   685 + 100 + unstaked (matching_pool (fst (staking_run 6))) = staked (matching_pool (fst (staking_run 6)))"
proof -
  have m: "matching (matching_pool (fst (staking_run 6))) 100 = (Inr (685, 100, 0) :: liquid_dispatch_error + balance \<times> balance \<times> balance)"
    "ra_reserved (total_unstake_amount (matching_pool (fst (staking_run 6)))) = 0"
    "ra_reserved (total_stake_amount (matching_pool (fst (staking_run 6)))) = 0"
    by (simp_all add: staking_eval)
  with matching_settles_difference [OF m(1)] show ?thesis by simp
qed

text \<open>C39. The distribution the runtime uses never hands out more than it is given and keeps the limits of every account: a bond
  stays below the cap and leaves at least the minimum bond, an unbond leaves at least the minimum bond, and a rebond is at
  most what is unbonding.\<close>

theorem max_min_distribution_sound:
  "parts_total (bond_distributions MaxMinDistribution bs n cap least) \<le> n \<and>
   parts_total (unbond_distributions MaxMinDistribution us n least) \<le> n \<and>
   parts_total (rebond_distributions MaxMinDistribution us n) \<le> n \<and>
   list_all (bond_part_ok bs cap least) (bond_distributions MaxMinDistribution bs n cap least) \<and>
   list_all (unbond_part_ok us least) (unbond_distributions MaxMinDistribution us n least) \<and>
   list_all (rebond_part_ok us) (rebond_distributions MaxMinDistribution us n)"
  by (simp add: list_all_iff max_min.bond_total max_min.unbond_total max_min.rebond_total max_min.bond_minimum
      max_min_unbond_parts max_min.rebond_parts)

text \<open>C40. A reply of the relay chain is applied once: after a successful reply the request is gone, and a further reply to the same query
  changes nothing but the events.\<close>

theorem reply_applied_once:
  assumes "liquid_dispatch C s o' (StakingNotification q (StakingExecutionResult None)) = Inr s'"
    and "liquid_dispatch C s' o'' (StakingNotification q (StakingExecutionResult res)) = Inr s''"
  shows "staking_requests s' q = None \<and> s'' = s'\<lparr>ls_events := ls_events s''\<rparr>"
proof -
  have gone: "staking_requests s' q = None"
    using assms(1)
    by (auto simp: ls_notification_received_def ls_do_notification_received_def ls_deposit_event_def split: option.splits elim!: bindE_InrE)
  with assms(2) show ?thesis by (auto simp: ls_notification_received_def ls_deposit_event_def split: option.splits elim!: bindE_InrE)
qed

theorem reply_applied_once_witness:
  "\<exists>s''. liquid_dispatch ref_staking (fst (staking_run 9)) Root (StakingNotification 0 (StakingExecutionResult None)) = Inr s'' \<and>
     s'' = (fst (staking_run 9))\<lparr>ls_events := ls_events s''\<rparr>"
proof -
  have first: "liquid_dispatch ref_staking (fst (staking_run 8)) Root (StakingNotification 0 (StakingExecutionResult None)) = Inr (fst (staking_run 9))"
    by (simp add: staking_eval)
  obtain s'' where second: "liquid_dispatch ref_staking (fst (staking_run 9)) Root (StakingNotification 0 (StakingExecutionResult None)) = Inr s''"
    by (simp add: staking_eval)
  from reply_applied_once [OF first second] second show ?thesis by blast
qed

text \<open>
  The strategy sorts by active balance while the cap is on the total: an account with little active and much unlocking stops the
  loop, and the account behind it gets nothing although it has room.
\<close>

lemma capped_account_stops_bonding:
  "bond_distributions MaxMinDistribution [(0, 10, 100), (3, 50, 50)] 30 100 5 = []"
  "bond_distributions MaxMinDistribution [(3, 50, 50)] 30 100 5 = [(3, 30)]"
  by (simp_all add: MaxMinDistribution_def max_min_bond_def saturating_sub_def sat_add_def Let_def)

end
