(* ===== verification/Xcm_Properties.thy ===== *)
theory Xcm_Properties
  imports Xcm_Messages Relay_Encoding Crowdloans_Example
begin

text \<open>
  The properties of the messages to the relay chain: what bytes say is one call only, and an operation of the helper sends
  one message with its calls in order, paid from the helper's own account.
\<close>

text \<open>C34. The bytes of a call to the relay chain, on either network and followed by anything, determine the call: two calls of
  sized data with the same encoding are equal, nested proxy, batch and derivative calls included.\<close>

theorem relay_call_encoding_unambiguous:
  assumes "codec_laws K" and "call_sized x" and "call_sized y"
    and "encode_relaychain_call K N x @ r = encode_relaychain_call K N y @ r'"
  shows "x = y \<and> r = r'"
  using relaychain_call_iff [OF assms(1-3)] assms(4) by simp

theorem relay_call_encoding_unambiguous_witness:
  "let x = ProxyC (Proxy (ProxyProxyCall 5 None (CrowdloansC (Contribute (CrowdloansContributeCall 2000 3 None)))));
       y = BalancesC (TransferKeepAlive (BalancesTransferKeepAliveCall 5 3)) in
   codec_laws unary_codec \<and> call_sized x \<and> call_sized y \<and>
   encode_relaychain_call unary_codec Polkadot x \<noteq> encode_relaychain_call unary_codec Polkadot y"
  unfolding Let_def
  using unary_codec_laws relay_call_encoding_unambiguous [OF unary_codec_laws,
    of "ProxyC (Proxy (ProxyProxyCall 5 None (CrowdloansC (Contribute (CrowdloansContributeCall 2000 3 None)))))"
       "BalancesC (TransferKeepAlive (BalancesTransferKeepAliveCall 5 3))" Polkadot "[]" "[]"]
  by (auto simp: account_sized_def)

text \<open>C35. The operations that need two calls on the relay chain are accepted exactly when the fee of their kind is burnt from the
  helper's account and one message is sent that pays with the fee, reports its outcome to the query it returns, and
  executes the two calls in their order: the transfer before the bond or the proxied contribution that spends it, and the
  unbonding before the transfer back.\<close>

theorem helper_sends_calls_in_order:
  "(do_bond C s n payee x i notify = Inr (q, s') \<longleftrightarrow>
      ump_sent C s XBond
        [BalancesC (TransferKeepAlive (BalancesTransferKeepAliveCall (xh_unlookup C x) n)),
         UtilityC (AsDerivative (UtilityAsDerivativeCall i (StakingC (Bond (StakingBondCall (xh_unlookup C x) n payee)))))] notify q s') \<and>
   (do_bond_extra C s n x i notify = Inr (q, s') \<longleftrightarrow>
      ump_sent C s XBondExtra
        [BalancesC (TransferKeepAlive (BalancesTransferKeepAliveCall (xh_unlookup C x) n)),
         UtilityC (AsDerivative (UtilityAsDerivativeCall i (StakingC (BondExtra (StakingBondExtraCall n)))))] notify q s') \<and>
   (do_withdraw_unbonded C s spans x i notify = Inr (q, s') \<longleftrightarrow>
      ump_sent C s XWithdrawUnbonded
        [UtilityC (AsDerivative (UtilityAsDerivativeCall i (StakingC (WithdrawUnbonded (StakingWithdrawUnbondedCall spans))))),
         UtilityC (AsDerivative (UtilityAsDerivativeCall i (BalancesC (TransferAll (BalancesTransferAllCall (xh_unlookup C x) True)))))] notify q s') \<and>
   (do_proxy_contribute C s p n x notify = Inr (q, s') \<longleftrightarrow>
      (\<exists>real. xh_account_of C x = Some real \<and> ump_sent C s XContribute
        [BalancesC (TransferKeepAlive (BalancesTransferKeepAliveCall (xh_unlookup C x) n)),
         ProxyC (Proxy (ProxyProxyCall real None (CrowdloansC (Contribute (CrowdloansContributeCall p n None)))))] notify q s')) \<and>
   ump_message C m [call, call'] destination q notify =
     [WithdrawAsset (Here, xw_fee m), BuyExecution (Here, xw_fee m) Unlimited,
      SetAppendix [ReportError destination q (xh_call_weight C notify)],
      Transact SovereignAccount (xw_weight m) (encode_relaychain_call (xh_codec C) (xh_network C) call),
      Transact SovereignAccount (xw_weight m) (encode_relaychain_call (xh_codec C) (xh_network C) call'),
      RefundSurplus, DepositAsset (Here, xw_fee m) (refund_location C)]"
  by (simp add: relay_calls_sent) (simp add: ump_message_def)

end
