(* ===== verification/Spec2Isabelle.thy ===== *)
theory Spec2Isabelle
  imports Loans_Properties Loans_Service_Properties Currency_Adapter Router_Properties Prices_Properties Streaming_Properties Farming_Properties Stableswap_Properties Bridge_Properties Crowdloans_Properties Liquid_Properties Xcm_Properties
begin

text \<open>
  A verification of the lending, trading, pricing, streaming, farming, bridging, crowdloan and liquid staking pallets of the
  Parallel chain (Rust, Substrate; src/pallets and src/primitives).

  \<^bold>\<open>The program.\<close>  Each pallet is a storage with dispatchable calls.

  \<^item> loans: markets with deposits (vouchers, also usable as tokens, the ptokens), collateral, debts, interest,
    liquidation and rewards;
  \<^item> amm: constant-product pools; stableswap: pools for assets of equal value; router: trades along routes of pools;
  \<^item> prices: the feed that loans reads, which prices liquidity tokens from the pools of amm;
  \<^item> streaming: payments over time; farming: staking pools with rewards;
  \<^item> bridge: tokens that leave for other chains and arrive by the votes of relay members;
  \<^item> xcm-helper: messages to the relay chain; crowdloans: contributions to parachain auctions, with ctokens; liquid-staking: stake
    on the relay chain behind a liquid currency; all three wait for replies of the relay chain;
  \<^item> currency-adapter: native currency and assets behind one token interface, over which all the others move
    funds.

  \<^bold>\<open>Conventions\<close> (theories \<open>Parallel_Prelude\<close>, \<open>Sp_Arith\<close>, \<open>Fungibles\<close>, \<open>Primitives\<close>).  Storage is a
  record, a \<open>StorageMap\<close> a map, an \<open>OptionQuery\<close> an option.  A fallible function returns \<open>error + value\<close>; \<open>bindE\<close>
  is the question mark, and an error carries no state, since calls are transactional.  Unsigned integers are
  naturals with their bound written out at every operation: \<open>checked_add\<close> and its relatives return an
  option, saturating ones saturate, and plain operators, which panic under the workspace's
  \<open>overflow-checks\<close>, return \<open>Panic\<close>.  \<open>FixedU128\<close> is its inner integer and \<open>Permill\<close> its parts per million.
  Three things are code outside the repository and therefore parameters:

  \<^item> the fixed-point arithmetic \<open>sp_arith\<close>, with \<open>sp_arith_laws\<close> as hypothesis (the exact result rounded in the
    documented direction; a checked operation fails and a saturating one clamps at the width); \<open>sp_arith_ref\<close> satisfies it;
  \<^item> the token ledger \<open>fungibles\<close>, with \<open>fungibles_laws\<close> (a transfer, mint or burn moves what it says, up to dust
    below the minimum balance); \<open>fungibles_ref\<close> satisfies it, and so does the model of the currency adapter for every two lawful
    ledgers;
  \<^item> clock, oracle, hashes and runtime constants, fields of the configuration records.

  \<^bold>\<open>Histories.\<close>  \<open>history exec admitted s s'\<close> is the step relation of a pallet closed under
  sequences: calls by any accounts in any order, failed ones included, each in an environment of its own, so
  that time, block number and prices change between them.  The locales \<open>kept_by_calls\<close> and \<open>ordered_by_calls\<close> say what a
  pallet owes in order to have an invariant, or to move forward only; the first is interpreted for loans, amm,
  streaming, farming, bridge, crowdloans and liquid staking, the second for loans, bridge and liquid staking.  Where a pallet's funds are at stake, the ledger is
  also used by others: their actions may not debit the pallet's account, which has no key.

  \<^bold>\<open>loans.\<close>  \<open>Loans_Types\<close> (types.rs, storage), \<open>Rate_Model\<close> (rate_model.rs), \<open>Loans_Interest\<close> (interest.rs),
  \<open>Loans_Farming\<close> (farming.rs), \<open>Loans_Position\<close> and \<open>Loans_Ops\<close> (the read-only functions and the \<open>do_\<close> functions of lib.rs),
  \<open>Loans_Calls\<close> (all calls), \<open>Loans_Ptoken\<close> (ptoken.rs).  \<open>Loans_Effects\<close> says what each successful
  operation did; \<open>Loans_Invariants\<close> has the invariant over histories; \<open>Loans_Safety\<close> the value arguments.
  \<open>Loans_Properties\<close> and \<open>Loans_Service_Properties\<close> show: vouchers are conserved, debts never fall
  below the principal, indices and clocks only move forward, borrowing and redeeming stay within the liquidity of the
  account and releasing collateral leaves the debts covered, a liquidation hits only accounts in shortfall and seizes what it must and no more, minting
  and redeeming give no free value out of the deposits of others, interest and rewards are bounded, ptokens and markets correspond,
  inactive markets refuse.

  \<^bold>\<open>Exchanges.\<close>  \<open>Pallet_Traits\<close> (pools and the square root of src/pallets/traits), \<open>Amm\<close>, \<open>Amm_Safety\<close>,
  \<open>Amm_Histories\<close>, \<open>Amm_Properties\<close>: the pallet holds the reserves of all pools, a trade never
  lowers the product of the reserves, no profit by trading back or by adding and removing liquidity, and the first protocol fee
  that forgets the growth before it.  \<open>Stableswap\<close> and \<open>Stableswap_Properties\<close>: the
  invariant of a balanced pool, and pools on which the computed invariant is zero or falls.  Its
  Newton iterations run the 255 steps the code allows and fail as the code does when they have
  not converged, so they need no fuel of the model's own.  \<open>Router\<close>, \<open>Router_Routes\<close>, \<open>Router_Properties\<close>: the router is generic in
  the exchange; the locale \<open>amm_exchange\<close> is its contract, interpreted on \<open>Amm\<close>.  The search of routes terminates
  (its measure is in \<open>Router\<close>), finds exactly the simple routes and returns the best one; an exact-input trade
  delivers its minimum; an exact-output trade can deliver less than asked for.

  \<^bold>\<open>prices.\<close>  \<open>Prices\<close>, \<open>Prices_Properties\<close>.  The query follows mappings between assets by recursion that need not end, so it is a
  \<open>partial_function (option)\<close>: it is shown to return where the mapping is well-founded, and, for an asset mapped to itself, exactly when it does
  not return.

  \<^bold>\<open>streaming and farming.\<close>  \<open>Streaming\<close> and \<open>Farming\<close> are the pallets, \<open>_Safety\<close> the meaning of what they owe and the
  effect of each call, \<open>_Histories\<close> the step relations, \<open>_Properties\<close> the results: both hold what they owe in
  every reachable state, a stream follows its schedule and a cancellation splits the rest, a stake
  comes back and not before its cool-down.  Custody is stated for assets with a minimum balance of
  at most one at the pallet's account (\<open>exact_custody\<close>), for which no dust is lost.

  \<^bold>\<open>bridge.\<close>  \<open>Bridge\<close> is the pallet (lib.rs, types.rs, and the adjustment of the threshold when the members change).
  \<open>Bridge_Safety\<close> has the registry of nonces as a set and the effect of a teleport and of a vote, \<open>Bridge_Histories\<close>
  the invariants of nonces, votes and tokens, \<open>Bridge_Backing\<close> supply and custody, \<open>Bridge_Progress\<close> the votes that
  succeed, \<open>Bridge_Typing\<close> the widths.  \<open>Bridge_Properties\<close> shows: no nonce is closed twice while its chain stays registered,
  arrivals need the votes of the threshold, each cast by a member of its time or by Root, and happen with them unless the nonce
  can not be recorded, external tokens are backed and locked
  ones are held, and where the bonus blocks an arrival.

  \<^bold>\<open>The relay chain.\<close>  \<open>Relay_Calls\<close> has the calls of traits/src/ump.rs with their encoding and \<open>Relay_Encoding\<close> shows that the bytes determine
  the call, for any codec of numbers and accounts that is prefix-free.  \<open>Xcm_Helper\<close> is the pallet xcm-helper, over the query registry
  of \<open>pallet_xcm\<close> and a message sender as parameters; \<open>Xcm_Messages\<close> gives for every operation exactly when it is
  accepted and which message it sends, \<open>Xcm_Properties\<close> the results.

  \<^bold>\<open>crowdloans.\<close>  \<open>Crowdloans\<close> is the pallet (lib.rs, types.rs), generic in the four pallets it calls, which share one state.  A child trie
  is a map under the hash of its label and index; \<open>no_collisions\<close> is the hypothesis on the hash.  \<open>Crowdloans_Books\<close> has the
  totals of vaults against the tries, \<open>Crowdloans_Safety\<close> the contract of the callees (locale \<open>crowdloan_services\<close>) and the
  effect of each call, \<open>Crowdloans_Histories\<close> the histories, phases and refunds, \<open>Crowdloans_Requests\<close> where the stored
  withdrawals come from.  \<open>Crowdloans_Composition\<close> wires in the models of the
  XCM helper, streaming, loans and the currency adapter as the runtime does and proves the contract for them;
  \<open>Crowdloans_Example\<close> is a concrete runtime.  \<open>Crowdloans_Properties\<close> shows: contributions that are pending or in flight are held, ctokens
  are backed, phases follow the life cycle, up to a late reply of the relay chain, which sets what was once asked for; refunds pay everybody
  back; and the term of a ctoken is monotone.

  \<^bold>\<open>liquid staking.\<close>  \<open>Staking_Ledgers\<close> has the matching pool and the ledgers (types.rs), \<open>Staking_Distribution\<close> the strategies of
  distribution.rs with their contract (locale \<open>distribution\<close>), \<open>Liquid_Staking\<close> the pallet (lib.rs): every call, both block hooks (an error inside \<open>on_initialize\<close> rolls the hook back, a panic remains one), the
  messages to the relay chain and their replies.  The reader of storage proofs, the encodings and the inherent data are
  parameters.  \<open>Liquid_Books\<close> has the contract of the callees (locale \<open>liquid_services\<close>) and the operations that leave the
  books alone, \<open>Liquid_Safety\<close> the effect of every call on them, \<open>Liquid_Histories\<close> the histories, which carry next to the
  state what ledgers gave up when they were replaced by ledgers of the relay chain.  \<open>Liquid_Composition\<close> wires in the currency
  adapter, the XCM helper and loans as the runtime does and proves the contract for them; \<open>Liquid_Example\<close> is a concrete
  runtime with a history.  \<open>Liquid_Properties\<close> shows: reserves and the staked pool are held, claims are covered, ledgers that are not set from outside add up, the
  exchange rate never falls, staking and unstaking gives no profit, matching settles the difference of the pools, the
  distribution keeps its limits and a reply counts once.  For the custody of the pool and the claims a replaced ledger is assumed to add up, as one that was read from the
  relay chain does.

  \<^bold>\<open>Not modelled.\<close>  \<open>get_exchange_rate\<close> of crowdloans (floating-point numbers); asset-registry, emergency-shutdown and evm-signatures; the EVM
  precompiles; the runtimes, the node and the RPC servers (configuration and I/O); weights,
  benchmarks, migrations, mocks, tests and scripts.  Weights and encoded sizes are not part of any model, and the
  emitted events are recorded where a later reader of the chain could rely on them.
\<close>

end
